(* ===== verification/Prelude.thy ===== *)
theory Prelude
  imports Complex_Main "HOL-Library.AList"
begin

text \<open>
  Shared vocabulary of the development: Python exceptions, the outcome of awaiting a
  coroutine, coroutines as functions of a cancellation deadline, the clock and a world,
  the two asyncio primitives the program builds on (\<open>asyncio.sleep\<close> and
  \<open>asyncio.wait_for\<close>), and Python dictionaries as association lists in insertion order.

  Conventions. Floats are exact rationals (type \<open>rat\<close>): rounding is not modelled. Python
  integers are \<open>int\<close>. Log calls and docstrings have no counterpart. Wall-clock reads
  (\<open>time.time()\<close>, \<open>datetime.now()\<close>) are the clock of the coroutine, in seconds.
\<close>

named_theorems coro_intros \<open>timeliness of coroutines and layers\<close>
named_theorems seg_defs \<open>definitions of the atomic segments between two awaits\<close>

section \<open>Exceptions and outcomes\<close>

text \<open>
  An exception object is the list of the names of its class and of the bases of that class
  (its method resolution order), and its message. Every value is an instance of
  \<open>Exception\<close>; the cancellation of a task (a \<open>BaseException\<close> that \<open>except Exception\<close>
  does not catch) is the separate outcome \<open>Cancelled\<close>.
\<close>

datatype exn = Exn (mro: "string list") (message: string)

definition isinstance :: "exn \<Rightarrow> string \<Rightarrow> bool" where
  "isinstance e c \<longleftrightarrow> c = ''Exception'' \<or> c \<in> set (mro e)"

definition exception :: "string \<Rightarrow> exn" where
  "exception m = Exn [''Exception''] m"

definition timeout_error :: exn where
  "timeout_error = Exn [''TimeoutError'', ''OSError'', ''Exception''] ''''"

definition value_error :: "string \<Rightarrow> exn" where
  "value_error m = Exn [''ValueError'', ''Exception''] m"

definition is_timeout :: "exn \<Rightarrow> bool" where
  "is_timeout e \<longleftrightarrow> isinstance e ''TimeoutError''"

lemma is_timeout_timeout_error [simp]: "is_timeout timeout_error"
  by (simp add: is_timeout_def isinstance_def timeout_error_def)

lemma not_is_timeout_exception [simp]: "\<not> is_timeout (exception m)"
  by (simp add: is_timeout_def isinstance_def exception_def)

lemma isinstance_Exception [simp]: "isinstance e ''Exception''"
  by (simp add: isinstance_def)

datatype 'a outcome = Ok 'a | Raise exn | Cancelled

section \<open>Coroutines\<close>

text \<open>
  \<open>f dl t w\<close> is the coroutine \<open>f\<close> awaited at time \<open>t\<close> in the world \<open>w\<close>; \<open>dl\<close> is the time
  at which an enclosing \<open>asyncio.wait_for\<close> cancels it, if any. The result is the outcome, the
  time at which it is delivered, and the world then.
\<close>

type_synonym ('w, 'a) coro = "rat option \<Rightarrow> rat \<Rightarrow> 'w \<Rightarrow> 'a outcome \<times> rat \<times> 'w"

definition sleep :: "rat \<Rightarrow> ('w, unit) coro" where
  "sleep d dl t w =
     (let t' = t + max 0 d in
      case dl of
        None \<Rightarrow> (Ok (), t', w)
      | Some D \<Rightarrow> if t' \<le> max t D then (Ok (), t', w) else (Cancelled, max t D, w))"

lemma sleep_cases:
  obtains (slept) t2 where "sleep d dl t w = (Ok (), t2, w)" "t \<le> t2"
      "\<And>D. dl = Some D \<Longrightarrow> t2 \<le> max t D" "t2 = t + max 0 d"
  | (cancelled) D where "dl = Some D" "sleep d dl t w = (Cancelled, max t D, w)"
proof (cases "\<exists>D. dl = Some D \<and> \<not> t + max 0 d \<le> max t D")
  case True
  then show ?thesis using cancelled by (auto simp: sleep_def Let_def)
next
  case False
  then have "sleep d dl t w = (Ok (), t + max 0 d, w)"
    by (auto simp: sleep_def Let_def split: option.split)
  then show ?thesis using False by (intro slept) auto
qed

text \<open>
  \<open>asyncio.wait_for(f, timeout)\<close>. A timeout that is not positive cancels the coroutine before
  it starts. Otherwise the coroutine runs under the earlier of its own deadline and that of
  the enclosing wait; when its own deadline cancelled it, the caller sees a
  \<open>TimeoutError\<close>, when the enclosing one did, the cancellation goes on outwards.
\<close>

definition own_deadline :: "rat \<Rightarrow> rat option \<Rightarrow> bool" where
  "own_deadline D dl = (case dl of None \<Rightarrow> True | Some D' \<Rightarrow> D \<le> D')"

definition wait_for :: "rat \<Rightarrow> ('w, 'a) coro \<Rightarrow> ('w, 'a) coro" where
  "wait_for tmo f dl t w =
     (if tmo \<le> 0 then (Raise timeout_error, t, w)
      else if own_deadline (t + tmo) dl then
        (case f (Some (t + tmo)) t w of
           (Ok v, t', w') \<Rightarrow> (Ok v, t', w')
         | (Raise e, t', w') \<Rightarrow> (Raise e, t', w')
         | (Cancelled, t', w') \<Rightarrow> (Raise timeout_error, t', w'))
      else f dl t w)"

text \<open>
  A coroutine is timely when the clock does not go back, a deadline is met, and nothing is
  cancelled without a deadline.
\<close>

definition timely :: "('w, 'a) coro \<Rightarrow> bool" where
  "timely f \<longleftrightarrow>
     (\<forall>dl t w r t' w'. f dl t w = (r, t', w') \<longrightarrow>
        t \<le> t' \<and> (case dl of None \<Rightarrow> r \<noteq> Cancelled | Some D \<Rightarrow> t' \<le> max t D))"

lemma timelyI:
  assumes "\<And>t w r t' w'. f None t w = (r, t', w') \<Longrightarrow> t \<le> t' \<and> r \<noteq> Cancelled"
    and "\<And>D t w r t' w'. f (Some D) t w = (r, t', w') \<Longrightarrow> t \<le> t' \<and> t' \<le> max t D"
  shows "timely f"
  unfolding timely_def
proof (intro allI impI)
  fix dl t w r t' w'
  assume "f dl t w = (r, t', w')"
  then show "t \<le> t' \<and> (case dl of None \<Rightarrow> r \<noteq> Cancelled | Some D \<Rightarrow> t' \<le> max t D)"
    using assms by (cases dl) simp_all
qed

lemma timelyD:
  assumes "timely f" and "f dl t w = (r, t', w')"
  shows "t \<le> t'"
    and "dl = None \<Longrightarrow> r \<noteq> Cancelled"
    and "dl = Some D \<Longrightarrow> t' \<le> max t D"
proof -
  have *: "t \<le> t' \<and> (case dl of None \<Rightarrow> r \<noteq> Cancelled | Some D \<Rightarrow> t' \<le> max t D)"
    using assms unfolding timely_def by blast
  show "t \<le> t'" using * by simp
  show "dl = None \<Longrightarrow> r \<noteq> Cancelled" using * by simp
  show "dl = Some D \<Longrightarrow> t' \<le> max t D" using * by simp
qed

lemma timely_conj:
  assumes "timely f" and "f dl t w = (r, t', w')"
  shows "t \<le> t' \<and> (dl = None \<longrightarrow> r \<noteq> Cancelled) \<and> (\<forall>D. dl = Some D \<longrightarrow> t' \<le> max t D)"
  using timelyD [OF assms] by blast

lemma timely_sleep [coro_intros]: "timely (sleep d)"
  by (rule timelyI) (auto simp: sleep_def Let_def split: if_splits)

lemma timely_wait_for [coro_intros]:
  assumes f: "timely f"
  shows "timely (wait_for tmo f)"
proof (rule timelyI, goal_cases)
  case (1 t w r t' w')
  then show ?case
    using timelyD(1)[OF f]
    by (auto simp: wait_for_def own_deadline_def split: if_splits prod.splits outcome.splits)
next
  case (2 D t w r t' w')
  show ?case
  proof (cases "tmo \<le> 0 \<or> \<not> t + tmo \<le> D")
    case True
    with 2 timelyD[OF f] show ?thesis
      by (auto simp: wait_for_def own_deadline_def split: if_splits)
  next
    case False
    then obtain r1 t1 w1 where f1: "f (Some (t + tmo)) t w = (r1, t1, w1)"
      by (cases "f (Some (t + tmo)) t w") auto
    have "t \<le> t1" "t1 \<le> max t (t + tmo)"
      using timelyD(1,3)[OF f f1] by auto
    moreover have "t' = t1"
      using 2 False f1 by (auto simp: wait_for_def own_deadline_def split: outcome.splits)
    ultimately show ?thesis using False by auto
  qed
qed

lemma wait_for_not_cancelled:
  assumes "timely f"
  shows "wait_for tmo f None t w \<noteq> (Cancelled, t', w')"
  using timelyD(2)[OF timely_wait_for[OF assms]] by blast

lemma wait_for_bound:
  assumes "timely f" and "0 \<le> tmo" and "wait_for tmo f None t w = (r, t', w')"
  shows "t' \<le> t + tmo"
  using assms timelyD(3)[OF assms(1), of "Some (t + tmo)" t w]
  by (auto simp: wait_for_def own_deadline_def split: if_splits prod.splits outcome.splits)

section \<open>Sequencing\<close>

text \<open>
  \<open>co_bind\<close> awaits one coroutine and goes on with another; \<open>co_catch\<close> is \<open>try ... except Exception\<close>,
  which does not see a cancellation.
\<close>

definition co_return :: "'a \<Rightarrow> ('w, 'a) coro" where
  "co_return x dl t w = (Ok x, t, w)"

definition co_raise :: "exn \<Rightarrow> ('w, 'a) coro" where
  "co_raise e dl t w = (Raise e, t, w)"

definition co_lift :: "exn + 'a \<Rightarrow> ('w, 'a) coro" where
  "co_lift x = (case x of Inl e \<Rightarrow> co_raise e | Inr v \<Rightarrow> co_return v)"

definition co_now :: "('w, rat) coro" where
  "co_now dl t w = (Ok t, t, w)"

definition co_bind :: "('w, 'a) coro \<Rightarrow> ('a \<Rightarrow> ('w, 'b) coro) \<Rightarrow> ('w, 'b) coro" where
  "co_bind f g dl t w =
     (case f dl t w of
        (Ok x, t1, w1) \<Rightarrow> g x dl t1 w1
      | (Raise e, t1, w1) \<Rightarrow> (Raise e, t1, w1)
      | (Cancelled, t1, w1) \<Rightarrow> (Cancelled, t1, w1))"

definition co_catch :: "('w, 'a) coro \<Rightarrow> (exn \<Rightarrow> ('w, 'a) coro) \<Rightarrow> ('w, 'a) coro" where
  "co_catch f h dl t w =
     (case f dl t w of
        (Ok x, t1, w1) \<Rightarrow> (Ok x, t1, w1)
      | (Raise e, t1, w1) \<Rightarrow> h e dl t1 w1
      | (Cancelled, t1, w1) \<Rightarrow> (Cancelled, t1, w1))"

text \<open>\<open>try ... finally\<close>: what the clean-up raises wins.\<close>

definition co_finally :: "('w, 'a) coro \<Rightarrow> ('w, unit) coro \<Rightarrow> ('w, 'a) coro" where
  "co_finally f g dl t w =
     (case f dl t w of
        (r, t1, w1) \<Rightarrow>
          (case g dl t1 w1 of
             (Ok _, t2, w2) \<Rightarrow> (r, t2, w2)
           | (Raise e, t2, w2) \<Rightarrow> (Raise e, t2, w2)
           | (Cancelled, t2, w2) \<Rightarrow> (Cancelled, t2, w2)))"

fun co_each :: "('a \<Rightarrow> ('w, unit) coro) \<Rightarrow> 'a list \<Rightarrow> ('w, unit) coro" where
  "co_each f [] = co_return ()"
| "co_each f (x # xs) = co_bind (f x) (\<lambda>_. co_each f xs)"

lemma co_lift_simps [simp]: "co_lift (Inl e) = co_raise e" "co_lift (Inr x) = co_return x"
  by (simp_all add: co_lift_def)

lemma co_bind_simps [simp]:
  "co_bind (co_return x) g = g x" "co_bind (co_raise e) g = co_raise e"
  "co_bind (co_bind f g) h = co_bind f (\<lambda>x. co_bind (g x) h)"
  "co_bind f co_return = f"
  by (auto simp: fun_eq_iff co_bind_def co_return_def co_raise_def split: prod.split outcome.split)

lemma co_catch_simps [simp]:
  "co_catch (co_return x) h = co_return x" "co_catch (co_raise e) h = h e"
  by (simp_all add: fun_eq_iff co_catch_def co_return_def co_raise_def)

lemma timely_co [coro_intros]:
  "timely (co_return x)" "timely (co_raise e)" "timely (co_lift r)" "timely co_now"
  by (auto simp: timely_def co_return_def co_raise_def co_now_def co_lift_def split: sum.split option.split)

lemma timely_co_bind [coro_intros]:
  assumes f: "timely f" and g: "\<And>x. timely (g x)"
  shows "timely (co_bind f g)"
  unfolding timely_def
proof (intro allI impI)
  fix dl t w r t' w'
  assume run: "co_bind f g dl t w = (r, t', w')"
  obtain q t1 w1 where q: "f dl t w = (q, t1, w1)" by (rule prod_cases3)
  show "t \<le> t' \<and> (case dl of None \<Rightarrow> r \<noteq> Cancelled | Some D \<Rightarrow> t' \<le> max t D)"
  proof (cases q)
    case (Ok x)
    have "g x dl t1 w1 = (r, t', w')" using run by (simp add: co_bind_def q Ok)
    from timely_conj [OF g this] timely_conj [OF f q] show ?thesis by (cases dl) auto
  qed (use run timely_conj [OF f q] in \<open>auto simp: co_bind_def q split: option.split\<close>)
qed

lemma timely_co_catch [coro_intros]:
  assumes f: "timely f" and h: "\<And>e. timely (h e)"
  shows "timely (co_catch f h)"
  unfolding timely_def
proof (intro allI impI)
  fix dl t w r t' w'
  assume run: "co_catch f h dl t w = (r, t', w')"
  obtain q t1 w1 where q: "f dl t w = (q, t1, w1)" by (rule prod_cases3)
  show "t \<le> t' \<and> (case dl of None \<Rightarrow> r \<noteq> Cancelled | Some D \<Rightarrow> t' \<le> max t D)"
  proof (cases q)
    case (Raise e)
    have "h e dl t1 w1 = (r, t', w')" using run by (simp add: co_catch_def q Raise)
    from timely_conj [OF h this] timely_conj [OF f q] show ?thesis by (cases dl) auto
  qed (use run timely_conj [OF f q] in \<open>auto simp: co_catch_def q split: option.split\<close>)
qed

lemma co_each_invariant:
  assumes "\<And>x t w. I w \<Longrightarrow> \<exists>t1 w1. f x None t w = (Ok (), t1, w1) \<and> I w1" and "I w"
  shows "\<exists>t1 w1. co_each f xs None t w = (Ok (), t1, w1) \<and> I w1"
  using assms(2)
proof (induction xs arbitrary: t w)
  case (Cons x xs)
  from assms(1) [OF Cons.prems] obtain t1 w1 where "f x None t w = (Ok (), t1, w1)" "I w1" by blast
  with Cons.IH show ?case by (simp add: co_bind_def)
qed (simp add: co_return_def)

section \<open>Random jitter\<close>

text \<open>
  \<open>random.uniform(a, b)\<close> is \<open>a + (b - a) * random()\<close> in the standard library; \<open>u\<close> is the draw
  of \<open>random()\<close>.
\<close>

definition uniform :: "rat \<Rightarrow> rat \<Rightarrow> rat \<Rightarrow> rat" where
  "uniform u a b = a + (b - a) * u"

lemma uniform_bounds:
  assumes "0 \<le> u" and "u < 1" and "a \<le> b"
  shows "a \<le> uniform u a b" and "uniform u a b \<le> b"
proof -
  show "a \<le> uniform u a b" using assms by (simp add: uniform_def)
  have "(b - a) * u \<le> (b - a) * 1" by (rule mult_left_mono) (use assms in auto)
  then show "uniform u a b \<le> b" by (simp add: uniform_def)
qed

section \<open>Decimal rendering of integers\<close>

fun nat_str :: "nat \<Rightarrow> string" where
  "nat_str n =
     (if n < 10 then [char_of (48 + n)] else nat_str (n div 10) @ [char_of (48 + n mod 10)])"

declare nat_str.simps [simp del]

text \<open>Different numbers have different renderings: the digits can be read back.\<close>

definition nat_val :: "string \<Rightarrow> nat" where
  "nat_val = foldl (\<lambda>a c. a * 10 + (of_char c - 48)) 0"

lemma nat_val_nat_str: "nat_val (nat_str n) = n"
proof (induction n rule: nat_str.induct)
  case (1 n)
  have digit: "(of_char (char_of (48 + d :: nat)) :: nat) - 48 = d" if "d < 10" for d
    using that by simp
  show ?case
  proof (cases "n < 10")
    case True
    then show ?thesis using digit [of n] by (simp add: nat_str.simps [of n] nat_val_def)
  next
    case False
    with 1 have "nat_val (nat_str (n div 10)) = n div 10" by simp
    then show ?thesis using False digit [of "n mod 10"] by (simp add: nat_str.simps [of n] nat_val_def)
  qed
qed

lemma inj_nat_str: "inj nat_str"
  by (rule inj_on_inverseI [of _ nat_val]) (rule nat_val_nat_str)

definition int_str :: "int \<Rightarrow> string" where
  "int_str z = (if z < 0 then CHR ''-'' # nat_str (nat (- z)) else nat_str (nat z))"

section \<open>Strings\<close>

text \<open>\<open>str.lower\<close> on ASCII letters, and the substring test \<open>pat in s\<close>.\<close>

definition ascii_lower :: "string \<Rightarrow> string" where
  "ascii_lower s = map (\<lambda>c. if 65 \<le> (of_char c :: nat) \<and> (of_char c :: nat) \<le> 90
     then char_of ((of_char c :: nat) + 32) else c) s"

definition starts_with :: "string \<Rightarrow> string \<Rightarrow> bool" where
  "starts_with pat s \<longleftrightarrow> take (length pat) s = pat"

fun str_contains :: "string \<Rightarrow> string \<Rightarrow> bool" where
  "str_contains pat [] \<longleftrightarrow> pat = []"
| "str_contains pat (c # s) \<longleftrightarrow> starts_with pat (c # s) \<or> str_contains pat s"

section \<open>Dictionaries\<close>

text \<open>
  A Python dict is iterated in insertion order; it is an association list whose keys are
  distinct. Storing under a known key keeps its place, a new key goes last: this is
  \<open>AList.update\<close>.
\<close>

type_synonym ('k, 'v) dict = "('k \<times> 'v) list"

definition wf_dict :: "('k, 'v) dict \<Rightarrow> bool" where
  "wf_dict d \<longleftrightarrow> distinct (map fst d)"

abbreviation dget :: "('k, 'v) dict \<Rightarrow> 'k \<Rightarrow> 'v option" where
  "dget d k \<equiv> map_of d k"

abbreviation dset :: "'k \<Rightarrow> 'v \<Rightarrow> ('k, 'v) dict \<Rightarrow> ('k, 'v) dict" where
  "dset k v d \<equiv> AList.update k v d"

abbreviation ddel :: "'k \<Rightarrow> ('k, 'v) dict \<Rightarrow> ('k, 'v) dict" where
  "ddel k d \<equiv> AList.delete k d"

definition dget_or :: "'v \<Rightarrow> ('k, 'v) dict \<Rightarrow> 'k \<Rightarrow> 'v" where
  "dget_or v d k = (case dget d k of None \<Rightarrow> v | Some x \<Rightarrow> x)"

lemma dget_dset: "dget (dset k v d) k' = (if k' = k then Some v else dget d k')"
  by (simp add: update_conv)

lemma dget_ddel: "dget (ddel k d) k' = (if k' = k then None else dget d k')"
  by (simp add: delete_conv)

lemma wf_dict_mem: "wf_dict d \<Longrightarrow> x \<in> set d \<longleftrightarrow> dget d (fst x) = Some (snd x)"
  unfolding wf_dict_def by (cases x) (simp add: map_of_eq_Some_iff)

lemma wf_dict_Nil [simp]: "wf_dict []"
  by (simp add: wf_dict_def)

lemma wf_dict_dset [simp]: "wf_dict d \<Longrightarrow> wf_dict (dset k v d)"
  unfolding wf_dict_def by (rule distinct_update)

lemma wf_dict_ddel [simp]: "wf_dict d \<Longrightarrow> wf_dict (ddel k d)"
  unfolding wf_dict_def by (simp add: distinct_delete)

lemma mem_dset: "x \<in> set (dset k v d) \<Longrightarrow> x = (k, v) \<or> x \<in> set d"
  by (induction d) (auto split: if_splits)

text \<open>A property of all values of a dictionary.\<close>

definition dall :: "('v \<Rightarrow> bool) \<Rightarrow> ('k, 'v) dict \<Rightarrow> bool" where
  "dall P d \<longleftrightarrow> (\<forall>(k, v) \<in> set d. P v)"

lemma dall_Nil [simp]: "dall P []"
  by (simp add: dall_def)

lemma dall_dget: "dall P d \<Longrightarrow> dget d k = Some v \<Longrightarrow> P v"
  by (auto simp: dall_def dest: map_of_SomeD)

lemma dall_dset [simp]: "dall P d \<Longrightarrow> P v \<Longrightarrow> dall P (dset k v d)"
  by (induction d) (auto simp: dall_def)

lemma dall_filter [simp]: "dall P d \<Longrightarrow> dall P (filter Q d)"
  by (auto simp: dall_def)

lemma dall_ddel [simp]: "dall P d \<Longrightarrow> dall P (ddel k d)"
  by (simp add: AList.delete_eq)

text \<open>Counting: \<open>d[k] = d.get(k, 0) + 1\<close>.\<close>

definition count_key :: "'k \<Rightarrow> ('k, int) dict \<Rightarrow> ('k, int) dict" where
  "count_key k d = dset k (dget_or 0 d k + 1) d"

lemma count_key_get: "dget_or 0 (count_key k d) l = dget_or 0 d l + (if l = k then 1 else 0)"
  by (simp add: count_key_def dget_or_def dget_dset)

lemma fold_count_key:
  "dget_or 0 (fold (\<lambda>e. count_key (f e)) es d) k = dget_or 0 d k + int (length (filter (\<lambda>e. f e = k) es))"
  by (induction es arbitrary: d) (auto simp: count_key_get)

text \<open>The sum of a number over all values of a dictionary.\<close>

definition dsum :: "('v \<Rightarrow> int) \<Rightarrow> ('k, 'v) dict \<Rightarrow> int" where
  "dsum f d = sum_list (map (\<lambda>(_, x). f x) d)"

lemma dsum_dset:
  "wf_dict d \<Longrightarrow> dsum f (dset k v d) = dsum f d - (case dget d k of None \<Rightarrow> 0 | Some x \<Rightarrow> f x) + f v"
  by (induction d) (auto simp: dsum_def wf_dict_def split: option.splits dest: map_of_SomeD)

lemma dsum_dset_or:
  "wf_dict d \<Longrightarrow> f z = 0 \<Longrightarrow> dsum f (dset k v d) = dsum f d - f (dget_or z d k) + f v"
  by (simp add: dsum_dset dget_or_def split: option.splits)

section \<open>Small facts on lists and numbers\<close>

lemma filter_less_upt: "k \<le> n \<Longrightarrow> filter (\<lambda>i. i < k) [0..<n] = [0..<k]"
proof -
  assume "k \<le> n"
  then have "[0..<n] = [0..<k] @ [k..<n]"
    using upt_add_eq_append [of 0 k "n - k"] by simp
  then show ?thesis by (simp add: filter_id_conv filter_empty_conv)
qed

lemma map_nth_take: "k \<le> length xs \<Longrightarrow> map ((!) xs) [0..<k] = take k xs"
  by (rule nth_equalityI) auto


lemma upto_0_numeral [simp]: "[0..numeral n] = 0 # [1..numeral n]"
  by (subst upto_rec1) auto

lemma upto_1_numeral [simp]: "[1..numeral n] = 1 # [2..numeral n]"
  by (subst upto_rec1) auto


lemma min_max_bounds:
  fixes x :: "'a::linorder"
  assumes "lo \<le> hi"
  shows "lo \<le> min (max x lo) hi" and "min (max x lo) hi \<le> hi"
  using assms by auto

end
