(* ===== verification/Interfaces.thy ===== *)
theory Interfaces
  imports Prelude
begin

text \<open>
  The contracts the reliability components share, each as a locale with the lemmas a
  client gets from it. The components prove that their own definitions meet the contracts.
  \<^item> \<open>layer\<close>: a wrapper around an awaited function (circuit breaker, bulkhead, rate limiter,
    retry, timeout) keeps the clock honest and never invents a result; \<open>layer_stack\<close>: so
    does one wrapper around another.
  \<^item> \<open>retry_loop\<close>: a loop of attempts is a \<open>layer\<close> and calls its function at most once per attempt.
  \<^item> \<open>guard\<close>: a wrapper made of an admission and a settlement; it is a \<open>layer\<close>.
  \<^item> \<open>counted_guard\<close>: the statistics of a guard account for every call under every
    interleaving of the event loop.
  \<^item> \<open>pool\<close>: the permits of a semaphore are neither lost nor duplicated under every interleaving.
  \<^item> \<open>breaker\<close>: consecutive failures trip a circuit breaker, and a tripped one admits nothing
    until its cool-down is over.
  \<^item> \<open>token_limiter\<close>: what a token bucket admits is bounded by burst plus rate times time.
\<close>

section \<open>Layers\<close>

locale layer =
  fixes call :: "('w, 'a) coro \<Rightarrow> ('v, 'a) coro"
  assumes timely_call: "timely f \<Longrightarrow> timely (call f)"
    and result_from_inner:
      "call f dl t v = (Ok x, t', v') \<Longrightarrow> \<exists>dl1 t1 w1 t2 w2. f dl1 t1 w1 = (Ok x, t2, w2)"
begin

lemma never_cancelled_at_top:
  "timely f \<Longrightarrow> call f None t v \<noteq> (Cancelled, t', v')"
  using timelyD(2)[OF timely_call] by blast

lemma all_results_satisfy:
  assumes "\<And>dl t w x t' w'. f dl t w = (Ok x, t', w') \<Longrightarrow> P x"
    and "call f dl t v = (Ok x, t', v')"
  shows "P x"
  using result_from_inner[OF assms(2)] assms(1) by blast

lemma failing_function_fails:
  assumes "\<And>dl t w x t' w'. f dl t w \<noteq> (Ok x, t', w')"
  shows "call f dl t v \<noteq> (Ok x, t', v')"
  using result_from_inner assms by blast

end

locale layer_stack =
  outer: layer outer + inner: layer inner
  for outer :: "('v, 'a) coro \<Rightarrow> ('u, 'a) coro"
    and inner :: "('w, 'a) coro \<Rightarrow> ('v, 'a) coro"

sublocale layer_stack \<subseteq> stacked: layer "\<lambda>f. outer (inner f)"
proof unfold_locales
  fix f :: "('w, 'a) coro"
  assume "timely f"
  then show "timely (outer (inner f))"
    by (intro outer.timely_call inner.timely_call)
next
  fix f :: "('w, 'a) coro" and dl t v x t' v'
  assume "outer (inner f) dl t v = (Ok x, t', v')"
  then show "\<exists>dl1 t1 w1 t2 w2. f dl1 t1 w1 = (Ok x, t2, w2)"
    using outer.result_from_inner inner.result_from_inner by blast
qed

text \<open>The deadline of \<open>asyncio.wait_for\<close> is itself a layer.\<close>

lemma wait_for_Ok_inner: "wait_for tmo f dl t w = (Ok x, t', w') \<Longrightarrow> \<exists>dl1. f dl1 t w = (Ok x, t', w')"
  by (auto simp: wait_for_def split: if_splits prod.splits outcome.splits)

interpretation waiting: layer "wait_for tmo :: ('w, 'a) coro \<Rightarrow> ('w, 'a) coro" for tmo
proof unfold_locales
  show "timely f \<Longrightarrow> timely (wait_for tmo f)" for f :: "('w, 'a) coro"
    by (rule timely_wait_for)
  show "\<exists>dl1 t1 w1 t2 w2. f dl1 t1 w1 = (Ok x, t2, w2)"
    if "wait_for tmo f dl t v = (Ok x, t', v')" for f :: "('w, 'a) coro" and dl t v x t' v'
    using wait_for_Ok_inner[OF that] by blast
qed

section \<open>Retry loops\<close>

text \<open>
  A loop that awaits its function once per element of a list of attempts, stops at the first
  success or when it gives up, and sleeps between attempts. \<open>inner\<close> is the part of its world
  that the function sees.
\<close>

locale retry_loop =
  fixes run :: "int list \<Rightarrow> ('w, 'a) coro \<Rightarrow> ('v, 'a) coro"
    and inner :: "'v \<Rightarrow> 'w"
  assumes run_Nil: "run [] f dl t v = (r, t', v') \<Longrightarrow>
      inner v' = inner v \<and> t' = t \<and> (\<exists>e. r = Raise e)"
    and run_Cons: "run (n # ns) f dl t v = (r, t', v') \<Longrightarrow> f dl t (inner v) = (r1, t1, w1) \<Longrightarrow>
      (inner v' = w1 \<and> t1 \<le> t' \<and> (\<forall>x. r = Ok x \<longrightarrow> r1 = Ok x) \<and>
         (r = Cancelled \<longrightarrow> dl \<noteq> None \<or> r1 = Cancelled) \<and> (\<forall>D. dl = Some D \<longrightarrow> t' \<le> max t1 D)) \<or>
      (\<exists>v2 t2. inner v2 = w1 \<and> t1 \<le> t2 \<and> (\<forall>D. dl = Some D \<longrightarrow> t2 \<le> max t1 D) \<and>
         run ns f dl t2 v2 = (r, t', v'))"
begin

lemma result_of_some_attempt:
  assumes "run ns f dl t v = (Ok x, t', v')"
  shows "\<exists>dl1 t1 w1 t2 w2. f dl1 t1 w1 = (Ok x, t2, w2)"
  using assms
proof (induction ns arbitrary: t v)
  case Nil
  then show ?case using run_Nil by fastforce
next
  case (Cons n ns)
  obtain r1 t1 w1 where f1: "f dl t (inner v) = (r1, t1, w1)" by (cases "f dl t (inner v)")
  from run_Cons[OF Cons.prems f1] show ?case
    using f1 Cons.IH by (elim disjE exE conjE) blast+
qed

lemma run_timing:
  assumes f: "timely f" and "run ns f dl t v = (r, t', v')"
  shows "t \<le> t' \<and> (dl = None \<longrightarrow> r \<noteq> Cancelled) \<and> (\<forall>D. dl = Some D \<longrightarrow> t' \<le> max t D)"
  using assms(2)
proof (induction ns arbitrary: t v)
  case Nil
  then show ?case using run_Nil by fastforce
next
  case (Cons n ns)
  obtain r1 t1 w1 where f1: "f dl t (inner v) = (r1, t1, w1)" by (cases "f dl t (inner v)")
  from run_Cons[OF Cons.prems f1] show ?case
  proof (elim disjE exE conjE)
    fix v2 t2
    assume "t1 \<le> t2" "\<forall>D. dl = Some D \<longrightarrow> t2 \<le> max t1 D" "run ns f dl t2 v2 = (r, t', v')"
    with Cons.IH timelyD[OF f f1] show ?thesis by (cases dl) fastforce+
  qed (use timelyD[OF f f1] in \<open>cases dl; fastforce\<close>)
qed

lemma invocations_bounded:
  fixes count :: "'w \<Rightarrow> int"
  assumes counted: "\<And>dl t w r t' w'. f dl t w = (r, t', w') \<Longrightarrow> count w' = count w + 1"
    and "run ns f dl t v = (r, t', v')"
  shows "count (inner v) \<le> count (inner v') \<and>
    count (inner v') \<le> count (inner v) + int (length ns)"
  using assms(2)
proof (induction ns arbitrary: t v)
  case Nil
  then show ?case using run_Nil by fastforce
next
  case (Cons n ns)
  obtain r1 t1 w1 where f1: "f dl t (inner v) = (r1, t1, w1)" by (cases "f dl t (inner v)")
  from run_Cons[OF Cons.prems f1] counted[OF f1] Cons.IH show ?case by fastforce
qed

end

sublocale retry_loop \<subseteq> attempt: layer "run ns" for ns
proof unfold_locales
  fix f :: "('w, 'a) coro"
  assume f: "timely f"
  show "timely (run ns f)"
    by (rule timelyI) (use run_timing[OF f] in fastforce)+
next
  fix f :: "('w, 'a) coro" and dl t v x t' v'
  show "run ns f dl t v = (Ok x, t', v') \<Longrightarrow> \<exists>dl1 t1 w1 t2 w2. f dl1 t1 w1 = (Ok x, t2, w2)"
    by (rule result_of_some_attempt)
qed

section \<open>Guards\<close>

text \<open>
  A guard is an admission (which may wait or refuse) and a settlement that sees how the
  guarded function ended and may replace its exception. \<open>guarded\<close> is the call through it:
  the guarded function runs in the world \<open>w\<close> and cannot touch the guard's own state.
\<close>

definition guarded ::
  "('s, unit) coro \<Rightarrow> (rat \<Rightarrow> 'a outcome \<Rightarrow> 's \<Rightarrow> 'a outcome \<times> 's) \<Rightarrow>
   ('w, 'a) coro \<Rightarrow> ('s \<times> 'w, 'a) coro" where
  "guarded admit settle f dl t = (\<lambda>(s, w).
     (case admit dl t s of
        (Ok _, t1, s1) \<Rightarrow>
          (case f dl t1 w of (r, t2, w2) \<Rightarrow>
            (case settle t2 r s1 of (r', s2) \<Rightarrow> (r', t2, (s2, w2))))
      | (Raise e, t1, s1) \<Rightarrow> (Raise e, t1, (s1, w))
      | (Cancelled, t1, s1) \<Rightarrow> (Cancelled, t1, (s1, w))))"

locale guard =
  fixes admit :: "('s, unit) coro"
    and settle :: "rat \<Rightarrow> 'a outcome \<Rightarrow> 's \<Rightarrow> 'a outcome \<times> 's"
  assumes timely_admit: "timely admit"
    and settle_Ok: "settle t r s = (Ok x, s') \<Longrightarrow> r = Ok x"
    and settle_Cancelled: "settle t r s = (Cancelled, s') \<Longrightarrow> r = Cancelled"
begin

lemma guarded_Ok:
  assumes "guarded admit settle f dl t (s, w) = (Ok x, t', (s', w'))"
  obtains t1 s1 where "admit dl t s = (Ok (), t1, s1)" "f dl t1 w = (Ok x, t', w')"
    "settle t' (Ok x) s1 = (Ok x, s')"
  using assms settle_Ok
  by (force simp: guarded_def split: prod.splits outcome.splits)

lemma timely_guarded:
  assumes f: "timely f"
  shows "timely (guarded admit settle f)"
proof (rule timelyI)
  fix t v r t' v'
  assume g: "guarded admit settle f None t v = (r, t', v')"
  obtain s w where v: "v = (s, w)" by (cases v)
  obtain a t1 s1 where a: "admit None t s = (a, t1, s1)" by (cases "admit None t s") auto
  obtain q t2 w2 where q: "f None t1 w = (q, t2, w2)" by (cases "f None t1 w") auto
  show "t \<le> t' \<and> r \<noteq> Cancelled"
    using g timelyD(1,2)[OF timely_admit a] timelyD(1,2)[OF f q] settle_Cancelled
    by (auto simp: guarded_def v a q split: outcome.splits prod.splits)
next
  fix D t v r t' v'
  assume g: "guarded admit settle f (Some D) t v = (r, t', v')"
  obtain s w where v: "v = (s, w)" by (cases v)
  obtain a t1 s1 where a: "admit (Some D) t s = (a, t1, s1)"
    by (cases "admit (Some D) t s") auto
  obtain q t2 w2 where q: "f (Some D) t1 w = (q, t2, w2)" by (cases "f (Some D) t1 w") auto
  show "t \<le> t' \<and> t' \<le> max t D"
    using g timelyD(1,3)[OF timely_admit a] timelyD(1,3)[OF f q]
    by (auto simp: guarded_def v a q split: outcome.splits prod.splits)
qed

end

sublocale guard \<subseteq> guarded: layer "guarded admit settle"
proof unfold_locales
  show "timely f \<Longrightarrow> timely (guarded admit settle f)" for f :: "('w, 'a) coro"
    by (rule timely_guarded)
next
  fix f :: "('w, 'a) coro" and dl t v x t' v'
  assume "guarded admit settle f dl t v = (Ok x, t', v')"
  then show "\<exists>dl1 t1 w1 t2 w2. f dl1 t1 w1 = (Ok x, t2, w2)"
    by (cases v; cases v') (blast elim: guarded_Ok)
qed

text \<open>
  Most guards decide at once and pass the outcome on: an \<open>enter\<close> segment before the call, a
  \<open>leave\<close> segment after it.
\<close>

definition instant :: "(rat \<Rightarrow> 's \<Rightarrow> exn option \<times> 's) \<Rightarrow> ('s, unit) coro" where
  "instant enter dl t s =
     (case enter t s of (None, s') \<Rightarrow> (Ok (), t, s') | (Some e, s') \<Rightarrow> (Raise e, t, s'))"

definition plain :: "(rat \<Rightarrow> 'a outcome \<Rightarrow> 's \<Rightarrow> 's) \<Rightarrow> rat \<Rightarrow> 'a outcome \<Rightarrow> 's \<Rightarrow> 'a outcome \<times> 's"
  where "plain leave t r s = (r, leave t r s)"

lemma timely_instant [coro_intros]: "timely (instant enter)"
  by (rule timelyI) (auto simp: instant_def split: prod.splits option.splits)

lemma guard_instant_plain: "guard (instant enter) (plain leave)"
  by unfold_locales (auto simp: plain_def timely_instant)

lemma guard_plain: "timely admit \<Longrightarrow> guard admit (plain leave)"
  by unfold_locales (auto simp: plain_def)

lemma guarded_instant:
  "guarded (instant enter) (plain leave) f dl t (s, w) =
     (case enter t s of
        (None, s1) \<Rightarrow> (case f dl t w of (r, t2, w2) \<Rightarrow> (r, t2, (leave t2 r s1, w2)))
      | (Some e, s1) \<Rightarrow> (Raise e, t, (s1, w)))"
  by (simp add: guarded_def instant_def plain_def split: prod.split option.split)

text \<open>What a wrapper does to the world of its function is what the function does, if it runs.\<close>

lemma guarded_world:
  assumes "guarded admit settle f dl t (s, w) = (r, t', (s', w'))"
  shows "w' = w \<or> (\<exists>t1 r1. f dl t1 w = (r1, t', w'))"
proof -
  obtain a t1 s1 where a: "admit dl t s = (a, t1, s1)" by (rule prod_cases3)
  obtain q t2 w2 where q: "f dl t1 w = (q, t2, w2)" by (rule prod_cases3)
  show ?thesis
    using assms q by (auto simp: guarded_def a split: outcome.splits prod.splits)
qed

lemma wait_for_world:
  assumes "wait_for tmo f dl t w = (r, t', w')"
  shows "w' = w \<or> (\<exists>dl1 r1. f dl1 t w = (r1, t', w'))"
  using assms by (auto simp: wait_for_def split: if_splits prod.splits outcome.splits)

section \<open>Interleavings of guarded calls\<close>

text \<open>
  Between two awaits a task runs alone, so the event loop interleaves whole segments: the
  entry of a call and its leaving. \<open>interleaved enter leave s0 (s, k, c)\<close>: from \<open>s0\<close>, some
  interleaving of any number of calls at any times leads to the state \<open>s\<close> with \<open>k\<close> calls in
  flight and \<open>c\<close> calls cancelled so far.
\<close>

inductive interleaved ::
  "(rat \<Rightarrow> 's \<Rightarrow> exn option \<times> 's) \<Rightarrow> (rat \<Rightarrow> 'a outcome \<Rightarrow> 's \<Rightarrow> 's) \<Rightarrow> 's \<Rightarrow>
   's \<times> nat \<times> nat \<Rightarrow> bool"
  for enter :: "rat \<Rightarrow> 's \<Rightarrow> exn option \<times> 's"
    and leave :: "rat \<Rightarrow> 'a outcome \<Rightarrow> 's \<Rightarrow> 's" and s0 where
  start: "interleaved enter leave s0 (s0, 0, 0)"
| admitted: "interleaved enter leave s0 (s, k, c) \<Longrightarrow> enter t s = (None, s') \<Longrightarrow>
    interleaved enter leave s0 (s', Suc k, c)"
| refused: "interleaved enter leave s0 (s, k, c) \<Longrightarrow> enter t s = (Some e, s') \<Longrightarrow>
    interleaved enter leave s0 (s', k, c)"
| finished: "interleaved enter leave s0 (s, Suc k, c) \<Longrightarrow> r \<noteq> Cancelled \<Longrightarrow>
    interleaved enter leave s0 (leave t r s, k, c)"
| cancelled: "interleaved enter leave s0 (s, Suc k, c) \<Longrightarrow>
    interleaved enter leave s0 (leave t Cancelled s, k, Suc c)"

lemma interleaved_invariant:
  assumes "interleaved enter leave s0 (s, k, c)"
    and "I s0"
    and "\<And>t s e s'. I s \<Longrightarrow> enter t s = (e, s') \<Longrightarrow> I s'"
    and "\<And>t r s. I s \<Longrightarrow> I (leave t r s)"
  shows "I s"
proof -
  have "I (fst (s, k, c))"
    using assms by (induction "(s, k, c)" arbitrary: s k c rule: interleaved.induct) auto
  then show ?thesis by simp
qed

locale counted_guard =
  fixes enter :: "rat \<Rightarrow> 's \<Rightarrow> exn option \<times> 's"
    and leave :: "rat \<Rightarrow> 'a outcome \<Rightarrow> 's \<Rightarrow> 's"
    and total good bad :: "'s \<Rightarrow> int"
  assumes admitted_counts: "enter t s = (None, s') \<Longrightarrow>
      total s' = total s + 1 \<and> good s' = good s \<and> bad s' = bad s"
    and refused_counts: "enter t s = (Some e, s') \<Longrightarrow>
      total s' = total s + 1 \<and> good s' = good s \<and> bad s' = bad s + 1"
    and finished_counts:
      "total (leave t r s) = total s"
      "good (leave t r s) = good s + (case r of Ok _ \<Rightarrow> 1 | _ \<Rightarrow> 0)"
      "bad (leave t r s) = bad s + (case r of Raise _ \<Rightarrow> 1 | _ \<Rightarrow> 0)"
begin

lemma every_call_accounted:
  assumes "interleaved enter leave s0 (s, k, c)"
    and "total s0 = 0" and "good s0 = 0" and "bad s0 = 0"
  shows "total s = good s + bad s + int k + int c"
  using assms(1)
proof (induction "(s, k, c)" arbitrary: s k c rule: interleaved.induct)
  case (finished s k c r t)
  then show ?case by (cases r) (auto simp: finished_counts)
qed (use assms admitted_counts refused_counts finished_counts in \<open>auto\<close>)

lemma quiescent_accounts:
  assumes "interleaved enter leave s0 (s, 0, 0)"
    and "total s0 = 0" and "good s0 = 0" and "bad s0 = 0"
  shows "total s = good s + bad s"
  using every_call_accounted[OF assms] by simp

end

section \<open>Semaphore pools\<close>

text \<open>
  \<open>await asyncio.wait_for(semaphore.acquire(), tmo)\<close> when no permit is released meanwhile: a
  free permit is taken at once, otherwise the caller waits for the timeout or for the
  enclosing deadline.
\<close>

definition acquire_within :: "('s \<Rightarrow> bool) \<Rightarrow> ('s \<Rightarrow> 's) \<Rightarrow> rat \<Rightarrow> ('s, unit) coro" where
  "acquire_within free grab tmo dl t s =
     (if tmo \<le> 0 then (Raise timeout_error, t, s)
      else if free s then (Ok (), t, grab s)
      else if own_deadline (t + tmo) dl then (Raise timeout_error, t + tmo, s)
      else (Cancelled, (case dl of None \<Rightarrow> t | Some D \<Rightarrow> max t D), s))"

lemma timely_acquire_within [coro_intros]: "timely (acquire_within free grab tmo)"
  by (rule timelyI) (auto simp: acquire_within_def own_deadline_def split: if_splits)

text \<open>
  A pool used by any number of tasks: a task arrives (and may be refused), waits for a
  permit, takes it when one is free, or gives up at its timeout, or is cancelled while it
  waits; a task that holds a permit may touch the state while it works and finishes in any
  way. \<open>pool_run ... (s, p, k, c)\<close>: some interleaving leads to the state \<open>s\<close> with \<open>p\<close> tasks
  waiting, \<open>k\<close> holding a permit and \<open>c\<close> cancelled.
\<close>

inductive pool_run ::
  "(rat \<Rightarrow> 's \<Rightarrow> exn option \<times> 's) \<Rightarrow> ('s \<Rightarrow> 's) \<Rightarrow> ('s \<Rightarrow> 's) \<Rightarrow> ('s \<Rightarrow> 's \<Rightarrow> bool) \<Rightarrow>
   (rat \<Rightarrow> 'a outcome \<Rightarrow> 's \<Rightarrow> 's) \<Rightarrow> ('s \<Rightarrow> int) \<Rightarrow> 's \<Rightarrow> 's \<times> nat \<times> nat \<times> nat \<Rightarrow> bool"
  for arrive :: "rat \<Rightarrow> 's \<Rightarrow> exn option \<times> 's" and grab give_up :: "'s \<Rightarrow> 's"
    and work :: "'s \<Rightarrow> 's \<Rightarrow> bool"
    and finish :: "rat \<Rightarrow> 'a outcome \<Rightarrow> 's \<Rightarrow> 's" and free :: "'s \<Rightarrow> int" and s0 where
  start: "pool_run arrive grab give_up work finish free s0 (s0, 0, 0, 0)"
| queued: "pool_run arrive grab give_up work finish free s0 (s, p, k, c) \<Longrightarrow>
    arrive t s = (None, s') \<Longrightarrow> pool_run arrive grab give_up work finish free s0 (s', Suc p, k, c)"
| refused: "pool_run arrive grab give_up work finish free s0 (s, p, k, c) \<Longrightarrow>
    arrive t s = (Some e, s') \<Longrightarrow> pool_run arrive grab give_up work finish free s0 (s', p, k, c)"
| taken: "pool_run arrive grab give_up work finish free s0 (s, Suc p, k, c) \<Longrightarrow> 0 < free s \<Longrightarrow>
    pool_run arrive grab give_up work finish free s0 (grab s, p, Suc k, c)"
| gave_up: "pool_run arrive grab give_up work finish free s0 (s, Suc p, k, c) \<Longrightarrow>
    pool_run arrive grab give_up work finish free s0 (give_up s, p, k, c)"
| abandoned: "pool_run arrive grab give_up work finish free s0 (s, Suc p, k, c) \<Longrightarrow>
    pool_run arrive grab give_up work finish free s0 (s, p, k, Suc c)"
| worked: "pool_run arrive grab give_up work finish free s0 (s, p, Suc k, c) \<Longrightarrow> work s s' \<Longrightarrow>
    pool_run arrive grab give_up work finish free s0 (s', p, Suc k, c)"
| finished: "pool_run arrive grab give_up work finish free s0 (s, p, Suc k, c) \<Longrightarrow>
    r \<noteq> Cancelled \<Longrightarrow> pool_run arrive grab give_up work finish free s0 (finish t r s, p, k, c)"
| cancelled: "pool_run arrive grab give_up work finish free s0 (s, p, Suc k, c) \<Longrightarrow>
    pool_run arrive grab give_up work finish free s0 (finish t Cancelled s, p, k, Suc c)"

locale pool =
  fixes arrive :: "rat \<Rightarrow> 's \<Rightarrow> exn option \<times> 's" and grab give_up :: "'s \<Rightarrow> 's"
    and work :: "'s \<Rightarrow> 's \<Rightarrow> bool"
    and finish :: "rat \<Rightarrow> 'a outcome \<Rightarrow> 's \<Rightarrow> 's" and free active :: "'s \<Rightarrow> int"
  assumes arrive_keeps: "arrive t s = (e, s') \<Longrightarrow> free s' = free s \<and> active s' = active s"
    and grab_moves: "free (grab s) = free s - 1" "active (grab s) = active s + 1"
    and give_up_keeps: "free (give_up s) = free s" "active (give_up s) = active s"
    and work_keeps: "work s s' \<Longrightarrow> free s' = free s \<and> active s' = active s"
    and finish_moves: "free (finish t r s) = free s + 1" "active (finish t r s) = active s - 1"
begin

lemma permits_balance:
  assumes "pool_run arrive grab give_up work finish free s0 (s, p, k, c)"
    and "active s0 = 0" and "0 \<le> free s0"
  shows "active s = int k \<and> free s + int k = free s0 \<and> 0 \<le> free s"
  using assms(1)
proof (induction "(s, p, k, c)" arbitrary: s p k c rule: pool_run.induct)
  case start
  then show ?case using assms by simp
qed (use arrive_keeps grab_moves give_up_keeps work_keeps finish_moves in fastforce)+

text \<open>Never more permit holders than permits, and an idle pool has all its permits back.\<close>

lemma concurrency_bounded:
  assumes "pool_run arrive grab give_up work finish free s0 (s, p, k, c)"
    and "active s0 = 0" and "0 \<le> free s0"
  shows "int k \<le> free s0"
  using permits_balance[OF assms] by linarith

lemma no_permit_lost:
  assumes "pool_run arrive grab give_up work finish free s0 (s, p, 0, c)"
    and "active s0 = 0" and "0 \<le> free s0"
  shows "free s = free s0 \<and> active s = 0"
  using permits_balance[OF assms] by simp

end

text \<open>A pool that counts its requests: each is counted once, and settled at most once.\<close>

locale counted_pool = pool arrive grab give_up work finish free active
  for arrive :: "rat \<Rightarrow> 's \<Rightarrow> exn option \<times> 's" and grab give_up :: "'s \<Rightarrow> 's"
    and work :: "'s \<Rightarrow> 's \<Rightarrow> bool"
    and finish :: "rat \<Rightarrow> 'a outcome \<Rightarrow> 's \<Rightarrow> 's" and free active :: "'s \<Rightarrow> int" +
  fixes total settled :: "'s \<Rightarrow> int"
  assumes queued_counts: "arrive t s = (None, s') \<Longrightarrow> total s' = total s + 1 \<and> settled s' = settled s"
    and refused_counts:
      "arrive t s = (Some e, s') \<Longrightarrow> total s' = total s + 1 \<and> settled s' = settled s + 1"
    and grab_counts: "total (grab s) = total s" "settled (grab s) = settled s"
    and give_up_counts: "total (give_up s) = total s" "settled (give_up s) = settled s + 1"
    and work_counts: "work s s' \<Longrightarrow> total s' = total s \<and> settled s' = settled s"
    and finish_counts: "total (finish t r s) = total s"
      "settled (finish t r s) = settled s + (if r = Cancelled then 0 else 1)"
begin

lemma every_request_accounted:
  assumes "pool_run arrive grab give_up work finish free s0 (s, p, k, c)"
    and "total s0 = 0" and "settled s0 = 0"
  shows "total s = settled s + int p + int k + int c"
  using assms(1)
proof (induction "(s, p, k, c)" arbitrary: s p k c rule: pool_run.induct)
  case start
  then show ?case using assms by simp
qed (use queued_counts refused_counts grab_counts give_up_counts work_counts finish_counts in fastforce)+

end

section \<open>Circuit breakers\<close>

text \<open>Admission attempts at the times \<open>ts\<close>, with nothing else happening to the breaker.\<close>

fun attempts :: "(rat \<Rightarrow> 's \<Rightarrow> exn option \<times> 's) \<Rightarrow> rat list \<Rightarrow> 's \<Rightarrow> exn option list \<times> 's" where
  "attempts enter [] s = ([], s)"
| "attempts enter (t # ts) s =
     (case enter t s of (r, s1) \<Rightarrow>
       (case attempts enter ts s1 of (rs, s2) \<Rightarrow> (r # rs, s2)))"

text \<open>Failing calls one after the other: each leaves with the exception \<open>e\<close> at its time.\<close>

fun fail_all :: "(rat \<Rightarrow> 'a outcome \<Rightarrow> 's \<Rightarrow> 's) \<Rightarrow> (rat \<times> exn) list \<Rightarrow> 's \<Rightarrow> 's" where
  "fail_all leave [] s = s"
| "fail_all leave ((t, e) # xs) s = fail_all leave xs (leave t (Raise e) s)"

locale breaker =
  fixes enter :: "rat \<Rightarrow> 's \<Rightarrow> exn option \<times> 's"
    and leave :: "rat \<Rightarrow> 'a outcome \<Rightarrow> 's \<Rightarrow> 's"
    and closed :: "'s \<Rightarrow> bool"
    and budget :: "'s \<Rightarrow> int"
    and tripped :: "rat \<Rightarrow> 's \<Rightarrow> bool"
    and cooldown :: "'s \<Rightarrow> rat"
  assumes tripped_refuses: "tripped t s \<Longrightarrow> enter t s = (r, s') \<Longrightarrow> r \<noteq> None"
    and tripped_kept: "tripped t s \<Longrightarrow> enter t s = (r, s') \<Longrightarrow> tripped u s' = tripped u s"
    and tripped_earlier: "tripped t s \<Longrightarrow> u \<le> t \<Longrightarrow> tripped u s"
    and failure_spends: "closed s \<Longrightarrow> 1 < budget s \<Longrightarrow>
      closed (leave t (Raise e) s) \<and> budget (leave t (Raise e) s) = budget s - 1 \<and>
      cooldown (leave t (Raise e) s) = cooldown s"
    and failure_trips: "closed s \<Longrightarrow> budget s \<le> 1 \<Longrightarrow> u < t + cooldown s \<Longrightarrow>
      tripped u (leave t (Raise e) s)"
begin

lemma tripped_admits_nothing:
  assumes "tripped T s" and "\<And>t. t \<in> set ts \<Longrightarrow> t \<le> T"
  shows "None \<notin> set (fst (attempts enter ts s)) \<and> tripped T (snd (attempts enter ts s))"
  using assms
proof (induction ts arbitrary: s)
  case Nil
  then show ?case by simp
next
  case (Cons t ts)
  obtain r s1 where e: "enter t s = (r, s1)" by (cases "enter t s")
  have t: "tripped t s" using Cons.prems tripped_earlier by simp
  have "r \<noteq> None" "tripped T s1"
    using tripped_refuses[OF t e] tripped_kept[OF t e] Cons.prems(1) by auto
  moreover have "None \<notin> set (fst (attempts enter ts s1)) \<and> tripped T (snd (attempts enter ts s1))"
    using Cons.IH[OF \<open>tripped T s1\<close>] Cons.prems(2) by simp
  ultimately show ?case by (auto simp: e split: prod.splits)
qed

text \<open>As many consecutive failures as the budget trip the breaker for the whole cool-down.\<close>

lemma failures_trip:
  assumes "closed s" and "xs \<noteq> []" and "int (length xs) = max 1 (budget s)"
    and "u < fst (last xs) + cooldown s"
  shows "tripped u (fail_all leave xs s)"
  using assms
proof (induction xs arbitrary: s)
  case Nil
  then show ?case by simp
next
  case (Cons x xs)
  obtain t e where x: "x = (t, e)" by (cases x)
  show ?case
  proof (cases "budget s \<le> 1")
    case True
    with Cons.prems(3) have "xs = []" by simp
    then show ?thesis using failure_trips[OF Cons.prems(1) True] Cons.prems(4) x by simp
  next
    case False
    with Cons.prems(3) have "xs \<noteq> []" by auto
    moreover have "closed (leave t (Raise e) s)" "budget (leave t (Raise e) s) = budget s - 1"
      "cooldown (leave t (Raise e) s) = cooldown s"
      using failure_spends[OF Cons.prems(1)] False by auto
    ultimately show ?thesis using Cons.IH Cons.prems(3,4) False x by simp
  qed
qed

lemma failures_shield:
  assumes "closed s" and "xs \<noteq> []" and "int (length xs) = max 1 (budget s)"
    and "\<And>t. t \<in> set ts \<Longrightarrow> t \<le> T" and "T < fst (last xs) + cooldown s"
  shows "None \<notin> set (fst (attempts enter ts (fail_all leave xs s)))"
  using tripped_admits_nothing[OF failures_trip[OF assms(1-3,5)]] assms(4) by blast

end

section \<open>Token limiters\<close>

text \<open>Requests at the times \<open>ts\<close>; the result counts the admitted ones.\<close>

fun admitted_count :: "(rat \<Rightarrow> 's \<Rightarrow> bool \<times> 's) \<Rightarrow> rat list \<Rightarrow> 's \<Rightarrow> nat \<times> 's" where
  "admitted_count allow [] s = (0, s)"
| "admitted_count allow (t # ts) s =
     (case allow t s of (b, s1) \<Rightarrow>
       (case admitted_count allow ts s1 of (n, s2) \<Rightarrow> ((if b then Suc n else n), s2)))"

locale token_limiter =
  fixes allow :: "rat \<Rightarrow> 's \<Rightarrow> bool \<times> 's"
    and tokens :: "'s \<Rightarrow> rat" and refilled :: "'s \<Rightarrow> rat"
    and rate :: "'s \<Rightarrow> rat" and burst :: "'s \<Rightarrow> rat" and cost :: "'s \<Rightarrow> rat"
    and inv :: "'s \<Rightarrow> bool"
  assumes allow_inv: "inv s \<Longrightarrow> refilled s \<le> t \<Longrightarrow> allow t s = (b, s') \<Longrightarrow> inv s'"
    and allow_clock: "allow t s = (b, s') \<Longrightarrow> refilled s' = t"
    and allow_params: "allow t s = (b, s') \<Longrightarrow>
      rate s' = rate s \<and> burst s' = burst s \<and> cost s' = cost s"
    and allow_level: "inv s \<Longrightarrow> refilled s \<le> t \<Longrightarrow> allow t s = (b, s') \<Longrightarrow>
      tokens s' + (if b then cost s else 0) \<le> tokens s + rate s * (t - refilled s)"
    and inv_range: "inv s \<Longrightarrow> 0 \<le> tokens s \<and> tokens s \<le> burst s \<and> 0 \<le> rate s"
begin

lemma admitted_spend:
  assumes "inv s" and "sorted (refilled s # ts)" and "admitted_count allow ts s = (n, s')"
  shows "inv s' \<and> refilled s' = last (refilled s # ts) \<and>
    tokens s' + cost s * of_nat n \<le> tokens s + rate s * (refilled s' - refilled s)"
  using assms
proof (induction ts arbitrary: s n s')
  case Nil
  then show ?case by simp
next
  case (Cons t ts)
  obtain b s1 where a: "allow t s = (b, s1)" by (cases "allow t s")
  obtain m s2 where r: "admitted_count allow ts s1 = (m, s2)"
    by (cases "admitted_count allow ts s1")
  have n: "n = (if b then Suc m else m)" and s2: "s' = s2" using Cons.prems(3) a r by auto
  have t: "refilled s \<le> t" "sorted (refilled s1 # ts)"
    using Cons.prems(2) allow_clock[OF a] by auto
  note IH = Cons.IH[OF allow_inv[OF Cons.prems(1) t(1) a] t(2) r[folded s2]]
  have "cost s * of_nat n = cost s * of_nat m + (if b then cost s else 0)"
    by (simp add: n algebra_simps)
  moreover have "tokens s1 + (if b then cost s else 0) \<le> tokens s + rate s * (t - refilled s)"
    by (rule allow_level[OF Cons.prems(1) t(1) a])
  ultimately show ?case
    using IH allow_params[OF a] allow_clock[OF a] n by (auto simp: algebra_simps)
qed

text \<open>The token-bucket bound: burst plus rate times the length of the observed period.\<close>

lemma admitted_bound:
  assumes "inv s" and "sorted (refilled s # ts)" and "admitted_count allow ts s = (n, s')"
  shows "cost s * of_nat n \<le> burst s + rate s * (last (refilled s # ts) - refilled s)"
proof -
  have "0 \<le> tokens s'" "tokens s \<le> burst s"
    using admitted_spend[OF assms] inv_range assms(1) by auto
  moreover have "tokens s' + cost s * of_nat n \<le>
      tokens s + rate s * (last (refilled s # ts) - refilled s)"
    using admitted_spend[OF assms] by metis
  ultimately show ?thesis by linarith
qed

end

end
