(* ===== verification/CircuitBreaker.thy ===== *)
theory CircuitBreaker
  imports Interfaces
begin

text \<open>
  \<^verbatim>\<open>libs/adapters/circuit_breaker.py\<close>: the class \<open>CircuitBreaker\<close>, the
  \<open>CircuitBreakerManager\<close> that holds breakers by name, and the decorator
  \<open>circuit_breaker\<close>. The method \<open>call\<close> has two atomic segments, before and after the
  awaited function: \<open>cb_enter\<close> and \<open>cb_leave\<close>.
\<close>

section \<open>State\<close>

datatype circuit_state = CLOSED | OPEN | HALF_OPEN

record cb =
  cb_failure_threshold :: int
  cb_recovery_timeout :: rat
  cb_expected_exception :: string
  cb_name :: string
  cb_failure_count :: int
  cb_last_failure_time :: "rat option"
  cb_state :: circuit_state
  cb_total_calls :: int
  cb_successful_calls :: int
  cb_failed_calls :: int
  cb_circuit_opened_count :: int

definition cb_init :: "int \<Rightarrow> rat \<Rightarrow> string \<Rightarrow> string \<Rightarrow> cb" where
  "cb_init failure_threshold recovery_timeout expected_exception name =
     \<lparr>cb_failure_threshold = failure_threshold, cb_recovery_timeout = recovery_timeout,
      cb_expected_exception = expected_exception, cb_name = name,
      cb_failure_count = 0, cb_last_failure_time = None, cb_state = CLOSED,
      cb_total_calls = 0, cb_successful_calls = 0, cb_failed_calls = 0,
      cb_circuit_opened_count = 0\<rparr>"

definition cb_open_exception :: "string \<Rightarrow> exn" where
  "cb_open_exception name =
     Exn [''CircuitBreakerOpenException'', ''Exception'']
       (''Circuit breaker '' @ [CHR 0x27] @ name @ [CHR 0x27] @ '' is OPEN'')"

section \<open>Operations\<close>

definition cb_should_attempt_reset :: "rat \<Rightarrow> cb \<Rightarrow> bool" where
  "cb_should_attempt_reset now b =
     (case cb_last_failure_time b of
        None \<Rightarrow> True
      | Some l \<Rightarrow> cb_recovery_timeout b \<le> now - l)"

definition cb_on_success :: "cb \<Rightarrow> cb" where
  "cb_on_success b = b\<lparr>cb_failure_count := 0, cb_state := CLOSED, cb_last_failure_time := None\<rparr>"

definition cb_on_failure :: "rat \<Rightarrow> cb \<Rightarrow> cb" where
  "cb_on_failure now b =
     (let b1 = b\<lparr>cb_failure_count := cb_failure_count b + 1, cb_last_failure_time := Some now\<rparr>
      in if cb_failure_threshold b1 \<le> cb_failure_count b1 then
           (if cb_state b1 \<noteq> OPEN
            then b1\<lparr>cb_state := OPEN, cb_circuit_opened_count := cb_circuit_opened_count b1 + 1\<rparr>
            else b1)
         else b1)"

definition cb_enter :: "rat \<Rightarrow> cb \<Rightarrow> exn option \<times> cb" where
  "cb_enter now b =
     (let b1 = b\<lparr>cb_total_calls := cb_total_calls b + 1\<rparr>
      in if cb_state b1 = OPEN then
           (if cb_should_attempt_reset now b1
            then (None, b1\<lparr>cb_state := HALF_OPEN\<rparr>)
            else (Some (cb_open_exception (cb_name b1)),
                  b1\<lparr>cb_failed_calls := cb_failed_calls b1 + 1\<rparr>))
         else (None, b1))"

text \<open>
  The two \<open>except\<close> clauses of \<open>call\<close> differ in their log line only; a cancellation passes
  through both.
\<close>

definition cb_leave :: "rat \<Rightarrow> 'a outcome \<Rightarrow> cb \<Rightarrow> cb" where
  "cb_leave now r b =
     (case r of
        Ok _ \<Rightarrow> (let b1 = cb_on_success b
                  in b1\<lparr>cb_successful_calls := cb_successful_calls b1 + 1\<rparr>)
      | Raise e \<Rightarrow>
          (if isinstance e (cb_expected_exception b)
           then (let b1 = cb_on_failure now b
                 in b1\<lparr>cb_failed_calls := cb_failed_calls b1 + 1\<rparr>)
           else (let b1 = cb_on_failure now b
                 in b1\<lparr>cb_failed_calls := cb_failed_calls b1 + 1\<rparr>))
      | Cancelled \<Rightarrow> b)"

definition cb_call :: "('w, 'a) coro \<Rightarrow> (cb \<times> 'w, 'a) coro" where
  "cb_call = guarded (instant cb_enter) (plain cb_leave)"

record cb_stats =
  cbs_name :: string
  cbs_state :: string
  cbs_failure_count :: int
  cbs_total_calls :: int
  cbs_successful_calls :: int
  cbs_failed_calls :: int
  cbs_success_rate :: rat
  cbs_circuit_opened_count :: int
  cbs_last_failure_time :: "rat option"

fun circuit_state_value :: "circuit_state \<Rightarrow> string" where
  "circuit_state_value CLOSED = ''closed''"
| "circuit_state_value OPEN = ''open''"
| "circuit_state_value HALF_OPEN = ''half_open''"

definition cb_get_stats :: "cb \<Rightarrow> cb_stats" where
  "cb_get_stats b =
     \<lparr>cbs_name = cb_name b, cbs_state = circuit_state_value (cb_state b),
      cbs_failure_count = cb_failure_count b, cbs_total_calls = cb_total_calls b,
      cbs_successful_calls = cb_successful_calls b, cbs_failed_calls = cb_failed_calls b,
      cbs_success_rate =
        (if 0 < cb_total_calls b then of_int (cb_successful_calls b) / of_int (cb_total_calls b)
         else 0),
      cbs_circuit_opened_count = cb_circuit_opened_count b,
      cbs_last_failure_time = cb_last_failure_time b\<rparr>"

definition cb_reset :: "cb \<Rightarrow> cb" where
  "cb_reset b = b\<lparr>cb_state := CLOSED, cb_failure_count := 0, cb_last_failure_time := None\<rparr>"

section \<open>The manager and the decorator\<close>

type_synonym cb_manager = "(string, cb) dict"

text \<open>\<open>get_breaker\<close>: the keyword arguments matter on the first call for a name only.\<close>

definition cbm_get_breaker ::
  "string \<Rightarrow> int \<Rightarrow> rat \<Rightarrow> string \<Rightarrow> cb_manager \<Rightarrow> cb \<times> cb_manager" where
  "cbm_get_breaker name failure_threshold recovery_timeout expected_exception m =
     (case dget m name of
        Some b \<Rightarrow> (b, m)
      | None \<Rightarrow>
          (let b = cb_init failure_threshold recovery_timeout expected_exception name
           in (b, dset name b m)))"

definition cbm_get_all_stats :: "cb_manager \<Rightarrow> (string, cb_stats) dict" where
  "cbm_get_all_stats m = map (\<lambda>(name, b). (name, cb_get_stats b)) m"

definition cbm_reset_all :: "cb_manager \<Rightarrow> cb_manager" where
  "cbm_reset_all m = map (\<lambda>(name, b). (name, cb_reset b)) m"

definition cbm_reset :: "string \<Rightarrow> cb_manager \<Rightarrow> cb_manager" where
  "cbm_reset name m = (case dget m name of Some b \<Rightarrow> dset name (cb_reset b) m | None \<Rightarrow> m)"

text \<open>
  The wrapper of the decorator looks the breaker up in the global manager and calls through
  it; the updated breaker object stays in the manager.
\<close>

definition cb_decorated ::
  "string \<Rightarrow> int \<Rightarrow> rat \<Rightarrow> string \<Rightarrow> ('w, 'a) coro \<Rightarrow> (cb_manager \<times> 'w, 'a) coro" where
  "cb_decorated name failure_threshold recovery_timeout expected_exception f dl t = (\<lambda>(m, w).
     (case cbm_get_breaker name failure_threshold recovery_timeout expected_exception m of
        (b, m1) \<Rightarrow>
          (case cb_call f dl t (b, w) of
             (r, t', (b', w')) \<Rightarrow> (r, t', (dset name b' m1, w')))))"

lemmas cb_seg_defs [seg_defs] = cb_enter_def cb_leave_def cb_on_success_def cb_on_failure_def
  cb_should_attempt_reset_def Let_def

section \<open>The breaker meets its contracts\<close>

interpretation cbg: guard "instant cb_enter" "plain cb_leave"
  by (rule guard_instant_plain)

interpretation cbc: counted_guard cb_enter cb_leave cb_total_calls cb_successful_calls cb_failed_calls
  by unfold_locales (auto simp: seg_defs split: if_splits outcome.splits option.splits)

definition cb_closed :: "cb \<Rightarrow> bool" where
  "cb_closed b \<longleftrightarrow> cb_state b = CLOSED"

definition cb_budget :: "cb \<Rightarrow> int" where
  "cb_budget b = cb_failure_threshold b - cb_failure_count b"

definition cb_tripped :: "rat \<Rightarrow> cb \<Rightarrow> bool" where
  "cb_tripped now b \<longleftrightarrow> cb_state b = OPEN \<and> \<not> cb_should_attempt_reset now b"

lemmas cb_contract_defs = cb_closed_def cb_budget_def cb_tripped_def

interpretation cbb: breaker cb_enter cb_leave cb_closed cb_budget cb_tripped cb_recovery_timeout
  by unfold_locales (auto simp: seg_defs cb_contract_defs split: if_splits option.splits)

section \<open>Invariant\<close>

text \<open>
  With a positive threshold the failure count and the state agree: below the threshold while
  closed, at or above it, with the time of the last failure known, otherwise.
\<close>

definition cb_inv :: "cb \<Rightarrow> bool" where
  "cb_inv b \<longleftrightarrow> 0 < cb_failure_threshold b \<and> 0 \<le> cb_failure_count b \<and>
     (cb_state b = CLOSED \<longrightarrow> cb_failure_count b < cb_failure_threshold b) \<and>
     (cb_state b \<noteq> CLOSED \<longrightarrow>
        cb_failure_threshold b \<le> cb_failure_count b \<and> cb_last_failure_time b \<noteq> None)"

lemma cb_inv_init: "0 < n \<Longrightarrow> cb_inv (cb_init n rt e nm)"
  by (simp add: cb_inv_def cb_init_def)

lemma cb_inv_enter: "cb_inv b \<Longrightarrow> cb_enter now b = (e, b') \<Longrightarrow> cb_inv b'"
  by (auto simp: cb_inv_def cb_enter_def Let_def split: if_splits)

lemma cb_inv_leave: "cb_inv b \<Longrightarrow> cb_inv (cb_leave now r b)"
  by (auto simp: cb_inv_def cb_leave_def cb_on_success_def cb_on_failure_def Let_def
      split: outcome.splits)

lemma cb_inv_reset: "cb_inv b \<Longrightarrow> cb_inv (cb_reset b)"
  by (auto simp: cb_inv_def cb_reset_def)

lemma cb_inv_interleaved:
  assumes "interleaved cb_enter cb_leave (cb_init n rt e nm) (b, k, c)" and "0 < n"
  shows "cb_inv b"
  using interleaved_invariant [OF assms(1), of cb_inv] assms(2)
    cb_inv_init cb_inv_enter cb_inv_leave by blast

lemma cb_init_zero [simp]:
  "cb_total_calls (cb_init n rt e nm) = 0" "cb_successful_calls (cb_init n rt e nm) = 0"
  "cb_failed_calls (cb_init n rt e nm) = 0" "cb_closed (cb_init n rt e nm)"
  "cb_budget (cb_init n rt e nm) = n" "cb_recovery_timeout (cb_init n rt e nm) = rt"
  by (simp_all add: cb_init_def cb_closed_def cb_budget_def)

text \<open>The outcome of a call through the breaker, by the admission.\<close>

lemma cb_call_eq:
  "cb_call f dl t (b, w) =
     (case cb_enter t b of
        (None, b1) \<Rightarrow> (case f dl t w of (r, t2, w2) \<Rightarrow> (r, t2, (cb_leave t2 r b1, w2)))
      | (Some e, b1) \<Rightarrow> (Raise e, t, (b1, w)))"
  by (simp add: cb_call_def guarded_instant)

lemma cbm_get_breaker_known:
  "dget m name = Some b \<Longrightarrow> cbm_get_breaker name n rt e m = (b, m)"
  by (simp add: cbm_get_breaker_def)

lemma cbm_get_breaker_wf: "wf_dict m \<Longrightarrow> wf_dict (snd (cbm_get_breaker name n rt e m))"
  by (auto simp: cbm_get_breaker_def Let_def split: option.split)

section \<open>Properties\<close>

text \<open>
  The statistics are exact under every interleaving: the calls counted in total are those
  that succeeded, those that failed (or were refused), those in flight, and those cancelled
  while in flight, which no other counter records.
\<close>

theorem cb_accounting:
  assumes "interleaved cb_enter cb_leave (cb_init n rt e nm) (b, k, c)"
  shows "cb_total_calls b = cb_successful_calls b + cb_failed_calls b + int k + int c"
  using assms by (rule cbc.every_call_accounted) simp_all

theorem cb_accounting_witness:
  "cb_total_calls (cb_leave 2 (Ok ()) (snd (cb_enter 1 (cb_init 3 60 ''Exception'' ''x'')))) = 1
   \<and> cb_successful_calls (cb_leave 2 (Ok ()) (snd (cb_enter 1 (cb_init 3 60 ''Exception'' ''x'')))) = 1"
proof -
  let ?b0 = "cb_init 3 60 ''Exception'' ''x''"
  have "interleaved cb_enter (cb_leave :: rat \<Rightarrow> unit outcome \<Rightarrow> cb \<Rightarrow> cb) ?b0
      (snd (cb_enter 1 ?b0), Suc 0, 0)"
    by (rule interleaved.admitted [OF interleaved.start, where t = 1])
      (simp add: cb_enter_def cb_init_def)
  from interleaved.finished [OF this, of "Ok ()" 2]
  have "interleaved cb_enter (cb_leave :: rat \<Rightarrow> unit outcome \<Rightarrow> cb \<Rightarrow> cb) ?b0
      (cb_leave 2 (Ok ()) (snd (cb_enter 1 ?b0)), 0, 0)"
    by simp
  from cb_accounting [OF this] show ?thesis
    by (simp add: seg_defs cb_init_def)
qed

text \<open>
  The failure count and the state agree under every interleaving: below the threshold while
  the breaker is closed; at or above it, with the time of the last failure recorded, while it
  is open or half-open.
\<close>

theorem cb_state_invariant:
  assumes "interleaved cb_enter cb_leave (cb_init n rt e nm) (b, k, c)" and "0 < n"
  shows "(cb_state b = CLOSED \<longleftrightarrow> cb_failure_count b < n) \<and> 0 \<le> cb_failure_count b \<and>
    (cb_state b \<noteq> CLOSED \<longrightarrow> cb_last_failure_time b \<noteq> None)"
proof -
  have "cb_failure_threshold b = n"
    by (rule interleaved_invariant [OF assms(1), where I = "\<lambda>b. cb_failure_threshold b = n"])
      (auto simp: cb_init_def seg_defs split: if_splits outcome.splits option.splits)
  then show ?thesis using cb_inv_interleaved [OF assms] by (auto simp: cb_inv_def)
qed

theorem cb_state_invariant_witness:
  "cb_state (cb_leave 2 (Raise (exception ''boom'') :: unit outcome)
     (snd (cb_enter 1 (cb_init 1 60 ''Exception'' ''x'')))) = OPEN"
proof -
  let ?b0 = "cb_init 1 60 ''Exception'' ''x''"
  let ?b1 = "cb_leave 2 (Raise (exception ''boom'') :: unit outcome) (snd (cb_enter 1 ?b0))"
  have "interleaved cb_enter (cb_leave :: rat \<Rightarrow> unit outcome \<Rightarrow> cb \<Rightarrow> cb) ?b0
      (snd (cb_enter 1 ?b0), Suc 0, 0)"
    by (rule interleaved.admitted [OF interleaved.start, where t = 1])
      (simp add: cb_enter_def cb_init_def)
  from interleaved.finished [OF this, of "Raise (exception ''boom'')" 2]
  have "interleaved cb_enter (cb_leave :: rat \<Rightarrow> unit outcome \<Rightarrow> cb \<Rightarrow> cb) ?b0 (?b1, 0, 0)"
    by simp
  from cb_state_invariant [OF this] have "cb_state ?b1 = CLOSED \<longleftrightarrow> cb_failure_count ?b1 < 1"
    by simp
  then show ?thesis by (simp add: seg_defs cb_init_def split: if_splits)
qed



text \<open>
  The probe: once the recovery timeout has passed, the first call of an open breaker runs
  the function and its outcome decides: success closes the breaker with a clean count, failure
  opens it again with the cool-down restarted, cancellation leaves it half-open.
\<close>

theorem cb_probe_decides:
  assumes "cb_inv b" and "cb_state b = OPEN" and "cb_should_attempt_reset t b"
    and "f dl t w = (r, t', w')"
  shows "\<exists>b'. cb_call f dl t (b, w) = (r, t', (b', w')) \<and>
    (case r of
       Ok _ \<Rightarrow> cb_state b' = CLOSED \<and> cb_failure_count b' = 0
     | Raise _ \<Rightarrow> cb_state b' = OPEN \<and> cb_last_failure_time b' = Some t' \<and>
         cb_circuit_opened_count b' = cb_circuit_opened_count b + 1
     | Cancelled \<Rightarrow> cb_state b' = HALF_OPEN)"
  using assms
  by (cases r) (auto simp: cb_call_eq cb_inv_def cb_enter_def cb_leave_def cb_on_success_def
      cb_on_failure_def cb_should_attempt_reset_def Let_def)

theorem cb_probe_decides_witness:
  "\<exists>b'. cb_call (sleep 1) None 100
      (cb_leave 1 (Raise timeout_error :: unit outcome) (cb_init 1 60 ''Exception'' ''x''), 7 :: int)
      = (Ok (), 101, (b', 7)) \<and> cb_state b' = CLOSED"
proof -
  let ?b = "cb_leave 1 (Raise timeout_error :: unit outcome) (cb_init 1 60 ''Exception'' ''x'')"
  have "cb_inv ?b" "cb_state ?b = OPEN" "cb_should_attempt_reset 100 ?b"
    by (simp_all add: seg_defs cb_init_def cb_inv_def)
  moreover have "sleep 1 None 100 (7 :: int) = (Ok (), 101, 7)"
    by (simp add: sleep_def)
  ultimately show ?thesis using cb_probe_decides by fastforce
qed

end
