(* ===== verification/Bulkhead.thy ===== *)
theory Bulkhead
  imports Interfaces
begin

text \<open>
  \<^verbatim>\<open>libs/adapters/bulkhead.py\<close>: the class \<open>Bulkhead\<close>. Its method \<open>execute\<close> has these atomic
  segments: the capacity check on arrival (\<open>bh_arrive\<close>), the entry once the semaphore is
  acquired (\<open>bh_take\<close>), the rejection when the wait timed out (\<open>bh_give_up\<close>) and the exit with
  its \<open>finally\<close> clause (\<open>bh_finish\<close>). The lock is free whenever it is taken (no holder awaits
  anything), so taking it is no suspension point. The queue object is created and never
  used.
\<close>

section \<open>State\<close>

datatype bulkhead_strategy = SEMAPHORE | THREAD_POOL | PROCESS_POOL

record bh_config =
  bhc_max_concurrent :: int
  bhc_max_queue_size :: int
  bhc_strategy :: bulkhead_strategy
  bhc_timeout :: rat

definition bh_default_config :: bh_config where
  "bh_default_config =
     \<lparr>bhc_max_concurrent = 10, bhc_max_queue_size = 100, bhc_strategy = SEMAPHORE,
      bhc_timeout = 30\<rparr>"

record bh =
  bh_name :: string
  bh_config :: bh_config
  bh_semaphore :: int
  bh_active_tasks :: int
  bh_rejected_count :: int
  bh_completed_count :: int
  bh_failed_count :: int

text \<open>\<open>asyncio.Semaphore\<close> and hence the constructor raise \<open>ValueError\<close> on a negative value.\<close>

definition bh_init :: "string \<Rightarrow> bh_config option \<Rightarrow> exn + bh" where
  "bh_init name config =
     (let c = (case config of None \<Rightarrow> bh_default_config | Some c \<Rightarrow> c)
      in if bhc_max_concurrent c < 0
         then Inl (value_error ''Semaphore initial value must be >= 0'')
         else Inr \<lparr>bh_name = name, bh_config = c, bh_semaphore = bhc_max_concurrent c,
                   bh_active_tasks = 0, bh_rejected_count = 0, bh_completed_count = 0,
                   bh_failed_count = 0\<rparr>)"

definition bh_rejected_error :: "string \<Rightarrow> exn" where
  "bh_rejected_error name =
     Exn [''BulkheadRejectedError'', ''Exception''] (''Bulkhead '' @ name @ '' is full'')"

definition bh_timeout_error :: "string \<Rightarrow> exn" where
  "bh_timeout_error name =
     Exn [''BulkheadTimeoutError'', ''Exception'']
       (''Bulkhead '' @ name @ '' timeout waiting for semaphore'')"

section \<open>Operations\<close>

definition bh_can_accept_task :: "bh \<Rightarrow> bool" where
  "bh_can_accept_task b \<longleftrightarrow> bh_active_tasks b < bhc_max_concurrent (bh_config b)"

definition bh_arrive :: "bh \<Rightarrow> exn option \<times> bh" where
  "bh_arrive b =
     (if \<not> bh_can_accept_task b
      then (Some (bh_rejected_error (bh_name b)), b\<lparr>bh_rejected_count := bh_rejected_count b + 1\<rparr>)
      else (None, b))"

definition bh_take :: "bh \<Rightarrow> bh" where
  "bh_take b = b\<lparr>bh_semaphore := bh_semaphore b - 1, bh_active_tasks := bh_active_tasks b + 1\<rparr>"

definition bh_give_up :: "bh \<Rightarrow> bh" where
  "bh_give_up b = b\<lparr>bh_rejected_count := bh_rejected_count b + 1\<rparr>"

definition bh_finish :: "'a outcome \<Rightarrow> bh \<Rightarrow> bh" where
  "bh_finish r b =
     (let b1 = (case r of
                  Ok _ \<Rightarrow> b\<lparr>bh_completed_count := bh_completed_count b + 1\<rparr>
                | Raise _ \<Rightarrow> b\<lparr>bh_failed_count := bh_failed_count b + 1\<rparr>
                | Cancelled \<Rightarrow> b);
          b2 = b1\<lparr>bh_semaphore := bh_semaphore b1 + 1\<rparr>
      in b2\<lparr>bh_active_tasks := bh_active_tasks b2 - 1\<rparr>)"

text \<open>A whole call of one task while no other task touches the bulkhead.\<close>

definition bh_admit :: "(bh, unit) coro" where
  "bh_admit dl t b =
     (case bh_arrive b of
        (Some e, b1) \<Rightarrow> (Raise e, t, b1)
      | (None, b1) \<Rightarrow>
          (case acquire_within (\<lambda>b. 0 < bh_semaphore b) bh_take (bhc_timeout (bh_config b1))
                  dl t b1 of
             (Ok u, t2, b2) \<Rightarrow> (Ok u, t2, b2)
           | (Raise _, t2, b2) \<Rightarrow> (Raise (bh_timeout_error (bh_name b2)), t2, bh_give_up b2)
           | (Cancelled, t2, b2) \<Rightarrow> (Cancelled, t2, b2)))"

definition bh_execute :: "('w, 'a) coro \<Rightarrow> (bh \<times> 'w, 'a) coro" where
  "bh_execute = guarded bh_admit (plain (\<lambda>_. bh_finish))"

record bh_stats =
  bhs_name :: string
  bhs_active_tasks :: int
  bhs_max_concurrent :: int
  bhs_rejected_count :: int
  bhs_completed_count :: int
  bhs_failed_count :: int
  bhs_utilization :: rat

definition bh_get_stats :: "bh \<Rightarrow> bh_stats" where
  "bh_get_stats b =
     \<lparr>bhs_name = bh_name b, bhs_active_tasks = bh_active_tasks b,
      bhs_max_concurrent = bhc_max_concurrent (bh_config b),
      bhs_rejected_count = bh_rejected_count b, bhs_completed_count = bh_completed_count b,
      bhs_failed_count = bh_failed_count b,
      bhs_utilization =
        (if 0 < bhc_max_concurrent (bh_config b)
         then of_int (bh_active_tasks b) / of_int (bhc_max_concurrent (bh_config b)) else 0)\<rparr>"

definition bh_reset_stats :: "bh \<Rightarrow> bh" where
  "bh_reset_stats b = b\<lparr>bh_rejected_count := 0, bh_completed_count := 0, bh_failed_count := 0\<rparr>"

lemmas bh_seg_defs [seg_defs] = bh_arrive_def bh_can_accept_task_def bh_take_def bh_give_up_def
  bh_finish_def

section \<open>The bulkhead meets its contracts\<close>

lemma timely_bh_admit [coro_intros]: "timely bh_admit"
proof (rule timelyI, goal_cases)
  case (1 t b r t' b')
  obtain e b1 where a: "bh_arrive b = (e, b1)" by (cases "bh_arrive b")
  show ?case
    using 1 timelyD(1,2)[OF timely_acquire_within]
    by (fastforce simp: bh_admit_def a split: option.splits prod.splits outcome.splits)
next
  case (2 D t b r t' b')
  obtain e b1 where a: "bh_arrive b = (e, b1)" by (cases "bh_arrive b")
  show ?case
    using 2 timelyD(1,3)[OF timely_acquire_within]
    by (fastforce simp: bh_admit_def a split: option.splits prod.splits outcome.splits)
qed

interpretation bhg: guard bh_admit "plain (\<lambda>_. bh_finish)"
  by (rule guard_plain) (rule timely_bh_admit)

interpretation bhp: pool "\<lambda>_. bh_arrive" bh_take bh_give_up "\<lambda>_ _. False"
  "\<lambda>_. bh_finish" bh_semaphore bh_active_tasks
  by unfold_locales (auto simp: seg_defs Let_def split: if_splits outcome.splits)

section \<open>Properties\<close>

lemma bh_init_Inr:
  assumes "bh_init name config = Inr b"
  shows "bh_active_tasks b = 0" "0 \<le> bh_semaphore b"
    "bh_semaphore b = bhc_max_concurrent (bh_config b)"
  using assms by (auto simp: bh_init_def Let_def split: if_splits)

text \<open>
  Isolation under every interleaving: the number of tasks inside the guarded section never
  exceeds \<open>max_concurrent\<close>, the active counter is that number, and the semaphore holds the
  remaining permits, so a bulkhead that nobody uses has all of them back however its tasks
  ended.
\<close>

theorem bh_concurrency_bounded:
  assumes "bh_init name config = Inr b0"
    and "pool_run (\<lambda>_. bh_arrive) bh_take bh_give_up (\<lambda>_ _. False) (\<lambda>_. bh_finish) bh_semaphore b0
           (b, p, k, c)"
  shows "int k \<le> bhc_max_concurrent (bh_config b0) \<and> bh_active_tasks b = int k \<and>
    bh_semaphore b = bhc_max_concurrent (bh_config b0) - int k"
  using bhp.permits_balance [OF assms(2)] bh_init_Inr [OF assms(1)] by simp

theorem bh_concurrency_bounded_witness:
  "\<exists>b0. bh_init ''db'' None = Inr b0 \<and> bh_active_tasks (bh_take b0) = 1 \<and>
     bh_semaphore (bh_take b0) = 9"
proof -
  obtain b0 where b0: "bh_init ''db'' None = Inr b0"
    by (simp add: bh_init_def bh_default_config_def)
  have a: "bh_arrive b0 = (None, b0)" "0 < bh_semaphore b0" "bhc_max_concurrent (bh_config b0) = 10"
    using b0 by (auto simp: bh_init_def bh_default_config_def bh_arrive_def bh_can_accept_task_def)
  have "pool_run (\<lambda>_. bh_arrive) bh_take bh_give_up (\<lambda>_ _. False)
      (\<lambda>_. bh_finish :: unit outcome \<Rightarrow> bh \<Rightarrow> bh) bh_semaphore b0 (b0, Suc 0, 0, 0)"
    by (rule pool_run.queued) (rule pool_run.start, rule a(1))
  then have "pool_run (\<lambda>_. bh_arrive) bh_take bh_give_up (\<lambda>_ _. False)
      (\<lambda>_. bh_finish :: unit outcome \<Rightarrow> bh \<Rightarrow> bh) bh_semaphore b0 (bh_take b0, 0, Suc 0, 0)"
    using a(2) by (rule pool_run.taken)
  from bh_concurrency_bounded [OF b0 this] show ?thesis using b0 a by simp
qed

end
