(* ===== verification/RetryPolicy.thy ===== *)
theory RetryPolicy
  imports Interfaces
begin

text \<open>
  \<^verbatim>\<open>libs/adapters/retry_policy.py\<close>: the class \<open>RetryPolicy\<close> with its configuration and the
  three preset policies. \<open>random.random()\<close> is the parameter \<open>rnd\<close>: the draw made after a given
  attempt, in \<open>[0, 1)\<close>.
\<close>

section \<open>Configuration\<close>

datatype retry_strategy = FIXED | EXPONENTIAL | LINEAR | CUSTOM

record rp_config =
  rp_max_attempts :: int
  rp_base_delay :: rat
  rp_max_delay :: rat
  rp_strategy :: retry_strategy
  rp_jitter :: bool
  rp_backoff_multiplier :: rat
  rp_retryable_exceptions :: "string list"

text \<open>The dataclass defaults, with the list that \<open>__post_init__\<close> puts in place of \<open>None\<close>.\<close>

definition rp_post_init :: "string list option \<Rightarrow> string list" where
  "rp_post_init xs = (case xs of None \<Rightarrow> [''Exception''] | Some l \<Rightarrow> l)"

definition rp_default_config :: rp_config where
  "rp_default_config =
     \<lparr>rp_max_attempts = 3, rp_base_delay = 1, rp_max_delay = 60, rp_strategy = EXPONENTIAL,
      rp_jitter = True, rp_backoff_multiplier = 2, rp_retryable_exceptions = rp_post_init None\<rparr>"

definition rp_init :: "rp_config option \<Rightarrow> rp_config" where
  "rp_init config = (case config of None \<Rightarrow> rp_default_config | Some c \<Rightarrow> c)"

definition retry_exhausted_error :: "string \<Rightarrow> exn" where
  "retry_exhausted_error m = Exn [''RetryExhaustedError'', ''Exception''] m"

section \<open>Operations\<close>

definition rp_is_retryable :: "rp_config \<Rightarrow> exn \<Rightarrow> bool" where
  "rp_is_retryable c e = list_ex (isinstance e) (rp_retryable_exceptions c)"

definition rp_calculate_delay :: "rp_config \<Rightarrow> rat \<Rightarrow> int \<Rightarrow> rat" where
  "rp_calculate_delay c u attempt =
     (let delay =
        (case rp_strategy c of
           FIXED \<Rightarrow> rp_base_delay c
         | EXPONENTIAL \<Rightarrow> rp_base_delay c * rp_backoff_multiplier c ^ nat (attempt - 1)
         | LINEAR \<Rightarrow> rp_base_delay c * of_int attempt
         | CUSTOM \<Rightarrow> rp_base_delay c);
          delay = min delay (rp_max_delay c)
      in if rp_jitter c then
           (let jitter_range = delay * (1 / 10)
            in max 0 (delay + uniform u (- jitter_range) jitter_range))
         else delay)"

text \<open>The attempts of the \<open>for\<close> loop, then the statement after it.\<close>

fun rp_attempts :: "rp_config \<Rightarrow> (int \<Rightarrow> rat) \<Rightarrow> int list \<Rightarrow> ('w, 'a) coro \<Rightarrow> ('w, 'a) coro" where
  "rp_attempts c rnd [] f dl t w =
     (Raise (retry_exhausted_error ''Retry policy exhausted''), t, w)"
| "rp_attempts c rnd (attempt # rest) f dl t w =
     (case f dl t w of
        (Ok v, t1, w1) \<Rightarrow> (Ok v, t1, w1)
      | (Cancelled, t1, w1) \<Rightarrow> (Cancelled, t1, w1)
      | (Raise e, t1, w1) \<Rightarrow>
          (if \<not> rp_is_retryable c e then (Raise e, t1, w1)
           else if rp_max_attempts c \<le> attempt then
             (Raise (retry_exhausted_error
                (''Retry exhausted after '' @ int_str (rp_max_attempts c) @ '' attempts'')), t1, w1)
           else
             (case sleep (rp_calculate_delay c (rnd attempt) attempt) dl t1 w1 of
                (Ok _, t2, w2) \<Rightarrow> rp_attempts c rnd rest f dl t2 w2
              | (Raise e', t2, w2) \<Rightarrow> (Raise e', t2, w2)
              | (Cancelled, t2, w2) \<Rightarrow> (Cancelled, t2, w2))))"

definition rp_execute :: "rp_config \<Rightarrow> (int \<Rightarrow> rat) \<Rightarrow> ('w, 'a) coro \<Rightarrow> ('w, 'a) coro" where
  "rp_execute c rnd f = rp_attempts c rnd [1..rp_max_attempts c] f"

section \<open>Preset policies\<close>

definition exponential_backoff :: "int \<Rightarrow> rat \<Rightarrow> rat \<Rightarrow> rp_config" where
  "exponential_backoff max_attempts base_delay max_delay =
     rp_init (Some (rp_default_config\<lparr>rp_max_attempts := max_attempts,
       rp_base_delay := base_delay, rp_max_delay := max_delay, rp_strategy := EXPONENTIAL,
       rp_jitter := True\<rparr>))"

definition fixed_delay_retry :: "int \<Rightarrow> rat \<Rightarrow> rp_config" where
  "fixed_delay_retry max_attempts delay =
     rp_init (Some (rp_default_config\<lparr>rp_max_attempts := max_attempts,
       rp_base_delay := delay, rp_strategy := FIXED, rp_jitter := False\<rparr>))"

definition linear_backoff :: "int \<Rightarrow> rat \<Rightarrow> rat \<Rightarrow> rp_config" where
  "linear_backoff max_attempts base_delay max_delay =
     rp_init (Some (rp_default_config\<lparr>rp_max_attempts := max_attempts,
       rp_base_delay := base_delay, rp_max_delay := max_delay, rp_strategy := LINEAR,
       rp_jitter := True\<rparr>))"

section \<open>The policy is a retry loop\<close>

interpretation rpl: retry_loop "rp_attempts c rnd :: int list \<Rightarrow> ('w, 'a) coro \<Rightarrow> ('w, 'a) coro" id
  for c rnd
proof (unfold_locales, goal_cases)
  case (1 f dl t v r t' v')
  then show ?case by auto
next
  case (2 n ns f dl t v r t' v' r1 t1 w1)
  then have run: "rp_attempts c rnd (n # ns) f dl t v = (r, t', v')" and f: "f dl t v = (r1, t1, w1)"
    by simp_all
  show ?case
  proof (cases r1)
    case (Raise e)
    show ?thesis
    proof (cases "rp_is_retryable c e \<and> n < rp_max_attempts c")
      case True
      show ?thesis
      proof (cases rule: sleep_cases [of "rp_calculate_delay c (rnd n) n" dl t1 w1])
        case (slept t2)
        with run f Raise True show ?thesis by (intro disjI2 exI [of _ w1] exI [of _ t2]) auto
      qed (use run f Raise True in auto)
    qed (use run f Raise in \<open>auto split: if_splits\<close>)
  qed (use run f in auto)
qed

section \<open>Delays\<close>

lemma rp_delay_nonneg:
  assumes "0 \<le> rp_base_delay c" and "0 \<le> rp_max_delay c" and "0 \<le> rp_backoff_multiplier c"
    and "1 \<le> attempt"
  shows "0 \<le> rp_calculate_delay c u attempt"
  using assms by (auto simp: rp_calculate_delay_def Let_def split: retry_strategy.splits)

lemma rp_delay_bound:
  assumes "0 \<le> u" and "u < 1" and "0 \<le> rp_base_delay c" and "0 \<le> rp_max_delay c"
    and "0 \<le> rp_backoff_multiplier c" and "1 \<le> attempt"
  shows "rp_calculate_delay c u attempt \<le> rp_max_delay c * (11 / 10)"
proof -
  have jit: "max 0 (d + uniform u (- (d * (1/10))) (d * (1/10))) \<le> m * (11 / 10)"
    if "0 \<le> d" "d \<le> m" for d m :: rat
  proof -
    have "uniform u (- (d * (1/10))) (d * (1/10)) \<le> d * (1/10)"
      by (rule uniform_bounds(2)) (use assms(1,2) that in auto)
    then show ?thesis using that by linarith
  qed
  have "0 \<le> min d (rp_max_delay c)" if "0 \<le> d" for d
    using that assms by simp
  then show ?thesis
    using assms jit
    by (auto simp: rp_calculate_delay_def Let_def split: retry_strategy.splits)
qed

section \<open>Properties\<close>

lemma rp_attempts_exhaust:
  assumes fails: "\<forall>dl t w. \<exists>e t' w'. f dl t w = (Raise e, t', w') \<and> rp_is_retryable c e \<and>
      count w' = count w + (1 :: int)"
    and "k \<le> rp_max_attempts c"
  shows "\<exists>e t' w'. rp_attempts c rnd [k..rp_max_attempts c] f None t w = (Raise e, t', w') \<and>
    isinstance e ''RetryExhaustedError'' \<and> count w' = count w + (rp_max_attempts c - k + 1)"
  using assms(2)
proof (induction "nat (rp_max_attempts c - k)" arbitrary: k t w)
  case 0
  then have "rp_max_attempts c = k" by simp
  moreover obtain e t' w' where "f None t w = (Raise e, t', w')" "rp_is_retryable c e"
    "count w' = count w + 1" using fails by blast
  ultimately show ?case by (simp add: isinstance_def retry_exhausted_error_def)
next
  case (Suc d)
  obtain e t1 w1 where f1: "f None t w = (Raise e, t1, w1)" "rp_is_retryable c e"
    "count w1 = count w + 1" using fails by blast
  obtain e2 t2 w2 where
    "rp_attempts c rnd [k + 1..rp_max_attempts c] f None
       (t1 + max 0 (rp_calculate_delay c (rnd k) k)) w1 = (Raise e2, t2, w2)"
    "isinstance e2 ''RetryExhaustedError''"
    "count w2 = count w1 + (rp_max_attempts c - (k + 1) + 1)"
    using Suc.hyps(1) [of "k + 1"] Suc.hyps(2) Suc.prems by fastforce
  moreover have "k < rp_max_attempts c" "[k..rp_max_attempts c] = k # [k + 1..rp_max_attempts c]"
    using Suc.hyps(2) by (auto intro: upto_rec1)
  ultimately show ?case using f1 by (simp add: sleep_def)
qed

text \<open>
  Giving up: a function whose every invocation fails with a retryable exception is invoked
  exactly \<open>max_attempts\<close> times, and the caller gets \<open>RetryExhaustedError\<close>.
\<close>

theorem rp_gives_up_after_max_attempts:
  assumes "\<forall>dl t w. \<exists>e t' w'. f dl t w = (Raise e, t', w') \<and> rp_is_retryable c e \<and>
      count w' = count w + (1 :: int)"
    and "1 \<le> rp_max_attempts c"
  shows "\<exists>e t' w'. rp_execute c rnd f None t w = (Raise e, t', w') \<and>
    isinstance e ''RetryExhaustedError'' \<and> count w' = count w + rp_max_attempts c"
  using rp_attempts_exhaust [OF assms] by (simp add: rp_execute_def)

theorem rp_gives_up_after_max_attempts_witness:
  "\<exists>e t' w'. rp_execute (exponential_backoff 3 1 60) (\<lambda>_. 1 / 2)
      (\<lambda>_ t n. (Raise timeout_error :: unit outcome, t + 1, n + 1)) None 0 (0 :: int) = (Raise e, t', w') \<and>
    isinstance e ''RetryExhaustedError'' \<and> w' = 0 + rp_max_attempts (exponential_backoff 3 1 60)"
proof (rule rp_gives_up_after_max_attempts [where count = "\<lambda>n. n"])
  show "1 \<le> rp_max_attempts (exponential_backoff 3 1 60)"
    by (simp add: exponential_backoff_def rp_init_def)
qed (simp add: rp_is_retryable_def exponential_backoff_def rp_init_def rp_default_config_def
    rp_post_init_def)

text \<open>
  Never more: whatever the function does, under any deadline, it is invoked at most
  \<open>max_attempts\<close> times, and not at all when that is not positive.
\<close>

theorem rp_invocations_bounded:
  assumes "\<forall>dl t w r t' w'. f dl t w = (r, t', w') \<longrightarrow> count w' = count w + (1 :: int)"
    and "rp_execute c rnd f dl t w = (r, t', w')"
  shows "count w \<le> count w' \<and> count w' \<le> count w + max 0 (rp_max_attempts c)"
  using rpl.invocations_bounded [of f count c rnd "[1..rp_max_attempts c]" dl t w r t' w'] assms
  by (simp add: rp_execute_def max_def split: if_splits)

theorem rp_invocations_bounded_witness:
  "fst (rp_execute (fixed_delay_retry 2 1) (\<lambda>_. 0)
     (\<lambda>_ t n. ((if n = 0 then Raise timeout_error else Ok ''v''), t, n + 1)) None 0 (0 :: int)) = Ok ''v'' \<and>
   snd (snd (rp_execute (fixed_delay_retry 2 1) (\<lambda>_. 0)
     (\<lambda>_ t n. ((if n = 0 then Raise timeout_error else Ok ''v''), t, n + 1)) None 0 (0 :: int))) \<le> 2"
proof -
  let ?f = "\<lambda>_ t n. ((if n = 0 then Raise timeout_error else Ok ''v''), t, n + 1)"
  let ?c = "fixed_delay_retry 2 1"
  have run: "rp_execute ?c (\<lambda>_. 0) ?f None 0 (0 :: int) = (Ok ''v'', 1, 2)"
    by (simp add: rp_execute_def fixed_delay_retry_def rp_init_def rp_default_config_def
        rp_post_init_def rp_is_retryable_def rp_calculate_delay_def sleep_def)
  have "2 \<le> 0 + max 0 (rp_max_attempts ?c)"
    using rp_invocations_bounded [OF _ run, of "\<lambda>n. n"] by simp
  then show ?thesis using run by (simp add: fixed_delay_retry_def rp_init_def)
qed

text \<open>
  The wait before the next attempt is never negative and exceeds the configured maximum by
  at most the ten per cent of the jitter, for every strategy and every draw.
\<close>

theorem rp_delay_range:
  assumes "0 \<le> u" and "u < 1" and "0 \<le> rp_base_delay c" and "0 \<le> rp_max_delay c"
    and "0 \<le> rp_backoff_multiplier c" and "1 \<le> attempt"
  shows "0 \<le> rp_calculate_delay c u attempt \<and>
    rp_calculate_delay c u attempt \<le> rp_max_delay c * (11 / 10)"
  using rp_delay_nonneg rp_delay_bound assms by blast

theorem rp_delay_range_witness:
  "0 \<le> rp_calculate_delay (exponential_backoff 5 2 10) (9 / 10) 4 \<and>
   rp_calculate_delay (exponential_backoff 5 2 10) (9 / 10) 4 \<le> 11 \<and>
   10 < rp_calculate_delay (exponential_backoff 5 2 10) (9 / 10) 4"
proof -
  let ?c = "exponential_backoff 5 2 10"
  have "0 \<le> rp_calculate_delay ?c (9 / 10) 4 \<and>
    rp_calculate_delay ?c (9 / 10) 4 \<le> rp_max_delay ?c * (11 / 10)"
    by (rule rp_delay_range)
      (simp_all add: exponential_backoff_def rp_init_def rp_default_config_def)
  moreover have "rp_calculate_delay ?c (9 / 10) 4 = 108 / 10"
    by (simp add: exponential_backoff_def rp_init_def rp_default_config_def
        rp_calculate_delay_def uniform_def)
  ultimately show ?thesis by (simp add: exponential_backoff_def rp_init_def)
qed

end
