(* ===== verification/RetryAdapter.thy ===== *)
theory RetryAdapter
  imports Interfaces
begin

text \<open>
  \<^verbatim>\<open>libs/adapters/retry_adapter.py\<close>: \<open>RetryConfig\<close>, \<open>RetryAdapter\<close> with its statistics, the
  \<open>RetryManager\<close> and the decorator \<open>retry\<close>. The local variable \<open>last_exception\<close> and the
  statistics are the loop's own state.
\<close>

section \<open>Configuration and state\<close>

record ra_config =
  ra_max_attempts :: int
  ra_base_delay :: rat
  ra_max_delay :: rat
  ra_exponential_base :: rat
  ra_jitter :: bool
  ra_retryable_exceptions :: "string list"

definition ra_config_init ::
  "int \<Rightarrow> rat \<Rightarrow> rat \<Rightarrow> rat \<Rightarrow> bool \<Rightarrow> string list option \<Rightarrow> ra_config" where
  "ra_config_init max_attempts base_delay max_delay exponential_base jitter retryable =
     \<lparr>ra_max_attempts = max_attempts, ra_base_delay = base_delay, ra_max_delay = max_delay,
      ra_exponential_base = exponential_base, ra_jitter = jitter,
      ra_retryable_exceptions =
        (case retryable of None \<Rightarrow> [''Exception''] | Some [] \<Rightarrow> [''Exception''] | Some l \<Rightarrow> l)\<rparr>"

record ra_stats =
  ras_total_calls :: int
  ras_successful_calls :: int
  ras_failed_calls :: int
  ras_retry_attempts :: int
  ras_total_retry_delay :: rat

definition ra_zero_stats :: ra_stats where
  "ra_zero_stats =
     \<lparr>ras_total_calls = 0, ras_successful_calls = 0, ras_failed_calls = 0,
      ras_retry_attempts = 0, ras_total_retry_delay = 0\<rparr>"

record ra =
  ra_cfg :: ra_config
  ra_stats :: ra_stats

definition ra_init :: "ra_config \<Rightarrow> ra" where
  "ra_init config = \<lparr>ra_cfg = config, ra_stats = ra_zero_stats\<rparr>"

section \<open>Operations\<close>

definition ra_calculate_delay :: "ra_config \<Rightarrow> rat \<Rightarrow> int \<Rightarrow> rat" where
  "ra_calculate_delay c u attempt =
     (let delay = ra_base_delay c * ra_exponential_base c ^ nat (attempt - 1);
          delay = min delay (ra_max_delay c);
          delay = (if ra_jitter c then
                     (let jitter_range = delay * (1 / 10)
                      in delay + uniform u (- jitter_range) jitter_range)
                   else delay)
      in max 0 delay)"

definition ra_is_retryable :: "ra_config \<Rightarrow> exn \<Rightarrow> bool" where
  "ra_is_retryable c e = list_ex (isinstance e) (ra_retryable_exceptions c)"

text \<open>
  After the loop: the failed call is counted and the last exception raised again; when the loop
  body never ran that is \<open>raise None\<close>, a \<open>TypeError\<close>.
\<close>

definition ra_all_failed ::
  "rat \<Rightarrow> (exn option \<times> ra_stats) \<times> 'w \<Rightarrow> 'a outcome \<times> rat \<times> ((exn option \<times> ra_stats) \<times> 'w)" where
  "ra_all_failed t = (\<lambda>((last_exception, s), w).
     (Raise (case last_exception of
               Some e \<Rightarrow> e
             | None \<Rightarrow> Exn [''TypeError'', ''Exception'']
                        ''exceptions must derive from BaseException''),
      t, ((last_exception, s\<lparr>ras_failed_calls := ras_failed_calls s + 1\<rparr>), w)))"

fun ra_attempts ::
  "ra_config \<Rightarrow> (int \<Rightarrow> rat) \<Rightarrow> int list \<Rightarrow> ('w, 'a) coro \<Rightarrow> ((exn option \<times> ra_stats) \<times> 'w, 'a) coro"
  where
  "ra_attempts c rnd [] f dl t v = ra_all_failed t v"
| "ra_attempts c rnd (attempt # rest) f dl t ((last_exception, s), w) =
     (case f dl t w of
        (Ok x, t1, w1) \<Rightarrow>
          (Ok x, t1, ((last_exception, s\<lparr>ras_successful_calls := ras_successful_calls s + 1\<rparr>), w1))
      | (Cancelled, t1, w1) \<Rightarrow> (Cancelled, t1, ((last_exception, s), w1))
      | (Raise e, t1, w1) \<Rightarrow>
          (if \<not> ra_is_retryable c e then ra_all_failed t1 ((Some e, s), w1)
           else if ra_max_attempts c \<le> attempt then ra_all_failed t1 ((Some e, s), w1)
           else
             (let delay = ra_calculate_delay c (rnd attempt) attempt;
                  s1 = s\<lparr>ras_retry_attempts := ras_retry_attempts s + 1\<rparr>;
                  s2 = s1\<lparr>ras_total_retry_delay := ras_total_retry_delay s1 + delay\<rparr>
              in case sleep delay dl t1 w1 of
                   (Ok _, t2, w2) \<Rightarrow> ra_attempts c rnd rest f dl t2 ((Some e, s2), w2)
                 | (Raise e', t2, w2) \<Rightarrow> (Raise e', t2, ((Some e, s2), w2))
                 | (Cancelled, t2, w2) \<Rightarrow> (Cancelled, t2, ((Some e, s2), w2)))))"

definition ra_call :: "(int \<Rightarrow> rat) \<Rightarrow> ('w, 'a) coro \<Rightarrow> (ra \<times> 'w, 'a) coro" where
  "ra_call rnd f dl t = (\<lambda>(a, w).
     (let s = (ra_stats a)\<lparr>ras_total_calls := ras_total_calls (ra_stats a) + 1\<rparr>
      in case ra_attempts (ra_cfg a) rnd [1..ra_max_attempts (ra_cfg a)] f dl t ((None, s), w) of
           (r, t', ((_, s'), w')) \<Rightarrow> (r, t', (a\<lparr>ra_stats := s'\<rparr>, w'))))"

record ra_report =
  rar_stats :: ra_stats
  rar_success_rate :: rat
  rar_retry_rate :: rat
  rar_avg_retry_delay :: rat

definition ra_get_stats :: "ra \<Rightarrow> ra_report" where
  "ra_get_stats a =
     (let s = ra_stats a
      in if 0 < ras_total_calls s then
           \<lparr>rar_stats = s,
            rar_success_rate = of_int (ras_successful_calls s) / of_int (ras_total_calls s),
            rar_retry_rate = of_int (ras_retry_attempts s) / of_int (ras_total_calls s),
            rar_avg_retry_delay = ras_total_retry_delay s / of_int (max (ras_retry_attempts s) 1)\<rparr>
         else
           \<lparr>rar_stats = s, rar_success_rate = 0, rar_retry_rate = 0, rar_avg_retry_delay = 0\<rparr>)"

definition ra_reset_stats :: "ra \<Rightarrow> ra" where
  "ra_reset_stats a = a\<lparr>ra_stats := ra_zero_stats\<rparr>"

section \<open>The manager and the decorator\<close>

type_synonym ra_manager = "(string, ra) dict"

definition ram_get_adapter :: "string \<Rightarrow> ra_config \<Rightarrow> ra_manager \<Rightarrow> ra \<times> ra_manager" where
  "ram_get_adapter name config m =
     (case dget m name of
        Some a \<Rightarrow> (a, m)
      | None \<Rightarrow> (let a = ra_init config in (a, dset name a m)))"

definition ram_get_all_stats :: "ra_manager \<Rightarrow> (string, ra_report) dict" where
  "ram_get_all_stats m = map (\<lambda>(name, a). (name, ra_get_stats a)) m"

definition ram_reset_all_stats :: "ra_manager \<Rightarrow> ra_manager" where
  "ram_reset_all_stats m = map (\<lambda>(name, a). (name, ra_reset_stats a)) m"

definition retry_decorated ::
  "string \<Rightarrow> ra_config \<Rightarrow> (int \<Rightarrow> rat) \<Rightarrow> ('w, 'a) coro \<Rightarrow> (ra_manager \<times> 'w, 'a) coro" where
  "retry_decorated name config rnd f dl t = (\<lambda>(m, w).
     (case ram_get_adapter name config m of
        (a, m1) \<Rightarrow>
          (case ra_call rnd f dl t (a, w) of
             (r, t', (a', w')) \<Rightarrow> (r, t', (dset name a' m1, w')))))"

definition quick_retry :: ra_config where
  "quick_retry = ra_config_init 2 (1 / 10) 1 2 True None"

definition standard_retry :: ra_config where
  "standard_retry = ra_config_init 3 1 30 2 True None"

definition long_retry :: ra_config where
  "long_retry = ra_config_init 5 2 120 2 True None"

section \<open>The adapter is a retry loop\<close>

interpretation ral: retry_loop
  "ra_attempts c rnd :: int list \<Rightarrow> ('w, 'a) coro \<Rightarrow> ((exn option \<times> ra_stats) \<times> 'w, 'a) coro" snd
  for c rnd
proof (unfold_locales, goal_cases)
  case (1 f dl t v r t' v')
  then show ?case by (auto simp: ra_all_failed_def split: prod.splits)
next
  case (2 n ns f dl t v r t' v' r1 t1 w1)
  obtain l s w where v: "v = ((l, s), w)" by (metis surj_pair)
  from 2 have run: "ra_attempts c rnd (n # ns) f dl t ((l, s), w) = (r, t', v')"
    and f: "f dl t w = (r1, t1, w1)" by (simp_all add: v)
  show ?case
  proof (cases r1)
    case (Raise e)
    show ?thesis
    proof (cases "ra_is_retryable c e \<and> n < ra_max_attempts c")
      case True
      let ?d = "ra_calculate_delay c (rnd n) n"
      let ?s = "s\<lparr>ras_retry_attempts := ras_retry_attempts s + 1,
        ras_total_retry_delay := ras_total_retry_delay s + ?d\<rparr>"
      show ?thesis
      proof (cases rule: sleep_cases [of ?d dl t1 w1])
        case (slept t2)
        with run f Raise True show ?thesis
          by (intro disjI2 exI [of _ "((Some e, ?s), w1)"] exI [of _ t2]) (auto simp: Let_def)
      qed (use run f Raise True in \<open>auto simp: Let_def\<close>)
    qed (use run f Raise in \<open>auto simp: ra_all_failed_def split: if_splits\<close>)
  qed (use run f in auto)
qed

lemma ra_call_loop:
  assumes "ra_call rnd f dl t v = (r, t', v')"
  obtains v1 v2 where "ra_attempts (ra_cfg (fst v)) rnd [1..ra_max_attempts (ra_cfg (fst v))] f dl t v1
      = (r, t', v2)" and "snd v1 = snd v" and "snd v2 = snd v'"
    and "snd (fst v1) = (ra_stats (fst v))\<lparr>ras_total_calls := ras_total_calls (ra_stats (fst v)) + 1\<rparr>"
    and "fst v' = (fst v)\<lparr>ra_stats := snd (fst v2)\<rparr>"
  using assms that by (cases v) (fastforce simp: ra_call_def Let_def split: prod.splits)

interpretation rac: layer "ra_call rnd :: ('w, 'a) coro \<Rightarrow> (ra \<times> 'w, 'a) coro" for rnd
proof unfold_locales
  fix f :: "('w, 'a) coro"
  assume f: "timely f"
  show "timely (ra_call rnd f)"
    by (rule timelyI; erule ra_call_loop; drule ral.run_timing [OF f]; simp)
next
  show "\<exists>dl1 t1 w1 t2 w2. f dl1 t1 w1 = (Ok x, t2, w2)"
    if "ra_call rnd f dl t v = (Ok x, t', v')" for f :: "('w, 'a) coro" and dl t v x t' v'
    by (rule ra_call_loop [OF that]) (rule ral.result_of_some_attempt)
qed

section \<open>Properties\<close>

text \<open>The loop counts its call once, as a success or as a failure, unless it is cancelled.\<close>

lemma ra_attempts_counts:
  assumes "ra_attempts c rnd ns f dl t ((l, s), w) = (r, t', ((l', s'), w'))"
  shows "ras_total_calls s' = ras_total_calls s \<and>
    ras_successful_calls s' = ras_successful_calls s + (case r of Ok _ \<Rightarrow> 1 | _ \<Rightarrow> 0) \<and>
    ras_failed_calls s' = ras_failed_calls s + (case r of Raise _ \<Rightarrow> 1 | _ \<Rightarrow> 0) \<and>
    ras_retry_attempts s \<le> ras_retry_attempts s'"
  using assms
proof (induction ns arbitrary: l s t w)
  case Nil
  then show ?case by (auto simp: ra_all_failed_def)
next
  case (Cons n ns)
  obtain r1 t1 w1 where f: "f dl t w = (r1, t1, w1)" by (cases "f dl t w")
  show ?case
  proof (cases r1)
    case (Raise e)
    show ?thesis
    proof (cases "ra_is_retryable c e \<and> n < ra_max_attempts c")
      case True
      show ?thesis
      proof (cases rule: sleep_cases [of "ra_calculate_delay c (rnd n) n" dl t1 w1])
        case (slept t2)
        with Cons.prems f Raise True have
          "ra_attempts c rnd ns f dl t2 ((Some e,
             s\<lparr>ras_retry_attempts := ras_retry_attempts s + 1,
               ras_total_retry_delay := ras_total_retry_delay s + ra_calculate_delay c (rnd n) n\<rparr>), w1)
           = (r, t', ((l', s'), w'))"
          by (simp add: Let_def)
        from Cons.IH [OF this] show ?thesis by simp
      qed (use Cons.prems f Raise True in \<open>auto simp: Let_def\<close>)
    qed (use Cons.prems f Raise in \<open>auto simp: ra_all_failed_def split: if_splits\<close>)
  qed (use Cons.prems f in auto)
qed

text \<open>
  A call through the adapter is counted exactly once in the total, and exactly once as a
  success when it returns or as a failure when it raises, however many attempts it took; the
  retry counter never decreases and the configuration is untouched.
\<close>

theorem ra_call_counted_once:
  assumes "ra_call rnd f dl t v = (r, t', v')"
  shows "ras_total_calls (ra_stats (fst v')) = ras_total_calls (ra_stats (fst v)) + 1 \<and>
    ras_successful_calls (ra_stats (fst v')) =
      ras_successful_calls (ra_stats (fst v)) + (case r of Ok _ \<Rightarrow> 1 | _ \<Rightarrow> 0) \<and>
    ras_failed_calls (ra_stats (fst v')) =
      ras_failed_calls (ra_stats (fst v)) + (case r of Raise _ \<Rightarrow> 1 | _ \<Rightarrow> 0) \<and>
    ras_retry_attempts (ra_stats (fst v)) \<le> ras_retry_attempts (ra_stats (fst v')) \<and>
    ra_cfg (fst v') = ra_cfg (fst v)"
proof -
  obtain v1 v2 where loop:
      "ra_attempts (ra_cfg (fst v)) rnd [1..ra_max_attempts (ra_cfg (fst v))] f dl t v1 = (r, t', v2)"
    and s1: "snd (fst v1) = (ra_stats (fst v))\<lparr>ras_total_calls := ras_total_calls (ra_stats (fst v)) + 1\<rparr>"
    and s2: "fst v' = (fst v)\<lparr>ra_stats := snd (fst v2)\<rparr>"
    using assms by (rule ra_call_loop)
  obtain l s w l' s' w' where v: "v1 = ((l, s), w)" "v2 = ((l', s'), w')"
    by (metis surj_pair)
  show ?thesis using ra_attempts_counts [OF loop [unfolded v]] s1 s2 by (simp add: v)
qed

theorem ra_call_counted_once_witness:
  "case ra_call (\<lambda>_. 0) (\<lambda>_ t n. ((if n < 2 then Raise timeout_error else Ok n), t, n + 1)) None 0
      (ra_init standard_retry, 0 :: int) of
     (r, t', (a', n')) \<Rightarrow> r = Ok 2 \<and> ras_successful_calls (ra_stats a') = 1 \<and>
       ras_failed_calls (ra_stats a') = 0 \<and> 0 \<le> ras_retry_attempts (ra_stats a')"
proof -
  let ?call = "ra_call (\<lambda>_. 0) (\<lambda>_ t n. ((if n < 2 then Raise timeout_error else Ok n), t, n + 1)) None 0
      (ra_init standard_retry, 0 :: int)"
  obtain r t' a' n' where c: "?call = (r, t', (a', n'))" by (rule prod_cases4)
  moreover have "fst ?call = Ok 2"
    by (simp add: ra_call_def ra_init_def standard_retry_def ra_config_init_def
        ra_is_retryable_def sleep_def Let_def ra_zero_stats_def)
  ultimately show ?thesis
    using ra_call_counted_once [OF c] by (simp add: ra_init_def ra_zero_stats_def)
qed

end
