(* ===== verification/TimeoutHandler.thy ===== *)
theory TimeoutHandler
  imports Interfaces
begin

text \<open>
  \<^verbatim>\<open>libs/adapters/timeout_handler.py\<close>: \<open>TimeoutConfig\<close> and \<open>TimeoutHandler\<close>. The module defines
  its own exception class named \<open>TimeoutError\<close>, which is not the one that
  \<open>asyncio.wait_for\<close> raises; its name here carries the module. Its message renders the timeout,
  a float, which is left out.
\<close>

section \<open>State\<close>

record th_config =
  thc_default_timeout :: rat
  thc_max_timeout :: rat
  thc_min_timeout :: rat
  thc_timeout_multiplier :: rat

definition th_default_config :: th_config where
  "th_default_config =
     \<lparr>thc_default_timeout = 30, thc_max_timeout = 300, thc_min_timeout = 1 / 10,
      thc_timeout_multiplier = 3 / 2\<rparr>"

record th =
  th_cfg :: th_config
  th_timeout_history :: "rat list"
  th_max_history :: nat

definition th_init :: "th_config option \<Rightarrow> th" where
  "th_init config =
     \<lparr>th_cfg = (case config of None \<Rightarrow> th_default_config | Some c \<Rightarrow> c),
      th_timeout_history = [], th_max_history = 100\<rparr>"

definition th_timeout_error :: "exn" where
  "th_timeout_error = Exn [''timeout_handler.TimeoutError'', ''Exception''] ''Operation timed out''"

section \<open>Operations\<close>

definition th_get_effective_timeout :: "th \<Rightarrow> rat option \<Rightarrow> rat" where
  "th_get_effective_timeout h timeout =
     (let timeout = (case timeout of None \<Rightarrow> thc_default_timeout (th_cfg h) | Some x \<Rightarrow> x);
          timeout = max timeout (thc_min_timeout (th_cfg h));
          timeout = min timeout (thc_max_timeout (th_cfg h))
      in timeout)"

text \<open>\<open>xs[-n:]\<close> of a Python list longer than \<open>n\<close>, for positive \<open>n\<close>: its last \<open>n\<close> elements.\<close>

definition last_n :: "nat \<Rightarrow> 'a list \<Rightarrow> 'a list" where
  "last_n n xs = drop (length xs - n) xs"

definition th_record_timeout :: "rat \<Rightarrow> th \<Rightarrow> th" where
  "th_record_timeout timeout h =
     (let h1 = h\<lparr>th_timeout_history := th_timeout_history h @ [timeout]\<rparr>
      in if th_max_history h1 < length (th_timeout_history h1)
         then h1\<lparr>th_timeout_history := last_n (th_max_history h1) (th_timeout_history h1)\<rparr>
         else h1)"

definition th_execute_with_timeout ::
  "rat option \<Rightarrow> ('w, 'a) coro \<Rightarrow> (th \<times> 'w, 'a) coro" where
  "th_execute_with_timeout timeout f dl t = (\<lambda>(h, w).
     (let effective_timeout = th_get_effective_timeout h timeout
      in case wait_for effective_timeout f dl t w of
           (Ok x, t1, w1) \<Rightarrow> (Ok x, t1, (th_record_timeout effective_timeout h, w1))
         | (Raise e, t1, w1) \<Rightarrow>
             (if is_timeout e
              then (Raise th_timeout_error, t1, (th_record_timeout effective_timeout h, w1))
              else (Raise e, t1, (h, w1)))
         | (Cancelled, t1, w1) \<Rightarrow> (Cancelled, t1, (h, w1))))"

definition th_get_adaptive_timeout :: "th \<Rightarrow> rat" where
  "th_get_adaptive_timeout h =
     (if th_timeout_history h = [] then thc_default_timeout (th_cfg h)
      else
        (let recent_history = last_n 10 (th_timeout_history h);
             avg_timeout = sum_list recent_history / of_nat (length recent_history);
             adaptive_timeout = avg_timeout * thc_timeout_multiplier (th_cfg h);
             adaptive_timeout = max adaptive_timeout (thc_min_timeout (th_cfg h));
             adaptive_timeout = min adaptive_timeout (thc_max_timeout (th_cfg h))
         in adaptive_timeout))"

record th_stats =
  ths_count :: nat
  ths_average :: rat
  ths_min :: rat
  ths_max :: rat
  ths_adaptive :: rat

definition th_get_timeout_stats :: "th \<Rightarrow> th_stats" where
  "th_get_timeout_stats h =
     (case th_timeout_history h of
        [] \<Rightarrow> \<lparr>ths_count = 0, ths_average = 0, ths_min = 0, ths_max = 0,
               ths_adaptive = thc_default_timeout (th_cfg h)\<rparr>
      | x # xs \<Rightarrow>
          \<lparr>ths_count = length (x # xs),
           ths_average = sum_list (x # xs) / of_nat (length (x # xs)),
           ths_min = foldl min x xs, ths_max = foldl max x xs,
           ths_adaptive = th_get_adaptive_timeout h\<rparr>)"

section \<open>The handler is a layer\<close>

lemma th_execute_wait:
  assumes "th_execute_with_timeout timeout f dl t v = (r, t', v')"
  obtains r1 where "wait_for (th_get_effective_timeout (fst v) timeout) f dl t (snd v) = (r1, t', snd v')"
    and "\<forall>x. r = Ok x \<longrightarrow> r1 = Ok x" and "r = Cancelled \<longleftrightarrow> r1 = Cancelled"
  using assms that
  by (cases v)
    (auto simp: th_execute_with_timeout_def Let_def split: prod.splits outcome.splits if_splits)

interpretation thl: layer
  "th_execute_with_timeout timeout :: ('w, 'a) coro \<Rightarrow> (th \<times> 'w, 'a) coro" for timeout
proof unfold_locales
  fix f :: "('w, 'a) coro"
  assume f: "timely f"
  show "timely (th_execute_with_timeout timeout f)"
    by (rule timelyI; erule th_execute_wait; drule timely_conj [OF timely_wait_for [OF f]]; simp)
next
  show "\<exists>dl1 t1 w1 t2 w2. f dl1 t1 w1 = (Ok x, t2, w2)"
    if "th_execute_with_timeout timeout f dl t v = (Ok x, t', v')"
    for f :: "('w, 'a) coro" and dl t v x t' v'
  proof (rule th_execute_wait [OF that])
    fix r1
    assume "wait_for (th_get_effective_timeout (fst v) timeout) f dl t (snd v) = (r1, t', snd v')"
      and "\<forall>y. Ok x = Ok y \<longrightarrow> r1 = Ok y"
    then have "wait_for (th_get_effective_timeout (fst v) timeout) f dl t (snd v) = (Ok x, t', snd v')"
      by simp
    then show ?thesis by (rule waiting.result_from_inner)
  qed
qed

definition th_bounds :: "th_config \<Rightarrow> bool" where
  "th_bounds c \<longleftrightarrow> thc_min_timeout c \<le> thc_max_timeout c"

definition th_inv :: "th \<Rightarrow> bool" where
  "th_inv h \<longleftrightarrow> length (th_timeout_history h) \<le> th_max_history h \<and>
     (\<forall>x \<in> set (th_timeout_history h).
        thc_min_timeout (th_cfg h) \<le> x \<and> x \<le> thc_max_timeout (th_cfg h))"

lemma th_effective_range:
  "th_bounds (th_cfg h) \<Longrightarrow> thc_min_timeout (th_cfg h) \<le> th_get_effective_timeout h timeout \<and>
   th_get_effective_timeout h timeout \<le> thc_max_timeout (th_cfg h)"
  by (auto simp: th_get_effective_timeout_def Let_def th_bounds_def)

lemma set_last_n: "set (last_n n xs) \<subseteq> set xs"
  by (simp add: last_n_def set_drop_subset)

lemma length_last_n: "length (last_n n xs) = min n (length xs)"
  by (simp add: last_n_def)

lemma th_inv_record:
  assumes "th_inv h" and "thc_min_timeout (th_cfg h) \<le> x" and "x \<le> thc_max_timeout (th_cfg h)"
  shows "th_inv (th_record_timeout x h)"
  using assms set_last_n [of "th_max_history h" "th_timeout_history h @ [x]"]
  by (auto simp: th_inv_def th_record_timeout_def Let_def length_last_n)

lemma th_record_cfg: "th_cfg (th_record_timeout x h) = th_cfg h"
  by (simp add: th_record_timeout_def Let_def)

section \<open>Properties\<close>

text \<open>
  Time-boxing: with \<open>0 <= min_timeout <= max_timeout\<close>, a call that is not itself cancelled
  from outside ends within \<open>max_timeout\<close>, whatever timeout was asked for and whatever the
  function does, and the handler keeps its invariant: at most \<open>_max_history\<close> recorded
  timeouts, each within the bounds.
\<close>

theorem th_call_time_boxed:
  assumes "timely f" and "th_bounds (th_cfg h)" and "0 \<le> thc_min_timeout (th_cfg h)" and "th_inv h"
    and "th_execute_with_timeout timeout f None t (h, w) = (r, t', (h', w'))"
  shows "t \<le> t' \<and> t' \<le> t + thc_max_timeout (th_cfg h) \<and> r \<noteq> Cancelled \<and>
    th_inv h' \<and> th_cfg h' = th_cfg h"
proof -
  let ?T = "th_get_effective_timeout h timeout"
  obtain r1 where w: "wait_for ?T f None t w = (r1, t', w')" and c: "r = Cancelled \<longleftrightarrow> r1 = Cancelled"
    using th_execute_wait [OF assms(5)] by (metis fst_conv snd_conv)
  have T: "thc_min_timeout (th_cfg h) \<le> ?T" "?T \<le> thc_max_timeout (th_cfg h)"
    using th_effective_range assms(2) by auto
  have "t' \<le> t + ?T" using wait_for_bound [OF assms(1) _ w] T assms(3) by simp
  moreover have "t \<le> t'" "r1 \<noteq> Cancelled"
    using timelyD(1,2) [OF timely_wait_for [OF assms(1)] w] by auto
  moreover have "h' = h \<or> h' = th_record_timeout ?T h"
    using assms(5) by (auto simp: th_execute_with_timeout_def Let_def
        split: prod.splits outcome.splits if_splits)
  ultimately show ?thesis using c T th_inv_record [OF assms(4) T] assms(4) th_record_cfg by auto
qed

theorem th_call_time_boxed_witness:
  "case th_execute_with_timeout (Some 1000) (sleep 400) None 5 (th_init None, ()) of
     (r, t', (h', _)) \<Rightarrow> r = Raise th_timeout_error \<and> t' \<le> 5 + 300 \<and> th_inv h'"
proof -
  let ?call = "th_execute_with_timeout (Some 1000) (sleep 400) None 5 (th_init None, ())"
  obtain r t' h' w' where c: "?call = (r, t', (h', w'))" by (rule prod_cases4)
  have "t \<le> t' \<and> t' \<le> 5 + thc_max_timeout (th_cfg (th_init None)) \<and> r \<noteq> Cancelled \<and>
      th_inv h' \<and> th_cfg h' = th_cfg (th_init None)" if "t = 5" for t
    unfolding that
    by (rule th_call_time_boxed [OF timely_sleep _ _ _ c])
      (simp_all add: th_bounds_def th_init_def th_default_config_def th_inv_def)
  moreover have "fst ?call = Raise th_timeout_error"
    by (simp add: th_execute_with_timeout_def th_get_effective_timeout_def th_init_def
        th_default_config_def wait_for_def own_deadline_def sleep_def)
  ultimately show ?thesis using c by (simp add: th_init_def th_default_config_def)
qed

end
