(* ===== verification/RateLimiter.thy ===== *)
theory RateLimiter
  imports Interfaces
begin

text \<open>
  \<^verbatim>\<open>libs/adapters/rate_limiter.py\<close>: \<open>RateLimitConfig\<close> and \<open>RateLimiter\<close> with its three
  strategies (token bucket, sliding window, fixed window). The whole decision is one atomic
  segment (\<open>rl_enter\<close>): the lock is never held across an await.
\<close>

section \<open>State\<close>

datatype rate_limit_strategy = TOKEN_BUCKET | SLIDING_WINDOW | FIXED_WINDOW

record rl_config =
  rlc_requests_per_second :: rat
  rlc_burst_size :: int
  rlc_strategy :: rate_limit_strategy
  rlc_window_size :: rat

definition rl_default_config :: rl_config where
  "rl_default_config =
     \<lparr>rlc_requests_per_second = 10, rlc_burst_size = 20, rlc_strategy = TOKEN_BUCKET,
      rlc_window_size = 60\<rparr>"

record rl =
  rl_name :: string
  rl_config :: rl_config
  rl_tokens :: rat
  rl_last_refill :: rat
  rl_request_times :: "rat list"
  rl_window_start :: rat
  rl_window_requests :: int
  rl_total_requests :: int
  rl_allowed_requests :: int
  rl_rejected_requests :: int

definition rl_init :: "rat \<Rightarrow> string \<Rightarrow> rl_config option \<Rightarrow> rl" where
  "rl_init now name config =
     (let c = (case config of None \<Rightarrow> rl_default_config | Some c \<Rightarrow> c)
      in \<lparr>rl_name = name, rl_config = c, rl_tokens = of_int (rlc_burst_size c),
          rl_last_refill = now, rl_request_times = [], rl_window_start = now,
          rl_window_requests = 0, rl_total_requests = 0, rl_allowed_requests = 0,
          rl_rejected_requests = 0\<rparr>)"

definition rate_limit_exceeded :: "string \<Rightarrow> exn" where
  "rate_limit_exceeded name =
     Exn [''RateLimitExceededError'', ''Exception''] (''Rate limit exceeded for '' @ name)"

section \<open>Operations\<close>

definition rl_token_bucket_allow :: "rat \<Rightarrow> rl \<Rightarrow> bool \<times> rl" where
  "rl_token_bucket_allow now l =
     (let time_passed = now - rl_last_refill l;
          tokens_to_add = time_passed * rlc_requests_per_second (rl_config l);
          l1 = l\<lparr>rl_tokens := min (rl_tokens l + tokens_to_add) (of_int (rlc_burst_size (rl_config l))),
                 rl_last_refill := now\<rparr>
      in if 1 \<le> rl_tokens l1 then (True, l1\<lparr>rl_tokens := rl_tokens l1 - 1\<rparr>) else (False, l1))"

definition rl_sliding_window_allow :: "rat \<Rightarrow> rl \<Rightarrow> bool \<times> rl" where
  "rl_sliding_window_allow now l =
     (let window_start = now - rlc_window_size (rl_config l);
          l1 = l\<lparr>rl_request_times := filter (\<lambda>t. window_start < t) (rl_request_times l)\<rparr>
      in if of_nat (length (rl_request_times l1))
              < rlc_requests_per_second (rl_config l1) * rlc_window_size (rl_config l1)
         then (True, l1\<lparr>rl_request_times := rl_request_times l1 @ [now]\<rparr>)
         else (False, l1))"

definition rl_fixed_window_allow :: "rat \<Rightarrow> rl \<Rightarrow> bool \<times> rl" where
  "rl_fixed_window_allow now l =
     (let l1 = (if rlc_window_size (rl_config l) \<le> now - rl_window_start l
                then l\<lparr>rl_window_start := now, rl_window_requests := 0\<rparr> else l)
      in if of_int (rl_window_requests l1)
              < rlc_requests_per_second (rl_config l1) * rlc_window_size (rl_config l1)
         then (True, l1\<lparr>rl_window_requests := rl_window_requests l1 + 1\<rparr>)
         else (False, l1))"

definition rl_allow_request :: "rat \<Rightarrow> rl \<Rightarrow> bool \<times> rl" where
  "rl_allow_request now l =
     (let l1 = l\<lparr>rl_total_requests := rl_total_requests l + 1\<rparr>
      in case rlc_strategy (rl_config l1) of
           TOKEN_BUCKET \<Rightarrow> rl_token_bucket_allow now l1
         | SLIDING_WINDOW \<Rightarrow> rl_sliding_window_allow now l1
         | FIXED_WINDOW \<Rightarrow> rl_fixed_window_allow now l1)"

definition rl_enter :: "rat \<Rightarrow> rl \<Rightarrow> exn option \<times> rl" where
  "rl_enter now l =
     (case rl_allow_request now l of
        (allowed, l1) \<Rightarrow>
          (if \<not> allowed
           then (Some (rate_limit_exceeded (rl_name l1)),
                 l1\<lparr>rl_rejected_requests := rl_rejected_requests l1 + 1\<rparr>)
           else (None, l1\<lparr>rl_allowed_requests := rl_allowed_requests l1 + 1\<rparr>)))"

definition rl_execute :: "('w, 'a) coro \<Rightarrow> (rl \<times> 'w, 'a) coro" where
  "rl_execute = guarded (instant rl_enter) (plain (\<lambda>_ _ l. l))"

fun rl_strategy_value :: "rate_limit_strategy \<Rightarrow> string" where
  "rl_strategy_value TOKEN_BUCKET = ''token_bucket''"
| "rl_strategy_value SLIDING_WINDOW = ''sliding_window''"
| "rl_strategy_value FIXED_WINDOW = ''fixed_window''"

record rl_stats =
  rls_name :: string
  rls_total_requests :: int
  rls_allowed_requests :: int
  rls_rejected_requests :: int
  rls_acceptance_rate :: rat
  rls_current_tokens :: "rat option"
  rls_window_requests :: "int option"
  rls_requests_per_second :: rat
  rls_burst_size :: int
  rls_strategy :: string
  rls_window_size :: rat

definition rl_get_stats :: "rl \<Rightarrow> rl_stats" where
  "rl_get_stats l =
     \<lparr>rls_name = rl_name l, rls_total_requests = rl_total_requests l,
      rls_allowed_requests = rl_allowed_requests l,
      rls_rejected_requests = rl_rejected_requests l,
      rls_acceptance_rate =
        (if 0 < rl_total_requests l
         then of_int (rl_allowed_requests l) / of_int (rl_total_requests l) else 0),
      rls_current_tokens =
        (if rlc_strategy (rl_config l) = TOKEN_BUCKET then Some (rl_tokens l) else None),
      rls_window_requests =
        (if rlc_strategy (rl_config l) = FIXED_WINDOW then Some (rl_window_requests l) else None),
      rls_requests_per_second = rlc_requests_per_second (rl_config l),
      rls_burst_size = rlc_burst_size (rl_config l),
      rls_strategy = rl_strategy_value (rlc_strategy (rl_config l)),
      rls_window_size = rlc_window_size (rl_config l)\<rparr>"

definition rl_reset_stats :: "rl \<Rightarrow> rl" where
  "rl_reset_stats l =
     l\<lparr>rl_total_requests := 0, rl_allowed_requests := 0, rl_rejected_requests := 0\<rparr>"

lemmas rl_allow_defs = rl_token_bucket_allow_def rl_sliding_window_allow_def
  rl_fixed_window_allow_def

section \<open>The limiter meets its contracts\<close>

interpretation rlg: guard "instant rl_enter" "plain (\<lambda>_ _ l. l)"
  by (rule guard_instant_plain)

definition rl_bucket_inv :: "rl \<Rightarrow> bool" where
  "rl_bucket_inv l \<longleftrightarrow> 0 \<le> rl_tokens l \<and> rl_tokens l \<le> of_int (rlc_burst_size (rl_config l)) \<and>
     0 \<le> rlc_requests_per_second (rl_config l)"

interpretation rlt: token_limiter rl_token_bucket_allow rl_tokens rl_last_refill
  "\<lambda>l. rlc_requests_per_second (rl_config l)" "\<lambda>l. of_int (rlc_burst_size (rl_config l))"
  "\<lambda>_. 1" rl_bucket_inv
proof (unfold_locales, goal_cases)
  case (1 s t b s')
  then have "rl_last_refill s * rlc_requests_per_second (rl_config s)
      \<le> t * rlc_requests_per_second (rl_config s)"
    by (auto simp: rl_bucket_inv_def intro: mult_right_mono)
  with 1 show ?case
    by (auto simp: rl_token_bucket_allow_def rl_bucket_inv_def Let_def min_def algebra_simps
        split: if_splits)
qed (auto simp: rl_token_bucket_allow_def rl_bucket_inv_def Let_def min_def algebra_simps
      split: if_splits)

lemma rl_allow_counts:
  assumes "rl_allow_request now l = (b, l')"
  shows "rl_total_requests l' = rl_total_requests l + 1 \<and>
    rl_allowed_requests l' = rl_allowed_requests l \<and>
    rl_rejected_requests l' = rl_rejected_requests l"
  using assms
  by (auto simp: rl_allow_request_def rl_allow_defs Let_def
      split: rate_limit_strategy.splits if_splits)

text \<open>Every decision is counted: what is in flight or finished was allowed.\<close>

lemma rl_enter_counts:
  "rl_enter now l = (e, l') \<Longrightarrow>
   rl_total_requests l' = rl_total_requests l + 1 \<and>
   rl_allowed_requests l' = rl_allowed_requests l + (if e = None then 1 else 0) \<and>
   rl_rejected_requests l' = rl_rejected_requests l + (if e = None then 0 else 1)"
  using rl_allow_counts [of now l] by (auto simp: rl_enter_def split: prod.splits if_splits)

lemma rl_counts_interleaved:
  assumes "interleaved rl_enter (\<lambda>_ _ l. l) (rl_init now nm c) (l, k, d)"
  shows "rl_total_requests l = rl_allowed_requests l + rl_rejected_requests l"
  by (rule interleaved_invariant [OF assms,
        where I = "\<lambda>l. rl_total_requests l = rl_allowed_requests l + rl_rejected_requests l"])
    (auto simp: rl_init_def Let_def dest: rl_enter_counts)

section \<open>The sliding window\<close>

text \<open>The admission times of a run, the earliest first.\<close>

fun rl_sliding_run :: "rat list \<Rightarrow> rl \<Rightarrow> rat list \<times> rl" where
  "rl_sliding_run [] l = ([], l)"
| "rl_sliding_run (t # ts) l =
     (case rl_sliding_window_allow t l of
        (b, l1) \<Rightarrow> (case rl_sliding_run ts l1 of (as, l2) \<Rightarrow> (if b then t # as else as, l2)))"

definition rl_limit :: "rl \<Rightarrow> rat" where
  "rl_limit l = rlc_requests_per_second (rl_config l) * rlc_window_size (rl_config l)"

lemma sliding_config: "rl_sliding_window_allow t l = (b, l') \<Longrightarrow> rl_config l' = rl_config l"
  by (auto simp: rl_sliding_window_allow_def Let_def split: if_splits)

lemma sliding_run_subset: "set (fst (rl_sliding_run ts l)) \<subseteq> set ts"
proof (induction ts arbitrary: l)
  case (Cons t ts)
  obtain b l1 where b: "rl_sliding_window_allow t l = (b, l1)" by (cases "rl_sliding_window_allow t l")
  from Cons.IH [of l1] show ?case by (auto simp: b split: prod.splits)
qed simp

text \<open>
  Counting in the window \<open>(x, x + W]\<close>: recorded times that still lie in it plus later
  admissions in it stay within the limit, rounded up.
\<close>

lemma sliding_window_count:
  assumes "sorted ts" and "\<forall>t \<in> set ts. \<forall>a \<in> set (rl_request_times l). a \<le> t"
    and "rl_sliding_run ts l = (as, l')"
    and "of_nat (length (filter (\<lambda>a. x < a) (rl_request_times l))) < rl_limit l + 1"
    and "0 \<le> rl_limit l"
  shows "of_nat (length (filter (\<lambda>a. x < a) (rl_request_times l)) +
           length (filter (\<lambda>a. x < a \<and> a \<le> x + rlc_window_size (rl_config l)) as)) < rl_limit l + 1"
  using assms
proof (induction ts arbitrary: l as)
  case Nil
  then show ?case by simp
next
  case (Cons t ts)
  let ?W = "rlc_window_size (rl_config l)"
  obtain b l1 where b: "rl_sliding_window_allow t l = (b, l1)" by (cases "rl_sliding_window_allow t l")
  obtain as1 where r: "rl_sliding_run ts l1 = (as1, l')" and as: "as = (if b then t # as1 else as1)"
    using Cons.prems(3) b by (auto split: prod.splits)
  have cfg: "rl_config l1 = rl_config l" by (rule sliding_config [OF b])
  have lim: "rl_limit l1 = rl_limit l" by (simp add: rl_limit_def cfg)
  show ?case
  proof (cases "x + ?W < t")
    case True
    have later: "\<forall>a \<in> set as. x + ?W < a"
    proof -
      have "set as \<subseteq> set (t # ts)"
        using sliding_run_subset [of "t # ts" l] Cons.prems(3) by (simp del: rl_sliding_run.simps)
      moreover have "\<forall>u \<in> set (t # ts). t \<le> u" using Cons.prems(1) by auto
      ultimately show ?thesis using True by fastforce
    qed
    then have "filter (\<lambda>a. x < a \<and> a \<le> x + ?W) as = []" by (auto simp: filter_empty_conv)
    then show ?thesis using Cons.prems(4) by simp
  next
    case False
    have keep: "filter (\<lambda>a. x < a) (filter (\<lambda>u. t - ?W < u) (rl_request_times l))
        = filter (\<lambda>a. x < a) (rl_request_times l)"
      using False by (auto intro!: filter_cong)
    have short: "length (filter (\<lambda>a. x < a) (rl_request_times l))
        \<le> length (filter (\<lambda>u. t - ?W < u) (rl_request_times l))"
      by (metis keep length_filter_le)
    have times: "rl_request_times l1 =
        filter (\<lambda>u. t - ?W < u) (rl_request_times l) @ (if b then [t] else [])"
      and adm: "b \<longleftrightarrow> of_nat (length (filter (\<lambda>u. t - ?W < u) (rl_request_times l))) < rl_limit l"
      using b by (auto simp: rl_sliding_window_allow_def rl_limit_def Let_def split: if_splits)
    have cnt: "length (filter (\<lambda>a. x < a) (rl_request_times l1)) =
        length (filter (\<lambda>a. x < a) (rl_request_times l)) + (if b \<and> x < t then 1 else 0)"
      by (simp add: times keep del: filter_filter)
    have "of_nat (length (filter (\<lambda>a. x < a) (rl_request_times l1))) < rl_limit l1 + 1"
    proof (cases "b \<and> x < t")
      case True
      then have "of_nat (length (filter (\<lambda>a. x < a) (rl_request_times l))) < rl_limit l"
        using adm short by (meson le_less_trans of_nat_mono)
      then show ?thesis using cnt True lim by simp
    qed (use cnt Cons.prems(4) lim in auto)
    moreover have "\<forall>u \<in> set ts. \<forall>a \<in> set (rl_request_times l1). a \<le> u"
      using Cons.prems(1,2) by (auto simp: times)
    ultimately have "of_nat (length (filter (\<lambda>a. x < a) (rl_request_times l1)) +
        length (filter (\<lambda>a. x < a \<and> a \<le> x + ?W) as1)) < rl_limit l + 1"
      using Cons.IH [of l1 as1] Cons.prems(1,5) r lim cfg by simp
    then show ?thesis using False by (cases "b \<and> x < t") (auto simp: as cnt)
  qed
qed

section \<open>Properties\<close>

text \<open>
  The token bucket: of the requests of any period that starts when the limiter is created,
  at most burst size plus rate times the length of the period are admitted.
\<close>

theorem rl_token_bucket_bound:
  assumes "0 \<le> rlc_burst_size c" and "0 \<le> rlc_requests_per_second c" and "sorted (now # ts)"
    and "admitted_count rl_token_bucket_allow ts (rl_init now nm (Some c)) = (n, l)"
  shows "of_nat n \<le> of_int (rlc_burst_size c) + rlc_requests_per_second c * (last (now # ts) - now)"
  using rlt.admitted_bound [of "rl_init now nm (Some c)" ts n l] assms
  by (simp add: rl_init_def rl_bucket_inv_def del: last.simps)

theorem rl_token_bucket_bound_witness:
  "fst (admitted_count rl_token_bucket_allow [0, 0, 0, 1]
     (rl_init 0 ''api'' (Some (rl_default_config\<lparr>rlc_burst_size := 2, rlc_requests_per_second := 1\<rparr>)))) = 3
   \<and> (3 :: rat) \<le> 2 + 1 * 1"
proof -
  let ?c = "rl_default_config\<lparr>rlc_burst_size := 2, rlc_requests_per_second := 1\<rparr>"
  obtain n l where run: "admitted_count rl_token_bucket_allow [0, 0, 0, 1] (rl_init 0 ''api'' (Some ?c)) = (n, l)"
    by (cases "admitted_count rl_token_bucket_allow [0, 0, 0, 1] (rl_init 0 ''api'' (Some ?c))")
  have "of_nat n \<le> of_int (rlc_burst_size ?c) + rlc_requests_per_second ?c * (last [0, 0, 0, 0, 1] - 0)"
    by (rule rl_token_bucket_bound [OF _ _ _ run]) (simp_all add: rl_default_config_def)
  moreover have "n = 3"
    using run by (simp add: rl_token_bucket_allow_def rl_init_def rl_default_config_def Let_def)
  ultimately show ?thesis using run by simp
qed

text \<open>
  The sliding window: in every time window of the configured size, at most
  \<open>requests_per_second * window_size\<close> requests, rounded up, are admitted.
\<close>

theorem rl_sliding_window_bound:
  assumes "sorted ts" and "0 \<le> rlc_requests_per_second c * rlc_window_size c"
    and "rl_sliding_run ts (rl_init now nm (Some c)) = (as, l)"
  shows "of_nat (length (filter (\<lambda>a. x < a \<and> a \<le> x + rlc_window_size c) as))
    < rlc_requests_per_second c * rlc_window_size c + 1"
  using sliding_window_count [of ts "rl_init now nm (Some c)" as l x] assms
  by (simp add: rl_init_def rl_limit_def)

theorem rl_sliding_window_bound_witness:
  "fst (rl_sliding_run [1, 2, 3, 8, 13] (rl_init 0 ''api'' (Some
      (rl_default_config\<lparr>rlc_window_size := 10, rlc_requests_per_second := 3 / 10\<rparr>)))) = [1, 2, 3, 13]
   \<and> (of_nat (length (filter (\<lambda>a. 3 < a \<and> a \<le> 3 + 10) [1, 2, 3, 13 :: rat])) :: rat) < 4"
proof -
  let ?c = "rl_default_config\<lparr>rlc_window_size := 10, rlc_requests_per_second := 3 / 10\<rparr>"
  obtain as l where run: "rl_sliding_run [1, 2, 3, 8, 13] (rl_init 0 ''api'' (Some ?c)) = (as, l)"
    by (cases "rl_sliding_run [1, 2, 3, 8, 13] (rl_init 0 ''api'' (Some ?c))")
  have "of_nat (length (filter (\<lambda>a. 3 < a \<and> a \<le> 3 + rlc_window_size ?c) as))
      < rlc_requests_per_second ?c * rlc_window_size ?c + 1"
    by (rule rl_sliding_window_bound [OF _ _ run]) simp_all
  moreover have "as = [1, 2, 3, 13]"
    using run by (simp add: rl_sliding_window_allow_def rl_init_def rl_default_config_def Let_def)
  ultimately show ?thesis using run by simp
qed

end
