(* ===== verification/HealthChecker.thy ===== *)
theory HealthChecker
  imports Interfaces
begin

text \<open>
  \<^verbatim>\<open>libs/adapters/health_checker.py\<close>: \<open>HealthStatus\<close>, \<open>HealthChecker\<close> and
  \<open>HealthCheckManager\<close>. The state machine is in \<open>_on_success\<close> and \<open>_on_failure\<close>; the check
  function is a coroutine that yields a Python value, of which \<open>_evaluate_result\<close> looks at the
  type and the truth value.
\<close>

section \<open>State\<close>

datatype health_status = HEALTHY | UNHEALTHY | DEGRADED | UNKNOWN

fun health_status_value :: "health_status \<Rightarrow> string" where
  "health_status_value HEALTHY = ''healthy''"
| "health_status_value UNHEALTHY = ''unhealthy''"
| "health_status_value DEGRADED = ''degraded''"
| "health_status_value UNKNOWN = ''unknown''"

record hc_config =
  hcc_check_interval :: rat
  hcc_timeout :: rat
  hcc_failure_threshold :: int
  hcc_success_threshold :: int
  hcc_enabled :: bool

definition hc_default_config :: hc_config where
  "hc_default_config =
     \<lparr>hcc_check_interval = 30, hcc_timeout = 10, hcc_failure_threshold = 3,
      hcc_success_threshold = 2, hcc_enabled = True\<rparr>"

record hc =
  hc_name :: string
  hc_config :: hc_config
  hc_status :: health_status
  hc_last_check :: "rat option"
  hc_last_success :: "rat option"
  hc_last_failure :: "rat option"
  hc_consecutive_failures :: int
  hc_consecutive_successes :: int
  hc_has_check_function :: bool
  hc_task :: "nat option"
  hc_live_tasks :: "nat list"
  hc_next_task :: nat

definition hc_init :: "string \<Rightarrow> hc_config option \<Rightarrow> hc" where
  "hc_init name config =
     \<lparr>hc_name = name,
      hc_config = (case config of None \<Rightarrow> hc_default_config | Some c \<Rightarrow> c),
      hc_status = UNKNOWN, hc_last_check = None, hc_last_success = None, hc_last_failure = None,
      hc_consecutive_failures = 0, hc_consecutive_successes = 0,
      hc_has_check_function = False, hc_task = None, hc_live_tasks = [], hc_next_task = 0\<rparr>"

definition hc_set_check_function :: "hc \<Rightarrow> hc" where
  "hc_set_check_function h = h\<lparr>hc_has_check_function := True\<rparr>"

section \<open>Operations\<close>

text \<open>
  Background loops are numbered in the order they are created: \<open>_task\<close> names the newest, and
  \<open>hc_live_tasks\<close> holds those the event loop still runs.
\<close>

definition hc_start :: "hc \<Rightarrow> hc" where
  "hc_start h =
     (if \<not> hcc_enabled (hc_config h) then h
      else if \<not> hc_has_check_function h then h
      else h\<lparr>hc_task := Some (hc_next_task h),
             hc_live_tasks := hc_live_tasks h @ [hc_next_task h],
             hc_next_task := hc_next_task h + 1\<rparr>)"

text \<open>\<open>stop\<close> cancels the task and awaits its end; \<open>_task\<close> keeps naming the finished task.\<close>

definition hc_stop :: "hc \<Rightarrow> hc" where
  "hc_stop h =
     (case hc_task h of
        None \<Rightarrow> h
      | Some i \<Rightarrow> h\<lparr>hc_live_tasks := filter (\<lambda>j. j \<noteq> i) (hc_live_tasks h)\<rparr>)"

definition hc_on_success :: "rat \<Rightarrow> hc \<Rightarrow> hc" where
  "hc_on_success now h =
     (let h1 = h\<lparr>hc_last_success := Some now,
                 hc_consecutive_successes := hc_consecutive_successes h + 1,
                 hc_consecutive_failures := 0\<rparr>
      in if hc_status h1 = UNHEALTHY then
           (if hcc_success_threshold (hc_config h1) \<le> hc_consecutive_successes h1
            then h1\<lparr>hc_status := HEALTHY\<rparr> else h1)
         else if hc_status h1 = UNKNOWN then h1\<lparr>hc_status := HEALTHY\<rparr>
         else h1)"

definition hc_on_failure :: "rat \<Rightarrow> hc \<Rightarrow> hc" where
  "hc_on_failure now h =
     (let h1 = h\<lparr>hc_last_failure := Some now,
                 hc_consecutive_failures := hc_consecutive_failures h + 1,
                 hc_consecutive_successes := 0\<rparr>
      in if hcc_failure_threshold (hc_config h1) \<le> hc_consecutive_failures h1 then
           (if hc_status h1 \<noteq> UNHEALTHY then h1\<lparr>hc_status := UNHEALTHY\<rparr> else h1)
         else if hc_status h1 = UNKNOWN then h1\<lparr>hc_status := DEGRADED\<rparr>
         else h1)"

text \<open>
  The values a check can return. A dict is given by its entry for \<open>healthy\<close>, itself any value
  of which the caller takes the truth; any other value by its truth. \<open>str.lower\<close> is the
  ASCII one.
\<close>

datatype check_result =
    RBool bool
  | RDict "bool option"
  | RStr string
  | ROther bool

fun hc_evaluate_result :: "check_result \<Rightarrow> bool" where
  "hc_evaluate_result (RBool b) = b"
| "hc_evaluate_result (RDict v) = (case v of None \<Rightarrow> False | Some b \<Rightarrow> b)"
| "hc_evaluate_result (RStr s) = (ascii_lower s \<in> {''healthy'', ''ok'', ''up''})"
| "hc_evaluate_result (ROther b) = b"

definition hc_perform_check ::
  "('w, check_result) coro \<Rightarrow> (hc \<times> 'w, unit) coro" where
  "hc_perform_check f dl t = (\<lambda>(h, w).
     (if \<not> hc_has_check_function h then (Ok (), t, (h, w))
      else
        (let h1 = h\<lparr>hc_last_check := Some t\<rparr>
         in case wait_for (hcc_timeout (hc_config h1)) f dl t w of
              (Ok result, t1, w1) \<Rightarrow>
                (if hc_evaluate_result result then (Ok (), t1, (hc_on_success t1 h1, w1))
                 else (Ok (), t1, (hc_on_failure t1 h1, w1)))
            | (Raise e, t1, w1) \<Rightarrow> (Ok (), t1, (hc_on_failure t1 h1, w1))
            | (Cancelled, t1, w1) \<Rightarrow> (Cancelled, t1, (h1, w1)))))"

text \<open>
  The background loop, given the number of rounds it gets before it is cancelled. A
  cancellation in the check or in the sleep ends it; \<open>_perform_check\<close> never raises, so the
  second \<open>except\<close> clause is not reached.
\<close>

fun hc_run_checks :: "nat \<Rightarrow> ('w, check_result) coro \<Rightarrow> (hc \<times> 'w, unit) coro" where
  "hc_run_checks 0 f dl t v = (Ok (), t, v)"
| "hc_run_checks (Suc n) f dl t v =
     (case hc_perform_check f dl t v of
        (Cancelled, t1, v1) \<Rightarrow> (Ok (), t1, v1)
      | (Ok _, t1, v1) \<Rightarrow>
          (case sleep (hcc_check_interval (hc_config (fst v1))) dl t1 v1 of
             (Cancelled, t2, v2) \<Rightarrow> (Ok (), t2, v2)
           | (Ok _, t2, v2) \<Rightarrow> hc_run_checks n f dl t2 v2
           | (Raise _, t2, v2) \<Rightarrow> hc_run_checks n f dl t2 v2)
      | (Raise _, t1, v1) \<Rightarrow>
          (case sleep (hcc_check_interval (hc_config (fst v1))) dl t1 v1 of
             (Cancelled, t2, v2) \<Rightarrow> (Cancelled, t2, v2)
           | (Ok _, t2, v2) \<Rightarrow> hc_run_checks n f dl t2 v2
           | (Raise e, t2, v2) \<Rightarrow> (Raise e, t2, v2)))"

definition hc_check_now ::
  "('w, check_result) coro \<Rightarrow> (hc \<times> 'w, health_status) coro" where
  "hc_check_now f dl t = (\<lambda>(h, w).
     (if \<not> hc_has_check_function h then (Ok UNKNOWN, t, (h, w))
      else
        (case wait_for (hcc_timeout (hc_config h)) f dl t w of
           (Ok result, t1, w1) \<Rightarrow>
             (let h1 = (if hc_evaluate_result result then hc_on_success t1 h else hc_on_failure t1 h)
              in (Ok (hc_status h1), t1, (h1, w1)))
         | (Raise e, t1, w1) \<Rightarrow>
             (let h1 = hc_on_failure t1 h in (Ok (hc_status h1), t1, (h1, w1)))
         | (Cancelled, t1, w1) \<Rightarrow> (Cancelled, t1, (h, w1)))))"

record hc_report =
  hcr_name :: string
  hcr_status :: string
  hcr_last_check :: "rat option"
  hcr_last_success :: "rat option"
  hcr_last_failure :: "rat option"
  hcr_consecutive_failures :: int
  hcr_consecutive_successes :: int
  hcr_config :: hc_config

definition hc_get_status :: "hc \<Rightarrow> hc_report" where
  "hc_get_status h =
     \<lparr>hcr_name = hc_name h, hcr_status = health_status_value (hc_status h),
      hcr_last_check = hc_last_check h, hcr_last_success = hc_last_success h,
      hcr_last_failure = hc_last_failure h,
      hcr_consecutive_failures = hc_consecutive_failures h,
      hcr_consecutive_successes = hc_consecutive_successes h,
      hcr_config = hc_config h\<rparr>"

section \<open>The manager\<close>

type_synonym hc_manager = "(string, hc) dict"

definition hcm_add_checker :: "string \<Rightarrow> hc \<Rightarrow> hc_manager \<Rightarrow> hc_manager" where
  "hcm_add_checker name h m = dset name h m"

definition hcm_start_all :: "hc_manager \<Rightarrow> hc_manager" where
  "hcm_start_all m = map (\<lambda>(name, h). (name, hc_start h)) m"

definition hcm_stop_all :: "hc_manager \<Rightarrow> hc_manager" where
  "hcm_stop_all m = map (\<lambda>(name, h). (name, hc_stop h)) m"

definition hcm_get_overall_status :: "hc_manager \<Rightarrow> health_status" where
  "hcm_get_overall_status m =
     (if m = [] then UNKNOWN
      else
        (let statuses = map (\<lambda>(_, h). hc_status h) m
         in if list_all (\<lambda>s. s = HEALTHY) statuses then HEALTHY
            else if list_ex (\<lambda>s. s = UNHEALTHY) statuses then UNHEALTHY
            else if list_ex (\<lambda>s. s = DEGRADED) statuses then DEGRADED
            else UNKNOWN))"

definition hcm_get_all_statuses :: "hc_manager \<Rightarrow> (string, hc_report) dict" where
  "hcm_get_all_statuses m = map (\<lambda>(name, h). (name, hc_get_status h)) m"

section \<open>Runs of the state machine\<close>

text \<open>The outcomes of successive checks: the time of each and whether it was healthy.\<close>

definition hc_record :: "rat \<times> bool \<Rightarrow> hc \<Rightarrow> hc" where
  "hc_record x h = (if snd x then hc_on_success (fst x) h else hc_on_failure (fst x) h)"

fun hc_history :: "(rat \<times> bool) list \<Rightarrow> hc \<Rightarrow> hc" where
  "hc_history [] h = h"
| "hc_history (x # xs) h = hc_history xs (hc_record x h)"

lemma hc_history_append: "hc_history (xs @ ys) h = hc_history ys (hc_history xs h)"
  by (induction xs arbitrary: h) auto

text \<open>A completed check is one step of the machine; any other leaves it alone.\<close>

lemma hc_perform_check_step:
  assumes "hc_perform_check f dl t (h, w) = (r, t', (h', w'))" and "hc_has_check_function h"
    and "r = Ok ()"
  shows "\<exists>b. h' = hc_record (t', b) (h\<lparr>hc_last_check := Some t\<rparr>)"
proof -
  have "h' = hc_on_success t' (h\<lparr>hc_last_check := Some t\<rparr>) \<or>
      h' = hc_on_failure t' (h\<lparr>hc_last_check := Some t\<rparr>)"
    using assms by (auto simp: hc_perform_check_def Let_def
        split: prod.splits outcome.splits if_splits)
  then show ?thesis
    by (metis fst_conv snd_conv hc_record_def)
qed

lemma hc_perform_check_returns:
  assumes "timely f"
  shows "\<exists>t' v'. hc_perform_check f None t v = (Ok (), t', v')"
proof -
  obtain h w where v: "v = (h, w)" by (cases v)
  obtain r t1 w1 where w1: "wait_for (hcc_timeout (hc_config h)) f None t w = (r, t1, w1)"
    by (rule prod_cases3)
  have "r \<noteq> Cancelled" using wait_for_not_cancelled [OF assms] w1 by metis
  then show ?thesis
    by (cases r) (auto simp: v hc_perform_check_def w1 Let_def split: outcome.split)
qed

text \<open>
  The invariant of the machine: an unhealthy checker has recovered less than the success
  threshold since its last failure; one that is not has failed less than the failure
  threshold since its last success; no check, unknown.
\<close>

definition hc_inv :: "hc \<Rightarrow> bool" where
  "hc_inv h \<longleftrightarrow> 0 < hcc_failure_threshold (hc_config h) \<and>
     0 \<le> hc_consecutive_failures h \<and> 0 \<le> hc_consecutive_successes h \<and>
     (hc_status h \<noteq> UNHEALTHY \<longrightarrow>
        hc_consecutive_failures h < hcc_failure_threshold (hc_config h)) \<and>
     (hc_status h = UNHEALTHY \<longrightarrow> 0 < hc_consecutive_failures h \<or>
        hc_consecutive_successes h < hcc_success_threshold (hc_config h)) \<and>
     (hc_consecutive_failures h = 0 \<or> hc_consecutive_successes h = 0) \<and>
     (hc_status h = UNKNOWN \<longrightarrow> hc_consecutive_failures h = 0 \<and> hc_consecutive_successes h = 0)"

lemma hc_record_config [simp]: "hc_config (hc_record x h) = hc_config h"
  by (simp add: hc_record_def hc_on_success_def hc_on_failure_def Let_def)

lemma hc_history_config [simp]: "hc_config (hc_history xs h) = hc_config h"
  by (induction xs arbitrary: h) simp_all

lemma hc_inv_record: "hc_inv h \<Longrightarrow> hc_inv (hc_record x h)"
  by (auto simp: hc_inv_def hc_record_def hc_on_success_def hc_on_failure_def Let_def)

lemma hc_inv_history: "hc_inv h \<Longrightarrow> hc_inv (hc_history xs h)"
  by (induction xs arbitrary: h) (auto intro: hc_inv_record)

lemma hc_inv_init: "0 < hcc_failure_threshold c \<Longrightarrow> hc_inv (hc_init nm (Some c))"
  by (simp add: hc_inv_def hc_init_def)

section \<open>Properties\<close>

text \<open>
  Failure detection: after checks that all fail, a checker is unhealthy exactly when it
  already was or the run of consecutive failures has reached the failure threshold.
\<close>

theorem hc_failures_mark_unhealthy:
  assumes "hc_inv h" and "\<forall>x \<in> set xs. \<not> snd x"
  shows "hc_status (hc_history xs h) = UNHEALTHY \<longleftrightarrow> hc_status h = UNHEALTHY \<or>
    hcc_failure_threshold (hc_config h) \<le> hc_consecutive_failures h + int (length xs)"
  using assms
proof (induction xs arbitrary: h)
  case Nil
  then show ?case by (auto simp: hc_inv_def)
next
  case (Cons x xs)
  let ?h = "hc_record x h"
  have "hc_consecutive_failures ?h = hc_consecutive_failures h + 1"
    and "hc_status ?h = UNHEALTHY \<longleftrightarrow> hc_status h = UNHEALTHY \<or>
      hcc_failure_threshold (hc_config h) \<le> hc_consecutive_failures h + 1"
    using Cons.prems(2) by (auto simp: hc_record_def hc_on_failure_def Let_def)
  then show ?case using Cons.IH [of ?h] Cons.prems hc_inv_record [of h x] by auto
qed

theorem hc_failures_mark_unhealthy_witness:
  "hc_status (hc_history [(1, False), (2, False), (3, False)] (hc_init ''db'' None)) = UNHEALTHY"
  using hc_failures_mark_unhealthy [of "hc_init ''db'' None" "[(1, False), (2, False), (3, False)]"]
  by (simp add: hc_inv_def hc_init_def hc_default_config_def)

text \<open>
  Recovery: a checker whose last check failed and marked or left it unhealthy becomes
  healthy again exactly when the run of successful checks reaches the success threshold.
\<close>

theorem hc_recovers_after_successes:
  assumes "hc_inv h" and "hc_status h = UNHEALTHY" and "0 < hc_consecutive_failures h"
    and "\<forall>x \<in> set xs. snd x" and "xs \<noteq> []"
  shows "hc_status (hc_history xs h) =
    (if hcc_success_threshold (hc_config h) \<le> int (length xs) then HEALTHY else UNHEALTHY)"
proof -
  have healthy: "hc_status (hc_history ys g) = HEALTHY"
    if "hc_status g = HEALTHY" "\<forall>x \<in> set ys. snd x" for ys g
    using that by (induction ys arbitrary: g) (auto simp: hc_record_def hc_on_success_def Let_def)
  have run: "hc_status (hc_history ys g) =
      (if hcc_success_threshold (hc_config g) \<le> hc_consecutive_successes g + int (length ys)
       then HEALTHY else UNHEALTHY)"
    if "hc_status g = UNHEALTHY" "\<forall>x \<in> set ys. snd x" "ys \<noteq> []" for ys g
    using that
  proof (induction ys arbitrary: g)
    case (Cons y ys)
    let ?g = "hc_record y g"
    have g: "hc_consecutive_successes ?g = hc_consecutive_successes g + 1"
      "hc_status ?g = (if hcc_success_threshold (hc_config g) \<le> hc_consecutive_successes g + 1
         then HEALTHY else UNHEALTHY)"
      using Cons.prems by (auto simp: hc_record_def hc_on_success_def Let_def)
    show ?case
      using Cons.IH [of ?g] Cons.prems g healthy [of ?g ys]
      by (cases "hcc_success_threshold (hc_config g) \<le> hc_consecutive_successes g + 1";
          cases "ys = []") auto
  qed simp
  have "hc_consecutive_successes h = 0" using assms(1,3) by (auto simp: hc_inv_def)
  then show ?thesis using run [OF assms(2,4,5)] by simp
qed

theorem hc_recovers_after_successes_witness:
  "hc_status (hc_history [(4, True), (5, True)]
     (hc_history [(1, False), (2, False), (3, False)] (hc_init ''db'' None))) = HEALTHY"
proof -
  let ?h = "hc_history [(1, False), (2, False), (3, False)] (hc_init ''db'' None)"
  have "hc_inv ?h"
    by (rule hc_inv_history) (simp add: hc_inv_def hc_init_def hc_default_config_def)
  moreover have "hc_status ?h = UNHEALTHY" "0 < hc_consecutive_failures ?h"
    "hcc_success_threshold (hc_config ?h) = 2"
    by (simp_all add: hc_record_def hc_on_failure_def hc_init_def hc_default_config_def Let_def)
  ultimately show ?thesis
    using hc_recovers_after_successes [of ?h "[(4, True), (5, True)]"]
    by (simp del: hc_history.simps)
qed

text \<open>
  A degraded checker stays degraded however many checks succeed: \<open>_on_success\<close> promotes an
  unhealthy or an unknown one only, so a first check that fails keeps the checker from ever
  reporting healthy until it has been unhealthy in between.
\<close>

theorem hc_degraded_is_sticky:
  assumes "hc_status h = DEGRADED" and "\<forall>x \<in> set xs. snd x"
  shows "hc_status (hc_history xs h) = DEGRADED"
  using assms
  by (induction xs arbitrary: h) (auto simp: hc_record_def hc_on_success_def Let_def)

theorem hc_degraded_is_sticky_witness:
  "hc_status (hc_history (replicate 50 (9, True)) (hc_history [(1, False)] (hc_init ''db'' None)))
     = DEGRADED"
  by (rule hc_degraded_is_sticky)
    (simp_all add: hc_record_def hc_on_failure_def hc_init_def hc_default_config_def Let_def)

end
