(* ===== verification/SagaPattern.thy ===== *)
theory SagaPattern
  imports Interfaces
begin

text \<open>
  \<^verbatim>\<open>libs/adapters/saga_pattern.py\<close>: \<open>SagaStep\<close>, \<open>Saga\<close> and \<open>SagaManager\<close>. A step carries its
  two coroutines. Steps are mutable objects reached through the list of the saga, so an
  operation on a step is an update of that list at its index.

  In parallel execution the event loop runs the step tasks side by side; \<open>par\<close> is the
  parameter that says what came of them: for the list of steps, the step objects afterwards
  (their retry counters may have changed), the outcome of each task and the time at which it
  is known.
\<close>

section \<open>State\<close>

datatype saga_status = SagaPending | SagaRunning | SagaCompleted | SagaCompensating
  | SagaCompensated | SagaFailed

datatype step_status = StepPending | StepRunning | StepCompleted | StepFailed | StepCompensated

record ('w, 'r) sg_step =
  ss_step_id :: string
  ss_name :: string
  ss_execute_func :: "('w, 'r) coro"
  ss_compensate_func :: "('w, unit) coro option"
  ss_timeout :: rat
  ss_retry_attempts :: int
  ss_max_retries :: int
  ss_status :: step_status
  ss_result :: "'r option"
  ss_error :: "string option"
  ss_started_at :: "rat option"
  ss_completed_at :: "rat option"

record ('w, 'r) saga =
  sg_saga_id :: string
  sg_name :: string
  sg_steps :: "('w, 'r) sg_step list"
  sg_timeout :: rat
  sg_parallel_execution :: bool
  sg_compensation_strategy :: string
  sg_created_at :: rat
  sg_status :: saga_status
  sg_error :: "string option"

definition sg_new :: "rat \<Rightarrow> string \<Rightarrow> string \<Rightarrow> ('w, 'r) saga" where
  "sg_new now saga_id name =
     \<lparr>sg_saga_id = saga_id, sg_name = name, sg_steps = [], sg_timeout = 300,
      sg_parallel_execution = False, sg_compensation_strategy = ''reverse_order'',
      sg_created_at = now, sg_status = SagaPending, sg_error = None\<rparr>"

definition sg_add_step ::
  "string \<Rightarrow> string \<Rightarrow> ('w, 'r) coro \<Rightarrow> ('w, unit) coro option \<Rightarrow> rat \<Rightarrow> int \<Rightarrow>
   ('w, 'r) saga \<Rightarrow> ('w, 'r) saga" where
  "sg_add_step step_id name execute_func compensate_func timeout max_retries s =
     s\<lparr>sg_steps := sg_steps s @
        [\<lparr>ss_step_id = step_id, ss_name = name, ss_execute_func = execute_func,
          ss_compensate_func = compensate_func, ss_timeout = timeout, ss_retry_attempts = 0,
          ss_max_retries = max_retries, ss_status = StepPending, ss_result = None,
          ss_error = None, ss_started_at = None, ss_completed_at = None\<rparr>]\<rparr>"

record sg_metrics =
  sgm_total :: int
  sgm_completed :: int
  sgm_failed :: int
  sgm_compensated :: int
  sgm_active :: int

record ('w, 'r) sg_manager =
  sg_active_sagas :: "(string, ('w, 'r) saga) dict"
  sg_completed_sagas :: "(string, ('w, 'r) saga) dict"
  sg_metrics :: sg_metrics

definition sg_manager_init :: "('w, 'r) sg_manager" where
  "sg_manager_init =
     \<lparr>sg_active_sagas = [], sg_completed_sagas = [],
      sg_metrics = \<lparr>sgm_total = 0, sgm_completed = 0, sgm_failed = 0, sgm_compensated = 0,
                    sgm_active = 0\<rparr>\<rparr>"

definition sg_create_saga ::
  "rat \<Rightarrow> string \<Rightarrow> string \<Rightarrow> ('w, 'r) sg_manager \<Rightarrow> ('w, 'r) saga \<times> ('w, 'r) sg_manager" where
  "sg_create_saga now saga_id name m =
     (let s = sg_new now saga_id name;
          x = sg_metrics m
      in (s, m\<lparr>sg_active_sagas := dset saga_id s (sg_active_sagas m),
              sg_metrics := x\<lparr>sgm_total := sgm_total x + 1, sgm_active := sgm_active x + 1\<rparr>\<rparr>))"

section \<open>One step with its retries\<close>

definition sg_retry_delay_ms :: "int \<Rightarrow> int" where
  "sg_retry_delay_ms attempt = min (1000 * 2 ^ nat attempt) 10000"

text \<open>
  The loop state: \<open>last_exception\<close>, the retry counter of the step, and the world. The function
  is one attempt: the coroutine of the step under its timeout.
\<close>

fun sg_step_attempts ::
  "int \<Rightarrow> int list \<Rightarrow> ('w, 'r) coro \<Rightarrow> ((exn option \<times> int) \<times> 'w, 'r) coro" where
  "sg_step_attempts max_retries [] f dl t ((last_exception, n), w) =
     (Raise (case last_exception of
               Some e \<Rightarrow> e
             | None \<Rightarrow> Exn [''TypeError'', ''Exception'']
                        ''exceptions must derive from BaseException''),
      t, ((last_exception, n), w))"
| "sg_step_attempts max_retries (attempt # rest) f dl t ((last_exception, n), w) =
     (case f dl t w of
        (Ok x, t1, w1) \<Rightarrow> (Ok x, t1, ((last_exception, n), w1))
      | (Cancelled, t1, w1) \<Rightarrow> (Cancelled, t1, ((last_exception, n), w1))
      | (Raise e, t1, w1) \<Rightarrow>
          (if attempt < max_retries then
             (case sleep (of_int (sg_retry_delay_ms attempt) / 1000) dl t1 w1 of
                (Ok _, t2, w2) \<Rightarrow>
                  sg_step_attempts max_retries rest f dl t2 ((Some e, n + 1), w2)
              | (Raise e', t2, w2) \<Rightarrow> (Raise e', t2, ((Some e, n + 1), w2))
              | (Cancelled, t2, w2) \<Rightarrow> (Cancelled, t2, ((Some e, n + 1), w2)))
           else sg_step_attempts max_retries rest f dl t1 ((Some e, n + 1), w1)))"

definition sg_execute_step_with_retry :: "(('w, 'r) sg_step \<times> 'w, 'r) coro" where
  "sg_execute_step_with_retry dl t = (\<lambda>(s, w).
     (case sg_step_attempts (ss_max_retries s) [0..ss_max_retries s]
             (wait_for (ss_timeout s) (ss_execute_func s)) dl t ((None, ss_retry_attempts s), w) of
        (r, t', ((_, n), w')) \<Rightarrow> (r, t', (s\<lparr>ss_retry_attempts := n\<rparr>, w'))))"

section \<open>Sequential execution\<close>

fun sg_execute_sequential :: "(('w, 'r) sg_step list \<times> 'w, bool) coro" where
  "sg_execute_sequential dl t ([], w) = (Ok True, t, ([], w))"
| "sg_execute_sequential dl t (s # ss, w) =
     (let s1 = s\<lparr>ss_status := StepRunning, ss_started_at := Some t\<rparr>
      in case sg_execute_step_with_retry dl t (s1, w) of
           (Ok x, t1, (s2, w1)) \<Rightarrow>
             (let s3 = s2\<lparr>ss_result := Some x, ss_status := StepCompleted,
                          ss_completed_at := Some t1\<rparr>
              in case sg_execute_sequential dl t1 (ss, w1) of
                   (r, t2, (ss', w2)) \<Rightarrow> (r, t2, (s3 # ss', w2)))
         | (Raise e, t1, (s2, w1)) \<Rightarrow>
             (Ok False, t1,
              (s2\<lparr>ss_status := StepFailed, ss_error := Some (message e),
                  ss_completed_at := Some t1\<rparr> # ss, w1))
         | (Cancelled, t1, (s2, w1)) \<Rightarrow> (Cancelled, t1, (s2 # ss, w1)))"

section \<open>Parallel execution\<close>

text \<open>
  The loop that awaits the tasks in the order of the steps and returns at the first failure:
  the later tasks go on, and nothing records what comes of them.
\<close>

fun sg_await_tasks ::
  "(('w, 'r) sg_step \<times> 'r outcome \<times> rat) list \<Rightarrow> rat \<Rightarrow> bool outcome \<times> rat \<times> ('w, 'r) sg_step list"
  where
  "sg_await_tasks [] t = (Ok True, t, [])"
| "sg_await_tasks ((s, r, done_at) # xs) t =
     (let t1 = max t done_at
      in case r of
           Ok x \<Rightarrow>
             (case sg_await_tasks xs t1 of
                (q, t2, ss) \<Rightarrow>
                  (q, t2, s\<lparr>ss_result := Some x, ss_status := StepCompleted,
                            ss_completed_at := Some t1\<rparr> # ss))
         | Raise e \<Rightarrow>
             (Ok False, t1,
              s\<lparr>ss_status := StepFailed, ss_error := Some (message e), ss_completed_at := Some t1\<rparr>
                # map fst xs)
         | Cancelled \<Rightarrow> (Cancelled, t1, s # map fst xs))"

type_synonym ('w, 'r) scheduler =
  "('w, 'r) sg_step list \<Rightarrow> rat \<Rightarrow> 'w \<Rightarrow> (('w, 'r) sg_step \<times> 'r outcome \<times> rat) list \<times> 'w"

definition sg_execute_parallel ::
  "('w, 'r) scheduler \<Rightarrow> (('w, 'r) sg_step list \<times> 'w, bool) coro" where
  "sg_execute_parallel par dl t = (\<lambda>(ss, w).
     (let ss1 = map (\<lambda>s. s\<lparr>ss_status := StepRunning, ss_started_at := Some t\<rparr>) ss
      in case par ss1 t w of
           (tasks, w1) \<Rightarrow>
             (case sg_await_tasks tasks t of
                (Ok b, t1, ss2) \<Rightarrow> (Ok b, t1, (ss2, w1))
              | (Raise _, t1, ss2) \<Rightarrow> (Ok False, t1, (ss2, w1))
              | (Cancelled, t1, ss2) \<Rightarrow> (Cancelled, t1, (ss2, w1)))))"

section \<open>Compensation\<close>

fun sg_compensate_steps :: "nat list \<Rightarrow> (('w, 'r) sg_step list \<times> 'w, unit) coro" where
  "sg_compensate_steps [] dl t (ss, w) = (Ok (), t, (ss, w))"
| "sg_compensate_steps (i # is) dl t (ss, w) =
     (case ss_compensate_func (ss ! i) of
        None \<Rightarrow> sg_compensate_steps is dl t (ss, w)
      | Some g \<Rightarrow>
          (case g dl t w of
             (Ok _, t1, w1) \<Rightarrow>
               sg_compensate_steps is dl t1 (ss[i := (ss ! i)\<lparr>ss_status := StepCompensated\<rparr>], w1)
           | (Raise e, t1, w1) \<Rightarrow> sg_compensate_steps is dl t1 (ss, w1)
           | (Cancelled, t1, w1) \<Rightarrow> (Cancelled, t1, (ss, w1))))"

definition sg_completed_indices :: "('w, 'r) sg_step list \<Rightarrow> nat list" where
  "sg_completed_indices ss = filter (\<lambda>i. ss_status (ss ! i) = StepCompleted) [0..<length ss]"

definition sg_execute_compensation :: "(('w, 'r) saga \<times> 'w, unit) coro" where
  "sg_execute_compensation dl t = (\<lambda>(s, w).
     (let s1 = s\<lparr>sg_status := SagaCompensating\<rparr>;
          completed = sg_completed_indices (sg_steps s1);
          order = (if sg_compensation_strategy s1 = ''reverse_order'' then rev completed
                   else completed)
      in case sg_compensate_steps order dl t (sg_steps s1, w) of
           (r, t', (ss, w')) \<Rightarrow> (r, t', (s1\<lparr>sg_steps := ss\<rparr>, w'))))"

section \<open>The manager\<close>

text \<open>Moving a saga out of the active ones, with its final status and one counter.\<close>

definition sg_retire ::
  "(sg_metrics \<Rightarrow> sg_metrics) \<Rightarrow> string \<Rightarrow> ('w, 'r) saga \<Rightarrow> ('w, 'r) sg_manager \<Rightarrow> ('w, 'r) sg_manager"
  where
  "sg_retire bump saga_id s m =
     (let x = bump (sg_metrics m)
      in m\<lparr>sg_completed_sagas := dset saga_id s (sg_completed_sagas m),
           sg_active_sagas := ddel saga_id (sg_active_sagas m),
           sg_metrics := x\<lparr>sgm_active := sgm_active x - 1\<rparr>\<rparr>)"

definition sg_store :: "string \<Rightarrow> ('w, 'r) saga \<Rightarrow> ('w, 'r) sg_manager \<Rightarrow> ('w, 'r) sg_manager" where
  "sg_store saga_id s m = m\<lparr>sg_active_sagas := dset saga_id s (sg_active_sagas m)\<rparr>"

definition sg_execute_saga ::
  "('w, 'r) scheduler \<Rightarrow> string \<Rightarrow> (('w, 'r) sg_manager \<times> 'w, bool) coro" where
  "sg_execute_saga par saga_id dl t = (\<lambda>(m, w).
     (case dget (sg_active_sagas m) saga_id of
        None \<Rightarrow> (Raise (value_error (''Saga '' @ saga_id @ '' not found'')), t, (m, w))
      | Some s \<Rightarrow>
          (let s1 = s\<lparr>sg_status := SagaRunning\<rparr>
           in case (if sg_parallel_execution s1 then sg_execute_parallel par dl t (sg_steps s1, w)
                    else sg_execute_sequential dl t (sg_steps s1, w)) of
                (Ok success, t1, (ss, w1)) \<Rightarrow>
                  (let s2 = s1\<lparr>sg_steps := ss\<rparr>
                   in if success then
                        (Ok True, t1,
                         (sg_retire (\<lambda>x. x\<lparr>sgm_completed := sgm_completed x + 1\<rparr>) saga_id
                            (s2\<lparr>sg_status := SagaCompleted\<rparr>) m, w1))
                      else
                        (case sg_execute_compensation dl t1 (s2, w1) of
                           (Ok _, t2, (s3, w2)) \<Rightarrow>
                             (Ok False, t2,
                              (sg_retire (\<lambda>x. x\<lparr>sgm_compensated := sgm_compensated x + 1\<rparr>) saga_id
                                 (s3\<lparr>sg_status := SagaCompensated\<rparr>) m, w2))
                         | (Raise e, t2, (s3, w2)) \<Rightarrow>
                             (Ok False, t2,
                              (sg_retire (\<lambda>x. x\<lparr>sgm_failed := sgm_failed x + 1\<rparr>) saga_id
                                 (s3\<lparr>sg_status := SagaFailed, sg_error := Some (message e)\<rparr>) m, w2))
                         | (Cancelled, t2, (s3, w2)) \<Rightarrow>
                             (Cancelled, t2, (sg_store saga_id s3 m, w2))))
              | (Raise e, t1, (ss, w1)) \<Rightarrow>
                  (Ok False, t1,
                   (sg_retire (\<lambda>x. x\<lparr>sgm_failed := sgm_failed x + 1\<rparr>) saga_id
                      (s1\<lparr>sg_steps := ss, sg_status := SagaFailed,
                          sg_error := Some (message e)\<rparr>) m, w1))
              | (Cancelled, t1, (ss, w1)) \<Rightarrow>
                  (Cancelled, t1, (sg_store saga_id (s1\<lparr>sg_steps := ss\<rparr>) m, w1)))))"

section \<open>Reports\<close>

fun saga_status_value :: "saga_status \<Rightarrow> string" where
  "saga_status_value SagaPending = ''pending''"
| "saga_status_value SagaRunning = ''running''"
| "saga_status_value SagaCompleted = ''completed''"
| "saga_status_value SagaCompensating = ''compensating''"
| "saga_status_value SagaCompensated = ''compensated''"
| "saga_status_value SagaFailed = ''failed''"

fun step_status_value :: "step_status \<Rightarrow> string" where
  "step_status_value StepPending = ''pending''"
| "step_status_value StepRunning = ''running''"
| "step_status_value StepCompleted = ''completed''"
| "step_status_value StepFailed = ''failed''"
| "step_status_value StepCompensated = ''compensated''"

record step_report =
  srp_step_id :: string
  srp_name :: string
  srp_status :: string
  srp_started_at :: "rat option"
  srp_completed_at :: "rat option"
  srp_error :: "string option"

record saga_report =
  sgr_saga_id :: string
  sgr_name :: string
  sgr_status :: string
  sgr_created_at :: rat
  sgr_error :: "string option"
  sgr_steps :: "step_report list"

definition sg_get_saga_status :: "string \<Rightarrow> ('w, 'r) sg_manager \<Rightarrow> saga_report option" where
  "sg_get_saga_status saga_id m =
     (case (case dget (sg_active_sagas m) saga_id of
              Some s \<Rightarrow> Some s
            | None \<Rightarrow> dget (sg_completed_sagas m) saga_id) of
        None \<Rightarrow> None
      | Some s \<Rightarrow>
          Some \<lparr>sgr_saga_id = sg_saga_id s, sgr_name = sg_name s,
                sgr_status = saga_status_value (sg_status s), sgr_created_at = sg_created_at s,
                sgr_error = sg_error s,
                sgr_steps = map (\<lambda>p. \<lparr>srp_step_id = ss_step_id p, srp_name = ss_name p,
                   srp_status = step_status_value (ss_status p),
                   srp_started_at = ss_started_at p, srp_completed_at = ss_completed_at p,
                   srp_error = ss_error p\<rparr>) (sg_steps s)\<rparr>)"

definition sg_get_saga_metrics :: "('w, 'r) sg_manager \<Rightarrow> sg_metrics \<times> rat" where
  "sg_get_saga_metrics m =
     (let x = sg_metrics m
      in (x, if 0 < sgm_total x then of_int (sgm_completed x) / of_int (sgm_total x) else 0))"

section \<open>Steps\<close>

interpretation sgl: retry_loop
  "sg_step_attempts mx :: int list \<Rightarrow> ('w, 'r) coro \<Rightarrow> ((exn option \<times> int) \<times> 'w, 'r) coro" snd
  for mx
proof (unfold_locales, goal_cases)
  case (1 f dl t v r t' v')
  obtain l n w where v: "v = ((l, n), w)" by (metis surj_pair)
  with 1 show ?case by auto
next
  case (2 a as f dl t v r t' v' r1 t1 w1)
  obtain l n w where v: "v = ((l, n), w)" by (metis surj_pair)
  from 2 have run: "sg_step_attempts mx (a # as) f dl t ((l, n), w) = (r, t', v')"
    and f: "f dl t w = (r1, t1, w1)" by (simp_all add: v)
  show ?case
  proof (cases r1)
    case (Raise e)
    show ?thesis
    proof (cases "a < mx")
      case True
      show ?thesis
      proof (cases rule: sleep_cases [of "of_int (sg_retry_delay_ms a) / 1000" dl t1 w1])
        case (slept t2)
        with run f Raise True show ?thesis
          by (intro disjI2 exI [of _ "((Some e, n + 1), w1)"] exI [of _ t2]) auto
      qed (use run f Raise True in auto)
    next
      case False
      with run f Raise show ?thesis
        by (intro disjI2 exI [of _ "((Some e, n + 1), w1)"] exI [of _ t1]) auto
    qed
  qed (use run f in auto)
qed

lemma sg_execute_step_fields:
  assumes "sg_execute_step_with_retry dl t (s, w) = (r, t', (s', w'))"
  shows "\<exists>n. s' = s\<lparr>ss_retry_attempts := n\<rparr>"
  using assms by (auto simp: sg_execute_step_with_retry_def split: prod.splits)

text \<open>What a step's attempts leave alone stays as it was; so does the clock's honesty.\<close>

lemma sg_attempts_keep:
  fixes obs :: "'w \<Rightarrow> 'o"
  assumes keep: "\<And>dl t w r t' w'. f dl t w = (r, t', w') \<Longrightarrow> obs w' = obs w"
    and "sg_step_attempts mx ns f dl t v = (r, t', v')"
  shows "obs (snd v') = obs (snd v)"
  using assms(2)
proof (induction ns arbitrary: t v)
  case Nil
  then show ?case using sgl.run_Nil by metis
next
  case (Cons n ns)
  obtain r1 t1 w1 where f1: "f dl t (snd v) = (r1, t1, w1)" by (rule prod_cases3)
  from sgl.run_Cons [OF Cons.prems f1] keep [OF f1] Cons.IH show ?case by metis
qed

lemma wait_for_keep:
  fixes obs :: "'w \<Rightarrow> 'o"
  assumes keep: "\<And>dl t w r t' w'. f dl t w = (r, t', w') \<Longrightarrow> obs w' = obs w"
    and "wait_for tmo f dl t w = (r, t', w')"
  shows "obs w' = obs w"
proof (cases "tmo \<le> 0")
  case False
  obtain r1 t1 w1 where f1: "f (Some (t + tmo)) t w = (r1, t1, w1)" by (rule prod_cases3)
  obtain r2 t2 w2 where f2: "f dl t w = (r2, t2, w2)" by (rule prod_cases3)
  show ?thesis
    using assms(2) False keep [OF f1] keep [OF f2]
    by (auto simp: wait_for_def f1 f2 split: if_splits outcome.splits)
qed (use assms(2) in \<open>simp add: wait_for_def\<close>)

definition sg_step_inert :: "('w \<Rightarrow> 'o) \<Rightarrow> ('w, 'r) sg_step \<Rightarrow> bool" where
  "sg_step_inert obs s \<longleftrightarrow> timely (ss_execute_func s) \<and>
     (\<forall>dl t w r t' w'. ss_execute_func s dl t w = (r, t', w') \<longrightarrow> obs w' = obs w)"

lemma sg_execute_step_inert:
  assumes s: "sg_step_inert obs s" and run: "sg_execute_step_with_retry dl t (s, w) = (r, t', (s', w'))"
  shows "obs w' = obs w" and "dl = None \<Longrightarrow> r \<noteq> Cancelled"
proof -
  let ?g = "wait_for (ss_timeout s) (ss_execute_func s)"
  let ?v = "((None, ss_retry_attempts s), w)"
  obtain v' where loop: "sg_step_attempts (ss_max_retries s) [0..ss_max_retries s] ?g dl t ?v = (r, t', v')"
    and v': "w' = snd v'"
    using run by (auto simp: sg_execute_step_with_retry_def split: prod.splits)
  have g: "\<And>dl t w r t' w'. ?g dl t w = (r, t', w') \<Longrightarrow> obs w' = obs w"
    by (rule wait_for_keep) (use s in \<open>auto simp: sg_step_inert_def\<close>)
  show "obs w' = obs w" using sg_attempts_keep [OF g loop] v' by simp
  have "timely ?g" using s timely_wait_for by (auto simp: sg_step_inert_def)
  from sgl.run_timing [OF this loop] show "dl = None \<Longrightarrow> r \<noteq> Cancelled" by simp
qed

section \<open>The sequential run\<close>

text \<open>
  What is left of the steps when the run stops: \<open>k\<close> completed steps, then either nothing more
  or a failed step and the rest untouched. \<open>sg_frame\<close>: identity and compensation of a step.
\<close>

definition sg_frame :: "('w, 'r) sg_step \<Rightarrow> string \<times> ('w, unit) coro option" where
  "sg_frame s = (ss_step_id s, ss_compensate_func s)"

definition sg_stopped_at :: "nat \<Rightarrow> ('w, 'r) sg_step list \<Rightarrow> ('w, 'r) sg_step list \<Rightarrow> bool" where
  "sg_stopped_at k ss ss' \<longleftrightarrow> k < length ss \<and> (\<forall>i < k. ss_status (ss' ! i) = StepCompleted) \<and>
     ss_status (ss' ! k) = StepFailed \<and> drop (Suc k) ss' = drop (Suc k) ss"

lemma sg_sequential_spec:
  assumes "\<forall>s \<in> set ss. sg_step_inert obs s"
    and "sg_execute_sequential None t (ss, w) = (r, t', (ss', w'))"
  shows "obs w' = obs w \<and> map sg_frame ss' = map sg_frame ss \<and>
    (r = Ok True \<and> (\<forall>s \<in> set ss'. ss_status s = StepCompleted) \<or>
     r = Ok False \<and> (\<exists>k. sg_stopped_at k ss ss'))"
  using assms
proof (induction ss arbitrary: t w r t' ss' w')
  case Nil
  then show ?case by simp
next
  case (Cons s ss)
  let ?s1 = "s\<lparr>ss_status := StepRunning, ss_started_at := Some t\<rparr>"
  obtain q t1 s2 w1 where st: "sg_execute_step_with_retry None t (?s1, w) = (q, t1, (s2, w1))"
    by (rule prod_cases4)
  have "sg_step_inert obs ?s1" using Cons.prems(1) by (simp add: sg_step_inert_def)
  note inert = sg_execute_step_inert [OF this st]
  obtain n where s2: "s2 = ?s1\<lparr>ss_retry_attempts := n\<rparr>" using sg_execute_step_fields [OF st] ..
  show ?case
  proof (cases q)
    case (Ok x)
    obtain r2 t2 ss2 w2 where rest: "sg_execute_sequential None t1 (ss, w1) = (r2, t2, (ss2, w2))"
      by (rule prod_cases4)
    let ?s3 = "s2\<lparr>ss_result := Some x, ss_status := StepCompleted, ss_completed_at := Some t1\<rparr>"
    have res: "r = r2" "w' = w2" "ss' = ?s3 # ss2"
      using Cons.prems(2) by (auto simp: st Ok rest Let_def)
    have IH: "obs w2 = obs w1 \<and> map sg_frame ss2 = map sg_frame ss \<and>
      (r2 = Ok True \<and> (\<forall>s \<in> set ss2. ss_status s = StepCompleted) \<or>
       r2 = Ok False \<and> (\<exists>k. sg_stopped_at k ss ss2))"
      using Cons.IH [OF _ rest] Cons.prems(1) by simp
    moreover have "sg_stopped_at (Suc k) (s # ss) (?s3 # ss2)" if "sg_stopped_at k ss ss2" for k
      using that by (auto simp: sg_stopped_at_def nth_Cons split: nat.split)
    moreover have "sg_frame ?s3 = sg_frame s" by (simp add: s2 sg_frame_def)
    ultimately show ?thesis using inert(1) res by auto
  next
    case (Raise e)
    then have "r = Ok False" "w' = w1"
      "ss' = s2\<lparr>ss_status := StepFailed, ss_error := Some (message e), ss_completed_at := Some t1\<rparr> # ss"
      using Cons.prems(2) by (auto simp: st Let_def)
    moreover have "sg_stopped_at 0 (s # ss) ss'"
      using calculation by (simp add: sg_stopped_at_def)
    ultimately show ?thesis using inert(1) by (auto simp: s2 sg_frame_def)
  next
    case Cancelled
    with inert(2) show ?thesis by simp
  qed
qed

section \<open>The compensation run\<close>

text \<open>
  \<open>obs\<close> observes what the compensations write: each appends the identifier of its step,
  whether it then returns or raises.
\<close>

definition sg_step_logs :: "('w \<Rightarrow> string list) \<Rightarrow> ('w, 'r) sg_step \<Rightarrow> bool" where
  "sg_step_logs obs s \<longleftrightarrow>
     (\<forall>g. ss_compensate_func s = Some g \<longrightarrow> timely g \<and>
        (\<forall>dl t w r t' w'. g dl t w = (r, t', w') \<longrightarrow> obs w' = obs w @ [ss_step_id s]))"

definition sg_compensable :: "('w, 'r) sg_step \<Rightarrow> bool" where
  "sg_compensable s \<longleftrightarrow> ss_compensate_func s \<noteq> None"

lemma sg_compensate_spec:
  assumes "\<forall>s \<in> set ss. sg_step_logs obs s" and "\<forall>i \<in> set is. i < length ss"
    and "sg_compensate_steps is None t (ss, w) = (r, t', (ss', w'))"
  shows "r = Ok () \<and>
    obs w' = obs w @ map ss_step_id (filter sg_compensable (map ((!) ss) is)) \<and>
    map sg_frame ss' = map sg_frame ss \<and>
    (\<forall>j < length ss. ss' ! j = ss ! j \<or> j \<in> set is \<and> ss' ! j = (ss ! j)\<lparr>ss_status := StepCompensated\<rparr>)"
  using assms
proof (induction "is" arbitrary: ss t w)
  case Nil
  then show ?case by simp
next
  case (Cons i "is")
  have i: "i < length ss" using Cons.prems(2) by simp
  show ?case
  proof (cases "ss_compensate_func (ss ! i)")
    case None
    then have "sg_compensate_steps is None t (ss, w) = (r, t', (ss', w'))"
      using Cons.prems(3) by simp
    from Cons.IH [OF Cons.prems(1) _ this] Cons.prems(2) None show ?thesis
      by (auto simp: sg_compensable_def)
  next
    case (Some g)
    obtain q t1 w1 where g: "g None t w = (q, t1, w1)" by (rule prod_cases3)
    have "sg_step_logs obs (ss ! i)" using Cons.prems(1) i by simp
    then have log: "obs w1 = obs w @ [ss_step_id (ss ! i)]" and "q \<noteq> Cancelled"
      using Some g timelyD(2) [of g None t w q t1 w1] by (auto simp: sg_step_logs_def)
    let ?ss = "case q of Ok _ \<Rightarrow> ss[i := (ss ! i)\<lparr>ss_status := StepCompensated\<rparr>] | _ \<Rightarrow> ss"
    have nxt: "sg_compensate_steps is None t1 (?ss, w1) = (r, t', (ss', w'))"
      using Cons.prems(3) Some g \<open>q \<noteq> Cancelled\<close> by (cases q) auto
    have same: "length ?ss = length ss" "map sg_frame ?ss = map sg_frame ss"
      "\<And>j. j < length ss \<Longrightarrow> ?ss ! j = ss ! j \<or> j = i \<and> ?ss ! j = (ss ! j)\<lparr>ss_status := StepCompensated\<rparr>"
      using i by (cases q; auto simp: sg_frame_def list_eq_iff_nth_eq nth_list_update)+
    have at: "ss_step_id (?ss ! j) = ss_step_id (ss ! j) \<and> sg_compensable (?ss ! j) = sg_compensable (ss ! j)"
      if "j < length ss" for j
      using same(3) [OF that] by (auto simp: sg_compensable_def)
    have ids: "map ss_step_id (filter sg_compensable (map ((!) ?ss) is)) =
        map ss_step_id (filter sg_compensable (map ((!) ss) is))"
      using at Cons.prems(2) by (induction "is") auto
    have log_at: "sg_step_logs obs (?ss ! j)" if "j < length ss" for j
    proof -
      have "sg_step_logs obs (ss ! j)" using Cons.prems(1) that by simp
      then show ?thesis using same(3) [OF that] by (auto simp: sg_step_logs_def)
    qed
    have logs: "\<forall>s \<in> set ?ss. sg_step_logs obs s"
      unfolding all_set_conv_all_nth same(1) using log_at by blast
    from Cons.IH [OF logs _ nxt] Cons.prems(2) same(1)
    have IH: "r = Ok ()" "obs w' = obs w1 @ map ss_step_id (filter sg_compensable (map ((!) ?ss) is))"
      "map sg_frame ss' = map sg_frame ?ss"
      "\<forall>j < length ?ss. ss' ! j = ?ss ! j \<or> j \<in> set is \<and> ss' ! j = (?ss ! j)\<lparr>ss_status := StepCompensated\<rparr>"
      by auto
    have "sg_compensable (ss ! i)" using Some by (simp add: sg_compensable_def)
    moreover have "\<forall>j < length ss. ss' ! j = ss ! j \<or>
        j \<in> set (i # is) \<and> ss' ! j = (ss ! j)\<lparr>ss_status := StepCompensated\<rparr>"
      using IH(4) same(1,3) by fastforce
    ultimately show ?thesis using IH(1-3) ids log same(2) by simp
  qed
qed

section \<open>The whole saga\<close>

lemma completed_indices_stopped:
  assumes "sg_stopped_at k ss ss'" and "length ss' = length ss"
    and "\<forall>p \<in> set ss. ss_status p = StepPending"
  shows "sg_completed_indices ss' = [0..<k]"
proof -
  have rest: "ss' ! i = ss ! i" if "k < i" "i < length ss" for i
  proof -
    have "drop (Suc k) ss' ! (i - Suc k) = drop (Suc k) ss ! (i - Suc k)"
      using assms(1) by (simp add: sg_stopped_at_def)
    then show ?thesis using that assms(2) by simp
  qed
  have "ss_status (ss' ! i) = StepCompleted \<longleftrightarrow> i < k" if "i < length ss" for i
    using assms(1,3) rest that by (cases i k rule: linorder_cases) (auto simp: sg_stopped_at_def)
  then have "sg_completed_indices ss' = filter (\<lambda>i. i < k) [0..<length ss]"
    unfolding sg_completed_indices_def assms(2) by (auto intro!: filter_cong)
  also have "\<dots> = [0..<k]"
    using assms(1) by (intro filter_less_upt) (simp add: sg_stopped_at_def)
  finally show ?thesis .
qed

lemma frame_logs:
  assumes "map sg_frame ss' = map sg_frame ss" and "\<forall>p \<in> set ss. sg_step_logs obs p"
  shows "\<forall>p \<in> set ss'. sg_step_logs obs p"
proof -
  have len: "length ss' = length ss" using map_eq_imp_length_eq [OF assms(1)] .
  have "sg_step_logs obs (ss' ! i)" if "i < length ss" for i
  proof -
    have "sg_frame (ss' ! i) = sg_frame (ss ! i)"
      using assms(1) that len by (metis nth_map)
    then show ?thesis using assms(2) that by (auto simp: sg_frame_def sg_step_logs_def)
  qed
  then show ?thesis using len by (auto simp: in_set_conv_nth)
qed

lemma frame_log_ids:
  assumes "map sg_frame ss' = map sg_frame ss" and "k \<le> length ss"
  shows "map ss_step_id (filter sg_compensable (map ((!) ss') (rev [0..<k]))) =
    map ss_step_id (rev (filter sg_compensable (take k ss)))"
proof -
  have len: "length ss' = length ss" using map_eq_imp_length_eq [OF assms(1)] .
  have ids: "map ss_step_id (filter sg_compensable xs) =
      map fst (filter (\<lambda>x. snd x \<noteq> None) (map sg_frame xs))" for xs :: "('w, 'r) sg_step list"
    by (induction xs) (auto simp: sg_compensable_def sg_frame_def)
  have take: "map ((!) zs) (rev [0..<k]) = rev (take k zs)"
    if "k \<le> length zs" for zs :: "('w, 'r) sg_step list"
    using that by (simp add: rev_map [symmetric] map_nth_take)
  have "map sg_frame (take k ss') = map sg_frame (take k ss)"
    using assms(1) by (metis take_map)
  then have "map sg_frame (rev (take k ss')) = map sg_frame (rev (take k ss))"
    by (simp add: rev_map [symmetric])
  moreover have "map ((!) ss') (rev [0..<k]) = rev (take k ss')"
    using take [of ss'] assms(2) len by simp
  ultimately show ?thesis by (simp only: rev_filter ids)
qed

text \<open>
  C6. A saga ends well or is undone: a sequential saga with the default compensation strategy,
  run to its end, either completes every step and calls no compensation, or stops at its first
  failing step \<open>k\<close>, leaves the later steps untouched, and calls the compensations of the steps
  before \<open>k\<close> that have one, each exactly once, in the reverse order. Either way it leaves the
  active sagas for the completed ones with the status that says which.
\<close>

theorem sg_completes_or_compensates:
  assumes "dget (sg_active_sagas m) sid = Some s"
    and "\<not> sg_parallel_execution s" and "sg_compensation_strategy s = ''reverse_order''"
    and "\<forall>p \<in> set (sg_steps s). ss_status p = StepPending \<and> sg_step_inert obs p \<and> sg_step_logs obs p"
    and "sg_execute_saga par sid None t (m, w) = (r, t', (m', w'))"
  shows "\<exists>s'. dget (sg_completed_sagas m') sid = Some s' \<and> dget (sg_active_sagas m') sid = None \<and>
    (r = Ok True \<and> sg_status s' = SagaCompleted \<and> obs w' = obs w \<and>
       (\<forall>p \<in> set (sg_steps s'). ss_status p = StepCompleted) \<or>
     r = Ok False \<and> sg_status s' = SagaCompensated \<and>
       (\<exists>k < length (sg_steps s).
          obs w' = obs w @ map ss_step_id (rev (filter sg_compensable (take k (sg_steps s)))) \<and>
          ss_status (sg_steps s' ! k) = StepFailed \<and>
          (\<forall>i. k < i \<and> i < length (sg_steps s) \<longrightarrow> sg_steps s' ! i = sg_steps s ! i)))"
proof -
  let ?ss = "sg_steps s"
  obtain q t1 ss1 w1 where seq: "sg_execute_sequential None t (?ss, w) = (q, t1, (ss1, w1))"
    by (rule prod_cases4)
  have inert: "\<forall>p \<in> set ?ss. sg_step_inert obs p" and logs: "\<forall>p \<in> set ?ss. sg_step_logs obs p"
    and pending: "\<forall>p \<in> set ?ss. ss_status p = StepPending" using assms(4) by auto
  have spec: "obs w1 = obs w" "map sg_frame ss1 = map sg_frame ?ss"
    "q = Ok True \<and> (\<forall>s \<in> set ss1. ss_status s = StepCompleted) \<or>
     q = Ok False \<and> (\<exists>k. sg_stopped_at k ?ss ss1)"
    using sg_sequential_spec [OF inert seq] by auto
  from spec(3) show ?thesis
  proof (elim disjE conjE exE)
    assume "q = Ok True" "\<forall>s \<in> set ss1. ss_status s = StepCompleted"
    then show ?thesis
      using assms(1,2,5) seq spec(1)
      by (auto simp: sg_execute_saga_def sg_retire_def Let_def dget_dset dget_ddel)
  next
    fix k
    assume q: "q = Ok False" and k: "sg_stopped_at k ?ss ss1"
    have len: "length ss1 = length ?ss" using map_eq_imp_length_eq [OF spec(2)] .
    have ind: "sg_completed_indices ss1 = [0..<k]" by (rule completed_indices_stopped [OF k len pending])
    have kl: "k < length ?ss" using k by (simp add: sg_stopped_at_def)
    obtain c t2 ss2 w2 where comp: "sg_compensate_steps (rev [0..<k]) None t1 (ss1, w1) = (c, t2, (ss2, w2))"
      by (rule prod_cases4)
    have cs: "c = Ok ()" "obs w2 = obs w1 @ map ss_step_id (filter sg_compensable (map ((!) ss1) (rev [0..<k])))"
      "\<forall>j < length ss1. ss2 ! j = ss1 ! j \<or> j \<in> set (rev [0..<k]) \<and> ss2 ! j = (ss1 ! j)\<lparr>ss_status := StepCompensated\<rparr>"
      using sg_compensate_spec [OF frame_logs [OF spec(2) logs] _ comp] kl len by auto
    have "ss2 ! j = ss1 ! j" if "k \<le> j" "j < length ?ss" for j using cs(3) that len by auto
    moreover have "ss1 ! j = ?ss ! j" if "k < j" "j < length ?ss" for j
    proof -
      have "drop (Suc k) ss1 ! (j - Suc k) = drop (Suc k) ?ss ! (j - Suc k)"
        using k by (simp add: sg_stopped_at_def)
      then show ?thesis using that len by simp
    qed
    moreover have "ss_status (ss1 ! k) = StepFailed" using k by (simp add: sg_stopped_at_def)
    moreover have "obs w2 = obs w @ map ss_step_id (rev (filter sg_compensable (take k ?ss)))"
      using cs(2) spec(1) frame_log_ids [OF spec(2)] kl by simp
    ultimately show ?thesis
      using assms(1,2,3,5) seq q ind comp cs(1) kl
      by (auto simp: sg_execute_saga_def sg_execute_compensation_def sg_retire_def Let_def
          dget_dset dget_ddel intro!: exI [of _ k])
  qed
qed

definition sg_balanced :: "('w, 'r) sg_manager \<Rightarrow> bool" where
  "sg_balanced m \<longleftrightarrow> (let x = sg_metrics m in
     sgm_total x = sgm_completed x + sgm_compensated x + sgm_failed x + sgm_active x)"

lemma sg_balanced_init: "sg_balanced sg_manager_init"
  by (simp add: sg_balanced_def sg_manager_init_def)

lemma sg_balanced_create: "sg_balanced m \<Longrightarrow> sg_balanced (snd (sg_create_saga now sid nm m))"
  by (simp add: sg_balanced_def sg_create_saga_def Let_def)

lemma sg_balanced_retire:
  assumes "sg_balanced m"
  shows "sg_balanced (sg_retire (\<lambda>x. x\<lparr>sgm_completed := sgm_completed x + 1\<rparr>) sid s m)"
    and "sg_balanced (sg_retire (\<lambda>x. x\<lparr>sgm_compensated := sgm_compensated x + 1\<rparr>) sid s m)"
    and "sg_balanced (sg_retire (\<lambda>x. x\<lparr>sgm_failed := sgm_failed x + 1\<rparr>) sid s m)"
    and "sg_balanced (sg_store sid s m)"
  using assms by (simp_all add: sg_balanced_def sg_retire_def sg_store_def Let_def)

text \<open>
  The metrics always balance: every saga counted in \<open>total_sagas\<close> is counted as exactly one
  of completed, compensated, failed or active, whatever sagas are created and executed,
  in either mode and under any deadline.
\<close>

theorem sg_metrics_balance:
  assumes "sg_balanced m" and "sg_execute_saga par sid dl t (m, w) = (r, t', (m', w'))"
  shows "sg_balanced m' \<and> sg_balanced (snd (sg_create_saga t' new_id nm m'))"
proof -
  have "sg_balanced m'"
    using assms(2) sg_balanced_retire [OF assms(1)] assms(1)
    by (auto simp: sg_execute_saga_def Let_def split: option.splits prod.splits outcome.splits if_splits)
  then show ?thesis using sg_balanced_create by blast
qed

definition sg_demo :: "bool \<Rightarrow> (string list, unit) sg_manager" where
  "sg_demo ok =
     (let step = (\<lambda>n b. sg_add_step n n (\<lambda>dl t w. if b then (Ok (), t, w) else (Raise timeout_error, t, w))
                 (Some (\<lambda>dl t w. (Ok (), t, w @ [n]))) 30 0);
          s = step ''c'' ok (step ''b'' True (step ''a'' True (sg_new 0 ''s1'' ''demo'')))
      in snd (sg_create_saga 0 ''s1'' ''demo'' sg_manager_init)\<lparr>sg_active_sagas := [(''s1'', s)]\<rparr>)"

lemma timely_instantly [coro_intros]:
  "timely (\<lambda>dl t w. (Ok x, t, g w))" "timely (\<lambda>dl t w. (Raise e, t, g w))"
  by (auto intro!: timelyI)

theorem sg_metrics_balance_witness:
  "case sg_execute_saga (\<lambda>_ _ w. ([], w)) ''s1'' None 5 (sg_demo False, []) of
     (r, t', (m', w')) \<Rightarrow> sgm_compensated (sg_metrics m') = 1 \<and> sg_balanced m'"
proof -
  let ?call = "sg_execute_saga (\<lambda>_ _ w. ([], w)) ''s1'' None 5 (sg_demo False, [])"
  obtain r t' m' w' where c: "?call = (r, t', (m', w'))" by (rule prod_cases4)
  have "sg_balanced (sg_demo False)"
    by (simp add: sg_demo_def sg_balanced_def sg_create_saga_def sg_manager_init_def Let_def)
  from sg_metrics_balance [OF this c] have "sg_balanced m'" by simp
  moreover have "sgm_compensated (sg_metrics (fst (snd (snd ?call)))) = 1"
    by (simp add: sg_demo_def sg_execute_saga_def sg_add_step_def sg_new_def sg_create_saga_def
        sg_manager_init_def sg_execute_step_with_retry_def wait_for_def own_deadline_def Let_def
        sg_execute_compensation_def sg_completed_indices_def sg_retire_def)
  ultimately show ?thesis using c by simp
qed

theorem sg_completes_or_compensates_witness:
  "\<exists>t' m'. sg_execute_saga (\<lambda>_ _ w. ([], w)) ''s1'' None 5 (sg_demo False, [])
     = (Ok False, t', (m', [''b'', ''a'']))"
proof -
  let ?par = "\<lambda>_ _ w. ([], w)"
  obtain r t' m' w' where c: "sg_execute_saga ?par ''s1'' None 5 (sg_demo False, []) = (r, t', (m', w'))"
    by (rule prod_cases4)
  obtain s where s: "dget (sg_active_sagas (sg_demo False)) ''s1'' = Some s"
    and len: "length (sg_steps s) = 3"
    and take: "map ss_step_id (sg_steps s) = [''a'', ''b'', ''c'']" "list_all sg_compensable (sg_steps s)"
    and mode: "\<not> sg_parallel_execution s" "sg_compensation_strategy s = ''reverse_order''"
    and steps: "\<forall>p \<in> set (sg_steps s). ss_status p = StepPending \<and> sg_step_inert (\<lambda>w. w) p \<and>
      sg_step_logs (\<lambda>w. w) p"
    by (auto simp: sg_demo_def Let_def sg_add_step_def sg_new_def sg_compensable_def sg_step_inert_def
        sg_step_logs_def timely_instantly)
  have "r = Ok False \<and> w' = [''b'', ''a'']"
    using sg_completes_or_compensates [OF s mode steps c] c
    by (simp add: sg_demo_def sg_execute_saga_def sg_add_step_def sg_new_def sg_create_saga_def
        sg_manager_init_def sg_execute_step_with_retry_def wait_for_def own_deadline_def Let_def
        sg_execute_compensation_def sg_completed_indices_def sg_retire_def)
  then show ?thesis using c by blast
qed

end
