(* ===== verification/ResilientAdapter.thy ===== *)
theory ResilientAdapter
  imports Interfaces
begin

text \<open>
  \<^verbatim>\<open>libs/adapters/resilient_adapter.py\<close>: \<open>ResilientAdapter\<close>, which puts a circuit breaker, a
  bulkhead, retries and a timeout around one function. Its method \<open>execute\<close> has the atomic
  segments \<open>rsa_arrive\<close> (count and breaker check), \<open>rsa_take\<close> (the semaphore is acquired),
  \<open>rsa_give_up\<close> (the wait for it timed out) and \<open>rsa_finish\<close> (record and release); the retry
  loop in between updates the statistics of the same object. The dict
  \<open>resilient_adapter_manager\<close> of the module is never used.
\<close>

section \<open>State\<close>

datatype rsa_state = RsaClosed | RsaOpen | RsaHalfOpen

fun rsa_state_value :: "rsa_state \<Rightarrow> string" where
  "rsa_state_value RsaClosed = ''closed''"
| "rsa_state_value RsaOpen = ''open''"
| "rsa_state_value RsaHalfOpen = ''half_open''"

record rsa_stats =
  rst_total_requests :: int
  rst_successful_requests :: int
  rst_failed_requests :: int
  rst_timeout_requests :: int
  rst_circuit_breaker_open :: int
  rst_retry_attempts :: int
  rst_bulkhead_rejections :: int

definition rsa_zero_stats :: rsa_stats where
  "rsa_zero_stats =
     \<lparr>rst_total_requests = 0, rst_successful_requests = 0, rst_failed_requests = 0,
      rst_timeout_requests = 0, rst_circuit_breaker_open = 0, rst_retry_attempts = 0,
      rst_bulkhead_rejections = 0\<rparr>"

record rsa =
  rsa_name :: string
  rsa_timeout :: rat
  rsa_max_retries :: int
  rsa_base_delay :: rat
  rsa_max_delay :: rat
  rsa_bulkhead_size :: int
  rsa_failure_threshold :: rat
  rsa_recovery_timeout :: rat
  rsa_circuit_state :: rsa_state
  rsa_failure_count :: int
  rsa_last_failure_time :: rat
  rsa_next_attempt_time :: rat
  rsa_semaphore :: int
  rsa_stats :: rsa_stats

text \<open>
  The breaker configuration is a dict: an absent or empty one means the default, a missing
  key is a \<open>KeyError\<close>. A negative semaphore value is a \<open>ValueError\<close>.
\<close>

definition key_error :: "string \<Rightarrow> exn" where
  "key_error k = Exn [''KeyError'', ''LookupError'', ''Exception''] (CHR 0x27 # k @ [CHR 0x27])"

definition rsa_init ::
  "string \<Rightarrow> rat \<Rightarrow> int \<Rightarrow> rat \<Rightarrow> rat \<Rightarrow> (string, rat) dict option \<Rightarrow> int \<Rightarrow> exn + rsa" where
  "rsa_init name timeout max_retries base_delay max_delay circuit_breaker_config bulkhead_size =
     (let c = (case circuit_breaker_config of
                 Some (x # xs) \<Rightarrow> x # xs
               | _ \<Rightarrow> [(''failure_threshold'', 5), (''recovery_timeout'', 60)])
      in case dget c ''failure_threshold'' of
           None \<Rightarrow> Inl (key_error ''failure_threshold'')
         | Some threshold \<Rightarrow>
             (case dget c ''recovery_timeout'' of
                None \<Rightarrow> Inl (key_error ''recovery_timeout'')
              | Some recovery \<Rightarrow>
                  if bulkhead_size < 0
                  then Inl (value_error ''Semaphore initial value must be >= 0'')
                  else Inr \<lparr>rsa_name = name, rsa_timeout = timeout, rsa_max_retries = max_retries,
                    rsa_base_delay = base_delay, rsa_max_delay = max_delay,
                    rsa_bulkhead_size = bulkhead_size, rsa_failure_threshold = threshold,
                    rsa_recovery_timeout = recovery, rsa_circuit_state = RsaClosed,
                    rsa_failure_count = 0, rsa_last_failure_time = 0, rsa_next_attempt_time = 0,
                    rsa_semaphore = bulkhead_size, rsa_stats = rsa_zero_stats\<rparr>))"

definition rsa_breaker_open_error :: "string \<Rightarrow> exn" where
  "rsa_breaker_open_error name =
     Exn [''CircuitBreakerOpenError'', ''Exception''] (''Circuit breaker is open for '' @ name)"

definition rsa_bulkhead_reject_error :: "string \<Rightarrow> exn" where
  "rsa_bulkhead_reject_error name =
     Exn [''BulkheadRejectError'', ''Exception''] (''Bulkhead is full for '' @ name)"

section \<open>The breaker\<close>

definition rsa_is_circuit_breaker_closed :: "rat \<Rightarrow> rsa \<Rightarrow> bool \<times> rsa" where
  "rsa_is_circuit_breaker_closed now a =
     (case rsa_circuit_state a of
        RsaClosed \<Rightarrow> (True, a)
      | RsaOpen \<Rightarrow>
          (if rsa_next_attempt_time a \<le> now then (True, a\<lparr>rsa_circuit_state := RsaHalfOpen\<rparr>)
           else (False, a))
      | RsaHalfOpen \<Rightarrow> (True, a))"

definition rsa_record_success :: "rsa \<Rightarrow> rsa" where
  "rsa_record_success a =
     (case rsa_circuit_state a of
        RsaHalfOpen \<Rightarrow> a\<lparr>rsa_circuit_state := RsaClosed, rsa_failure_count := 0\<rparr>
      | RsaClosed \<Rightarrow> a\<lparr>rsa_failure_count := max 0 (rsa_failure_count a - 1)\<rparr>
      | RsaOpen \<Rightarrow> a)"

definition rsa_record_failure :: "rat \<Rightarrow> rsa \<Rightarrow> rsa" where
  "rsa_record_failure now a =
     (let a1 = a\<lparr>rsa_failure_count := rsa_failure_count a + 1, rsa_last_failure_time := now\<rparr>
      in case rsa_circuit_state a1 of
           RsaClosed \<Rightarrow>
             (if rsa_failure_threshold a1 \<le> of_int (rsa_failure_count a1)
              then a1\<lparr>rsa_circuit_state := RsaOpen,
                      rsa_next_attempt_time := now + rsa_recovery_timeout a1\<rparr>
              else a1)
         | RsaHalfOpen \<Rightarrow>
             a1\<lparr>rsa_circuit_state := RsaOpen,
                rsa_next_attempt_time := now + rsa_recovery_timeout a1\<rparr>
         | RsaOpen \<Rightarrow> a1)"

section \<open>Retries\<close>

definition rsa_delay :: "rsa \<Rightarrow> int \<Rightarrow> rat" where
  "rsa_delay a attempt = min (rsa_base_delay a * 2 ^ nat attempt) (rsa_max_delay a)"

definition rsa_count_timeout :: "exn \<Rightarrow> rsa \<Rightarrow> rsa" where
  "rsa_count_timeout e a =
     (if is_timeout e
      then a\<lparr>rsa_stats := (rsa_stats a)\<lparr>rst_timeout_requests := rst_timeout_requests (rsa_stats a) + 1\<rparr>\<rparr>
      else a)"

definition rsa_count_retry :: "rsa \<Rightarrow> rsa" where
  "rsa_count_retry a =
     a\<lparr>rsa_stats := (rsa_stats a)\<lparr>rst_retry_attempts := rst_retry_attempts (rsa_stats a) + 1\<rparr>\<rparr>"

text \<open>
  The loop state is \<open>last_exception\<close> and the adapter; the function is one attempt under its
  timeout. The two \<open>except\<close> clauses differ in the timeout counter and in the log calls.
\<close>

fun rsa_attempts :: "int list \<Rightarrow> ('w, 'a) coro \<Rightarrow> ((exn option \<times> rsa) \<times> 'w, 'a) coro" where
  "rsa_attempts [] f dl t ((last_exception, a), w) =
     (Raise (case last_exception of
               Some e \<Rightarrow> e
             | None \<Rightarrow> Exn [''TypeError'', ''Exception'']
                        ''exceptions must derive from BaseException''),
      t, ((last_exception, a), w))"
| "rsa_attempts (attempt # rest) f dl t ((last_exception, a), w) =
     (case f dl t w of
        (Ok x, t1, w1) \<Rightarrow> (Ok x, t1, ((last_exception, a), w1))
      | (Cancelled, t1, w1) \<Rightarrow> (Cancelled, t1, ((last_exception, a), w1))
      | (Raise e, t1, w1) \<Rightarrow>
          (let a1 = rsa_count_timeout e a
           in if attempt < rsa_max_retries a1 then
                (let a2 = rsa_count_retry a1
                 in case sleep (rsa_delay a2 attempt) dl t1 w1 of
                      (Ok _, t2, w2) \<Rightarrow> rsa_attempts rest f dl t2 ((Some e, a2), w2)
                    | (Raise e', t2, w2) \<Rightarrow> (Raise e', t2, ((Some e, a2), w2))
                    | (Cancelled, t2, w2) \<Rightarrow> (Cancelled, t2, ((Some e, a2), w2)))
              else rsa_attempts rest f dl t1 ((Some e, a1), w1)))"

definition rsa_execute_with_retry :: "('w, 'a) coro \<Rightarrow> (rsa \<times> 'w, 'a) coro" where
  "rsa_execute_with_retry f dl t = (\<lambda>(a, w).
     (case rsa_attempts [0..rsa_max_retries a] (wait_for (rsa_timeout a) f) dl t ((None, a), w) of
        (r, t', ((_, a'), w')) \<Rightarrow> (r, t', (a', w'))))"

section \<open>Calls\<close>

definition rsa_arrive :: "rat \<Rightarrow> rsa \<Rightarrow> exn option \<times> rsa" where
  "rsa_arrive now a =
     (let a1 = a\<lparr>rsa_stats := (rsa_stats a)\<lparr>rst_total_requests := rst_total_requests (rsa_stats a) + 1\<rparr>\<rparr>
      in case rsa_is_circuit_breaker_closed now a1 of
           (True, a2) \<Rightarrow> (None, a2)
         | (False, a2) \<Rightarrow>
             (Some (rsa_breaker_open_error (rsa_name a2)),
              a2\<lparr>rsa_stats := (rsa_stats a2)\<lparr>rst_circuit_breaker_open :=
                   rst_circuit_breaker_open (rsa_stats a2) + 1\<rparr>\<rparr>))"

definition rsa_take :: "rsa \<Rightarrow> rsa" where
  "rsa_take a = a\<lparr>rsa_semaphore := rsa_semaphore a - 1\<rparr>"

definition rsa_give_up :: "rsa \<Rightarrow> rsa" where
  "rsa_give_up a =
     a\<lparr>rsa_stats := (rsa_stats a)\<lparr>rst_bulkhead_rejections := rst_bulkhead_rejections (rsa_stats a) + 1\<rparr>\<rparr>"

definition rsa_finish :: "rat \<Rightarrow> 'a outcome \<Rightarrow> rsa \<Rightarrow> rsa" where
  "rsa_finish now r a =
     (let a1 = (case r of
                  Ok _ \<Rightarrow>
                    (let b = rsa_record_success a
                     in b\<lparr>rsa_stats := (rsa_stats b)\<lparr>rst_successful_requests :=
                            rst_successful_requests (rsa_stats b) + 1\<rparr>\<rparr>)
                | Raise _ \<Rightarrow>
                    (let b = rsa_record_failure now a
                     in b\<lparr>rsa_stats := (rsa_stats b)\<lparr>rst_failed_requests :=
                            rst_failed_requests (rsa_stats b) + 1\<rparr>\<rparr>)
                | Cancelled \<Rightarrow> a)
      in a1\<lparr>rsa_semaphore := rsa_semaphore a1 + 1\<rparr>)"

definition rsa_execute :: "('w, 'a) coro \<Rightarrow> (rsa \<times> 'w, 'a) coro" where
  "rsa_execute f dl t = (\<lambda>(a, w).
     (case rsa_arrive t a of
        (Some e, a1) \<Rightarrow> (Raise e, t, (a1, w))
      | (None, a1) \<Rightarrow>
          (case acquire_within (\<lambda>a. 0 < rsa_semaphore a) rsa_take 1 dl t a1 of
             (Raise _, t2, a2) \<Rightarrow>
               (let a3 = rsa_give_up a2
                in (Raise (rsa_bulkhead_reject_error (rsa_name a3)), t2, (a3, w)))
           | (Cancelled, t2, a2) \<Rightarrow> (Cancelled, t2, (a2, w))
           | (Ok _, t2, a2) \<Rightarrow>
               (case rsa_execute_with_retry f dl t2 (a2, w) of
                  (r, t3, (a3, w3)) \<Rightarrow> (r, t3, (rsa_finish t3 r a3, w3))))))"

record rsa_report =
  rsr_stats :: rsa_stats
  rsr_circuit_breaker_state :: string
  rsr_failure_count :: int
  rsr_bulkhead_available :: int
  rsr_bulkhead_capacity :: int

definition rsa_get_stats :: "rsa \<Rightarrow> rsa_report" where
  "rsa_get_stats a =
     \<lparr>rsr_stats = rsa_stats a, rsr_circuit_breaker_state = rsa_state_value (rsa_circuit_state a),
      rsr_failure_count = rsa_failure_count a, rsr_bulkhead_available = rsa_semaphore a,
      rsr_bulkhead_capacity = rsa_bulkhead_size a\<rparr>"

definition rsa_reset_stats :: "rsa \<Rightarrow> rsa" where
  "rsa_reset_stats a =
     a\<lparr>rsa_stats := rsa_zero_stats, rsa_failure_count := 0, rsa_circuit_state := RsaClosed\<rparr>"

text \<open>
  The decorator makes one adapter and sends every call through it; the factories fix the
  parameters.
\<close>

definition resilient ::
  "string \<Rightarrow> rat \<Rightarrow> int \<Rightarrow> rat \<Rightarrow> rat \<Rightarrow> (string, rat) dict option \<Rightarrow> int \<Rightarrow> ('w, 'a) coro \<Rightarrow>
   exn + (rsa \<times> (rsa \<times> 'w, 'a) coro)" where
  "resilient name timeout max_retries base_delay max_delay config bulkhead_size f =
     (case rsa_init name timeout max_retries base_delay max_delay config bulkhead_size of
        Inl e \<Rightarrow> Inl e
      | Inr a \<Rightarrow> Inr (a, rsa_execute f))"

definition create_database_adapter :: "string \<Rightarrow> exn + rsa" where
  "create_database_adapter name =
     rsa_init name 30 3 1 10 (Some [(''failure_threshold'', 5), (''recovery_timeout'', 60)]) 20"

definition create_api_adapter :: "string \<Rightarrow> exn + rsa" where
  "create_api_adapter name =
     rsa_init name 45 3 2 30 (Some [(''failure_threshold'', 3), (''recovery_timeout'', 120)]) 10"

definition create_llm_adapter :: "string \<Rightarrow> exn + rsa" where
  "create_llm_adapter name =
     rsa_init name 120 2 5 60 (Some [(''failure_threshold'', 3), (''recovery_timeout'', 300)]) 5"

lemmas rsa_seg_defs [seg_defs] = rsa_arrive_def rsa_take_def rsa_give_up_def rsa_finish_def
  rsa_is_circuit_breaker_closed_def rsa_record_success_def rsa_record_failure_def
  rsa_count_timeout_def rsa_count_retry_def

section \<open>The adapter meets its contracts\<close>

text \<open>What a working call may do to the shared object: count a timeout, count a retry.\<close>

definition rsa_work :: "rsa \<Rightarrow> rsa \<Rightarrow> bool" where
  "rsa_work a b \<longleftrightarrow> (\<exists>e. b = rsa_count_timeout e a) \<or> b = rsa_count_retry a"

definition rsa_total :: "rsa \<Rightarrow> int" where
  "rsa_total a = rst_total_requests (rsa_stats a)"

definition rsa_settled :: "rsa \<Rightarrow> int" where
  "rsa_settled a =
     (let x = rsa_stats a
      in rst_successful_requests x + rst_failed_requests x + rst_circuit_breaker_open x
         + rst_bulkhead_rejections x)"

definition rsa_busy :: "rsa \<Rightarrow> int" where
  "rsa_busy a = rsa_bulkhead_size a - rsa_semaphore a"

lemmas rsa_views = rsa_work_def rsa_total_def rsa_settled_def rsa_busy_def

interpretation rsap: counted_pool rsa_arrive rsa_take rsa_give_up rsa_work rsa_finish
  rsa_semaphore rsa_busy rsa_total rsa_settled
proof
qed (auto simp: rsa_seg_defs rsa_views Let_def
    split: if_splits outcome.splits rsa_state.splits prod.splits)

definition rsa_budget :: "rsa \<Rightarrow> int" where
  "rsa_budget a = \<lceil>rsa_failure_threshold a\<rceil> - rsa_failure_count a"

definition rsa_tripped :: "rat \<Rightarrow> rsa \<Rightarrow> bool" where
  "rsa_tripped t a \<longleftrightarrow> rsa_circuit_state a = RsaOpen \<and> t < rsa_next_attempt_time a"

interpretation rsab: breaker rsa_arrive rsa_finish "\<lambda>a. rsa_circuit_state a = RsaClosed"
  rsa_budget rsa_tripped rsa_recovery_timeout
proof (unfold_locales, goal_cases)
  case (4 a t e)
  then have "rsa_failure_count a + 1 < \<lceil>rsa_failure_threshold a\<rceil>" by (simp add: rsa_budget_def)
  then have "of_int (rsa_failure_count a + 1) < rsa_failure_threshold a"
    by (simp only: less_ceiling_iff)
  with 4 show ?case by (auto simp: rsa_finish_def rsa_record_failure_def rsa_budget_def Let_def)
next
  case (5 a u t e)
  then have "\<lceil>rsa_failure_threshold a\<rceil> \<le> rsa_failure_count a + 1" by (simp add: rsa_budget_def)
  then have "rsa_failure_threshold a \<le> of_int (rsa_failure_count a + 1)"
    by (simp only: ceiling_le_iff)
  with 5 show ?case
    by (auto simp: rsa_finish_def rsa_record_failure_def rsa_tripped_def Let_def)
qed (auto simp: rsa_arrive_def rsa_is_circuit_breaker_closed_def rsa_tripped_def Let_def
    split: if_splits rsa_state.splits prod.splits)

interpretation rsal: retry_loop
  "rsa_attempts :: int list \<Rightarrow> ('w, 'a) coro \<Rightarrow> ((exn option \<times> rsa) \<times> 'w, 'a) coro" snd
proof (unfold_locales, goal_cases)
  case (1 f dl t v r t' v')
  obtain l a w where v: "v = ((l, a), w)" by (metis surj_pair)
  with 1 show ?case by auto
next
  case (2 n ns f dl t v r t' v' r1 t1 w1)
  obtain l a w where v: "v = ((l, a), w)" by (metis surj_pair)
  from 2 have run: "rsa_attempts (n # ns) f dl t ((l, a), w) = (r, t', v')"
    and f: "f dl t w = (r1, t1, w1)" by (simp_all add: v)
  show ?case
  proof (cases r1)
    case (Raise e)
    let ?a1 = "rsa_count_timeout e a"
    show ?thesis
    proof (cases "n < rsa_max_retries ?a1")
      case True
      let ?a2 = "rsa_count_retry ?a1"
      show ?thesis
      proof (cases rule: sleep_cases [of "rsa_delay ?a2 n" dl t1 w1])
        case (slept t2)
        with run f Raise True show ?thesis
          by (intro disjI2 exI [of _ "((Some e, ?a2), w1)"] exI [of _ t2]) (auto simp: Let_def)
      qed (use run f Raise True in \<open>auto simp: Let_def\<close>)
    next
      case False
      with run f Raise show ?thesis
        by (intro disjI2 exI [of _ "((Some e, ?a1), w1)"] exI [of _ t1]) (auto simp: Let_def)
    qed
  qed (use run f in auto)
qed

section \<open>Properties\<close>

lemma rsa_init_Inr:
  assumes "rsa_init name tmo mr bd md cfg sz = Inr a"
  shows "rsa_busy a = 0" "0 \<le> rsa_semaphore a" "rsa_semaphore a = sz" "rsa_bulkhead_size a = sz"
    "rsa_total a = 0" "rsa_settled a = 0" "rsa_circuit_state a = RsaClosed" "rsa_failure_count a = 0"
    "rsa_timeout a = tmo" "rsa_max_retries a = mr" "rsa_max_delay a = md"
  using assms by (auto simp: rsa_init_def rsa_views rsa_zero_stats_def Let_def
      split: option.splits if_splits)

text \<open>
  C24. Under every interleaving of requests the bulkhead isolates and the statistics account:
  at most \<open>bulkhead_size\<close> requests hold a permit, the semaphore has the rest, and every
  request is counted as exactly one of successful, failed, refused by the breaker, refused
  by the bulkhead, waiting, running or cancelled.
\<close>

theorem rsa_isolates_and_accounts:
  assumes "rsa_init name tmo mr bd md cfg sz = Inr a0"
    and "pool_run rsa_arrive rsa_take rsa_give_up rsa_work rsa_finish rsa_semaphore a0 (a, p, k, c)"
  shows "int k \<le> sz \<and> rsa_semaphore a = sz - int k \<and>
    rsa_total a = rsa_settled a + int p + int k + int c"
  using rsap.permits_balance [OF assms(2)] rsap.every_request_accounted [OF assms(2)]
    rsa_init_Inr [OF assms(1)] by simp

text \<open>
  A breaker that sees \<open>failure_threshold\<close> consecutive failures refuses every request from
  then on until \<open>recovery_timeout\<close> after the last of them, however many are made.
\<close>

theorem rsa_trips_and_shields:
  assumes "rsa_init name tmo mr bd md cfg sz = Inr a0" and "xs \<noteq> []"
    and "int (length xs) = max 1 \<lceil>rsa_failure_threshold a0\<rceil>"
    and "\<And>t. t \<in> set ts \<Longrightarrow> t \<le> T" and "T < fst (last xs) + rsa_recovery_timeout a0"
  shows "None \<notin> set (fst (attempts rsa_arrive ts (fail_all rsa_finish xs a0)))"
  using assms rsab.failures_shield [of a0 xs ts T] rsa_init_Inr [OF assms(1)]
  by (simp add: rsa_budget_def)

lemma rsa_count_params [simp]:
  "rsa_max_retries (rsa_count_timeout e a) = rsa_max_retries a"
  "rsa_max_delay (rsa_count_timeout e a) = rsa_max_delay a"
  "rsa_max_retries (rsa_count_retry a) = rsa_max_retries a"
  "rsa_max_delay (rsa_count_retry a) = rsa_max_delay a"
  by (auto simp: rsa_count_timeout_def rsa_count_retry_def)

lemma rsa_attempts_time:
  assumes f: "\<And>t w r t' w'. f None t w = (r, t', w') \<Longrightarrow> t' \<le> t + T"
    and "0 \<le> rsa_max_delay a" and "0 \<le> T"
    and "rsa_attempts ns f None t ((l, a), w) = (r, t', v')"
  shows "t' \<le> t + of_nat (length ns) * (T + rsa_max_delay a)"
  using assms(2,4)
proof (induction ns arbitrary: t l a w)
  case Nil
  then show ?case by simp
next
  case (Cons n ns)
  obtain r1 t1 w1 where f1: "f None t w = (r1, t1, w1)" by (rule prod_cases3)
  have t1: "t1 \<le> t + T" by (rule f [OF f1])
  let ?D = "rsa_max_delay a"
  have grow: "0 \<le> of_nat (length ns) * (T + ?D)" using Cons.prems(1) assms(3) by simp
  have step: "t' \<le> t + T + ?D + of_nat (length ns) * (T + ?D)"
  proof (cases r1)
    case (Raise e)
    let ?a1 = "rsa_count_timeout e a"
    let ?a2 = "rsa_count_retry ?a1"
    show ?thesis
    proof (cases "n < rsa_max_retries a")
      case True
      let ?t2 = "t1 + max 0 (rsa_delay ?a2 n)"
      have "rsa_attempts ns f None ?t2 ((Some e, ?a2), w1) = (r, t', v')"
        using Cons.prems(2) f1 Raise True by (simp add: Let_def sleep_def)
      from Cons.IH [OF _ this] Cons.prems(1)
      have "t' \<le> ?t2 + of_nat (length ns) * (T + ?D)" by simp
      moreover have "rsa_delay ?a2 n \<le> ?D" by (simp add: rsa_delay_def)
      then have "?t2 \<le> t1 + ?D" using Cons.prems(1) by simp
      ultimately show ?thesis using t1 by linarith
    next
      case False
      have "rsa_attempts ns f None t1 ((Some e, ?a1), w1) = (r, t', v')"
        using Cons.prems(2) f1 Raise False by (simp add: Let_def)
      from Cons.IH [OF _ this] Cons.prems(1)
      have "t' \<le> t1 + of_nat (length ns) * (T + ?D)" by simp
      then show ?thesis using t1 Cons.prems(1) by linarith
    qed
  qed (use Cons.prems f1 t1 grow in auto)
  then show ?case by (simp add: algebra_simps)
qed

text \<open>
  A request is time-boxed: it ends within the second it may wait for the bulkhead plus
  \<open>timeout + max_delay\<close> for each of its \<open>max_retries + 1\<close> attempts, and is not cancelled unless
  the caller is.
\<close>

theorem rsa_execute_time_boxed:
  assumes "timely f" and "0 \<le> rsa_timeout a" and "0 \<le> rsa_max_delay a" and "0 \<le> rsa_max_retries a"
    and "rsa_execute f None t (a, w) = (r, t', (a', w'))"
  shows "r \<noteq> Cancelled \<and>
    t' \<le> t + 1 + of_int (rsa_max_retries a + 1) * (rsa_timeout a + rsa_max_delay a)"
proof -
  let ?B = "of_int (rsa_max_retries a + 1) * (rsa_timeout a + rsa_max_delay a)"
  have B: "0 \<le> ?B" using assms by simp
  obtain e a1 where arr: "rsa_arrive t a = (e, a1)" by (cases "rsa_arrive t a")
  have a1: "rsa_timeout a1 = rsa_timeout a" "rsa_max_delay a1 = rsa_max_delay a"
    "rsa_max_retries a1 = rsa_max_retries a"
    using arr by (auto simp: rsa_arrive_def rsa_is_circuit_breaker_closed_def Let_def
        split: rsa_state.splits if_splits prod.splits)
  show ?thesis
  proof (cases "e = None \<and> 0 < rsa_semaphore a1")
    case True
    let ?g = "wait_for (rsa_timeout a) f"
    let ?a2 = "rsa_take a1"
    obtain q t3 v3 where loop:
      "rsa_attempts [0..rsa_max_retries a] ?g None t ((None, ?a2), w) = (q, t3, v3)"
      by (rule prod_cases3)
    have eq: "r = q" "t' = t3"
      using assms(5) True arr loop a1
      by (auto simp: rsa_execute_def acquire_within_def rsa_execute_with_retry_def rsa_take_def
          split: prod.splits)
    have g: "\<And>t w r t' w'. ?g None t w = (r, t', w') \<Longrightarrow> t' \<le> t + rsa_timeout a"
      by (rule wait_for_bound [OF assms(1,2)])
    have D: "rsa_max_delay ?a2 = rsa_max_delay a" using a1 by (simp add: rsa_take_def)
    have len: "of_nat (length [0..rsa_max_retries a]) = (of_int (rsa_max_retries a + 1) :: rat)"
      using assms(4) by simp
    have "t3 \<le> t + ?B"
      using rsa_attempts_time [OF g _ assms(2) loop] assms(3) D by (simp only: len)
    moreover have "q \<noteq> Cancelled"
      using rsal.run_timing [OF timely_wait_for [OF assms(1)] loop] by simp
    ultimately show ?thesis using eq by simp
  next
    case False
    then show ?thesis
      using assms(5) arr B
      by (cases e) (auto simp: rsa_execute_def acquire_within_def own_deadline_def Let_def)
  qed
qed

section \<open>Witnesses\<close>

definition rsa_demo :: rsa where
  "rsa_demo = (case create_llm_adapter ''llm'' of Inr a \<Rightarrow> a | Inl _ \<Rightarrow> undefined)"

lemma rsa_demo: "rsa_init ''llm'' 120 2 5 60
    (Some [(''failure_threshold'', 3), (''recovery_timeout'', 300)]) 5 = Inr rsa_demo"
  by (simp add: rsa_demo_def create_llm_adapter_def rsa_init_def)

lemma rsa_demo_fields: "rsa_failure_threshold rsa_demo = 3" "rsa_recovery_timeout rsa_demo = 300"
  "rsa_timeout rsa_demo = 120" "rsa_max_delay rsa_demo = 60" "rsa_max_retries rsa_demo = 2"
  "rsa_circuit_state rsa_demo = RsaClosed" "rsa_semaphore rsa_demo = 5"
  by (simp_all add: rsa_demo_def create_llm_adapter_def rsa_init_def)

theorem rsa_isolates_and_accounts_witness:
  "rsa_semaphore (rsa_take (snd (rsa_arrive 7 rsa_demo))) = 4 \<and>
   rsa_total (rsa_take (snd (rsa_arrive 7 rsa_demo))) =
     rsa_settled (rsa_take (snd (rsa_arrive 7 rsa_demo))) + 1"
proof -
  have a: "rsa_arrive 7 rsa_demo = (None, snd (rsa_arrive 7 rsa_demo))"
    "rsa_semaphore (snd (rsa_arrive 7 rsa_demo)) = 5"
    by (simp_all add: rsa_arrive_def rsa_is_circuit_breaker_closed_def rsa_demo_fields)
  have "pool_run rsa_arrive rsa_take rsa_give_up rsa_work
      (rsa_finish :: rat \<Rightarrow> unit outcome \<Rightarrow> rsa \<Rightarrow> rsa) rsa_semaphore rsa_demo
      (snd (rsa_arrive 7 rsa_demo), Suc 0, 0, 0)"
    by (rule pool_run.queued, rule pool_run.start, rule a(1))
  then have "pool_run rsa_arrive rsa_take rsa_give_up rsa_work
      (rsa_finish :: rat \<Rightarrow> unit outcome \<Rightarrow> rsa \<Rightarrow> rsa) rsa_semaphore rsa_demo
      (rsa_take (snd (rsa_arrive 7 rsa_demo)), 0, Suc 0, 0)"
    by (rule pool_run.taken) (simp add: a(2))
  from rsa_isolates_and_accounts [OF rsa_demo this] show ?thesis by simp
qed

theorem rsa_trips_and_shields_witness:
  "None \<notin> set (fst (attempts rsa_arrive [5, 100, 300]
     (fail_all (rsa_finish :: rat \<Rightarrow> unit outcome \<Rightarrow> rsa \<Rightarrow> rsa)
        [(1, timeout_error), (2, timeout_error), (3, timeout_error)] rsa_demo)))"
  by (rule rsa_trips_and_shields [OF rsa_demo, where T = 300]) (auto simp: rsa_demo_fields)

theorem rsa_execute_time_boxed_witness:
  "case rsa_execute (sleep 1000) None 10 (rsa_demo, ()) of
     (r, t', _) \<Rightarrow> r \<noteq> Cancelled \<and> t' \<le> 10 + 1 + 3 * 180"
proof -
  obtain r t' a' w' where c: "rsa_execute (sleep 1000) None 10 (rsa_demo, ()) = (r, t', (a', w'))"
    by (rule prod_cases4)
  show ?thesis
    using rsa_execute_time_boxed [OF timely_sleep _ _ _ c] c by (simp add: rsa_demo_fields)
qed

end
