(* ===== verification/ToolPatterns.thy ===== *)
theory ToolPatterns
  imports Interfaces
begin

text \<open>
  \<^verbatim>\<open>libs/reliability/base_adapter.py\<close>, first half: the circuit breaker with its half-open
  quota (\<open>CircuitBreaker\<close>), the bulkhead (\<open>Bulkhead\<close>) and the retry manager (\<open>RetryManager\<close>)
  of the tool adapters. The adapter that stacks them is in \<open>ToolAdapter\<close>.
\<close>

section \<open>Configurations\<close>

datatype tool_retry_strategy = EXPONENTIAL_BACKOFF | LINEAR_BACKOFF | FIXED_DELAY

fun tool_retry_strategy_value :: "tool_retry_strategy \<Rightarrow> string" where
  "tool_retry_strategy_value EXPONENTIAL_BACKOFF = ''exponential_backoff''"
| "tool_retry_strategy_value LINEAR_BACKOFF = ''linear_backoff''"
| "tool_retry_strategy_value FIXED_DELAY = ''fixed_delay''"

record tm_config =
  tmc_max_attempts :: int
  tmc_base_delay_ms :: int
  tmc_max_delay_ms :: int
  tmc_strategy :: tool_retry_strategy
  tmc_jitter :: bool
  tmc_backoff_multiplier :: rat

definition tm_default_config :: tm_config where
  "tm_default_config =
     \<lparr>tmc_max_attempts = 3, tmc_base_delay_ms = 100, tmc_max_delay_ms = 5000,
      tmc_strategy = EXPONENTIAL_BACKOFF, tmc_jitter = True, tmc_backoff_multiplier = 2\<rparr>"

record tc_config =
  tcc_failure_threshold :: int
  tcc_success_threshold :: int
  tcc_timeout_ms :: int
  tcc_half_open_max_calls :: int

definition tc_default_config :: tc_config where
  "tc_default_config =
     \<lparr>tcc_failure_threshold = 5, tcc_success_threshold = 3, tcc_timeout_ms = 60000,
      tcc_half_open_max_calls = 3\<rparr>"

record tb_config =
  tbc_max_concurrent_calls :: int
  tbc_max_wait_time_ms :: int

definition tb_default_config :: tb_config where
  "tb_default_config = \<lparr>tbc_max_concurrent_calls = 10, tbc_max_wait_time_ms = 5000\<rparr>"

section \<open>Circuit breaker\<close>

datatype tc_state = TcClosed | TcOpen | TcHalfOpen

fun tc_state_value :: "tc_state \<Rightarrow> string" where
  "tc_state_value TcClosed = ''closed''"
| "tc_state_value TcOpen = ''open''"
| "tc_state_value TcHalfOpen = ''half_open''"

record tc =
  tc_config :: tc_config
  tc_state :: tc_state
  tc_failure_count :: int
  tc_success_count :: int
  tc_last_failure_time :: "rat option"
  tc_half_open_calls :: int

definition tc_init :: "tc_config \<Rightarrow> tc" where
  "tc_init config =
     \<lparr>tc_config = config, tc_state = TcClosed, tc_failure_count = 0, tc_success_count = 0,
      tc_last_failure_time = None, tc_half_open_calls = 0\<rparr>"

definition tc_should_attempt_reset :: "rat \<Rightarrow> tc \<Rightarrow> bool" where
  "tc_should_attempt_reset now c \<longleftrightarrow>
     (case tc_last_failure_time c of
        None \<Rightarrow> True
      | Some l \<Rightarrow> of_int (tcc_timeout_ms (tc_config c)) \<le> (now - l) * 1000)"

definition tc_on_success :: "tc \<Rightarrow> tc" where
  "tc_on_success c =
     (let c1 = c\<lparr>tc_failure_count := 0\<rparr>
      in if tc_state c1 = TcHalfOpen then
           (let c2 = c1\<lparr>tc_success_count := tc_success_count c1 + 1\<rparr>
            in if tcc_success_threshold (tc_config c2) \<le> tc_success_count c2
               then c2\<lparr>tc_state := TcClosed, tc_success_count := 0\<rparr> else c2)
         else c1)"

definition tc_on_failure :: "rat \<Rightarrow> tc \<Rightarrow> tc" where
  "tc_on_failure now c =
     (let c1 = c\<lparr>tc_failure_count := tc_failure_count c + 1, tc_last_failure_time := Some now\<rparr>
      in if tc_state c1 = TcHalfOpen then c1\<lparr>tc_state := TcOpen\<rparr>
         else if tcc_failure_threshold (tc_config c1) \<le> tc_failure_count c1
         then c1\<lparr>tc_state := TcOpen\<rparr>
         else c1)"

definition tc_enter_half_open :: "tc \<Rightarrow> exn option \<times> tc" where
  "tc_enter_half_open c =
     (if tc_state c = TcHalfOpen then
        (if tcc_half_open_max_calls (tc_config c) \<le> tc_half_open_calls c
         then (Some (exception ''Circuit breaker half-open call limit exceeded''), c)
         else (None, c\<lparr>tc_half_open_calls := tc_half_open_calls c + 1\<rparr>))
      else (None, c))"

definition tc_enter :: "rat \<Rightarrow> tc \<Rightarrow> exn option \<times> tc" where
  "tc_enter now c =
     (if tc_state c = TcOpen then
        (if tc_should_attempt_reset now c
         then tc_enter_half_open (c\<lparr>tc_state := TcHalfOpen, tc_half_open_calls := 0\<rparr>)
         else (Some (exception ''Circuit breaker is OPEN''), c))
      else tc_enter_half_open c)"

definition tc_leave :: "rat \<Rightarrow> 'a outcome \<Rightarrow> tc \<Rightarrow> tc" where
  "tc_leave now r c =
     (case r of Ok _ \<Rightarrow> tc_on_success c | Raise _ \<Rightarrow> tc_on_failure now c | Cancelled \<Rightarrow> c)"

definition tc_call :: "('w, 'a) coro \<Rightarrow> (tc \<times> 'w, 'a) coro" where
  "tc_call = guarded (instant tc_enter) (plain tc_leave)"

record tc_report =
  tcr_state :: string
  tcr_failure_count :: int
  tcr_success_count :: int
  tcr_last_failure_time :: "rat option"
  tcr_half_open_calls :: int

definition tc_get_state :: "tc \<Rightarrow> tc_report" where
  "tc_get_state c =
     \<lparr>tcr_state = tc_state_value (tc_state c), tcr_failure_count = tc_failure_count c,
      tcr_success_count = tc_success_count c, tcr_last_failure_time = tc_last_failure_time c,
      tcr_half_open_calls = tc_half_open_calls c\<rparr>"

lemmas tc_seg_defs [seg_defs] = tc_enter_def tc_enter_half_open_def tc_leave_def tc_on_success_def
  tc_on_failure_def tc_should_attempt_reset_def

section \<open>Bulkhead\<close>

record tb =
  tb_config :: tb_config
  tb_semaphore :: int
  tb_active_calls :: int
  tb_waiting_calls :: int
  tb_total_calls :: int
  tb_rejected_calls :: int

definition tb_init :: "tb_config \<Rightarrow> exn + tb" where
  "tb_init config =
     (if tbc_max_concurrent_calls config < 0
      then Inl (value_error ''Semaphore initial value must be >= 0'')
      else Inr \<lparr>tb_config = config, tb_semaphore = tbc_max_concurrent_calls config,
                tb_active_calls = 0, tb_waiting_calls = 0, tb_total_calls = 0,
                tb_rejected_calls = 0\<rparr>)"

definition tb_arrive :: "tb \<Rightarrow> exn option \<times> tb" where
  "tb_arrive b = (None, b\<lparr>tb_total_calls := tb_total_calls b + 1\<rparr>)"

definition tb_take :: "tb \<Rightarrow> tb" where
  "tb_take b = b\<lparr>tb_semaphore := tb_semaphore b - 1, tb_active_calls := tb_active_calls b + 1\<rparr>"

definition tb_timeout :: exn where
  "tb_timeout = exception ''Bulkhead timeout - too many concurrent calls''"

definition tb_give_up :: "tb \<Rightarrow> tb" where
  "tb_give_up b = b\<lparr>tb_rejected_calls := tb_rejected_calls b + 1\<rparr>"

definition tb_admit :: "(tb, unit) coro" where
  "tb_admit dl t b =
     (case acquire_within (\<lambda>b. 0 < tb_semaphore b) tb_take
             (of_int (tbc_max_wait_time_ms (tb_config b)) / 1000) dl t (snd (tb_arrive b)) of
        (Ok u, t1, b1) \<Rightarrow> (Ok u, t1, b1)
      | (Raise _, t1, b1) \<Rightarrow> (Raise tb_timeout, t1, tb_give_up b1)
      | (Cancelled, t1, b1) \<Rightarrow> (Cancelled, t1, b1))"

text \<open>
  The \<open>finally\<close> clause returns the permit. The function runs inside the \<open>try\<close> whose handler
  is meant for the acquisition, so its own \<open>TimeoutError\<close> is taken for one too.
\<close>

definition tb_release :: "tb \<Rightarrow> tb" where
  "tb_release b = b\<lparr>tb_active_calls := tb_active_calls b - 1, tb_semaphore := tb_semaphore b + 1\<rparr>"

definition tb_settle :: "rat \<Rightarrow> 'a outcome \<Rightarrow> tb \<Rightarrow> 'a outcome \<times> tb" where
  "tb_settle now r b =
     (let b1 = tb_release b
      in case r of
           Raise e \<Rightarrow> (if is_timeout e then (Raise tb_timeout, tb_give_up b1) else (Raise e, b1))
         | _ \<Rightarrow> (r, b1))"

definition tb_call :: "('w, 'a) coro \<Rightarrow> (tb \<times> 'w, 'a) coro" where
  "tb_call = guarded tb_admit tb_settle"

record tb_metrics =
  tbm_active_calls :: int
  tbm_waiting_calls :: int
  tbm_total_calls :: int
  tbm_rejected_calls :: int
  tbm_max_concurrent_calls :: int
  tbm_utilization :: rat

definition zero_division_error :: exn where
  "zero_division_error =
     Exn [''ZeroDivisionError'', ''ArithmeticError'', ''Exception''] ''division by zero''"

definition tb_get_metrics :: "tb \<Rightarrow> exn + tb_metrics" where
  "tb_get_metrics b =
     (if tbc_max_concurrent_calls (tb_config b) = 0 then Inl zero_division_error
      else Inr \<lparr>tbm_active_calls = tb_active_calls b, tbm_waiting_calls = tb_waiting_calls b,
        tbm_total_calls = tb_total_calls b, tbm_rejected_calls = tb_rejected_calls b,
        tbm_max_concurrent_calls = tbc_max_concurrent_calls (tb_config b),
        tbm_utilization = of_int (tb_active_calls b) / of_int (tbc_max_concurrent_calls (tb_config b))\<rparr>)"

lemmas tb_seg_defs [seg_defs] = tb_arrive_def tb_take_def tb_give_up_def tb_settle_def tb_release_def

section \<open>Retry manager\<close>

record tm =
  tm_config :: tm_config
  tm_total_retries :: int
  tm_successful_retries :: int

definition tm_init :: "tm_config \<Rightarrow> tm" where
  "tm_init config = \<lparr>tm_config = config, tm_total_retries = 0, tm_successful_retries = 0\<rparr>"

text \<open>\<open>u\<close> is the draw of \<open>random()\<close>.\<close>

definition tm_calculate_delay :: "tm_config \<Rightarrow> rat \<Rightarrow> int \<Rightarrow> rat" where
  "tm_calculate_delay c u attempt =
     (let d0 = (case tmc_strategy c of
                  FIXED_DELAY \<Rightarrow> of_int (tmc_base_delay_ms c)
                | LINEAR_BACKOFF \<Rightarrow> of_int (tmc_base_delay_ms c * (attempt + 1))
                | EXPONENTIAL_BACKOFF \<Rightarrow>
                    of_int (tmc_base_delay_ms c) * tmc_backoff_multiplier c ^ nat attempt);
          d1 = min d0 (of_int (tmc_max_delay_ms c))
      in if tmc_jitter c then d1 * uniform u (1/2) (3/2) else d1)"

text \<open>
  The loop state is \<open>last_exception\<close> and the manager; \<open>rnd\<close> gives the draw of each attempt, and
  \<open>is_retryable\<close> is optional.
\<close>

fun tm_attempts ::
  "(int \<Rightarrow> rat) \<Rightarrow> (exn \<Rightarrow> bool) option \<Rightarrow> int list \<Rightarrow> ('w, 'a) coro \<Rightarrow>
   ((exn option \<times> tm) \<times> 'w, 'a) coro" where
  "tm_attempts rnd retryable [] f dl t ((last_exception, m), w) =
     (Raise (case last_exception of Some e \<Rightarrow> e | None \<Rightarrow> exception ''Retry failed''),
      t, ((last_exception, m), w))"
| "tm_attempts rnd retryable (attempt # rest) f dl t ((last_exception, m), w) =
     (case f dl t w of
        (Ok x, t1, w1) \<Rightarrow>
          (Ok x, t1,
           ((last_exception,
             if 0 < attempt then m\<lparr>tm_successful_retries := tm_successful_retries m + 1\<rparr> else m), w1))
      | (Cancelled, t1, w1) \<Rightarrow> (Cancelled, t1, ((last_exception, m), w1))
      | (Raise e, t1, w1) \<Rightarrow>
          (if (case retryable of None \<Rightarrow> False | Some p \<Rightarrow> \<not> p e)
           then (Raise e, t1, ((Some e, m), w1))
           else if attempt = tmc_max_attempts (tm_config m) - 1
           then (Raise e, t1,
                 ((Some e, m\<lparr>tm_total_retries := tm_total_retries m + attempt\<rparr>), w1))
           else
             (case sleep (tm_calculate_delay (tm_config m) (rnd attempt) attempt / 1000) dl t1 w1 of
                (Ok _, t2, w2) \<Rightarrow> tm_attempts rnd retryable rest f dl t2 ((Some e, m), w2)
              | (Raise e', t2, w2) \<Rightarrow> (Raise e', t2, ((Some e, m), w2))
              | (Cancelled, t2, w2) \<Rightarrow> (Cancelled, t2, ((Some e, m), w2)))))"

definition tm_call_with_retry ::
  "(int \<Rightarrow> rat) \<Rightarrow> (exn \<Rightarrow> bool) option \<Rightarrow> ('w, 'a) coro \<Rightarrow> (tm \<times> 'w, 'a) coro" where
  "tm_call_with_retry rnd retryable f dl t = (\<lambda>(m, w).
     (case tm_attempts rnd retryable [0..tmc_max_attempts (tm_config m) - 1] f dl t ((None, m), w) of
        (r, t', ((_, m'), w')) \<Rightarrow> (r, t', (m', w'))))"

record tm_metrics =
  tmm_total_retries :: int
  tmm_successful_retries :: int
  tmm_retry_success_rate :: rat
  tmm_max_attempts :: int
  tmm_base_delay_ms :: int
  tmm_strategy :: string

definition tm_get_metrics :: "tm \<Rightarrow> tm_metrics" where
  "tm_get_metrics m =
     \<lparr>tmm_total_retries = tm_total_retries m, tmm_successful_retries = tm_successful_retries m,
      tmm_retry_success_rate = of_int (tm_successful_retries m) / of_int (max 1 (tm_total_retries m)),
      tmm_max_attempts = tmc_max_attempts (tm_config m),
      tmm_base_delay_ms = tmc_base_delay_ms (tm_config m),
      tmm_strategy = tool_retry_strategy_value (tmc_strategy (tm_config m))\<rparr>"

section \<open>The patterns meet their contracts\<close>

interpretation tcg: guard "instant tc_enter" "plain tc_leave"
  by (rule guard_instant_plain)

definition tc_tripped :: "rat \<Rightarrow> tc \<Rightarrow> bool" where
  "tc_tripped t c \<longleftrightarrow> tc_state c = TcOpen \<and>
     (\<exists>l. tc_last_failure_time c = Some l \<and> (t - l) * 1000 < of_int (tcc_timeout_ms (tc_config c)))"

definition tc_cooldown :: "tc \<Rightarrow> rat" where
  "tc_cooldown c = of_int (tcc_timeout_ms (tc_config c)) / 1000"

definition tc_budget :: "tc \<Rightarrow> int" where
  "tc_budget c = tcc_failure_threshold (tc_config c) - tc_failure_count c"

interpretation tcb: breaker tc_enter tc_leave "\<lambda>c. tc_state c = TcClosed" tc_budget tc_tripped tc_cooldown
proof (unfold_locales, goal_cases)
  case (3 t c u)
  then show ?case by (auto simp: tc_tripped_def intro: le_less_trans [rotated])
next
  case (4 c t e)
  then show ?case by (simp add: tc_leave_def tc_on_failure_def tc_budget_def tc_cooldown_def)
next
  case (5 c u t e)
  then show ?case
    by (simp add: tc_leave_def tc_on_failure_def tc_budget_def tc_cooldown_def tc_tripped_def field_simps)
qed (auto simp: tc_tripped_def seg_defs)

lemma timely_tb_admit [coro_intros]: "timely tb_admit"
proof (rule timelyI, goal_cases)
  case (1 t b r t' b')
  then show ?case
    using timelyD(1,2) [OF timely_acquire_within]
    by (fastforce simp: tb_admit_def split: prod.splits outcome.splits)
next
  case (2 D t b r t' b')
  then show ?case
    using timelyD(1,3) [OF timely_acquire_within]
    by (fastforce simp: tb_admit_def split: prod.splits outcome.splits)
qed

interpretation tbg: guard tb_admit tb_settle
  by unfold_locales
    (auto simp: timely_tb_admit tb_settle_def Let_def split: outcome.splits if_splits)

interpretation tbp: pool "\<lambda>_. tb_arrive" tb_take tb_give_up "\<lambda>_ _. False"
  "\<lambda>t r b. snd (tb_settle t r b)" tb_semaphore tb_active_calls
  by unfold_locales (auto simp: seg_defs Let_def split: outcome.splits)

interpretation tml: retry_loop
  "tm_attempts rnd retryable :: int list \<Rightarrow> ('w, 'a) coro \<Rightarrow> ((exn option \<times> tm) \<times> 'w, 'a) coro" snd
  for rnd retryable
proof (unfold_locales, goal_cases)
  case (1 f dl t v r t' v')
  obtain l m w where v: "v = ((l, m), w)" by (metis surj_pair)
  with 1 show ?case by auto
next
  case (2 n ns f dl t v r t' v' r1 t1 w1)
  obtain l m w where v: "v = ((l, m), w)" by (metis surj_pair)
  from 2 have run: "tm_attempts rnd retryable (n # ns) f dl t ((l, m), w) = (r, t', v')"
    and f: "f dl t w = (r1, t1, w1)" by (simp_all add: v)
  let ?d = "tm_calculate_delay (tm_config m) (rnd n) n / 1000"
  show ?case
  proof (cases r1)
    case (Raise e)
    show ?thesis
    proof (cases "(case retryable of None \<Rightarrow> False | Some p \<Rightarrow> \<not> p e) \<or>
        n = tmc_max_attempts (tm_config m) - 1")
      case True
      with run f Raise show ?thesis by (auto split: if_splits)
    next
      case False
      show ?thesis
      proof (cases rule: sleep_cases [of ?d dl t1 w1])
        case (slept t2)
        with run f Raise False show ?thesis
          by (intro disjI2 exI [of _ "((Some e, m), w1)"] exI [of _ t2]) auto
      qed (use run f Raise False in auto)
    qed
  qed (use run f in auto)
qed

lemma tm_call_loop:
  assumes "tm_call_with_retry rnd retryable f dl t (m, w) = (r, t', (m', w'))"
  obtains v' where
    "tm_attempts rnd retryable [0..tmc_max_attempts (tm_config m) - 1] f dl t ((None, m), w) = (r, t', v')"
    "w' = snd v'"
  using assms by (auto simp: tm_call_with_retry_def split: prod.splits)

interpretation tmc: layer
  "tm_call_with_retry rnd retryable :: ('w, 'a) coro \<Rightarrow> (tm \<times> 'w, 'a) coro" for rnd retryable
proof unfold_locales
  fix f :: "('w, 'a) coro"
  assume f: "timely f"
  have *: "t \<le> t' \<and> (dl = None \<longrightarrow> r \<noteq> Cancelled) \<and> (\<forall>D. dl = Some D \<longrightarrow> t' \<le> max t D)"
    if "tm_call_with_retry rnd retryable f dl t v = (r, t', v')" for dl t v r t' v'
    using that tml.run_timing [OF f] by (cases v; cases v') (blast elim: tm_call_loop)
  show "timely (tm_call_with_retry rnd retryable f)"
    by (rule timelyI) (use * in fastforce)+
next
  show "\<exists>dl1 t1 w1 t2 w2. f dl1 t1 w1 = (Ok x, t2, w2)"
    if "tm_call_with_retry rnd retryable f dl t v = (Ok x, t', v')"
    for f :: "('w, 'a) coro" and dl t v x t' v'
    using that by (cases v; cases v') (blast elim: tm_call_loop dest: tml.result_of_some_attempt)
qed

section \<open>Probing a half-open breaker\<close>

text \<open>Calls one after the other, each given as its start, its end and its outcome.\<close>

fun tc_calls :: "(rat \<times> rat \<times> unit outcome) list \<Rightarrow> tc \<Rightarrow> tc" where
  "tc_calls [] c = c"
| "tc_calls ((t, u, r) # xs) c =
     (case tc_enter t c of
        (None, c1) \<Rightarrow> tc_calls xs (tc_leave u r c1)
      | (Some _, c1) \<Rightarrow> tc_calls xs c1)"

lemma tc_cancelled_use_quota:
  assumes "tc_state c = TcHalfOpen" and "\<forall>(t, u, r) \<in> set xs. r = Cancelled"
    and "tc_half_open_calls c + int (length xs) = tcc_half_open_max_calls (tc_config c)"
  shows "tc_state (tc_calls xs c) = TcHalfOpen \<and> tc_config (tc_calls xs c) = tc_config c \<and>
    tc_half_open_calls (tc_calls xs c) = tcc_half_open_max_calls (tc_config c)"
  using assms
  by (induction xs c rule: tc_calls.induct)
    (auto simp: tc_enter_def tc_enter_half_open_def tc_leave_def)

lemma tc_exhausted_forever:
  assumes "tc_state c = TcHalfOpen" and "tcc_half_open_max_calls (tc_config c) \<le> tc_half_open_calls c"
  shows "None \<notin> set (fst (attempts tc_enter ts c)) \<and> snd (attempts tc_enter ts c) = c"
  using assms by (induction ts) (auto simp: tc_enter_def tc_enter_half_open_def split: prod.splits)

text \<open>
  A cancelled probe is never given back. When an open breaker has been probed
  \<open>half_open_max_calls\<close> times and every probe was cancelled (the total timeout of the adapter
  cancels them), the breaker refuses every later call at whatever time, with nothing in
  flight that could change its state: it never closes again.
\<close>

theorem tc_cancelled_probes_stick:
  assumes "tc_state c = TcOpen" and "tc_should_attempt_reset (fst (hd xs)) c" and "xs \<noteq> []"
    and "\<forall>(t, u, r) \<in> set xs. r = Cancelled"
    and "int (length xs) = tcc_half_open_max_calls (tc_config c)"
  shows "None \<notin> set (fst (attempts tc_enter ts (tc_calls xs c))) \<and>
    tc_state (snd (attempts tc_enter ts (tc_calls xs c))) = TcHalfOpen"
proof -
  obtain t u r xs' where xs: "xs = (t, u, r) # xs'" using assms(3) by (cases xs) auto
  let ?c = "c\<lparr>tc_state := TcHalfOpen, tc_half_open_calls := 1\<rparr>"
  have eq: "tc_calls xs c = tc_calls xs' ?c"
    using assms xs by (auto simp: tc_enter_def tc_enter_half_open_def tc_leave_def)
  have len: "int (length xs') + 1 = tcc_half_open_max_calls (tc_config c)"
    using assms(5) xs by simp
  have used: "tc_state (tc_calls xs' ?c) = TcHalfOpen" "tc_config (tc_calls xs' ?c) = tc_config c"
    "tc_half_open_calls (tc_calls xs' ?c) = tcc_half_open_max_calls (tc_config c)"
    using tc_cancelled_use_quota [of ?c xs'] assms(4) xs len by auto
  then show ?thesis using tc_exhausted_forever [of "tc_calls xs' ?c" ts] by (simp add: eq)
qed

lemma tc_successes_close:
  assumes "tc_state c = TcHalfOpen" and "\<forall>(t, u, r) \<in> set xs. r = Ok ()"
    and "tc_success_count c + int (length xs) = tcc_success_threshold (tc_config c)"
    and "tc_half_open_calls c + int (length xs) \<le> tcc_half_open_max_calls (tc_config c)"
    and "xs \<noteq> []"
  shows "tc_state (tc_calls xs c) = TcClosed \<and> tc_failure_count (tc_calls xs c) = 0 \<and>
    tc_success_count (tc_calls xs c) = 0"
  using assms
proof (induction xs arbitrary: c)
  case (Cons x xs)
  obtain t u r where x: "x = (t, u, r)" by (cases x)
  let ?c = "tc_leave u r (snd (tc_enter t c))"
  have step: "tc_calls (x # xs) c = tc_calls xs ?c"
    using Cons.prems x by (auto simp: tc_enter_def tc_enter_half_open_def)
  show ?case
  proof (cases "xs = []")
    case True
    with Cons.prems x show ?thesis
      by (auto simp: tc_enter_def tc_enter_half_open_def tc_leave_def tc_on_success_def)
  next
    case False
    then have "1 \<le> int (length xs)" by (cases xs) auto
    with Cons.prems x
    have "tc_state ?c = TcHalfOpen" "tc_success_count ?c = tc_success_count c + 1"
      "tc_half_open_calls ?c = tc_half_open_calls c + 1" "tc_config ?c = tc_config c"
      by (auto simp: tc_enter_def tc_enter_half_open_def tc_leave_def tc_on_success_def Let_def)
    with Cons.IH [of ?c] Cons.prems False x step show ?thesis by simp
  qed
qed simp

text \<open>
  Recovery: an open breaker with no success on record closes, with its counters reset,
  after exactly \<open>success_threshold\<close> successful probes, the first of which comes after the
  cool-down, provided \<open>half_open_max_calls\<close> admits that many.
\<close>

theorem tc_recovers:
  assumes "tc_state c = TcOpen" and "tc_success_count c = 0"
    and "tc_should_attempt_reset (fst (hd xs)) c" and "xs \<noteq> []"
    and "\<forall>(t, u, r) \<in> set xs. r = Ok ()"
    and "int (length xs) = tcc_success_threshold (tc_config c)"
    and "tcc_success_threshold (tc_config c) \<le> tcc_half_open_max_calls (tc_config c)"
  shows "tc_state (tc_calls xs c) = TcClosed \<and> tc_failure_count (tc_calls xs c) = 0 \<and>
    tc_success_count (tc_calls xs c) = 0"
proof -
  let ?c = "c\<lparr>tc_state := TcHalfOpen, tc_half_open_calls := 0\<rparr>"
  obtain t u r xs' where xs: "xs = (t, u, r) # xs'" using assms(4) by (cases xs) auto
  have "tc_calls xs c = tc_calls xs ?c" using assms(1,3) xs by (simp add: tc_enter_def)
  then show ?thesis using tc_successes_close [of ?c xs] assms by simp
qed

definition tc_tripped_demo :: tc where
  "tc_tripped_demo =
     fail_all (tc_leave :: rat \<Rightarrow> unit outcome \<Rightarrow> tc \<Rightarrow> tc)
       [(1, timeout_error), (2, timeout_error), (3, timeout_error), (4, timeout_error),
        (5, timeout_error)] (tc_init tc_default_config)"

lemma tc_tripped_demo: "tc_tripped_demo =
    \<lparr>tc_config = tc_default_config, tc_state = TcOpen, tc_failure_count = 5, tc_success_count = 0,
     tc_last_failure_time = Some 5, tc_half_open_calls = 0\<rparr>"
  by (simp add: tc_tripped_demo_def tc_leave_def tc_on_failure_def tc_init_def tc_default_config_def)

theorem tc_cancelled_probes_stick_witness:
  "None \<notin> set (fst (attempts tc_enter [200, 1000000]
     (tc_calls [(70, 130, Cancelled), (71, 131, Cancelled), (72, 132, Cancelled)] tc_tripped_demo)))"
  by (rule conjunct1, rule tc_cancelled_probes_stick)
    (simp_all add: tc_tripped_demo tc_default_config_def tc_should_attempt_reset_def)

theorem tc_recovers_witness:
  "tc_state (tc_calls [(70, 71, Ok ()), (72, 73, Ok ()), (74, 75, Ok ())] tc_tripped_demo) = TcClosed"
  by (rule conjunct1, rule tc_recovers)
    (simp_all add: tc_tripped_demo tc_default_config_def tc_should_attempt_reset_def)

section \<open>Delays and isolation\<close>

text \<open>
  The pause before a retry lies between half and one and a half times the capped back-off
  when jitter is on; without jitter it is the capped back-off itself, never above
  \<open>max_delay_ms\<close>. So with jitter the cap may be exceeded by half.
\<close>

theorem tm_delay_range:
  assumes "0 \<le> u" and "u < 1" and "0 \<le> tmc_base_delay_ms c" and "0 \<le> tmc_max_delay_ms c"
    and "0 \<le> tmc_backoff_multiplier c" and "0 \<le> attempt"
  defines "d \<equiv> tm_calculate_delay (c\<lparr>tmc_jitter := False\<rparr>) u attempt"
  shows "0 \<le> d \<and> d \<le> of_int (tmc_max_delay_ms c) \<and>
    d / 2 \<le> tm_calculate_delay (c\<lparr>tmc_jitter := True\<rparr>) u attempt \<and>
    tm_calculate_delay (c\<lparr>tmc_jitter := True\<rparr>) u attempt \<le> d * (3 / 2)"
proof -
  have j: "tm_calculate_delay (c\<lparr>tmc_jitter := True\<rparr>) u attempt = d * uniform u (1/2) (3/2)"
    by (cases "tmc_strategy c") (simp_all add: d_def tm_calculate_delay_def Let_def)
  have d: "0 \<le> d" "d \<le> of_int (tmc_max_delay_ms c)"
    using assms(3-6) by (auto simp: d_def tm_calculate_delay_def Let_def split: tool_retry_strategy.splits)
  have "1/2 \<le> uniform u (1/2) (3/2)" "uniform u (1/2) (3/2) \<le> 3/2"
    using uniform_bounds [OF assms(1,2), of "1/2" "3/2"] by simp_all
  from mult_left_mono [OF this(1) d(1)] mult_left_mono [OF this(2) d(1)] d show ?thesis
    by (simp add: j)
qed

theorem tm_delay_range_witness:
  "tm_calculate_delay tm_default_config (3/4) 6 \<le> 5000 * (3 / 2)"
  using tm_delay_range [of "3/4" tm_default_config 6]
  by (simp add: tm_default_config_def tm_calculate_delay_def)

lemma tb_permits_bounded:
  assumes "tb_init config = Inr b0"
    and "pool_run (\<lambda>_. tb_arrive) tb_take tb_give_up (\<lambda>_ _. False)
           (\<lambda>t r b. snd (tb_settle t r b)) tb_semaphore b0 (b, p, k, c)"
  shows "int k \<le> tbc_max_concurrent_calls config \<and> tb_active_calls b = int k"
  using tbp.permits_balance [OF assms(2)] assms(1) by (auto simp: tb_init_def split: if_splits)

end
