(* ===== verification/ToolAdapter.thy ===== *)
theory ToolAdapter
  imports ToolPatterns "HOL-Library.Multiset" "HOL-Library.List_Lexorder" "HOL-Library.Char_ord"
begin

text \<open>
  \<^verbatim>\<open>libs/reliability/base_adapter.py\<close>, second half: \<open>IdempotencyManager\<close>,
  \<open>WriteAheadLogger\<close> and \<open>BaseToolAdapter\<close>, whose \<open>execute\<close> puts a total timeout around the
  bulkhead around the circuit breaker around the retries of the tool.

  Parameters: the Redis client (two coroutines, or no client), the tool itself, the draws of
  the random jitter, the fresh uuid of a log entry, and the record \<open>codec\<close> of the text
  functions of which the code uses nothing but their result (\<open>str\<close>, \<open>md5\<close> and \<open>json\<close>, the
  latter possibly raising). A Python result is \<open>'r option\<close>, with \<open>None\<close> for the object \<open>None\<close>.
\<close>

section \<open>Parameters\<close>

record 'w redis =
  redis_get :: "string \<Rightarrow> ('w, string option) coro"
  redis_setex :: "string \<Rightarrow> int \<Rightarrow> string \<Rightarrow> ('w, unit) coro"

record ('p, 'r) wal =
  wal_id :: string
  wal_tool_id :: string
  wal_operation :: string
  wal_parameters :: "(string, 'p) dict"
  wal_timestamp :: rat
  wal_status :: string
  wal_result :: "'r option"
  wal_error :: "string option"

record ('p, 'r) codec =
  cd_str :: "(string \<times> 'p) list \<Rightarrow> string"
  cd_md5 :: "string \<Rightarrow> string"
  cd_dumps :: "'r option \<Rightarrow> exn + string"
  cd_loads :: "string \<Rightarrow> exn + 'r option"
  cd_wal_dumps :: "('p, 'r) wal \<Rightarrow> exn + string"

text \<open>
  Storing a JSON text in Redis, as four methods do it: nothing without a client, and an
  exception of the encoding or of the client is logged and dropped.
\<close>

definition redis_push ::
  "'w redis option \<Rightarrow> string \<Rightarrow> int \<Rightarrow> exn + string \<Rightarrow> ('w, unit) coro" where
  "redis_push rd key ttl json dl t w =
     (case rd of
        None \<Rightarrow> (Ok (), t, w)
      | Some client \<Rightarrow>
          (case json of
             Inl _ \<Rightarrow> (Ok (), t, w)
           | Inr text \<Rightarrow>
               (case redis_setex client key ttl text dl t w of
                  (Ok _, t1, w1) \<Rightarrow> (Ok (), t1, w1)
                | (Raise _, t1, w1) \<Rightarrow> (Ok (), t1, w1)
                | (Cancelled, t1, w1) \<Rightarrow> (Cancelled, t1, w1))))"

section \<open>Idempotency\<close>

record 'r ti =
  ti_local_cache :: "(string, 'r option) dict"
  ti_cache_ttl :: int

definition ti_init :: "'r ti" where
  "ti_init = \<lparr>ti_local_cache = [], ti_cache_ttl = 3600\<rparr>"

text \<open>The keys of a dict differ, so sorting the items is sorting them by key.\<close>

definition ti_generate_key :: "('p, 'r) codec \<Rightarrow> string \<Rightarrow> (string, 'p) dict \<Rightarrow> string" where
  "ti_generate_key cd tool_id parameters =
     (let sorted_params = sort_key fst parameters;
          param_str = cd_str cd sorted_params
      in cd_md5 cd (tool_id @ '':'' @ param_str))"

definition ti_get_result ::
  "('p, 'r) codec \<Rightarrow> 'w redis option \<Rightarrow> string \<Rightarrow> ('r ti \<times> 'w, 'r option) coro" where
  "ti_get_result cd rd key dl t = (\<lambda>(i, w).
     (case dget (ti_local_cache i) key of
        Some v \<Rightarrow> (Ok v, t, (i, w))
      | None \<Rightarrow>
          (case rd of
             None \<Rightarrow> (Ok None, t, (i, w))
           | Some client \<Rightarrow>
               (case redis_get client (''idempotency:'' @ key) dl t w of
                  (Ok result, t1, w1) \<Rightarrow>
                    (case result of
                       Some (x # xs) \<Rightarrow>
                         (case cd_loads cd (x # xs) of
                            Inr v \<Rightarrow> (Ok v, t1, (i, w1))
                          | Inl _ \<Rightarrow> (Ok None, t1, (i, w1)))
                     | _ \<Rightarrow> (Ok None, t1, (i, w1)))
                | (Raise _, t1, w1) \<Rightarrow> (Ok None, t1, (i, w1))
                | (Cancelled, t1, w1) \<Rightarrow> (Cancelled, t1, (i, w1))))))"

definition ti_store_result ::
  "('p, 'r) codec \<Rightarrow> 'w redis option \<Rightarrow> string \<Rightarrow> 'r option \<Rightarrow> ('r ti \<times> 'w, unit) coro" where
  "ti_store_result cd rd key v dl t = (\<lambda>(i, w).
     (let i1 = i\<lparr>ti_local_cache := dset key v (ti_local_cache i)\<rparr>
      in case redis_push rd (''idempotency:'' @ key) (ti_cache_ttl i1) (cd_dumps cd v) dl t w of
           (r, t1, w1) \<Rightarrow> (r, t1, (i1, w1))))"

section \<open>Write-ahead log\<close>

definition tw_push ::
  "('p, 'r) codec \<Rightarrow> 'w redis option \<Rightarrow> ('p, 'r) wal \<Rightarrow> ('w, unit) coro" where
  "tw_push cd rd entry = redis_push rd (''wal:'' @ wal_id entry) 3600 (cd_wal_dumps cd entry)"

definition tw_log_request ::
  "('p, 'r) codec \<Rightarrow> 'w redis option \<Rightarrow> string \<Rightarrow> string \<Rightarrow> string \<Rightarrow> (string, 'p) dict \<Rightarrow>
   (('p, 'r) wal list \<times> 'w, string) coro" where
  "tw_log_request cd rd log_id tool_id operation parameters dl t = (\<lambda>(es, w).
     (let entry = \<lparr>wal_id = log_id, wal_tool_id = tool_id, wal_operation = operation,
                   wal_parameters = parameters, wal_timestamp = t, wal_status = ''requested'',
                   wal_result = None, wal_error = None\<rparr>;
          es1 = es @ [entry]
      in case tw_push cd rd entry dl t w of
           (Ok _, t1, w1) \<Rightarrow> (Ok log_id, t1, (es1, w1))
         | (Raise e, t1, w1) \<Rightarrow> (Raise e, t1, (es1, w1))
         | (Cancelled, t1, w1) \<Rightarrow> (Cancelled, t1, (es1, w1))))"

text \<open>The loops that update, and look up, the first entry with the identifier.\<close>

fun tw_update :: "string \<Rightarrow> (('p, 'r) wal \<Rightarrow> ('p, 'r) wal) \<Rightarrow> ('p, 'r) wal list \<Rightarrow> ('p, 'r) wal list" where
  "tw_update i g [] = []"
| "tw_update i g (e # es) = (if wal_id e = i then g e # es else e # tw_update i g es)"

definition tw_settle ::
  "('p, 'r) codec \<Rightarrow> 'w redis option \<Rightarrow> string \<Rightarrow> (('p, 'r) wal \<Rightarrow> ('p, 'r) wal) \<Rightarrow>
   (('p, 'r) wal list \<times> 'w, unit) coro" where
  "tw_settle cd rd log_id g dl t = (\<lambda>(es, w).
     (let es1 = tw_update log_id g es
      in case find (\<lambda>e. wal_id e = log_id) es1 of
           None \<Rightarrow> (Ok (), t, (es1, w))
         | Some entry \<Rightarrow>
             (case tw_push cd rd entry dl t w of (r, t1, w1) \<Rightarrow> (r, t1, (es1, w1)))))"

definition tw_log_success ::
  "('p, 'r) codec \<Rightarrow> 'w redis option \<Rightarrow> string \<Rightarrow> 'r option \<Rightarrow> (('p, 'r) wal list \<times> 'w, unit) coro" where
  "tw_log_success cd rd log_id v =
     tw_settle cd rd log_id (\<lambda>e. e\<lparr>wal_status := ''succeeded'', wal_result := v\<rparr>)"

definition tw_log_failure ::
  "('p, 'r) codec \<Rightarrow> 'w redis option \<Rightarrow> string \<Rightarrow> string \<Rightarrow> (('p, 'r) wal list \<times> 'w, unit) coro" where
  "tw_log_failure cd rd log_id msg =
     tw_settle cd rd log_id (\<lambda>e. e\<lparr>wal_status := ''failed'', wal_error := Some msg\<rparr>)"

section \<open>The adapter\<close>

record ta_timeouts =
  tac_connect_timeout_ms :: int
  tac_read_timeout_ms :: int
  tac_total_timeout_ms :: int

definition ta_default_timeouts :: ta_timeouts where
  "ta_default_timeouts =
     \<lparr>tac_connect_timeout_ms = 5000, tac_read_timeout_ms = 30000, tac_total_timeout_ms = 60000\<rparr>"

record ('p, 'r) ta =
  ta_tool_id :: string
  ta_timeouts :: ta_timeouts
  ta_circuit_breaker :: tc
  ta_bulkhead :: tb
  ta_retry_manager :: tm
  ta_idempotency :: "'r ti"
  ta_log :: "('p, 'r) wal list"
  ta_total_calls :: int
  ta_successful_calls :: int
  ta_failed_calls :: int

definition ta_init ::
  "string \<Rightarrow> tm_config option \<Rightarrow> tc_config option \<Rightarrow> tb_config option \<Rightarrow> ta_timeouts option \<Rightarrow>
   exn + ('p, 'r) ta" where
  "ta_init tool_id retry_config circuit_config bulkhead_config timeouts =
     (let rc = (case retry_config of None \<Rightarrow> tm_default_config | Some c \<Rightarrow> c);
          cc = (case circuit_config of None \<Rightarrow> tc_default_config | Some c \<Rightarrow> c);
          bc = (case bulkhead_config of None \<Rightarrow> tb_default_config | Some c \<Rightarrow> c);
          tc = (case timeouts of None \<Rightarrow> ta_default_timeouts | Some c \<Rightarrow> c)
      in case tb_init bc of
           Inl e \<Rightarrow> Inl e
         | Inr b \<Rightarrow> Inr \<lparr>ta_tool_id = tool_id, ta_timeouts = tc, ta_circuit_breaker = tc_init cc,
             ta_bulkhead = b, ta_retry_manager = tm_init rc, ta_idempotency = ti_init,
             ta_log = [], ta_total_calls = 0, ta_successful_calls = 0, ta_failed_calls = 0\<rparr>)"

definition ta_compensate :: "(string, 'p) dict \<Rightarrow> 'r option \<Rightarrow> bool" where
  "ta_compensate parameters result = True"

definition ta_retryable_patterns :: "string list" where
  "ta_retryable_patterns =
     [''timeout'', ''connection'', ''network'', ''temporary'', ''unavailable'',
      ''rate limit'', ''throttle'', ''service unavailable'']"

definition ta_is_retryable_error :: "exn \<Rightarrow> bool" where
  "ta_is_retryable_error e =
     (let error_str = ascii_lower (message e)
      in list_ex (\<lambda>p. str_contains p error_str) ta_retryable_patterns)"

text \<open>
  The stack of wrappers; \<open>retryable\<close> is \<open>_is_retryable_error\<close>, which a subclass may override.
\<close>

definition ta_stack ::
  "rat \<Rightarrow> (int \<Rightarrow> rat) \<Rightarrow> (exn \<Rightarrow> bool) \<Rightarrow> ('w, 'a) coro \<Rightarrow> (tb \<times> tc \<times> tm \<times> 'w, 'a) coro" where
  "ta_stack tmo rnd retryable f =
     wait_for tmo (tb_call (tc_call (tm_call_with_retry rnd (Some retryable) f)))"

definition ta_execute_with_reliability ::
  "(int \<Rightarrow> rat) \<Rightarrow> (exn \<Rightarrow> bool) \<Rightarrow> ((string, 'p) dict \<Rightarrow> ('w, 'r option) coro) \<Rightarrow> (string, 'p) dict \<Rightarrow>
   (('p, 'r) ta \<times> 'w, 'r option) coro" where
  "ta_execute_with_reliability rnd retryable tool parameters dl t = (\<lambda>(a, w).
     (case ta_stack (of_int (tac_total_timeout_ms (ta_timeouts a)) / 1000) rnd retryable
             (tool parameters) dl t
             (ta_bulkhead a, (ta_circuit_breaker a, (ta_retry_manager a, w))) of
        (r, t', (b, (c, (m, w')))) \<Rightarrow>
          (r, t', (a\<lparr>ta_bulkhead := b, ta_circuit_breaker := c, ta_retry_manager := m\<rparr>, w'))))"

definition ta_on_log ::
  "(('p, 'r) wal list \<times> 'w, 'b) coro \<Rightarrow> (('p, 'r) ta \<times> 'w, 'b) coro" where
  "ta_on_log g dl t = (\<lambda>(a, w).
     (case g dl t (ta_log a, w) of (r, t', (es, w')) \<Rightarrow> (r, t', (a\<lparr>ta_log := es\<rparr>, w'))))"

definition ta_on_idempotency :: "('r ti \<times> 'w, 'b) coro \<Rightarrow> (('p, 'r) ta \<times> 'w, 'b) coro" where
  "ta_on_idempotency g dl t = (\<lambda>(a, w).
     (case g dl t (ta_idempotency a, w) of
        (r, t', (i, w')) \<Rightarrow> (r, t', (a\<lparr>ta_idempotency := i\<rparr>, w'))))"

text \<open>
  The protected part of \<open>execute\<close>, from the \<open>try\<close> on. None of the calls in the \<open>except\<close>
  clause raises, and an exception of the logging in the \<open>try\<close> would be handled like one of the
  tool.
\<close>

definition ta_fail ::
  "('p, 'r) codec \<Rightarrow> 'w redis option \<Rightarrow> string \<Rightarrow> exn \<Rightarrow> (('p, 'r) ta \<times> 'w, 'r option) coro" where
  "ta_fail cd rd log_id e dl t v =
     (case ta_on_log (tw_log_failure cd rd log_id (message e)) dl t v of
        (Ok _, t1, (a1, w1)) \<Rightarrow>
          (Raise e, t1, (a1\<lparr>ta_failed_calls := ta_failed_calls a1 + 1\<rparr>, w1))
      | (Raise e', t1, v1) \<Rightarrow> (Raise e', t1, v1)
      | (Cancelled, t1, v1) \<Rightarrow> (Cancelled, t1, v1))"

definition ta_run ::
  "('p, 'r) codec \<Rightarrow> 'w redis option \<Rightarrow> (int \<Rightarrow> rat) \<Rightarrow> (exn \<Rightarrow> bool) \<Rightarrow>
   ((string, 'p) dict \<Rightarrow> ('w, 'r option) coro) \<Rightarrow> (string, 'p) dict \<Rightarrow> string \<Rightarrow> string \<Rightarrow>
   (('p, 'r) ta \<times> 'w, 'r option) coro" where
  "ta_run cd rd rnd retryable tool parameters key log_id dl t v =
     (case ta_execute_with_reliability rnd retryable tool parameters dl t v of
        (Cancelled, t1, v1) \<Rightarrow> (Cancelled, t1, v1)
      | (Raise e, t1, v1) \<Rightarrow> ta_fail cd rd log_id e dl t1 v1
      | (Ok x, t1, v1) \<Rightarrow>
          (case ta_on_log (tw_log_success cd rd log_id x) dl t1 v1 of
             (Cancelled, t2, v2) \<Rightarrow> (Cancelled, t2, v2)
           | (Raise e, t2, v2) \<Rightarrow> ta_fail cd rd log_id e dl t2 v2
           | (Ok _, t2, v2) \<Rightarrow>
               (case ta_on_idempotency (ti_store_result cd rd key x) dl t2 v2 of
                  (Cancelled, t3, v3) \<Rightarrow> (Cancelled, t3, v3)
                | (Raise e, t3, v3) \<Rightarrow> ta_fail cd rd log_id e dl t3 v3
                | (Ok _, t3, (a3, w3)) \<Rightarrow>
                    (Ok x, t3, (a3\<lparr>ta_successful_calls := ta_successful_calls a3 + 1\<rparr>, w3)))))"

definition ta_effective_key ::
  "('p, 'r) codec \<Rightarrow> ('p, 'r) ta \<Rightarrow> (string, 'p) dict \<Rightarrow> string option \<Rightarrow> string" where
  "ta_effective_key cd a parameters key =
     (case key of
        Some (x # xs) \<Rightarrow> x # xs
      | _ \<Rightarrow> ti_generate_key cd (ta_tool_id a) parameters)"

definition ta_execute ::
  "('p, 'r) codec \<Rightarrow> 'w redis option \<Rightarrow> (int \<Rightarrow> rat) \<Rightarrow> (exn \<Rightarrow> bool) \<Rightarrow>
   ((string, 'p) dict \<Rightarrow> ('w, 'r option) coro) \<Rightarrow> (string, 'p) dict \<Rightarrow> string option \<Rightarrow> string \<Rightarrow>
   (('p, 'r) ta \<times> 'w, 'r option) coro" where
  "ta_execute cd rd rnd retryable tool parameters idempotency_key log_id dl t = (\<lambda>(a, w).
     (let a0 = a\<lparr>ta_total_calls := ta_total_calls a + 1\<rparr>;
          key = ta_effective_key cd a0 parameters idempotency_key
      in case ta_on_idempotency (ti_get_result cd rd key) dl t (a0, w) of
           (Ok (Some x), t1, v1) \<Rightarrow> (Ok (Some x), t1, v1)
         | (Raise e, t1, v1) \<Rightarrow> (Raise e, t1, v1)
         | (Cancelled, t1, v1) \<Rightarrow> (Cancelled, t1, v1)
         | (Ok None, t1, v1) \<Rightarrow>
             (case ta_on_log (tw_log_request cd rd log_id (ta_tool_id a0) ''execute'' parameters)
                     dl t1 v1 of
                (Ok log_id', t2, v2) \<Rightarrow>
                  ta_run cd rd rnd retryable tool parameters key log_id' dl t2 v2
              | (Raise e, t2, v2) \<Rightarrow> (Raise e, t2, v2)
              | (Cancelled, t2, v2) \<Rightarrow> (Cancelled, t2, v2))))"

record ta_metrics =
  tam_tool_id :: string
  tam_total_calls :: int
  tam_successful_calls :: int
  tam_failed_calls :: int
  tam_success_rate :: rat
  tam_circuit_breaker :: tc_report
  tam_bulkhead :: tb_metrics
  tam_retry :: tm_metrics

definition ta_get_metrics :: "('p, 'r) ta \<Rightarrow> exn + ta_metrics" where
  "ta_get_metrics a =
     (case tb_get_metrics (ta_bulkhead a) of
        Inl e \<Rightarrow> Inl e
      | Inr b \<Rightarrow> Inr \<lparr>tam_tool_id = ta_tool_id a, tam_total_calls = ta_total_calls a,
          tam_successful_calls = ta_successful_calls a, tam_failed_calls = ta_failed_calls a,
          tam_success_rate = of_int (ta_successful_calls a) / of_int (max 1 (ta_total_calls a)),
          tam_circuit_breaker = tc_get_state (ta_circuit_breaker a), tam_bulkhead = b,
          tam_retry = tm_get_metrics (ta_retry_manager a)\<rparr>)"

section \<open>The stack of layers\<close>

interpretation circuit_over_retry: layer_stack
  "tc_call :: (tm \<times> 'w, 'a) coro \<Rightarrow> (tc \<times> tm \<times> 'w, 'a) coro"
  "tm_call_with_retry rnd retryable :: ('w, 'a) coro \<Rightarrow> (tm \<times> 'w, 'a) coro" for rnd retryable
  unfolding tc_call_def layer_stack_def
  by (intro conjI tcg.guarded.layer_axioms tmc.layer_axioms)

interpretation bulkhead_over_circuit: layer_stack
  "tb_call :: (tc \<times> tm \<times> 'w, 'a) coro \<Rightarrow> (tb \<times> tc \<times> tm \<times> 'w, 'a) coro"
  "\<lambda>f :: ('w, 'a) coro. tc_call (tm_call_with_retry rnd retryable f)" for rnd retryable
  unfolding layer_stack_def
  by (intro conjI circuit_over_retry.stacked.layer_axioms) (simp add: tb_call_def tbg.guarded.layer_axioms)

interpretation adapter_stack: layer_stack
  "wait_for tmo :: (tb \<times> tc \<times> tm \<times> 'w, 'a) coro \<Rightarrow> (tb \<times> tc \<times> tm \<times> 'w, 'a) coro"
  "\<lambda>f :: ('w, 'a) coro. tb_call (tc_call (tm_call_with_retry rnd (Some retryable) f))"
  for tmo rnd retryable
  unfolding layer_stack_def
  by (intro conjI waiting.layer_axioms bulkhead_over_circuit.stacked.layer_axioms)

lemma ta_stack_timely: "timely f \<Longrightarrow> timely (ta_stack tmo rnd retryable f)"
  unfolding ta_stack_def by (rule adapter_stack.stacked.timely_call)

lemma ta_stack_Ok_inner:
  "ta_stack tmo rnd retryable f dl t v = (Ok x, t', v') \<Longrightarrow>
   \<exists>dl1 t1 w1 t2 w2. f dl1 t1 w1 = (Ok x, t2, w2)"
  unfolding ta_stack_def by (rule adapter_stack.stacked.result_from_inner)

lemma ta_stack_invocations:
  fixes count :: "'w \<Rightarrow> int"
  assumes counted: "\<And>dl t w r t' w'. f dl t w = (r, t', w') \<Longrightarrow> count w' = count w + 1"
    and run: "ta_stack tmo rnd retryable f dl t (b, (c, (m, w))) = (r, t', (b', (c', (m', w'))))"
  shows "count w \<le> count w' \<and> count w' \<le> count w + max 0 (tmc_max_attempts (tm_config m))"
proof -
  let ?g = "tm_call_with_retry rnd (Some retryable) f"
  have loop: "count w1 \<le> count w2 \<and> count w2 \<le> count w1 + max 0 (tmc_max_attempts (tm_config m1))"
    if "?g dl1 t1 (m1, w1) = (r2, t2, (m2, w2))" for dl1 t1 m1 w1 r2 t2 m2 w2
    using that
  proof (rule tm_call_loop)
    fix v'
    assume "tm_attempts rnd (Some retryable) [0..tmc_max_attempts (tm_config m1) - 1] f dl1 t1
        ((None, m1), w1) = (r2, t2, v')" and w2: "w2 = snd v'"
    from _ this(1) have "count (snd ((None :: exn option, m1), w1)) \<le> count (snd v') \<and>
        count (snd v') \<le> count (snd ((None :: exn option, m1), w1)) +
          int (length [0..tmc_max_attempts (tm_config m1) - 1])"
      by (rule tml.invocations_bounded) (rule counted)
    then show ?thesis using w2 by (simp add: max_def split: if_splits)
  qed
  from wait_for_world [OF run [unfolded ta_stack_def]] show ?thesis
  proof (elim disjE exE)
    fix dl1 r1
    assume "tb_call (tc_call ?g) dl1 t (b, (c, (m, w))) = (r1, t', (b', (c', (m', w'))))"
    from guarded_world [OF this [unfolded tb_call_def]] show ?thesis
    proof (elim disjE exE)
      fix t1 r2
      assume "tc_call ?g dl1 t1 (c, (m, w)) = (r2, t', (c', (m', w')))"
      from guarded_world [OF this [unfolded tc_call_def]] loop show ?thesis by auto
    qed auto
  qed auto
qed

section \<open>Idempotency keys\<close>

text \<open>
  The generated idempotency key depends on the tool and on the parameters as a mapping:
  the order in which the parameters were inserted does not matter.
\<close>

theorem ti_key_order_independent:
  assumes "wf_dict p" and "wf_dict q" and "\<And>k. dget p k = dget q k"
  shows "ti_generate_key cd tool p = ti_generate_key cd tool q"
proof -
  have d: "distinct p" "distinct q" using assms(1,2) by (simp_all add: wf_dict_def distinct_map)
  have "x \<in> set p \<longleftrightarrow> x \<in> set q" for x
    using assms(3) [of "fst x"] wf_dict_mem [OF assms(1)] wf_dict_mem [OF assms(2)] by simp
  then have "set p = set q" by blast
  then have m: "mset p = mset (sort_key fst q)" using d by (simp add: set_eq_iff_mset_eq_distinct)
  have "inj_on fst (set p)" using assms(1) by (simp add: wf_dict_def distinct_map)
  then have "sort_key fst p = sort_key fst q"
    by (rule sort_key_inj_key_eq [OF m]) simp
  then show ?thesis by (simp add: ti_generate_key_def)
qed

section \<open>The log and the cache\<close>

lemma redis_push_no_raise [simp]: "redis_push rd key ttl json dl t w \<noteq> (Raise e, t', w')"
  by (auto simp: redis_push_def split: option.splits sum.splits prod.splits outcome.splits)

lemma redis_push_none [simp]: "redis_push None key ttl json dl t w = (Ok (), t, w)"
  by (simp add: redis_push_def)

lemma tw_update_fresh:
  assumes "i \<notin> wal_id ` set es" and "wal_id e = i"
  shows "tw_update i g (es @ [e]) = es @ [g e]"
  using assms by (induction es) auto

lemma tw_settle_spec:
  assumes "tw_settle cd rd i g dl t (es @ [e], w) = (r, t', (es', w'))"
    and "i \<notin> wal_id ` set es" and "wal_id e = i"
  shows "es' = es @ [g e] \<and> (\<forall>x. r \<noteq> Raise x)"
  using assms
  by (auto simp: tw_settle_def tw_update_fresh tw_push_def Let_def split: option.splits prod.splits)

lemma tw_log_request_spec:
  assumes "tw_log_request cd rd i tool op ps dl t (es, w) = (r, t', (es', w'))"
  shows "es' = es @ [\<lparr>wal_id = i, wal_tool_id = tool, wal_operation = op, wal_parameters = ps,
      wal_timestamp = t, wal_status = ''requested'', wal_result = None, wal_error = None\<rparr>] \<and>
    (r = Ok i \<or> r = Cancelled)"
  using assms
  by (auto simp: tw_log_request_def tw_push_def Let_def split: prod.splits outcome.splits)

text \<open>What an execution leaves alone, for the facts below: the log, the cache and the counters.\<close>

definition ta_books :: "('p, 'r) ta \<Rightarrow> ('p, 'r) wal list \<times> 'r ti \<times> int \<times> int \<times> int" where
  "ta_books a = (ta_log a, ta_idempotency a, ta_total_calls a, ta_successful_calls a, ta_failed_calls a)"

lemma ta_reliability_books:
  assumes "ta_execute_with_reliability rnd retryable tool ps dl t (a, w) = (r, t', (a', w'))"
  shows "ta_books a' = ta_books a"
  using assms by (auto simp: ta_execute_with_reliability_def ta_books_def split: prod.splits)

lemma ta_on_logE:
  assumes "ta_on_log g dl t (a, w) = (r, t', (a', w'))"
  obtains es where "g dl t (ta_log a, w) = (r, t', (es, w'))" "a' = a\<lparr>ta_log := es\<rparr>"
  using assms by (auto simp: ta_on_log_def split: prod.splits)

lemma ta_on_idempotencyE:
  assumes "ta_on_idempotency g dl t (a, w) = (r, t', (a', w'))"
  obtains i where "g dl t (ta_idempotency a, w) = (r, t', (i, w'))" "a' = a\<lparr>ta_idempotency := i\<rparr>"
  using assms by (auto simp: ta_on_idempotency_def split: prod.splits)

lemma ti_get_result_spec:
  assumes "ti_get_result cd rd key dl t (i, w) = (r, t', (i', w'))"
  shows "i' = i \<and> (\<forall>e. r \<noteq> Raise e) \<and> (rd = None \<longrightarrow> r = Ok (dget_or None (ti_local_cache i) key))"
  using assms
  by (auto simp: ti_get_result_def dget_or_def
      split: option.splits list.splits sum.splits prod.splits outcome.splits)

lemma ti_store_result_spec:
  assumes "ti_store_result cd rd key v dl t (i, w) = (r, t', (i', w'))"
  shows "i' = i\<lparr>ti_local_cache := dset key v (ti_local_cache i)\<rparr> \<and> (\<forall>e. r \<noteq> Raise e)"
  using assms
  by (auto simp: ti_store_result_def Let_def split: prod.splits)

definition ta_settled :: "('p, 'r) wal \<Rightarrow> 'r option outcome \<Rightarrow> ('p, 'r) wal \<Rightarrow> bool" where
  "ta_settled e r e' \<longleftrightarrow>
     (case r of
        Ok x \<Rightarrow> e' = e\<lparr>wal_status := ''succeeded'', wal_result := x\<rparr>
      | Raise x \<Rightarrow> e' = e\<lparr>wal_status := ''failed'', wal_error := Some (message x)\<rparr>
      | Cancelled \<Rightarrow> True)"

lemma ta_run_spec:
  assumes run: "ta_run cd rd rnd retryable tool ps key i dl t (a, w) = (r, t', (a', w'))"
    and fresh: "i \<notin> wal_id ` set es" and e: "wal_id e = i" "ta_log a = es @ [e]"
  shows "\<exists>e'. ta_log a' = es @ [e'] \<and> ta_settled e r e'"
    and "ta_total_calls a' = ta_total_calls a"
    and "ta_successful_calls a' = ta_successful_calls a + (case r of Ok _ \<Rightarrow> 1 | _ \<Rightarrow> 0)"
    and "ta_failed_calls a' = ta_failed_calls a + (case r of Raise _ \<Rightarrow> 1 | _ \<Rightarrow> 0)"
    and "r = Ok x \<Longrightarrow> dget (ti_local_cache (ta_idempotency a')) key = Some x"
proof -
  obtain q t1 a1 w1 where ex:
    "ta_execute_with_reliability rnd retryable tool ps dl t (a, w) = (q, t1, (a1, w1))"
    by (rule prod_cases4)
  have b: "ta_log a1 = es @ [e]" "ta_idempotency a1 = ta_idempotency a"
    "ta_total_calls a1 = ta_total_calls a" "ta_successful_calls a1 = ta_successful_calls a"
    "ta_failed_calls a1 = ta_failed_calls a"
    using ta_reliability_books [OF ex] e by (simp_all add: ta_books_def)
  let ?spec = "(\<exists>e'. ta_log a' = es @ [e'] \<and> ta_settled e r e') \<and>
    ta_total_calls a' = ta_total_calls a \<and>
    ta_successful_calls a' = ta_successful_calls a + (case r of Ok _ \<Rightarrow> 1 | _ \<Rightarrow> 0) \<and>
    ta_failed_calls a' = ta_failed_calls a + (case r of Raise _ \<Rightarrow> 1 | _ \<Rightarrow> 0) \<and>
    (\<forall>x. r = Ok x \<longrightarrow> dget (ti_local_cache (ta_idempotency a')) key = Some x)"
  have ?spec
  proof (cases q)
    case Cancelled
    then show ?thesis using run ex b by (auto simp: ta_run_def ta_settled_def)
  next
    case (Raise x)
    obtain p t2 a2 w2 where lf: "ta_on_log (tw_log_failure cd rd i (message x)) dl t1 (a1, w1) = (p, t2, (a2, w2))"
      by (rule prod_cases4)
    show ?thesis
      using lf
    proof (rule ta_on_logE)
      fix es2
      assume s: "tw_log_failure cd rd i (message x) dl t1 (ta_log a1, w1) = (p, t2, (es2, w2))"
        and a2: "a2 = a1\<lparr>ta_log := es2\<rparr>"
      from tw_settle_spec [OF s [unfolded tw_log_failure_def b] fresh e(1)] show ?thesis
        using run ex b lf Raise a2
        by (cases p) (auto simp: ta_run_def ta_fail_def ta_settled_def)
    qed
  next
    case (Ok x)
    obtain p t2 a2 w2 where ls: "ta_on_log (tw_log_success cd rd i x) dl t1 (a1, w1) = (p, t2, (a2, w2))"
      by (rule prod_cases4)
    obtain p3 t3 a3 w3 where si: "ta_on_idempotency (ti_store_result cd rd key x) dl t2 (a2, w2) = (p3, t3, (a3, w3))"
      by (rule prod_cases4)
    show ?thesis
      using ls
    proof (rule ta_on_logE)
      fix es2
      assume s: "tw_log_success cd rd i x dl t1 (ta_log a1, w1) = (p, t2, (es2, w2))"
        and a2: "a2 = a1\<lparr>ta_log := es2\<rparr>"
      note ls' = tw_settle_spec [OF s [unfolded tw_log_success_def b] fresh e(1)]
      show ?thesis
        using si
      proof (rule ta_on_idempotencyE)
        fix j
        assume "ti_store_result cd rd key x dl t2 (ta_idempotency a2, w2) = (p3, t3, (j, w3))"
          and a3: "a3 = a2\<lparr>ta_idempotency := j\<rparr>"
        note si' = ti_store_result_spec [OF this(1)]
        have res: "(r, a') = (case p of Ok _ \<Rightarrow>
            (case p3 of Ok _ \<Rightarrow> (Ok x, a3\<lparr>ta_successful_calls := ta_successful_calls a3 + 1\<rparr>)
             | _ \<Rightarrow> (Cancelled, a3)) | _ \<Rightarrow> (Cancelled, a2))"
          using run ex ls si Ok ls' si' by (cases p; cases p3; simp add: ta_run_def)
        have a2s: "ta_log a2 = es @ [e\<lparr>wal_status := ''succeeded'', wal_result := x\<rparr>]"
          "ta_books a2 = (ta_log a2, ta_idempotency a, ta_total_calls a, ta_successful_calls a, ta_failed_calls a)"
          using a2 b ls' by (simp_all add: ta_books_def)
        have a3s: "ta_log a3 = ta_log a2" "ta_total_calls a3 = ta_total_calls a"
          "ta_successful_calls a3 = ta_successful_calls a" "ta_failed_calls a3 = ta_failed_calls a"
          "dget (ti_local_cache (ta_idempotency a3)) key = Some x"
          using a3 si' a2s(2) by (simp_all add: ta_books_def dget_dset)
        show ?thesis
          using res a2s a3s
          by (cases p; cases p3) (simp_all add: ta_settled_def ta_books_def)
      qed
    qed
  qed
  then show "\<exists>e'. ta_log a' = es @ [e'] \<and> ta_settled e r e'"
    "ta_total_calls a' = ta_total_calls a"
    "ta_successful_calls a' = ta_successful_calls a + (case r of Ok _ \<Rightarrow> 1 | _ \<Rightarrow> 0)"
    "ta_failed_calls a' = ta_failed_calls a + (case r of Raise _ \<Rightarrow> 1 | _ \<Rightarrow> 0)"
    "r = Ok x \<Longrightarrow> dget (ti_local_cache (ta_idempotency a')) key = Some x"
    by auto
qed

lemma ta_effective_key_total [simp]:
  "ta_effective_key cd (a\<lparr>ta_total_calls := n\<rparr>) ps ik = ta_effective_key cd a ps ik"
  by (simp add: ta_effective_key_def split: option.split list.split)

text \<open>How an execution goes: a cached result, a cancellation while it is logged, or a run.\<close>

definition ta_begun ::
  "(string, 'p) dict \<Rightarrow> string \<Rightarrow> ('p, 'r) ta \<Rightarrow> ('p, 'r) wal \<Rightarrow> ('p, 'r) ta" where
  "ta_begun ps i a e = a\<lparr>ta_total_calls := ta_total_calls a + 1, ta_log := ta_log a @ [e]\<rparr>"

lemma ta_execute_cases:
  assumes run: "ta_execute cd rd rnd retryable tool ps ik i dl t (a, w) = (r, t', (a', w'))"
  defines "key \<equiv> ta_effective_key cd a ps ik"
  obtains (cached) x where "r = Ok (Some x)" "a' = a\<lparr>ta_total_calls := ta_total_calls a + 1\<rparr>"
      "rd = None \<Longrightarrow> t' = t \<and> w' = w \<and> dget (ti_local_cache (ta_idempotency a)) key = Some (Some x)"
  | (cancelled) e where "r = Cancelled" "rd \<noteq> None"
      "a' = a\<lparr>ta_total_calls := ta_total_calls a + 1\<rparr> \<or> a' = ta_begun ps i a e" 
  | (ran) e t2 w2 where "ta_run cd rd rnd retryable tool ps key i dl t2 (ta_begun ps i a e, w2) = (r, t', (a', w'))"
      "wal_id e = i" "wal_parameters e = ps" "wal_tool_id e = ta_tool_id a"
      "rd = None \<Longrightarrow> t2 = t \<and> w2 = w"
proof -
  let ?a0 = "a\<lparr>ta_total_calls := ta_total_calls a + 1\<rparr>"
  have key: "ta_effective_key cd ?a0 ps ik = key" by (simp add: key_def)
  obtain q t1 a1 w1 where gr: "ta_on_idempotency (ti_get_result cd rd key) dl t (?a0, w) = (q, t1, (a1, w1))"
    by (rule prod_cases4)
  from gr obtain i1 where i1: "ti_get_result cd rd key dl t (ta_idempotency ?a0, w) = (q, t1, (i1, w1))"
    "a1 = ?a0\<lparr>ta_idempotency := i1\<rparr>" by (rule ta_on_idempotencyE)
  have q: "a1 = ?a0" "\<forall>e. q \<noteq> Raise e" "rd = None \<Longrightarrow> t1 = t \<and> w1 = w \<and> q \<noteq> Cancelled"
    "rd = None \<Longrightarrow> q = Ok (Some x) \<Longrightarrow> dget (ti_local_cache (ta_idempotency a)) key = Some (Some x)" for x
    using ti_get_result_spec [OF i1(1)] i1 by (auto simp: ti_get_result_def split: option.splits)
  obtain p t2 a2 w2 where lr:
    "ta_on_log (tw_log_request cd rd i (ta_tool_id a) ''execute'' ps) dl t1 (a1, w1) = (p, t2, (a2, w2))"
    by (rule prod_cases4)
  from lr obtain es where es: "tw_log_request cd rd i (ta_tool_id a) ''execute'' ps dl t1 (ta_log a1, w1) =
      (p, t2, (es, w2))" "a2 = a1\<lparr>ta_log := es\<rparr>" by (rule ta_on_logE)
  note spec = tw_log_request_spec [OF es(1)]
  have loc: "rd = None \<Longrightarrow> t2 = t1 \<and> w2 = w1 \<and> p \<noteq> Cancelled"
    using es(1) by (auto simp: tw_log_request_def tw_push_def Let_def)
  let ?e = "\<lparr>wal_id = i, wal_tool_id = ta_tool_id a, wal_operation = ''execute'', wal_parameters = ps,
      wal_timestamp = t1, wal_status = ''requested'', wal_result = None, wal_error = None\<rparr>"
  have a2: "a2 = ta_begun ps i a ?e" using es(2) q(1) spec by (simp add: ta_begun_def)
  show ?thesis
  proof (cases q)
    case (Ok v)
    show ?thesis
    proof (cases v)
      case (Some x)
      show ?thesis using run gr Ok Some q key by (intro cached) (auto simp: ta_execute_def)
    next
      case None
      show ?thesis
      proof (cases "p = Cancelled")
        case True
        show ?thesis
          using run gr lr Ok None q key True loc a2
          by (intro cancelled [where e = ?e]) (auto simp: ta_execute_def)
      next
        case False
        with spec have p: "p = Ok i" by blast
        show ?thesis
          using run gr lr Ok None q key p loc a2
          by (intro ran [where e = ?e and ?t2.0 = t2 and ?w2.0 = w2]) (auto simp: ta_execute_def)
      qed
    qed
  next
    case Cancelled
    then show ?thesis using run gr q key by (intro cancelled) (auto simp: ta_execute_def)
  qed (use q(2) in simp)
qed

section \<open>Properties\<close>


text \<open>
  C5. Idempotency: once an execution has returned a result other than \<open>None\<close> that is not a
  mere Redis hit, a later execution under the same key returns the same result at once, under
  any deadline, without invoking the tool or touching anything but the total counter,
  whatever its tool and parameters are.
\<close>

theorem ta_replay_is_idempotent:
  assumes "ta_execute cd rd rnd retryable tool ps ik i dl t (a, w) = (Ok (Some x), t', (a', w'))"
    and "i \<notin> wal_id ` set (ta_log a)" and "rd = None \<or> ta_log a' \<noteq> ta_log a"
    and "ta_effective_key cd a' ps2 ik2 = ta_effective_key cd a ps ik"
  shows "ta_execute cd rd rnd2 retryable2 tool2 ps2 ik2 i2 dl2 t2 (a', w2) =
    (Ok (Some x), t2, (a'\<lparr>ta_total_calls := ta_total_calls a' + 1\<rparr>, w2))"
proof -
  let ?key = "ta_effective_key cd a ps ik"
  have "dget (ti_local_cache (ta_idempotency a')) ?key = Some (Some x)"
    using assms(1)
  proof (cases rule: ta_execute_cases)
    case (cached y)
    then have "rd = None" using assms(3) by simp
    with cached show ?thesis by simp
  next
    case (ran e t2 w2)
    have log: "ta_log (ta_begun ps i a e) = ta_log a @ [e]" by (simp add: ta_begun_def)
    from ta_run_spec(5) [OF ran(1) assms(2) ran(2) log] show ?thesis by simp
  qed simp
  then show ?thesis
    using assms(4)
    by (simp add: ta_execute_def ta_on_idempotency_def ti_get_result_def)
qed

lemma tw_settle_local [simp]: "tw_settle cd None i g dl t (es, w) = (Ok (), t, (tw_update i g es, w))"
  by (simp add: tw_settle_def tw_push_def Let_def split: option.split)

lemma ta_run_local:
  assumes "ta_run cd None rnd retryable tool ps key i dl t (a, w) = (r, t', (a', w'))"
  obtains r1 a1 where "ta_execute_with_reliability rnd retryable tool ps dl t (a, w) = (r1, t', (a1, w'))"
    and "r = Cancelled \<longrightarrow> r1 = Cancelled"
proof -
  obtain q t1 a1 w1 where ex: "ta_execute_with_reliability rnd retryable tool ps dl t (a, w) = (q, t1, (a1, w1))"
    by (rule prod_cases4)
  have "t' = t1 \<and> w' = w1 \<and> (r = Cancelled \<longrightarrow> q = Cancelled)"
    using assms by (auto simp: ta_run_def ex ta_fail_def ta_on_log_def ta_on_idempotency_def
        tw_log_failure_def tw_log_success_def ti_store_result_def split: outcome.splits)
  with ex that show ?thesis by blast
qed

text \<open>
  C16. Without a Redis client an execution is bounded in time and in work: it ends within the
  total timeout, it is not cancelled unless its caller is, and it invokes the tool at most
  \<open>max_attempts\<close> times (\<open>count\<close> is any observation that goes up by one per invocation).
\<close>

theorem ta_execution_bounded:
  fixes count :: "'w \<Rightarrow> int"
  assumes "timely (tool ps)" and "0 \<le> tac_total_timeout_ms (ta_timeouts a)"
    and "\<And>dl t w r t' w'. tool ps dl t w = (r, t', w') \<Longrightarrow> count w' = count w + 1"
    and "ta_execute cd None rnd retryable tool ps ik i None t (a, w) = (r, t', (a', w'))"
  shows "r \<noteq> Cancelled \<and> t' \<le> t + of_int (tac_total_timeout_ms (ta_timeouts a)) / 1000 \<and>
    count w' \<le> count w + max 0 (tmc_max_attempts (tm_config (ta_retry_manager a)))"
  using assms(4)
proof (cases rule: ta_execute_cases)
  case (cached x)
  then show ?thesis using assms(2) by simp
next
  case (ran e t2 w2)
  let ?T = "of_int (tac_total_timeout_ms (ta_timeouts a)) / 1000 :: rat"
  from ran(1) obtain r1 a1 where
    ex: "ta_execute_with_reliability rnd retryable tool ps None t2 (ta_begun ps i a e, w2) = (r1, t', (a1, w'))"
    and c: "r = Cancelled \<longrightarrow> r1 = Cancelled" by (rule ta_run_local)
  then obtain b' c' m' where st: "ta_stack ?T rnd retryable (tool ps) None t
      (ta_bulkhead a, (ta_circuit_breaker a, (ta_retry_manager a, w))) = (r1, t', (b', (c', (m', w'))))"
    using ran(5) by (auto simp: ta_execute_with_reliability_def ta_begun_def split: prod.splits)
  have inner: "timely (tb_call (tc_call (tm_call_with_retry rnd (Some retryable) (tool ps))))"
    by (rule bulkhead_over_circuit.stacked.timely_call [OF assms(1)])
  have "t' \<le> t + ?T"
    by (rule wait_for_bound [OF inner _ st [unfolded ta_stack_def]]) (use assms(2) in simp)
  moreover have "r1 \<noteq> Cancelled" using timelyD(2) [OF ta_stack_timely [OF assms(1)] st] by simp
  moreover have "count w' \<le> count w + max 0 (tmc_max_attempts (tm_config (ta_retry_manager a)))"
    using st by (rule ta_stack_invocations [THEN conjunct2, rotated]) (rule assms(3))
  ultimately show ?thesis using c by simp
qed simp

lemma not_retryable_timeout: "\<not> ta_is_retryable_error timeout_error"
  by (simp add: ta_is_retryable_error_def ta_retryable_patterns_def timeout_error_def ascii_lower_def)

text \<open>
  A tool that raises \<open>asyncio.TimeoutError\<close> is not retried, whatever \<open>max_attempts\<close> says:
  the text of that exception is empty, and the default predicate looks for words in the
  text. And its exception is replaced: on an idle bulkhead with a closed breaker the caller
  sees the bulkhead rejection, and the bulkhead counts one.
\<close>

theorem ta_tool_timeout_masked:
  assumes "\<And>dl. tool ps dl t w = (Raise timeout_error, t1, w1)"
    and "0 < tb_semaphore (ta_bulkhead a)" and "0 < tbc_max_wait_time_ms (tb_config (ta_bulkhead a))"
    and "tc_state (ta_circuit_breaker a) = TcClosed" and "0 < tac_total_timeout_ms (ta_timeouts a)"
    and "0 < tmc_max_attempts (tm_config (ta_retry_manager a))"
  shows "\<exists>a'. ta_execute_with_reliability rnd ta_is_retryable_error tool ps None t (a, w) =
      (Raise tb_timeout, t1, (a', w1)) \<and>
    tb_rejected_calls (ta_bulkhead a') = tb_rejected_calls (ta_bulkhead a) + 1 \<and>
    tm_total_retries (ta_retry_manager a') = tm_total_retries (ta_retry_manager a)"
proof -
  let ?n = "tmc_max_attempts (tm_config (ta_retry_manager a))"
  have up: "[0..?n - 1] = 0 # [1..?n - 1]" using assms(6) by (simp add: upto_rec1)
  have retry: "tm_call_with_retry rnd (Some ta_is_retryable_error) (tool ps) dl t (ta_retry_manager a, w) =
      (Raise timeout_error, t1, (ta_retry_manager a, w1))" for dl
    by (simp add: tm_call_with_retry_def up assms(1) not_retryable_timeout)
  have circuit: "\<exists>c'. tc_call (tm_call_with_retry rnd (Some ta_is_retryable_error) (tool ps)) dl t
      (ta_circuit_breaker a, (ta_retry_manager a, w)) =
      (Raise timeout_error, t1, (c', (ta_retry_manager a, w1)))" for dl
    by (simp add: tc_call_def guarded_instant tc_enter_def tc_enter_half_open_def assms(4) retry)
  let ?T = "of_int (tac_total_timeout_ms (ta_timeouts a)) / 1000 :: rat"
  obtain c' where c: "tc_call (tm_call_with_retry rnd (Some ta_is_retryable_error) (tool ps)) (Some (t + ?T)) t
      (ta_circuit_breaker a, (ta_retry_manager a, w)) =
      (Raise timeout_error, t1, (c', (ta_retry_manager a, w1)))" using circuit by blast
  show ?thesis
    using assms(2,3,5)
    by (simp add: ta_execute_with_reliability_def ta_stack_def wait_for_def own_deadline_def tb_call_def
        guarded_def tb_admit_def acquire_within_def tb_arrive_def tb_take_def tb_settle_def tb_release_def
        tb_give_up_def c)
qed

section \<open>Witnesses\<close>

definition demo_codec :: "(nat, string) codec" where
  "demo_codec =
     \<lparr>cd_str = concat \<circ> map fst, cd_md5 = id,
      cd_dumps = (\<lambda>v. case v of None \<Rightarrow> Inr ''null'' | Some x \<Rightarrow> Inr x), cd_loads = Inr \<circ> Some,
      cd_wal_dumps = Inr \<circ> wal_id\<rparr>"

definition ta_demo :: "(nat, string) ta" where
  "ta_demo = (case ta_init ''mail'' None None None None of Inr a \<Rightarrow> a | Inl _ \<Rightarrow> undefined)"

text \<open>A tool that counts its invocations in the world and answers, or fails with a text.\<close>

definition demo_tool :: "string option \<Rightarrow> (string, nat) dict \<Rightarrow> (int, string option) coro" where
  "demo_tool err ps dl t n =
     (case err of None \<Rightarrow> (Ok (Some ''sent''), t, n + 1) | Some m \<Rightarrow> (Raise (exception m), t, n + 1))"

lemma timely_demo_tool: "timely (demo_tool err ps)"
  by (rule timelyI) (auto simp: demo_tool_def split: option.splits)

lemmas ta_demo_defs = ta_demo_def ta_init_def tb_init_def tb_default_config_def tc_init_def
  tc_default_config_def tm_init_def tm_default_config_def ta_default_timeouts_def ti_init_def

definition demo_run :: "string option \<Rightarrow> string option outcome \<times> rat \<times> (nat, string) ta \<times> int" where
  "demo_run err =
     ta_execute demo_codec None (\<lambda>_. 1/2) ta_is_retryable_error (demo_tool err) [(''to'', 1)]
       (Some ''k'') ''u1'' None 10 (ta_demo, 0)"

lemma demo_run_ok: "fst (demo_run None) = Ok (Some ''sent'')"
  by (simp add: demo_run_def ta_execute_def ta_on_idempotency_def ti_get_result_def ta_effective_key_def
      ta_demo_defs ta_on_log_def tw_log_request_def tw_push_def ta_run_def ta_execute_with_reliability_def
      ta_stack_def wait_for_def own_deadline_def tb_call_def guarded_def tb_admit_def acquire_within_def
      tb_arrive_def tb_take_def tc_call_def instant_def tc_enter_def tc_enter_half_open_def
      tm_call_with_retry_def demo_tool_def plain_def tc_leave_def tb_settle_def tb_release_def
      tw_log_success_def ti_store_result_def)


theorem ta_replay_is_idempotent_witness:
  "\<exists>t' a' n. demo_run None = (Ok (Some ''sent''), t', (a', n)) \<and>
     fst (ta_execute demo_codec None (\<lambda>_. 0) ta_is_retryable_error (demo_tool (Some ''down'')) []
       (Some ''k'') ''u2'' None 99 (a', n)) = Ok (Some ''sent'')"
proof -
  obtain r t' a' n where c: "demo_run None = (r, t', (a', n))" by (rule prod_cases4)
  with demo_run_ok have r: "demo_run None = (Ok (Some ''sent''), t', (a', n))" by simp
  show ?thesis
    using ta_replay_is_idempotent [OF r [unfolded demo_run_def], of "[]" "Some ''k''"] r
    by (simp add: ta_demo_defs ta_effective_key_def)
qed

theorem ta_execution_bounded_witness:
  "case demo_run (Some ''connection lost'') of (r, t', (a', n)) \<Rightarrow> t' \<le> 10 + 60 \<and> n \<le> 3"
proof -
  obtain r t' a' n where c: "demo_run (Some ''connection lost'') = (r, t', (a', n))" by (rule prod_cases4)
  show ?thesis
    using ta_execution_bounded [where count = id, OF timely_demo_tool _ _ c [unfolded demo_run_def]] c
    by (simp add: ta_demo_defs demo_tool_def split: option.splits)
qed

theorem ta_tool_timeout_masked_witness:
  "\<exists>a'. ta_execute_with_reliability (\<lambda>_. 0) ta_is_retryable_error
      (\<lambda>_ _ t n. (Raise timeout_error, t + 5, n + (1::int))) [] None 3 (ta_demo, 0) =
      (Raise tb_timeout, 8, (a', 1)) \<and> tb_rejected_calls (ta_bulkhead a') = 1"
proof -
  have "\<exists>a'. ta_execute_with_reliability (\<lambda>_. 0) ta_is_retryable_error
      (\<lambda>_ _ t n. (Raise timeout_error, t + 5, n + (1::int))) [] None 3 (ta_demo, 0) =
      (Raise tb_timeout, 8, (a', 1)) \<and>
      tb_rejected_calls (ta_bulkhead a') = tb_rejected_calls (ta_bulkhead ta_demo) + 1 \<and>
      tm_total_retries (ta_retry_manager a') = tm_total_retries (ta_retry_manager ta_demo)"
    by (rule ta_tool_timeout_masked) (simp_all add: ta_demo_defs)
  then show ?thesis by (auto simp: ta_demo_defs)
qed

theorem ti_key_order_independent_witness:
  "ti_generate_key demo_codec ''mail'' [(''a'', 1), (''b'', 2)] =
   ti_generate_key demo_codec ''mail'' [(''b'', 2), (''a'', 1)]"
  by (rule ti_key_order_independent) (auto simp: wf_dict_def)

end
