(* ===== verification/SagaManagerRel.thy ===== *)
theory SagaManagerRel
  imports Interfaces
begin

text \<open>
  \<^verbatim>\<open>libs/reliability/saga_manager.py\<close>. \<open>start_saga\<close> leaves the execution of a saga to a task
  of its own, and \<open>cancel_saga\<close> may run beside it, so the methods are modelled as the atomic
  segments between their awaits: a task is the place where it waits (\<open>sm_task\<close>) and a segment
  resumes it with the answer of the awaited call. The saga object is shared by the tasks.
\<close>

section \<open>State\<close>

datatype sm_step_status =
  SmPending | SmExecuting | SmCompleted | SmCompensating | SmCompensated | SmFailed

datatype sx_status = SxRunning | SxCompleted | SxCompensating | SxCompensated | SxFailed

fun sm_step_status_value :: "sm_step_status \<Rightarrow> string" where
  "sm_step_status_value SmPending = ''pending''"
| "sm_step_status_value SmExecuting = ''executing''"
| "sm_step_status_value SmCompleted = ''completed''"
| "sm_step_status_value SmCompensating = ''compensating''"
| "sm_step_status_value SmCompensated = ''compensated''"
| "sm_step_status_value SmFailed = ''failed''"

fun sx_status_value :: "sx_status \<Rightarrow> string" where
  "sx_status_value SxRunning = ''running''"
| "sx_status_value SxCompleted = ''completed''"
| "sx_status_value SxCompensating = ''compensating''"
| "sx_status_value SxCompensated = ''compensated''"
| "sx_status_value SxFailed = ''failed''"

text \<open>\<open>'h\<close>: tool adapters; \<open>'p\<close>: parameters; \<open>'c\<close>: compensation functions; \<open>'r\<close>: results.\<close>

record ('h, 'p, 'c, 'r) sm_step =
  sms_step_id :: string
  sms_tool_adapter :: 'h
  sms_parameters :: 'p
  sms_compensation :: "'c option"
  sms_status :: sm_step_status
  sms_result :: "'r option"
  sms_error :: "string option"
  sms_start_time :: "rat option"
  sms_end_time :: "rat option"
  sms_compensation_start_time :: "rat option"
  sms_compensation_end_time :: "rat option"

record ('h, 'p, 'c, 'r) sx =
  sx_saga_id :: string
  sx_tenant_id :: string
  sx_workflow_id :: string
  sx_status :: sx_status
  sx_steps :: "('h, 'p, 'c, 'r) sm_step list"
  sx_current_step_index :: nat
  sx_start_time :: rat
  sx_end_time :: "rat option"
  sx_error :: "string option"
  sx_compensation_reason :: "string option"

record sm_counters =
  smk_total :: int
  smk_completed :: int
  smk_compensated :: int
  smk_failed :: int

record ('h, 'p, 'c, 'r) sm =
  sm_active_sagas :: "(string, ('h, 'p, 'c, 'r) sx) dict"
  sm_counters :: sm_counters

definition sm_init :: "('h, 'p, 'c, 'r) sm" where
  "sm_init =
     \<lparr>sm_active_sagas = [],
      sm_counters = \<lparr>smk_total = 0, smk_completed = 0, smk_compensated = 0, smk_failed = 0\<rparr>\<rparr>"

section \<open>Step configurations\<close>

record ('h, 'p, 'c) sm_step_config =
  smf_tool_adapter :: 'h
  smf_parameters :: 'p
  smf_compensation :: "'c option"

text \<open>The builder; \<open>no_parameters\<close> is the empty dict it starts with.\<close>

definition create_saga_step :: "'p \<Rightarrow> 'h \<Rightarrow> ('h, 'p, 'c) sm_step_config" where
  "create_saga_step no_parameters tool_adapter =
     \<lparr>smf_tool_adapter = tool_adapter, smf_parameters = no_parameters, smf_compensation = None\<rparr>"

definition smf_with_parameters ::
  "'p \<Rightarrow> ('h, 'p, 'c) sm_step_config \<Rightarrow> ('h, 'p, 'c) sm_step_config" where
  "smf_with_parameters p b = b\<lparr>smf_parameters := p\<rparr>"

definition smf_with_compensation ::
  "'c \<Rightarrow> ('h, 'p, 'c) sm_step_config \<Rightarrow> ('h, 'p, 'c) sm_step_config" where
  "smf_with_compensation c b = b\<lparr>smf_compensation := Some c\<rparr>"

definition smf_build :: "('h, 'p, 'c) sm_step_config \<Rightarrow> ('h, 'p, 'c) sm_step_config" where
  "smf_build b =
     \<lparr>smf_tool_adapter = smf_tool_adapter b, smf_parameters = smf_parameters b,
      smf_compensation = smf_compensation b\<rparr>"

section \<open>Segments\<close>

text \<open>Where a task of the manager waits, and what for.\<close>

datatype sm_task =
    SmNotStarted
  | SmAtTool nat
  | SmAtCompensation nat "nat list"
  | SmDone
  | SmRaised exn

datatype ('h, 'p, 'c, 'r) sm_await =
    AwaitTool 'h 'p
  | AwaitCompensation 'c 'p "'r option"
  | AwaitAdapterCompensate 'h 'p "'r option"

definition sm_awaiting ::
  "('h, 'p, 'c, 'r) sx \<Rightarrow> sm_task \<Rightarrow> ('h, 'p, 'c, 'r) sm_await option" where
  "sm_awaiting x k =
     (case k of
        SmAtTool i \<Rightarrow>
          Some (AwaitTool (sms_tool_adapter (sx_steps x ! i)) (sms_parameters (sx_steps x ! i)))
      | SmAtCompensation i _ \<Rightarrow>
          (let s = sx_steps x ! i
           in case sms_compensation s of
                Some c \<Rightarrow> Some (AwaitCompensation c (sms_parameters s) (sms_result s))
              | None \<Rightarrow>
                  Some (AwaitAdapterCompensate (sms_tool_adapter s) (sms_parameters s) (sms_result s)))
      | _ \<Rightarrow> None)"

definition sm_start_saga ::
  "rat \<Rightarrow> string \<Rightarrow> string \<Rightarrow> string \<Rightarrow> ('h, 'p, 'c) sm_step_config list \<Rightarrow> ('h, 'p, 'c, 'r) sm \<Rightarrow>
   ('h, 'p, 'c, 'r) sx \<times> ('h, 'p, 'c, 'r) sm \<times> sm_task" where
  "sm_start_saga now saga_id tenant_id workflow_id configs m =
     (let steps = map (\<lambda>(i, c).
            \<lparr>sms_step_id = saga_id @ ''_step_'' @ nat_str i, sms_tool_adapter = smf_tool_adapter c,
             sms_parameters = smf_parameters c, sms_compensation = smf_compensation c,
             sms_status = SmPending, sms_result = None, sms_error = None, sms_start_time = None,
             sms_end_time = None, sms_compensation_start_time = None,
             sms_compensation_end_time = None\<rparr>) (enumerate 0 configs);
          x = \<lparr>sx_saga_id = saga_id, sx_tenant_id = tenant_id, sx_workflow_id = workflow_id,
               sx_status = SxRunning, sx_steps = steps, sx_current_step_index = 0,
               sx_start_time = now, sx_end_time = None, sx_error = None,
               sx_compensation_reason = None\<rparr>;
          c = sm_counters m
      in (x, m\<lparr>sm_active_sagas := dset saga_id x (sm_active_sagas m),
               sm_counters := c\<lparr>smk_total := smk_total c + 1\<rparr>\<rparr>, SmNotStarted))"

text \<open>The compensation loop from an index of its countdown on, up to its next await or its end.\<close>

fun sm_compensate_from ::
  "rat \<Rightarrow> nat list \<Rightarrow> ('h, 'p, 'c, 'r) sx \<times> sm_counters \<Rightarrow>
   sm_task \<times> ('h, 'p, 'c, 'r) sx \<times> sm_counters" where
  "sm_compensate_from now [] (x, k) =
     (SmDone, x\<lparr>sx_status := SxCompensated, sx_end_time := Some now\<rparr>,
      k\<lparr>smk_compensated := smk_compensated k + 1\<rparr>)"
| "sm_compensate_from now (i # is) (x, k) =
     (if length (sx_steps x) \<le> i
      then (SmRaised (Exn [''IndexError'', ''LookupError'', ''Exception''] ''list index out of range''),
            x, k)
      else
        (let s = sx_steps x ! i
         in if sms_status s = SmCompleted \<and> sms_compensation s \<noteq> None
            then (SmAtCompensation i is,
                  x\<lparr>sx_steps := (sx_steps x)[i := s\<lparr>sms_status := SmCompensating,
                     sms_compensation_start_time := Some now\<rparr>]\<rparr>, k)
            else sm_compensate_from now is (x, k)))"

definition sm_compensate_saga ::
  "rat \<Rightarrow> string \<Rightarrow> ('h, 'p, 'c, 'r) sx \<times> sm_counters \<Rightarrow>
   sm_task \<times> ('h, 'p, 'c, 'r) sx \<times> sm_counters" where
  "sm_compensate_saga now reason = (\<lambda>(x, k).
     (let x1 = x\<lparr>sx_status := SxCompensating, sx_compensation_reason := Some reason\<rparr>
      in sm_compensate_from now (rev [0..<Suc (sx_current_step_index x1)]) (x1, k)))"

definition sm_complete ::
  "rat \<Rightarrow> ('h, 'p, 'c, 'r) sx \<times> sm_counters \<Rightarrow> sm_task \<times> ('h, 'p, 'c, 'r) sx \<times> sm_counters" where
  "sm_complete now = (\<lambda>(x, k).
     (SmDone, x\<lparr>sx_status := SxCompleted, sx_end_time := Some now\<rparr>,
      k\<lparr>smk_completed := smk_completed k + 1\<rparr>))"

text \<open>The head of the loop over the steps: begin step \<open>i\<close>, or finish after the last one.\<close>

definition sm_begin_step ::
  "rat \<Rightarrow> nat \<Rightarrow> ('h, 'p, 'c, 'r) sx \<times> sm_counters \<Rightarrow>
   sm_task \<times> ('h, 'p, 'c, 'r) sx \<times> sm_counters" where
  "sm_begin_step now i = (\<lambda>(x, k).
     (if i < length (sx_steps x) then
        (SmAtTool i,
         x\<lparr>sx_current_step_index := i,
           sx_steps := (sx_steps x)[i := (sx_steps x ! i)\<lparr>sms_status := SmExecuting,
              sms_start_time := Some now\<rparr>]\<rparr>, k)
      else sm_complete now (x, k)))"

text \<open>
  The answer of the tool of step \<open>i\<close>. On success the status is \<open>completed\<close>, so the branch of
  \<open>_execute_saga\<close> for a failed step is never taken: a failure raises out of \<open>_execute_step\<close>
  into the \<open>except\<close> clause.
\<close>

definition sm_resume_tool ::
  "rat \<Rightarrow> nat \<Rightarrow> exn + 'r option \<Rightarrow> ('h, 'p, 'c, 'r) sx \<times> sm_counters \<Rightarrow>
   sm_task \<times> ('h, 'p, 'c, 'r) sx \<times> sm_counters" where
  "sm_resume_tool now i answer = (\<lambda>(x, k).
     (case answer of
        Inr v \<Rightarrow>
          sm_begin_step now (Suc i)
            (x\<lparr>sx_steps := (sx_steps x)[i := (sx_steps x ! i)\<lparr>sms_status := SmCompleted,
               sms_result := v, sms_end_time := Some now\<rparr>]\<rparr>, k)
      | Inl e \<Rightarrow>
          sm_compensate_saga now (message e)
            (x\<lparr>sx_steps := (sx_steps x)[i := (sx_steps x ! i)\<lparr>sms_status := SmFailed,
                 sms_error := Some (message e), sms_end_time := Some now\<rparr>],
               sx_status := SxFailed, sx_error := Some (message e), sx_end_time := Some now\<rparr>,
             k\<lparr>smk_failed := smk_failed k + 1\<rparr>)))"

text \<open>The answer of a compensation: its truth value, or an exception.\<close>

definition sm_resume_compensation ::
  "rat \<Rightarrow> nat \<Rightarrow> nat list \<Rightarrow> exn + bool \<Rightarrow> ('h, 'p, 'c, 'r) sx \<times> sm_counters \<Rightarrow>
   sm_task \<times> ('h, 'p, 'c, 'r) sx \<times> sm_counters" where
  "sm_resume_compensation now i is answer = (\<lambda>(x, k).
     (let status = (case answer of Inr True \<Rightarrow> SmCompensated | _ \<Rightarrow> SmFailed);
          x1 = x\<lparr>sx_steps := (sx_steps x)[i := (sx_steps x ! i)\<lparr>sms_status := status,
                 sms_compensation_end_time := Some now\<rparr>]\<rparr>
      in sm_compensate_from now is (x1, k)))"

definition sm_cancel_saga ::
  "rat \<Rightarrow> ('h, 'p, 'c, 'r) sx \<times> sm_counters \<Rightarrow>
   bool \<times> sm_task \<times> ('h, 'p, 'c, 'r) sx \<times> sm_counters" where
  "sm_cancel_saga now = (\<lambda>(x, k).
     (if sx_status x \<noteq> SxRunning then (False, SmDone, x, k)
      else (True, sm_compensate_saga now ''Manually cancelled'' (x, k))))"

section \<open>Reports and housekeeping\<close>

record sm_step_report =
  smr_step_id :: string
  smr_status :: string
  smr_start_time :: "rat option"
  smr_end_time :: "rat option"
  smr_execution_time_seconds :: "rat option"
  smr_compensation_start_time :: "rat option"
  smr_compensation_end_time :: "rat option"
  smr_compensation_time_seconds :: "rat option"
  smr_error :: "string option"

definition elapsed :: "rat option \<Rightarrow> rat option \<Rightarrow> rat option" where
  "elapsed a b = (case (a, b) of (Some s, Some e) \<Rightarrow> Some (e - s) | _ \<Rightarrow> None)"

definition sm_step_report :: "('h, 'p, 'c, 'r) sm_step \<Rightarrow> sm_step_report" where
  "sm_step_report s =
     \<lparr>smr_step_id = sms_step_id s, smr_status = sm_step_status_value (sms_status s),
      smr_start_time = sms_start_time s, smr_end_time = sms_end_time s,
      smr_execution_time_seconds = elapsed (sms_start_time s) (sms_end_time s),
      smr_compensation_start_time = sms_compensation_start_time s,
      smr_compensation_end_time = sms_compensation_end_time s,
      smr_compensation_time_seconds =
        elapsed (sms_compensation_start_time s) (sms_compensation_end_time s),
      smr_error = sms_error s\<rparr>"

record sm_report =
  smq_saga_id :: string
  smq_tenant_id :: string
  smq_workflow_id :: string
  smq_status :: string
  smq_current_step_index :: nat
  smq_start_time :: rat
  smq_end_time :: "rat option"
  smq_total_duration_seconds :: "rat option"
  smq_error :: "string option"
  smq_compensation_reason :: "string option"
  smq_steps :: "sm_step_report list"

definition sm_get_saga_status :: "string \<Rightarrow> ('h, 'p, 'c, 'r) sm \<Rightarrow> sm_report option" where
  "sm_get_saga_status saga_id m =
     (case dget (sm_active_sagas m) saga_id of
        None \<Rightarrow> None
      | Some x \<Rightarrow>
          Some \<lparr>smq_saga_id = saga_id, smq_tenant_id = sx_tenant_id x,
                smq_workflow_id = sx_workflow_id x, smq_status = sx_status_value (sx_status x),
                smq_current_step_index = sx_current_step_index x, smq_start_time = sx_start_time x,
                smq_end_time = sx_end_time x,
                smq_total_duration_seconds = elapsed (Some (sx_start_time x)) (sx_end_time x),
                smq_error = sx_error x, smq_compensation_reason = sx_compensation_reason x,
                smq_steps = map sm_step_report (sx_steps x)\<rparr>)"

record sm_statistics =
  smt_counters :: sm_counters
  smt_active_sagas :: int
  smt_compensating_sagas :: int
  smt_success_rate :: rat
  smt_compensation_rate :: rat

definition sm_get_statistics :: "('h, 'p, 'c, 'r) sm \<Rightarrow> sm_statistics" where
  "sm_get_statistics m =
     (let k = sm_counters m;
          sagas = map snd (sm_active_sagas m)
      in \<lparr>smt_counters = k,
          smt_active_sagas = int (length (filter (\<lambda>x. sx_status x = SxRunning) sagas)),
          smt_compensating_sagas = int (length (filter (\<lambda>x. sx_status x = SxCompensating) sagas)),
          smt_success_rate = of_int (smk_completed k) / of_int (max 1 (smk_total k)),
          smt_compensation_rate = of_int (smk_compensated k) / of_int (max 1 (smk_total k))\<rparr>)"

definition sm_stale :: "rat \<Rightarrow> ('h, 'p, 'c, 'r) sx \<Rightarrow> bool" where
  "sm_stale cutoff x \<longleftrightarrow>
     (case sx_end_time x of None \<Rightarrow> False | Some e \<Rightarrow> e < cutoff) \<and>
     sx_status x \<in> {SxCompleted, SxCompensated, SxFailed}"

definition sm_cleanup_completed_sagas :: "rat \<Rightarrow> int \<Rightarrow> ('h, 'p, 'c, 'r) sm \<Rightarrow> ('h, 'p, 'c, 'r) sm" where
  "sm_cleanup_completed_sagas now max_age_hours m =
     (let cutoff = now - of_int (max_age_hours * 3600);
          sagas_to_remove = map fst (filter (\<lambda>(_, x). sm_stale cutoff x) (sm_active_sagas m))
      in m\<lparr>sm_active_sagas := fold ddel sagas_to_remove (sm_active_sagas m)\<rparr>)"

section \<open>Running a task\<close>

text \<open>
  Answers to the awaited calls, each with the time of its arrival. \<open>sm_drive\<close> resumes a task
  with one answer after the other and lists the places where it waited.
\<close>

datatype 'r sm_answer = ToolAnswer "exn + 'r option" | CompensationAnswer "exn + bool"

fun sm_resume ::
  "rat \<Rightarrow> 'r sm_answer \<Rightarrow> sm_task \<times> ('h, 'p, 'c, 'r) sx \<times> sm_counters \<Rightarrow>
   sm_task \<times> ('h, 'p, 'c, 'r) sx \<times> sm_counters" where
  "sm_resume now (ToolAnswer a) (SmAtTool i, v) = sm_resume_tool now i a v"
| "sm_resume now (CompensationAnswer b) (SmAtCompensation i is, v) = sm_resume_compensation now i is b v"
| "sm_resume now _ s = s"

fun sm_drive ::
  "(rat \<times> 'r sm_answer) list \<Rightarrow> sm_task \<times> ('h, 'p, 'c, 'r) sx \<times> sm_counters \<Rightarrow>
   sm_task list \<times> sm_task \<times> ('h, 'p, 'c, 'r) sx \<times> sm_counters" where
  "sm_drive [] s = ([], s)"
| "sm_drive ((t, a) # xs) s = (case sm_drive xs (sm_resume t a s) of (tr, s') \<Rightarrow> (fst s # tr, s'))"

datatype sm_call = CallTool nat | CallCompensation nat

fun sm_call_of :: "sm_task \<Rightarrow> sm_call list" where
  "sm_call_of (SmAtTool i) = [CallTool i]"
| "sm_call_of (SmAtCompensation i _) = [CallCompensation i]"
| "sm_call_of _ = []"

definition sm_calls :: "sm_task list \<Rightarrow> sm_call list" where
  "sm_calls tr = concat (map sm_call_of tr)"

lemma sm_calls_simps [simp]: "sm_calls [] = []" "sm_calls (k # tr) = sm_call_of k @ sm_calls tr"
  "sm_calls (tr1 @ tr2) = sm_calls tr1 @ sm_calls tr2"
  by (simp_all add: sm_calls_def)

lemma sm_drive_append:
  "sm_drive (xs @ ys) s =
     (case sm_drive xs s of (tr1, s1) \<Rightarrow> (case sm_drive ys s1 of (tr2, s2) \<Rightarrow> (tr1 @ tr2, s2)))"
  by (induction xs s rule: sm_drive.induct) (auto split: prod.splits)

definition sm_undoable :: "('h, 'p, 'c, 'r) sx \<Rightarrow> nat \<Rightarrow> bool" where
  "sm_undoable x i \<longleftrightarrow> sms_status (sx_steps x ! i) = SmCompleted \<and> sms_compensation (sx_steps x ! i) \<noteq> None"

definition sm_undone :: "exn + bool \<Rightarrow> sm_step_status" where
  "sm_undone b = (case b of Inr True \<Rightarrow> SmCompensated | _ \<Rightarrow> SmFailed)"

text \<open>The compensation loop calls each undoable step once, in the order of its countdown.\<close>

lemma sm_compensate_drive:
  assumes "distinct is" and "\<forall>i \<in> set is. i < length (sx_steps x)"
    and "length bs = length (filter (sm_undoable x) is)"
    and "sm_drive (map (\<lambda>(t, b). (t, CompensationAnswer b)) bs) (sm_compensate_from now is (x, k)) =
      (tr, (q, (x', k')))"
  shows "q = SmDone \<and> sx_status x' = SxCompensated \<and> k' = k\<lparr>smk_compensated := smk_compensated k + 1\<rparr> \<and>
    sm_calls tr = map CallCompensation (filter (sm_undoable x) is) \<and>
    map (\<lambda>i. sms_status (sx_steps x' ! i)) (filter (sm_undoable x) is) = map (sm_undone \<circ> snd) bs \<and>
    length (sx_steps x') = length (sx_steps x) \<and> sx_error x' = sx_error x \<and>
    (\<forall>j. \<not> (sm_undoable x j \<and> j \<in> set is) \<longrightarrow> sx_steps x' ! j = sx_steps x ! j)"
  using assms
proof (induction "is" arbitrary: x bs now tr)
  case Nil
  then show ?case by auto
next
  case (Cons i "is")
  show ?case
  proof (cases "sm_undoable x i")
    case False
    then have "sm_compensate_from now (i # is) (x, k) = sm_compensate_from now is (x, k)"
      using Cons.prems(2) by (auto simp: sm_undoable_def Let_def)
    with Cons.IH [of x bs now tr] Cons.prems False show ?thesis by auto
  next
    case True
    with Cons.prems(3) obtain t b bs' where bs: "bs = (t, b) # bs'"
      and len: "length bs' = length (filter (sm_undoable x) is)" by (cases bs) auto
    let ?s = "sx_steps x ! i"
    let ?x1 = "x\<lparr>sx_steps := (sx_steps x)[i := ?s\<lparr>sms_status := SmCompensating,
       sms_compensation_start_time := Some now\<rparr>]\<rparr>"
    let ?x2 = "?x1\<lparr>sx_steps := (sx_steps ?x1)[i := (sx_steps ?x1 ! i)\<lparr>sms_status := sm_undone b,
       sms_compensation_end_time := Some t\<rparr>]\<rparr>"
    have i: "i < length (sx_steps x)" "i \<notin> set is" using Cons.prems(1,2) by auto
    have from1: "sm_compensate_from now (i # is) (x, k) = (SmAtCompensation i is, (?x1, k))"
      using True i by (simp add: sm_undoable_def Let_def)
    have res: "sm_resume t (CompensationAnswer b) (SmAtCompensation i is, (?x1, k)) =
        sm_compensate_from t is (?x2, k)"
      by (simp add: sm_resume_compensation_def sm_undone_def Let_def)
    obtain tr' s' where d: "sm_drive (map (\<lambda>(t, b). (t, CompensationAnswer b)) bs')
        (sm_compensate_from t is (?x2, k)) = (tr', s')" by (rule prod.exhaust)
    have eq: "tr = SmAtCompensation i is # tr'" "s' = (q, (x', k'))"
      using Cons.prems(4) unfolding bs from1 list.map prod.case sm_drive.simps res d
      by simp_all
    have same: "sm_undoable ?x2 j = sm_undoable x j" if "j \<noteq> i" for j
      using that by (simp add: sm_undoable_def)
    then have fil: "filter (sm_undoable ?x2) is = filter (sm_undoable x) is"
      by (intro filter_cong refl) (use i(2) in metis)
    obtain x2 where x2: "x2 = ?x2" by blast
    have st2: "sx_steps x2 ! i = ?s\<lparr>sms_status := sm_undone b, sms_compensation_start_time := Some now,
        sms_compensation_end_time := Some t\<rparr>"
      "\<And>j. j \<noteq> i \<Longrightarrow> sx_steps x2 ! j = sx_steps x ! j" "length (sx_steps x2) = length (sx_steps x)"
      "sx_error x2 = sx_error x"
      using i(1) by (simp_all add: x2)
    have IH: "q = SmDone \<and> sx_status x' = SxCompensated \<and> k' = k\<lparr>smk_compensated := smk_compensated k + 1\<rparr> \<and>
      sm_calls tr' = map CallCompensation (filter (sm_undoable x) is) \<and>
      map (\<lambda>i. sms_status (sx_steps x' ! i)) (filter (sm_undoable x) is) = map (sm_undone \<circ> snd) bs' \<and>
      length (sx_steps x') = length (sx_steps x2) \<and> sx_error x' = sx_error x2 \<and>
      (\<forall>j. \<not> (sm_undoable x2 j \<and> j \<in> set is) \<longrightarrow> sx_steps x' ! j = sx_steps x2 ! j)"
      using Cons.IH [of x2 bs' t tr'] Cons.prems(1,2) len d eq(2) fil st2(3) by (simp add: x2)
    have sti: "sx_steps x' ! i = sx_steps x2 ! i" using IH i(2) by blast
    have rest: "sx_steps x' ! j = sx_steps x ! j" if "\<not> (sm_undoable x j \<and> j \<in> set (i # is))" for j
    proof -
      have "j \<noteq> i" using that True by auto
      moreover have "\<not> (sm_undoable x2 j \<and> j \<in> set is)"
        using that same [OF \<open>j \<noteq> i\<close>] by (simp add: x2)
      ultimately show ?thesis using IH st2(2) by metis
    qed
    show ?thesis
      using IH True st2 sti eq(1) bs rest by simp
  qed
qed

text \<open>While its tools succeed, the task goes from step to step.\<close>

lemma sm_tools_drive:
  assumes "i + length vs \<le> length (sx_steps x)"
    and "sm_drive (map (\<lambda>(t, v). (t, ToolAnswer (Inr v))) vs) (sm_begin_step now i (x, k)) = (tr, s')"
  shows "\<exists>t x'. s' = sm_begin_step t (i + length vs) (x', k) \<and>
    sm_calls tr = map CallTool [i..<i + length vs] \<and>
    length (sx_steps x') = length (sx_steps x) \<and> sx_status x' = sx_status x \<and> sx_error x' = sx_error x \<and>
    (\<forall>j. sms_compensation (sx_steps x' ! j) = sms_compensation (sx_steps x ! j)) \<and>
    (\<forall>j. j < i \<or> i + length vs \<le> j \<longrightarrow> sx_steps x' ! j = sx_steps x ! j) \<and>
    (\<forall>j. i \<le> j \<and> j < i + length vs \<longrightarrow> sms_status (sx_steps x' ! j) = SmCompleted)"
  using assms
proof (induction vs arbitrary: i x now tr)
  case Nil
  then show ?case by (intro exI [of _ now] exI [of _ x]) auto
next
  case (Cons tv vs)
  obtain t v where tv: "tv = (t, v)" by (cases tv)
  let ?x1 = "x\<lparr>sx_current_step_index := i, sx_steps := (sx_steps x)[i := (sx_steps x ! i)
      \<lparr>sms_status := SmExecuting, sms_start_time := Some now\<rparr>]\<rparr>"
  let ?x2 = "?x1\<lparr>sx_steps := (sx_steps ?x1)[i := (sx_steps ?x1 ! i)
      \<lparr>sms_status := SmCompleted, sms_result := v, sms_end_time := Some t\<rparr>]\<rparr>"
  have i: "i < length (sx_steps x)" using Cons.prems(1) by simp
  have bgn: "sm_begin_step now i (x, k) = (SmAtTool i, (?x1, k))"
    using i by (simp add: sm_begin_step_def)
  have res: "sm_resume t (ToolAnswer (Inr v)) (SmAtTool i, (?x1, k)) = sm_begin_step t (Suc i) (?x2, k)"
    by (simp add: sm_resume_tool_def)
  obtain tr' s1 where d: "sm_drive (map (\<lambda>(t, v). (t, ToolAnswer (Inr v))) vs)
      (sm_begin_step t (Suc i) (?x2, k)) = (tr', s1)" by (rule prod.exhaust)
  have eq: "tr = SmAtTool i # tr'" "s' = s1"
    using Cons.prems(2) unfolding tv bgn list.map prod.case sm_drive.simps res d by simp_all
  obtain x2 where x2: "x2 = ?x2" by blast
  have st: "sx_steps x2 ! i = (sx_steps x ! i)\<lparr>sms_status := SmCompleted, sms_start_time := Some now,
      sms_result := v, sms_end_time := Some t\<rparr>" "\<And>j. j \<noteq> i \<Longrightarrow> sx_steps x2 ! j = sx_steps x ! j"
    "length (sx_steps x2) = length (sx_steps x)" "sx_status x2 = sx_status x" "sx_error x2 = sx_error x"
    using i by (simp_all add: x2)
  have c2: "sms_compensation (sx_steps x2 ! j) = sms_compensation (sx_steps x ! j)" for j
    using st(1,2) by (cases "j = i") auto
  from Cons.IH [OF _ d [folded x2 eq(2)]] Cons.prems(1) st(3) obtain u x' where
    IH: "s' = sm_begin_step u (Suc i + length vs) (x', k)" "sm_calls tr' = map CallTool [Suc i..<Suc i + length vs]"
      "length (sx_steps x') = length (sx_steps x)" "sx_status x' = sx_status x" "sx_error x' = sx_error x"
      "\<forall>j. sms_compensation (sx_steps x' ! j) = sms_compensation (sx_steps x2 ! j)"
      "\<forall>j. j < Suc i \<or> Suc i + length vs \<le> j \<longrightarrow> sx_steps x' ! j = sx_steps x2 ! j"
      "\<forall>j. Suc i \<le> j \<and> j < Suc i + length vs \<longrightarrow> sms_status (sx_steps x' ! j) = SmCompleted"
    using st(4,5) by auto
  have "sm_calls tr = map CallTool [i..<i + length (tv # vs)]"
    using eq(1) IH(2) upt_conv_Cons [of i "i + length (tv # vs)"] by simp
  moreover have "sx_steps x' ! j = sx_steps x ! j" if "j < i \<or> i + length (tv # vs) \<le> j" for j
    using that IH(7) st(2) [of j] by auto
  moreover have "sms_status (sx_steps x' ! j) = SmCompleted" if "i \<le> j" "j < i + length (tv # vs)" for j
    using that IH(7,8) st(1) by (cases "j = i") auto
  ultimately show ?case
    using IH(1,3-6) c2 by (intro exI [of _ u] exI [of _ x']) auto
qed

section \<open>Properties\<close>

lemma sm_start_saga_fields:
  assumes "sm_start_saga now sid ten wid configs m = (x, m1, q)"
  shows "length (sx_steps x) = length configs" "sx_status x = SxRunning" "sx_error x = None"
    "i < length configs \<Longrightarrow> sms_compensation (sx_steps x ! i) = smf_compensation (configs ! i)"
    "smk_total (sm_counters m1) = smk_total (sm_counters m) + 1"
    "dget (sm_active_sagas m1) sid = Some x"
  using assms by (auto simp: sm_start_saga_def Let_def nth_enumerate_eq dget_dset)

text \<open>
  C7. A saga whose step \<open>k\<close> raises: the tools of the steps up to \<open>k\<close> have been called in order,
  none after it; then every earlier step that has a compensation is compensated, exactly once
  and in reverse order, and ends \<open>compensated\<close> or \<open>failed\<close> as its compensation answered. Whatever
  the answers are, the saga ends \<open>compensated\<close> and is counted twice, as failed and as
  compensated.
\<close>

theorem sm_failure_compensates:
  assumes "sm_start_saga now sid ten wid configs m = (x, m1, q0)"
    and "k < length configs" and "length vs = k"
    and "length bs = length (filter (\<lambda>i. smf_compensation (configs ! i) \<noteq> None) [0..<k])"
    and "sm_drive (map (\<lambda>(t, v). (t, ToolAnswer (Inr v))) vs @ (t, ToolAnswer (Inl e)) #
           map (\<lambda>(t, b). (t, CompensationAnswer b)) bs) (sm_begin_step t0 0 (x, c)) = (tr, (q, (x', c')))"
  defines "undo \<equiv> rev (filter (\<lambda>i. smf_compensation (configs ! i) \<noteq> None) [0..<k])"
  shows "q = SmDone \<and> sx_status x' = SxCompensated \<and> sx_error x' = Some (message e) \<and>
    sm_calls tr = map CallTool [0..<Suc k] @ map CallCompensation undo \<and>
    map (\<lambda>i. sms_status (sx_steps x' ! i)) undo = map (sm_undone \<circ> snd) bs \<and>
    smk_failed c' = smk_failed c + 1 \<and> smk_compensated c' = smk_compensated c + 1 \<and>
    smk_completed c' = smk_completed c"
proof -
  note fields = sm_start_saga_fields [OF assms(1)]
  obtain tr1 s1 where d1: "sm_drive (map (\<lambda>(t, v). (t, ToolAnswer (Inr v))) vs) (sm_begin_step t0 0 (x, c)) = (tr1, s1)"
    by (rule prod.exhaust)
  from sm_tools_drive [OF _ d1] assms(2,3) fields(1) obtain u x1 where
    s1: "s1 = sm_begin_step u k (x1, c)" and tr1: "sm_calls tr1 = map CallTool [0..<k]"
    and len: "length (sx_steps x1) = length configs"
    and comp: "\<forall>j. sms_compensation (sx_steps x1 ! j) = sms_compensation (sx_steps x ! j)"
    and compl: "\<forall>j < k. sms_status (sx_steps x1 ! j) = SmCompleted"
    by auto
  let ?x2 = "x1\<lparr>sx_current_step_index := k, sx_steps := (sx_steps x1)[k := (sx_steps x1 ! k)
      \<lparr>sms_status := SmExecuting, sms_start_time := Some u\<rparr>]\<rparr>"
  let ?x3 = "?x2\<lparr>sx_steps := (sx_steps ?x2)[k := (sx_steps ?x2 ! k)
      \<lparr>sms_status := SmFailed, sms_error := Some (message e), sms_end_time := Some t\<rparr>],
      sx_error := Some (message e), sx_end_time := Some t, sx_status := SxCompensating,
      sx_compensation_reason := Some (message e)\<rparr>"
  obtain x3 where x3: "x3 = ?x3" by blast
  have s1': "s1 = (SmAtTool k, (?x2, c))" using s1 assms(2) len by (simp add: sm_begin_step_def)
  have res: "sm_resume t (ToolAnswer (Inl e)) s1 =
      sm_compensate_from t (rev [0..<Suc k]) (x3, c\<lparr>smk_failed := smk_failed c + 1\<rparr>)"
    by (simp add: s1' x3 sm_resume_tool_def sm_compensate_saga_def Let_def)
  obtain tr2 s2 where d2: "sm_drive (map (\<lambda>(t, b). (t, CompensationAnswer b)) bs)
      (sm_resume t (ToolAnswer (Inl e)) s1) = (tr2, s2)" by (rule prod.exhaust)
  have eq: "tr = tr1 @ SmAtTool k # tr2" "s2 = (q, (x', c'))"
    using assms(5) d1 d2 s1' by (simp_all add: sm_drive_append del: sm_resume.simps)
  have und: "sm_undoable x3 i \<longleftrightarrow> i < k \<and> smf_compensation (configs ! i) \<noteq> None" if "i < Suc k" for i
    using that compl comp fields(4) assms(2) len
    by (cases "i = k") (auto simp: x3 sm_undoable_def)
  have fil: "filter (sm_undoable x3) (rev [0..<Suc k]) = undo"
  proof -
    have "filter (sm_undoable x3) [0..<Suc k] =
        filter (\<lambda>i. i < k \<and> smf_compensation (configs ! i) \<noteq> None) [0..<Suc k]"
      by (rule filter_cong) (use und in auto)
    also have "\<dots> = filter (\<lambda>i. smf_compensation (configs ! i) \<noteq> None) [0..<k]"
      by (simp add: filter_filter [symmetric] filter_less_upt cong: filter_cong)
    finally show ?thesis by (simp only: undo_def rev_filter [symmetric])
  qed
  have "q = SmDone \<and> sx_status x' = SxCompensated \<and>
      c' = c\<lparr>smk_failed := smk_failed c + 1, smk_compensated := smk_compensated c + 1\<rparr> \<and>
      sm_calls tr2 = map CallCompensation undo \<and>
      map (\<lambda>i. sms_status (sx_steps x' ! i)) undo = map (sm_undone \<circ> snd) bs \<and> sx_error x' = sx_error x3"
    using sm_compensate_drive [of "rev [0..<Suc k]" x3 bs t "c\<lparr>smk_failed := smk_failed c + 1\<rparr>" tr2 q x' c',
        unfolded fil] d2 res eq(2) assms(2,4) len
    by (auto simp: x3 undo_def)
  then show ?thesis using eq(1) tr1 by (simp add: x3)
qed

lemma sm_success_completes:
  assumes "i + length vs = length (sx_steps x)"
    and "sm_drive (map (\<lambda>(t, v). (t, ToolAnswer (Inr v))) vs) (sm_begin_step now i (x, c)) = (tr, (q, (x', c')))"
  shows "q = SmDone \<and> sx_status x' = SxCompleted \<and> sm_calls tr = map CallTool [i..<length (sx_steps x)] \<and>
    c' = c\<lparr>smk_completed := smk_completed c + 1\<rparr>"
proof -
  have le: "i + length vs \<le> length (sx_steps x)" using assms(1) by simp
  from sm_tools_drive [OF le assms(2)] obtain t x1 where
    "(q, (x', c')) = sm_begin_step t (i + length vs) (x1, c)" "length (sx_steps x1) = length (sx_steps x)"
    "sm_calls tr = map CallTool [i..<i + length vs]" by auto
  then show ?thesis using assms(1) by (simp add: sm_begin_step_def sm_complete_def)
qed

text \<open>
  A saga in which no tool raises completes: its tools are called once each, in order, no
  compensation is called, and exactly the completed counter goes up.
\<close>

theorem sm_success_runs_every_step:
  assumes "sm_start_saga now sid ten wid configs m = (x, m1, q0)" and "length vs = length configs"
    and "sm_drive (map (\<lambda>(t, v). (t, ToolAnswer (Inr v))) vs) (sm_begin_step t0 0 (x, sm_counters m1)) =
      (tr, (q, (x', c')))"
  shows "q = SmDone \<and> sx_status x' = SxCompleted \<and> sm_calls tr = map CallTool [0..<length configs] \<and>
    c' = (sm_counters m)\<lparr>smk_total := smk_total (sm_counters m) + 1,
           smk_completed := smk_completed (sm_counters m) + 1\<rparr>"
proof -
  have m1: "sm_counters m1 = (sm_counters m)\<lparr>smk_total := smk_total (sm_counters m) + 1\<rparr>"
    using assms(1) by (auto simp: sm_start_saga_def Let_def)
  show ?thesis
    using sm_success_completes [OF _ assms(3)] sm_start_saga_fields(1) [OF assms(1)] assms(2) m1 by simp
qed

text \<open>
  A cancelled saga goes on. When \<open>cancel_saga\<close> is called while the saga waits for the tool of
  step \<open>i\<close>, it compensates the completed steps and reports success, but the task of the saga
  does not notice: when the tool answers it goes on, calls the tools of all later steps, ends
  \<open>completed\<close> and is counted as completed beside compensated, with the effects of step \<open>i\<close> and of
  the later steps never undone.
\<close>

theorem sm_cancelled_saga_goes_on:
  assumes "sx_status x = SxRunning" and "i < length (sx_steps x)" and "sx_current_step_index x = i"
    and "sm_cancel_saga now (x, c) = (ok, s1)"
    and "length bs = length (filter (sm_undoable x) (rev [0..<Suc i]))"
    and "sm_drive (map (\<lambda>(t, b). (t, CompensationAnswer b)) bs) s1 = (tr1, (q1, (x1, c1)))"
    and "Suc i + length vs = length (sx_steps x)"
    and "sm_drive ((t, ToolAnswer (Inr v)) # map (\<lambda>(t, v). (t, ToolAnswer (Inr v))) vs)
           (SmAtTool i, (x1, c1)) = (tr2, (q2, (x2, c2)))"
  shows "ok \<and> q1 = SmDone \<and> sx_status x1 = SxCompensated \<and>
    sm_calls tr1 = map CallCompensation (filter (sm_undoable x) (rev [0..<Suc i])) \<and>
    q2 = SmDone \<and> sx_status x2 = SxCompleted \<and> sm_calls tr2 = map CallTool [i..<length (sx_steps x)] \<and>
    smk_compensated c2 = smk_compensated c + 1 \<and> smk_completed c2 = smk_completed c + 1"
proof -
  let ?y = "x\<lparr>sx_status := SxCompensating, sx_compensation_reason := Some ''Manually cancelled''\<rparr>"
  have s1: "ok" "s1 = sm_compensate_from now (rev [0..<Suc i]) (?y, c)"
    using assms(1,3,4) by (auto simp: sm_cancel_saga_def sm_compensate_saga_def Let_def)
  have same: "sm_undoable ?y = sm_undoable x" by (rule ext) (simp add: sm_undoable_def)
  have comp: "q1 = SmDone \<and> sx_status x1 = SxCompensated \<and> c1 = c\<lparr>smk_compensated := smk_compensated c + 1\<rparr> \<and>
      sm_calls tr1 = map CallCompensation (filter (sm_undoable x) (rev [0..<Suc i])) \<and>
      length (sx_steps x1) = length (sx_steps x)"
    using sm_compensate_drive [of "rev [0..<Suc i]" ?y bs now c tr1 q1 x1 c1] assms(2,5,6) s1
    by (auto simp: same)
  let ?z = "x1\<lparr>sx_steps := (sx_steps x1)[i := (sx_steps x1 ! i)\<lparr>sms_status := SmCompleted,
      sms_result := v, sms_end_time := Some t\<rparr>]\<rparr>"
  have res: "sm_resume t (ToolAnswer (Inr v)) (SmAtTool i, (x1, c1)) = sm_begin_step t (Suc i) (?z, c1)"
    by (simp add: sm_resume_tool_def)
  obtain tr3 s3 where d: "sm_drive (map (\<lambda>(t, v). (t, ToolAnswer (Inr v))) vs)
      (sm_begin_step t (Suc i) (?z, c1)) = (tr3, s3)" by (rule prod.exhaust)
  have eq: "tr2 = SmAtTool i # tr3" "s3 = (q2, (x2, c2))"
    using assms(8) unfolding sm_drive.simps res d by simp_all
  have "length (sx_steps ?z) = length (sx_steps x)" using comp by simp
  from sm_success_completes [OF _ d [unfolded eq(2)], unfolded this] assms(7)
  have fin: "q2 = SmDone" "sx_status x2 = SxCompleted" "sm_calls tr3 = map CallTool [Suc i..<length (sx_steps x)]"
    "c2 = c1\<lparr>smk_completed := smk_completed c1 + 1\<rparr>" by auto
  have "sm_calls tr2 = map CallTool [i..<length (sx_steps x)]"
    using eq(1) fin(3) assms(2) upt_conv_Cons [of i "length (sx_steps x)"] by simp
  then show ?thesis using s1(1) comp fin by simp
qed

section \<open>Witnesses\<close>

text \<open>A saga of three steps; the first two have compensations.\<close>

definition sm_demo_configs :: "(string, nat, string) sm_step_config list" where
  "sm_demo_configs =
     [smf_build (smf_with_compensation ''release'' (create_saga_step 1 ''reserve'')),
      smf_build (smf_with_compensation ''refund'' (smf_with_parameters 2 (create_saga_step 1 ''charge''))),
      smf_build (create_saga_step 3 ''ship'')]"

definition sm_demo_counters :: sm_counters where
  "sm_demo_counters = \<lparr>smk_total = 1, smk_completed = 0, smk_compensated = 0, smk_failed = 0\<rparr>"

definition sm_demo :: "(string, nat, string, nat) sx" where
  "sm_demo = fst (sm_start_saga 0 ''s'' ''t'' ''w'' sm_demo_configs sm_init)"

lemmas sm_demo_defs = sm_demo_def sm_demo_configs_def sm_start_saga_def sm_init_def create_saga_step_def
  smf_with_compensation_def smf_with_parameters_def smf_build_def

lemma sm_demo_start: "sm_start_saga 0 ''s'' ''t'' ''w'' sm_demo_configs sm_init =
   (sm_demo, snd (sm_start_saga 0 ''s'' ''t'' ''w'' sm_demo_configs sm_init))"
  by (simp add: sm_demo_def)

lemma sm_demo_filter: "filter (\<lambda>i. smf_compensation (sm_demo_configs ! i) \<noteq> None) [0..<2] = [0, 1]"
  by (simp add: sm_demo_defs upt_rec)

definition sm_demo_failing ::
  "sm_task list \<times> sm_task \<times> (string, nat, string, nat) sx \<times> sm_counters" where
  "sm_demo_failing =
     sm_drive (map (\<lambda>(t, v). (t, ToolAnswer (Inr v))) [(1, None), (2, Some 5)] @
       (3, ToolAnswer (Inl timeout_error)) #
       map (\<lambda>(t, b). (t, CompensationAnswer b)) [(4, Inr True), (5, Inr False)])
       (sm_begin_step 0 0 (sm_demo, sm_demo_counters))"

theorem sm_failure_compensates_witness:
  "case sm_demo_failing of (tr, (q, (x', c'))) \<Rightarrow>
     sm_calls tr = [CallTool 0, CallTool 1, CallTool 2, CallCompensation 1, CallCompensation 0] \<and>
     sms_status (sx_steps x' ! 1) = SmCompensated \<and> sms_status (sx_steps x' ! 0) = SmFailed \<and>
     sx_status x' = SxCompensated \<and> smk_failed c' = 1 \<and> smk_compensated c' = 1"
proof -
  obtain m1 q0 where start: "sm_start_saga 0 ''s'' ''t'' ''w'' sm_demo_configs sm_init = (sm_demo, m1, q0)"
    using sm_demo_start by (metis surj_pair)
  obtain tr q x' c' where d: "sm_demo_failing = (tr, (q, (x', c')))" by (rule prod_cases4)
  have k: "2 < length sm_demo_configs" "length [(1::rat, None), (2, Some (5::nat))] = 2"
    "length [(4::rat, Inr True), (5, Inr False :: exn + bool)] =
      length (filter (\<lambda>i. smf_compensation (sm_demo_configs ! i) \<noteq> None) [0..<2])"
    unfolding sm_demo_filter by (simp_all add: sm_demo_configs_def)
  note r = sm_failure_compensates [OF start k d [unfolded sm_demo_failing_def], unfolded sm_demo_filter]
  have calls: "map CallTool [0..<Suc 2] @ map CallCompensation (rev [0, 1]) =
      [CallTool 0, CallTool 1, CallTool 2, CallCompensation 1, CallCompensation 0]"
    by (simp add: upt_rec)
  show ?thesis
    using r unfolding d calls by (simp add: sm_undone_def sm_demo_counters_def)
qed

theorem sm_success_runs_every_step_witness:
  "case sm_drive (map (\<lambda>(t, v). (t, ToolAnswer (Inr v))) [(1, None), (2, Some 5), (3, None)])
      (sm_begin_step 0 0 (sm_demo, sm_demo_counters)) of
     (tr, (q, (x', c'))) \<Rightarrow> sx_status x' = SxCompleted \<and> smk_completed c' = 1"
proof -
  let ?d = "sm_drive (map (\<lambda>(t, v). (t, ToolAnswer (Inr v))) [(1, None), (2, Some 5), (3, None)])
      (sm_begin_step 0 0 (sm_demo, sm_demo_counters))"
  obtain m1 q0 where start: "sm_start_saga 0 ''s'' ''t'' ''w'' sm_demo_configs sm_init = (sm_demo, m1, q0)"
    using sm_demo_start by (metis surj_pair)
  have c: "sm_counters m1 = sm_demo_counters"
    using start by (auto simp: sm_start_saga_def sm_init_def sm_demo_counters_def Let_def)
  have len: "length [(1::rat, None), (2, Some (5::nat)), (3, None)] = length sm_demo_configs"
    by (simp add: sm_demo_configs_def)
  obtain tr q x' c' where d: "?d = (tr, (q, (x', c')))" by (rule prod_cases4)
  show ?thesis
    using sm_success_runs_every_step [OF start len d [folded c]] unfolding d
    by (simp add: sm_init_def)
qed

text \<open>Cancelled while it waits for its second tool, the demo saga still ships.\<close>

definition sm_demo_second :: "(string, nat, string, nat) sx" where
  "sm_demo_second = fst (snd (sm_resume 1 (ToolAnswer (Inr None)) (sm_begin_step 0 0 (sm_demo, sm_demo_counters))))"

lemma sm_demo_second: "sx_status sm_demo_second = SxRunning" "length (sx_steps sm_demo_second) = 3"
  "sx_current_step_index sm_demo_second = 1" "filter (sm_undoable sm_demo_second) (rev [0..<Suc 1]) = [0]"
  by (simp_all add: sm_demo_second_def sm_begin_step_def sm_resume_tool_def sm_undoable_def sm_demo_defs Let_def)

theorem sm_cancelled_saga_goes_on_witness:
  "\<exists>tr1 x1 c1 tr2 x2 c2.
     sm_drive [(5, CompensationAnswer (Inr True))] (snd (sm_cancel_saga 4 (sm_demo_second, sm_demo_counters))) =
       (tr1, (SmDone, (x1, c1))) \<and>
     sm_drive [(6, ToolAnswer (Inr (Some 9))), (7, ToolAnswer (Inr None))] (SmAtTool 1, (x1, c1)) =
       (tr2, (SmDone, (x2, c2))) \<and>
     sx_status x2 = SxCompleted \<and> sm_calls tr2 = [CallTool 1, CallTool 2]"
proof -
  obtain ok s1 where cn: "sm_cancel_saga 4 (sm_demo_second, sm_demo_counters) = (ok, s1)" by (rule prod.exhaust)
  obtain tr1 q1 x1 c1 where d1: "sm_drive (map (\<lambda>(t, b). (t, CompensationAnswer b)) [(5, Inr True)]) s1 = (tr1, (q1, (x1, c1)))"
    by (rule prod_cases4)
  obtain tr2 q2 x2 c2 where d2: "sm_drive ((6, ToolAnswer (Inr (Some 9))) #
      map (\<lambda>(t, v). (t, ToolAnswer (Inr v))) [(7, None)]) (SmAtTool 1, (x1, c1)) = (tr2, (q2, (x2, c2)))"
    by (rule prod_cases4)
  have "ok \<and> q1 = SmDone \<and> sx_status x1 = SxCompensated \<and>
    sm_calls tr1 = map CallCompensation (filter (sm_undoable sm_demo_second) (rev [0..<Suc 1])) \<and>
    q2 = SmDone \<and> sx_status x2 = SxCompleted \<and>
    sm_calls tr2 = map CallTool [1..<length (sx_steps sm_demo_second)] \<and>
    smk_compensated c2 = smk_compensated sm_demo_counters + 1 \<and>
    smk_completed c2 = smk_completed sm_demo_counters + 1"
    by (rule sm_cancelled_saga_goes_on [OF sm_demo_second(1) _ sm_demo_second(3) cn _ d1 _ d2])
      (simp_all only: sm_demo_second, simp_all)
  then show ?thesis
    using d1 d2 cn by (auto simp: sm_demo_second(2) upt_rec)
qed

end
