(* ===== verification/TokenBuckets.thy ===== *)
theory TokenBuckets
  imports Interfaces
begin

text \<open>
  \<^verbatim>\<open>libs/security/token_buckets.py\<close>: \<open>TokenBucket\<close> with its local and its distributed mode,
  and \<open>TenantRateLimiter\<close>. The distributed mode runs a Lua script inside Redis; the script is
  part of the source and is modelled as \<open>tkb_script\<close> on the entry of the bucket (its tokens,
  its last refill, and the time at which the entry expires: each run of the script renews the
  time to live of 3600 seconds, and reading an expired entry finds nothing). Redis converts a
  Lua number it returns to an integer by dropping the fraction. Whether Redis answers at all
  is an input.
\<close>

section \<open>State\<close>

record tkb_config =
  tkbc_capacity :: int
  tkbc_refill_rate :: rat
  tkbc_burst_capacity :: "int option"
  tkbc_refill_interval_ms :: int

record tkb_state =
  tks_tokens :: rat
  tks_last_refill :: rat
  tks_burst_tokens :: rat
  tks_total_requests :: int
  tks_successful_requests :: int
  tks_blocked_requests :: int

definition tkb_fresh_state :: "rat \<Rightarrow> tkb_config \<Rightarrow> tkb_state" where
  "tkb_fresh_state now c =
     \<lparr>tks_tokens = of_int (tkbc_capacity c), tks_last_refill = now, tks_burst_tokens = 0,
      tks_total_requests = 0, tks_successful_requests = 0, tks_blocked_requests = 0\<rparr>"

record tkb =
  tkb_config :: tkb_config
  tkb_has_redis :: bool
  tkb_state :: tkb_state
  tkb_redis_prefix :: string

definition tkb_init :: "rat \<Rightarrow> tkb_config \<Rightarrow> bool \<Rightarrow> tkb" where
  "tkb_init now c has_redis =
     \<lparr>tkb_config = c, tkb_has_redis = has_redis, tkb_state = tkb_fresh_state now c,
      tkb_redis_prefix = ''token_bucket''\<rparr>"

type_synonym tkb_entry = "rat \<times> rat \<times> rat"
type_synonym tkb_store = "(string, tkb_entry) dict"

datatype tkb_result =
    TkConsumed (tkr_consumed: int) (tkr_remaining: rat)
  | TkBlocked (tkr_requested: int) (tkr_available: rat) (tkr_retry_after: rat)

section \<open>Local mode\<close>

definition tkb_refill_tokens :: "rat \<Rightarrow> tkb \<Rightarrow> tkb" where
  "tkb_refill_tokens now b =
     (let c = tkb_config b;
          s = tkb_state b;
          time_elapsed = now - tks_last_refill s;
          tokens_to_refill = time_elapsed * tkbc_refill_rate c;
          s1 = s\<lparr>tks_tokens := min (of_int (tkbc_capacity c)) (tks_tokens s + tokens_to_refill)\<rparr>;
          s2 = (case tkbc_burst_capacity c of
                  None \<Rightarrow> s1
                | Some bc \<Rightarrow>
                    if bc = 0 then s1
                    else s1\<lparr>tks_burst_tokens := min (of_int bc) (tks_burst_tokens s1 + tokens_to_refill)\<rparr>)
      in b\<lparr>tkb_state := s2\<lparr>tks_last_refill := now\<rparr>\<rparr>)"

definition tkb_zero_division :: exn where
  "tkb_zero_division =
     Exn [''ZeroDivisionError'', ''ArithmeticError'', ''Exception''] ''float division by zero''"

definition tkb_calculate_retry_after :: "int \<Rightarrow> tkb \<Rightarrow> exn + rat" where
  "tkb_calculate_retry_after tokens_requested b =
     (if tokens_requested \<le> 0 then Inr 0
      else
        (let tokens_needed = of_int tokens_requested - tks_tokens (tkb_state b)
         in if tokens_needed \<le> 0 then Inr 0
            else if tkbc_refill_rate (tkb_config b) = 0 then Inl tkb_zero_division
            else Inr (max 0 (tokens_needed / tkbc_refill_rate (tkb_config b)))))"

definition tkb_consume_local :: "int \<Rightarrow> rat \<Rightarrow> tkb \<Rightarrow> (exn + bool \<times> tkb_result) \<times> tkb" where
  "tkb_consume_local tokens now b =
     (let b1 = tkb_refill_tokens now b;
          s = tkb_state b1
      in if of_int tokens \<le> tks_tokens s then
           (let b2 = b1\<lparr>tkb_state := s\<lparr>tks_tokens := tks_tokens s - of_int tokens,
                   tks_total_requests := tks_total_requests s + 1,
                   tks_successful_requests := tks_successful_requests s + 1\<rparr>\<rparr>
            in (Inr (True, TkConsumed tokens (tks_tokens (tkb_state b2))), b2))
         else
           (let b2 = b1\<lparr>tkb_state := s\<lparr>tks_total_requests := tks_total_requests s + 1,
                   tks_blocked_requests := tks_blocked_requests s + 1\<rparr>\<rparr>
            in case tkb_calculate_retry_after tokens b2 of
                 Inl e \<Rightarrow> (Inl e, b2)
               | Inr retry \<Rightarrow>
                   (Inr (False, TkBlocked tokens (tks_tokens (tkb_state b2)) retry), b2)))"

section \<open>Distributed mode\<close>

definition tkb_script ::
  "int \<Rightarrow> rat \<Rightarrow> int \<Rightarrow> rat \<Rightarrow> tkb_entry option \<Rightarrow> (bool \<times> rat) \<times> tkb_entry" where
  "tkb_script capacity refill_rate tokens_requested current_time entry =
     (let live = (case entry of
                    Some (k, l, expires) \<Rightarrow> if current_time < expires then Some (k, l) else None
                  | None \<Rightarrow> None);
          current_tokens = (case live of Some (k, _) \<Rightarrow> k | None \<Rightarrow> of_int capacity);
          last_refill = (case live of Some (_, l) \<Rightarrow> l | None \<Rightarrow> current_time);
          time_elapsed = current_time - last_refill;
          tokens_to_refill = time_elapsed * refill_rate;
          new_tokens = min (of_int capacity) (current_tokens + tokens_to_refill)
      in if of_int tokens_requested \<le> new_tokens
         then ((True, new_tokens - of_int tokens_requested),
               (new_tokens - of_int tokens_requested, current_time, current_time + 3600))
         else ((False, new_tokens), (new_tokens, current_time, current_time + 3600)))"

definition tkb_redis_key :: "tkb \<Rightarrow> string" where
  "tkb_redis_key b = tkb_redis_prefix b @ '':bucket''"

definition tkb_consume_distributed ::
  "bool \<Rightarrow> int \<Rightarrow> rat \<Rightarrow> tkb \<times> tkb_store \<Rightarrow> (exn + bool \<times> tkb_result) \<times> tkb \<times> tkb_store" where
  "tkb_consume_distributed redis_answers tokens now = (\<lambda>(b, st).
     (if \<not> redis_answers then
        (case tkb_consume_local tokens now b of (r, b') \<Rightarrow> (r, b', st))
      else
        (case tkb_script (tkbc_capacity (tkb_config b)) (tkbc_refill_rate (tkb_config b)) tokens now
                (dget st (tkb_redis_key b)) of
           ((success, remaining), entry) \<Rightarrow>
             (let st1 = dset (tkb_redis_key b) entry st;
                  tokens_remaining = of_int \<lfloor>remaining\<rfloor>
              in if success then (Inr (True, TkConsumed tokens tokens_remaining), b, st1)
                 else
                   (case tkb_calculate_retry_after tokens b of
                      Inr retry \<Rightarrow> (Inr (False, TkBlocked tokens tokens_remaining retry), b, st1)
                    | Inl _ \<Rightarrow>
                        (case tkb_consume_local tokens now b of (r, b') \<Rightarrow> (r, b', st1)))))))"

definition tkb_consume ::
  "bool \<Rightarrow> int \<Rightarrow> rat \<Rightarrow> tkb \<times> tkb_store \<Rightarrow> (exn + bool \<times> tkb_result) \<times> tkb \<times> tkb_store" where
  "tkb_consume redis_answers tokens now = (\<lambda>(b, st).
     (if tkb_has_redis b then tkb_consume_distributed redis_answers tokens now (b, st)
      else (case tkb_consume_local tokens now b of (r, b') \<Rightarrow> (r, b', st))))"

record tkb_report =
  tkp_tokens :: rat
  tkp_capacity :: int
  tkp_refill_rate :: rat
  tkp_burst_tokens :: rat
  tkp_burst_capacity :: "int option"
  tkp_total_requests :: int
  tkp_successful_requests :: int
  tkp_blocked_requests :: int
  tkp_success_rate :: rat
  tkp_utilization :: rat

definition tkb_get_state :: "rat \<Rightarrow> tkb \<Rightarrow> (exn + tkb_report) \<times> tkb" where
  "tkb_get_state now b =
     (let b1 = tkb_refill_tokens now b;
          s = tkb_state b1;
          c = tkb_config b1
      in if tkbc_capacity c = 0 then (Inl tkb_zero_division, b1)
         else (Inr \<lparr>tkp_tokens = tks_tokens s, tkp_capacity = tkbc_capacity c,
                    tkp_refill_rate = tkbc_refill_rate c, tkp_burst_tokens = tks_burst_tokens s,
                    tkp_burst_capacity = tkbc_burst_capacity c,
                    tkp_total_requests = tks_total_requests s,
                    tkp_successful_requests = tks_successful_requests s,
                    tkp_blocked_requests = tks_blocked_requests s,
                    tkp_success_rate =
                      of_int (tks_successful_requests s) / of_int (max 1 (tks_total_requests s)),
                    tkp_utilization =
                      (of_int (tkbc_capacity c) - tks_tokens s) / of_int (tkbc_capacity c)\<rparr>, b1))"

definition tkb_reset :: "bool \<Rightarrow> rat \<Rightarrow> tkb \<times> tkb_store \<Rightarrow> tkb \<times> tkb_store" where
  "tkb_reset redis_answers now = (\<lambda>(b, st).
     (let b1 = b\<lparr>tkb_state := tkb_fresh_state now (tkb_config b)\<rparr>
      in if tkb_has_redis b1 \<and> redis_answers then (b1, ddel (tkb_redis_key b1) st) else (b1, st)))"

section \<open>Tenants\<close>

record trl =
  trl_has_redis :: bool
  trl_tenant_buckets :: "(string, tkb) dict"
  trl_default_configs :: "(string, tkb_config) dict"

definition trl_standard :: tkb_config where
  "trl_standard = \<lparr>tkbc_capacity = 1000, tkbc_refill_rate = 10, tkbc_burst_capacity = Some 50,
     tkbc_refill_interval_ms = 1000\<rparr>"

definition trl_get_default_configs :: "(string, tkb_config) dict" where
  "trl_get_default_configs =
     [(''free'', \<lparr>tkbc_capacity = 100, tkbc_refill_rate = 1, tkbc_burst_capacity = Some 10,
                 tkbc_refill_interval_ms = 1000\<rparr>),
      (''standard'', trl_standard),
      (''premium'', \<lparr>tkbc_capacity = 10000, tkbc_refill_rate = 100, tkbc_burst_capacity = Some 500,
                    tkbc_refill_interval_ms = 1000\<rparr>),
      (''enterprise'', \<lparr>tkbc_capacity = 100000, tkbc_refill_rate = 1000,
                       tkbc_burst_capacity = Some 5000, tkbc_refill_interval_ms = 1000\<rparr>)]"

definition trl_init :: "bool \<Rightarrow> trl" where
  "trl_init has_redis =
     \<lparr>trl_has_redis = has_redis, trl_tenant_buckets = [],
      trl_default_configs = trl_get_default_configs\<rparr>"

definition trl_get_or_create_bucket :: "rat \<Rightarrow> string \<Rightarrow> string \<Rightarrow> trl \<Rightarrow> tkb \<times> trl" where
  "trl_get_or_create_bucket now tenant_id tenant_tier l =
     (case dget (trl_tenant_buckets l) tenant_id of
        Some b \<Rightarrow> (b, l)
      | None \<Rightarrow>
          (let config = dget_or (dget_or trl_standard (trl_default_configs l) ''standard'')
                          (trl_default_configs l) tenant_tier;
               b = (tkb_init now config (trl_has_redis l))
                     \<lparr>tkb_redis_prefix := ''token_bucket:'' @ tenant_id\<rparr>
           in (b, l\<lparr>trl_tenant_buckets := dset tenant_id b (trl_tenant_buckets l)\<rparr>)))"

definition trl_check_rate_limit ::
  "bool \<Rightarrow> rat \<Rightarrow> string \<Rightarrow> int \<Rightarrow> string \<Rightarrow> trl \<times> tkb_store \<Rightarrow>
   (exn + bool \<times> tkb_result \<times> string \<times> string) \<times> trl \<times> tkb_store" where
  "trl_check_rate_limit redis_answers now tenant_id tokens tenant_tier = (\<lambda>(l, st).
     (case trl_get_or_create_bucket now tenant_id tenant_tier l of
        (b, l1) \<Rightarrow>
          (case tkb_consume redis_answers tokens now (b, st) of
             (r, b', st') \<Rightarrow>
               (case r of
                  Inl e \<Rightarrow> Inl e
                | Inr (success, result) \<Rightarrow> Inr (success, result, tenant_id, tenant_tier),
                l1\<lparr>trl_tenant_buckets := dset tenant_id b' (trl_tenant_buckets l1)\<rparr>, st'))))"

definition trl_get_tenant_metrics ::
  "rat \<Rightarrow> string \<Rightarrow> trl \<Rightarrow> (exn + tkb_report) option \<times> trl" where
  "trl_get_tenant_metrics now tenant_id l =
     (case dget (trl_tenant_buckets l) tenant_id of
        None \<Rightarrow> (None, l)
      | Some b \<Rightarrow>
          (case tkb_get_state now b of
             (r, b') \<Rightarrow>
               (Some r, l\<lparr>trl_tenant_buckets := dset tenant_id b' (trl_tenant_buckets l)\<rparr>)))"

definition trl_reset_tenant_bucket ::
  "bool \<Rightarrow> rat \<Rightarrow> string \<Rightarrow> trl \<times> tkb_store \<Rightarrow> trl \<times> tkb_store" where
  "trl_reset_tenant_bucket redis_answers now tenant_id = (\<lambda>(l, st).
     (case dget (trl_tenant_buckets l) tenant_id of
        None \<Rightarrow> (l, st)
      | Some b \<Rightarrow>
          (case tkb_reset redis_answers now (b, st) of
             (b', st') \<Rightarrow> (l\<lparr>trl_tenant_buckets := dset tenant_id b' (trl_tenant_buckets l)\<rparr>, st'))))"

definition trl_update_tenant_tier :: "rat \<Rightarrow> string \<Rightarrow> string \<Rightarrow> trl \<Rightarrow> exn + trl" where
  "trl_update_tenant_tier now tenant_id new_tier l =
     (if dget (trl_default_configs l) new_tier = None
      then Inl (value_error (''Invalid tenant tier: '' @ new_tier))
      else
        (let l1 = l\<lparr>trl_tenant_buckets := ddel tenant_id (trl_tenant_buckets l)\<rparr>
         in Inr (snd (trl_get_or_create_bucket now tenant_id new_tier l1))))"

definition trl_get_all_tenant_metrics :: "trl \<Rightarrow> nat \<times> string list" where
  "trl_get_all_tenant_metrics l =
     (length (trl_tenant_buckets l), map fst (trl_tenant_buckets l))"

text \<open>The clean-up of inactive tenants is a stub in the source: it only logs.\<close>

definition trl_cleanup_inactive_tenants :: "int \<Rightarrow> trl \<Rightarrow> trl" where
  "trl_cleanup_inactive_tenants max_inactive_hours l = l"

section \<open>The buckets are token limiters\<close>

definition tkb_admits :: "int \<Rightarrow> rat \<Rightarrow> tkb \<Rightarrow> bool \<times> tkb" where
  "tkb_admits n now b =
     (case tkb_consume_local n now b of
        (Inr (ok, _), b') \<Rightarrow> (ok, b')
      | (Inl _, b') \<Rightarrow> (False, b'))"

definition tkb_cap :: "tkb \<Rightarrow> rat" where "tkb_cap b = of_int (tkbc_capacity (tkb_config b))"
definition tkb_rate :: "tkb \<Rightarrow> rat" where "tkb_rate b = tkbc_refill_rate (tkb_config b)"
definition tkb_tokens :: "tkb \<Rightarrow> rat" where "tkb_tokens b = tks_tokens (tkb_state b)"
definition tkb_refilled :: "tkb \<Rightarrow> rat" where "tkb_refilled b = tks_last_refill (tkb_state b)"

definition tkb_inv :: "tkb \<Rightarrow> bool" where
  "tkb_inv b \<longleftrightarrow> 0 \<le> tkb_tokens b \<and> tkb_tokens b \<le> tkb_cap b \<and> 0 \<le> tkb_rate b"

lemma tkb_refill_spec:
  "tkb_config (tkb_refill_tokens now b) = tkb_config b"
  "tks_tokens (tkb_state (tkb_refill_tokens now b)) =
     min (tkb_cap b) (tkb_tokens b + (now - tkb_refilled b) * tkb_rate b)"
  "tks_last_refill (tkb_state (tkb_refill_tokens now b)) = now"
  by (auto simp: tkb_refill_tokens_def tkb_cap_def tkb_tokens_def tkb_refilled_def tkb_rate_def Let_def
      split: option.split)

lemma tkb_admits_spec:
  assumes "tkb_admits n now b = (ok, b')"
  defines "k \<equiv> min (tkb_cap b) (tkb_tokens b + (now - tkb_refilled b) * tkb_rate b)"
  shows "ok \<longleftrightarrow> of_int n \<le> k" "tkb_tokens b' = k - (if ok then of_int n else 0)"
    "tkb_refilled b' = now" "tkb_config b' = tkb_config b"
  using assms
  by (auto simp: tkb_admits_def tkb_consume_local_def Let_def tkb_refill_spec k_def tkb_tokens_def
      tkb_refilled_def tkb_calculate_retry_after_def split: if_splits sum.splits prod.splits)

lemma tkb_level:
  fixes k tokens rate cap elapsed :: rat
  assumes "k = min cap (tokens + elapsed * rate)" and "0 \<le> elapsed" and "0 \<le> rate" and "0 \<le> tokens"
    and "0 \<le> cap"
  shows "0 \<le> k" "k \<le> cap" "k \<le> tokens + rate * elapsed"
  using assms by (auto simp: mult.commute min_def)

interpretation tkl: token_limiter "tkb_admits n" tkb_tokens tkb_refilled tkb_rate tkb_cap
  "\<lambda>_. of_int n" "\<lambda>b. tkb_inv b \<and> 0 \<le> n" for n
proof (unfold_locales, goal_cases)
  case (1 b t ok b')
  note spec = tkb_admits_spec [OF 1(3)]
  have "0 \<le> tkb_cap b" using 1(1) by (simp add: tkb_inv_def)
  with tkb_level [OF refl, of "t - tkb_refilled b" "tkb_rate b" "tkb_tokens b" "tkb_cap b"] 1 spec
  show ?case by (auto simp: tkb_inv_def tkb_cap_def tkb_rate_def split: if_splits)
next
  case (2 t b ok b')
  then show ?case by (rule tkb_admits_spec(3))
next
  case (3 t b ok b')
  then show ?case using tkb_admits_spec(4) by (simp add: tkb_rate_def tkb_cap_def)
next
  case (4 b t ok b')
  have "0 \<le> tkb_cap b" using 4(1) by (simp add: tkb_inv_def)
  with tkb_level [OF refl, of "t - tkb_refilled b" "tkb_rate b" "tkb_tokens b" "tkb_cap b"] 4
    tkb_admits_spec(2) [OF 4(3)]
  show ?case by (auto simp: tkb_inv_def)
qed (auto simp: tkb_inv_def)

text \<open>The shared entry, with the parameters every client of the bucket passes to the script.\<close>

definition tke_admits ::
  "int \<Rightarrow> rat \<Rightarrow> tkb_config \<times> tkb_entry \<Rightarrow> bool \<times> tkb_config \<times> tkb_entry" where
  "tke_admits n now = (\<lambda>(c, e).
     (case tkb_script (tkbc_capacity c) (tkbc_refill_rate c) n now (Some e) of
        ((ok, _), e') \<Rightarrow> (ok, (c, e'))))"

definition tke_inv :: "tkb_config \<times> tkb_entry \<Rightarrow> bool" where
  "tke_inv x \<longleftrightarrow> (case x of (c, (k, l, expires)) \<Rightarrow>
     0 \<le> k \<and> k \<le> of_int (tkbc_capacity c) \<and> 0 \<le> tkbc_refill_rate c \<and> expires = l + 3600 \<and>
     of_int (tkbc_capacity c) \<le> 3600 * tkbc_refill_rate c)"

lemma tke_admits_spec:
  assumes "tke_admits n now (c, (k0, l, expires)) = (ok, x)" and "tke_inv (c, (k0, l, expires))"
    and "l \<le> now" and "0 \<le> n"
  shows "\<exists>k. x = (c, (k, now, now + 3600)) \<and> 0 \<le> k \<and> k \<le> of_int (tkbc_capacity c) \<and>
    k + (if ok then of_int n else 0) \<le> k0 + tkbc_refill_rate c * (now - l)"
proof -
  let ?cap = "of_int (tkbc_capacity c) :: rat" and ?r = "tkbc_refill_rate c"
  have inv: "0 \<le> k0" "k0 \<le> ?cap" "0 \<le> ?r" "expires = l + 3600" "?cap \<le> 3600 * ?r"
    using assms(2) by (simp_all add: tke_inv_def)
  obtain k1 where k1: "0 \<le> k1" "k1 \<le> ?cap" "k1 \<le> k0 + ?r * (now - l)"
    and x: "x = (c, (if of_int n \<le> k1 then k1 - of_int n else k1, now, now + 3600))"
      "ok \<longleftrightarrow> of_int n \<le> k1"
  proof (cases "now < expires")
    case True
    let ?k = "min ?cap (k0 + (now - l) * ?r)"
    show ?thesis
      using tkb_level [OF refl, of "now - l" ?r k0 ?cap] inv assms(1,3) True
      by (intro that [of ?k]) (auto simp: tke_admits_def tkb_script_def Let_def split: if_splits)
  next
    case False
    have "3600 * ?r \<le> (now - l) * ?r" by (rule mult_right_mono) (use False inv in auto)
    then have "?cap \<le> k0 + ?r * (now - l)" using inv by (simp add: mult.commute)
    then show ?thesis
      using inv assms(1) False
      by (intro that [of ?cap]) (auto simp: tke_admits_def tkb_script_def Let_def split: if_splits)
  qed
  show ?thesis using k1 x assms(4) by auto
qed

interpretation tke: token_limiter "tke_admits n" "\<lambda>(c, (k, l, e)). k" "\<lambda>(c, (k, l, e)). l"
  "\<lambda>(c, _). tkbc_refill_rate c" "\<lambda>(c, _). of_int (tkbc_capacity c)" "\<lambda>_. of_int n"
  "\<lambda>x. tke_inv x \<and> 0 \<le> n" for n
proof (unfold_locales, goal_cases)
  case (1 x t ok x')
  obtain c k l e where x: "x = (c, (k, l, e))" by (rule prod_cases4)
  from tke_admits_spec [of n t c k l e ok x'] 1 show ?case by (auto simp: x tke_inv_def)
next
  case (2 t x ok x')
  then show ?case by (auto simp: tke_admits_def tkb_script_def Let_def split: prod.splits if_splits)
next
  case (3 t x ok x')
  then show ?case by (auto simp: tke_admits_def split: prod.splits)
next
  case (4 x t ok x')
  obtain c k l e where x: "x = (c, (k, l, e))" by (rule prod_cases4)
  from tke_admits_spec [of n t c k l e ok x'] 4 show ?case by (auto simp: x)
next
  case (5 x)
  then show ?case by (auto simp: tke_inv_def)
qed

section \<open>Properties\<close>

text \<open>
  A local bucket admits at most its capacity plus the refill of the observed period:
  whatever requests of \<open>n\<close> tokens are made at whatever times, the tokens handed out from its
  creation to the last request are at most \<open>capacity + refill_rate * time\<close>.
\<close>

theorem tkb_local_bound:
  assumes "0 \<le> tkbc_capacity c" and "0 \<le> tkbc_refill_rate c" and "0 \<le> n"
    and "sorted (t0 # ts)" and "admitted_count (tkb_admits n) ts (tkb_init t0 c r) = (k, b')"
  shows "of_int n * of_nat k \<le> of_int (tkbc_capacity c) + tkbc_refill_rate c * (last (t0 # ts) - t0)"
proof -
  let ?b = "tkb_init t0 c r"
  have b: "tkb_inv ?b \<and> 0 \<le> n" "tkb_refilled ?b = t0" "tkb_cap ?b = of_int (tkbc_capacity c)"
    "tkb_rate ?b = tkbc_refill_rate c"
    using assms(1-3) by (simp_all add: tkb_init_def tkb_fresh_state_def tkb_inv_def tkb_cap_def tkb_rate_def
        tkb_tokens_def tkb_refilled_def)
  from tkl.admitted_bound [OF b(1) _ assms(5)] assms(4) show ?thesis by (simp only: b(2-4))
qed

text \<open>
  C17. The shared bucket obeys the same bound for all its clients together, although its entry
  expires after an hour without requests, provided the bucket fills up within that hour (all
  the default tiers do): an expired entry comes back full, which it would be anyway.
\<close>

theorem tkb_shared_bound:
  assumes "0 \<le> k0" and "k0 \<le> of_int (tkbc_capacity c)" and "0 \<le> tkbc_refill_rate c" and "0 \<le> n"
    and "of_int (tkbc_capacity c) \<le> 3600 * tkbc_refill_rate c"
    and "sorted (t0 # ts)" and "admitted_count (tke_admits n) ts (c, (k0, t0, t0 + 3600)) = (k, x')"
  shows "of_int n * of_nat k \<le> of_int (tkbc_capacity c) + tkbc_refill_rate c * (last (t0 # ts) - t0)"
proof -
  have "tke_inv (c, (k0, t0, t0 + 3600)) \<and> 0 \<le> n" using assms(1-5) by (simp add: tke_inv_def)
  from tke.admitted_bound [OF this _ assms(7)] assms(6) show ?thesis by simp
qed

text \<open>
  A blocked request of a local bucket that waits as long as \<open>retry_after_seconds\<close> says
  succeeds, if nobody else takes tokens meanwhile and the capacity suffices at all; a shorter
  wait does not.
\<close>

theorem tkb_retry_after_exact:
  assumes "tkb_consume_local n now b = (Inr (False, TkBlocked n av wait), b')"
    and "0 < n" and "n \<le> tkbc_capacity (tkb_config b)" and "0 < tkbc_refill_rate (tkb_config b)"
  shows "fst (tkb_admits n (now + d) b') \<longleftrightarrow> wait \<le> d"
proof -
  let ?r = "tkbc_refill_rate (tkb_config b)"
  let ?k = "min (tkb_cap b) (tkb_tokens b + (now - tkb_refilled b) * tkb_rate b)"
  have b': "tkb_config b' = tkb_config b" "tkb_tokens b' = ?k" "tkb_refilled b' = now"
    and blocked: "\<not> of_int n \<le> ?k"
    and w: "tkb_calculate_retry_after n b' = Inr wait"
    using assms(1)
    by (auto simp: tkb_consume_local_def Let_def tkb_refill_spec tkb_tokens_def tkb_refilled_def
        split: if_splits sum.splits)
  have wait: "wait = (of_int n - ?k) / ?r"
    using w b' blocked assms(2,4)
    by (auto simp: tkb_calculate_retry_after_def Let_def tkb_tokens_def [symmetric] split: if_splits)
  obtain ok b'' where a: "tkb_admits n (now + d) b' = (ok, b'')" by (rule prod.exhaust)
  have "ok \<longleftrightarrow> of_int n \<le> min (tkb_cap b) (?k + d * ?r)"
    using tkb_admits_spec(1) [OF a] b' by (simp add: tkb_cap_def tkb_rate_def)
  also have "\<dots> \<longleftrightarrow> of_int n \<le> ?k + d * ?r" using assms(3) by (simp add: tkb_cap_def)
  also have "\<dots> \<longleftrightarrow> wait \<le> d" using assms(4) by (simp add: wait pos_divide_le_eq algebra_simps)
  finally show ?thesis by (simp add: a)
qed

text \<open>
  The two modes agree: on equal contents, the script and the local bucket take the same
  decision and are left with the same tokens.
\<close>

theorem tkb_modes_agree:
  assumes "t < expires" and "tkb_tokens b = k0" and "tkb_refilled b = l"
    and "tkb_script (tkbc_capacity (tkb_config b)) (tkbc_refill_rate (tkb_config b)) n t (Some (k0, l, expires)) =
      ((ok, remaining), entry)"
    and "tkb_admits n t b = (ok', b')"
  shows "ok' = ok \<and> tkb_tokens b' = remaining \<and> entry = (tkb_tokens b', tkb_refilled b', t + 3600)"
  using assms(1-4) tkb_admits_spec [OF assms(5)]
  by (auto simp: tkb_script_def tkb_cap_def tkb_rate_def Let_def split: if_splits)

text \<open>
  In distributed mode the advice is wrong: the wait of a blocked request is computed from
  the local bucket, which the distributed mode never debits, so a fresh client whose request
  fits the capacity is told to retry after 0 seconds however empty the shared bucket is.
\<close>

theorem tkb_distributed_retry_after_zero:
  assumes "n \<le> tkbc_capacity c" and "b = tkb_init t0 c True"
    and "tkb_consume True n t (b, st) = (Inr (False, res), (b', st'))"
  shows "tkr_retry_after res = 0 \<and> b' = b"
proof -
  have "tkb_calculate_retry_after n b = Inr 0"
    using assms(1,2) by (simp add: tkb_calculate_retry_after_def tkb_init_def tkb_fresh_state_def Let_def)
  then show ?thesis
    using assms(2,3)
    by (auto simp: tkb_consume_def tkb_consume_distributed_def tkb_init_def Let_def
        split: prod.splits if_splits)
qed

text \<open>The bucket of a tenant and the Redis key it uses.\<close>

definition trl_inv :: "trl \<Rightarrow> bool" where
  "trl_inv l \<longleftrightarrow> (\<forall>i b. dget (trl_tenant_buckets l) i = Some b \<longrightarrow> tkb_redis_prefix b = ''token_bucket:'' @ i)"

lemma tkb_consume_prefix:
  assumes "tkb_consume up n t (b, st) = (r, (b', st'))"
  shows "tkb_redis_prefix b' = tkb_redis_prefix b \<and> (\<forall>k. k \<noteq> tkb_redis_key b \<longrightarrow> dget st' k = dget st k)"
proof -
  have refill: "tkb_redis_prefix (tkb_refill_tokens t b) = tkb_redis_prefix b"
    by (simp add: tkb_refill_tokens_def Let_def)
  have loc: "tkb_redis_prefix b1 = tkb_redis_prefix b" if "tkb_consume_local n t b = (r1, b1)" for r1 b1
    using that refill by (auto simp: tkb_consume_local_def Let_def split: if_splits sum.splits)
  show ?thesis
    using assms loc
    by (auto simp: tkb_consume_def tkb_consume_distributed_def Let_def dget_dset
        split: if_splits prod.splits sum.splits)
qed

text \<open>
  Tenants are isolated: a rate-limit check of one tenant, in either mode, leaves the bucket
  of every other tenant and the Redis entry behind it as they were, and keeps the keys of
  different tenants apart.
\<close>

theorem trl_tenants_isolated:
  assumes "trl_inv l" and "other \<noteq> tenant"
    and "trl_check_rate_limit up t tenant n tier (l, st) = (r, (l', st'))"
  shows "trl_inv l' \<and> dget (trl_tenant_buckets l') other = dget (trl_tenant_buckets l) other \<and>
    dget st' (''token_bucket:'' @ other @ '':bucket'') = dget st (''token_bucket:'' @ other @ '':bucket'')"
proof -
  obtain b l1 where g: "trl_get_or_create_bucket t tenant tier l = (b, l1)" by (rule prod.exhaust)
  obtain q b2 st2 where c: "tkb_consume up n t (b, st) = (q, (b2, st2))" by (rule prod_cases3)
  have b: "tkb_redis_prefix b = ''token_bucket:'' @ tenant" "trl_inv l1"
    "dget (trl_tenant_buckets l1) other = dget (trl_tenant_buckets l) other"
    using g assms(1,2)
    by (auto simp: trl_get_or_create_bucket_def trl_inv_def Let_def dget_dset split: option.splits if_splits)
  have l': "l' = l1\<lparr>trl_tenant_buckets := dset tenant b2 (trl_tenant_buckets l1)\<rparr>" "st' = st2"
    using assms(3) by (auto simp: trl_check_rate_limit_def g c)
  have "trl_inv l'"
    using b(1,2) tkb_consume_prefix [OF c] by (auto simp: l' trl_inv_def dget_dset split: if_splits)
  moreover have "''token_bucket:'' @ other @ '':bucket'' \<noteq> tkb_redis_key b"
    using assms(2) by (simp add: tkb_redis_key_def b(1))
  ultimately show ?thesis
    using b(3) tkb_consume_prefix [OF c] assms(2) by (auto simp: l' dget_dset)
qed

section \<open>Witnesses\<close>

definition tkb_free :: tkb_config where
  "tkb_free = \<lparr>tkbc_capacity = 100, tkbc_refill_rate = 1, tkbc_burst_capacity = Some 10,
     tkbc_refill_interval_ms = 1000\<rparr>"

theorem tkb_local_bound_witness:
  "60 * of_nat (fst (admitted_count (tkb_admits 60) [0, 1, 30, 31] (tkb_init 0 tkb_free False))) \<le> (131 :: rat)"
proof -
  obtain k b' where c: "admitted_count (tkb_admits 60) [0, 1, 30, 31] (tkb_init 0 tkb_free False) = (k, b')"
    by (rule prod.exhaust)
  from tkb_local_bound [OF _ _ _ _ c] show ?thesis unfolding c by (simp add: tkb_free_def)
qed

theorem tkb_shared_bound_witness:
  "60 * of_nat (fst (admitted_count (tke_admits 60) [0, 1, 30, 5000] (tkb_free, (100, 0, 3600)))) \<le> (5100 :: rat)"
proof -
  obtain k x' where c: "admitted_count (tke_admits 60) [0, 1, 30, 5000] (tkb_free, (100, 0, 0 + 3600)) = (k, x')"
    by (rule prod.exhaust)
  from tkb_shared_bound [OF _ _ _ _ _ _ c] c show ?thesis by (simp add: tkb_free_def del: admitted_count.simps)
qed

definition tkb_drained :: tkb where
  "tkb_drained = snd (tkb_consume_local 90 0 (tkb_init 0 tkb_free False))"

theorem tkb_retry_after_exact_witness:
  "\<exists>b'. tkb_consume_local 20 0 tkb_drained = (Inr (False, TkBlocked 20 10 10), b') \<and>
     fst (tkb_admits 20 (0 + 10) b') \<and> \<not> fst (tkb_admits 20 (0 + 9) b')"
proof -
  obtain b' where c: "tkb_consume_local 20 0 tkb_drained = (Inr (False, TkBlocked 20 10 10), b')"
    by (simp add: tkb_drained_def tkb_consume_local_def tkb_refill_tokens_def tkb_init_def tkb_fresh_state_def
        tkb_free_def tkb_calculate_retry_after_def Let_def)
  have cfg: "tkb_config tkb_drained = tkb_free"
    by (simp add: tkb_drained_def tkb_consume_local_def tkb_refill_tokens_def tkb_init_def tkb_fresh_state_def
        tkb_free_def Let_def)
  from tkb_retry_after_exact [OF c, of 10] tkb_retry_after_exact [OF c, of 9] c show ?thesis
    by (simp add: cfg tkb_free_def)
qed

theorem tkb_modes_agree_witness:
  "fst (tkb_admits 40 50 (tkb_init 0 tkb_free False)) = fst (fst (tkb_script 100 1 40 50 (Some (100, 0, 3600))))"
proof -
  obtain ok rm en where s: "tkb_script 100 1 40 50 (Some (100, 0, 3600)) = ((ok, rm), en)" by (metis surj_pair)
  obtain ok' b' where a: "tkb_admits 40 50 (tkb_init 0 tkb_free False) = (ok', b')" by (rule prod.exhaust)
  have "ok' = ok \<and> tkb_tokens b' = rm \<and> en = (tkb_tokens b', tkb_refilled b', 50 + 3600)"
    by (rule tkb_modes_agree [OF _ _ _ _ a, of 3600 100 0])
      (use s in \<open>simp_all add: tkb_tokens_def tkb_refilled_def tkb_init_def tkb_fresh_state_def tkb_free_def\<close>)
  then show ?thesis by (simp add: s a)
qed

theorem tkb_distributed_retry_after_zero_witness:
  "\<exists>res b' st'. tkb_consume True 60 7 (tkb_init 0 tkb_free True, [(''token_bucket:bucket'', (5, 7, 3607))]) =
     (Inr (False, res), (b', st')) \<and> tkr_retry_after res = 0"
proof -
  let ?b = "tkb_init 0 tkb_free True"
  obtain res b' st' where c: "tkb_consume True 60 7 (?b, [(''token_bucket:bucket'', (5, 7, 3607))]) =
      (Inr (False, res), (b', st'))"
    by (simp add: tkb_consume_def tkb_consume_distributed_def tkb_init_def tkb_fresh_state_def tkb_free_def
        tkb_redis_key_def tkb_script_def tkb_calculate_retry_after_def Let_def)
  from tkb_distributed_retry_after_zero [OF _ refl c] c show ?thesis by (simp add: tkb_free_def)
qed

theorem trl_tenants_isolated_witness:
  "\<exists>r l' st'. trl_check_rate_limit True 3 ''acme'' 5 ''free'' (trl_init True, []) = (r, (l', st')) \<and>
     dget st' ''token_bucket:zeta:bucket'' = None"
proof -
  obtain r l' st' where c: "trl_check_rate_limit True 3 ''acme'' 5 ''free'' (trl_init True, []) = (r, (l', st'))"
    by (rule prod_cases3)
  from trl_tenants_isolated [OF _ _ c, where other = "''zeta''"] c show ?thesis by (simp add: trl_inv_def trl_init_def)
qed

end
