(* ===== verification/ConcurrencyTokens.thy ===== *)
theory ConcurrencyTokens
  imports Interfaces "HOL-Library.List_Lexorder" "HOL-Library.Char_ord"
begin

text \<open>
  \<^verbatim>\<open>libs/security/concurrency_tokens.py\<close>: \<open>ConcurrencyTokenPool\<close> and \<open>ConcurrencyManager\<close>.
  Waiting for a token is awaiting a future, so the methods are modelled as the segments
  before and after that await; \<open>pick\<close> is the element that \<open>set.pop()\<close> takes, which Python
  leaves open.
\<close>

section \<open>Tokens\<close>

datatype ctoken_status = CtAvailable | CtAcquired | CtReleased | CtExpired

record 'm ctoken =
  ct_token_id :: string
  ct_tenant_id :: string
  ct_resource_type :: string
  ct_acquired_at :: rat
  ct_expires_at :: "rat option"
  ct_status :: ctoken_status
  ct_metadata :: "(string, 'm) dict"

definition ct_is_expired :: "rat \<Rightarrow> 'm ctoken \<Rightarrow> bool" where
  "ct_is_expired now t = (case ct_expires_at t of None \<Rightarrow> False | Some e \<Rightarrow> e < now)"

definition ct_time_until_expiry :: "rat \<Rightarrow> 'm ctoken \<Rightarrow> rat option" where
  "ct_time_until_expiry now t =
     (case ct_expires_at t of
        None \<Rightarrow> None
      | Some e \<Rightarrow> (let remaining = e - now in Some (if 0 < remaining then remaining else 0)))"

record ct_limits =
  ctl_tenant_id :: string
  ctl_max_concurrent_requests :: int
  ctl_max_concurrent_agents :: int
  ctl_max_concurrent_workflows :: int
  ctl_max_concurrent_tools :: int
  ctl_priority_weight :: rat
  ctl_burst_limit :: int

section \<open>The pool\<close>

text \<open>Futures live in a list, named by the order of their creation.\<close>

datatype 'm ct_future = FutPending | FutResult "'m ctoken" | FutCancelled

record 'm ctp =
  ctp_resource_type :: string
  ctp_total_tokens :: int
  ctp_available_tokens :: "string set"
  ctp_acquired_tokens :: "(string, 'm ctoken) dict"
  ctp_waiting_requests :: "nat list"
  ctp_futures :: "'m ct_future list"

definition ctp_ids :: "string \<Rightarrow> int \<Rightarrow> string list" where
  "ctp_ids resource_type n =
     map (\<lambda>i. resource_type @ ''_token_'' @ nat_str i) [0..<nat n]"

definition ctp_init :: "string \<Rightarrow> int \<Rightarrow> 'm ctp" where
  "ctp_init resource_type n =
     \<lparr>ctp_resource_type = resource_type, ctp_total_tokens = n,
      ctp_available_tokens = set (ctp_ids resource_type n), ctp_acquired_tokens = [],
      ctp_waiting_requests = [], ctp_futures = []\<rparr>"

datatype 'm ct_answer = CtToken "'m ctoken" | CtNone | CtWaiting nat

definition ctp_acquire_token ::
  "(string set \<Rightarrow> string) \<Rightarrow> rat \<Rightarrow> string \<Rightarrow> rat option \<Rightarrow> rat option \<Rightarrow> (string, 'm) dict option \<Rightarrow>
   'm ctp \<Rightarrow> 'm ct_answer \<times> 'm ctp" where
  "ctp_acquire_token pick now tenant_id timeout_seconds expires_in_seconds metadata p =
     (if ctp_available_tokens p \<noteq> {} then
        (let token_id = pick (ctp_available_tokens p);
             token = \<lparr>ct_token_id = token_id, ct_tenant_id = tenant_id,
                      ct_resource_type = ctp_resource_type p, ct_acquired_at = now,
                      ct_expires_at =
                        (case expires_in_seconds of
                           None \<Rightarrow> None | Some x \<Rightarrow> if x = 0 then None else Some (now + x)),
                      ct_status = CtAcquired,
                      ct_metadata = (case metadata of None \<Rightarrow> [] | Some d \<Rightarrow> d)\<rparr>
         in (CtToken token,
             p\<lparr>ctp_available_tokens := ctp_available_tokens p - {token_id},
               ctp_acquired_tokens := dset token_id token (ctp_acquired_tokens p)\<rparr>))
      else if (case timeout_seconds of None \<Rightarrow> True | Some x \<Rightarrow> x \<le> 0) then (CtNone, p)
      else
        (let f = length (ctp_futures p)
         in (CtWaiting f,
             p\<lparr>ctp_waiting_requests := ctp_waiting_requests p @ [f],
               ctp_futures := ctp_futures p @ [FutPending]\<rparr>)))"

text \<open>The end of a wait: with the result of the future, or by the timeout, which cancels it.\<close>

definition ctp_forget :: "nat \<Rightarrow> 'm ctp \<Rightarrow> 'm ctp" where
  "ctp_forget f p = p\<lparr>ctp_waiting_requests := remove1 f (ctp_waiting_requests p)\<rparr>"

definition ctp_woken :: "nat \<Rightarrow> 'm ctp \<Rightarrow> 'm ctoken option \<times> 'm ctp" where
  "ctp_woken f p =
     (case ctp_futures p ! f of
        FutResult token \<Rightarrow> (Some token, ctp_forget f p)
      | _ \<Rightarrow> (None, ctp_forget f p))"

definition ctp_timed_out :: "nat \<Rightarrow> 'm ctp \<Rightarrow> 'm ctp" where
  "ctp_timed_out f p = p\<lparr>ctp_futures := (ctp_futures p)[f := FutCancelled]\<rparr>"

definition ctp_release_token :: "rat \<Rightarrow> string \<Rightarrow> 'm ctp \<Rightarrow> bool \<times> 'm ctp" where
  "ctp_release_token now token_id p =
     (case dget (ctp_acquired_tokens p) token_id of
        None \<Rightarrow> (False, p)
      | Some token \<Rightarrow>
          (let p1 = p\<lparr>ctp_acquired_tokens := ddel token_id (ctp_acquired_tokens p),
                      ctp_available_tokens := insert token_id (ctp_available_tokens p)\<rparr>
           in case ctp_waiting_requests p1 of
                [] \<Rightarrow> (True, p1)
              | f # fs \<Rightarrow>
                  (let p2 = p1\<lparr>ctp_waiting_requests := fs\<rparr>
                   in if ctp_futures p2 ! f = FutPending then
                        (True, p2\<lparr>ctp_futures := (ctp_futures p2)[f := FutResult
                           \<lparr>ct_token_id = token_id, ct_tenant_id = ct_tenant_id token,
                            ct_resource_type = ctp_resource_type p2, ct_acquired_at = now,
                            ct_expires_at = ct_expires_at token, ct_status = CtAcquired,
                            ct_metadata = ct_metadata token\<rparr>]\<rparr>)
                      else (True, p2))))"

record 'm ctp_metrics =
  ctpm_resource_type :: string
  ctpm_total_tokens :: int
  ctpm_available_tokens :: nat
  ctpm_acquired_tokens :: nat
  ctpm_waiting_requests :: nat
  ctpm_utilization :: rat
  ctpm_details :: "(string \<times> string \<times> rat \<times> rat option \<times> bool) list"

definition ctp_get_metrics :: "rat \<Rightarrow> 'm ctp \<Rightarrow> exn + 'm ctp_metrics" where
  "ctp_get_metrics now p =
     (if ctp_total_tokens p = 0
      then Inl (Exn [''ZeroDivisionError'', ''ArithmeticError'', ''Exception''] ''division by zero'')
      else Inr \<lparr>ctpm_resource_type = ctp_resource_type p, ctpm_total_tokens = ctp_total_tokens p,
        ctpm_available_tokens = card (ctp_available_tokens p),
        ctpm_acquired_tokens = length (ctp_acquired_tokens p),
        ctpm_waiting_requests = length (ctp_waiting_requests p),
        ctpm_utilization = of_nat (length (ctp_acquired_tokens p)) / of_int (ctp_total_tokens p),
        ctpm_details = map (\<lambda>(_, t). (ct_token_id t, ct_tenant_id t, ct_acquired_at t,
          ct_expires_at t, ct_is_expired now t)) (ctp_acquired_tokens p)\<rparr>)"

section \<open>The manager\<close>

record 'm ctm =
  ctm_token_pools :: "(string, 'm ctp) dict"
  ctm_tenant_limits :: "(string, ct_limits) dict"
  ctm_tenant_tokens :: "(string, (string, string set) dict) dict"
  ctm_cleanup_running :: bool

definition ctm_init :: "'m ctm" where
  "ctm_init =
     \<lparr>ctm_token_pools = map (\<lambda>(r, n). (r, ctp_init r n))
        [(''requests'', 1000), (''agents'', 100), (''workflows'', 200), (''tools'', 500)],
      ctm_tenant_limits = [], ctm_tenant_tokens = [], ctm_cleanup_running = False\<rparr>"

definition ctm_start :: "'m ctm \<Rightarrow> 'm ctm" where
  "ctm_start m = m\<lparr>ctm_cleanup_running := True\<rparr>"

definition ctm_stop :: "'m ctm \<Rightarrow> 'm ctm" where
  "ctm_stop m = (if ctm_cleanup_running m then m\<lparr>ctm_cleanup_running := False\<rparr> else m)"

definition ctm_set_tenant_limits :: "ct_limits \<Rightarrow> 'm ctm \<Rightarrow> 'm ctm" where
  "ctm_set_tenant_limits limits m =
     (let tenant = ctl_tenant_id limits;
          d0 = dget_or [] (ctm_tenant_tokens m) tenant;
          d1 = fold (\<lambda>r d. if dget d r = None then dset r {} d else d) (map fst (ctm_token_pools m)) d0
      in m\<lparr>ctm_tenant_limits := dset tenant limits (ctm_tenant_limits m),
           ctm_tenant_tokens := dset tenant d1 (ctm_tenant_tokens m)\<rparr>)"

definition ctm_held :: "string \<Rightarrow> string \<Rightarrow> 'm ctm \<Rightarrow> string set" where
  "ctm_held tenant_id resource_type m =
     dget_or {} (dget_or [] (ctm_tenant_tokens m) tenant_id) resource_type"

definition ctm_check_tenant_limits :: "string \<Rightarrow> string \<Rightarrow> 'm ctm \<Rightarrow> bool" where
  "ctm_check_tenant_limits tenant_id resource_type m =
     (case dget (ctm_tenant_limits m) tenant_id of
        None \<Rightarrow> True
      | Some limits \<Rightarrow>
          (let current_count = int (card (ctm_held tenant_id resource_type m))
           in if resource_type = ''requests'' then current_count < ctl_max_concurrent_requests limits
              else if resource_type = ''agents'' then current_count < ctl_max_concurrent_agents limits
              else if resource_type = ''workflows'' then current_count < ctl_max_concurrent_workflows limits
              else if resource_type = ''tools'' then current_count < ctl_max_concurrent_tools limits
              else True))"

definition ctm_put_pool :: "string \<Rightarrow> 'm ctp \<Rightarrow> 'm ctm \<Rightarrow> 'm ctm" where
  "ctm_put_pool r p m = m\<lparr>ctm_token_pools := dset r p (ctm_token_pools m)\<rparr>"

text \<open>Recording a token for its tenant, after the pool gave it.\<close>

definition ctm_track :: "string \<Rightarrow> string \<Rightarrow> string \<Rightarrow> 'm ctm \<Rightarrow> 'm ctm" where
  "ctm_track tenant_id resource_type token_id m =
     (let d = dget_or [] (ctm_tenant_tokens m) tenant_id;
          s = dget_or {} d resource_type
      in m\<lparr>ctm_tenant_tokens :=
             dset tenant_id (dset resource_type (insert token_id s) d) (ctm_tenant_tokens m)\<rparr>)"

definition ctm_acquire_token ::
  "(string set \<Rightarrow> string) \<Rightarrow> rat \<Rightarrow> string \<Rightarrow> string \<Rightarrow> rat option \<Rightarrow> rat option \<Rightarrow>
   (string, 'm) dict option \<Rightarrow> 'm ctm \<Rightarrow> 'm ct_answer \<times> 'm ctm" where
  "ctm_acquire_token pick now tenant_id resource_type timeout expires_in metadata m =
     (case dget (ctm_token_pools m) resource_type of
        None \<Rightarrow> (CtNone, m)
      | Some p \<Rightarrow>
          if \<not> ctm_check_tenant_limits tenant_id resource_type m then (CtNone, m)
          else
            (case ctp_acquire_token pick now tenant_id timeout expires_in metadata p of
               (CtToken t, p') \<Rightarrow>
                 (CtToken t, ctm_track tenant_id resource_type (ct_token_id t)
                    (ctm_put_pool resource_type p' m))
             | (a, p') \<Rightarrow> (a, ctm_put_pool resource_type p' m)))"

text \<open>The rest of \<open>acquire_token\<close> after a wait on the future \<open>f\<close>.\<close>

definition ctm_acquire_woken ::
  "string \<Rightarrow> string \<Rightarrow> nat \<Rightarrow> 'm ctm \<Rightarrow> 'm ctoken option \<times> 'm ctm" where
  "ctm_acquire_woken tenant_id resource_type f m =
     (case dget (ctm_token_pools m) resource_type of
        None \<Rightarrow> (None, m)
      | Some p \<Rightarrow>
          (case ctp_woken f p of
             (Some t, p') \<Rightarrow>
               (Some t, ctm_track tenant_id resource_type (ct_token_id t)
                  (ctm_put_pool resource_type p' m))
           | (None, p') \<Rightarrow> (None, ctm_put_pool resource_type p' m)))"

definition ctm_release_token :: "rat \<Rightarrow> 'm ctoken \<Rightarrow> 'm ctm \<Rightarrow> bool \<times> 'm ctm" where
  "ctm_release_token now t m =
     (case dget (ctm_token_pools m) (ct_resource_type t) of
        None \<Rightarrow> (False, m)
      | Some p \<Rightarrow>
          (case ctp_release_token now (ct_token_id t) p of
             (False, p') \<Rightarrow> (False, ctm_put_pool (ct_resource_type t) p' m)
           | (True, p') \<Rightarrow>
               (let m1 = ctm_put_pool (ct_resource_type t) p' m
                in case dget (ctm_tenant_tokens m1) (ct_tenant_id t) of
                     None \<Rightarrow> (True, m1)
                   | Some d \<Rightarrow>
                       (case dget d (ct_resource_type t) of
                          None \<Rightarrow> (True, m1)
                        | Some s \<Rightarrow>
                            (True, m1\<lparr>ctm_tenant_tokens := dset (ct_tenant_id t)
                               (dset (ct_resource_type t) (s - {ct_token_id t}) d)
                               (ctm_tenant_tokens m1)\<rparr>)))))"

text \<open>One round of the clean-up task: it releases expired tokens to their pools.\<close>

definition ctp_release_expired :: "rat \<Rightarrow> 'm ctp \<Rightarrow> 'm ctp" where
  "ctp_release_expired now p =
     (let expired = map fst (filter (\<lambda>(_, t). ct_is_expired now t) (ctp_acquired_tokens p))
      in fold (\<lambda>i q. snd (ctp_release_token now i q)) expired p)"

definition ctm_cleanup_expired_tokens :: "rat \<Rightarrow> 'm ctm \<Rightarrow> 'm ctm" where
  "ctm_cleanup_expired_tokens now m =
     m\<lparr>ctm_token_pools := map (\<lambda>(r, p). (r, ctp_release_expired now p)) (ctm_token_pools m)\<rparr>"

record ct_tenant_metrics =
  ctt_tenant_id :: string
  ctt_resource_usage :: "(string, nat \<times> string set) dict"
  ctt_limits :: "ct_limits option"
  ctt_total_tokens_acquired :: nat

definition ctm_get_tenant_metrics :: "string \<Rightarrow> 'm ctm \<Rightarrow> ct_tenant_metrics" where
  "ctm_get_tenant_metrics tenant_id m =
     (let d = dget_or [] (ctm_tenant_tokens m) tenant_id
      in \<lparr>ctt_tenant_id = tenant_id,
          ctt_resource_usage = map (\<lambda>(r, s). (r, (card s, s))) d,
          ctt_limits = dget (ctm_tenant_limits m) tenant_id,
          ctt_total_tokens_acquired = sum_list (map (\<lambda>(_, s). card s) d)\<rparr>)"

fun ctm_pool_metrics :: "rat \<Rightarrow> (string, 'm ctp) dict \<Rightarrow> exn + (string, 'm ctp_metrics) dict" where
  "ctm_pool_metrics now [] = Inr []"
| "ctm_pool_metrics now ((r, p) # ps) =
     (case ctp_get_metrics now p of
        Inl e \<Rightarrow> Inl e
      | Inr x \<Rightarrow> (case ctm_pool_metrics now ps of Inl e \<Rightarrow> Inl e | Inr xs \<Rightarrow> Inr ((r, x) # xs)))"

definition ctm_get_global_metrics ::
  "rat \<Rightarrow> 'm ctm \<Rightarrow> exn + nat \<times> (string, 'm ctp_metrics) dict \<times> nat" where
  "ctm_get_global_metrics now m =
     (case ctm_pool_metrics now (ctm_token_pools m) of
        Inl e \<Rightarrow> Inl e
      | Inr xs \<Rightarrow>
          Inr (length (ctm_tenant_limits m), xs,
               sum_list (map (\<lambda>(_, x). ctpm_acquired_tokens x) xs)))"

text \<open>
  Releasing every token tracked for a tenant. The sets are iterated as lists; the order is the
  parameter \<open>listed\<close>.
\<close>

fun ctm_force_release_ids ::
  "rat \<Rightarrow> string \<Rightarrow> string \<Rightarrow> string list \<Rightarrow> nat \<times> 'm ctm \<Rightarrow> nat \<times> 'm ctm" where
  "ctm_force_release_ids now tenant r [] nm = nm"
| "ctm_force_release_ids now tenant r (i # is) (n, m) =
     (case dget (ctm_token_pools m) r of
        None \<Rightarrow> ctm_force_release_ids now tenant r is (n, m)
      | Some p \<Rightarrow>
          (case ctp_release_token now i p of
             (False, p') \<Rightarrow> ctm_force_release_ids now tenant r is (n, ctm_put_pool r p' m)
           | (True, p') \<Rightarrow>
               (let m1 = ctm_put_pool r p' m;
                    d = dget_or [] (ctm_tenant_tokens m1) tenant
                in ctm_force_release_ids now tenant r is
                     (n + 1, m1\<lparr>ctm_tenant_tokens :=
                        dset tenant (dset r (dget_or {} d r - {i}) d) (ctm_tenant_tokens m1)\<rparr>))))"

definition ctm_force_release_tenant_tokens ::
  "(string set \<Rightarrow> string list) \<Rightarrow> rat \<Rightarrow> string \<Rightarrow> 'm ctm \<Rightarrow> nat \<times> 'm ctm" where
  "ctm_force_release_tenant_tokens listed now tenant_id m =
     (case dget (ctm_tenant_tokens m) tenant_id of
        None \<Rightarrow> (0, m)
      | Some d \<Rightarrow>
          fold (\<lambda>(r, s) nm. ctm_force_release_ids now tenant_id r (listed s) nm) d (0, m))"

section \<open>Without waiting, tokens are conserved\<close>

text \<open>
  Any sequence of acquisitions that do not wait (no positive timeout), releases and clean-up
  rounds, by any number of callers.
\<close>

inductive ctp_run :: "(string set \<Rightarrow> string) \<Rightarrow> string \<Rightarrow> int \<Rightarrow> 'm ctp \<Rightarrow> bool"
  for pick :: "string set \<Rightarrow> string" and r n where
  created: "ctp_run pick r n (ctp_init r n)"
| acquired: "ctp_run pick r n p \<Longrightarrow> (case tmo of None \<Rightarrow> True | Some x \<Rightarrow> x \<le> 0) \<Longrightarrow>
    ctp_acquire_token pick now tenant tmo expires md p = (a, p') \<Longrightarrow> ctp_run pick r n p'"
| released: "ctp_run pick r n p \<Longrightarrow> ctp_release_token now i p = (b, p') \<Longrightarrow> ctp_run pick r n p'"
| cleaned: "ctp_run pick r n p \<Longrightarrow> ctp_run pick r n (ctp_release_expired now p)"

definition ctp_inv :: "string \<Rightarrow> int \<Rightarrow> 'm ctp \<Rightarrow> bool" where
  "ctp_inv r n p \<longleftrightarrow> ctp_waiting_requests p = [] \<and> wf_dict (ctp_acquired_tokens p) \<and>
     ctp_available_tokens p \<inter> set (map fst (ctp_acquired_tokens p)) = {} \<and>
     ctp_available_tokens p \<union> set (map fst (ctp_acquired_tokens p)) = set (ctp_ids r n) \<and>
     ctp_total_tokens p = n \<and> ctp_resource_type p = r"

lemma keys_dset: "set (map fst (dset k v d)) = insert k (set (map fst d))"
  by (simp add: dom_update)

lemma keys_ddel: "set (map fst (ddel k d)) = set (map fst d) - {k}"
  by (simp add: delete_keys)

lemma ctp_inv_release:
  assumes "ctp_inv r n p" and "ctp_release_token now i p = (b, p')"
  shows "ctp_inv r n p'"
proof -
  have "i \<in> set (map fst (ctp_acquired_tokens p))" if "dget (ctp_acquired_tokens p) i = Some t" for t
    using that by (metis domI dom_map_of_conv_image_fst image_set)
  with assms show ?thesis
    by (auto simp: ctp_release_token_def ctp_inv_def Let_def keys_ddel simp del: set_map
        split: option.splits)
qed

lemma ctp_inv_run:
  assumes "ctp_run pick r n p" and pick: "\<And>A. finite A \<Longrightarrow> A \<noteq> {} \<Longrightarrow> pick A \<in> A"
  shows "ctp_inv r n p"
  using assms(1)
proof induction
  case created
  then show ?case by (simp add: ctp_inv_def ctp_init_def)
next
  case (acquired p tmo now tenant expires md a p')
  have "finite (ctp_available_tokens p)"
    using acquired.IH unfolding ctp_inv_def by (metis List.finite_set finite_Un)
  with acquired show ?case
    using pick [of "ctp_available_tokens p"]
    by (auto simp: ctp_acquire_token_def ctp_inv_def Let_def keys_dset simp del: set_map
        split: if_splits)
next
  case (released p now i b p')
  then show ?case using ctp_inv_release by blast
next
  case (cleaned p now)
  have "ctp_inv r n (fold (\<lambda>i q. snd (ctp_release_token now i q)) is p)" for "is"
    using cleaned.IH
    by (induction "is" arbitrary: p) (auto intro: ctp_inv_release prod.collapse [symmetric])
  then show ?case by (simp add: ctp_release_expired_def Let_def)
qed

lemma card_ctp_ids: "card (set (ctp_ids r n)) = nat n"
proof -
  have "inj_on (\<lambda>i. r @ ''_token_'' @ nat_str i) (set [0..<nat n])"
    using inj_nat_str by (auto simp: inj_on_def)
  then show ?thesis by (simp add: ctp_ids_def card_image)
qed

section \<open>Properties\<close>

text \<open>
  C10. As long as nobody waits, tokens are conserved: available and acquired tokens are
  disjoint and together are all the tokens of the pool, and a token that is handed out was
  held by nobody. So at most \<open>total_tokens\<close> are held at any time, each by one holder.
\<close>

theorem ctp_tokens_conserved:
  assumes "ctp_run pick r n p" and "\<And>A. finite A \<Longrightarrow> A \<noteq> {} \<Longrightarrow> pick A \<in> A" and "0 \<le> n"
  shows "ctp_available_tokens p \<inter> set (map fst (ctp_acquired_tokens p)) = {} \<and>
    int (card (ctp_available_tokens p)) + int (length (ctp_acquired_tokens p)) = n \<and>
    (\<forall>now tenant tmo expires md t p'.
       ctp_acquire_token pick now tenant tmo expires md p = (CtToken t, p') \<longrightarrow>
       dget (ctp_acquired_tokens p) (ct_token_id t) = None \<and>
       dget (ctp_acquired_tokens p') (ct_token_id t) = Some t)"
proof -
  let ?A = "ctp_available_tokens p" and ?K = "set (map fst (ctp_acquired_tokens p))"
  have inv: "?A \<inter> ?K = {}" "?A \<union> ?K = set (ctp_ids r n)" "wf_dict (ctp_acquired_tokens p)"
    using ctp_inv_run [OF assms(1,2)] by (simp_all add: ctp_inv_def)
  have fin: "finite ?A" "finite ?K" using inv(2) by (metis List.finite_set finite_Un)+
  have "card ?A + card ?K = nat n" using card_Un_disjoint [OF fin inv(1)] inv(2) card_ctp_ids by metis
  moreover have "card ?K = length (ctp_acquired_tokens p)"
    using inv(3) distinct_card unfolding wf_dict_def by fastforce
  ultimately have "int (card ?A) + int (length (ctp_acquired_tokens p)) = n" using assms(3) by simp
  moreover have "dget (ctp_acquired_tokens p) (ct_token_id t) = None \<and>
      dget (ctp_acquired_tokens p') (ct_token_id t) = Some t"
    if "ctp_acquire_token pick now tenant tmo expires md p = (CtToken t, p')" for now tenant tmo expires md t p'
  proof -
    have t: "?A \<noteq> {}" "ct_token_id t = pick ?A"
      "ctp_acquired_tokens p' = dset (pick ?A) t (ctp_acquired_tokens p)"
      using that by (auto simp: ctp_acquire_token_def Let_def split: if_splits)
    then have "pick ?A \<notin> ?K" using assms(2) [of ?A] inv(1) fin by blast
    then have "dget (ctp_acquired_tokens p) (pick ?A) = None" by (simp add: map_of_eq_None_iff)
    then show ?thesis using t by (simp add: dget_dset)
  qed
  ultimately show ?thesis using inv(1) by blast
qed

text \<open>
  With a waiter, isolation is lost. When a token is released while somebody waits, the
  token is put back among the available ones and also handed to the waiter: the waiter holds
  it, the pool does not know, and the next caller is given the same token. The waiter cannot
  even release it before that happens.
\<close>

theorem ctp_token_handed_out_twice:
  assumes "dget (ctp_acquired_tokens p) i = Some tok" and "ctp_waiting_requests p = f # fs"
    and "f < length (ctp_futures p)" and "ctp_futures p ! f = FutPending" and "wf_dict (ctp_acquired_tokens p)"
    and "ctp_release_token now i p = (ok, p1)" and "ctp_woken f p1 = (waiter, p2)"
    and "pick (ctp_available_tokens p2) = i"
    and "ctp_acquire_token pick now' tenant tmo expires md p2 = (next_caller, p3)"
  shows "\<exists>t1 t2. waiter = Some t1 \<and> next_caller = CtToken t2 \<and> ct_token_id t1 = i \<and> ct_token_id t2 = i \<and>
    ctp_release_token now' i p2 = (False, p2)"
proof -
  let ?t1 = "\<lparr>ct_token_id = i, ct_tenant_id = ct_tenant_id tok, ct_resource_type = ctp_resource_type p,
      ct_acquired_at = now, ct_expires_at = ct_expires_at tok, ct_status = CtAcquired,
      ct_metadata = ct_metadata tok\<rparr>"
  have p1: "ctp_available_tokens p1 = insert i (ctp_available_tokens p)" "ctp_futures p1 ! f = FutResult ?t1"
    "ctp_acquired_tokens p1 = ddel i (ctp_acquired_tokens p)"
    using assms(1-4,6) by (auto simp: ctp_release_token_def Let_def)
  have "ctp_woken f p1 = (Some ?t1, ctp_forget f p1)" by (simp add: ctp_woken_def p1(2))
  then have eq: "waiter = Some ?t1" "p2 = ctp_forget f p1" using assms(7) by simp_all
  have p2: "ctp_available_tokens p2 = insert i (ctp_available_tokens p)"
    "dget (ctp_acquired_tokens p2) i = None"
    using p1 unfolding eq(2) ctp_forget_def by (simp_all add: delete_conv')
  have rel: "ctp_release_token now' i p2 = (False, p2)" using p2(2) by (simp add: ctp_release_token_def)
  have ne: "ctp_available_tokens p2 \<noteq> {}" using p2(1) by simp
  have "\<exists>t2. next_caller = CtToken t2 \<and> ct_token_id t2 = pick (ctp_available_tokens p2)"
    using assms(9) ne by (auto simp: ctp_acquire_token_def Let_def)
  then obtain t2 where "next_caller = CtToken t2" "ct_token_id t2 = pick (ctp_available_tokens p2)" by blast
  moreover have "ct_token_id ?t1 = i" by simp
  ultimately show ?thesis using assms(8) rel eq(1) by metis
qed

lemma ctm_cleanup_keeps_tracking: "ctm_held t r (ctm_cleanup_expired_tokens now m) = ctm_held t r m"
  "ctm_tenant_limits (ctm_cleanup_expired_tokens now m) = ctm_tenant_limits m"
  by (simp_all add: ctm_held_def ctm_cleanup_expired_tokens_def)

lemma ctm_cleanup_check:
  "ctm_check_tenant_limits t r (ctm_cleanup_expired_tokens now m) = ctm_check_tenant_limits t r m"
  by (simp only: ctm_check_tenant_limits_def ctm_cleanup_keeps_tracking)

text \<open>
  Expired tokens count for ever against the tenant that let them expire. The clean-up
  gives them back to the pool but does not take them from the tenant's record, so a tenant
  at its limit stays refused through any number of clean-up rounds, at whatever time, though
  it holds nothing.
\<close>

theorem ctm_expired_tokens_block_tenant:
  assumes "\<not> ctm_check_tenant_limits tenant r m"
  shows "fst (ctm_acquire_token pick now tenant r tmo expires md
      (fold ctm_cleanup_expired_tokens rounds m)) = CtNone"
proof -
  have "\<not> ctm_check_tenant_limits tenant r (fold ctm_cleanup_expired_tokens rounds m)"
    using assms
    by (induction rounds arbitrary: m) (simp_all add: ctm_cleanup_check)
  then show ?thesis by (simp add: ctm_acquire_token_def split: option.split)
qed

lemma ctm_limit_respected:
  assumes "ctm_acquire_token pick now tenant ''requests'' tmo expires md m = (CtToken t, m')"
    and "dget (ctm_tenant_limits m) tenant = Some limits" and "finite (ctm_held tenant ''requests'' m)"
  shows "int (card (ctm_held tenant ''requests'' m')) \<le> ctl_max_concurrent_requests limits"
proof -
  let ?H = "ctm_held tenant ''requests'' m"
  obtain p where p: "dget (ctm_token_pools m) ''requests'' = Some p"
    and chk: "ctm_check_tenant_limits tenant ''requests'' m"
    using assms(1) by (auto simp: ctm_acquire_token_def split: option.splits if_splits)
  obtain a p' where a: "ctp_acquire_token pick now tenant tmo expires md p = (a, p')" by (rule prod.exhaust)
  have ok: "int (card ?H) < ctl_max_concurrent_requests limits"
    using chk assms(2) by (simp add: ctm_check_tenant_limits_def)
  have "m' = ctm_track tenant ''requests'' (ct_token_id t) (ctm_put_pool ''requests'' p' m)"
    using assms(1) p chk a by (simp add: ctm_acquire_token_def split: ct_answer.splits)
  then have "ctm_held tenant ''requests'' m' = insert (ct_token_id t) ?H"
    by (simp add: ctm_track_def ctm_put_pool_def ctm_held_def dget_or_def Let_def dget_dset)
  then have "card (ctm_held tenant ''requests'' m') \<le> Suc (card ?H)"
    using assms(3) by (simp add: card_insert_if)
  then show ?thesis using ok by linarith
qed

section \<open>Witnesses\<close>

text \<open>A pool of one token whose holder releases it while another caller waits.\<close>

definition ct_pick :: "string set \<Rightarrow> string" where
  "ct_pick A = Min A"

lemma ct_pick_in: "finite A \<Longrightarrow> A \<noteq> {} \<Longrightarrow> ct_pick A \<in> A"
  by (simp add: ct_pick_def)

definition ct_demo_token :: "unit ctoken" where
  "ct_demo_token = \<lparr>ct_token_id = ''tools_token_0'', ct_tenant_id = ''acme'', ct_resource_type = ''tools'',
     ct_acquired_at = 1, ct_expires_at = None, ct_status = CtAcquired, ct_metadata = []\<rparr>"

definition ct_demo_pool :: "unit ctp" where
  "ct_demo_pool = snd (ctp_acquire_token ct_pick 1 ''acme'' None None None (ctp_init ''tools'' 1))"

definition ct_demo_waiting :: "unit ctp" where
  "ct_demo_waiting = snd (ctp_acquire_token ct_pick 2 ''zeta'' (Some 30) None None ct_demo_pool)"

lemma nat_str_0: "nat_str 0 = ''0''"
  by (simp add: nat_str.simps [of 0] char_of_def bit_Suc_0_iff)

lemma ct_demo_pool: "ct_demo_pool =
    \<lparr>ctp_resource_type = ''tools'', ctp_total_tokens = 1, ctp_available_tokens = {},
     ctp_acquired_tokens = [(''tools_token_0'', ct_demo_token)], ctp_waiting_requests = [], ctp_futures = []\<rparr>"
  by (simp add: ct_demo_pool_def ctp_acquire_token_def ctp_init_def ctp_ids_def ct_pick_def nat_str_0
      ct_demo_token_def Let_def)

lemma ct_demo_waiting: "ct_demo_waiting =
    \<lparr>ctp_resource_type = ''tools'', ctp_total_tokens = 1, ctp_available_tokens = {},
     ctp_acquired_tokens = [(''tools_token_0'', ct_demo_token)], ctp_waiting_requests = [0],
     ctp_futures = [FutPending]\<rparr>"
  by (simp add: ct_demo_waiting_def ct_demo_pool ctp_acquire_token_def)

theorem ctp_tokens_conserved_witness:
  "int (card (ctp_available_tokens ct_demo_pool)) + int (length (ctp_acquired_tokens ct_demo_pool)) = 1"
proof -
  have id: "ctp_acquire_token ct_pick 1 ''acme'' None None None (ctp_init ''tools'' 1) =
      (CtToken ct_demo_token, ct_demo_pool)"
    by (simp add: ct_demo_pool ctp_acquire_token_def ctp_init_def ctp_ids_def nat_str_0 ct_demo_token_def
        ct_pick_def Let_def)
  have "ctp_run ct_pick ''tools'' 1 ct_demo_pool"
    by (rule ctp_run.acquired [OF ctp_run.created _ id]) simp
  from ctp_tokens_conserved [OF this ct_pick_in] show ?thesis by simp
qed

theorem ctp_token_handed_out_twice_witness:
  "\<exists>t1 t2 p1 p2 p3. ctp_release_token 3 ''tools_token_0'' ct_demo_waiting = (True, p1) \<and>
     ctp_woken 0 p1 = (Some t1, p2) \<and>
     ctp_acquire_token ct_pick 4 ''nova'' None None None p2 = (CtToken t2, p3) \<and>
     ct_token_id t1 = ct_token_id t2"
proof -
  let ?t = "ct_demo_token\<lparr>ct_acquired_at := 3\<rparr>"
  let ?p1 = "\<lparr>ctp_resource_type = ''tools'', ctp_total_tokens = 1, ctp_available_tokens = {''tools_token_0''},
     ctp_acquired_tokens = [], ctp_waiting_requests = [], ctp_futures = [FutResult ?t]\<rparr>"
  have r: "ctp_release_token 3 ''tools_token_0'' ct_demo_waiting = (True, ?p1)"
    by (simp add: ctp_release_token_def ct_demo_waiting ct_demo_token_def Let_def)
  have w: "ctp_woken 0 ?p1 = (Some ?t, ?p1)" by (simp add: ctp_woken_def ctp_forget_def)
  obtain a p3 where a: "ctp_acquire_token ct_pick 4 ''nova'' None None None ?p1 = (a, p3)" by (rule prod.exhaust)
  have "\<exists>t1 t2. Some ?t = Some t1 \<and> a = CtToken t2 \<and> ct_token_id t1 = ''tools_token_0'' \<and>
      ct_token_id t2 = ''tools_token_0'' \<and> ctp_release_token 4 ''tools_token_0'' ?p1 = (False, ?p1)"
    by (rule ctp_token_handed_out_twice [OF _ _ _ _ _ r w _ a])
      (simp_all add: ct_demo_waiting wf_dict_def ct_pick_def)
  then obtain t2 where "a = CtToken t2" "ct_token_id t2 = ct_token_id ?t" by auto
  with r w a show ?thesis by metis
qed

definition ct_demo_manager :: "unit ctm" where
  "ct_demo_manager =
     snd (ctm_acquire_token ct_pick 1 ''acme'' ''tools'' None (Some 5) None
       (ctm_set_tenant_limits
          \<lparr>ctl_tenant_id = ''acme'', ctl_max_concurrent_requests = 1, ctl_max_concurrent_agents = 1,
           ctl_max_concurrent_workflows = 1, ctl_max_concurrent_tools = 1, ctl_priority_weight = 1,
           ctl_burst_limit = 0\<rparr>
          \<lparr>ctm_token_pools = [(''tools'', ctp_init ''tools'' 1)], ctm_tenant_limits = [],
           ctm_tenant_tokens = [], ctm_cleanup_running = True\<rparr>))"

theorem ctm_expired_tokens_block_tenant_witness:
  "fst (ctm_acquire_token ct_pick 100 ''acme'' ''tools'' None None None
     (fold ctm_cleanup_expired_tokens [30, 60, 90] ct_demo_manager)) = CtNone \<and>
   ctp_available_tokens (the (dget (ctm_token_pools
     (fold ctm_cleanup_expired_tokens [30, 60, 90] ct_demo_manager)) ''tools'')) = {''tools_token_0''}"
proof -
  have m: "ct_demo_manager =
      \<lparr>ctm_token_pools = [(''tools'', ct_demo_pool\<lparr>ctp_acquired_tokens :=
         [(''tools_token_0'', ct_demo_token\<lparr>ct_expires_at := Some 6\<rparr>)]\<rparr>)],
       ctm_tenant_limits = [(''acme'', \<lparr>ctl_tenant_id = ''acme'', ctl_max_concurrent_requests = 1,
         ctl_max_concurrent_agents = 1, ctl_max_concurrent_workflows = 1, ctl_max_concurrent_tools = 1,
         ctl_priority_weight = 1, ctl_burst_limit = 0\<rparr>)],
       ctm_tenant_tokens = [(''acme'', [(''tools'', {''tools_token_0''})])], ctm_cleanup_running = True\<rparr>"
    by (simp add: ct_demo_manager_def ctm_set_tenant_limits_def ctm_acquire_token_def ctm_track_def
        ctm_put_pool_def ctm_check_tenant_limits_def ctm_held_def dget_or_def ctp_acquire_token_def
        ctp_init_def ctp_ids_def nat_str_0 ct_pick_def ct_demo_pool ct_demo_token_def Let_def)
  have "\<not> ctm_check_tenant_limits ''acme'' ''tools'' ct_demo_manager"
    by (simp add: m ctm_check_tenant_limits_def ctm_held_def dget_or_def)
  from ctm_expired_tokens_block_tenant [OF this]
  have "fst (ctm_acquire_token ct_pick 100 ''acme'' ''tools'' None None None
      (fold ctm_cleanup_expired_tokens [30, 60, 90] ct_demo_manager)) = CtNone" .
  moreover have "ctp_available_tokens (the (dget (ctm_token_pools
      (fold ctm_cleanup_expired_tokens [30, 60, 90] ct_demo_manager)) ''tools'')) = {''tools_token_0''}"
    by (simp add: m ctm_cleanup_expired_tokens_def ctp_release_expired_def ct_is_expired_def ct_demo_pool
        ct_demo_token_def ctp_release_token_def)
  ultimately show ?thesis by (rule conjI)
qed

end
