(* ===== verification/Fairness.thy ===== *)
theory Fairness
  imports Interfaces "HOL-Library.Product_Lexorder"
begin

text \<open>
  \<^verbatim>\<open>libs/security/fairness_middleware.py\<close>: \<open>WeightedFairScheduler\<close>, \<open>PreAdmissionControl\<close> and
  \<open>FairnessMiddleware\<close>. None of the methods awaits anything but the others, so each is one
  atomic operation. A \<open>defaultdict\<close> stores its default when a missing key is read, which
  decides the order in which the tenants are looked at; \<open>touch\<close> is that read.
\<close>

section \<open>Data\<close>

datatype tenant_tier = TierFree | TierStandard | TierPremium | TierEnterprise

fun tenant_tier_value :: "tenant_tier \<Rightarrow> string" where
  "tenant_tier_value TierFree = ''free''"
| "tenant_tier_value TierStandard = ''standard''"
| "tenant_tier_value TierPremium = ''premium''"
| "tenant_tier_value TierEnterprise = ''enterprise''"

datatype degradation_level = DegNormal | DegLight | DegModerate | DegHeavy

text \<open>The levels are ordered by severity.\<close>

fun degradation_rank :: "degradation_level \<Rightarrow> nat" where
  "degradation_rank DegNormal = 0"
| "degradation_rank DegLight = 1"
| "degradation_rank DegModerate = 2"
| "degradation_rank DegHeavy = 3"

lemma degradation_rank_inject [simp]: "degradation_rank a = degradation_rank b \<longleftrightarrow> a = b"
  by (cases a; cases b) simp_all

instantiation degradation_level :: linorder
begin

definition less_eq_degradation_level :: "degradation_level \<Rightarrow> degradation_level \<Rightarrow> bool" where
  "a \<le> b \<longleftrightarrow> degradation_rank a \<le> degradation_rank b"

definition less_degradation_level :: "degradation_level \<Rightarrow> degradation_level \<Rightarrow> bool" where
  "a < b \<longleftrightarrow> degradation_rank a < degradation_rank b"

instance
  by standard (auto simp: less_eq_degradation_level_def less_degradation_level_def)

end

record tenant_weight =
  tw_tenant_id :: string
  tw_tier :: tenant_tier
  tw_weight :: rat
  tw_priority :: int
  tw_max_concurrent :: int
  tw_burst_capacity :: int

record fq_entry =
  fq_tenant_id :: string
  fq_request_id :: string
  fq_priority :: int
  fq_weight :: rat
  fq_arrival_time :: rat
  fq_processing_time :: rat
  fq_metadata :: "(string, string) dict"

definition fq_lt :: "fq_entry \<Rightarrow> fq_entry \<Rightarrow> bool" where
  "fq_lt a b =
     (if fq_priority a \<noteq> fq_priority b then fq_priority a < fq_priority b
      else fq_arrival_time a < fq_arrival_time b)"

record degradation_config =
  dg_level :: degradation_level
  dg_disable_critique :: bool
  dg_disable_debate :: bool
  dg_shrink_context :: bool
  dg_prefer_slm :: bool
  dg_reduce_parallelism :: bool
  dg_limit_tool_calls :: bool

section \<open>The scheduler\<close>

record fs_stats =
  fst_total_requests :: int
  fst_completed_requests :: int
  fst_total_processing_time :: rat
  fst_average_processing_time :: rat
  fst_last_request_time :: "rat option"

definition fs_no_stats :: fs_stats where
  "fs_no_stats =
     \<lparr>fst_total_requests = 0, fst_completed_requests = 0, fst_total_processing_time = 0,
      fst_average_processing_time = 0, fst_last_request_time = None\<rparr>"

record fs =
  fs_tenant_weights :: "(string, tenant_weight) dict"
  fs_tenant_queues :: "(string, fq_entry list) dict"
  fs_active_requests :: "(string, string set) dict"
  fs_tenant_stats :: "(string, fs_stats) dict"

definition fs_init :: fs where
  "fs_init =
     \<lparr>fs_tenant_weights = [], fs_tenant_queues = [], fs_active_requests = [], fs_tenant_stats = []\<rparr>"

definition touch :: "'k \<Rightarrow> 'v \<Rightarrow> ('k, 'v) dict \<Rightarrow> ('k, 'v) dict" where
  "touch k v d = (case dget d k of None \<Rightarrow> dset k v d | Some _ \<Rightarrow> d)"

definition fs_set_tenant_weight :: "tenant_weight \<Rightarrow> fs \<Rightarrow> fs" where
  "fs_set_tenant_weight w s = s\<lparr>fs_tenant_weights := dset (tw_tenant_id w) w (fs_tenant_weights s)\<rparr>"

definition fs_enqueue_request ::
  "rat \<Rightarrow> string \<Rightarrow> string \<Rightarrow> (string, string) dict option \<Rightarrow> fs \<Rightarrow> bool \<times> fs" where
  "fs_enqueue_request now tenant_id request_id metadata s =
     (case dget (fs_tenant_weights s) tenant_id of
        None \<Rightarrow> (False, s)
      | Some w \<Rightarrow>
          (let s1 = s\<lparr>fs_active_requests := touch tenant_id {} (fs_active_requests s)\<rparr>
           in if tw_max_concurrent w \<le> int (card (dget_or {} (fs_active_requests s1) tenant_id))
              then (False, s1)
              else
                (let entry = \<lparr>fq_tenant_id = tenant_id, fq_request_id = request_id,
                        fq_priority = tw_priority w, fq_weight = tw_weight w, fq_arrival_time = now,
                        fq_processing_time = 0,
                        fq_metadata = (case metadata of None \<Rightarrow> [] | Some m \<Rightarrow> m)\<rparr>;
                     x = dget_or fs_no_stats (fs_tenant_stats s1) tenant_id
                 in (True, s1\<lparr>fs_tenant_queues := dset tenant_id
                                (dget_or [] (fs_tenant_queues s1) tenant_id @ [entry]) (fs_tenant_queues s1),
                              fs_tenant_stats := dset tenant_id
                                (x\<lparr>fst_total_requests := fst_total_requests x + 1,
                                   fst_last_request_time := Some now\<rparr>) (fs_tenant_stats s1)\<rparr>))))"

text \<open>
  The loop of \<open>dequeue_request\<close> over the tenant queues: the best candidate so far is its
  virtual time, its first entry and its tenant. A weight of zero raises.
\<close>

definition fs_virtual_time :: "fs_stats \<Rightarrow> tenant_weight \<Rightarrow> rat" where
  "fs_virtual_time x w = fst_total_processing_time x / tw_weight w"

fun fs_scan ::
  "(string, tenant_weight) dict \<Rightarrow> (string, fq_entry list) dict \<Rightarrow> (rat \<times> fq_entry \<times> string) option \<Rightarrow>
   (string, fs_stats) dict \<Rightarrow> (exn + (rat \<times> fq_entry \<times> string) option) \<times> (string, fs_stats) dict" where
  "fs_scan ws [] best st = (Inr best, st)"
| "fs_scan ws ((tenant, []) # qs) best st = fs_scan ws qs best st"
| "fs_scan ws ((tenant, e # es) # qs) best st =
     (case dget ws tenant of
        None \<Rightarrow> fs_scan ws qs best st
      | Some w \<Rightarrow>
          (let st1 = touch tenant fs_no_stats st;
               v = fs_virtual_time (dget_or fs_no_stats st1 tenant) w
           in if tw_weight w = 0
              then (Inl (Exn [''ZeroDivisionError'', ''ArithmeticError'', ''Exception'']
                          ''float division by zero''), st1)
              else
                (case best of
                   None \<Rightarrow> fs_scan ws qs (Some (v, e, tenant)) st1
                 | Some (bv, _, bt) \<Rightarrow>
                     if v < bv \<or> v = bv \<and>
                        tw_priority w < (case dget ws bt of None \<Rightarrow> 0 | Some bw \<Rightarrow> tw_priority bw)
                     then fs_scan ws qs (Some (v, e, tenant)) st1
                     else fs_scan ws qs best st1)))"

definition fs_dequeue_request :: "fs \<Rightarrow> (exn + fq_entry option) \<times> fs" where
  "fs_dequeue_request s =
     (case fs_scan (fs_tenant_weights s) (fs_tenant_queues s) None (fs_tenant_stats s) of
        (Inl e, st) \<Rightarrow> (Inl e, s\<lparr>fs_tenant_stats := st\<rparr>)
      | (Inr None, st) \<Rightarrow> (Inr None, s\<lparr>fs_tenant_stats := st\<rparr>)
      | (Inr (Some (_, e, tenant)), st) \<Rightarrow>
          (Inr (Some e),
           s\<lparr>fs_tenant_stats := st,
             fs_tenant_queues := dset tenant (tl (dget_or [] (fs_tenant_queues s) tenant)) (fs_tenant_queues s),
             fs_active_requests := dset tenant
               (insert (fq_request_id e) (dget_or {} (fs_active_requests s) tenant))
               (fs_active_requests s)\<rparr>))"

definition fs_complete_request :: "string \<Rightarrow> string \<Rightarrow> rat \<Rightarrow> fs \<Rightarrow> fs" where
  "fs_complete_request tenant_id request_id processing_time s =
     (let active = dget_or {} (fs_active_requests s) tenant_id - {request_id};
          x = dget_or fs_no_stats (fs_tenant_stats s) tenant_id;
          n = fst_completed_requests x + 1;
          total = fst_total_processing_time x + processing_time
      in s\<lparr>fs_active_requests := dset tenant_id active (fs_active_requests s),
           fs_tenant_stats := dset tenant_id
             (x\<lparr>fst_completed_requests := n, fst_total_processing_time := total,
                fst_average_processing_time := total / of_int n\<rparr>) (fs_tenant_stats s)\<rparr>)"

record fs_tenant_report =
  ftr_stats :: fs_stats
  ftr_config :: "tenant_weight option"
  ftr_current_active :: nat
  ftr_queue_size :: nat

definition fs_get_tenant_stats :: "string \<Rightarrow> fs \<Rightarrow> fs_tenant_report \<times> fs" where
  "fs_get_tenant_stats tenant_id s =
     (let s1 = s\<lparr>fs_tenant_stats := touch tenant_id fs_no_stats (fs_tenant_stats s)\<rparr>;
          x = dget_or fs_no_stats (fs_tenant_stats s1) tenant_id
      in case dget (fs_tenant_weights s1) tenant_id of
           None \<Rightarrow> (\<lparr>ftr_stats = x, ftr_config = None, ftr_current_active = 0, ftr_queue_size = 0\<rparr>, s1)
         | Some w \<Rightarrow>
             (let s2 = s1\<lparr>fs_active_requests := touch tenant_id {} (fs_active_requests s1),
                         fs_tenant_queues := touch tenant_id [] (fs_tenant_queues s1)\<rparr>
              in (\<lparr>ftr_stats = x, ftr_config = Some w,
                   ftr_current_active = card (dget_or {} (fs_active_requests s2) tenant_id),
                   ftr_queue_size = length (dget_or [] (fs_tenant_queues s2) tenant_id)\<rparr>, s2)))"

fun fs_reports :: "string list \<Rightarrow> fs \<Rightarrow> (string, fs_tenant_report) dict \<times> fs" where
  "fs_reports [] s = ([], s)"
| "fs_reports (t # ts) s =
     (case fs_get_tenant_stats t s of
        (r, s1) \<Rightarrow> (case fs_reports ts s1 of (rs, s2) \<Rightarrow> ((t, r) # rs, s2)))"

record fs_metrics =
  fsm_total_tenants :: nat
  fsm_total_requests :: int
  fsm_total_completed :: int
  fsm_total_active :: nat
  fsm_total_queued :: nat
  fsm_tenant_stats :: "(string, fs_tenant_report) dict"

definition fs_get_scheduler_metrics :: "fs \<Rightarrow> fs_metrics \<times> fs" where
  "fs_get_scheduler_metrics s =
     (case fs_reports (map fst (fs_tenant_weights s)) s of
        (rs, s') \<Rightarrow>
          (\<lparr>fsm_total_tenants = length (fs_tenant_weights s),
            fsm_total_requests = sum_list (map (\<lambda>(_, x). fst_total_requests x) (fs_tenant_stats s)),
            fsm_total_completed = sum_list (map (\<lambda>(_, x). fst_completed_requests x) (fs_tenant_stats s)),
            fsm_total_active = sum_list (map (\<lambda>(_, a). card a) (fs_active_requests s)),
            fsm_total_queued = sum_list (map (\<lambda>(_, q). length q) (fs_tenant_queues s)),
            fsm_tenant_stats = rs\<rparr>, s'))"

section \<open>Admission control\<close>

record pac =
  pac_system_load_threshold :: rat
  pac_cpu_threshold :: rat
  pac_memory_threshold :: rat
  pac_queue_size_threshold :: rat

definition pac_init :: pac where
  "pac_init =
     \<lparr>pac_system_load_threshold = 8/10, pac_cpu_threshold = 85/100, pac_memory_threshold = 9/10,
      pac_queue_size_threshold = 1000\<rparr>"

definition degradation_default :: "degradation_level \<Rightarrow> degradation_config" where
  "degradation_default l =
     \<lparr>dg_level = l, dg_disable_critique = False, dg_disable_debate = False, dg_shrink_context = False,
      dg_prefer_slm = False, dg_reduce_parallelism = False, dg_limit_tool_calls = False\<rparr>"

fun degradation_configs :: "degradation_level \<Rightarrow> degradation_config" where
  "degradation_configs DegNormal = degradation_default DegNormal"
| "degradation_configs DegLight =
     (degradation_default DegLight)\<lparr>dg_prefer_slm := True, dg_reduce_parallelism := True\<rparr>"
| "degradation_configs DegModerate =
     (degradation_default DegModerate)\<lparr>dg_disable_critique := True, dg_shrink_context := True,
        dg_prefer_slm := True, dg_reduce_parallelism := True\<rparr>"
| "degradation_configs DegHeavy =
     (degradation_default DegHeavy)\<lparr>dg_disable_critique := True, dg_disable_debate := True,
        dg_shrink_context := True, dg_prefer_slm := True, dg_reduce_parallelism := True,
        dg_limit_tool_calls := True\<rparr>"

definition pac_load_level :: "(string, rat) dict \<Rightarrow> pac \<Rightarrow> degradation_level" where
  "pac_load_level metrics c =
     (let load = dget_or 0 metrics ''system_load'';
          cpu = dget_or 0 metrics ''cpu_usage'';
          mem = dget_or 0 metrics ''memory_usage''
      in if pac_system_load_threshold c < load \<or> pac_cpu_threshold c < cpu \<or> pac_memory_threshold c < mem
         then (if 95/100 < load \<or> 95/100 < cpu \<or> 95/100 < mem then DegHeavy
               else if 9/10 < load \<or> 9/10 < cpu \<or> 95/100 < mem then DegModerate
               else DegLight)
         else DegNormal)"

definition pac_level :: "(string, rat) dict \<Rightarrow> pac \<Rightarrow> degradation_level" where
  "pac_level metrics c =
     (let l = pac_load_level metrics c
      in if pac_queue_size_threshold c < dget_or 0 metrics ''queue_size'' then
           (if l = DegNormal then DegLight else if l = DegLight then DegModerate else l)
         else l)"

definition pac_check_admission ::
  "(string, string) dict \<Rightarrow> (string, rat) dict \<Rightarrow> pac \<Rightarrow> bool \<times> degradation_config \<times> string" where
  "pac_check_admission request_metadata metrics c =
     (let l = pac_level metrics c;
          low = l = DegHeavy \<and> dget_or ''free'' request_metadata ''tenant_tier'' \<in> {''free'', ''standard''};
          full = pac_queue_size_threshold c * (3/2) < dget_or 0 metrics ''queue_size''
      in (\<not> low \<and> \<not> full, degradation_configs l,
          if full then ''queue_full''
          else if low then ''system_overload_low_priority_rejected'' else ''admitted''))"

definition pac_update_thresholds ::
  "rat option \<Rightarrow> rat option \<Rightarrow> rat option \<Rightarrow> rat option \<Rightarrow> pac \<Rightarrow> pac" where
  "pac_update_thresholds load cpu mem queue c =
     (let c1 = (case load of None \<Rightarrow> c | Some x \<Rightarrow> c\<lparr>pac_system_load_threshold := x\<rparr>);
          c2 = (case cpu of None \<Rightarrow> c1 | Some x \<Rightarrow> c1\<lparr>pac_cpu_threshold := x\<rparr>);
          c3 = (case mem of None \<Rightarrow> c2 | Some x \<Rightarrow> c2\<lparr>pac_memory_threshold := x\<rparr>)
      in case queue of None \<Rightarrow> c3 | Some x \<Rightarrow> c3\<lparr>pac_queue_size_threshold := x\<rparr>)"

section \<open>The middleware\<close>

record fm =
  fm_scheduler :: fs
  fm_admission_control :: pac
  fm_degradation_switches :: "(string, degradation_config) dict"
  fm_total_requests :: int
  fm_admitted_requests :: int
  fm_rejected_requests :: int
  fm_degraded_requests :: int

definition fm_init :: fm where
  "fm_init =
     \<lparr>fm_scheduler = fs_init, fm_admission_control = pac_init, fm_degradation_switches = [],
      fm_total_requests = 0, fm_admitted_requests = 0, fm_rejected_requests = 0,
      fm_degraded_requests = 0\<rparr>"

fun tier_weight :: "tenant_tier \<Rightarrow> rat" where
  "tier_weight TierFree = 1"
| "tier_weight TierStandard = 2"
| "tier_weight TierPremium = 4"
| "tier_weight TierEnterprise = 8"

definition fm_set_tenant_config :: "string \<Rightarrow> tenant_tier \<Rightarrow> int \<Rightarrow> int \<Rightarrow> fm \<Rightarrow> fm" where
  "fm_set_tenant_config tenant_id tier max_concurrent priority m =
     m\<lparr>fm_scheduler := fs_set_tenant_weight
        \<lparr>tw_tenant_id = tenant_id, tw_tier = tier, tw_weight = tier_weight tier, tw_priority = priority,
         tw_max_concurrent = max_concurrent, tw_burst_capacity = 0\<rparr> (fm_scheduler m)\<rparr>"

definition fm_process_request ::
  "rat \<Rightarrow> string \<Rightarrow> string \<Rightarrow> (string, string) dict \<Rightarrow> (string, rat) dict \<Rightarrow> fm \<Rightarrow>
   (bool \<times> degradation_config \<times> string) \<times> fm" where
  "fm_process_request now tenant_id request_id request_metadata system_metrics m =
     (let m1 = m\<lparr>fm_total_requests := fm_total_requests m + 1\<rparr>
      in case pac_check_admission request_metadata system_metrics (fm_admission_control m1) of
           (False, d, reason) \<Rightarrow>
             ((False, d, reason), m1\<lparr>fm_rejected_requests := fm_rejected_requests m1 + 1\<rparr>)
         | (True, d, reason) \<Rightarrow>
             (case fs_enqueue_request now tenant_id request_id (Some request_metadata) (fm_scheduler m1) of
                (False, s) \<Rightarrow>
                  ((False, d, ''tenant_limit_exceeded''),
                   m1\<lparr>fm_scheduler := s, fm_rejected_requests := fm_rejected_requests m1 + 1\<rparr>)
              | (True, s) \<Rightarrow>
                  (let m2 = m1\<lparr>fm_scheduler := s, fm_admitted_requests := fm_admitted_requests m1 + 1\<rparr>
                   in ((True, d, reason),
                       if dg_level d \<noteq> DegNormal
                       then m2\<lparr>fm_degraded_requests := fm_degraded_requests m2 + 1,
                               fm_degradation_switches := dset request_id d (fm_degradation_switches m2)\<rparr>
                       else m2))))"

definition fm_get_next_request :: "fm \<Rightarrow> (exn + (fq_entry \<times> degradation_config) option) \<times> fm" where
  "fm_get_next_request m =
     (case fs_dequeue_request (fm_scheduler m) of
        (Inl e, s) \<Rightarrow> (Inl e, m\<lparr>fm_scheduler := s\<rparr>)
      | (Inr None, s) \<Rightarrow> (Inr None, m\<lparr>fm_scheduler := s\<rparr>)
      | (Inr (Some e), s) \<Rightarrow>
          (Inr (Some (e, dget_or (degradation_configs DegNormal) (fm_degradation_switches m) (fq_request_id e))),
           m\<lparr>fm_scheduler := s,
             fm_degradation_switches := ddel (fq_request_id e) (fm_degradation_switches m)\<rparr>))"

definition fm_complete_request :: "string \<Rightarrow> string \<Rightarrow> rat \<Rightarrow> fm \<Rightarrow> fm" where
  "fm_complete_request tenant_id request_id processing_time m =
     m\<lparr>fm_scheduler := fs_complete_request tenant_id request_id processing_time (fm_scheduler m),
       fm_degradation_switches := ddel request_id (fm_degradation_switches m)\<rparr>"

record fm_metrics =
  fmm_total_requests :: int
  fmm_admitted_requests :: int
  fmm_rejected_requests :: int
  fmm_degraded_requests :: int
  fmm_admission_rate :: rat
  fmm_degradation_rate :: rat
  fmm_scheduler_metrics :: fs_metrics
  fmm_admission_thresholds :: pac

definition fm_get_metrics :: "fm \<Rightarrow> fm_metrics \<times> fm" where
  "fm_get_metrics m =
     (case fs_get_scheduler_metrics (fm_scheduler m) of
        (x, s) \<Rightarrow>
          (\<lparr>fmm_total_requests = fm_total_requests m, fmm_admitted_requests = fm_admitted_requests m,
            fmm_rejected_requests = fm_rejected_requests m,
            fmm_degraded_requests = fm_degraded_requests m,
            fmm_admission_rate = of_int (fm_admitted_requests m) / of_int (max 1 (fm_total_requests m)),
            fmm_degradation_rate = of_int (fm_degraded_requests m) / of_int (max 1 (fm_total_requests m)),
            fmm_scheduler_metrics = x, fmm_admission_thresholds = fm_admission_control m\<rparr>,
           m\<lparr>fm_scheduler := s\<rparr>))"

section \<open>The choice of the scheduler\<close>

text \<open>
  What the loop of \<open>dequeue_request\<close> minimises: the virtual time of a tenant, then its
  priority. The pairs are ordered lexicographically.
\<close>

definition fs_key :: "(string, tenant_weight) dict \<Rightarrow> (string, fs_stats) dict \<Rightarrow> string \<Rightarrow> rat \<times> int" where
  "fs_key ws st t =
     (case dget ws t of
        None \<Rightarrow> (0, 0)
      | Some w \<Rightarrow> (fs_virtual_time (dget_or fs_no_stats st t) w, tw_priority w))"

definition fs_weights_ok :: "(string, tenant_weight) dict \<Rightarrow> bool" where
  "fs_weights_ok ws \<longleftrightarrow> (\<forall>(t, w) \<in> set ws. 0 < tw_weight w)"

definition fs_eligible :: "fs \<Rightarrow> string \<Rightarrow> bool" where
  "fs_eligible s t \<longleftrightarrow> dget_or [] (fs_tenant_queues s) t \<noteq> [] \<and> dget (fs_tenant_weights s) t \<noteq> None"

lemma fs_weights_okD: "fs_weights_ok ws \<Longrightarrow> dget ws t = Some w \<Longrightarrow> 0 < tw_weight w"
  unfolding fs_weights_ok_def by (auto dest!: map_of_SomeD)

lemma touch_get [simp]: "dget_or v (touch k v d) t = dget_or v d t"
  by (auto simp: touch_def dget_or_def dget_dset split: option.splits)

lemma fs_key_touch [simp]: "fs_key ws (touch k fs_no_stats st) = fs_key ws st"
  by (rule ext) (simp add: fs_key_def split: option.splits)

lemma dget_or_dset: "dget_or v (dset k x d) t = (if t = k then x else dget_or v d t)"
  by (simp add: dget_or_def dget_dset)

lemma wf_dict_touch [simp]: "wf_dict d \<Longrightarrow> wf_dict (touch k v d)"
  by (simp add: touch_def split: option.splits)

text \<open>A step of the loop takes the tenant exactly when its key is smaller than the best one.\<close>

lemma fs_scan_step:
  assumes "fs_weights_ok ws" and "dget ws t = Some w"
  shows "fs_scan ws ((t, e # es) # qs) None st =
      fs_scan ws qs (Some (fst (fs_key ws st t), e, t)) (touch t fs_no_stats st)"
    and "dget ws bt \<noteq> None \<Longrightarrow>
      fs_scan ws ((t, e # es) # qs) (Some (fst (fs_key ws st bt), be, bt)) st =
      (if fs_key ws st t < fs_key ws st bt
       then fs_scan ws qs (Some (fst (fs_key ws st t), e, t)) (touch t fs_no_stats st)
       else fs_scan ws qs (Some (fst (fs_key ws st bt), be, bt)) (touch t fs_no_stats st))"
  using assms fs_weights_okD [OF assms]
  by (auto simp: fs_key_def Let_def less_prod_def' split: option.splits)

definition fs_picks ::
  "(string, tenant_weight) dict \<Rightarrow> (string, fq_entry list) dict \<Rightarrow> (string, fs_stats) dict \<Rightarrow>
   fq_entry \<Rightarrow> string \<Rightarrow> bool" where
  "fs_picks ws qs st e t \<longleftrightarrow>
     (\<exists>es. (t, e # es) \<in> set qs) \<and> dget ws t \<noteq> None \<and>
     (\<forall>(u, q) \<in> set qs. q \<noteq> [] \<longrightarrow> dget ws u \<noteq> None \<longrightarrow> fs_key ws st t \<le> fs_key ws st u)"

lemma fs_scan_best:
  assumes "fs_weights_ok ws" and "dget ws bt \<noteq> None"
  shows "\<exists>e t st'. fs_scan ws qs (Some (fst (fs_key ws st bt), be, bt)) st =
           (Inr (Some (fst (fs_key ws st t), e, t)), st') \<and>
         (\<forall>u. dget_or fs_no_stats st' u = dget_or fs_no_stats st u) \<and> dget ws t \<noteq> None \<and>
         ((e, t) = (be, bt) \<or> (\<exists>es. (t, e # es) \<in> set qs)) \<and> fs_key ws st t \<le> fs_key ws st bt \<and>
         (\<forall>(u, q) \<in> set qs. q \<noteq> [] \<longrightarrow> dget ws u \<noteq> None \<longrightarrow> fs_key ws st t \<le> fs_key ws st u)"
  using assms(2)
proof (induction qs arbitrary: bt be st)
  case Nil
  then show ?case by auto
next
  case (Cons x qs)
  obtain u q where x: "x = (u, q)" by (cases x)
  show ?case
  proof (cases "q = [] \<or> dget ws u = None")
    case True
    then have "fs_scan ws (x # qs) best st = fs_scan ws qs best st" for best
      by (cases q) (auto simp: x)
    with Cons.IH [of bt st be] Cons.prems True show ?thesis
      by (auto simp: x)
  next
    case False
    then obtain e es w where q: "q = e # es" and w: "dget ws u = Some w"
      by (cases q) auto
    note step = fs_scan_step(2) [OF assms(1) w Cons.prems, of e es qs st be]
    have more: "\<exists>y yes. (t, y # yes) \<in> set (x # qs)" if "(t, y # yes) \<in> set qs" for t y yes
      using that by auto
    show ?thesis
    proof (cases "fs_key ws st u < fs_key ws st bt")
      case True
      have "dget ws u \<noteq> None" by (simp add: w)
      from Cons.IH [OF this, of "touch u fs_no_stats st" e] True step show ?thesis
        by (force simp: x q)
    next
      case False
      from Cons.IH [OF Cons.prems, of "touch u fs_no_stats st" be] False step show ?thesis
        by (force simp: x q)
    qed
  qed
qed

lemma fs_scan_none:
  assumes "fs_weights_ok ws"
  shows "(\<exists>st'. fs_scan ws qs None st = (Inr None, st') \<and> st' = st \<and>
            (\<forall>(u, q) \<in> set qs. q = [] \<or> dget ws u = None)) \<or>
         (\<exists>e t st'. fs_scan ws qs None st = (Inr (Some (fst (fs_key ws st t), e, t)), st') \<and>
            (\<forall>u. dget_or fs_no_stats st' u = dget_or fs_no_stats st u) \<and> fs_picks ws qs st e t)"
proof (induction qs)
  case Nil
  then show ?case by simp
next
  case (Cons x qs)
  obtain u q where x: "x = (u, q)" by (cases x)
  show ?case
  proof (cases "q = [] \<or> dget ws u = None")
    case True
    then have "fs_scan ws (x # qs) best st = fs_scan ws qs best st" for best
      by (cases q) (auto simp: x)
    with Cons.IH True show ?thesis
      by (auto simp: x fs_picks_def)
  next
    case False
    then obtain e es w where q: "q = e # es" and w: "dget ws u = Some w"
      by (cases q) auto
    have "dget ws u \<noteq> None" by (simp add: w)
    from fs_scan_best [OF assms this, of qs "touch u fs_no_stats st" e]
      fs_scan_step(1) [OF assms w, of e es qs st]
    show ?thesis
      by (force simp: x q fs_picks_def)
  qed
qed

lemma fs_eligible_mem:
  assumes "wf_dict (fs_tenant_queues s)"
  shows "(\<exists>q. (t, q) \<in> set (fs_tenant_queues s) \<and> q \<noteq> [] \<and> dget (fs_tenant_weights s) t \<noteq> None)
    \<longleftrightarrow> fs_eligible s t"
  using wf_dict_mem [OF assms]
  by (auto simp: fs_eligible_def dget_or_def split: option.splits)

definition fs_before :: "fs \<Rightarrow> string \<Rightarrow> string \<Rightarrow> bool" where
  "fs_before s t u \<longleftrightarrow>
     fs_key (fs_tenant_weights s) (fs_tenant_stats s) t \<le> fs_key (fs_tenant_weights s) (fs_tenant_stats s) u"

text \<open>What a dequeue of the entry \<open>e\<close> of the tenant \<open>t\<close> does, read through the dictionaries.\<close>

definition fs_taken :: "fs \<Rightarrow> string \<Rightarrow> fq_entry \<Rightarrow> fs \<Rightarrow> bool" where
  "fs_taken s t e s' \<longleftrightarrow>
     fs_tenant_weights s' = fs_tenant_weights s \<and>
     (\<forall>u. dget_or fs_no_stats (fs_tenant_stats s') u = dget_or fs_no_stats (fs_tenant_stats s) u) \<and>
     dget_or [] (fs_tenant_queues s) t = e # dget_or [] (fs_tenant_queues s') t \<and>
     (\<forall>u. u \<noteq> t \<longrightarrow> dget_or [] (fs_tenant_queues s') u = dget_or [] (fs_tenant_queues s) u) \<and>
     (\<forall>u. dget_or {} (fs_active_requests s') u =
        (if u = t then {fq_request_id e} else {}) \<union> dget_or {} (fs_active_requests s) u)"

lemma fs_dequeue_cases:
  assumes "wf_dict (fs_tenant_queues s)" and "fs_weights_ok (fs_tenant_weights s)"
  obtains (idle) "fs_dequeue_request s = (Inr None, s)" "\<forall>t. \<not> fs_eligible s t"
  | (served) t e s' where "fs_dequeue_request s = (Inr (Some e), s')" "fs_eligible s t"
      "\<forall>u. fs_eligible s u \<longrightarrow> fs_before s t u" "fs_taken s t e s'"
      "fs_tenant_queues s' =
         dset t (tl (dget_or [] (fs_tenant_queues s) t)) (fs_tenant_queues s)"
proof -
  let ?ws = "fs_tenant_weights s" and ?qs = "fs_tenant_queues s" and ?st = "fs_tenant_stats s"
  note el = fs_eligible_mem [OF assms(1), symmetric]
  from fs_scan_none [OF assms(2), of ?qs ?st] show thesis
  proof (elim disjE exE conjE, goal_cases)
    case (1 st')
    have "fs_dequeue_request s = (Inr None, s)"
      using 1 by (simp add: fs_dequeue_request_def)
    moreover have "\<forall>t. \<not> fs_eligible s t"
      using 1 by (auto simp: el)
    ultimately show thesis by (rule idle)
  next
    case (2 e t st')
    from 2(3) obtain es where es: "(t, e # es) \<in> set ?qs" and w: "dget ?ws t \<noteq> None"
      by (auto simp: fs_picks_def)
    have q: "dget_or [] ?qs t = e # es"
      using es wf_dict_mem [OF assms(1), of "(t, e # es)"] by (simp add: dget_or_def)
    have el_t: "fs_eligible s t"
      using q w by (simp add: fs_eligible_def)
    have least: "\<forall>u. fs_eligible s u \<longrightarrow> fs_before s t u"
      using 2(3) by (fastforce simp: el fs_picks_def fs_before_def)
    obtain s' where s': "fs_dequeue_request s = (Inr (Some e), s')"
      and s'_eq: "s' = s\<lparr>fs_tenant_stats := st', fs_tenant_queues := dset t (tl (dget_or [] ?qs t)) ?qs,
             fs_active_requests := dset t (insert (fq_request_id e) (dget_or {} (fs_active_requests s) t))
               (fs_active_requests s)\<rparr>"
      using 2(1) by (simp add: fs_dequeue_request_def)
    have "fs_taken s t e s'"
      unfolding s'_eq using 2(2) q by (simp add: fs_taken_def dget_or_dset)
    moreover have "fs_tenant_queues s' = dset t (tl (dget_or [] ?qs t)) ?qs"
      by (simp add: s'_eq)
    ultimately show thesis
      using s' el_t least served by blast
  qed
qed

text \<open>
  \<open>dequeue_request\<close> never raises when every weight is positive; it returns nothing exactly
  when no configured tenant has a request waiting, and then changes nothing. Otherwise it returns
  the oldest request of a waiting configured tenant whose pair of virtual time (processing time
  received over weight) and priority is the smallest of all those tenants, removes that entry
  only, marks it active and leaves every other tenant's queue and active set, and all the
  statistics, as they were.
\<close>

theorem fs_dequeue_picks_minimum:
  assumes "wf_dict (fs_tenant_queues s)" and "fs_weights_ok (fs_tenant_weights s)"
  shows "(case fs_dequeue_request s of
            (Inl _, _) \<Rightarrow> False
          | (Inr None, s') \<Rightarrow> s' = s \<and> (\<forall>t. \<not> fs_eligible s t)
          | (Inr (Some e), s') \<Rightarrow>
              (\<exists>t. fs_eligible s t \<and> (\<forall>u. fs_eligible s u \<longrightarrow> fs_before s t u) \<and> fs_taken s t e s'))"
  using assms by (cases rule: fs_dequeue_cases) auto

section \<open>Fair shares\<close>

text \<open>
  The runs of the scheduler: requests come in, tenants are (re)configured, and a worker takes the
  next request and completes it after a processing time.
\<close>

datatype fs_event =
    FsEnqueue (ev_now: rat) (ev_tenant: string) (ev_request: string) (ev_meta: "(string, string) dict")
  | FsServe (ev_time: rat)

fun fs_event_step :: "fs_event \<Rightarrow> fs \<Rightarrow> fs" where
  "fs_event_step (FsEnqueue now t r meta) s = snd (fs_enqueue_request now t r (Some meta) s)"
| "fs_event_step (FsServe p) s =
     (case fs_dequeue_request s of
        (Inr (Some e), s1) \<Rightarrow> fs_complete_request (fq_tenant_id e) (fq_request_id e) p s1
      | (_, s1) \<Rightarrow> s1)"

fun fs_run :: "fs_event list \<Rightarrow> fs \<Rightarrow> fs" where
  "fs_run [] s = s"
| "fs_run (ev # evs) s = fs_run evs (fs_event_step ev s)"

text \<open>Whether the tenants of a list have a request waiting whenever the worker looks.\<close>

fun fs_backlogged :: "string list \<Rightarrow> fs_event list \<Rightarrow> fs \<Rightarrow> bool" where
  "fs_backlogged ts [] s \<longleftrightarrow> True"
| "fs_backlogged ts (ev # evs) s \<longleftrightarrow>
     (case ev of FsEnqueue _ _ _ _ \<Rightarrow> True | FsServe _ \<Rightarrow> list_all (fs_eligible s) ts) \<and>
     fs_backlogged ts evs (fs_event_step ev s)"

fun fs_times_ok :: "rat \<Rightarrow> fs_event list \<Rightarrow> bool" where
  "fs_times_ok P [] \<longleftrightarrow> True"
| "fs_times_ok P (FsServe p # evs) \<longleftrightarrow> 0 \<le> p \<and> p \<le> P \<and> fs_times_ok P evs"
| "fs_times_ok P (ev # evs) \<longleftrightarrow> fs_times_ok P evs"

definition fs_service :: "fs \<Rightarrow> string \<Rightarrow> rat" where
  "fs_service s t = fst_total_processing_time (dget_or fs_no_stats (fs_tenant_stats s) t)"

definition fs_share :: "fs \<Rightarrow> string \<Rightarrow> rat" where
  "fs_share s t = (case dget (fs_tenant_weights s) t of None \<Rightarrow> 0 | Some w \<Rightarrow> tw_weight w)"

text \<open>The entries of a queue name the tenant of the queue.\<close>

definition fs_wf :: "fs \<Rightarrow> bool" where
  "fs_wf s \<longleftrightarrow> wf_dict (fs_tenant_queues s) \<and> fs_weights_ok (fs_tenant_weights s) \<and>
     (\<forall>t. \<forall>e \<in> set (dget_or [] (fs_tenant_queues s) t). fq_tenant_id e = t)"

lemma fs_enqueue_effect:
  "fs_tenant_weights (snd (fs_enqueue_request now t r md s)) = fs_tenant_weights s"
  "fs_service (snd (fs_enqueue_request now t r md s)) u = fs_service s u"
  "fs_wf s \<Longrightarrow> fs_wf (snd (fs_enqueue_request now t r md s))"
  by (auto simp: fs_enqueue_request_def fs_service_def fs_wf_def Let_def dget_or_dset
      split: option.splits)

lemma fs_serve_effect:
  assumes "fs_wf s"
  shows "fs_tenant_weights (fs_event_step (FsServe p) s) = fs_tenant_weights s"
    and "fs_wf (fs_event_step (FsServe p) s)"
    and "(\<forall>u. \<not> fs_eligible s u) \<and> fs_event_step (FsServe p) s = s \<or>
      (\<exists>t. fs_eligible s t \<and> (\<forall>u. fs_eligible s u \<longrightarrow> fs_before s t u) \<and>
        (\<forall>u. fs_service (fs_event_step (FsServe p) s) u = fs_service s u + (if u = t then p else 0)))"
proof -
  from assms have wf: "wf_dict (fs_tenant_queues s)" "fs_weights_ok (fs_tenant_weights s)"
    by (auto simp: fs_wf_def)
  have "fs_tenant_weights (fs_event_step (FsServe p) s) = fs_tenant_weights s \<and>
    fs_wf (fs_event_step (FsServe p) s) \<and>
    ((\<forall>u. \<not> fs_eligible s u) \<and> fs_event_step (FsServe p) s = s \<or>
      (\<exists>t. fs_eligible s t \<and> (\<forall>u. fs_eligible s u \<longrightarrow> fs_before s t u) \<and>
        (\<forall>u. fs_service (fs_event_step (FsServe p) s) u = fs_service s u + (if u = t then p else 0))))"
    using wf
  proof (cases rule: fs_dequeue_cases)
    case idle
    with assms show ?thesis by simp
  next
    case (served t e s')
    have owner: "fq_tenant_id e = t" "\<And>u e'. e' \<in> set (dget_or [] (fs_tenant_queues s') u) \<Longrightarrow> fq_tenant_id e' = u"
      using assms served(4) by (auto simp: fs_wf_def fs_taken_def) (metis list.set_intros(2))
    have wf': "fs_wf s'"
      using wf served(4,5) owner(2) by (auto simp: fs_wf_def fs_taken_def)
    have step: "fs_event_step (FsServe p) s = fs_complete_request t (fq_request_id e) p s'"
      by (simp add: served(1) owner(1))
    have "fs_wf (fs_complete_request t (fq_request_id e) p s')"
      using wf' by (simp add: fs_wf_def fs_complete_request_def Let_def)
    moreover have "fs_service (fs_complete_request t (fq_request_id e) p s') u =
        fs_service s u + (if u = t then p else 0)" for u
      using served(4) by (simp add: fs_taken_def fs_service_def fs_complete_request_def Let_def dget_or_dset)
    moreover have "fs_tenant_weights (fs_complete_request t (fq_request_id e) p s') = fs_tenant_weights s"
      using served(4) by (simp add: fs_taken_def fs_complete_request_def Let_def)
    ultimately show ?thesis
      unfolding step using served(2,3) by blast
  qed
  then show "fs_tenant_weights (fs_event_step (FsServe p) s) = fs_tenant_weights s"
    and "fs_wf (fs_event_step (FsServe p) s)"
    and "(\<forall>u. \<not> fs_eligible s u) \<and> fs_event_step (FsServe p) s = s \<or>
      (\<exists>t. fs_eligible s t \<and> (\<forall>u. fs_eligible s u \<longrightarrow> fs_before s t u) \<and>
        (\<forall>u. fs_service (fs_event_step (FsServe p) s) u = fs_service s u + (if u = t then p else 0)))"
    by blast+
qed

definition fs_fair :: "rat \<Rightarrow> string list \<Rightarrow> fs \<Rightarrow> bool" where
  "fs_fair P ts s \<longleftrightarrow>
     (\<forall>i \<in> set ts. \<forall>j \<in> set ts.
        fs_service s i / fs_share s i \<le> fs_service s j / fs_share s j + P / fs_share s i)"

lemma fs_before_service:
  assumes "fs_before s t u" and "fs_eligible s t" and "fs_eligible s u"
  shows "fs_service s t / fs_share s t \<le> fs_service s u / fs_share s u"
  using assms
  by (auto simp: fs_before_def fs_key_def fs_eligible_def fs_service_def fs_share_def fs_virtual_time_def
      less_eq_prod_def)

lemma fs_fair_step:
  assumes "fs_wf s" and "fs_fair P ts s" and "list_all (fs_eligible s) ts"
    and "0 \<le> p" and "p \<le> P"
  shows "fs_fair P ts (fs_event_step (FsServe p) s)"
proof -
  define s2 where "s2 = fs_event_step (FsServe p) s"
  note effect = fs_serve_effect [OF assms(1), of p, folded s2_def]
  have share: "fs_share s2 = fs_share s"
    by (rule ext) (simp only: fs_share_def effect(1))
  have "fs_fair P ts s2"
    using effect(3)
  proof (elim disjE exE conjE, goal_cases)
    case 1
    with assms(2) show ?case by simp
  next
    case (2 t)
    have service: "fs_service s2 u = fs_service s u + (if u = t then p else 0)" for u
      using 2(3) by blast
    have "fs_service s2 i / fs_share s i \<le> fs_service s2 j / fs_share s j + P / fs_share s i"
      if i: "i \<in> set ts" and j: "j \<in> set ts" for i j
    proof -
      have pos: "0 < fs_share s u" if "u \<in> set ts" for u
        using that assms(1,3) fs_weights_okD
        by (auto simp: fs_wf_def fs_share_def fs_eligible_def list_all_iff split: option.splits)
      have grows: "fs_service s j / fs_share s j \<le> fs_service s2 j / fs_share s j"
        using pos [OF j] assms(4) by (simp add: service divide_right_mono)
      show ?thesis
      proof (cases "i = t")
        case True
        have "fs_eligible s j" using assms(3) j by (simp add: list_all_iff)
        then have "fs_service s i / fs_share s i \<le> fs_service s j / fs_share s j"
          using fs_before_service 2(1,2) True by blast
        moreover have "fs_service s2 i / fs_share s i = fs_service s i / fs_share s i + p / fs_share s i"
          by (simp add: service True add_divide_distrib)
        moreover have "p / fs_share s i \<le> P / fs_share s i"
          using assms(5) pos [OF i] by (simp add: divide_right_mono)
        ultimately show ?thesis using grows by linarith
      next
        case False
        have "fs_service s i / fs_share s i \<le> fs_service s j / fs_share s j + P / fs_share s i"
          using assms(2) i j by (simp add: fs_fair_def)
        with False grows show ?thesis by (simp add: service)
      qed
    qed
    then show ?case by (simp add: fs_fair_def share)
  qed
  then show ?thesis by (simp add: s2_def)
qed

text \<open>
  C13. Weighted fairness: while the tenants of a list always have requests waiting, with
  processing times between 0 and \<open>P\<close>, no tenant's processing time over its weight runs ahead of
  another's by more than \<open>P\<close> over its own weight, whatever other tenants do in between and
  whatever the priorities are: it holds after every run of requests and completions from a state
  where it holds, e.g. from one where nothing has been served.
\<close>

theorem fs_fair_share:
  assumes "fs_wf s" and "fs_fair P ts s" and "fs_times_ok P evs" and "fs_backlogged ts evs s"
  shows "fs_fair P ts (fs_run evs s)"
  using assms
proof (induction evs arbitrary: s)
  case Nil
  then show ?case by simp
next
  case (Cons ev evs)
  show ?case
  proof (cases ev)
    case (FsEnqueue now t r md)
    have "fs_fair P ts (fs_event_step ev s)"
      using Cons.prems(2) by (simp add: FsEnqueue fs_fair_def fs_share_def fs_enqueue_effect)
    with Cons show ?thesis by (simp add: FsEnqueue fs_enqueue_effect(3))
  next
    case (FsServe p)
    have "fs_fair P ts (fs_event_step ev s)"
      unfolding FsServe using Cons.prems by (intro fs_fair_step) (simp_all add: FsServe)
    moreover have "fs_wf (fs_event_step ev s)"
      unfolding FsServe by (rule fs_serve_effect(2) [OF Cons.prems(1)])
    ultimately show ?thesis
      using Cons.IH [of "fs_event_step ev s"] Cons.prems by (simp add: FsServe)
  qed
qed

definition fs_demo_weight :: "string \<Rightarrow> rat \<Rightarrow> tenant_weight" where
  "fs_demo_weight t x =
     \<lparr>tw_tenant_id = t, tw_tier = TierFree, tw_weight = x, tw_priority = 5, tw_max_concurrent = 1,
      tw_burst_capacity = 0\<rparr>"

definition fs_demo :: fs where
  "fs_demo = fs_set_tenant_weight (fs_demo_weight ''b'' 2) (fs_set_tenant_weight (fs_demo_weight ''a'' 1) fs_init)"

definition fs_demo_run :: "fs_event list" where
  "fs_demo_run =
     [FsEnqueue 0 ''a'' ''1'' [], FsEnqueue 0 ''b'' ''1'' [], FsEnqueue 1 ''a'' ''2'' [],
      FsEnqueue 1 ''b'' ''2'' [], FsServe 3, FsServe 2]"

lemmas fs_eval =
  fs_set_tenant_weight_def fs_init_def fs_weights_ok_def fs_wf_def fs_fair_def fs_service_def fs_share_def
  fs_no_stats_def dget_or_def fs_eligible_def wf_dict_def fs_enqueue_request_def fs_dequeue_request_def touch_def
  fs_complete_request_def fs_virtual_time_def Let_def

theorem fs_fair_share_witness:
  "fs_fair 3 [''a'', ''b''] (fs_run fs_demo_run fs_demo)"
  by (rule fs_fair_share)
    (simp_all add: fs_demo_def fs_demo_run_def fs_demo_weight_def fs_eval)

theorem fs_dequeue_picks_minimum_witness:
  "\<exists>s. s = fs_run fs_demo_run fs_demo \<and>
    (case fs_dequeue_request s of
       (Inl _, _) \<Rightarrow> False
     | (Inr None, s') \<Rightarrow> s' = s \<and> (\<forall>t. \<not> fs_eligible s t)
     | (Inr (Some e), s') \<Rightarrow>
         (\<exists>t. fs_eligible s t \<and> (\<forall>u. fs_eligible s u \<longrightarrow> fs_before s t u) \<and> fs_taken s t e s'))"
proof (intro exI conjI)
  show "fs_run fs_demo_run fs_demo = fs_run fs_demo_run fs_demo" by (rule refl)
qed (rule fs_dequeue_picks_minimum;
  simp add: fs_demo_def fs_demo_run_def fs_demo_weight_def fs_eval)

section \<open>The limit on concurrent requests\<close>

text \<open>
  \<open>max_concurrent\<close> is compared with the number of active requests when a request is queued, and
  a request becomes active only when it leaves the queue, where nothing is compared.
\<close>

fun fs_enqueue_many :: "string \<Rightarrow> nat \<Rightarrow> fs \<Rightarrow> fs" where
  "fs_enqueue_many t 0 s = s"
| "fs_enqueue_many t (Suc n) s =
     snd (fs_enqueue_request (of_nat n) t (nat_str n) None (fs_enqueue_many t n s))"

fun fs_dequeue_many :: "nat \<Rightarrow> fs \<Rightarrow> fs" where
  "fs_dequeue_many 0 s = s"
| "fs_dequeue_many (Suc n) s = snd (fs_dequeue_request (fs_dequeue_many n s))"

definition fs_queue :: "fs \<Rightarrow> string \<Rightarrow> fq_entry list" where
  "fs_queue s t = dget_or [] (fs_tenant_queues s) t"

definition fs_active :: "fs \<Rightarrow> string \<Rightarrow> string set" where
  "fs_active s t = dget_or {} (fs_active_requests s) t"

lemma fs_enqueue_many_effect:
  assumes "0 < tw_weight w" and "1 \<le> tw_max_concurrent w" and "t = tw_tenant_id w"
  shows "fs_wf (fs_enqueue_many t n (fs_set_tenant_weight w fs_init)) \<and>
    fs_tenant_weights (fs_enqueue_many t n (fs_set_tenant_weight w fs_init)) = [(t, w)] \<and>
    map fq_request_id (fs_queue (fs_enqueue_many t n (fs_set_tenant_weight w fs_init)) t) =
      map nat_str [0..<n] \<and>
    fs_active (fs_enqueue_many t n (fs_set_tenant_weight w fs_init)) t = {}"
proof (induction n)
  case 0
  show ?case using assms by (simp add: fs_eval fs_queue_def fs_active_def)
next
  case (Suc n)
  let ?s = "fs_enqueue_many t n (fs_set_tenant_weight w fs_init)"
  have "fs_wf (snd (fs_enqueue_request (of_nat n) t (nat_str n) None ?s))"
    using Suc by (simp add: fs_enqueue_effect(3))
  moreover have "fs_tenant_weights (snd (fs_enqueue_request (of_nat n) t (nat_str n) None ?s)) = [(t, w)]"
    using Suc by (simp add: fs_enqueue_effect(1))
  ultimately show ?case
    using Suc assms(2)
    by (auto simp: fs_enqueue_request_def fs_queue_def fs_active_def dget_or_dset Let_def
        simp del: nat_str.simps)
qed

lemma fs_dequeue_many_effect:
  assumes "fs_wf s" and "fs_tenant_weights s = [(t, w)]" and "n \<le> length (fs_queue s t)"
  shows "fs_wf (fs_dequeue_many n s) \<and> fs_tenant_weights (fs_dequeue_many n s) = [(t, w)] \<and>
    fs_queue (fs_dequeue_many n s) t = drop n (fs_queue s t) \<and>
    fs_active (fs_dequeue_many n s) t = fq_request_id ` set (take n (fs_queue s t)) \<union> fs_active s t"
  using assms(3)
proof (induction n)
  case 0
  show ?case using assms by simp
next
  case (Suc n)
  let ?s = "fs_dequeue_many n s"
  from Suc have IH: "fs_wf ?s" "fs_tenant_weights ?s = [(t, w)]" "fs_queue ?s t = drop n (fs_queue s t)"
    "fs_active ?s t = fq_request_id ` set (take n (fs_queue s t)) \<union> fs_active s t"
    by auto
  have more: "drop n (fs_queue s t) = fs_queue s t ! n # drop (Suc n) (fs_queue s t)"
    using Suc.prems by (simp add: Cons_nth_drop_Suc)
  then have el: "fs_eligible ?s t"
    using IH(2,3) by (simp add: fs_eligible_def fs_queue_def)
  from IH(1) have wf: "wf_dict (fs_tenant_queues ?s)" "fs_weights_ok (fs_tenant_weights ?s)"
    by (auto simp: fs_wf_def)
  then show ?case
  proof (cases rule: fs_dequeue_cases)
    case idle
    with el show ?thesis by blast
  next
    case (served u e s')
    from served(2) IH(2) have u: "u = t"
      by (auto simp: fs_eligible_def split: if_splits)
    from served(4) have q: "fs_queue ?s t = e # fs_queue s' t"
      by (simp add: fs_taken_def fs_queue_def u)
    then have e: "e = fs_queue s t ! n" "fs_queue s' t = drop (Suc n) (fs_queue s t)"
      using IH(3) more by auto
    have "fs_wf s'"
      using IH(1) served(4,5) unfolding fs_wf_def fs_taken_def
      by (auto simp: u) (metis list.set_intros(2))
    moreover have "fs_active s' t = insert (fq_request_id e) (fs_active ?s t)"
      using served(4) by (simp add: fs_taken_def fs_active_def u)
    moreover have "fs_tenant_weights s' = [(t, w)]"
      using served(4) IH(2) by (simp add: fs_taken_def)
    moreover have "take (Suc n) (fs_queue s t) = take n (fs_queue s t) @ [e]"
      using Suc.prems by (simp add: e take_Suc_conv_app_nth)
    ultimately show ?thesis
      using served(1) IH(4) e(2) by simp
  qed
qed

text \<open>
  \<open>max_concurrent\<close> does not bound the concurrent requests of a tenant: whatever positive
  limit is configured, \<open>n\<close> requests that are queued first and then dequeued are all active at
  once, for every \<open>n\<close>.
\<close>

theorem fs_max_concurrent_not_enforced:
  assumes "0 < tw_weight w" and "1 \<le> tw_max_concurrent w"
  shows "card (fs_active (fs_dequeue_many n (fs_enqueue_many (tw_tenant_id w) n
            (fs_set_tenant_weight w fs_init))) (tw_tenant_id w)) = n"
proof -
  let ?t = "tw_tenant_id w"
  let ?s = "fs_enqueue_many ?t n (fs_set_tenant_weight w fs_init)"
  from fs_enqueue_many_effect [OF assms refl, of n]
  have s: "fs_wf ?s" "fs_tenant_weights ?s = [(?t, w)]" "fs_active ?s ?t = {}"
    "map fq_request_id (fs_queue ?s ?t) = map nat_str [0..<n]"
    by auto
  then have len: "length (fs_queue ?s ?t) = n"
    by (metis length_map length_upt minus_nat.diff_0)
  have "fs_active (fs_dequeue_many n ?s) ?t = set (map fq_request_id (fs_queue ?s ?t))"
    using fs_dequeue_many_effect [OF s(1,2), of n] len s(3) by simp
  also have "\<dots> = nat_str ` {0..<n}"
    by (simp add: s(4) del: nat_str.simps)
  finally show ?thesis
    by (simp add: card_image inj_on_subset [OF inj_nat_str] del: nat_str.simps)
qed

theorem fs_max_concurrent_not_enforced_witness:
  "card (fs_active (fs_dequeue_many 3 (fs_enqueue_many ''a'' 3
     (fs_set_tenant_weight (fs_demo_weight ''a'' 1) fs_init))) ''a'') = 3"
  using fs_max_concurrent_not_enforced [of "fs_demo_weight ''a'' 1" 3]
  by (simp add: fs_demo_weight_def del: fs_dequeue_many.simps fs_enqueue_many.simps)

section \<open>Admission\<close>

lemma degradation_le_iff: "(a :: degradation_level) \<le> b \<longleftrightarrow> degradation_rank a \<le> degradation_rank b"
  by (rule less_eq_degradation_level_def)

lemma pac_load_level_mono:
  assumes "\<And>k. dget_or 0 m k \<le> dget_or 0 m' k"
  shows "pac_load_level m c \<le> pac_load_level m' c"
  using assms [of "''system_load''"] assms [of "''cpu_usage''"] assms [of "''memory_usage''"]
  by (auto simp: pac_load_level_def Let_def degradation_le_iff)

lemma pac_level_mono:
  assumes "\<And>k. dget_or 0 m k \<le> dget_or 0 m' k"
  shows "pac_level m c \<le> pac_level m' c"
proof -
  have "pac_load_level m c \<le> pac_load_level m' c"
    by (rule pac_load_level_mono) (rule assms)
  with assms [of "''queue_size''"] show ?thesis
    by (cases "pac_load_level m c"; cases "pac_load_level m' c")
      (auto simp: pac_level_def Let_def degradation_le_iff)
qed

text \<open>
  Admission control is monotone in the load: when no reading of the system metrics is lower,
  the degradation level is not lower, and a request that is admitted under the higher readings
  is admitted under the lower ones, whatever thresholds are set.
\<close>

theorem pac_monotone:
  assumes "\<And>k. dget_or 0 m k \<le> dget_or 0 m' k"
  shows "dg_level (fst (snd (pac_check_admission r m c))) \<le> dg_level (fst (snd (pac_check_admission r m' c))) \<and>
    (fst (pac_check_admission r m' c) \<longrightarrow> fst (pac_check_admission r m c))"
proof -
  have level: "dg_level (degradation_configs l) = l" for l
    by (cases l) (simp_all add: degradation_default_def)
  have mono: "pac_level m c \<le> pac_level m' c"
    by (rule pac_level_mono) (rule assms)
  then have heavy: "pac_level m c = DegHeavy \<Longrightarrow> pac_level m' c = DegHeavy"
    by (cases "pac_level m' c") (simp_all add: degradation_le_iff)
  from mono have "dg_level (fst (snd (pac_check_admission r m c)))
      \<le> dg_level (fst (snd (pac_check_admission r m' c)))"
    by (simp add: pac_check_admission_def Let_def level)
  moreover from heavy assms [of "''queue_size''"]
  have "fst (pac_check_admission r m' c) \<longrightarrow> fst (pac_check_admission r m c)"
    by (auto simp: pac_check_admission_def Let_def)
  ultimately show ?thesis by blast
qed

theorem pac_monotone_witness:
  "dg_level (fst (snd (pac_check_admission [] [(''cpu_usage'', 1/2)] pac_init))) \<le>
     dg_level (fst (snd (pac_check_admission [] [(''cpu_usage'', 92/100)] pac_init))) \<and>
   fst (pac_check_admission [] [(''cpu_usage'', 1/2)] pac_init)"
proof -
  have "fst (pac_check_admission [] [(''cpu_usage'', 92/100)] pac_init)"
    by (simp add: pac_check_admission_def pac_level_def pac_load_level_def pac_init_def dget_or_def)
  moreover have "dget_or 0 [(''cpu_usage'', 1/2)] k \<le> dget_or (0 :: rat) [(''cpu_usage'', 92/100)] k" for k
    by (simp add: dget_or_def)
  ultimately show ?thesis
    using pac_monotone [of "[(''cpu_usage'', 1/2)]" "[(''cpu_usage'', 92/100)]" "[]" pac_init] by blast
qed

section \<open>Accounting\<close>

text \<open>
  A run of the middleware: configuration, requests, the worker's fetches and completions, in
  any order. The number counts the requests handed to the worker.
\<close>

datatype fm_event =
    FmConfig string tenant_tier int int
  | FmProcess rat string string "(string, string) dict" "(string, rat) dict"
  | FmNext
  | FmComplete string string rat
  | FmMetrics

fun fm_event_step :: "fm_event \<Rightarrow> nat \<times> fm \<Rightarrow> nat \<times> fm" where
  "fm_event_step (FmConfig t tier n p) (h, m) = (h, fm_set_tenant_config t tier n p m)"
| "fm_event_step (FmProcess now t r md x) (h, m) = (h, snd (fm_process_request now t r md x m))"
| "fm_event_step FmNext (h, m) =
     (case fm_get_next_request m of (Inr (Some _), m') \<Rightarrow> (Suc h, m') | (_, m') \<Rightarrow> (h, m'))"
| "fm_event_step (FmComplete t r p) (h, m) = (h, fm_complete_request t r p m)"
| "fm_event_step FmMetrics (h, m) = (h, snd (fm_get_metrics m))"

fun fm_run :: "fm_event list \<Rightarrow> nat \<times> fm \<Rightarrow> nat \<times> fm" where
  "fm_run [] x = x"
| "fm_run (ev # evs) x = fm_run evs (fm_event_step ev x)"

text \<open>Sums over the values of a dictionary.\<close>

lemma dsum_touch: "wf_dict d \<Longrightarrow> f v = 0 \<Longrightarrow> dsum f (touch k v d) = dsum f d"
  by (simp add: touch_def dsum_dset split: option.splits)

definition fs_total :: "fs \<Rightarrow> int" where
  "fs_total s = dsum fst_total_requests (fs_tenant_stats s)"

definition fs_queued :: "fs \<Rightarrow> int" where
  "fs_queued s = dsum (\<lambda>q. int (length q)) (fs_tenant_queues s)"

definition fs_books :: "fs \<Rightarrow> bool" where
  "fs_books s \<longleftrightarrow> wf_dict (fs_tenant_queues s) \<and> wf_dict (fs_tenant_stats s) \<and>
     fs_weights_ok (fs_tenant_weights s)"

lemma fs_no_stats_zero [simp]: "fst_total_requests fs_no_stats = 0"
  by (simp add: fs_no_stats_def)

lemma fs_books_enqueue:
  assumes "fs_books s"
  shows "fs_books (snd (fs_enqueue_request now t r md s))"
    and "fs_total (snd (fs_enqueue_request now t r md s)) =
      fs_total s + (if fst (fs_enqueue_request now t r md s) then 1 else 0)"
    and "fs_queued (snd (fs_enqueue_request now t r md s)) =
      fs_queued s + (if fst (fs_enqueue_request now t r md s) then 1 else 0)"
  using assms
  by (auto simp: fs_books_def fs_enqueue_request_def fs_total_def fs_queued_def Let_def
      dsum_dset_or [where z = "[]"] dsum_dset_or [where z = fs_no_stats] split: option.splits)

lemma fs_scan_stats:
  "wf_dict st \<Longrightarrow> wf_dict (snd (fs_scan ws qs best st)) \<and>
     dsum fst_total_requests (snd (fs_scan ws qs best st)) = dsum fst_total_requests st"
proof (induction ws qs best st rule: fs_scan.induct)
  case (3 ws t e es qs best st)
  then show ?case
    by (auto simp: Let_def dsum_touch split: option.splits)
qed simp_all

lemma fs_books_dequeue:
  assumes "fs_books s"
  shows "(\<exists>s'. fs_dequeue_request s = (Inr None, s') \<and> s' = s) \<or>
    (\<exists>e s'. fs_dequeue_request s = (Inr (Some e), s') \<and> fs_books s' \<and> fs_total s' = fs_total s \<and>
       fs_queued s' = fs_queued s - 1)"
proof -
  from assms have wf: "wf_dict (fs_tenant_queues s)" "wf_dict (fs_tenant_stats s)"
    "fs_weights_ok (fs_tenant_weights s)"
    by (auto simp: fs_books_def)
  from wf(1,3) show ?thesis
  proof (cases rule: fs_dequeue_cases)
    case idle
    then show ?thesis by simp
  next
    case (served t e s')
    have stats: "fs_tenant_stats s' =
        snd (fs_scan (fs_tenant_weights s) (fs_tenant_queues s) None (fs_tenant_stats s))"
      using served(1) by (auto simp: fs_dequeue_request_def split: prod.splits sum.splits option.splits)
    from fs_scan_stats [OF wf(2), of "fs_tenant_weights s" "fs_tenant_queues s" None]
    have books: "wf_dict (fs_tenant_stats s')" "fs_total s' = fs_total s"
      by (simp_all add: stats fs_total_def)
    have "0 < length (dget_or [] (fs_tenant_queues s) t)"
      using served(2) by (simp add: fs_eligible_def)
    then have "int (length (tl (dget_or [] (fs_tenant_queues s) t))) =
        int (length (dget_or [] (fs_tenant_queues s) t)) - 1"
      by (cases "dget_or [] (fs_tenant_queues s) t") simp_all
    then have "fs_queued s' = fs_queued s - 1"
      using wf(1) by (simp add: fs_queued_def served(5) dsum_dset_or [where z = "[]"] del: length_tl)
    moreover have "fs_books s'"
      using served(4,5) wf books(1) by (simp add: fs_books_def fs_taken_def)
    ultimately show ?thesis
      using served(1) books(2) by blast
  qed
qed

lemma fs_books_complete:
  assumes "fs_books s"
  shows "fs_books (fs_complete_request t r p s)"
    and "fs_total (fs_complete_request t r p s) = fs_total s"
    and "fs_queued (fs_complete_request t r p s) = fs_queued s"
  using assms
  by (simp_all add: fs_books_def fs_complete_request_def fs_total_def fs_queued_def Let_def
      dsum_dset_or [where z = fs_no_stats])

lemma fs_books_reports:
  "fs_books s \<Longrightarrow> fs_books (snd (fs_reports ts s)) \<and> fs_total (snd (fs_reports ts s)) = fs_total s \<and>
     fs_queued (snd (fs_reports ts s)) = fs_queued s"
proof (induction ts arbitrary: s)
  case (Cons t ts)
  have "fs_books (snd (fs_get_tenant_stats t s)) \<and>
      fs_total (snd (fs_get_tenant_stats t s)) = fs_total s \<and>
      fs_queued (snd (fs_get_tenant_stats t s)) = fs_queued s"
    using Cons.prems
    by (simp add: fs_get_tenant_stats_def fs_books_def fs_total_def fs_queued_def Let_def dsum_touch
        split: option.splits)
  with Cons.IH [of "snd (fs_get_tenant_stats t s)"] show ?case
    by (auto split: prod.splits)
qed simp

lemma fs_metrics_sums:
  "fst (fs_get_scheduler_metrics s) = x \<Longrightarrow>
     fsm_total_requests x = fs_total s \<and> int (fsm_total_queued x) = fs_queued s"
proof -
  have "int (sum_list (map (\<lambda>(_, q). length q) d)) = dsum (\<lambda>q. int (length q)) d" for d :: "('k, 'v list) dict"
    by (induction d) (auto simp: dsum_def)
  then show "fst (fs_get_scheduler_metrics s) = x \<Longrightarrow> ?thesis"
    by (auto simp: fs_get_scheduler_metrics_def fs_total_def dsum_def [of fst_total_requests] fs_queued_def
        split: prod.splits)
qed

lemma fs_weights_ok_dset:
  "fs_weights_ok ws \<Longrightarrow> 0 < tw_weight w \<Longrightarrow> fs_weights_ok (dset t w ws)"
  by (induction ws) (auto simp: fs_weights_ok_def)

lemma tier_weight_pos [simp]: "0 < tier_weight t"
  by (cases t) simp_all

definition fm_books :: "nat \<times> fm \<Rightarrow> bool" where
  "fm_books x \<longleftrightarrow> (case x of (h, m) \<Rightarrow>
     fs_books (fm_scheduler m) \<and>
     fm_total_requests m = fm_admitted_requests m + fm_rejected_requests m \<and>
     0 \<le> fm_rejected_requests m \<and>
     0 \<le> fm_degraded_requests m \<and> fm_degraded_requests m \<le> fm_admitted_requests m \<and>
     fs_total (fm_scheduler m) = fm_admitted_requests m \<and>
     fm_admitted_requests m = fs_queued (fm_scheduler m) + int h)"

lemma fm_books_process:
  assumes "fm_books (h, m)"
  shows "fm_books (h, snd (fm_process_request now t r md x m))"
proof -
  obtain a d reason where adm: "pac_check_admission md x (fm_admission_control m) = (a, d, reason)"
    by (rule prod_cases3)
  obtain b s where enq: "fs_enqueue_request now t r (Some md) (fm_scheduler m) = (b, s)"
    by (rule prod.exhaust)
  from assms have "fs_books (fm_scheduler m)" by (simp add: fm_books_def)
  note books = fs_books_enqueue [OF this, of now t r "Some md", unfolded enq fst_conv snd_conv]
  show ?thesis
    using assms books
    by (cases a; cases b) (simp_all add: fm_process_request_def adm enq Let_def fm_books_def)
qed

lemma fm_books_step:
  assumes "fm_books x"
  shows "fm_books (fm_event_step ev x)"
proof -
  obtain h m where x: "x = (h, m)" by (cases x)
  with assms have s: "fs_books (fm_scheduler m)" by (simp add: fm_books_def)
  show ?thesis
  proof (cases ev)
    case (FmConfig t tier n p)
    have "fs_books (fs_set_tenant_weight w (fm_scheduler m)) \<and>
        fs_total (fs_set_tenant_weight w (fm_scheduler m)) = fs_total (fm_scheduler m) \<and>
        fs_queued (fs_set_tenant_weight w (fm_scheduler m)) = fs_queued (fm_scheduler m)"
      if "0 < tw_weight w" for w
      using s that
      by (simp add: fs_set_tenant_weight_def fs_books_def fs_weights_ok_dset fs_total_def fs_queued_def)
    with assms show ?thesis by (simp add: FmConfig x fm_set_tenant_config_def fm_books_def)
  next
    case (FmProcess now t r md y)
    with assms show ?thesis by (simp add: x fm_books_process)
  next
    case FmNext
    from fs_books_dequeue [OF s] assms show ?thesis
      by (auto simp: FmNext x fm_get_next_request_def fm_books_def)
  next
    case (FmComplete t r p)
    from fs_books_complete [OF s, of t r p] assms show ?thesis
      by (simp add: FmComplete x fm_complete_request_def fm_books_def)
  next
    case FmMetrics
    from fs_books_reports [OF s, of "map fst (fs_tenant_weights (fm_scheduler m))"] assms show ?thesis
      by (auto simp: FmMetrics x fm_get_metrics_def fs_get_scheduler_metrics_def fm_books_def
          split: prod.splits)
  qed
qed

text \<open>
  The books of the middleware balance: after any run, \<open>get_metrics\<close> reports as many
  requests as were admitted or rejected, at most as many degraded as admitted, and exactly the
  admitted ones in the scheduler, each of which is either still queued or was handed to the
  worker once; the rates lie between 0 and 1.
\<close>

theorem fm_accounts_for_every_request:
  "case fm_run evs (0, fm_init) of
     (handed, m) \<Rightarrow>
       (let x = fst (fm_get_metrics m); y = fmm_scheduler_metrics x
        in fmm_total_requests x = fmm_admitted_requests x + fmm_rejected_requests x \<and>
           fsm_total_requests y = fmm_admitted_requests x \<and>
           fmm_admitted_requests x = int (fsm_total_queued y) + int handed \<and>
           fmm_degraded_requests x \<le> fmm_admitted_requests x \<and>
           0 \<le> fmm_degradation_rate x \<and> fmm_degradation_rate x \<le> fmm_admission_rate x \<and>
           fmm_admission_rate x \<le> 1)"
proof -
  have books: "fm_books (fm_run evs z)" if "fm_books z" for z
    using that by (induction evs z rule: fm_run.induct) (simp_all add: fm_books_step)
  have "fm_books (0, fm_init)"
    by (simp add: fm_books_def fm_init_def fs_books_def fs_init_def fs_weights_ok_def fs_total_def
        fs_queued_def dsum_def)
  from books [OF this] obtain h m where run: "fm_run evs (0, fm_init) = (h, m)" and b: "fm_books (h, m)"
    by (cases "fm_run evs (0, fm_init)") simp
  define x where "x = fst (fm_get_metrics m)"
  define y where "y = fmm_scheduler_metrics x"
  have x: "fmm_total_requests x = fm_total_requests m" "fmm_admitted_requests x = fm_admitted_requests m"
    "fmm_rejected_requests x = fm_rejected_requests m" "fmm_degraded_requests x = fm_degraded_requests m"
    "fmm_admission_rate x = of_int (fm_admitted_requests m) / of_int (max 1 (fm_total_requests m))"
    "fmm_degradation_rate x = of_int (fm_degraded_requests m) / of_int (max 1 (fm_total_requests m))"
    "fst (fs_get_scheduler_metrics (fm_scheduler m)) = y"
    by (simp_all add: x_def y_def fm_get_metrics_def split: prod.splits)
  from fs_metrics_sums [OF x(7)] b x(1-4) have
    "fmm_total_requests x = fmm_admitted_requests x + fmm_rejected_requests x"
    "fsm_total_requests y = fmm_admitted_requests x"
    "fmm_admitted_requests x = int (fsm_total_queued y) + int h"
    "fmm_degraded_requests x \<le> fmm_admitted_requests x"
    by (auto simp: fm_books_def)
  moreover have "0 \<le> fmm_degradation_rate x \<and> fmm_degradation_rate x \<le> fmm_admission_rate x \<and>
      fmm_admission_rate x \<le> 1"
    using b by (auto simp: x fm_books_def divide_le_eq le_divide_eq divide_right_mono)
  ultimately show ?thesis
    by (simp add: run x_def y_def Let_def)
qed

end
