(* ===== verification/Json.thy ===== *)
theory Json
  imports Prelude
begin

text \<open>
  Python objects as \<open>json\<close> and YAML give them, with the operations the code applies to them
  and the exceptions these raise on an object of the wrong class. Floats are rationals;
  \<open>True\<close>, \<open>1\<close> and \<open>1.0\<close>, which Python takes for equal, are different here.
\<close>

datatype json =
    JNull
  | JBool bool
  | JInt int
  | JFloat rat
  | JStr string
  | JList "json list"
  | JDict "(string \<times> json) list"

section \<open>Exceptions\<close>

definition key_error :: "string \<Rightarrow> exn" where
  "key_error k = Exn [''KeyError'', ''LookupError'', ''Exception''] k"

definition type_error :: "string \<Rightarrow> exn" where
  "type_error m = Exn [''TypeError'', ''Exception''] m"

definition attribute_error :: "string \<Rightarrow> exn" where
  "attribute_error m = Exn [''AttributeError'', ''Exception''] m"

definition zero_division :: exn where
  "zero_division = Exn [''ZeroDivisionError'', ''ArithmeticError'', ''Exception''] ''division by zero''"

definition recursion_error :: exn where
  "recursion_error =
     Exn [''RecursionError'', ''RuntimeError'', ''Exception''] ''maximum recursion depth exceeded''"

text \<open>Sequencing of computations that may raise, and the same over a list.\<close>

definition ebind :: "exn + 'a \<Rightarrow> ('a \<Rightarrow> exn + 'b) \<Rightarrow> exn + 'b" where
  "ebind x f = (case x of Inl e \<Rightarrow> Inl e | Inr v \<Rightarrow> f v)"

lemma ebind_simps [simp]: "ebind (Inl e) f = Inl e" "ebind (Inr v) f = f v"
  by (simp_all add: ebind_def)

lemma ebind_Inr: "ebind x f = Inr y \<longleftrightarrow> (\<exists>v. x = Inr v \<and> f v = Inr y)"
  by (cases x) simp_all

fun emap :: "('a \<Rightarrow> exn + 'b) \<Rightarrow> 'a list \<Rightarrow> exn + 'b list" where
  "emap f [] = Inr []"
| "emap f (x # xs) = ebind (f x) (\<lambda>y. ebind (emap f xs) (\<lambda>ys. Inr (y # ys)))"

text \<open>A loop whose body returns nothing.\<close>

fun eall :: "('a \<Rightarrow> exn + unit) \<Rightarrow> 'a list \<Rightarrow> exn + unit" where
  "eall f [] = Inr ()"
| "eall f (x # xs) = ebind (f x) (\<lambda>_. eall f xs)"

lemma eall_Inr: "eall f xs = Inr () \<longleftrightarrow> (\<forall>x \<in> set xs. f x = Inr ())"
  by (induction xs) (auto simp: ebind_Inr)

lemma emap_Inr: "emap f xs = Inr ys \<longleftrightarrow> list_all2 (\<lambda>x y. f x = Inr y) xs ys"
proof (induction xs arbitrary: ys)
  case (Cons x xs)
  then show ?case by (cases ys) (auto simp: ebind_Inr)
qed auto

lemma emap_total: "(\<And>x. x \<in> set xs \<Longrightarrow> \<exists>y. f x = Inr y) \<Longrightarrow> \<exists>ys. emap f xs = Inr ys"
  by (induction xs) (force simp: ebind_Inr)+

lemma emap_id: "(\<And>x. x \<in> set xs \<Longrightarrow> f (g x) = Inr (h x)) \<Longrightarrow> emap f (map g xs) = Inr (map h xs)"
  by (induction xs) simp_all

section \<open>Operations\<close>

text \<open>Truth value, \<open>x[k]\<close>, \<open>x.get(k, d)\<close>, iteration, \<open>k in x\<close>, \<open>x.items()\<close>, hashing.\<close>

fun py_truth :: "json \<Rightarrow> bool" where
  "py_truth JNull \<longleftrightarrow> False"
| "py_truth (JBool b) \<longleftrightarrow> b"
| "py_truth (JInt i) \<longleftrightarrow> i \<noteq> 0"
| "py_truth (JFloat q) \<longleftrightarrow> q \<noteq> 0"
| "py_truth (JStr s) \<longleftrightarrow> s \<noteq> []"
| "py_truth (JList xs) \<longleftrightarrow> xs \<noteq> []"
| "py_truth (JDict d) \<longleftrightarrow> d \<noteq> []"

fun py_item :: "json \<Rightarrow> string \<Rightarrow> exn + json" where
  "py_item (JDict d) k = (case dget d k of None \<Rightarrow> Inl (key_error k) | Some v \<Rightarrow> Inr v)"
| "py_item (JList _) _ = Inl (type_error ''list indices must be integers or slices, not str'')"
| "py_item (JStr _) _ = Inl (type_error ''string indices must be integers, not str'')"
| "py_item _ _ = Inl (type_error ''object is not subscriptable'')"

fun py_get :: "json \<Rightarrow> string \<Rightarrow> json \<Rightarrow> exn + json" where
  "py_get (JDict d) k v = Inr (dget_or v d k)"
| "py_get _ _ _ = Inl (attribute_error ''object has no attribute get'')"

fun py_iter :: "json \<Rightarrow> exn + json list" where
  "py_iter (JList xs) = Inr xs"
| "py_iter (JDict d) = Inr (map (\<lambda>(k, _). JStr k) d)"
| "py_iter (JStr s) = Inr (map (\<lambda>c. JStr [c]) s)"
| "py_iter _ = Inl (type_error ''object is not iterable'')"

fun py_in :: "string \<Rightarrow> json \<Rightarrow> exn + bool" where
  "py_in k (JDict d) = Inr (dget d k \<noteq> None)"
| "py_in k (JList xs) = Inr (JStr k \<in> set xs)"
| "py_in k (JStr s) = Inr (str_contains k s)"
| "py_in _ _ = Inl (type_error ''argument is not iterable'')"

fun py_items :: "json \<Rightarrow> exn + (string \<times> json) list" where
  "py_items (JDict d) = Inr d"
| "py_items _ = Inl (attribute_error ''object has no attribute items'')"

fun hashable :: "json \<Rightarrow> bool" where
  "hashable (JList _) \<longleftrightarrow> False"
| "hashable (JDict _) \<longleftrightarrow> False"
| "hashable _ \<longleftrightarrow> True"

definition py_hash :: "json \<Rightarrow> exn + unit" where
  "py_hash v = (if hashable v then Inr () else Inl (type_error ''unhashable type''))"

text \<open>The white space of \<open>str.strip\<close>, among the first 256 code points.\<close>

definition is_space :: "char \<Rightarrow> bool" where
  "is_space c \<longleftrightarrow> (let n = of_char c :: nat in 9 \<le> n \<and> n \<le> 13 \<or> 28 \<le> n \<and> n \<le> 32 \<or> n = 133 \<or> n = 160)"

definition is_blank :: "string \<Rightarrow> bool" where
  "is_blank s \<longleftrightarrow> list_all is_space s"

text \<open>An f-string of an object; the rendering of anything but a string is a parameter.\<close>

fun fstr :: "(json \<Rightarrow> string) \<Rightarrow> json \<Rightarrow> string" where
  "fstr show_json (JStr s) = s"
| "fstr show_json v = show_json v"

text \<open>\<open>x >= n\<close>: numbers and truth values compare with an integer.\<close>

fun py_ge_int :: "json \<Rightarrow> int \<Rightarrow> exn + bool" where
  "py_ge_int (JInt i) n = Inr (n \<le> i)"
| "py_ge_int (JFloat q) n = Inr (of_int n \<le> q)"
| "py_ge_int (JBool b) n = Inr (n \<le> (if b then 1 else 0))"
| "py_ge_int _ _ = Inl (type_error ''not supported between these instances'')"

section \<open>Text functions\<close>

text \<open>
  The functions of the modules \<open>json\<close>, \<open>hashlib\<close> and \<open>datetime\<close> of which the code uses nothing but the
  result.
\<close>

record texts =
  tx_dumps :: "json \<Rightarrow> exn + string"
  tx_dumps_sorted :: "json \<Rightarrow> exn + string"
  tx_loads :: "string \<Rightarrow> exn + json"
  tx_sha256 :: "string \<Rightarrow> string"
  tx_isoformat :: "rat \<Rightarrow> string"
  tx_fromisoformat :: "json \<Rightarrow> exn + rat"

end
