(* ===== verification/WorkflowGraph.thy ===== *)
theory WorkflowGraph
  imports Prelude
begin

text \<open>
  \<^verbatim>\<open>libs/workflows/workflow_loader.py\<close>, \<open>_check_circular_dependencies\<close>: the depth-first search
  for a cycle, on any graph given as a dictionary from nodes to lists of successors. The
  visited nodes and the recursion stack are the two sets that the nested function
  \<open>has_cycle\<close> updates.
\<close>

section \<open>The search\<close>

type_synonym 'a graph = "('a, 'a list) dict"

definition succs :: "'a graph \<Rightarrow> 'a \<Rightarrow> 'a list" where
  "succs g n = dget_or [] g n"

definition graph_edges :: "'a graph \<Rightarrow> ('a \<times> 'a) set" where
  "graph_edges g = {(a, b). b \<in> set (succs g a)}"

definition universe :: "'a graph \<Rightarrow> 'a set" where
  "universe g = fst ` set g"

text \<open>
  The loop over the neighbours, with the body of \<open>has_cycle\<close> for a neighbour that is not
  visited yet in place of the call; \<open>has_cycle\<close> itself follows.
\<close>

function dfs_each :: "'a graph \<Rightarrow> 'a list \<Rightarrow> 'a set \<Rightarrow> 'a set \<Rightarrow> bool \<times> 'a set \<times> 'a set" where
  "dfs_each g [] vis st = (False, vis, st)"
| "dfs_each g (n # ns) vis st =
     (if n \<notin> vis then
        (case dfs_each g (succs g n) (insert n vis) (insert n st) of
           (True, vis1, st1) \<Rightarrow> (True, vis1, st1)
         | (False, vis1, st1) \<Rightarrow> dfs_each g ns vis1 (st1 - {n}))
      else if n \<in> st then (True, vis, st)
      else dfs_each g ns vis st)"
  by pat_completeness auto

lemma dfs_each_visits:
  "dfs_each_dom (g, ns, vis, st) \<Longrightarrow> vis \<subseteq> fst (snd (dfs_each g ns vis st))"
proof (induction rule: dfs_each.pinduct)
  case (2 g n ns vis st)
  obtain b vis1 st1 where inner: "dfs_each g (succs g n) (insert n vis) (insert n st) = (b, vis1, st1)"
    by (rule prod_cases3)
  note eq = dfs_each.psimps(2) [OF 2(1), unfolded inner]
  note first = 2(2) [unfolded inner] and rest = 2(3) [OF _ inner [symmetric] _ refl]
  show ?case
  proof (cases "n \<in> vis")
    case True
    with 2(4) show ?thesis by (simp add: eq)
  next
    case False
    with first rest show ?thesis by (cases b) (auto simp: eq)
  qed
qed (simp add: dfs_each.psimps)

lemma finite_universe [simp]: "finite (universe g)"
  by (simp add: universe_def)

lemma succs_outside: "n \<notin> universe g \<Longrightarrow> succs g n = []"
  by (force simp: universe_def succs_def dget_or_def split: option.split dest: map_of_SomeD)

text \<open>Every call visits a new node of the graph or looks at a shorter list.\<close>

definition dfs_order :: "(('a graph \<times> 'a list \<times> 'a set \<times> 'a set) \<times> 'a graph \<times> 'a list \<times> 'a set \<times> 'a set) set" where
  "dfs_order =
     (\<lambda>(g, ns, vis, st). card (universe g - vis)) <*mlex*> measure (\<lambda>(g, ns, vis, st). length ns)"

lemma dfs_orderI:
  assumes "universe g - vis' \<subset> universe g - vis \<or> universe g - vis' \<subseteq> universe g - vis \<and> length ns' < length ns"
  shows "((g, ns', vis', st'), (g, ns, vis, st)) \<in> dfs_order"
proof -
  let ?new = "universe g - vis'" and ?old = "universe g - vis"
  have fin: "finite ?old" by simp
  have "card ?new < card ?old \<or> card ?new \<le> card ?old \<and> length ns' < length ns"
    using assms psubset_card_mono [OF fin, of ?new] card_mono [OF fin, of ?new] by metis
  then show ?thesis unfolding dfs_order_def mlex_iff by (simp add: le_less) blast
qed

termination dfs_each
proof (relation dfs_order)
  show "wf (dfs_order :: (('a graph \<times> 'a list \<times> 'a set \<times> 'a set) \<times> 'a graph \<times> 'a list \<times> 'a set \<times> 'a set) set)"
    by (simp add: dfs_order_def wf_mlex)
next
  fix g :: "'a graph" and n :: 'a and ns and vis st :: "'a set"
  assume n: "n \<notin> vis"
  show "((g, succs g n, insert n vis, insert n st), (g, n # ns, vis, st)) \<in> dfs_order"
  proof (rule dfs_orderI, cases "n \<in> universe g")
    case True
    with n show "universe g - insert n vis \<subset> universe g - vis \<or>
        universe g - insert n vis \<subseteq> universe g - vis \<and> length (succs g n) < length (n # ns)" by blast
  next
    case False
    then show "universe g - insert n vis \<subset> universe g - vis \<or>
        universe g - insert n vis \<subseteq> universe g - vis \<and> length (succs g n) < length (n # ns)"
      by (simp add: succs_outside)
  qed
next
  fix g :: "'a graph" and n :: 'a and ns and vis st :: "'a set" and b y vis1 st1
  assume x: "(b, y) = dfs_each g (succs g n) (insert n vis) (insert n st)" "(vis1, st1) = y"
    and dom: "dfs_each_dom (g, succs g n, insert n vis, insert n st)"
  have "dfs_each g (succs g n) (insert n vis) (insert n st) = (b, vis1, st1)"
    using x by simp
  then have "vis \<subseteq> vis1"
    using dfs_each_visits [OF dom] by simp
  then show "((g, ns, vis1, st1 - {n}), (g, n # ns, vis, st)) \<in> dfs_order"
    by (intro dfs_orderI) auto
next
  fix g :: "'a graph" and n :: 'a and ns and vis st :: "'a set"
  show "((g, ns, vis, st), (g, n # ns, vis, st)) \<in> dfs_order"
    by (intro dfs_orderI) auto
qed

definition has_cycle :: "'a graph \<Rightarrow> 'a \<Rightarrow> 'a set \<Rightarrow> 'a set \<Rightarrow> bool \<times> 'a set \<times> 'a set" where
  "has_cycle g n vis st =
     (case dfs_each g (succs g n) (insert n vis) (insert n st) of
        (True, vis1, st1) \<Rightarrow> (True, vis1, st1)
      | (False, vis1, st1) \<Rightarrow> (False, vis1, st1 - {n}))"

lemma dfs_each_has_cycle:
  "dfs_each g (n # ns) vis st =
     (if n \<notin> vis then
        (case has_cycle g n vis st of
           (True, vis1, st1) \<Rightarrow> (True, vis1, st1)
         | (False, vis1, st1) \<Rightarrow> dfs_each g ns vis1 st1)
      else if n \<in> st then (True, vis, st)
      else dfs_each g ns vis st)"
  by (simp add: has_cycle_def split: prod.split bool.split)

fun find_cycle :: "'a graph \<Rightarrow> 'a list \<Rightarrow> 'a set \<Rightarrow> 'a set \<Rightarrow> bool" where
  "find_cycle g [] vis st \<longleftrightarrow> False"
| "find_cycle g (n # ns) vis st \<longleftrightarrow>
     (if n \<notin> vis then
        (case has_cycle g n vis st of
           (True, _, _) \<Rightarrow> True
         | (False, vis1, st1) \<Rightarrow> find_cycle g ns vis1 st1)
      else find_cycle g ns vis st)"

section \<open>Correctness\<close>

text \<open>A search that finds nothing leaves the recursion stack as it was.\<close>

lemma dfs_each_stack:
  assumes "dfs_each g ns vis st = (False, vis1, st1)" and "st \<subseteq> vis"
  shows "st1 = st \<and> vis \<subseteq> vis1"
  using assms
proof (induction g ns vis st arbitrary: vis1 st1 rule: dfs_each.induct)
  case (2 g n ns vis st)
  show ?case
  proof (cases "n \<in> vis")
    case True
    with 2 show ?thesis by (auto split: if_splits)
  next
    case False
    obtain b vis2 st2 where inner: "dfs_each g (succs g n) (insert n vis) (insert n st) = (b, vis2, st2)"
      by (rule prod_cases3)
    with 2(4) False have b: "b = False" and rest: "dfs_each g ns vis2 (st2 - {n}) = (False, vis1, st1)"
      by (auto split: bool.splits)
    have "st2 = insert n st" "insert n vis \<subseteq> vis2"
      using 2(1) [OF False] inner b 2(5) by auto
    moreover have "n \<notin> st" using 2(5) False by blast
    ultimately show ?thesis
      using 2(2) [OF False inner [symmetric] b refl rest] 2(5) by auto
  qed
qed simp

text \<open>
  A cycle that is reported exists: every node of the stack has a path to the nodes that are
  looked at.
\<close>

lemma dfs_each_sound:
  assumes "dfs_each g ns vis st = (True, vis1, st1)" and "st \<subseteq> vis"
    and "\<And>s n. s \<in> st \<Longrightarrow> n \<in> set ns \<Longrightarrow> (s, n) \<in> (graph_edges g)\<^sup>+"
  shows "\<not> acyclic (graph_edges g)"
  using assms
proof (induction g ns vis st arbitrary: vis1 st1 rule: dfs_each.induct)
  case (2 g n ns vis st)
  show ?case
  proof (cases "n \<in> vis")
    case True
    with 2(3,4,5,6) show ?thesis
      by (cases "n \<in> st") (auto simp: acyclic_def)
  next
    case False
    obtain b vis2 st2 where inner: "dfs_each g (succs g n) (insert n vis) (insert n st) = (b, vis2, st2)"
      by (rule prod_cases3)
    show ?thesis
    proof (cases b)
      case True
      have "(s, m) \<in> (graph_edges g)\<^sup>+" if "s \<in> insert n st" and "m \<in> set (succs g n)" for s m
      proof -
        have "(n, m) \<in> graph_edges g" using that(2) by (simp add: graph_edges_def)
        then show ?thesis using that(1) 2(6) [of s n] by (auto intro: trancl_into_trancl)
      qed
      with 2(1) [OF False] inner True 2(5) show ?thesis by auto
    next
      case False': False
      then have b: "b = False" by simp
      with 2(4) False inner have rest: "dfs_each g ns vis2 (st2 - {n}) = (True, vis1, st1)"
        by simp
      have "st2 - {n} = st" "vis \<subseteq> vis2"
        using dfs_each_stack [of g "succs g n" "insert n vis" "insert n st"] inner b 2(5) False by auto
      with 2(2) [OF False inner [symmetric] b refl rest] 2(5,6) show ?thesis by auto
    qed
  qed
qed simp

text \<open>
  The finished nodes are those visited and no longer on the stack. No edge leaves them, and no
  cycle goes through them.
\<close>

definition finished :: "'a graph \<Rightarrow> 'a set \<Rightarrow> bool" where
  "finished g B \<longleftrightarrow> graph_edges g `` B \<subseteq> B \<and> (\<forall>x \<in> B. (x, x) \<notin> (graph_edges g)\<^sup>+)"

lemma finished_insert:
  assumes "finished g B" and "n \<notin> B" and "set (succs g n) \<subseteq> B"
  shows "finished g (insert n B)"
proof -
  have step: "graph_edges g `` insert n B \<subseteq> B"
    using assms by (auto simp: finished_def graph_edges_def)
  have "y \<in> B" if "(n, y) \<in> (graph_edges g)\<^sup>+" for y
    using that by (induction rule: trancl_induct) (use step in blast)+
  then show ?thesis
    using assms step by (auto simp: finished_def)
qed

lemma dfs_each_complete:
  assumes "dfs_each g ns vis st = (False, vis1, st1)" and "st \<subseteq> vis" and "finished g (vis - st)"
  shows "finished g (vis1 - st) \<and> set ns \<subseteq> vis1 - st"
  using assms
proof (induction g ns vis st arbitrary: vis1 st1 rule: dfs_each.induct)
  case (2 g n ns vis st)
  show ?case
  proof (cases "n \<in> vis")
    case True
    with 2(4) have n: "n \<notin> st" and rest: "dfs_each g ns vis st = (False, vis1, st1)"
      by (auto split: if_splits)
    moreover have "vis \<subseteq> vis1"
      using dfs_each_stack [OF rest 2(5)] by simp
    ultimately show ?thesis
      using 2(3) [OF _ n rest 2(5,6)] True by auto
  next
    case False
    obtain b vis2 st2 where inner: "dfs_each g (succs g n) (insert n vis) (insert n st) = (b, vis2, st2)"
      by (rule prod_cases3)
    with 2(4) False have b: "b = False" and rest: "dfs_each g ns vis2 (st2 - {n}) = (False, vis1, st1)"
      by (auto split: bool.splits)
    have n: "n \<notin> st" using 2(5) False by blast
    have stack: "st2 - {n} = st" "insert n vis \<subseteq> vis2"
      using dfs_each_stack [of g "succs g n" "insert n vis" "insert n st"] inner b 2(5) n by auto
    have "insert n vis - insert n st = vis - st"
      using False by auto
    with 2(1) [OF False] inner b 2(5,6)
    have "finished g (vis2 - insert n st)" "set (succs g n) \<subseteq> vis2 - insert n st"
      by auto
    then have "finished g (insert n (vis2 - insert n st))"
      by (intro finished_insert) auto
    moreover have "insert n (vis2 - insert n st) = vis2 - st"
      using stack(2) n by auto
    ultimately have "finished g (vis1 - st) \<and> set ns \<subseteq> vis1 - st"
      using 2(2) [OF False inner [symmetric] b refl rest] 2(5) stack by auto
    moreover have "vis2 \<subseteq> vis1"
      using dfs_each_stack [OF rest] stack 2(5) by auto
    ultimately show ?thesis using stack(2) n by auto
  qed
qed simp

lemma find_cycle_correct:
  assumes "finished g vis"
  shows "if find_cycle g ns vis {} then \<not> acyclic (graph_edges g)
    else (\<exists>B. vis \<union> set ns \<subseteq> B \<and> finished g B)"
  using assms
proof (induction ns arbitrary: vis)
  case Nil
  then show ?case by auto
next
  case (Cons n ns)
  show ?case
  proof (cases "n \<in> vis")
    case True
    with Cons.IH [OF Cons.prems] show ?thesis by (auto split: if_splits)
  next
    case False
    obtain b vis1 st1 where outer: "has_cycle g n vis {} = (b, vis1, st1)"
      by (rule prod_cases3)
    have each: "dfs_each g [n] vis {} = (b, vis1, st1)"
      using outer False by (cases b) (simp_all add: dfs_each_has_cycle del: dfs_each.simps(2))
    show ?thesis
    proof (cases b)
      case True
      with dfs_each_sound [of g "[n]" vis "{}"] each outer False show ?thesis by simp
    next
      case no: False
      with each have search: "dfs_each g [n] vis {} = (False, vis1, st1)" by simp
      have "st1 = {}" "vis \<subseteq> vis1"
        using dfs_each_stack [OF search] by auto
      moreover have "finished g vis1" "n \<in> vis1"
        using dfs_each_complete [OF search] Cons.prems by auto
      ultimately show ?thesis
        using Cons.IH [of vis1] outer no False by (auto split: if_splits)
    qed
  qed
qed

text \<open>Over all the nodes of the dictionary the search decides whether the graph has a cycle.\<close>

lemma find_cycle_iff:
  assumes "universe g \<subseteq> set ns"
  shows "find_cycle g ns {} {} \<longleftrightarrow> \<not> acyclic (graph_edges g)"
proof -
  have "acyclic (graph_edges g)" if "set ns \<subseteq> B" and "finished g B" for B
  proof -
    have "x \<in> B" if "(x, y) \<in> (graph_edges g)\<^sup>+" for x y
    proof -
      from that obtain z where "(x, z) \<in> graph_edges g" by (blast dest: tranclD)
      then have "x \<in> universe g" using succs_outside by (fastforce simp: graph_edges_def)
      then show ?thesis using assms \<open>set ns \<subseteq> B\<close> by blast
    qed
    then show ?thesis using \<open>finished g B\<close> by (auto simp: acyclic_def finished_def)
  qed
  moreover have "finished g {}" by (simp add: finished_def)
  ultimately show ?thesis
    using find_cycle_correct [of g "{}" ns] by (auto split: if_splits)
qed

end
