(* ===== verification/WorkflowLoader.thy ===== *)
theory WorkflowLoader
  imports Json WorkflowGraph
begin

text \<open>
  \<^verbatim>\<open>libs/workflows/workflow_loader.py\<close>: parsing, merging, mutation and validation of workflow
  specifications, and the loader with its cache. The files are a parameter: what a path holds
  (nothing, a reading error or the parsed document). Documents are \<open>json\<close> values, so a
  specification of the wrong shape raises what the code would raise. The list objects of a
  document that the loader updates in place are shared with the caller, so the operations that
  do this also return the caller's document as they leave it.
\<close>

section \<open>Data\<close>

record wf_step =
  ws_id :: json
  ws_type :: json
  ws_name :: json
  ws_config :: json
  ws_metadata :: json

record wf_transition =
  wt_from_step :: json
  wt_to_step :: json
  wt_condition :: json
  wt_metadata :: json

record wf_spec =
  wsp_name :: json
  wsp_version :: json
  wsp_description :: json
  wsp_settings :: json
  wsp_steps :: "wf_step list"
  wsp_transitions :: "wf_transition list"
  wsp_tools :: json
  wsp_error_handling :: json
  wsp_metrics :: json
  wsp_feature_flags :: json
  wsp_quotas :: json
  wsp_security :: json
  wsp_monitoring :: json

section \<open>Parsing\<close>

definition parse_node :: "json \<Rightarrow> exn + wf_step" where
  "parse_node node =
     ebind (py_item node ''id'') (\<lambda>i.
     ebind (py_item node ''type'') (\<lambda>t.
     ebind (py_get node ''name'' i) (\<lambda>n.
     ebind (py_get node ''config'' (JDict [])) (\<lambda>c.
     ebind (py_get node ''metadata'' JNull) (\<lambda>m.
       Inr \<lparr>ws_id = i, ws_type = t, ws_name = n, ws_config = c, ws_metadata = m\<rparr>)))))"

definition parse_edge :: "json \<Rightarrow> exn + wf_transition" where
  "parse_edge edge =
     ebind (py_item edge ''from'') (\<lambda>f.
     ebind (py_item edge ''to'') (\<lambda>t.
     ebind (py_get edge ''condition'' (JStr ''true'')) (\<lambda>c.
     ebind (py_get edge ''metadata'' JNull) (\<lambda>m.
       Inr \<lparr>wt_from_step = f, wt_to_step = t, wt_condition = c, wt_metadata = m\<rparr>))))"

definition parse_workflow_data :: "json \<Rightarrow> exn + wf_spec" where
  "parse_workflow_data data =
     ebind (py_get data ''nodes'' (JList [])) (\<lambda>nodes.
     ebind (py_iter nodes) (\<lambda>ns.
     ebind (emap parse_node ns) (\<lambda>steps.
     ebind (py_get data ''edges'' (JList [])) (\<lambda>edges.
     ebind (py_iter edges) (\<lambda>es.
     ebind (emap parse_edge es) (\<lambda>transitions.
     ebind (py_items data) (\<lambda>d.
       Inr \<lparr>wsp_name = dget_or (JStr '''') d ''name'',
            wsp_version = dget_or (JStr ''1.0.0'') d ''version'',
            wsp_description = dget_or (JStr '''') d ''description'',
            wsp_settings = dget_or (JDict []) d ''settings'',
            wsp_steps = steps, wsp_transitions = transitions,
            wsp_tools = dget_or (JList []) d ''tools'',
            wsp_error_handling = dget_or (JList []) d ''error_handling'',
            wsp_metrics = dget_or (JList []) d ''metrics'',
            wsp_feature_flags = dget_or JNull d ''feature_flags'',
            wsp_quotas = dget_or JNull d ''quotas'',
            wsp_security = dget_or JNull d ''security'',
            wsp_monitoring = dget_or JNull d ''monitoring''\<rparr>)))))))"

text \<open>The layout of the YAML files: everything but a few fields is under \<open>workflow\<close>.\<close>

definition parse_step :: "json \<Rightarrow> exn + wf_step" where
  "parse_step data =
     ebind (py_item data ''id'') (\<lambda>i.
     ebind (py_item data ''type'') (\<lambda>t.
     ebind (py_item data ''name'') (\<lambda>n.
     ebind (py_get data ''config'' (JDict [])) (\<lambda>c.
     ebind (py_get data ''metadata'' JNull) (\<lambda>m.
       Inr \<lparr>ws_id = i, ws_type = t, ws_name = n, ws_config = c, ws_metadata = m\<rparr>)))))"

definition parse_transition :: "json \<Rightarrow> exn + wf_transition" where
  "parse_transition data =
     ebind (py_item data ''from'') (\<lambda>f.
     ebind (py_item data ''to'') (\<lambda>t.
     ebind (py_item data ''condition'') (\<lambda>c.
     ebind (py_get data ''metadata'' JNull) (\<lambda>m.
       Inr \<lparr>wt_from_step = f, wt_to_step = t, wt_condition = c, wt_metadata = m\<rparr>))))"

definition parse_spec :: "json \<Rightarrow> exn + wf_spec" where
  "parse_spec data =
     ebind (py_get data ''workflow'' (JDict [])) (\<lambda>workflow.
     ebind (py_get workflow ''steps'' (JList [])) (\<lambda>steps.
     ebind (py_iter steps) (\<lambda>ss.
     ebind (emap parse_step ss) (\<lambda>steps.
     ebind (py_get workflow ''transitions'' (JList [])) (\<lambda>transitions.
     ebind (py_iter transitions) (\<lambda>ts.
     ebind (emap parse_transition ts) (\<lambda>transitions.
     ebind (py_items data) (\<lambda>d.
     ebind (py_items workflow) (\<lambda>w.
       Inr \<lparr>wsp_name = dget_or (JStr '''') d ''name'',
            wsp_version = dget_or (JStr ''1.0.0'') d ''version'',
            wsp_description = dget_or (JStr '''') d ''description'',
            wsp_settings = dget_or (JDict []) w ''settings'',
            wsp_steps = steps, wsp_transitions = transitions,
            wsp_tools = dget_or (JList []) w ''tools'',
            wsp_error_handling = dget_or (JList []) w ''error_handling'',
            wsp_metrics = dget_or (JList []) w ''metrics'',
            wsp_feature_flags = dget_or JNull d ''feature_flags'',
            wsp_quotas = dget_or JNull d ''quotas'',
            wsp_security = dget_or JNull d ''security'',
            wsp_monitoring = dget_or JNull d ''monitoring''\<rparr>)))))))))"

definition step_to_dict :: "wf_step \<Rightarrow> json" where
  "step_to_dict s =
     JDict ([(''id'', ws_id s), (''type'', ws_type s), (''name'', ws_name s), (''config'', ws_config s)] @
       (if py_truth (ws_metadata s) then [(''metadata'', ws_metadata s)] else []))"

definition transition_to_dict :: "wf_transition \<Rightarrow> json" where
  "transition_to_dict t =
     JDict ([(''from'', wt_from_step t), (''to'', wt_to_step t), (''condition'', wt_condition t)] @
       (if py_truth (wt_metadata t) then [(''metadata'', wt_metadata t)] else []))"

section \<open>Merging\<close>

text \<open>\<open>result\<close> starts as a copy of \<open>base\<close>; the items of \<open>override\<close> are merged in one by one.\<close>

function deep_merge :: "(string, json) dict \<Rightarrow> (string, json) dict \<Rightarrow> (string, json) dict" where
  "deep_merge result [] = result"
| "deep_merge result ((k, v) # items) =
     deep_merge
       (case (dget result k, v) of
          (Some (JDict b), JDict o') \<Rightarrow> dset k (JDict (deep_merge b o')) result
        | _ \<Rightarrow> dset k v result) items"
  by pat_completeness auto
termination
  by (relation "measure (\<lambda>(_, o'). size_list (size_prod (\<lambda>_. 0) size) o')") auto

definition py_deep_merge :: "json \<Rightarrow> json \<Rightarrow> exn + json" where
  "py_deep_merge base override =
     ebind (py_items base) (\<lambda>b. ebind (py_items override) (\<lambda>d. Inr (JDict (deep_merge b d))))"

definition spec_to_dict :: "wf_spec \<Rightarrow> (string, json) dict" where
  "spec_to_dict s =
     [(''name'', wsp_name s), (''version'', wsp_version s), (''description'', wsp_description s),
      (''nodes'', JList (map step_to_dict (wsp_steps s))),
      (''edges'', JList (map transition_to_dict (wsp_transitions s))),
      (''settings'', wsp_settings s), (''tools'', wsp_tools s),
      (''error_handling'', wsp_error_handling s), (''metrics'', wsp_metrics s)] @
     (if py_truth (wsp_feature_flags s) then [(''feature_flags'', wsp_feature_flags s)] else []) @
     (if py_truth (wsp_quotas s) then [(''quotas'', wsp_quotas s)] else []) @
     (if py_truth (wsp_security s) then [(''security'', wsp_security s)] else []) @
     (if py_truth (wsp_monitoring s) then [(''monitoring'', wsp_monitoring s)] else [])"

text \<open>What is merged: a document, or a specification already parsed.\<close>

datatype wf_override = OvData json | OvSpec wf_spec

definition extend_list :: "json list \<Rightarrow> string \<Rightarrow> json \<Rightarrow> exn + json list" where
  "extend_list xs k override =
     ebind (py_in k override) (\<lambda>b.
       if b then ebind (py_item override k) (\<lambda>v. ebind (py_iter v) (\<lambda>ys. Inr (xs @ ys)))
       else Inr xs)"

definition merge_specs :: "wf_spec \<Rightarrow> wf_override \<Rightarrow> exn + wf_spec" where
  "merge_specs base ov =
     (case ov of
        OvSpec _ \<Rightarrow> Inl (type_error ''argument of type WorkflowSpec is not iterable'')
      | OvData override \<Rightarrow>
          ebind (extend_list (map step_to_dict (wsp_steps base)) ''nodes'' override) (\<lambda>nodes.
          ebind (extend_list (map transition_to_dict (wsp_transitions base)) ''edges'' override) (\<lambda>edges.
          ebind (py_items override) (\<lambda>items.
            parse_workflow_data (JDict
              (deep_merge
                (dset ''edges'' (JList edges) (dset ''nodes'' (JList nodes) (spec_to_dict base)))
                (filter (\<lambda>(k, _). k \<notin> {''nodes'', ''edges''}) items)))))))"

section \<open>Mutations of a document\<close>

text \<open>The position of the first node whose \<open>id\<close> is the target.\<close>

fun find_node :: "json list \<Rightarrow> string \<Rightarrow> exn + nat option" where
  "find_node [] target = Inr None"
| "find_node (node # nodes) target =
     ebind (py_item node ''id'') (\<lambda>i.
       if i = JStr target then Inr (Some 0)
       else ebind (find_node nodes target) (\<lambda>r. Inr (map_option Suc r)))"

definition edge :: "json \<Rightarrow> json \<Rightarrow> json" where
  "edge f t = JDict [(''from'', f), (''to'', t)]"

text \<open>
  The loop that inserts new nodes from position \<open>pos\<close> on, on the lists of nodes and edges; an
  exception leaves them as they are by then.
\<close>

fun insert_nodes ::
  "string \<Rightarrow> nat \<Rightarrow> json list \<Rightarrow> json list \<times> json list \<Rightarrow> exn option \<times> json list \<times> json list" where
  "insert_nodes target pos [] (nodes, edges) = (None, nodes, edges)"
| "insert_nodes target pos (new_node # new_nodes) (nodes, edges) =
     (let nodes1 = take pos nodes @ new_node # drop pos nodes
      in case py_item new_node ''id'' of
           Inl e \<Rightarrow> (Some e, nodes1, edges)
         | Inr i \<Rightarrow>
             (let edges1 = edges @ [edge (JStr target) i]
              in if pos + 1 < length nodes1 then
                   (case py_item (nodes1 ! (pos + 1)) ''id'' of
                      Inl e \<Rightarrow> (Some e, nodes1, edges1)
                    | Inr n \<Rightarrow> insert_nodes target (pos + 1) new_nodes (nodes1, edges1 @ [edge i n]))
                 else insert_nodes target (pos + 1) new_nodes (nodes1, edges1)))"

fun insert_targets ::
  "(string \<times> json) list \<Rightarrow> json list \<times> json list \<Rightarrow> exn option \<times> json list \<times> json list" where
  "insert_targets [] (nodes, edges) = (None, nodes, edges)"
| "insert_targets ((target, new_nodes) # items) (nodes, edges) =
     (case find_node nodes target of
        Inl e \<Rightarrow> (Some e, nodes, edges)
      | Inr None \<Rightarrow> insert_targets items (nodes, edges)
      | Inr (Some i) \<Rightarrow>
          (case py_iter new_nodes of
             Inl e \<Rightarrow> (Some e, nodes, edges)
           | Inr ns \<Rightarrow>
               (case insert_nodes target (i + 1) ns (nodes, edges) of
                  (None, nodes1, edges1) \<Rightarrow> insert_targets items (nodes1, edges1)
                | (Some e, nodes1, edges1) \<Rightarrow> (Some e, nodes1, edges1))))"

text \<open>
  \<open>nodes\<close> and \<open>edges\<close> are the caller's lists where the document has them. The second component
  is the caller's document afterwards. Documents in which \<open>nodes\<close> and \<open>edges\<close> are not lists, or
  the instructions not dictionaries, are outside the model: they give an exception here.
\<close>

definition put_back :: "string \<Rightarrow> json list \<Rightarrow> (string, json) dict \<Rightarrow> (string, json) dict" where
  "put_back k xs d = (if dget d k = None then d else dset k (JList xs) d)"

definition apply_insert_after :: "(string, json) dict \<Rightarrow> (exn + (string, json) dict) \<times> (string, json) dict" where
  "apply_insert_after d =
     (case (dget_or (JList []) d ''nodes'', dget_or (JList []) d ''edges'', dget_or (JDict []) d ''insert_after'') of
        (JList nodes, JList edges, JDict items) \<Rightarrow>
          (case insert_targets items (nodes, edges) of
             (err, nodes1, edges1) \<Rightarrow>
               (case err of
                  Some e \<Rightarrow> Inl e
                | None \<Rightarrow> Inr (dset ''edges'' (JList edges1)
                            (dset ''nodes'' (JList nodes1) (ddel ''insert_after'' d))),
                put_back ''edges'' edges1 (put_back ''nodes'' nodes1 d)))
      | _ \<Rightarrow> (Inl (attribute_error ''wrong type''), d))"

fun patch_nodes :: "(string \<times> json) list \<Rightarrow> json list \<Rightarrow> exn option \<times> json list" where
  "patch_nodes [] nodes = (None, nodes)"
| "patch_nodes ((node_id, node_patch) # items) nodes =
     (case find_node nodes node_id of
        Inl e \<Rightarrow> (Some e, nodes)
      | Inr None \<Rightarrow> patch_nodes items nodes
      | Inr (Some i) \<Rightarrow>
          (case py_deep_merge (nodes ! i) node_patch of
             Inl e \<Rightarrow> (Some e, nodes)
           | Inr node \<Rightarrow> patch_nodes items (nodes[i := node])))"

definition apply_patch :: "(string, json) dict \<Rightarrow> (exn + (string, json) dict) \<times> (string, json) dict" where
  "apply_patch d =
     (let result = ddel ''patch'' d
      in case dget_or (JDict []) d ''patch'' of
           JDict patch \<Rightarrow>
             (let rest = filter (\<lambda>(k, _). k \<noteq> ''nodes'') patch
              in case dget patch ''nodes'' of
                   None \<Rightarrow> (Inr (deep_merge result rest), d)
                 | Some (JDict items) \<Rightarrow>
                     (case dget_or (JList []) d ''nodes'' of
                        JList nodes \<Rightarrow>
                          (case patch_nodes items nodes of
                             (Some e, nodes1) \<Rightarrow> (Inl e, put_back ''nodes'' nodes1 d)
                           | (None, nodes1) \<Rightarrow>
                               (Inr (deep_merge (dset ''nodes'' (JList nodes1) result) rest),
                                put_back ''nodes'' nodes1 d))
                      | _ \<Rightarrow> (Inl (type_error ''wrong type''), d))
                 | Some _ \<Rightarrow> (Inl (attribute_error ''object has no attribute items''), d))
         | _ \<Rightarrow> (Inl (type_error ''wrong type''), d))"

text \<open>The mutations of the YAML files work on the steps under \<open>workflow\<close>.\<close>

fun find_step_index :: "json list \<Rightarrow> json \<Rightarrow> exn + nat option" where
  "find_step_index [] step_id = Inr None"
| "find_step_index (step # steps) step_id =
     ebind (py_get step ''id'' JNull) (\<lambda>i.
       if i = step_id then Inr (Some 0)
       else ebind (find_step_index steps step_id) (\<lambda>r. Inr (map_option Suc r)))"

definition update_steps ::
  "(nat \<Rightarrow> json list \<Rightarrow> json list) \<Rightarrow> json \<Rightarrow> (string, json) dict \<Rightarrow> exn + (string, json) dict" where
  "update_steps f target spec =
     ebind (py_get (dget_or (JDict []) spec ''workflow'') ''steps'' (JList [])) (\<lambda>steps.
     ebind (py_iter steps) (\<lambda>ss.
     ebind (find_step_index ss target) (\<lambda>r.
       case (r, dget spec ''workflow'') of
         (Some i, Some (JDict w)) \<Rightarrow>
           Inr (dset ''workflow'' (JDict (dset ''steps'' (JList (f i ss)) w)) spec)
       | _ \<Rightarrow> Inr spec)))"

definition wl_insert_after :: "json \<Rightarrow> json \<Rightarrow> (string, json) dict \<Rightarrow> exn + (string, json) dict" where
  "wl_insert_after target step = update_steps (\<lambda>i ss. take (i + 1) ss @ step # drop (i + 1) ss) target"

definition wl_insert_before :: "json \<Rightarrow> json \<Rightarrow> (string, json) dict \<Rightarrow> exn + (string, json) dict" where
  "wl_insert_before target step = update_steps (\<lambda>i ss. take i ss @ step # drop i ss) target"

definition wl_replace_step :: "json \<Rightarrow> json \<Rightarrow> (string, json) dict \<Rightarrow> exn + (string, json) dict" where
  "wl_replace_step target step = update_steps (\<lambda>i ss. ss[i := step]) target"

definition wl_remove_step :: "json \<Rightarrow> (string, json) dict \<Rightarrow> exn + (string, json) dict" where
  "wl_remove_step target = update_steps (\<lambda>i ss. take i ss @ drop (i + 1) ss) target"

text \<open>\<open>spec["feature_flags"][feature] = value\<close>; keys that are not strings are rendered.\<close>

definition set_feature ::
  "(json \<Rightarrow> string) \<Rightarrow> bool \<Rightarrow> json \<Rightarrow> (string, json) dict \<Rightarrow> exn + (string, json) dict" where
  "set_feature show_json value feature spec =
     (case dget_or (JDict []) spec ''feature_flags'' of
        JDict flags \<Rightarrow>
          ebind (py_hash feature) (\<lambda>_.
            Inr (dset ''feature_flags'' (JDict (dset (fstr show_json feature) (JBool value) flags)) spec))
      | _ \<Rightarrow> Inl (type_error ''object does not support item assignment''))"

definition apply_mutation ::
  "(json \<Rightarrow> string) \<Rightarrow> json \<Rightarrow> (string, json) dict \<Rightarrow> exn + (string, json) dict" where
  "apply_mutation show_json mutation spec =
     ebind (py_get mutation ''type'' JNull) (\<lambda>kind.
     ebind (py_get mutation ''target'' JNull) (\<lambda>target.
     ebind (py_get mutation ''step'' JNull) (\<lambda>step.
     ebind (py_get mutation ''feature'' JNull) (\<lambda>feature.
       if kind = JStr ''insert_after'' then wl_insert_after target step spec
       else if kind = JStr ''insert_before'' then wl_insert_before target step spec
       else if kind = JStr ''replace'' then wl_replace_step target step spec
       else if kind = JStr ''remove'' then wl_remove_step target spec
       else if kind = JStr ''enable'' then set_feature show_json True feature spec
       else if kind = JStr ''disable'' then set_feature show_json False feature spec
       else Inr spec))))"

fun fold_mutations ::
  "(json \<Rightarrow> string) \<Rightarrow> json list \<Rightarrow> (string, json) dict \<Rightarrow> exn + (string, json) dict" where
  "fold_mutations show_json [] spec = Inr spec"
| "fold_mutations show_json (m # ms) spec = ebind (apply_mutation show_json m spec) (fold_mutations show_json ms)"

definition apply_mutations :: "(json \<Rightarrow> string) \<Rightarrow> json \<Rightarrow> exn + json" where
  "apply_mutations show_json data =
     ebind (py_items data) (\<lambda>d.
     ebind (py_iter (dget_or (JList []) d ''mutations'')) (\<lambda>ms.
     ebind (fold_mutations show_json ms (ddel ''mutations'' d)) (\<lambda>spec. Inr (JDict spec))))"

section \<open>Validation\<close>

definition check_name :: "wf_spec \<Rightarrow> exn + unit" where
  "check_name spec =
     (if \<not> py_truth (wsp_name spec) then Inl (value_error ''Missing required field: name'')
      else case wsp_name spec of
             JStr s \<Rightarrow> if is_blank s then Inl (value_error ''Missing required field: name'') else Inr ()
           | _ \<Rightarrow> Inl (attribute_error ''object has no attribute strip''))"

definition check_unique_ids :: "wf_spec \<Rightarrow> exn + unit" where
  "check_unique_ids spec =
     (let step_ids = map ws_id (wsp_steps spec)
      in ebind (eall py_hash step_ids) (\<lambda>_.
           if length step_ids \<noteq> card (set step_ids) then Inl (value_error ''Step IDs must be unique'')
           else Inr ()))"

definition nonexistent_node :: "(json \<Rightarrow> string) \<Rightarrow> wf_transition \<Rightarrow> exn" where
  "nonexistent_node show_json t =
     value_error (''Edge references nonexistent node: '' @ fstr show_json (wt_to_step t))"

definition check_transition :: "(json \<Rightarrow> string) \<Rightarrow> json set \<Rightarrow> wf_transition \<Rightarrow> exn + unit" where
  "check_transition show_json step_id_set t =
     ebind (py_hash (wt_from_step t)) (\<lambda>_.
       if wt_from_step t \<notin> step_id_set then Inl (nonexistent_node show_json t)
       else ebind (py_hash (wt_to_step t)) (\<lambda>_.
         if wt_to_step t \<notin> step_id_set \<and> wt_to_step t \<noteq> JStr ''end''
         then Inl (nonexistent_node show_json t) else Inr ()))"

fun add_transitions :: "wf_transition list \<Rightarrow> json graph \<Rightarrow> json graph" where
  "add_transitions [] g = g"
| "add_transitions (t # ts) g =
     add_transitions ts
       (case dget g (wt_from_step t) of
          None \<Rightarrow> g
        | Some xs \<Rightarrow> dset (wt_from_step t) (xs @ [wt_to_step t]) g)"

fun add_steps :: "wf_step list \<Rightarrow> json graph \<Rightarrow> json graph" where
  "add_steps [] g = g"
| "add_steps (s # ss) g = add_steps ss (dset (ws_id s) [] g)"

definition build_graph :: "wf_spec \<Rightarrow> json graph" where
  "build_graph spec = add_transitions (wsp_transitions spec) (add_steps (wsp_steps spec) [])"

definition check_circular_dependencies :: "wf_spec \<Rightarrow> exn + unit" where
  "check_circular_dependencies spec =
     (if find_cycle (build_graph spec) (map ws_id (wsp_steps spec)) {} {}
      then Inl (value_error ''Circular dependency detected'') else Inr ())"

definition valid_types :: "json set" where
  "valid_types = {JStr ''start'', JStr ''end'', JStr ''agent'', JStr ''validator'', JStr ''tool_call'',
     JStr ''condition'', JStr ''parallel'', JStr ''sequential''}"

definition validate_step :: "(json \<Rightarrow> string) \<Rightarrow> wf_step \<Rightarrow> exn + unit" where
  "validate_step show_json step =
     (if \<not> py_truth (ws_id step) then Inl (value_error ''Step ID is required'')
      else if \<not> py_truth (ws_type step) then Inl (value_error ''Step type is required'')
      else if \<not> py_truth (ws_name step) then Inl (value_error ''Step name is required'')
      else ebind (py_hash (ws_type step)) (\<lambda>_.
        if ws_type step \<notin> valid_types
        then Inl (value_error (''Invalid node type: '' @ fstr show_json (ws_type step)))
        else if ws_type step = JStr ''validator'' then
          ebind (py_in ''schema'' (ws_config step)) (\<lambda>a.
            if a then Inr ()
            else ebind (py_in ''rules'' (ws_config step)) (\<lambda>b.
              if b then Inr () else Inl (value_error ''Validator steps must have a schema or rules'')))
        else if ws_type step = JStr ''tool_call'' then
          ebind (py_in ''tool'' (ws_config step)) (\<lambda>a.
            if a then Inr () else Inl (value_error ''Tool call steps must specify a tool''))
        else Inr ()))"

definition validate_spec :: "(json \<Rightarrow> string) \<Rightarrow> wf_spec \<Rightarrow> exn + unit" where
  "validate_spec show_json spec =
     ebind (check_name spec) (\<lambda>_.
     ebind (check_unique_ids spec) (\<lambda>_.
     ebind (eall (check_transition show_json (set (map ws_id (wsp_steps spec)))) (wsp_transitions spec)) (\<lambda>_.
     ebind (check_circular_dependencies spec) (\<lambda>_.
       eall (validate_step show_json) (wsp_steps spec)))))"

section \<open>The loader\<close>

record wl =
  wl_base_path :: string
  wl_cache :: "(string, wf_spec) dict"
  wl_workflows :: "(string, json) dict option"

definition wl_init :: "string \<Rightarrow> wl" where
  "wl_init base_path = \<lparr>wl_base_path = base_path, wl_cache = [], wl_workflows = None\<rparr>"

record wl_env =
  env_files :: "string \<Rightarrow> (exn + json) option"
  env_show :: "json \<Rightarrow> string"

definition file_not_found :: "string \<Rightarrow> exn" where
  "file_not_found m = Exn [''FileNotFoundError'', ''OSError'', ''Exception''] m"

text \<open>\<open>Path(a) / b\<close>: an absolute \<open>b\<close> stands alone.\<close>

definition path_join :: "string \<Rightarrow> string \<Rightarrow> string" where
  "path_join a b = (if starts_with ''/'' b then b else a @ ''/'' @ b)"

text \<open>\<open>depth\<close> is what is left of Python's recursion limit.\<close>

fun load_yaml_spec :: "nat \<Rightarrow> wl_env \<Rightarrow> string \<Rightarrow> string \<Rightarrow> exn + wf_spec" where
  "load_yaml_spec 0 env base_path file_path = Inl recursion_error"
| "load_yaml_spec (Suc depth) env base_path file_path =
     (case env_files env file_path of
        None \<Rightarrow> Inl (file_not_found file_path)
      | Some (Inl e) \<Rightarrow> Inl e
      | Some (Inr data) \<Rightarrow>
          ebind (py_in ''extends'' data) (\<lambda>extends.
            if extends then
              ebind (py_item data ''extends'') (\<lambda>x.
                case x of
                  JStr p \<Rightarrow>
                    ebind (load_yaml_spec depth env base_path (path_join base_path p)) (\<lambda>base_spec.
                      merge_specs base_spec (OvData data))
                | _ \<Rightarrow> Inl (type_error ''unsupported operand type(s) for /''))
            else
              ebind (py_in ''mutations'' data) (\<lambda>mutations.
              ebind (if mutations then apply_mutations (env_show env) data else Inr data) parse_spec)))"

definition load_base_workflow :: "nat \<Rightarrow> wl_env \<Rightarrow> string \<Rightarrow> json \<Rightarrow> exn + wf_spec" where
  "load_base_workflow depth env base_path workflow_name =
     (let name = fstr (env_show env) workflow_name;
          usecase_path = path_join base_path (''usecases/'' @ name @ ''.yaml'');
          base = path_join base_path (''base/'' @ name @ ''.yaml'')
      in if env_files env usecase_path \<noteq> None then load_yaml_spec depth env base_path usecase_path
         else if env_files env base \<noteq> None then load_yaml_spec depth env base_path base
         else Inl (file_not_found (''Workflow '' @ name @ '' not found'')))"

definition load_tenant_workflow :: "nat \<Rightarrow> wl_env \<Rightarrow> string \<Rightarrow> string \<Rightarrow> exn + wf_spec option" where
  "load_tenant_workflow depth env base_path tenant_id =
     (let tenant_path = path_join base_path (''tenants/'' @ tenant_id @ ''.yaml'');
          default_path = path_join base_path ''tenants/default.yaml''
      in if env_files env tenant_path \<noteq> None
         then ebind (load_yaml_spec depth env base_path tenant_path) (\<lambda>s. Inr (Some s))
         else if env_files env default_path \<noteq> None
         then ebind (load_yaml_spec depth env base_path default_path) (\<lambda>s. Inr (Some s))
         else Inr None)"

definition load_environment_workflow :: "nat \<Rightarrow> wl_env \<Rightarrow> string \<Rightarrow> string \<Rightarrow> exn + wf_spec option" where
  "load_environment_workflow depth env base_path environment =
     (let env_path = path_join base_path (''environments/'' @ environment @ ''.yaml'')
      in if env_files env env_path = None then Inr None
         else ebind (load_yaml_spec depth env base_path env_path) (\<lambda>s. Inr (Some s)))"

definition merge_option :: "wf_spec \<Rightarrow> wf_spec option \<Rightarrow> exn + wf_spec" where
  "merge_option base ov = (case ov of None \<Rightarrow> Inr base | Some s \<Rightarrow> merge_specs base (OvSpec s))"

definition cache_key :: "string \<Rightarrow> string option \<Rightarrow> string \<Rightarrow> string" where
  "cache_key workflow_name tenant_id environment =
     workflow_name @ '':'' @ (case tenant_id of None \<Rightarrow> ''None'' | Some t \<Rightarrow> t) @ '':'' @ environment"

text \<open>\<open>load_workflow\<close> for a name.\<close>

definition load_workflow ::
  "nat \<Rightarrow> wl_env \<Rightarrow> string \<Rightarrow> string option \<Rightarrow> string \<Rightarrow> wl \<Rightarrow> (exn + wf_spec) \<times> wl" where
  "load_workflow depth env workflow_name tenant_id environment l =
     (let key = cache_key workflow_name tenant_id environment
      in case dget (wl_cache l) key of
           Some spec \<Rightarrow> (Inr spec, l)
         | None \<Rightarrow>
             (let result =
                ebind (load_base_workflow depth env (wl_base_path l) (JStr workflow_name)) (\<lambda>base_spec.
                ebind (case tenant_id of
                         None \<Rightarrow> Inr base_spec
                       | Some t \<Rightarrow> ebind (load_tenant_workflow depth env (wl_base_path l) t)
                           (merge_option base_spec)) (\<lambda>spec1.
                ebind (load_environment_workflow depth env (wl_base_path l) environment) (\<lambda>ov.
                ebind (merge_option spec1 ov) (\<lambda>spec2.
                ebind (validate_spec (env_show env) spec2) (\<lambda>_. Inr spec2)))))
              in case result of
                   Inl e \<Rightarrow> (Inl e, l)
                 | Inr spec \<Rightarrow> (Inr spec, l\<lparr>wl_cache := dset key spec (wl_cache l)\<rparr>)))"

text \<open>
  \<open>load_workflow\<close> for a document. The document is returned as the loader leaves it; a base
  found among \<open>_workflows\<close> is left changed there. A document that is no dictionary raises; which
  of the exceptions it is depends on its class and is not distinguished.
\<close>

definition keep_lists :: "(string, json) dict \<Rightarrow> (string, json) dict \<Rightarrow> (string, json) dict" where
  "keep_lists d x =
     (case (dget d ''nodes'', dget x ''nodes'') of (Some _, Some v) \<Rightarrow> dset ''nodes'' v d | _ \<Rightarrow> d)"

fun load_workflow_from_data :: "nat \<Rightarrow> wl_env \<Rightarrow> json \<Rightarrow> wl \<Rightarrow> (exn + wf_spec) \<times> json \<times> wl" where
  "load_workflow_from_data 0 env data l = (Inl recursion_error, data, l)"
| "load_workflow_from_data (Suc depth) env (JDict d) l =
     (case dget d ''extends'' of
        Some base_name \<Rightarrow>
          (case (base_name, wl_workflows l) of
             (JStr n, Some ws) \<Rightarrow>
               (case dget ws n of
                  Some base \<Rightarrow>
                    (case load_workflow_from_data depth env base l of
                       (r, base', l1) \<Rightarrow>
                         (ebind r (\<lambda>spec. merge_specs spec (OvData (JDict d))), JDict d,
                          l1\<lparr>wl_workflows := Some (dset n base' (case wl_workflows l1 of None \<Rightarrow> [] | Some ws1 \<Rightarrow> ws1))\<rparr>))
                | None \<Rightarrow>
                    (ebind (load_base_workflow depth env (wl_base_path l) base_name)
                       (\<lambda>spec. merge_specs spec (OvData (JDict d))), JDict d, l))
           | (v, ws) \<Rightarrow>
               (ebind (if ws = None then Inr () else py_hash v) (\<lambda>_.
                ebind (load_base_workflow depth env (wl_base_path l) v)
                  (\<lambda>spec. merge_specs spec (OvData (JDict d)))), JDict d, l))
      | None \<Rightarrow>
          (case (if dget d ''insert_after'' = None then (Inr d, d) else apply_insert_after d) of
             (Inl e, d1) \<Rightarrow> (Inl e, JDict d1, l)
           | (Inr x1, d1) \<Rightarrow>
               (case (if dget x1 ''patch'' = None then (Inr x1, x1) else apply_patch x1) of
                  (Inl e, x2) \<Rightarrow> (Inl e, JDict (keep_lists d1 x2), l)
                | (Inr x3, x2) \<Rightarrow>
                    (ebind (parse_workflow_data (JDict x3)) (\<lambda>spec.
                     ebind (validate_spec (env_show env) spec) (\<lambda>_. Inr spec)),
                     JDict (keep_lists d1 x2), l))))"
| "load_workflow_from_data (Suc depth) env data l =
     (Inl (attribute_error ''object has no attribute get''), data, l)"

definition load_workflow_from_file :: "nat \<Rightarrow> wl_env \<Rightarrow> string \<Rightarrow> wl \<Rightarrow> (exn + wf_spec) \<times> wl" where
  "load_workflow_from_file depth env file_path l =
     (case env_files env file_path of
        None \<Rightarrow> (Inl (file_not_found file_path), l)
      | Some (Inl e) \<Rightarrow> (Inl e, l)
      | Some (Inr data) \<Rightarrow> (case load_workflow_from_data depth env data l of (r, _, l1) \<Rightarrow> (r, l1)))"

definition clear_cache :: "wl \<Rightarrow> wl" where
  "clear_cache l = l\<lparr>wl_cache := []\<rparr>"

definition get_cached_workflows :: "wl \<Rightarrow> string list" where
  "get_cached_workflows l = map fst (wl_cache l)"

definition merge_configs :: "(string, json) dict \<Rightarrow> (string, json) dict \<Rightarrow> (string, json) dict" where
  "merge_configs base_config patch_config = deep_merge base_config patch_config"

definition validate_budget :: "(string, rat) dict \<Rightarrow> bool" where
  "validate_budget usage \<longleftrightarrow>
     dget_or 0 usage ''cost'' \<le> 1 \<and> dget_or 0 usage ''tokens'' \<le> 1000 \<and> dget_or 0 usage ''duration'' \<le> 30"

definition validate_gates :: "(string, json) dict \<Rightarrow> bool" where
  "validate_gates input_data \<longleftrightarrow> dget input_data ''tenant_id'' \<noteq> None"

section \<open>What validation decides\<close>

definition step_ids :: "wf_spec \<Rightarrow> json set" where
  "step_ids spec = ws_id ` set (wsp_steps spec)"

definition flow :: "wf_spec \<Rightarrow> (json \<times> json) set" where
  "flow spec = (\<lambda>t. (wt_from_step t, wt_to_step t)) ` set (wsp_transitions spec)"

definition step_ok :: "wf_step \<Rightarrow> bool" where
  "step_ok s \<longleftrightarrow> hashable (ws_id s) \<and> py_truth (ws_id s) \<and> ws_type s \<in> valid_types \<and> py_truth (ws_name s) \<and>
     (ws_type s = JStr ''validator'' \<longrightarrow>
        py_in ''schema'' (ws_config s) = Inr True \<or> py_in ''rules'' (ws_config s) = Inr True) \<and>
     (ws_type s = JStr ''tool_call'' \<longrightarrow> py_in ''tool'' (ws_config s) = Inr True)"

definition valid_workflow :: "wf_spec \<Rightarrow> bool" where
  "valid_workflow spec \<longleftrightarrow>
     (\<exists>n. wsp_name spec = JStr n \<and> \<not> is_blank n) \<and>
     (\<forall>s \<in> set (wsp_steps spec). step_ok s) \<and>
     distinct (map ws_id (wsp_steps spec)) \<and>
     flow spec \<subseteq> step_ids spec \<times> insert (JStr ''end'') (step_ids spec) \<and>
     acyclic (flow spec)"

lemma py_hash_Inr [simp]: "py_hash v = Inr () \<longleftrightarrow> hashable v"
  by (simp add: py_hash_def)

lemma dget_add_steps:
  "dget (add_steps ss g) k = (if k \<in> ws_id ` set ss then Some [] else dget g k)"
  by (induction ss arbitrary: g) (auto simp: dget_dset)

lemma dget_add_transitions:
  "dget (add_transitions ts g) k =
     map_option (\<lambda>xs. xs @ map wt_to_step (filter (\<lambda>t. wt_from_step t = k) ts)) (dget g k)"
proof (induction ts arbitrary: g)
  case Nil
  show ?case by (cases "dget g k") simp_all
next
  case (Cons t ts)
  show ?case
    by (cases "dget g k"; cases "dget g (wt_from_step t)") (auto simp: Cons.IH dget_dset)
qed

lemma dget_build_graph:
  "dget (build_graph spec) k =
     (if k \<in> step_ids spec
      then Some (map wt_to_step (filter (\<lambda>t. wt_from_step t = k) (wsp_transitions spec))) else None)"
  by (simp add: build_graph_def dget_add_transitions dget_add_steps step_ids_def)

lemma build_graph_edges:
  "graph_edges (build_graph spec) = {(a, b) \<in> flow spec. a \<in> step_ids spec}"
  by (auto simp: graph_edges_def succs_def dget_or_def dget_build_graph flow_def split: if_splits)

lemma universe_build_graph: "universe (build_graph spec) \<subseteq> step_ids spec"
proof
  fix k
  assume "k \<in> universe (build_graph spec)"
  then have "dget (build_graph spec) k \<noteq> None"
    by (auto simp: universe_def map_of_eq_None_iff)
  then show "k \<in> step_ids spec"
    by (simp add: dget_build_graph split: if_splits)
qed

lemma check_circular_iff:
  "check_circular_dependencies spec = Inr () \<longleftrightarrow> acyclic {(a, b) \<in> flow spec. a \<in> step_ids spec}"
proof -
  have "universe (build_graph spec) \<subseteq> set (map ws_id (wsp_steps spec))"
    using universe_build_graph by (simp add: step_ids_def)
  from find_cycle_iff [OF this] show ?thesis
    by (simp add: check_circular_dependencies_def build_graph_edges)
qed

lemma check_name_iff: "check_name spec = Inr () \<longleftrightarrow> (\<exists>n. wsp_name spec = JStr n \<and> \<not> is_blank n)"
  by (auto simp: check_name_def is_blank_def split: json.splits if_splits)

lemma check_unique_iff:
  "check_unique_ids spec = Inr () \<longleftrightarrow>
     (\<forall>s \<in> set (wsp_steps spec). hashable (ws_id s)) \<and> distinct (map ws_id (wsp_steps spec))"
proof -
  have "length xs = card (set xs) \<longleftrightarrow> distinct xs" for xs :: "json list"
    using card_distinct [of xs] distinct_card [of xs] by auto
  from this [of "map ws_id (wsp_steps spec)"] show ?thesis
    by (auto simp: check_unique_ids_def ebind_Inr eall_Inr Let_def)
qed

lemma check_transition_iff:
  assumes "\<And>i. i \<in> ids \<Longrightarrow> hashable i"
  shows "check_transition show_json ids t = Inr () \<longleftrightarrow>
    wt_from_step t \<in> ids \<and> wt_to_step t \<in> insert (JStr ''end'') ids"
  using assms by (auto simp: check_transition_def ebind_Inr split: if_splits)

lemma py_in_raises_alike: "py_in k v = Inl e \<Longrightarrow> \<exists>e'. py_in k' v = Inl e'"
  by (cases v) auto

lemma validate_step_iff: "validate_step show_json s = Inr () \<and> hashable (ws_id s) \<longleftrightarrow> step_ok s"
proof -
  have types: "py_truth x \<and> hashable x" if "x \<in> valid_types" for x
    using that by (auto simp: valid_types_def)
  show ?thesis
    using types [of "ws_type s"] py_in_raises_alike [of "''schema''" "ws_config s" _ "''rules''"]
      py_in_raises_alike [of "''rules''" "ws_config s" _ "''schema''"]
    by (cases "py_in ''schema'' (ws_config s)"; cases "py_in ''rules'' (ws_config s)";
        cases "py_in ''tool'' (ws_config s)")
      (auto simp: validate_step_def step_ok_def ebind_Inr)
qed

lemma validate_spec_iff:
  "validate_spec show_json spec = Inr () \<longleftrightarrow> valid_workflow spec"
proof (cases "(\<forall>s \<in> set (wsp_steps spec). hashable (ws_id s)) \<and> flow spec \<subseteq> step_ids spec \<times> UNIV")
  case True
  then have "{(a, b) \<in> flow spec. a \<in> step_ids spec} = flow spec" by auto
  moreover have "eall (check_transition show_json (set (map ws_id (wsp_steps spec)))) (wsp_transitions spec) = Inr ()
      \<longleftrightarrow> flow spec \<subseteq> step_ids spec \<times> insert (JStr ''end'') (step_ids spec)"
    unfolding eall_Inr using True
    by (subst ball_cong [OF refl check_transition_iff]) (auto simp: flow_def step_ids_def)
  ultimately show ?thesis
    using True validate_step_iff [of show_json, symmetric]
    by (auto simp: validate_spec_def valid_workflow_def ebind_Inr check_name_iff check_unique_iff
        check_circular_iff eall_Inr)
next
  case False
  have "\<not> valid_workflow spec"
    using False by (auto simp: valid_workflow_def step_ok_def)
  moreover have "validate_spec show_json spec \<noteq> Inr ()"
  proof
    assume ok: "validate_spec show_json spec = Inr ()"
    then have "\<forall>s \<in> set (wsp_steps spec). hashable (ws_id s)"
      by (auto simp: validate_spec_def ebind_Inr check_unique_iff)
    moreover from this have "check_transition show_json (step_ids spec) t = Inr () \<Longrightarrow>
        wt_from_step t \<in> step_ids spec" for t
      by (subst (asm) check_transition_iff) (auto simp: step_ids_def)
    with ok have "flow spec \<subseteq> step_ids spec \<times> UNIV"
      by (auto simp: validate_spec_def ebind_Inr eall_Inr flow_def step_ids_def)
    ultimately show False using False by blast
  qed
  ultimately show ?thesis by blast
qed

text \<open>
  C9. \<open>_validate_spec\<close> accepts a specification exactly when it is a valid workflow: a name that is
  not blank, steps with distinct identifiers, a known type and the configuration this type
  needs, transitions from steps to steps or to the end, and no cycle of transitions. The
  depth-first search with its two sets decides the last point for every graph.
\<close>

theorem wl_validate_iff:
  "validate_spec show_json spec = Inr () \<longleftrightarrow> valid_workflow spec"
  by (rule validate_spec_iff)

section \<open>Dictionaries and back\<close>

definition none_if_falsy :: "json \<Rightarrow> json" where
  "none_if_falsy v = (if py_truth v then v else JNull)"

lemma none_if_falsy_eq [simp]: "none_if_falsy v = v \<longleftrightarrow> py_truth v \<or> v = JNull"
  by (auto simp: none_if_falsy_def)

definition plain_step :: "wf_step \<Rightarrow> wf_step" where
  "plain_step s = s\<lparr>ws_metadata := none_if_falsy (ws_metadata s)\<rparr>"

definition plain_transition :: "wf_transition \<Rightarrow> wf_transition" where
  "plain_transition t = t\<lparr>wt_metadata := none_if_falsy (wt_metadata t)\<rparr>"

definition plain_spec :: "wf_spec \<Rightarrow> wf_spec" where
  "plain_spec s = s\<lparr>wsp_steps := map plain_step (wsp_steps s),
     wsp_transitions := map plain_transition (wsp_transitions s),
     wsp_feature_flags := none_if_falsy (wsp_feature_flags s), wsp_quotas := none_if_falsy (wsp_quotas s),
     wsp_security := none_if_falsy (wsp_security s), wsp_monitoring := none_if_falsy (wsp_monitoring s)\<rparr>"

lemma parse_step_to_dict: "parse_node (step_to_dict s) = Inr (plain_step s)"
  by (cases s) (simp add: parse_node_def step_to_dict_def dget_or_def plain_step_def none_if_falsy_def)

lemma parse_transition_to_dict: "parse_edge (transition_to_dict t) = Inr (plain_transition t)"
  by (cases t) (simp add: parse_edge_def transition_to_dict_def dget_or_def plain_transition_def none_if_falsy_def)

lemma parse_steps: "emap parse_node (map step_to_dict ss) = Inr (map plain_step ss)"
  by (rule emap_id) (rule parse_step_to_dict)

lemma parse_transitions: "emap parse_edge (map transition_to_dict ts) = Inr (map plain_transition ts)"
  by (rule emap_id) (rule parse_transition_to_dict)

lemma parse_spec_to_dict: "parse_workflow_data (JDict (spec_to_dict s)) = Inr (plain_spec s)"
  by (cases s)
    (simp add: parse_workflow_data_def spec_to_dict_def dget_or_def parse_steps parse_transitions
      plain_spec_def none_if_falsy_def)

text \<open>The optional parts are \<open>None\<close> or not empty.\<close>

definition optional_parts :: "wf_spec \<Rightarrow> json set" where
  "optional_parts s =
     {wsp_feature_flags s, wsp_quotas s, wsp_security s, wsp_monitoring s} \<union>
     ws_metadata ` set (wsp_steps s) \<union> wt_metadata ` set (wsp_transitions s)"

definition no_empty_parts :: "wf_spec \<Rightarrow> bool" where
  "no_empty_parts s \<longleftrightarrow> (\<forall>v \<in> optional_parts s. v = JNull \<or> py_truth v)"

lemma plain_step_eq: "plain_step s = s \<longleftrightarrow> ws_metadata s = JNull \<or> py_truth (ws_metadata s)"
  by (cases s) (auto simp: plain_step_def)

lemma plain_transition_eq: "plain_transition t = t \<longleftrightarrow> wt_metadata t = JNull \<or> py_truth (wt_metadata t)"
  by (cases t) (auto simp: plain_transition_def)

lemma map_fixed: "map f xs = xs \<longleftrightarrow> (\<forall>x \<in> set xs. f x = x)"
  by (induction xs) auto

lemma plain_spec_eq: "plain_spec s = s \<longleftrightarrow> no_empty_parts s"
  by (cases s)
    (auto simp: plain_spec_def no_empty_parts_def optional_parts_def map_fixed plain_step_eq plain_transition_eq)

text \<open>
  C26. Turning a specification into a dictionary and parsing it gives the specification back, but
  for optional parts that are empty: these come back as \<open>None\<close>. It is therefore the same
  specification exactly when every optional part is \<open>None\<close> or not empty, which is the case after
  one round.
\<close>

theorem wl_spec_roundtrip:
  "parse_workflow_data (JDict (spec_to_dict s)) = Inr (plain_spec s) \<and>
   (parse_workflow_data (JDict (spec_to_dict s)) = Inr s \<longleftrightarrow> no_empty_parts s) \<and>
   parse_workflow_data (JDict (spec_to_dict (plain_spec s))) = Inr (plain_spec s)"
proof -
  have "plain_spec (plain_spec s) = plain_spec s"
    by (simp add: plain_spec_def plain_step_def plain_transition_def none_if_falsy_def)
  then show ?thesis by (simp add: parse_spec_to_dict plain_spec_eq)
qed

section \<open>Deep merging\<close>

text \<open>What one key holds after a merge.\<close>

definition merge_value :: "json option \<Rightarrow> json \<Rightarrow> json" where
  "merge_value x v =
     (case v of
        JDict d \<Rightarrow> (case x of Some (JDict b) \<Rightarrow> JDict (deep_merge b d) | _ \<Rightarrow> v)
      | _ \<Rightarrow> v)"

definition merged :: "json option \<Rightarrow> json option \<Rightarrow> json option" where
  "merged x y = (case y of None \<Rightarrow> x | Some v \<Rightarrow> Some (merge_value x v))"

lemma deep_merge_Cons:
  "deep_merge result ((k, v) # items) = deep_merge (dset k (merge_value (dget result k) v) result) items"
  by (auto simp: merge_value_def split: option.split json.split)

lemma dget_deep_merge:
  "wf_dict items \<Longrightarrow> dget (deep_merge result items) k = merged (dget result k) (dget items k)"
proof (induction items arbitrary: result)
  case Nil
  show ?case by (simp add: merged_def)
next
  case (Cons x items)
  obtain k' v where x: "x = (k', v)" by (cases x)
  from Cons have k': "k' \<notin> fst ` set items" and wf: "wf_dict items" by (auto simp: wf_dict_def x)
  then have "dget items k' = None" by (simp add: map_of_eq_None_iff)
  with Cons.IH [OF wf] show ?case
    by (simp add: x deep_merge_Cons dget_dset merged_def split: option.split del: deep_merge.simps(2))
qed

text \<open>The value at the end of a path of keys.\<close>

fun at_path :: "string list \<Rightarrow> json \<Rightarrow> json option" where
  "at_path [] v = Some v"
| "at_path (k # ks) (JDict d) = (case dget d k of None \<Rightarrow> None | Some v \<Rightarrow> at_path ks v)"
| "at_path (k # ks) _ = None"

fun is_dict :: "json \<Rightarrow> bool" where
  "is_dict (JDict _) \<longleftrightarrow> True"
| "is_dict _ \<longleftrightarrow> False"

text \<open>The keys of every dictionary inside are distinct.\<close>

fun wf_json :: "json \<Rightarrow> bool" where
  "wf_json (JDict d) \<longleftrightarrow> wf_dict d \<and> (\<forall>v \<in> snd ` set d. wf_json v)"
| "wf_json (JList xs) \<longleftrightarrow> (\<forall>v \<in> set xs. wf_json v)"
| "wf_json _ \<longleftrightarrow> True"

text \<open>The first key on the path where the override says something other than a dictionary.\<close>

fun overrides_at :: "string list \<Rightarrow> json \<Rightarrow> bool" where
  "overrides_at [] v \<longleftrightarrow> \<not> is_dict v"
| "overrides_at (k # ks) (JDict d) \<longleftrightarrow> (case dget d k of None \<Rightarrow> False | Some v \<Rightarrow> overrides_at ks v)"
| "overrides_at (k # ks) _ \<longleftrightarrow> True"

text \<open>
  Path by path, a merge has what the override says where it says something, and what the
  base says elsewhere: a path that ends in a value in the override ends in the same value in the
  merge, and a path on which the override stops before any value, or is absent, ends in the merge
  as in the base.
\<close>

theorem deep_merge_paths:
  assumes "wf_json (JDict items)"
  shows "(at_path p (JDict items) = Some v \<and> \<not> is_dict v \<longrightarrow>
            at_path p (JDict (deep_merge base items)) = Some v) \<and>
         (at_path p (JDict items) = None \<and> \<not> overrides_at p (JDict items) \<longrightarrow>
            at_path p (JDict (deep_merge base items)) = at_path p (JDict base))"
  using assms
proof (induction p arbitrary: base items)
  case (Cons k ks)
  then have wf: "wf_dict items" by simp
  have sub: "wf_json (JDict d)" if "dget items k = Some (JDict d)" for d
    using map_of_SomeD [OF that] Cons.prems by force
  show ?case
  proof (cases "dget items k")
    case None
    then show ?thesis by (simp add: dget_deep_merge [OF wf] merged_def split: option.split)
  next
    case (Some w)
    show ?thesis
    proof (cases "\<exists>b d. dget base k = Some (JDict b) \<and> w = JDict d")
      case True
      then obtain b d where "dget base k = Some (JDict b)" "w = JDict d" by blast
      with Some Cons.IH [of d b] sub [of d] show ?thesis
        by (simp add: dget_deep_merge [OF wf] merged_def merge_value_def)
    next
      case False
      then have here: "dget (deep_merge base items) k = Some w"
        using Some by (auto simp: dget_deep_merge [OF wf] merged_def merge_value_def split: option.split json.split)
      have "at_path ks w = None \<and> \<not> overrides_at ks w \<longrightarrow> at_path (k # ks) (JDict base) = None"
        using False by (cases ks; cases w; cases "dget base k"; cases "the (dget base k)") auto
      with Some here show ?thesis by simp
    qed
  qed
qed auto

lemma is_dict_cases: "is_dict v \<longleftrightarrow> (\<exists>d. v = JDict d)"
  by (cases v) simp_all

theorem deep_merge_paths_witness:
  "at_path [''a'', ''x''] (JDict (deep_merge [(''a'', JDict [(''x'', JInt 1), (''y'', JInt 2)])]
     [(''a'', JDict [(''x'', JInt 3)])])) = Some (JInt 3) \<and>
   at_path [''a'', ''y''] (JDict (deep_merge [(''a'', JDict [(''x'', JInt 1), (''y'', JInt 2)])]
     [(''a'', JDict [(''x'', JInt 3)])])) = Some (JInt 2)"
proof -
  have wf: "wf_json (JDict [(''a'', JDict [(''x'', JInt 3)])])"
    by (simp add: wf_dict_def)
  show ?thesis
    using deep_merge_paths [OF wf, of "[''a'', ''x'']" "JInt 3" "[(''a'', JDict [(''x'', JInt 1), (''y'', JInt 2)])]"]
      deep_merge_paths [OF wf, of "[''a'', ''y'']" "JInt 3" "[(''a'', JDict [(''x'', JInt 1), (''y'', JInt 2)])]"]
    by (simp del: deep_merge.simps)
qed

section \<open>Extending files\<close>

lemma dget_filter_keys:
  "dget (filter (\<lambda>(k, _). k \<notin> K) d) k = (if k \<in> K then None else dget d k)"
  by (induction d) auto

lemma parse_merged:
  assumes "dget m ''nodes'' = Some (JList (map step_to_dict ss))"
    and "dget m ''edges'' = Some (JList (map transition_to_dict ts))"
  shows "\<exists>spec. parse_workflow_data (JDict m) = Inr spec \<and> wsp_steps spec = map plain_step ss \<and>
    wsp_transitions spec = map plain_transition ts"
  using assms
  by (simp add: parse_workflow_data_def dget_or_def parse_steps parse_transitions)

lemma merge_specs_steps:
  assumes "wf_dict d" and "dget d ''nodes'' = None" and "dget d ''edges'' = None"
  shows "\<exists>spec. merge_specs base (OvData (JDict d)) = Inr spec \<and>
    wsp_steps spec = map plain_step (wsp_steps base) \<and>
    wsp_transitions spec = map plain_transition (wsp_transitions base)"
proof -
  let ?d = "filter (\<lambda>(k, _). k \<notin> {''nodes'', ''edges''}) d"
  let ?b = "dset ''edges'' (JList (map transition_to_dict (wsp_transitions base)))
      (dset ''nodes'' (JList (map step_to_dict (wsp_steps base))) (spec_to_dict base))"
  define m where "m = deep_merge ?b ?d"
  have wf: "wf_dict ?d"
    using assms(1) by (simp add: wf_dict_def distinct_map_filter)
  have "dget m ''nodes'' = Some (JList (map step_to_dict (wsp_steps base)))"
    "dget m ''edges'' = Some (JList (map transition_to_dict (wsp_transitions base)))"
    unfolding m_def dget_deep_merge [OF wf] dget_filter_keys by (simp_all add: merged_def dget_dset)
  from parse_merged [OF this] obtain spec where spec: "parse_workflow_data (JDict m) = Inr spec"
    "wsp_steps spec = map plain_step (wsp_steps base)"
    "wsp_transitions spec = map plain_transition (wsp_transitions base)" by blast
  have "merge_specs base (OvData (JDict d)) = parse_workflow_data (JDict m)"
    unfolding m_def using assms(2,3) by (simp add: merge_specs_def extend_list_def del: insert_iff)
  with spec show ?thesis by metis
qed

text \<open>
  A YAML file that extends another one contributes no steps: when the document has
  \<open>extends\<close> and keeps its steps and transitions under \<open>workflow\<close>, as every YAML file does, it
  loads whenever the extended file does, with the steps and transitions of the extended file
  only, whatever the document says under \<open>workflow\<close> and \<open>mutations\<close>.
\<close>

theorem wl_extends_drops_steps:
  assumes "env_files env path = Some (Inr (JDict d))" and "wf_dict d"
    and "dget d ''extends'' = Some (JStr p)"
    and "dget d ''nodes'' = None" and "dget d ''edges'' = None"
    and "load_yaml_spec depth env base_path (path_join base_path p) = Inr base"
  shows "\<exists>spec. load_yaml_spec (Suc depth) env base_path path = Inr spec \<and>
    wsp_steps spec = map plain_step (wsp_steps base) \<and>
    wsp_transitions spec = map plain_transition (wsp_transitions base)"
  using merge_specs_steps [OF assms(2,4,5), of base] assms(1,3,6) by simp

definition wl_demo_step :: "string \<Rightarrow> json" where
  "wl_demo_step i = JDict [(''id'', JStr i), (''type'', JStr ''agent''), (''name'', JStr i)]"

definition wl_demo_base :: "(string, json) dict" where
  "wl_demo_base =
     [(''name'', JStr ''common''), (''workflow'', JDict [(''steps'', JList [wl_demo_step ''s''])])]"

definition wl_demo_order :: "(string, json) dict" where
  "wl_demo_order =
     [(''name'', JStr ''order''), (''extends'', JStr ''c''),
      (''workflow'', JDict [(''steps'', JList [wl_demo_step ''pay''])])]"

definition wl_demo_env :: wl_env where
  "wl_demo_env =
     \<lparr>env_files = [''w/c'' \<mapsto> Inr (JDict wl_demo_base), ''w/o'' \<mapsto> Inr (JDict wl_demo_order)],
      env_show = (\<lambda>_. ''?'')\<rparr>"

theorem wl_extends_drops_steps_witness:
  "\<exists>spec. load_yaml_spec (Suc (Suc 0)) wl_demo_env ''w'' ''w/o'' = Inr spec \<and>
     map ws_id (wsp_steps spec) = [JStr ''s'']"
proof -
  obtain base where base: "load_yaml_spec (Suc 0) wl_demo_env ''w'' ''w/c'' = Inr base"
      "map ws_id (wsp_steps base) = [JStr ''s'']"
    by (simp add: wl_demo_env_def wl_demo_base_def wl_demo_step_def parse_spec_def parse_step_def dget_or_def)
  have "env_files wl_demo_env ''w/o'' = Some (Inr (JDict wl_demo_order))"
    by (simp add: wl_demo_env_def)
  moreover have "wf_dict wl_demo_order" "dget wl_demo_order ''extends'' = Some (JStr ''c'')"
    "dget wl_demo_order ''nodes'' = None" "dget wl_demo_order ''edges'' = None"
    by (simp_all add: wl_demo_order_def wf_dict_def)
  moreover have "load_yaml_spec (Suc 0) wl_demo_env ''w'' (path_join ''w'' ''c'') = Inr base"
    using base(1) by (simp add: path_join_def starts_with_def del: load_yaml_spec.simps)
  ultimately have "\<exists>spec. load_yaml_spec (Suc (Suc 0)) wl_demo_env ''w'' ''w/o'' = Inr spec \<and>
      wsp_steps spec = map plain_step (wsp_steps base) \<and>
      wsp_transitions spec = map plain_transition (wsp_transitions base)"
    by (rule wl_extends_drops_steps)
  moreover have "map ws_id (map plain_step ss) = map ws_id ss" for ss
    by (simp add: plain_step_def)
  ultimately show ?thesis using base(2) by metis
qed

section \<open>The loader\<close>

text \<open>
  \<open>load_workflow\<close> never applies an override: when it returns a specification it did not have
  in the cache, there is neither a tenant file nor an environment file for it, and the result is
  the base specification. With an override that can be read it raises \<open>TypeError\<close>, because
  \<open>_merge_specs\<close> looks for keys in a \<open>WorkflowSpec\<close>.
\<close>

theorem wl_override_files_always_fail:
  assumes "dget (wl_cache l) (cache_key name tenant environment) = None"
    and "load_workflow depth env name tenant environment l = (r, l')"
  shows "(\<forall>spec. r = Inr spec \<longrightarrow>
            load_base_workflow depth env (wl_base_path l) (JStr name) = Inr spec \<and>
            load_environment_workflow depth env (wl_base_path l) environment = Inr None \<and>
            (\<forall>t. tenant = Some t \<longrightarrow> load_tenant_workflow depth env (wl_base_path l) t = Inr None)) \<and>
         (\<forall>base t ov. load_base_workflow depth env (wl_base_path l) (JStr name) = Inr base \<and>
            tenant = Some t \<and> load_tenant_workflow depth env (wl_base_path l) t = Inr (Some ov) \<longrightarrow>
            r = Inl (type_error ''argument of type WorkflowSpec is not iterable'') \<and> l' = l)"
  using assms
  by (auto simp: load_workflow_def merge_option_def merge_specs_def Let_def ebind_Inr
      split: option.splits sum.splits)

definition wl_demo_overrides :: wl_env where
  "wl_demo_overrides =
     \<lparr>env_files = [''w/base/c.yaml'' \<mapsto> Inr (JDict wl_demo_base),
        ''w/tenants/default.yaml'' \<mapsto> Inr (JDict wl_demo_base)],
      env_show = (\<lambda>_. ''?'')\<rparr>"

theorem wl_override_files_always_fail_witness:
  "fst (load_workflow 1 wl_demo_overrides ''c'' (Some ''t'') ''prod'' (wl_init ''w'')) =
     Inl (type_error ''argument of type WorkflowSpec is not iterable'')"
proof -
  let ?r = "load_workflow 1 wl_demo_overrides ''c'' (Some ''t'') ''prod'' (wl_init ''w'')"
  obtain base where base: "load_base_workflow 1 wl_demo_overrides ''w'' (JStr ''c'') = Inr base"
    by (simp add: load_base_workflow_def wl_demo_overrides_def wl_demo_base_def wl_demo_step_def path_join_def
        starts_with_def parse_spec_def parse_step_def dget_or_def)
  obtain ov where ov: "load_tenant_workflow 1 wl_demo_overrides ''w'' ''t'' = Inr (Some ov)"
    by (simp add: load_tenant_workflow_def wl_demo_overrides_def wl_demo_base_def wl_demo_step_def path_join_def
        starts_with_def parse_spec_def parse_step_def dget_or_def)
  have cold: "dget (wl_cache (wl_init ''w'')) (cache_key ''c'' (Some ''t'') ''prod'') = None"
    by (simp add: wl_init_def)
  have base_path: "wl_base_path (wl_init ''w'') = ''w''" by (simp add: wl_init_def)
  obtain r l' where r: "?r = (r, l')" by (rule prod.exhaust)
  have "r = Inl (type_error ''argument of type WorkflowSpec is not iterable'')"
    using wl_override_files_always_fail [OF cold r] base ov unfolding base_path by blast
  then show ?thesis unfolding r fst_conv .
qed

definition wl_cache_valid :: "wl \<Rightarrow> bool" where
  "wl_cache_valid l \<longleftrightarrow> (\<forall>(k, spec) \<in> set (wl_cache l). valid_workflow spec)"

lemma wl_cache_valid_dset:
  "wl_cache_valid l \<Longrightarrow> valid_workflow spec \<Longrightarrow> wl_cache_valid (l\<lparr>wl_cache := dset k spec (wl_cache l)\<rparr>)"
proof -
  have "(\<forall>(k', s) \<in> set (dset k spec d). valid_workflow s)"
    if "\<forall>(k', s) \<in> set d. valid_workflow s" and "valid_workflow spec" for d
    using that by (induction d) auto
  then show "wl_cache_valid l \<Longrightarrow> valid_workflow spec \<Longrightarrow> wl_cache_valid (l\<lparr>wl_cache := dset k spec (wl_cache l)\<rparr>)"
    by (auto simp: wl_cache_valid_def)
qed

text \<open>
  C40. What \<open>load_workflow\<close> returns is a valid workflow, it keeps the cache free of anything else,
  and the same request is answered from then on with the same specification without reading a
  file, whatever has become of the files and until the cache is cleared.
\<close>

theorem wl_load_is_valid_and_cached:
  assumes "wl_cache_valid l" and "load_workflow depth env name tenant environment l = (r, l')"
  shows "wl_cache_valid l' \<and>
    (\<forall>spec. r = Inr spec \<longrightarrow> valid_workflow spec \<and>
       load_workflow depth' env' name tenant environment l' = (Inr spec, l'))"
proof (cases "dget (wl_cache l) (cache_key name tenant environment)")
  case (Some spec)
  then have "valid_workflow spec"
    using assms(1) by (auto simp: wl_cache_valid_def dest: map_of_SomeD)
  with Some assms show ?thesis by (auto simp: load_workflow_def Let_def)
next
  case None
  show ?thesis
  proof (cases r)
    case (Inl e)
    with None assms show ?thesis
      by (auto simp: load_workflow_def Let_def split: sum.splits)
  next
    case (Inr spec)
    with None assms(2) have "validate_spec (env_show env) spec = Inr ()"
      and l': "l' = l\<lparr>wl_cache := dset (cache_key name tenant environment) spec (wl_cache l)\<rparr>"
      by (auto simp: load_workflow_def Let_def ebind_Inr split: sum.splits)
    then have "valid_workflow spec" by (simp add: validate_spec_iff)
    with Inr assms(1) show ?thesis
      by (auto simp: l' wl_cache_valid_dset load_workflow_def Let_def dget_dset)
  qed
qed

theorem wl_load_is_valid_and_cached_witness:
  "\<exists>spec l'. load_workflow 1 wl_demo_overrides ''c'' None ''prod'' (wl_init ''w'') = (Inr spec, l') \<and>
     valid_workflow spec \<and> load_workflow 0 wl_demo_env ''c'' None ''prod'' l' = (Inr spec, l')"
proof -
  have "\<exists>spec. fst (load_workflow 1 wl_demo_overrides ''c'' None ''prod'' (wl_init ''w'')) = Inr spec"
    by (simp add: load_workflow_def wl_init_def load_base_workflow_def load_environment_workflow_def
        merge_option_def wl_demo_overrides_def wl_demo_base_def wl_demo_step_def path_join_def starts_with_def
        parse_spec_def parse_step_def dget_or_def validate_spec_def check_name_def is_blank_def is_space_def
        check_unique_ids_def py_hash_def check_circular_dependencies_def build_graph_def succs_def
        has_cycle_def validate_step_def valid_types_def Let_def)
  then obtain spec l' where
    load: "load_workflow 1 wl_demo_overrides ''c'' None ''prod'' (wl_init ''w'') = (Inr spec, l')"
    by (metis prod.collapse)
  have "wl_cache_valid (wl_init ''w'')" by (simp add: wl_cache_valid_def wl_init_def)
  from wl_load_is_valid_and_cached [OF this load, of 0 wl_demo_env] load show ?thesis by blast
qed

section \<open>Documents changed in place\<close>

definition has_id :: "json \<Rightarrow> bool" where
  "has_id node \<longleftrightarrow> (\<exists>i. py_item node ''id'' = Inr i)"

lemma insert_nodes_shape:
  assumes "insert_nodes target pos new (nodes, es) = (err, nodes', es')" and "pos \<le> length nodes"
  shows "(err = None \<longrightarrow> nodes' = take pos nodes @ new @ drop pos nodes \<and>
            (\<exists>extra. es' = es @ extra \<and> (\<forall>e \<in> set extra. \<exists>f t. e = edge f t))) \<and>
         ((\<forall>x \<in> set new \<union> set nodes. has_id x) \<longrightarrow> err = None)"
  using assms
proof (induction new arbitrary: pos nodes es)
  case Nil
  then show ?case by auto
next
  case (Cons x new)
  obtain n1 where n1: "n1 = take pos nodes @ x # drop pos nodes" by blast
  have len: "pos + 1 \<le> length n1" using Cons.prems(2) by (simp add: n1)
  have shape: "take (pos + 1) n1 @ new @ drop (pos + 1) n1 = take pos nodes @ (x # new) @ drop pos nodes"
    using Cons.prems(2) by (simp add: n1)
  have ids: "set new \<union> set n1 \<subseteq> set (x # new) \<union> set nodes"
    using set_take_subset [of pos nodes] set_drop_subset [of pos nodes] by (auto simp: n1)
  have run: "(case py_item x ''id'' of
      Inl e \<Rightarrow> (Some e, n1, es)
    | Inr i \<Rightarrow>
        if pos + 1 < length n1 then
          (case py_item (n1 ! (pos + 1)) ''id'' of
             Inl e \<Rightarrow> (Some e, n1, es @ [edge (JStr target) i])
           | Inr n \<Rightarrow> insert_nodes target (pos + 1) new (n1, (es @ [edge (JStr target) i]) @ [edge i n]))
        else insert_nodes target (pos + 1) new (n1, es @ [edge (JStr target) i])) = (err, nodes', es')"
    using Cons.prems(1) unfolding n1 by (simp only: insert_nodes.simps Let_def)
  show ?case
  proof (cases "py_item x ''id''")
    case (Inl e)
    with run show ?thesis by (auto simp: has_id_def)
  next
    case i: (Inr i)
    show ?thesis
    proof (cases "pos + 1 < length n1")
      case True
      then have follower: "n1 ! (pos + 1) \<in> set nodes"
        using Cons.prems(2) by (auto simp: nth_append n1)
      show ?thesis
      proof (cases "py_item (n1 ! (pos + 1)) ''id''")
        case (Inl e)
        with follower have "\<not> (\<forall>y \<in> set (x # new) \<union> set nodes. has_id y)"
          by (auto simp: has_id_def intro!: bexI [of _ "n1 ! (pos + 1)"])
        with run True i Inl show ?thesis by auto
      next
        case (Inr n)
        with run True i
        have "insert_nodes target (pos + 1) new (n1, (es @ [edge (JStr target) i]) @ [edge i n]) = (err, nodes', es')"
          by simp
        from Cons.IH [OF this len] ids show ?thesis unfolding shape by fastforce
      qed
    next
      case False
      with run i
      have "insert_nodes target (pos + 1) new (n1, es @ [edge (JStr target) i]) = (err, nodes', es')"
        by simp
      from Cons.IH [OF this len] ids show ?thesis unfolding shape by fastforce
    qed
  qed
qed

lemma find_node_prefix:
  "find_node nodes target = Inr (Some i) \<Longrightarrow>
     i < length nodes \<and> find_node (take (i + 1) nodes @ ys) target = Inr (Some i)"
proof (induction nodes arbitrary: i)
  case (Cons x nodes)
  then show ?case
    by (cases i) (auto simp: ebind_Inr split: if_splits)
qed simp

lemma emap_append:
  "emap f (xs @ ys) = ebind (emap f xs) (\<lambda>a. ebind (emap f ys) (\<lambda>b. Inr (a @ b)))"
proof (induction xs)
  case Nil
  show ?case by (cases "emap f ys") simp_all
next
  case (Cons x xs)
  then show ?case by (cases "f x"; cases "emap f xs"; cases "emap f ys") simp_all
qed

lemma parse_node_has_id: "parse_node x = Inr s \<Longrightarrow> has_id x"
  by (auto simp: parse_node_def has_id_def ebind_Inr)

lemma parse_edge_edge: "parse_edge (edge f t) = Inr
    \<lparr>wt_from_step = f, wt_to_step = t, wt_condition = JStr ''true'', wt_metadata = JNull\<rparr>"
  by (simp add: parse_edge_def edge_def dget_or_def)

lemma edge_parses: "\<exists>f t. e = edge f t \<Longrightarrow> \<exists>y. parse_edge e = Inr y"
  by (auto simp: parse_edge_edge)

text \<open>A document with one insertion, read through the dictionary.\<close>

definition inserting :: "(string, json) dict \<Rightarrow> string \<Rightarrow> json list \<Rightarrow> json list \<Rightarrow> json list \<Rightarrow> bool" where
  "inserting d target new nodes es \<longleftrightarrow>
     dget d ''extends'' = None \<and> dget d ''patch'' = None \<and>
     dget d ''insert_after'' = Some (JDict [(target, JList new)]) \<and>
     dget d ''nodes'' = Some (JList nodes) \<and> dget_or (JList []) d ''edges'' = JList es"

lemma load_inserting:
  assumes d: "inserting d target new nodes es" and i: "find_node nodes target = Inr (Some i)"
    and ins: "insert_nodes target (i + 1) new (nodes, es) = (err, nodes', es')"
    and x: "x = dset ''edges'' (JList es') (dset ''nodes'' (JList nodes') (ddel ''insert_after'' d))"
    and d': "d' = put_back ''edges'' es' (put_back ''nodes'' nodes' d)"
  shows "fst (load_workflow_from_data (Suc depth) env (JDict d) l) =
      (case err of Some e \<Rightarrow> Inl e | None \<Rightarrow>
        ebind (parse_workflow_data (JDict x)) (\<lambda>spec.
        ebind (validate_spec (env_show env) spec) (\<lambda>_. Inr spec)))"
    and "err = None \<Longrightarrow> fst (snd (load_workflow_from_data (Suc depth) env (JDict d) l)) = JDict (keep_lists d' x)"
proof -
  have ia: "apply_insert_after d = (case err of Some e \<Rightarrow> Inl e | None \<Rightarrow> Inr x, d')"
    using d ins by (cases err) (simp_all add: apply_insert_after_def inserting_def dget_or_def i x d')
  have "dget x ''patch'' = None"
    using d by (simp add: x inserting_def dget_dset dget_ddel)
  with ia d show "fst (load_workflow_from_data (Suc depth) env (JDict d) l) =
      (case err of Some e \<Rightarrow> Inl e | None \<Rightarrow>
        ebind (parse_workflow_data (JDict x)) (\<lambda>spec.
        ebind (validate_spec (env_show env) spec) (\<lambda>_. Inr spec)))"
    and "err = None \<Longrightarrow> fst (snd (load_workflow_from_data (Suc depth) env (JDict d) l)) = JDict (keep_lists d' x)"
    by (auto simp: inserting_def split: option.split)
qed

lemma inserting_again:
  assumes "inserting d target new nodes es"
    and "x = dset ''edges'' (JList es') (dset ''nodes'' (JList nodes') (ddel ''insert_after'' d))"
    and "d' = put_back ''edges'' es' (put_back ''nodes'' nodes' d)"
  shows "inserting (keep_lists d' x) target new nodes' (if dget d ''edges'' = None then es else es')"
    and "dget (keep_lists d' x) ''name'' = dget d ''name''"
  using assms
  by (auto simp: inserting_def keep_lists_def put_back_def dget_dset dget_ddel dget_or_def
      split: option.splits if_splits)

lemma emap_each: "emap f xs = Inr ys \<Longrightarrow> x \<in> set xs \<Longrightarrow> \<exists>y. f x = Inr y"
  by (auto simp: emap_Inr list_all2_conv_all_nth in_set_conv_nth)

lemma check_unique_duplicates:
  assumes "\<forall>s \<in> set (wsp_steps spec). hashable (ws_id s)" and "\<not> distinct (map ws_id (wsp_steps spec))"
  shows "check_unique_ids spec = Inl (value_error ''Step IDs must be unique'')"
proof -
  have "eall py_hash (map ws_id (wsp_steps spec)) = Inr ()"
    using assms(1) by (auto simp: eall_Inr)
  moreover have "length (map ws_id (wsp_steps spec)) \<noteq> card (set (map ws_id (wsp_steps spec)))"
    using assms(2) card_distinct [of "map ws_id (wsp_steps spec)"] by metis
  ultimately show ?thesis by (simp add: check_unique_ids_def Let_def)
qed

text \<open>
  Loading a document changes it: \<open>insert_after\<close> inserts into the caller's own list of nodes but
  removes the instruction only from a copy. A document with one insertion that was loaded
  therefore cannot be loaded again, by any loader: the nodes are inserted a second time and the
  step identifiers are no longer unique.
\<close>

theorem wl_second_load_fails:
  assumes d: "inserting d target new nodes es" and i: "find_node nodes target = Inr (Some i)"
    and "new \<noteq> []"
    and first: "load_workflow_from_data (Suc depth) env (JDict d) l = (Inr spec, d2, l2)"
  shows "fst (load_workflow_from_data (Suc depth') env' d2 l') = Inl (value_error ''Step IDs must be unique'')"
proof -
  obtain err nodes' es' where ins: "insert_nodes target (i + 1) new (nodes, es) = (err, nodes', es')"
    by (rule prod_cases3)
  define x where x: "x = dset ''edges'' (JList es') (dset ''nodes'' (JList nodes') (ddel ''insert_after'' d))"
  define d' where d': "d' = put_back ''edges'' es' (put_back ''nodes'' nodes' d)"
  have i_len: "i + 1 \<le> length nodes" using find_node_prefix [OF i, of "[]"] by simp
  have "err = None \<and> ebind (parse_workflow_data (JDict x)) (\<lambda>spec.
      ebind (validate_spec (env_show env) spec) (\<lambda>_. Inr spec)) = Inr spec"
    using load_inserting(1) [OF d i ins x d', of depth env l, unfolded first fst_conv]
    by (cases err) simp_all
  then have err: "err = None"
    and parsed: "parse_workflow_data (JDict x) = Inr spec" and valid: "valid_workflow spec"
    by (auto simp: ebind_Inr validate_spec_iff)
  have d2: "d2 = JDict (keep_lists d' x)"
    using load_inserting(2) [OF d i ins x d' err, of depth env l, unfolded first fst_conv snd_conv] .
  have nodes': "nodes' = take (i + 1) nodes @ new @ drop (i + 1) nodes"
    and "\<exists>extra. es' = es @ extra \<and> (\<forall>e \<in> set extra. \<exists>f t. e = edge f t)"
    using insert_nodes_shape [OF ins i_len] err by auto
  have x_nodes: "dget x ''nodes'' = Some (JList nodes')" and x_edges: "dget x ''edges'' = Some (JList es')"
    by (simp_all add: x dget_dset)
  obtain steps ts where steps: "emap parse_node nodes' = Inr steps" and ts: "emap parse_edge es' = Inr ts"
      and spec: "wsp_steps spec = steps" "wsp_name spec = dget_or (JStr []) x ''name''"
    using parsed by (auto simp: parse_workflow_data_def ebind_Inr dget_or_def x_nodes x_edges)
  have ids: "\<forall>y \<in> set nodes'. has_id y"
    using emap_each [OF steps] parse_node_has_id by blast
  let ?es = "if dget d ''edges'' = None then es else es'"
  have again: "inserting (keep_lists d' x) target new nodes' ?es"
    "dget (keep_lists d' x) ''name'' = dget d ''name''"
    using inserting_again [OF d x d'] by auto
  have i': "find_node nodes' target = Inr (Some i)" "i + 1 \<le> length nodes'"
    using find_node_prefix [OF i, of "new @ drop (i + 1) nodes"] i_len by (simp_all add: nodes')
  obtain err2 nodes2 es2 where ins2: "insert_nodes target (i + 1) new (nodes', ?es) = (err2, nodes2, es2)"
    by (rule prod_cases3)
  have err2: "err2 = None"
    using insert_nodes_shape [OF ins2 i'(2)] ids by (auto simp: nodes')
  obtain extra2 where es2: "es2 = ?es @ extra2" "\<forall>e \<in> set extra2. \<exists>f t. e = edge f t"
      and "nodes2 = take (i + 1) nodes' @ new @ drop (i + 1) nodes'"
    using insert_nodes_shape [OF ins2 i'(2)] err2 by auto
  then have nodes2: "nodes2 = take (i + 1) nodes @ new @ new @ drop (i + 1) nodes"
    using i_len by (simp add: nodes')
  obtain a b c where abc: "emap parse_node (take (i + 1) nodes) = Inr a" "emap parse_node new = Inr b"
      "emap parse_node (drop (i + 1) nodes) = Inr c" "steps = a @ b @ c"
    using steps unfolding nodes' emap_append ebind_Inr by auto
  have b: "b \<noteq> []"
    using abc(2) assms(3) by (cases new) (auto simp: ebind_Inr)
  have steps2: "emap parse_node nodes2 = Inr (a @ b @ b @ c)"
    unfolding nodes2 emap_append abc by simp
  have "set es2 \<subseteq> set es' \<union> set extra2"
    using es2(1) \<open>\<exists>extra. es' = es @ extra \<and> (\<forall>e \<in> set extra. \<exists>f t. e = edge f t)\<close> by auto
  then have "\<exists>y. parse_edge e = Inr y" if "e \<in> set es2" for e
    using that es2(2) emap_each [OF ts] edge_parses by blast
  then obtain ts2 where ts2: "emap parse_edge es2 = Inr ts2"
    using emap_total [of es2 parse_edge] by blast
  define x2 where x2: "x2 = dset ''edges'' (JList es2) (dset ''nodes'' (JList nodes2)
      (ddel ''insert_after'' (keep_lists d' x)))"
  obtain spec2 where spec2: "parse_workflow_data (JDict x2) = Inr spec2"
      "wsp_steps spec2 = a @ b @ b @ c" "wsp_name spec2 = wsp_name spec"
    using steps2 ts2 again(2)
    by (simp add: parse_workflow_data_def x2 dget_or_def dget_dset dget_ddel spec x)
  have "check_name spec2 = Inr ()"
    using valid spec2(3) by (simp add: check_name_iff valid_workflow_def)
  moreover have "check_unique_ids spec2 = Inl (value_error ''Step IDs must be unique'')"
  proof (rule check_unique_duplicates)
    show "\<forall>s \<in> set (wsp_steps spec2). hashable (ws_id s)"
      using valid spec(1) abc(4) by (auto simp: spec2(2) valid_workflow_def step_ok_def)
    show "\<not> distinct (map ws_id (wsp_steps spec2))"
      using b by (auto simp: spec2(2))
  qed
  ultimately have "validate_spec (env_show env') spec2 = Inl (value_error ''Step IDs must be unique'')"
    by (simp add: validate_spec_def)
  then show ?thesis
    unfolding d2 load_inserting(1) [OF again(1) i'(1) ins2 x2 refl, of depth' env' l']
    using err2 spec2(1) by simp
qed

theorem wl_second_load_fails_witness:
  "\<exists>d spec d2 l. load_workflow_from_data (Suc 0) wl_demo_env (JDict d) (wl_init ''w'') = (Inr spec, d2, l) \<and>
     fst (load_workflow_from_data (Suc 0) wl_demo_env d2 l) = Inl (value_error ''Step IDs must be unique'')"
proof -
  define d where "d = [(''name'', JStr ''n''), (''nodes'', JList [wl_demo_step ''s'']),
    (''insert_after'', JDict [(''s'', JList [wl_demo_step ''t''])])]"
  have ins: "inserting d ''s'' [wl_demo_step ''t''] [wl_demo_step ''s''] []"
    by (simp add: inserting_def d_def dget_or_def)
  have i: "find_node [wl_demo_step ''s''] ''s'' = Inr (Some 0)"
    by (simp add: wl_demo_step_def)
  have "\<exists>spec. fst (load_workflow_from_data (Suc 0) wl_demo_env (JDict d) (wl_init ''w'')) = Inr spec"
    by (simp add: d_def apply_insert_after_def wl_demo_step_def dget_or_def edge_def parse_workflow_data_def
        parse_node_def parse_edge_def validate_spec_def check_name_def is_blank_def is_space_def
        check_unique_ids_def py_hash_def check_transition_def check_circular_dependencies_def build_graph_def
        succs_def has_cycle_def validate_step_def valid_types_def Let_def)
  then obtain spec d2 l where
    first: "load_workflow_from_data (Suc 0) wl_demo_env (JDict d) (wl_init ''w'') = (Inr spec, d2, l)"
    by (metis prod.collapse)
  from wl_second_load_fails [OF ins i _ first, of 0 wl_demo_env l] first show ?thesis by blast
qed

end
