(* ===== verification/Failover.thy ===== *)
theory Failover
  imports Prelude
begin

text \<open>
  \<^verbatim>\<open>libs/infrastructure/failover_manager.py\<close>: \<open>FailoverManager\<close>. Every registered service has a
  task that checks its health in rounds, and every failover is a task of its own, which the
  event loop interleaves with them where they wait: the health checks between two rounds, a
  failover after updating the routing and after updating the configuration. The health checks
  the code simulates with random draws are functions of the draws. The failover lock is never
  held across a suspension, so taking it is none either.
\<close>

section \<open>Data\<close>

datatype fo_status = FoHealthy | FoDegraded | FoFailed | FoFailingOver | FoRecovering

fun fo_status_value :: "fo_status \<Rightarrow> string" where
  "fo_status_value FoHealthy = ''healthy''"
| "fo_status_value FoDegraded = ''degraded''"
| "fo_status_value FoFailed = ''failed''"
| "fo_status_value FoFailingOver = ''failing_over''"
| "fo_status_value FoRecovering = ''recovering''"

datatype fo_trigger =
  TrManual | TrAutomatic | TrHealthCheck | TrLatency | TrErrorRate | TrResources

fun fo_trigger_value :: "fo_trigger \<Rightarrow> string" where
  "fo_trigger_value TrManual = ''manual''"
| "fo_trigger_value TrAutomatic = ''automatic''"
| "fo_trigger_value TrHealthCheck = ''health_check''"
| "fo_trigger_value TrLatency = ''latency_threshold''"
| "fo_trigger_value TrErrorRate = ''error_rate_threshold''"
| "fo_trigger_value TrResources = ''resource_exhaustion''"

datatype fo_priority = FpLow | FpMedium | FpHigh | FpCritical

fun fo_priority_value :: "fo_priority \<Rightarrow> string" where
  "fo_priority_value FpLow = ''low''"
| "fo_priority_value FpMedium = ''medium''"
| "fo_priority_value FpHigh = ''high''"
| "fo_priority_value FpCritical = ''critical''"

record fo_config =
  foc_service_name :: string
  foc_primary_region :: string
  foc_backup_regions :: "string list"
  foc_failover_triggers :: "fo_trigger list"
  foc_health_check_interval_seconds :: int
  foc_failover_threshold_seconds :: int
  foc_recovery_threshold_seconds :: int
  foc_max_failover_attempts :: int
  foc_failover_cooldown_seconds :: int
  foc_priority :: fo_priority
  foc_auto_recovery :: bool
  foc_notification_webhooks :: "string list option"

record fo_stats =
  fos_service_name :: string
  fos_region :: string
  fos_status :: fo_status
  fos_last_failover_time :: "rat option"
  fos_failover_count :: int
  fos_recovery_count :: int
  fos_uptime_percentage :: rat
  fos_last_health_check :: rat
  fos_error_count :: int
  fos_last_error :: "string option"

text \<open>The dictionary a health check returns; a missing key is \<open>None\<close>.\<close>

record health =
  he_healthy :: bool
  he_error :: "string option"
  he_latency_ms :: "rat option"
  he_error_rate :: "rat option"
  he_cpu_usage :: "rat option"
  he_memory_usage :: "rat option"

definition number :: "rat option \<Rightarrow> rat" where
  "number x = (case x of None \<Rightarrow> 0 | Some q \<Rightarrow> q)"

text \<open>
  \<open>random.randint(a, b)\<close> from a draw, and the health checks from the draws of \<open>random()\<close>,
  \<open>randint\<close> and \<open>uniform\<close>.
\<close>

definition randint :: "int \<Rightarrow> int \<Rightarrow> int \<Rightarrow> rat" where
  "randint i a b = of_int (a + i mod (b - a + 1))"

definition fo_check_service_health :: "rat \<Rightarrow> int \<Rightarrow> rat \<Rightarrow> rat \<Rightarrow> rat \<Rightarrow> health" where
  "fo_check_service_health r i u1 u2 u3 =
     (if r < 95/100 then
        \<lparr>he_healthy = True, he_error = None, he_latency_ms = Some (randint i 10 100),
         he_error_rate = Some (uniform u1 0 (1/100)), he_cpu_usage = Some (uniform u2 (1/10) (8/10)),
         he_memory_usage = Some (uniform u3 (2/10) (9/10))\<rparr>
      else
        \<lparr>he_healthy = False, he_error = Some ''Service unavailable'',
         he_latency_ms = Some (randint i 1000 5000), he_error_rate = Some (uniform u1 (1/10) (5/10)),
         he_cpu_usage = Some (uniform u2 (9/10) 1), he_memory_usage = Some (uniform u3 (9/10) 1)\<rparr>)"

definition fo_check_region_health :: "rat \<Rightarrow> int \<Rightarrow> rat \<Rightarrow> health" where
  "fo_check_region_health r i u =
     (if r < 9/10 then
        \<lparr>he_healthy = True, he_error = None, he_latency_ms = Some (randint i 50 200),
         he_error_rate = Some (uniform u 0 (5/100)), he_cpu_usage = None, he_memory_usage = None\<rparr>
      else
        \<lparr>he_healthy = False, he_error = Some ''Region unavailable'', he_latency_ms = None,
         he_error_rate = None, he_cpu_usage = None, he_memory_usage = None\<rparr>)"

section \<open>State\<close>

text \<open>
  A failover task is before its first segment, or waits for the routing or for the configuration
  of its target region; a recovery inside a health check waits for the same two updates, of the
  primary region. A task keeps the statistics object it looked up, and a later registration makes a
  new one: \<open>fo_objects\<close> numbers the current objects. Tasks have numbers; \<open>health_check_tasks\<close> and \<open>failover_tasks\<close> keep the
  last one of each service.
\<close>

datatype fo_pc = FtStart | FtRouting string | FtConfig string | RcRouting string | RcConfig string

record fo_task =
  ft_service :: string
  ft_trigger :: fo_trigger
  ft_stats :: nat
  ft_pc :: fo_pc

record fo =
  fo_region :: string
  fo_configs :: "(string, fo_config) dict"
  fo_stats :: "(string, fo_stats) dict"
  fo_objects :: "(string, nat) dict"
  fo_health_check_tasks :: "(string, nat) dict"
  fo_failover_tasks :: "(string, nat) dict"
  fo_checkers :: "(nat, string) dict"
  fo_running :: "(nat, fo_task) dict"
  fo_next_task :: nat

definition fo_init :: "string \<Rightarrow> fo" where
  "fo_init region =
     \<lparr>fo_region = region, fo_configs = [], fo_stats = [], fo_objects = [], fo_health_check_tasks = [],
      fo_failover_tasks = [], fo_checkers = [], fo_running = [], fo_next_task = 0\<rparr>"

definition fo_start_health_check :: "string \<Rightarrow> fo \<Rightarrow> fo" where
  "fo_start_health_check service m =
     m\<lparr>fo_checkers := dset (fo_next_task m) service (fo_checkers m),
       fo_health_check_tasks := dset service (fo_next_task m) (fo_health_check_tasks m),
       fo_next_task := fo_next_task m + 1\<rparr>"

definition fo_fresh_stats :: "rat \<Rightarrow> string \<Rightarrow> string \<Rightarrow> fo_stats" where
  "fo_fresh_stats now service region =
     \<lparr>fos_service_name = service, fos_region = region, fos_status = FoHealthy,
      fos_last_failover_time = None, fos_failover_count = 0, fos_recovery_count = 0,
      fos_uptime_percentage = 100, fos_last_health_check = now, fos_error_count = 0,
      fos_last_error = None\<rparr>"

definition fo_register_service :: "rat \<Rightarrow> fo_config \<Rightarrow> fo \<Rightarrow> fo" where
  "fo_register_service now c m =
     fo_start_health_check (foc_service_name c)
       (m\<lparr>fo_configs := dset (foc_service_name c) c (fo_configs m),
          fo_stats := dset (foc_service_name c) (fo_fresh_stats now (foc_service_name c) (fo_region m))
            (fo_stats m),
          fo_objects := dset (foc_service_name c) (fo_next_task m) (fo_objects m),
          fo_next_task := fo_next_task m + 1\<rparr>)"

section \<open>Deciding on a failover\<close>

text \<open>A health check interval of 0 raises inside the \<open>try\<close>, which then returns \<open>False\<close>.\<close>

definition fo_should_trigger_failover :: "rat \<Rightarrow> fo_config \<Rightarrow> fo_stats \<Rightarrow> health \<Rightarrow> bool" where
  "fo_should_trigger_failover now c s h \<longleftrightarrow>
     fos_status s \<noteq> FoFailingOver \<and>
     (case fos_last_failover_time s of
        None \<Rightarrow> True
      | Some l \<Rightarrow> of_int (foc_failover_cooldown_seconds c) \<le> now - l) \<and>
     foc_health_check_interval_seconds c \<noteq> 0 \<and>
     (foc_failover_threshold_seconds c div foc_health_check_interval_seconds c \<le> fos_error_count s \<or>
      TrLatency \<in> set (foc_failover_triggers c) \<and> 5000 < number (he_latency_ms h) \<or>
      TrErrorRate \<in> set (foc_failover_triggers c) \<and> 1/10 < number (he_error_rate h) \<or>
      TrResources \<in> set (foc_failover_triggers c) \<and>
        (95/100 < number (he_cpu_usage h) \<or> 95/100 < number (he_memory_usage h)))"

definition fo_should_attempt_recovery :: "rat \<Rightarrow> fo_config \<Rightarrow> fo_stats \<Rightarrow> bool" where
  "fo_should_attempt_recovery now c s \<longleftrightarrow>
     foc_auto_recovery c \<and>
     (case fos_last_failover_time s of
        None \<Rightarrow> True
      | Some l \<Rightarrow> of_int (foc_recovery_threshold_seconds c) \<le> now - l) \<and>
     fos_recovery_count s < foc_max_failover_attempts c"

definition fo_put_stats :: "string \<Rightarrow> fo_stats \<Rightarrow> fo \<Rightarrow> fo" where
  "fo_put_stats service s m = m\<lparr>fo_stats := dset service s (fo_stats m)\<rparr>"

definition fo_trigger_failover :: "rat \<Rightarrow> string \<Rightarrow> fo_trigger \<Rightarrow> fo \<Rightarrow> bool \<times> fo" where
  "fo_trigger_failover now service trigger m =
     (case dget (fo_stats m) service of
        None \<Rightarrow> (False, m)
      | Some s \<Rightarrow>
          if fos_status s = FoFailingOver then (False, m)
          else
            (let s1 = s\<lparr>fos_status := FoFailingOver, fos_last_failover_time := Some now,
                        fos_failover_count := fos_failover_count s + 1\<rparr>;
                 m1 = fo_put_stats service s1 m
             in (True, m1\<lparr>
                  fo_running := dset (fo_next_task m1)
                    \<lparr>ft_service = service, ft_trigger = trigger, ft_stats = 0, ft_pc = FtStart\<rparr> (fo_running m1),
                  fo_failover_tasks := dset service (fo_next_task m1) (fo_failover_tasks m1),
                  fo_next_task := fo_next_task m1 + 1\<rparr>)))"

text \<open>
  A round of the health checks. After a healthy answer the status is set to healthy before it is
  compared with failed: \<open>attempt\<close> is whether the recovery is attempted then. The Boolean result
  says whether a failover was started.
\<close>

definition fo_after_healthy :: "rat \<Rightarrow> fo_config \<Rightarrow> fo_stats \<Rightarrow> fo_stats \<times> bool" where
  "fo_after_healthy now c s =
     (let s1 = s\<lparr>fos_status := FoHealthy, fos_error_count := 0, fos_last_error := None\<rparr>
      in (s1, fos_status s1 = FoFailed \<and> foc_auto_recovery c \<and> fo_should_attempt_recovery now c s1))"

definition fo_object :: "string \<Rightarrow> fo \<Rightarrow> nat" where
  "fo_object service m = (case dget (fo_objects m) service of None \<Rightarrow> 0 | Some i \<Rightarrow> i)"

definition fo_attempt_recovery :: "string \<Rightarrow> fo_config \<Rightarrow> fo_stats \<Rightarrow> health \<Rightarrow> fo \<Rightarrow> fo" where
  "fo_attempt_recovery service c s primary_health m =
     (let s1 = s\<lparr>fos_status := FoRecovering, fos_recovery_count := fos_recovery_count s + 1\<rparr>
      in if he_healthy primary_health then
           (fo_put_stats service s1 m)\<lparr>
             fo_running := dset (fo_next_task m)
               \<lparr>ft_service = service, ft_trigger = TrHealthCheck, ft_stats = fo_object service m,
                 ft_pc = RcRouting (foc_primary_region c)\<rparr>
               (fo_running m),
             fo_next_task := fo_next_task m + 1\<rparr>
         else fo_put_stats service (s1\<lparr>fos_status := FoFailed\<rparr>) m)"

definition fo_perform_health_check :: "rat \<Rightarrow> string \<Rightarrow> health \<Rightarrow> health \<Rightarrow> fo \<Rightarrow> bool \<times> fo" where
  "fo_perform_health_check now service h primary_health m =
     (case (dget (fo_configs m) service, dget (fo_stats m) service) of
        (Some c, Some s) \<Rightarrow>
          (let s0 = s\<lparr>fos_last_health_check := now\<rparr>
           in if he_healthy h then
                (case fo_after_healthy now c s0 of
                   (s1, attempt) \<Rightarrow>
                     (False, if attempt then fo_attempt_recovery service c s1 primary_health m
                             else fo_put_stats service s1 m))
              else
                (let s1 = s0\<lparr>fos_error_count := fos_error_count s0 + 1,
                       fos_last_error := Some (case he_error h of None \<Rightarrow> ''Unknown error'' | Some e \<Rightarrow> e)\<rparr>;
                     m1 = fo_put_stats service s1 m
                 in if fo_should_trigger_failover now c s1 h
                    then fo_trigger_failover now service TrHealthCheck m1
                    else (False, m1)))
      | _ \<Rightarrow> (False, m))"

definition fo_manual_failover :: "rat \<Rightarrow> string \<Rightarrow> fo \<Rightarrow> bool \<times> bool \<times> fo" where
  "fo_manual_failover now service m =
     (if dget (fo_configs m) service = None then (False, False, m)
      else (case fo_trigger_failover now service TrManual m of (started, m1) \<Rightarrow> (True, started, m1)))"

section \<open>The segments of a failover\<close>

definition fo_set_status :: "string \<Rightarrow> fo_status \<Rightarrow> fo \<Rightarrow> fo" where
  "fo_set_status service st m =
     (case dget (fo_stats m) service of
        None \<Rightarrow> m
      | Some s \<Rightarrow> fo_put_stats service (s\<lparr>fos_status := st\<rparr>) m)"

definition fo_end :: "nat \<Rightarrow> string \<Rightarrow> fo_status \<Rightarrow> fo \<Rightarrow> fo" where
  "fo_end tid service st m = fo_set_status service st (m\<lparr>fo_running := ddel tid (fo_running m)\<rparr>)"

text \<open>A failover that ends after the service was registered anew writes to the old statistics.\<close>

definition fo_finish :: "nat \<Rightarrow> fo_task \<Rightarrow> fo_status \<Rightarrow> fo \<Rightarrow> fo" where
  "fo_finish tid k st m =
     (if ft_stats k = fo_object (ft_service k) m then fo_end tid (ft_service k) st m
      else m\<lparr>fo_running := ddel tid (fo_running m)\<rparr>)"

text \<open>The answers \<open>hs\<close> are those of the checks of the backup regions, one after the other.\<close>

fun fo_select_backup_region :: "string list \<Rightarrow> health list \<Rightarrow> string option" where
  "fo_select_backup_region (r # rs) (h # hs) = (if he_healthy h then Some r else fo_select_backup_region rs hs)"
| "fo_select_backup_region _ _ = None"

definition fo_begin_failover :: "nat \<Rightarrow> health list \<Rightarrow> fo \<Rightarrow> fo" where
  "fo_begin_failover tid hs m =
     (case dget (fo_running m) tid of
        Some k \<Rightarrow>
          if ft_pc k = FtStart then
            (case dget (fo_configs m) (ft_service k) of
               None \<Rightarrow> fo_end tid (ft_service k) FoFailed m
             | Some c \<Rightarrow>
                 (case fo_select_backup_region (foc_backup_regions c) hs of
                    None \<Rightarrow> fo_end tid (ft_service k) FoFailed m
                  | Some r \<Rightarrow> m\<lparr>fo_running := dset tid
                        (k\<lparr>ft_stats := fo_object (ft_service k) m, ft_pc := FtRouting r\<rparr>) (fo_running m)\<rparr>))
          else m
      | None \<Rightarrow> m)"

text \<open>
  After the routing is updated the target region is verified, and its configuration updated;
  after that the service itself is checked.
\<close>

definition fo_routed :: "nat \<Rightarrow> health \<Rightarrow> fo \<Rightarrow> fo" where
  "fo_routed tid h m =
     (case dget (fo_running m) tid of
        Some k \<Rightarrow>
          (case ft_pc k of
             FtRouting r \<Rightarrow>
               if he_healthy h then m\<lparr>fo_running := dset tid (k\<lparr>ft_pc := FtConfig r\<rparr>) (fo_running m)\<rparr>
               else fo_finish tid k FoFailed m
           | RcRouting r \<Rightarrow>
               if he_healthy h then m\<lparr>fo_running := dset tid (k\<lparr>ft_pc := RcConfig r\<rparr>) (fo_running m)\<rparr>
               else fo_finish tid k FoFailed m
           | _ \<Rightarrow> m)
      | None \<Rightarrow> m)"

definition fo_configured :: "nat \<Rightarrow> health \<Rightarrow> fo \<Rightarrow> fo" where
  "fo_configured tid h m =
     (case dget (fo_running m) tid of
        Some k \<Rightarrow>
          (case ft_pc k of
             FtConfig r \<Rightarrow> fo_finish tid k (if he_healthy h then FoHealthy else FoFailed) m
           | RcConfig r \<Rightarrow> fo_finish tid k (if he_healthy h then FoHealthy else FoFailed) m
           | _ \<Rightarrow> m)
      | None \<Rightarrow> m)"

definition fo_cleanup :: "fo \<Rightarrow> fo" where
  "fo_cleanup m =
     m\<lparr>fo_checkers := filter (\<lambda>(i, _). i \<notin> snd ` set (fo_health_check_tasks m)) (fo_checkers m),
       fo_running := filter (\<lambda>(i, _). i \<notin> snd ` set (fo_failover_tasks m)) (fo_running m)\<rparr>"

section \<open>Reports\<close>

record fo_report =
  for_service_name :: string
  for_region :: string
  for_status :: string
  for_stats :: fo_stats
  for_primary_region :: string
  for_backup_regions :: "string list"
  for_failover_triggers :: "string list"
  for_priority :: string
  for_auto_recovery :: bool

definition fo_get_failover_status :: "string \<Rightarrow> fo \<Rightarrow> fo_report option" where
  "fo_get_failover_status service m =
     (case (dget (fo_configs m) service, dget (fo_stats m) service) of
        (Some c, Some s) \<Rightarrow>
          Some \<lparr>for_service_name = service, for_region = fo_region m,
                for_status = fo_status_value (fos_status s), for_stats = s,
                for_primary_region = foc_primary_region c, for_backup_regions = foc_backup_regions c,
                for_failover_triggers = map fo_trigger_value (foc_failover_triggers c),
                for_priority = fo_priority_value (foc_priority c), for_auto_recovery = foc_auto_recovery c\<rparr>
      | _ \<Rightarrow> None)"

record fo_summary =
  fou_region :: string
  fou_total_services :: nat
  fou_healthy_services :: nat
  fou_degraded_services :: nat
  fou_failed_services :: nat
  fou_services :: "(string, fo_report) dict"

definition fo_get_all_failover_status :: "fo \<Rightarrow> fo_summary" where
  "fo_get_all_failover_status m =
     (let data = List.map_filter (\<lambda>(service, _).
            map_option (\<lambda>r. (service, r)) (fo_get_failover_status service m)) (fo_configs m)
      in \<lparr>fou_region = fo_region m, fou_total_services = length data,
          fou_healthy_services = length (filter (\<lambda>(_, r). for_status r = ''healthy'') data),
          fou_degraded_services = length (filter (\<lambda>(_, r). for_status r = ''degraded'') data),
          fou_failed_services = length (filter (\<lambda>(_, r). for_status r = ''failed'') data),
          fou_services = data\<rparr>)"

section \<open>Runs\<close>

text \<open>
  \<open>fo_reach m past t\<close>: some interleaving of registrations, health check rounds, segments of
  failovers, manual requests and clean-ups leads to the manager \<open>m\<close> at the time \<open>t\<close>. The history
  has the failovers started, the latest first, without those of a service from before its last
  registration.
\<close>

type_synonym fo_log = "(rat \<times> string \<times> fo_trigger) list"

inductive fo_reach :: "fo \<Rightarrow> fo_log \<Rightarrow> rat \<Rightarrow> bool" where
  start: "fo_reach (fo_init region) [] t"
| register: "fo_reach m past t \<Longrightarrow> t \<le> now \<Longrightarrow>
    fo_reach (fo_register_service now c m) (filter (\<lambda>(_, s, _). s \<noteq> foc_service_name c) past) now"
| check: "fo_reach m past t \<Longrightarrow> t \<le> now \<Longrightarrow> dget (fo_checkers m) i = Some service \<Longrightarrow>
    fo_perform_health_check now service h hp m = (started, m') \<Longrightarrow>
    fo_reach m' (if started then (now, service, TrHealthCheck) # past else past) now"
| manual: "fo_reach m past t \<Longrightarrow> t \<le> now \<Longrightarrow> fo_manual_failover now service m = (b, started, m') \<Longrightarrow>
    fo_reach m' (if started then (now, service, TrManual) # past else past) now"
| begun: "fo_reach m past t \<Longrightarrow> t \<le> now \<Longrightarrow> fo_reach (fo_begin_failover tid hs m) past now"
| routed: "fo_reach m past t \<Longrightarrow> t \<le> now \<Longrightarrow> fo_reach (fo_routed tid h m) past now"
| configured: "fo_reach m past t \<Longrightarrow> t \<le> now \<Longrightarrow> fo_reach (fo_configured tid h m) past now"
| cleaned: "fo_reach m past t \<Longrightarrow> t \<le> now \<Longrightarrow> fo_reach (fo_cleanup m) past now"

section \<open>Invariants of the runs\<close>

lemma dget_fo_put_stats [simp]:
  "dget (fo_stats (fo_put_stats service s m)) u = (if u = service then Some s else dget (fo_stats m) u)"
  by (simp add: fo_put_stats_def dget_dset)

lemma fo_put_stats_simps [simp]:
  "fo_configs (fo_put_stats service s m) = fo_configs m"
  "fo_running (fo_put_stats service s m) = fo_running m"
  "fo_next_task (fo_put_stats service s m) = fo_next_task m"
  by (simp_all add: fo_put_stats_def)

text \<open>The one status that a healthy check leaves is healthy, so a recovery is never attempted.\<close>

lemma fo_after_healthy_no_recovery [simp]:
  "fo_after_healthy now c s = (s\<lparr>fos_status := FoHealthy, fos_error_count := 0, fos_last_error := None\<rparr>, False)"
  by (simp add: fo_after_healthy_def)

definition fo_idle_stats :: "fo_stats \<Rightarrow> bool" where
  "fo_idle_stats s \<longleftrightarrow> fos_recovery_count s = 0 \<and> fos_status s \<noteq> FoRecovering"

definition fo_failover_task :: "fo_task \<Rightarrow> bool" where
  "fo_failover_task k \<longleftrightarrow> (\<forall>r. ft_pc k \<noteq> RcRouting r \<and> ft_pc k \<noteq> RcConfig r)"

definition fo_no_recovery :: "fo \<Rightarrow> bool" where
  "fo_no_recovery m \<longleftrightarrow> dall fo_idle_stats (fo_stats m) \<and> dall fo_failover_task (fo_running m)"

lemma fo_no_recovery_stats:
  "fo_no_recovery m \<Longrightarrow> dget (fo_stats m) service = Some s \<Longrightarrow> fos_recovery_count s = 0 \<and> fos_status s \<noteq> FoRecovering"
  by (auto simp: fo_no_recovery_def fo_idle_stats_def dest: dall_dget)

lemma fo_no_recovery_put:
  "fo_no_recovery m \<Longrightarrow> fo_idle_stats s \<Longrightarrow> fo_no_recovery (fo_put_stats service s m)"
  by (simp add: fo_no_recovery_def fo_put_stats_def)

lemma fo_no_recovery_pc:
  "fo_no_recovery m \<Longrightarrow> \<forall>r. pc \<noteq> RcRouting r \<and> pc \<noteq> RcConfig r \<Longrightarrow>
   fo_no_recovery (m\<lparr>fo_running := dset tid (k\<lparr>ft_pc := pc\<rparr>) (fo_running m)\<rparr>)"
  "fo_no_recovery m \<Longrightarrow> \<forall>r. pc \<noteq> RcRouting r \<and> pc \<noteq> RcConfig r \<Longrightarrow>
   fo_no_recovery (m\<lparr>fo_running := dset tid (k\<lparr>ft_stats := i, ft_pc := pc\<rparr>) (fo_running m)\<rparr>)"
  by (simp_all add: fo_no_recovery_def fo_failover_task_def)

lemma fo_no_recovery_end:
  "fo_no_recovery m \<Longrightarrow> st \<noteq> FoRecovering \<Longrightarrow> fo_no_recovery (fo_end tid service st m)"
  using fo_no_recovery_stats [of m service]
  by (auto simp: fo_end_def fo_set_status_def fo_put_stats_def fo_no_recovery_def fo_idle_stats_def
      split: option.split)

lemma fo_no_recovery_finish:
  "fo_no_recovery m \<Longrightarrow> st \<noteq> FoRecovering \<Longrightarrow> fo_no_recovery (fo_finish tid k st m)"
  by (auto simp: fo_finish_def fo_no_recovery_end) (simp add: fo_no_recovery_def)

lemma fo_no_recovery_trigger:
  assumes "fo_no_recovery m" and "fo_trigger_failover now service tr m = (b, m')"
  shows "fo_no_recovery m'"
  using assms fo_no_recovery_stats [OF assms(1), of service]
  by (auto simp: fo_trigger_failover_def Let_def fo_put_stats_def fo_no_recovery_def fo_idle_stats_def
      fo_failover_task_def split: option.splits if_splits)

lemma fo_no_recovery_check:
  assumes "fo_no_recovery m" and "fo_perform_health_check now service h hp m = (b, m')"
  shows "fo_no_recovery m'"
  using assms fo_no_recovery_stats [OF assms(1), of service]
  by (auto simp: fo_perform_health_check_def Let_def fo_idle_stats_def
      intro!: fo_no_recovery_put elim!: fo_no_recovery_trigger [rotated] split: option.splits if_splits)

text \<open>
  The automatic recovery of the failover manager is dead code: however registrations, health
  checks, failovers, manual requests and clean-ups interleave, no service is ever recovering and
  no recovery is ever counted.
\<close>

theorem fo_recovery_never_attempted:
  assumes "fo_reach m past t" and "dget (fo_stats m) service = Some s"
  shows "fos_recovery_count s = 0 \<and> fos_status s \<noteq> FoRecovering"
proof -
  from assms(1) have "fo_no_recovery m"
  proof (induction rule: fo_reach.induct)
    case (start region t)
    show ?case by (simp add: fo_no_recovery_def fo_init_def)
  next
    case (register m past t now c)
    then show ?case
      by (simp add: fo_no_recovery_def fo_register_service_def fo_start_health_check_def
          fo_fresh_stats_def fo_idle_stats_def)
  next
    case (check m past t now i service h hp started m')
    then show ?case by (blast intro: fo_no_recovery_check)
  next
    case (manual m past t now service b started m')
    then show ?case
      by (auto simp: fo_manual_failover_def intro: fo_no_recovery_trigger split: if_splits prod.splits)
  next
    case (begun m past t now tid hs)
    then show ?case
      by (auto simp: fo_begin_failover_def intro: fo_no_recovery_end fo_no_recovery_pc split: option.splits)
  next
    case (routed m past t now tid h)
    have "fo_failover_task k" if "dget (fo_running m) tid = Some k" for k
      using routed.IH that by (auto simp: fo_no_recovery_def dest: dall_dget)
    with routed.IH show ?case
      by (auto simp: fo_routed_def fo_failover_task_def intro: fo_no_recovery_finish fo_no_recovery_pc
          split: option.splits fo_pc.splits)
  next
    case (configured m past t now tid h)
    then show ?case
      by (auto simp: fo_configured_def intro: fo_no_recovery_finish split: option.splits fo_pc.splits)
  next
    case (cleaned m past t now)
    then show ?case by (simp add: fo_no_recovery_def fo_cleanup_def)
  qed
  with assms(2) show ?thesis using fo_no_recovery_stats by blast
qed

section \<open>Counting and spacing\<close>

text \<open>What the statistics say of the failovers of each service.\<close>

definition fo_books :: "fo \<Rightarrow> string \<Rightarrow> (int \<times> rat option) option" where
  "fo_books m u = map_option (\<lambda>s. (fos_failover_count s, fos_last_failover_time s)) (dget (fo_stats m) u)"

definition booked :: "string \<Rightarrow> fo_log \<Rightarrow> int \<times> rat option" where
  "booked u past =
     (let mine = filter (\<lambda>(_, v, _). v = u) past
      in (int (length mine), (case mine of [] \<Rightarrow> None | (t, _) # _ \<Rightarrow> Some t)))"

lemma booked_Cons [simp]:
  "booked u ((t, v, g) # past) = (if v = u then (fst (booked u past) + 1, Some t) else booked u past)"
  by (simp add: booked_def Let_def)

lemma fo_trigger_books:
  assumes "fo_trigger_failover now service tr m = (b, m')"
  shows "fo_configs m' = fo_configs m \<and>
    (if b then (\<exists>c l. fo_books m service = Some (c, l) \<and> fo_books m' = (fo_books m)(service \<mapsto> (c + 1, Some now)))
     else fo_books m' = fo_books m)"
  using assms
  by (auto simp: fo_trigger_failover_def fo_books_def fo_put_stats_def dget_dset fun_eq_iff Let_def
      split: option.splits if_splits)

lemma fo_check_books:
  assumes "fo_perform_health_check now service h hp m = (b, m')"
  shows "fo_configs m' = fo_configs m \<and>
    (if b then (\<exists>c k l. dget (fo_configs m) service = Some c \<and> fo_books m service = Some (k, l) \<and>
         (\<forall>t. l = Some t \<longrightarrow> t + of_int (foc_failover_cooldown_seconds c) \<le> now) \<and>
         fo_books m' = (fo_books m)(service \<mapsto> (k + 1, Some now)))
     else fo_books m' = fo_books m)"
proof (cases "dget (fo_configs m) service = None \<or> dget (fo_stats m) service = None")
  case True
  with assms show ?thesis by (auto simp: fo_perform_health_check_def split: option.splits)
next
  case False
  then obtain c s where c: "dget (fo_configs m) service = Some c" and s: "dget (fo_stats m) service = Some s"
    by auto
  have put: "fo_books (fo_put_stats service s' m) = fo_books m"
    if "fos_failover_count s' = fos_failover_count s" "fos_last_failover_time s' = fos_last_failover_time s" for s'
    using that s by (simp add: fo_books_def fun_eq_iff)
  show ?thesis
  proof (cases "he_healthy h")
    case True
    with assms show ?thesis by (auto simp: fo_perform_health_check_def c s put)
  next
    case False
    define s1 where "s1 = s\<lparr>fos_last_health_check := now,
        fos_error_count := fos_error_count (s\<lparr>fos_last_health_check := now\<rparr>) + 1,
        fos_last_error := Some (case he_error h of None \<Rightarrow> ''Unknown error'' | Some e \<Rightarrow> e)\<rparr>"
    have s1: "fos_failover_count s1 = fos_failover_count s" "fos_last_failover_time s1 = fos_last_failover_time s"
      by (simp_all add: s1_def)
    let ?m1 = "fo_put_stats service s1 m"
    from False assms have run: "(if fo_should_trigger_failover now c s1 h
        then fo_trigger_failover now service TrHealthCheck ?m1 else (False, ?m1)) = (b, m')"
      unfolding s1_def by (simp add: fo_perform_health_check_def c s Let_def split del: if_split)
    show ?thesis
    proof (cases "fo_should_trigger_failover now c s1 h")
      case True
      with run have "fo_trigger_failover now service TrHealthCheck ?m1 = (b, m')" by simp
      moreover have "\<forall>t. fos_last_failover_time s = Some t \<longrightarrow> t + of_int (foc_failover_cooldown_seconds c) \<le> now"
        using True by (auto simp: fo_should_trigger_failover_def s1)
      ultimately show ?thesis
        using fo_trigger_books [of now service TrHealthCheck ?m1 b m'] put [OF s1] c s
        by (auto simp: fo_books_def split: if_splits)
    next
      case False
      with run put [OF s1] show ?thesis by auto
    qed
  qed
qed

lemma fo_set_status_books: "fo_books (fo_set_status service st m) = fo_books m"
  by (auto simp: fo_set_status_def fo_books_def fun_eq_iff split: option.split)

lemma fo_set_status_configs: "fo_configs (fo_set_status service st m) = fo_configs m"
  by (simp add: fo_set_status_def split: option.split)

lemma fo_end_books: "fo_books (fo_end tid service st m) = fo_books m" "fo_configs (fo_end tid service st m) = fo_configs m"
  by (simp_all add: fo_end_def fo_set_status_books fo_set_status_configs) (simp add: fo_books_def fun_eq_iff)

lemma fo_finish_books:
  "fo_books (fo_finish tid k st m) = fo_books m" "fo_configs (fo_finish tid k st m) = fo_configs m"
  by (simp_all add: fo_finish_def fo_end_books) (simp add: fo_books_def fun_eq_iff)

lemma fo_segment_books:
  "fo_books (fo_begin_failover tid hs m) = fo_books m \<and> fo_configs (fo_begin_failover tid hs m) = fo_configs m"
  "fo_books (fo_routed tid h m) = fo_books m \<and> fo_configs (fo_routed tid h m) = fo_configs m"
  "fo_books (fo_configured tid h m) = fo_books m \<and> fo_configs (fo_configured tid h m) = fo_configs m"
  "fo_books (fo_cleanup m) = fo_books m \<and> fo_configs (fo_cleanup m) = fo_configs m"
  by (auto simp: fo_begin_failover_def fo_routed_def fo_configured_def fo_cleanup_def fo_end_books fo_finish_books
      split: option.split fo_pc.split) (simp_all add: fo_books_def fun_eq_iff)

text \<open>Automatic failovers keep their distance from all earlier ones of the service.\<close>

fun spaced :: "(string, fo_config) dict \<Rightarrow> fo_log \<Rightarrow> bool" where
  "spaced cs [] \<longleftrightarrow> True"
| "spaced cs ((t2, u, g) # past) \<longleftrightarrow>
     (g = TrHealthCheck \<longrightarrow>
        (\<exists>c. dget cs u = Some c \<and>
          (\<forall>(t1, v, _) \<in> set past. v = u \<longrightarrow> t1 + of_int (foc_failover_cooldown_seconds c) \<le> t2))) \<and>
     spaced cs past"

definition fo_history :: "fo \<Rightarrow> fo_log \<Rightarrow> rat \<Rightarrow> bool" where
  "fo_history m past t \<longleftrightarrow>
     (\<forall>u. fo_books m u = (if dget (fo_configs m) u = None then None else Some (booked u past))) \<and>
     (\<forall>(t1, u, _) \<in> set past. t1 \<le> t \<and> dget (fo_configs m) u \<noteq> None) \<and>
     sorted_wrt (\<lambda>(t2, _) (t1, _). t1 \<le> t2) past \<and> spaced (fo_configs m) past"

lemma spaced_register:
  "spaced cs past \<Longrightarrow> spaced (dset u c cs) (filter (\<lambda>(_, v, _). v \<noteq> u) past)"
  by (induction cs past rule: spaced.induct) (auto simp: dget_dset)

lemma booked_filter:
  "booked u (filter (\<lambda>(_, v, _). v \<noteq> w) past) = (if u = w then (0, None) else booked u past)"
proof (cases "u = w")
  case True
  then show ?thesis by (simp add: booked_def split_def filter_empty_conv)
next
  case False
  then have "filter (\<lambda>(_, v, _). v = u) (filter (\<lambda>(_, v, _). v \<noteq> w) past) = filter (\<lambda>(_, v, _). v = u) past"
    by (induction past) auto
  with False show ?thesis by (simp add: booked_def)
qed

text \<open>The latest failover of a service is the time in its books.\<close>

lemma booked_latest:
  assumes "sorted_wrt (\<lambda>(t2, _) (t1, _). t1 \<le> t2) past" and "(t1, u, g) \<in> set past"
  shows "\<exists>t2. snd (booked u past) = Some t2 \<and> t1 \<le> t2"
  using assms by (induction past) (auto simp: booked_def split: prod.splits)

lemma fo_history_start:
  assumes "fo_history m past t" and "t \<le> now" and "fo_configs m' = fo_configs m"
    and "fo_books m u = Some (k, l)" and "fo_books m' = (fo_books m)(u \<mapsto> (k + 1, Some now))"
    and "g = TrHealthCheck \<Longrightarrow> \<exists>c. dget (fo_configs m) u = Some c \<and>
      (\<forall>t. l = Some t \<longrightarrow> t + of_int (foc_failover_cooldown_seconds c) \<le> now)"
  shows "fo_history m' ((now, u, g) # past) now"
proof -
  have u: "dget (fo_configs m) u \<noteq> None" "booked u past = (k, l)"
    using assms(1,4) by (auto simp: fo_history_def split: if_splits)
  have latest: "\<exists>t2. l = Some t2 \<and> t1 \<le> t2" if "(t1, u, g1) \<in> set past" for t1 g1
    using booked_latest [OF _ that] assms(1) u(2) by (auto simp: fo_history_def)
  have "spaced (fo_configs m) ((now, u, g) # past)"
    using assms(1,6) latest by (fastforce simp: fo_history_def)
  moreover have "sorted_wrt (\<lambda>(t2, _) (t1, _). t1 \<le> t2) ((now, u, g) # past)"
    using assms(1,2) by (force simp: fo_history_def)
  moreover have "\<forall>(t1, v, _) \<in> set ((now, u, g) # past). t1 \<le> now \<and> dget (fo_configs m) v \<noteq> None"
    using assms(1,2) u(1) by (fastforce simp: fo_history_def)
  moreover have "\<forall>v. fo_books m' v = (if dget (fo_configs m) v = None then None else Some (booked v ((now, u, g) # past)))"
    using assms(1,5) u by (simp add: fo_history_def)
  ultimately show ?thesis by (simp add: fo_history_def assms(3))
qed

lemma fo_history_same:
  assumes "fo_history m past t" and "t \<le> now" and "fo_books m' = fo_books m \<and> fo_configs m' = fo_configs m"
  shows "fo_history m' past now"
  using assms by (fastforce simp: fo_history_def)

lemma fo_reach_history: "fo_reach m past t \<Longrightarrow> fo_history m past t"
proof (induction rule: fo_reach.induct)
  case (start region t)
  show ?case by (simp add: fo_history_def fo_init_def fo_books_def)
next
  case (register m past t now c)
  have "fo_books (fo_register_service now c m) u =
      (if u = foc_service_name c then Some (0, None) else fo_books m u)" for u
    by (simp add: fo_register_service_def fo_start_health_check_def fo_books_def dget_dset fo_fresh_stats_def)
  moreover have "fo_configs (fo_register_service now c m) = dset (foc_service_name c) c (fo_configs m)"
    by (simp add: fo_register_service_def fo_start_health_check_def)
  ultimately show ?case
    using register.IH register.hyps(2)
    by (fastforce simp: fo_history_def dget_dset booked_filter spaced_register sorted_wrt_filter)
next
  case (check m past t now i service h hp started m')
  from fo_check_books [OF check.hyps(4)] show ?case
    using check.IH check.hyps(2)
    by (cases started) (force intro: fo_history_start fo_history_same)+
next
  case (manual m past t now service b started m')
  show ?case
  proof (cases "dget (fo_configs m) service = None")
    case True
    with manual show ?thesis by (auto simp: fo_manual_failover_def intro: fo_history_same)
  next
    case False
    then have "fo_trigger_failover now service TrManual m = (started, m')"
      using manual.hyps(3) by (auto simp: fo_manual_failover_def split: prod.splits)
    from fo_trigger_books [OF this] show ?thesis
      using manual.IH manual.hyps(2)
      by (cases started) (force intro: fo_history_start fo_history_same)+
  qed
qed (use fo_history_same fo_segment_books in blast)+

lemma spaced_append:
  "spaced cs (xs @ (t2, u, TrHealthCheck) # ys) \<Longrightarrow>
     \<exists>c. dget cs u = Some c \<and> (\<forall>(t1, v, _) \<in> set ys. v = u \<longrightarrow> t1 + of_int (foc_failover_cooldown_seconds c) \<le> t2)"
  by (induction xs) auto

text \<open>
  Failovers under every interleaving: the statistics of a registered service count exactly the
  failovers started since its registration and know the time of the last one, and a failover that
  a health check starts is at least the cool-down after every earlier failover of the service,
  manual ones included.
\<close>

theorem fo_cooldown_respected:
  assumes "fo_reach m past t" and "dget (fo_configs m) service = Some c"
    and "past = newer @ (t2, service, TrHealthCheck) # older" and "(t1, service, g) \<in> set older"
  shows "t1 + of_int (foc_failover_cooldown_seconds c) \<le> t2 \<and>
    (\<exists>s. dget (fo_stats m) service = Some s \<and>
       fos_failover_count s = int (length (filter (\<lambda>(_, u, _). u = service) past)))"
proof -
  have inv: "fo_history m past t" by (rule fo_reach_history) (rule assms(1))
  then have "spaced (fo_configs m) (newer @ (t2, service, TrHealthCheck) # older)"
    by (simp add: fo_history_def assms(3))
  from spaced_append [OF this] assms(2,4)
  have "t1 + of_int (foc_failover_cooldown_seconds c) \<le> t2" by auto
  moreover have "fo_books m service = Some (booked service past)"
    using inv assms(2) by (simp add: fo_history_def)
  ultimately show ?thesis by (auto simp: fo_books_def booked_def Let_def)
qed

text \<open>
  A failover that nothing disturbs: its three segments one after the other.
\<close>

definition fo_failover_alone :: "nat \<Rightarrow> health list \<Rightarrow> health \<Rightarrow> health \<Rightarrow> fo \<Rightarrow> fo" where
  "fo_failover_alone tid hs h1 h2 m = fo_configured tid h2 (fo_routed tid h1 (fo_begin_failover tid hs m))"

lemma fo_select_first:
  "length hs = length rs \<Longrightarrow>
   fo_select_backup_region rs hs = map_option fst (find (\<lambda>(_, h). he_healthy h) (zip rs hs))"
  by (induction rs hs rule: fo_select_backup_region.induct) auto

text \<open>
  A failover that runs without interference ends, and leaves its service healthy exactly when
  some backup region answers healthy, that region is still healthy after the routing was updated,
  and the service is healthy after the configuration was updated; in every other case it leaves
  it failed. Other services and other tasks are left alone.
\<close>

theorem fo_failover_outcome:
  assumes "dget (fo_running m) tid = Some k" and "ft_pc k = FtStart"
    and "dget (fo_configs m) (ft_service k) = Some c" and "dget (fo_stats m) (ft_service k) = Some s"
    and "length hs = length (foc_backup_regions c)"
  shows "fo_running (fo_failover_alone tid hs h1 h2 m) = ddel tid (fo_running m) \<and>
    (\<forall>u. dget (fo_stats (fo_failover_alone tid hs h1 h2 m)) u =
       (if u = ft_service k
        then Some (s\<lparr>fos_status := if (\<exists>h \<in> set hs. he_healthy h) \<and> he_healthy h1 \<and> he_healthy h2
                     then FoHealthy else FoFailed\<rparr>)
        else dget (fo_stats m) u))"
proof -
  have del: "ddel tid (dset tid x d) = ddel tid d" for x and d :: "(nat, fo_task) dict"
    by (induction d) auto
  have ends: "fo_running (fo_end tid (ft_service k) st n) = ddel tid (fo_running n) \<and>
      (\<forall>u. dget (fo_stats (fo_end tid (ft_service k) st n)) u =
        (if u = ft_service k then Some (s\<lparr>fos_status := st\<rparr>) else dget (fo_stats n) u))"
    if "dget (fo_stats n) (ft_service k) = Some s" for st n
    using that by (simp add: fo_end_def fo_set_status_def fo_put_stats_def dget_dset)
  have gone: "fo_configured tid h2 n = n" "fo_routed tid h1 n = n" if "fo_running n = ddel tid d" for n d
    using that by (simp_all add: fo_configured_def fo_routed_def dget_ddel)
  show ?thesis
  proof (cases "fo_select_backup_region (foc_backup_regions c) hs")
    case None
    then have "\<not> (\<exists>h \<in> set hs. he_healthy h)"
      using assms(5) by (auto simp: fo_select_first find_None_iff in_set_conv_nth) (metis nth_mem nth_zip set_zip_rightD)
    moreover have "fo_begin_failover tid hs m = fo_end tid (ft_service k) FoFailed m"
      using assms None by (simp add: fo_begin_failover_def)
    ultimately show ?thesis
      using ends [OF assms(4), of FoFailed] gone [of "fo_end tid (ft_service k) FoFailed m" "fo_running m"]
      by (simp add: fo_failover_alone_def)
  next
    case (Some r)
    then have some: "\<exists>h \<in> set hs. he_healthy h"
      using assms(5) by (auto simp: fo_select_first find_Some_iff)
    define k1 where "k1 = k\<lparr>ft_stats := fo_object (ft_service k) m, ft_pc := FtRouting r\<rparr>"
    define m1 where "m1 = m\<lparr>fo_running := dset tid k1 (fo_running m)\<rparr>"
    have begun: "fo_begin_failover tid hs m = m1"
      using assms Some by (simp add: fo_begin_failover_def m1_def k1_def)
    have k1: "ft_service k1 = ft_service k" "ft_pc k1 = FtRouting r"
      "fo_finish tid k1 st n = fo_end tid (ft_service k) st n"
      "fo_finish tid (k1\<lparr>ft_pc := pc\<rparr>) st n = fo_end tid (ft_service k) st n"
      if "fo_objects n = fo_objects m" for st n pc
      using that by (simp_all add: k1_def fo_finish_def fo_object_def)
    have m1: "dget (fo_running m1) tid = Some k1" "fo_objects m1 = fo_objects m" "fo_stats m1 = fo_stats m"
      "ddel tid (fo_running m1) = ddel tid (fo_running m)"
      by (simp_all add: m1_def dget_dset del)
    show ?thesis
    proof (cases "he_healthy h1")
      case False
      then have "fo_routed tid h1 m1 = fo_end tid (ft_service k) FoFailed m1"
        using m1 k1 [of m1] by (simp add: fo_routed_def)
      then show ?thesis
        using False ends [of m1 FoFailed] gone(1) [of "fo_end tid (ft_service k) FoFailed m1"] m1 assms(4)
        by (simp add: fo_failover_alone_def begun)
    next
      case True
      define m2 where "m2 = m1\<lparr>fo_running := dset tid (k1\<lparr>ft_pc := FtConfig r\<rparr>) (fo_running m1)\<rparr>"
      have "fo_routed tid h1 m1 = m2"
        using m1 k1 [of m1] True by (simp add: fo_routed_def m2_def)
      moreover have "dget (fo_running m2) tid = Some (k1\<lparr>ft_pc := FtConfig r\<rparr>)" "fo_objects m2 = fo_objects m" "fo_stats m2 = fo_stats m"
        "ddel tid (fo_running m2) = ddel tid (fo_running m)"
        by (simp_all add: m2_def dget_dset del m1)
      ultimately show ?thesis
        using True some ends [of m2] assms(4) k1 [of m2]
        by (simp add: fo_failover_alone_def begun fo_configured_def)
    qed
  qed
qed


text \<open>
  Failovers of one service can overlap: a request is refused while one is in progress, but a
  health check that answers healthy meanwhile resets the status, and then a request starts a
  second failover while the first is still running.
\<close>

theorem fo_failovers_overlap:
  assumes "dget (fo_configs m) service = Some c" and "dget (fo_stats m) service = Some s"
    and "fos_status s = FoFailingOver" and "dget (fo_running m) tid = Some k" and "tid < fo_next_task m"
    and "he_healthy h"
  shows "fo_manual_failover now service m = (True, False, m) \<and>
    (\<exists>m1 m2. fo_perform_health_check now service h hp m = (False, m1) \<and>
       fo_manual_failover now service m1 = (True, True, m2) \<and>
       dget (fo_running m2) tid = Some k \<and>
       dget (fo_running m2) (fo_next_task m) =
         Some \<lparr>ft_service = service, ft_trigger = TrManual, ft_stats = 0, ft_pc = FtStart\<rparr>)"
  using assms
  by (simp add: fo_manual_failover_def fo_trigger_failover_def fo_perform_health_check_def Let_def dget_dset)

section \<open>Examples\<close>

definition fo_demo_config :: fo_config where
  "fo_demo_config =
     \<lparr>foc_service_name = ''api'', foc_primary_region = ''us'', foc_backup_regions = [''eu'', ''ap''],
      foc_failover_triggers = [TrErrorRate], foc_health_check_interval_seconds = 30,
      foc_failover_threshold_seconds = 60, foc_recovery_threshold_seconds = 300,
      foc_max_failover_attempts = 3, foc_failover_cooldown_seconds = 600, foc_priority = FpHigh,
      foc_auto_recovery = True, foc_notification_webhooks = None\<rparr>"

text \<open>A service registered at time 0, with a failover by hand at 10, ended, and one by its errors at 700.\<close>

definition fo_demo0 :: fo where "fo_demo0 = fo_register_service 0 fo_demo_config (fo_init ''us'')"

definition fo_demo1 :: fo where "fo_demo1 = snd (snd (fo_manual_failover 10 ''api'' fo_demo0))"

definition fo_demo_ok :: health where "fo_demo_ok = fo_check_region_health 0 0 0"

definition fo_demo_bad :: health where "fo_demo_bad = fo_check_service_health 1 0 (3/4) 0 0"

definition fo_demo2 :: fo where
  "fo_demo2 = fo_configured 2 fo_demo_ok (fo_routed 2 fo_demo_ok (fo_begin_failover 2 [fo_demo_ok, fo_demo_ok] fo_demo1))"

definition fo_demo3 :: fo where
  "fo_demo3 = snd (fo_perform_health_check 700 ''api'' fo_demo_bad fo_demo_ok fo_demo2)"

lemmas fo_demo_eval =
  fo_demo3_def fo_demo2_def fo_demo1_def fo_demo0_def fo_demo_config_def fo_demo_ok_def fo_demo_bad_def
  fo_init_def fo_register_service_def fo_start_health_check_def fo_fresh_stats_def fo_manual_failover_def
  fo_trigger_failover_def fo_put_stats_def fo_begin_failover_def fo_routed_def fo_configured_def
  fo_finish_def fo_object_def fo_end_def fo_set_status_def fo_check_region_health_def
  fo_check_service_health_def fo_perform_health_check_def fo_should_trigger_failover_def
  number_def uniform_def Let_def

lemma fo_demo_runs:
  "fo_reach fo_demo3 [(700, ''api'', TrHealthCheck), (10, ''api'', TrManual)] 700"
proof -
  have r0: "fo_reach fo_demo0 [] 0"
    using fo_reach.register [OF fo_reach.start [of "''us''" 0], of 0 fo_demo_config] by (simp add: fo_demo0_def)
  have "fo_manual_failover 10 ''api'' fo_demo0 = (True, True, fo_demo1)"
    by (simp add: fo_demo_eval)
  from fo_reach.manual [OF r0 _ this] have "fo_reach fo_demo1 [(10, ''api'', TrManual)] 10" by simp
  from fo_reach.begun [OF this, of 10 2 "[fo_demo_ok, fo_demo_ok]"]
  have "fo_reach (fo_begin_failover 2 [fo_demo_ok, fo_demo_ok] fo_demo1) [(10, ''api'', TrManual)] 10" by simp
  from fo_reach.configured [OF fo_reach.routed [OF this, of 11 2 fo_demo_ok], of 12 2 fo_demo_ok]
  have r2: "fo_reach fo_demo2 [(10, ''api'', TrManual)] 12" by (simp add: fo_demo2_def)
  have c: "fo_perform_health_check 700 ''api'' fo_demo_bad fo_demo_ok fo_demo2 = (True, fo_demo3)"
    by (simp add: fo_demo_eval)
  have d: "dget (fo_checkers fo_demo2) 1 = Some ''api''" by (simp add: fo_demo_eval)
  from fo_reach.check [OF r2 _ d c] show ?thesis by simp
qed

lemma fo_demo_stats: "\<exists>s. dget (fo_stats fo_demo3) ''api'' = Some s \<and> fos_status s = FoFailingOver \<and> fos_failover_count s = 2"
  by (simp add: fo_demo_eval)

lemma fo_demo_configs:
  "dget (fo_configs fo_demo1) ''api'' = Some fo_demo_config"
  "dget (fo_configs fo_demo3) ''api'' = Some fo_demo_config"
  by (simp_all add: fo_demo_eval)

theorem fo_recovery_never_attempted_witness:
  "\<exists>s. dget (fo_stats fo_demo3) ''api'' = Some s \<and> fos_recovery_count s = 0"
  using fo_demo_stats fo_recovery_never_attempted [OF fo_demo_runs] by blast

theorem fo_cooldown_respected_witness: "(10::rat) + 600 \<le> 700"
  using fo_cooldown_respected [OF fo_demo_runs fo_demo_configs(2), of "[]" 700 "[(10, ''api'', TrManual)]" 10 TrManual]
  by (simp add: fo_demo_config_def)

theorem fo_failover_outcome_witness:
  "\<exists>s. dget (fo_stats (fo_failover_alone 2 [fo_demo_bad, fo_demo_ok] fo_demo_ok fo_demo_ok fo_demo1)) ''api'' = Some s \<and>
    fos_status s = FoHealthy"
  using fo_failover_outcome [of fo_demo1 2 "\<lparr>ft_service = ''api'', ft_trigger = TrManual, ft_stats = 0, ft_pc = FtStart\<rparr>"
      fo_demo_config "(fo_fresh_stats 0 ''api'' ''us'')\<lparr>fos_status := FoFailingOver,
        fos_last_failover_time := Some 10, fos_failover_count := 1\<rparr>" "[fo_demo_bad, fo_demo_ok]" fo_demo_ok fo_demo_ok]
  by (simp add: fo_demo_eval)

theorem fo_failovers_overlap_witness:
  "\<exists>m1 m2. fo_perform_health_check 11 ''api'' fo_demo_ok fo_demo_ok fo_demo1 = (False, m1) \<and>
     fo_manual_failover 11 ''api'' m1 = (True, True, m2) \<and>
     dget (fo_running m2) 2 \<noteq> None \<and> dget (fo_running m2) 3 \<noteq> None"
proof -
  let ?k = "\<lparr>ft_service = ''api'', ft_trigger = TrManual, ft_stats = 0, ft_pc = FtStart\<rparr>"
  obtain s where s: "dget (fo_stats fo_demo1) ''api'' = Some s" "fos_status s = FoFailingOver"
    by (simp add: fo_demo_eval)
  have k: "dget (fo_running fo_demo1) 2 = Some ?k" "(2::nat) < fo_next_task fo_demo1" "he_healthy fo_demo_ok"
    and n3: "fo_next_task fo_demo1 = 3"
    by (simp_all add: fo_demo_eval)
  from fo_failovers_overlap [OF fo_demo_configs(1) s k, of 11 fo_demo_ok]
  show ?thesis by (auto simp: n3)
qed

end
