(* ===== verification/PyTime.thy ===== *)
theory PyTime
  imports Prelude "HOL-Library.Product_Lexorder"
begin

text \<open>
  What the code uses of Python's \<open>datetime\<close>: naive date-times with their order, proleptic
  ordinals, weekdays and ISO weeks computed as the standard library computes them, and the
  number formats of \<open>strftime\<close>.
\<close>

datatype datetime =
  DT (dt_year: nat) (dt_month: nat) (dt_day: nat)
     (dt_hour: nat) (dt_minute: nat) (dt_second: nat) (dt_micro: nat)

fun dt_fields :: "datetime \<Rightarrow> nat \<times> nat \<times> nat \<times> nat \<times> nat \<times> nat \<times> nat" where
  "dt_fields (DT y m d h mi s us) = (y, m, d, h, mi, s, us)"

lemma dt_fields_inject: "dt_fields a = dt_fields b \<longleftrightarrow> a = b"
  by (cases a; cases b) simp

text \<open>Comparing date-times compares their fields, the year first.\<close>

instantiation datetime :: linorder
begin

definition less_eq_datetime :: "datetime \<Rightarrow> datetime \<Rightarrow> bool" where
  "a \<le> b \<longleftrightarrow> dt_fields a \<le> dt_fields b"

definition less_datetime :: "datetime \<Rightarrow> datetime \<Rightarrow> bool" where
  "a < b \<longleftrightarrow> dt_fields a < dt_fields b"

instance
  by standard (auto simp: less_eq_datetime_def less_datetime_def less_le_not_le dt_fields_inject)

end

section \<open>The calendar\<close>

definition is_leap :: "nat \<Rightarrow> bool" where
  "is_leap y \<longleftrightarrow> y mod 4 = 0 \<and> (y mod 100 \<noteq> 0 \<or> y mod 400 = 0)"

definition days_in_month :: "nat \<Rightarrow> nat \<Rightarrow> nat" where
  "days_in_month y m =
     (if m = 2 then (if is_leap y then 29 else 28) else if m \<in> {4, 6, 9, 11} then 30 else 31)"

definition dt_valid :: "datetime \<Rightarrow> bool" where
  "dt_valid t \<longleftrightarrow>
     1 \<le> dt_year t \<and> dt_year t \<le> 9999 \<and> 1 \<le> dt_month t \<and> dt_month t \<le> 12 \<and>
     1 \<le> dt_day t \<and> dt_day t \<le> days_in_month (dt_year t) (dt_month t) \<and>
     dt_hour t < 24 \<and> dt_minute t < 60 \<and> dt_second t < 60 \<and> dt_micro t < 1000000"

text \<open>\<open>_ymd2ord\<close>: days since the day before 1 January of the year 1.\<close>

definition days_before_year :: "nat \<Rightarrow> int" where
  "days_before_year y = (let z = int y - 1 in z * 365 + z div 4 - z div 100 + z div 400)"

definition days_before_month :: "nat \<Rightarrow> nat \<Rightarrow> nat" where
  "days_before_month y m = sum_list (map (days_in_month y) [1..<m])"

definition ymd2ord :: "nat \<Rightarrow> nat \<Rightarrow> nat \<Rightarrow> int" where
  "ymd2ord y m d = days_before_year y + int (days_before_month y m) + int d"

definition dt_toordinal :: "datetime \<Rightarrow> int" where
  "dt_toordinal t = ymd2ord (dt_year t) (dt_month t) (dt_day t)"

text \<open>Monday is 0.\<close>

definition dt_weekday :: "datetime \<Rightarrow> nat" where
  "dt_weekday t = nat ((dt_toordinal t + 6) mod 7)"

definition isoweek1monday :: "nat \<Rightarrow> int" where
  "isoweek1monday y =
     (let firstday = ymd2ord y 1 1; firstweekday = (firstday + 6) mod 7; monday = firstday - firstweekday
      in if 3 < firstweekday then monday + 7 else monday)"

text \<open>The week number, \<open>isocalendar()[1]\<close>.\<close>

definition dt_isoweek :: "datetime \<Rightarrow> int" where
  "dt_isoweek t =
     (let today = dt_toordinal t; week = (today - isoweek1monday (dt_year t)) div 7
      in if week < 0 then (today - isoweek1monday (dt_year t - 1)) div 7 + 1
         else if 52 \<le> week \<and> isoweek1monday (dt_year t + 1) \<le> today then 1
         else week + 1)"

text \<open>Subtracting days, one at a time.\<close>

fun prev_day :: "datetime \<Rightarrow> datetime" where
  "prev_day (DT y m d h mi s us) =
     (if 1 < d then DT y m (d - 1) h mi s us
      else if 1 < m then DT y (m - 1) (days_in_month y (m - 1)) h mi s us
      else DT (y - 1) 12 31 h mi s us)"

definition minus_days :: "nat \<Rightarrow> datetime \<Rightarrow> datetime" where
  "minus_days n t = (prev_day ^^ n) t"

lemma days_before_month_Suc: "1 \<le> m \<Longrightarrow> days_before_month y (Suc m) = days_before_month y m + days_in_month y m"
  by (simp add: days_before_month_def)

text \<open>A year has 366 days when it is a leap year and 365 otherwise.\<close>

lemma days_before_year_Suc:
  assumes "1 \<le> y"
  shows "days_before_year (Suc y) = days_before_year y + (if is_leap y then 366 else 365)"
proof -
  define z where "z = int y - 1"
  have step: "(z + 1) div k = z div k + (if (z + 1) mod k = 0 then 1 else 0)" if "0 < k" for k :: int
  proof (cases "(z + 1) mod k = 0")
    case True
    then obtain q where q: "z + 1 = k * q" by (auto simp: mod_eq_0_iff_dvd)
    then have "z = k * (q - 1) + (k - 1)" by (simp add: algebra_simps)
    then have "z div k = q - 1" using that int_div_pos_eq [of z k "q - 1" "k - 1"] by simp
    with q True that show ?thesis by simp
  next
    case False
    let ?r = "(z + 1) mod k"
    have "z = k * ((z + 1) div k) + (?r - 1)" by (simp add: algebra_simps)
    moreover have "0 < ?r" "?r < k" using False that by (simp_all add: order.not_eq_order_implies_strict)
    ultimately have "z div k = (z + 1) div k"
      using int_div_pos_eq [of z k "(z + 1) div k" "?r - 1"] by linarith
    with False show ?thesis by simp
  qed
  have m: "(z + 1) mod int k = int (y mod k)" for k by (simp add: z_def zmod_int)
  define L where "L k \<longleftrightarrow> (z + 1) mod k = 0" for k :: int
  define Q where "Q k = (z + 1) div k" for k :: int
  define q where "q k = z div k" for k :: int
  have step: "Q k = q k + (if L k then 1 else 0)" if "0 < k" for k
    using step [OF that] by (simp only: L_def Q_def q_def)
  have leap: "is_leap y \<longleftrightarrow> L 4 \<and> (\<not> L 100 \<or> L 400)"
    using m [of 4] m [of 100] m [of 400] by (simp add: is_leap_def L_def)
  have "(k :: int) dvd k' \<Longrightarrow> L k' \<Longrightarrow> L k" for k k'
    by (auto simp: L_def mod_eq_0_iff_dvd elim: dvd_trans)
  from this [of 100 400] this [of 4 100] have days: "L 400 \<Longrightarrow> L 100" "L 100 \<Longrightarrow> L 4" by simp_all
  have "days_before_year (Suc y) = (z + 1) * 365 + Q 4 - Q 100 + Q 400"
    "days_before_year y = z * 365 + q 4 - q 100 + q 400"
    by (simp_all add: days_before_year_def Let_def z_def Q_def q_def)
  then show ?thesis
    using days step [of 4] step [of 100] step [of 400] by (cases "L 4"; cases "L 100"; cases "L 400") (simp_all add: leap)
qed

lemma days_before_year_end:
  "days_before_month y 13 = (if is_leap y then 366 else 365)"
  by (simp add: days_before_month_def days_in_month_def upt_rec)

text \<open>Stepping back a day takes one from the ordinal, so \<open>minus_days\<close> subtracts days.\<close>

lemma toordinal_prev_day:
  assumes "dt_valid t" and "1 < dt_year t"
  shows "dt_toordinal (prev_day t) = dt_toordinal t - 1"
proof (cases t)
  case (DT y m d h mi s us)
  with assms have m: "1 \<le> m" "1 \<le> d" "1 < y" by (simp_all add: dt_valid_def)
  show ?thesis
  proof (cases "1 < d \<or> 1 < m")
    case True
    then show ?thesis
      using m days_before_month_Suc [of "m - 1" y] by (auto simp: DT dt_toordinal_def ymd2ord_def of_nat_diff)
  next
    case False
    then have "m = 1" "d = 1" using m by auto
    moreover have "days_before_year y = days_before_year (y - 1) + (if is_leap (y - 1) then 366 else 365)"
      using days_before_year_Suc [of "y - 1"] m by simp
    moreover have "days_before_month (y - 1) 13 = days_before_month (y - 1) 12 + 31"
      using days_before_month_Suc [of 12 "y - 1"] by (simp add: days_in_month_def)
    ultimately show ?thesis
      using days_before_year_end [of "y - 1"] by (auto simp: DT dt_toordinal_def ymd2ord_def days_before_month_def)
  qed
qed

section \<open>Formats\<close>

definition zpad :: "nat \<Rightarrow> nat \<Rightarrow> string" where
  "zpad w n = replicate (w - length (nat_str n)) CHR ''0'' @ nat_str n"

definition strftime_ymd :: "datetime \<Rightarrow> string" where
  "strftime_ymd t = nat_str (dt_year t) @ zpad 2 (dt_month t) @ zpad 2 (dt_day t)"

definition strftime_hms :: "datetime \<Rightarrow> string" where
  "strftime_hms t = zpad 2 (dt_hour t) @ zpad 2 (dt_minute t) @ zpad 2 (dt_second t)"

text \<open>\<open>%Y%m%d_%H%M%S\<close>, and with \<open>_%f\<close>.\<close>

definition strftime_sec :: "datetime \<Rightarrow> string" where
  "strftime_sec t = strftime_ymd t @ ''_'' @ strftime_hms t"

definition strftime_usec :: "datetime \<Rightarrow> string" where
  "strftime_usec t = strftime_sec t @ ''_'' @ zpad 6 (dt_micro t)"

lemma nat_val_append: "nat_val (xs @ ys) = foldl (\<lambda>a c. a * 10 + (of_char c - 48)) (nat_val xs) ys"
  by (simp add: nat_val_def)

lemma nat_val_zeros: "nat_val (replicate k CHR ''0'') = 0"
  by (induction k) (simp_all add: nat_val_def)

lemma nat_val_zpad: "nat_val (zpad w n) = n"
  using nat_val_nat_str [of n] by (simp add: zpad_def nat_val_append nat_val_zeros) (simp add: nat_val_def)

lemma zpad_inject [simp]: "zpad w m = zpad w n \<longleftrightarrow> m = n"
  by (metis nat_val_zpad)

lemma nat_str_inject [simp]: "nat_str m = nat_str n \<longleftrightarrow> m = n"
  using inj_nat_str by (simp add: inj_eq)

lemma length_nat_str: "n < 10 ^ Suc w \<Longrightarrow> length (nat_str n) \<le> Suc w"
proof (induction w arbitrary: n)
  case 0
  then show ?case by (simp add: nat_str.simps [of n])
next
  case (Suc w)
  then have "n div 10 < 10 ^ Suc w" by (auto simp: less_mult_imp_div_less)
  from Suc.IH [OF this] show ?case by (simp add: nat_str.simps [of n])
qed

lemma length_zpad: "n < 10 ^ w \<Longrightarrow> 0 < w \<Longrightarrow> length (zpad w n) = w"
  using length_nat_str [of n "w - 1"] by (simp add: zpad_def)

lemma length_zpad2: "n < 100 \<Longrightarrow> length (zpad 2 n) = 2"
  by (rule length_zpad) simp_all

text \<open>Digits only, so the separators of a format are never part of a number.\<close>

lemma nat_str_digits: "c \<in> set (nat_str n) \<Longrightarrow> 48 \<le> (of_char c :: nat) \<and> (of_char c :: nat) \<le> 57"
proof (induction n rule: nat_str.induct)
  case (1 n)
  then show ?case by (cases "n < 10") (auto simp: nat_str.simps [of n])
qed

lemma strftime_ymd_inject:
  assumes "dt_valid a" and "dt_valid b"
  shows "strftime_ymd a = strftime_ymd b \<longleftrightarrow>
    dt_year a = dt_year b \<and> dt_month a = dt_month b \<and> dt_day a = dt_day b"
proof -
  have l: "length (zpad 2 (dt_month t)) = 2" "length (zpad 2 (dt_day t)) = 2" if "dt_valid t" for t
  proof -
    have "days_in_month (dt_year t) (dt_month t) \<le> 31" by (simp add: days_in_month_def)
    then have "dt_month t < 100" "dt_day t < 100" using that by (simp_all add: dt_valid_def)
    then show "length (zpad 2 (dt_month t)) = 2" "length (zpad 2 (dt_day t)) = 2"
      by (simp_all add: length_zpad2)
  qed
  show ?thesis using l [OF assms(1)] l [OF assms(2)]
    by (auto simp: strftime_ymd_def simp flip: append_assoc)
qed

end
