(* ===== verification/Tables.thy ===== *)
theory Tables
  imports PyTime Json
begin

text \<open>
  What the managers over a database share: operations that may raise and keep the state they reached, the values
  of enumerations, the error of a violated constraint, and the filters and orders of queries.
\<close>

type_synonym json_dict = "(string, json) dict"

text \<open>\<open>CostType(v)\<close> and the like: the member with a value, or a \<open>ValueError\<close>.\<close>

definition enum_of :: "('e \<Rightarrow> string) \<Rightarrow> 'e list \<Rightarrow> string \<Rightarrow> exn + 'e" where
  "enum_of val members v =
     (case find (\<lambda>x. val x = v) members of
        None \<Rightarrow> Inl (value_error v)
      | Some x \<Rightarrow> Inr x)"

section \<open>Operations that may raise\<close>

type_synonym ('s, 'a) db_op = "'s \<Rightarrow> (exn + 'a) \<times> 's"

definition db_return :: "'a \<Rightarrow> ('s, 'a) db_op" where
  "db_return v m = (Inr v, m)"

definition db_bind :: "('s, 'a) db_op \<Rightarrow> ('a \<Rightarrow> ('s, 'b) db_op) \<Rightarrow> ('s, 'b) db_op" where
  "db_bind f g m = (case f m of (Inl e, m1) \<Rightarrow> (Inl e, m1) | (Inr v, m1) \<Rightarrow> g v m1)"

text \<open>A loop over a list whose body returns nothing.\<close>

fun db_each :: "('a \<Rightarrow> ('s, unit) db_op) \<Rightarrow> 'a list \<Rightarrow> ('s, unit) db_op" where
  "db_each f [] = db_return ()"
| "db_each f (x # xs) = db_bind (f x) (\<lambda>_. db_each f xs)"

lemma db_bind_simps [simp]:
  "f m = (Inl e, m1) \<Longrightarrow> db_bind f g m = (Inl e, m1)"
  "f m = (Inr v, m1) \<Longrightarrow> db_bind f g m = g v m1"
  by (simp_all add: db_bind_def)

lemma snd_db_bind_return [simp]: "snd (db_bind f (\<lambda>_. db_return v) m) = snd (f m)"
  by (simp add: db_bind_def db_return_def split: prod.split sum.split)

lemma fst_db_bind_return [simp]:
  "fst (db_bind f (\<lambda>_. db_return v) m) = (case fst (f m) of Inl e \<Rightarrow> Inl e | Inr _ \<Rightarrow> Inr v)"
  by (simp add: db_bind_def db_return_def split: prod.split sum.split)

definition integrity_error :: "string \<Rightarrow> exn" where
  "integrity_error k =
     Exn [''IntegrityError'', ''DatabaseError'', ''DBAPIError'', ''StatementError'', ''SQLAlchemyError'', ''Exception''] k"

section \<open>Queries\<close>

text \<open>An optional filter of a query: an empty string counts as no filter.\<close>

definition matches :: "string option \<Rightarrow> string option \<Rightarrow> bool" where
  "matches f v \<longleftrightarrow> (case f of None \<Rightarrow> True | Some s \<Rightarrow> s = '''' \<or> v = Some s)"

definition newest_first :: "('r \<Rightarrow> datetime) \<Rightarrow> 'r list \<Rightarrow> 'r list" where
  "newest_first t rs = rev (sort_key t (rev rs))"

end
