(* ===== verification/CostCeiling.thy ===== *)
theory CostCeiling
  imports Tables
begin

text \<open>
  \<^verbatim>\<open>libs/performance/cost_ceiling_manager.py\<close>: \<open>CostCeilingManager\<close>. The database is its tables,
  lists of rows in insertion order, with the queries of the code on them and the uniqueness
  constraints of \<^verbatim>\<open>libs/data-plane/migrations/steps/011_performance_gates_tables.py\<close>. Amounts are
  exact, rows that ORDER BY leaves tied keep their order, and each operation reads the clock
  once: \<open>now\<close>. The one database session belongs to one task at a time, so an operation is
  atomic. What the session does after a statement has failed is not modelled.
\<close>

section \<open>Data\<close>

datatype cost_type = LlmTokens | ApiCalls | Storage | Compute | Network | CustomCost

fun cost_type_value :: "cost_type \<Rightarrow> string" where
  "cost_type_value LlmTokens = ''llm_tokens''"
| "cost_type_value ApiCalls = ''api_calls''"
| "cost_type_value Storage = ''storage''"
| "cost_type_value Compute = ''compute''"
| "cost_type_value Network = ''network''"
| "cost_type_value CustomCost = ''custom''"

datatype ceiling_type = Daily | Weekly | Monthly | Quarterly | Yearly | PerRequest | PerTenant

fun ceiling_type_value :: "ceiling_type \<Rightarrow> string" where
  "ceiling_type_value Daily = ''daily''"
| "ceiling_type_value Weekly = ''weekly''"
| "ceiling_type_value Monthly = ''monthly''"
| "ceiling_type_value Quarterly = ''quarterly''"
| "ceiling_type_value Yearly = ''yearly''"
| "ceiling_type_value PerRequest = ''per_request''"
| "ceiling_type_value PerTenant = ''per_tenant''"

datatype alert_level = AlInfo | AlWarning | AlCritical | AlEmergency

fun alert_level_value :: "alert_level \<Rightarrow> string" where
  "alert_level_value AlInfo = ''info''"
| "alert_level_value AlWarning = ''warning''"
| "alert_level_value AlCritical = ''critical''"
| "alert_level_value AlEmergency = ''emergency''"

definition cost_type_of :: "string \<Rightarrow> exn + cost_type" where
  "cost_type_of = enum_of cost_type_value [LlmTokens, ApiCalls, Storage, Compute, Network, CustomCost]"

definition ceiling_type_of :: "string \<Rightarrow> exn + ceiling_type" where
  "ceiling_type_of =
     enum_of ceiling_type_value [Daily, Weekly, Monthly, Quarterly, Yearly, PerRequest, PerTenant]"

definition alert_level_of :: "string \<Rightarrow> exn + alert_level" where
  "alert_level_of = enum_of alert_level_value [AlInfo, AlWarning, AlCritical, AlEmergency]"

record cost_ceiling =
  ccl_ceiling_id :: string
  ccl_name :: string
  ccl_description :: string
  ccl_ceiling_type :: ceiling_type
  ccl_cost_type :: cost_type
  ccl_limit_amount :: rat
  ccl_currency :: string
  ccl_tenant_id :: "string option"
  ccl_service :: "string option"
  ccl_is_active :: bool
  ccl_alert_thresholds :: "(alert_level, rat) dict"
  ccl_created_at :: datetime
  ccl_updated_at :: datetime
  ccl_metadata :: json_dict

record cost_record =
  cor_record_id :: string
  cor_ceiling_id :: string
  cor_tenant_id :: string
  cor_service :: string
  cor_cost_type :: cost_type
  cor_amount :: rat
  cor_currency :: string
  cor_timestamp :: datetime
  cor_request_id :: "string option"
  cor_operation :: "string option"
  cor_metadata :: json_dict

record cost_alert =
  coa_alert_id :: string
  coa_ceiling_id :: string
  coa_alert_level :: alert_level
  coa_current_spending :: rat
  coa_limit_amount :: rat
  coa_usage_percentage :: rat
  coa_triggered_at :: datetime
  coa_resolved_at :: "datetime option"
  coa_is_resolved :: bool
  coa_message :: string
  coa_metadata :: json_dict

record cost_recommendation =
  cre_recommendation_id :: string
  cre_ceiling_id :: string
  cre_recommendation_type :: string
  cre_description :: string
  cre_potential_savings :: rat
  cre_implementation_effort :: string
  cre_priority :: int
  cre_created_at :: datetime
  cre_metadata :: json_dict

text \<open>A row of \<open>cost_ceilings\<close> has the values of the enumerations.\<close>

record ceiling_row =
  crw_ceiling_id :: string
  crw_name :: string
  crw_description :: string
  crw_ceiling_type :: string
  crw_cost_type :: string
  crw_limit_amount :: rat
  crw_currency :: string
  crw_tenant_id :: "string option"
  crw_service :: "string option"
  crw_is_active :: bool
  crw_alert_thresholds :: "(string, rat) dict option"
  crw_created_at :: datetime
  crw_updated_at :: datetime
  crw_metadata :: "json_dict option"

record cost_db =
  cdb_ceilings :: "ceiling_row list"
  cdb_records :: "cost_record list"
  cdb_alerts :: "cost_alert list"
  cdb_recommendations :: "cost_recommendation list"

record ccm =
  ccm_db :: cost_db
  ccm_ceiling_cache :: "(string, cost_ceiling) dict"
  ccm_spending_cache :: "(string, rat) dict"

definition ccm_init :: "cost_db \<Rightarrow> ccm" where
  "ccm_init db = \<lparr>ccm_db = db, ccm_ceiling_cache = [], ccm_spending_cache = []\<rparr>"

section \<open>Ceilings\<close>

type_synonym 'a cost_op = "(ccm, 'a) db_op"

text \<open>A statement INSERT of a row with a unique identifier.\<close>

definition cc_insert ::
  "(cost_db \<Rightarrow> 'r list) \<Rightarrow> ('r list \<Rightarrow> cost_db \<Rightarrow> cost_db) \<Rightarrow> ('r \<Rightarrow> string) \<Rightarrow> 'r \<Rightarrow> unit cost_op" where
  "cc_insert table put key r m =
     (if key r \<in> key ` set (table (ccm_db m)) then (Inl (integrity_error (key r)), m)
      else (Inr (), m\<lparr>ccm_db := put (table (ccm_db m) @ [r]) (ccm_db m)\<rparr>))"

definition default_thresholds :: "(alert_level, rat) dict" where
  "default_thresholds = [(AlWarning, 8/10), (AlCritical, 95/100), (AlEmergency, 1)]"

definition ceiling_to_row :: "cost_ceiling \<Rightarrow> ceiling_row" where
  "ceiling_to_row c =
     \<lparr>crw_ceiling_id = ccl_ceiling_id c, crw_name = ccl_name c, crw_description = ccl_description c,
      crw_ceiling_type = ceiling_type_value (ccl_ceiling_type c), crw_cost_type = cost_type_value (ccl_cost_type c),
      crw_limit_amount = ccl_limit_amount c, crw_currency = ccl_currency c, crw_tenant_id = ccl_tenant_id c,
      crw_service = ccl_service c, crw_is_active = ccl_is_active c,
      crw_alert_thresholds = Some (map (\<lambda>(l, q). (alert_level_value l, q)) (ccl_alert_thresholds c)),
      crw_created_at = ccl_created_at c, crw_updated_at = ccl_updated_at c, crw_metadata = Some (ccl_metadata c)\<rparr>"

definition cc_store_cost_ceiling :: "cost_ceiling \<Rightarrow> unit cost_op" where
  "cc_store_cost_ceiling c =
     cc_insert cdb_ceilings (\<lambda>rs db. db\<lparr>cdb_ceilings := rs\<rparr>) crw_ceiling_id (ceiling_to_row c)"

definition cc_cache_ceiling :: "cost_ceiling \<Rightarrow> ccm \<Rightarrow> ccm" where
  "cc_cache_ceiling c m = m\<lparr>ccm_ceiling_cache := dset (ccl_ceiling_id c) c (ccm_ceiling_cache m)\<rparr>"

definition cc_create_cost_ceiling ::
  "datetime \<Rightarrow> string \<Rightarrow> string \<Rightarrow> ceiling_type \<Rightarrow> cost_type \<Rightarrow> rat \<Rightarrow> string \<Rightarrow> string option \<Rightarrow> string option \<Rightarrow>
   (alert_level, rat) dict option \<Rightarrow> json_dict option \<Rightarrow> cost_ceiling cost_op" where
  "cc_create_cost_ceiling now nm descr ct kt limit_amount cur tenant service thresholds metadata =
     (let c = \<lparr>ccl_ceiling_id = ''ceiling_'' @ ceiling_type_value ct @ ''_'' @ cost_type_value kt @ ''_'' @ strftime_sec now,
               ccl_name = nm, ccl_description = descr, ccl_ceiling_type = ct, ccl_cost_type = kt,
               ccl_limit_amount = limit_amount, ccl_currency = cur, ccl_tenant_id = tenant, ccl_service = service,
               ccl_is_active = True,
               ccl_alert_thresholds = (case thresholds of None \<Rightarrow> default_thresholds
                                       | Some d \<Rightarrow> if d = [] then default_thresholds else d),
               ccl_created_at = now, ccl_updated_at = now,
               ccl_metadata = (case metadata of None \<Rightarrow> [] | Some d \<Rightarrow> d)\<rparr>
      in db_bind (cc_store_cost_ceiling c) (\<lambda>_ m. (Inr c, cc_cache_ceiling c m)))"

text \<open>The loop of \<open>_row_to_cost_ceiling\<close> over the thresholds.\<close>

fun add_thresholds :: "(string \<times> rat) list \<Rightarrow> (alert_level, rat) dict \<Rightarrow> exn + (alert_level, rat) dict" where
  "add_thresholds [] d = Inr d"
| "add_thresholds ((v, q) # rest) d = ebind (alert_level_of v) (\<lambda>l. add_thresholds rest (dset l q d))"

definition row_to_cost_ceiling :: "ceiling_row \<Rightarrow> exn + cost_ceiling" where
  "row_to_cost_ceiling r =
     ebind (case crw_alert_thresholds r of None \<Rightarrow> Inr [] | Some d \<Rightarrow> add_thresholds d []) (\<lambda>thresholds.
     ebind (ceiling_type_of (crw_ceiling_type r)) (\<lambda>ct.
     ebind (cost_type_of (crw_cost_type r)) (\<lambda>kt.
       Inr \<lparr>ccl_ceiling_id = crw_ceiling_id r, ccl_name = crw_name r, ccl_description = crw_description r,
            ccl_ceiling_type = ct, ccl_cost_type = kt, ccl_limit_amount = crw_limit_amount r,
            ccl_currency = crw_currency r, ccl_tenant_id = crw_tenant_id r, ccl_service = crw_service r,
            ccl_is_active = crw_is_active r, ccl_alert_thresholds = thresholds,
            ccl_created_at = crw_created_at r, ccl_updated_at = crw_updated_at r,
            ccl_metadata = (case crw_metadata r of None \<Rightarrow> [] | Some d \<Rightarrow> d)\<rparr>)))"

definition cc_get_cost_ceiling :: "string \<Rightarrow> cost_ceiling option cost_op" where
  "cc_get_cost_ceiling cid m =
     (case dget (ccm_ceiling_cache m) cid of
        Some c \<Rightarrow> (Inr (Some c), m)
      | None \<Rightarrow>
          (case find (\<lambda>r. crw_ceiling_id r = cid \<and> crw_is_active r) (cdb_ceilings (ccm_db m)) of
             None \<Rightarrow> (Inr None, m)
           | Some r \<Rightarrow>
               (case row_to_cost_ceiling r of
                  Inl e \<Rightarrow> (Inl e, m)
                | Inr c \<Rightarrow> (Inr (Some c), m\<lparr>ccm_ceiling_cache := dset cid c (ccm_ceiling_cache m)\<rparr>))))"

definition cc_get_cost_ceilings ::
  "string option \<Rightarrow> string option \<Rightarrow> cost_type option \<Rightarrow> ceiling_type option \<Rightarrow> bool \<Rightarrow> cost_ceiling list cost_op" where
  "cc_get_cost_ceilings tenant service kt ct active m =
     (emap row_to_cost_ceiling (newest_first crw_created_at
        (filter (\<lambda>r. crw_is_active r = active \<and> matches tenant (crw_tenant_id r) \<and> matches service (crw_service r) \<and>
           matches (map_option cost_type_value kt) (Some (crw_cost_type r)) \<and>
           matches (map_option ceiling_type_value ct) (Some (crw_ceiling_type r))) (cdb_ceilings (ccm_db m)))), m)"

definition cc_get_cost_alerts ::
  "string option \<Rightarrow> alert_level option \<Rightarrow> bool option \<Rightarrow> nat \<Rightarrow> cost_alert list cost_op" where
  "cc_get_cost_alerts cid level resolved limit m =
     (Inr (take limit (newest_first coa_triggered_at
        (filter (\<lambda>a. matches cid (Some (coa_ceiling_id a)) \<and>
           (level = None \<or> level = Some (coa_alert_level a)) \<and>
           (resolved = None \<or> resolved = Some (coa_is_resolved a))) (cdb_alerts (ccm_db m))))), m)"

section \<open>Windows\<close>

definition window_key :: "ceiling_type \<Rightarrow> datetime \<Rightarrow> string" where
  "window_key ct now =
     (case ct of
        Daily \<Rightarrow> strftime_ymd now
      | Weekly \<Rightarrow> nat_str (dt_year now) @ ''W'' @ int_str (dt_isoweek now)
      | Monthly \<Rightarrow> nat_str (dt_year now) @ zpad 2 (dt_month now)
      | Quarterly \<Rightarrow> nat_str (dt_year now) @ ''Q'' @ nat_str ((dt_month now - 1) div 3 + 1)
      | Yearly \<Rightarrow> nat_str (dt_year now)
      | _ \<Rightarrow> ''unlimited'')"

definition midnight :: "datetime \<Rightarrow> datetime" where
  "midnight t = DT (dt_year t) (dt_month t) (dt_day t) 0 0 0 0"

definition ceiling_start_time :: "ceiling_type \<Rightarrow> datetime \<Rightarrow> datetime" where
  "ceiling_start_time ct end_time =
     (case ct of
        Daily \<Rightarrow> midnight end_time
      | Weekly \<Rightarrow> midnight (minus_days (dt_weekday end_time) end_time)
      | Monthly \<Rightarrow> DT (dt_year end_time) (dt_month end_time) 1 0 0 0 0
      | Quarterly \<Rightarrow> DT (dt_year end_time) ((dt_month end_time - 1) div 3 * 3 + 1) 1 0 0 0 0
      | Yearly \<Rightarrow> DT (dt_year end_time) 1 1 0 0 0 0
      | _ \<Rightarrow> DT 2020 1 1 0 0 0 0)"

definition cache_key :: "string \<Rightarrow> ceiling_type \<Rightarrow> datetime \<Rightarrow> string" where
  "cache_key cid ct now = cid @ ''_'' @ window_key ct now"

section \<open>Spending\<close>

text \<open>The query of \<open>get_current_spending\<close>.\<close>

definition sql_spending :: "string \<Rightarrow> datetime \<Rightarrow> datetime \<Rightarrow> cost_record list \<Rightarrow> rat" where
  "sql_spending cid start_time end_time rs =
     sum_list (map cor_amount (filter (\<lambda>r. cor_ceiling_id r = cid \<and> start_time \<le> cor_timestamp r \<and>
       cor_timestamp r \<le> end_time) rs))"

definition cc_get_current_spending ::
  "datetime \<Rightarrow> string \<Rightarrow> datetime option \<Rightarrow> datetime option \<Rightarrow> rat cost_op" where
  "cc_get_current_spending now cid start_time end_time =
     db_bind (cc_get_cost_ceiling cid) (\<lambda>found m.
       case found of
         None \<Rightarrow> (Inr 0, m)
       | Some c \<Rightarrow>
           (let key = cache_key cid (ccl_ceiling_type c) now
            in case dget (ccm_spending_cache m) key of
                 Some v \<Rightarrow> (Inr v, m)
               | None \<Rightarrow>
                   (let e = (case end_time of None \<Rightarrow> now | Some t \<Rightarrow> t);
                        s = (case start_time of None \<Rightarrow> ceiling_start_time (ccl_ceiling_type c) e | Some t \<Rightarrow> t);
                        total_spending = sql_spending cid s e (cdb_records (ccm_db m))
                    in (Inr total_spending,
                        m\<lparr>ccm_spending_cache := dset key total_spending (ccm_spending_cache m)\<rparr>))))"

text \<open>The message has the percentage as the format \<open>.1%\<close> gives it: \<open>pct\<close>.\<close>

fun alert_message :: "(rat \<Rightarrow> string) \<Rightarrow> alert_level \<Rightarrow> rat \<Rightarrow> string" where
  "alert_message pct AlWarning u = ''Cost ceiling warning: '' @ pct u @ '' of limit reached''"
| "alert_message pct AlCritical u = ''Cost ceiling critical: '' @ pct u @ '' of limit reached''"
| "alert_message pct AlEmergency u = ''Cost ceiling exceeded: '' @ pct u @ '' of limit''"
| "alert_message pct AlInfo u = ''Cost ceiling alert: '' @ pct u @ '' of limit reached''"

definition alert_id :: "string \<Rightarrow> alert_level \<Rightarrow> datetime \<Rightarrow> string" where
  "alert_id cid level now = ''alert_'' @ cid @ ''_'' @ alert_level_value level @ ''_'' @ strftime_sec now"

definition cc_trigger_cost_alert ::
  "(rat \<Rightarrow> string) \<Rightarrow> datetime \<Rightarrow> cost_ceiling \<Rightarrow> alert_level \<Rightarrow> rat \<Rightarrow> rat \<Rightarrow> unit cost_op" where
  "cc_trigger_cost_alert pct now c level spent usage =
     cc_insert cdb_alerts (\<lambda>rs db. db\<lparr>cdb_alerts := rs\<rparr>) coa_alert_id
       \<lparr>coa_alert_id = alert_id (ccl_ceiling_id c) level now, coa_ceiling_id = ccl_ceiling_id c,
        coa_alert_level = level, coa_current_spending = spent, coa_limit_amount = ccl_limit_amount c,
        coa_usage_percentage = usage, coa_triggered_at = now, coa_resolved_at = None,
        coa_is_resolved = False, coa_message = alert_message pct level usage, coa_metadata = []\<rparr>"

text \<open>Dividing by a limit of 0 raises; so does 0 divided by 0, with another class.\<close>

definition decimal_div :: "rat \<Rightarrow> rat \<Rightarrow> exn + rat" where
  "decimal_div x y =
     (if y \<noteq> 0 then Inr (x / y)
      else if x = 0 then Inl (Exn [''InvalidOperation'', ''DecimalException'', ''ArithmeticError'', ''Exception''] '''')
      else Inl (Exn [''DivisionByZero'', ''DecimalException'', ''ZeroDivisionError'', ''ArithmeticError'', ''Exception''] ''''))"

definition cc_check_ceiling_violations ::
  "(rat \<Rightarrow> string) \<Rightarrow> datetime \<Rightarrow> cost_ceiling \<Rightarrow> rat \<Rightarrow> unit cost_op" where
  "cc_check_ceiling_violations pct now c spent m =
     (case decimal_div spent (ccl_limit_amount c) of
        Inl e \<Rightarrow> (Inl e, m)
      | Inr usage \<Rightarrow>
          db_each (\<lambda>(level, threshold).
            if threshold \<le> usage then cc_trigger_cost_alert pct now c level spent usage else db_return ())
            (ccl_alert_thresholds c) m)"

definition cc_store_cost_record :: "cost_record \<Rightarrow> unit cost_op" where
  "cc_store_cost_record r =
     cc_insert cdb_records (\<lambda>rs db. db\<lparr>cdb_records := rs\<rparr>) cor_record_id r"

definition record_id :: "string \<Rightarrow> datetime \<Rightarrow> string" where
  "record_id cid now = ''cost_'' @ cid @ ''_'' @ strftime_usec now"

definition cc_add_spending :: "string \<Rightarrow> rat \<Rightarrow> ccm \<Rightarrow> ccm" where
  "cc_add_spending key amount m =
     m\<lparr>ccm_spending_cache := dset key (dget_or 0 (ccm_spending_cache m) key + amount) (ccm_spending_cache m)\<rparr>"

definition cc_record_cost ::
  "(rat \<Rightarrow> string) \<Rightarrow> datetime \<Rightarrow> string \<Rightarrow> string \<Rightarrow> string \<Rightarrow> cost_type \<Rightarrow> rat \<Rightarrow> string \<Rightarrow> string option \<Rightarrow>
   string option \<Rightarrow> json_dict option \<Rightarrow> bool cost_op" where
  "cc_record_cost pct now cid tenant service kt amount cur request_id operation metadata =
     db_bind (cc_get_cost_ceiling cid) (\<lambda>found.
       case found of
         None \<Rightarrow> db_return False
       | Some c \<Rightarrow>
           db_bind (cc_store_cost_record
             \<lparr>cor_record_id = record_id cid now, cor_ceiling_id = cid, cor_tenant_id = tenant,
              cor_service = service, cor_cost_type = kt, cor_amount = amount, cor_currency = cur,
              cor_timestamp = now, cor_request_id = request_id, cor_operation = operation,
              cor_metadata = (case metadata of None \<Rightarrow> [] | Some d \<Rightarrow> d)\<rparr>) (\<lambda>_.
           db_bind (cc_get_current_spending now cid None None) (\<lambda>current_spending m.
             db_bind (cc_check_ceiling_violations pct now c current_spending)
               (\<lambda>_. db_return (current_spending < ccl_limit_amount c))
               (cc_add_spending (cache_key cid (ccl_ceiling_type c) now) amount m))))"

section \<open>Recommendations and statistics\<close>

text \<open>A row of the grouped spending: service, cost type, sum and number of the records.\<close>

definition spending_groups :: "string \<Rightarrow> datetime \<Rightarrow> datetime \<Rightarrow> cost_record list \<Rightarrow> (string \<times> cost_type \<times> rat \<times> nat) list" where
  "spending_groups cid start_time end_time rs =
     (let hits = filter (\<lambda>r. cor_ceiling_id r = cid \<and> start_time \<le> cor_timestamp r \<and> cor_timestamp r \<le> end_time) rs;
          group = (\<lambda>(s, k). filter (\<lambda>r. cor_service r = s \<and> cor_cost_type r = k) hits)
      in sort_key (\<lambda>(_, _, total_spending, _). - total_spending)
           (map (\<lambda>(s, k). (s, k, sum_list (map cor_amount (group (s, k))), length (group (s, k))))
              (remdups (map (\<lambda>r. (cor_service r, cor_cost_type r)) hits))))"

text \<open>\<open>fmt\<close> formats an amount with the given number of decimals.\<close>

definition group_recommendations ::
  "(nat \<Rightarrow> rat \<Rightarrow> string) \<Rightarrow> datetime \<Rightarrow> cost_ceiling \<Rightarrow> string \<times> cost_type \<times> rat \<times> nat \<Rightarrow> cost_recommendation list" where
  "group_recommendations fmt now c row =
     (case row of (service, kt, total_spending, request_count) \<Rightarrow>
        let avg = total_spending / of_nat request_count; cid = ccl_ceiling_id c
        in (if ccl_limit_amount c * (1/10) < total_spending then
              [\<lparr>cre_recommendation_id = ''rec_'' @ cid @ ''_high_spending_'' @ strftime_sec now,
                cre_ceiling_id = cid, cre_recommendation_type = ''high_spending_service'',
                cre_description = ''Consider optimizing '' @ service @ '' service which accounts for '' @
                  fmt 2 total_spending @ '' in spending'',
                cre_potential_savings = total_spending * (2/10), cre_implementation_effort = ''medium'',
                cre_priority = 8, cre_created_at = now,
                cre_metadata = [(''service'', JStr service), (''cost_type'', JStr (cost_type_value kt)),
                  (''total_spending'', JFloat total_spending), (''request_count'', JInt (int request_count)),
                  (''avg_cost_per_request'', JFloat avg)]\<rparr>]
            else []) @
           (if ccl_limit_amount c * (1/100) < avg then
              [\<lparr>cre_recommendation_id = ''rec_'' @ cid @ ''_high_per_request_'' @ strftime_sec now,
                cre_ceiling_id = cid, cre_recommendation_type = ''high_per_request_cost'',
                cre_description = ''High per-request cost in '' @ service @ '': '' @ fmt 4 avg @ '' per request'',
                cre_potential_savings = total_spending * (15/100), cre_implementation_effort = ''high'',
                cre_priority = 9, cre_created_at = now,
                cre_metadata = [(''service'', JStr service), (''avg_cost_per_request'', JFloat avg),
                  (''request_count'', JInt (int request_count))]\<rparr>]
            else []))"

definition cc_store_recommendation :: "cost_recommendation \<Rightarrow> unit cost_op" where
  "cc_store_recommendation r =
     cc_insert cdb_recommendations (\<lambda>rs db. db\<lparr>cdb_recommendations := rs\<rparr>) cre_recommendation_id r"

definition cc_generate_optimization_recommendations ::
  "(nat \<Rightarrow> rat \<Rightarrow> string) \<Rightarrow> datetime \<Rightarrow> string \<Rightarrow> nat \<Rightarrow> cost_recommendation list cost_op" where
  "cc_generate_optimization_recommendations fmt now cid days =
     db_bind (cc_get_cost_ceiling cid) (\<lambda>found m.
       case found of
         None \<Rightarrow> (Inr [], m)
       | Some c \<Rightarrow>
           (let recs = concat (map (group_recommendations fmt now c)
                  (spending_groups cid (minus_days days now) now (cdb_records (ccm_db m))))
            in db_bind (db_each cc_store_recommendation recs) (\<lambda>_. db_return recs) m))"

record cost_statistics =
  cst_total_ceilings :: nat
  cst_active_ceilings :: nat
  cst_tenants_with_ceilings :: nat
  cst_services_with_ceilings :: nat
  cst_total_limit_amount :: rat
  cst_total_alerts :: nat
  cst_active_alerts :: nat
  cst_emergency_alerts :: nat
  cst_critical_alerts :: nat
  cst_warning_alerts :: nat
  cst_total_spending_30d :: rat
  cst_total_requests_30d :: nat
  cst_avg_cost_per_request :: rat

text \<open>The sum over no rows is NULL, which \<open>float\<close> does not take.\<close>

definition cc_get_cost_statistics :: "datetime \<Rightarrow> cost_statistics cost_op" where
  "cc_get_cost_statistics now m =
     (let cs = cdb_ceilings (ccm_db m); als = cdb_alerts (ccm_db m);
          rs = filter (\<lambda>r. minus_days 30 now \<le> cor_timestamp r) (cdb_records (ccm_db m));
          total_spending = sum_list (map cor_amount rs);
          level = (\<lambda>l. length (filter (\<lambda>a. coa_alert_level a = l) als))
      in (if cs = [] then Inl (type_error ''float() argument must be a string or a real number'')
          else Inr
           \<lparr>cst_total_ceilings = length cs, cst_active_ceilings = length (filter crw_is_active cs),
            cst_tenants_with_ceilings = length (remdups (List.map_filter crw_tenant_id cs)),
            cst_services_with_ceilings = length (remdups (List.map_filter crw_service cs)),
            cst_total_limit_amount = sum_list (map crw_limit_amount cs),
            cst_total_alerts = length als, cst_active_alerts = length (filter (\<lambda>a. \<not> coa_is_resolved a) als),
            cst_emergency_alerts = level AlEmergency, cst_critical_alerts = level AlCritical,
            cst_warning_alerts = level AlWarning,
            cst_total_spending_30d = (if rs = [] then 0 else total_spending), cst_total_requests_30d = length rs,
            cst_avg_cost_per_request = (if rs = [] then 0 else total_spending / of_nat (length rs))\<rparr>, m))"

section \<open>What an operation leaves alone\<close>

text \<open>Two managers that differ at most in the alerts of their databases.\<close>

definition same_but_alerts :: "ccm \<Rightarrow> ccm \<Rightarrow> bool" where
  "same_but_alerts m m1 \<longleftrightarrow> (\<exists>als. m1 = m\<lparr>ccm_db := (ccm_db m)\<lparr>cdb_alerts := als\<rparr>\<rparr>)"

lemma same_but_alertsD:
  "same_but_alerts m m1 \<Longrightarrow>
     ccm_ceiling_cache m1 = ccm_ceiling_cache m \<and> ccm_spending_cache m1 = ccm_spending_cache m \<and>
     cdb_records (ccm_db m1) = cdb_records (ccm_db m) \<and> cdb_ceilings (ccm_db m1) = cdb_ceilings (ccm_db m)"
  by (auto simp: same_but_alerts_def)

lemma same_but_alerts_refl: "same_but_alerts m m"
  unfolding same_but_alerts_def by (rule exI [of _ "cdb_alerts (ccm_db m)"]) simp

lemma same_but_alerts_trans: "same_but_alerts m m1 \<Longrightarrow> same_but_alerts m1 m2 \<Longrightarrow> same_but_alerts m m2"
  by (auto simp: same_but_alerts_def)

lemma cc_each_same:
  assumes "\<And>x m. same_but_alerts m (snd (f x m))"
  shows "same_but_alerts m (snd (db_each f xs m))"
proof (induction xs arbitrary: m)
  case Nil
  then show ?case by (simp add: db_return_def same_but_alerts_refl)
next
  case (Cons x xs)
  show ?case
    using assms [of m x] Cons.IH [of "snd (f x m)"] same_but_alerts_trans
    by (auto simp: db_bind_def split: prod.split sum.split)
qed

lemma cc_check_same: "same_but_alerts m (snd (cc_check_ceiling_violations pct now c spent m))"
proof -
  have "same_but_alerts n (snd (cc_trigger_cost_alert pct now c level spent u n))" for level u n
    by (simp add: cc_trigger_cost_alert_def cc_insert_def same_but_alerts_refl) (auto simp: same_but_alerts_def)
  then show ?thesis
    by (auto simp: cc_check_ceiling_violations_def same_but_alerts_refl db_return_def split_def
        intro!: cc_each_same split: sum.split)
qed

section \<open>One recorded cost\<close>

text \<open>What \<open>record_cost\<close> compares with the limit.\<close>

definition cc_seen :: "datetime \<Rightarrow> cost_ceiling \<Rightarrow> rat \<Rightarrow> ccm \<Rightarrow> rat" where
  "cc_seen now c amount m =
     (let cid = ccl_ceiling_id c; start_time = ceiling_start_time (ccl_ceiling_type c) now
      in case dget (ccm_spending_cache m) (cache_key cid (ccl_ceiling_type c) now) of
           Some v \<Rightarrow> v
         | None \<Rightarrow> sql_spending cid start_time now (cdb_records (ccm_db m)) + (if start_time \<le> now then amount else 0))"

lemma cc_get_cached: "dget (ccm_ceiling_cache m) cid = Some c \<Longrightarrow> cc_get_cost_ceiling cid m = (Inr (Some c), m)"
  by (simp add: cc_get_cost_ceiling_def)

lemma cc_spending_cached:
  assumes "dget (ccm_ceiling_cache m) cid = Some c"
  shows "cc_get_current_spending now cid None None m =
    (let key = cache_key cid (ccl_ceiling_type c) now;
         total_spending = sql_spending cid (ceiling_start_time (ccl_ceiling_type c) now) now (cdb_records (ccm_db m))
     in case dget (ccm_spending_cache m) key of
          Some v \<Rightarrow> (Inr v, m)
        | None \<Rightarrow> (Inr total_spending, m\<lparr>ccm_spending_cache := dset key total_spending (ccm_spending_cache m)\<rparr>))"
  using cc_get_cached [OF assms] by (simp add: cc_get_current_spending_def Let_def split: option.split)

lemma cc_record_cost_step:
  assumes c: "dget (ccm_ceiling_cache m) cid = Some c" "ccl_ceiling_id c = cid"
    and fresh: "record_id cid now \<notin> cor_record_id ` set (cdb_records (ccm_db m))"
    and run: "cc_record_cost pct now cid tenant service kt amount cur rq op md m = (res, m')"
  shows "ccm_ceiling_cache m' = ccm_ceiling_cache m" (is ?ceilings)
    and "ccm_spending_cache m' =
      dset (cache_key cid (ccl_ceiling_type c) now) (cc_seen now c amount m + amount)
        (if dget (ccm_spending_cache m) (cache_key cid (ccl_ceiling_type c) now) = None
         then dset (cache_key cid (ccl_ceiling_type c) now) (cc_seen now c amount m) (ccm_spending_cache m)
         else ccm_spending_cache m)" (is ?cache)
    and "\<exists>r. cdb_records (ccm_db m') = cdb_records (ccm_db m) @ [r] \<and> cor_record_id r = record_id cid now \<and>
      cor_ceiling_id r = cid \<and> cor_amount r = amount \<and> cor_timestamp r = now" (is ?records)
    and "res = Inr b \<Longrightarrow> b \<longleftrightarrow> cc_seen now c amount m < ccl_limit_amount c"
    and "\<exists>n. cdb_alerts (ccm_db n) = cdb_alerts (ccm_db m) \<and>
      res = (case fst (cc_check_ceiling_violations pct now c (cc_seen now c amount m) n) of
               Inl e \<Rightarrow> Inl e | Inr _ \<Rightarrow> Inr (cc_seen now c amount m < ccl_limit_amount c))" (is ?res)
proof -
  let ?key = "cache_key cid (ccl_ceiling_type c) now"
  define r where "r = \<lparr>cor_record_id = record_id cid now, cor_ceiling_id = cid, cor_tenant_id = tenant,
      cor_service = service, cor_cost_type = kt, cor_amount = amount, cor_currency = cur,
      cor_timestamp = now, cor_request_id = rq, cor_operation = op,
      cor_metadata = (case md of None \<Rightarrow> [] | Some d \<Rightarrow> d)\<rparr>"
  define m1 where "m1 = m\<lparr>ccm_db := (ccm_db m)\<lparr>cdb_records := cdb_records (ccm_db m) @ [r]\<rparr>\<rparr>"
  define seen where "seen = cc_seen now c amount m"
  define sc where "sc = (if dget (ccm_spending_cache m) ?key = None then dset ?key seen (ccm_spending_cache m)
    else ccm_spending_cache m)"
  have m1: "dget (ccm_ceiling_cache m1) cid = Some c" "ccm_spending_cache m1 = ccm_spending_cache m"
    "sql_spending cid s now (cdb_records (ccm_db m1)) =
       sql_spending cid s now (cdb_records (ccm_db m)) + (if s \<le> now then amount else 0)" for s
    using c(1) by (simp_all add: m1_def sql_spending_def r_def)
  have store: "cc_store_cost_record r m = (Inr (), m1)"
    using fresh by (simp add: cc_store_cost_record_def cc_insert_def m1_def r_def)
  have spend: "cc_get_current_spending now cid None None m1 = (Inr seen, m1\<lparr>ccm_spending_cache := sc\<rparr>)"
  proof (cases "dget (ccm_spending_cache m) ?key")
    case None
    then show ?thesis by (simp add: cc_spending_cached [OF m1(1)] m1 Let_def seen_def sc_def cc_seen_def c(2))
  next
    case (Some v)
    then have "m1\<lparr>ccm_spending_cache := sc\<rparr> = m1" by (simp add: sc_def m1_def)
    with Some show ?thesis by (simp add: cc_spending_cached [OF m1(1)] m1 Let_def seen_def cc_seen_def c(2))
  qed
  define m2 where "m2 = cc_add_spending ?key amount (m1\<lparr>ccm_spending_cache := sc\<rparr>)"
  have "cc_record_cost pct now cid tenant service kt amount cur rq op md m =
      db_bind (cc_check_ceiling_violations pct now c seen) (\<lambda>_. db_return (seen < ccl_limit_amount c)) m2"
    using store spend by (simp add: cc_record_cost_def cc_get_cached [OF c(1)] m2_def flip: r_def)
  then have both: "(res, m') = db_bind (cc_check_ceiling_violations pct now c seen)
      (\<lambda>_. db_return (seen < ccl_limit_amount c)) m2"
    using run by simp
  then have res: "res = (case fst (cc_check_ceiling_violations pct now c seen m2) of
        Inl e \<Rightarrow> Inl e | Inr _ \<Rightarrow> Inr (seen < ccl_limit_amount c))"
    and m': "m' = snd (cc_check_ceiling_violations pct now c seen m2)"
    by (metis fst_db_bind_return fst_conv) (metis both snd_db_bind_return snd_conv)
  note same = same_but_alertsD [OF cc_check_same [of m2 pct now c seen], folded m']
  have "dget_or 0 sc ?key = seen"
    by (auto simp: dget_or_def sc_def seen_def cc_seen_def c(2) Let_def dget_dset split: option.split)
  then show ?cache using same by (simp add: m2_def cc_add_spending_def sc_def seen_def)
  show ?ceilings using same by (simp add: m2_def cc_add_spending_def m1_def)
  show ?records using same by (simp add: m2_def cc_add_spending_def m1_def r_def)
  show "b \<longleftrightarrow> cc_seen now c amount m < ccl_limit_amount c" if "res = Inr b"
    using that by (auto simp: res seen_def split: sum.splits)
  have "cdb_alerts (ccm_db m2) = cdb_alerts (ccm_db m)"
    by (simp add: m2_def cc_add_spending_def m1_def)
  then show ?res using res unfolding seen_def by blast
qed

section \<open>Runs\<close>

record cost_charge =
  chg_now :: datetime
  chg_tenant :: string
  chg_service :: string
  chg_cost_type :: cost_type
  chg_amount :: rat
  chg_currency :: string
  chg_request :: "string option"
  chg_operation :: "string option"
  chg_metadata :: "json_dict option"

fun cc_charges :: "(rat \<Rightarrow> string) \<Rightarrow> string \<Rightarrow> cost_charge list \<Rightarrow> ccm \<Rightarrow> (exn + bool) list \<times> ccm" where
  "cc_charges pct cid [] m = ([], m)"
| "cc_charges pct cid (x # xs) m =
     (case cc_record_cost pct (chg_now x) cid (chg_tenant x) (chg_service x) (chg_cost_type x) (chg_amount x)
             (chg_currency x) (chg_request x) (chg_operation x) (chg_metadata x) m of
        (res, m1) \<Rightarrow> (case cc_charges pct cid xs m1 of (rs, m2) \<Rightarrow> (res # rs, m2)))"

definition amounts :: "cost_charge list \<Rightarrow> rat" where
  "amounts xs = sum_list (map chg_amount xs)"

lemma amounts_simps [simp]: "amounts [] = 0" "amounts (x # xs) = chg_amount x + amounts xs"
  by (simp_all add: amounts_def)

text \<open>Charges of one ceiling in one window, with new identifiers.\<close>

definition cc_window_run :: "string \<Rightarrow> cost_ceiling \<Rightarrow> string \<Rightarrow> cost_charge list \<Rightarrow> ccm \<Rightarrow> bool" where
  "cc_window_run cid c key xs m \<longleftrightarrow>
     dget (ccm_ceiling_cache m) cid = Some c \<and> ccl_ceiling_id c = cid \<and>
     (\<forall>x \<in> set xs. cache_key cid (ccl_ceiling_type c) (chg_now x) = key) \<and>
     distinct (map (\<lambda>x. record_id cid (chg_now x)) xs) \<and>
     (\<forall>x \<in> set xs. record_id cid (chg_now x) \<notin> cor_record_id ` set (cdb_records (ccm_db m)))"

text \<open>The rows a run adds.\<close>

definition cc_rows_of :: "string \<Rightarrow> cost_charge list \<Rightarrow> cost_record list \<Rightarrow> bool" where
  "cc_rows_of cid xs rows \<longleftrightarrow>
     list_all2 (\<lambda>x r. cor_ceiling_id r = cid \<and> cor_amount r = chg_amount x \<and> cor_timestamp r = chg_now x) xs rows"

lemma cc_window_run_step:
  assumes "cc_window_run cid c key (x # xs) m"
    and "cc_record_cost pct (chg_now x) cid t s k (chg_amount x) cur rq op md m = (res, m1)"
  shows "cc_window_run cid c key xs m1"
    and "dget (ccm_spending_cache m1) key = Some (cc_seen (chg_now x) c (chg_amount x) m + chg_amount x)"
    and "\<exists>r. cdb_records (ccm_db m1) = cdb_records (ccm_db m) @ [r] \<and> cor_ceiling_id r = cid \<and>
      cor_amount r = chg_amount x \<and> cor_timestamp r = chg_now x"
    and "res = Inr b \<Longrightarrow> b \<longleftrightarrow> cc_seen (chg_now x) c (chg_amount x) m < ccl_limit_amount c"
proof -
  from assms(1) have run: "dget (ccm_ceiling_cache m) cid = Some c" "ccl_ceiling_id c = cid"
      "record_id cid (chg_now x) \<notin> cor_record_id ` set (cdb_records (ccm_db m))"
      and key: "cache_key cid (ccl_ceiling_type c) (chg_now x) = key"
    by (simp_all add: cc_window_run_def)
  note step = cc_record_cost_step [OF run assms(2)]
  obtain r where r: "cdb_records (ccm_db m1) = cdb_records (ccm_db m) @ [r]" "cor_record_id r = record_id cid (chg_now x)"
      "cor_ceiling_id r = cid" "cor_amount r = chg_amount x" "cor_timestamp r = chg_now x"
    using step(3) by blast
  show "cc_window_run cid c key xs m1"
    using assms(1) step(1) r(1,2) by (auto simp: cc_window_run_def image_iff dest!: bspec [of "set xs"])
  show "dget (ccm_spending_cache m1) key = Some (cc_seen (chg_now x) c (chg_amount x) m + chg_amount x)"
    by (simp add: step(2) key dget_dset)
  show "\<exists>r. cdb_records (ccm_db m1) = cdb_records (ccm_db m) @ [r] \<and> cor_ceiling_id r = cid \<and>
      cor_amount r = chg_amount x \<and> cor_timestamp r = chg_now x"
    using r by blast
  show "res = Inr b \<Longrightarrow> b \<longleftrightarrow> cc_seen (chg_now x) c (chg_amount x) m < ccl_limit_amount c"
    by (rule step(4))
qed

text \<open>Once a window is in the cache, each charge is compared with what came before it.\<close>

lemma cc_charges_cached:
  assumes "cc_window_run cid c key xs m" and "dget (ccm_spending_cache m) key = Some v"
    and "cc_charges pct cid xs m = (rs, m')"
  shows "cc_window_run cid c key [] m' \<and> dget (ccm_spending_cache m') key = Some (v + amounts xs) \<and>
    (\<exists>rows. cdb_records (ccm_db m') = cdb_records (ccm_db m) @ rows \<and> cc_rows_of cid xs rows) \<and>
    length rs = length xs \<and>
    (\<forall>i b. i < length xs \<longrightarrow> rs ! i = Inr b \<longrightarrow> b = (v + amounts (take i xs) < ccl_limit_amount c))"
  using assms
proof (induction xs arbitrary: m v rs)
  case Nil
  then show ?case by (simp add: cc_rows_of_def)
next
  case (Cons x xs)
  let ?run = "cc_record_cost pct (chg_now x) cid (chg_tenant x) (chg_service x) (chg_cost_type x) (chg_amount x)
    (chg_currency x) (chg_request x) (chg_operation x) (chg_metadata x) m"
  obtain res m1 where first: "?run = (res, m1)" by (cases ?run)
  obtain rs1 where rest: "cc_charges pct cid xs m1 = (rs1, m')" and rs: "rs = res # rs1"
    using Cons.prems(3) first by (auto split: prod.splits)
  have seen: "cc_seen (chg_now x) c (chg_amount x) m = v"
    using Cons.prems(1,2) by (simp add: cc_window_run_def cc_seen_def Let_def)
  note step = cc_window_run_step [OF Cons.prems(1) first, unfolded seen]
  note IH = Cons.IH [OF step(1,2) rest]
  obtain r where r: "cdb_records (ccm_db m1) = cdb_records (ccm_db m) @ [r]" "cor_ceiling_id r = cid"
      "cor_amount r = chg_amount x" "cor_timestamp r = chg_now x"
    using step(3) by blast
  obtain rows where rows: "cdb_records (ccm_db m') = cdb_records (ccm_db m1) @ rows" "cc_rows_of cid xs rows"
    using IH by blast
  have "cc_rows_of cid (x # xs) (r # rows)" using r rows(2) by (simp add: cc_rows_of_def)
  moreover have "cdb_records (ccm_db m') = cdb_records (ccm_db m) @ r # rows" using r(1) rows(1) by simp
  moreover have "b = (v + amounts (take i (x # xs)) < ccl_limit_amount c)"
    if "i < length (x # xs)" "rs ! i = Inr b" for i b
    using that IH step(4) by (cases i) (auto simp: rs ac_simps)
  ultimately show ?case using IH by (auto simp: rs ac_simps)
qed

text \<open>
  The first charge of a window counts twice. When the cache has no entry for the window, the
  query that fills it already sees the charge, which is then added again: after any charges the
  cached spending is the recorded one plus the first charge, and each charge is compared with the
  limit on that account.
\<close>

theorem cc_first_charge_counted_twice:
  assumes "cc_window_run cid c key (x # xs) m" and "dget (ccm_spending_cache m) key = None"
    and "ceiling_start_time (ccl_ceiling_type c) (chg_now x) \<le> chg_now x"
    and "spent = sql_spending cid (ceiling_start_time (ccl_ceiling_type c) (chg_now x)) (chg_now x) (cdb_records (ccm_db m))"
    and "cc_charges pct cid (x # xs) m = (rs, m')"
  shows "dget (ccm_spending_cache m') key = Some (spent + amounts (x # xs) + chg_amount x) \<and>
    (\<forall>i b. i < length (x # xs) \<longrightarrow> rs ! i = Inr b \<longrightarrow>
       b = (spent + chg_amount x + amounts (take i (x # xs)) < ccl_limit_amount c))"
proof -
  let ?run = "cc_record_cost pct (chg_now x) cid (chg_tenant x) (chg_service x) (chg_cost_type x) (chg_amount x)
    (chg_currency x) (chg_request x) (chg_operation x) (chg_metadata x) m"
  obtain res m1 where first: "?run = (res, m1)" by (cases ?run)
  obtain rs1 where rest: "cc_charges pct cid xs m1 = (rs1, m')" and rs: "rs = res # rs1"
    using assms(5) first by (auto split: prod.splits)
  have seen: "cc_seen (chg_now x) c (chg_amount x) m = spent + chg_amount x"
    using assms(1-4) by (simp add: cc_window_run_def cc_seen_def Let_def)
  note step = cc_window_run_step [OF assms(1) first, unfolded seen]
  note later = cc_charges_cached [OF step(1,2) rest]
  have "b = (spent + chg_amount x + amounts (take i (x # xs)) < ccl_limit_amount c)"
    if "i < length (x # xs)" "rs ! i = Inr b" for i b
    using that later step(4) by (cases i) (auto simp: rs ac_simps)
  with later show ?thesis by (simp add: ac_simps)
qed

section \<open>Keys and starts of windows\<close>

lemma length_zpad_month: "dt_valid t \<Longrightarrow> length (zpad 2 (dt_month t)) = 2"
  by (rule length_zpad2) (simp add: dt_valid_def)

lemma length_quarter: "length (nat_str ((dt_month t - 1) div 3 + 1)) = 1" if "dt_valid t"
proof -
  have "(dt_month t - 1) div 3 + 1 < 10" using that by (auto simp: dt_valid_def)
  then show ?thesis by (simp add: nat_str.simps)
qed

lemma window_key_start:
  assumes "dt_valid a" and "dt_valid b" and "ct \<noteq> Weekly"
  shows "window_key ct a = window_key ct b \<longleftrightarrow> ceiling_start_time ct a = ceiling_start_time ct b"
proof (cases ct)
  case Daily
  then show ?thesis using strftime_ymd_inject [OF assms(1,2)]
    by (simp add: window_key_def ceiling_start_time_def midnight_def)
next
  case Monthly
  then show ?thesis using length_zpad_month assms(1,2)
    by (simp add: window_key_def ceiling_start_time_def)
next
  case Quarterly
  have "nat_str y @ ''Q'' @ nat_str q = nat_str y' @ ''Q'' @ nat_str q' \<longleftrightarrow> y = y' \<and> q = q'"
    if "length (nat_str q) = 1" "length (nat_str q') = 1" for y q y' q'
    using that by auto
  from this [OF length_quarter [OF assms(1)] length_quarter [OF assms(2)]] Quarterly show ?thesis
    by (simp add: window_key_def ceiling_start_time_def)
qed (use assms in \<open>simp_all add: window_key_def ceiling_start_time_def\<close>)

lemma weekly_examples:
  "window_key Weekly (DT 2024 1 1 0 0 0 0) = ''2024W1''"
  "window_key Weekly (DT 2024 12 30 0 0 0 0) = ''2024W1''"
  "window_key Weekly (DT 2025 1 1 0 0 0 0) = ''2025W1''"
  "ceiling_start_time Weekly (DT 2024 1 1 0 0 0 0) = DT 2024 1 1 0 0 0 0"
  "ceiling_start_time Weekly (DT 2024 12 30 0 0 0 0) = DT 2024 12 30 0 0 0 0"
  "ceiling_start_time Weekly (DT 2025 1 1 0 0 0 0) = DT 2024 12 30 0 0 0 0"
  by code_simp+

text \<open>
  The key of the spending cache and the start of the window agree for every kind of ceiling
  but the weekly one: two times share a key exactly when they share the window. The weekly key
  combines the calendar year with the ISO week, so the last days of 2024 have the key of the
  first week of 2024, while the week that begins on 30 December 2024 has two keys.
\<close>

theorem cc_window_keys:
  "(dt_valid a \<and> dt_valid b \<and> ct \<noteq> Weekly \<longrightarrow>
      (cache_key cid ct a = cache_key cid ct b \<longleftrightarrow> ceiling_start_time ct a = ceiling_start_time ct b)) \<and>
   cache_key cid Weekly (DT 2024 1 1 0 0 0 0) = cache_key cid Weekly (DT 2024 12 30 0 0 0 0) \<and>
   ceiling_start_time Weekly (DT 2024 1 1 0 0 0 0) \<noteq> ceiling_start_time Weekly (DT 2024 12 30 0 0 0 0) \<and>
   cache_key cid Weekly (DT 2024 12 30 0 0 0 0) \<noteq> cache_key cid Weekly (DT 2025 1 1 0 0 0 0) \<and>
   ceiling_start_time Weekly (DT 2024 12 30 0 0 0 0) = ceiling_start_time Weekly (DT 2025 1 1 0 0 0 0)"
  using window_key_start [of a b ct] by (auto simp: cache_key_def weekly_examples simp del: One_nat_def)

theorem cc_window_keys_witness:
  "cache_key ''c'' Daily (DT 2024 5 6 7 8 9 0) \<noteq> cache_key ''c'' Daily (DT 2024 5 7 7 8 9 0)"
  using cc_window_keys [of "DT 2024 5 6 7 8 9 0" "DT 2024 5 7 7 8 9 0" Daily "''c''"]
  by (simp add: dt_valid_def days_in_month_def ceiling_start_time_def midnight_def)

section \<open>The cache refines the query\<close>

text \<open>
  The specification of the current spending is the query on the records. The cache is coherent
  at \<open>t\<close> when it holds the answer for the window of \<open>t\<close>, and no record is from after \<open>t\<close>.
\<close>

definition spending_spec :: "string \<Rightarrow> ceiling_type \<Rightarrow> datetime \<Rightarrow> ccm \<Rightarrow> rat" where
  "spending_spec cid ct now m = sql_spending cid (ceiling_start_time ct now) now (cdb_records (ccm_db m))"

definition cc_coherent :: "string \<Rightarrow> ceiling_type \<Rightarrow> datetime \<Rightarrow> ccm \<Rightarrow> bool" where
  "cc_coherent cid ct t m \<longleftrightarrow>
     dget (ccm_spending_cache m) (cache_key cid ct t) = Some (spending_spec cid ct t m) \<and>
     (\<forall>r \<in> set (cdb_records (ccm_db m)). cor_timestamp r \<le> t)"

lemma sql_spending_append: "sql_spending cid s e (xs @ ys) = sql_spending cid s e xs + sql_spending cid s e ys"
  by (simp add: sql_spending_def)

lemma sql_spending_rows:
  "cc_rows_of cid xs rows \<Longrightarrow> \<forall>x \<in> set xs. s \<le> chg_now x \<and> chg_now x \<le> e \<Longrightarrow> sql_spending cid s e rows = amounts xs"
  unfolding cc_rows_of_def by (induction rule: list_all2_induct) (simp_all add: sql_spending_def)

lemma sql_spending_later:
  "\<forall>r \<in> set rs. cor_timestamp r \<le> t \<Longrightarrow> t \<le> now \<Longrightarrow> sql_spending cid s now rs = sql_spending cid s t rs"
  unfolding sql_spending_def by (intro arg_cong [where f = "\<lambda>l. sum_list (map cor_amount l)"] filter_cong) auto

lemma cc_rows_of_times: "cc_rows_of cid xs rows \<Longrightarrow> \<forall>x \<in> set xs. chg_now x \<le> e \<Longrightarrow> \<forall>r \<in> set rows. cor_timestamp r \<le> e"
  unfolding cc_rows_of_def by (induction rule: list_all2_induct) simp_all

lemma cc_charges_coherent:
  assumes run: "cc_window_run cid c (cache_key cid ct t) xs m" and ct: "ct = ccl_ceiling_type c"
    and m: "cc_coherent cid ct t m" and times: "\<forall>x \<in> set xs. t \<le> chg_now x \<and> chg_now x \<le> now" "t \<le> now"
    and win: "cache_key cid ct now = cache_key cid ct t" "ceiling_start_time ct now = ceiling_start_time ct t"
      "ceiling_start_time ct t \<le> t"
    and charges: "cc_charges pct cid xs m = (rs, m')"
  shows "cc_coherent cid ct now m'"
proof -
  let ?s = "ceiling_start_time ct t"
  note after = cc_charges_cached [OF run _ charges, of "spending_spec cid ct t m"]
  obtain rows where rows: "cdb_records (ccm_db m') = cdb_records (ccm_db m) @ rows" "cc_rows_of cid xs rows"
    using after m by (auto simp: cc_coherent_def)
  have "sql_spending cid ?s now rows = amounts xs"
    using sql_spending_rows [OF rows(2)] times(1) win(3) by (meson order_trans)
  moreover have "sql_spending cid ?s now (cdb_records (ccm_db m)) = spending_spec cid ct t m"
    using sql_spending_later [of "cdb_records (ccm_db m)" t now cid ?s] m times(2)
    by (simp add: cc_coherent_def spending_spec_def)
  ultimately have "spending_spec cid ct now m' = spending_spec cid ct t m + amounts xs"
    by (simp add: spending_spec_def win(2) rows(1) sql_spending_append)
  moreover have "\<forall>r \<in> set (cdb_records (ccm_db m')). cor_timestamp r \<le> now"
    using m times cc_rows_of_times [OF rows(2), of now] by (auto simp: rows(1) cc_coherent_def)
  ultimately show ?thesis
    using after m by (simp add: cc_coherent_def win(1))
qed

text \<open>
  C34. The cached manager refines the query in a window that \<open>get_current_spending\<close> opened: the
  first call answers the query on the records, and after any charges in the same window so does
  the next call. Weekly ceilings are excepted.
\<close>

theorem cc_spending_refines_query:
  assumes "dget (ccm_spending_cache m) (cache_key cid ct t) = None"
    and "\<forall>r \<in> set (cdb_records (ccm_db m)). cor_timestamp r \<le> t"
    and "cc_window_run cid c (cache_key cid ct t) xs m" and "ct = ccl_ceiling_type c" and "ct \<noteq> Weekly"
    and "dt_valid t" and "dt_valid now" and "cache_key cid ct now = cache_key cid ct t"
    and "ceiling_start_time ct t \<le> t" and "t \<le> now" and "\<forall>x \<in> set xs. t \<le> chg_now x \<and> chg_now x \<le> now"
    and "cc_get_current_spending t cid None None m = (first, m1)"
    and "cc_charges pct cid xs m1 = (rs, m2)"
    and "cc_get_current_spending now cid None None m2 = (second, m3)"
  shows "first = Inr (spending_spec cid ct t m) \<and> second = Inr (spending_spec cid ct now m2) \<and>
    spending_spec cid ct now m2 = spending_spec cid ct t m + amounts xs"
proof -
  have known: "dget (ccm_ceiling_cache m) cid = Some c" using assms(3) by (simp add: cc_window_run_def)
  have m1: "first = Inr (spending_spec cid ct t m)"
    "m1 = m\<lparr>ccm_spending_cache := dset (cache_key cid ct t) (spending_spec cid ct t m) (ccm_spending_cache m)\<rparr>"
    using assms(12) cc_spending_cached [OF known, of t] assms(1,4) by (simp_all add: Let_def spending_spec_def)
  have run: "cc_window_run cid c (cache_key cid ct t) xs m1" using assms(3) by (simp add: cc_window_run_def m1)
  have "cc_coherent cid ct t m1"
    using assms(2) by (simp add: cc_coherent_def m1 dget_dset spending_spec_def)
  moreover have "ceiling_start_time ct now = ceiling_start_time ct t"
    using window_key_start [OF assms(7,6,5)] assms(8) by (simp add: cache_key_def)
  ultimately have m2: "cc_coherent cid ct now m2"
    using cc_charges_coherent [OF run assms(4) _ assms(11,10,8) _ assms(9,13)] by blast
  have c2: "dget (ccm_ceiling_cache m2) cid = Some c"
    and total: "dget (ccm_spending_cache m2) (cache_key cid ct t) = Some (spending_spec cid ct t m + amounts xs)"
    using cc_charges_cached [OF run _ assms(13), of "spending_spec cid ct t m"]
    by (simp_all add: cc_window_run_def m1 dget_dset)
  have "second = Inr (spending_spec cid ct now m2)"
    using assms(14) cc_spending_cached [OF c2, of now] m2 assms(4) by (auto simp: cc_coherent_def Let_def)
  then show ?thesis using m1 m2 total assms(8) by (simp add: cc_coherent_def)
qed

section \<open>Ceilings in the database\<close>

lemma alert_level_of_value [simp]: "alert_level_of (alert_level_value l) = Inr l"
  by (cases l) (simp_all add: alert_level_of_def enum_of_def)

lemma ceiling_type_of_value [simp]: "ceiling_type_of (ceiling_type_value ct) = Inr ct"
  by (cases ct) (simp_all add: ceiling_type_of_def enum_of_def)

lemma cost_type_of_value [simp]: "cost_type_of (cost_type_value kt) = Inr kt"
  by (cases kt) (simp_all add: cost_type_of_def enum_of_def)

lemma dset_new: "k \<notin> fst ` set d \<Longrightarrow> dset k v d = d @ [(k, v)]"
  by (induction d) auto

lemma add_thresholds_values:
  "distinct (map fst (d0 @ d)) \<Longrightarrow> add_thresholds (map (\<lambda>(l, q). (alert_level_value l, q)) d) d0 = Inr (d0 @ d)"
  by (induction d arbitrary: d0) (auto simp: dset_new)

lemma row_to_ceiling_to_row: "wf_dict (ccl_alert_thresholds c) \<Longrightarrow> row_to_cost_ceiling (ceiling_to_row c) = Inr c"
  using add_thresholds_values [of "[]" "ccl_alert_thresholds c"]
  by (simp add: row_to_cost_ceiling_def ceiling_to_row_def wf_dict_def)

lemma find_new: "\<forall>x \<in> set xs. \<not> P x \<Longrightarrow> P r \<Longrightarrow> find P (xs @ [r]) = Some r"
  by (induction xs) auto

text \<open>
  A ceiling survives the database: what one manager created is what any manager started later
  on the same database reads back, as is what the creating manager itself answers.
\<close>

theorem cc_ceiling_roundtrip:
  assumes "cc_create_cost_ceiling now nm descr ct kt limit_amount cur tenant service thresholds metadata m = (Inr c, m')"
    and "\<And>d. thresholds = Some d \<Longrightarrow> wf_dict d"
  shows "fst (cc_get_cost_ceiling (ccl_ceiling_id c) (ccm_init (ccm_db m'))) = Inr (Some c) \<and>
    fst (cc_get_cost_ceiling (ccl_ceiling_id c) m') = Inr (Some c) \<and>
    ccl_name c = nm \<and> ccl_ceiling_type c = ct \<and> ccl_cost_type c = kt \<and> ccl_limit_amount c = limit_amount"
proof -
  from assms(1) obtain m1 where store: "cc_store_cost_ceiling c m = (Inr (), m1)" and m': "m' = cc_cache_ceiling c m1"
    and c: "ccl_alert_thresholds c = (case thresholds of None \<Rightarrow> default_thresholds | Some d \<Rightarrow> if d = [] then default_thresholds else d)"
      "ccl_is_active c" "ccl_name c = nm" "ccl_ceiling_type c = ct" "ccl_cost_type c = kt" "ccl_limit_amount c = limit_amount"
    by (auto simp: cc_create_cost_ceiling_def Let_def db_bind_def split: prod.splits sum.splits)
  have wf: "wf_dict (ccl_alert_thresholds c)"
    using assms(2) by (auto simp: c(1) wf_dict_def default_thresholds_def split: option.split)
  let ?mine = "\<lambda>r. crw_ceiling_id r = ccl_ceiling_id c \<and> crw_is_active r"
  have "\<forall>r \<in> set (cdb_ceilings (ccm_db m)). \<not> ?mine r"
    and db: "cdb_ceilings (ccm_db m1) = cdb_ceilings (ccm_db m) @ [ceiling_to_row c]"
    using store by (auto simp: cc_store_cost_ceiling_def cc_insert_def ceiling_to_row_def image_iff split: if_splits)
  then have "find ?mine (cdb_ceilings (ccm_db m')) = Some (ceiling_to_row c)"
    using find_new [of "cdb_ceilings (ccm_db m)" ?mine "ceiling_to_row c"] c(2)
    by (simp add: m' cc_cache_ceiling_def ceiling_to_row_def)
  then show ?thesis
    using row_to_ceiling_to_row [OF wf] c by (simp add: cc_get_cost_ceiling_def ccm_init_def m' cc_cache_ceiling_def dget_dset)
qed

text \<open>
  A ceiling per request or per tenant has one window for all time: once its cached spending
  has reached the limit, no charge is ever admitted again, whenever it is made.
\<close>

theorem cc_per_request_never_reopens:
  assumes "ccl_ceiling_type c = PerRequest \<or> ccl_ceiling_type c = PerTenant"
    and "cc_window_run cid c (cache_key cid (ccl_ceiling_type c) t) xs m"
    and "dget (ccm_spending_cache m) (cache_key cid (ccl_ceiling_type c) t) = Some v" and "ccl_limit_amount c \<le> v"
    and "\<forall>x \<in> set xs. 0 \<le> chg_amount x"
    and "cc_charges pct cid xs m = (rs, m')"
  shows "Inr True \<notin> set rs"
proof
  assume "Inr True \<in> set rs"
  then obtain i where i: "i < length rs" "rs ! i = Inr True" by (auto simp: in_set_conv_nth)
  note later = cc_charges_cached [OF assms(2,3,6)]
  have "v + amounts (take i xs) < ccl_limit_amount c" using later i by auto
  moreover have "0 \<le> amounts (take i xs)"
    using assms(5) by (auto simp: amounts_def intro!: sum_list_nonneg dest!: in_set_takeD)
  ultimately show False using assms(4) by simp
qed

section \<open>Identifiers of one second\<close>

lemma cc_each_insert_twice:
  assumes ins: "\<And>r. ins r = cc_insert table put key r" and put: "\<And>rs db. table (put rs db) = rs"
    and "\<not> distinct (map key rs) \<or> (\<exists>r \<in> set rs. key r \<in> key ` set (table (ccm_db m)))"
  shows "\<exists>k. fst (db_each ins rs m) = Inl (integrity_error k)"
  using assms(3)
proof (induction rs arbitrary: m)
  case Nil
  then show ?case by simp
next
  case (Cons r rs)
  show ?case
  proof (cases "key r \<in> key ` set (table (ccm_db m))")
    case True
    then show ?thesis by (auto simp: ins cc_insert_def db_bind_def)
  next
    case False
    let ?m = "m\<lparr>ccm_db := put (table (ccm_db m) @ [r]) (ccm_db m)\<rparr>"
    have "ins r m = (Inr (), ?m)" using False by (simp add: ins cc_insert_def)
    moreover have "\<exists>k. fst (db_each ins rs ?m) = Inl (integrity_error k)"
      using Cons.prems False by (intro Cons.IH) (auto simp: put image_iff)
    ultimately show ?thesis by simp
  qed
qed

lemma high_spending_id:
  "ccl_limit_amount c * (1/10) < total_spending \<Longrightarrow>
     \<exists>r rest. group_recommendations fmt now c (s, k, total_spending, n) = r # rest \<and>
       cre_recommendation_id r = ''rec_'' @ ccl_ceiling_id c @ ''_high_spending_'' @ strftime_sec now"
  by (simp add: group_recommendations_def Let_def)

text \<open>
  Recommendations for two groups clash: their identifiers depend on the ceiling and the second
  only, and the table takes each identifier once, so as soon as two groups of records exceed a
  tenth of the limit the operation raises.
\<close>

theorem cc_two_recommendations_clash:
  assumes "dget (ccm_ceiling_cache m) cid = Some c"
    and "spending_groups cid (minus_days days now) now (cdb_records (ccm_db m)) =
      xs @ (s1, k1, q1, n1) # ys @ (s2, k2, q2, n2) # zs"
    and "ccl_limit_amount c * (1/10) < q1" and "ccl_limit_amount c * (1/10) < q2"
  shows "\<exists>k. fst (cc_generate_optimization_recommendations fmt now cid days m) = Inl (integrity_error k)"
proof -
  let ?recs = "concat (map (group_recommendations fmt now c)
    (spending_groups cid (minus_days days now) now (cdb_records (ccm_db m))))"
  have "\<not> distinct (map cre_recommendation_id ?recs)"
    using high_spending_id [OF assms(3), of fmt now s1 k1 n1] high_spending_id [OF assms(4), of fmt now s2 k2 n2]
    by (auto simp: assms(2))
  then obtain k where "fst (db_each cc_store_recommendation ?recs m) = Inl (integrity_error k)"
    using cc_each_insert_twice [of cc_store_recommendation cdb_recommendations
        "\<lambda>rs db. db\<lparr>cdb_recommendations := rs\<rparr>" cre_recommendation_id ?recs m]
    by (auto simp: fun_eq_iff cc_store_recommendation_def)
  then show ?thesis
    using cc_get_cached [OF assms(1)]
    by (auto simp: cc_generate_optimization_recommendations_def Let_def)
qed

text \<open>
  A second alert of one level in one second makes \<open>record_cost\<close> raise: with the spending over
  the first threshold and an alert of that level already made in this second, the cost is stored
  and counted, but the caller gets an integrity error instead of an answer.
\<close>

theorem cc_second_alert_raises:
  assumes "dget (ccm_ceiling_cache m) cid = Some c" and "ccl_ceiling_id c = cid"
    and "record_id cid now \<notin> cor_record_id ` set (cdb_records (ccm_db m))"
    and "dget (ccm_spending_cache m) (cache_key cid (ccl_ceiling_type c) now) = Some v"
    and "ccl_limit_amount c \<noteq> 0" and "ccl_alert_thresholds c = (level, threshold) # rest"
    and "threshold \<le> v / ccl_limit_amount c"
    and "alert_id cid level now \<in> coa_alert_id ` set (cdb_alerts (ccm_db m))"
    and "cc_record_cost pct now cid tenant service kt amount cur rq op md m = (res, m')"
  shows "res = Inl (integrity_error (alert_id cid level now)) \<and>
    (\<exists>r. cdb_records (ccm_db m') = cdb_records (ccm_db m) @ [r] \<and> cor_amount r = amount) \<and>
    dget (ccm_spending_cache m') (cache_key cid (ccl_ceiling_type c) now) = Some (v + amount)"
proof -
  note step = cc_record_cost_step [OF assms(1-3,9)]
  have seen: "cc_seen now c amount m = v" using assms(2,4) by (simp add: cc_seen_def Let_def)
  from step(5) [unfolded seen] obtain n where n: "cdb_alerts (ccm_db n) = cdb_alerts (ccm_db m)"
      "res = (case fst (cc_check_ceiling_violations pct now c v n) of Inl e \<Rightarrow> Inl e | Inr _ \<Rightarrow> Inr (v < ccl_limit_amount c))"
    by blast
  have "fst (cc_check_ceiling_violations pct now c v n) = Inl (integrity_error (alert_id cid level now))"
    using assms(2,5-8) n(1)
    by (simp add: cc_check_ceiling_violations_def decimal_div_def cc_trigger_cost_alert_def cc_insert_def db_bind_def)
  then show ?thesis using step(2,3) assms(4) by (auto simp: n(2) seen dget_dset)
qed

section \<open>Examples\<close>

definition cc_demo_ceiling :: "ceiling_type \<Rightarrow> cost_ceiling" where
  "cc_demo_ceiling ct =
     \<lparr>ccl_ceiling_id = ''c'', ccl_name = ''n'', ccl_description = ''d'', ccl_ceiling_type = ct,
      ccl_cost_type = ApiCalls, ccl_limit_amount = 100, ccl_currency = ''USD'', ccl_tenant_id = None,
      ccl_service = None, ccl_is_active = True, ccl_alert_thresholds = default_thresholds,
      ccl_created_at = DT 2024 5 6 8 0 0 0, ccl_updated_at = DT 2024 5 6 8 0 0 0, ccl_metadata = []\<rparr>"

definition cc_demo :: "ceiling_type \<Rightarrow> (string, rat) dict \<Rightarrow> cost_alert list \<Rightarrow> ccm" where
  "cc_demo ct spending als =
     \<lparr>ccm_db = \<lparr>cdb_ceilings = [], cdb_records = [], cdb_alerts = als, cdb_recommendations = []\<rparr>,
      ccm_ceiling_cache = [(''c'', cc_demo_ceiling ct)], ccm_spending_cache = spending\<rparr>"

definition cc_demo_charge :: "nat \<Rightarrow> rat \<Rightarrow> cost_charge" where
  "cc_demo_charge hour amount =
     \<lparr>chg_now = DT 2024 5 6 hour 0 0 0, chg_tenant = ''t'', chg_service = ''s'', chg_cost_type = ApiCalls,
      chg_amount = amount, chg_currency = ''USD'', chg_request = None, chg_operation = None, chg_metadata = None\<rparr>"

lemma cc_demo_ids:
  "record_id ''c'' (DT 2024 5 6 9 0 0 0) \<noteq> record_id ''c'' (DT 2024 5 6 10 0 0 0)"
  by code_simp

lemma cc_demo_keys:
  "cache_key ''c'' Daily (DT 2024 5 6 9 0 0 0) = ''c_20240506''"
  "cache_key ''c'' Daily (DT 2024 5 6 10 0 0 0) = ''c_20240506''"
  "cache_key ''c'' Daily (DT 2024 5 6 8 0 0 0) = ''c_20240506''"
  "cache_key ''c'' Daily (DT 2024 5 6 11 0 0 0) = ''c_20240506''"
  by code_simp+

lemma cc_demo_run:
  "cc_window_run ''c'' (cc_demo_ceiling Daily) ''c_20240506'' [cc_demo_charge 9 60, cc_demo_charge 10 20] (cc_demo Daily d als)"
  using cc_demo_ids cc_demo_keys
  by (simp add: cc_window_run_def cc_demo_def cc_demo_ceiling_def cc_demo_charge_def)

lemma cc_demo_start: "ceiling_start_time Daily (DT 2024 5 6 h mi s us) = DT 2024 5 6 0 0 0 0"
  by (simp add: ceiling_start_time_def midnight_def)

theorem cc_first_charge_counted_twice_witness:
  "dget (ccm_spending_cache (snd (cc_charges (\<lambda>_. '''') ''c'' [cc_demo_charge 9 60, cc_demo_charge 10 20]
     (cc_demo Daily [] [])))) ''c_20240506'' = Some 140"
proof -
  obtain rs m' where run: "cc_charges (\<lambda>_. '''') ''c'' [cc_demo_charge 9 60, cc_demo_charge 10 20] (cc_demo Daily [] []) = (rs, m')"
    by (rule prod.exhaust)
  from cc_first_charge_counted_twice [OF cc_demo_run _ _ refl run]
  have "dget (ccm_spending_cache m') ''c_20240506'' = Some 140"
    by (simp add: cc_demo_def cc_demo_ceiling_def cc_demo_charge_def cc_demo_start sql_spending_def less_eq_datetime_def)
  with run show ?thesis by simp
qed

theorem cc_spending_refines_query_witness:
  "\<exists>m1 m2. cc_get_current_spending (DT 2024 5 6 8 0 0 0) ''c'' None None (cc_demo Daily [] []) = (Inr 0, m1) \<and>
     snd (cc_charges (\<lambda>_. '''') ''c'' [cc_demo_charge 9 60, cc_demo_charge 10 20] m1) = m2 \<and>
     fst (cc_get_current_spending (DT 2024 5 6 11 0 0 0) ''c'' None None m2) = Inr 80"
proof -
  let ?t = "DT 2024 5 6 8 0 0 0" and ?now = "DT 2024 5 6 11 0 0 0"
  let ?xs = "[cc_demo_charge 9 60, cc_demo_charge 10 20]"
  obtain r1 m1 where get1: "cc_get_current_spending ?t ''c'' None None (cc_demo Daily [] []) = (r1, m1)" by (rule prod.exhaust)
  obtain rs m2 where run: "cc_charges (\<lambda>_. '''') ''c'' ?xs m1 = (rs, m2)" by (rule prod.exhaust)
  obtain r2 m3 where get2: "cc_get_current_spending ?now ''c'' None None m2 = (r2, m3)" by (rule prod.exhaust)
  have 1: "dget (ccm_spending_cache (cc_demo Daily [] [])) (cache_key ''c'' Daily ?t) = None"
    "\<forall>r \<in> set (cdb_records (ccm_db (cc_demo Daily [] []))). cor_timestamp r \<le> ?t"
    "cc_window_run ''c'' (cc_demo_ceiling Daily) (cache_key ''c'' Daily ?t) ?xs (cc_demo Daily [] [])"
    "Daily = ccl_ceiling_type (cc_demo_ceiling Daily)" "Daily \<noteq> Weekly"
    using cc_demo_run cc_demo_keys by (simp_all add: cc_demo_def cc_demo_ceiling_def)
  have 2: "dt_valid ?t" "dt_valid ?now" "cache_key ''c'' Daily ?now = cache_key ''c'' Daily ?t"
    "ceiling_start_time Daily ?t \<le> ?t" "?t \<le> ?now" "\<forall>x \<in> set ?xs. ?t \<le> chg_now x \<and> chg_now x \<le> ?now"
    using cc_demo_keys
    by (simp_all add: dt_valid_def days_in_month_def cc_demo_start cc_demo_charge_def less_eq_datetime_def)
  have "r1 = Inr 0 \<and> r2 = Inr 80"
    using cc_spending_refines_query [OF 1 2 get1 run get2]
    by (simp add: spending_spec_def cc_demo_def sql_spending_def cc_demo_charge_def)
  with get1 run get2 show ?thesis by simp
qed

theorem cc_ceiling_roundtrip_witness:
  "\<exists>c m'. cc_create_cost_ceiling (DT 2024 5 6 8 0 0 0) ''n'' ''d'' Daily ApiCalls 100 ''USD'' None None None None
       (cc_demo Daily [] []) = (Inr c, m') \<and>
     fst (cc_get_cost_ceiling (ccl_ceiling_id c) (ccm_init (ccm_db m'))) = Inr (Some c)"
proof -
  let ?run = "cc_create_cost_ceiling (DT 2024 5 6 8 0 0 0) ''n'' ''d'' Daily ApiCalls 100 ''USD'' None None None None
     (cc_demo Daily [] [])"
  obtain c m' where "?run = (Inr c, m')"
    by (simp add: cc_create_cost_ceiling_def cc_store_cost_ceiling_def cc_insert_def db_bind_def Let_def cc_demo_def)
  moreover from cc_ceiling_roundtrip [OF this]
  have "fst (cc_get_cost_ceiling (ccl_ceiling_id c) (ccm_init (ccm_db m'))) = Inr (Some c)" by simp
  ultimately show ?thesis by blast
qed

theorem cc_per_request_never_reopens_witness:
  "Inr True \<notin> set (fst (cc_charges (\<lambda>_. '''') ''c'' [cc_demo_charge 9 1] (cc_demo PerRequest [(''c_unlimited'', 100)] [])))"
proof -
  let ?xs = "[cc_demo_charge 9 1]" and ?m = "cc_demo PerRequest [(''c_unlimited'', 100)] []"
  obtain rs m' where run: "cc_charges (\<lambda>_. '''') ''c'' ?xs ?m = (rs, m')" by (rule prod.exhaust)
  have "Inr True \<notin> set rs"
    by (rule cc_per_request_never_reopens [OF _ _ _ _ _ run, where c = "cc_demo_ceiling PerRequest" and v = 100
          and t = "DT 2024 5 6 8 0 0 0"])
      (simp_all add: cc_window_run_def cc_demo_def cc_demo_ceiling_def cc_demo_charge_def cache_key_def window_key_def)
  with run show ?thesis by simp
qed

end
