(* ===== verification/RouterSchema.thy ===== *)
theory RouterSchema
  imports Json
begin

text \<open>
  \<^verbatim>\<open>libs/router/router_base.py\<close>, class \<open>SchemaValidator\<close>: the structure of a JSON schema, the
  validation of data against it, its strictness and its complexity. Schema and data are parsed
  JSON; every step may raise as Python does on objects of another class, and \<open>validate_schema\<close>
  turns what is raised into a validation error.
\<close>

section \<open>Nested schemas\<close>

lemma size_dget: "dget d k = Some v \<Longrightarrow> size v < Suc (size_list (size_prod (\<lambda>_. 0) size) d)"
  by (induction d) (auto split: if_splits)

datatype strictness = SsStrict | SsModerate | SsLoose | SsNone

fun strictness_value :: "strictness \<Rightarrow> string" where
  "strictness_value SsStrict = ''strict''"
| "strictness_value SsModerate = ''moderate''"
| "strictness_value SsLoose = ''loose''"
| "strictness_value SsNone = ''none''"

record schema_validation =
  sv_strictness :: strictness
  sv_validation_errors :: "string list"
  sv_schema_complexity :: rat
  sv_required_fields :: "string set"
  sv_optional_fields :: "string set"
  sv_nested_depth :: nat

text \<open>
  \<open>analyze_properties\<close>: the required and optional field names and the depth so far, of which the
  nested function keeps the maximum. Fields whose schema is no dict are skipped.
\<close>

type_synonym sch_structure = "string set \<times> string set \<times> nat"

function analyze_fields :: "nat \<Rightarrow> (string \<times> json) list \<Rightarrow> sch_structure \<Rightarrow> exn + sch_structure" where
  "analyze_fields depth [] acc = Inr acc"
| "analyze_fields depth ((name, fs) # rest) acc =
     ebind
       (case fs of
          JDict d \<Rightarrow>
            (let acc1 = (case acc of (req, opt, m) \<Rightarrow>
                   if py_truth (dget_or (JBool False) d ''required'') then (insert name req, opt, m)
                   else (req, insert name opt, m))
             in (case dget d ''properties'' of
                   None \<Rightarrow> Inr acc1
                 | Some p \<Rightarrow>
                     (case p of
                        JDict props \<Rightarrow>
                          analyze_fields (depth + 1) props
                            (case acc1 of (req, opt, m) \<Rightarrow> (req, opt, max m (depth + 1)))
                      | _ \<Rightarrow> Inl (attribute_error ''object has no attribute items''))))
        | _ \<Rightarrow> Inr acc)
       (analyze_fields depth rest)"
  by pat_completeness auto

termination
  by (relation "measure (\<lambda>(_, xs, _). size_list (size_prod (\<lambda>_. 0) size) xs)") (auto dest: size_dget)

definition analyze_schema_structure :: "json \<Rightarrow> exn + sch_structure" where
  "analyze_schema_structure schema =
     ebind (py_in ''properties'' schema) (\<lambda>has.
       if has then
         ebind (py_item schema ''properties'') (\<lambda>p.
         ebind (py_items p) (\<lambda>props. analyze_fields 0 props ({}, {}, 0)))
       else Inr ({}, {}, 0))"

section \<open>Validation\<close>

text \<open>\<open>bool\<close> is a subclass of \<open>int\<close>.\<close>

fun is_instance_of :: "json \<Rightarrow> string \<Rightarrow> bool" where
  "is_instance_of v t =
     (if t = ''string'' then (case v of JStr _ \<Rightarrow> True | _ \<Rightarrow> False)
      else if t = ''integer'' then (case v of JInt _ \<Rightarrow> True | JBool _ \<Rightarrow> True | _ \<Rightarrow> False)
      else if t = ''number'' then (case v of JInt _ \<Rightarrow> True | JFloat _ \<Rightarrow> True | JBool _ \<Rightarrow> True | _ \<Rightarrow> False)
      else if t = ''boolean'' then (case v of JBool _ \<Rightarrow> True | _ \<Rightarrow> False)
      else if t = ''array'' then (case v of JList _ \<Rightarrow> True | _ \<Rightarrow> False)
      else if t = ''object'' then (case v of JDict _ \<Rightarrow> True | _ \<Rightarrow> False)
      else True)"

declare is_instance_of.simps [simp del]

definition validate_type :: "json \<Rightarrow> json \<Rightarrow> exn + bool" where
  "validate_type v expected =
     ebind (py_hash expected) (\<lambda>_. Inr (case expected of JStr t \<Rightarrow> is_instance_of v t | _ \<Rightarrow> True))"

definition field_path :: "string \<Rightarrow> string \<Rightarrow> string" where
  "field_path path name = (if path = '''' then name else path @ ''.'' @ name)"

text \<open>The type test of a field that is present.\<close>

definition type_errors :: "(json \<Rightarrow> string) \<Rightarrow> string \<Rightarrow> json \<Rightarrow> json \<Rightarrow> exn + string list" where
  "type_errors show_json fpath v expected =
     (if py_truth expected then
        ebind (validate_type v expected) (\<lambda>ok.
          Inr (if ok then [] else [''Invalid type for '' @ fpath @ '': expected '' @ fstr show_json expected]))
      else Inr [])"

text \<open>The loop of \<open>_validate_data\<close> over the properties of a schema.\<close>

function validate_fields ::
  "(json \<Rightarrow> string) \<Rightarrow> (string \<times> json) list \<Rightarrow> json \<Rightarrow> string \<Rightarrow> exn + string list" where
  "validate_fields show_json [] data path = Inr []"
| "validate_fields show_json ((name, fs) # rest) data path =
     ebind
       (ebind (py_in name data) (\<lambda>present.
          if \<not> present then
            ebind (py_get fs ''required'' (JBool False)) (\<lambda>r.
              Inr (if py_truth r then [''Missing required field: '' @ field_path path name] else []))
          else
            (case fs of
               JDict d \<Rightarrow>
                 (let expected = dget_or JNull d ''type''
                  in ebind (py_item data name) (\<lambda>v.
                     ebind (type_errors show_json (field_path path name) v expected) (\<lambda>errs.
                       if expected = JStr ''object'' then
                         (case dget d ''properties'' of
                            None \<Rightarrow> Inr errs
                          | Some p \<Rightarrow>
                              (case p of
                                 JDict props \<Rightarrow>
                                   ebind (validate_fields show_json props v (field_path path name))
                                     (\<lambda>nested. Inr (errs @ nested))
                               | _ \<Rightarrow> Inl (attribute_error ''object has no attribute items'')))
                       else Inr errs)))
             | _ \<Rightarrow> Inl (attribute_error ''object has no attribute get''))))
       (\<lambda>errs. ebind (validate_fields show_json rest data path) (\<lambda>later. Inr (errs @ later)))"
  by pat_completeness auto

termination
  by (relation "measure (\<lambda>(_, xs, _, _). size_list (size_prod (\<lambda>_. 0) size) xs)") (auto dest: size_dget)

definition validate_data :: "(json \<Rightarrow> string) \<Rightarrow> json \<Rightarrow> json \<Rightarrow> string \<Rightarrow> exn + string list" where
  "validate_data show_json schema data path =
     ebind (py_in ''properties'' schema) (\<lambda>has.
       if has then
         ebind (py_item schema ''properties'') (\<lambda>p.
         ebind (py_items p) (\<lambda>props. validate_fields show_json props data path))
       else Inr [])"

section \<open>Strictness and complexity\<close>

text \<open>How many properties say they are required.\<close>

definition count_required :: "(string \<times> json) list \<Rightarrow> exn + nat" where
  "count_required props =
     ebind (emap (\<lambda>(_, p). py_get p ''required'' (JBool False)) props) (\<lambda>rs. Inr (length (filter py_truth rs)))"

definition determine_strictness :: "json \<Rightarrow> string list \<Rightarrow> exn + strictness" where
  "determine_strictness schema errors =
     (if \<not> py_truth schema then Inr SsNone
      else ebind (py_in ''properties'' schema) (\<lambda>has.
        if \<not> has then Inr SsNone
        else ebind (py_item schema ''properties'') (\<lambda>p.
          ebind (py_items p) (\<lambda>props.
          ebind (count_required props) (\<lambda>required_count.
            let ratio = of_nat required_count / of_nat (max (length props) 1) :: rat
            in Inr (if 8/10 < ratio \<and> errors = [] then SsStrict
                    else if 5/10 < ratio then SsModerate
                    else if 2/10 < ratio then SsLoose
                    else SsNone))))))"

text \<open>The depth of the nesting, here with another traversal; what is no dict of properties raises.\<close>

function max_nested_depth :: "nat \<Rightarrow> (string \<times> json) list \<Rightarrow> nat \<Rightarrow> exn + nat" where
  "max_nested_depth current [] m = Inr m"
| "max_nested_depth current ((name, fs) # rest) m =
     ebind
       (case fs of
          JDict d \<Rightarrow>
            (case dget d ''properties'' of
               None \<Rightarrow> Inr m
             | Some p \<Rightarrow>
                 (case p of
                    JDict props \<Rightarrow>
                      ebind (max_nested_depth (current + 1) props (current + 1)) (\<lambda>n. Inr (max m n))
                  | _ \<Rightarrow> Inl (attribute_error ''object has no attribute values'')))
        | _ \<Rightarrow> Inr m)
       (max_nested_depth current rest)"
  by pat_completeness auto

termination
  by (relation "measure (\<lambda>(_, xs, _). size_list (size_prod (\<lambda>_. 0) size) xs)") (auto dest: size_dget)

definition calculate_schema_complexity :: "json \<Rightarrow> exn + rat" where
  "calculate_schema_complexity schema =
     (if \<not> py_truth schema then Inr 0
      else ebind (py_in ''properties'' schema) (\<lambda>has.
        if \<not> has then Inr 0
        else ebind (py_item schema ''properties'') (\<lambda>p.
          ebind (py_items p) (\<lambda>props.
          ebind (max_nested_depth 0 props 0) (\<lambda>depth.
          ebind (count_required props) (\<lambda>required_count.
            if props = [] then Inl zero_division
            else
              ebind (emap (\<lambda>(_, p). ebind (py_get p ''type'' (JStr ''unknown''))
                (\<lambda>t. ebind (py_hash t) (\<lambda>_. Inr t))) props) (\<lambda>types.
                Inr ((min (of_nat (length props) / 20) 1 + min (of_nat depth / 5) 1 +
                      of_nat required_count / of_nat (length props) +
                      of_nat (length (remdups types)) / of_nat (length props)) / 4))))))))"

text \<open>
  The assignments of \<open>validate_schema\<close> that were made before something raises stay; the errors
  found so far stay too, and the exception becomes one more.
\<close>

definition failed_validation :: "exn \<Rightarrow> string list \<Rightarrow> sch_structure \<Rightarrow> schema_validation" where
  "failed_validation e errors s =
     (case s of (req, opt, depth) \<Rightarrow>
       \<lparr>sv_strictness = SsNone, sv_validation_errors = errors @ [''Schema analysis error: '' @ message e],
        sv_schema_complexity = 0, sv_required_fields = req, sv_optional_fields = opt, sv_nested_depth = depth\<rparr>)"

definition validate_schema :: "(json \<Rightarrow> string) \<Rightarrow> json \<Rightarrow> json \<Rightarrow> schema_validation" where
  "validate_schema show_json schema data =
     (case analyze_schema_structure schema of
        Inl e \<Rightarrow> failed_validation e [] ({}, {}, 0)
      | Inr s \<Rightarrow>
          (case validate_data show_json schema data '''' of
             Inl e \<Rightarrow> failed_validation e [] s
           | Inr errors \<Rightarrow>
               (case determine_strictness schema errors of
                  Inl e \<Rightarrow> failed_validation e errors s
                | Inr st \<Rightarrow>
                    (case calculate_schema_complexity schema of
                       Inl e \<Rightarrow> failed_validation e errors s
                     | Inr q \<Rightarrow>
                         (case s of (req, opt, depth) \<Rightarrow>
                           \<lparr>sv_strictness = st, sv_validation_errors = errors, sv_schema_complexity = q,
                            sv_required_fields = req, sv_optional_fields = opt, sv_nested_depth = depth\<rparr>)))))"

section \<open>Two traversals, one depth\<close>

lemma ebind_cases: "ebind x f = (case x of Inl e \<Rightarrow> Inl e | Inr v \<Rightarrow> f v)"
  by (simp add: ebind_def)

lemma ebind_Inl: "ebind x f = Inl e \<longleftrightarrow> x = Inl e \<or> (\<exists>v. x = Inr v \<and> f v = Inl e)"
  by (cases x) auto

lemma max_nested_depth_max:
  "max_nested_depth c xs (max k m) = ebind (max_nested_depth c xs m) (\<lambda>n. Inr (max k n))"
proof (induction c xs m arbitrary: k rule: max_nested_depth.induct)
  case (1 c m)
  then show ?case by simp
next
  case (2 c name fs rest m)
  then show ?case
    by (auto simp: ebind_cases max.assoc split: json.splits option.splits sum.splits)
qed

text \<open>Both fail, or both return the same depth.\<close>

definition same_depth :: "exn + sch_structure \<Rightarrow> exn + nat \<Rightarrow> bool" where
  "same_depth r n \<longleftrightarrow> (case r of Inl _ \<Rightarrow> (\<exists>e. n = Inl e) | Inr s \<Rightarrow> n = Inr (snd (snd s)))"

lemma same_depth_simps [simp]:
  "same_depth (Inl e) (Inl e')" "same_depth (Inr s) (Inr n) \<longleftrightarrow> n = snd (snd s)"
  by (auto simp: same_depth_def)

lemma same_depth_bind:
  "same_depth r n \<Longrightarrow> (\<And>s. r = Inr s \<Longrightarrow> same_depth (f s) (g (snd (snd s)))) \<Longrightarrow> same_depth (ebind r f) (ebind n g)"
  by (cases r; cases n) (auto simp: same_depth_def)

lemma analyze_depth: "same_depth (analyze_fields depth xs acc) (max_nested_depth depth xs (snd (snd acc)))"
proof (induction depth xs acc rule: analyze_fields.induct)
  case (1 depth acc)
  then show ?case by simp
next
  case (2 depth name fs rest acc)
  note IH = 2
  obtain req opt m where acc: "acc = (req, opt, m)" by (rule prod_cases3)
  show ?case
    unfolding analyze_fields.simps max_nested_depth.simps
  proof (rule same_depth_bind, goal_cases)
    case 1
    show ?case
    proof (cases fs)
      case (JDict d)
      show ?thesis
      proof (cases "dget d ''properties''")
        case (Some p)
        then show ?thesis
          using IH(1) [OF JDict refl Some] max_nested_depth_max [of "depth + 1" _ m "depth + 1"]
          by (cases p) (simp_all add: JDict Let_def acc split: if_splits)
      qed (simp add: JDict Let_def acc)
    qed (simp_all add: acc)
  next
    case (2 s)
    show ?case by (rule IH(2))
  qed
qed

text \<open>
  \<open>_analyze_schema_structure\<close> and \<open>_get_max_nested_depth\<close> compute the same nesting depth
  and fail on the same schemas, although one threads a maximum through the traversal and the
  other combines the maxima of subtrees.
\<close>

theorem sv_depths_agree:
  "case analyze_fields 0 props ({}, {}, 0) of
     Inl _ \<Rightarrow> \<exists>e. max_nested_depth 0 props 0 = Inl e
   | Inr (_, _, depth) \<Rightarrow> max_nested_depth 0 props 0 = Inr depth"
  using analyze_depth [of 0 props "({}, {}, 0)"] by (simp add: same_depth_def split: sum.splits prod.splits)

section \<open>Conformance\<close>

text \<open>
  What it means for data to conform to the properties of a schema, and the schemas on which the
  validator raises nothing: all properties are dicts, types are strings, nested properties are
  dicts again.
\<close>

function conforms :: "(string \<times> json) list \<Rightarrow> (string, json) dict \<Rightarrow> bool" where
  "conforms [] data \<longleftrightarrow> True"
| "conforms ((name, fs) # rest) data \<longleftrightarrow>
     (case fs of
        JDict d \<Rightarrow>
          (case dget data name of
             None \<Rightarrow> \<not> py_truth (dget_or (JBool False) d ''required'')
           | Some v \<Rightarrow>
               (case dget d ''type'' of
                  Some (JStr t) \<Rightarrow>
                    (t = '''' \<or> is_instance_of v t) \<and>
                    (case (dget d ''properties'', v) of
                       (Some (JDict props), JDict sub) \<Rightarrow> t = ''object'' \<longrightarrow> conforms props sub
                     | _ \<Rightarrow> True)
                | _ \<Rightarrow> True))
      | _ \<Rightarrow> False) \<and>
     conforms rest data"
  by pat_completeness auto

termination
  by (relation "measure (\<lambda>(xs, _). size_list (size_prod (\<lambda>_. 0) size) xs)") (auto dest: size_dget size_dget [OF sym])

function plain_schema :: "(string \<times> json) list \<Rightarrow> bool" where
  "plain_schema [] \<longleftrightarrow> True"
| "plain_schema ((name, fs) # rest) \<longleftrightarrow>
     (case fs of
        JDict d \<Rightarrow>
          (case dget d ''type'' of None \<Rightarrow> True | Some (JStr _) \<Rightarrow> True | _ \<Rightarrow> False) \<and>
          (case dget d ''properties'' of None \<Rightarrow> True | Some (JDict props) \<Rightarrow> plain_schema props | _ \<Rightarrow> False)
      | _ \<Rightarrow> False) \<and>
     plain_schema rest"
  by pat_completeness auto

termination
  by (relation "measure (size_list (size_prod (\<lambda>_. 0) size))") (auto dest: size_dget size_dget [OF sym])

lemma type_errors_str:
  "type_errors show_json p v (JStr t) =
     Inr (if t = '''' \<or> is_instance_of v t then [] else [''Invalid type for '' @ p @ '': expected '' @ t])"
  by (simp add: type_errors_def validate_type_def py_hash_def)

lemma is_object: "is_instance_of v ''object'' \<longleftrightarrow> (\<exists>sub. v = JDict sub)"
  by (simp add: is_instance_of.simps split: json.split)

lemma ebind_nil: "ebind r (\<lambda>xs. ebind q (\<lambda>ys. Inr (xs @ ys))) = Inr [] \<longleftrightarrow> r = Inr [] \<and> q = Inr []"
  by (cases r; cases q) auto

lemma validate_fields_nil:
  assumes "plain_schema props"
  shows "validate_fields show_json props (JDict data) path = Inr [] \<longleftrightarrow> conforms props data"
  using assms
proof (induction props data arbitrary: path rule: conforms.induct)
  case (1 data)
  then show ?case by simp
next
  case (2 name fs rest data)
  note IH = 2
  obtain d where fs: "fs = JDict d" and rest: "plain_schema rest"
    using 2(3) by (auto split: json.splits)
  note later = IH(2) [OF rest]
  show ?case
    unfolding validate_fields.simps(2) conforms.simps(2) ebind_nil later
  proof (rule conj_cong [OF _ refl], goal_cases)
    case 1
    show ?case
    proof (cases "dget data name")
      case (Some v)
      note v = Some
      show ?thesis
      proof (cases "dget d ''type''")
        case None
        then show ?thesis using v by (simp add: fs dget_or_def type_errors_def)
      next
        case (Some ty)
        then obtain t where ty: "dget d ''type'' = Some (JStr t)"
          using 2(3) by (auto simp: fs split: json.splits)
        show ?thesis
        proof (cases "t = ''object'' \<and> dget d ''properties'' \<noteq> None")
          case True
          then obtain p where t: "t = ''object''" and p: "dget d ''properties'' = Some (JDict p)" and plain: "plain_schema p"
            using 2(3) by (auto simp: fs split: json.splits)
          show ?thesis
          proof (cases v)
            case (JDict sub)
            have "validate_fields show_json p (JDict sub) (field_path path name) = Inr [] \<longleftrightarrow> conforms p sub"
              using IH(1) [OF fs v ty refl _ p] JDict plain t by simp
            then show ?thesis
              using v ty p JDict by (auto simp: fs dget_or_def t type_errors_str is_object ebind_Inr)
          qed (use v ty p in \<open>auto simp: fs dget_or_def t type_errors_str is_object ebind_Inr\<close>)
        next
          case False
          then show ?thesis using v ty
            by (auto simp: fs dget_or_def type_errors_str split: option.split json.split)
        qed
      qed
    qed (simp add: fs)
  qed
qed

lemma plain_schema_mem:
  "plain_schema props \<Longrightarrow> (name, fs) \<in> set props \<Longrightarrow>
     \<exists>d. fs = JDict d \<and> (dget d ''type'' = None \<or> (\<exists>t. dget d ''type'' = Some (JStr t)))"
  by (induction props rule: plain_schema.induct) (auto split: json.splits option.splits)

lemma plain_analyze: "plain_schema props \<Longrightarrow> \<exists>s. analyze_fields depth props acc = Inr s"
proof (induction depth props acc rule: analyze_fields.induct)
  case (1 depth acc)
  show ?case by (rule exI [of _ acc]) (rule analyze_fields.simps)
next
  case (2 depth name fs rest acc)
  note IH = 2
  obtain d where fs: "fs = JDict d" and rest: "plain_schema rest"
    and sub: "\<And>p. dget d ''properties'' = Some p \<Longrightarrow> \<exists>props. p = JDict props \<and> plain_schema props"
    using 2(3) by (auto split: json.splits option.splits)
  show ?case
  proof (cases "dget d ''properties''")
    case None
    then show ?thesis using IH(2) [OF rest] by (simp add: fs Let_def)
  next
    case (Some p)
    then obtain props where p: "p = JDict props" "plain_schema props" using sub by blast
    have "\<exists>s. analyze_fields (depth + 1) props
        (case (case acc of (req, opt, m) \<Rightarrow>
                   if py_truth (dget_or (JBool False) d ''required'') then (insert name req, opt, m)
                   else (req, insert name opt, m)) of (req, opt, m) \<Rightarrow> (req, opt, max m (depth + 1))) = Inr s"
      by (rule IH(1) [OF fs refl Some p(1) p(2)])
    then show ?thesis using IH(2) [OF rest] by (auto simp: fs Let_def Some p(1))
  qed
qed

lemma plain_count:
  assumes "plain_schema props"
  shows "\<exists>n. count_required props = Inr n"
proof -
  have "\<exists>rs. emap (\<lambda>(_, p). py_get p ''required'' (JBool False)) props = Inr rs"
    by (rule emap_total) (use plain_schema_mem [OF assms] in force)
  then show ?thesis by (auto simp: count_required_def)
qed


definition sv_demo_props :: "(string \<times> json) list" where
  "sv_demo_props =
     [(''id'', JDict [(''type'', JStr ''integer''), (''required'', JBool True)]),
      (''user'', JDict [(''type'', JStr ''object''), (''properties'', JDict [(''name'', JDict [(''required'', JBool True)])])])]"


end
