(* ===== verification/Router.thy ===== *)
theory Router
  imports RouterSchema
begin

text \<open>
  \<^verbatim>\<open>libs/router/router_base.py\<close> without its schema validator: token counting, novelty detection,
  historical tracking and the metrics of the router. Texts are ASCII; the tokenizer and the
  rendering of floats are parameters. Redis is the lists and hashes the code keeps in it, with
  the commands it uses; \<open>up\<close> says whether it answers. The fields of a hash are texts: here the
  numbers they render, so that what Python does with such a text is explicit.
\<close>

section \<open>Texts\<close>

text \<open>\<open>text.split()\<close>, and \<open>text.count(pat)\<close> for a nonempty pattern.\<close>

fun words_from :: "string \<Rightarrow> string \<Rightarrow> string list" where
  "words_from cur [] = (if cur = [] then [] else [rev cur])"
| "words_from cur (c # s) =
     (if is_space c then (if cur = [] then words_from [] s else rev cur # words_from [] s)
      else words_from (c # cur) s)"

definition split_words :: "string \<Rightarrow> string list" where
  "split_words = words_from []"

function count_sub :: "string \<Rightarrow> string \<Rightarrow> nat" where
  "count_sub pat [] = 0"
| "count_sub pat (c # s) =
     (if starts_with pat (c # s) then 1 + count_sub pat (drop (length pat - 1) s) else count_sub pat s)"
  by pat_completeness auto

termination
  by (relation "measure (\<lambda>(_, s). length s)") auto

text \<open>\<open>len(text.split(sep))\<close>.\<close>

definition count_parts :: "string \<Rightarrow> string \<Rightarrow> nat" where
  "count_parts sep s = count_sub sep s + 1"

definition contains_any :: "string list \<Rightarrow> string \<Rightarrow> bool" where
  "contains_any ws s \<longleftrightarrow> list_ex (\<lambda>w. str_contains w s) ws"

definition is_alnum :: "char \<Rightarrow> bool" where
  "is_alnum c \<longleftrightarrow> (let n = of_char c :: nat in 48 \<le> n \<and> n \<le> 57 \<or> 65 \<le> n \<and> n \<le> 90 \<or> 97 \<le> n \<and> n \<le> 122)"

section \<open>Token counting\<close>

record model_requirements =
  mrq_model :: string
  mrq_reason :: string

record token_analysis =
  tka_total_tokens :: nat
  tka_prompt_tokens :: nat
  tka_completion_tokens :: nat
  tka_token_distribution :: "(string, nat) dict"
  tka_complexity_score :: rat
  tka_estimated_cost :: rat
  tka_model_requirements :: model_requirements

type_synonym token_cache = "(string, nat) dict"

definition count_tokens :: "(string \<Rightarrow> nat) \<Rightarrow> string \<Rightarrow> token_cache \<Rightarrow> nat \<times> token_cache" where
  "count_tokens encode_length txt cache =
     (case dget cache txt of
        Some n \<Rightarrow> (n, cache)
      | None \<Rightarrow> (encode_length txt, dset txt (encode_length txt) cache))"

definition token_distribution :: "string \<Rightarrow> (string, nat) dict" where
  "token_distribution prompt =
     [(''words'', length (split_words prompt)), (''sentences'', count_parts ''.'' prompt),
      (''paragraphs'', count_parts [CHR 0x0A, CHR 0x0A] prompt), (''code_blocks'', count_sub [CHR 0x60, CHR 0x60, CHR 0x60] prompt),
      (''urls'', count_sub ''http'' prompt), (''mentions'', count_sub ''@'' prompt), (''hashtags'', count_sub ''#'' prompt)]"

definition calculate_complexity :: "string \<Rightarrow> (string, nat) dict \<Rightarrow> rat" where
  "calculate_complexity txt parts =
     (min (of_nat (length txt) / 1000) 1 + min (of_nat (dget_or 0 parts ''words'') / 100) 1 +
      min (of_nat (dget_or 0 parts ''paragraphs'') / 10) 1 + min (of_nat (dget_or 0 parts ''code_blocks'') / 5) 1 +
      of_nat (min (count_sub ''$'' txt + count_sub ''*'' txt + count_sub ''_'' txt) 10) / 10) / 5"

definition estimate_cost :: "nat \<Rightarrow> nat \<Rightarrow> rat" where
  "estimate_cost prompt_tokens completion_tokens =
     of_nat prompt_tokens / 1000 * (3/100) + of_nat completion_tokens / 1000 * (6/100)"

definition determine_model_requirements :: "nat \<Rightarrow> rat \<Rightarrow> model_requirements" where
  "determine_model_requirements total_tokens complexity =
     (if 32000 < total_tokens \<or> 8/10 < complexity then \<lparr>mrq_model = ''gpt-4-32k'', mrq_reason = ''high_token_complexity''\<rparr>
      else if 8000 < total_tokens \<or> 6/10 < complexity then \<lparr>mrq_model = ''gpt-4'', mrq_reason = ''medium_token_complexity''\<rparr>
      else if 4000 < total_tokens \<or> 4/10 < complexity then \<lparr>mrq_model = ''gpt-3.5-turbo-16k'', mrq_reason = ''standard_complexity''\<rparr>
      else \<lparr>mrq_model = ''gpt-3.5-turbo'', mrq_reason = ''simple_request''\<rparr>)"

definition analyze_tokens :: "(string \<Rightarrow> nat) \<Rightarrow> string \<Rightarrow> string \<Rightarrow> token_cache \<Rightarrow> token_analysis \<times> token_cache" where
  "analyze_tokens encode_length prompt completion cache =
     (case count_tokens encode_length prompt cache of (p, cache1) \<Rightarrow>
      case count_tokens encode_length completion cache1 of (c, cache2) \<Rightarrow>
        let parts = token_distribution prompt; complexity = calculate_complexity prompt parts
        in (\<lparr>tka_total_tokens = p + c, tka_prompt_tokens = p, tka_completion_tokens = c,
             tka_token_distribution = parts, tka_complexity_score = complexity,
             tka_estimated_cost = estimate_cost p c,
             tka_model_requirements = determine_model_requirements (p + c) complexity\<rparr>, cache2))"

section \<open>Novelty\<close>

text \<open>What the router reads of a request; its message, or else its prompt, is the text.\<close>

record request =
  rq_message :: "string option"
  rq_prompt :: "string option"
  rq_schema :: "json option"
  rq_data :: "json option"

definition text_of :: "string option \<Rightarrow> string" where
  "text_of s = (case s of None \<Rightarrow> '''' | Some t \<Rightarrow> t)"

definition request_text :: "request \<Rightarrow> string" where
  "request_text req =
     (if text_of (rq_message req) \<noteq> '''' then text_of (rq_message req) else text_of (rq_prompt req))"

text \<open>\<open>accented\<close> are the letters of the string the code looks for.\<close>

definition detect_language :: "char list \<Rightarrow> string \<Rightarrow> string" where
  "detect_language accented txt =
     (if list_ex (\<lambda>c. c \<in> set txt) accented then ''vietnamese''
      else if contains_any [''the'', ''and'', ''is'', ''in'', ''to'', ''of'', ''a'', ''that'', ''it''] (ascii_lower txt) then ''english''
      else ''unknown'')"

definition text_complexity :: "string \<Rightarrow> rat" where
  "text_complexity txt =
     (if txt = '''' then 0
      else (min (of_nat (length txt) / 1000) 1 +
            of_nat (length (remdups (split_words (ascii_lower txt)))) / of_nat (max (length (split_words txt)) 1) +
            of_nat (count_sub ''.'' txt + count_sub ''!'' txt + count_sub ''?'' txt) +
            of_nat (length (filter (\<lambda>c. \<not> is_alnum c \<and> c \<notin> set '' .,!?'') txt))) / 4)"

definition topic_keywords :: "(string \<times> string list) list" where
  "topic_keywords =
     [(''technical'', [''code'', ''programming'', ''algorithm'', ''database'', ''api'']),
      (''business'', [''revenue'', ''profit'', ''customer'', ''market'', ''strategy'']),
      (''creative'', [''design'', ''art'', ''creative'', ''story'', ''imagine'']),
      (''analytical'', [''analyze'', ''data'', ''statistics'', ''trend'', ''report''])]"

definition extract_topics :: "string \<Rightarrow> string list" where
  "extract_topics txt = map fst (filter (\<lambda>(_, ks). contains_any ks (ascii_lower txt)) topic_keywords)"

type_synonym features = "(string, json) dict"

definition extract_features :: "char list \<Rightarrow> request \<Rightarrow> features" where
  "extract_features accented req =
     (let txt = request_text req
      in [(''length'', JInt (int (length txt))), (''word_count'', JInt (int (length (split_words txt)))),
          (''sentence_count'', JInt (int (count_parts ''.'' txt))),
          (''has_code'', JBool (contains_any [[CHR 0x60, CHR 0x60, CHR 0x60], ''def '', ''class ''] txt)),
          (''has_urls'', JBool (str_contains ''http'' txt)), (''has_mentions'', JBool (str_contains ''@'' txt)),
          (''has_hashtags'', JBool (str_contains ''#'' txt)), (''language'', JStr (detect_language accented txt)),
          (''complexity'', JFloat (text_complexity txt)), (''topics'', JList (map JStr (extract_topics txt)))])"

text \<open>A number, as \<open>isinstance(v, (int, float))\<close> has it: \<open>bool\<close> is a subclass of \<open>int\<close>.\<close>

fun py_number :: "json \<Rightarrow> rat option" where
  "py_number (JBool b) = Some (if b then 1 else 0)"
| "py_number (JInt i) = Some (of_int i)"
| "py_number (JFloat q) = Some q"
| "py_number _ = None"

definition numeric_similarity :: "rat \<Rightarrow> rat \<Rightarrow> rat" where
  "numeric_similarity a b = max 0 (1 - \<bar>a - b\<bar> / max (max \<bar>a\<bar> \<bar>b\<bar>) 1)"

definition jaccard :: "json list \<Rightarrow> json list \<Rightarrow> rat" where
  "jaccard xs ys =
     (if xs = [] \<and> ys = [] then 1
      else of_nat (card (set xs \<inter> set ys)) / of_nat (card (set xs \<union> set ys)))"

text \<open>The similarity of two values, when they are compared at all.\<close>

definition value_similarity :: "json \<Rightarrow> json \<Rightarrow> rat option" where
  "value_similarity v w =
     (case (py_number v, py_number w) of
        (Some a, Some b) \<Rightarrow> Some (numeric_similarity a b)
      | _ \<Rightarrow> (case (v, w) of (JList xs, JList ys) \<Rightarrow> Some (jaccard xs ys) | _ \<Rightarrow> None))"

definition similarities :: "features \<Rightarrow> features \<Rightarrow> rat list" where
  "similarities f g =
     List.map_filter (\<lambda>(k, v). case dget g k of None \<Rightarrow> None | Some w \<Rightarrow> value_similarity v w) f"

definition mean :: "rat list \<Rightarrow> rat" where
  "mean qs = (if qs = [] then 0 else sum_list qs / of_nat (length qs))"

definition feature_similarity :: "features \<Rightarrow> features \<Rightarrow> rat" where
  "feature_similarity f g = mean (similarities f g)"

definition novelty_score :: "features \<Rightarrow> features list \<Rightarrow> rat" where
  "novelty_score f hist =
     (if hist = [] then 1 else 1 - Max (set (map (feature_similarity f) hist)))"

definition similarity_to_history :: "features \<Rightarrow> features list \<Rightarrow> rat" where
  "similarity_to_history f hist = mean (map (feature_similarity f) hist)"

definition pattern_topics :: "features \<Rightarrow> string \<Rightarrow> json list" where
  "pattern_topics p k = (case dget p k of Some (JList xs) \<Rightarrow> xs | _ \<Rightarrow> [])"

definition unique_patterns :: "features \<Rightarrow> features list \<Rightarrow> string list" where
  "unique_patterns f hist =
     concat (map (\<lambda>(k, v).
       (case v of
          JBool True \<Rightarrow>
            (if of_nat (length (filter (\<lambda>p. py_truth (dget_or (JBool False) p k)) hist)) < (of_nat (length hist) * (1/10) :: rat)
             then [''rare_'' @ k] else [])
        | JList xs \<Rightarrow>
            concat (map (\<lambda>x.
              if of_nat (length (filter (\<lambda>p. x \<in> set (pattern_topics p k)) hist)) < (of_nat (length hist) * (2/10) :: rat)
              then [''unique_'' @ k @ ''_'' @ fstr (\<lambda>_. '''') x] else []) xs)
        | _ \<Rightarrow> [])) f)"

definition pattern_complexity :: "features \<Rightarrow> rat" where
  "pattern_complexity p = (case py_number (dget_or (JFloat 0) p ''complexity'') of None \<Rightarrow> 0 | Some q \<Rightarrow> q)"

definition complexity_novelty :: "features \<Rightarrow> features list \<Rightarrow> rat" where
  "complexity_novelty f hist =
     (if hist = [] then 1
      else min (\<bar>pattern_complexity f - mean (map pattern_complexity hist)\<bar> * 2) 1)"

section \<open>Redis\<close>

record router_redis =
  rr_history :: "(string, features list) dict"
  rr_requests :: "(string, (string, string) dict) dict"
  rr_metrics :: "(string, (string, rat) dict) dict"

definition rr_init :: router_redis where
  "rr_init = \<lparr>rr_history = [], rr_requests = [], rr_metrics = []\<rparr>"

definition history_window :: nat where
  "history_window = 1000"

definition history_key :: "string \<Rightarrow> string" where
  "history_key tenant = ''novelty_history:'' @ tenant"

text \<open>LRANGE, then LPUSH and LTRIM.\<close>

definition get_historical_patterns :: "bool \<Rightarrow> string \<Rightarrow> router_redis \<Rightarrow> features list" where
  "get_historical_patterns up tenant r =
     (if up then take history_window (dget_or [] (rr_history r) (history_key tenant)) else [])"

definition store_request_pattern :: "bool \<Rightarrow> features \<Rightarrow> string \<Rightarrow> router_redis \<Rightarrow> router_redis" where
  "store_request_pattern up f tenant r =
     (if up then r\<lparr>rr_history := dset (history_key tenant)
                     (take history_window (f # dget_or [] (rr_history r) (history_key tenant))) (rr_history r)\<rparr>
      else r)"

text \<open>Calling a coroutine function without \<open>await\<close> gives the coroutine, not its result.\<close>

datatype 'a coroutine = Coroutine 'a

definition context_familiarity :: "request \<Rightarrow> string \<Rightarrow> rat coroutine" where
  "context_familiarity req tenant = Coroutine (7/10)"

record novelty_analysis =
  nva_novelty_score :: rat
  nva_similarity_to_history :: rat
  nva_unique_patterns :: "string list"
  nva_context_familiarity :: "rat coroutine"
  nva_complexity_novelty :: rat

definition analyze_novelty ::
  "bool \<Rightarrow> char list \<Rightarrow> request \<Rightarrow> string \<Rightarrow> router_redis \<Rightarrow> novelty_analysis \<times> router_redis" where
  "analyze_novelty up accented req tenant r =
     (let f = extract_features accented req; hist = get_historical_patterns up tenant r
      in (\<lparr>nva_novelty_score = novelty_score f hist, nva_similarity_to_history = similarity_to_history f hist,
           nva_unique_patterns = unique_patterns f hist, nva_context_familiarity = context_familiarity req tenant,
           nva_complexity_novelty = complexity_novelty f hist\<rparr>,
          store_request_pattern up f tenant r))"

section \<open>Historical metrics\<close>

definition connection_error :: exn where
  "connection_error = Exn [''ConnectionError'', ''RedisError'', ''Exception''] ''''"

definition metrics_key :: "string \<Rightarrow> string \<Rightarrow> string" where
  "metrics_key tenant tier = ''metrics:'' @ tenant @ '':'' @ tier"

text \<open>
  One round of \<open>_update_aggregated_metrics\<close>. The commands of the pipeline take effect when it is
  executed; the two HGET in between are answered at once, with a text, and dividing a text raises.
\<close>

definition update_metrics_key :: "string \<Rightarrow> bool \<Rightarrow> rat \<Rightarrow> rat \<Rightarrow> router_redis \<Rightarrow> (exn + unit) \<times> router_redis" where
  "update_metrics_key key success response_time cost r =
     (let fields = dget_or [] (rr_metrics r) key;
          total_requests = dget_or 0 fields ''total_requests'' + 1
      in case dget fields ''total_response_time'' of
           Some _ \<Rightarrow> (Inl (type_error ''unsupported operand type(s) for /''), r)
         | None \<Rightarrow>
             (let f1 = dset ''total_requests'' (dget_or 0 fields ''total_requests'' + 1) fields;
                  f2 = (if success then dset ''successful_requests'' (dget_or 0 f1 ''successful_requests'' + 1) f1 else f1);
                  f3 = dset ''total_response_time'' response_time f2;
                  f4 = dset ''total_cost'' (dget_or 0 f3 ''total_cost'' + cost) f3;
                  f5 = dset ''avg_response_time'' (0 / total_requests) f4
              in (Inr (), r\<lparr>rr_metrics := dset key f5 (rr_metrics r)\<rparr>)))"

fun update_metrics_keys :: "string list \<Rightarrow> bool \<Rightarrow> rat \<Rightarrow> rat \<Rightarrow> router_redis \<Rightarrow> (exn + unit) \<times> router_redis" where
  "update_metrics_keys [] success response_time cost r = (Inr (), r)"
| "update_metrics_keys (key # keys) success response_time cost r =
     (case update_metrics_key key success response_time cost r of
        (Inl e, r1) \<Rightarrow> (Inl e, r1)
      | (Inr _, r1) \<Rightarrow> update_metrics_keys keys success response_time cost r1)"

definition update_aggregated_metrics ::
  "string \<Rightarrow> string \<Rightarrow> bool \<Rightarrow> rat \<Rightarrow> rat \<Rightarrow> router_redis \<Rightarrow> (exn + unit) \<times> router_redis" where
  "update_aggregated_metrics tenant tier = update_metrics_keys [metrics_key tenant tier, metrics_key tenant ''all'']"

definition track_request ::
  "bool \<Rightarrow> (rat \<Rightarrow> string) \<Rightarrow> nat \<Rightarrow> string \<Rightarrow> string \<Rightarrow> string \<Rightarrow> bool \<Rightarrow> rat \<Rightarrow> rat \<Rightarrow> router_redis \<Rightarrow>
   (exn + unit) \<times> router_redis" where
  "track_request up show_float now tenant user tier success response_time cost r =
     (if \<not> up then (Inl connection_error, r)
      else update_aggregated_metrics tenant tier success response_time cost
        (r\<lparr>rr_requests := dset (''requests:'' @ tenant @ '':'' @ nat_str now @ '':'' @ user)
             [(''tier'', tier), (''success'', if success then ''True'' else ''False''),
              (''response_time'', show_float response_time), (''cost'', show_float cost),
              (''timestamp'', nat_str now)] (rr_requests r)\<rparr>))"

record historical_metrics =
  hm_total_requests :: int
  hm_successful_requests :: int
  hm_failed_requests :: int
  hm_failure_rate :: rat
  hm_average_response_time :: rat
  hm_p95_response_time :: rat
  hm_cost_efficiency :: rat
  hm_accuracy_score :: rat

text \<open>
  \<open>decode\<close>: whether the client decodes replies. If not, the keys of the reply are bytes, and no
  lookup of a text finds them.
\<close>

definition get_historical_metrics :: "bool \<Rightarrow> bool \<Rightarrow> string \<Rightarrow> string option \<Rightarrow> router_redis \<Rightarrow> historical_metrics" where
  "get_historical_metrics up decode tenant tier r =
     (if \<not> up then
        \<lparr>hm_total_requests = 0, hm_successful_requests = 0, hm_failed_requests = 0, hm_failure_rate = 0,
         hm_average_response_time = 0, hm_p95_response_time = 0, hm_cost_efficiency = 0, hm_accuracy_score = 0\<rparr>
      else
        (let key = metrics_key tenant (if text_of tier \<noteq> '''' then text_of tier else ''all'');
             fields = (if decode then dget_or [] (rr_metrics r) key else []);
             field = dget_or 0 fields;
             n = \<lfloor>field ''total_requests''\<rfloor>; sc = \<lfloor>field ''successful_requests''\<rfloor>
         in \<lparr>hm_total_requests = n, hm_successful_requests = sc, hm_failed_requests = n - sc,
             hm_failure_rate = of_int (n - sc) / of_int (max n 1),
             hm_average_response_time = field ''avg_response_time'', hm_p95_response_time = field ''p95_response_time'',
             hm_cost_efficiency = of_int sc / max (field ''total_cost'') (1/100),
             hm_accuracy_score = of_int sc / of_int (max n 1)\<rparr>))"

section \<open>The router\<close>

datatype domain_flag =
  DfTechnical | DfCreative | DfAnalytical | DfConversational | DfCodeGeneration | DfDataAnalysis
  | DfContentCreation | DfTranslation | DfSummarization

definition domain_keywords :: "(domain_flag \<times> string list) list" where
  "domain_keywords =
     [(DfTechnical, [''code'', ''programming'', ''algorithm'', ''database'', ''api'']),
      (DfCreative, [''design'', ''art'', ''creative'', ''story'', ''imagine'']),
      (DfAnalytical, [''analyze'', ''data'', ''statistics'', ''trend'', ''report'']),
      (DfConversational, [''hello'', ''how are you'', ''thank you'', ''please'']),
      (DfCodeGeneration, [''write code'', ''implement'', ''function'', ''class'']),
      (DfDataAnalysis, [''data analysis'', ''visualization'', ''chart'', ''graph'']),
      (DfContentCreation, [''write'', ''article'', ''blog'', ''content'']),
      (DfTranslation, [''translate'', ''translation'', ''language'']),
      (DfSummarization, [''summarize'', ''summary'', ''brief''])]"

definition detect_domain_flags :: "request \<Rightarrow> domain_flag list" where
  "detect_domain_flags req =
     map fst (filter (\<lambda>(_, ks). contains_any ks (ascii_lower (request_text req))) domain_keywords)"

record request_analysis =
  ran_token_count :: "token_analysis option"
  ran_json_schema_strictness :: "schema_validation option"
  ran_domain_flags :: "domain_flag list"
  ran_novelty :: novelty_analysis
  ran_historical_failure_rate :: rat

definition analyze_request ::
  "bool \<Rightarrow> bool \<Rightarrow> (json \<Rightarrow> string) \<Rightarrow> (string \<Rightarrow> nat) \<Rightarrow> char list \<Rightarrow> request \<Rightarrow> string \<Rightarrow>
   token_cache \<times> router_redis \<Rightarrow> request_analysis \<times> token_cache \<times> router_redis" where
  "analyze_request up decode show_json encode_length accented req tenant st =
     (case st of (cache, r) \<Rightarrow>
        let txt = request_text req;
            (tokens, cache1) =
              (if txt = '''' then (None, cache)
               else (case analyze_tokens encode_length txt '''' cache of (a, c) \<Rightarrow> (Some a, c)));
            schema =
              (case rq_schema req of
                 None \<Rightarrow> None
               | Some s \<Rightarrow>
                   if py_truth s
                   then Some (validate_schema show_json s (case rq_data req of None \<Rightarrow> JDict [] | Some d \<Rightarrow> d))
                   else None);
            (novelty, r1) = analyze_novelty up accented req tenant r
        in (\<lparr>ran_token_count = tokens, ran_json_schema_strictness = schema,
             ran_domain_flags = detect_domain_flags req, ran_novelty = novelty,
             ran_historical_failure_rate = hm_failure_rate (get_historical_metrics up decode tenant None r1)\<rparr>,
            cache1, r1))"

record router_metrics =
  rme_router_decision_latency_ms :: rat
  rme_router_misroute_rate :: rat
  rme_expected_vs_actual :: "(string, (string, nat) dict) dict"
  rme_tier_distribution :: "(string, nat) dict"
  rme_confidence_distribution :: "(string, nat) dict"

definition rme_init :: router_metrics where
  "rme_init =
     \<lparr>rme_router_decision_latency_ms = 0, rme_router_misroute_rate = 0, rme_expected_vs_actual = [],
      rme_tier_distribution = [], rme_confidence_distribution = []\<rparr>"

definition incr :: "string \<Rightarrow> (string, nat) dict \<Rightarrow> (string, nat) dict" where
  "incr k d = dset k (dget_or 0 d k + 1) d"

text \<open>\<open>int\<close> of a float rounds towards 0.\<close>

definition trunc :: "rat \<Rightarrow> int" where
  "trunc q = (if 0 \<le> q then \<lfloor>q\<rfloor> else \<lceil>q\<rceil>)"

definition update_metrics :: "rat \<Rightarrow> string \<Rightarrow> rat \<Rightarrow> string option \<Rightarrow> router_metrics \<Rightarrow> router_metrics" where
  "update_metrics decision_time tier confidence expected m =
     (let m1 = m\<lparr>rme_router_decision_latency_ms := decision_time * 1000,
                 rme_tier_distribution := incr tier (rme_tier_distribution m),
                 rme_confidence_distribution :=
                   incr (int_str (trunc (confidence * 10) * 10) @ ''%'') (rme_confidence_distribution m)\<rparr>;
          e = text_of expected
      in if e = '''' then m1
         else
           (let row = incr tier (dget_or [] (rme_expected_vs_actual m1) e);
                m2 = m1\<lparr>rme_expected_vs_actual := dset e row (rme_expected_vs_actual m1)\<rparr>
            in if e = tier then m2
               else m2\<lparr>rme_router_misroute_rate :=
                 1 - of_nat (dget_or 0 row e) / of_nat (max (sum_list (map snd row)) 1)\<rparr>))"

section \<open>Similarity\<close>

lemma numeric_similarity_bounds: "0 \<le> numeric_similarity a b" "numeric_similarity a b \<le> 1"
  by (simp_all add: numeric_similarity_def)

lemma numeric_similarity_1: "numeric_similarity a b = 1 \<longleftrightarrow> a = b"
proof -
  define m where "m = max (max \<bar>a\<bar> \<bar>b\<bar>) 1"
  have m: "0 < m" by (simp add: m_def)
  then have "0 \<le> \<bar>a - b\<bar> / m" "\<bar>a - b\<bar> / m = 0 \<longleftrightarrow> a = b" by simp_all
  then show ?thesis unfolding numeric_similarity_def m_def [symmetric] by (auto simp: max_def)
qed

lemma share_bounds:
  assumes "a \<le> b"
  shows "0 \<le> (of_nat a / of_nat b :: rat)" and "(of_nat a / of_nat b :: rat) \<le> 1"
  using assms by simp (cases "b = 0", use assms in \<open>auto simp: divide_le_eq_1\<close>)

lemma jaccard_bounds: "0 \<le> jaccard xs ys" "jaccard xs ys \<le> 1"
proof -
  have "card (set xs \<inter> set ys) \<le> card (set xs \<union> set ys)" by (intro card_mono) auto
  from share_bounds [OF this] show "0 \<le> jaccard xs ys" "jaccard xs ys \<le> 1"
    unfolding jaccard_def by (simp_all only: split: if_split) simp_all
qed

lemma jaccard_1: "jaccard xs ys = 1 \<longleftrightarrow> set xs = set ys"
proof
  assume "jaccard xs ys = 1"
  then consider "xs = []" "ys = []" | "card (set xs \<inter> set ys) = card (set xs \<union> set ys)"
    by (auto simp: jaccard_def split: if_splits)
  then show "set xs = set ys"
  proof cases
    case 2
    then have "set xs \<inter> set ys = set xs \<union> set ys" by (intro card_subset_eq) auto
    then show ?thesis by auto
  qed simp
next
  assume "set xs = set ys"
  then show "jaccard xs ys = 1" by (cases "xs = []") (auto simp: jaccard_def)
qed

text \<open>What the similarity cannot tell apart: equal numbers, lists with the same elements, other values.\<close>

definition alike :: "json \<Rightarrow> json \<Rightarrow> bool" where
  "alike v w \<longleftrightarrow>
     (case (py_number v, py_number w) of
        (Some a, Some b) \<Rightarrow> a = b
      | _ \<Rightarrow> (case (v, w) of (JList xs, JList ys) \<Rightarrow> set xs = set ys | _ \<Rightarrow> True))"

lemma value_similarity_bounds: "value_similarity v w = Some q \<Longrightarrow> 0 \<le> q \<and> q \<le> 1 \<and> (q = 1 \<longleftrightarrow> alike v w)"
  by (auto simp: value_similarity_def alike_def numeric_similarity_bounds numeric_similarity_1 jaccard_bounds jaccard_1
      split: option.splits json.splits)

lemma alike_simps [simp]:
  "alike (JInt i) (JInt j) \<longleftrightarrow> i = j" "alike (JBool b) (JBool c) \<longleftrightarrow> b = c" "alike (JFloat p) (JFloat q) \<longleftrightarrow> p = q"
  "alike (JStr x) (JStr y)" "alike (JList xs) (JList ys) \<longleftrightarrow> set xs = set ys"
  by (auto simp: alike_def)

lemma value_similarity_None: "value_similarity v w = None \<Longrightarrow> alike v w"
  by (auto simp: value_similarity_def alike_def split: option.splits json.splits)

lemma similarities_mem:
  "q \<in> set (similarities f g) \<longleftrightarrow> (\<exists>k v w. (k, v) \<in> set f \<and> dget g k = Some w \<and> value_similarity v w = Some q)"
  by (force simp: similarities_def List.map_filter_def split: option.splits)

lemma mean_bounds: "\<forall>q \<in> set qs. 0 \<le> q \<and> q \<le> 1 \<Longrightarrow> 0 \<le> mean qs \<and> mean qs \<le> 1"
proof -
  assume qs: "\<forall>q \<in> set qs. 0 \<le> q \<and> q \<le> 1"
  have "0 \<le> sum_list qs \<and> sum_list qs \<le> of_nat (length qs)" using qs by (induction qs) auto
  then show ?thesis by (cases "qs = []") (auto simp: mean_def divide_le_eq_1)
qed

lemma mean_1: "\<forall>q \<in> set qs. q \<le> 1 \<Longrightarrow> mean qs = 1 \<longleftrightarrow> qs \<noteq> [] \<and> (\<forall>q \<in> set qs. q = 1)"
proof -
  assume qs: "\<forall>q \<in> set qs. q \<le> 1"
  have "sum_list qs \<le> of_nat (length qs) \<and> (sum_list qs = of_nat (length qs) \<longleftrightarrow> (\<forall>q \<in> set qs. q = 1))"
    using qs by (induction qs) auto
  then show ?thesis by (auto simp: mean_def)
qed

lemma feature_similarity_bounds: "0 \<le> feature_similarity f g \<and> feature_similarity f g \<le> 1"
  unfolding feature_similarity_def
  by (rule mean_bounds) (auto simp: similarities_mem dest: value_similarity_bounds)

lemma feature_similarity_1:
  assumes "similarities f g \<noteq> []"
  shows "feature_similarity f g = 1 \<longleftrightarrow> (\<forall>k v w. (k, v) \<in> set f \<longrightarrow> dget g k = Some w \<longrightarrow> alike v w)"
proof -
  have "\<forall>q \<in> set (similarities f g). q \<le> 1"
    by (auto simp: similarities_mem dest: value_similarity_bounds)
  from mean_1 [OF this] have "feature_similarity f g = 1 \<longleftrightarrow> (\<forall>q \<in> set (similarities f g). q = 1)"
    using assms by (simp add: feature_similarity_def)
  also have "\<dots> \<longleftrightarrow> (\<forall>k v w. (k, v) \<in> set f \<longrightarrow> dget g k = Some w \<longrightarrow> alike v w)"
    by (metis similarities_mem value_similarity_bounds value_similarity_None not_None_eq)
  finally show ?thesis .
qed

text \<open>The comparison of all features as a computation.\<close>

lemma alike_list:
  "(\<forall>k v w. (k, v) \<in> set f \<longrightarrow> dget g k = Some w \<longrightarrow> alike v w) \<longleftrightarrow>
   list_all (\<lambda>(k, v). case dget g k of None \<Rightarrow> True | Some w \<Rightarrow> alike v w) f"
  by (auto simp: list_all_iff split: option.split)

section \<open>Novelty of a request\<close>

text \<open>Two requests look alike when all features but the language agree, topics up to order.\<close>

definition look_alike :: "request \<Rightarrow> request \<Rightarrow> bool" where
  "look_alike a b \<longleftrightarrow>
     (let s = request_text a; t = request_text b
      in length s = length t \<and> length (split_words s) = length (split_words t) \<and>
         count_parts ''.'' s = count_parts ''.'' t \<and>
         contains_any [[CHR 0x60, CHR 0x60, CHR 0x60], ''def '', ''class ''] s =
           contains_any [[CHR 0x60, CHR 0x60, CHR 0x60], ''def '', ''class ''] t \<and>
         str_contains ''http'' s = str_contains ''http'' t \<and> str_contains ''@'' s = str_contains ''@'' t \<and>
         str_contains ''#'' s = str_contains ''#'' t \<and> text_complexity s = text_complexity t \<and>
         set (extract_topics s) = set (extract_topics t))"

lemma features_alike:
  "feature_similarity (extract_features acc a) (extract_features acc b) = 1 \<longleftrightarrow> look_alike a b"
proof -
  have "similarities (extract_features acc a) (extract_features acc b) \<noteq> []"
    by (simp add: similarities_def extract_features_def Let_def List.map_filter_simps value_similarity_def)
  note feature_similarity_1 [OF this]
  moreover have "(\<forall>k v w. (k, v) \<in> set (extract_features acc a) \<longrightarrow> dget (extract_features acc b) k = Some w \<longrightarrow> alike v w) \<longleftrightarrow>
      look_alike a b"
  proof -
    have "inj JStr" by (rule injI) simp
    then have "JStr ` set xs = JStr ` set ys \<longleftrightarrow> set xs = set ys" for xs ys by (simp add: inj_image_eq_iff)
    then show ?thesis
      unfolding alike_list extract_features_def look_alike_def Let_def by simp
  qed
  ultimately show ?thesis by simp
qed

text \<open>Requests of several tenants, analysed one after the other.\<close>

fun novelty_run :: "char list \<Rightarrow> (string \<times> request) list \<Rightarrow> router_redis \<Rightarrow> router_redis" where
  "novelty_run acc [] r = r"
| "novelty_run acc ((tenant, req) # rest) r = novelty_run acc rest (snd (analyze_novelty True acc req tenant r))"

definition requests_of :: "string \<Rightarrow> (string \<times> request) list \<Rightarrow> request list" where
  "requests_of tenant past = map snd (filter (\<lambda>(t, _). t = tenant) past)"

lemma take_Cons_take: "take n (x # take n xs) = take n (x # xs)"
  by (cases n) simp_all

lemma novelty_run_history:
  assumes "dget_or [] (rr_history r) (history_key tenant) = take history_window hs"
  shows "dget_or [] (rr_history (novelty_run acc past r)) (history_key tenant) =
    take history_window (rev (map (extract_features acc) (requests_of tenant past)) @ hs)"
  using assms
proof (induction past arbitrary: r hs)
  case Nil
  then show ?case by (simp add: requests_of_def)
next
  case (Cons x past)
  obtain t req where x: "x = (t, req)" by (cases x)
  let ?r = "snd (analyze_novelty True acc req t r)"
  have "dget_or [] (rr_history ?r) (history_key tenant) =
      take history_window (if t = tenant then extract_features acc req # hs else hs)"
    using Cons.prems by (auto simp: analyze_novelty_def store_request_pattern_def Let_def dget_or_def dget_dset
        history_key_def take_Cons_take)
  from Cons.IH [OF this] show ?case by (simp add: x requests_of_def del: take_append)
qed

lemma novelty_score_bounds: "0 \<le> novelty_score f hist \<and> novelty_score f hist \<le> 1 \<and>
  (novelty_score f hist = 0 \<longleftrightarrow> (\<exists>g \<in> set hist. feature_similarity f g = 1))"
proof (cases "hist = []")
  case True
  then show ?thesis by (simp add: novelty_score_def)
next
  case False
  let ?S = "feature_similarity f ` set hist"
  have S: "finite ?S" "?S \<noteq> {}" "\<forall>q \<in> ?S. 0 \<le> q \<and> q \<le> 1"
    using False feature_similarity_bounds by auto
  obtain M where M: "M = Max ?S" by blast
  have "M \<in> ?S" unfolding M using S by (intro Max_in)
  moreover have "1 \<in> ?S \<Longrightarrow> M = 1" unfolding M using S by (intro Max_eqI) auto
  moreover have "novelty_score f hist = 1 - M" using False by (simp add: novelty_score_def M)
  ultimately show ?thesis using S(3) by (auto simp: image_iff)
qed

text \<open>
  Novelty: after any requests of any tenants, the novelty of a request is between 0 and 1, and
  it is 0 exactly when one of the last thousand requests of the same tenant looks alike, that is,
  agrees with it in all features but the language.
\<close>

theorem rt_novelty_zero_iff:
  "let score = nva_novelty_score (fst (analyze_novelty True acc req tenant (novelty_run acc past rr_init)))
   in 0 \<le> score \<and> score \<le> 1 \<and>
      (score = 0 \<longleftrightarrow> (\<exists>a \<in> set (take 1000 (rev (requests_of tenant past))). look_alike req a))"
proof -
  have "get_historical_patterns True tenant (novelty_run acc past rr_init) =
      map (extract_features acc) (take 1000 (rev (requests_of tenant past)))"
    using novelty_run_history [of rr_init tenant "[]" acc past]
    by (simp add: get_historical_patterns_def rr_init_def dget_or_def history_window_def take_map rev_map)
  then show ?thesis
    using novelty_score_bounds [of "extract_features acc req"
        "map (extract_features acc) (take 1000 (rev (requests_of tenant past)))"]
    by (simp add: analyze_novelty_def Let_def features_alike)
qed

section \<open>The aggregated metrics\<close>

datatype tracking =
    Track string string string bool rat rat nat
  | Expire string

fun tracking_step :: "(rat \<Rightarrow> string) \<Rightarrow> tracking \<Rightarrow> router_redis \<Rightarrow> router_redis" where
  "tracking_step show_float (Track tenant user tier success response_time cost now) r =
     snd (track_request True show_float now tenant user tier success response_time cost r)"
| "tracking_step show_float (Expire key) r = r\<lparr>rr_metrics := ddel key (rr_metrics r)\<rparr>"

text \<open>Every hash of the metrics is that of a single request.\<close>

definition counted_once :: "(string, rat) dict \<Rightarrow> bool" where
  "counted_once d \<longleftrightarrow>
     dget d ''total_requests'' = Some 1 \<and> dget d ''total_response_time'' \<noteq> None \<and>
     dget_or 0 d ''successful_requests'' \<in> {0, 1}"

lemma update_metrics_key_once:
  assumes "dall counted_once (rr_metrics r)" and "update_metrics_key key success rt cost r = (res, r')"
  shows "dall counted_once (rr_metrics r')"
    and "res = (if dget (rr_metrics r) key = None then Inr () else Inl (type_error ''unsupported operand type(s) for /''))"
    and "dget (rr_metrics r') k = None \<longleftrightarrow> dget (rr_metrics r) k = None \<and> k \<noteq> key"
proof -
  have "dget (dget_or [] (rr_metrics r) key) ''total_response_time'' = None \<longleftrightarrow> dget (rr_metrics r) key = None"
    using dall_dget [OF assms(1), of key] by (auto simp: dget_or_def counted_once_def split: option.split)
  then show "dall counted_once (rr_metrics r')"
    "res = (if dget (rr_metrics r) key = None then Inr () else Inl (type_error ''unsupported operand type(s) for /''))"
    "dget (rr_metrics r') k = None \<longleftrightarrow> dget (rr_metrics r) k = None \<and> k \<noteq> key"
    using assms
    by (auto simp: update_metrics_key_def Let_def dget_or_def dget_dset counted_once_def split: option.splits if_splits)
qed

lemma update_metrics_keys_once:
  "dall counted_once (rr_metrics r) \<Longrightarrow> dall counted_once (rr_metrics (snd (update_metrics_keys keys success rt cost r)))"
  by (induction keys arbitrary: r) (auto split: prod.split sum.split dest: update_metrics_key_once(1))

lemma tracking_once: "dall counted_once (rr_metrics r) \<Longrightarrow> dall counted_once (rr_metrics (tracking_step show_float e r))"
  by (cases e) (simp_all add: track_request_def update_aggregated_metrics_def update_metrics_keys_once del: update_metrics_keys.simps)

text \<open>
  The aggregated metrics stop at the first request: however requests are tracked, one after the
  other, and metrics expire, no tenant or tier ever has more than one request in its metrics, so
  its failure rate is 0 or 1; and tracking a request raises as soon as the metrics of its tier or
  of its tenant exist.
\<close>

theorem rt_metrics_stop_at_one:
  assumes "r = fold (tracking_step show_float) events rr_init"
  shows "hm_total_requests (get_historical_metrics True decode tenant tier r) \<in> {0, 1} \<and>
    hm_failure_rate (get_historical_metrics True decode tenant tier r) \<in> {0, 1} \<and>
    fst (track_request True show_float now tenant user tier1 success response_time cost r) =
      (if tier1 \<noteq> ''all'' \<and> dget (rr_metrics r) (metrics_key tenant tier1) = None \<and>
          dget (rr_metrics r) (metrics_key tenant ''all'') = None
       then Inr () else Inl (type_error ''unsupported operand type(s) for /''))"
proof -
  have "dall counted_once (rr_metrics (fold (tracking_step show_float) es q))" if "dall counted_once (rr_metrics q)" for es q
    using that by (induction es arbitrary: q) (simp_all add: tracking_once)
  then have once: "dall counted_once (rr_metrics r)" by (simp add: assms rr_init_def)
  define r1 where "r1 = r\<lparr>rr_requests := dset (''requests:'' @ tenant @ '':'' @ nat_str now @ '':'' @ user)
             [(''tier'', tier1), (''success'', if success then ''True'' else ''False''),
              (''response_time'', show_float response_time), (''cost'', show_float cost),
              (''timestamp'', nat_str now)] (rr_requests r)\<rparr>"
  have r1: "rr_metrics r1 = rr_metrics r" by (simp add: r1_def)
  obtain res r2 where first: "update_metrics_key (metrics_key tenant tier1) success response_time cost r1 = (res, r2)"
    by (rule prod.exhaust)
  obtain res' r3 where second: "update_metrics_key (metrics_key tenant ''all'') success response_time cost r2 = (res', r3)"
    by (rule prod.exhaust)
  note step1 = update_metrics_key_once [OF once [folded r1] first]
  note step2 = update_metrics_key_once(2) [OF step1(1) second]
  have key: "metrics_key tenant ''all'' = metrics_key tenant tier1 \<longleftrightarrow> tier1 = ''all''"
    by (auto simp: metrics_key_def)
  have "track_request True show_float now tenant user tier1 success response_time cost r =
      update_metrics_keys [metrics_key tenant tier1, metrics_key tenant ''all''] success response_time cost r1"
    by (simp add: track_request_def update_aggregated_metrics_def r1_def del: update_metrics_keys.simps)
  then have "fst (track_request True show_float now tenant user tier1 success response_time cost r) =
      (case res of Inl e \<Rightarrow> Inl e | Inr _ \<Rightarrow> res')"
    by (auto simp: first second split: sum.split)
  then have "fst (track_request True show_float now tenant user tier1 success response_time cost r) =
      (if tier1 \<noteq> ''all'' \<and> dget (rr_metrics r) (metrics_key tenant tier1) = None \<and>
          dget (rr_metrics r) (metrics_key tenant ''all'') = None
       then Inr () else Inl (type_error ''unsupported operand type(s) for /''))"
    using step1(2,3) step2 by (auto simp: r1 key)
  moreover have "counted_once (dget_or [] (rr_metrics r) k) \<or> dget_or [] (rr_metrics r) k = []" for k
    using dall_dget [OF once, of k] by (auto simp: dget_or_def split: option.split)
  then obtain d where d: "(if decode then dget_or [] (rr_metrics r)
      (metrics_key tenant (if text_of tier \<noteq> '''' then text_of tier else ''all'')) else []) = d" "counted_once d \<or> d = []"
    by (cases decode) auto
  have "hm_total_requests (get_historical_metrics True decode tenant tier r) = \<lfloor>dget_or 0 d ''total_requests''\<rfloor>"
    "hm_failure_rate (get_historical_metrics True decode tenant tier r) =
       of_int (\<lfloor>dget_or 0 d ''total_requests''\<rfloor> - \<lfloor>dget_or 0 d ''successful_requests''\<rfloor>) /
       of_int (max \<lfloor>dget_or 0 d ''total_requests''\<rfloor> 1)"
    unfolding get_historical_metrics_def Let_def d(1) by simp_all
  then have "hm_total_requests (get_historical_metrics True decode tenant tier r) \<in> {0, 1} \<and>
      hm_failure_rate (get_historical_metrics True decode tenant tier r) \<in> {0, 1}"
    using d(2) by (auto simp: counted_once_def dget_or_def [of _ d "''total_requests''"]) (simp_all add: dget_or_def)
  ultimately show ?thesis by blast
qed

theorem rt_metrics_stop_at_one_witness:
  "hm_total_requests (get_historical_metrics True True ''t'' None
     (fold (tracking_step (\<lambda>_. ''x'')) [Track ''t'' ''u'' ''a'' True 1 1 0, Track ''t'' ''u'' ''a'' True 1 1 1] rr_init)) \<in> {0, 1}"
  using rt_metrics_stop_at_one [OF refl, where show_float = "\<lambda>_. ''x''" and events = "[Track ''t'' ''u'' ''a'' True 1 1 0, Track ''t'' ''u'' ''a'' True 1 1 1]"
      and decode = True and tenant = "''t''" and tier = None] by blast

section \<open>The metrics of the router\<close>

record routing =
  rtg_decision_time :: rat
  rtg_tier :: string
  rtg_confidence :: rat
  rtg_expected :: "string option"

definition route_metrics :: "routing list \<Rightarrow> router_metrics" where
  "route_metrics us =
     fold (\<lambda>u. update_metrics (rtg_decision_time u) (rtg_tier u) (rtg_confidence u) (rtg_expected u)) us rme_init"

definition routed_to :: "routing list \<Rightarrow> string \<Rightarrow> nat" where
  "routed_to us tier = length (filter (\<lambda>u. rtg_tier u = tier) us)"

definition expecting :: "routing list \<Rightarrow> string \<Rightarrow> routing list" where
  "expecting us e = filter (\<lambda>u. text_of (rtg_expected u) = e) us"

lemma dget_or_incr: "dget_or 0 (incr k d) j = dget_or 0 d j + (if j = k then 1 else 0)"
  by (simp add: incr_def dget_or_def dget_dset split: option.split)

lemma sum_dset_nat: "sum_list (map snd (dset k (dget_or 0 d k + 1) d)) = sum_list (map snd d) + (1 :: nat)"
  by (induction d) (auto simp: dget_or_def split: option.split)

lemma sum_incr: "sum_list (map snd (incr k d)) = sum_list (map snd d) + 1"
  unfolding incr_def by (rule sum_dset_nat)

lemma route_metrics_append:
  "route_metrics (us @ [u]) =
     update_metrics (rtg_decision_time u) (rtg_tier u) (rtg_confidence u) (rtg_expected u) (route_metrics us)"
  by (simp add: route_metrics_def)

lemma routed_append:
  "routed_to (us @ [u]) t = routed_to us t + (if t = rtg_tier u then 1 else 0)"
  "expecting (us @ [u]) e = expecting us e @ (if e = text_of (rtg_expected u) then [u] else [])"
  by (auto simp: routed_to_def expecting_def)

lemma route_metrics_rows:
  "dget_or 0 (rme_tier_distribution (route_metrics us)) t = routed_to us t \<and>
   (e \<noteq> '''' \<longrightarrow>
     (let row = dget_or [] (rme_expected_vs_actual (route_metrics us)) e
      in dget_or 0 row t = routed_to (expecting us e) t \<and> sum_list (map snd row) = length (expecting us e)))"
proof (induction us rule: rev_induct)
  case Nil
  then show ?case by (simp add: route_metrics_def rme_init_def routed_to_def expecting_def dget_or_def)
next
  case (snoc u us)
  define m where "m = route_metrics us"
  have row: "dget_or [] (rme_expected_vs_actual (route_metrics (us @ [u]))) e =
      (if e = text_of (rtg_expected u) then incr (rtg_tier u) (dget_or [] (rme_expected_vs_actual m) e)
       else dget_or [] (rme_expected_vs_actual m) e)" if "e \<noteq> ''''"
    using that by (auto simp: route_metrics_append update_metrics_def Let_def m_def dget_or_def dget_dset split: option.split)
  have tiers: "rme_tier_distribution (route_metrics (us @ [u])) = incr (rtg_tier u) (rme_tier_distribution m)"
    by (simp add: route_metrics_append update_metrics_def Let_def m_def)
  show ?case
    using snoc.IH unfolding tiers
    by (auto simp: row dget_or_incr sum_incr routed_append Let_def simp flip: m_def)
qed

text \<open>
  The books of the router: after any routings the tier distribution counts the routings to each
  tier, the matrix of expected and actual tiers counts each pair, and a misrouted request sets the
  misroute rate to the share of wrong tiers among all requests that expected its tier, while any
  other request leaves the rate as it was.
\<close>

theorem rt_metrics_books:
  "dget_or 0 (rme_tier_distribution (route_metrics us)) t = routed_to us t \<and>
   (e \<noteq> '''' \<longrightarrow> dget_or 0 (dget_or [] (rme_expected_vs_actual (route_metrics us)) e) t = routed_to (expecting us e) t) \<and>
   rme_router_misroute_rate (route_metrics (us @ [u])) =
     (let e1 = text_of (rtg_expected u); mine = expecting (us @ [u]) e1
      in if e1 = '''' \<or> e1 = rtg_tier u then rme_router_misroute_rate (route_metrics us)
         else 1 - of_nat (routed_to mine e1) / of_nat (length mine))"
proof -
  define e1 where "e1 = text_of (rtg_expected u)"
  define row where "row = incr (rtg_tier u) (dget_or [] (rme_expected_vs_actual (route_metrics us)) e1)"
  have "rme_router_misroute_rate (route_metrics (us @ [u])) =
      (if e1 = '''' \<or> e1 = rtg_tier u then rme_router_misroute_rate (route_metrics us)
       else 1 - of_nat (dget_or 0 row e1) / of_nat (max (sum_list (map snd row)) 1))"
    by (simp add: route_metrics_append update_metrics_def Let_def row_def e1_def)
  moreover have "dget_or 0 row e1 = routed_to (expecting (us @ [u]) e1) e1 \<and>
      sum_list (map snd row) = length (expecting (us @ [u]) e1)" if "e1 \<noteq> ''''"
    using that route_metrics_rows [of us e1 e1]
    by (simp add: row_def dget_or_incr sum_incr routed_append Let_def flip: e1_def)
  moreover have "1 \<le> length (expecting (us @ [u]) e1)" by (simp add: routed_append e1_def)
  ultimately show ?thesis
    using route_metrics_rows [of us t e] by (auto simp: Let_def max_def simp flip: e1_def)
qed

definition rt_demo_routing :: "string \<Rightarrow> routing" where
  "rt_demo_routing tier = \<lparr>rtg_decision_time = 0, rtg_tier = tier, rtg_confidence = 1, rtg_expected = Some ''a''\<rparr>"

theorem rt_metrics_books_witness:
  "dget_or 0 (dget_or [] (rme_expected_vs_actual (route_metrics [rt_demo_routing ''a''])) ''a'') ''a'' = 1 \<and>
   rme_router_misroute_rate (route_metrics ([rt_demo_routing ''a''] @ [rt_demo_routing ''b''])) = 1/2"
  using rt_metrics_books [of "[rt_demo_routing ''a'']" "''a''" "''a''" "rt_demo_routing ''b''"]
  by (simp add: rt_demo_routing_def routed_to_def expecting_def text_of_def Let_def)

end
