(* ===== verification/Slo.thy ===== *)
theory Slo
  imports Json
begin

text \<open>
  \<^verbatim>\<open>libs/observability/slo_manager.py\<close>: \<open>ErrorBudget\<close> and \<open>SLOManager\<close>. None of the methods
  waits, so each is one atomic operation; the clock is read once per method. Alert handlers are
  called with the alert and cannot make the manager fail; their calls are the alerts of an
  operation, in order. The clean-up does nothing in the code.
\<close>

section \<open>Data\<close>

datatype slo_target = TgAvailability | TgLatency | TgThroughput | TgErrorRate

datatype alert_severity = SevLow | SevMedium | SevHigh | SevCritical

fun alert_severity_value :: "alert_severity \<Rightarrow> string" where
  "alert_severity_value SevLow = ''low''"
| "alert_severity_value SevMedium = ''medium''"
| "alert_severity_value SevHigh = ''high''"
| "alert_severity_value SevCritical = ''critical''"

record slo_def =
  slo_name :: string
  slo_description :: string
  slo_target_type :: slo_target
  slo_target_value :: rat
  slo_measurement_window :: int
  slo_evaluation_window :: nat
  slo_error_budget_policy :: rat
  slo_service :: string
  slo_tenant_id :: "string option"
  slo_tags :: "(string, string) dict"

record slo_metric =
  sme_timestamp :: rat
  sme_value :: rat
  sme_success :: bool
  sme_latency_ms :: "rat option"
  sme_error_code :: "string option"
  sme_tags :: "(string, string) dict"

record slo_status =
  sst_slo_name :: string
  sst_current_value :: rat
  sst_target_value :: rat
  sst_error_budget_remaining :: rat
  sst_error_budget_burn_rate :: rat
  sst_is_healthy :: bool
  sst_last_evaluation :: rat
  sst_alert_level :: "alert_severity option"

section \<open>Error budgets\<close>

record error_budget =
  eb_slo_definition :: slo_def
  eb_metrics_window :: "slo_metric list"
  eb_error_budget :: rat

definition eb_init :: "slo_def \<Rightarrow> error_budget" where
  "eb_init d = \<lparr>eb_slo_definition = d, eb_metrics_window = [], eb_error_budget = 100\<rparr>"

text \<open>Appending to a \<open>deque(maxlen=n)\<close>.\<close>

definition deque_append :: "nat \<Rightarrow> 'a list \<Rightarrow> 'a \<Rightarrow> 'a list" where
  "deque_append n xs x = (let ys = xs @ [x] in drop (length ys - n) ys)"

definition since :: "rat \<Rightarrow> slo_metric list \<Rightarrow> slo_metric list" where
  "since t ms = filter (\<lambda>m. t \<le> sme_timestamp m) ms"

definition success_rate :: "slo_metric list \<Rightarrow> rat" where
  "success_rate ms = of_nat (length (filter sme_success ms)) / of_nat (length ms) * 100"

definition py_div :: "rat \<Rightarrow> rat \<Rightarrow> exn + rat" where
  "py_div x y = (if y = 0 then Inl zero_division else Inr (x / y))"

text \<open>The share of the target that is missed; \<open>_calculate_error_budget\<close> has it in per cent.\<close>

definition missed :: "slo_def \<Rightarrow> rat \<Rightarrow> exn + rat" where
  "missed d rate =
     (let target_rate = slo_target_value d
      in case slo_target_type d of
           TgErrorRate \<Rightarrow> py_div (max 0 ((100 - rate) - target_rate)) (100 - target_rate)
         | _ \<Rightarrow> py_div (max 0 (target_rate - rate)) target_rate)"

definition eb_calculate_error_budget :: "rat \<Rightarrow> error_budget \<Rightarrow> exn + error_budget" where
  "eb_calculate_error_budget now b =
     (let window_metrics = since (now - of_int (slo_measurement_window (eb_slo_definition b))) (eb_metrics_window b)
      in if window_metrics = [] then Inr b
         else ebind (missed (eb_slo_definition b) (success_rate window_metrics)) (\<lambda>q.
                Inr (b\<lparr>eb_error_budget := max 0 (100 - q * 100)\<rparr>)))"

text \<open>The metric is in the window even when the calculation raises.\<close>

definition eb_add_metric :: "rat \<Rightarrow> slo_metric \<Rightarrow> error_budget \<Rightarrow> (exn + unit) \<times> error_budget" where
  "eb_add_metric now m b =
     (let b1 = b\<lparr>eb_metrics_window :=
            deque_append (slo_evaluation_window (eb_slo_definition b)) (eb_metrics_window b) m\<rparr>
      in case eb_calculate_error_budget now b1 of
           Inl e \<Rightarrow> (Inl e, b1)
         | Inr b2 \<Rightarrow> (Inr (), b2))"

definition eb_get_burn_rate :: "rat \<Rightarrow> error_budget \<Rightarrow> exn + rat" where
  "eb_get_burn_rate now b =
     (if length (eb_metrics_window b) < 2 then Inr 0
      else
        (let recent_metrics = since (now - 3600) (eb_metrics_window b)
         in if recent_metrics = [] then Inr 0
            else missed (eb_slo_definition b) (success_rate recent_metrics)))"

definition eb_is_burn_rate_exceeded :: "rat \<Rightarrow> error_budget \<Rightarrow> exn + bool" where
  "eb_is_burn_rate_exceeded now b =
     ebind (eb_get_burn_rate now b) (\<lambda>r. Inr (slo_error_budget_policy (eb_slo_definition b) < r))"

definition eb_current_value :: "rat \<Rightarrow> error_budget \<Rightarrow> rat" where
  "eb_current_value now b =
     (let d = eb_slo_definition b;
          window_metrics = since (now - of_int (slo_measurement_window d)) (eb_metrics_window b)
      in if window_metrics = [] then 0
         else (case slo_target_type d of
                 TgErrorRate \<Rightarrow> 100 - success_rate window_metrics
               | _ \<Rightarrow> success_rate window_metrics))"

definition alert_of :: "rat \<Rightarrow> rat \<Rightarrow> alert_severity option" where
  "alert_of policy burn_rate =
     (if policy * 2 < burn_rate then Some SevCritical
      else if policy * (15/10) < burn_rate then Some SevHigh
      else if policy < burn_rate then Some SevMedium
      else if policy * (5/10) < burn_rate then Some SevLow
      else None)"

definition eb_get_status :: "rat \<Rightarrow> error_budget \<Rightarrow> exn + slo_status" where
  "eb_get_status now b =
     (let d = eb_slo_definition b
      in if eb_metrics_window b = [] then
           Inr \<lparr>sst_slo_name = slo_name d, sst_current_value = 0, sst_target_value = slo_target_value d,
                sst_error_budget_remaining = eb_error_budget b, sst_error_budget_burn_rate = 0,
                sst_is_healthy = True, sst_last_evaluation = now, sst_alert_level = None\<rparr>
         else
           ebind (eb_get_burn_rate now b) (\<lambda>burn_rate.
           ebind (eb_is_burn_rate_exceeded now b) (\<lambda>exceeded.
             Inr \<lparr>sst_slo_name = slo_name d, sst_current_value = eb_current_value now b,
                  sst_target_value = slo_target_value d, sst_error_budget_remaining = eb_error_budget b,
                  sst_error_budget_burn_rate = burn_rate,
                  sst_is_healthy = (\<not> exceeded \<and> 10 < eb_error_budget b), sst_last_evaluation = now,
                  sst_alert_level = alert_of (slo_error_budget_policy d) burn_rate\<rparr>)))"

section \<open>The manager\<close>

record slo_manager =
  slm_slo_definitions :: "(string, slo_def) dict"
  slm_error_budgets :: "(string, error_budget) dict"

definition slm_add_slo :: "slo_def \<Rightarrow> slo_manager \<Rightarrow> slo_manager" where
  "slm_add_slo d m =
     m\<lparr>slm_slo_definitions := dset (slo_name d) d (slm_slo_definitions m),
       slm_error_budgets := dset (slo_name d) (eb_init d) (slm_error_budgets m)\<rparr>"

definition default_slo :: "string \<Rightarrow> string \<Rightarrow> slo_target \<Rightarrow> rat \<Rightarrow> string \<Rightarrow> slo_def" where
  "default_slo nm descr target v service =
     \<lparr>slo_name = nm, slo_description = descr, slo_target_type = target, slo_target_value = v,
      slo_measurement_window = 300, slo_evaluation_window = 3600, slo_error_budget_policy = 1/10,
      slo_service = service, slo_tenant_id = None, slo_tags = []\<rparr>"

definition default_slos :: "slo_def list" where
  "default_slos =
     [default_slo ''api_availability'' ''API Gateway availability'' TgAvailability (999/10) ''api_gateway'',
      default_slo ''api_latency_p95'' ''API Gateway 95th percentile latency'' TgLatency 500 ''api_gateway'',
      default_slo ''router_decision_latency'' ''Router decision latency'' TgLatency 50 ''router'',
      default_slo ''router_misroute_rate'' ''Router misroute rate'' TgErrorRate 1 ''router'',
      default_slo ''tool_success_rate'' ''Tool execution success rate'' TgAvailability (995/10) ''tool_service'',
      default_slo ''ws_connection_success_rate'' ''WebSocket connection success rate'' TgAvailability 99 ''realtime'',
      default_slo ''ws_message_delivery_rate'' ''WebSocket message delivery rate'' TgAvailability (995/10) ''realtime'']"

definition slm_init :: slo_manager where
  "slm_init = fold slm_add_slo default_slos \<lparr>slm_slo_definitions = [], slm_error_budgets = []\<rparr>"

record slo_alert =
  sal_slo_name :: string
  sal_alert_level :: string
  sal_current_value :: rat
  sal_target_value :: rat
  sal_error_budget_remaining :: rat
  sal_error_budget_burn_rate :: rat
  sal_timestamp :: rat

definition slm_trigger_alert :: "rat \<Rightarrow> slo_status \<Rightarrow> alert_severity \<Rightarrow> slo_alert" where
  "slm_trigger_alert now s l =
     \<lparr>sal_slo_name = sst_slo_name s, sal_alert_level = alert_severity_value l,
      sal_current_value = sst_current_value s, sal_target_value = sst_target_value s,
      sal_error_budget_remaining = sst_error_budget_remaining s,
      sal_error_budget_burn_rate = sst_error_budget_burn_rate s, sal_timestamp = now\<rparr>"

definition slm_check_alerts :: "rat \<Rightarrow> string \<Rightarrow> slo_manager \<Rightarrow> exn + slo_alert list" where
  "slm_check_alerts now nm m =
     (case dget (slm_error_budgets m) nm of
        None \<Rightarrow> Inr []
      | Some b \<Rightarrow>
          ebind (eb_get_status now b) (\<lambda>s.
            Inr (case sst_alert_level s of None \<Rightarrow> [] | Some l \<Rightarrow> [slm_trigger_alert now s l])))"

text \<open>The result is the alerts that were triggered.\<close>

definition slm_record_metric ::
  "rat \<Rightarrow> string \<Rightarrow> bool \<Rightarrow> rat option \<Rightarrow> string option \<Rightarrow> (string, string) dict option \<Rightarrow> slo_manager \<Rightarrow>
   (exn + slo_alert list) \<times> slo_manager" where
  "slm_record_metric now nm success latency_ms error_code tags m =
     (case dget (slm_slo_definitions m) nm of
        None \<Rightarrow> (Inr [], m)
      | Some d \<Rightarrow>
          (case dget (slm_error_budgets m) nm of
             None \<Rightarrow> (Inl (key_error nm), m)
           | Some b \<Rightarrow>
               (case eb_add_metric now
                   \<lparr>sme_timestamp = now, sme_value = (if success then 100 else 0), sme_success = success,
                    sme_latency_ms = latency_ms, sme_error_code = error_code,
                    sme_tags = (case tags of None \<Rightarrow> [] | Some t \<Rightarrow> t)\<rparr> b of
                  (res, b1) \<Rightarrow>
                    (let m1 = m\<lparr>slm_error_budgets := dset nm b1 (slm_error_budgets m)\<rparr>
                     in case res of
                          Inl e \<Rightarrow> (Inl e, m1)
                        | Inr _ \<Rightarrow> (slm_check_alerts now nm m1, m1)))))"

definition slm_get_slo_status :: "rat \<Rightarrow> string \<Rightarrow> slo_manager \<Rightarrow> exn + slo_status option" where
  "slm_get_slo_status now nm m =
     (case dget (slm_error_budgets m) nm of
        None \<Rightarrow> Inr None
      | Some b \<Rightarrow> ebind (eb_get_status now b) (\<lambda>s. Inr (Some s)))"

definition slm_get_all_slo_statuses :: "rat \<Rightarrow> slo_manager \<Rightarrow> exn + (string, slo_status) dict" where
  "slm_get_all_slo_statuses now m =
     emap (\<lambda>(nm, b). ebind (eb_get_status now b) (\<lambda>s. Inr (nm, s))) (slm_error_budgets m)"

definition slm_statuses_of :: "rat \<Rightarrow> (slo_def \<Rightarrow> bool) \<Rightarrow> slo_manager \<Rightarrow> exn + (string, slo_status) dict" where
  "slm_statuses_of now P m =
     emap (\<lambda>(nm, _).
       case dget (slm_error_budgets m) nm of
         None \<Rightarrow> Inl (key_error nm)
       | Some b \<Rightarrow> ebind (eb_get_status now b) (\<lambda>s. Inr (nm, s)))
       (filter (\<lambda>(_, d). P d) (slm_slo_definitions m))"

definition slm_get_service_slo_statuses :: "rat \<Rightarrow> string \<Rightarrow> slo_manager \<Rightarrow> exn + (string, slo_status) dict" where
  "slm_get_service_slo_statuses now service = slm_statuses_of now (\<lambda>d. slo_service d = service)"

definition slm_get_tenant_slo_statuses :: "rat \<Rightarrow> string \<Rightarrow> slo_manager \<Rightarrow> exn + (string, slo_status) dict" where
  "slm_get_tenant_slo_statuses now tenant = slm_statuses_of now (\<lambda>d. slo_tenant_id d = Some tenant)"

record service_summary =
  ssu_total :: nat
  ssu_healthy :: nat
  ssu_unhealthy :: nat
  ssu_alerts :: "(string, nat) dict"

record slo_summary =
  sms_total_slos :: nat
  sms_healthy_slos :: nat
  sms_unhealthy_slos :: nat
  sms_critical_alerts :: nat
  sms_high_alerts :: nat
  sms_medium_alerts :: nat
  sms_low_alerts :: nat
  sms_by_service :: "(string, service_summary) dict"

definition no_summary :: service_summary where
  "no_summary =
     \<lparr>ssu_total = 0, ssu_healthy = 0, ssu_unhealthy = 0,
      ssu_alerts = [(''critical'', 0), (''high'', 0), (''medium'', 0), (''low'', 0)]\<rparr>"

definition add_status :: "slo_status \<Rightarrow> service_summary \<Rightarrow> service_summary" where
  "add_status s u =
     (let u1 = u\<lparr>ssu_total := ssu_total u + 1\<rparr>;
          u2 = (if sst_is_healthy s then u1\<lparr>ssu_healthy := ssu_healthy u1 + 1\<rparr>
                else u1\<lparr>ssu_unhealthy := ssu_unhealthy u1 + 1\<rparr>)
      in case sst_alert_level s of
           None \<Rightarrow> u2
         | Some l \<Rightarrow>
             u2\<lparr>ssu_alerts := dset (alert_severity_value l)
                  (dget_or 0 (ssu_alerts u2) (alert_severity_value l) + 1) (ssu_alerts u2)\<rparr>)"

fun group_by_service ::
  "(string, slo_def) dict \<Rightarrow> (string, slo_status) dict \<Rightarrow> (string, service_summary) dict \<Rightarrow>
   exn + (string, service_summary) dict" where
  "group_by_service defs [] acc = Inr acc"
| "group_by_service defs ((nm, s) # rest) acc =
     (case dget defs nm of
        None \<Rightarrow> Inl (key_error nm)
      | Some d \<Rightarrow>
          group_by_service defs rest
            (dset (slo_service d) (add_status s (dget_or no_summary acc (slo_service d))) acc))"

definition slm_get_slo_metrics_summary :: "rat \<Rightarrow> slo_manager \<Rightarrow> exn + slo_summary" where
  "slm_get_slo_metrics_summary now m =
     ebind (slm_get_all_slo_statuses now m) (\<lambda>all_statuses.
     ebind (group_by_service (slm_slo_definitions m) all_statuses []) (\<lambda>by_service.
       let count = (\<lambda>P. length (filter (\<lambda>(_, s). P s) all_statuses));
           level = (\<lambda>l. count (\<lambda>s. sst_alert_level s = Some l))
       in Inr \<lparr>sms_total_slos = length all_statuses, sms_healthy_slos = count sst_is_healthy,
               sms_unhealthy_slos = count (\<lambda>s. \<not> sst_is_healthy s), sms_critical_alerts = level SevCritical,
               sms_high_alerts = level SevHigh, sms_medium_alerts = level SevMedium, sms_low_alerts = level SevLow,
               sms_by_service = by_service\<rparr>))"

section \<open>Soundness of the manager\<close>

definition slo_sound :: "slo_def \<Rightarrow> bool" where
  "slo_sound d \<longleftrightarrow> 0 < slo_target_value d \<and> (slo_target_type d = TgErrorRate \<longrightarrow> slo_target_value d < 100)"

definition eb_sound :: "error_budget \<Rightarrow> bool" where
  "eb_sound b \<longleftrightarrow> slo_sound (eb_slo_definition b) \<and> 0 \<le> eb_error_budget b \<and> eb_error_budget b \<le> 100"

definition slm_sound :: "slo_manager \<Rightarrow> bool" where
  "slm_sound m \<longleftrightarrow>
     dall eb_sound (slm_error_budgets m) \<and>
     (\<forall>nm. dget (slm_slo_definitions m) nm = map_option eb_slo_definition (dget (slm_error_budgets m) nm))"

lemma missed_sound: "slo_sound d \<Longrightarrow> \<exists>q. missed d rate = Inr q \<and> 0 \<le> q"
  by (auto simp: missed_def py_div_def slo_sound_def Let_def split: slo_target.split)

lemma eb_calculate_sound:
  assumes "eb_sound b"
  shows "\<exists>b1. eb_calculate_error_budget now b = Inr b1 \<and> eb_sound b1 \<and> eb_slo_definition b1 = eb_slo_definition b \<and>
    eb_metrics_window b1 = eb_metrics_window b"
  using assms missed_sound [of "eb_slo_definition b"
      "success_rate (since (now - of_int (slo_measurement_window (eb_slo_definition b))) (eb_metrics_window b))"]
  by (auto simp: eb_calculate_error_budget_def Let_def eb_sound_def)

lemma eb_add_sound:
  assumes "eb_sound b"
  shows "\<exists>b1. eb_add_metric now x b = (Inr (), b1) \<and> eb_sound b1 \<and> eb_slo_definition b1 = eb_slo_definition b \<and>
    eb_metrics_window b1 = deque_append (slo_evaluation_window (eb_slo_definition b)) (eb_metrics_window b) x"
proof -
  let ?b = "b\<lparr>eb_metrics_window := deque_append (slo_evaluation_window (eb_slo_definition b)) (eb_metrics_window b) x\<rparr>"
  have "eb_sound ?b" using assms by (simp add: eb_sound_def)
  from eb_calculate_sound [OF this, of now] show ?thesis by (auto simp: eb_add_metric_def Let_def)
qed

lemma eb_burn_sound: "eb_sound b \<Longrightarrow> \<exists>q. eb_get_burn_rate now b = Inr q"
  using missed_sound [of "eb_slo_definition b"] by (auto simp: eb_get_burn_rate_def eb_sound_def Let_def)

lemma eb_status_sound:
  "eb_sound b \<Longrightarrow> \<exists>s. eb_get_status now b = Inr s \<and> sst_error_budget_remaining s = eb_error_budget b"
  using eb_burn_sound [of b now] by (auto simp: eb_get_status_def eb_is_burn_rate_exceeded_def Let_def)

lemma slm_sound_budget: "slm_sound m \<Longrightarrow> dget (slm_error_budgets m) nm = Some b \<Longrightarrow> eb_sound b"
  unfolding slm_sound_def by (blast dest: dall_dget)

lemma slm_sound_add: "slm_sound m \<Longrightarrow> slo_sound d \<Longrightarrow> slm_sound (slm_add_slo d m)"
  by (simp add: slm_sound_def slm_add_slo_def dget_dset eb_sound_def eb_init_def)

lemma slm_sound_init: "slm_sound slm_init"
proof -
  have add: "slm_sound (fold slm_add_slo ds m)" if "slm_sound m" "\<forall>d \<in> set ds. slo_sound d" for ds m
    using that by (induction ds arbitrary: m) (simp_all add: slm_sound_add)
  show ?thesis
    unfolding slm_init_def
    by (rule add) (simp_all add: slm_sound_def default_slos_def default_slo_def slo_sound_def)
qed

lemma slm_record_sound:
  assumes "slm_sound m"
  shows "\<exists>alerts m1. slm_record_metric now nm success lat code tags m = (Inr alerts, m1) \<and> slm_sound m1"
proof (cases "dget (slm_error_budgets m) nm")
  case None
  with assms show ?thesis by (simp add: slm_record_metric_def slm_sound_def)
next
  case (Some b)
  have b: "eb_sound b" by (rule slm_sound_budget [OF assms Some])
  define x where "x = \<lparr>sme_timestamp = now, sme_value = (if success then 100 else 0), sme_success = success,
    sme_latency_ms = lat, sme_error_code = code, sme_tags = (case tags of None \<Rightarrow> [] | Some t \<Rightarrow> t)\<rparr>"
  obtain b1 where b1: "eb_add_metric now x b = (Inr (), b1)" "eb_sound b1" "eb_slo_definition b1 = eb_slo_definition b"
    using eb_add_sound [OF b, of now x] by blast
  define m1 where "m1 = m\<lparr>slm_error_budgets := dset nm b1 (slm_error_budgets m)\<rparr>"
  have "slm_sound m1"
    using assms b1(2,3) Some by (simp add: m1_def slm_sound_def dget_dset)
  moreover obtain s where "eb_get_status now b1 = Inr s" using eb_status_sound [OF b1(2)] by blast
  then have "\<exists>alerts. slm_check_alerts now nm m1 = Inr alerts"
    by (simp add: slm_check_alerts_def m1_def dget_dset)
  ultimately show ?thesis
    using assms Some b1(1) by (auto simp: slm_record_metric_def slm_sound_def Let_def x_def m1_def)
qed

section \<open>Runs\<close>

datatype slo_op =
    AddSlo slo_def
  | RecordMetric rat string bool "rat option" "string option" "(string, string) dict option"

fun slo_step :: "slo_op \<Rightarrow> slo_manager \<Rightarrow> slo_manager" where
  "slo_step (AddSlo d) m = slm_add_slo d m"
| "slo_step (RecordMetric now nm success lat code tags) m = snd (slm_record_metric now nm success lat code tags m)"

fun slo_op_sound :: "slo_op \<Rightarrow> bool" where
  "slo_op_sound (AddSlo d) \<longleftrightarrow> slo_sound d"
| "slo_op_sound _ \<longleftrightarrow> True"

lemma slo_run_sound: "slm_sound m \<Longrightarrow> list_all slo_op_sound ops \<Longrightarrow> slm_sound (fold slo_step ops m)"
proof (induction ops arbitrary: m)
  case (Cons op ops)
  have "slm_sound (slo_step op m)"
  proof (cases op)
    case (RecordMetric now nm success lat code tags)
    then show ?thesis using slm_record_sound [OF Cons.prems(1), of now nm success lat code tags] by auto
  qed (use Cons.prems in \<open>simp add: slm_sound_add\<close>)
  with Cons show ?case by simp
qed simp

text \<open>
  With the default objectives and any added ones whose targets make sense, the manager never
  raises: recording a metric and asking for all statuses return, and every remaining error budget
  is between 0 and 100 per cent.
\<close>

theorem slo_never_raises:
  assumes "list_all slo_op_sound ops" and "m = fold slo_step ops slm_init"
  shows "\<exists>alerts statuses. fst (slm_record_metric now nm success lat code tags m) = Inr alerts \<and>
    slm_get_all_slo_statuses now m = Inr statuses \<and>
    list_all (\<lambda>(_, s). 0 \<le> sst_error_budget_remaining s \<and> sst_error_budget_remaining s \<le> 100) statuses"
proof -
  have m: "slm_sound m" using slo_run_sound [OF slm_sound_init assms(1)] by (simp add: assms(2))
  have "\<exists>statuses. emap (\<lambda>(nm, b). ebind (eb_get_status now b) (\<lambda>s. Inr (nm, s))) bs = Inr statuses \<and>
      list_all (\<lambda>(_, s). 0 \<le> sst_error_budget_remaining s \<and> sst_error_budget_remaining s \<le> 100) statuses"
    if "dall eb_sound bs" for bs :: "(string, error_budget) dict"
    using that
  proof (induction bs)
    case (Cons x bs)
    obtain nm b where x: "x = (nm, b)" by (cases x)
    with Cons.prems have b: "eb_sound b" and bs: "dall eb_sound bs" by (simp_all add: dall_def)
    obtain s where "eb_get_status now b = Inr s" "sst_error_budget_remaining s = eb_error_budget b"
      using eb_status_sound [OF b] by blast
    moreover obtain ss where "emap (\<lambda>(nm, b). ebind (eb_get_status now b) (\<lambda>s. Inr (nm, s))) bs = Inr ss"
        "list_all (\<lambda>(_, s). 0 \<le> sst_error_budget_remaining s \<and> sst_error_budget_remaining s \<le> 100) ss"
      using Cons.IH [OF bs] by blast
    ultimately show ?case using b by (simp add: x eb_sound_def)
  qed simp
  then show ?thesis
    using slm_record_sound [OF m, of now nm success lat code tags] m
    by (fastforce simp: slm_get_all_slo_statuses_def slm_sound_def)
qed

theorem slo_never_raises_witness:
  "\<exists>alerts. fst (slm_record_metric 1 ''tool_success_rate'' False None None None
     (fold slo_step [RecordMetric 0 ''tool_success_rate'' True None None None] slm_init)) = Inr alerts"
  using slo_never_raises [OF _ refl, of "[RecordMetric 0 ''tool_success_rate'' True None None None]"] by force

section \<open>Alerts\<close>

lemma slm_record_budget:
  assumes "slm_sound m" and "dget (slm_error_budgets m) nm = Some b"
    and "slm_record_metric now nm success lat code tags m = (res, m')"
  shows "\<exists>b1 x. slm_error_budgets m' = dset nm b1 (slm_error_budgets m) \<and> slm_slo_definitions m' = slm_slo_definitions m \<and>
    eb_slo_definition b1 = eb_slo_definition b \<and> sme_timestamp x = now \<and> sme_success x = success \<and>
    eb_metrics_window b1 = deque_append (slo_evaluation_window (eb_slo_definition b)) (eb_metrics_window b) x \<and>
    eb_sound b1 \<and> res = slm_check_alerts now nm m'"
proof -
  define x where "x = \<lparr>sme_timestamp = now, sme_value = (if success then 100 else 0), sme_success = success,
    sme_latency_ms = lat, sme_error_code = code, sme_tags = (case tags of None \<Rightarrow> [] | Some t \<Rightarrow> t)\<rparr>"
  obtain b1 where b1: "eb_add_metric now x b = (Inr (), b1)" "eb_sound b1" "eb_slo_definition b1 = eb_slo_definition b"
      "eb_metrics_window b1 = deque_append (slo_evaluation_window (eb_slo_definition b)) (eb_metrics_window b) x"
    using eb_add_sound [OF slm_sound_budget [OF assms(1,2)], of now x] by blast
  have "slm_record_metric now nm success lat code tags m =
      (slm_check_alerts now nm (m\<lparr>slm_error_budgets := dset nm b1 (slm_error_budgets m)\<rparr>),
       m\<lparr>slm_error_budgets := dset nm b1 (slm_error_budgets m)\<rparr>)"
    using assms(1,2) b1(1) by (simp add: slm_record_metric_def slm_sound_def x_def Let_def)
  with assms(3) have m': "m' = m\<lparr>slm_error_budgets := dset nm b1 (slm_error_budgets m)\<rparr>"
    and res: "res = slm_check_alerts now nm m'" by auto
  show ?thesis
    by (rule exI [of _ b1], rule exI [of _ x]) (use b1 res in \<open>simp add: m' x_def\<close>)
qed

text \<open>The severity of an alert in terms of the success rate of the last hour.\<close>

definition severity_at :: "slo_def \<Rightarrow> rat \<Rightarrow> string list" where
  "severity_at d rate =
     (let T = slo_target_value d; p = slo_error_budget_policy d
      in if rate < (1 - 2 * p) * T then [''critical'']
         else if rate < (1 - 15/10 * p) * T then [''high'']
         else if rate < (1 - p) * T then [''medium'']
         else if rate < (1 - 5/10 * p) * T then [''low'']
         else [])"

lemma burn_less:
  fixes T p k rate :: rat
  assumes "0 < T" and "0 \<le> p * k"
  shows "p * k < max 0 (T - rate) / T \<longleftrightarrow> rate < (1 - k * p) * T"
proof -
  have "p * k < max 0 (T - rate) / T \<longleftrightarrow> p * k * T < max 0 (T - rate)"
    using assms(1) by (simp add: pos_less_divide_eq)
  also have "\<dots> \<longleftrightarrow> p * k * T < T - rate"
    using mult_nonneg_nonneg [OF assms(2), of T] assms(1) by (auto simp: max_def)
  also have "\<dots> \<longleftrightarrow> rate < (1 - k * p) * T" by (auto simp: algebra_simps)
  finally show ?thesis .
qed

lemma alert_severity:
  assumes "0 < slo_target_value d" and "0 \<le> slo_error_budget_policy d" and "slo_target_type d \<noteq> TgErrorRate"
    and "missed d rate = Inr q"
  shows "(case alert_of (slo_error_budget_policy d) q of None \<Rightarrow> [] | Some l \<Rightarrow> [alert_severity_value l]) = severity_at d rate"
proof -
  have q: "q = max 0 (slo_target_value d - rate) / slo_target_value d"
    using assms(1,3,4) by (auto simp: missed_def py_div_def Let_def split: slo_target.splits if_splits)
  have "slo_error_budget_policy d * k < q \<longleftrightarrow> rate < (1 - k * slo_error_budget_policy d) * slo_target_value d" if "0 \<le> k" for k
    unfolding q using burn_less [OF assms(1)] that assms(2) by simp
  from this [of 2] this [of "15/10"] this [of 1] this [of "5/10"] show ?thesis
    by (simp add: alert_of_def severity_at_def Let_def)
qed

lemma eb_status_alert:
  assumes "eb_sound b" and "2 \<le> length (eb_metrics_window b)" and "since (now - 3600) (eb_metrics_window b) \<noteq> []"
    and "0 \<le> slo_error_budget_policy (eb_slo_definition b)" and "slo_target_type (eb_slo_definition b) \<noteq> TgErrorRate"
  shows "\<exists>s. eb_get_status now b = Inr s \<and>
    (case sst_alert_level s of None \<Rightarrow> [] | Some l \<Rightarrow> [alert_severity_value l]) =
      severity_at (eb_slo_definition b) (success_rate (since (now - 3600) (eb_metrics_window b)))"
proof -
  let ?rate = "success_rate (since (now - 3600) (eb_metrics_window b))"
  have sound: "slo_sound (eb_slo_definition b)" using assms(1) by (simp add: eb_sound_def)
  obtain q where q: "missed (eb_slo_definition b) ?rate = Inr q" using missed_sound [OF sound] by blast
  have "eb_get_burn_rate now b = Inr q" using assms(2,3) q by (simp add: eb_get_burn_rate_def Let_def)
  moreover have "eb_metrics_window b \<noteq> []" using assms(2) by auto
  ultimately show ?thesis
    using alert_severity [OF _ assms(4,5) q] sound
    by (simp add: eb_get_status_def eb_is_burn_rate_exceeded_def Let_def slo_sound_def)
qed

lemma deque_append_last: "0 < n \<Longrightarrow> x \<in> set (deque_append n xs x) \<and> length (deque_append n xs x) = min n (Suc (length xs))"
  by (simp add: deque_append_def Let_def)

lemma slm_record_alert:
  assumes m: "slm_sound m"
    and "dget (slm_error_budgets m) nm = Some b" and "eb_metrics_window b \<noteq> []"
    and "slo_target_type (eb_slo_definition b) \<noteq> TgErrorRate"
    and "0 \<le> slo_error_budget_policy (eb_slo_definition b)" and "2 \<le> slo_evaluation_window (eb_slo_definition b)"
    and "slm_record_metric now nm success lat code tags m = (res, m')"
  shows "\<exists>alerts b1. res = Inr alerts \<and> dget (slm_error_budgets m') nm = Some b1 \<and>
    map sal_alert_level alerts =
      severity_at (eb_slo_definition b) (success_rate (since (now - 3600) (eb_metrics_window b1)))"
proof -
  obtain b1 x where b1: "slm_error_budgets m' = dset nm b1 (slm_error_budgets m)" "eb_slo_definition b1 = eb_slo_definition b"
      "sme_timestamp x = now"
      "eb_metrics_window b1 = deque_append (slo_evaluation_window (eb_slo_definition b)) (eb_metrics_window b) x"
      "eb_sound b1" "res = slm_check_alerts now nm m'"
    using slm_record_budget [OF m assms(2,7)] by blast
  have "2 \<le> length (eb_metrics_window b1)" "x \<in> set (eb_metrics_window b1)"
    using deque_append_last [of "slo_evaluation_window (eb_slo_definition b)" x "eb_metrics_window b"] assms(3,6)
    by (auto simp: b1(4) Suc_le_eq)
  moreover from this(2) have "since (now - 3600) (eb_metrics_window b1) \<noteq> []"
    using b1(3) by (auto simp: since_def filter_empty_conv intro!: bexI [of _ x])
  ultimately obtain s where "eb_get_status now b1 = Inr s" "(case sst_alert_level s of None \<Rightarrow> [] | Some l \<Rightarrow> [alert_severity_value l]) =
      severity_at (eb_slo_definition b) (success_rate (since (now - 3600) (eb_metrics_window b1)))"
    using eb_status_alert [OF b1(5), of now] assms(4,5) by (auto simp: b1(2))
  then show ?thesis
    by (auto simp: b1(1,6) slm_check_alerts_def dget_dset slm_trigger_alert_def split: option.splits)
qed

text \<open>
  When an objective alerts: recording a metric for an objective of availability, latency or
  throughput that already has one triggers an alert whose severity depends on the success rate of
  the last hour only, through four thresholds relative to the target. A tolerance of 10 per cent
  on a target of 99.9 per cent is so read as a tenth of the target, not as a tenth of its budget.
\<close>

theorem slo_alert_thresholds:
  assumes "list_all slo_op_sound ops" and "m = fold slo_step ops slm_init"
    and "dget (slm_error_budgets m) nm = Some b" and "eb_metrics_window b \<noteq> []"
    and "slo_target_type (eb_slo_definition b) \<noteq> TgErrorRate"
    and "0 \<le> slo_error_budget_policy (eb_slo_definition b)" and "2 \<le> slo_evaluation_window (eb_slo_definition b)"
    and "slm_record_metric now nm success lat code tags m = (res, m')"
  shows "\<exists>alerts b1. res = Inr alerts \<and> dget (slm_error_budgets m') nm = Some b1 \<and>
    map sal_alert_level alerts =
      severity_at (eb_slo_definition b) (success_rate (since (now - 3600) (eb_metrics_window b1)))"
  by (rule slm_record_alert [OF slo_run_sound [OF slm_sound_init assms(1), folded assms(2)] assms(3-8)])

text \<open>The budget of one objective along a run that does not replace it.\<close>

fun slo_keeps :: "string \<Rightarrow> slo_op \<Rightarrow> bool" where
  "slo_keeps nm (AddSlo d) \<longleftrightarrow> slo_name d \<noteq> nm"
| "slo_keeps nm _ \<longleftrightarrow> True"

fun slo_records :: "string \<Rightarrow> slo_op \<Rightarrow> bool" where
  "slo_records nm (RecordMetric now nm' success lat code tags) \<longleftrightarrow> nm' = nm"
| "slo_records nm _ \<longleftrightarrow> False"

definition slo_budget :: "string \<Rightarrow> slo_def \<Rightarrow> bool \<Rightarrow> slo_manager \<Rightarrow> bool" where
  "slo_budget nm d used m \<longleftrightarrow>
     (\<exists>b. dget (slm_error_budgets m) nm = Some b \<and> eb_slo_definition b = d \<and> (used \<longrightarrow> eb_metrics_window b \<noteq> []))"

lemma slo_budget_step:
  assumes "slm_sound m" and "slo_budget nm d used m" and "slo_keeps nm op" and "0 < slo_evaluation_window d"
  shows "slo_budget nm d (used \<or> slo_records nm op) (slo_step op m)"
proof (cases op)
  case (AddSlo d')
  with assms show ?thesis by (auto simp: slo_budget_def slm_add_slo_def dget_dset)
next
  case (RecordMetric now nm' success lat code tags)
  show ?thesis
  proof (cases "dget (slm_error_budgets m) nm'")
    case None
    then have "slm_record_metric now nm' success lat code tags m = (Inr [], m)"
      using assms(1) by (simp add: slm_record_metric_def slm_sound_def)
    moreover have "nm' \<noteq> nm" using None assms(2) by (auto simp: slo_budget_def)
    ultimately show ?thesis using assms(2) by (simp add: RecordMetric)
  next
    case (Some b)
    obtain res m' where run: "slm_record_metric now nm' success lat code tags m = (res, m')" by (rule prod.exhaust)
    obtain b1 x where b1: "slm_error_budgets m' = dset nm' b1 (slm_error_budgets m)" "eb_slo_definition b1 = eb_slo_definition b"
        "eb_metrics_window b1 = deque_append (slo_evaluation_window (eb_slo_definition b)) (eb_metrics_window b) x"
      using slm_record_budget [OF assms(1) Some run] by blast
    have "eb_metrics_window b1 \<noteq> []" if "nm' = nm"
      using deque_append_last [of "slo_evaluation_window d" x "eb_metrics_window b"] that assms(2,4) Some
      by (auto simp: b1(3) slo_budget_def)
    then show ?thesis using assms(2) Some by (auto simp: RecordMetric run slo_budget_def b1(1,2) dget_dset)
  qed
qed

lemma slo_budget_run:
  assumes "slm_sound m" and "slo_budget nm d used m" and "list_all (slo_keeps nm) ops"
    and "list_all slo_op_sound ops" and "0 < slo_evaluation_window d"
  shows "slo_budget nm d (used \<or> list_ex (slo_records nm) ops) (fold slo_step ops m)"
  using assms
proof (induction ops arbitrary: used m)
  case (Cons op ops)
  have "slm_sound (slo_step op m)" using slo_run_sound [OF Cons.prems(1), of "[op]"] Cons.prems(4) by simp
  moreover have "slo_budget nm d (used \<or> slo_records nm op) (slo_step op m)"
    using Cons.prems by (intro slo_budget_step) simp_all
  ultimately show ?case using Cons.IH [of "slo_step op m" "used \<or> slo_records nm op"] Cons.prems by (simp add: disj_assoc)
qed simp

definition api_latency :: slo_def where
  "api_latency = default_slo ''api_latency_p95'' ''API Gateway 95th percentile latency'' TgLatency 500 ''api_gateway''"

lemma api_latency_default: "slo_budget ''api_latency_p95'' api_latency False slm_init"
  by (simp add: slo_budget_def slm_init_def default_slos_def slm_add_slo_def default_slo_def api_latency_def
      dget_dset eb_init_def)

lemma success_rate_le: "success_rate ms \<le> 100"
proof -
  have "length (filter sme_success ms) \<le> length ms" by simp
  then have "of_nat (length (filter sme_success ms)) / of_nat (length ms) \<le> (1 :: rat)"
    by (cases "ms = []") (auto simp: divide_le_eq_1)
  moreover have "q * 100 \<le> 100" if "q \<le> 1" for q :: rat using that by simp
  ultimately show ?thesis unfolding success_rate_def by blast
qed

text \<open>
  The default latency objective of the API gateway alarms on success: its target is 500
  milliseconds, but what is compared with it is a percentage, so after the first metric every
  further one triggers a critical alert, whatever the latencies and outcomes.
\<close>

theorem slo_latency_alarms_on_success:
  assumes "list_all slo_op_sound ops" and "list_all (slo_keeps ''api_latency_p95'') ops"
    and "list_ex (slo_records ''api_latency_p95'') ops" and "m = fold slo_step ops slm_init"
  shows "\<exists>alerts m'. slm_record_metric now ''api_latency_p95'' success lat code tags m = (Inr alerts, m') \<and>
    map sal_alert_level alerts = [''critical'']"
proof -
  have m: "slm_sound m" using slo_run_sound [OF slm_sound_init assms(1)] by (simp add: assms(4))
  obtain b where b: "dget (slm_error_budgets m) ''api_latency_p95'' = Some b" "eb_slo_definition b = api_latency"
      "eb_metrics_window b \<noteq> []"
    using slo_budget_run [OF slm_sound_init api_latency_default assms(2,1)] assms(3)
    by (auto simp: slo_budget_def assms(4) api_latency_def default_slo_def)
  obtain res m' where run: "slm_record_metric now ''api_latency_p95'' success lat code tags m = (res, m')" by (rule prod.exhaust)
  have d: "slo_target_type api_latency \<noteq> TgErrorRate" "0 \<le> slo_error_budget_policy api_latency"
    "2 \<le> slo_evaluation_window api_latency"
    by (simp_all add: api_latency_def default_slo_def)
  obtain alerts and b1 :: error_budget where "res = Inr alerts" "map sal_alert_level alerts =
      severity_at api_latency (success_rate (since (now - 3600) (eb_metrics_window b1)))"
    using slm_record_alert [OF m b(1,3) _ _ _ run, unfolded b(2), OF d] by blast
  moreover have "severity_at api_latency rate = [''critical'']" if "rate \<le> 100" for rate
    using that by (simp add: severity_at_def api_latency_def default_slo_def)
  ultimately have "res = Inr alerts \<and> map sal_alert_level alerts = [''critical'']" by (simp add: success_rate_le)
  with run show ?thesis by auto
qed

theorem slo_latency_alarms_on_success_witness:
  "\<exists>alerts m'. slm_record_metric 5 ''api_latency_p95'' True (Some 20) None None
      (fold slo_step [RecordMetric 0 ''api_latency_p95'' True (Some 10) None None] slm_init) = (Inr alerts, m') \<and>
    map sal_alert_level alerts = [''critical'']"
  by (rule slo_latency_alarms_on_success [OF _ _ _ refl]) simp_all

theorem slo_alert_thresholds_witness:
  "\<exists>alerts. fst (slm_record_metric 5 ''tool_success_rate'' False None None None
      (fold slo_step [RecordMetric 0 ''tool_success_rate'' True None None None] slm_init)) = Inr alerts"
proof -
  let ?nm = "''tool_success_rate''"
  let ?d = "default_slo ?nm ''Tool execution success rate'' TgAvailability (995/10) ''tool_service''"
  let ?ops = "[RecordMetric 0 ?nm True None None None]"
  have "slo_budget ?nm ?d False slm_init"
    by (simp add: slo_budget_def slm_init_def default_slos_def slm_add_slo_def default_slo_def dget_dset eb_init_def)
  from slo_budget_run [OF slm_sound_init this, of ?ops]
  obtain b where b: "dget (slm_error_budgets (fold slo_step ?ops slm_init)) ?nm = Some b" "eb_slo_definition b = ?d"
      "eb_metrics_window b \<noteq> []"
    by (auto simp: slo_budget_def default_slo_def)
  obtain res m' where run: "slm_record_metric 5 ?nm False None None None (fold slo_step ?ops slm_init) = (res, m')"
    by (rule prod.exhaust)
  from slo_alert_thresholds [OF _ refl b(1,3) _ _ _ run] b(2) have "\<exists>alerts. res = Inr alerts"
    by (auto simp: default_slo_def)
  with run show ?thesis by simp
qed

section \<open>The summary\<close>

lemma group_by_service_sums:
  assumes "group_by_service defs ss acc = Inr r" and "wf_dict acc" and "f no_summary = 0"
    and "\<And>s u. f (add_status s u) = f u + g s"
  shows "dsum f r = dsum f acc + sum_list (map (\<lambda>(_, s). g s) ss)"
  using assms(1,2)
  by (induction defs ss acc rule: group_by_service.induct)
    (auto simp: assms(3,4) dsum_dset_or [where z = no_summary] split: option.splits)

lemma group_by_service_returns:
  "list_all (\<lambda>(nm, _). dget defs nm \<noteq> None) ss \<Longrightarrow> \<exists>r. group_by_service defs ss acc = Inr r"
  by (induction defs ss acc rule: group_by_service.induct) auto

lemma add_status_counts:
  "int (ssu_total (add_status s u)) = int (ssu_total u) + 1"
  "int (ssu_healthy (add_status s u)) = int (ssu_healthy u) + (if sst_is_healthy s then 1 else 0)"
  "int (ssu_unhealthy (add_status s u)) = int (ssu_unhealthy u) + (if sst_is_healthy s then 0 else 1)"
  by (simp_all add: add_status_def Let_def split: option.split)

lemma sum_count: "sum_list (map (\<lambda>(_, s). if P s then 1 else 0) ss) = int (length (filter (\<lambda>(_, s). P s) ss))"
  by (induction ss) auto

lemma emap_names:
  "emap (\<lambda>(nm, b). ebind (eb_get_status now b) (\<lambda>s. Inr (nm, s))) bs = Inr ss \<Longrightarrow> map fst ss = map fst bs"
  by (induction bs arbitrary: ss) (auto simp: ebind_Inr)

text \<open>
  The summary partitions the objectives: it covers each of them once, healthy and unhealthy
  ones add up to all, and the sums over the services are the totals.
\<close>

theorem slo_summary_partition:
  assumes "list_all slo_op_sound ops" and "m = fold slo_step ops slm_init"
  shows "\<exists>s. slm_get_slo_metrics_summary now m = Inr s \<and>
    sms_total_slos s = length (slm_error_budgets m) \<and>
    sms_healthy_slos s + sms_unhealthy_slos s = sms_total_slos s \<and>
    dsum (\<lambda>u. int (ssu_total u)) (sms_by_service s) = int (sms_total_slos s) \<and>
    dsum (\<lambda>u. int (ssu_healthy u)) (sms_by_service s) = int (sms_healthy_slos s) \<and>
    dsum (\<lambda>u. int (ssu_unhealthy u)) (sms_by_service s) = int (sms_unhealthy_slos s)"
proof -
  have m: "slm_sound m" using slo_run_sound [OF slm_sound_init assms(1)] by (simp add: assms(2))
  have "\<exists>ss. slm_get_all_slo_statuses now m = Inr ss"
    unfolding slm_get_all_slo_statuses_def
  proof (rule emap_total, clarify)
    fix nm b
    assume "(nm, b) \<in> set (slm_error_budgets m)"
    then have "eb_sound b" using m by (auto simp: slm_sound_def dall_def)
    then show "\<exists>y. ebind (eb_get_status now b) (\<lambda>s. Inr (nm, s)) = Inr y" using eb_status_sound [of b now] by auto
  qed
  then obtain ss where ss: "slm_get_all_slo_statuses now m = Inr ss" ..
  have names: "map fst ss = map fst (slm_error_budgets m)"
    using ss emap_names unfolding slm_get_all_slo_statuses_def by blast
  have "dget (slm_slo_definitions m) nm \<noteq> None" if "nm \<in> fst ` set ss" for nm
  proof -
    have "nm \<in> fst ` set (slm_error_budgets m)" using that names by (metis set_map)
    then have "dget (slm_error_budgets m) nm \<noteq> None" by (simp add: map_of_eq_None_iff)
    with m show ?thesis by (simp add: slm_sound_def)
  qed
  then have "list_all (\<lambda>(nm, _). dget (slm_slo_definitions m) nm \<noteq> None) ss" by (force simp: list_all_iff)
  from group_by_service_returns [OF this] obtain by_service
    where by_service: "group_by_service (slm_slo_definitions m) ss [] = Inr by_service" by blast
  note sums = group_by_service_sums [OF by_service wf_dict_Nil]
  have total: "dsum (\<lambda>u. int (ssu_total u)) by_service = int (length ss)"
    using sums [of "\<lambda>u. int (ssu_total u)" "\<lambda>_. 1"]
    by (simp add: add_status_counts no_summary_def dsum_def sum_list_triv case_prod_unfold)
  have healthy: "dsum (\<lambda>u. int (ssu_healthy u)) by_service = int (length (filter (\<lambda>(_, s). sst_is_healthy s) ss))"
    using sums [of "\<lambda>u. int (ssu_healthy u)" "\<lambda>s. if sst_is_healthy s then 1 else 0"]
    by (simp add: add_status_counts no_summary_def dsum_def sum_count)
  have unhealthy: "dsum (\<lambda>u. int (ssu_unhealthy u)) by_service = int (length (filter (\<lambda>(_, s). \<not> sst_is_healthy s) ss))"
    using sums [of "\<lambda>u. int (ssu_unhealthy u)" "\<lambda>s. if \<not> sst_is_healthy s then 1 else 0"]
    by (simp add: add_status_counts no_summary_def dsum_def sum_count if_distrib cong: if_cong)
  have "length ss = length (slm_error_budgets m)" using arg_cong [OF names, of length] by simp
  moreover have "length (filter (\<lambda>(_, s). sst_is_healthy s) ss) + length (filter (\<lambda>(_, s). \<not> sst_is_healthy s) ss) = length ss"
    by (induction ss) auto
  ultimately show ?thesis
    using total healthy unhealthy by (simp add: slm_get_slo_metrics_summary_def ss by_service Let_def)
qed

theorem slo_summary_partition_witness:
  "\<exists>s. slm_get_slo_metrics_summary 1 (fold slo_step [RecordMetric 0 ''tool_success_rate'' True None None None] slm_init) = Inr s \<and>
    sms_total_slos s = length (slm_error_budgets (fold slo_step [RecordMetric 0 ''tool_success_rate'' True None None None] slm_init))"
  using slo_summary_partition [OF _ refl, of "[RecordMetric 0 ''tool_success_rate'' True None None None]" 1] by auto

end
