(* ===== verification/ToolBase.thy ===== *)
theory ToolBase
  imports Interfaces Json
begin

text \<open>
  \<^verbatim>\<open>libs/resilience/tool_adapter_base.py\<close>: the base class of the resilient tool adapters, with its
  own circuit breaker (a failure ratio next to the failure threshold), bulkhead pool,
  idempotency keys in Redis and a write-ahead log in Redis whose pending entries
  \<open>recover_pending_operations\<close> runs again.

  Parameters: the Redis client \<open>kv\<close>, the tool (the abstract \<open>execute_operation\<close>), the fresh uuids,
  the text functions \<open>tx\<close> (\<open>json\<close>, \<open>sha256\<close>, \<open>isoformat\<close>), and the decorator \<open>retrying\<close> of the
  package \<open>tenacity\<close>.
\<close>

section \<open>Parameters and configurations\<close>

record 'w kv =
  kv_get :: "string \<Rightarrow> ('w, string option) coro"
  kv_setex :: "string \<Rightarrow> int \<Rightarrow> string \<Rightarrow> ('w, unit) coro"
  kv_keys :: "string \<Rightarrow> ('w, string list) coro"
  kv_exists :: "string \<Rightarrow> ('w, int) coro"

record rtc =
  rtc_max_attempts :: int
  rtc_base_delay :: rat
  rtc_max_delay :: rat
  rtc_exponential_multiplier :: rat
  rtc_jitter :: bool
  rtc_retryable_exceptions :: "string list"

definition rtc_default :: rtc where
  "rtc_default =
     \<lparr>rtc_max_attempts = 3, rtc_base_delay = 1, rtc_max_delay = 60, rtc_exponential_multiplier = 2,
      rtc_jitter = True, rtc_retryable_exceptions = [''Exception'']\<rparr>"

record rcc =
  rcc_failure_threshold :: int
  rcc_recovery_timeout :: rat
  rcc_expected_exception :: string
  rcc_failure_ratio :: rat
  rcc_minimum_requests :: int

definition rcc_default :: rcc where
  "rcc_default =
     \<lparr>rcc_failure_threshold = 5, rcc_recovery_timeout = 60, rcc_expected_exception = ''Exception'',
      rcc_failure_ratio = 1 / 2, rcc_minimum_requests = 10\<rparr>"

record rbc =
  rbc_max_concurrent :: int
  rbc_max_queue_size :: int
  rbc_timeout :: rat

definition rbc_default :: rbc where
  "rbc_default = \<lparr>rbc_max_concurrent = 10, rbc_max_queue_size = 100, rbc_timeout = 30\<rparr>"

record ric =
  ric_key_ttl :: int
  ric_redis_prefix :: string
  ric_include_headers :: bool
  ric_include_body :: bool

definition ric_default :: ric where
  "ric_default =
     \<lparr>ric_key_ttl = 3600, ric_redis_prefix = ''idempotency'', ric_include_headers = False,
      ric_include_body = True\<rparr>"

section \<open>Circuit breaker\<close>

datatype rcb_state = RcbClosed | RcbOpen | RcbHalfOpen

fun rcb_state_value :: "rcb_state \<Rightarrow> string" where
  "rcb_state_value RcbClosed = ''closed''"
| "rcb_state_value RcbOpen = ''open''"
| "rcb_state_value RcbHalfOpen = ''half_open''"

record rcb =
  rcb_config :: rcc
  rcb_state :: rcb_state
  rcb_failure_count :: int
  rcb_success_count :: int
  rcb_last_failure_time :: "rat option"

definition rcb_init :: "rcc \<Rightarrow> rcb" where
  "rcb_init config =
     \<lparr>rcb_config = config, rcb_state = RcbClosed, rcb_failure_count = 0, rcb_success_count = 0,
      rcb_last_failure_time = None\<rparr>"

definition rcb_should_attempt_reset :: "rat \<Rightarrow> rcb \<Rightarrow> bool" where
  "rcb_should_attempt_reset now c \<longleftrightarrow>
     (case rcb_last_failure_time c of
        None \<Rightarrow> True
      | Some l \<Rightarrow> rcc_recovery_timeout (rcb_config c) \<le> now - l)"

text \<open>
  The caller has just counted a failure and no count is negative, so the division is by a
  positive number.
\<close>

definition rcb_should_open_circuit :: "rcb \<Rightarrow> bool" where
  "rcb_should_open_circuit c \<longleftrightarrow>
     (let total_requests = rcb_failure_count c + rcb_success_count c
      in if total_requests < rcc_minimum_requests (rcb_config c) then False
         else (let failure_ratio = of_int (rcb_failure_count c) / (of_int total_requests :: rat)
               in rcc_failure_threshold (rcb_config c) \<le> rcb_failure_count c \<or>
                  rcc_failure_ratio (rcb_config c) \<le> failure_ratio))"

definition rcb_on_success :: "rcb \<Rightarrow> rcb" where
  "rcb_on_success c =
     (let c1 = c\<lparr>rcb_success_count := rcb_success_count c + 1\<rparr>
      in if rcb_state c1 = RcbHalfOpen \<and>
            rcc_minimum_requests (rcb_config c1) \<le> rcb_success_count c1
         then c1\<lparr>rcb_state := RcbClosed, rcb_failure_count := 0\<rparr>
         else c1)"

definition rcb_on_failure :: "rat \<Rightarrow> rcb \<Rightarrow> rcb" where
  "rcb_on_failure now c =
     (let c1 = c\<lparr>rcb_failure_count := rcb_failure_count c + 1, rcb_last_failure_time := Some now\<rparr>
      in if rcb_state c1 = RcbHalfOpen then c1\<lparr>rcb_state := RcbOpen\<rparr>
         else if rcb_should_open_circuit c1 then c1\<lparr>rcb_state := RcbOpen\<rparr>
         else c1)"

definition rcb_enter :: "rat \<Rightarrow> rcb \<Rightarrow> exn option \<times> rcb" where
  "rcb_enter now c =
     (if rcb_state c = RcbOpen then
        (if rcb_should_attempt_reset now c
         then (None, c\<lparr>rcb_state := RcbHalfOpen, rcb_success_count := 0\<rparr>)
         else (Some (exception ''Circuit breaker is OPEN''), c))
      else (None, c))"

definition rcb_leave :: "rat \<Rightarrow> 'a outcome \<Rightarrow> rcb \<Rightarrow> rcb" where
  "rcb_leave now r c =
     (case r of Ok _ \<Rightarrow> rcb_on_success c | Raise _ \<Rightarrow> rcb_on_failure now c | Cancelled \<Rightarrow> c)"

definition rcb_call :: "('w, 'a) coro \<Rightarrow> (rcb \<times> 'w, 'a) coro" where
  "rcb_call = guarded (instant rcb_enter) (plain rcb_leave)"

lemmas rcb_seg_defs [seg_defs] = rcb_enter_def rcb_leave_def rcb_on_success_def rcb_on_failure_def
  rcb_should_attempt_reset_def rcb_should_open_circuit_def

section \<open>Bulkhead pool\<close>

record rbp =
  rbp_max_concurrent :: int
  rbp_name :: string
  rbp_semaphore :: int
  rbp_current_usage :: int

definition rbp_init :: "int \<Rightarrow> string \<Rightarrow> exn + rbp" where
  "rbp_init max_concurrent name =
     (if max_concurrent < 0 then Inl (value_error ''Semaphore initial value must be >= 0'')
      else Inr \<lparr>rbp_max_concurrent = max_concurrent, rbp_name = name,
                rbp_semaphore = max_concurrent, rbp_current_usage = 0\<rparr>)"

definition rbp_take :: "rbp \<Rightarrow> rbp" where
  "rbp_take b = b\<lparr>rbp_semaphore := rbp_semaphore b - 1, rbp_current_usage := rbp_current_usage b + 1\<rparr>"

definition rbp_release :: "rbp \<Rightarrow> rbp" where
  "rbp_release b = b\<lparr>rbp_current_usage := rbp_current_usage b - 1, rbp_semaphore := rbp_semaphore b + 1\<rparr>"

definition rbp_available_slots :: "rbp \<Rightarrow> int" where
  "rbp_available_slots b = rbp_max_concurrent b - rbp_current_usage b"

text \<open>\<open>wait_for(bulkhead.acquire(), timeout)\<close>; the lock inside is never contended.\<close>

definition rbp_acquire_within :: "rat \<Rightarrow> (rbp, unit) coro" where
  "rbp_acquire_within = acquire_within (\<lambda>b. 0 < rbp_semaphore b) rbp_take"

lemmas rbp_seg_defs [seg_defs] = rbp_take_def rbp_release_def

section \<open>Idempotency\<close>

definition rim_generate_key ::
  "texts \<Rightarrow> ric \<Rightarrow> string \<Rightarrow> json \<Rightarrow> json \<Rightarrow> exn + string" where
  "rim_generate_key tx config operation payload headers =
     (let key_data = [(''operation'', JStr operation), (''payload'', payload)] @
            (if ric_include_headers config \<and> py_truth headers then [(''headers'', headers)] else [])
      in ebind (tx_dumps_sorted tx (JDict key_data)) (\<lambda>key_string.
           Inr (ric_redis_prefix config @ '':'' @ tx_sha256 tx key_string)))"

definition rim_get_result :: "texts \<Rightarrow> 'w kv \<Rightarrow> string \<Rightarrow> ('w, json) coro" where
  "rim_get_result tx kv key dl t w =
     (case kv_get kv key dl t w of
        (Ok (Some (x # xs)), t1, w1) \<Rightarrow>
          (case tx_loads tx (x # xs) of Inr v \<Rightarrow> (Ok v, t1, w1) | Inl _ \<Rightarrow> (Ok JNull, t1, w1))
      | (Ok _, t1, w1) \<Rightarrow> (Ok JNull, t1, w1)
      | (Raise _, t1, w1) \<Rightarrow> (Ok JNull, t1, w1)
      | (Cancelled, t1, w1) \<Rightarrow> (Cancelled, t1, w1))"

text \<open>A JSON text stored with \<open>setex\<close>; exceptions are logged and dropped.\<close>

definition kv_store :: "texts \<Rightarrow> 'w kv \<Rightarrow> string \<Rightarrow> int \<Rightarrow> json \<Rightarrow> ('w, unit) coro" where
  "kv_store tx kv key ttl v dl t w =
     (case tx_dumps tx v of
        Inl _ \<Rightarrow> (Ok (), t, w)
      | Inr text \<Rightarrow>
          (case kv_setex kv key ttl text dl t w of
             (Ok _, t1, w1) \<Rightarrow> (Ok (), t1, w1)
           | (Raise _, t1, w1) \<Rightarrow> (Ok (), t1, w1)
           | (Cancelled, t1, w1) \<Rightarrow> (Cancelled, t1, w1)))"

definition rim_set_result :: "texts \<Rightarrow> 'w kv \<Rightarrow> ric \<Rightarrow> string \<Rightarrow> json \<Rightarrow> ('w, unit) coro" where
  "rim_set_result tx kv config key result = kv_store tx kv key (ric_key_ttl config) result"

definition rim_is_duplicate :: "'w kv \<Rightarrow> string \<Rightarrow> ('w, bool) coro" where
  "rim_is_duplicate kv key dl t w =
     (case kv_exists kv key dl t w of
        (Ok n, t1, w1) \<Rightarrow> (Ok (0 < n), t1, w1)
      | (Raise e, t1, w1) \<Rightarrow> (Raise e, t1, w1)
      | (Cancelled, t1, w1) \<Rightarrow> (Cancelled, t1, w1))"

section \<open>Write-ahead log\<close>

text \<open>
  What is read back from Redis may be any JSON value, so the fields of an entry are JSON
  values; only the date-times are converted.
\<close>

record rwl =
  rwl_id :: json
  rwl_timestamp :: rat
  rwl_operation :: json
  rwl_payload :: json
  rwl_state :: json
  rwl_retry_count :: json
  rwl_last_attempt :: "rat option"
  rwl_error :: json

definition rwl_to_json :: "texts \<Rightarrow> rwl \<Rightarrow> json" where
  "rwl_to_json tx entry = JDict
     [(''id'', rwl_id entry), (''timestamp'', JStr (tx_isoformat tx (rwl_timestamp entry))),
      (''operation'', rwl_operation entry), (''payload'', rwl_payload entry),
      (''state'', rwl_state entry), (''retry_count'', rwl_retry_count entry),
      (''last_attempt'', (case rwl_last_attempt entry of
         Some a \<Rightarrow> JStr (tx_isoformat tx a) | None \<Rightarrow> JNull)),
      (''error'', rwl_error entry)]"

text \<open>The rendering of an identifier in \<open>f"wal:{id}"\<close>; \<open>show_json\<close> renders what is not a string.\<close>

definition rwl_key :: "(json \<Rightarrow> string) \<Rightarrow> json \<Rightarrow> string" where
  "rwl_key show_json entry_id = ''wal:'' @ fstr show_json entry_id"

definition rwl_log_operation :: "texts \<Rightarrow> (json \<Rightarrow> string) \<Rightarrow> 'w kv \<Rightarrow> rwl \<Rightarrow> ('w, unit) coro" where
  "rwl_log_operation tx show_json kv entry =
     kv_store tx kv (rwl_key show_json (rwl_id entry)) 86400 (rwl_to_json tx entry)"

definition rwl_of_json :: "texts \<Rightarrow> json \<Rightarrow> exn + rwl" where
  "rwl_of_json tx d =
     ebind (py_item d ''id'') (\<lambda>i.
     ebind (ebind (py_item d ''timestamp'') (tx_fromisoformat tx)) (\<lambda>ts.
     ebind (py_item d ''operation'') (\<lambda>op.
     ebind (py_item d ''payload'') (\<lambda>pl.
     ebind (py_item d ''state'') (\<lambda>st.
     ebind (py_item d ''retry_count'') (\<lambda>rc.
     ebind (ebind (py_item d ''last_attempt'') (\<lambda>la.
              if py_truth la then ebind (tx_fromisoformat tx la) (\<lambda>x. Inr (Some x)) else Inr None)) (\<lambda>la.
     ebind (py_item d ''error'') (\<lambda>er.
     Inr \<lparr>rwl_id = i, rwl_timestamp = ts, rwl_operation = op, rwl_payload = pl, rwl_state = st,
          rwl_retry_count = rc, rwl_last_attempt = la, rwl_error = er\<rparr>))))))))"

text \<open>One turn of the loop over the keys: the entries (none or one) that a stored text gives.\<close>

definition rwl_pending_of :: "texts \<Rightarrow> string option \<Rightarrow> exn + rwl list" where
  "rwl_pending_of tx data =
     (case data of
        Some (x # xs) \<Rightarrow>
          ebind (tx_loads tx (x # xs)) (\<lambda>d.
          ebind (py_item d ''state'') (\<lambda>st.
            if st = JStr ''pending'' then ebind (rwl_of_json tx d) (\<lambda>entry. Inr [entry]) else Inr []))
      | _ \<Rightarrow> Inr [])"

fun rwl_scan :: "texts \<Rightarrow> 'w kv \<Rightarrow> string list \<Rightarrow> rwl list \<Rightarrow> ('w, rwl list) coro" where
  "rwl_scan tx kv [] entries dl t w = (Ok entries, t, w)"
| "rwl_scan tx kv (key # keys) entries dl t w =
     (case kv_get kv key dl t w of
        (Ok data, t1, w1) \<Rightarrow>
          (case rwl_pending_of tx data of
             Inl e \<Rightarrow> (Raise e, t1, w1)
           | Inr es \<Rightarrow> rwl_scan tx kv keys (entries @ es) dl t1 w1)
      | (Raise e, t1, w1) \<Rightarrow> (Raise e, t1, w1)
      | (Cancelled, t1, w1) \<Rightarrow> (Cancelled, t1, w1))"

definition rwl_get_pending_operations :: "texts \<Rightarrow> 'w kv \<Rightarrow> ('w, rwl list) coro" where
  "rwl_get_pending_operations tx kv dl t w =
     (case kv_keys kv ''wal:*'' dl t w of
        (Ok keys, t1, w1) \<Rightarrow>
          (case rwl_scan tx kv keys [] dl t1 w1 of
             (Ok entries, t2, w2) \<Rightarrow> (Ok entries, t2, w2)
           | (Raise _, t2, w2) \<Rightarrow> (Ok [], t2, w2)
           | (Cancelled, t2, w2) \<Rightarrow> (Cancelled, t2, w2))
      | (Raise _, t1, w1) \<Rightarrow> (Ok [], t1, w1)
      | (Cancelled, t1, w1) \<Rightarrow> (Cancelled, t1, w1))"

text \<open>\<open>entry_data["state"] = "completed"\<close>, which raises on anything but a dict.\<close>

fun py_set_item :: "json \<Rightarrow> string \<Rightarrow> json \<Rightarrow> exn + json" where
  "py_set_item (JDict d) k v = Inr (JDict (dset k v d))"
| "py_set_item (JList _) _ _ = Inl (type_error ''list indices must be integers or slices, not str'')"
| "py_set_item _ _ _ = Inl (type_error ''object does not support item assignment'')"

definition rwl_mark_completed ::
  "texts \<Rightarrow> (json \<Rightarrow> string) \<Rightarrow> 'w kv \<Rightarrow> json \<Rightarrow> ('w, unit) coro" where
  "rwl_mark_completed tx show_json kv entry_id dl t w =
     (let key = rwl_key show_json entry_id
      in case kv_get kv key dl t w of
           (Ok (Some (x # xs)), t1, w1) \<Rightarrow>
             (case ebind (tx_loads tx (x # xs)) (\<lambda>d. py_set_item d ''state'' (JStr ''completed'')) of
                Inl _ \<Rightarrow> (Ok (), t1, w1)
              | Inr d \<Rightarrow> kv_store tx kv key 86400 d dl t1 w1)
         | (Ok _, t1, w1) \<Rightarrow> (Ok (), t1, w1)
         | (Raise _, t1, w1) \<Rightarrow> (Ok (), t1, w1)
         | (Cancelled, t1, w1) \<Rightarrow> (Cancelled, t1, w1))"

section \<open>The adapter\<close>

text \<open>
  \<open>rta_tries\<close> is the part of the adapter that the body of the retry loop changes: the metric
  \<open>retry_attempts\<close>, and the number of uuids drawn so far.
\<close>

record rta_tries =
  rtt_retry_attempts :: int
  rtt_draws :: nat

record rta =
  rta_name :: string
  rta_retry_config :: rtc
  rta_bulkhead_config :: rbc
  rta_idempotency_config :: ric
  rta_circuit_breaker :: rcb
  rta_bulkhead :: rbp
  rta_tries :: rta_tries
  rta_total_requests :: int
  rta_successful_requests :: int
  rta_failed_requests :: int
  rta_circuit_breaker_opens :: int
  rta_bulkhead_rejections :: int
  rta_idempotency_hits :: int

definition rta_init ::
  "string \<Rightarrow> rtc option \<Rightarrow> rcc option \<Rightarrow> rbc option \<Rightarrow> ric option \<Rightarrow> exn + rta" where
  "rta_init name retry_config circuit_config bulkhead_config idempotency_config =
     (let rc = (case retry_config of None \<Rightarrow> rtc_default | Some c \<Rightarrow> c);
          cc = (case circuit_config of None \<Rightarrow> rcc_default | Some c \<Rightarrow> c);
          bc = (case bulkhead_config of None \<Rightarrow> rbc_default | Some c \<Rightarrow> c);
          ic = (case idempotency_config of None \<Rightarrow> ric_default | Some c \<Rightarrow> c)
      in case rbp_init (rbc_max_concurrent bc) (name @ ''_bulkhead'') of
           Inl e \<Rightarrow> Inl e
         | Inr b \<Rightarrow> Inr \<lparr>rta_name = name, rta_retry_config = rc, rta_bulkhead_config = bc,
             rta_idempotency_config = ic, rta_circuit_breaker = rcb_init cc, rta_bulkhead = b,
             rta_tries = \<lparr>rtt_retry_attempts = 0, rtt_draws = 0\<rparr>, rta_total_requests = 0,
             rta_successful_requests = 0, rta_failed_requests = 0, rta_circuit_breaker_opens = 0,
             rta_bulkhead_rejections = 0, rta_idempotency_hits = 0\<rparr>)"

text \<open>
  What the methods share and do not change: the text functions, the rendering of JSON values in
  f-strings, the Redis client (if any), the uuids, the tool, and the decorator.
\<close>

record 'w rta_env =
  env_texts :: texts
  env_show :: "json \<Rightarrow> string"
  env_redis :: "'w kv option"
  env_uuid :: "nat \<Rightarrow> string"
  env_tool :: "json \<Rightarrow> json \<Rightarrow> json \<Rightarrow> ('w, json) coro"
  env_retrying :: "rtc \<Rightarrow> (rta_tries \<times> 'w, json) coro \<Rightarrow> (rta_tries \<times> 'w, json) coro"

definition rwl_new :: "string \<Rightarrow> rat \<Rightarrow> string \<Rightarrow> json \<Rightarrow> rwl" where
  "rwl_new i now operation payload =
     \<lparr>rwl_id = JStr i, rwl_timestamp = now, rwl_operation = JStr operation, rwl_payload = payload,
      rwl_state = JStr ''pending'', rwl_retry_count = JInt 0, rwl_last_attempt = None,
      rwl_error = JNull\<rparr>"

definition rwl_failed :: "exn \<Rightarrow> rat \<Rightarrow> rwl \<Rightarrow> rwl" where
  "rwl_failed e now entry =
     entry\<lparr>rwl_state := JStr ''failed'', rwl_error := JStr (message e), rwl_retry_count := JInt 1,
           rwl_last_attempt := Some now\<rparr>"

text \<open>
  \<open>_retry_execute\<close>. The entry starts with \<open>retry_count = 0\<close>, so \<open>retry_count += 1\<close> in
  \<open>rwl_failed\<close> gives 1. Neither call to the log raises.
\<close>

definition rta_attempt ::
  "'w rta_env \<Rightarrow> string \<Rightarrow> json \<Rightarrow> json \<Rightarrow> (rta_tries \<times> 'w, json) coro" where
  "rta_attempt env operation payload headers dl t = (\<lambda>(m, w).
     (let m1 = m\<lparr>rtt_retry_attempts := rtt_retry_attempts m + 1\<rparr>
      in case env_redis env of
           None \<Rightarrow>
             (case env_tool env (JStr operation) payload headers dl t w of
                (r, t1, w1) \<Rightarrow> (r, t1, (m1, w1)))
         | Some kv \<Rightarrow>
             (let entry = rwl_new (env_uuid env (rtt_draws m1)) t operation payload;
                  m2 = m1\<lparr>rtt_draws := rtt_draws m1 + 1\<rparr>
              in case rwl_log_operation (env_texts env) (env_show env) kv entry dl t w of
                   (Cancelled, t1, w1) \<Rightarrow> (Cancelled, t1, (m2, w1))
                 | (Raise e, t1, w1) \<Rightarrow> (Raise e, t1, (m2, w1))
                 | (Ok _, t1, w1) \<Rightarrow>
                     (case env_tool env (JStr operation) payload headers dl t1 w1 of
                        (Cancelled, t2, w2) \<Rightarrow> (Cancelled, t2, (m2, w2))
                      | (Ok x, t2, w2) \<Rightarrow>
                          (case rwl_mark_completed (env_texts env) (env_show env) kv (rwl_id entry) dl t2 w2 of
                             (Cancelled, t3, w3) \<Rightarrow> (Cancelled, t3, (m2, w3))
                           | (_, t3, w3) \<Rightarrow> (Ok x, t3, (m2, w3)))
                      | (Raise e, t2, w2) \<Rightarrow>
                          (case rwl_log_operation (env_texts env) (env_show env) kv
                                  (rwl_failed e t2 entry) dl t2 w2 of
                             (Cancelled, t3, w3) \<Rightarrow> (Cancelled, t3, (m2, w3))
                           | (_, t3, w3) \<Rightarrow> (Raise e, t3, (m2, w3)))))))"

definition rta_execute_with_retry ::
  "'w rta_env \<Rightarrow> rtc \<Rightarrow> string \<Rightarrow> json \<Rightarrow> json \<Rightarrow> (rta_tries \<times> 'w, json) coro" where
  "rta_execute_with_retry env config operation payload headers =
     env_retrying env config (rta_attempt env operation payload headers)"

definition rta_use_breaker ::
  "'w rta_env \<Rightarrow> string \<Rightarrow> json \<Rightarrow> json \<Rightarrow> (rta \<times> 'w, json) coro" where
  "rta_use_breaker env operation payload headers dl t = (\<lambda>(a, w).
     (case rcb_call (rta_execute_with_retry env (rta_retry_config a) operation payload headers) dl t
             (rta_circuit_breaker a, (rta_tries a, w)) of
        (r, t', (c, (m, w'))) \<Rightarrow> (r, t', (a\<lparr>rta_circuit_breaker := c, rta_tries := m\<rparr>, w'))))"

text \<open>The \<open>try\<close> block of \<open>execute\<close> and its \<open>except\<close> and \<open>finally\<close> clauses.\<close>

definition rta_fail :: "rta \<Rightarrow> rta" where
  "rta_fail a =
     (let a1 = a\<lparr>rta_failed_requests := rta_failed_requests a + 1\<rparr>
      in if rcb_state (rta_circuit_breaker a1) = RcbOpen
         then a1\<lparr>rta_circuit_breaker_opens := rta_circuit_breaker_opens a1 + 1\<rparr> else a1)"

definition rta_release :: "rta \<Rightarrow> rta" where
  "rta_release a = a\<lparr>rta_bulkhead := rbp_release (rta_bulkhead a)\<rparr>"

definition rta_cache_result ::
  "'w rta_env \<Rightarrow> ric \<Rightarrow> string option \<Rightarrow> json \<Rightarrow> ('w, unit) coro" where
  "rta_cache_result env config key result dl t w =
     (case (env_redis env, key) of
        (Some kv, Some (x # xs)) \<Rightarrow> rim_set_result (env_texts env) kv config (x # xs) result dl t w
      | _ \<Rightarrow> (Ok (), t, w))"

definition rta_guarded ::
  "'w rta_env \<Rightarrow> string \<Rightarrow> json \<Rightarrow> json \<Rightarrow> string option \<Rightarrow> (rta \<times> 'w, json) coro" where
  "rta_guarded env operation payload headers key dl t v =
     (case rta_use_breaker env operation payload headers dl t v of
        (Cancelled, t1, (a1, w1)) \<Rightarrow> (Cancelled, t1, (rta_release a1, w1))
      | (Raise e, t1, (a1, w1)) \<Rightarrow> (Raise e, t1, (rta_release (rta_fail a1), w1))
      | (Ok x, t1, (a1, w1)) \<Rightarrow>
          (case rta_cache_result env (rta_idempotency_config a1) key x dl t1 w1 of
             (Cancelled, t2, w2) \<Rightarrow> (Cancelled, t2, (rta_release a1, w2))
           | (Raise e, t2, w2) \<Rightarrow> (Raise e, t2, (rta_release (rta_fail a1), w2))
           | (Ok _, t2, w2) \<Rightarrow>
               (Ok x, t2,
                (rta_release (a1\<lparr>rta_successful_requests := rta_successful_requests a1 + 1\<rparr>), w2))))"

definition rta_bulkhead_timeout :: exn where
  "rta_bulkhead_timeout = exception ''Bulkhead timeout - too many concurrent requests''"

definition rta_protected ::
  "'w rta_env \<Rightarrow> string \<Rightarrow> json \<Rightarrow> json \<Rightarrow> string option \<Rightarrow> (rta \<times> 'w, json) coro" where
  "rta_protected env operation payload headers key dl t = (\<lambda>(a, w).
     (case rbp_acquire_within (rbc_timeout (rta_bulkhead_config a)) dl t (rta_bulkhead a) of
        (Cancelled, t1, b1) \<Rightarrow> (Cancelled, t1, (a\<lparr>rta_bulkhead := b1\<rparr>, w))
      | (Raise _, t1, b1) \<Rightarrow>
          (Raise rta_bulkhead_timeout, t1,
           (a\<lparr>rta_bulkhead := b1, rta_bulkhead_rejections := rta_bulkhead_rejections a + 1\<rparr>, w))
      | (Ok _, t1, b1) \<Rightarrow>
          rta_guarded env operation payload headers key dl t1 (a\<lparr>rta_bulkhead := b1\<rparr>, w)))"

text \<open>The effective key: the one given, or a generated one when there is a manager.\<close>

definition rta_key ::
  "'w rta_env \<Rightarrow> ric \<Rightarrow> string \<Rightarrow> json \<Rightarrow> json \<Rightarrow> string option \<Rightarrow> exn + string option" where
  "rta_key env config operation payload headers idempotency_key =
     (case (idempotency_key, env_redis env) of
        (None, Some _) \<Rightarrow>
          ebind (rim_generate_key (env_texts env) config operation payload headers) (\<lambda>k. Inr (Some k))
      | _ \<Rightarrow> Inr idempotency_key)"

definition rta_cached :: "'w rta_env \<Rightarrow> string option \<Rightarrow> ('w, json) coro" where
  "rta_cached env key dl t w =
     (case (env_redis env, key) of
        (Some kv, Some (x # xs)) \<Rightarrow> rim_get_result (env_texts env) kv (x # xs) dl t w
      | _ \<Rightarrow> (Ok JNull, t, w))"

definition rta_execute ::
  "'w rta_env \<Rightarrow> string \<Rightarrow> json \<Rightarrow> json \<Rightarrow> string option \<Rightarrow> (rta \<times> 'w, json) coro" where
  "rta_execute env operation payload headers idempotency_key dl t = (\<lambda>(a, w).
     (let a0 = a\<lparr>rta_total_requests := rta_total_requests a + 1\<rparr>
      in case rta_key env (rta_idempotency_config a0) operation payload headers idempotency_key of
           Inl e \<Rightarrow> (Raise e, t, (a0, w))
         | Inr key \<Rightarrow>
             (case rta_cached env key dl t w of
                (Cancelled, t1, w1) \<Rightarrow> (Cancelled, t1, (a0, w1))
              | (Raise e, t1, w1) \<Rightarrow> (Raise e, t1, (a0, w1))
              | (Ok cached_result, t1, w1) \<Rightarrow>
                  (if py_truth cached_result
                   then (Ok cached_result, t1,
                         (a0\<lparr>rta_idempotency_hits := rta_idempotency_hits a0 + 1\<rparr>, w1))
                   else rta_protected env operation payload headers key dl t1 (a0, w1)))))"

section \<open>Recovery\<close>

text \<open>
  One turn of the loop: the new count of recovered operations. \<open>headers\<close> is \<open>None\<close>, and no
  exception leaves the turn.
\<close>

definition rta_recover_entry ::
  "'w rta_env \<Rightarrow> 'w kv \<Rightarrow> rtc \<Rightarrow> rwl \<Rightarrow> int \<Rightarrow> ('w, int) coro" where
  "rta_recover_entry env kv config entry n dl t w =
     (case py_ge_int (rwl_retry_count entry) (rtc_max_attempts config) of
        Inl _ \<Rightarrow> (Ok n, t, w)
      | Inr True \<Rightarrow> (Ok n, t, w)
      | Inr False \<Rightarrow>
          (case env_tool env (rwl_operation entry) (rwl_payload entry) JNull dl t w of
             (Cancelled, t1, w1) \<Rightarrow> (Cancelled, t1, w1)
           | (Raise _, t1, w1) \<Rightarrow> (Ok n, t1, w1)
           | (Ok _, t1, w1) \<Rightarrow>
               (case rwl_mark_completed (env_texts env) (env_show env) kv (rwl_id entry) dl t1 w1 of
                  (Cancelled, t2, w2) \<Rightarrow> (Cancelled, t2, w2)
                | (Raise _, t2, w2) \<Rightarrow> (Ok n, t2, w2)
                | (Ok _, t2, w2) \<Rightarrow> (Ok (n + 1), t2, w2))))"

fun rta_recover_entries ::
  "'w rta_env \<Rightarrow> 'w kv \<Rightarrow> rtc \<Rightarrow> rwl list \<Rightarrow> int \<Rightarrow> ('w, int) coro" where
  "rta_recover_entries env kv config [] n dl t w = (Ok n, t, w)"
| "rta_recover_entries env kv config (entry # es) n dl t w =
     (case rta_recover_entry env kv config entry n dl t w of
        (Ok n1, t1, w1) \<Rightarrow> rta_recover_entries env kv config es n1 dl t1 w1
      | (Raise e, t1, w1) \<Rightarrow> (Raise e, t1, w1)
      | (Cancelled, t1, w1) \<Rightarrow> (Cancelled, t1, w1))"

definition rta_recover_pending_operations :: "'w rta_env \<Rightarrow> rtc \<Rightarrow> ('w, int) coro" where
  "rta_recover_pending_operations env config dl t w =
     (case env_redis env of
        None \<Rightarrow> (Ok 0, t, w)
      | Some kv \<Rightarrow>
          (case rwl_get_pending_operations (env_texts env) kv dl t w of
             (Ok pending_ops, t1, w1) \<Rightarrow> rta_recover_entries env kv config pending_ops 0 dl t1 w1
           | (Raise e, t1, w1) \<Rightarrow> (Raise e, t1, w1)
           | (Cancelled, t1, w1) \<Rightarrow> (Cancelled, t1, w1)))"

record rta_metrics =
  rtm_total_requests :: int
  rtm_successful_requests :: int
  rtm_failed_requests :: int
  rtm_circuit_breaker_opens :: int
  rtm_bulkhead_rejections :: int
  rtm_idempotency_hits :: int
  rtm_retry_attempts :: int
  rtm_circuit_breaker_state :: string
  rtm_bulkhead_current :: int
  rtm_bulkhead_max :: int
  rtm_bulkhead_available :: int

definition rta_get_metrics :: "rta \<Rightarrow> rta_metrics" where
  "rta_get_metrics a =
     \<lparr>rtm_total_requests = rta_total_requests a, rtm_successful_requests = rta_successful_requests a,
      rtm_failed_requests = rta_failed_requests a,
      rtm_circuit_breaker_opens = rta_circuit_breaker_opens a,
      rtm_bulkhead_rejections = rta_bulkhead_rejections a,
      rtm_idempotency_hits = rta_idempotency_hits a,
      rtm_retry_attempts = rtt_retry_attempts (rta_tries a),
      rtm_circuit_breaker_state = rcb_state_value (rcb_state (rta_circuit_breaker a)),
      rtm_bulkhead_current = rbp_current_usage (rta_bulkhead a),
      rtm_bulkhead_max = rbp_max_concurrent (rta_bulkhead a),
      rtm_bulkhead_available = rbp_available_slots (rta_bulkhead a)\<rparr>"

section \<open>The contracts\<close>

interpretation rcg: guard "instant rcb_enter" "plain rcb_leave"
  by (rule guard_instant_plain)

interpretation rbpp: pool "\<lambda>_ b. (None, b)" rbp_take "\<lambda>b. b" "\<lambda>_ _. False" "\<lambda>_ _. rbp_release"
  rbp_semaphore rbp_current_usage
  by unfold_locales (auto simp: seg_defs)

text \<open>
  The failure count at which a closed breaker opens, given its successes. With \<open>s\<close> successes a
  ratio \<open>p < 1\<close> is reached from \<open>p s / (1 - p)\<close> failures on, the ratio 1 only without successes.
\<close>

definition rcb_target :: "rcb \<Rightarrow> int" where
  "rcb_target c =
     (let s = rcb_success_count c; p = rcc_failure_ratio (rcb_config c);
          thr = rcc_failure_threshold (rcb_config c)
      in max (rcc_minimum_requests (rcb_config c) - s)
           (if p < 1 then min thr \<lceil>p * of_int s / (1 - p)\<rceil>
            else if p = 1 \<and> s = 0 then min thr 0 else thr))"

lemma ratio_reached:
  fixes p :: rat
  assumes "1 \<le> f" and "0 \<le> s"
  shows "p \<le> of_int f / (of_int f + of_int s) \<longleftrightarrow>
    (if p < 1 then \<lceil>p * of_int s / (1 - p)\<rceil> \<le> f else p = 1 \<and> s = 0)"
proof -
  have pos: "(0 :: rat) < of_int f + of_int s" using assms by simp
  have "p \<le> of_int f / (of_int f + of_int s) \<longleftrightarrow> p * (of_int f + of_int s) \<le> of_int f"
    by (rule pos_le_divide_eq [OF pos])
  also have "\<dots> \<longleftrightarrow> p * of_int s \<le> of_int f * (1 - p)" by (simp add: algebra_simps)
  also have "\<dots> \<longleftrightarrow> (if p < 1 then \<lceil>p * of_int s / (1 - p)\<rceil> \<le> f else p = 1 \<and> s = 0)"
  proof (cases "p < 1")
    case True
    then have "p * of_int s \<le> of_int f * (1 - p) \<longleftrightarrow> p * of_int s / (1 - p) \<le> of_int f"
      by (simp add: pos_divide_le_eq)
    then show ?thesis using True by (simp add: ceiling_le_iff)
  next
    case False
    have "of_int f * (1 - p) < p * of_int s" if "p \<noteq> 1"
    proof -
      have "of_int f * (1 - p) < 0" using that False assms by (intro mult_pos_neg) auto
      also have "0 \<le> p * of_int s" using False assms by simp
      finally show ?thesis .
    qed
    then show ?thesis using False assms by (cases "p = 1") auto
  qed
  finally show ?thesis .
qed

lemma rcb_should_open_iff:
  assumes "1 \<le> rcb_failure_count c" and "0 \<le> rcb_success_count c"
  shows "rcb_should_open_circuit c \<longleftrightarrow> rcb_target c \<le> rcb_failure_count c"
  using assms ratio_reached [OF assms, of "rcc_failure_ratio (rcb_config c)"]
  by (auto simp: rcb_should_open_circuit_def rcb_target_def Let_def)

definition rcb_closed :: "rcb \<Rightarrow> bool" where
  "rcb_closed c \<longleftrightarrow> rcb_state c = RcbClosed \<and> 0 \<le> rcb_failure_count c \<and> 0 \<le> rcb_success_count c"

definition rcb_budget :: "rcb \<Rightarrow> int" where
  "rcb_budget c = rcb_target c - rcb_failure_count c"

definition rcb_tripped :: "rat \<Rightarrow> rcb \<Rightarrow> bool" where
  "rcb_tripped t c \<longleftrightarrow> rcb_state c = RcbOpen \<and>
     (\<exists>l. rcb_last_failure_time c = Some l \<and> t - l < rcc_recovery_timeout (rcb_config c))"

definition rcb_cooldown :: "rcb \<Rightarrow> rat" where
  "rcb_cooldown c = rcc_recovery_timeout (rcb_config c)"

lemma rcb_on_failure_closed:
  assumes "rcb_closed c"
  shows "rcb_on_failure t c =
    c\<lparr>rcb_failure_count := rcb_failure_count c + 1, rcb_last_failure_time := Some t,
      rcb_state := (if rcb_budget c \<le> 1 then RcbOpen else RcbClosed)\<rparr>"
proof -
  let ?c = "c\<lparr>rcb_failure_count := rcb_failure_count c + 1, rcb_last_failure_time := Some t\<rparr>"
  have "rcb_should_open_circuit ?c \<longleftrightarrow> rcb_budget c \<le> 1"
    using assms rcb_should_open_iff [of ?c] by (auto simp: rcb_closed_def rcb_budget_def rcb_target_def)
  then show ?thesis using assms by (simp add: rcb_on_failure_def rcb_closed_def Let_def)
qed

interpretation rcbb: breaker rcb_enter rcb_leave rcb_closed rcb_budget rcb_tripped rcb_cooldown
proof (unfold_locales, goal_cases)
  case (4 c t e)
  then show ?case
    by (simp add: rcb_leave_def rcb_on_failure_closed)
      (simp add: rcb_closed_def rcb_budget_def rcb_target_def rcb_cooldown_def)
next
  case (5 c u t e)
  then show ?case
    by (simp add: rcb_leave_def rcb_on_failure_closed)
      (simp add: rcb_tripped_def rcb_cooldown_def)
qed (auto simp: rcb_tripped_def rcb_enter_def rcb_should_attempt_reset_def split: if_splits)

section \<open>When the circuit opens\<close>

fun failed :: "'a outcome \<Rightarrow> bool" where
  "failed (Raise _) \<longleftrightarrow> True"
| "failed _ \<longleftrightarrow> False"

fun succeeded :: "'a outcome \<Rightarrow> bool" where
  "succeeded (Ok _) \<longleftrightarrow> True"
| "succeeded _ \<longleftrightarrow> False"

text \<open>Admitted calls that finish one after the other, each with its time and outcome.\<close>

definition rcb_settle :: "(rat \<times> 'a outcome) list \<Rightarrow> rcb \<Rightarrow> rcb" where
  "rcb_settle = fold (\<lambda>(t, r). rcb_leave t r)"

definition failures :: "(rat \<times> 'a outcome) list \<Rightarrow> int" where
  "failures xs = int (length (filter (failed \<circ> snd) xs))"

definition successes :: "(rat \<times> 'a outcome) list \<Rightarrow> int" where
  "successes xs = int (length (filter (succeeded \<circ> snd) xs))"

lemma failures_snoc [simp]:
  "failures [] = 0" "failures (xs @ [x]) = failures xs + (if failed (snd x) then 1 else 0)"
  by (simp_all add: failures_def)

lemma successes_snoc [simp]:
  "successes [] = 0" "successes (xs @ [x]) = successes xs + (if succeeded (snd x) then 1 else 0)"
  by (simp_all add: successes_def)

definition rcb_too_many :: "rcc \<Rightarrow> int \<Rightarrow> int \<Rightarrow> bool" where
  "rcb_too_many cfg f s \<longleftrightarrow> rcc_minimum_requests cfg \<le> f + s \<and>
     (rcc_failure_threshold cfg \<le> f \<or> rcc_failure_ratio cfg \<le> of_int f / of_int (f + s))"

lemma rcb_settle_snoc [simp]:
  "rcb_settle [] c = c" "rcb_settle (xs @ [(t, r)]) c = rcb_leave t r (rcb_settle xs c)"
  by (simp_all add: rcb_settle_def)

lemma rcb_settle_counts:
  "rcb_config (rcb_settle xs (rcb_init cfg)) = cfg \<and>
   rcb_failure_count (rcb_settle xs (rcb_init cfg)) = failures xs \<and>
   rcb_success_count (rcb_settle xs (rcb_init cfg)) = successes xs \<and>
   rcb_state (rcb_settle xs (rcb_init cfg)) \<noteq> RcbHalfOpen"
proof (induction xs rule: rev_induct)
  case Nil
  then show ?case by (simp add: rcb_init_def)
next
  case (snoc x xs)
  then show ?case
    by (cases x; cases "snd x") (auto simp: rcb_leave_def rcb_on_success_def rcb_on_failure_def Let_def)
qed

lemma rcb_settle_open_step:
  "rcb_state (rcb_settle (xs @ [(t, r)]) (rcb_init cfg)) = RcbOpen \<longleftrightarrow>
   rcb_state (rcb_settle xs (rcb_init cfg)) = RcbOpen \<or>
   failed r \<and> rcb_too_many cfg (failures xs + 1) (successes xs)"
proof (cases "rcb_state (rcb_settle xs (rcb_init cfg))")
  case RcbHalfOpen
  then show ?thesis using rcb_settle_counts by blast
qed (use rcb_settle_counts [of xs cfg] in
  \<open>cases r; simp add: rcb_leave_def rcb_on_success_def rcb_on_failure_def Let_def
     rcb_should_open_circuit_def rcb_too_many_def not_less add_ac\<close>)+

lemma split_at_snoc:
  "(\<exists>ps y rest. xs @ [x] = ps @ y # rest \<and> P ps y) \<longleftrightarrow>
   (\<exists>ps y rest. xs = ps @ y # rest \<and> P ps y) \<or> P xs x"
proof
  assume "\<exists>ps y rest. xs @ [x] = ps @ y # rest \<and> P ps y"
  then obtain ps y rest where eq: "xs @ [x] = ps @ y # rest" and "P ps y" by blast
  then show "(\<exists>ps y rest. xs = ps @ y # rest \<and> P ps y) \<or> P xs x"
    by (cases rest rule: rev_cases) auto
next
  assume "(\<exists>ps y rest. xs = ps @ y # rest \<and> P ps y) \<or> P xs x"
  then show "\<exists>ps y rest. xs @ [x] = ps @ y # rest \<and> P ps y"
  proof (elim disjE exE conjE)
    fix ps y rest
    assume "xs = ps @ y # rest" "P ps y"
    then have "xs @ [x] = ps @ y # (rest @ [x]) \<and> P ps y" by simp
    then show ?thesis by blast
  qed blast
qed

text \<open>
  Exactly when calls open a circuit breaker. The breaker is open after the calls \<open>xs\<close> if and only
  if some failed one among them was the \<open>f\<close>-th failure after \<open>s\<close> successes with
  \<open>minimum_requests \<le> f + s\<close> and either \<open>failure_threshold \<le> f\<close> or \<open>failure_ratio \<le> f / (f + s)\<close>.
  Successes between the failures never lower \<open>f\<close>: the threshold counts the failures since the
  circuit was closed, however long ago.
\<close>

theorem rcb_opens_iff:
  "rcb_state (rcb_settle xs (rcb_init cfg)) = RcbOpen \<longleftrightarrow>
   (\<exists>ps t e rest. xs = ps @ (t, Raise e) # rest \<and> rcb_too_many cfg (failures ps + 1) (successes ps))"
proof (induction xs rule: rev_induct)
  case Nil
  then show ?case by (simp add: rcb_init_def)
next
  case (snoc x xs)
  let ?P = "\<lambda>ps y. \<exists>t e. y = (t, Raise e) \<and> rcb_too_many cfg (failures ps + 1) (successes ps)"
  have split: "(\<exists>ps t e rest. zs = ps @ (t, Raise e) # rest \<and>
      rcb_too_many cfg (failures ps + 1) (successes ps)) \<longleftrightarrow> (\<exists>ps y rest. zs = ps @ y # rest \<and> ?P ps y)"
    for zs :: "(rat \<times> 'a outcome) list" by blast
  obtain t r where x: "x = (t, r)" by (cases x)
  have last: "?P xs x \<longleftrightarrow> failed r \<and> rcb_too_many cfg (failures xs + 1) (successes xs)"
    unfolding x by (cases r) auto
  show ?case
    using snoc rcb_settle_open_step [of xs t r cfg] last
    unfolding split split_at_snoc x by blast
qed

section \<open>The books of the adapter\<close>

text \<open>The requests that are over.\<close>

definition rta_settled :: "rta \<Rightarrow> int" where
  "rta_settled a = rta_successful_requests a + rta_failed_requests a + rta_bulkhead_rejections a +
     rta_idempotency_hits a"

lemma rta_use_breaker_fields:
  assumes "rta_use_breaker env operation payload headers dl t (a, w) = (r, t', (a', w'))"
  obtains c m where "a' = a\<lparr>rta_circuit_breaker := c, rta_tries := m\<rparr>"
  using assms by (auto simp: rta_use_breaker_def split: prod.splits)

lemma rbp_release_take [simp]: "rbp_release (rbp_take b) = b"
  by (simp add: rbp_release_def rbp_take_def)

lemma rta_guarded_books:
  assumes "rta_guarded env operation payload headers key dl t (a, w) = (r, t', (a', w'))"
  shows "rta_total_requests a' = rta_total_requests a \<and>
    rta_settled a' = rta_settled a + (if r = Cancelled then 0 else 1) \<and>
    rta_bulkhead a' = rbp_release (rta_bulkhead a)"
proof -
  obtain q t1 a1 w1 where q: "rta_use_breaker env operation payload headers dl t (a, w) = (q, t1, (a1, w1))"
    by (metis prod_cases4)
  then obtain c m where "a1 = a\<lparr>rta_circuit_breaker := c, rta_tries := m\<rparr>"
    by (rule rta_use_breaker_fields)
  then have a1: "rta_total_requests a1 = rta_total_requests a" "rta_settled a1 = rta_settled a"
    "rta_bulkhead a1 = rta_bulkhead a" by (simp_all add: rta_settled_def)
  have fail: "rta_total_requests (rta_fail a1) = rta_total_requests a"
    "rta_settled (rta_fail a1) = rta_settled a + 1" "rta_bulkhead (rta_fail a1) = rta_bulkhead a"
    using a1 by (simp_all add: rta_fail_def rta_settled_def Let_def)
  have release: "rta_total_requests (rta_release b) = rta_total_requests b"
    "rta_settled (rta_release b) = rta_settled b"
    "rta_bulkhead (rta_release b) = rbp_release (rta_bulkhead b)" for b
    by (simp_all add: rta_release_def rta_settled_def)
  have win: "rta_settled (a1\<lparr>rta_successful_requests := rta_successful_requests a1 + 1\<rparr>) = rta_settled a + 1"
    using a1 by (simp add: rta_settled_def)
  show ?thesis
    using assms
    by (auto simp: rta_guarded_def q a1 fail release win split: outcome.splits prod.splits)
qed

lemma rta_protected_books:
  assumes "rta_protected env operation payload headers key dl t (a, w) = (r, t', (a', w'))"
  shows "rta_total_requests a' = rta_total_requests a \<and>
    rta_settled a' = rta_settled a + (if r = Cancelled then 0 else 1) \<and>
    rta_bulkhead a' = rta_bulkhead a"
  using assms
  by (auto simp: rta_protected_def rbp_acquire_within_def acquire_within_def rta_settled_def
      split: if_splits dest!: rta_guarded_books)

lemma rta_cached_no_raise: "rta_cached env key dl t w \<noteq> (Raise e, t', w')"
  by (auto simp: rta_cached_def rim_get_result_def
      split: option.splits list.splits prod.splits outcome.splits sum.splits)

text \<open>
  The books of one \<open>execute\<close>, whatever the tool, Redis and the retry decorator do: the request is
  counted once; unless it was cancelled, or raised while its idempotency key was generated, it is
  settled once, as success, failure, rejection by the bulkhead or idempotency hit; and the
  bulkhead has its permit back in every case.
\<close>

theorem rta_execute_books:
  "case rta_execute env operation payload headers key dl t (a, w) of (r, t', (a', w')) \<Rightarrow>
     rta_total_requests a' = rta_total_requests a + 1 \<and>
     rta_bulkhead a' = rta_bulkhead a \<and>
     rta_settled a' = rta_settled a +
       (case rta_key env (rta_idempotency_config a) operation payload headers key of
          Inl _ \<Rightarrow> 0 | Inr _ \<Rightarrow> if r = Cancelled then 0 else 1)"
proof -
  obtain r t' a' w' where e: "rta_execute env operation payload headers key dl t (a, w) = (r, t', (a', w'))"
    by (metis prod_cases4)
  have settled: "rta_settled (a\<lparr>rta_total_requests := n\<rparr>) = rta_settled a"
    "rta_settled (a\<lparr>rta_total_requests := n, rta_idempotency_hits := rta_idempotency_hits a + 1\<rparr>) =
       rta_settled a + 1" for n
    by (simp_all add: rta_settled_def)
  show ?thesis
    using e
    by (auto simp: rta_execute_def Let_def settled split: sum.splits prod.splits outcome.splits if_splits
        dest!: rta_protected_books dest: rta_cached_no_raise [THEN notE])
qed

section \<open>What recovery does\<close>

text \<open>
  Documented behaviour of the parameters, for a client without connection trouble, calls
  without a deadline and texts that have not expired: \<open>content w\<close> is what Redis holds in the world
  \<open>w\<close>; a JSON text is read back as the value it was written from; the tool ends in the same way
  for the same operation and payload and leaves the log alone.
\<close>

definition kv_faithful :: "'w kv \<Rightarrow> ('w \<Rightarrow> (string, string) dict) \<Rightarrow> bool" where
  "kv_faithful kv content \<longleftrightarrow>
     (\<forall>w. wf_dict (content w)) \<and>
     (\<forall>k t w. \<exists>t' w'. kv_get kv k None t w = (Ok (dget (content w) k), t', w') \<and>
        content w' = content w) \<and>
     (\<forall>k ttl v t w. \<exists>t' w'. kv_setex kv k ttl v None t w = (Ok (), t', w') \<and>
        content w' = dset k v (content w)) \<and>
     (\<forall>t w. \<exists>t' w'. kv_keys kv ''wal:*'' None t w =
        (Ok (filter (starts_with ''wal:'') (map fst (content w))), t', w') \<and> content w' = content w)"

definition tx_reads_back :: "texts \<Rightarrow> bool" where
  "tx_reads_back tx \<longleftrightarrow> (\<forall>j s. tx_dumps tx j = Inr s \<longrightarrow> s \<noteq> [] \<and> tx_loads tx s = Inr j)"

definition tool_steady ::
  "'w rta_env \<Rightarrow> ('w \<Rightarrow> (string, string) dict) \<Rightarrow> (json \<Rightarrow> json \<Rightarrow> json outcome) \<Rightarrow> bool" where
  "tool_steady env content out \<longleftrightarrow>
     (\<forall>op pl. out op pl \<noteq> Cancelled) \<and>
     (\<forall>op pl t w. \<exists>t' w'. env_tool env op pl JNull None t w = (out op pl, t', w') \<and>
        content w' = content w)"

lemma kv_faithfulD:
  assumes "kv_faithful kv content"
  shows "wf_dict (content w)"
    "\<exists>t' w'. kv_get kv k None t w = (Ok (dget (content w) k), t', w') \<and> content w' = content w"
    "\<exists>t' w'. kv_setex kv k ttl v None t w = (Ok (), t', w') \<and> content w' = dset k v (content w)"
    "\<exists>t' w'. kv_keys kv ''wal:*'' None t w =
        (Ok (filter (starts_with ''wal:'') (map fst (content w))), t', w') \<and> content w' = content w"
  using assms unfolding kv_faithful_def by blast+

text \<open>The pending entries that a stored binding gives, and all of them, in the order of the keys.\<close>

definition wal_of :: "texts \<Rightarrow> string \<times> string \<Rightarrow> rwl list" where
  "wal_of tx = (\<lambda>(k, v). if starts_with ''wal:'' k
     then (case rwl_pending_of tx (Some v) of Inr es \<Rightarrow> es | Inl _ \<Rightarrow> []) else [])"

definition wal_entries :: "texts \<Rightarrow> (string, string) dict \<Rightarrow> rwl list" where
  "wal_entries tx content = concat (map (wal_of tx) content)"

text \<open>
  A well-formed log: the text under each key of the log is that of a dict with a state; a pending
  one can be read back as an entry whose identifier gives the key, and its completed form can be
  written.
\<close>

definition wal_ok_at :: "texts \<Rightarrow> (json \<Rightarrow> string) \<Rightarrow> string \<times> string \<Rightarrow> bool" where
  "wal_ok_at tx show_json = (\<lambda>(k, v). starts_with ''wal:'' k \<longrightarrow>
     v \<noteq> [] \<and> (\<exists>d st. tx_loads tx v = Inr (JDict d) \<and> dget d ''state'' = Some st \<and>
       (st = JStr ''pending'' \<longrightarrow>
          (\<exists>entry. rwl_of_json tx (JDict d) = Inr entry \<and> rwl_key show_json (rwl_id entry) = k) \<and>
          (\<exists>s. tx_dumps tx (JDict (dset ''state'' (JStr ''completed'') d)) = Inr s))))"

definition wal_ok :: "texts \<Rightarrow> (json \<Rightarrow> string) \<Rightarrow> (string, string) dict \<Rightarrow> bool" where
  "wal_ok tx show_json content \<longleftrightarrow> (\<forall>kv \<in> set content. wal_ok_at tx show_json kv)"

lemma wal_ok_at_cases:
  assumes "wal_ok_at tx show_json (k, v)"
  obtains (none) "wal_of tx (k, v) = []" "starts_with ''wal:'' k \<Longrightarrow> rwl_pending_of tx (Some v) = Inr []"
  | (pending) d entry s where "starts_with ''wal:'' k" "wal_of tx (k, v) = [entry]" "v \<noteq> []"
      "rwl_pending_of tx (Some v) = Inr [entry]" "rwl_key show_json (rwl_id entry) = k"
      "tx_loads tx v = Inr (JDict d)" "tx_dumps tx (JDict (dset ''state'' (JStr ''completed'') d)) = Inr s"
proof (cases "starts_with ''wal:'' k")
  case True
  with assms obtain d st where d: "v \<noteq> []" "tx_loads tx v = Inr (JDict d)" "dget d ''state'' = Some st"
    and p: "st = JStr ''pending'' \<longrightarrow>
          (\<exists>entry. rwl_of_json tx (JDict d) = Inr entry \<and> rwl_key show_json (rwl_id entry) = k) \<and>
          (\<exists>s. tx_dumps tx (JDict (dset ''state'' (JStr ''completed'') d)) = Inr s)"
    by (auto simp: wal_ok_at_def)
  obtain c cs where v: "v = c # cs" using d(1) by (cases v) auto
  show ?thesis
  proof (cases "st = JStr ''pending''")
    case st: True
    with p obtain entry s where e: "rwl_of_json tx (JDict d) = Inr entry"
      "rwl_key show_json (rwl_id entry) = k"
      "tx_dumps tx (JDict (dset ''state'' (JStr ''completed'') d)) = Inr s" by blast
    have r: "rwl_pending_of tx (Some v) = Inr [entry]"
      using d e(1) st by (simp add: rwl_pending_of_def v)
    then show ?thesis using True d e by (intro pending) (auto simp: wal_of_def)
  next
    case False
    then have "rwl_pending_of tx (Some v) = Inr []"
      using d by (simp add: rwl_pending_of_def v)
    then show ?thesis using True by (intro none) (auto simp: wal_of_def)
  qed
qed (auto simp: wal_of_def intro: none)

lemma wal_scan:
  assumes "kv_faithful kv content" and "content w = D"
    and "\<And>kv. kv \<in> set B \<Longrightarrow> wal_ok_at tx show_json kv" and "\<And>k v. (k, v) \<in> set B \<Longrightarrow> dget D k = Some v"
  shows "\<exists>t' w'. rwl_scan tx kv (filter (starts_with ''wal:'') (map fst B)) es None t w =
      (Ok (es @ wal_entries tx B), t', w') \<and> content w' = D"
  using assms(2-)
proof (induction B arbitrary: w t es)
  case Nil
  then show ?case by (simp add: wal_entries_def)
next
  case (Cons x B)
  obtain k v where x: "x = (k, v)" by (cases x)
  show ?case
  proof (cases "starts_with ''wal:'' k")
    case False
    then show ?thesis using Cons.IH [OF Cons.prems(1)] Cons.prems(2,3)
      by (auto simp: x wal_entries_def wal_of_def)
  next
    case True
    obtain t1 w1 where g: "kv_get kv k None t w = (Ok (Some v), t1, w1)" "content w1 = D"
      using kv_faithfulD(2) [OF assms(1), of k t w] Cons.prems by (auto simp: x)
    have p: "rwl_pending_of tx (Some v) = Inr (wal_of tx (k, v))"
      using Cons.prems(2) [of x] True by (auto simp: x elim!: wal_ok_at_cases)
    show ?thesis using Cons.IH [OF g(2), of "es @ wal_of tx (k, v)" t1] Cons.prems(2,3) True
      by (auto simp: x g p wal_entries_def)
  qed
qed

lemma wal_get_pending:
  assumes "kv_faithful kv content" and "wal_ok tx show_json (content w)"
  shows "\<exists>t' w'. rwl_get_pending_operations tx kv None t w =
    (Ok (wal_entries tx (content w)), t', w') \<and> content w' = content w"
proof -
  obtain t1 w1 where k: "kv_keys kv ''wal:*'' None t w =
      (Ok (filter (starts_with ''wal:'') (map fst (content w))), t1, w1)" "content w1 = content w"
    using kv_faithfulD(4) [OF assms(1)] by blast
  have get: "dget (content w) k = Some v" if "(k, v) \<in> set (content w)" for k v
    using wf_dict_mem [OF kv_faithfulD(1) [OF assms(1)]] that by force
  from wal_scan [OF assms(1) k(2) _ get, where B = "content w" and tx = tx and show_json = show_json and es = "[]" and t = t1]
  obtain t2 w2 where "rwl_scan tx kv (filter (starts_with ''wal:'') (map fst (content w))) [] None t1 w1 =
      (Ok (wal_entries tx (content w)), t2, w2)" "content w2 = content w"
    using assms(2) by (auto simp: wal_ok_def)
  then show ?thesis by (simp add: rwl_get_pending_operations_def k)
qed

text \<open>Marking the entry of a binding as completed removes it, and nothing else, from the log.\<close>

lemma wal_key_of:
  assumes "wal_ok_at tx show_json (k, v)" and "entry \<in> set (wal_of tx (k, v))"
  shows "rwl_key show_json (rwl_id entry) = k"
  using assms by (elim wal_ok_at_cases) auto

lemma wal_entriesE:
  assumes "wal_ok tx show_json D" and "entry \<in> set (wal_entries tx D)"
  obtains v where "(rwl_key show_json (rwl_id entry), v) \<in> set D" "entry \<in> set (wal_of tx (rwl_key show_json (rwl_id entry), v))"
proof -
  from assms(2) obtain k v where kv: "(k, v) \<in> set D" "entry \<in> set (wal_of tx (k, v))"
    by (auto simp: wal_entries_def)
  with assms(1) have "rwl_key show_json (rwl_id entry) = k"
    by (intro wal_key_of) (auto simp: wal_ok_def)
  with kv that show thesis by blast
qed

lemma wal_entries_other_key:
  assumes "wf_dict ((k, v) # D)" and "wal_ok tx show_json D" and "entry \<in> set (wal_entries tx D)"
  shows "rwl_key show_json (rwl_id entry) \<noteq> k"
proof -
  obtain u where "(rwl_key show_json (rwl_id entry), u) \<in> set D"
    by (rule wal_entriesE [OF assms(2,3)])
  then have "rwl_key show_json (rwl_id entry) \<in> fst ` set D" by (metis fst_conv imageI)
  then show ?thesis using assms(1) by (auto simp: wf_dict_def)
qed

lemma wal_entries_keys:
  assumes "wf_dict D" and "wal_ok tx show_json D"
  shows "distinct (map (\<lambda>e. rwl_key show_json (rwl_id e)) (wal_entries tx D))"
  using assms
proof (induction D)
  case Nil
  then show ?case by (simp add: wal_entries_def)
next
  case (Cons x D)
  obtain k v where x: "x = (k, v)" by (cases x)
  have ok: "wal_ok_at tx show_json (k, v)" "wal_ok tx show_json D"
    using Cons.prems(2) by (auto simp: wal_ok_def x)
  have k: "rwl_key show_json (rwl_id e) \<noteq> k" if "e \<in> set (wal_entries tx D)" for e
    using wal_entries_other_key [OF _ ok(2) that] Cons.prems(1) x by blast
  have IH: "distinct (map (\<lambda>e. rwl_key show_json (rwl_id e)) (wal_entries tx D))"
    using Cons.IH ok(2) Cons.prems(1) by (simp add: wf_dict_def x)
  have cons: "wal_entries tx (x # D) = wal_of tx (k, v) @ wal_entries tx D"
    by (simp add: x wal_entries_def)
  show ?case
  proof (cases rule: wal_ok_at_cases [OF ok(1)])
    case (2 d entry s)
    then show ?thesis using IH k unfolding cons by force
  qed (use IH in \<open>simp add: cons\<close>)
qed

lemma wal_entries_completed:
  assumes "wf_dict D" and "wal_ok tx show_json D" and "dget D k = Some v" and "wal_of tx (k, v') = []"
  shows "wal_entries tx (dset k v' D) = filter (\<lambda>e. rwl_key show_json (rwl_id e) \<noteq> k) (wal_entries tx D)"
  using assms
proof (induction D)
  case (Cons x D)
  obtain l u where x: "x = (l, u)" by (cases x)
  have ok: "wal_ok_at tx show_json (l, u)" "wal_ok tx show_json D" "wf_dict D"
    using Cons.prems(1,2) by (auto simp: wal_ok_def x wf_dict_def)
  have key: "rwl_key show_json (rwl_id e) = l" if "e \<in> set (wal_of tx (l, u))" for e
    by (rule wal_key_of [OF ok(1) that])
  show ?case
  proof (cases "l = k")
    case True
    have "rwl_key show_json (rwl_id e) \<noteq> k" if "e \<in> set (wal_entries tx D)" for e
      using wal_entries_other_key [OF _ ok(2) that] Cons.prems(1) True x by blast
    then have "filter (\<lambda>e. rwl_key show_json (rwl_id e) \<noteq> k) (wal_entries tx D) = wal_entries tx D"
      by (simp add: filter_id_conv)
    moreover have "filter (\<lambda>e. rwl_key show_json (rwl_id e) \<noteq> k) (wal_of tx (l, u)) = []"
      using key True by (simp add: filter_empty_conv)
    ultimately show ?thesis using True Cons.prems(4) by (simp add: x wal_entries_def)
  next
    case False
    then have "filter (\<lambda>e. rwl_key show_json (rwl_id e) \<noteq> k) (wal_of tx (l, u)) = wal_of tx (l, u)"
      using key by (simp add: filter_id_conv)
    moreover have "dget D k = Some v" using False Cons.prems(3) by (simp add: x)
    note Cons.IH [OF ok(3,2) this Cons.prems(4)]
    ultimately show ?thesis using False by (simp add: x wal_entries_def)
  qed
qed simp

lemma rwl_mark_completed_spec:
  assumes "kv_faithful kv content" and "tx_reads_back tx" and "wal_ok tx show_json (content w)"
    and "entry \<in> set (wal_entries tx (content w))"
  shows "\<exists>t' w'. rwl_mark_completed tx show_json kv (rwl_id entry) None t w = (Ok (), t', w') \<and>
    wal_ok tx show_json (content w') \<and>
    wal_entries tx (content w') =
      filter (\<lambda>e. rwl_key show_json (rwl_id e) \<noteq> rwl_key show_json (rwl_id entry))
        (wal_entries tx (content w))"
proof -
  let ?k = "rwl_key show_json (rwl_id entry)"
  obtain v where v: "(?k, v) \<in> set (content w)" "entry \<in> set (wal_of tx (?k, v))"
    by (rule wal_entriesE [OF assms(3,4)])
  have get: "dget (content w) ?k = Some v"
    using wf_dict_mem [OF kv_faithfulD(1) [OF assms(1)]] v(1) by force
  have ok: "wal_ok_at tx show_json (?k, v)" using v(1) assms(3) by (auto simp: wal_ok_def)
  obtain d s where k: "starts_with ''wal:'' ?k" "v \<noteq> []"
    and d: "tx_loads tx v = Inr (JDict d)" "tx_dumps tx (JDict (dset ''state'' (JStr ''completed'') d)) = Inr s"
  proof (cases rule: wal_ok_at_cases [OF ok])
    case 1
    then show ?thesis using v(2) by simp
  next
    case (2 d e s)
    then show ?thesis using that by blast
  qed
  have s: "s \<noteq> []" "tx_loads tx s = Inr (JDict (dset ''state'' (JStr ''completed'') d))"
    using assms(2) d(2) unfolding tx_reads_back_def by blast+
  obtain c cs where vc: "v = c # cs" using k(2) by (cases v) auto
  obtain x xs where sx: "s = x # xs" using s(1) by (cases s) auto
  obtain t1 w1 where g: "kv_get kv ?k None t w = (Ok (Some v), t1, w1)" "content w1 = content w"
    using kv_faithfulD(2) [OF assms(1), of ?k t w] get by auto
  obtain t2 w2 where p: "kv_setex kv ?k 86400 s None t1 w1 = (Ok (), t2, w2)"
      "content w2 = dset ?k s (content w)"
    using kv_faithfulD(3) [OF assms(1), of ?k 86400 s t1 w1] g(2) by auto
  have m: "rwl_mark_completed tx show_json kv (rwl_id entry) None t w = (Ok (), t2, w2)"
    using g(1) d p(1) by (simp add: rwl_mark_completed_def vc kv_store_def Let_def)
  have s_ok: "wal_ok_at tx show_json (?k, s)" and none: "wal_of tx (?k, s) = []"
    using s by (auto simp: wal_ok_at_def wal_of_def rwl_pending_of_def sx dget_dset)
  have "wal_ok tx show_json (content w2)"
    using assms(3) s_ok kv_faithfulD(1) [OF assms(1), of w]
    unfolding p(2) wal_ok_def by (auto dest!: mem_dset)
  moreover note wal_entries_completed [OF kv_faithfulD(1) [OF assms(1)] assms(3) get none]
  ultimately show ?thesis using m p(2) by auto
qed

text \<open>Recovery runs an entry to its end when the retry guard lets it through and the tool succeeds.\<close>

definition rta_runs :: "rtc \<Rightarrow> (json \<Rightarrow> json \<Rightarrow> json outcome) \<Rightarrow> rwl \<Rightarrow> bool" where
  "rta_runs config out entry \<longleftrightarrow>
     py_ge_int (rwl_retry_count entry) (rtc_max_attempts config) = Inr False \<and>
     succeeded (out (rwl_operation entry) (rwl_payload entry))"

lemma rta_recover_entry_spec:
  assumes kv: "kv_faithful kv content" and tx: "tx_reads_back (env_texts env)"
    and tool: "tool_steady env content out"
    and ok: "wal_ok (env_texts env) (env_show env) (content w)"
    and e: "entry \<in> set (wal_entries (env_texts env) (content w))"
  shows "\<exists>t' w'. rta_recover_entry env kv config entry n None t w =
      (Ok (n + (if rta_runs config out entry then 1 else 0)), t', w') \<and>
    wal_ok (env_texts env) (env_show env) (content w') \<and>
    wal_entries (env_texts env) (content w') =
      filter (\<lambda>x. \<not> (rta_runs config out entry \<and>
          rwl_key (env_show env) (rwl_id x) = rwl_key (env_show env) (rwl_id entry)))
        (wal_entries (env_texts env) (content w))"
proof (cases "py_ge_int (rwl_retry_count entry) (rtc_max_attempts config) = Inr False")
  case False
  then show ?thesis using ok
    by (auto simp: rta_recover_entry_def rta_runs_def split: sum.splits bool.splits)
next
  case True
  obtain t1 w1 where r: "env_tool env (rwl_operation entry) (rwl_payload entry) JNull None t w =
      (out (rwl_operation entry) (rwl_payload entry), t1, w1)" "content w1 = content w"
    using tool unfolding tool_steady_def by blast
  show ?thesis
  proof (cases "out (rwl_operation entry) (rwl_payload entry)")
    case (Ok x)
    obtain t2 w2 where m: "rwl_mark_completed (env_texts env) (env_show env) kv (rwl_id entry) None t1 w1 =
        (Ok (), t2, w2)" "wal_ok (env_texts env) (env_show env) (content w2)"
      "wal_entries (env_texts env) (content w2) =
        filter (\<lambda>e. rwl_key (env_show env) (rwl_id e) \<noteq> rwl_key (env_show env) (rwl_id entry))
          (wal_entries (env_texts env) (content w1))"
      using rwl_mark_completed_spec [OF kv tx, of "env_show env" w1 entry t1] ok e r(2) by auto
    then show ?thesis using True r Ok by (simp add: rta_recover_entry_def rta_runs_def)
  next
    case (Raise e)
    then show ?thesis using True r ok by (simp add: rta_recover_entry_def rta_runs_def)
  next
    case Cancelled
    then show ?thesis using tool by (auto simp: tool_steady_def)
  qed
qed

lemma rta_recover_entries_spec:
  assumes "kv_faithful kv content" and "tx_reads_back (env_texts env)"
    and "tool_steady env content out"
    and "wal_ok (env_texts env) (env_show env) (content w)"
    and "set es \<subseteq> set (wal_entries (env_texts env) (content w))"
    and "distinct (map (\<lambda>e. rwl_key (env_show env) (rwl_id e)) es)"
  shows "\<exists>t' w'. rta_recover_entries env kv config es n None t w =
      (Ok (n + int (length (filter (rta_runs config out) es))), t', w') \<and>
    wal_ok (env_texts env) (env_show env) (content w') \<and>
    wal_entries (env_texts env) (content w') =
      filter (\<lambda>x. \<not> (\<exists>e \<in> set es. rta_runs config out e \<and>
          rwl_key (env_show env) (rwl_id x) = rwl_key (env_show env) (rwl_id e)))
        (wal_entries (env_texts env) (content w))"
  using assms(4-)
proof (induction es arbitrary: n t w)
  case (Cons e es)
  have mem: "e \<in> set (wal_entries (env_texts env) (content w))" using Cons.prems(2) by simp
  obtain t1 w1 where s: "rta_recover_entry env kv config e n None t w =
      (Ok (n + (if rta_runs config out e then 1 else 0)), t1, w1)"
    "wal_ok (env_texts env) (env_show env) (content w1)"
    "wal_entries (env_texts env) (content w1) =
      filter (\<lambda>x. \<not> (rta_runs config out e \<and>
          rwl_key (env_show env) (rwl_id x) = rwl_key (env_show env) (rwl_id e)))
        (wal_entries (env_texts env) (content w))"
    using rta_recover_entry_spec [OF assms(1-3) Cons.prems(1) mem] by blast
  have "set es \<subseteq> set (wal_entries (env_texts env) (content w1))"
    using Cons.prems(2,3) by (auto simp: s(3) image_iff)
  from Cons.IH [OF s(2) this, of "n + (if rta_runs config out e then 1 else 0)" t1] Cons.prems(3)
  obtain t2 w2 where r: "rta_recover_entries env kv config es
      (n + (if rta_runs config out e then 1 else 0)) None t1 w1 =
      (Ok (n + (if rta_runs config out e then 1 else 0) + int (length (filter (rta_runs config out) es))), t2, w2)"
    "wal_ok (env_texts env) (env_show env) (content w2)"
    "wal_entries (env_texts env) (content w2) =
      filter (\<lambda>x. \<not> (\<exists>e \<in> set es. rta_runs config out e \<and>
          rwl_key (env_show env) (rwl_id x) = rwl_key (env_show env) (rwl_id e)))
        (wal_entries (env_texts env) (content w1))"
    by auto
  show ?case
    by (rule exI [of _ t2], rule exI [of _ w2])
      (use r s in \<open>auto intro!: filter_cong\<close>)
qed simp


lemma rwl_scan_stops:
  assumes "kv_faithful kv content" and "content w = D" and "k \<in> set ks"
    and "rwl_pending_of tx (dget D k) = Inl e" and "rwl_scan tx kv ks es None t w = (r, t', w')"
  shows "(\<exists>e. r = Raise e) \<and> content w' = D"
  using assms(2,3,5)
proof (induction ks arbitrary: es t w)
  case (Cons l ks)
  obtain t1 w1 where g: "kv_get kv l None t w = (Ok (dget D l), t1, w1)" "content w1 = D"
    using kv_faithfulD(2) [OF assms(1), of l t w] Cons.prems(1) by auto
  show ?case using Cons.IH [OF g(2)] Cons.prems(2,3) g assms(4) by (auto split: sum.splits)
qed simp

text \<open>
  C39. One text under \<open>wal:\<close> that cannot be read as an entry, be it of another writer, hides the
  whole log: recovery runs no operation at all and reports 0.
\<close>

theorem rta_unreadable_entry_hides_log:
  assumes "env_redis env = Some kv" and "kv_faithful kv content"
    and "starts_with ''wal:'' key" and "dget (content w) key = Some text"
    and "rwl_pending_of (env_texts env) (Some text) = Inl e"
  shows "\<exists>t' w'. content w' = content w \<and>
    (\<forall>tool. rta_recover_pending_operations (env\<lparr>env_tool := tool\<rparr>) config None t w = (Ok 0, t', w'))"
proof -
  let ?ks = "filter (starts_with ''wal:'') (map fst (content w))"
  obtain t1 w1 where k: "kv_keys kv ''wal:*'' None t w = (Ok ?ks, t1, w1)" "content w1 = content w"
    using kv_faithfulD(4) [OF assms(2)] by blast
  obtain r t2 w2 where s: "rwl_scan (env_texts env) kv ?ks [] None t1 w1 = (r, t2, w2)"
    by (rule prod_cases3)
  have "key \<in> set ?ks" using assms(3) map_of_SomeD [OF assms(4)] by force
  with rwl_scan_stops [OF assms(2) k(2) this _ s] assms(4,5)
  obtain e' where "r = Raise e'" "content w2 = content w" by auto
  then show ?thesis using assms(1) k s
    by (auto simp: rta_recover_pending_operations_def rwl_get_pending_operations_def)
qed

section \<open>Witnesses\<close>

text \<open>
  A Redis that is its content, two logged operations, \<open>send\<close>, which the tool can do, and
  \<open>break\<close>, which it cannot, and a JSON text for each value that occurs.
\<close>

definition demo_content :: "(string, string) dict \<Rightarrow> (string, string) dict" where
  "demo_content w = (if wf_dict w then w else [])"

definition demo_kv :: "(string, string) dict kv" where
  "demo_kv =
     \<lparr>kv_get = (\<lambda>k dl t w. (Ok (dget (demo_content w) k), t, w)),
      kv_setex = (\<lambda>k ttl v dl t w. (Ok (), t, dset k v (demo_content w))),
      kv_keys = (\<lambda>pat dl t w. (Ok (filter (starts_with ''wal:'') (map fst (demo_content w))), t, w)),
      kv_exists = (\<lambda>k dl t w. (Ok (if dget (demo_content w) k = None then 0 else 1), t, w))\<rparr>"

definition demo_entry :: "string \<Rightarrow> string \<Rightarrow> string \<Rightarrow> (string \<times> json) list" where
  "demo_entry i operation state =
     [(''id'', JStr i), (''timestamp'', JStr ''now''), (''operation'', JStr operation),
      (''payload'', JDict []), (''state'', JStr state), (''retry_count'', JInt 0),
      (''last_attempt'', JNull), (''error'', JNull)]"

definition demo_texts :: texts where
  "demo_texts =
     \<lparr>tx_dumps = (\<lambda>j. if j = JDict (demo_entry ''a'' ''send'' ''completed'') then Inr ''A''
        else if j = JDict (demo_entry ''b'' ''break'' ''completed'') then Inr ''B''
        else Inl (type_error ''not serializable'')),
      tx_dumps_sorted = (\<lambda>j. Inl (type_error ''not serializable'')),
      tx_loads = (\<lambda>s. if s = ''a'' then Inr (JDict (demo_entry ''a'' ''send'' ''pending''))
        else if s = ''b'' then Inr (JDict (demo_entry ''b'' ''break'' ''pending''))
        else if s = ''A'' then Inr (JDict (demo_entry ''a'' ''send'' ''completed''))
        else if s = ''B'' then Inr (JDict (demo_entry ''b'' ''break'' ''completed''))
        else Inl (value_error ''Expecting value'')),
      tx_sha256 = (\<lambda>s. s), tx_isoformat = (\<lambda>t. ''now''), tx_fromisoformat = (\<lambda>j. Inr 0)\<rparr>"

definition demo_out :: "json \<Rightarrow> json \<Rightarrow> json outcome" where
  "demo_out operation payload =
     (if operation = JStr ''send'' then Ok (JDict []) else Raise (exception ''broken''))"

definition demo_env :: "(string, string) dict rta_env" where
  "demo_env =
     \<lparr>env_texts = demo_texts, env_show = (\<lambda>j. ''''), env_redis = Some demo_kv,
      env_uuid = nat_str, env_tool = (\<lambda>op pl headers dl t w. (demo_out op pl, t, w)),
      env_retrying = (\<lambda>config f. f)\<rparr>"

definition demo_log :: "(string, string) dict" where
  "demo_log = [(''wal:a'', ''a''), (''wal:b'', ''b'')]"

lemma demo_kv_faithful: "kv_faithful demo_kv demo_content"
  by (auto simp: kv_faithful_def demo_kv_def demo_content_def)

lemma demo_reads_back: "tx_reads_back (env_texts demo_env)"
  by (auto simp: tx_reads_back_def demo_env_def demo_texts_def demo_entry_def split: if_splits)

lemma demo_tool_steady: "tool_steady demo_env demo_content demo_out"
  by (auto simp: tool_steady_def demo_env_def demo_out_def)

lemma demo_log_content: "demo_content demo_log = demo_log"
  by (simp add: demo_content_def demo_log_def wf_dict_def)

lemma demo_wal_ok: "wal_ok (env_texts demo_env) (env_show demo_env) (demo_content demo_log)"
  unfolding demo_log_content
  by (simp add: wal_ok_def wal_ok_at_def demo_log_def demo_env_def demo_texts_def demo_entry_def
      starts_with_def rwl_of_json_def rwl_key_def)

definition demo_rwl :: "string \<Rightarrow> string \<Rightarrow> rwl" where
  "demo_rwl i operation =
     \<lparr>rwl_id = JStr i, rwl_timestamp = 0, rwl_operation = JStr operation, rwl_payload = JDict [],
      rwl_state = JStr ''pending'', rwl_retry_count = JInt 0, rwl_last_attempt = None,
      rwl_error = JNull\<rparr>"

lemma demo_entries:
  "wal_entries (env_texts demo_env) (demo_content demo_log) = [demo_rwl ''a'' ''send'', demo_rwl ''b'' ''break'']"
  unfolding demo_log_content
  by (simp add: wal_entries_def wal_of_def rwl_pending_of_def demo_log_def demo_env_def demo_texts_def
      demo_entry_def demo_rwl_def starts_with_def rwl_of_json_def)

lemma demo_runs:
  "rta_runs rtc_default demo_out (demo_rwl ''a'' ''send'')"
  "\<not> rta_runs rtc_default demo_out (demo_rwl ''b'' ''break'')"
  by (simp_all add: rta_runs_def demo_rwl_def rtc_default_def demo_out_def)


theorem rta_unreadable_entry_hides_log_witness:
  "\<exists>t' w'. demo_content w' = demo_log @ [(''wal:x'', ''?'')] \<and>
    rta_recover_pending_operations (demo_env\<lparr>env_tool := env_tool demo_env\<rparr>) rtc_default None 0
      (demo_log @ [(''wal:x'', ''?'')]) = (Ok 0, t', w')"
proof -
  let ?w = "demo_log @ [(''wal:x'', ''?'')]"
  have redis: "env_redis demo_env = Some demo_kv" by (simp add: demo_env_def)
  have w: "demo_content ?w = ?w" by (simp add: demo_content_def demo_log_def wf_dict_def)
  have key: "starts_with ''wal:'' ''wal:x''" by (simp add: starts_with_def)
  have get: "dget (demo_content ?w) ''wal:x'' = Some ''?''" unfolding w by (simp add: demo_log_def)
  have bad: "rwl_pending_of (env_texts demo_env) (Some ''?'') = Inl (value_error ''Expecting value'')"
    by (simp add: rwl_pending_of_def demo_env_def demo_texts_def)
  show ?thesis
    using rta_unreadable_entry_hides_log [OF redis demo_kv_faithful key get bad, of rtc_default 0] w
    by metis
qed

end
