(* ===== verification/DeadLetters.thy ===== *)
theory DeadLetters
  imports Interfaces Json "HOL-Library.Sublist"
begin

text \<open>
  \<^verbatim>\<open>libs/events/dlq_handler.py\<close> and \<^verbatim>\<open>libs/events/event_consumer.py\<close>: the in-memory dead-letter queue
  with its automatic and manual retries, and the consumer that handles an event a number of
  times before it sends it there.

  The classes \<open>Event\<close>, \<open>EventMetadata\<close> and the members of \<open>EventType\<close> that these files use are not
  defined in the repository: an event is a parameter \<open>'e\<close> with the operations \<open>event_ops\<close>. The
  event bus is a coroutine \<open>publish\<close>; it may change the queue, since other tasks run while it is
  awaited. Date-times are the clock: what \<open>isoformat\<close> writes, \<open>fromisoformat\<close> reads back.
\<close>

section \<open>Events\<close>

record 'e event_ops =
  ev_to_dict :: "'e \<Rightarrow> json"
  ev_from_dict :: "json \<Rightarrow> exn + 'e"
  ev_id :: "'e \<Rightarrow> string"
  ev_type :: "'e \<Rightarrow> string"

section \<open>The dead-letter queue\<close>

record dq_config =
  dqc_dlq_subject :: string
  dqc_max_retry_attempts :: int
  dqc_retry_delay :: rat
  dqc_max_dlq_size :: int
  dqc_retention_period :: int
  dqc_enable_auto_retry :: bool
  dqc_retry_backoff_multiplier :: rat

definition dq_default_config :: dq_config where
  "dq_default_config =
     \<lparr>dqc_dlq_subject = ''dlq.events'', dqc_max_retry_attempts = 3, dqc_retry_delay = 300,
      dqc_max_dlq_size = 10000, dqc_retention_period = 7 * 24 * 60 * 60,
      dqc_enable_auto_retry = True, dqc_retry_backoff_multiplier = 2\<rparr>"

record dq_entry =
  dqe_event :: json
  dqe_reason :: string
  dqe_timestamp :: rat
  dqe_retry_count :: int
  dqe_next_retry :: rat

text \<open>
  The entries are dicts that a pending retry and the queue share, so the queue is a list of
  references to objects: \<open>dq_objects r\<close> is the entry that was created as number \<open>r\<close>.
\<close>

record dq =
  dq_config :: dq_config
  dq_events :: "nat list"
  dq_objects :: "nat \<Rightarrow> dq_entry"
  dq_created :: nat
  dq_received :: int
  dq_retried :: int
  dq_expired :: int
  dq_processed :: int

definition dq_no_entry :: dq_entry where
  "dq_no_entry = \<lparr>dqe_event = JNull, dqe_reason = '''', dqe_timestamp = 0, dqe_retry_count = 0,
     dqe_next_retry = 0\<rparr>"

definition dq_init :: "dq_config option \<Rightarrow> dq" where
  "dq_init config =
     \<lparr>dq_config = (case config of None \<Rightarrow> dq_default_config | Some c \<Rightarrow> c), dq_events = [],
      dq_objects = (\<lambda>_. dq_no_entry), dq_created = 0, dq_received = 0, dq_retried = 0,
      dq_expired = 0, dq_processed = 0\<rparr>"

definition index_error :: exn where
  "index_error = Exn [''IndexError'', ''LookupError'', ''Exception''] ''pop from empty list''"

definition dq_send_to_dlq :: "'e event_ops \<Rightarrow> 'e \<Rightarrow> string \<Rightarrow> rat \<Rightarrow> dq \<Rightarrow> exn + dq" where
  "dq_send_to_dlq ops event reason now q =
     ebind (if dqc_max_dlq_size (dq_config q) \<le> int (length (dq_events q)) then
              (case dq_events q of
                 [] \<Rightarrow> Inl index_error
               | _ # es \<Rightarrow> Inr (q\<lparr>dq_events := es\<rparr>))
            else Inr q) (\<lambda>q1.
       (let entry = \<lparr>dqe_event = ev_to_dict ops event, dqe_reason = reason, dqe_timestamp = now,
                     dqe_retry_count = 0, dqe_next_retry = now\<rparr>
        in Inr (q1\<lparr>dq_events := dq_events q1 @ [dq_created q1],
                   dq_objects := (dq_objects q1)(dq_created q1 := entry),
                   dq_created := dq_created q1 + 1, dq_received := dq_received q1 + 1\<rparr>)))"

section \<open>Retries\<close>

text \<open>\<open>xs.pop(i)\<close> for an index in range.\<close>

definition pop_at :: "nat \<Rightarrow> 'a list \<Rightarrow> 'a list" where
  "pop_at i xs = take i xs @ drop (Suc i) xs"

text \<open>What \<open>_retry_event\<close> does with the answer of the bus, inside the lock.\<close>

definition dq_retried_ok :: "nat \<Rightarrow> dq \<Rightarrow> dq" where
  "dq_retried_ok index q =
     (let q1 = (if index < length (dq_events q) then q\<lparr>dq_events := pop_at index (dq_events q)\<rparr> else q)
      in q1\<lparr>dq_processed := dq_processed q1 + 1\<rparr>)"

definition dq_backoff :: "dq_config \<Rightarrow> int \<Rightarrow> rat" where
  "dq_backoff c retry_count = dqc_retry_delay c * dqc_retry_backoff_multiplier c ^ nat retry_count"

definition dq_retried_failed :: "rat \<Rightarrow> nat \<Rightarrow> nat \<Rightarrow> dq \<Rightarrow> dq" where
  "dq_retried_failed now index ref q =
     (let entry = dq_objects q ref;
          retry_count = dqe_retry_count entry + 1;
          entry1 = entry\<lparr>dqe_retry_count := retry_count,
                         dqe_next_retry := now + dq_backoff (dq_config q) retry_count\<rparr>;
          q1 = (if index < length (dq_events q) then q\<lparr>dq_objects := (dq_objects q)(ref := entry1)\<rparr> else q)
      in q1\<lparr>dq_retried := dq_retried q1 + 1\<rparr>)"

definition dq_retry_event ::
  "'e event_ops \<Rightarrow> ('e \<Rightarrow> (dq \<times> 'w, bool) coro) \<Rightarrow> nat \<Rightarrow> nat \<Rightarrow> (dq \<times> 'w, unit) coro" where
  "dq_retry_event ops publish index ref dl t = (\<lambda>(q, w).
     (case ev_from_dict ops (dqe_event (dq_objects q ref)) of
        Inl _ \<Rightarrow> (Ok (), t, (q, w))
      | Inr event \<Rightarrow>
          (case publish event dl t (q, w) of
             (Ok True, t1, (q1, w1)) \<Rightarrow> (Ok (), t1, (dq_retried_ok index q1, w1))
           | (Ok False, t1, (q1, w1)) \<Rightarrow> (Ok (), t1, (dq_retried_failed t1 index ref q1, w1))
           | (Raise _, t1, v1) \<Rightarrow> (Ok (), t1, v1)
           | (Cancelled, t1, v1) \<Rightarrow> (Cancelled, t1, v1))))"

definition dq_due :: "rat \<Rightarrow> dq \<Rightarrow> nat \<Rightarrow> bool" where
  "dq_due now q ref \<longleftrightarrow> dqe_next_retry (dq_objects q ref) \<le> now \<and>
     dqe_retry_count (dq_objects q ref) < dqc_max_retry_attempts (dq_config q)"

definition dq_events_to_retry :: "rat \<Rightarrow> dq \<Rightarrow> (nat \<times> nat) list" where
  "dq_events_to_retry now q = filter (dq_due now q \<circ> snd) (enumerate 0 (dq_events q))"

fun dq_retry_all ::
  "'e event_ops \<Rightarrow> ('e \<Rightarrow> (dq \<times> 'w, bool) coro) \<Rightarrow> (nat \<times> nat) list \<Rightarrow> (dq \<times> 'w, unit) coro" where
  "dq_retry_all ops publish [] dl t v = (Ok (), t, v)"
| "dq_retry_all ops publish ((index, ref) # rest) dl t v =
     (case dq_retry_event ops publish index ref dl t v of
        (Ok _, t1, v1) \<Rightarrow> dq_retry_all ops publish rest dl t1 v1
      | (Raise e, t1, v1) \<Rightarrow> (Raise e, t1, v1)
      | (Cancelled, t1, v1) \<Rightarrow> (Cancelled, t1, v1))"

text \<open>\<open>bus\<close> is \<open>self.event_bus\<close>, if set.\<close>

definition dq_process_retries ::
  "'e event_ops \<Rightarrow> ('e \<Rightarrow> (dq \<times> 'w, bool) coro) option \<Rightarrow> (dq \<times> 'w, unit) coro" where
  "dq_process_retries ops bus dl t = (\<lambda>(q, w).
     (case bus of
        None \<Rightarrow> (Ok (), t, (q, w))
      | Some publish \<Rightarrow>
          (if \<not> dqc_enable_auto_retry (dq_config q) then (Ok (), t, (q, w))
           else dq_retry_all ops publish (dq_events_to_retry t q) dl t (q, w))))"

text \<open>
  \<open>manual_retry\<close> awaits \<open>_retry_event\<close> while it holds the lock that \<open>_retry_event\<close> waits for after
  the bus has answered. \<open>asyncio.Lock\<close> is not reentrant: without a deadline the call never
  returns, which is the value \<open>None\<close>; the second component says whether the lock is held then.
\<close>

fun dq_find :: "'e event_ops \<Rightarrow> (nat \<Rightarrow> dq_entry) \<Rightarrow> string \<Rightarrow> nat list \<Rightarrow> exn + nat option" where
  "dq_find ops objects event_id [] = Inr None"
| "dq_find ops objects event_id (ref # refs) =
     ebind (ev_from_dict ops (dqe_event (objects ref))) (\<lambda>event.
       if ev_id ops event = event_id then Inr (Some ref) else dq_find ops objects event_id refs)"

definition lock_forever :: "rat option \<Rightarrow> rat \<Rightarrow> 'v \<Rightarrow> ('a outcome \<times> rat \<times> 'v) option" where
  "lock_forever dl t v = (case dl of None \<Rightarrow> None | Some D \<Rightarrow> Some (Cancelled, max t D, v))"

definition dq_manual_retry ::
  "'e event_ops \<Rightarrow> ('e \<Rightarrow> (dq \<times> 'w, bool) coro) option \<Rightarrow> string \<Rightarrow> rat option \<Rightarrow> rat \<Rightarrow> dq \<times> 'w \<Rightarrow>
   (bool outcome \<times> rat \<times> dq \<times> 'w) option" where
  "dq_manual_retry ops bus event_id dl t = (\<lambda>(q, w).
     (case bus of
        None \<Rightarrow> Some (Ok False, t, (q, w))
      | Some publish \<Rightarrow>
          (case dq_find ops (dq_objects q) event_id (dq_events q) of
             Inl e \<Rightarrow> Some (Raise e, t, (q, w))
           | Inr None \<Rightarrow> Some (Ok False, t, (q, w))
           | Inr (Some ref) \<Rightarrow>
               (case ev_from_dict ops (dqe_event (dq_objects q ref)) of
                  Inl _ \<Rightarrow> Some (Ok True, t, (q, w))
                | Inr event \<Rightarrow>
                    (case publish event dl t (q, w) of
                       (Ok _, t1, v1) \<Rightarrow> lock_forever dl t1 v1
                     | (Raise _, t1, v1) \<Rightarrow> Some (Ok True, t1, v1)
                     | (Cancelled, t1, v1) \<Rightarrow> Some (Cancelled, t1, v1))))))"

section \<open>Clean-up and queries\<close>

definition dq_cleanup_expired_events :: "rat \<Rightarrow> dq \<Rightarrow> dq" where
  "dq_cleanup_expired_events now q =
     (let cutoff_time = now - of_int (dqc_retention_period (dq_config q));
          kept = filter (\<lambda>ref. cutoff_time < dqe_timestamp (dq_objects q ref)) (dq_events q);
          removed_count = int (length (dq_events q)) - int (length kept);
          q1 = q\<lparr>dq_events := kept\<rparr>
      in if 0 < removed_count then q1\<lparr>dq_expired := dq_expired q1 + removed_count\<rparr> else q1)"

text \<open>\<open>xs[i:j]\<close> with integers of either sign.\<close>

definition py_slice :: "int \<Rightarrow> int \<Rightarrow> 'a list \<Rightarrow> 'a list" where
  "py_slice i j xs =
     (let n = int (length xs);
          clip = (\<lambda>k. nat (max 0 (min n (if k < 0 then k + n else k))))
      in drop (clip i) (take (clip j) xs))"

definition dq_get_dlq_events ::
  "'e event_ops \<Rightarrow> int \<Rightarrow> int \<Rightarrow> string option \<Rightarrow> dq \<Rightarrow> exn + dq_entry list" where
  "dq_get_dlq_events ops limit offset event_type q =
     (let events = map (dq_objects q) (py_slice offset (offset + limit) (dq_events q))
      in case event_type of
           None \<Rightarrow> Inr events
         | Some ty \<Rightarrow>
             ebind (emap (\<lambda>entry. ebind (ev_from_dict ops (dqe_event entry)) (\<lambda>e. Inr (ev_type ops e)))
                     events) (\<lambda>types.
               Inr (map fst (filter (\<lambda>(entry, ty'). ty' = ty) (zip events types)))))"

definition dq_clear_dlq :: "dq \<Rightarrow> int \<times> dq" where
  "dq_clear_dlq q = (int (length (dq_events q)), q\<lparr>dq_events := []\<rparr>)"

record dq_stats =
  dqs_events_received :: int
  dqs_events_retried :: int
  dqs_events_expired :: int
  dqs_events_processed :: int
  dqs_dlq_size :: int
  dqs_max_dlq_size :: int
  dqs_max_retry_attempts :: int
  dqs_retry_delay :: rat
  dqs_retention_period :: int
  dqs_auto_retry_enabled :: bool

definition dq_get_stats :: "dq \<Rightarrow> dq_stats" where
  "dq_get_stats q =
     \<lparr>dqs_events_received = dq_received q, dqs_events_retried = dq_retried q,
      dqs_events_expired = dq_expired q, dqs_events_processed = dq_processed q,
      dqs_dlq_size = int (length (dq_events q)),
      dqs_max_dlq_size = dqc_max_dlq_size (dq_config q),
      dqs_max_retry_attempts = dqc_max_retry_attempts (dq_config q),
      dqs_retry_delay = dqc_retry_delay (dq_config q),
      dqs_retention_period = dqc_retention_period (dq_config q),
      dqs_auto_retry_enabled = dqc_enable_auto_retry (dq_config q)\<rparr>"

definition dq_reset_stats :: "dq \<Rightarrow> dq" where
  "dq_reset_stats q = q\<lparr>dq_received := 0, dq_retried := 0, dq_expired := 0, dq_processed := 0\<rparr>"

section \<open>What a round of retries removes\<close>

text \<open>Indices taken before the round, used after entries have gone.\<close>

definition pop_stale :: "nat \<Rightarrow> 'a list \<Rightarrow> 'a list" where
  "pop_stale i xs = (if i < length xs then pop_at i xs else xs)"

fun odds :: "'a list \<Rightarrow> 'a list" where
  "odds (x # y # xs) = y # odds xs"
| "odds _ = []"

lemma fold_pop_stale_short: "length xs \<le> k \<Longrightarrow> fold pop_stale [k..<m] xs = xs"
proof (induction "m - k" arbitrary: k)
  case (Suc n)
  then have "[k..<m] = k # [Suc k..<m]" by (simp add: upt_conv_Cons)
  then show ?case using Suc by (simp add: pop_stale_def)
qed simp

lemma fold_pop_stale:
  "length ys = k \<Longrightarrow> fold pop_stale [k..<k + n] (ys @ zs) = ys @ odds (take (2 * n) zs) @ drop (2 * n) zs"
proof (induction n arbitrary: k ys zs)
  case (Suc n)
  have upt: "[k..<Suc (k + n)] = k # [Suc k..<Suc (k + n)]" by (simp add: upt_conv_Cons)
  show ?case
  proof (cases zs)
    case Nil
    then show ?thesis using Suc.prems fold_pop_stale_short [of ys k "k + Suc n"] by simp
  next
    case (Cons x zs')
    have pop: "pop_stale k (ys @ zs) = ys @ zs'"
      using Suc.prems Cons by (simp add: pop_stale_def pop_at_def)
    show ?thesis
    proof (cases zs')
      case Nil
      then show ?thesis using Suc.prems Cons pop fold_pop_stale_short [of ys "Suc k" "Suc k + n"]
        by (simp add: upt del: upt_Suc)
    next
      case 2: (Cons y zs'')
      have "fold pop_stale [Suc k..<Suc k + n] ((ys @ [y]) @ zs'') =
          (ys @ [y]) @ odds (take (2 * n) zs'') @ drop (2 * n) zs''"
        by (rule Suc.IH) (use Suc.prems in simp)
      then show ?thesis using Suc.prems Cons 2 pop by (simp add: upt del: upt_Suc)
    qed
  qed
qed simp

text \<open>A bus that accepts every event at once, and a record of what it was given.\<close>

definition accepting :: "'e \<Rightarrow> (dq \<times> 'e list, bool) coro" where
  "accepting event dl t = (\<lambda>(q, w). (Ok True, t, (q, w @ [event])))"

lemma accepting_simp [simp]: "accepting event dl t (q, w) = (Ok True, t, (q, w @ [event]))"
  by (simp add: accepting_def)

lemma dq_retry_all_accepting:
  assumes "\<And>i r. (i, r) \<in> set due \<Longrightarrow> \<exists>e. ev_from_dict ops (dqe_event (dq_objects q r)) = Inr e"
  shows "dq_retry_all ops accepting due dl t (q, w) =
    (Ok (), t,
     (q\<lparr>dq_events := fold pop_stale (map fst due) (dq_events q),
        dq_processed := dq_processed q + int (length due)\<rparr>,
      w @ map (\<lambda>(_, r). projr (ev_from_dict ops (dqe_event (dq_objects q r)))) due))"
  using assms
proof (induction due arbitrary: q w)
  case (Cons x due)
  obtain i r where x: "x = (i, r)" by (cases x)
  obtain e where e: "ev_from_dict ops (dqe_event (dq_objects q r)) = Inr e"
    using Cons.prems [of i r] x by auto
  let ?q = "dq_retried_ok i q"
  have q: "?q = q\<lparr>dq_events := pop_stale i (dq_events q), dq_processed := dq_processed q + 1\<rparr>"
    by (simp add: dq_retried_ok_def pop_stale_def Let_def)
  have ok: "\<exists>e. ev_from_dict ops (dqe_event (dq_objects ?q r)) = Inr e" if "(i, r) \<in> set due" for i r
    using Cons.prems [of i r] that unfolding q by simp
  show ?case
    unfolding x by (simp add: dq_retry_event_def e Cons.IH [OF ok, unfolded q] q)
qed simp

text \<open>
  C2. A round of retries removes entries by positions that are out of date. When the first \<open>n\<close>
  entries are due, the rest is not, and the bus accepts everything, then exactly the due events
  are published and all are counted as processed; but what leaves the queue are the entries at
  the even positions below \<open>2 n\<close>. Of the due entries every second one stays, to be published once
  more in the next round; and an entry of \<open>rest\<close> that stands in its place is lost although
  nobody has published it.
\<close>

theorem dq_retry_removes_wrong_entries:
  assumes "dq_events q = due @ rest" and "dqc_enable_auto_retry (dq_config q)"
    and "\<And>r. r \<in> set due \<Longrightarrow> dq_due t q r \<and> ev_from_dict ops (dqe_event (dq_objects q r)) = Inr (event r)"
    and "\<And>r. r \<in> set rest \<Longrightarrow> \<not> dq_due t q r"
  shows "dq_process_retries ops (Some accepting) dl t (q, published) =
    (Ok (), t,
     (q\<lparr>dq_events := odds (take (2 * length due) (due @ rest)) @ drop (2 * length due) (due @ rest),
        dq_processed := dq_processed q + int (length due)\<rparr>,
      published @ map event due))"
proof -
  have retry: "dq_events_to_retry t q = enumerate 0 due"
  proof -
    have "filter (dq_due t q \<circ> snd) (enumerate 0 due) = enumerate 0 due"
      using assms(3) by (auto simp: filter_id_conv in_set_enumerate_eq)
    moreover have "filter (dq_due t q \<circ> snd) (enumerate (length due) rest) = []"
      using assms(4) by (auto simp: filter_empty_conv in_set_enumerate_eq)
    ultimately show ?thesis by (simp add: dq_events_to_retry_def assms(1) enumerate_append_eq)
  qed
  have ok: "\<exists>e. ev_from_dict ops (dqe_event (dq_objects q r)) = Inr e"
    if "(i, r) \<in> set (enumerate 0 due)" for i r
    using that assms(3) [of r] by (auto simp: in_set_enumerate_eq)
  have pops: "fold pop_stale [0..<length due] (due @ rest) =
      odds (take (2 * length due) (due @ rest)) @ drop (2 * length due) (due @ rest)"
    using fold_pop_stale [of "[]" 0 "length due" "due @ rest"] by simp
  have evs: "map (\<lambda>(_, r). projr (ev_from_dict ops (dqe_event (dq_objects q r)))) (enumerate 0 due) = map event due"
    using assms(3) by (simp add: list_eq_iff_nth_eq nth_enumerate_eq)
  show ?thesis
    unfolding dq_process_retries_def
    by (simp add: assms(2) retry dq_retry_all_accepting [OF ok] evs pops assms(1) del: take_append drop_append)
qed

section \<open>The event consumer\<close>

record ec_config =
  ecc_max_concurrent_events :: int
  ecc_event_timeout :: rat
  ecc_retry_attempts :: int
  ecc_retry_delay :: rat
  ecc_enable_dlq :: bool
  ecc_dlq_config :: "dq_config option"

definition ec_default_config :: ec_config where
  "ec_default_config =
     \<lparr>ecc_max_concurrent_events = 10, ecc_event_timeout = 30, ecc_retry_attempts = 3,
      ecc_retry_delay = 1, ecc_enable_dlq = True, ecc_dlq_config = None\<rparr>"

definition ec_post_init :: "ec_config \<Rightarrow> ec_config" where
  "ec_post_init c =
     (case ecc_dlq_config c of None \<Rightarrow> c\<lparr>ecc_dlq_config := Some dq_default_config\<rparr> | Some _ \<Rightarrow> c)"

record ('e, 'w) ec =
  ec_config :: ec_config
  ec_handlers :: "(string, 'e \<Rightarrow> ('w, unit) coro) dict"
  ec_subscriptions :: "(string, string) dict"
  ec_semaphore :: int
  ec_dlq_handler :: "dq option"
  ec_events_processed :: int
  ec_events_failed :: int
  ec_events_retried :: int
  ec_events_dlq :: int
  ec_concurrent_events :: int

definition ec_init :: "ec_config option \<Rightarrow> exn + ('e, 'w) ec" where
  "ec_init config =
     (let c = ec_post_init (case config of None \<Rightarrow> ec_default_config | Some c \<Rightarrow> c)
      in if ecc_max_concurrent_events c < 0
         then Inl (value_error ''Semaphore initial value must be >= 0'')
         else Inr \<lparr>ec_config = c, ec_handlers = [], ec_subscriptions = [],
                ec_semaphore = ecc_max_concurrent_events c,
                ec_dlq_handler = (if ecc_enable_dlq c then Some (dq_init (ecc_dlq_config c)) else None),
                ec_events_processed = 0, ec_events_failed = 0, ec_events_retried = 0,
                ec_events_dlq = 0, ec_concurrent_events = 0\<rparr>)"

text \<open>The subject of an event type, given by the name of the member of \<open>EventType\<close>.\<close>

definition ec_type_mapping :: "(string, string) dict" where
  "ec_type_mapping =
     [(''AGENT_RUN_STARTED'', ''agent_events.run.started''),
      (''AGENT_RUN_COMPLETED'', ''agent_events.run.completed''),
      (''AGENT_RUN_FAILED'', ''agent_events.run.failed''),
      (''AGENT_RUN_CANCELLED'', ''agent_events.run.cancelled''),
      (''ROUTER_DECISION_MADE'', ''router_events.decision.made''),
      (''ROUTER_DECISION_FAILED'', ''router_events.decision.failed''),
      (''WORKFLOW_STARTED'', ''workflow_events.started''),
      (''WORKFLOW_STEP_COMPLETED'', ''workflow_events.step.completed''),
      (''WORKFLOW_COMPLETED'', ''workflow_events.completed''),
      (''WORKFLOW_FAILED'', ''workflow_events.failed''),
      (''TOOL_CALL_STARTED'', ''tool_events.call.started''),
      (''TOOL_CALL_COMPLETED'', ''tool_events.call.completed''),
      (''TOOL_CALL_FAILED'', ''tool_events.call.failed''),
      (''SYSTEM_HEALTH_CHECK'', ''system_events.health.check''),
      (''SYSTEM_METRICS_UPDATED'', ''system_events.metrics.updated''),
      (''SYSTEM_ALERT'', ''system_events.alert''),
      (''USER_REGISTERED'', ''user_events.registered''),
      (''USER_SUBSCRIPTION_CHANGED'', ''user_events.subscription.changed''),
      (''USER_ACTION'', ''user_events.action''),
      (''CUSTOM'', ''custom_events.custom'')]"

definition ec_subject :: "string \<Rightarrow> string" where
  "ec_subject event_type = dget_or ''custom_events.unknown'' ec_type_mapping event_type"

definition ec_register_handler ::
  "string \<Rightarrow> ('e \<Rightarrow> ('w, unit) coro) \<Rightarrow> ('e, 'w) ec \<Rightarrow> ('e, 'w) ec" where
  "ec_register_handler event_type handler c =
     c\<lparr>ec_handlers := dset (ec_subject event_type) handler (ec_handlers c)\<rparr>"

text \<open>\<open>subscribe\<close> is the subscription of the event bus; its answer may be empty or \<open>None\<close>.\<close>

definition ec_subscribe_to_subject ::
  "(string \<Rightarrow> ('w, string option) coro) \<Rightarrow> string \<Rightarrow> (('e, 'w) ec \<times> 'w, unit) coro" where
  "ec_subscribe_to_subject subscribe subject dl t = (\<lambda>(c, w).
     (if dget (ec_subscriptions c) subject \<noteq> None then (Ok (), t, (c, w))
      else
        (case subscribe subject dl t w of
           (Ok (Some (x # xs)), t1, w1) \<Rightarrow>
             (Ok (), t1, (c\<lparr>ec_subscriptions := dset subject (x # xs) (ec_subscriptions c)\<rparr>, w1))
         | (Ok _, t1, w1) \<Rightarrow> (Ok (), t1, (c, w1))
         | (Raise e, t1, w1) \<Rightarrow> (Raise e, t1, (c, w1))
         | (Cancelled, t1, w1) \<Rightarrow> (Cancelled, t1, (c, w1)))))"

definition ec_subscribe_to_event_type ::
  "(string \<Rightarrow> ('w, string option) coro) \<Rightarrow> string \<Rightarrow> (('e, 'w) ec \<times> 'w, unit) coro" where
  "ec_subscribe_to_event_type subscribe event_type =
     ec_subscribe_to_subject subscribe (ec_subject event_type)"

definition ec_send_to_dlq :: "'e event_ops \<Rightarrow> 'e \<Rightarrow> string \<Rightarrow> rat \<Rightarrow> ('e, 'w) ec \<Rightarrow> exn option \<times> ('e, 'w) ec" where
  "ec_send_to_dlq ops event reason now c =
     (case ec_dlq_handler c of
        None \<Rightarrow> (None, c\<lparr>ec_events_failed := ec_events_failed c + 1\<rparr>)
      | Some q \<Rightarrow>
          (case dq_send_to_dlq ops event reason now q of
             Inl e \<Rightarrow> (Some e, c)
           | Inr q1 \<Rightarrow> (None, c\<lparr>ec_dlq_handler := Some q1, ec_events_dlq := ec_events_dlq c + 1\<rparr>)))"

text \<open>
  The loop of \<open>_process_event\<close> over the remaining attempts. Both \<open>except\<close> clauses do the same but
  for the reason that reaches the queue.
\<close>

fun ec_attempts ::
  "'e event_ops \<Rightarrow> ('e \<Rightarrow> ('w, unit) coro) \<Rightarrow> 'e \<Rightarrow> int list \<Rightarrow> (('e, 'w) ec \<times> 'w, unit) coro" where
  "ec_attempts ops handler event [] dl t v = (Ok (), t, v)"
| "ec_attempts ops handler event (attempt # rest) dl t (c, w) =
     (case wait_for (ecc_event_timeout (ec_config c)) (handler event) dl t w of
        (Ok _, t1, w1) \<Rightarrow> (Ok (), t1, (c\<lparr>ec_events_processed := ec_events_processed c + 1\<rparr>, w1))
      | (Cancelled, t1, w1) \<Rightarrow> (Cancelled, t1, (c, w1))
      | (Raise e, t1, w1) \<Rightarrow>
          (if attempt < ecc_retry_attempts (ec_config c) - 1
           then
             (case sleep (ecc_retry_delay (ec_config c) * 2 ^ nat attempt) dl t1 w1 of
                (Ok _, t2, w2) \<Rightarrow>
                  ec_attempts ops handler event rest dl t2
                    (c\<lparr>ec_events_retried := ec_events_retried c + 1\<rparr>, w2)
              | (Raise e', t2, w2) \<Rightarrow> (Raise e', t2, (c, w2))
              | (Cancelled, t2, w2) \<Rightarrow> (Cancelled, t2, (c, w2)))
           else
             (case ec_send_to_dlq ops event (if is_timeout e then ''timeout'' else message e) t1 c of
                (None, c1) \<Rightarrow> ec_attempts ops handler event rest dl t1 (c1, w1)
              | (Some e', c1) \<Rightarrow> (Raise e', t1, (c1, w1)))))"

definition ec_process_event :: "'e event_ops \<Rightarrow> 'e \<Rightarrow> (('e, 'w) ec \<times> 'w, unit) coro" where
  "ec_process_event ops event dl t = (\<lambda>(c, w).
     (case dget (ec_handlers c) (ec_subject (ev_type ops event)) of
        None \<Rightarrow> (Ok (), t, (c, w))
      | Some handler \<Rightarrow>
          ec_attempts ops handler event [0..ecc_retry_attempts (ec_config c) - 1] dl t (c, w)))"

text \<open>
  \<open>_handle_event\<close> in segments: the semaphore is taken and its value written to the statistics;
  afterwards it is released.
\<close>

definition ec_take :: "('e, 'w) ec \<Rightarrow> ('e, 'w) ec" where
  "ec_take c =
     (let c1 = c\<lparr>ec_semaphore := ec_semaphore c - 1\<rparr>
      in c1\<lparr>ec_concurrent_events := ec_semaphore c1\<rparr>)"

definition ec_release :: "('e, 'w) ec \<Rightarrow> ('e, 'w) ec" where
  "ec_release c = c\<lparr>ec_semaphore := ec_semaphore c + 1\<rparr>"

record ec_stats =
  ecs_events_processed :: int
  ecs_events_failed :: int
  ecs_events_retried :: int
  ecs_events_dlq :: int
  ecs_concurrent_events :: int
  ecs_active_subscriptions :: int
  ecs_registered_handlers :: int

definition ec_get_stats :: "('e, 'w) ec \<Rightarrow> ec_stats" where
  "ec_get_stats c =
     \<lparr>ecs_events_processed = ec_events_processed c, ecs_events_failed = ec_events_failed c,
      ecs_events_retried = ec_events_retried c, ecs_events_dlq = ec_events_dlq c,
      ecs_concurrent_events = ec_concurrent_events c,
      ecs_active_subscriptions = int (length (ec_subscriptions c)),
      ecs_registered_handlers = int (length (ec_handlers c))\<rparr>"

definition ec_reset_stats :: "('e, 'w) ec \<Rightarrow> ('e, 'w) ec" where
  "ec_reset_stats c = c\<lparr>ec_events_processed := 0, ec_events_failed := 0, ec_events_retried := 0,
     ec_events_dlq := 0, ec_concurrent_events := 0\<rparr>"

lemmas ec_seg_defs [seg_defs] = ec_take_def ec_release_def

section \<open>Concurrency of the consumer\<close>

definition ec_active :: "('e, 'w) ec \<Rightarrow> int" where
  "ec_active c = ecc_max_concurrent_events (ec_config c) - ec_semaphore c"

interpretation ecp: pool "\<lambda>_ c. (None, c)" ec_take "\<lambda>c. c"
  "\<lambda>c c'. ec_config c' = ec_config c \<and> ec_semaphore c' = ec_semaphore c" "\<lambda>_ _. ec_release"
  ec_semaphore ec_active
  by unfold_locales (auto simp: ec_active_def seg_defs Let_def)

text \<open>
  However events, subscriptions and statistics interleave, at most \<open>max_concurrent_events\<close> events are
  handled at a time. The statistic \<open>concurrent_events\<close> is the number of free places, not of
  events being handled.
\<close>

theorem ec_concurrency_bounded:
  assumes "ec_init config = Inr c0"
    and "pool_run (\<lambda>_ c. (None, c)) ec_take (\<lambda>c. c)
           (\<lambda>c c'. ec_config c' = ec_config c \<and> ec_semaphore c' = ec_semaphore c) (\<lambda>_ _. ec_release)
           ec_semaphore c0 (c, p, k, cancelled)"
  shows "int k \<le> ecc_max_concurrent_events (ec_config c0) \<and>
    ec_concurrent_events (ec_take c) = ecc_max_concurrent_events (ec_config c0) - int (Suc k)"
proof -
  have c0: "ec_active c0 = 0" "0 \<le> ec_semaphore c0" "ec_semaphore c0 = ecc_max_concurrent_events (ec_config c0)"
    using assms(1) by (auto simp: ec_init_def ec_active_def Let_def split: if_splits)
  from ecp.permits_balance [OF assms(2) c0(1,2)] c0(3) show ?thesis
    by (simp add: ec_take_def Let_def)
qed

section \<open>Every event is settled\<close>

definition ec_settled :: "('e, 'w) ec \<Rightarrow> int" where
  "ec_settled c = ec_events_processed c + ec_events_failed c + ec_events_dlq c"

text \<open>A queue that always takes an event.\<close>

definition ec_dlq_roomy :: "('e, 'w) ec \<Rightarrow> bool" where
  "ec_dlq_roomy c \<longleftrightarrow> (case ec_dlq_handler c of None \<Rightarrow> True | Some q \<Rightarrow> 1 \<le> dqc_max_dlq_size (dq_config q))"

lemma dq_send_roomy:
  assumes "1 \<le> dqc_max_dlq_size (dq_config q)"
  shows "\<exists>q1. dq_send_to_dlq ops event reason now q = Inr q1 \<and> dq_config q1 = dq_config q"
  using assms by (auto simp: dq_send_to_dlq_def Let_def ebind_Inr split: list.split)

lemma ec_send_settles:
  assumes "ec_dlq_roomy c"
  obtains c1 where "ec_send_to_dlq ops event reason now c = (None, c1)" "ec_settled c1 = ec_settled c + 1"
    "ec_config c1 = ec_config c" "ec_dlq_roomy c1"
proof (cases "ec_dlq_handler c")
  case None
  then show ?thesis using assms
    by (intro that [of "c\<lparr>ec_events_failed := ec_events_failed c + 1\<rparr>"])
      (simp_all add: ec_send_to_dlq_def ec_settled_def ec_dlq_roomy_def)
next
  case (Some q)
  with assms have "1 \<le> dqc_max_dlq_size (dq_config q)" by (simp add: ec_dlq_roomy_def)
  from dq_send_roomy [OF this, of ops event reason now]
  obtain q1 where "dq_send_to_dlq ops event reason now q = Inr q1" "dq_config q1 = dq_config q"
    by (elim exE conjE)
  then show ?thesis using Some assms
    by (intro that [of "c\<lparr>ec_dlq_handler := Some q1, ec_events_dlq := ec_events_dlq c + 1\<rparr>"])
      (simp_all add: ec_send_to_dlq_def ec_settled_def ec_dlq_roomy_def)
qed

lemma ec_attempts_settle:
  assumes "ec_dlq_roomy c" and "ecc_retry_attempts (ec_config c) = n" and "0 \<le> k" and "k < n"
    and "ec_attempts ops handler event [k..n - 1] dl t (c, w) = (r, t', (c', w'))"
  shows "ec_settled c' = ec_settled c + (if r = Cancelled then 0 else 1) \<and> (\<forall>e. r \<noteq> Raise e)"
  using assms
proof (induction "nat (n - k)" arbitrary: k c t w)
  case (Suc m)
  have upto: "[k..n - 1] = k # [k + 1..n - 1]" using Suc.prems(4) by (simp add: upto_rec1)
  obtain q t1 w1 where q: "wait_for (ecc_event_timeout (ec_config c)) (handler event) dl t w = (q, t1, w1)"
    by (rule prod_cases3)
  show ?case
  proof (cases q)
    case (Raise e)
    show ?thesis
    proof (cases "k < n - 1")
      case True
      let ?c = "c\<lparr>ec_events_retried := ec_events_retried c + 1\<rparr>"
      show ?thesis
      proof (cases rule: sleep_cases [of "ecc_retry_delay (ec_config c) * 2 ^ nat k" dl t1 w1])
        case (slept t2)
        have "ec_settled c' = ec_settled ?c + (if r = Cancelled then 0 else 1) \<and> (\<forall>e. r \<noteq> Raise e)"
        proof (rule Suc.hyps(1) [of "k + 1"])
          show "m = nat (n - (k + 1))" using Suc.hyps(2) by simp
          show "ec_attempts ops handler event [k + 1..n - 1] dl t2 (?c, w1) = (r, t', (c', w'))"
            using Suc.prems True slept(1) by (simp add: upto q Raise)
        qed (use Suc.prems True in \<open>simp_all add: ec_dlq_roomy_def\<close>)
        then show ?thesis by (simp add: ec_settled_def)
      next
        case (cancelled D)
        show ?thesis using Suc.prems True by (auto simp: upto q Raise cancelled(2))
      qed
    next
      case False
      with Suc.prems have last: "[k + 1..n - 1] = []" by simp
      obtain c1 where "ec_send_to_dlq ops event (if is_timeout e then ''timeout'' else message e) t1 c = (None, c1)"
        "ec_settled c1 = ec_settled c + 1"
        by (rule ec_send_settles [OF Suc.prems(1)])
      then show ?thesis using Suc.prems False by (auto simp: upto last q Raise)
    qed
  qed (use Suc.prems in \<open>auto simp: upto q ec_settled_def\<close>)
qed simp

text \<open>
  With at least one attempt and a queue that has room, an event with a handler is settled exactly
  once: it is processed, or it reaches the dead-letter queue, or it is counted as failed when there
  is none; the consumer raises nothing. With \<open>retry_attempts \<le> 0\<close> the event vanishes: nothing runs
  and nothing is counted.
\<close>

theorem ec_event_settled_once:
  assumes "ec_dlq_roomy c" and "dget (ec_handlers c) (ec_subject (ev_type ops event)) = Some handler"
    and "ec_process_event ops event dl t (c, w) = (r, t', (c', w'))"
  shows "if 1 \<le> ecc_retry_attempts (ec_config c)
    then ec_settled c' = ec_settled c + (if r = Cancelled then 0 else 1) \<and> (\<forall>e. r \<noteq> Raise e)
    else r = Ok () \<and> c' = c \<and> w' = w"
proof (cases "1 \<le> ecc_retry_attempts (ec_config c)")
  case True
  then show ?thesis
    using ec_attempts_settle [OF assms(1) refl order_refl, where t = t and w = w and dl = dl] assms(2,3)
    by (simp add: ec_process_event_def)
next
  case False
  then show ?thesis using assms(2,3) by (auto simp: ec_process_event_def)
qed

section \<open>The queue under every interleaving\<close>

text \<open>
  The segments that change the queue, in any order and with any indices and references: sending,
  the two ways to settle a retry, clean-up, clearing and the reset of the statistics.
\<close>

inductive dq_reach :: "'e event_ops \<Rightarrow> dq_config \<Rightarrow> dq \<Rightarrow> bool" for ops cfg where
  start: "dq_reach ops cfg (dq_init (Some cfg))"
| sent: "dq_reach ops cfg q \<Longrightarrow> dq_send_to_dlq ops event reason now q = Inr q' \<Longrightarrow> dq_reach ops cfg q'"
| retried_ok: "dq_reach ops cfg q \<Longrightarrow> dq_reach ops cfg (dq_retried_ok index q)"
| retried_failed: "dq_reach ops cfg q \<Longrightarrow> dq_reach ops cfg (dq_retried_failed now index ref q)"
| cleaned: "dq_reach ops cfg q \<Longrightarrow> dq_reach ops cfg (dq_cleanup_expired_events now q)"
| cleared: "dq_reach ops cfg q \<Longrightarrow> dq_reach ops cfg (snd (dq_clear_dlq q))"
| reset: "dq_reach ops cfg q \<Longrightarrow> dq_reach ops cfg (dq_reset_stats q)"

text \<open>The configuration stays; the references are in order, known and not too many.\<close>

definition dq_inv :: "dq_config \<Rightarrow> dq \<Rightarrow> bool" where
  "dq_inv cfg q \<longleftrightarrow> dq_config q = cfg \<and> sorted_wrt (<) (dq_events q) \<and>
     (\<forall>ref \<in> set (dq_events q). ref < dq_created q) \<and>
     int (length (dq_events q)) \<le> max 0 (dqc_max_dlq_size cfg)"

lemma sublist_keeps:
  assumes "sorted_wrt (<) (xs :: nat list)" and "subseq ys xs"
  shows "sorted_wrt (<) ys" and "set ys \<subseteq> set xs" and "length ys \<le> length xs"
proof -
  obtain ns where ys: "ys = nths xs ns" using assms(2) by (auto simp: subseq_conv_nths)
  show "sorted_wrt (<) ys" using assms(1) unfolding ys
    by (induction xs arbitrary: ns) (auto simp: nths_Cons dest: notin_set_nthsI in_set_nthsD)
  show "set ys \<subseteq> set xs" using ys by (auto dest: in_set_nthsD)
  show "length ys \<le> length xs" by (rule list_emb_length [OF assms(2)])
qed

lemma subseq_pop_at: "subseq (pop_at i xs) xs"
proof (induction xs arbitrary: i)
  case (Cons x xs)
  then show ?case by (cases i) (auto simp: pop_at_def)
qed (simp add: pop_at_def)

lemma dq_inv_sublist:
  assumes "dq_inv cfg q" and "subseq (dq_events q') (dq_events q)" and "dq_config q' = dq_config q"
    and "dq_created q' = dq_created q"
  shows "dq_inv cfg q'"
proof -
  have "sorted_wrt (<) (dq_events q)" using assms(1) by (simp add: dq_inv_def)
  from sublist_keeps [OF this assms(2)] show ?thesis
    using assms(1,3,4) by (auto simp: dq_inv_def)
qed

lemma dq_inv_send:
  assumes "dq_inv cfg q" and "dq_send_to_dlq ops event reason now q = Inr q'"
  shows "dq_inv cfg q'"
  using assms
  by (auto simp: dq_inv_def dq_send_to_dlq_def Let_def ebind_Inr sorted_wrt_append less_Suc_eq
      split: if_splits list.splits)

text \<open>
  The queue never holds more than \<open>max_dlq_size\<close> entries, keeps them in the order of their arrival
  and never holds one twice, however retries with stale positions, clean-up and arrivals
  interleave.
\<close>

theorem dq_bounded_in_order:
  assumes "dq_reach ops cfg q"
  shows "dq_config q = cfg \<and> sorted_wrt (<) (dq_events q) \<and>
    int (length (dq_events q)) \<le> max 0 (dqc_max_dlq_size cfg)"
proof -
  have "dq_inv cfg q" using assms
  proof induction
    case start
    then show ?case by (simp add: dq_inv_def dq_init_def)
  next
    case (sent q event reason now q')
    then show ?case by (blast intro: dq_inv_send)
  next
    case (retried_ok q index)
    show ?case
      by (intro dq_inv_sublist [OF retried_ok.IH]) (auto simp: dq_retried_ok_def Let_def subseq_pop_at)
  next
    case (retried_failed q now index ref)
    show ?case by (intro dq_inv_sublist [OF retried_failed.IH]) (auto simp: dq_retried_failed_def Let_def)
  next
    case (cleaned q now)
    show ?case by (intro dq_inv_sublist [OF cleaned.IH]) (auto simp: dq_cleanup_expired_events_def Let_def)
  next
    case (cleared q)
    show ?case by (intro dq_inv_sublist [OF cleared.IH]) (auto simp: dq_clear_dlq_def)
  next
    case (reset q)
    show ?case by (intro dq_inv_sublist [OF reset.IH]) (auto simp: dq_reset_stats_def)
  qed
  then show ?thesis by (simp add: dq_inv_def)
qed

section \<open>Witnesses\<close>

definition demo_ops :: "string event_ops" where
  "demo_ops = \<lparr>ev_to_dict = JStr,
     ev_from_dict = (\<lambda>j. case j of JStr s \<Rightarrow> Inr s | _ \<Rightarrow> Inl (type_error ''not an event'')),
     ev_id = (\<lambda>s. s), ev_type = (\<lambda>s. ''CUSTOM'')\<rparr>"

definition demo_dq_entry :: "string \<Rightarrow> rat \<Rightarrow> dq_entry" where
  "demo_dq_entry s next_retry = \<lparr>dqe_event = JStr s, dqe_reason = ''timeout'', dqe_timestamp = 0,
     dqe_retry_count = 0, dqe_next_retry = next_retry\<rparr>"

definition demo_dq :: dq where
  "demo_dq = (dq_init None)\<lparr>dq_events := [0, 1, 2],
     dq_objects := (\<lambda>r. if r = 0 then demo_dq_entry ''a'' 0 else if r = 1 then demo_dq_entry ''b'' 0
       else demo_dq_entry ''c'' 1000), dq_created := 3, dq_received := 3\<rparr>"

text \<open>Events a and b are due and published; c, which is not due, is lost and b stays.\<close>

theorem dq_retry_removes_wrong_entries_witness:
  "dq_process_retries demo_ops (Some accepting) None 60 (demo_dq, []) =
     (Ok (), 60, (demo_dq\<lparr>dq_events := [1], dq_processed := 2\<rparr>, [''a'', ''b'']))"
proof -
  let ?event = "\<lambda>r :: nat. if r = 0 then ''a'' else ''b''"
  have "dq_process_retries demo_ops (Some accepting) None 60 (demo_dq, []) =
    (Ok (), 60,
     (demo_dq\<lparr>dq_events := odds (take (2 * length [0, 1 :: nat]) ([0, 1] @ [2])) @
          drop (2 * length [0, 1 :: nat]) ([0, 1] @ [2]),
        dq_processed := dq_processed demo_dq + int (length [0, 1 :: nat])\<rparr>,
      [] @ map ?event [0, 1]))"
    by (rule dq_retry_removes_wrong_entries)
      (auto simp: demo_dq_def dq_init_def dq_default_config_def dq_due_def demo_dq_entry_def demo_ops_def)
  then show ?thesis by (simp add: demo_dq_def dq_init_def)
qed

definition demo_ec :: "(string, nat) ec" where
  "demo_ec = \<lparr>ec_config = ec_post_init ec_default_config,
     ec_handlers = [(''custom_events.custom'', \<lambda>e dl t w. (Raise (exception e), t, w + 1))],
     ec_subscriptions = [], ec_semaphore = 10, ec_dlq_handler = Some (dq_init None),
     ec_events_processed = 0, ec_events_failed = 0, ec_events_retried = 0, ec_events_dlq = 0,
     ec_concurrent_events = 0\<rparr>"

lemma ec_init_demo:
  "ec_init None = Inr (demo_ec\<lparr>ec_handlers := []\<rparr>)"
  by (simp add: ec_init_def demo_ec_def ec_post_init_def ec_default_config_def dq_init_def Let_def)

theorem ec_concurrency_bounded_witness:
  "int 1 \<le> ecc_max_concurrent_events (ec_config (demo_ec\<lparr>ec_handlers := []\<rparr>)) \<and>
   ec_concurrent_events (ec_take (ec_take (demo_ec\<lparr>ec_handlers := []\<rparr>))) =
     ecc_max_concurrent_events (ec_config (demo_ec\<lparr>ec_handlers := []\<rparr>)) - int (Suc 1)"
proof (rule ec_concurrency_bounded [OF ec_init_demo])
  let ?c = "demo_ec\<lparr>ec_handlers := []\<rparr>"
  let ?run = "pool_run (\<lambda>_ c. (None, c)) ec_take (\<lambda>c. c)
    (\<lambda>c c'. ec_config c' = ec_config c \<and> ec_semaphore c' = ec_semaphore c) (\<lambda>_ (_ :: unit outcome). ec_release)
    ec_semaphore ?c"
  have "?run (?c, Suc 0, 0, 0)" by (rule pool_run.queued [OF pool_run.start]) simp
  then have "?run (ec_take ?c, 0, Suc 0, 0)" by (rule pool_run.taken) (simp add: demo_ec_def)
  then show "?run (ec_take ?c, 0, 1, 0)" by simp
qed

theorem ec_event_settled_once_witness:
  "case ec_process_event demo_ops ''x'' None 0 (demo_ec, 0) of (r, t', (c', w')) \<Rightarrow>
     ec_settled c' = ec_settled demo_ec + (if r = Cancelled then 0 else 1)"
proof -
  obtain r t' c' w' where run: "ec_process_event demo_ops ''x'' None 0 (demo_ec, 0) = (r, t', (c', w'))"
    by (metis prod_cases4)
  have "ec_dlq_roomy demo_ec" "1 \<le> ecc_retry_attempts (ec_config demo_ec)"
    by (simp_all add: ec_dlq_roomy_def demo_ec_def dq_init_def dq_default_config_def ec_post_init_def
        ec_default_config_def)
  moreover have "dget (ec_handlers demo_ec) (ec_subject (ev_type demo_ops ''x'')) =
      Some (\<lambda>e dl t w. (Raise (exception e), t, w + 1))"
    by (simp add: demo_ec_def demo_ops_def ec_subject_def ec_type_mapping_def dget_or_def)
  ultimately show ?thesis using ec_event_settled_once [OF _ _ run] run by simp
qed

theorem dq_bounded_in_order_witness:
  "dq_config (dq_retried_ok 5 (dq_init (Some dq_default_config))) = dq_default_config \<and>
   sorted_wrt (<) (dq_events (dq_retried_ok 5 (dq_init (Some dq_default_config)))) \<and>
   int (length (dq_events (dq_retried_ok 5 (dq_init (Some dq_default_config))))) \<le>
     max 0 (dqc_max_dlq_size dq_default_config)"
  by (rule dq_bounded_in_order [of demo_ops]) (rule dq_reach.retried_ok [OF dq_reach.start])

end
