(* ===== verification/EventBatches.thy ===== *)
theory EventBatches
  imports DeadLetters
begin

text \<open>
  \<^verbatim>\<open>libs/events/event_producer.py\<close> and \<^verbatim>\<open>libs/events/event_store.py\<close>. Both keep a list behind an
  \<open>asyncio.Lock\<close>, and both call, while they hold it, a method that acquires it again when the list
  has reached its batch size. The lock is not reentrant, so such a call never returns.
\<close>

section \<open>Calls that never return\<close>

text \<open>
  A call returns an outcome, or it \<open>Hangs\<close>: it waits for ever, and the state next to it is the one
  that all other tasks see from then on. A call with a deadline is cancelled instead.
\<close>

datatype 'a reply = Reply "'a outcome" | Hangs

definition locking ::
  "('s \<Rightarrow> bool) \<Rightarrow> ('s \<Rightarrow> 'a outcome \<times> 's) \<Rightarrow> rat option \<Rightarrow> rat \<Rightarrow> 's \<Rightarrow> 'a reply \<times> rat \<times> 's" where
  "locking locked f dl t s =
     (if locked s then
        (case dl of None \<Rightarrow> (Hangs, t, s) | Some D \<Rightarrow> (Reply Cancelled, max t D, s))
      else (case f s of (r, s') \<Rightarrow> (Reply r, t, s')))"

text \<open>
  The contract of a list that locks itself out: as long as it is below its limit an addition returns
  \<open>True\<close>; the one that reaches the limit hangs and keeps the lock; then everything hangs.
\<close>

fun add_all :: "('e \<Rightarrow> 's \<Rightarrow> bool reply \<times> 's) \<Rightarrow> 'e list \<Rightarrow> 's \<Rightarrow> bool reply list \<times> 's" where
  "add_all add [] s = ([], s)"
| "add_all add (e # es) s =
     (case add e s of (r, s1) \<Rightarrow> (case add_all add es s1 of (rs, s2) \<Rightarrow> (r # rs, s2)))"

locale self_locking =
  fixes add :: "'e \<Rightarrow> 's \<Rightarrow> bool reply \<times> 's" and locked :: "'s \<Rightarrow> bool"
    and load limit :: "'s \<Rightarrow> int" and fits :: "'e \<Rightarrow> bool"
  assumes add_below: "fits e \<Longrightarrow> \<not> locked s \<Longrightarrow> load s + 1 < limit s \<Longrightarrow>
      \<exists>s'. add e s = (Reply (Ok True), s') \<and> \<not> locked s' \<and> load s' = load s + 1 \<and> limit s' = limit s"
    and add_full: "fits e \<Longrightarrow> \<not> locked s \<Longrightarrow> limit s \<le> load s + 1 \<Longrightarrow> \<exists>s'. add e s = (Hangs, s') \<and> locked s'"
    and add_locked: "fits e \<Longrightarrow> locked s \<Longrightarrow> add e s = (Hangs, s)"
begin

lemma add_all_locked:
  assumes "locked s" and "\<And>e. e \<in> set es \<Longrightarrow> fits e"
  shows "add_all add es s = (replicate (length es) Hangs, s)"
  using assms(2) by (induction es) (auto simp: assms(1) add_locked)

lemma locks_out:
  assumes "\<not> locked s" and "\<And>e. e \<in> set es \<Longrightarrow> fits e" and "load s < limit s"
  shows "fst (add_all add es s) =
      replicate (min (length es) (nat (limit s - load s) - 1)) (Reply (Ok True)) @
      replicate (length es - (nat (limit s - load s) - 1)) Hangs \<and>
    (locked (snd (add_all add es s)) \<longleftrightarrow> nat (limit s - load s) \<le> length es)"
  using assms
proof (induction es arbitrary: s)
  case (Cons e es)
  show ?case
  proof (cases "load s + 1 < limit s")
    case True
    then obtain s' where s': "add e s = (Reply (Ok True), s')" "\<not> locked s'" "load s' = load s + 1"
      "limit s' = limit s"
      using add_below Cons.prems by (metis list.set_intros(1))
    obtain m where m: "nat (limit s' - load s') = Suc m"
      using True s'(3,4) by (metis Suc_nat_eq_nat_zadd1 add_less_cancel_right diff_gt_0_iff_gt gr0_implies_Suc zero_less_nat_eq)
    then have n: "nat (limit s - load s) = Suc (Suc m)" using s'(3,4) by simp
    have "load s' < limit s'" using True s' by simp
    with Cons.IH [OF s'(2) _ this] Cons.prems(2) show ?thesis
      unfolding n m by (auto simp: s'(1) split: prod.split)
  next
    case False
    with Cons.prems(3) have n: "nat (limit s - load s) = 1" by simp
    obtain s' where s': "add e s = (Hangs, s')" "locked s'"
      using add_full [of e s] Cons.prems False by auto
    show ?thesis unfolding n
      using add_all_locked [OF s'(2), of es] Cons.prems(2) s' by (simp add: replicate_app_Cons_same)
  qed
qed simp

end

section \<open>The producer\<close>

record ep_config =
  epc_batch_size :: int
  epc_batch_timeout :: rat
  epc_retry_attempts :: int
  epc_retry_delay :: rat
  epc_enable_batching :: bool

definition ep_default_config :: ep_config where
  "ep_default_config =
     \<lparr>epc_batch_size = 100, epc_batch_timeout = 1, epc_retry_attempts = 3, epc_retry_delay = 1,
      epc_enable_batching = True\<rparr>"

record 'e ep =
  ep_config :: ep_config
  ep_batch :: "('e \<times> string option) list"
  ep_locked :: bool
  ep_events_published :: int
  ep_events_failed :: int
  ep_batches_sent :: int
  ep_retries :: int

definition ep_init :: "ep_config option \<Rightarrow> 'e ep" where
  "ep_init config =
     \<lparr>ep_config = (case config of None \<Rightarrow> ep_default_config | Some c \<Rightarrow> c), ep_batch = [],
      ep_locked = False, ep_events_published = 0, ep_events_failed = 0, ep_batches_sent = 0,
      ep_retries = 0\<rparr>"

text \<open>
  \<open>_publish_single\<close>: the loop over the remaining attempts, with \<open>publish\<close> the event bus. A refusal and
  an exception are treated alike.
\<close>

fun ep_attempts ::
  "('e \<Rightarrow> string option \<Rightarrow> ('w, bool) coro) \<Rightarrow> 'e \<Rightarrow> string option \<Rightarrow> int list \<Rightarrow> ('e ep \<times> 'w, bool) coro"
  where
  "ep_attempts publish event subject [] dl t (p, w) =
     (Ok False, t, (p\<lparr>ep_events_failed := ep_events_failed p + 1\<rparr>, w))"
| "ep_attempts publish event subject (attempt # rest) dl t (p, w) =
     (case publish event subject dl t w of
        (Cancelled, t1, w1) \<Rightarrow> (Cancelled, t1, (p, w1))
      | (Ok True, t1, w1) \<Rightarrow> (Ok True, t1, (p\<lparr>ep_events_published := ep_events_published p + 1\<rparr>, w1))
      | (_, t1, w1) \<Rightarrow>
          (if attempt < epc_retry_attempts (ep_config p) - 1
           then
             (case sleep (epc_retry_delay (ep_config p) * 2 ^ nat attempt) dl t1 w1 of
                (Ok _, t2, w2) \<Rightarrow>
                  ep_attempts publish event subject rest dl t2 (p\<lparr>ep_retries := ep_retries p + 1\<rparr>, w2)
              | (Raise e, t2, w2) \<Rightarrow> (Raise e, t2, (p, w2))
              | (Cancelled, t2, w2) \<Rightarrow> (Cancelled, t2, (p, w2)))
           else ep_attempts publish event subject rest dl t1 (p, w1)))"

definition ep_publish_single ::
  "('e \<Rightarrow> string option \<Rightarrow> ('w, bool) coro) \<Rightarrow> 'e \<Rightarrow> string option \<Rightarrow> ('e ep \<times> 'w, bool) coro" where
  "ep_publish_single publish event subject dl t = (\<lambda>(p, w).
     ep_attempts publish event subject [0..epc_retry_attempts (ep_config p) - 1] dl t (p, w))"

fun ep_publish_batch ::
  "('e \<Rightarrow> string option \<Rightarrow> ('w, bool) coro) \<Rightarrow> ('e \<times> string option) list \<Rightarrow> ('e ep \<times> 'w, unit) coro" where
  "ep_publish_batch publish [] dl t v = (Ok (), t, v)"
| "ep_publish_batch publish ((event, subject) # rest) dl t v =
     (case ep_publish_single publish event subject dl t v of
        (Ok _, t1, v1) \<Rightarrow> ep_publish_batch publish rest dl t1 v1
      | (Raise e, t1, v1) \<Rightarrow> (Raise e, t1, v1)
      | (Cancelled, t1, v1) \<Rightarrow> (Cancelled, t1, v1))"

definition ep_flush_batch ::
  "('e \<Rightarrow> string option \<Rightarrow> ('w, bool) coro) \<Rightarrow> rat option \<Rightarrow> rat \<Rightarrow> 'e ep \<times> 'w \<Rightarrow>
   unit reply \<times> rat \<times> 'e ep \<times> 'w" where
  "ep_flush_batch publish dl t = (\<lambda>(p, w).
     (if ep_locked p then locking (\<lambda>_. True) (\<lambda>v. (Ok (), v)) dl t (p, w)
      else if ep_batch p = [] then (Reply (Ok ()), t, (p, w))
      else
        (case ep_publish_batch publish (ep_batch p) dl t (p\<lparr>ep_batch := []\<rparr>, w) of
           (Ok _, t1, (p1, w1)) \<Rightarrow>
             (Reply (Ok ()), t1, (p1\<lparr>ep_batches_sent := ep_batches_sent p1 + 1\<rparr>, w1))
         | (Raise e, t1, v1) \<Rightarrow> (Reply (Raise e), t1, v1)
         | (Cancelled, t1, v1) \<Rightarrow> (Reply Cancelled, t1, v1))))"

text \<open>
  \<open>_add_to_batch\<close>: with a full batch, \<open>_flush_batch\<close> is awaited inside the lock it needs. A cancelled
  call releases the lock; the event stays in the batch.
\<close>

definition ep_add_to_batch ::
  "'e \<Rightarrow> string option \<Rightarrow> rat option \<Rightarrow> rat \<Rightarrow> 'e ep \<Rightarrow> bool reply \<times> rat \<times> 'e ep" where
  "ep_add_to_batch event subject dl t p =
     (if ep_locked p then locking ep_locked (\<lambda>p. (Ok True, p)) dl t p
      else
        (let p1 = p\<lparr>ep_batch := ep_batch p @ [(event, subject)]\<rparr>
         in if epc_batch_size (ep_config p1) \<le> int (length (ep_batch p1))
            then (case dl of
                    None \<Rightarrow> (Hangs, t, p1\<lparr>ep_locked := True\<rparr>)
                  | Some D \<Rightarrow> (Reply Cancelled, max t D, p1))
            else (Reply (Ok True), t, p1)))"

text \<open>\<open>built\<close> is the event made of the metadata and the payload, unless that raises.\<close>

definition ep_publish ::
  "('e \<Rightarrow> string option \<Rightarrow> ('w, bool) coro) \<Rightarrow> exn + 'e \<Rightarrow> string option \<Rightarrow> rat option \<Rightarrow> rat \<Rightarrow>
   'e ep \<times> 'w \<Rightarrow> bool reply \<times> rat \<times> 'e ep \<times> 'w" where
  "ep_publish publish built subject dl t = (\<lambda>(p, w).
     (case built of
        Inl _ \<Rightarrow> (Reply (Ok False), t, (p\<lparr>ep_events_failed := ep_events_failed p + 1\<rparr>, w))
      | Inr event \<Rightarrow>
          (if epc_enable_batching (ep_config p)
           then (case ep_add_to_batch event subject dl t p of (r, t1, p1) \<Rightarrow> (r, t1, (p1, w)))
           else
             (case ep_publish_single publish event subject dl t (p, w) of
                (Raise _, t1, (p1, w1)) \<Rightarrow>
                  (Reply (Ok False), t1, (p1\<lparr>ep_events_failed := ep_events_failed p1 + 1\<rparr>, w1))
              | (r, t1, v1) \<Rightarrow> (Reply r, t1, v1)))))"

text \<open>\<open>stop\<close>: the batch task is cancelled where it is, then the rest of the batch is flushed.\<close>

definition ep_stop ::
  "('e \<Rightarrow> string option \<Rightarrow> ('w, bool) coro) \<Rightarrow> rat option \<Rightarrow> rat \<Rightarrow> 'e ep \<times> 'w \<Rightarrow>
   unit reply \<times> rat \<times> 'e ep \<times> 'w" where
  "ep_stop publish = ep_flush_batch publish"

definition ep_reset_stats :: "'e ep \<Rightarrow> 'e ep" where
  "ep_reset_stats p = p\<lparr>ep_events_published := 0, ep_events_failed := 0, ep_batches_sent := 0, ep_retries := 0\<rparr>"

interpretation epl: self_locking
  "\<lambda>e p. (case ep_add_to_batch (fst e) (snd e) None 0 p of (r, _, p') \<Rightarrow> (r, p'))" ep_locked
  "\<lambda>p. int (length (ep_batch p))" "\<lambda>p. epc_batch_size (ep_config p)" "\<lambda>_. True"
  by unfold_locales (auto simp: ep_add_to_batch_def locking_def Let_def)

section \<open>What happens to the events of the producer\<close>

text \<open>Events published one after the other, each by a task of its own, and no batch timeout meanwhile.\<close>

definition ep_publish_all ::
  "('e \<Rightarrow> string option \<Rightarrow> ('w, bool) coro) \<Rightarrow> ('e \<times> string option) list \<Rightarrow> 'e ep \<times> 'w \<Rightarrow>
   bool reply list \<times> 'e ep \<times> 'w" where
  "ep_publish_all publish = add_all (\<lambda>(event, subject) v.
     (case ep_publish publish (Inr event) subject None 0 v of (r, _, v') \<Rightarrow> (r, v')))"

lemma ep_publish_all_add:
  assumes "epc_enable_batching (ep_config p)"
  shows "ep_publish_all publish es (p, w) =
    (case add_all (\<lambda>e p. (case ep_add_to_batch (fst e) (snd e) None 0 p of (r, _, p') \<Rightarrow> (r, p'))) es p of
       (rs, p') \<Rightarrow> (rs, (p', w)))"
  using assms
proof (induction es arbitrary: p)
  case (Cons e es)
  obtain r t1 p1 where a: "ep_add_to_batch (fst e) (snd e) None 0 p = (r, t1, p1)" by (rule prod_cases3)
  then have "ep_config p1 = ep_config p"
    by (auto simp: ep_add_to_batch_def locking_def Let_def split: if_splits)
  then show ?case using Cons.IH [of p1] Cons.prems a
    by (cases e) (auto simp: ep_publish_all_def ep_publish_def split: prod.splits)
qed (simp add: ep_publish_all_def)

lemma ep_add_all_published:
  "ep_events_published (snd (add_all (\<lambda>e p. (case ep_add_to_batch (fst e) (snd e) None 0 p of
      (r, _, p') \<Rightarrow> (r, p'))) es p)) = ep_events_published p"
proof (induction es arbitrary: p)
  case (Cons e es)
  obtain r t1 p1 where a: "ep_add_to_batch (fst e) (snd e) None 0 p = (r, t1, p1)" by (rule prod_cases3)
  then have "ep_events_published p1 = ep_events_published p"
    by (auto simp: ep_add_to_batch_def locking_def Let_def split: if_splits)
  then show ?case using Cons.IH [of p1] a by (auto split: prod.splits)
qed simp


text \<open>How a flush that is not cancelled settles its batch.\<close>

definition ep_settled :: "'e ep \<Rightarrow> int" where
  "ep_settled p = ep_events_published p + ep_events_failed p"

lemma ep_attempts_settle:
  assumes "ep_attempts publish event subject as dl t (p, w) = (r, t', (p', w'))"
  shows "ep_settled p' = ep_settled p + (if r = Cancelled then 0 else 1) \<and> ep_batch p' = ep_batch p \<and>
    ep_config p' = ep_config p \<and> ep_locked p' = ep_locked p \<and> (\<forall>e. r \<noteq> Raise e)"
  using assms
proof (induction as arbitrary: p t w)
  case Nil
  then show ?case by (auto simp: ep_settled_def)
next
  case (Cons a as)
  obtain q t1 w1 where q: "publish event subject dl t w = (q, t1, w1)" by (rule prod_cases3)
  have retry: ?case if "(if a < epc_retry_attempts (ep_config p) - 1
           then
             (case sleep (epc_retry_delay (ep_config p) * 2 ^ nat a) dl t1 w1 of
                (Ok _, t2, w2) \<Rightarrow>
                  ep_attempts publish event subject as dl t2 (p\<lparr>ep_retries := ep_retries p + 1\<rparr>, w2)
              | (Raise e, t2, w2) \<Rightarrow> (Raise e, t2, (p, w2))
              | (Cancelled, t2, w2) \<Rightarrow> (Cancelled, t2, (p, w2)))
           else ep_attempts publish event subject as dl t1 (p, w1)) = (r, t', (p', w'))"
    using that Cons.IH
    by (cases rule: sleep_cases [of "epc_retry_delay (ep_config p) * 2 ^ nat a" dl t1 w1])
      (fastforce simp: ep_settled_def split: if_splits)+
  show ?case
    using Cons.prems retry
    by (cases q) (auto simp: q ep_settled_def split: bool.splits)
qed

lemma ep_publish_batch_settle:
  assumes "ep_publish_batch publish es dl t (p, w) = (r, t', (p', w'))"
  shows "ep_batch p' = ep_batch p \<and> (\<forall>e. r \<noteq> Raise e) \<and>
    (if r = Cancelled then ep_settled p \<le> ep_settled p' \<and> ep_settled p' < ep_settled p + int (length es)
     else ep_settled p' = ep_settled p + int (length es))"
  using assms
proof (induction es arbitrary: p t w)
  case (Cons x es)
  obtain event subject where x: "x = (event, subject)" by (cases x)
  obtain q t1 p1 w1 where q: "ep_publish_single publish event subject dl t (p, w) = (q, t1, (p1, w1))"
    by (metis prod_cases4)
  note s = ep_attempts_settle [OF q [unfolded ep_publish_single_def split_conv]]
  show ?case
  proof (cases q)
    case (Ok b)
    then show ?thesis using Cons.IH [of t1 p1 w1] Cons.prems s by (auto simp: x q split: if_splits)
  qed (use Cons.prems s in \<open>auto simp: x q\<close>)
qed auto

text \<open>
  A flush empties the batch at once. When it comes to its end, each event of the batch has been
  counted, as published or failed; but a flush that is cancelled, as \<open>stop\<close> cancels the one of the
  batch task, loses the events it has not come to: they are in no batch and in no statistic.
\<close>

theorem ep_flush_settles_or_loses:
  assumes "\<not> ep_locked p"
    and "ep_flush_batch publish dl t (p, w) = (reply, t', (p', w'))"
  shows "ep_batch p' = [] \<and> reply \<noteq> Hangs \<and>
    (if reply = Reply Cancelled
     then ep_settled p \<le> ep_settled p' \<and> ep_settled p' < ep_settled p + int (length (ep_batch p))
     else ep_settled p' = ep_settled p + int (length (ep_batch p)))"
proof (cases "ep_batch p = []")
  case True
  then show ?thesis using assms by (auto simp: ep_flush_batch_def)
next
  case False
  obtain r t1 p1 w1 where b: "ep_publish_batch publish (ep_batch p) dl t (p\<lparr>ep_batch := []\<rparr>, w) = (r, t1, (p1, w1))"
    by (metis prod_cases4)
  note s = ep_publish_batch_settle [OF b]
  have same: "ep_settled (p\<lparr>ep_batch := []\<rparr>) = ep_settled p"
    "ep_settled (p1\<lparr>ep_batches_sent := n\<rparr>) = ep_settled p1" for n
    by (simp_all add: ep_settled_def)
  show ?thesis
    using assms False s by (cases r) (auto simp: ep_flush_batch_def b same)
qed

section \<open>The store\<close>

text \<open>
  What the store reads of an event: its metadata, and the number of bytes of its JSON text, which
  may raise. \<open>None\<close> and the empty string are both false.
\<close>

record 'e store_ops = "'e event_ops" +
  so_size_bytes :: "'e \<Rightarrow> exn + int"
  so_tenant_id :: "'e \<Rightarrow> string option"
  so_user_id :: "'e \<Rightarrow> string option"
  so_correlation_id :: "'e \<Rightarrow> string option"
  so_source :: "'e \<Rightarrow> string option"
  so_timestamp :: "'e \<Rightarrow> rat"

record es_config =
  esc_max_events :: int
  esc_retention_days :: int
  esc_batch_size :: int
  esc_flush_interval :: rat
  esc_enable_compression :: bool
  esc_enable_indexing :: bool

definition es_default_config :: es_config where
  "es_default_config =
     \<lparr>esc_max_events = 1000000, esc_retention_days = 30, esc_batch_size = 1000, esc_flush_interval = 5,
      esc_enable_compression = True, esc_enable_indexing = True\<rparr>"

record es_entry =
  ese_event :: json
  ese_stored_at :: rat
  ese_size_bytes :: int

record es =
  es_config :: es_config
  es_events :: "es_entry list"
  es_locked :: bool
  es_events_stored :: int
  es_events_retrieved :: int
  es_events_deleted :: int
  es_storage_size_bytes :: int

definition es_init :: "es_config option \<Rightarrow> es" where
  "es_init config =
     \<lparr>es_config = (case config of None \<Rightarrow> es_default_config | Some c \<Rightarrow> c), es_events = [],
      es_locked = False, es_events_stored = 0, es_events_retrieved = 0, es_events_deleted = 0,
      es_storage_size_bytes = 0\<rparr>"

text \<open>\<open>store_event\<close>; the flush of a full batch waits for the lock that is held around it.\<close>

definition es_store_event :: "'e store_ops \<Rightarrow> 'e \<Rightarrow> rat option \<Rightarrow> rat \<Rightarrow> es \<Rightarrow> bool reply \<times> rat \<times> es" where
  "es_store_event ops event dl t s =
     (case so_size_bytes ops event of
        Inl _ \<Rightarrow> (Reply (Ok False), t, s)
      | Inr size_bytes \<Rightarrow>
          (if es_locked s then locking es_locked (\<lambda>s. (Ok True, s)) dl t s
           else
             (let entry = \<lparr>ese_event = ev_to_dict ops event, ese_stored_at = t, ese_size_bytes = size_bytes\<rparr>;
                  s1 = s\<lparr>es_events := es_events s @ [entry], es_events_stored := es_events_stored s + 1,
                         es_storage_size_bytes := es_storage_size_bytes s + size_bytes\<rparr>
              in if esc_batch_size (es_config s1) \<le> int (length (es_events s1))
                 then (case dl of
                         None \<Rightarrow> (Hangs, t, s1\<lparr>es_locked := True\<rparr>)
                       | Some D \<Rightarrow> (Reply Cancelled, max t D, s1))
                 else (Reply (Ok True), t, s1))))"

text \<open>
  The bodies of the other methods, inside the lock. The loops stop at the first entry that cannot
  be read, and the exception is logged and replaced by an empty answer.
\<close>

fun es_find_index :: "'e store_ops \<Rightarrow> string \<Rightarrow> es_entry list \<Rightarrow> exn + (nat \<times> 'e) option" where
  "es_find_index ops event_id [] = Inr None"
| "es_find_index ops event_id (entry # rest) =
     ebind (ev_from_dict ops (ese_event entry)) (\<lambda>event.
       if ev_id ops event = event_id then Inr (Some (0, event))
       else ebind (es_find_index ops event_id rest) (\<lambda>r.
              Inr (map_option (\<lambda>(i, e). (Suc i, e)) r)))"

definition es_get_event :: "'e store_ops \<Rightarrow> string \<Rightarrow> es \<Rightarrow> 'e option outcome \<times> es" where
  "es_get_event ops event_id s =
     (case es_find_index ops event_id (es_events s) of
        Inr (Some (_, event)) \<Rightarrow> (Ok (Some event), s\<lparr>es_events_retrieved := es_events_retrieved s + 1\<rparr>)
      | _ \<Rightarrow> (Ok None, s))"

definition given :: "string option \<Rightarrow> bool" where
  "given x \<longleftrightarrow> x \<noteq> None \<and> x \<noteq> Some []"

definition es_matches ::
  "'e store_ops \<Rightarrow> string option \<Rightarrow> string option \<Rightarrow> string option \<Rightarrow> rat option \<Rightarrow> rat option \<Rightarrow> 'e \<Rightarrow> bool"
  where
  "es_matches ops event_type tenant_id user_id start_time end_time event \<longleftrightarrow>
     \<not> (given event_type \<and> event_type \<noteq> Some (ev_type ops event)) \<and>
     \<not> (given tenant_id \<and> tenant_id \<noteq> so_tenant_id ops event) \<and>
     \<not> (given user_id \<and> user_id \<noteq> so_user_id ops event) \<and>
     \<not> (case start_time of None \<Rightarrow> False | Some a \<Rightarrow> so_timestamp ops event < a) \<and>
     \<not> (case end_time of None \<Rightarrow> False | Some b \<Rightarrow> b < so_timestamp ops event)"

definition es_all_events :: "'e store_ops \<Rightarrow> es \<Rightarrow> exn + 'e list" where
  "es_all_events ops s = emap (\<lambda>entry. ev_from_dict ops (ese_event entry)) (es_events s)"

definition es_get_events ::
  "'e store_ops \<Rightarrow> string option \<Rightarrow> string option \<Rightarrow> string option \<Rightarrow> rat option \<Rightarrow> rat option \<Rightarrow> int \<Rightarrow> int \<Rightarrow>
   es \<Rightarrow> 'e list outcome \<times> es" where
  "es_get_events ops event_type tenant_id user_id start_time end_time limit offset s =
     (case es_all_events ops s of
        Inl _ \<Rightarrow> (Ok [], s)
      | Inr evs \<Rightarrow>
          (let filtered_events =
                 filter (es_matches ops event_type tenant_id user_id start_time end_time) evs;
               events = py_slice offset (offset + limit) filtered_events
           in (Ok events, s\<lparr>es_events_retrieved := es_events_retrieved s + int (length events)\<rparr>)))"

definition es_get_events_by_correlation_id ::
  "'e store_ops \<Rightarrow> string \<Rightarrow> es \<Rightarrow> 'e list outcome \<times> es" where
  "es_get_events_by_correlation_id ops correlation_id s =
     (case es_all_events ops s of
        Inl _ \<Rightarrow> (Ok [], s)
      | Inr evs \<Rightarrow>
          (let events = filter (\<lambda>e. so_correlation_id ops e = Some correlation_id) evs
           in (Ok events, s\<lparr>es_events_retrieved := es_events_retrieved s + int (length events)\<rparr>)))"

definition es_delete_event :: "'e store_ops \<Rightarrow> string \<Rightarrow> es \<Rightarrow> bool outcome \<times> es" where
  "es_delete_event ops event_id s =
     (case es_find_index ops event_id (es_events s) of
        Inr (Some (i, _)) \<Rightarrow>
          (Ok True, s\<lparr>es_events := pop_at i (es_events s), es_events_deleted := es_events_deleted s + 1,
             es_storage_size_bytes := es_storage_size_bytes s - ese_size_bytes (es_events s ! i)\<rparr>)
      | _ \<Rightarrow> (Ok False, s))"

definition es_cleanup_old_events :: "rat \<Rightarrow> es \<Rightarrow> unit outcome \<times> es" where
  "es_cleanup_old_events now s =
     (let cutoff_time = now - of_int (esc_retention_days (es_config s)) * 86400;
          kept = filter (\<lambda>entry. cutoff_time < ese_stored_at entry) (es_events s);
          removed_count = int (length (es_events s)) - int (length kept);
          s1 = s\<lparr>es_events := kept\<rparr>
      in (Ok (), if 0 < removed_count
                 then s1\<lparr>es_events_deleted := es_events_deleted s1 + removed_count\<rparr> else s1))"

text \<open>Statistics of the events in a period: counts per type, per tenant and per source.\<close>

record es_statistics =
  est_total_events :: int
  est_event_types :: "(string, int) dict"
  est_tenants :: "(string, int) dict"
  est_sources :: "(string, int) dict"

definition count_given :: "string option \<Rightarrow> (string, int) dict \<Rightarrow> (string, int) dict" where
  "count_given x d = (if given x then count_key (the x) d else d)"

definition es_statistics_of :: "'e store_ops \<Rightarrow> 'e list \<Rightarrow> es_statistics" where
  "es_statistics_of ops events =
     \<lparr>est_total_events = int (length events),
      est_event_types = fold (\<lambda>e. count_key (ev_type ops e)) events [],
      est_tenants = fold (\<lambda>e. count_given (so_tenant_id ops e)) events [],
      est_sources = fold (\<lambda>e. count_given (so_source ops e)) events []\<rparr>"

definition es_get_event_statistics ::
  "'e store_ops \<Rightarrow> rat option \<Rightarrow> rat option \<Rightarrow> es \<Rightarrow> es_statistics option outcome \<times> es" where
  "es_get_event_statistics ops start_time end_time s =
     (case es_all_events ops s of
        Inl _ \<Rightarrow> (Ok None, s)
      | Inr evs \<Rightarrow>
          (Ok (Some (es_statistics_of ops (filter (es_matches ops None None None start_time end_time) evs))), s))"

record es_stats =
  ess_events_stored :: int
  ess_events_retrieved :: int
  ess_events_deleted :: int
  ess_storage_size_bytes :: int
  ess_total_events :: int

definition es_get_stats :: "es \<Rightarrow> es_stats" where
  "es_get_stats s =
     \<lparr>ess_events_stored = es_events_stored s, ess_events_retrieved = es_events_retrieved s,
      ess_events_deleted = es_events_deleted s, ess_storage_size_bytes = es_storage_size_bytes s,
      ess_total_events = int (length (es_events s))\<rparr>"

definition es_reset_stats :: "es \<Rightarrow> es" where
  "es_reset_stats s =
     s\<lparr>es_events_stored := 0, es_events_retrieved := 0, es_events_deleted := 0, es_storage_size_bytes := 0\<rparr>"

interpretation esl: self_locking
  "\<lambda>e s. (case es_store_event ops e None t s of (r, _, s') \<Rightarrow> (r, s'))" es_locked
  "\<lambda>s. int (length (es_events s))" "\<lambda>s. esc_batch_size (es_config s)" "\<lambda>e. \<exists>n. so_size_bytes ops e = Inr n"
  for ops :: "'e store_ops" and t
  by unfold_locales (auto simp: es_store_event_def locking_def Let_def)

section \<open>Properties of the store\<close>

definition es_store_all :: "'e store_ops \<Rightarrow> rat \<Rightarrow> 'e list \<Rightarrow> es \<Rightarrow> bool reply list \<times> es" where
  "es_store_all ops t = add_all (\<lambda>e s. (case es_store_event ops e None t s of (r, _, s') \<Rightarrow> (r, s')))"

text \<open>
  The store dies with its first full batch: nothing but clean-up and deletion shortens the list, so
  the call that stores event number \<open>batch_size\<close> never returns, nor does any call after it.
\<close>

theorem es_full_store_hangs:
  assumes "\<not> es_locked s" and "\<And>e. e \<in> set es \<Longrightarrow> \<exists>n. so_size_bytes ops e = Inr n"
    and "int (length (es_events s)) < esc_batch_size (es_config s)"
  shows "fst (es_store_all ops t es s) =
      replicate (min (length es) (nat (esc_batch_size (es_config s) - int (length (es_events s))) - 1))
        (Reply (Ok True)) @
      replicate (length es - (nat (esc_batch_size (es_config s) - int (length (es_events s))) - 1)) Hangs \<and>
    (es_locked (snd (es_store_all ops t es s)) \<longleftrightarrow>
       nat (esc_batch_size (es_config s) - int (length (es_events s))) \<le> length es)"
  unfolding es_store_all_def by (rule esl.locks_out [OF assms])

definition es_bytes :: "es_entry list \<Rightarrow> int" where
  "es_bytes entries = sum_list (map ese_size_bytes entries)"

text \<open>
  The store under every sequence of its methods; the ghost component adds up the bytes of the
  entries that clean-ups remove.
\<close>

inductive es_reach :: "'e store_ops \<Rightarrow> es_config option \<Rightarrow> es \<times> int \<Rightarrow> bool" for ops cfg where
  start: "es_reach ops cfg (es_init cfg, 0)"
| stored: "es_reach ops cfg (s, z) \<Longrightarrow> es_store_event ops e dl t s = (r, t', s') \<Longrightarrow> es_reach ops cfg (s', z)"
| got: "es_reach ops cfg (s, z) \<Longrightarrow> es_get_event ops i s = (q, s') \<Longrightarrow> es_reach ops cfg (s', z)"
| listed: "es_reach ops cfg (s, z) \<Longrightarrow> es_get_events ops ty tenant user a b limit offset s = (qs, s') \<Longrightarrow>
    es_reach ops cfg (s', z)"
| related: "es_reach ops cfg (s, z) \<Longrightarrow> es_get_events_by_correlation_id ops c s = (qs, s') \<Longrightarrow>
    es_reach ops cfg (s', z)"
| deleted: "es_reach ops cfg (s, z) \<Longrightarrow> es_delete_event ops i s = (d, s') \<Longrightarrow> es_reach ops cfg (s', z)"
| cleaned: "es_reach ops cfg (s, z) \<Longrightarrow> es_cleanup_old_events t s = (u, s') \<Longrightarrow>
    es_reach ops cfg (s', z + (es_bytes (es_events s) - es_bytes (es_events s')))"

lemma es_find_index_bound: "es_find_index ops i es = Inr (Some (k, e)) \<Longrightarrow> k < length es"
  by (induction es arbitrary: k) (force simp: ebind_Inr split: if_splits)+

lemma es_pop_at:
  assumes "k < length xs"
  shows "length (pop_at k xs) = length xs - 1" and "es_bytes (pop_at k xs) = es_bytes xs - ese_size_bytes (xs ! k)"
proof -
  have "xs = take k xs @ xs ! k # drop (Suc k) xs" using assms by (simp add: id_take_nth_drop)
  then have "es_bytes xs = es_bytes (take k xs) + ese_size_bytes (xs ! k) + es_bytes (drop (Suc k) xs)"
    unfolding es_bytes_def by (metis (no_types, lifting) add.assoc list.simps(9) map_append sum_list.Cons sum_list_append)
  then show "es_bytes (pop_at k xs) = es_bytes xs - ese_size_bytes (xs ! k)"
    by (simp add: pop_at_def es_bytes_def)
  show "length (pop_at k xs) = length xs - 1" using assms by (simp add: pop_at_def)
qed

text \<open>
  The books of the store under every sequence of calls: every stored event is there or was deleted.
  The storage size is that of the events that are there, plus all bytes that clean-ups have
  removed and never subtracted.
\<close>

theorem es_books:
  assumes "es_reach ops cfg (s, z)"
  shows "es_events_stored s = int (length (es_events s)) + es_events_deleted s \<and>
    es_storage_size_bytes s = es_bytes (es_events s) + z"
  using assms
proof (induction "(s, z)" arbitrary: s z)
  case start
  then show ?case by (simp add: es_init_def es_bytes_def)
next
  case (stored s z e dl t r t' s')
  then show ?case
    by (auto simp: es_store_event_def locking_def Let_def es_bytes_def split: sum.splits if_splits option.splits)
next
  case (got s z i q s')
  then show ?case by (auto simp: es_get_event_def split: sum.splits option.splits)
next
  case (listed s z ty tenant user a b limit offset qs s')
  then show ?case by (auto simp: es_get_events_def Let_def split: sum.splits)
next
  case (related s z c qs s')
  then show ?case by (auto simp: es_get_events_by_correlation_id_def Let_def split: sum.splits)
next
  case (deleted s z i d s')
  then show ?case
    by (auto simp: es_delete_event_def es_pop_at dest!: es_find_index_bound split: sum.splits option.splits)
next
  case (cleaned s z t u s')
  then show ?case
    by (auto simp: es_cleanup_old_events_def Let_def not_less intro: antisym length_filter_le split: if_splits)
qed

lemma fold_count_given:
  "k \<noteq> [] \<Longrightarrow> dget_or 0 (fold (\<lambda>e. count_given (f e)) es d) k =
    dget_or 0 d k + int (length (filter (\<lambda>e. f e = Some k) es))"
  by (induction es arbitrary: d) (auto simp: count_given_def given_def count_key_get)

text \<open>What the statistics of a period say: per type, per tenant and per source, the number of its events.\<close>

theorem es_statistics_count:
  assumes "es_all_events ops s = Inr evs" and "k \<noteq> []"
  shows "\<exists>st. es_get_event_statistics ops a b s = (Ok (Some st), s) \<and>
    (let period = filter (\<lambda>e. (a = None \<or> the a \<le> so_timestamp ops e) \<and>
                             (b = None \<or> so_timestamp ops e \<le> the b)) evs
     in est_total_events st = int (length period) \<and>
        dget_or 0 (est_event_types st) k = int (length (filter (\<lambda>e. ev_type ops e = k) period)) \<and>
        dget_or 0 (est_tenants st) k = int (length (filter (\<lambda>e. so_tenant_id ops e = Some k) period)) \<and>
        dget_or 0 (est_sources st) k = int (length (filter (\<lambda>e. so_source ops e = Some k) period)))"
proof -
  have "es_matches ops None None None a b =
      (\<lambda>e. (a = None \<or> the a \<le> so_timestamp ops e) \<and> (b = None \<or> so_timestamp ops e \<le> the b))"
    by (auto simp: fun_eq_iff es_matches_def given_def split: option.split)
  then show ?thesis
    using assms
    by (simp add: es_get_event_statistics_def es_statistics_of_def Let_def fold_count_key fold_count_given
        dget_or_def [of 0 "[]"])
qed

section \<open>Witnesses\<close>

definition demo_ep :: "nat ep" where
  "demo_ep = ep_init (Some (ep_default_config\<lparr>epc_batch_size := 2\<rparr>))"

definition demo_bus :: "nat \<Rightarrow> string option \<Rightarrow> (nat list, bool) coro" where
  "demo_bus event subject dl t w = (Ok True, t, w @ [event])"


text \<open>The event is being published when the flush is cancelled.\<close>

definition demo_slow_bus :: "nat \<Rightarrow> string option \<Rightarrow> (nat list, bool) coro" where
  "demo_slow_bus event subject dl t w =
     (case sleep 1 dl t w of
        (Ok _, t1, w1) \<Rightarrow> (Ok True, t1, w1 @ [event])
      | (Raise e, t1, w1) \<Rightarrow> (Raise e, t1, w1)
      | (Cancelled, t1, w1) \<Rightarrow> (Cancelled, t1, w1))"

theorem ep_flush_settles_or_loses_witness:
  "\<exists>t' p' w'. ep_flush_batch demo_slow_bus (Some (1 / 2)) 0 (demo_ep\<lparr>ep_batch := [(1, None)]\<rparr>, []) =
      (Reply Cancelled, t', (p', w')) \<and>
    ep_batch p' = [] \<and> ep_settled p' < ep_settled demo_ep + 1"
proof -
  let ?p = "demo_ep\<lparr>ep_batch := [(1, None)]\<rparr>"
  obtain reply t' p' w' where run: "ep_flush_batch demo_slow_bus (Some (1 / 2)) 0 (?p, []) = (reply, t', (p', w'))"
    by (metis prod_cases4)
  have "reply = Reply Cancelled"
    using run
    by (auto simp: ep_flush_batch_def demo_ep_def ep_init_def ep_default_config_def ep_publish_single_def
        demo_slow_bus_def sleep_def)
  moreover have "\<not> ep_locked ?p" by (simp add: demo_ep_def ep_init_def)
  moreover have "ep_settled ?p = ep_settled demo_ep" by (simp add: ep_settled_def)
  ultimately show ?thesis using ep_flush_settles_or_loses [OF _ run] run by auto
qed

definition demo_store_ops :: "string store_ops" where
  "demo_store_ops = event_ops.extend demo_ops
     \<lparr>so_size_bytes = (\<lambda>s. Inr (int (length s))), so_tenant_id = (\<lambda>s. Some s), so_user_id = (\<lambda>s. None),
      so_correlation_id = (\<lambda>s. None), so_source = (\<lambda>s. Some ''system''), so_timestamp = (\<lambda>s. 0)\<rparr>"

definition demo_es :: es where
  "demo_es = es_init (Some (es_default_config\<lparr>esc_batch_size := 2\<rparr>))"

theorem es_full_store_hangs_witness:
  "fst (es_store_all demo_store_ops 0 [''a'', ''b'', ''c''] demo_es) = [Reply (Ok True), Hangs, Hangs] \<and>
   es_locked (snd (es_store_all demo_store_ops 0 [''a'', ''b'', ''c''] demo_es))"
proof -
  have "\<not> es_locked demo_es" "int (length (es_events demo_es)) < esc_batch_size (es_config demo_es)"
    by (simp_all add: demo_es_def es_init_def)
  moreover have "\<exists>n. so_size_bytes demo_store_ops e = Inr n" for e
    by (simp add: demo_store_ops_def event_ops.defs)
  ultimately show ?thesis
    using es_full_store_hangs [of demo_es "[''a'', ''b'', ''c'']" demo_store_ops 0]
    by (simp add: demo_es_def es_init_def numeral_2_eq_2)
qed

theorem es_books_witness:
  "es_events_stored (snd (snd (es_store_event demo_store_ops ''a'' None 0 demo_es))) = 1 \<and>
   es_storage_size_bytes (snd (snd (es_store_event demo_store_ops ''a'' None 0 demo_es))) = 1"
proof -
  let ?s = "snd (snd (es_store_event demo_store_ops ''a'' None 0 demo_es))"
  have "es_reach demo_store_ops (Some (es_default_config\<lparr>esc_batch_size := 2\<rparr>)) (?s, 0)"
    by (rule es_reach.stored [OF es_reach.start, where e = "''a''" and dl = None and t = 0])
      (simp add: demo_es_def [symmetric] prod_eq_iff)
  from es_books [OF this] show ?thesis
    by (simp add: es_store_event_def demo_store_ops_def event_ops.defs demo_es_def es_init_def
        Let_def es_bytes_def)
qed

theorem es_statistics_count_witness:
  "\<exists>st s. es_get_event_statistics demo_store_ops None (Some 1) s = (Ok (Some st), s) \<and>
    dget_or 0 (est_tenants st) ''a'' = 2"
proof -
  let ?entry = "\<lambda>x. \<lparr>ese_event = JStr x, ese_stored_at = 0, ese_size_bytes = 1\<rparr>"
  let ?s = "demo_es\<lparr>es_events := [?entry ''a'', ?entry ''b'', ?entry ''a'']\<rparr>"
  have "es_all_events demo_store_ops ?s = Inr [''a'', ''b'', ''a'']"
    by (simp add: es_all_events_def demo_store_ops_def event_ops.defs demo_ops_def)
  from es_statistics_count [OF this, where k = "''a''" and a = None and b = "Some 1"] show ?thesis
    by (auto simp: demo_store_ops_def event_ops.defs Let_def)
qed

end
