(* ===== verification/NatsEvents.thy ===== *)
theory NatsEvents
  imports Interfaces Json
begin

text \<open>
  \<^verbatim>\<open>libs/events\<close> over NATS: the types of events (\<^verbatim>\<open>event_types.py\<close>), the client with its streams,
  subjects and dead letters (\<^verbatim>\<open>nats_client.py\<close>), the event bus (\<^verbatim>\<open>event_bus.py\<close>), the handlers that
  store an event (\<^verbatim>\<open>event_handlers.py\<close>) and the processor of dead letters (\<^verbatim>\<open>dlq_processor.py\<close>).

  Parameters: the JetStream context and the messages it delivers (\<open>broker\<close>), the database session,
  the pydantic models, JSON texts and uuids. The matching of subjects is that of NATS and only
  occurs as a hypothesis.
\<close>

section \<open>Event types\<close>

datatype event_type =
    AGENT_RUN | TOOL_CALL | INGEST_DOC | USAGE_METERED | ROUTER_DECISION | WEBSOCKET_MESSAGE
  | BILLING_EVENT | AUDIT_LOG

fun event_type_value :: "event_type \<Rightarrow> string" where
  "event_type_value AGENT_RUN = ''agent_run''"
| "event_type_value TOOL_CALL = ''tool_call''"
| "event_type_value INGEST_DOC = ''ingest_doc''"
| "event_type_value USAGE_METERED = ''usage_metered''"
| "event_type_value ROUTER_DECISION = ''router_decision''"
| "event_type_value WEBSOCKET_MESSAGE = ''websocket_message''"
| "event_type_value BILLING_EVENT = ''billing_event''"
| "event_type_value AUDIT_LOG = ''audit_log''"

definition all_event_types :: "event_type list" where
  "all_event_types = [AGENT_RUN, TOOL_CALL, INGEST_DOC, USAGE_METERED, ROUTER_DECISION,
     WEBSOCKET_MESSAGE, BILLING_EVENT, AUDIT_LOG]"

text \<open>\<open>EventType(s)\<close>, \<open>None\<close> for the \<open>ValueError\<close>.\<close>

definition event_type_of :: "string \<Rightarrow> event_type option" where
  "event_type_of s = find (\<lambda>ty. event_type_value ty = s) all_event_types"

section \<open>Subjects and streams\<close>

definition nt_subjects :: "(string, string) dict" where
  "nt_subjects =
     [(''agent_run'', ''agent.run''), (''tool_call'', ''tool.call''), (''ingest_doc'', ''ingest.doc''),
      (''usage_metered'', ''usage.metered''), (''router_decision'', ''router.decision''),
      (''websocket_message'', ''websocket.message''), (''billing_event'', ''billing.event''),
      (''audit_log'', ''audit.log'')]"

definition nt_dlq_subjects :: "(string, string) dict" where
  "nt_dlq_subjects =
     [(''agent_run'', ''agent.run.dlq''), (''tool_call'', ''tool.call.dlq''),
      (''ingest_doc'', ''ingest.doc.dlq''), (''usage_metered'', ''usage.metered.dlq''),
      (''router_decision'', ''router.decision.dlq''), (''websocket_message'', ''websocket.message.dlq''),
      (''billing_event'', ''billing.event.dlq''), (''audit_log'', ''audit.log.dlq'')]"

text \<open>The expressions that choose a subject, a pattern and a stream name.\<close>

definition nt_subject :: "string \<Rightarrow> string" where
  "nt_subject event_type = dget_or ''unknown'' nt_subjects event_type @ ''.'' @ event_type"

definition nt_subject_pattern :: "string \<Rightarrow> string" where
  "nt_subject_pattern event_type = dget_or ''unknown'' nt_subjects event_type @ ''.*''"

definition nt_dlq_subject :: "string \<Rightarrow> string" where
  "nt_dlq_subject event_type = dget_or (event_type @ ''.dlq'') nt_dlq_subjects event_type"

definition nt_consumer_stream :: "string \<Rightarrow> string" where
  "nt_consumer_stream event_type = event_type @ ''_events''"

datatype nt_storage = STORAGE_FILE | STORAGE_MEMORY

record nt_stream =
  nts_name :: string
  nts_subjects :: "string list"
  nts_max_age :: int
  nts_max_msgs :: int
  nts_storage :: nt_storage

definition nt_streams :: "nt_stream list" where
  "nt_streams =
     [\<lparr>nts_name = ''agent_events'', nts_subjects = [''agent.run.*''], nts_max_age = 24 * 60 * 60,
       nts_max_msgs = 1000000, nts_storage = STORAGE_FILE\<rparr>,
      \<lparr>nts_name = ''tool_events'', nts_subjects = [''tool.call.*''], nts_max_age = 12 * 60 * 60,
       nts_max_msgs = 500000, nts_storage = STORAGE_FILE\<rparr>,
      \<lparr>nts_name = ''ingestion_events'', nts_subjects = [''ingest.doc.*''], nts_max_age = 7 * 24 * 60 * 60,
       nts_max_msgs = 100000, nts_storage = STORAGE_FILE\<rparr>,
      \<lparr>nts_name = ''usage_events'', nts_subjects = [''usage.metered.*''], nts_max_age = 30 * 24 * 60 * 60,
       nts_max_msgs = 10000000, nts_storage = STORAGE_FILE\<rparr>,
      \<lparr>nts_name = ''router_events'', nts_subjects = [''router.decision.*''],
       nts_max_age = 7 * 24 * 60 * 60, nts_max_msgs = 1000000, nts_storage = STORAGE_FILE\<rparr>,
      \<lparr>nts_name = ''websocket_events'', nts_subjects = [''websocket.message.*''],
       nts_max_age = 1 * 60 * 60, nts_max_msgs = 100000, nts_storage = STORAGE_MEMORY\<rparr>,
      \<lparr>nts_name = ''billing_events'', nts_subjects = [''billing.event.*''],
       nts_max_age = 365 * 24 * 60 * 60, nts_max_msgs = 1000000, nts_storage = STORAGE_FILE\<rparr>,
      \<lparr>nts_name = ''audit_events'', nts_subjects = [''audit.log.*''],
       nts_max_age = 365 * 24 * 60 * 60, nts_max_msgs = 10000000, nts_storage = STORAGE_FILE\<rparr>]"

section \<open>The client\<close>

record nt_msg =
  msg_subject :: string
  msg_data :: string
  msg_headers :: "(string, string) dict option"
  msg_num_delivered :: int

text \<open>The JetStream context: streams, publications, and the acknowledgements of messages.\<close>

record 'w broker =
  br_add_stream :: "nt_stream \<Rightarrow> ('w, unit) coro"
  br_add_consumer :: "string \<Rightarrow> string \<Rightarrow> ('w, unit) coro"
  br_pull_subscribe :: "string \<Rightarrow> string \<Rightarrow> ('w, unit) coro"
  br_subscribe :: "string \<Rightarrow> ('w, unit) coro"
  br_publish :: "string \<Rightarrow> string \<Rightarrow> (string, string) dict \<Rightarrow> ('w, int) coro"
  br_ack :: "nt_msg \<Rightarrow> ('w, unit) coro"
  br_nak :: "nt_msg \<Rightarrow> ('w, unit) coro"

definition runtime_error :: "string \<Rightarrow> exn" where
  "runtime_error m = Exn [''RuntimeError'', ''Exception''] m"

text \<open>\<open>_create_streams\<close>: a stream that cannot be created is logged.\<close>

definition nt_create_streams :: "'w broker \<Rightarrow> ('w, unit) coro" where
  "nt_create_streams br = co_each (\<lambda>st. co_catch (br_add_stream br st) (\<lambda>_. co_return ())) nt_streams"

text \<open>\<open>dict.update\<close> with all items of another dict.\<close>

definition dupdate :: "('k, 'v) dict \<Rightarrow> ('k, 'v) dict \<Rightarrow> ('k, 'v) dict" where
  "dupdate d e = fold (\<lambda>(k, v). dset k v) e d"

definition nt_payload :: "string \<Rightarrow> string \<Rightarrow> json \<Rightarrow> string \<Rightarrow> rat \<Rightarrow> json" where
  "nt_payload event_id event_type data tenant_id now = JDict
     [(''event_id'', JStr event_id), (''event_type'', JStr event_type),
      (''tenant_id'', JStr tenant_id), (''timestamp'', JFloat now), (''data'', data)]"

text \<open>\<open>br\<close> is the context of a connected client. The tenant is given as its text, \<open>uuid\<close> is \<open>uuid4()\<close>.\<close>

definition nt_publish_event ::
  "texts \<Rightarrow> 'w broker option \<Rightarrow> string \<Rightarrow> string \<Rightarrow> json \<Rightarrow> string \<Rightarrow> (string, string) dict option \<Rightarrow>
   ('w, int) coro" where
  "nt_publish_event tx br uuid event_type data tenant_id headers =
     (case br of
        None \<Rightarrow> co_raise (runtime_error ''NATS client not connected'')
      | Some js \<Rightarrow>
          co_bind co_now (\<lambda>now.
            (let payload = nt_payload uuid event_type data tenant_id now;
                 event_headers = [(''tenant_id'', tenant_id), (''event_type'', event_type),
                   (''timestamp'', int_str \<lfloor>now\<rfloor>), (''event_id'', uuid)];
                 event_headers1 = (case headers of None \<Rightarrow> event_headers | Some h \<Rightarrow> dupdate event_headers h)
             in co_bind (co_lift (tx_dumps tx payload)) (\<lambda>text.
                  br_publish js (nt_subject event_type) text event_headers1))))"

text \<open>The state of the client that its methods change: subscriptions and handlers of dead letters.\<close>

record 'w nt =
  nt_subscriptions :: "string list"
  nt_dlq_handlers :: "(string, json \<Rightarrow> ('w, unit) coro) dict"

definition nt_subscribe_to_events ::
  "'w broker option \<Rightarrow> string \<Rightarrow> string option \<Rightarrow> string option \<Rightarrow> ('w nt \<times> 'w, unit) coro" where
  "nt_subscribe_to_events br event_type consumer_name durable_name dl t = (\<lambda>(n, w).
     (case br of
        None \<Rightarrow> (Raise (runtime_error ''NATS client not connected''), t, (n, w))
      | Some js \<Rightarrow>
          (case co_bind (br_add_consumer js (nt_consumer_stream event_type)
                  (case durable_name of Some (x # xs) \<Rightarrow> x # xs | _ \<Rightarrow> event_type @ ''_consumer''))
                (\<lambda>_. br_pull_subscribe js (nt_subject_pattern event_type)
                  (case consumer_name of Some (x # xs) \<Rightarrow> x # xs | _ \<Rightarrow> event_type @ ''_subscriber''))
                dl t w of
             (Ok _, t1, w1) \<Rightarrow>
               (Ok (), t1, (n\<lparr>nt_subscriptions := List.insert event_type (nt_subscriptions n)\<rparr>, w1))
           | (Raise e, t1, w1) \<Rightarrow> (Raise e, t1, (n, w1))
           | (Cancelled, t1, w1) \<Rightarrow> (Cancelled, t1, (n, w1)))))"

definition nt_dlq_data :: "rat \<Rightarrow> nt_msg \<Rightarrow> string \<Rightarrow> json" where
  "nt_dlq_data now msg error = JDict
     [(''original_subject'', JStr (msg_subject msg)), (''original_data'', JStr (msg_data msg)),
      (''original_headers'', JDict (case msg_headers msg of
         None \<Rightarrow> [] | Some h \<Rightarrow> map (\<lambda>(k, v). (k, JStr v)) h)),
      (''error'', JStr error), (''failed_at'', JFloat now),
      (''retry_count'', JInt (msg_num_delivered msg))]"

definition nt_send_to_dlq :: "texts \<Rightarrow> 'w broker \<Rightarrow> string \<Rightarrow> nt_msg \<Rightarrow> string \<Rightarrow> ('w, unit) coro" where
  "nt_send_to_dlq tx js event_type msg error =
     co_catch
       (co_bind co_now (\<lambda>now.
          co_bind (co_lift (tx_dumps tx (nt_dlq_data now msg error))) (\<lambda>text.
          co_bind (br_publish js (nt_dlq_subject event_type) text
            [(''original_subject'', msg_subject msg), (''error'', error),
             (''failed_at'', int_str \<lfloor>now\<rfloor>)]) (\<lambda>_. co_return ()))))
       (\<lambda>_. co_return ())"

text \<open>
  One message of \<open>_process_messages\<close>. The log call after the acknowledgement reads
  \<open>event_data.get("event_id")\<close> and is still inside the \<open>try\<close>.
\<close>

definition nt_process_message ::
  "texts \<Rightarrow> 'w broker \<Rightarrow> (json \<Rightarrow> ('w, unit) coro) \<Rightarrow> string \<Rightarrow> nt_msg \<Rightarrow> ('w, unit) coro" where
  "nt_process_message tx js handler event_type msg =
     co_catch
       (co_bind (co_lift (tx_loads tx (msg_data msg))) (\<lambda>event_data.
        co_bind (handler event_data) (\<lambda>_.
        co_bind (br_ack js msg) (\<lambda>_.
        co_bind (co_lift (py_get event_data ''event_id'' JNull)) (\<lambda>_. co_return ())))))
       (\<lambda>e. if 3 \<le> msg_num_delivered msg
            then co_bind (nt_send_to_dlq tx js event_type msg (message e)) (\<lambda>_. br_ack js msg)
            else br_nak js msg)"

text \<open>One turn of the endless loop: a failed fetch, or a failing acknowledgement, costs a second.\<close>

definition nt_process_round ::
  "texts \<Rightarrow> 'w broker \<Rightarrow> (json \<Rightarrow> ('w, unit) coro) \<Rightarrow> string \<Rightarrow> ('w, nt_msg list) coro \<Rightarrow> ('w, unit) coro" where
  "nt_process_round tx js handler event_type fetch =
     co_catch
       (co_bind fetch (\<lambda>messages. co_each (nt_process_message tx js handler event_type) messages))
       (\<lambda>e. if is_timeout e then co_return () else sleep 1)"

definition nt_subscribe_to_dlq ::
  "'w broker option \<Rightarrow> string \<Rightarrow> (json \<Rightarrow> ('w, unit) coro) \<Rightarrow> ('w nt \<times> 'w, unit) coro" where
  "nt_subscribe_to_dlq br event_type handler dl t = (\<lambda>(n, w).
     (case br of
        None \<Rightarrow> (Raise (runtime_error ''NATS client not connected''), t, (n, w))
      | Some js \<Rightarrow>
          (case br_subscribe js (nt_dlq_subject event_type) dl t w of
             (Ok _, t1, w1) \<Rightarrow>
               (Ok (), t1, (n\<lparr>nt_dlq_handlers := dset event_type handler (nt_dlq_handlers n)\<rparr>, w1))
           | (Raise e, t1, w1) \<Rightarrow> (Raise e, t1, (n, w1))
           | (Cancelled, t1, w1) \<Rightarrow> (Cancelled, t1, (n, w1)))))"

text \<open>\<open>s.split(".")\<close>, and \<open>x.split(".")\<close> on any object.\<close>

fun split_dot :: "string \<Rightarrow> string list" where
  "split_dot [] = [[]]"
| "split_dot (c # s) =
     (if c = CHR ''.'' then [] # split_dot s
      else (case split_dot s of part # parts \<Rightarrow> (c # part) # parts | [] \<Rightarrow> [[c]]))"

fun py_split_dot :: "json \<Rightarrow> exn + string list" where
  "py_split_dot (JStr s) = Inr (split_dot s)"
| "py_split_dot _ = Inl (attribute_error ''object has no attribute split'')"

definition nt_handle_dlq_message ::
  "texts \<Rightarrow> 'w broker \<Rightarrow> (string, json \<Rightarrow> ('w, unit) coro) dict \<Rightarrow> nt_msg \<Rightarrow> ('w, unit) coro" where
  "nt_handle_dlq_message tx js dlq_handlers msg =
     co_catch
       (co_bind (co_lift (tx_loads tx (msg_data msg))) (\<lambda>dlq_data.
        co_bind (co_lift (ebind (py_get dlq_data ''original_subject'' (JStr [])) py_split_dot)) (\<lambda>parts.
        co_bind (case dget dlq_handlers (hd parts) of
                   Some handler \<Rightarrow> handler dlq_data
                 | None \<Rightarrow> co_return ()) (\<lambda>_.
        br_ack js msg))))
       (\<lambda>_. co_return ())"

section \<open>Storing events\<close>

text \<open>
  A database session as \<open>get_db_session()\<close> gives it, without a tenant: commit at the end, roll-back
  when the body raises, close in any case.
\<close>

record 'w db =
  db_open :: "('w, unit) coro"
  db_add :: "string \<Rightarrow> json \<Rightarrow> ('w, unit) coro"
  db_delete_failures :: "string \<Rightarrow> rat \<Rightarrow> ('w, int) coro"
  db_commit :: "('w, unit) coro"
  db_rollback :: "('w, unit) coro"
  db_close :: "('w, unit) coro"

definition db_session :: "'w db \<Rightarrow> ('w, 'a) coro \<Rightarrow> ('w, 'a) coro" where
  "db_session db body =
     co_bind (db_open db) (\<lambda>_.
       co_finally
         (co_catch (co_bind body (\<lambda>x. co_bind (db_commit db) (\<lambda>_. co_return x)))
            (\<lambda>e. co_bind (db_rollback db) (\<lambda>_. co_raise e)))
         (db_close db))"

text \<open>
  Per type of event the attributes of its pydantic model, and the columns of the row that its
  handler stores with the attribute that fills each.
\<close>

fun event_fields :: "event_type \<Rightarrow> string list" where
  "event_fields AGENT_RUN = [''run_id'', ''tenant_id'', ''agent_id'', ''user_id'', ''session_id'',
     ''input_text'', ''output_text'', ''status'', ''start_time'', ''end_time'', ''duration_ms'',
     ''tokens_used'', ''cost_usd'', ''error_message'', ''metadata'']"
| "event_fields TOOL_CALL = [''call_id'', ''run_id'', ''tenant_id'', ''tool_name'', ''tool_input'',
     ''tool_output'', ''status'', ''start_time'', ''end_time'', ''duration_ms'', ''error_message'',
     ''metadata'']"
| "event_fields INGEST_DOC = [''doc_id'', ''tenant_id'', ''user_id'', ''filename'', ''content_type'',
     ''file_size'', ''status'', ''start_time'', ''end_time'', ''duration_ms'', ''chunks_created'',
     ''embeddings_generated'', ''error_message'', ''metadata'']"
| "event_fields USAGE_METERED = [''usage_id'', ''tenant_id'', ''user_id'', ''resource_type'',
     ''resource_id'', ''quantity'', ''unit'', ''timestamp'', ''cost_usd'', ''metadata'']"
| "event_fields ROUTER_DECISION = [''decision_id'', ''tenant_id'', ''user_id'', ''input_text'',
     ''selected_agent'', ''confidence'', ''reasoning'', ''features'', ''timestamp'', ''metadata'']"
| "event_fields WEBSOCKET_MESSAGE = [''message_id'', ''tenant_id'', ''user_id'', ''session_id'',
     ''message_type'', ''content'', ''timestamp'', ''metadata'']"
| "event_fields BILLING_EVENT = [''billing_id'', ''tenant_id'', ''event_type'', ''amount_usd'',
     ''currency'', ''timestamp'', ''description'', ''metadata'']"
| "event_fields AUDIT_LOG = [''log_id'', ''tenant_id'', ''user_id'', ''action'', ''resource_type'',
     ''resource_id'', ''old_values'', ''new_values'', ''timestamp'', ''ip_address'', ''user_agent'',
     ''metadata'']"

fun row_table :: "event_type \<Rightarrow> string" where
  "row_table AGENT_RUN = ''AgentRun''"
| "row_table TOOL_CALL = ''ToolCall''"
| "row_table INGEST_DOC = ''DocumentIngestion''"
| "row_table USAGE_METERED = ''UsageMetered''"
| "row_table ROUTER_DECISION = ''RouterDecision''"
| "row_table WEBSOCKET_MESSAGE = ''WebSocketMessage''"
| "row_table BILLING_EVENT = ''BillingEvent''"
| "row_table AUDIT_LOG = ''AuditLog''"

definition same_columns :: "string list \<Rightarrow> (string \<times> string) list" where
  "same_columns = map (\<lambda>c. (c, c))"

fun row_columns :: "event_type \<Rightarrow> (string \<times> string) list" where
  "row_columns AGENT_RUN = (''id'', ''run_id'') # same_columns [''tenant_id'', ''agent_id'', ''user_id'',
     ''session_id'', ''input_text'', ''output_text'', ''status'', ''start_time'', ''end_time'',
     ''duration_ms'', ''tokens_used'', ''cost_usd'', ''error_message'', ''metadata'']"
| "row_columns TOOL_CALL = (''id'', ''call_id'') # same_columns [''run_id'', ''tenant_id'', ''tool_name'',
     ''tool_input'', ''tool_output'', ''status'', ''start_time'', ''end_time'', ''duration_ms'',
     ''error_message'', ''metadata'']"
| "row_columns INGEST_DOC = (''id'', ''doc_id'') # same_columns [''tenant_id'', ''user_id'', ''filename'',
     ''content_type'', ''file_size'', ''status'', ''start_time'', ''end_time'', ''duration_ms'',
     ''chunks_created'', ''embeddings_generated'', ''error_message'', ''metadata'']"
| "row_columns USAGE_METERED = (''id'', ''usage_id'') # same_columns [''tenant_id'', ''user_id'',
     ''resource_type'', ''resource_id'', ''quantity'', ''unit'', ''timestamp'', ''cost_usd'', ''metadata'']"
| "row_columns ROUTER_DECISION = (''id'', ''decision_id'') # same_columns [''tenant_id'', ''user_id'',
     ''input_text'', ''selected_agent'', ''confidence'', ''reasoning'', ''features'', ''timestamp'',
     ''metadata'']"
| "row_columns WEBSOCKET_MESSAGE = (''id'', ''message_id'') # same_columns [''tenant_id'', ''user_id'',
     ''session_id'', ''message_type'', ''content'', ''timestamp'', ''metadata'']"
| "row_columns BILLING_EVENT = (''id'', ''billing_id'') # same_columns [''tenant_id'', ''event_type'',
     ''amount_usd'', ''currency'', ''timestamp'', ''description'', ''metadata'']"
| "row_columns AUDIT_LOG = (''id'', ''log_id'') # same_columns [''tenant_id'', ''user_id'', ''action'',
     ''resource_type'', ''resource_id'', ''old_values'', ''new_values'', ''timestamp'', ''ip_address'',
     ''user_agent'', ''metadata'']"

definition event_row :: "event_type \<Rightarrow> (string, json) dict \<Rightarrow> json" where
  "event_row ty event = JDict (map (\<lambda>(column, attr). (column, dget_or JNull event attr)) (row_columns ty))"

text \<open>
  The handlers, which are alike: \<open>eh_model\<close> is the pydantic model, which validates and fills
  defaults; \<open>eh_metrics\<close> updates metrics that the code imports from a module the repository lacks.
\<close>

record 'w eh_env =
  eh_model :: "event_type \<Rightarrow> json \<Rightarrow> exn + (string, json) dict"
  eh_metrics :: "event_type \<Rightarrow> (string, json) dict \<Rightarrow> ('w, unit) coro"
  eh_db :: "'w db"

definition eh_handle :: "'w eh_env \<Rightarrow> event_type \<Rightarrow> json \<Rightarrow> ('w, unit) coro" where
  "eh_handle env ty event_data =
     co_bind (co_lift (ebind (py_item event_data ''data'') (eh_model env ty))) (\<lambda>event.
     co_bind (eh_metrics env ty event) (\<lambda>_.
     db_session (eh_db env)
       (co_bind (db_add (eh_db env) (row_table ty) (event_row ty event)) (\<lambda>_. db_commit (eh_db env)))))"

section \<open>The processor of dead letters\<close>

text \<open>\<open>np_pow2\<close> is \<open>2 ** q\<close> for a float; \<open>np_alert\<close> publishes the alert through the global event bus.\<close>

record 'w np_env =
  np_texts :: texts
  np_pow2 :: "rat \<Rightarrow> rat"
  np_handlers :: "'w eh_env"
  np_tenant_id :: string
  np_alert :: "json \<Rightarrow> ('w, unit) coro"

definition np_retry_attempts :: int where "np_retry_attempts = 3"
definition np_retry_delay :: rat where "np_retry_delay = 60"
definition np_max_retry_delay :: rat where "np_max_retry_delay = 3600"

definition np_extract_event_type :: "json \<Rightarrow> exn + event_type option" where
  "np_extract_event_type subject =
     ebind (py_split_dot subject) (\<lambda>parts.
       Inr (if 2 \<le> length parts then event_type_of (hd parts) else None))"

fun np_calculate_retry_delay :: "(rat \<Rightarrow> rat) \<Rightarrow> json \<Rightarrow> exn + rat" where
  "np_calculate_retry_delay pow2 (JInt k) = Inr (min (np_retry_delay * 2 powi k) np_max_retry_delay)"
| "np_calculate_retry_delay pow2 (JBool b) =
     Inr (min (np_retry_delay * (if b then 2 else 1)) np_max_retry_delay)"
| "np_calculate_retry_delay pow2 (JFloat q) = Inr (min (np_retry_delay * pow2 q) np_max_retry_delay)"
| "np_calculate_retry_delay pow2 _ = Inl (type_error ''unsupported operand type(s) for ** or pow()'')"

text \<open>\<open>str(UUID())\<close>: the constructor needs an argument.\<close>

definition uuid_without_argument :: "exn + string" where
  "uuid_without_argument =
     Inl (type_error ''one of the hex, bytes, bytes_le, fields, or int arguments must be given'')"

definition np_failure_row :: "string \<Rightarrow> string \<Rightarrow> event_type \<Rightarrow> (string, json) dict \<Rightarrow> json \<Rightarrow> rat \<Rightarrow> json" where
  "np_failure_row tenant_id i ty dlq_data error now = JDict
     [(''id'', JStr i), (''tenant_id'', JStr tenant_id), (''event_type'', JStr (event_type_value ty)),
      (''original_subject'', dget_or (JStr []) dlq_data ''original_subject''),
      (''original_data'', dget_or (JStr []) dlq_data ''original_data''),
      (''original_headers'', dget_or (JDict []) dlq_data ''original_headers''), (''error'', error),
      (''failed_at'', dget_or (JFloat now) dlq_data ''failed_at''),
      (''retry_count'', dget_or (JInt 0) dlq_data ''retry_count''), (''created_at'', JFloat now)]"

definition np_store_permanent_failure ::
  "'w db \<Rightarrow> string \<Rightarrow> event_type \<Rightarrow> (string, json) dict \<Rightarrow> json \<Rightarrow> ('w, unit) coro" where
  "np_store_permanent_failure db tenant_id ty dlq_data error =
     db_session db
       (co_bind (co_lift uuid_without_argument) (\<lambda>i.
        co_bind co_now (\<lambda>now.
        co_bind (db_add db ''PermanentFailure'' (np_failure_row tenant_id i ty dlq_data error now)) (\<lambda>_.
        db_commit db))))"

definition np_store_processing_error :: "'w db \<Rightarrow> string \<Rightarrow> json \<Rightarrow> string \<Rightarrow> ('w, unit) coro" where
  "np_store_processing_error db tenant_id dlq_data error =
     db_session db
       (co_bind (co_lift uuid_without_argument) (\<lambda>i.
        co_bind co_now (\<lambda>now.
        co_bind (db_add db ''DLQProcessingError'' (JDict
            [(''id'', JStr i), (''tenant_id'', JStr tenant_id), (''dlq_data'', dlq_data),
             (''error'', JStr error), (''created_at'', JFloat now)])) (\<lambda>_.
        db_commit db))))"

definition np_alert_data :: "string \<Rightarrow> event_type \<Rightarrow> (string, json) dict \<Rightarrow> json \<Rightarrow> rat \<Rightarrow> json" where
  "np_alert_data tenant_id ty dlq_data error now = JDict
     [(''type'', JStr ''dlq_permanent_failure''), (''tenant_id'', JStr tenant_id),
      (''event_type'', JStr (event_type_value ty)),
      (''error'', error), (''failed_at'', dget_or (JFloat now) dlq_data ''failed_at''),
      (''retry_count'', dget_or (JInt 0) dlq_data ''retry_count''),
      (''original_subject'', dget_or (JStr []) dlq_data ''original_subject'')]"

definition np_send_failure_alert ::
  "'w np_env \<Rightarrow> event_type \<Rightarrow> (string, json) dict \<Rightarrow> json \<Rightarrow> ('w, unit) coro" where
  "np_send_failure_alert env ty dlq_data error =
     co_catch (co_bind co_now (\<lambda>now. np_alert env (np_alert_data (np_tenant_id env) ty dlq_data error now)))
       (\<lambda>_. co_return ())"

definition np_handle_final_failure ::
  "'w np_env \<Rightarrow> (string, json) dict \<Rightarrow> event_type \<Rightarrow> json \<Rightarrow> ('w, unit) coro" where
  "np_handle_final_failure env dlq_data ty error =
     co_catch
       (co_bind (np_store_permanent_failure (eh_db (np_handlers env)) (np_tenant_id env) ty dlq_data error) (\<lambda>_.
          np_send_failure_alert env ty dlq_data error))
       (\<lambda>_. co_return ())"

definition np_handle_processing_error :: "'w np_env \<Rightarrow> json \<Rightarrow> string \<Rightarrow> ('w, unit) coro" where
  "np_handle_processing_error env dlq_data error =
     co_catch (np_store_processing_error (eh_db (np_handlers env)) (np_tenant_id env) dlq_data error) (\<lambda>_. co_return ())"

text \<open>\<open>json.loads(x)\<close> of an object that need not be a string.\<close>

fun py_loads :: "texts \<Rightarrow> json \<Rightarrow> exn + json" where
  "py_loads tx (JStr s) = tx_loads tx s"
| "py_loads tx _ = Inl (type_error ''the JSON object must be str, bytes or bytearray'')"

definition np_process_dlq_message :: "'w np_env \<Rightarrow> json \<Rightarrow> ('w, unit) coro" where
  "np_process_dlq_message env message_data =
     co_catch
       (co_bind (co_lift (py_items message_data)) (\<lambda>dlq_data.
        co_bind (co_lift (py_loads (np_texts env) (dget_or (JStr ''{}'') dlq_data ''original_data''))) (\<lambda>original_data.
        (let error = dget_or (JStr ''Unknown error'') dlq_data ''error'';
             retry_count = dget_or (JInt 0) dlq_data ''retry_count''
         in co_bind (co_lift (np_extract_event_type (dget_or (JStr []) dlq_data ''original_subject''))) (\<lambda>ty.
            (case ty of
               None \<Rightarrow> co_return ()
             | Some event_type \<Rightarrow>
                 co_bind (co_lift (py_ge_int retry_count np_retry_attempts)) (\<lambda>final.
                 if final then np_handle_final_failure env dlq_data event_type error
                 else co_bind (co_lift (np_calculate_retry_delay (np_pow2 env) retry_count)) (\<lambda>delay.
                      co_bind (sleep delay) (\<lambda>_.
                      eh_handle (np_handlers env) event_type original_data)))))))))
       (\<lambda>e. np_handle_processing_error env message_data (message e))"

definition np_cleanup_old_failures :: "'w db \<Rightarrow> string \<Rightarrow> int \<Rightarrow> ('w, int) coro" where
  "np_cleanup_old_failures db tenant_id days =
     co_catch
       (co_bind co_now (\<lambda>now.
          db_session db
            (co_bind (db_delete_failures db tenant_id (now - of_int (days * 24 * 60 * 60))) (\<lambda>deleted_count.
             co_bind (db_commit db) (\<lambda>_. co_return deleted_count)))))
       (\<lambda>_. co_return 0)"

section \<open>The event bus\<close>

record 'w eb =
  eb_handlers :: "(string, (json \<Rightarrow> ('w, unit) coro) list) dict"
  eb_models :: "(string, json \<Rightarrow> exn + unit) dict"
  eb_connected :: bool

definition bus_init :: "'w eb" where
  "bus_init = \<lparr>eb_handlers = [], eb_models = [], eb_connected = False\<rparr>"

definition eb_register_event_model :: "string \<Rightarrow> (json \<Rightarrow> exn + unit) \<Rightarrow> 'w eb \<Rightarrow> 'w eb" where
  "eb_register_event_model event_type model b = b\<lparr>eb_models := dset event_type model (eb_models b)\<rparr>"

definition eb_register_handler :: "string \<Rightarrow> (json \<Rightarrow> ('w, unit) coro) \<Rightarrow> 'w eb \<Rightarrow> 'w eb" where
  "eb_register_handler event_type handler b =
     b\<lparr>eb_handlers := dset event_type (dget_or [] (eb_handlers b) event_type @ [handler]) (eb_handlers b)\<rparr>"

text \<open>\<open>connect\<close> and \<open>disconnect\<close>, given how the NATS client ended.\<close>

definition eb_set_connected :: "bool \<Rightarrow> unit outcome \<Rightarrow> 'w eb \<Rightarrow> 'w eb" where
  "eb_set_connected up r b = (case r of Ok _ \<Rightarrow> b\<lparr>eb_connected := up\<rparr> | _ \<Rightarrow> b)"

definition eb_publish_event ::
  "texts \<Rightarrow> 'w broker option \<Rightarrow> string \<Rightarrow> 'w eb \<Rightarrow> string \<Rightarrow> json \<Rightarrow> string \<Rightarrow> (string, string) dict option \<Rightarrow>
   ('w, int) coro" where
  "eb_publish_event tx br uuid b event_type data tenant_id headers =
     (if \<not> eb_connected b then co_raise (runtime_error ''Event bus not connected'')
      else
        co_bind (co_lift (case dget (eb_models b) event_type of None \<Rightarrow> Inr () | Some model \<Rightarrow> model data)) (\<lambda>_.
          nt_publish_event tx br uuid event_type data tenant_id headers))"

text \<open>\<open>combined_handler\<close> over the registered handlers.\<close>

definition eb_combined_handler :: "(json \<Rightarrow> ('w, unit) coro) list \<Rightarrow> json \<Rightarrow> ('w, unit) coro" where
  "eb_combined_handler handlers event_data =
     co_each (\<lambda>handler. co_catch (handler event_data) (\<lambda>_. co_return ())) handlers"

definition eb_subscribe_to_events ::
  "'w broker option \<Rightarrow> 'w eb \<Rightarrow> string \<Rightarrow> string option \<Rightarrow> string option \<Rightarrow> ('w nt \<times> 'w, unit) coro" where
  "eb_subscribe_to_events br b event_type consumer_name durable_name =
     (if \<not> eb_connected b then co_raise (runtime_error ''Event bus not connected'')
      else if dget_or [] (eb_handlers b) event_type = [] then co_return ()
      else nt_subscribe_to_events br event_type consumer_name durable_name)"

definition eb_subscribe_to_dlq ::
  "'w broker option \<Rightarrow> 'w eb \<Rightarrow> string \<Rightarrow> (json \<Rightarrow> ('w, unit) coro) \<Rightarrow> ('w nt \<times> 'w, unit) coro" where
  "eb_subscribe_to_dlq br b event_type handler =
     (if \<not> eb_connected b then co_raise (runtime_error ''Event bus not connected'')
      else nt_subscribe_to_dlq br event_type handler)"

section \<open>Properties\<close>

subsection \<open>Subscriptions\<close>

lemma event_type_of_value [simp]: "event_type_of (event_type_value ty) = Some ty"
  by (cases ty) (simp_all add: event_type_of_def all_event_types_def)

lemma event_type_of_sound: "event_type_of s = Some ty \<Longrightarrow> s = event_type_value ty"
  by (auto simp: event_type_of_def all_event_types_def split: if_splits)

lemma consumer_stream_not_created:
  "nt_consumer_stream (event_type_value ty) \<notin> set (map nts_name nt_streams)"
  by (cases ty) (simp_all add: nt_consumer_stream_def nt_streams_def)

text \<open>So every subscription to the events of one of the eight types raises what the server answers.\<close>

lemma nt_no_subscription:
  assumes unknown: "\<And>stream consumer dl t w. stream \<notin> set (map nts_name nt_streams) \<Longrightarrow>
      br_add_consumer js stream consumer dl t w = (Raise not_found, t, w)"
  shows "nt_subscribe_to_events (Some js) (event_type_value ty) consumer_name durable_name dl t (n, w) =
    (Raise not_found, t, (n, w))"
  using unknown [OF consumer_stream_not_created]
  by (simp add: nt_subscribe_to_events_def co_bind_def)

definition demo_broker :: "string list broker" where
  "demo_broker = \<lparr>br_add_stream = (\<lambda>st. co_return ()),
     br_add_consumer = (\<lambda>stream c. if stream \<in> set (map nts_name nt_streams) then co_return ()
       else co_raise (exception ''stream not found'')),
     br_pull_subscribe = (\<lambda>p c. co_return ()), br_subscribe = (\<lambda>s. co_return ()),
     br_publish = (\<lambda>s text h dl t w. (Ok 1, t, w @ [s])),
     br_ack = (\<lambda>m dl t w. (Ok (), t, w @ [''ack''])), br_nak = (\<lambda>m dl t w. (Ok (), t, w @ [''nak'']))\<rparr>"

subsection \<open>Dead letters\<close>

text \<open>The first token of the subject of an event is no event type.\<close>

lemma split_dot_dotless: "CHR ''.'' \<notin> set s \<Longrightarrow> split_dot (s @ CHR ''.'' # rest) = s # split_dot rest"
  by (induction s) auto

lemma split_dot_nonempty [simp]: "split_dot s \<noteq> []"
  by (induction s) (auto split: list.split)

lemma subject_first_token:
  "event_type_of (hd (split_dot (nt_subject (event_type_value ty)))) = None"
  by (cases ty) (simp_all add: nt_subject_def nt_subjects_def dget_or_def event_type_of_def all_event_types_def)

lemma extract_event_type_of_subject:
  "np_extract_event_type (JStr (nt_subject (event_type_value ty))) = Inr None"
  by (simp add: np_extract_event_type_def ebind_def subject_first_token)

lemma dead_letter_dropped:
  assumes registered: "\<forall>k \<in> set (map fst dlq_handlers). \<exists>ty. k = event_type_value ty"
    and letter: "tx_loads tx (msg_data letter) = Inr (nt_dlq_data failed_at msg error)"
    and subject: "msg_subject msg = nt_subject (event_type_value ty)"
  shows "nt_handle_dlq_message tx js dlq_handlers letter = co_catch (br_ack js letter) (\<lambda>_. co_return ())"
proof -
  have "dget dlq_handlers (hd (split_dot (nt_subject (event_type_value ty)))) = None"
  proof (rule ccontr)
    assume "\<not> ?thesis"
    then obtain ty' where "hd (split_dot (nt_subject (event_type_value ty))) = event_type_value ty'"
      using registered by (force dest: map_of_SomeD)
    then show False using subject_first_token [of ty] by simp
  qed
  then show ?thesis
    by (simp add: nt_handle_dlq_message_def letter nt_dlq_data_def subject ebind_def dget_or_def)
qed

text \<open>
  Dead letters are never handled. The letter of an event that was published on its own subject is looked
  up by the first token of that subject, \<open>agent\<close> for an \<open>agent_run\<close>, whereas the handlers are
  registered under the event types: whatever is registered, the letter is acknowledged and gone, and
  no handler is called.
\<close>

theorem nt_dead_letters_dropped:
  assumes registered: "\<forall>k \<in> set (map fst dlq_handlers). \<exists>ty. k = event_type_value ty"
    and letter: "tx_loads tx (msg_data letter) = Inr (nt_dlq_data failed_at msg error)"
    and subject: "msg_subject msg = nt_subject (event_type_value ty)"
  shows "nt_handle_dlq_message tx js dlq_handlers letter = co_catch (br_ack js letter) (\<lambda>_. co_return ())"
  by (rule dead_letter_dropped [OF assms])

definition nt_demo_msg :: nt_msg where
  "nt_demo_msg = \<lparr>msg_subject = ''agent.run.agent_run'', msg_data = ''{}'', msg_headers = None, msg_num_delivered = 3\<rparr>"

definition nt_demo_texts :: texts where
  "nt_demo_texts = \<lparr>tx_dumps = (\<lambda>_. Inr ''letter''), tx_dumps_sorted = (\<lambda>_. Inr ''letter''),
     tx_loads = (\<lambda>s. if s = ''letter'' then Inr (nt_dlq_data 7 nt_demo_msg ''boom'') else Inr (JDict [])),
     tx_sha256 = id, tx_isoformat = (\<lambda>_. []), tx_fromisoformat = (\<lambda>_. Inl (value_error ''''))\<rparr>"

theorem nt_dead_letters_dropped_witness:
  "nt_handle_dlq_message nt_demo_texts demo_broker [(''agent_run'', \<lambda>_ dl t w. (Ok (), t, w @ [''handled'']))]
     (nt_demo_msg\<lparr>msg_data := ''letter''\<rparr>) None 8 [] = (Ok (), 8, [''ack''])"
proof -
  have "\<exists>ty. ''agent_run'' = event_type_value ty" by (rule exI [of _ AGENT_RUN]) simp
  then show ?thesis
    using nt_dead_letters_dropped [where dlq_handlers = "[(''agent_run'', \<lambda>_ dl t w. (Ok (), t, w @ [''handled'']))]"
      and tx = nt_demo_texts and letter = "nt_demo_msg\<lparr>msg_data := ''letter''\<rparr>" and failed_at = 7 and msg = nt_demo_msg
      and error = "''boom''" and ty = AGENT_RUN and js = demo_broker]
    by (simp add: nt_demo_texts_def nt_demo_msg_def nt_subject_def nt_subjects_def dget_or_def demo_broker_def
      co_catch_def)
qed

lemma dead_letter_not_retried:
  assumes data: "tx_loads (np_texts env) (msg_data msg) = Inr v"
    and subject: "msg_subject msg = nt_subject (event_type_value ty)"
  shows "np_process_dlq_message env (nt_dlq_data failed_at msg error) = co_return ()"
  by (simp add: np_process_dlq_message_def nt_dlq_data_def dget_or_def data subject extract_event_type_of_subject)

subsection \<open>Permanent failures\<close>

text \<open>A session whose body raises rolls back and closes, and raises.\<close>

definition db_failed :: "'w db \<Rightarrow> exn \<Rightarrow> ('w, 'a) coro" where
  "db_failed db e =
     co_bind (db_open db) (\<lambda>_. co_finally (co_bind (db_rollback db) (\<lambda>_. co_raise e)) (db_close db))"

lemma db_session_raise: "db_session db (co_raise e) = db_failed db e"
  by (simp add: db_session_def db_failed_def)

lemma db_failed_not_Ok: "db_failed db e dl t w \<noteq> (Ok x, t', w')"
  by (auto simp: db_failed_def co_bind_def co_finally_def co_raise_def split: prod.splits outcome.splits)

abbreviation uuid_type_error :: exn where
  "uuid_type_error \<equiv> type_error ''one of the hex, bytes, bytes_le, fields, or int arguments must be given''"

lemma store_permanent_failure_fails:
  "np_store_permanent_failure db tenant_id ty dlq_data error = db_failed db uuid_type_error"
  by (simp add: np_store_permanent_failure_def uuid_without_argument_def db_session_raise)

lemma store_processing_error_fails:
  "np_store_processing_error db tenant_id dlq_data error = db_failed db uuid_type_error"
  by (simp add: np_store_processing_error_def uuid_without_argument_def db_session_raise)

lemma bind_db_failed:
  fixes g :: "unit \<Rightarrow> ('w, unit) coro"
  shows "co_bind (db_failed db e) g = db_failed db e"
proof (intro ext)
  fix dl t w
  obtain r t1 w1 where r: "(db_failed db e :: ('w, unit) coro) dl t w = (r, t1, w1)" by (rule prod_cases3)
  with db_failed_not_Ok have "r \<noteq> Ok x" for x by metis
  with r show "co_bind (db_failed db e) g dl t w = db_failed db e dl t w"
    by (cases r) (simp_all add: co_bind_def)
qed

text \<open>
  No failure is ever recorded. Storing a permanent failure and storing a processing error both build
  their row's key with \<open>str(UUID())\<close>, which raises: all that happens to the database is that a session
  is opened, rolled back and closed, whatever the letter, and the alert that follows the storing is never
  sent. The error is swallowed.
\<close>

theorem np_failures_not_recorded:
  "np_handle_final_failure env dlq_data ty error =
     co_catch (db_failed (eh_db (np_handlers env)) uuid_type_error) (\<lambda>_. co_return ()) \<and>
   np_handle_processing_error env message_data text =
     co_catch (db_failed (eh_db (np_handlers env)) uuid_type_error) (\<lambda>_. co_return ())"
proof
  show "np_handle_final_failure env dlq_data ty error =
      co_catch (db_failed (eh_db (np_handlers env)) uuid_type_error) (\<lambda>_. co_return ())"
    by (simp add: np_handle_final_failure_def store_permanent_failure_fails bind_db_failed)
qed (simp add: np_handle_processing_error_def store_processing_error_fails)

subsection \<open>Handlers of the event bus\<close>

lemma co_each_not_Raise:
  assumes "\<And>x dl t w e t' w'. f x dl t w \<noteq> (Raise e, t', w')"
  shows "co_each f xs dl t w \<noteq> (Raise e, t', w')"
  using assms
  by (induction xs arbitrary: t w)
    (auto simp: co_return_def co_bind_def split: prod.split outcome.split)

lemma combined_handler_not_Raise: "eb_combined_handler handlers d dl t w \<noteq> (Raise e, t', w')"
  unfolding eb_combined_handler_def
  by (rule co_each_not_Raise) (auto simp: co_catch_def co_return_def split: prod.splits outcome.splits)

lemma co_catch_not_Raise:
  "(\<And>dl t w e t' w'. f dl t w \<noteq> (Raise e, t', w')) \<Longrightarrow> co_catch f h = f"
  by (auto simp: fun_eq_iff co_catch_def split: prod.split outcome.split)

text \<open>
  A message that the handlers of the event bus cannot process is acknowledged like any other: it is
  neither delivered again nor sent to the dead letters, since the combined handler logs what each handler
  raises and goes on. (The payload is a JSON object and acknowledging does not raise.)
\<close>

theorem eb_failures_acknowledged:
  assumes data: "tx_loads tx (msg_data msg) = Inr (JDict d)"
    and ack: "\<And>dl t w e t' w'. br_ack js msg dl t w \<noteq> (Raise e, t', w')"
  shows "nt_process_message tx js (eb_combined_handler handlers) event_type msg =
    co_bind (eb_combined_handler handlers (JDict d)) (\<lambda>_. br_ack js msg)"
proof -
  have "co_bind (eb_combined_handler handlers (JDict d)) (\<lambda>_. br_ack js msg) dl t w \<noteq> (Raise e, t', w')"
    for dl t w e t' w'
    using ack combined_handler_not_Raise by (fastforce simp: co_bind_def split: prod.splits outcome.splits)
  from co_catch_not_Raise [OF this] show ?thesis
    by (simp add: nt_process_message_def data)
qed

theorem eb_failures_acknowledged_witness:
  "nt_process_message nt_demo_texts demo_broker (eb_combined_handler [\<lambda>_. co_raise (exception ''boom'')]) ''agent_run''
     nt_demo_msg None 8 [] = (Ok (), 8, [''ack''])"
  using eb_failures_acknowledged [of nt_demo_texts nt_demo_msg "[]" demo_broker
    "[\<lambda>_. co_raise (exception ''boom'')]" "''agent_run''"]
  by (simp add: nt_demo_texts_def nt_demo_msg_def demo_broker_def eb_combined_handler_def co_catch_def co_return_def
    co_bind_def co_raise_def)

text \<open>A message whose handler fails is delivered again until the third time, and then becomes a dead letter.\<close>

lemma failing_message_settled:
  assumes data: "tx_loads tx (msg_data msg) = Inr d" and handler: "handler d = co_raise e"
  shows "nt_process_message tx js handler event_type msg =
    (if 3 \<le> msg_num_delivered msg
     then co_bind (nt_send_to_dlq tx js event_type msg (message e)) (\<lambda>_. br_ack js msg)
     else br_nak js msg)"
  by (simp add: nt_process_message_def data handler)

subsection \<open>Stored events\<close>

lemma row_has_all_fields: "map snd (row_columns ty) = event_fields ty"
  by (cases ty) (simp_all add: same_columns_def)

lemma row_columns_distinct: "distinct (map fst (row_columns ty))"
  by (cases ty) (simp_all add: same_columns_def)

end
