(* ===== verification/EventService.thy ===== *)
theory EventService
  imports NatsEvents
begin

text \<open>
  \<^verbatim>\<open>libs/events/event_service.py\<close>: the service that registers the models and handlers of all event
  types at the event bus and subscribes to events and dead letters, over the bus and the NATS client.
  The connection to the server (\<open>server\<close>, \<open>close\<close>) and the JetStream context are parameters. The
  \<open>publish_\<close> methods import constructors that \<^verbatim>\<open>event_types.py\<close> does not define and are not modelled.
\<close>

section \<open>Connecting\<close>

type_synonym 'w bus = "'w eb \<times> 'w nt \<times> 'w"

definition nt_connect :: "('w, unit) coro \<Rightarrow> 'w broker \<Rightarrow> ('w, unit) coro" where
  "nt_connect server js = co_bind server (\<lambda>_. nt_create_streams js)"

definition eb_connect :: "('w, unit) coro \<Rightarrow> 'w broker \<Rightarrow> ('w bus, unit) coro" where
  "eb_connect server js dl t = (\<lambda>(b, n, w).
     (case nt_connect server js dl t w of (r, t1, w1) \<Rightarrow> (r, t1, (eb_set_connected True r b, n, w1))))"

definition eb_disconnect :: "('w, unit) coro \<Rightarrow> ('w bus, unit) coro" where
  "eb_disconnect close dl t = (\<lambda>(b, n, w).
     (case close dl t w of (r, t1, w1) \<Rightarrow> (r, t1, (eb_set_connected False r b, n, w1))))"

section \<open>The service\<close>

record svc =
  svc_tenant_id :: string
  svc_is_running :: bool

definition svc_init :: "string \<Rightarrow> svc" where
  "svc_init tenant_id = \<lparr>svc_tenant_id = tenant_id, svc_is_running = False\<rparr>"

definition svc_subscribe_to_events ::
  "'w eh_env \<Rightarrow> 'w broker \<Rightarrow> svc \<Rightarrow> event_type \<Rightarrow> ('w bus, unit) coro" where
  "svc_subscribe_to_events env js s ty =
     co_catch
       (\<lambda>dl t (b, n, w).
          (let b1 = eb_register_handler (event_type_value ty) (eh_handle env ty) b
           in case eb_subscribe_to_events (Some js) b1 (event_type_value ty)
                     (Some (event_type_value ty @ ''_consumer_'' @ svc_tenant_id s))
                     (Some (event_type_value ty @ ''_durable_'' @ svc_tenant_id s)) dl t (n, w) of
                (r, t1, nw) \<Rightarrow> (r, t1, (b1, nw))))
       (\<lambda>_. co_return ())"

definition svc_subscribe_to_dlq :: "'w np_env \<Rightarrow> 'w broker \<Rightarrow> event_type \<Rightarrow> ('w bus, unit) coro" where
  "svc_subscribe_to_dlq dlq js ty =
     co_catch
       (\<lambda>dl t (b, n, w).
          (case eb_subscribe_to_dlq (Some js) b (event_type_value ty) (np_process_dlq_message dlq) dl t (n, w) of
             (r, t1, nw) \<Rightarrow> (r, t1, (b, nw))))
       (\<lambda>_. co_return ())"

definition svc_register_models :: "'w eh_env \<Rightarrow> 'w eb \<Rightarrow> 'w eb" where
  "svc_register_models env b =
     fold (\<lambda>ty. eb_register_event_model (event_type_value ty) (\<lambda>data. ebind (eh_model env ty data) (\<lambda>_. Inr ())))
       all_event_types b"

definition svc_start ::
  "'w eh_env \<Rightarrow> 'w np_env \<Rightarrow> ('w, unit) coro \<Rightarrow> 'w broker \<Rightarrow> (svc \<times> 'w bus, unit) coro" where
  "svc_start env dlq server js dl t = (\<lambda>(s, bus).
     (if svc_is_running s then (Ok (), t, (s, bus))
      else
        (case co_bind (eb_connect server js) (\<lambda>_ dl t (b, nw).
                co_each (\<lambda>ty. co_bind (svc_subscribe_to_events env js s ty) (\<lambda>_. svc_subscribe_to_dlq dlq js ty))
                  all_event_types dl t (svc_register_models env b, nw)) dl t bus of
           (Ok _, t1, bus1) \<Rightarrow> (Ok (), t1, (s\<lparr>svc_is_running := True\<rparr>, bus1))
         | (Raise e, t1, bus1) \<Rightarrow> (Raise e, t1, (s, bus1))
         | (Cancelled, t1, bus1) \<Rightarrow> (Cancelled, t1, (s, bus1)))))"

definition svc_stop :: "('w, unit) coro \<Rightarrow> (svc \<times> 'w bus, unit) coro" where
  "svc_stop close dl t = (\<lambda>(s, bus).
     (if \<not> svc_is_running s then (Ok (), t, (s, bus))
      else
        (case eb_disconnect close dl t bus of
           (Ok _, t1, bus1) \<Rightarrow> (Ok (), t1, (s\<lparr>svc_is_running := False\<rparr>, bus1))
         | (Raise e, t1, bus1) \<Rightarrow> (Raise e, t1, (s, bus1))
         | (Cancelled, t1, bus1) \<Rightarrow> (Cancelled, t1, (s, bus1)))))"

text \<open>\<open>get_event_service\<close>: another tenant gets a new service over the same bus.\<close>

definition get_event_service :: "svc \<Rightarrow> string \<Rightarrow> svc" where
  "get_event_service event_service tenant_id =
     (if svc_tenant_id event_service \<noteq> tenant_id then svc_init tenant_id else event_service)"

section \<open>Properties\<close>

text \<open>Documented behaviour of a server: a consumer on a stream that does not exist is refused.\<close>

definition refuses_unknown :: "'w broker \<Rightarrow> exn \<Rightarrow> bool" where
  "refuses_unknown js not_found \<longleftrightarrow> (\<forall>stream consumer dl t w. stream \<notin> set (map nts_name nt_streams) \<longrightarrow>
     br_add_consumer js stream consumer dl t w = (Raise not_found, t, w))"

definition svc_deaf :: "string list \<Rightarrow> 'w bus \<Rightarrow> bool" where
  "svc_deaf subs = (\<lambda>(b, n, w). nt_subscriptions n = subs \<and>
     (\<forall>k \<in> set (map fst (nt_dlq_handlers n)). \<exists>ty. k = event_type_value ty))"

lemma eb_subscribe_refused:
  assumes "refuses_unknown js not_found"
  shows "\<exists>r. eb_subscribe_to_events (Some js) b (event_type_value ty) cn dn dl t (n, w) = (r, t, (n, w)) \<and> r \<noteq> Cancelled"
proof -
  have "nt_subscribe_to_events (Some js) (event_type_value ty) cn dn dl t (n, w) = (Raise not_found, t, (n, w))"
    by (rule nt_no_subscription) (use assms in \<open>simp add: refuses_unknown_def\<close>)
  then show ?thesis by (auto simp: eb_subscribe_to_events_def co_raise_def co_return_def)
qed

lemma subscribe_to_events_deaf:
  assumes "refuses_unknown js not_found" and deaf: "svc_deaf subs bus"
  shows "\<exists>t1 bus1. svc_subscribe_to_events env js s ty None t bus = (Ok (), t1, bus1) \<and> svc_deaf subs bus1"
proof -
  obtain b n w where bus: "bus = (b, n, w)" by (rule prod_cases3)
  obtain r where "r \<noteq> Cancelled" "eb_subscribe_to_events (Some js)
      (eb_register_handler (event_type_value ty) (eh_handle env ty) b) (event_type_value ty)
      (Some (event_type_value ty @ ''_consumer_'' @ svc_tenant_id s))
      (Some (event_type_value ty @ ''_durable_'' @ svc_tenant_id s)) None t (n, w) = (r, t, (n, w))"
    using eb_subscribe_refused [OF assms(1)] by blast
  then show ?thesis using deaf unfolding bus svc_subscribe_to_events_def co_catch_def Let_def
    by (cases r) (simp_all add: co_return_def svc_deaf_def)
qed

lemma subscribe_to_dlq_deaf:
  assumes "timely (br_subscribe js (nt_dlq_subject (event_type_value ty)))" and deaf: "svc_deaf subs bus"
  shows "\<exists>t1 bus1. svc_subscribe_to_dlq dlq js ty None t bus = (Ok (), t1, bus1) \<and> svc_deaf subs bus1"
proof -
  obtain b n w where bus: "bus = (b, n, w)" by (rule prod_cases3)
  obtain r t1 w1 where r: "br_subscribe js (nt_dlq_subject (event_type_value ty)) None t w = (r, t1, w1)"
    by (rule prod_cases3)
  have "r \<noteq> Cancelled" using timelyD(2) [OF assms(1) r] by simp
  have dead: "svc_deaf subs (b, n\<lparr>nt_dlq_handlers := dset (event_type_value ty) h (nt_dlq_handlers n)\<rparr>, w')"
      "svc_deaf subs (b, n, w')" for h w'
    using deaf unfolding bus svc_deaf_def by (auto dest!: mem_dset)
  note run = svc_subscribe_to_dlq_def co_catch_def co_return_def co_raise_def eb_subscribe_to_dlq_def
    nt_subscribe_to_dlq_def
  show ?thesis
  proof (cases "eb_connected b")
    case True
    show ?thesis using \<open>r \<noteq> Cancelled\<close> by (cases r) (simp_all add: True bus run r dead)
  qed (simp add: bus run dead)
qed

lemma subscribe_all_deaf:
  assumes "refuses_unknown js not_found" and "\<And>subject. timely (br_subscribe js subject)" and "svc_deaf subs bus"
  shows "\<exists>t1 bus1. co_each (\<lambda>ty. co_bind (svc_subscribe_to_events env js s ty) (\<lambda>_. svc_subscribe_to_dlq dlq js ty))
    tys None t bus = (Ok (), t1, bus1) \<and> svc_deaf subs bus1"
proof (rule co_each_invariant [where I = "svc_deaf subs", OF _ assms(3)])
  fix ty t and bus :: "'a bus"
  assume "svc_deaf subs bus"
  from subscribe_to_events_deaf [OF assms(1) this] obtain t1 bus1 where
    sub: "svc_subscribe_to_events env js s ty None t bus = (Ok (), t1, bus1)" "svc_deaf subs bus1" by blast
  from subscribe_to_dlq_deaf [OF assms(2) sub(2)] show "\<exists>t1 bus1. co_bind (svc_subscribe_to_events env js s ty)
      (\<lambda>_. svc_subscribe_to_dlq dlq js ty) None t bus = (Ok (), t1, bus1) \<and> svc_deaf subs bus1"
    by (simp add: co_bind_def sub(1))
qed

lemma nt_connect_Ok:
  assumes "server None t w = (Ok (), t0, w0)" and "\<forall>st. timely (br_add_stream js st)"
  shows "\<exists>t1 w1. nt_connect server js None t w = (Ok (), t1, w1)"
proof -
  have add: "\<exists>t1 w1. co_catch (br_add_stream js st) (\<lambda>_. co_return ()) None t w = (Ok (), t1, w1) \<and> True" for st t w
  proof -
    obtain r t1 w1 where r: "br_add_stream js st None t w = (r, t1, w1)" by (rule prod_cases3)
    with timelyD(2) [OF assms(2) [rule_format] r] show ?thesis by (cases r) (simp_all add: co_catch_def co_return_def)
  qed
  have "\<exists>t1 w1. nt_create_streams js None t0 w0 = (Ok (), t1, w1) \<and> True"
    unfolding nt_create_streams_def by (rule co_each_invariant [where I = "\<lambda>_. True"]) (rule add, rule TrueI)
  with assms(1) show ?thesis by (simp add: nt_connect_def co_bind_def)
qed

lemma svc_deaf_models: "svc_deaf subs (b, nw) = svc_deaf subs (b', nw)"
  by (cases nw) (simp add: svc_deaf_def)

text \<open>
  C12. A service that has started hears nothing. When the server refuses consumers on streams that do not
  exist, starting the event service succeeds and reports it as running, yet it has no more subscriptions
  than before, and no dead letter of a published event reaches any of its handlers.
\<close>

theorem svc_started_deaf:
  assumes server: "server None t w = (Ok (), t0, w0)" "refuses_unknown js not_found"
      "\<forall>st. timely (br_add_stream js st)" "\<forall>subject. timely (br_subscribe js subject)"
    and fresh: "nt_dlq_handlers n = []"
    and start: "svc_start env dlq server js None t (svc_init tenant_id, b, n, w) = (r, t', (s', b', n', w'))"
  shows "r = Ok () \<and> svc_is_running s' \<and> nt_subscriptions n' = nt_subscriptions n \<and>
    (tx_loads tx (msg_data letter) = Inr (nt_dlq_data failed_at msg error) \<longrightarrow>
     msg_subject msg = nt_subject (event_type_value ty) \<longrightarrow>
     nt_handle_dlq_message tx js (nt_dlq_handlers n') letter = co_catch (br_ack js letter) (\<lambda>_. co_return ()))"
proof -
  obtain t1 w1 where "nt_connect server js None t w = (Ok (), t1, w1)"
    using nt_connect_Ok [of server t w, OF server(1,3)] by blast
  then have connect: "eb_connect server js None t (b, n, w) = (Ok (), t1, (b\<lparr>eb_connected := True\<rparr>, n, w1))"
    by (simp add: eb_connect_def eb_set_connected_def)
  have "svc_deaf (nt_subscriptions n) (svc_register_models env (b\<lparr>eb_connected := True\<rparr>), n, w1)"
    by (simp add: svc_deaf_def fresh)
  from subscribe_all_deaf [OF server(2) server(4) [rule_format] this, of env "svc_init tenant_id" dlq all_event_types t1]
  obtain t2 b2 n2 w2 where "r = Ok ()" "s' = (svc_init tenant_id)\<lparr>svc_is_running := True\<rparr>"
      "(b', n', w') = (b2, n2, w2)" "svc_deaf (nt_subscriptions n) (b2, n2, w2)"
    using start by (auto simp: svc_start_def svc_init_def connect co_bind_def)
  then show ?thesis using dead_letter_dropped [of "nt_dlq_handlers n'" tx letter failed_at msg error ty js]
    by (simp add: svc_deaf_def)
qed

definition demo_eh :: "string list eh_env" where
  "demo_eh = \<lparr>eh_model = (\<lambda>_ _. Inr []), eh_metrics = (\<lambda>_ _. co_return ()),
     eh_db = \<lparr>db_open = co_return (), db_add = (\<lambda>table _ dl t w. (Ok (), t, w @ [table])),
       db_delete_failures = (\<lambda>_ _. co_return 0), db_commit = co_return (), db_rollback = co_return (),
       db_close = co_return ()\<rparr>\<rparr>"

definition demo_np :: "string list np_env" where
  "demo_np = \<lparr>np_texts = nt_demo_texts, np_pow2 = id, np_handlers = demo_eh, np_tenant_id = ''t'',
     np_alert = (\<lambda>_. co_return ())\<rparr>"

lemma demo_broker_server:
  "refuses_unknown demo_broker (exception ''stream not found'')" "timely (br_add_stream demo_broker st)"
  "timely (br_subscribe demo_broker subject)"
  by (simp_all add: refuses_unknown_def demo_broker_def timely_co co_raise_def)

theorem svc_started_deaf_witness:
  "\<exists>t' s' b' n' w'.
     svc_start demo_eh demo_np (co_return ()) demo_broker None 0
       (svc_init ''t'', bus_init, \<lparr>nt_subscriptions = [], nt_dlq_handlers = []\<rparr>, []) = (Ok (), t', (s', b', n', w')) \<and>
     svc_is_running s' \<and> nt_subscriptions n' = [] \<and>
     nt_handle_dlq_message nt_demo_texts demo_broker (nt_dlq_handlers n') (nt_demo_msg\<lparr>msg_data := ''letter''\<rparr>)
       None 8 [] = (Ok (), 8, [''ack''])"
proof -
  obtain r t' s' b' n' w' where run: "svc_start demo_eh demo_np (co_return ()) demo_broker None 0
      (svc_init ''t'', bus_init, \<lparr>nt_subscriptions = [], nt_dlq_handlers = []\<rparr>, []) = (r, t', (s', b', n', w'))"
    by (metis surj_pair)
  have server: "(co_return () :: (string list, unit) coro) None 0 [] = (Ok (), 0, [])" by (simp add: co_return_def)
  have stream: "\<forall>st. timely (br_add_stream demo_broker st)" "\<forall>subject. timely (br_subscribe demo_broker subject)"
    by (simp_all add: demo_broker_server)
  have letter: "tx_loads nt_demo_texts (msg_data (nt_demo_msg\<lparr>msg_data := ''letter''\<rparr>)) =
      Inr (nt_dlq_data 7 nt_demo_msg ''boom'')" "msg_subject nt_demo_msg = nt_subject (event_type_value AGENT_RUN)"
    by (simp_all add: nt_demo_texts_def nt_demo_msg_def nt_subject_def nt_subjects_def dget_or_def)
  have ack: "co_catch (br_ack demo_broker m) (\<lambda>_. co_return ()) None 8 [] = (Ok (), 8, [''ack''])" for m
    by (simp add: demo_broker_def co_catch_def)
  show ?thesis
    using svc_started_deaf [of "co_return ()", OF server demo_broker_server(1) stream _ run, of nt_demo_texts
      "nt_demo_msg\<lparr>msg_data := ''letter''\<rparr>" 7 nt_demo_msg "''boom''" AGENT_RUN] run letter ack by simp
qed

end
