(* ===== verification/CveGates.thy ===== *)
theory CveGates
  imports Prelude
begin

text \<open>
  \<^verbatim>\<open>libs/security/cve_gates.py\<close>: the vulnerability database, component scans, gate rules and the
  evaluation of a gate.

  Vulnerability objects are shared: the database, the scan results and the callers hold references to
  the same object, and marking a finding as false positive changes that object. They live in a heap
  (\<open>cvm_heap\<close>, a list that only grows), a reference is a position in it.
\<close>

section \<open>Data\<close>

datatype severity = SEV_CRITICAL | SEV_HIGH | SEV_MEDIUM | SEV_LOW | SEV_INFO

fun severity_value :: "severity \<Rightarrow> string" where
  "severity_value SEV_CRITICAL = ''critical''"
| "severity_value SEV_HIGH = ''high''"
| "severity_value SEV_MEDIUM = ''medium''"
| "severity_value SEV_LOW = ''low''"
| "severity_value SEV_INFO = ''info''"

datatype gate_status = GATE_PASS | GATE_FAIL | GATE_WARN | GATE_SKIP

datatype vuln_status = VULN_OPEN | VULN_FIXED | VULN_MITIGATED | VULN_ACCEPTED | VULN_FALSE_POSITIVE

fun vuln_status_value :: "vuln_status \<Rightarrow> string" where
  "vuln_status_value VULN_OPEN = ''open''"
| "vuln_status_value VULN_FIXED = ''fixed''"
| "vuln_status_value VULN_MITIGATED = ''mitigated''"
| "vuln_status_value VULN_ACCEPTED = ''accepted''"
| "vuln_status_value VULN_FALSE_POSITIVE = ''false_positive''"

record vulnerability =
  vu_cve_id :: string
  vu_title :: string
  vu_description :: string
  vu_severity :: severity
  vu_cvss_score :: rat
  vu_cvss_vector :: string
  vu_published_date :: rat
  vu_modified_date :: rat
  vu_affected_components :: "string list"
  vu_references :: "string list"
  vu_status :: vuln_status
  vu_false_positive_reason :: "string option"
  vu_mitigation :: "string option"

record component_vulnerability =
  cv_component_name :: string
  cv_component_version :: string
  cv_vulnerability :: nat
  cv_detected_date :: rat

record gate_rule =
  gr_rule_id :: string
  gr_name :: string
  gr_description :: string
  gr_severity_threshold :: severity
  gr_max_critical_vulnerabilities :: int
  gr_max_high_vulnerabilities :: int
  gr_max_medium_vulnerabilities :: int
  gr_max_low_vulnerabilities :: int
  gr_allowed_cve_ids :: "string set option"
  gr_blocked_cve_ids :: "string set option"
  gr_component_whitelist :: "string set option"
  gr_component_blacklist :: "string set option"

record gate_result =
  gt_rule_id :: string
  gt_status :: gate_status
  gt_total_vulnerabilities :: int
  gt_critical_vulnerabilities :: int
  gt_high_vulnerabilities :: int
  gt_medium_vulnerabilities :: int
  gt_low_vulnerabilities :: int
  gt_blocked_vulnerabilities :: "string list"
  gt_allowed_vulnerabilities :: "string list"
  gt_message :: string
  gt_evaluated_at :: rat

record cvm =
  cvm_heap :: "vulnerability list"
  cvm_vulnerabilities :: "(string, nat) dict"
  cvm_component_vulnerabilities :: "(string, component_vulnerability) dict"
  cvm_gate_rules :: "(string, gate_rule) dict"
  cvm_last_sync_time :: "rat option"

definition cvm_init :: cvm where
  "cvm_init = \<lparr>cvm_heap = [], cvm_vulnerabilities = [], cvm_component_vulnerabilities = [],
     cvm_gate_rules = [], cvm_last_sync_time = None\<rparr>"

definition cvm_databases :: "string list" where
  "cvm_databases =
     [''https://cve.mitre.org/data/downloads/allitems.xml'',
      ''https://nvd.nist.gov/feeds/xml/cve/2.0/nvdcve-2.0-modified.xml'',
      ''https://nvd.nist.gov/feeds/xml/cve/2.0/nvdcve-2.0-recent.xml'']"

section \<open>Synchronising\<close>

definition simulated_vulnerabilities :: "rat \<Rightarrow> vulnerability list" where
  "simulated_vulnerabilities now =
     [\<lparr>vu_cve_id = ''CVE-2023-1234'', vu_title = ''Remote Code Execution in Python requests library'',
       vu_description = ''A vulnerability in the Python requests library allows remote code execution.'',
       vu_severity = SEV_CRITICAL, vu_cvss_score = 98 / 10,
       vu_cvss_vector = ''CVSS:3.1/AV:N/AC:L/PR:N/UI:N/S:U/C:H/I:H/A:H'',
       vu_published_date = now - 30 * 86400, vu_modified_date = now,
       vu_affected_components = [''requests'', ''urllib3''],
       vu_references = [''https://cve.mitre.org/cgi-bin/cvename.cgi?name=CVE-2023-1234''],
       vu_status = VULN_OPEN, vu_false_positive_reason = None, vu_mitigation = None\<rparr>,
      \<lparr>vu_cve_id = ''CVE-2023-5678'', vu_title = ''SQL Injection in SQLAlchemy'',
       vu_description = ''SQLAlchemy is vulnerable to SQL injection attacks.'',
       vu_severity = SEV_HIGH, vu_cvss_score = 81 / 10,
       vu_cvss_vector = ''CVSS:3.1/AV:N/AC:L/PR:L/UI:N/S:U/C:H/I:H/A:N'',
       vu_published_date = now - 30 * 86400, vu_modified_date = now,
       vu_affected_components = [''sqlalchemy''],
       vu_references = [''https://cve.mitre.org/cgi-bin/cvename.cgi?name=CVE-2023-5678''],
       vu_status = VULN_OPEN, vu_false_positive_reason = None, vu_mitigation = None\<rparr>,
      \<lparr>vu_cve_id = ''CVE-2023-9012'', vu_title = ''Information Disclosure in FastAPI'',
       vu_description = ''FastAPI may leak sensitive information in error messages.'',
       vu_severity = SEV_MEDIUM, vu_cvss_score = 53 / 10,
       vu_cvss_vector = ''CVSS:3.1/AV:N/AC:L/PR:N/UI:N/S:U/C:L/I:N/A:N'',
       vu_published_date = now - 30 * 86400, vu_modified_date = now,
       vu_affected_components = [''fastapi'', ''starlette''],
       vu_references = [''https://cve.mitre.org/cgi-bin/cvename.cgi?name=CVE-2023-9012''],
       vu_status = VULN_OPEN, vu_false_positive_reason = None, vu_mitigation = None\<rparr>]"

definition cvm_put_vulnerability :: "vulnerability \<Rightarrow> cvm \<Rightarrow> cvm" where
  "cvm_put_vulnerability v s =
     s\<lparr>cvm_heap := cvm_heap s @ [v],
       cvm_vulnerabilities := dset (vu_cve_id v) (length (cvm_heap s)) (cvm_vulnerabilities s)\<rparr>"

definition cvm_sync_from_source :: "rat \<Rightarrow> cvm \<Rightarrow> cvm" where
  "cvm_sync_from_source now s = fold cvm_put_vulnerability (simulated_vulnerabilities now) s"

definition cvm_sync_vulnerability_database :: "rat \<Rightarrow> cvm \<Rightarrow> bool \<times> cvm" where
  "cvm_sync_vulnerability_database now s =
     (True, (fold (\<lambda>db_url. cvm_sync_from_source now) cvm_databases s)\<lparr>cvm_last_sync_time := Some now\<rparr>)"

section \<open>Scanning\<close>

definition cvm_vuln :: "cvm \<Rightarrow> nat \<Rightarrow> vulnerability" where
  "cvm_vuln s ref = cvm_heap s ! ref"

definition vuln_key :: "string \<Rightarrow> string \<Rightarrow> string \<Rightarrow> string" where
  "vuln_key component_name component_version cve_id = component_name @ ''@'' @ component_version @ ''#'' @ cve_id"

definition affects :: "string \<Rightarrow> vulnerability \<Rightarrow> bool" where
  "affects component_name v \<longleftrightarrow> ascii_lower component_name \<in> set (map ascii_lower (vu_affected_components v))"

definition cvm_scan_component_vulnerabilities ::
  "rat \<Rightarrow> string \<Rightarrow> string \<Rightarrow> cvm \<Rightarrow> component_vulnerability list \<times> cvm" where
  "cvm_scan_component_vulnerabilities now component_name component_version s =
     (let found = filter (\<lambda>(_, ref). affects component_name (cvm_vuln s ref)) (cvm_vulnerabilities s);
          item = (\<lambda>ref. \<lparr>cv_component_name = component_name, cv_component_version = component_version,
                          cv_vulnerability = ref, cv_detected_date = now\<rparr>)
      in (map (item \<circ> snd) found,
          s\<lparr>cvm_component_vulnerabilities :=
              fold (\<lambda>(vuln_id, ref). dset (vuln_key component_name component_version vuln_id) (item ref))
                found (cvm_component_vulnerabilities s)\<rparr>))"

section \<open>Rules and gates\<close>

definition cvm_validate_gate_rule :: "gate_rule \<Rightarrow> bool" where
  "cvm_validate_gate_rule rule \<longleftrightarrow> gr_rule_id rule \<noteq> [] \<and> gr_name rule \<noteq> [] \<and>
     \<not> (gr_max_critical_vulnerabilities rule < 0 \<or> gr_max_high_vulnerabilities rule < 0 \<or>
        gr_max_medium_vulnerabilities rule < 0 \<or> gr_max_low_vulnerabilities rule < 0)"

definition cvm_create_gate_rule :: "gate_rule \<Rightarrow> cvm \<Rightarrow> bool \<times> cvm" where
  "cvm_create_gate_rule rule s =
     (if \<not> cvm_validate_gate_rule rule then (False, s)
      else (True, s\<lparr>cvm_gate_rules := dset (gr_rule_id rule) rule (cvm_gate_rules s)\<rparr>))"

fun severity_level :: "severity \<Rightarrow> int" where
  "severity_level SEV_CRITICAL = 4"
| "severity_level SEV_HIGH = 3"
| "severity_level SEV_MEDIUM = 2"
| "severity_level SEV_LOW = 1"
| "severity_level SEV_INFO = 0"

text \<open>\<open>s and x in s\<close> and \<open>s and x not in s\<close> for a set that may be \<open>None\<close>.\<close>

definition in_given :: "string \<Rightarrow> string set option \<Rightarrow> bool" where
  "in_given x s = (case s of None \<Rightarrow> False | Some s \<Rightarrow> x \<in> s)"

definition outside_given :: "string \<Rightarrow> string set option \<Rightarrow> bool" where
  "outside_given x s = (case s of None \<Rightarrow> False | Some s \<Rightarrow> s \<noteq> {} \<and> x \<notin> s)"

definition cvm_keeps :: "gate_rule \<Rightarrow> string \<Rightarrow> vulnerability \<Rightarrow> bool" where
  "cvm_keeps rule component_name v \<longleftrightarrow>
     \<not> outside_given component_name (gr_component_whitelist rule) \<and>
     \<not> in_given component_name (gr_component_blacklist rule) \<and>
     \<not> severity_level (gr_severity_threshold rule) < severity_level (vu_severity v) \<and>
     \<not> in_given (vu_cve_id v) (gr_allowed_cve_ids rule)"

definition cvm_filter_vulnerabilities ::
  "cvm \<Rightarrow> component_vulnerability list \<Rightarrow> gate_rule \<Rightarrow> component_vulnerability list" where
  "cvm_filter_vulnerabilities s vulns rule =
     filter (\<lambda>cv. cvm_keeps rule (cv_component_name cv) (cvm_vuln s (cv_vulnerability cv))) vulns"

definition cvm_count_by_severity :: "cvm \<Rightarrow> component_vulnerability list \<Rightarrow> (severity, int) dict" where
  "cvm_count_by_severity s vulns =
     fold (\<lambda>cv. count_key (vu_severity (cvm_vuln s (cv_vulnerability cv)))) vulns
       [(SEV_CRITICAL, 0), (SEV_HIGH, 0), (SEV_MEDIUM, 0), (SEV_LOW, 0), (SEV_INFO, 0)]"

definition cvm_determine_gate_status :: "(severity, int) dict \<Rightarrow> gate_rule \<Rightarrow> string list \<Rightarrow> gate_status" where
  "cvm_determine_gate_status counts rule blocked =
     (if blocked \<noteq> [] then GATE_FAIL
      else if gr_max_critical_vulnerabilities rule < dget_or 0 counts SEV_CRITICAL then GATE_FAIL
      else if gr_max_high_vulnerabilities rule < dget_or 0 counts SEV_HIGH then GATE_FAIL
      else if gr_max_medium_vulnerabilities rule < dget_or 0 counts SEV_MEDIUM then GATE_WARN
      else if gr_max_low_vulnerabilities rule < dget_or 0 counts SEV_LOW then GATE_WARN
      else GATE_PASS)"

fun cvm_gate_message :: "gate_status \<Rightarrow> string" where
  "cvm_gate_message GATE_PASS = ''Gate passed: All vulnerability thresholds met''"
| "cvm_gate_message GATE_WARN = ''Gate warning: Some vulnerability thresholds exceeded''"
| "cvm_gate_message GATE_FAIL = ''Gate failed: Critical or high severity vulnerabilities exceed thresholds''"
| "cvm_gate_message GATE_SKIP = ''Gate skipped: No vulnerabilities found''"

text \<open>A component is a dict with the keys \<open>name\<close> and \<open>version\<close>; one without either is skipped.\<close>

fun cvm_scan_all ::
  "rat \<Rightarrow> (string, string) dict list \<Rightarrow> cvm \<Rightarrow> component_vulnerability list \<times> cvm" where
  "cvm_scan_all now [] s = ([], s)"
| "cvm_scan_all now (component # rest) s =
     (case (dget_or [] component ''name'', dget_or [] component ''version'') of
        (n # ns, v # vs) \<Rightarrow>
          (let (vulns, s1) = cvm_scan_component_vulnerabilities now (n # ns) (v # vs) s;
               (more, s2) = cvm_scan_all now rest s1
           in (vulns @ more, s2))
      | _ \<Rightarrow> cvm_scan_all now rest s)"

definition cvm_gate_result :: "rat \<Rightarrow> cvm \<Rightarrow> gate_rule \<Rightarrow> string \<Rightarrow> component_vulnerability list \<Rightarrow> gate_result" where
  "cvm_gate_result now s rule rule_id all_vulnerabilities =
     (let filtered = cvm_filter_vulnerabilities s all_vulnerabilities rule;
          counts = cvm_count_by_severity s filtered;
          ids = map (\<lambda>cv. vu_cve_id (cvm_vuln s (cv_vulnerability cv))) filtered;
          blocked = filter (\<lambda>i. in_given i (gr_blocked_cve_ids rule)) ids;
          allowed = filter (\<lambda>i. \<not> in_given i (gr_blocked_cve_ids rule) \<and> in_given i (gr_allowed_cve_ids rule)) ids;
          status = cvm_determine_gate_status counts rule blocked
      in \<lparr>gt_rule_id = rule_id, gt_status = status, gt_total_vulnerabilities = int (length filtered),
          gt_critical_vulnerabilities = dget_or 0 counts SEV_CRITICAL,
          gt_high_vulnerabilities = dget_or 0 counts SEV_HIGH,
          gt_medium_vulnerabilities = dget_or 0 counts SEV_MEDIUM,
          gt_low_vulnerabilities = dget_or 0 counts SEV_LOW,
          gt_blocked_vulnerabilities = blocked, gt_allowed_vulnerabilities = allowed,
          gt_message = cvm_gate_message status, gt_evaluated_at = now\<rparr>)"

definition cvm_evaluate_gate ::
  "rat \<Rightarrow> string \<Rightarrow> (string, string) dict list \<Rightarrow> cvm \<Rightarrow> (exn + gate_result) \<times> cvm" where
  "cvm_evaluate_gate now rule_id components s =
     (case dget (cvm_gate_rules s) rule_id of
        None \<Rightarrow> (Inl (value_error (''Gate rule '' @ rule_id @ '' not found'')), s)
      | Some rule \<Rightarrow>
          (let (vulns, s1) = cvm_scan_all now components s
           in (Inr (cvm_gate_result now s1 rule rule_id vulns), s1)))"

section \<open>Marking\<close>

definition cvm_mark :: "(vulnerability \<Rightarrow> vulnerability) \<Rightarrow> string \<Rightarrow> string \<Rightarrow> string \<Rightarrow> cvm \<Rightarrow> bool \<times> cvm" where
  "cvm_mark f cve_id component_name component_version s =
     (case dget (cvm_component_vulnerabilities s) (vuln_key component_name component_version cve_id) of
        Some cv \<Rightarrow> (True, s\<lparr>cvm_heap := (cvm_heap s)[cv_vulnerability cv := f (cvm_vuln s (cv_vulnerability cv))]\<rparr>)
      | None \<Rightarrow> (False, s))"

definition cvm_mark_false_positive :: "string \<Rightarrow> string \<Rightarrow> string \<Rightarrow> string \<Rightarrow> cvm \<Rightarrow> bool \<times> cvm" where
  "cvm_mark_false_positive cve_id component_name component_version reason =
     cvm_mark (\<lambda>v. v\<lparr>vu_status := VULN_FALSE_POSITIVE, vu_false_positive_reason := Some reason\<rparr>)
       cve_id component_name component_version"

definition cvm_mark_mitigated :: "string \<Rightarrow> string \<Rightarrow> string \<Rightarrow> string \<Rightarrow> cvm \<Rightarrow> bool \<times> cvm" where
  "cvm_mark_mitigated cve_id component_name component_version mitigation =
     cvm_mark (\<lambda>v. v\<lparr>vu_status := VULN_MITIGATED, vu_mitigation := Some mitigation\<rparr>)
       cve_id component_name component_version"

section \<open>Reports\<close>

record vuln_statistics =
  vst_total_vulnerabilities :: int
  vst_total_component_vulnerabilities :: int
  vst_severity_counts :: "(string, int) dict"
  vst_status_counts :: "(string, int) dict"
  vst_component_counts :: "(string, int) dict"
  vst_last_sync_time :: "rat option"
  vst_total_gate_rules :: int

definition cvm_get_vulnerability_statistics :: "cvm \<Rightarrow> vuln_statistics" where
  "cvm_get_vulnerability_statistics s =
     \<lparr>vst_total_vulnerabilities = int (length (cvm_vulnerabilities s)),
      vst_total_component_vulnerabilities = int (length (cvm_component_vulnerabilities s)),
      vst_severity_counts =
        fold (\<lambda>(_, ref). count_key (severity_value (vu_severity (cvm_vuln s ref)))) (cvm_vulnerabilities s) [],
      vst_status_counts =
        fold (\<lambda>(_, cv). count_key (vuln_status_value (vu_status (cvm_vuln s (cv_vulnerability cv)))))
          (cvm_component_vulnerabilities s) [],
      vst_component_counts = fold (\<lambda>(_, cv). count_key (cv_component_name cv)) (cvm_component_vulnerabilities s) [],
      vst_last_sync_time = cvm_last_sync_time s,
      vst_total_gate_rules = int (length (cvm_gate_rules s))\<rparr>"

definition cvm_get_component_vulnerabilities ::
  "string \<Rightarrow> string option \<Rightarrow> cvm \<Rightarrow> component_vulnerability list" where
  "cvm_get_component_vulnerabilities component_name component_version s =
     filter (\<lambda>cv. cv_component_name cv = component_name \<and>
         (component_version = None \<or> component_version = Some (cv_component_version cv)))
       (map snd (cvm_component_vulnerabilities s))"

section \<open>What a gate sees\<close>

lemma count_by_severity:
  "dget_or 0 (cvm_count_by_severity s vulns) sev =
    int (length (filter (\<lambda>cv. vu_severity (cvm_vuln s (cv_vulnerability cv)) = sev) vulns))"
proof -
  have "dget_or 0 [(SEV_CRITICAL, 0), (SEV_HIGH, 0), (SEV_MEDIUM, 0), (SEV_LOW, 0), (SEV_INFO, 0)] sev = (0 :: int)"
    by (cases sev) (simp_all add: dget_or_def)
  then show ?thesis by (simp add: cvm_count_by_severity_def fold_count_key)
qed

lemma filtered_below_threshold:
  "cv \<in> set (cvm_filter_vulnerabilities s vulns rule) \<Longrightarrow>
    severity_level (vu_severity (cvm_vuln s (cv_vulnerability cv))) \<le> severity_level (gr_severity_threshold rule)"
  by (auto simp: cvm_filter_vulnerabilities_def cvm_keeps_def)

lemma not_counted_above_threshold:
  assumes "severity_level (gr_severity_threshold rule) < severity_level sev"
  shows "dget_or 0 (cvm_count_by_severity s (cvm_filter_vulnerabilities s vulns rule)) sev = 0"
  using assms by (auto simp: count_by_severity filter_empty_conv dest: filtered_below_threshold)

lemma allowed_filtered:
  "cv \<in> set (cvm_filter_vulnerabilities s vulns rule) \<Longrightarrow>
    \<not> in_given (vu_cve_id (cvm_vuln s (cv_vulnerability cv))) (gr_allowed_cve_ids rule)"
  by (auto simp: cvm_filter_vulnerabilities_def cvm_keeps_def)

text \<open>
  The severity threshold of a rule works the wrong way round: what is more severe than the threshold is
  dropped before it is counted. A valid rule whose threshold is not \<open>critical\<close> reports no critical
  vulnerability whatever the scan finds, and one whose threshold is medium or lower fails only for
  blocked identifiers. The list of allowed vulnerabilities in a result is always empty, and an
  identifier that is both allowed and blocked does not block.
\<close>

theorem cve_gate_ignores_severe:
  assumes "dget (cvm_gate_rules s) rule_id = Some rule" and valid: "cvm_validate_gate_rule rule"
    and "cvm_evaluate_gate now rule_id components s = (Inr g, s1)"
  shows "(gr_severity_threshold rule \<noteq> SEV_CRITICAL \<longrightarrow> gt_critical_vulnerabilities g = 0) \<and>
    (gr_severity_threshold rule \<notin> {SEV_CRITICAL, SEV_HIGH} \<longrightarrow>
       gt_high_vulnerabilities g = 0 \<and> (gt_status g = GATE_FAIL \<longleftrightarrow> gt_blocked_vulnerabilities g \<noteq> [])) \<and>
    gt_allowed_vulnerabilities g = [] \<and>
    (\<forall>i \<in> set (gt_blocked_vulnerabilities g). \<not> in_given i (gr_allowed_cve_ids rule))"
proof -
  obtain vulns where g: "g = cvm_gate_result now s1 rule rule_id vulns"
    using assms(1,3) by (auto simp: cvm_evaluate_gate_def split: prod.splits)
  note fields = cvm_gate_result_def Let_def
  have critical: "gt_critical_vulnerabilities g = 0" if "gr_severity_threshold rule \<noteq> SEV_CRITICAL"
    unfolding g fields using that
    by (cases "gr_severity_threshold rule") (simp_all add: not_counted_above_threshold)
  have high: "gt_high_vulnerabilities g = 0" if "gr_severity_threshold rule \<notin> {SEV_CRITICAL, SEV_HIGH}"
    unfolding g fields using that
    by (cases "gr_severity_threshold rule") (simp_all add: not_counted_above_threshold)
  have "gt_status g = GATE_FAIL \<longleftrightarrow> gt_blocked_vulnerabilities g \<noteq> []"
    if "gt_critical_vulnerabilities g = 0" "gt_high_vulnerabilities g = 0"
    using that valid unfolding g fields
    by (auto simp: cvm_determine_gate_status_def cvm_validate_gate_rule_def)
  moreover have "gt_allowed_vulnerabilities g = []"
    "\<forall>i \<in> set (gt_blocked_vulnerabilities g). \<not> in_given i (gr_allowed_cve_ids rule)"
    unfolding g fields by (auto simp: filter_empty_conv dest: allowed_filtered)
  ultimately show ?thesis using critical high by auto
qed

section \<open>Marked findings\<close>

text \<open>What a gate reads of a vulnerability.\<close>

definition vuln_view :: "vulnerability \<Rightarrow> string \<times> severity \<times> string list" where
  "vuln_view v = (vu_cve_id v, vu_severity v, vu_affected_components v)"

definition same_view :: "cvm \<Rightarrow> cvm \<Rightarrow> bool" where
  "same_view s s' \<longleftrightarrow> cvm_vulnerabilities s' = cvm_vulnerabilities s \<and> cvm_gate_rules s' = cvm_gate_rules s \<and>
     (\<forall>ref. vuln_view (cvm_vuln s' ref) = vuln_view (cvm_vuln s ref))"

lemma same_viewD:
  assumes "same_view s s'"
  shows "cvm_vulnerabilities s' = cvm_vulnerabilities s" "cvm_gate_rules s' = cvm_gate_rules s"
    "vu_cve_id (cvm_vuln s' ref) = vu_cve_id (cvm_vuln s ref)"
    "vu_severity (cvm_vuln s' ref) = vu_severity (cvm_vuln s ref)"
    "affects c (cvm_vuln s' ref) = affects c (cvm_vuln s ref)"
  using assms by (simp_all add: same_view_def vuln_view_def affects_def)

lemma same_view_scan:
  assumes "same_view s s'"
  shows "fst (cvm_scan_component_vulnerabilities now n v s') = fst (cvm_scan_component_vulnerabilities now n v s)"
    and "same_view (snd (cvm_scan_component_vulnerabilities now n v s))
      (snd (cvm_scan_component_vulnerabilities now n v s'))"
  using assms
  by (simp_all add: cvm_scan_component_vulnerabilities_def Let_def same_viewD)
    (simp add: same_view_def cvm_vuln_def)

lemma same_view_scan_all:
  assumes "same_view s s'"
  shows "fst (cvm_scan_all now components s') = fst (cvm_scan_all now components s) \<and>
    same_view (snd (cvm_scan_all now components s)) (snd (cvm_scan_all now components s'))"
  using assms
proof (induction components arbitrary: s s')
  case (Cons component rest)
  show ?case
    using Cons.IH [OF Cons.prems] Cons.IH [OF same_view_scan(2) [OF Cons.prems]] same_view_scan(1) [OF Cons.prems]
    by (simp add: case_prod_beta split: list.split)
qed simp

lemma same_view_result:
  assumes "same_view s s'"
  shows "cvm_gate_result now s' rule rule_id vulns = cvm_gate_result now s rule rule_id vulns"
  unfolding cvm_gate_result_def cvm_filter_vulnerabilities_def cvm_count_by_severity_def cvm_keeps_def
  by (simp add: same_viewD [OF assms])

lemma same_view_evaluate:
  assumes "same_view s s'"
  shows "fst (cvm_evaluate_gate now rule_id components s') = fst (cvm_evaluate_gate now rule_id components s)"
  using same_view_scan_all [OF assms, of now components] same_view_result
  by (auto simp: cvm_evaluate_gate_def same_viewD [OF assms] case_prod_beta split: option.split)

lemma view_update: "vuln_view ((xs[i := f (xs ! i)]) ! j) = vuln_view (xs ! j)"
  if "\<And>v. vuln_view (f v) = vuln_view v"
proof (cases "j = i \<and> i < length xs")
  case True
  then show ?thesis using that by simp
next
  case False
  then show ?thesis by (cases "j = i") (simp_all add: list_update_beyond)
qed

lemma same_view_mark:
  assumes "\<And>v. vuln_view (f v) = vuln_view v"
  shows "same_view s (snd (cvm_mark f cve_id n v s))"
  by (simp add: cvm_mark_def same_view_def cvm_vuln_def view_update [OF assms] split: option.split)

text \<open>
  Triage has no effect on a gate: after a finding has been marked as false positive or as mitigated,
  every gate evaluates to exactly what it did before. No status is ever consulted.
\<close>

theorem cve_marks_do_not_count:
  "fst (cvm_evaluate_gate now rule_id components (snd (cvm_mark_false_positive cve_id n v reason s))) =
     fst (cvm_evaluate_gate now rule_id components s) \<and>
   fst (cvm_evaluate_gate now rule_id components (snd (cvm_mark_mitigated cve_id n v mitigation s))) =
     fst (cvm_evaluate_gate now rule_id components s)"
  unfolding cvm_mark_false_positive_def cvm_mark_mitigated_def
  by (intro conjI same_view_evaluate same_view_mark) (simp_all add: vuln_view_def)

section \<open>Witness\<close>

definition demo_rule :: gate_rule where
  "demo_rule = \<lparr>gr_rule_id = ''r'', gr_name = ''release'', gr_description = [], gr_severity_threshold = SEV_MEDIUM,
     gr_max_critical_vulnerabilities = 0, gr_max_high_vulnerabilities = 0, gr_max_medium_vulnerabilities = 20,
     gr_max_low_vulnerabilities = 50, gr_allowed_cve_ids = None, gr_blocked_cve_ids = None,
     gr_component_whitelist = None, gr_component_blacklist = None\<rparr>"

definition demo_gates :: cvm where
  "demo_gates = snd (cvm_create_gate_rule demo_rule
     (fold cvm_put_vulnerability [simulated_vulnerabilities 0 ! 0] cvm_init))"

lemma demo_gate_rules: "dget (cvm_gate_rules demo_gates) ''r'' = Some demo_rule" "cvm_validate_gate_rule demo_rule"
  by (simp_all add: demo_gates_def cvm_create_gate_rule_def cvm_validate_gate_rule_def demo_rule_def
    cvm_put_vulnerability_def cvm_init_def)

text \<open>The critical vulnerability of \<open>requests\<close> passes a gate that admits no critical vulnerability.\<close>

theorem cve_gate_ignores_severe_witness:
  "\<exists>g s1. cvm_evaluate_gate 1 ''r'' [[(''name'', ''requests''), (''version'', ''2'')]] demo_gates = (Inr g, s1) \<and>
     gt_critical_vulnerabilities g = 0 \<and> gt_status g \<noteq> GATE_FAIL"
proof -
  obtain g s1 where g: "cvm_evaluate_gate 1 ''r'' [[(''name'', ''requests''), (''version'', ''2'')]] demo_gates = (Inr g, s1)"
    by (simp add: cvm_evaluate_gate_def demo_gate_rules case_prod_beta)
  moreover have "gt_blocked_vulnerabilities g = []"
    using g by (auto simp: cvm_evaluate_gate_def demo_gate_rules case_prod_beta cvm_gate_result_def Let_def
      in_given_def demo_rule_def)
  ultimately show ?thesis
    using cve_gate_ignores_severe [OF demo_gate_rules g] by (auto simp: demo_rule_def)
qed

end
