(* ===== verification/CoordinatedCancellation.thy ===== *)
theory CoordinatedCancellation
  imports Json "HOL-Library.Sublist"
begin

text \<open>
  \<^verbatim>\<open>libs/clients/http/coordinated_cancellation.py\<close>: requests are cancelled in several services at once.

  Every call runs in tasks of the event loop that are cut at their awaits: the task of a coordinated
  cancellation starts, creates one task per service and waits for them; the task of a service registers
  itself, waits for its signal and ends. \<open>cn_reach\<close> interleaves the segments of all tasks with the calls of
  clients. Request objects are shared between the dict of active cancellations and the tasks: they are kept
  in the list \<open>cn_requests\<close>, a reference is a position in it. Fresh identifiers are a parameter.
\<close>

section \<open>Data\<close>

datatype cancel_reason =
    CR_USER_REQUESTED | CR_TIMEOUT | CR_ERROR | CR_CIRCUIT_BREAKER | CR_RESOURCE_EXHAUSTED
  | CR_HEDGE_WIN | CR_WORKFLOW_COMPLETED

fun cancel_reason_value :: "cancel_reason \<Rightarrow> string" where
  "cancel_reason_value CR_USER_REQUESTED = ''user_requested''"
| "cancel_reason_value CR_TIMEOUT = ''timeout''"
| "cancel_reason_value CR_ERROR = ''error''"
| "cancel_reason_value CR_CIRCUIT_BREAKER = ''circuit_breaker''"
| "cancel_reason_value CR_RESOURCE_EXHAUSTED = ''resource_exhausted''"
| "cancel_reason_value CR_HEDGE_WIN = ''hedge_win''"
| "cancel_reason_value CR_WORKFLOW_COMPLETED = ''workflow_completed''"

datatype cancel_status = CS_PENDING | CS_IN_PROGRESS | CS_COMPLETED | CS_FAILED

fun cancel_status_value :: "cancel_status \<Rightarrow> string" where
  "cancel_status_value CS_PENDING = ''pending''"
| "cancel_status_value CS_IN_PROGRESS = ''in_progress''"
| "cancel_status_value CS_COMPLETED = ''completed''"
| "cancel_status_value CS_FAILED = ''failed''"

record cn_request =
  cr_cancellation_id :: string
  cr_request_id :: string
  cr_tenant_id :: string
  cr_reason :: cancel_reason
  cr_initiated_by :: string
  cr_initiated_at :: rat
  cr_status :: cancel_status
  cr_services_to_cancel :: "string list"
  cr_cancelled_services :: "string list"
  cr_error_services :: "string list"
  cr_metadata :: json

record cn_service =
  csv_service_name :: string
  csv_request_id :: string
  csv_cancelled :: bool
  csv_cancelled_at :: "rat option"
  csv_error :: "string option"

text \<open>
  \<open>Starting\<close>: \<open>_execute_coordinated_cancellation\<close> before its first segment. \<open>Gathering\<close>: it waits for the
  tasks of the services. \<open>Opening\<close>: \<open>_cancel_service_request\<close> before its first segment. \<open>Signalling\<close>: it waits
  for its signal; the number is the place of its entry in the list of the service. \<open>Result\<close>: what it
  returned or raised.
\<close>

datatype cn_task =
    Starting string
  | Gathering nat "nat list"
  | Ended
  | Opening string string
  | Signalling string string nat
  | Result "exn + bool"

record cnm =
  cn_active :: "(string, nat) dict"
  cn_requests :: "cn_request list"
  cn_service_cancellations :: "(string, cn_service list) dict"
  cn_total :: int
  cn_successful :: int
  cn_failed :: int
  cn_by_reason :: "(string, int) dict"
  cn_by_service :: "(string, int) dict"
  cn_tasks :: "cn_task list"

definition cn_init :: cnm where
  "cn_init = \<lparr>cn_active = [], cn_requests = [], cn_service_cancellations = [], cn_total = 0, cn_successful = 0,
     cn_failed = 0, cn_by_reason = [], cn_by_service = [], cn_tasks = []\<rparr>"

definition cn_request_of :: "cnm \<Rightarrow> nat \<Rightarrow> cn_request" where
  "cn_request_of s ref = cn_requests s ! ref"

definition cn_set_request :: "nat \<Rightarrow> cn_request \<Rightarrow> cnm \<Rightarrow> cnm" where
  "cn_set_request ref r s = s\<lparr>cn_requests := (cn_requests s)[ref := r]\<rparr>"

definition cn_spawn :: "cn_task list \<Rightarrow> cnm \<Rightarrow> cnm" where
  "cn_spawn ts s = s\<lparr>cn_tasks := cn_tasks s @ ts\<rparr>"

definition cn_set_task :: "nat \<Rightarrow> cn_task \<Rightarrow> cnm \<Rightarrow> cnm" where
  "cn_set_task i t s = s\<lparr>cn_tasks := (cn_tasks s)[i := t]\<rparr>"

section \<open>The calls\<close>

definition cn_initiate_cancellation ::
  "rat \<Rightarrow> string \<Rightarrow> string \<Rightarrow> string \<Rightarrow> cancel_reason \<Rightarrow> string \<Rightarrow> string list \<Rightarrow> json \<Rightarrow> cnm \<Rightarrow> string \<times> cnm" where
  "cn_initiate_cancellation now cancellation_id request_id tenant_id reason initiated_by services metadata s =
     (let request = \<lparr>cr_cancellation_id = cancellation_id, cr_request_id = request_id, cr_tenant_id = tenant_id,
            cr_reason = reason, cr_initiated_by = initiated_by, cr_initiated_at = now, cr_status = CS_PENDING,
            cr_services_to_cancel = services, cr_cancelled_services = [], cr_error_services = [],
            cr_metadata = metadata\<rparr>
      in (cancellation_id,
          cn_spawn [Starting cancellation_id]
            (s\<lparr>cn_active := dset cancellation_id (length (cn_requests s)) (cn_active s),
               cn_requests := cn_requests s @ [request]\<rparr>)))"

definition common_services :: "string list" where
  "common_services = [''api_gateway'', ''router-service'', ''llm_service'', ''vector_service'', ''billing_service'']"

definition cn_cancel_request_by_id ::
  "rat \<Rightarrow> string \<Rightarrow> string \<Rightarrow> string \<Rightarrow> cancel_reason \<Rightarrow> string \<Rightarrow> cnm \<Rightarrow> string option \<times> cnm" where
  "cn_cancel_request_by_id now uuid request_id tenant_id reason initiated_by s =
     (case filter (\<lambda>c. cr_request_id c = request_id \<and> cr_tenant_id c = tenant_id)
             (map (cn_request_of s \<circ> snd) (cn_active s)) of
        c # _ \<Rightarrow> (Some (cr_cancellation_id c), s)
      | [] \<Rightarrow>
          (let (i, s1) = cn_initiate_cancellation now uuid request_id tenant_id reason initiated_by common_services
                 (JDict [(''auto_determined_services'', JBool True)]) s
           in (Some i, s1)))"

fun cn_restart_pending :: "cancel_reason \<Rightarrow> string \<Rightarrow> nat list \<Rightarrow> cnm \<Rightarrow> string list \<times> cnm" where
  "cn_restart_pending reason initiated_by [] s = ([], s)"
| "cn_restart_pending reason initiated_by (ref # refs) s =
     (let c = cn_request_of s ref
      in if cr_status c = CS_PENDING then
           (let s1 = cn_spawn [Starting (cr_cancellation_id c)]
                  (cn_set_request ref (c\<lparr>cr_reason := reason, cr_initiated_by := initiated_by\<rparr>) s);
                (ids, s2) = cn_restart_pending reason initiated_by refs s1
            in (cr_cancellation_id c # ids, s2))
         else cn_restart_pending reason initiated_by refs s)"

definition cn_cancel_all_tenant_requests ::
  "string \<Rightarrow> cancel_reason \<Rightarrow> string \<Rightarrow> cnm \<Rightarrow> string list \<times> cnm" where
  "cn_cancel_all_tenant_requests tenant_id reason initiated_by s =
     cn_restart_pending reason initiated_by
       (filter (\<lambda>ref. cr_tenant_id (cn_request_of s ref) = tenant_id) (map snd (cn_active s))) s"

text \<open>\<open>timedelta\<close> is not among the imports: the \<open>NameError\<close> is caught before anything is collected.\<close>

definition cn_timedelta :: "int \<Rightarrow> exn + rat" where
  "cn_timedelta hours = Inl (Exn [''NameError'', ''Exception''] ''name timedelta is not defined'')"

definition cn_cleanup_completed_cancellations :: "rat \<Rightarrow> int \<Rightarrow> cnm \<Rightarrow> cnm" where
  "cn_cleanup_completed_cancellations now max_age_hours s =
     (case cn_timedelta max_age_hours of
        Inl _ \<Rightarrow> s
      | Inr max_age \<Rightarrow>
          s\<lparr>cn_active := filter (\<lambda>(_, ref). \<not> (cr_status (cn_request_of s ref) \<in> {CS_COMPLETED, CS_FAILED} \<and>
               max_age < now - cr_initiated_at (cn_request_of s ref))) (cn_active s)\<rparr>)"

section \<open>The tasks\<close>

definition cn_update_stats :: "cn_request \<Rightarrow> cnm \<Rightarrow> cnm" where
  "cn_update_stats c s =
     (let s1 = s\<lparr>cn_total := cn_total s + 1\<rparr>;
          s2 = (if cr_status c = CS_COMPLETED then s1\<lparr>cn_successful := cn_successful s1 + 1\<rparr>
                else if cr_status c = CS_FAILED then s1\<lparr>cn_failed := cn_failed s1 + 1\<rparr> else s1)
      in s2\<lparr>cn_by_reason := count_key (cancel_reason_value (cr_reason c)) (cn_by_reason s2),
            cn_by_service := fold count_key (cr_cancelled_services c) (cn_by_service s2)\<rparr>)"

definition cn_final_status :: "cn_request \<Rightarrow> cancel_status" where
  "cn_final_status c =
     (if cr_error_services c \<noteq> []
      then (if cr_cancelled_services c \<noteq> [] then CS_COMPLETED else CS_FAILED)
      else CS_COMPLETED)"

text \<open>The end of \<open>_execute_coordinated_cancellation\<close>, from the results of the services on.\<close>

definition cn_finish :: "nat \<Rightarrow> nat \<Rightarrow> (exn + bool) list \<Rightarrow> cnm \<Rightarrow> cnm" where
  "cn_finish i ref results s =
     (let c = cn_request_of s ref;
          outcomes = zip (cr_services_to_cancel c) results;
          c1 = c\<lparr>cr_error_services := cr_error_services c @ map fst (filter (\<lambda>(_, r). isl r) outcomes),
                 cr_cancelled_services := cr_cancelled_services c @ map fst (filter (\<lambda>(_, r). \<not> isl r) outcomes)\<rparr>;
          c2 = c1\<lparr>cr_status := cn_final_status c1\<rparr>
      in cn_set_task i Ended (cn_update_stats c2 (cn_set_request ref c2 s)))"

definition cn_start :: "nat \<Rightarrow> string \<Rightarrow> cnm \<Rightarrow> cnm" where
  "cn_start i cancellation_id s =
     (case dget (cn_active s) cancellation_id of
        None \<Rightarrow> cn_set_task i Ended s
      | Some ref \<Rightarrow>
          (let c = cn_request_of s ref;
               s1 = cn_set_request ref (c\<lparr>cr_status := CS_IN_PROGRESS\<rparr>) s;
               services = cr_services_to_cancel c
           in if services = [] then cn_finish i ref [] s1
              else cn_set_task i (Gathering ref [length (cn_tasks s) ..< length (cn_tasks s) + length services])
                     (cn_spawn (map (\<lambda>service. Opening service (cr_request_id c)) services) s1)))"

definition cn_open :: "nat \<Rightarrow> string \<Rightarrow> string \<Rightarrow> cnm \<Rightarrow> cnm" where
  "cn_open i service_name request_id s =
     (let entries = dget_or [] (cn_service_cancellations s) service_name;
          entry = \<lparr>csv_service_name = service_name, csv_request_id = request_id, csv_cancelled = False,
                   csv_cancelled_at = None, csv_error = None\<rparr>
      in cn_set_task i (Signalling service_name request_id (length entries))
           (s\<lparr>cn_service_cancellations := dset service_name (entries @ [entry]) (cn_service_cancellations s)\<rparr>))"

text \<open>The first entry of the request gets the error, whichever call failed.\<close>

fun csv_mark_error :: "string \<Rightarrow> string \<Rightarrow> cn_service list \<Rightarrow> cn_service list" where
  "csv_mark_error request_id e [] = []"
| "csv_mark_error request_id e (sc # scs) =
     (if csv_request_id sc = request_id then sc\<lparr>csv_error := Some e\<rparr> # scs
      else sc # csv_mark_error request_id e scs)"

text \<open>\<open>signal\<close> is what \<open>_send_cancellation_signal\<close> raised, if it did.\<close>

definition cn_signalled :: "rat \<Rightarrow> nat \<Rightarrow> string \<Rightarrow> string \<Rightarrow> nat \<Rightarrow> exn option \<Rightarrow> cnm \<Rightarrow> cnm" where
  "cn_signalled now i service_name request_id k signal s =
     (let entries = dget_or [] (cn_service_cancellations s) service_name
      in case signal of
           None \<Rightarrow>
             cn_set_task i (Result (Inr True))
               (s\<lparr>cn_service_cancellations := dset service_name
                    (entries[k := (entries ! k)\<lparr>csv_cancelled := True, csv_cancelled_at := Some now\<rparr>])
                    (cn_service_cancellations s)\<rparr>)
         | Some e \<Rightarrow>
             cn_set_task i (Result (Inr False))
               (s\<lparr>cn_service_cancellations := dset service_name
                    (csv_mark_error request_id (message e) entries) (cn_service_cancellations s)\<rparr>))"

section \<open>Reports\<close>

definition cn_success_rate :: "cn_request \<Rightarrow> rat" where
  "cn_success_rate c =
     (if cr_services_to_cancel c \<noteq> []
      then of_nat (length (cr_cancelled_services c)) / of_nat (length (cr_services_to_cancel c)) * 100 else 0)"

definition cn_get_cancellation_status :: "string \<Rightarrow> cnm \<Rightarrow> (cn_request \<times> rat) option" where
  "cn_get_cancellation_status cancellation_id s =
     (case dget (cn_active s) cancellation_id of
        None \<Rightarrow> None
      | Some ref \<Rightarrow> Some (cn_request_of s ref, cn_success_rate (cn_request_of s ref)))"

record cn_stats =
  cst_total_cancellations :: int
  cst_successful_cancellations :: int
  cst_failed_cancellations :: int
  cst_success_rate :: rat
  cst_cancellations_by_reason :: "(string, int) dict"
  cst_cancellations_by_service :: "(string, int) dict"
  cst_active_cancellations :: int

definition cn_get_cancellation_stats :: "cnm \<Rightarrow> cn_stats" where
  "cn_get_cancellation_stats s =
     \<lparr>cst_total_cancellations = cn_total s, cst_successful_cancellations = cn_successful s,
      cst_failed_cancellations = cn_failed s,
      cst_success_rate = (if 0 < cn_total s then of_int (cn_successful s) / of_int (cn_total s) * 100 else 0),
      cst_cancellations_by_reason = cn_by_reason s, cst_cancellations_by_service = cn_by_service s,
      cst_active_cancellations = int (length (cn_active s))\<rparr>"

section \<open>Interleavings\<close>

text \<open>\<open>cn_reach s0 s\<close>: the state \<open>s\<close> can follow the state \<open>s0\<close>.\<close>

inductive cn_reach :: "cnm \<Rightarrow> cnm \<Rightarrow> bool" for s0 where
  init: "cn_reach s0 s0"
| initiate: "cn_reach s0 s \<Longrightarrow> uuid \<notin> fst ` set (cn_active s) \<Longrightarrow>
    cn_initiate_cancellation now uuid request_id tenant_id reason initiated_by services metadata s = (i, s') \<Longrightarrow>
    cn_reach s0 s'"
| by_id: "cn_reach s0 s \<Longrightarrow> uuid \<notin> fst ` set (cn_active s) \<Longrightarrow>
    cn_cancel_request_by_id now uuid request_id tenant_id reason initiated_by s = (i, s') \<Longrightarrow> cn_reach s0 s'"
| all_of_tenant: "cn_reach s0 s \<Longrightarrow> cn_cancel_all_tenant_requests tenant_id reason initiated_by s = (ids, s') \<Longrightarrow>
    cn_reach s0 s'"
| cleanup: "cn_reach s0 s \<Longrightarrow> cn_reach s0 (cn_cleanup_completed_cancellations now max_age_hours s)"
| start: "cn_reach s0 s \<Longrightarrow> i < length (cn_tasks s) \<Longrightarrow> cn_tasks s ! i = Starting cancellation_id \<Longrightarrow>
    cn_reach s0 (cn_start i cancellation_id s)"
| opened: "cn_reach s0 s \<Longrightarrow> i < length (cn_tasks s) \<Longrightarrow> cn_tasks s ! i = Opening service request_id \<Longrightarrow>
    cn_reach s0 (cn_open i service request_id s)"
| signalled: "cn_reach s0 s \<Longrightarrow> i < length (cn_tasks s) \<Longrightarrow> cn_tasks s ! i = Signalling service request_id k \<Longrightarrow>
    cn_reach s0 (cn_signalled now i service request_id k signal s)"
| finish: "cn_reach s0 s \<Longrightarrow> i < length (cn_tasks s) \<Longrightarrow> cn_tasks s ! i = Gathering ref kids \<Longrightarrow>
    list_all2 (\<lambda>j r. j < length (cn_tasks s) \<and> cn_tasks s ! j = Result r) kids results \<Longrightarrow>
    cn_reach s0 (cn_finish i ref results s)"

section \<open>The books\<close>

definition cn_services :: "cnm \<Rightarrow> string list list" where
  "cn_services s = map cr_services_to_cancel (cn_requests s)"

fun task_ok :: "string list list \<Rightarrow> cn_task \<Rightarrow> bool" where
  "task_ok svs (Gathering ref kids) \<longleftrightarrow> ref < length svs \<and> length kids = length (svs ! ref)"
| "task_ok svs (Result r) \<longleftrightarrow> \<not> isl r"
| "task_ok svs _ \<longleftrightarrow> True"

definition request_ok :: "cn_request \<Rightarrow> bool" where
  "request_ok c \<longleftrightarrow> cr_error_services c = [] \<and> cr_status c \<noteq> CS_FAILED \<and>
     (\<exists>k. cr_cancelled_services c = concat (replicate k (cr_services_to_cancel c)))"

definition cn_inv :: "cnm \<Rightarrow> bool" where
  "cn_inv s \<longleftrightarrow> cn_failed s = 0 \<and> cn_successful s = cn_total s \<and>
     wf_dict (cn_by_reason s) \<and> dsum id (cn_by_reason s) = cn_total s \<and>
     list_all request_ok (cn_requests s) \<and> list_all (task_ok (cn_services s)) (cn_tasks s) \<and>
     list_all (\<lambda>(_, ref). ref < length (cn_requests s)) (cn_active s)"

lemma list_all_update: "list_all P xs \<Longrightarrow> P x \<Longrightarrow> list_all P (xs[i := x])"
  by (auto simp: list_all_iff dest!: subsetD [OF set_update_subset_insert])

lemma cn_inv_set_task:
  assumes "cn_inv s" and "task_ok (cn_services s) t"
  shows "cn_inv (cn_set_task i t s)"
  using assms by (simp add: cn_inv_def cn_set_task_def cn_services_def list_all_update)

lemma cn_inv_spawn:
  assumes "cn_inv s" and "list_all (task_ok (cn_services s)) ts"
  shows "cn_inv (cn_spawn ts s)"
  using assms by (simp add: cn_inv_def cn_spawn_def cn_services_def)

lemma services_set_request:
  assumes "cr_services_to_cancel c = cr_services_to_cancel (cn_request_of s ref)"
  shows "cn_services (cn_set_request ref c s) = cn_services s"
proof -
  have "(map cr_services_to_cancel (cn_requests s))[ref := cr_services_to_cancel (cn_requests s ! ref)] =
      map cr_services_to_cancel (cn_requests s)"
    by (cases "ref < length (cn_requests s)") (simp_all add: list_update_same_conv list_update_beyond)
  then show ?thesis using assms by (simp add: cn_services_def cn_set_request_def cn_request_of_def map_update)
qed

lemma cn_inv_set_request:
  assumes "cn_inv s" and "request_ok c"
    and "cr_services_to_cancel c = cr_services_to_cancel (cn_request_of s ref)"
  shows "cn_inv (cn_set_request ref c s)"
  using assms(1,2) services_set_request [OF assms(3)]
  by (auto simp: cn_inv_def cn_set_request_def list_all_update)

lemma cn_inv_service_cancellations: "cn_inv s \<Longrightarrow> cn_inv (s\<lparr>cn_service_cancellations := d\<rparr>)"
  by (simp add: cn_inv_def cn_services_def)

lemma cn_inv_request: "cn_inv s \<Longrightarrow> ref < length (cn_requests s) \<Longrightarrow> request_ok (cn_request_of s ref)"
  by (simp add: cn_inv_def cn_request_of_def list_all_length)

lemma cn_inv_task: "cn_inv s \<Longrightarrow> i < length (cn_tasks s) \<Longrightarrow> task_ok (cn_services s) (cn_tasks s ! i)"
  by (simp add: cn_inv_def list_all_length)

lemma cn_inv_active: "cn_inv s \<Longrightarrow> dget (cn_active s) i = Some ref \<Longrightarrow> ref < length (cn_requests s)"
  by (auto simp: cn_inv_def list_all_iff dest!: map_of_SomeD)

lemma cn_inv_update_stats:
  assumes "cn_inv s" and "cr_status c = CS_COMPLETED"
  shows "cn_inv (cn_update_stats c s)"
  using assms
  by (simp add: cn_inv_def cn_update_stats_def Let_def count_key_def dsum_dset_or cn_services_def)

lemma zip_all_right: "list_all (\<lambda>r. \<not> isl r) rs \<Longrightarrow> length rs = length xs \<Longrightarrow>
    map fst (filter (\<lambda>(_, r). isl r) (zip xs rs)) = [] \<and> map fst (filter (\<lambda>(_, r). \<not> isl r) (zip xs rs)) = xs"
  by (induction xs rs rule: list_induct2') auto

lemma concat_replicate_snoc: "concat (replicate k xs) @ xs = concat (replicate (Suc k) xs)"
  by (induction k) auto

lemma request_ok_finished:
  assumes "request_ok c"
  shows "request_ok (c\<lparr>cr_error_services := [],
    cr_cancelled_services := cr_cancelled_services c @ cr_services_to_cancel c, cr_status := CS_COMPLETED\<rparr>)"
proof -
  obtain k where "cr_cancelled_services c = concat (replicate k (cr_services_to_cancel c))"
    using assms by (auto simp: request_ok_def)
  then show ?thesis using concat_replicate_snoc [of k "cr_services_to_cancel c"]
    by (auto simp: request_ok_def intro!: exI [of _ "Suc k"])
qed

lemma cn_inv_finish:
  assumes inv: "cn_inv s" and ref: "ref < length (cn_requests s)"
    and ok: "list_all (\<lambda>r. \<not> isl r) results" and len: "length results = length (cn_services s ! ref)"
  shows "cn_inv (cn_finish i ref results s)"
proof -
  let ?c = "cn_request_of s ref"
  let ?c2 = "?c\<lparr>cr_error_services := [], cr_cancelled_services := cr_cancelled_services ?c @ cr_services_to_cancel ?c,
    cr_status := CS_COMPLETED\<rparr>"
  have c: "request_ok ?c" by (rule cn_inv_request [OF inv ref])
  have "length results = length (cr_services_to_cancel ?c)"
    using len ref by (simp add: cn_services_def cn_request_of_def)
  note zip_all_right [OF ok this]
  then have "cn_finish i ref results s = cn_set_task i Ended (cn_update_stats ?c2 (cn_set_request ref ?c2 s))"
    using c by (simp add: cn_finish_def Let_def cn_final_status_def request_ok_def)
  moreover have "cn_inv (cn_set_request ref ?c2 s)"
    by (rule cn_inv_set_request [OF inv request_ok_finished [OF c]]) simp
  ultimately show ?thesis by (simp add: cn_inv_set_task cn_inv_update_stats)
qed

lemma cn_inv_initiate:
  assumes "cn_inv s"
  shows "cn_inv (snd (cn_initiate_cancellation now i request_id tenant_id reason initiated_by services metadata s))"
proof -
  have "task_ok (svs @ [services]) t" if "task_ok svs t" for svs t
    using that by (cases t) (auto simp: nth_append)
  moreover have "\<forall>x \<in> set (dset i (length (cn_requests s)) (cn_active s)). snd x < Suc (length (cn_requests s))"
    using assms by (auto simp: cn_inv_def list_all_iff dest!: mem_dset)
  moreover have "request_ok \<lparr>cr_cancellation_id = i, cr_request_id = request_id, cr_tenant_id = tenant_id,
      cr_reason = reason, cr_initiated_by = initiated_by, cr_initiated_at = now, cr_status = CS_PENDING,
      cr_services_to_cancel = services, cr_cancelled_services = [], cr_error_services = [], cr_metadata = metadata\<rparr>"
    by (auto simp: request_ok_def intro: exI [of _ 0])
  ultimately show ?thesis
    using assms
    by (auto simp: cn_inv_def cn_initiate_cancellation_def cn_spawn_def cn_services_def list_all_iff Let_def)
qed

lemma cn_inv_restart: "cn_inv s \<Longrightarrow> \<forall>ref \<in> set refs. ref < length (cn_requests s) \<Longrightarrow>
    cn_inv (snd (cn_restart_pending reason initiated_by refs s))"
proof (induction refs arbitrary: s)
  case (Cons ref refs)
  let ?c = "cn_request_of s ref"
  let ?s1 = "cn_spawn [Starting (cr_cancellation_id ?c)]
    (cn_set_request ref (?c\<lparr>cr_reason := reason, cr_initiated_by := initiated_by\<rparr>) s)"
  have "request_ok ?c" using cn_inv_request [OF Cons.prems(1)] Cons.prems(2) by simp
  then have "cn_inv ?s1"
    by (intro cn_inv_spawn cn_inv_set_request Cons.prems(1)) (simp_all add: request_ok_def)
  moreover have "length (cn_requests ?s1) = length (cn_requests s)" by (simp add: cn_spawn_def cn_set_request_def)
  ultimately have "cn_inv (snd (cn_restart_pending reason initiated_by refs ?s1))"
    using Cons.IH Cons.prems(2) by simp
  then show ?case using Cons by (simp add: Let_def case_prod_beta)
qed simp

lemma cn_inv_start:
  assumes inv: "cn_inv s"
  shows "cn_inv (cn_start i cancellation_id s)"
proof (cases "dget (cn_active s) cancellation_id")
  case None
  then show ?thesis using inv by (simp add: cn_start_def cn_inv_set_task)
next
  case (Some ref)
  let ?c = "cn_request_of s ref"
  let ?s1 = "cn_set_request ref (?c\<lparr>cr_status := CS_IN_PROGRESS\<rparr>) s"
  have ref: "ref < length (cn_requests s)" by (rule cn_inv_active [OF inv Some])
  have svs: "cn_services ?s1 = cn_services s" by (rule services_set_request) simp
  have s1: "cn_inv ?s1"
    by (rule cn_inv_set_request [OF inv]) (use cn_inv_request [OF inv ref] in \<open>auto simp: request_ok_def\<close>)
  have ref1: "ref < length (cn_requests ?s1)" using ref by (simp add: cn_set_request_def)
  have len: "length (cn_services s ! ref) = length (cr_services_to_cancel ?c)" "ref < length (cn_services s)"
    using ref by (simp_all add: cn_services_def cn_request_of_def)
  show ?thesis
  proof (cases "cr_services_to_cancel ?c = []")
    case True
    then show ?thesis using cn_inv_finish [OF s1 ref1, of "[]" i] len
      by (simp add: cn_start_def Some Let_def svs)
  next
    case False
    have fresh: "list_all (task_ok svs) (map (\<lambda>service. Opening service (cr_request_id ?c)) xs)" for svs xs
      by (simp add: list_all_iff)
    have "cn_services (cn_spawn ts ?s1) = cn_services s" for ts
      using svs by (simp add: cn_spawn_def cn_services_def)
    with False show ?thesis
      by (simp add: cn_start_def Some Let_def cn_inv_set_task cn_inv_spawn s1 fresh len)
  qed
qed

lemma cn_inv_init: "cn_inv cn_init"
  by (simp add: cn_inv_def cn_init_def dsum_def)

lemma cn_reach_inv: "cn_reach s0 s \<Longrightarrow> cn_inv s0 \<Longrightarrow> cn_inv s"
proof (induction rule: cn_reach.induct)
  case init
  then show ?case .
next
  case (initiate s uuid now request_id tenant_id reason initiated_by services metadata i s')
  then show ?case using cn_inv_initiate [of s] by (metis snd_conv)
next
  case (by_id s uuid now request_id tenant_id reason initiated_by i s')
  then show ?case
    using cn_inv_initiate [of s] by (auto simp: cn_cancel_request_by_id_def case_prod_beta Let_def split: list.splits)
next
  case (all_of_tenant s tenant_id reason initiated_by ids s')
  then have "s' = snd (cn_cancel_all_tenant_requests tenant_id reason initiated_by s)" by simp
  moreover have "\<forall>ref \<in> set (filter (\<lambda>ref. cr_tenant_id (cn_request_of s ref) = tenant_id) (map snd (cn_active s))).
      ref < length (cn_requests s)"
    using all_of_tenant.IH [OF all_of_tenant.prems] by (auto simp: cn_inv_def list_all_iff)
  ultimately show ?case
    using cn_inv_restart [OF all_of_tenant.IH [OF all_of_tenant.prems]] by (simp add: cn_cancel_all_tenant_requests_def)
next
  case (cleanup s now max_age_hours)
  then show ?case by (simp add: cn_cleanup_completed_cancellations_def cn_timedelta_def)
next
  case (start s i cancellation_id)
  then show ?case by (simp add: cn_inv_start)
next
  case (opened s i service request_id)
  then show ?case by (simp add: cn_open_def Let_def cn_inv_set_task cn_inv_service_cancellations)
next
  case (signalled s i service request_id k now signal)
  then show ?case
    by (simp add: cn_signalled_def Let_def cn_inv_set_task cn_inv_service_cancellations split: option.split)
next
  case (finish s i ref kids results)
  have task: "ref < length (cn_services s)" "length kids = length (cn_services s ! ref)"
    using cn_inv_task [OF finish.IH [OF finish.prems] finish.hyps(2)] finish.hyps(3) by simp_all
  have "list_all (\<lambda>r. \<not> isl r) results"
    using finish.hyps(4) cn_inv_task [OF finish.IH [OF finish.prems]]
    by (fastforce simp: list_all_length list_all2_conv_all_nth)
  then show ?case
    using task finish.hyps(4)
    by (intro cn_inv_finish [OF finish.IH [OF finish.prems]]) (simp_all add: cn_services_def list_all2_lengthD [symmetric])
qed

section \<open>Properties\<close>

text \<open>
  No cancellation ever fails in the books. However calls and tasks interleave, and even when signals
  to services raise, every coordinated cancellation that ends counts as successful, no request has a
  service in error or the status failed, and the cancelled services of a request are its services, once
  for every time it was executed.
\<close>

theorem cn_never_fails:
  assumes "cn_reach cn_init s"
  shows "cn_failed s = 0 \<and> cn_successful s = cn_total s \<and> dsum id (cn_by_reason s) = cn_total s \<and>
    (\<forall>c \<in> set (cn_requests s). cr_error_services c = [] \<and> cr_status c \<noteq> CS_FAILED \<and>
      (\<exists>k. cr_cancelled_services c = concat (replicate k (cr_services_to_cancel c))))"
  using cn_reach_inv [OF assms cn_inv_init] by (auto simp: cn_inv_def list_all_iff request_ok_def)

subsection \<open>A request is cancelled once\<close>

definition cr_key :: "cn_request \<Rightarrow> string \<times> string \<times> string" where
  "cr_key c = (cr_cancellation_id c, cr_request_id c, cr_tenant_id c)"

definition cn_keys :: "cnm \<Rightarrow> (string \<times> string \<times> string) list" where
  "cn_keys s = map (\<lambda>x. cr_key (cn_request_of s (snd x))) (cn_active s)"

lemma dset_fresh: "k \<notin> fst ` set d \<Longrightarrow> dset k v d = d @ [(k, v)]"
  by (induction d) auto

lemma cn_keys_cong:
  assumes "cn_active s' = cn_active s" and "\<And>ref. cr_key (cn_request_of s' ref) = cr_key (cn_request_of s ref)"
  shows "cn_keys s' = cn_keys s"
  using assms by (simp add: cn_keys_def)

lemma cn_keys_initiate:
  assumes "cn_inv s" and "uuid \<notin> fst ` set (cn_active s)"
  shows "cn_keys (snd (cn_initiate_cancellation now uuid request_id tenant_id reason initiated_by services metadata s)) =
    cn_keys s @ [(uuid, request_id, tenant_id)]"
proof -
  have "map (\<lambda>x. cr_key ((cn_requests s @ [c]) ! snd x)) (cn_active s) = cn_keys s" for c
    using assms(1) by (auto simp: cn_keys_def cn_request_of_def cn_inv_def list_all_iff nth_append)
  moreover have "cn_keys (s\<lparr>cn_active := a, cn_requests := rs, cn_tasks := ts\<rparr>) =
      map (\<lambda>x. cr_key (rs ! snd x)) a" for a rs ts
    by (simp add: cn_keys_def cn_request_of_def)
  ultimately show ?thesis
    using assms(2) by (simp add: cn_initiate_cancellation_def Let_def cn_spawn_def dset_fresh cr_key_def)
qed

lemma request_of_set_request:
  "cn_request_of (cn_set_request ref c s) r = (if r = ref \<and> ref < length (cn_requests s) then c else cn_request_of s r)"
  by (auto simp: cn_request_of_def cn_set_request_def nth_list_update list_update_beyond)

lemma cn_plain_simps [simp]:
  "cn_active (cn_spawn ts s) = cn_active s" "cn_request_of (cn_spawn ts s) = cn_request_of s"
  "cn_active (cn_set_task i t s) = cn_active s" "cn_request_of (cn_set_task i t s) = cn_request_of s"
  "cn_active (cn_set_request ref c s) = cn_active s"
  "cn_active (cn_update_stats c s) = cn_active s" "cn_request_of (cn_update_stats c s) = cn_request_of s"
  by (auto simp: cn_spawn_def cn_set_task_def cn_set_request_def cn_update_stats_def cn_request_of_def Let_def fun_eq_iff)

lemma cn_keys_plain [simp]:
  "cn_keys (cn_spawn ts s) = cn_keys s" "cn_keys (cn_set_task i t s) = cn_keys s"
  "cn_keys (cn_update_stats c s) = cn_keys s" "cn_keys (s\<lparr>cn_service_cancellations := d\<rparr>) = cn_keys s"
  by (rule cn_keys_cong; simp add: cn_request_of_def)+

lemma cn_keys_set_request:
  "cr_key c = cr_key (cn_request_of s ref) \<Longrightarrow> cn_keys (cn_set_request ref c s) = cn_keys s"
  by (rule cn_keys_cong) (simp_all add: request_of_set_request)

lemma cn_keys_finish: "cn_keys (cn_finish i ref results s) = cn_keys s"
  by (simp add: cn_finish_def Let_def cn_keys_set_request cr_key_def)

lemma cn_keys_start: "cn_keys (cn_start i cancellation_id s) = cn_keys s"
  by (simp add: cn_start_def Let_def cn_keys_finish cn_keys_set_request cr_key_def split: option.split)

lemma cn_keys_restart: "cn_keys (snd (cn_restart_pending reason initiated_by refs s)) = cn_keys s"
  by (induction refs arbitrary: s) (simp_all add: Let_def case_prod_beta cn_keys_set_request cr_key_def)

lemma cn_reach_keys:
  assumes "cn_reach s0 s" and "cn_inv s0"
  shows "prefix (cn_keys s0) (cn_keys s)"
  using assms(1)
proof induction
  case (initiate s uuid now request_id tenant_id reason initiated_by services metadata i s')
  have "prefix (cn_keys s) (cn_keys s')"
    using cn_keys_initiate [OF cn_reach_inv [OF initiate.hyps(1) assms(2)] initiate.hyps(2)] initiate.hyps(3)
    by (metis snd_conv prefixI)
  with initiate.IH show ?case by (rule prefix_order.trans)
next
  case (by_id s uuid now request_id tenant_id reason initiated_by i s')
  have "prefix (cn_keys s) (cn_keys s')"
    using cn_keys_initiate [OF cn_reach_inv [OF by_id.hyps(1) assms(2)] by_id.hyps(2)] by_id.hyps(3)
    by (auto simp: cn_cancel_request_by_id_def case_prod_beta Let_def split: list.splits)
  with by_id.IH show ?case by (rule prefix_order.trans)
next
  case (all_of_tenant s tenant_id reason initiated_by ids s')
  then show ?case using cn_keys_restart unfolding cn_cancel_all_tenant_requests_def by (metis snd_conv)
qed (simp_all add: cn_cleanup_completed_cancellations_def cn_timedelta_def cn_keys_start cn_open_def cn_keys_finish
    cn_signalled_def Let_def split: option.split)

lemma cancel_by_id_keys:
  assumes "filter (\<lambda>(_, r, t). r = request_id \<and> t = tenant_id) (cn_keys s) = (i, r, t) # rest"
  shows "cn_cancel_request_by_id now uuid request_id tenant_id reason initiated_by s = (Some i, s)"
proof -
  have "map cr_key (filter (\<lambda>c. cr_request_id c = request_id \<and> cr_tenant_id c = tenant_id)
      (map (cn_request_of s \<circ> snd) (cn_active s))) = (i, r, t) # rest"
    using assms by (simp add: cn_keys_def filter_map o_def cr_key_def)
  then show ?thesis by (auto simp: cn_cancel_request_by_id_def cr_key_def)
qed

text \<open>
  A request is cancelled at most once, for ever. After \<open>cancel_request_by_id\<close> has answered with an
  identifier, every later call for the request and tenant answers with the same identifier and starts
  nothing, whatever happened in between; clean-ups included, since they never remove anything.
\<close>

theorem cn_cancelled_once:
  assumes "cn_reach cn_init s" and "uuid \<notin> fst ` set (cn_active s)"
    and first: "cn_cancel_request_by_id now uuid request_id tenant_id reason initiated_by s = (Some i, s1)"
    and "cn_reach s1 s2"
  shows "cn_cancel_request_by_id now' uuid' request_id tenant_id reason' initiated_by' s2 = (Some i, s2)"
proof -
  let ?P = "\<lambda>(_, r, t). r = request_id \<and> t = tenant_id"
  have inv: "cn_inv s" "cn_inv s1"
    using cn_reach_inv [OF assms(1) cn_inv_init] cn_reach_inv [OF cn_reach.by_id [OF assms(1-3)] cn_inv_init] .
  have "\<exists>rest. filter ?P (cn_keys s1) = (i, request_id, tenant_id) # rest"
  proof (cases "filter (\<lambda>c. cr_request_id c = request_id \<and> cr_tenant_id c = tenant_id)
      (map (cn_request_of s \<circ> snd) (cn_active s))")
    case Nil
    then have "filter ?P (cn_keys s) = []" by (auto simp: filter_empty_conv cn_keys_def cr_key_def)
    moreover have "i = uuid" "cn_keys s1 = cn_keys s @ [(uuid, request_id, tenant_id)]"
      using first Nil cn_keys_initiate [OF inv(1) assms(2)]
      by (auto simp: cn_cancel_request_by_id_def Let_def case_prod_beta cn_initiate_cancellation_def)
    ultimately show ?thesis by simp
  next
    case (Cons c cs)
    then have "map cr_key (filter (\<lambda>c. cr_request_id c = request_id \<and> cr_tenant_id c = tenant_id)
        (map (cn_request_of s \<circ> snd) (cn_active s))) = cr_key c # map cr_key cs" by simp
    then have "filter ?P (cn_keys s) = cr_key c # map cr_key cs"
      by (simp add: cn_keys_def filter_map o_def cr_key_def)
    moreover have "cr_request_id c = request_id" "cr_tenant_id c = tenant_id"
      using Cons by (auto simp: filter_eq_Cons_iff)
    moreover have "s1 = s" "i = cr_cancellation_id c" using first Cons by (auto simp: cn_cancel_request_by_id_def)
    ultimately show ?thesis by (simp add: cr_key_def)
  qed
  then obtain rest where "filter ?P (cn_keys s1) = (i, request_id, tenant_id) # rest" by blast
  moreover obtain more where "cn_keys s2 = cn_keys s1 @ more"
    using cn_reach_keys [OF assms(4) inv(2)] by (auto simp: prefix_def)
  ultimately show ?thesis by (intro cancel_by_id_keys [where rest = "rest @ filter ?P more"]) simp
qed

section \<open>A restarted cancellation\<close>

text \<open>
  A cancellation that is restarted by \<open>cancel_all_tenant_requests\<close> before its first task ran is executed
  twice; its reported success rate is 200 percent.
\<close>

definition demo_initiated :: cnm where
  "demo_initiated = snd (cn_initiate_cancellation 0 ''c1'' ''r1'' ''t1'' CR_TIMEOUT ''gateway'' [''llm_service''] JNull cn_init)"

definition demo_restarted :: cnm where
  "demo_restarted = cn_start 1 ''c1'' (cn_start 0 ''c1''
     (snd (cn_cancel_all_tenant_requests ''t1'' CR_RESOURCE_EXHAUSTED ''system'' demo_initiated)))"

definition demo_cancelled :: cnm where
  "demo_cancelled = cn_finish 1 0 [Inr True] (cn_finish 0 0 [Inr True]
     (cn_signalled 1 3 ''llm_service'' ''r1'' 1 None (cn_signalled 1 2 ''llm_service'' ''r1'' 0 None
     (cn_open 3 ''llm_service'' ''r1'' (cn_open 2 ''llm_service'' ''r1'' demo_restarted)))))"

lemma demo_initiated_reach: "cn_reach cn_init demo_initiated"
  unfolding demo_initiated_def
  by (rule cn_reach.initiate [OF cn_reach.init _ prod.collapse [symmetric]]) (simp add: cn_init_def)

lemma demo_restarted_reach: "cn_reach cn_init demo_restarted"
  unfolding demo_restarted_def
  by (intro cn_reach.start cn_reach.all_of_tenant [OF demo_initiated_reach prod.collapse [symmetric]]; code_simp)

lemma demo_cancelled_reach: "cn_reach cn_init demo_cancelled"
  unfolding demo_cancelled_def
  by ((rule cn_reach.finish [where i = 1 and kids = "[3]"] cn_reach.finish [where i = 0 and kids = "[2]"]
      cn_reach.signalled cn_reach.opened demo_restarted_reach | code_simp)+)

lemma cn_restart_doubles: "\<exists>c. cn_get_cancellation_status ''c1'' demo_cancelled = Some (c, 200)"
  by (rule exI [of _ "cn_request_of demo_cancelled 0"]) code_simp

section \<open>Witnesses\<close>

theorem cn_never_fails_witness:
  "cn_failed demo_cancelled = 0 \<and> cn_successful demo_cancelled = cn_total demo_cancelled"
  using cn_never_fails [OF demo_cancelled_reach] by blast

theorem cn_cancelled_once_witness:
  "\<exists>s1. cn_cancel_request_by_id 0 ''u'' ''r2'' ''t1'' CR_TIMEOUT ''system'' demo_cancelled = (Some ''u'', s1) \<and>
     cn_cancel_request_by_id 90000 ''v'' ''r2'' ''t1'' CR_ERROR ''user''
       (cn_cleanup_completed_cancellations 90000 24 s1) = (Some ''u'', cn_cleanup_completed_cancellations 90000 24 s1)"
proof -
  obtain s1 where first: "cn_cancel_request_by_id 0 ''u'' ''r2'' ''t1'' CR_TIMEOUT ''system'' demo_cancelled = (Some ''u'', s1)"
  proof -
    have "fst (cn_cancel_request_by_id 0 ''u'' ''r2'' ''t1'' CR_TIMEOUT ''system'' demo_cancelled) = Some ''u''"
      by code_simp
    then show ?thesis using that by (metis prod.collapse)
  qed
  have fresh: "''u'' \<notin> fst ` set (cn_active demo_cancelled)" by code_simp
  show ?thesis
    using cn_cancelled_once [OF demo_cancelled_reach fresh first cn_reach.cleanup [OF cn_reach.init]] first by blast
qed

end
