(* ===== verification/ClientQuotas.thy ===== *)
theory ClientQuotas
  imports Interfaces Json
begin

text \<open>
  \<^verbatim>\<open>libs/clients/rate_limiter.py\<close> (the token bucket of a tenant, plan and scope as a Lua script in Redis, and
  the quota enforcer over it) and \<^verbatim>\<open>libs/clients/quota_enforcer.py\<close> (the quotas of a tenant over SQL
  statements).

  Parameters: whether Redis runs the script, what the database answers to a statement, and the texts
  that Lua reads as numbers. An entry of a bucket is its tokens, its last refill and the time at which it
  expires.
\<close>

section \<open>The token bucket\<close>

type_synonym tbr_entry = "rat \<times> rat \<times> rat"

text \<open>\<open>interval\<close> 0: the quotient of Lua is infinite or no number, and the bucket is full in both cases.\<close>

definition tbr_script ::
  "rat \<Rightarrow> rat \<Rightarrow> rat \<Rightarrow> rat \<Rightarrow> tbr_entry option \<Rightarrow> (bool \<times> rat \<times> rat) \<times> tbr_entry" where
  "tbr_script capacity tokens interval now entry =
     (let live = (case entry of
                    Some (k, l, expires) \<Rightarrow> if now < expires then Some (k, l) else None
                  | None \<Rightarrow> None);
          current_tokens = (case live of Some (k, _) \<Rightarrow> k | None \<Rightarrow> capacity);
          last_refill = (case live of Some (_, l) \<Rightarrow> l | None \<Rightarrow> now);
          time_passed = now - last_refill;
          refilled = (if interval = 0 then capacity
                      else min capacity (current_tokens + of_int \<lfloor>time_passed / interval\<rfloor> * tokens))
      in if 1 \<le> refilled then ((True, refilled - 1, capacity), (refilled - 1, now, now + 3600))
         else ((False, refilled, capacity), (refilled, now, now + 3600)))"

text \<open>An argument of a script: the driver refuses \<open>None\<close>, truth values and containers; Lua reads a number.\<close>

fun lua_number :: "(string \<Rightarrow> rat option) \<Rightarrow> json \<Rightarrow> exn + rat" where
  "lua_number tonumber (JInt i) = Inr (of_int i)"
| "lua_number tonumber (JFloat q) = Inr q"
| "lua_number tonumber (JStr s) =
     (case tonumber s of Some q \<Rightarrow> Inr q | None \<Rightarrow> Inl (Exn [''ResponseError'', ''RedisError'', ''Exception''] ''nil''))"
| "lua_number tonumber _ = Inl (Exn [''DataError'', ''RedisError'', ''Exception''] ''Invalid input'')"

definition tbr_key :: "string \<Rightarrow> string \<Rightarrow> string \<Rightarrow> string" where
  "tbr_key tenant_id plan scope = ''rate_limit:'' @ tenant_id @ '':'' @ plan @ '':'' @ scope"

text \<open>A Lua number in a reply loses its fraction.\<close>

definition lua_reply :: "rat \<Rightarrow> json" where
  "lua_reply q = JInt (if 0 \<le> q then \<lfloor>q\<rfloor> else \<lceil>q\<rceil>)"

definition tbr_is_allowed ::
  "(string \<Rightarrow> rat option) \<Rightarrow> exn option \<Rightarrow> rat \<Rightarrow> string \<Rightarrow> string \<Rightarrow> string \<Rightarrow> json \<Rightarrow> json \<Rightarrow> json \<Rightarrow>
   (string, tbr_entry) dict \<Rightarrow> (bool \<times> json \<times> json) \<times> (string, tbr_entry) dict" where
  "tbr_is_allowed tonumber redis_error time tenant_id plan scope capacity tokens_per_interval interval_seconds st =
     (let key = tbr_key tenant_id plan scope;
          now = of_int \<lfloor>time\<rfloor>
      in case (redis_error, lua_number tonumber capacity, lua_number tonumber tokens_per_interval,
               lua_number tonumber interval_seconds) of
           (None, Inr c, Inr n, Inr i) \<Rightarrow>
             (case tbr_script c n i now (dget st key) of
                ((is_allowed, remaining, cap), entry) \<Rightarrow>
                  ((is_allowed, lua_reply remaining, lua_reply cap), dset key entry st))
         | _ \<Rightarrow> ((True, capacity, capacity), st))"

section \<open>The quota enforcer over Redis\<close>

record qe_db =
  qd_plan_quotas :: "string \<Rightarrow> exn + json option"
  qd_usage :: "string \<Rightarrow> exn + int option list option"

text \<open>\<open>_get_plan_quotas\<close>: \<open>None\<close> for a missing plan and for any error.\<close>

definition qe_get_plan_quotas :: "qe_db \<Rightarrow> string \<Rightarrow> json" where
  "qe_get_plan_quotas db plan =
     (case qd_plan_quotas db plan of Inr (Some quotas) \<Rightarrow> quotas | Inr None \<Rightarrow> JNull | Inl _ \<Rightarrow> JNull)"

definition qe_usage_types :: "string list" where
  "qe_usage_types = [''tokens_in'', ''tokens_out'', ''tool_calls'', ''ws_minutes'', ''storage_mb'']"

definition qe_get_current_usage :: "qe_db \<Rightarrow> string \<Rightarrow> (string, int) dict" where
  "qe_get_current_usage db tenant_id =
     (case qd_usage db tenant_id of
        Inr (Some row) \<Rightarrow> zip qe_usage_types (map (\<lambda>x. case x of Some i \<Rightarrow> i | None \<Rightarrow> 0) row)
      | Inr None \<Rightarrow> map (\<lambda>ty. (ty, 0)) qe_usage_types
      | Inl _ \<Rightarrow> [])"

text \<open>\<open>max(0, limit - current)\<close>.\<close>

fun py_remaining :: "json \<Rightarrow> int \<Rightarrow> exn + json" where
  "py_remaining (JInt i) current = Inr (JInt (max 0 (i - current)))"
| "py_remaining (JFloat q) current = Inr (if 0 < q - of_int current then JFloat (q - of_int current) else JInt 0)"
| "py_remaining (JBool b) current = Inr (JInt (max 0 ((if b then 1 else 0) - current)))"
| "py_remaining _ _ = Inl (type_error ''unsupported operand types'')"

text \<open>\<open>current >= limit\<close>.\<close>

fun int_reaches :: "int \<Rightarrow> json \<Rightarrow> exn + bool" where
  "int_reaches current (JInt i) = Inr (i \<le> current)"
| "int_reaches current (JFloat q) = Inr (q \<le> of_int current)"
| "int_reaches current (JBool b) = Inr ((if b then 1 else 0) \<le> current)"
| "int_reaches _ _ = Inl (type_error ''not supported between these instances'')"

record qe_info =
  qi_plan :: string
  qi_scope :: string
  qi_usage_type :: string
  qi_limits :: json
  qi_current_usage :: "(string, int) dict"
  qi_remaining :: "(string, json) dict"
  qi_rate_limit :: "(bool \<times> json \<times> json) option"

datatype qe_answer = QeError string | QeInfo qe_info

text \<open>The loop over the quotas: the entries seen so far, and whether one was exceeded.\<close>

fun qe_check_each ::
  "(string, int) dict \<Rightarrow> (string \<times> json) list \<Rightarrow> (string, json) dict \<Rightarrow> exn + bool \<times> (string, json) dict" where
  "qe_check_each usage [] remaining = Inr (True, remaining)"
| "qe_check_each usage ((quota_type, limit) # rest) remaining =
     (let current = dget_or 0 usage quota_type
      in ebind (py_remaining limit current) (\<lambda>r.
           (let remaining1 = dset quota_type r remaining
            in ebind (int_reaches current limit) (\<lambda>exceeded.
                 if exceeded then Inr (False, remaining1) else qe_check_each usage rest remaining1))))"

definition qe_check_quota ::
  "(string \<Rightarrow> rat option) \<Rightarrow> exn option \<Rightarrow> qe_db \<Rightarrow> rat \<Rightarrow> string \<Rightarrow> string \<Rightarrow> string \<Rightarrow> string \<Rightarrow>
   (string, tbr_entry) dict \<Rightarrow> (bool \<times> qe_answer) \<times> (string, tbr_entry) dict" where
  "qe_check_quota tonumber redis_error db time tenant_id plan scope usage_type st =
     (let plan_quotas = qe_get_plan_quotas db plan;
          failed = ((True, QeError ''Quota check failed''), st)
      in if \<not> py_truth plan_quotas then ((False, QeError ''Plan not found''), st)
         else
           (let current_usage = qe_get_current_usage db tenant_id;
                info = \<lparr>qi_plan = plan, qi_scope = scope, qi_usage_type = usage_type, qi_limits = plan_quotas,
                        qi_current_usage = current_usage, qi_remaining = [], qi_rate_limit = None\<rparr>
            in case ebind (py_items plan_quotas) (\<lambda>items. qe_check_each current_usage items []) of
                 Inl _ \<Rightarrow> failed
               | Inr (all_ok, remaining) \<Rightarrow>
                   (let info1 = info\<lparr>qi_remaining := remaining\<rparr>
                    in if \<not> all_ok then ((False, QeInfo info1), st)
                       else
                         (case ebind (py_get plan_quotas ''rate_limits'' (JDict [])) (\<lambda>rate_limit_config.
                                 py_get rate_limit_config scope (JDict [])) of
                            Inl _ \<Rightarrow> failed
                          | Inr scope_config \<Rightarrow>
                              if \<not> py_truth scope_config then ((True, QeInfo info1), st)
                              else
                                (case (py_get scope_config ''capacity'' (JInt 1000),
                                       py_get scope_config ''tokens_per_interval'' (JInt 100),
                                       py_get scope_config ''interval_seconds'' (JInt 60)) of
                                   (Inr capacity, Inr tokens, Inr interval) \<Rightarrow>
                                     (case tbr_is_allowed tonumber redis_error time tenant_id plan scope
                                             capacity tokens interval st of
                                        ((is_allowed, remaining_tokens, cap), st1) \<Rightarrow>
                                          ((is_allowed, QeInfo (info1\<lparr>qi_rate_limit :=
                                              Some (is_allowed, remaining_tokens, cap)\<rparr>)), st1))
                                 | _ \<Rightarrow> failed)))))"

text \<open>\<open>increment_usage\<close>: the name of the counter becomes part of the statement.\<close>

definition qe_increment_sql :: "string \<Rightarrow> string" where
  "qe_increment_sql usage_type =
     ''INSERT INTO usage_counters (tenant_id, day, '' @ usage_type @ '') VALUES (:tenant_id, :day, :amount) '' @
     ''ON CONFLICT (tenant_id, day) DO UPDATE SET '' @ usage_type @ '' = usage_counters.'' @ usage_type @ '' + :amount''"

definition qe_increment_usage ::
  "(string \<Rightarrow> string \<Rightarrow> int \<Rightarrow> 'w \<Rightarrow> (exn + unit) \<times> 'w) \<Rightarrow> string \<Rightarrow> string \<Rightarrow> int \<Rightarrow> 'w \<Rightarrow> bool \<times> 'w" where
  "qe_increment_usage execute tenant_id usage_type amount w =
     (case execute (qe_increment_sql usage_type) tenant_id amount w of
        (Inr _, w1) \<Rightarrow> (True, w1) | (Inl _, w1) \<Rightarrow> (False, w1))"

section \<open>The quota enforcer over SQL\<close>

text \<open>
  A statement as the code builds it: the argument of \<open>select\<close> and those of \<open>where\<close>, which are texts.
  \<open>db\<close> answers a statement with the first row, if any, or raises; building it may raise as well.
\<close>

datatype sql_stmt = Select string "string list"

definition tenant_stmt :: sql_stmt where
  "tenant_stmt = Select ''tenants'' [''tenants.id == tenant_id'']"

definition plan_stmt :: sql_stmt where
  "plan_stmt = Select ''plans'' [''plans.id == tenant.plan'']"

definition message_stmt :: sql_stmt where
  "message_stmt = Select ''count(messages.id)'' [''messages.tenant_id == tenant_id'', ''messages.created_at >= month_start'']"

definition customer_stmt :: sql_stmt where
  "customer_stmt = Select ''count(customers.id)'' [''customers.tenant_id == tenant_id'']"

definition agent_stmt :: sql_stmt where
  "agent_stmt = Select ''count(users.id)''
     [''users.tenant_id == tenant_id'',
      ''users.role.in_(['' @ [CHR 0x27] @ ''agent'' @ [CHR 0x27] @ '', '' @ [CHR 0x27] @ ''admin'' @ [CHR 0x27] @ ''])'']"

type_synonym sql_db = "sql_stmt \<Rightarrow> exn + json option"

record quota_check =
  qc_allowed :: bool
  qc_reason :: string
  qc_quota_type :: string
  qc_current_usage :: int
  qc_quota_limit :: json

definition quota_answer :: "bool \<Rightarrow> string \<Rightarrow> string \<Rightarrow> int \<Rightarrow> json \<Rightarrow> quota_check" where
  "quota_answer allowed reason quota_type current_usage limit =
     \<lparr>qc_allowed = allowed, qc_reason = reason, qc_quota_type = quota_type, qc_current_usage = current_usage,
      qc_quota_limit = limit\<rparr>"

text \<open>\<open>x == 0\<close>.\<close>

fun py_is_zero :: "json \<Rightarrow> bool" where
  "py_is_zero (JInt i) \<longleftrightarrow> i = 0"
| "py_is_zero (JFloat q) \<longleftrightarrow> q = 0"
| "py_is_zero (JBool b) \<longleftrightarrow> \<not> b"
| "py_is_zero _ \<longleftrightarrow> False"

text \<open>A row of \<open>plans\<close> is given by its column \<open>quotas\<close>.\<close>

definition qs_check_quota :: "sql_db \<Rightarrow> string \<Rightarrow> int \<Rightarrow> quota_check" where
  "qs_check_quota db quota_type current_usage =
     (let answer = quota_answer
      in case db tenant_stmt of
           Inl _ \<Rightarrow> answer False ''Quota check failed'' quota_type current_usage (JInt 0)
         | Inr None \<Rightarrow> answer False ''Tenant not found'' quota_type current_usage (JInt 0)
         | Inr (Some _) \<Rightarrow>
             (case db plan_stmt of
                Inl _ \<Rightarrow> answer False ''Quota check failed'' quota_type current_usage (JInt 0)
              | Inr None \<Rightarrow> answer False ''Plan not found'' quota_type current_usage (JInt 0)
              | Inr (Some quotas) \<Rightarrow>
                  (case py_get quotas quota_type (JInt 0) of
                     Inl _ \<Rightarrow> answer False ''Quota check failed'' quota_type current_usage (JInt 0)
                   | Inr limit \<Rightarrow>
                       if py_is_zero limit then answer True ''Unlimited quota'' quota_type current_usage (JInt (- 1))
                       else
                         (case int_reaches current_usage limit of
                            Inl _ \<Rightarrow> answer False ''Quota check failed'' quota_type current_usage (JInt 0)
                          | Inr True \<Rightarrow> answer False ''Quota exceeded'' quota_type current_usage limit
                          | Inr False \<Rightarrow> answer True ''Within quota'' quota_type current_usage limit))))"

text \<open>\<open>result.scalar() or 0\<close> of a count, 0 for any error.\<close>

definition qs_count :: "sql_db \<Rightarrow> sql_stmt \<Rightarrow> int" where
  "qs_count db stmt = (case db stmt of Inr (Some (JInt i)) \<Rightarrow> i | _ \<Rightarrow> 0)"

definition qs_get_current_usage :: "sql_db \<Rightarrow> string \<Rightarrow> int" where
  "qs_get_current_usage db quota_type =
     (if quota_type = ''max_messages_per_month'' then qs_count db message_stmt
      else if quota_type = ''max_customers'' then qs_count db customer_stmt
      else if quota_type = ''max_agents'' then qs_count db agent_stmt
      else 0)"

definition qs_enforce_quota :: "sql_db \<Rightarrow> string \<Rightarrow> bool" where
  "qs_enforce_quota db quota_type = qc_allowed (qs_check_quota db quota_type (qs_get_current_usage db quota_type))"

definition qs_quota_types :: "string list" where
  "qs_quota_types = [''max_messages_per_month'', ''max_customers'', ''max_agents'', ''max_storage_mb'']"

definition qs_get_quota_status :: "sql_db \<Rightarrow> (string, quota_check) dict" where
  "qs_get_quota_status db =
     map (\<lambda>ty. (ty, qs_check_quota db ty (qs_get_current_usage db ty))) qs_quota_types"

section \<open>What a bucket admits\<close>

text \<open>A bucket with its parameters: capacity, tokens per interval and interval, and its entry.\<close>

type_synonym tbr_bucket = "(rat \<times> rat \<times> rat) \<times> tbr_entry"

definition tbr_admits :: "rat \<Rightarrow> tbr_bucket \<Rightarrow> bool \<times> tbr_bucket" where
  "tbr_admits now = (\<lambda>((c, n, i), e).
     (case tbr_script c n i now (Some e) of ((b, _), e') \<Rightarrow> (b, ((c, n, i), e'))))"

definition tbr_inv :: "tbr_bucket \<Rightarrow> bool" where
  "tbr_inv = (\<lambda>((c, n, i), (k, l, x)). 0 < i \<and> 0 \<le> n \<and> 0 \<le> k \<and> k \<le> c \<and> x = l + 3600 \<and> c \<le> n / i * 3600)"

lemma floor_refill:
  fixes d i n :: rat
  assumes "0 < i" "0 \<le> n" "0 \<le> d"
  shows "0 \<le> of_int \<lfloor>d / i\<rfloor> * n" "of_int \<lfloor>d / i\<rfloor> * n \<le> n / i * d"
proof -
  have "0 \<le> \<lfloor>d / i\<rfloor>" using assms by simp
  then show "0 \<le> of_int \<lfloor>d / i\<rfloor> * n" using assms by (simp add: mult_nonneg_nonneg)
  have "of_int \<lfloor>d / i\<rfloor> * n \<le> (d / i) * n" using assms by (intro mult_right_mono) simp_all
  then show "of_int \<lfloor>d / i\<rfloor> * n \<le> n / i * d" by (simp add: ac_simps)
qed

lemma tbr_admits_spec:
  assumes "tbr_inv ((c, n, i), (k, l, x))" and "l \<le> t" and "tbr_admits t ((c, n, i), (k, l, x)) = (b, s')"
  shows "\<exists>k'. s' = ((c, n, i), (k', t, t + 3600)) \<and> 0 \<le> k' \<and> k' \<le> c \<and>
    k' + (if b then 1 else 0) \<le> k + n / i * (t - l)"
proof -
  define refilled where "refilled = (if t < x then min c (k + of_int \<lfloor>(t - l) / i\<rfloor> * n) else c)"
  have i: "0 < i" "0 \<le> n" "0 \<le> t - l" using assms(1,2) by (simp_all add: tbr_inv_def)
  have "tbr_admits t ((c, n, i), (k, l, x)) =
      (1 \<le> refilled, ((c, n, i), (if 1 \<le> refilled then refilled - 1 else refilled, t, t + 3600)))"
    using i(1) assms(1) by (auto simp: tbr_admits_def tbr_script_def Let_def refilled_def tbr_inv_def)
  moreover have "refilled \<le> k + n / i * (t - l)"
  proof (cases "t < x")
    case True
    then show ?thesis using floor_refill(2) [OF i] by (simp add: refilled_def)
  next
    case False
    then have "n / i * 3600 \<le> n / i * (t - l)"
      using i assms(1) by (intro mult_left_mono) (simp_all add: tbr_inv_def)
    then show ?thesis using False assms(1) by (simp add: refilled_def tbr_inv_def)
  qed
  moreover have "0 \<le> refilled" "refilled \<le> c"
    using floor_refill(1) [OF i] assms(1) by (simp_all add: refilled_def tbr_inv_def)
  ultimately show ?thesis using assms(3) by (auto split: if_splits)
qed

interpretation tbr: token_limiter tbr_admits "\<lambda>(_, (k, l, x)). k" "\<lambda>(_, (k, l, x)). l"
  "\<lambda>((c, n, i), _). n / i" "\<lambda>((c, n, i), _). c" "\<lambda>_. 1" tbr_inv
proof (unfold_locales, goal_cases)
  case (1 s t b s')
  obtain c n i k l x where s: "s = ((c, n, i), (k, l, x))" by (metis prod.exhaust)
  from tbr_admits_spec [of c n i k l x t b s'] 1 show ?case by (auto simp: s tbr_inv_def)
next
  case (2 t s b s')
  then show ?case by (auto simp: tbr_admits_def tbr_script_def Let_def split: prod.splits if_splits)
next
  case (3 t s b s')
  then show ?case by (auto simp: tbr_admits_def split: prod.splits)
next
  case (4 s t b s')
  obtain c n i k l x where s: "s = ((c, n, i), (k, l, x))" by (metis prod.exhaust)
  from tbr_admits_spec [of c n i k l x t b s'] 4 show ?case by (auto simp: s)
next
  case (5 s)
  then show ?case by (auto simp: tbr_inv_def)
qed

section \<open>Properties\<close>

text \<open>Requests that follow one another, and the time \<open>l\<close>, at distances below \<open>gap\<close>.\<close>

fun steady :: "rat \<Rightarrow> rat \<Rightarrow> rat list \<Rightarrow> bool" where
  "steady gap l [] \<longleftrightarrow> True"
| "steady gap l (t # ts) \<longleftrightarrow> l \<le> t \<and> t < l + gap \<and> steady gap t ts"

lemma tbr_admits_steady:
  assumes "0 < i" "k \<le> c" "l \<le> t" "t < l + min i 3600"
  shows "tbr_admits t ((c, n, i), (k, l, l + 3600)) =
    (1 \<le> k, ((c, n, i), (if 1 \<le> k then k - 1 else k, t, t + 3600)))"
proof -
  have "\<lfloor>(t - l) / i\<rfloor> = 0"
    using assms by (intro floor_unique) (simp_all add: divide_less_eq)
  moreover have "t < l + 3600" using assms(4) by (simp add: min_def split: if_splits)
  ultimately show ?thesis using assms(1,2) by (simp add: tbr_admits_def tbr_script_def Let_def min_def)
qed

text \<open>
  A steady client is starved. Every call moves \<open>last_refill\<close> to the present, refilling or not; so
  when calls follow one another faster than the interval of the bucket, no token is ever added: of any
  number of calls exactly as many are admitted as there were tokens at the start, and none after that,
  whatever rate the bucket was configured for.
\<close>

theorem tbr_steady_client_starves:
  assumes "0 < i" and "0 \<le> k" and "k \<le> c" and "steady (min i 3600) l ts"
    and "admitted_count tbr_admits ts ((c, n, i), (k, l, l + 3600)) = (m, s')"
  shows "m = min (length ts) (nat \<lfloor>k\<rfloor>)"
  using assms
proof (induction ts arbitrary: k l m s')
  case (Cons t ts)
  note step = tbr_admits_steady [OF \<open>0 < i\<close> \<open>k \<le> c\<close>, of l t n]
  show ?case
  proof (cases "1 \<le> k")
    case True
    obtain m1 s1 where rest: "admitted_count tbr_admits ts ((c, n, i), (k - 1, t, t + 3600)) = (m1, s1)"
      by (rule prod.exhaust)
    have "m1 = min (length ts) (nat \<lfloor>k - 1\<rfloor>)"
      using Cons.IH [of "k - 1" t m1 s1] Cons.prems True rest by simp
    moreover have "nat \<lfloor>k\<rfloor> = Suc (nat \<lfloor>k - 1\<rfloor>)" using True by simp linarith
    ultimately show ?thesis using Cons.prems(4,5) step True rest by simp
  next
    case False
    obtain m1 s1 where rest: "admitted_count tbr_admits ts ((c, n, i), (k, t, t + 3600)) = (m1, s1)"
      by (rule prod.exhaust)
    have "m1 = min (length ts) (nat \<lfloor>k\<rfloor>)"
      using Cons.IH [of k t m1 s1] Cons.prems rest by simp
    moreover have "\<lfloor>k\<rfloor> = 0" using False Cons.prems(2) by (intro floor_unique) simp_all
    ultimately show ?thesis using Cons.prems(4,5) step False rest by simp
  qed
qed simp

theorem tbr_steady_client_starves_witness:
  "fst (admitted_count tbr_admits [1, 2, 3] ((2, 100, 60), (2, 0, 0 + 3600))) = 2"
proof -
  obtain m s' where run: "admitted_count tbr_admits [1, 2, 3] ((2, 100, 60), (2, 0, 0 + 3600)) = (m, s')"
    by (rule prod.exhaust)
  with tbr_steady_client_starves [OF _ _ _ _ run] show ?thesis by simp
qed

lemma tbr_bound:
  assumes "tbr_inv ((c, n, i), (k, l, x))" and "sorted (l # ts)"
    and "admitted_count tbr_admits ts ((c, n, i), (k, l, x)) = (m, s')"
  shows "of_nat m \<le> c + n / i * (last (l # ts) - l)"
  using tbr.admitted_bound [OF assms(1), of ts m s'] assms(2,3) by simp

definition is_number :: "json \<Rightarrow> bool" where
  "is_number v \<longleftrightarrow> (\<exists>b. v = JBool b) \<or> (\<exists>i. v = JInt i) \<or> (\<exists>q. v = JFloat q)"

fun number_of :: "json \<Rightarrow> rat" where
  "number_of (JBool b) = (if b then 1 else 0)"
| "number_of (JInt i) = of_int i"
| "number_of (JFloat q) = q"
| "number_of _ = 0"

lemma number_steps:
  assumes "is_number v"
  shows "\<exists>r. py_remaining v u = Inr r" "int_reaches u v = Inr (number_of v \<le> of_int u)"
  using assms by (auto simp: is_number_def)

lemma not_number_raises: "\<not> is_number v \<Longrightarrow> \<exists>e. py_remaining v u = Inl e"
  by (cases v) (auto simp: is_number_def)

text \<open>The quotas that are compared: those before the first that is no number.\<close>

definition compared :: "(string \<times> json) list \<Rightarrow> (string \<times> json) list" where
  "compared = takeWhile (\<lambda>(_, v). is_number v)"

definition exceeded :: "(string, int) dict \<Rightarrow> (string \<times> json) list \<Rightarrow> bool" where
  "exceeded usage d \<longleftrightarrow> (\<exists>(k, v) \<in> set (compared d). number_of v \<le> of_int (dget_or 0 usage k))"

lemma check_each_cases:
  "if exceeded usage d then \<exists>r. qe_check_each usage d rem = Inr (False, r)
   else if list_all (\<lambda>(_, v). is_number v) d then \<exists>r. qe_check_each usage d rem = Inr (True, r)
   else \<exists>e. qe_check_each usage d rem = Inl e"
proof (induction d arbitrary: rem)
  case Nil
  show ?case by (simp add: exceeded_def compared_def)
next
  case (Cons x d)
  obtain k v where x: "x = (k, v)" by (rule prod.exhaust)
  show ?case
  proof (cases "is_number v")
    case True
    obtain r where r: "py_remaining v (dget_or 0 usage k) = Inr r" using number_steps(1) [OF True] by blast
    have "exceeded usage (x # d) \<longleftrightarrow> number_of v \<le> of_int (dget_or 0 usage k) \<or> exceeded usage d"
      using True by (auto simp: exceeded_def compared_def x)
    then show ?thesis using Cons.IH [of "dset k r rem"] True
      by (auto simp: x Let_def r number_steps(2) split: if_splits)
  next
    case False
    then obtain e where "py_remaining v (dget_or 0 usage k) = Inl e" using not_number_raises by blast
    with False show ?thesis by (simp add: x Let_def exceeded_def compared_def)
  qed
qed

text \<open>
  What the quota check decides. With the quotas of a plan at hand, the answer is no exactly if one of
  the quotas before the first that is no number is used up. The buckets in Redis are never touched and the
  answer does not depend on them: a plan with rate limits holds a dict among its quotas, on which the
  comparison raises, and the check then fails open.
\<close>

theorem qe_check_quota_decides:
  assumes "qd_plan_quotas db plan = Inr (Some (JDict d))" and "d \<noteq> []"
  shows "\<exists>answer. qe_check_quota tonumber redis_error db time tenant_id plan scope usage_type st =
    ((\<not> exceeded (qe_get_current_usage db tenant_id) d, answer), st)"
proof -
  let ?u = "qe_get_current_usage db tenant_id"
  have plan: "qe_get_plan_quotas db plan = JDict d" using assms(1) by (simp add: qe_get_plan_quotas_def)
  note run = qe_check_quota_def Let_def plan
  show ?thesis
  proof (cases "qe_check_each ?u d []")
    case (Inl e)
    then have "\<not> exceeded ?u d" using check_each_cases [of ?u d "[]"] by (auto split: if_splits)
    then show ?thesis using assms(2) Inl by (simp add: run)
  next
    case (Inr res)
    obtain ok r where res: "res = (ok, r)" by (rule prod.exhaust)
    have ok: "ok \<longleftrightarrow> \<not> exceeded ?u d" "ok \<Longrightarrow> list_all (\<lambda>(_, v). is_number v) d"
      using check_each_cases [of ?u d "[]"] Inr res by (auto split: if_splits)
    show ?thesis
    proof (cases ok)
      case False
      then show ?thesis using assms(2) Inr res ok by (simp add: run)
    next
      case True
      have "dget_or (JDict []) d ''rate_limits'' = JDict [] \<or> is_number (dget_or (JDict []) d ''rate_limits'')"
        using ok(2) [OF True] by (auto simp: dget_or_def list_all_iff dest!: map_of_SomeD split: option.split)
      then show ?thesis using True assms(2) Inr res ok(1)
        by (auto simp: run is_number_def dget_or_def)
    qed
  qed
qed

text \<open>A plan with limits for tokens and a rate limit; the bucket of the scope is empty, the call is admitted.\<close>

definition demo_plan :: "(string \<times> json) list" where
  "demo_plan = [(''tokens_in'', JInt 1000), (''rate_limits'', JDict [(''api'', JDict [(''capacity'', JInt 5)])])]"

definition demo_quota_db :: qe_db where
  "demo_quota_db = \<lparr>qd_plan_quotas = (\<lambda>_. Inr (Some (JDict demo_plan))),
     qd_usage = (\<lambda>_. Inr (Some [Some 10, None, None, None, None]))\<rparr>"

theorem qe_check_quota_decides_witness:
  "\<exists>answer. qe_check_quota (\<lambda>_. None) None demo_quota_db 100 ''t'' ''pro'' ''api'' ''tokens_in''
       [(tbr_key ''t'' ''pro'' ''api'', (0, 99, 3699))] =
     ((True, answer), [(tbr_key ''t'' ''pro'' ''api'', (0, 99, 3699))])"
proof -
  have "\<not> exceeded (qe_get_current_usage demo_quota_db ''t'') demo_plan"
    by (simp add: exceeded_def compared_def demo_plan_def is_number_def demo_quota_db_def qe_get_current_usage_def
      qe_usage_types_def dget_or_def)
  then show ?thesis
    using qe_check_quota_decides [of demo_quota_db "''pro''" demo_plan "\<lambda>_. None" None 100 "''t''" "''api''"
      "''tokens_in''" "[(tbr_key ''t'' ''pro'' ''api'', (0, 99, 3699))]"]
    by (simp add: demo_quota_db_def demo_plan_def)
qed

end
