(* ===== verification/Hedging.thy ===== *)
theory Hedging
  imports Interfaces Json
begin

text \<open>
  \<^verbatim>\<open>libs/clients/http/request_hedging.py\<close>: one logical request is sent to several URLs.

  The module declares the enum \<open>HedgingResult\<close> and then a dataclass of the same name, which takes the
  place of the enum: \<open>HedgingResult.FIRST_WIN\<close> is a lookup on the dataclass and raises. \<open>hg_member\<close> is this
  lookup; its first argument says whether the name still means the enum, which it does not in the
  module (\<open>hedging_result_is_enum\<close>). The lemmas about the strategies are proved for both readings.

  Parameters: the HTTP client, and for the parallel strategy the tasks of the event loop.
\<close>

section \<open>Data\<close>

datatype hedging_strategy = HG_PARALLEL | HG_STAGGERED | HG_ADAPTIVE

datatype hedging_kind = HG_FIRST_WIN | HG_HEDGE_WIN | HG_CANCELLED | HG_ALL_FAILED

record hg_config =
  hgc_max_parallel_requests :: int
  hgc_hedge_delay_ms :: rat
  hgc_timeout_ms :: rat
  hgc_cancel_others_on_first_success :: bool
  hgc_strategy :: hedging_strategy
  hgc_max_cost_multiplier :: rat

definition hg_default_config :: hg_config where
  "hg_default_config = \<lparr>hgc_max_parallel_requests = 2, hgc_hedge_delay_ms = 50, hgc_timeout_ms = 5000,
     hgc_cancel_others_on_first_success = True, hgc_strategy = HG_STAGGERED, hgc_max_cost_multiplier = 3 / 2\<rparr>"

record hg_request =
  hgr_request_id :: string
  hgr_url :: string
  hgr_method :: string
  hgr_headers :: "(string, string) dict"
  hgr_data :: json
  hgr_timeout :: rat
  hgr_created_at :: rat
  hgr_cancelled :: bool

record hg_response =
  hgp_request_id :: string
  hgp_status_code :: int
  hgp_data :: "string option"
  hgp_latency_ms :: rat
  hgp_success :: bool
  hgp_error :: "string option"

record hg_result =
  hgt_result_type :: hedging_kind
  hgt_winning_response :: "hg_response option"
  hgt_all_responses :: "hg_response list"
  hgt_total_latency_ms :: rat
  hgt_cost_multiplier :: rat
  hgt_hedged_requests_count :: int

record hg =
  hg_config :: hg_config
  hg_active_requests :: "(string, hg_request list) dict"
  hg_total :: int
  hg_first_wins :: int
  hg_hedge_wins :: int
  hg_cancelled :: int
  hg_all_failed :: int
  hg_total_cost_savings :: rat

definition hg_init :: hg where
  "hg_init = \<lparr>hg_config = hg_default_config, hg_active_requests = [], hg_total = 0, hg_first_wins = 0,
     hg_hedge_wins = 0, hg_cancelled = 0, hg_all_failed = 0, hg_total_cost_savings = 0\<rparr>"

definition no_member :: exn where
  "no_member = attribute_error ''type object HedgingResult has no attribute''"

definition hg_member :: "bool \<Rightarrow> hedging_kind \<Rightarrow> exn + hedging_kind" where
  "hg_member enum k = (if enum then Inr k else Inl no_member)"

definition hedging_result_is_enum :: bool where "hedging_result_is_enum = False"

section \<open>One request\<close>

text \<open>A client from the factory answers with a status; the default client with a status and a body.\<close>

datatype 'w hg_client =
    HgFactory "hg_request \<Rightarrow> ('w, int) coro"
  | HgAiohttp "hg_request \<Rightarrow> ('w, int \<times> string) coro"

definition hg_failed_response :: "hg_request \<Rightarrow> exn \<Rightarrow> hg_response" where
  "hg_failed_response r e =
     (if is_timeout e
      then \<lparr>hgp_request_id = hgr_request_id r, hgp_status_code = 408, hgp_data = None,
            hgp_latency_ms = hgr_timeout r * 1000, hgp_success = False, hgp_error = Some ''Request timeout''\<rparr>
      else \<lparr>hgp_request_id = hgr_request_id r, hgp_status_code = 500, hgp_data = None,
            hgp_latency_ms = 0, hgp_success = False, hgp_error = Some (message e)\<rparr>)"

text \<open>The branch of the factory does not bind \<open>response_data\<close>, which is read afterwards.\<close>

definition unbound_response_data :: exn where
  "unbound_response_data = Exn [''UnboundLocalError'', ''NameError'', ''Exception''] ''response_data''"

definition hg_execute_single_request :: "'w hg_client \<Rightarrow> hg_request \<Rightarrow> ('w, hg_response) coro" where
  "hg_execute_single_request client r dl t w =
     (case (case client of
              HgFactory send \<Rightarrow> co_bind (send r) (\<lambda>_. co_raise unbound_response_data) dl t w
            | HgAiohttp send \<Rightarrow> send r dl t w) of
        (Ok (status, body), t1, w1) \<Rightarrow>
          (Ok \<lparr>hgp_request_id = hgr_request_id r, hgp_status_code = status, hgp_data = Some body,
               hgp_latency_ms = (t1 - t) * 1000, hgp_success = (200 \<le> status \<and> status < 300), hgp_error = None\<rparr>,
           t1, w1)
      | (Raise e, t1, w1) \<Rightarrow> (Ok (hg_failed_response r e), t1, w1)
      | (Cancelled, t1, w1) \<Rightarrow> (Cancelled, t1, w1))"

fun hg_create_requests ::
  "rat \<Rightarrow> hg \<Rightarrow> string \<Rightarrow> nat \<Rightarrow> string list \<Rightarrow> string \<Rightarrow> (string, string) dict option \<Rightarrow> json \<Rightarrow> rat option \<Rightarrow>
   hg_request list" where
  "hg_create_requests now h hedging_id i [] method headers data timeout = []"
| "hg_create_requests now h hedging_id i (url # urls) method headers data timeout =
     \<lparr>hgr_request_id = hedging_id @ ''_'' @ nat_str i, hgr_url = url, hgr_method = method,
      hgr_headers = (case headers of None \<Rightarrow> [] | Some d \<Rightarrow> d), hgr_data = data,
      hgr_timeout = (case timeout of Some q \<Rightarrow> if q = 0 then hgc_timeout_ms (hg_config h) / 1000 else q
                     | None \<Rightarrow> hgc_timeout_ms (hg_config h) / 1000),
      hgr_created_at = now, hgr_cancelled = False\<rparr> #
     hg_create_requests now h hedging_id (Suc i) urls method headers data timeout"

section \<open>The strategies\<close>

definition hg_outcome :: "hedging_kind \<Rightarrow> hg_response option \<Rightarrow> hg_response list \<Rightarrow> nat \<Rightarrow> hg_result" where
  "hg_outcome k winner responses n =
     \<lparr>hgt_result_type = k, hgt_winning_response = winner, hgt_all_responses = responses,
      hgt_total_latency_ms = 0, hgt_cost_multiplier = of_nat n, hgt_hedged_requests_count = int n\<rparr>"

definition hg_skipped :: "hg_request \<Rightarrow> hg_response" where
  "hg_skipped r = \<lparr>hgp_request_id = hgr_request_id r, hgp_status_code = 0, hgp_data = None, hgp_latency_ms = 0,
     hgp_success = False, hgp_error = Some ''Cancelled due to earlier success''\<rparr>"

definition hg_mark_cancelled :: "string \<Rightarrow> nat \<Rightarrow> hg \<Rightarrow> hg" where
  "hg_mark_cancelled hedging_id i h =
     (case dget (hg_active_requests h) hedging_id of
        None \<Rightarrow> h
      | Some rs \<Rightarrow> h\<lparr>hg_active_requests := dset hedging_id (rs[i := (rs ! i)\<lparr>hgr_cancelled := True\<rparr>])
                      (hg_active_requests h)\<rparr>)"

type_synonym hg_progress = "hg_response list \<times> hg_response option \<times> hedging_kind"

fun hg_staggered_loop ::
  "bool \<Rightarrow> (hg \<times> 'w) hg_client \<Rightarrow> string \<Rightarrow> nat \<Rightarrow> hg_request list \<Rightarrow> hg_progress \<Rightarrow> (hg \<times> 'w, hg_progress) coro" where
  "hg_staggered_loop enum client hedging_id i [] p dl t v = (Ok p, t, v)"
| "hg_staggered_loop enum client hedging_id i (r # rs) (responses, winner, k) dl t v =
     (case (if 0 < i then sleep (hgc_hedge_delay_ms (hg_config (fst v)) / 1000) dl t v else (Ok (), t, v)) of
        (Ok _, t1, v1) \<Rightarrow>
          (if winner \<noteq> None \<and> hgc_cancel_others_on_first_success (hg_config (fst v1)) then
             hg_staggered_loop enum client hedging_id (Suc i) rs (responses @ [hg_skipped r], winner, k) dl t1
               (hg_mark_cancelled hedging_id i (fst v1), snd v1)
           else
             (case hg_execute_single_request client r dl t1 v1 of
                (Ok response, t2, v2) \<Rightarrow>
                  (if hgp_success response \<and> winner = None then
                     (case hg_member enum (if i = 0 then HG_FIRST_WIN else HG_HEDGE_WIN) of
                        Inl e \<Rightarrow> (Raise e, t2, v2)
                      | Inr k1 \<Rightarrow> hg_staggered_loop enum client hedging_id (Suc i) rs
                                   (responses @ [response], Some response, k1) dl t2 v2)
                   else hg_staggered_loop enum client hedging_id (Suc i) rs (responses @ [response], winner, k) dl t2 v2)
              | (Raise e, t2, v2) \<Rightarrow> (Raise e, t2, v2)
              | (Cancelled, t2, v2) \<Rightarrow> (Cancelled, t2, v2)))
      | (Raise e, t1, v1) \<Rightarrow> (Raise e, t1, v1)
      | (Cancelled, t1, v1) \<Rightarrow> (Cancelled, t1, v1))"

text \<open>
  A strategy that raises builds a result of kind \<open>ALL_FAILED\<close>, which looks the member up once more. Of the
  enum no lookup fails, and then nothing in the strategies raises.
\<close>

definition hg_execute_staggered_hedging ::
  "bool \<Rightarrow> (hg \<times> 'w) hg_client \<Rightarrow> string \<Rightarrow> hg_request list \<Rightarrow> (hg \<times> 'w, hg_result) coro" where
  "hg_execute_staggered_hedging enum client hedging_id requests =
     co_catch
       (co_bind (co_lift (hg_member enum HG_ALL_FAILED)) (\<lambda>k.
        co_bind (hg_staggered_loop enum client hedging_id 0 requests ([], None, k)) (\<lambda>(responses, winner, k1).
          co_return (hg_outcome k1 winner responses (length requests)))))
       (\<lambda>_. co_bind (co_lift (hg_member enum HG_ALL_FAILED)) (\<lambda>k.
              co_return (hg_outcome k None [] (length requests))))"

definition hg_execute_adaptive_hedging ::
  "bool \<Rightarrow> (hg \<times> 'w) hg_client \<Rightarrow> string \<Rightarrow> hg_request list \<Rightarrow> (hg \<times> 'w, hg_result) coro" where
  "hg_execute_adaptive_hedging enum client hedging_id requests =
     co_catch (hg_execute_staggered_hedging enum client hedging_id requests)
       (\<lambda>_. co_bind (co_lift (hg_member enum HG_ALL_FAILED)) (\<lambda>k.
              co_return (hg_outcome k None [] (length requests))))"

text \<open>
  \<open>together b rs\<close> runs the tasks of all requests: with \<open>b\<close> until the first success, which cancels the rest,
  and gives the responses in the order of completion; without \<open>b\<close> to the end, in the order of the requests.
\<close>

definition hg_execute_parallel_hedging ::
  "bool \<Rightarrow> (bool \<Rightarrow> hg_request list \<Rightarrow> (hg \<times> 'w, hg_response list) coro) \<Rightarrow> hg_request list \<Rightarrow>
   (hg \<times> 'w, hg_result) coro" where
  "hg_execute_parallel_hedging enum together requests =
     co_catch
       (\<lambda>dl t v.
         co_bind (together (hgc_cancel_others_on_first_success (hg_config (fst v))) requests) (\<lambda>responses.
         co_bind (co_lift (hg_member enum (if find hgp_success responses \<noteq> None then HG_FIRST_WIN else HG_ALL_FAILED)))
           (\<lambda>k. co_return (hg_outcome k (find hgp_success responses) responses (length requests)))) dl t v)
       (\<lambda>_. co_bind (co_lift (hg_member enum HG_ALL_FAILED)) (\<lambda>k.
              co_return (hg_outcome k None [] (length requests))))"

section \<open>The manager\<close>

definition hg_update_stats :: "bool \<Rightarrow> hg_result \<Rightarrow> hg \<Rightarrow> hg" where
  "hg_update_stats enum result h =
     (let h1 = h\<lparr>hg_total := hg_total h + 1\<rparr>
      in if \<not> enum then h1
         else
           (let h2 = (case hgt_result_type result of
                        HG_FIRST_WIN \<Rightarrow> h1\<lparr>hg_first_wins := hg_first_wins h1 + 1\<rparr>
                      | HG_HEDGE_WIN \<Rightarrow> h1\<lparr>hg_hedge_wins := hg_hedge_wins h1 + 1\<rparr>
                      | HG_CANCELLED \<Rightarrow> h1\<lparr>hg_cancelled := hg_cancelled h1 + 1\<rparr>
                      | HG_ALL_FAILED \<Rightarrow> h1\<lparr>hg_all_failed := hg_all_failed h1 + 1\<rparr>)
            in case hgt_winning_response result of
                 None \<Rightarrow> h2
               | Some r \<Rightarrow> h2\<lparr>hg_total_cost_savings := hg_total_cost_savings h2 + hgp_latency_ms r * (1 / 1000)\<rparr>))"

text \<open>The tail of \<open>hedge_request\<close>: metrics, statistics and \<open>del self.active_requests[hedging_id]\<close>.\<close>

definition hg_settle :: "bool \<Rightarrow> string \<Rightarrow> rat \<Rightarrow> nat \<Rightarrow> hg_result \<Rightarrow> (hg \<times> 'w, hg_result) coro" where
  "hg_settle enum hedging_id start n result dl t = (\<lambda>(h, w).
     (let result1 = result\<lparr>hgt_total_latency_ms := (t - start) * 1000, hgt_hedged_requests_count := int n,
                           hgt_cost_multiplier := of_nat n\<rparr>;
          h1 = hg_update_stats enum result1 h
      in case dget (hg_active_requests h1) hedging_id of
           None \<Rightarrow> (Raise (key_error hedging_id), t, (h1, w))
         | Some _ \<Rightarrow> (Ok result1, t, (h1\<lparr>hg_active_requests := ddel hedging_id (hg_active_requests h1)\<rparr>, w))))"

definition hg_hedge_request ::
  "bool \<Rightarrow> (hg \<times> 'w) hg_client \<Rightarrow> (bool \<Rightarrow> hg_request list \<Rightarrow> (hg \<times> 'w, hg_response list) coro) \<Rightarrow> string \<Rightarrow>
   string list \<Rightarrow> string \<Rightarrow> (string, string) dict option \<Rightarrow> json \<Rightarrow> rat option \<Rightarrow> (hg \<times> 'w, hg_result) coro" where
  "hg_hedge_request enum client together hedging_id urls method headers data timeout =
     co_catch
       (\<lambda>dl t (h, w).
          (let requests = hg_create_requests t h hedging_id 0 urls method headers data timeout;
               h1 = h\<lparr>hg_active_requests := dset hedging_id requests (hg_active_requests h)\<rparr>;
               strategy = (case hgc_strategy (hg_config h1) of
                   HG_PARALLEL \<Rightarrow> hg_execute_parallel_hedging enum together requests
                 | HG_STAGGERED \<Rightarrow> hg_execute_staggered_hedging enum client hedging_id requests
                 | HG_ADAPTIVE \<Rightarrow> hg_execute_adaptive_hedging enum client hedging_id requests)
           in co_bind strategy (hg_settle enum hedging_id t (length requests)) dl t (h1, w)))
       (\<lambda>_. co_bind (co_lift (hg_member enum HG_ALL_FAILED)) (\<lambda>k.
              co_return \<lparr>hgt_result_type = k, hgt_winning_response = None, hgt_all_responses = [],
                hgt_total_latency_ms = 0, hgt_cost_multiplier = 1, hgt_hedged_requests_count = 0\<rparr>))"

definition hg_update_config :: "hg_config \<Rightarrow> hg \<Rightarrow> hg" where
  "hg_update_config c h = h\<lparr>hg_config := c\<rparr>"

definition hg_cancel_hedging_request :: "string \<Rightarrow> hg \<Rightarrow> bool \<times> hg" where
  "hg_cancel_hedging_request hedging_id h =
     (if dget (hg_active_requests h) hedging_id \<noteq> None
      then (True, h\<lparr>hg_active_requests := ddel hedging_id (hg_active_requests h)\<rparr>)
      else (False, h))"

record hg_stats =
  hgs_total_hedged_requests :: int
  hgs_first_wins :: int
  hgs_hedge_wins :: int
  hgs_cancelled_requests :: int
  hgs_all_failed :: int
  hgs_total_cost_savings :: rat
  hgs_first_win_rate :: rat
  hgs_hedge_win_rate :: rat
  hgs_success_rate :: rat

definition hg_get_stats :: "hg \<Rightarrow> hg_stats" where
  "hg_get_stats h =
     (let rate = (\<lambda>n. if 0 < hg_total h then of_int n / of_int (hg_total h) * 100 else 0)
      in \<lparr>hgs_total_hedged_requests = hg_total h, hgs_first_wins = hg_first_wins h,
          hgs_hedge_wins = hg_hedge_wins h, hgs_cancelled_requests = hg_cancelled h,
          hgs_all_failed = hg_all_failed h, hgs_total_cost_savings = hg_total_cost_savings h,
          hgs_first_win_rate = rate (hg_first_wins h), hgs_hedge_win_rate = rate (hg_hedge_wins h),
          hgs_success_rate = rate (hg_first_wins h + hg_hedge_wins h)\<rparr>)"

section \<open>Properties\<close>

lemma hg_member_simps [simp]: "hg_member True k = Inr k" "hg_member False k = Inl no_member"
  by (simp_all add: hg_member_def)

lemma shadowed_staggered: "hg_execute_staggered_hedging False client hedging_id requests = co_raise no_member"
  by (simp add: hg_execute_staggered_hedging_def)

lemma shadowed_adaptive: "hg_execute_adaptive_hedging False client hedging_id requests = co_raise no_member"
  by (simp add: hg_execute_adaptive_hedging_def shadowed_staggered)

lemma shadowed_parallel: "hg_execute_parallel_hedging False together requests dl t v = (Ok r, t', v') \<Longrightarrow> False"
  by (auto simp: hg_execute_parallel_hedging_def co_catch_def co_bind_def co_raise_def split: prod.splits outcome.splits)

text \<open>
  Hedging never answers. The members of the result enum are looked up on the dataclass that took its
  name, so \<open>hedge_request\<close> never returns a result. With the default strategy, and the adaptive one, it raises
  before any request is sent, leaves its statistics as they were, and the requests it registered as
  active stay registered.
\<close>

theorem hg_never_answers:
  "hg_hedge_request hedging_result_is_enum client together hedging_id urls method headers data timeout dl t (h, w) \<noteq>
     (Ok r, t', v') \<and>
   (hgc_strategy (hg_config h) = HG_PARALLEL \<or>
    hg_hedge_request hedging_result_is_enum client together hedging_id urls method headers data timeout dl t (h, w) =
      (Raise no_member, t,
       (h\<lparr>hg_active_requests := dset hedging_id
            (hg_create_requests t h hedging_id 0 urls method headers data timeout) (hg_active_requests h)\<rparr>, w)))"
proof (cases "hgc_strategy (hg_config h)")
  case HG_PARALLEL
  then show ?thesis
    by (auto simp: hg_hedge_request_def hedging_result_is_enum_def co_catch_def co_bind_def co_raise_def Let_def
      split: prod.splits outcome.splits dest: shadowed_parallel)
qed (simp_all add: hg_hedge_request_def hedging_result_is_enum_def co_catch_def co_bind_def co_raise_def Let_def
      shadowed_staggered shadowed_adaptive)

text \<open>A client from the factory never yields a success, whatever the server answers.\<close>

lemma hg_factory_never_succeeds:
  "hg_execute_single_request (HgFactory send) r dl t w = (Ok response, t', w') \<Longrightarrow> \<not> hgp_success response"
  by (auto simp: hg_execute_single_request_def co_bind_def co_raise_def hg_failed_response_def
    split: prod.splits outcome.splits if_splits)

text \<open>
  With the name meaning the enum, a staggered request sends to the next URL only after the previous answer,
  and once it has a success it still sleeps once for every URL that is left.
\<close>

lemma hg_mark_config [simp]: "hg_config (hg_mark_cancelled hedging_id i h) = hg_config h"
  by (simp add: hg_mark_cancelled_def split: option.split)

lemma staggered_after_success:
  assumes "hgc_cancel_others_on_first_success (hg_config h)" and "0 \<le> hgc_hedge_delay_ms (hg_config h)" and "0 < i"
  shows "\<exists>h'. hg_staggered_loop True client hedging_id i rs (responses, Some x, k) None t (h, w) =
    (Ok (responses @ map hg_skipped rs, Some x, k),
     t + of_nat (length rs) * (hgc_hedge_delay_ms (hg_config h) / 1000), (h', w))"
  using assms
proof (induction rs arbitrary: i responses t h)
  case (Cons r rs)
  let ?d = "hgc_hedge_delay_ms (hg_config h) / 1000"
  let ?h1 = "hg_mark_cancelled hedging_id i h"
  have "sleep ?d None t (h, w) = (Ok (), t + ?d, (h, w))"
    using Cons.prems(2) by (simp add: sleep_def)
  moreover obtain h' where "hg_staggered_loop True client hedging_id (Suc i) rs (responses @ [hg_skipped r], Some x, k) None
      (t + ?d) (?h1, w) = (Ok ((responses @ [hg_skipped r]) @ map hg_skipped rs, Some x, k),
      (t + ?d) + of_nat (length rs) * ?d, (h', w))"
    using Cons.IH [of ?h1 "Suc i" "responses @ [hg_skipped r]" "t + ?d"] Cons.prems by auto
  ultimately show ?case using Cons.prems by (simp add: algebra_simps add_divide_distrib)
qed simp

lemma hg_staggered_waits:
  assumes "hg_execute_single_request client r None t (h, w) = (Ok response, t1, (h1, w1))" and "hgp_success response"
    and "hgc_cancel_others_on_first_success (hg_config h1)" and "0 \<le> hgc_hedge_delay_ms (hg_config h1)"
  shows "\<exists>h2. hg_execute_staggered_hedging True client hedging_id (r # rs) None t (h, w) =
    (Ok (hg_outcome HG_FIRST_WIN (Some response) (response # map hg_skipped rs) (Suc (length rs))),
     t1 + of_nat (length rs) * (hgc_hedge_delay_ms (hg_config h1) / 1000), (h2, w1))"
  using staggered_after_success [OF assms(3,4), of 1 client hedging_id rs "[response]" response HG_FIRST_WIN t1 w1] assms
  by (auto simp: hg_execute_staggered_hedging_def co_catch_def co_bind_def co_return_def)

end
