(* ===== verification/Resilience.thy ===== *)
theory Resilience
  imports Interfaces Json
begin

text \<open>
  \<^verbatim>\<open>libs/utils/resilience_patterns.py\<close>: the decorators for retries, timeouts and a simple circuit breaker,
  and the manager that applies the retries by operation. The decorated function is a coroutine; the
  variables the breaker closes over are its state.
\<close>

section \<open>Retries\<close>

record rs_config =
  rsc_max_retries :: int
  rsc_base_delay :: rat
  rsc_max_delay :: rat
  rsc_exponential_base :: rat
  rsc_jitter :: bool
  rsc_timeout :: "rat option"

definition rs_default_config :: rs_config where
  "rs_default_config = \<lparr>rsc_max_retries = 3, rsc_base_delay = 1, rsc_max_delay = 60, rsc_exponential_base = 2,
     rsc_jitter = True, rsc_timeout = None\<rparr>"

text \<open>The jitter is the fraction of the present second.\<close>

definition rs_delay :: "rs_config \<Rightarrow> int \<Rightarrow> rat \<Rightarrow> rat" where
  "rs_delay c attempt now =
     (let delay = min (rsc_base_delay c * rsc_exponential_base c ^ nat attempt) (rsc_max_delay c)
      in if rsc_jitter c then delay * (1 / 2 + 1 / 2 * frac now) else delay)"

definition rs_attempt :: "rs_config \<Rightarrow> ('w, 'a) coro \<Rightarrow> ('w, 'a) coro" where
  "rs_attempt c f =
     (case rsc_timeout c of
        None \<Rightarrow> f
      | Some tmo \<Rightarrow> if tmo = 0 then f else wait_for tmo f)"

text \<open>With a negative number of retries the loop is empty and the last statement raises \<open>None\<close>.\<close>

definition rs_raise_none :: exn where
  "rs_raise_none = type_error ''exceptions must derive from BaseException''"

fun rs_attempts :: "rs_config \<Rightarrow> string list \<Rightarrow> int list \<Rightarrow> ('w, 'a) coro \<Rightarrow> ('w, 'a) coro" where
  "rs_attempts c exceptions [] f dl t w = (Raise rs_raise_none, t, w)"
| "rs_attempts c exceptions (attempt # rest) f dl t w =
     (case rs_attempt c f dl t w of
        (Ok v, t1, w1) \<Rightarrow> (Ok v, t1, w1)
      | (Cancelled, t1, w1) \<Rightarrow> (Cancelled, t1, w1)
      | (Raise e, t1, w1) \<Rightarrow>
          (if \<not> list_ex (isinstance e) exceptions then (Raise e, t1, w1)
           else if attempt = rsc_max_retries c then (Raise e, t1, w1)
           else
             (case sleep (rs_delay c attempt t1) dl t1 w1 of
                (Ok _, t2, w2) \<Rightarrow> rs_attempts c exceptions rest f dl t2 w2
              | (Raise e', t2, w2) \<Rightarrow> (Raise e', t2, w2)
              | (Cancelled, t2, w2) \<Rightarrow> (Cancelled, t2, w2))))"

definition rs_retry :: "rs_config option \<Rightarrow> string list \<Rightarrow> ('w, 'a) coro \<Rightarrow> ('w, 'a) coro" where
  "rs_retry config exceptions f =
     (let c = (case config of None \<Rightarrow> rs_default_config | Some c \<Rightarrow> c)
      in rs_attempts c exceptions [0..rsc_max_retries c] f)"

text \<open>\<open>timeout_operation\<close> logs a timeout and raises it again.\<close>

definition rs_timeout_operation :: "rat \<Rightarrow> ('w, 'a) coro \<Rightarrow> ('w, 'a) coro" where
  "rs_timeout_operation timeout_seconds f = wait_for timeout_seconds f"

section \<open>The circuit breaker\<close>

record rs_breaker =
  rsb_failure_threshold :: int
  rsb_recovery_timeout :: rat
  rsb_failure_count :: int
  rsb_last_failure_time :: rat
  rsb_circuit_open :: bool

definition rs_breaker_init :: "int \<Rightarrow> rat \<Rightarrow> rs_breaker" where
  "rs_breaker_init failure_threshold recovery_timeout =
     \<lparr>rsb_failure_threshold = failure_threshold, rsb_recovery_timeout = recovery_timeout,
      rsb_failure_count = 0, rsb_last_failure_time = 0, rsb_circuit_open = False\<rparr>"

definition rs_breaker_enter :: "rat \<Rightarrow> rs_breaker \<Rightarrow> exn option \<times> rs_breaker" where
  "rs_breaker_enter now b =
     (if rsb_circuit_open b then
        (if rsb_recovery_timeout b < now - rsb_last_failure_time b
         then (None, b\<lparr>rsb_circuit_open := False, rsb_failure_count := 0\<rparr>)
         else (Some (Exn [''RuntimeError'', ''Exception''] ''Circuit breaker is open''), b))
      else (None, b))"

definition rs_breaker_leave :: "rat \<Rightarrow> 'a outcome \<Rightarrow> rs_breaker \<Rightarrow> rs_breaker" where
  "rs_breaker_leave now r b =
     (case r of
        Ok _ \<Rightarrow> b\<lparr>rsb_failure_count := 0\<rparr>
      | Raise _ \<Rightarrow>
          (let b1 = b\<lparr>rsb_failure_count := rsb_failure_count b + 1, rsb_last_failure_time := now\<rparr>
           in if rsb_failure_threshold b1 \<le> rsb_failure_count b1 then b1\<lparr>rsb_circuit_open := True\<rparr> else b1)
      | Cancelled \<Rightarrow> b)"

definition rs_breaker_call :: "('w, 'a) coro \<Rightarrow> (rs_breaker \<times> 'w, 'a) coro" where
  "rs_breaker_call = guarded (instant rs_breaker_enter) (plain rs_breaker_leave)"

section \<open>The manager\<close>

record rs_manager =
  rsm_default_config :: rs_config
  rsm_operation_configs :: "(string, rs_config) dict"

definition rs_manager_init :: "rs_config option \<Rightarrow> rs_manager" where
  "rs_manager_init c =
     \<lparr>rsm_default_config = (case c of None \<Rightarrow> rs_default_config | Some c \<Rightarrow> c), rsm_operation_configs = []\<rparr>"

definition rsm_configure_operation :: "string \<Rightarrow> rs_config \<Rightarrow> rs_manager \<Rightarrow> rs_manager" where
  "rsm_configure_operation name c m = m\<lparr>rsm_operation_configs := dset name c (rsm_operation_configs m)\<rparr>"

definition rsm_get_config :: "rs_manager \<Rightarrow> string \<Rightarrow> rs_config" where
  "rsm_get_config m name = dget_or (rsm_default_config m) (rsm_operation_configs m) name"

definition rsm_execute ::
  "rs_manager \<Rightarrow> string \<Rightarrow> string option \<Rightarrow> rs_config option \<Rightarrow> ('w, 'a) coro \<Rightarrow> ('w, 'a) coro" where
  "rsm_execute m function_name operation_name config operation =
     (let name = (case operation_name of Some (x # xs) \<Rightarrow> x # xs | _ \<Rightarrow> function_name);
          op_config = (case config of Some c \<Rightarrow> c | None \<Rightarrow> rsm_get_config m name)
      in rs_retry (Some op_config) [''Exception''] operation)"

section \<open>Contracts\<close>

lemma timely_rs_attempt: "timely f \<Longrightarrow> timely (rs_attempt c f)"
  by (auto simp: rs_attempt_def timely_wait_for split: option.split)

interpretation rsr: retry_loop "\<lambda>ns f. rs_attempts (c\<lparr>rsc_timeout := None\<rparr>) exceptions ns f :: ('w, 'a) coro" id
  for c exceptions
proof (unfold_locales, goal_cases)
  case (1 f dl t v r t' v')
  then show ?case by auto
next
  case (2 n ns f dl t v r t' v' r1 t1 w1)
  let ?c = "c\<lparr>rsc_timeout := None\<rparr>"
  from 2 have run: "rs_attempts ?c exceptions (n # ns) f dl t v = (r, t', v')" and f: "f dl t v = (r1, t1, w1)"
    by simp_all
  have attempt: "rs_attempt ?c f dl t v = (r1, t1, w1)" by (simp add: rs_attempt_def f)
  show ?case
  proof (cases r1)
    case (Raise e)
    show ?thesis
    proof (cases "list_ex (isinstance e) exceptions \<and> n \<noteq> rsc_max_retries c")
      case True
      show ?thesis
      proof (cases rule: sleep_cases [of "rs_delay ?c n t1" dl t1 w1])
        case (slept t2)
        with run attempt Raise True show ?thesis by (intro disjI2 exI [of _ w1] exI [of _ t2]) auto
      qed (use run attempt Raise True in auto)
    qed (use run attempt Raise in \<open>auto split: if_splits\<close>)
  qed (use run attempt in auto)
qed

definition rsb_closed :: "rs_breaker \<Rightarrow> bool" where "rsb_closed b \<longleftrightarrow> \<not> rsb_circuit_open b"
definition rsb_budget :: "rs_breaker \<Rightarrow> int" where
  "rsb_budget b = rsb_failure_threshold b - rsb_failure_count b"
definition rsb_tripped :: "rat \<Rightarrow> rs_breaker \<Rightarrow> bool" where
  "rsb_tripped now b \<longleftrightarrow> rsb_circuit_open b \<and> now - rsb_last_failure_time b \<le> rsb_recovery_timeout b"

interpretation rsbb: breaker rs_breaker_enter rs_breaker_leave rsb_closed rsb_budget rsb_tripped rsb_recovery_timeout
  by unfold_locales
    (auto simp: rs_breaker_enter_def rs_breaker_leave_def rsb_closed_def rsb_budget_def rsb_tripped_def Let_def
      split: if_splits)

interpretation rsg: guard "instant rs_breaker_enter" "plain rs_breaker_leave"
  by (rule guard_instant_plain)

lemma rs_attempts_no_timeout:
  "rs_attempts c exceptions ns f = rs_attempts (c\<lparr>rsc_timeout := None\<rparr>) exceptions ns (rs_attempt c f)"
proof (intro ext)
  fix dl t w
  show "rs_attempts c exceptions ns f dl t w =
      rs_attempts (c\<lparr>rsc_timeout := None\<rparr>) exceptions ns (rs_attempt c f) dl t w"
    by (induction ns arbitrary: t w)
      (simp_all add: rs_attempt_def [of "c\<lparr>rsc_timeout := None\<rparr>"] rs_delay_def cong: if_cong split: prod.split outcome.split)
qed

section \<open>Properties\<close>

lemma rs_delay_bound:
  assumes "0 \<le> rsc_max_delay c"
  shows "max 0 (rs_delay c attempt now) \<le> rsc_max_delay c"
proof -
  define d where "d = min (rsc_base_delay c * rsc_exponential_base c ^ nat attempt) (rsc_max_delay c)"
  have d: "d \<le> rsc_max_delay c" by (simp add: d_def)
  have j: "0 \<le> 1 / 2 + 1 / 2 * frac now" "1 / 2 + 1 / 2 * frac now \<le> (1 :: rat)"
    using frac_ge_0 [of now] frac_lt_1 [of now] by simp_all
  have "d * (1 / 2 + 1 / 2 * frac now) \<le> rsc_max_delay c"
  proof (cases "0 \<le> d")
    case True
    then have "d * (1 / 2 + 1 / 2 * frac now) \<le> d * 1" using j by (intro mult_left_mono)
    with d show ?thesis by simp
  next
    case False
    then have "d * (1 / 2 + 1 / 2 * frac now) \<le> 0" using j(1) by (simp add: mult_nonpos_nonneg)
    with assms show ?thesis by simp
  qed
  then show ?thesis using assms d by (simp add: rs_delay_def Let_def d_def [symmetric])
qed

lemma rs_attempts_time:
  assumes f: "timely f" and c: "rsc_timeout c = Some tmo" "0 < tmo" "0 \<le> rsc_max_delay c"
    and "ns \<noteq> [] \<Longrightarrow> last ns = rsc_max_retries c"
    and "rs_attempts c exceptions ns f None t w = (r, t', w')"
  shows "r \<noteq> Cancelled \<and> t' \<le> t + of_nat (length ns) * tmo + of_nat (length ns - 1) * rsc_max_delay c"
  using assms(5,6)
proof (induction ns arbitrary: t w)
  case (Cons n ns)
  obtain q t1 w1 where q: "rs_attempt c f None t w = (q, t1, w1)" by (rule prod_cases3)
  then have wait: "wait_for tmo f None t w = (q, t1, w1)" using c(1,2) by (simp add: rs_attempt_def)
  have q1: "q \<noteq> Cancelled" "t1 \<le> t + tmo"
    using wait_for_not_cancelled [OF f] wait_for_bound [OF f _ wait] wait c(2) by auto
  have rest: "0 \<le> of_nat (length ns) * tmo" "0 \<le> of_nat (length ns) * rsc_max_delay c"
    using c(2,3) by simp_all
  show ?case
  proof (cases "\<exists>e. q = Raise e \<and> list_ex (isinstance e) exceptions \<and> n \<noteq> rsc_max_retries c")
    case True
    then have "ns \<noteq> []" using Cons.prems(1) by auto
    let ?t2 = "t1 + max 0 (rs_delay c n t1)"
    have "rs_attempts c exceptions ns f None ?t2 w1 = (r, t', w')"
      using True Cons.prems(2) q by (auto simp: sleep_def)
    with Cons.IH [of ?t2 w1] Cons.prems(1) \<open>ns \<noteq> []\<close>
    have "r \<noteq> Cancelled" "t' \<le> ?t2 + of_nat (length ns) * tmo + of_nat (length ns - 1) * rsc_max_delay c" by auto
    moreover have "of_nat (length ns) * rsc_max_delay c = of_nat (length ns - 1) * rsc_max_delay c + rsc_max_delay c"
      using \<open>ns \<noteq> []\<close> by (cases ns) (simp_all add: distrib_right)
    moreover have "of_nat (length (n # ns)) * tmo = tmo + of_nat (length ns) * tmo" by (simp add: distrib_right)
    moreover have "length (n # ns) - 1 = length ns" by simp
    ultimately show ?thesis using q1(2) rs_delay_bound [OF c(3), of n t1] unfolding \<open>length (n # ns) - 1 = length ns\<close> by (intro conjI) (assumption, linarith)
  next
    case False
    then have "r = q \<and> t' = t1" using Cons.prems(2) q q1(1) by (cases q) (auto split: if_splits)
    then show ?thesis using q1 rest by (simp add: algebra_simps)
  qed
qed auto

text \<open>
  A retried operation with a timeout always comes back: whatever the operation does, the call ends, and
  at the latest after the timeout of every attempt and the maximal delay of every pause between two.
\<close>

theorem rs_retry_ends:
  assumes "timely f" and "rsc_timeout c = Some tmo" and "0 < tmo" and "0 \<le> rsc_max_delay c" and "0 \<le> rsc_max_retries c"
  shows "\<exists>r t' w'. rs_retry (Some c) exceptions f None t w = (r, t', w') \<and> r \<noteq> Cancelled \<and>
    t' \<le> t + of_int (rsc_max_retries c + 1) * tmo + of_int (rsc_max_retries c) * rsc_max_delay c"
proof -
  obtain r t' w' where run: "rs_retry (Some c) exceptions f None t w = (r, t', w')" by (rule prod_cases3)
  have len: "length [0..rsc_max_retries c] = nat (rsc_max_retries c + 1)" by simp
  have "last [0..rsc_max_retries c] = rsc_max_retries c" using assms(5) by (simp add: upto_rec2)
  then have "r \<noteq> Cancelled \<and> t' \<le> t + of_nat (nat (rsc_max_retries c + 1)) * tmo +
      of_nat (nat (rsc_max_retries c + 1) - 1) * rsc_max_delay c"
    using rs_attempts_time [OF assms(1-4), of "[0..rsc_max_retries c]" exceptions t w r t' w'] run len
    by (simp add: rs_retry_def)
  moreover have "(of_nat (nat (rsc_max_retries c + 1) - 1) :: rat) = of_int (rsc_max_retries c)"
    "(of_nat (nat (rsc_max_retries c + 1)) :: rat) = of_int (rsc_max_retries c + 1)"
    using assms(5) by (simp_all add: of_nat_nat nat_diff_distrib [symmetric])
  ultimately show ?thesis using run by auto
qed

theorem rs_retry_ends_witness:
  "\<exists>r t' w'. rs_retry (Some (rs_default_config\<lparr>rsc_timeout := Some 5\<rparr>)) [''Exception'']
     (sleep 100 :: (nat, unit) coro) None 0 7 = (r, t', w') \<and> r \<noteq> Cancelled \<and> t' \<le> 200"
  using rs_retry_ends [OF timely_sleep [of 100], where c = "rs_default_config\<lparr>rsc_timeout := Some 5\<rparr>" and tmo = 5
    and exceptions = "[''Exception'']" and t = 0 and w = "7 :: nat"]
  by (simp add: rs_default_config_def)

text \<open>The simple breaker as a layer and as a breaker.\<close>

lemma rs_breaker_shields:
  fixes xs :: "(rat \<times> exn) list"
  assumes "xs \<noteq> []" and "int (length xs) = max 1 failure_threshold"
    and "\<And>t. t \<in> set ts \<Longrightarrow> t \<le> T" and "T < fst (last xs) + recovery_timeout"
  shows "None \<notin> set (fst (attempts rs_breaker_enter ts
    (fail_all rs_breaker_leave xs (rs_breaker_init failure_threshold recovery_timeout))))"
  using assms
  by (intro rsbb.failures_shield [where T = T])
    (simp_all add: rsb_closed_def rsb_budget_def rs_breaker_init_def)

end
