(* ===== verification/TimeoutTiers.thy ===== *)
theory TimeoutTiers
  imports TimeoutHandler Json
begin

text \<open>
  \<^verbatim>\<open>libs/clients/http/timeout_manager.py\<close>: time limits per kind of operation, the operations under
  way, the history of timeouts, statistics and recommendations. A call is split at its await: what
  happens before the operation starts (\<open>tt_enter\<close>) and after it ended (\<open>tt_handle_timeout\<close>,
  \<open>tt_close\<close>); several calls may be under way at a time. The notices to circuit breakers only log. The clock is not negative, so \<open>int\<close> rounds
  it down. The text of the exception renders floats and is left out.
\<close>

section \<open>State\<close>

datatype timeout_type = TT_CONNECT | TT_READ | TT_WRITE | TT_TOTAL | TT_WORKFLOW_STEP

fun timeout_type_value :: "timeout_type \<Rightarrow> string" where
  "timeout_type_value TT_CONNECT = ''connect''"
| "timeout_type_value TT_READ = ''read''"
| "timeout_type_value TT_WRITE = ''write''"
| "timeout_type_value TT_TOTAL = ''total''"
| "timeout_type_value TT_WORKFLOW_STEP = ''workflow_step''"

definition all_timeout_types :: "timeout_type list" where
  "all_timeout_types = [TT_CONNECT, TT_READ, TT_WRITE, TT_TOTAL, TT_WORKFLOW_STEP]"

datatype timeout_severity = TS_WARNING | TS_CRITICAL | TS_EMERGENCY

fun timeout_severity_value :: "timeout_severity \<Rightarrow> string" where
  "timeout_severity_value TS_WARNING = ''warning''"
| "timeout_severity_value TS_CRITICAL = ''critical''"
| "timeout_severity_value TS_EMERGENCY = ''emergency''"

record tt_config =
  ttc_operation_type :: string
  ttc_connect_timeout_ms :: int
  ttc_read_timeout_ms :: int
  ttc_write_timeout_ms :: int
  ttc_total_timeout_ms :: int
  ttc_workflow_step_timeout_ms :: int
  ttc_retry_timeout_ms :: int
  ttc_max_retries :: int

definition tt_default_config :: "string \<Rightarrow> tt_config" where
  "tt_default_config operation_type =
     \<lparr>ttc_operation_type = operation_type, ttc_connect_timeout_ms = 1000, ttc_read_timeout_ms = 5000,
      ttc_write_timeout_ms = 2000, ttc_total_timeout_ms = 10000, ttc_workflow_step_timeout_ms = 30000,
      ttc_retry_timeout_ms = 1000, ttc_max_retries = 3\<rparr>"

record tt_event =
  tte_event_id :: string
  tte_operation_type :: string
  tte_timeout_type :: timeout_type
  tte_timeout_value_ms :: int
  tte_actual_duration_ms :: rat
  tte_severity :: timeout_severity
  tte_occurred_at :: rat
  tte_context :: json

text \<open>An entry of \<open>active_operations\<close>.\<close>

record tt_operation =
  tto_operation_type :: string
  tto_timeout_type :: timeout_type
  tto_start_time :: rat
  tto_timeout_value_ms :: int
  tto_context :: json

record tiers =
  tt_configs :: "(string, tt_config) dict"
  tt_active :: "(string, tt_operation) dict"
  tt_events :: "tt_event list"

definition tt_tier :: "string \<Rightarrow> int \<Rightarrow> int \<Rightarrow> int \<Rightarrow> int \<Rightarrow> int \<Rightarrow> int \<Rightarrow> string \<times> tt_config" where
  "tt_tier name connect read write all step retries =
     (name, (tt_default_config name)
       \<lparr>ttc_connect_timeout_ms := connect, ttc_read_timeout_ms := read, ttc_write_timeout_ms := write,
        ttc_total_timeout_ms := all, ttc_workflow_step_timeout_ms := step, ttc_max_retries := retries\<rparr>)"

definition tt_default_configs :: "(string, tt_config) dict" where
  "tt_default_configs =
     [tt_tier ''api_gateway'' 500 2000 1000 5000 15000 2,
      tt_tier ''llm_service'' 1000 30000 5000 60000 120000 1,
      tt_tier ''vector_service'' 1000 10000 2000 15000 30000 2,
      tt_tier ''router-service'' 500 3000 1000 8000 10000 3,
      tt_tier ''billing_service'' 1000 5000 2000 10000 20000 2]"

definition tt_init :: tiers where
  "tt_init = \<lparr>tt_configs = tt_default_configs, tt_active = [], tt_events = []\<rparr>"

definition tt_update_timeout_config :: "string \<Rightarrow> tt_config \<Rightarrow> tiers \<Rightarrow> tiers" where
  "tt_update_timeout_config operation_type config m =
     m\<lparr>tt_configs := dset operation_type config (tt_configs m)\<rparr>"

section \<open>Executing an operation\<close>

fun tt_get_timeout_value :: "tt_config \<Rightarrow> timeout_type \<Rightarrow> int" where
  "tt_get_timeout_value c TT_CONNECT = ttc_connect_timeout_ms c"
| "tt_get_timeout_value c TT_READ = ttc_read_timeout_ms c"
| "tt_get_timeout_value c TT_WRITE = ttc_write_timeout_ms c"
| "tt_get_timeout_value c TT_TOTAL = ttc_total_timeout_ms c"
| "tt_get_timeout_value c TT_WORKFLOW_STEP = ttc_workflow_step_timeout_ms c"

definition tt_config_for :: "tiers \<Rightarrow> string \<Rightarrow> tt_config" where
  "tt_config_for m operation_type = dget_or (tt_default_config operation_type) (tt_configs m) operation_type"

text \<open>The local variables of a call.\<close>

record tt_call =
  ttk_operation_id :: string
  ttk_operation_type :: string
  ttk_timeout_type :: timeout_type
  ttk_start_time :: rat
  ttk_timeout_value :: int
  ttk_context :: "json option"

definition tt_operation_id :: "string \<Rightarrow> rat \<Rightarrow> string" where
  "tt_operation_id operation_type t = operation_type @ ''_'' @ int_str \<lfloor>t * 1000\<rfloor>"

text \<open>\<open>context or {}\<close>.\<close>

definition or_empty :: "json option \<Rightarrow> json" where
  "or_empty context = (case context of None \<Rightarrow> JDict [] | Some c \<Rightarrow> if py_truth c then c else JDict [])"

definition tt_call_of :: "tiers \<Rightarrow> string \<Rightarrow> timeout_type \<Rightarrow> json option \<Rightarrow> rat \<Rightarrow> tt_call" where
  "tt_call_of m operation_type timeout_type context t =
     \<lparr>ttk_operation_id = tt_operation_id operation_type t, ttk_operation_type = operation_type,
      ttk_timeout_type = timeout_type, ttk_start_time = t,
      ttk_timeout_value = tt_get_timeout_value (tt_config_for m operation_type) timeout_type,
      ttk_context = context\<rparr>"

definition tt_entry :: "tt_call \<Rightarrow> tt_operation" where
  "tt_entry k =
     \<lparr>tto_operation_type = ttk_operation_type k, tto_timeout_type = ttk_timeout_type k,
      tto_start_time = ttk_start_time k, tto_timeout_value_ms = ttk_timeout_value k,
      tto_context = or_empty (ttk_context k)\<rparr>"

definition tt_enter ::
  "string \<Rightarrow> timeout_type \<Rightarrow> json option \<Rightarrow> rat \<Rightarrow> tiers \<Rightarrow> tt_call \<times> tiers" where
  "tt_enter operation_type timeout_type context t m =
     (let k = tt_call_of m operation_type timeout_type context t
      in (k, m\<lparr>tt_active := dset (ttk_operation_id k) (tt_entry k) (tt_active m)\<rparr>))"

text \<open>A division by a limit of zero raises, which the code turns into a warning.\<close>

definition tt_determine_severity :: "rat \<Rightarrow> int \<Rightarrow> timeout_severity" where
  "tt_determine_severity actual_duration timeout_value =
     (if timeout_value = 0 then TS_WARNING
      else (let ratio = actual_duration / of_int timeout_value
            in if ratio \<le> 1 then TS_WARNING else if ratio \<le> 2 then TS_CRITICAL else TS_EMERGENCY))"

definition tt_handle_timeout :: "rat \<Rightarrow> tt_call \<Rightarrow> tiers \<Rightarrow> tiers" where
  "tt_handle_timeout now k m =
     (let actual_duration = (now - ttk_start_time k) * 1000;
          event =
            \<lparr>tte_event_id = ''timeout_'' @ ttk_operation_id k, tte_operation_type = ttk_operation_type k,
             tte_timeout_type = ttk_timeout_type k, tte_timeout_value_ms = ttk_timeout_value k,
             tte_actual_duration_ms = actual_duration,
             tte_severity = tt_determine_severity actual_duration (ttk_timeout_value k),
             tte_occurred_at = now, tte_context = or_empty (ttk_context k)\<rparr>;
          events = tt_events m @ [event]
      in m\<lparr>tt_events := (if 1000 < length events then last_n 1000 events else events)\<rparr>)"

text \<open>The \<open>finally\<close> clause.\<close>

definition tt_close :: "tt_call \<Rightarrow> tiers \<Rightarrow> tiers" where
  "tt_close k m =
     (if dget (tt_active m) (ttk_operation_id k) \<noteq> None
      then m\<lparr>tt_active := ddel (ttk_operation_id k) (tt_active m)\<rparr> else m)"

definition tt_execute_with_timeout ::
  "string \<Rightarrow> timeout_type \<Rightarrow> json option \<Rightarrow> ('w, 'a) coro \<Rightarrow> (tiers \<times> 'w, 'a) coro" where
  "tt_execute_with_timeout operation_type timeout_type context f dl t = (\<lambda>(m, w).
     (case tt_enter operation_type timeout_type context t m of (k, m1) \<Rightarrow>
        (case wait_for (of_int (ttk_timeout_value k) / 1000) f dl t w of
           (Ok x, t1, w1) \<Rightarrow> (Ok x, t1, (tt_close k m1, w1))
         | (Raise e, t1, w1) \<Rightarrow>
             (if is_timeout e
              then (Raise timeout_error, t1, (tt_close k (tt_handle_timeout t1 k m1), w1))
              else (Raise e, t1, (tt_close k m1, w1)))
         | (Cancelled, t1, w1) \<Rightarrow> (Cancelled, t1, (tt_close k m1, w1)))))"

section \<open>Reports\<close>

record tt_stats =
  tts_total_operations :: nat
  tts_timeout_events_count :: nat
  tts_by_type :: "(string, nat) dict"
  tts_by_severity :: "(string, nat) dict"
  tts_recent_timeout_rate :: rat
  tts_avg_timeout_duration :: rat

text \<open>\<open>events[-n:] if len(events) > n else events\<close>.\<close>

definition recent :: "nat \<Rightarrow> 'a list \<Rightarrow> 'a list" where
  "recent n events = (if n < length events then last_n n events else events)"

definition tt_events_of :: "tiers \<Rightarrow> string option \<Rightarrow> tt_event list" where
  "tt_events_of m operation_type =
     (case operation_type of
        None \<Rightarrow> tt_events m
      | Some ty \<Rightarrow> if ty = [] then tt_events m else filter (\<lambda>e. tte_operation_type e = ty) (tt_events m))"

definition tt_get_timeout_stats :: "tiers \<Rightarrow> string option \<Rightarrow> tt_stats" where
  "tt_get_timeout_stats m operation_type =
     (let events = tt_events_of m operation_type;
          stats = \<lparr>tts_total_operations = length (tt_active m), tts_timeout_events_count = length (tt_events m),
                   tts_by_type = [], tts_by_severity = [], tts_recent_timeout_rate = 0, tts_avg_timeout_duration = 0\<rparr>
      in if events = [] then stats
         else stats\<lparr>tts_by_type :=
                      map (\<lambda>ty. (timeout_type_value ty, length (filter (\<lambda>e. tte_timeout_type e = ty) events))) all_timeout_types,
                    tts_by_severity :=
                      map (\<lambda>s. (timeout_severity_value s, length (filter (\<lambda>e. tte_severity e = s) events)))
                        [TS_WARNING, TS_CRITICAL, TS_EMERGENCY],
                    tts_recent_timeout_rate := of_nat (length (recent 100 events)) / 100,
                    tts_avg_timeout_duration := sum_list (map tte_actual_duration_ms events) / of_nat (length events)\<rparr>)"

record tt_active_report =
  ttr_operation_type :: string
  ttr_timeout_type :: string
  ttr_duration_ms :: rat
  ttr_timeout_value_ms :: int
  ttr_timeout_ratio :: rat
  ttr_context :: json

definition tt_report_entry :: "rat \<Rightarrow> tt_operation \<Rightarrow> tt_active_report option" where
  "tt_report_entry now d =
     (let duration = (now - tto_start_time d) * 1000
      in if tto_timeout_value_ms d = 0 then None
         else Some \<lparr>ttr_operation_type = tto_operation_type d, ttr_timeout_type = timeout_type_value (tto_timeout_type d),
                    ttr_duration_ms = duration, ttr_timeout_value_ms = tto_timeout_value_ms d,
                    ttr_timeout_ratio = duration / of_int (tto_timeout_value_ms d), ttr_context = tto_context d\<rparr>)"

text \<open>One operation with a limit of zero makes the division raise, and the whole report empty.\<close>

definition tt_get_active_operations :: "rat \<Rightarrow> tiers \<Rightarrow> (string, tt_active_report) dict" where
  "tt_get_active_operations now m =
     (if \<exists>(i, d) \<in> set (tt_active m). tt_report_entry now d = None then []
      else map (\<lambda>(i, d). (i, the (tt_report_entry now d))) (tt_active m))"

definition tt_cleanup_stale_operations :: "rat \<Rightarrow> int \<Rightarrow> tiers \<Rightarrow> tiers" where
  "tt_cleanup_stale_operations now max_age_minutes m =
     (let stale = map fst (filter (\<lambda>(_, d). of_int (max_age_minutes * 60) < now - tto_start_time d) (tt_active m))
      in m\<lparr>tt_active := fold ddel stale (tt_active m)\<rparr>)"

datatype tt_recommendation =
    IncreaseTimeout (current_timeout_ms: int) (recommended_timeout_ms: int)
  | UseCircuitBreaker (critical_timeouts: nat)

record tt_advice =
  tta_recommendations :: "tt_recommendation list"
  tta_confidence :: string
  tta_total_events :: nat
  tta_recent_events :: nat
  tta_timeout_ratio :: rat

text \<open>\<open>current_config and avg_timeout > current_config.total_timeout_ms\<close>; a recommended limit is positive.\<close>

definition tt_increase :: "tiers \<Rightarrow> string \<Rightarrow> rat \<Rightarrow> tt_recommendation list" where
  "tt_increase m operation_type avg_timeout =
     (case dget (tt_configs m) operation_type of
        None \<Rightarrow> []
      | Some c \<Rightarrow>
          if of_int (ttc_total_timeout_ms c) < avg_timeout
          then [IncreaseTimeout (ttc_total_timeout_ms c) \<lfloor>avg_timeout * (12 / 10)\<rfloor>] else [])"

definition tt_get_timeout_recommendations :: "tiers \<Rightarrow> string \<Rightarrow> tt_advice option" where
  "tt_get_timeout_recommendations m operation_type =
     (let events = filter (\<lambda>e. tte_operation_type e = operation_type) (tt_events m);
          recent_events = recent 50 events;
          timeout_ratio = of_nat (length recent_events) / of_nat (length events);
          avg_timeout = sum_list (map tte_actual_duration_ms recent_events) / of_nat (length recent_events);
          increase = (if 1 / 10 < timeout_ratio then tt_increase m operation_type avg_timeout else []);
          critical = length (filter (\<lambda>e. tte_severity e = TS_CRITICAL) recent_events);
          breaker = (if 5 < critical then [UseCircuitBreaker critical] else [])
      in if events = [] then None
         else Some \<lparr>tta_recommendations = increase @ breaker,
                    tta_confidence = (if increase @ breaker = [] then ''medium'' else ''high''),
                    tta_total_events = length events, tta_recent_events = length recent_events,
                    tta_timeout_ratio = timeout_ratio\<rparr>)"

section \<open>The manager is a layer\<close>

lemma tt_execute_wait:
  assumes "tt_execute_with_timeout ty tt c f dl t v = (r, t', v')"
  obtains r1 where "wait_for (of_int (ttk_timeout_value (tt_call_of (fst v) ty tt c t)) / 1000) f dl t (snd v) = (r1, t', snd v')"
    and "\<forall>x. r = Ok x \<longrightarrow> r1 = Ok x" and "r = Cancelled \<longleftrightarrow> r1 = Cancelled"
  using assms that
  by (cases v) (auto simp: tt_execute_with_timeout_def tt_enter_def Let_def split: prod.splits outcome.splits if_splits)

interpretation ttl: layer
  "tt_execute_with_timeout ty tt c :: ('w, 'a) coro \<Rightarrow> (tiers \<times> 'w, 'a) coro" for ty tt c
proof unfold_locales
  fix f :: "('w, 'a) coro"
  assume f: "timely f"
  show "timely (tt_execute_with_timeout ty tt c f)"
    by (rule timelyI; erule tt_execute_wait; drule timely_conj [OF timely_wait_for [OF f]]; simp)
next
  show "\<exists>dl1 t1 w1 t2 w2. f dl1 t1 w1 = (Ok x, t2, w2)"
    if run: "tt_execute_with_timeout ty tt c f dl t v = (Ok x, t', v')"
    for f :: "('w, 'a) coro" and dl t v x t' v'
    using run by (rule tt_execute_wait) (metis waiting.result_from_inner)
qed

section \<open>The history\<close>

lemma tt_handle_active [simp]:
  "tt_active (tt_handle_timeout now k m) = tt_active m" "tt_configs (tt_handle_timeout now k m) = tt_configs m"
  by (simp_all add: tt_handle_timeout_def Let_def)

lemma tt_close_simps [simp]:
  "tt_active (tt_close k m) = ddel (ttk_operation_id k) (tt_active m)"
  "tt_configs (tt_close k m) = tt_configs m" "tt_events (tt_close k m) = tt_events m"
  by (auto simp: tt_close_def delete_id map_of_eq_None_iff)

lemma tt_handle_bounded: "length (tt_events (tt_handle_timeout now k m)) \<le> 1000"
  by (simp add: tt_handle_timeout_def Let_def length_last_n)

lemma ddel_dset_fresh: "dget d k = None \<Longrightarrow> ddel k (dset k v d) = d"
  by (induction d) (auto simp: AList.delete_eq filter_id_conv map_of_eq_None_iff split: if_splits)

lemma tt_execute_state:
  assumes "tt_execute_with_timeout ty tt c f dl t (m, w) = (r, t', (m', w'))"
  obtains k m1 where "tt_enter ty tt c t m = (k, m1)"
    and "m' = tt_close k m1 \<or> m' = tt_close k (tt_handle_timeout t' k m1)"
  using assms by (auto simp: tt_execute_with_timeout_def split: prod.splits outcome.splits if_splits)

text \<open>
  A call that is not cancelled from outside ends within the limit of its tier, whatever the
  operation does; afterwards the operation is listed no more, the configuration is the old one, and
  at most a thousand timeouts are remembered.
\<close>

theorem tt_execute_time_boxed:
  assumes f: "timely f" and limit: "0 \<le> tt_get_timeout_value (tt_config_for m ty) tt"
    and fresh: "dget (tt_active m) (tt_operation_id ty t) = None" and "length (tt_events m) \<le> 1000"
    and run: "tt_execute_with_timeout ty tt c f None t (m, w) = (r, t', (m', w'))"
  shows "t \<le> t' \<and> t' \<le> t + of_int (tt_get_timeout_value (tt_config_for m ty) tt) / 1000 \<and> r \<noteq> Cancelled \<and>
    tt_active m' = tt_active m \<and> tt_configs m' = tt_configs m \<and> length (tt_events m') \<le> 1000"
proof -
  let ?T = "of_int (tt_get_timeout_value (tt_config_for m ty) tt) / 1000 :: rat"
  obtain r1 where w: "wait_for ?T f None t w = (r1, t', w')" and c: "r = Cancelled \<longleftrightarrow> r1 = Cancelled"
    using run by (rule tt_execute_wait) (simp add: tt_call_of_def)
  have "t' \<le> t + ?T" using wait_for_bound [OF f _ w] limit by simp
  moreover have "t \<le> t'" "r1 \<noteq> Cancelled" using timelyD(1,2) [OF timely_wait_for [OF f] w] by auto
  moreover obtain k m1 where e: "tt_enter ty tt c t m = (k, m1)"
    "m' = tt_close k m1 \<or> m' = tt_close k (tt_handle_timeout t' k m1)"
    using run by (rule tt_execute_state)
  moreover have "tt_active m' = tt_active m"
    using e fresh by (auto simp: tt_enter_def tt_call_of_def Let_def ddel_dset_fresh)
  moreover have "length (tt_events m') \<le> 1000 \<and> tt_configs m' = tt_configs m"
    using e assms(4) tt_handle_bounded by (auto simp: tt_enter_def Let_def)
  ultimately show ?thesis using c by simp
qed

theorem tt_execute_time_boxed_witness:
  "case tt_execute_with_timeout ''api_gateway'' TT_READ None (sleep 60) None 5 (tt_init, ()) of
     (r, t', (m', _)) \<Rightarrow> r = Raise timeout_error \<and> t' \<le> 5 + 2 \<and> tt_active m' = [] \<and> length (tt_events m') = 1"
proof -
  let ?call = "tt_execute_with_timeout ''api_gateway'' TT_READ None (sleep 60) None 5 (tt_init, ())"
  obtain r t' m' w' where c: "?call = (r, t', (m', w'))" by (rule prod_cases4)
  have init: "tt_active tt_init = []" "tt_events tt_init = []" by (simp_all add: tt_init_def)
  have tier: "ttc_read_timeout_ms (tt_config_for tt_init ''api_gateway'') = 2000" by code_simp
  note boxed = tt_execute_time_boxed [OF timely_sleep _ _ _ c]
  have limit: "0 \<le> tt_get_timeout_value (tt_config_for tt_init ''api_gateway'') TT_READ"
    by (simp only: tt_get_timeout_value.simps tier)
  have idle: "dget (tt_active tt_init) (tt_operation_id ''api_gateway'' 5) = None" by (simp only: init) simp
  have short: "length (tt_events tt_init) \<le> 1000" by (simp only: init) simp
  note boxed = boxed [OF limit idle short]
  have "wait_for 2 (sleep 60) None 5 () = (Raise timeout_error, 7, ())"
    by (simp add: wait_for_def own_deadline_def sleep_def)
  then have "r = Raise timeout_error \<and> length (tt_events m') = 1"
    using c by (auto simp: tt_execute_with_timeout_def tt_enter_def tt_call_of_def Let_def tier tt_handle_timeout_def init)
  then show ?thesis using c boxed by (simp add: tier init)
qed

section \<open>Calls under way\<close>

text \<open>
  Several calls at a time: each begins at some moment, and ends later with or without a timeout. The
  state is the manager and the calls under way, in the order in which they began.
\<close>

datatype tt_step = TT_Begin string timeout_type "json option" rat | TT_End nat bool rat

fun tt_do :: "tt_step \<Rightarrow> tiers \<times> tt_call list \<Rightarrow> tiers \<times> tt_call list" where
  "tt_do (TT_Begin ty tt c t) (m, ks) = (case tt_enter ty tt c t m of (k, m1) \<Rightarrow> (m1, ks @ [k]))"
| "tt_do (TT_End i timed_out now) (m, ks) =
     (if i < length ks
      then (tt_close (ks ! i) (if timed_out then tt_handle_timeout now (ks ! i) m else m), take i ks @ drop (Suc i) ks)
      else (m, ks))"

fun tt_begun :: "tt_step list \<Rightarrow> string list" where
  "tt_begun [] = []"
| "tt_begun (TT_Begin ty tt c t # ss) = tt_operation_id ty t # tt_begun ss"
| "tt_begun (TT_End i b now # ss) = tt_begun ss"

definition tt_listed :: "tt_call list \<Rightarrow> (string, tt_operation) dict" where
  "tt_listed ks = map (\<lambda>k. (ttk_operation_id k, tt_entry k)) ks"

lemma dset_fresh_end: "k \<notin> fst ` set d \<Longrightarrow> dset k v d = d @ [(k, v)]"
  by (induction d) auto

lemma ddel_listed:
  assumes "distinct (map ttk_operation_id (xs @ k # ys))"
  shows "ddel (ttk_operation_id k) (tt_listed (xs @ k # ys)) = tt_listed (xs @ ys)"
  using assms by (auto simp: AList.delete_eq tt_listed_def filter_id_conv image_iff)

lemma tt_begun_fresh:
  assumes "distinct (tt_begun ss)" and "distinct (map ttk_operation_id ks)"
    and "ttk_operation_id ` set ks \<inter> set (tt_begun ss) = {}" and "tt_active m = tt_listed ks"
    and "fold tt_do ss (m, ks) = (m', ks')"
  shows "tt_active m' = tt_listed ks'"
  using assms
proof (induction ss arbitrary: m ks)
  case (Cons s ss)
  show ?case
  proof (cases s)
    case (TT_Begin ty tt c t)
    let ?k = "tt_call_of m ty tt c t"
    have id: "ttk_operation_id ?k = tt_operation_id ty t" by (simp add: tt_call_of_def)
    have new: "tt_operation_id ty t \<notin> ttk_operation_id ` set ks" using Cons.prems(3) TT_Begin by auto
    then have "tt_active (snd (tt_enter ty tt c t m)) = tt_listed (ks @ [?k])"
      using Cons.prems(4) by (simp add: tt_enter_def Let_def id tt_listed_def dset_fresh_end image_image)
    with Cons.prems new show ?thesis
      by (intro Cons.IH [of "ks @ [?k]" "snd (tt_enter ty tt c t m)"]) (auto simp: TT_Begin tt_enter_def Let_def id)
  next
    case (TT_End i b now)
    show ?thesis
    proof (cases "i < length ks")
      case True
      define xs k ys where "xs = take i ks" and "k = ks ! i" and "ys = drop (Suc i) ks"
      then have ks: "ks = xs @ k # ys" "i = length xs" using id_take_nth_drop [OF True] True by simp_all
      let ?m = "tt_close k (if b then tt_handle_timeout now k m else m)"
      have "tt_active ?m = tt_listed (xs @ ys)"
        using Cons.prems(2,4) ddel_listed [of xs k ys] by (simp add: ks)
      with Cons.prems show ?thesis
        by (intro Cons.IH [of "xs @ ys" ?m]) (auto simp: TT_End ks)
    next
      case False
      with Cons show ?thesis by (simp add: TT_End)
    qed
  qed
qed simp

text \<open>
  What is reported as active is what is under way. As long as no two calls of one kind of operation begin
  in the same millisecond, the entries of the manager are those of the calls that have begun and not
  ended, in this order, whatever the interleaving.
\<close>

theorem tt_active_exact:
  assumes "distinct (tt_begun ss)" and "fold tt_do ss (tt_init, []) = (m, ks)"
  shows "tt_active m = map (\<lambda>k. (ttk_operation_id k, tt_entry k)) ks"
  using tt_begun_fresh [OF assms(1) _ _ _ assms(2)] by (simp add: tt_init_def tt_listed_def)

text \<open>Two calls in one millisecond share an entry, and the first one that ends removes it.\<close>

lemma operation_id_differs: "\<lfloor>t * 1000\<rfloor> \<noteq> \<lfloor>t' * 1000\<rfloor> \<Longrightarrow> 0 \<le> t \<Longrightarrow> 0 \<le> t' \<Longrightarrow> tt_operation_id ty t \<noteq> tt_operation_id ty t'"
  using inj_nat_str by (auto simp: tt_operation_id_def int_str_def inj_eq eq_nat_nat_iff)

theorem tt_active_exact_witness:
  "case fold tt_do [TT_Begin ''api_gateway'' TT_READ None 5, TT_Begin ''api_gateway'' TT_READ None 6, TT_End 0 True 7]
     (tt_init, []) of (m, ks) \<Rightarrow> length ks = 1 \<and> tt_active m = map (\<lambda>k. (ttk_operation_id k, tt_entry k)) ks"
proof -
  let ?ss = "[TT_Begin ''api_gateway'' TT_READ None 5, TT_Begin ''api_gateway'' TT_READ None 6, TT_End 0 True 7]"
  obtain m ks where run: "fold tt_do ?ss (tt_init, []) = (m, ks)" by fastforce
  have "distinct (tt_begun ?ss)" by (simp add: operation_id_differs)
  from tt_active_exact [OF this run] have "tt_active m = map (\<lambda>k. (ttk_operation_id k, tt_entry k)) ks" .
  moreover have "length ks = 1" using run by (auto simp: tt_enter_def Let_def)
  ultimately show ?thesis using run by simp
qed

lemma tt_same_millisecond:
  "case fold tt_do [TT_Begin ty tt c t, TT_Begin ty tt c t, TT_End 0 False t'] (tt_init, []) of
     (m, ks) \<Rightarrow> length ks = 1 \<and> tt_active m = []"
  by (simp add: tt_enter_def tt_call_of_def tt_init_def Let_def)

section \<open>Recommendations\<close>

lemma length_recent: "length (recent n xs) = min n (length xs)"
  by (simp add: recent_def length_last_n)

text \<open>
  When a longer limit is advised. The share of the last fifty timeouts in all remembered ones
  is taken for a rate of timeouts, so the advice needs fewer than five hundred timeouts of the operation:
  where more have piled up, no longer limit is advised, however long the operations took.
\<close>

theorem tt_increase_advised_iff:
  fixes m ty
  defines "events \<equiv> filter (\<lambda>e. tte_operation_type e = ty) (tt_events m)"
  defines "avg \<equiv> sum_list (map tte_actual_duration_ms (recent 50 events)) / of_nat (length (recent 50 events))"
  assumes a: "tt_get_timeout_recommendations m ty = Some a"
  shows "(\<exists>current new. IncreaseTimeout current new \<in> set (tta_recommendations a)) \<longleftrightarrow>
    length events < 500 \<and> (\<exists>c. dget (tt_configs m) ty = Some c \<and> of_int (ttc_total_timeout_ms c) < avg)"
proof -
  have pos: "0 < length events" using a by (auto simp: tt_get_timeout_recommendations_def Let_def events_def split: if_splits)
  have "1 / 10 < (of_nat (length (recent 50 events)) / of_nat (length events) :: rat) \<longleftrightarrow>
      of_nat (length events) < (10 * of_nat (length (recent 50 events)) :: rat)"
    using pos by (simp add: field_simps)
  also have "\<dots> \<longleftrightarrow> length events < 10 * length (recent 50 events)"
    by (metis of_nat_less_iff of_nat_mult of_nat_numeral)
  also have "\<dots> \<longleftrightarrow> length events < 500" using pos by (auto simp: length_recent min_def)
  finally have rate: "1 / 10 < (of_nat (length (recent 50 events)) / of_nat (length events) :: rat) \<longleftrightarrow> length events < 500" .
  have "tta_recommendations a =
      (if length events < 500 then tt_increase m ty avg else []) @
      (if 5 < length (filter (\<lambda>e. tte_severity e = TS_CRITICAL) (recent 50 events))
       then [UseCircuitBreaker (length (filter (\<lambda>e. tte_severity e = TS_CRITICAL) (recent 50 events)))] else [])"
    using a pos by (auto simp: tt_get_timeout_recommendations_def Let_def rate [symmetric] events_def [symmetric] avg_def [symmetric])
  then show ?thesis by (auto simp: tt_increase_def split: option.splits)
qed

definition slow_timeout :: tt_event where
  "slow_timeout =
     \<lparr>tte_event_id = ''timeout_api_gateway_0'', tte_operation_type = ''api_gateway'', tte_timeout_type = TT_TOTAL,
      tte_timeout_value_ms = 5000, tte_actual_duration_ms = 6000, tte_severity = TS_CRITICAL, tte_occurred_at = 6,
      tte_context = JDict []\<rparr>"

definition slow_gateway :: "nat \<Rightarrow> tiers" where
  "slow_gateway n = tt_init\<lparr>tt_events := replicate n slow_timeout\<rparr>"

theorem tt_increase_advised_iff_witness:
  "case (tt_get_timeout_recommendations (slow_gateway 499) ''api_gateway'',
         tt_get_timeout_recommendations (slow_gateway 500) ''api_gateway'') of
     (Some a, Some b) \<Rightarrow>
       (\<exists>current new. IncreaseTimeout current new \<in> set (tta_recommendations a)) \<and>
       (\<nexists>current new. IncreaseTimeout current new \<in> set (tta_recommendations b))
   | _ \<Rightarrow> False"
proof -
  have advice: "\<exists>a. tt_get_timeout_recommendations (slow_gateway n) ''api_gateway'' = Some a" if "0 < n" for n
    using that by (simp add: tt_get_timeout_recommendations_def Let_def slow_gateway_def slow_timeout_def)
  obtain a b where ab: "tt_get_timeout_recommendations (slow_gateway 499) ''api_gateway'' = Some a"
    "tt_get_timeout_recommendations (slow_gateway 500) ''api_gateway'' = Some b"
    using advice [of 499] advice [of 500] by auto
  have api: "dget (tt_configs (slow_gateway n)) ''api_gateway'' = Some c \<Longrightarrow> ttc_total_timeout_ms c = 5000"
    "\<exists>c. dget (tt_configs (slow_gateway n)) ''api_gateway'' = Some c" for n c
    by (auto simp: slow_gateway_def tt_init_def tt_default_configs_def tt_tier_def)
  have events: "filter (\<lambda>e. tte_operation_type e = ''api_gateway'') (tt_events (slow_gateway n)) = replicate n slow_timeout" for n
    by (simp add: slow_gateway_def slow_timeout_def)
  have recent: "recent 50 (replicate 499 slow_timeout) = replicate 50 slow_timeout"
    by (simp add: recent_def last_n_def)
  have "sum_list (map tte_actual_duration_ms (replicate 50 slow_timeout)) / of_nat (length (replicate 50 slow_timeout)) = 6000"
    by (simp add: sum_list_replicate slow_timeout_def)
  moreover obtain c where "dget (tt_configs (slow_gateway 499)) ''api_gateway'' = Some c" using api(2) [of 499] by blast
  ultimately have "\<exists>current new. IncreaseTimeout current new \<in> set (tta_recommendations a)"
    using tt_increase_advised_iff [OF ab(1)] api(1) [of 499 c] by (simp add: events recent)
  moreover have "\<nexists>current new. IncreaseTimeout current new \<in> set (tta_recommendations b)"
    using tt_increase_advised_iff [OF ab(2)] by (simp add: events)
  ultimately show ?thesis using ab by simp
qed

end
