(* ===== verification/Runbooks.thy ===== *)
theory Runbooks
  imports Json "HOL-Library.Sublist"
begin

text \<open>
  \<^verbatim>\<open>libs/infrastructure/dr_runbooks.py\<close>: runbooks, their validation, executions and roll-back. The
  execution objects live in a heap, because a task keeps the object it found while the dict of
  executions may be given a new one under the same identifier. Commands, scripts and manual
  work are simulated in the code by a sleep and a random draw; the draws are an argument of the
  model, and what was performed is recorded in \<open>rw_trace\<close>. The argument \<open>parameters\<close> is passed on but never
  read, and left out, as are the notices to event handlers, of which there are none.
\<close>

section \<open>Data\<close>

datatype runbook_status = RB_DRAFT | RB_ACTIVE | RB_TESTING | RB_DEPRECATED

datatype runbook_type = RB_DISASTER_RECOVERY | RB_FAILOVER | RB_RECOVERY | RB_MAINTENANCE | RB_EMERGENCY

datatype runbook_step_status = ST_PENDING | ST_RUNNING | ST_COMPLETED | ST_FAILED | ST_SKIPPED

fun runbook_step_status_value :: "runbook_step_status \<Rightarrow> string" where
  "runbook_step_status_value ST_PENDING = ''pending''"
| "runbook_step_status_value ST_RUNNING = ''running''"
| "runbook_step_status_value ST_COMPLETED = ''completed''"
| "runbook_step_status_value ST_FAILED = ''failed''"
| "runbook_step_status_value ST_SKIPPED = ''skipped''"

datatype step_type = STEP_MANUAL | STEP_AUTOMATED | STEP_VERIFICATION | STEP_NOTIFICATION

record rb_step =
  rbs_step_id :: string
  rbs_title :: string
  rbs_description :: string
  rbs_step_type :: step_type
  rbs_command :: "string option"
  rbs_script :: "string option"
  rbs_timeout_seconds :: int
  rbs_retry_count :: int
  rbs_dependencies :: "string list option"
  rbs_verification_script :: "string option"
  rbs_rollback_script :: "string option"
  rbs_notifications :: "string list option"

record rb_execution =
  rbx_execution_id :: string
  rbx_runbook_id :: string
  rbx_status :: runbook_step_status
  rbx_started_at :: rat
  rbx_completed_at :: "rat option"
  rbx_executed_by :: string
  rbx_steps_executed :: "string list"
  rbx_current_step :: "string option"
  rbx_error_message :: "string option"
  rbx_rollback_required :: bool

record runbook =
  rbk_runbook_id :: string
  rbk_title :: string
  rbk_description :: string
  rbk_runbook_type :: runbook_type
  rbk_status :: runbook_status
  rbk_version :: string
  rbk_created_by :: string
  rbk_created_at :: rat
  rbk_updated_by :: string
  rbk_updated_at :: rat
  rbk_steps :: "rb_step list"
  rbk_tags :: "string list option"
  rbk_estimated_duration_minutes :: int
  rbk_prerequisites :: "string list option"
  rbk_rollback_available :: bool

text \<open>
  The manager. \<open>dr_heap\<close> holds the execution objects, \<open>dr_executions\<close> refers to them; \<open>dr_tasks\<close> are the
  tasks that were created, each for an execution identifier, and \<open>dr_execution_tasks\<close> refers to those.
\<close>

record drm =
  dr_region :: string
  dr_runbooks :: "(string, runbook) dict"
  dr_executions :: "(string, nat) dict"
  dr_execution_tasks :: "(string, nat) dict"
  dr_heap :: "rb_execution list"
  dr_tasks :: "string list"

definition drm_init :: "string \<Rightarrow> drm" where
  "drm_init region =
     \<lparr>dr_region = region, dr_runbooks = [], dr_executions = [], dr_execution_tasks = [], dr_heap = [], dr_tasks = []\<rparr>"

text \<open>The truth value of an optional text, and \<open>x or []\<close> of an optional list.\<close>

definition has_text :: "string option \<Rightarrow> bool" where
  "has_text x \<longleftrightarrow> (case x of None \<Rightarrow> False | Some s \<Rightarrow> s \<noteq> [])"

definition elements :: "'a list option \<Rightarrow> 'a list" where
  "elements x = (case x of None \<Rightarrow> [] | Some xs \<Rightarrow> xs)"

section \<open>Creating and starting\<close>

definition drm_validate_runbook :: "runbook \<Rightarrow> bool" where
  "drm_validate_runbook r \<longleftrightarrow>
     rbk_runbook_id r \<noteq> [] \<and> rbk_title r \<noteq> [] \<and> rbk_steps r \<noteq> [] \<and>
     (\<forall>step \<in> set (rbk_steps r). \<forall>dep \<in> set (elements (rbs_dependencies step)).
        dep \<in> rbs_step_id ` set (rbk_steps r))"

definition drm_create_runbook :: "runbook \<Rightarrow> drm \<Rightarrow> bool \<times> drm" where
  "drm_create_runbook r m =
     (if drm_validate_runbook r then (True, m\<lparr>dr_runbooks := dset (rbk_runbook_id r) r (dr_runbooks m)\<rparr>)
      else (False, m))"

definition drm_execution_id :: "string \<Rightarrow> rat \<Rightarrow> string" where
  "drm_execution_id runbook_id now = runbook_id @ ''_'' @ int_str \<lfloor>now\<rfloor>"

definition new_execution :: "string \<Rightarrow> string \<Rightarrow> string \<Rightarrow> rat \<Rightarrow> rb_execution" where
  "new_execution execution_id runbook_id executed_by now =
     \<lparr>rbx_execution_id = execution_id, rbx_runbook_id = runbook_id, rbx_status = ST_PENDING, rbx_started_at = now,
      rbx_completed_at = None, rbx_executed_by = executed_by, rbx_steps_executed = [], rbx_current_step = None,
      rbx_error_message = None, rbx_rollback_required = False\<rparr>"

definition drm_execute_runbook :: "rat \<Rightarrow> string \<Rightarrow> string \<Rightarrow> drm \<Rightarrow> string option \<times> drm" where
  "drm_execute_runbook now runbook_id executed_by m =
     (case dget (dr_runbooks m) runbook_id of
        None \<Rightarrow> (None, m)
      | Some r \<Rightarrow>
          if rbk_status r \<noteq> RB_ACTIVE then (None, m)
          else (let execution_id = drm_execution_id runbook_id now
                in (Some execution_id,
                    m\<lparr>dr_heap := dr_heap m @ [new_execution execution_id runbook_id executed_by now],
                      dr_executions := dset execution_id (length (dr_heap m)) (dr_executions m),
                      dr_tasks := dr_tasks m @ [execution_id],
                      dr_execution_tasks := dset execution_id (length (dr_tasks m)) (dr_execution_tasks m)\<rparr>)))"

section \<open>The world of a task\<close>

datatype rb_action = RbCommand string bool | RbScript string bool | RbManual string bool | RbHealth bool | RbNotify string

record rb_world =
  rw_drm :: drm
  rw_draws :: "nat \<Rightarrow> rat"
  rw_drawn :: nat
  rw_trace :: "rb_action list"

definition rb_get :: "(rb_world \<Rightarrow> 'a) \<Rightarrow> (rb_world, 'a) coro" where
  "rb_get g dl t w = (Ok (g w), t, w)"

definition rb_put :: "(rb_world \<Rightarrow> rb_world) \<Rightarrow> (rb_world, unit) coro" where
  "rb_put f dl t w = (Ok (), t, f w)"

definition rw_exec :: "nat \<Rightarrow> rb_world \<Rightarrow> rb_execution" where
  "rw_exec n w = dr_heap (rw_drm w) ! n"

definition rw_set_exec :: "nat \<Rightarrow> (rb_execution \<Rightarrow> rb_execution) \<Rightarrow> rb_world \<Rightarrow> rb_world" where
  "rw_set_exec n f w = w\<lparr>rw_drm := (rw_drm w)\<lparr>dr_heap := (dr_heap (rw_drm w))[n := f (rw_exec n w)]\<rparr>\<rparr>"

text \<open>\<open>random.random() > p\<close>, whose result decides an action.\<close>

definition rb_decide :: "rat \<Rightarrow> (bool \<Rightarrow> rb_action) \<Rightarrow> (rb_world, bool) coro" where
  "rb_decide p act dl t w =
     (let success = p < rw_draws w (rw_drawn w)
      in (Ok success, t, w\<lparr>rw_drawn := rw_drawn w + 1, rw_trace := rw_trace w @ [act success]\<rparr>))"

text \<open>\<open>try: ... except Exception: return False\<close>.\<close>

definition rb_guarded :: "(rb_world, bool) coro \<Rightarrow> (rb_world, bool) coro" where
  "rb_guarded f = co_catch f (\<lambda>_. co_return False)"

section \<open>Executing a step\<close>

definition rb_execute_command :: "string \<Rightarrow> (rb_world, bool) coro" where
  "rb_execute_command command =
     rb_guarded (co_bind (sleep 1) (\<lambda>_. rb_decide (1 / 20) (RbCommand command)))"

definition rb_execute_script :: "string \<Rightarrow> (rb_world, bool) coro" where
  "rb_execute_script script =
     rb_guarded (co_bind (sleep 2) (\<lambda>_. rb_decide (1 / 10) (RbScript script)))"

definition rb_verify_system_health :: "(rb_world, bool) coro" where
  "rb_verify_system_health = rb_guarded (rb_decide (1 / 20) RbHealth)"

definition rb_send_notification :: "string \<Rightarrow> (rb_world, unit) coro" where
  "rb_send_notification notification =
     co_catch (co_bind (rb_put (\<lambda>w. w\<lparr>rw_trace := rw_trace w @ [RbNotify notification]\<rparr>)) (\<lambda>_. sleep (1 / 2)))
       (\<lambda>_. co_return ())"

definition rb_execute_automated_step :: "rb_step \<Rightarrow> (rb_world, bool) coro" where
  "rb_execute_automated_step step =
     rb_guarded
       (if \<not> has_text (rbs_command step) \<and> \<not> has_text (rbs_script step) then co_return False
        else co_bind (if has_text (rbs_command step) then rb_execute_command (the (rbs_command step))
                      else rb_execute_script (the (rbs_script step)))
          (\<lambda>success.
             if success \<and> has_text (rbs_verification_script step)
             then rb_execute_script (the (rbs_verification_script step))
             else co_return success))"

definition rb_execute_manual_step :: "rb_step \<Rightarrow> (rb_world, bool) coro" where
  "rb_execute_manual_step step =
     rb_guarded (co_bind (sleep 2) (\<lambda>_. rb_decide (1 / 10) (RbManual (rbs_step_id step))))"

definition rb_execute_verification_step :: "rb_step \<Rightarrow> (rb_world, bool) coro" where
  "rb_execute_verification_step step =
     rb_guarded
       (if has_text (rbs_verification_script step) then rb_execute_script (the (rbs_verification_script step))
        else rb_verify_system_health)"

definition rb_execute_notification_step :: "rb_step \<Rightarrow> (rb_world, bool) coro" where
  "rb_execute_notification_step step =
     rb_guarded (co_bind (co_each rb_send_notification (elements (rbs_notifications step))) (\<lambda>_. co_return True))"

definition rb_execute_step :: "rb_step \<Rightarrow> (rb_world, bool) coro" where
  "rb_execute_step step =
     rb_guarded
       (case rbs_step_type step of
          STEP_AUTOMATED \<Rightarrow> rb_execute_automated_step step
        | STEP_VERIFICATION \<Rightarrow> rb_execute_verification_step step
        | STEP_NOTIFICATION \<Rightarrow> rb_execute_notification_step step
        | STEP_MANUAL \<Rightarrow> rb_execute_manual_step step)"

section \<open>Executing a runbook\<close>

definition rb_check_step_dependencies :: "rb_step \<Rightarrow> string list \<Rightarrow> bool" where
  "rb_check_step_dependencies step executed_steps \<longleftrightarrow>
     (\<forall>dep \<in> set (elements (rbs_dependencies step)). dep \<in> set executed_steps)"

text \<open>
  The roll-back looks the execution and its runbook up again. The text of a \<open>KeyError\<close> is the key in quotes.
\<close>

definition rb_rollback_step :: "nat \<Rightarrow> rb_step \<Rightarrow> (rb_world, unit) coro" where
  "rb_rollback_step n step =
     co_bind (rb_get (\<lambda>w. rbs_step_id step \<in> set (rbx_steps_executed (rw_exec n w)))) (\<lambda>executed.
       if executed \<and> has_text (rbs_rollback_script step)
       then co_catch (co_bind (rb_execute_script (the (rbs_rollback_script step))) (\<lambda>_. co_return ()))
              (\<lambda>_. co_return ())
       else co_return ())"

definition missing_key :: "string \<Rightarrow> exn" where
  "missing_key k = key_error (CHR 0x27 # k @ [CHR 0x27])"

definition rb_lookup :: "string \<Rightarrow> (rb_world, nat \<times> runbook) coro" where
  "rb_lookup execution_id =
     co_bind (rb_get (\<lambda>w. dget (dr_executions (rw_drm w)) execution_id)) (\<lambda>x.
       case x of
         None \<Rightarrow> co_raise (missing_key execution_id)
       | Some n \<Rightarrow>
           co_bind (rb_get (\<lambda>w. dget (dr_runbooks (rw_drm w)) (rbx_runbook_id (rw_exec n w)))) (\<lambda>y.
             case y of
               None \<Rightarrow> co_bind (rb_get (\<lambda>w. rbx_runbook_id (rw_exec n w))) (\<lambda>i. co_raise (missing_key i))
             | Some r \<Rightarrow> co_return (n, r)))"

definition rb_execute_rollback :: "string \<Rightarrow> (rb_world, unit) coro" where
  "rb_execute_rollback execution_id =
     co_catch (co_bind (rb_lookup execution_id) (\<lambda>(n, r). co_each (rb_rollback_step n) (rev (rbk_steps r))))
       (\<lambda>_. co_return ())"

definition rb_finish :: "nat \<Rightarrow> runbook_step_status \<Rightarrow> (rb_world, unit) coro" where
  "rb_finish n status =
     co_bind co_now (\<lambda>now. rb_put (rw_set_exec n (\<lambda>x. x\<lparr>rbx_status := status, rbx_completed_at := Some now\<rparr>)))"

definition rb_failed :: "nat \<Rightarrow> exn \<Rightarrow> (rb_world, unit) coro" where
  "rb_failed n e =
     co_bind (rb_put (rw_set_exec n (\<lambda>x. x\<lparr>rbx_error_message := Some (message e)\<rparr>))) (\<lambda>_. rb_finish n ST_FAILED)"

text \<open>The body of the loop over the steps; the result tells whether the loop goes on.\<close>

definition rb_one_step :: "string \<Rightarrow> nat \<Rightarrow> runbook \<Rightarrow> rb_step \<Rightarrow> (rb_world, bool) coro" where
  "rb_one_step execution_id n r step =
     co_catch
       (co_bind (rb_get (\<lambda>w. rb_check_step_dependencies step (rbx_steps_executed (rw_exec n w)))) (\<lambda>ready.
          if \<not> ready then co_return True
          else
            co_bind (rb_put (rw_set_exec n (\<lambda>x. x\<lparr>rbx_current_step := Some (rbs_step_id step)\<rparr>))) (\<lambda>_.
            co_bind (rb_execute_step step) (\<lambda>success.
              if success
              then co_bind (rb_put (rw_set_exec n (\<lambda>x. x\<lparr>rbx_steps_executed := rbx_steps_executed x @ [rbs_step_id step]\<rparr>)))
                     (\<lambda>_. co_return True)
              else
                co_bind (if rbk_rollback_available r
                         then co_bind (rb_put (rw_set_exec n (\<lambda>x. x\<lparr>rbx_rollback_required := True\<rparr>)))
                                (\<lambda>_. rb_execute_rollback execution_id)
                         else co_return ()) (\<lambda>_.
                co_bind (rb_finish n ST_FAILED) (\<lambda>_. co_return False))))))
       (\<lambda>e. co_bind (rb_failed n e) (\<lambda>_. co_return False))"

fun rb_loop :: "string \<Rightarrow> nat \<Rightarrow> runbook \<Rightarrow> rb_step list \<Rightarrow> (rb_world, bool) coro" where
  "rb_loop execution_id n r [] = co_return True"
| "rb_loop execution_id n r (step # steps) =
     co_bind (rb_one_step execution_id n r step) (\<lambda>go.
       if go then rb_loop execution_id n r steps else co_return False)"

definition rb_execute_runbook_steps :: "string \<Rightarrow> (rb_world, unit) coro" where
  "rb_execute_runbook_steps execution_id =
     co_catch
       (co_bind (rb_lookup execution_id) (\<lambda>(n, r).
        co_bind (rb_put (rw_set_exec n (\<lambda>x. x\<lparr>rbx_status := ST_RUNNING\<rparr>))) (\<lambda>_.
        co_bind (rb_loop execution_id n r (rbk_steps r)) (\<lambda>completed.
          if completed then rb_finish n ST_COMPLETED else co_return ()))))
       (\<lambda>e. co_bind (rb_get (\<lambda>w. dget (dr_executions (rw_drm w)) execution_id)) (\<lambda>x.
          case x of None \<Rightarrow> co_raise (missing_key execution_id) | Some n \<Rightarrow> rb_failed n e))"

section \<open>Reports\<close>

record rb_report =
  rbr_execution :: rb_execution
  rbr_runbook_title :: string
  rbr_status :: string
  rbr_total_steps :: nat
  rbr_progress_percentage :: rat

text \<open>A runbook without steps makes the division raise.\<close>

definition drm_get_execution_status :: "string \<Rightarrow> drm \<Rightarrow> rb_report option" where
  "drm_get_execution_status execution_id m =
     (case dget (dr_executions m) execution_id of
        None \<Rightarrow> None
      | Some n \<Rightarrow>
          (let x = dr_heap m ! n
           in case dget (dr_runbooks m) (rbx_runbook_id x) of
                None \<Rightarrow> None
              | Some r \<Rightarrow>
                  if rbk_steps r = [] then None
                  else Some \<lparr>rbr_execution = x, rbr_runbook_title = rbk_title r,
                             rbr_status = runbook_step_status_value (rbx_status x), rbr_total_steps = length (rbk_steps r),
                             rbr_progress_percentage =
                               of_nat (length (rbx_steps_executed x)) / of_nat (length (rbk_steps r)) * 100\<rparr>))"

definition drm_get_runbook :: "string \<Rightarrow> drm \<Rightarrow> runbook option" where
  "drm_get_runbook runbook_id m = dget (dr_runbooks m) runbook_id"

record drm_runbooks_report =
  drr_region :: string
  drr_total :: nat
  drr_active :: nat
  drr_draft :: nat
  drr_deprecated :: nat
  drr_runbooks :: "(string, runbook) dict"

definition drm_get_all_runbooks :: "drm \<Rightarrow> drm_runbooks_report" where
  "drm_get_all_runbooks m =
     (let rs = map snd (dr_runbooks m); having = (\<lambda>s. length (filter (\<lambda>r. rbk_status r = s) rs))
      in \<lparr>drr_region = dr_region m, drr_total = length rs, drr_active = having RB_ACTIVE, drr_draft = having RB_DRAFT,
          drr_deprecated = having RB_DEPRECATED,
          drr_runbooks = fold (\<lambda>r. dset (rbk_runbook_id r) r) rs []\<rparr>)"

record drm_executions_report =
  dre_region :: string
  dre_total :: nat
  dre_pending :: nat
  dre_running :: nat
  dre_completed :: nat
  dre_failed :: nat
  dre_executions :: "(string, rb_report option) dict"

definition drm_get_all_executions :: "drm \<Rightarrow> drm_executions_report" where
  "drm_get_all_executions m =
     (let xs = map (\<lambda>(_, n). dr_heap m ! n) (dr_executions m);
          having = (\<lambda>s. length (filter (\<lambda>x. rbx_status x = s) xs))
      in \<lparr>dre_region = dr_region m, dre_total = length xs, dre_pending = having ST_PENDING, dre_running = having ST_RUNNING,
          dre_completed = having ST_COMPLETED, dre_failed = having ST_FAILED,
          dre_executions = fold (\<lambda>x. dset (rbx_execution_id x) (drm_get_execution_status (rbx_execution_id x) m)) xs []\<rparr>)"

text \<open>The tasks that \<open>cleanup\<close> cancels.\<close>

definition drm_cleanup :: "drm \<Rightarrow> nat list" where
  "drm_cleanup m = map snd (dr_execution_tasks m)"

section \<open>Actions are quiet\<close>

text \<open>
  What a step does is recorded in the trace and changes nothing else of the world but the draws; it raises nothing and is
  cancelled only by a deadline.
\<close>

definition quiet :: "(rb_world, 'a) coro \<Rightarrow> bool" where
  "quiet f \<longleftrightarrow> (\<forall>dl t w r t' w'. f dl t w = (r, t', w') \<longrightarrow>
     rw_drm w' = rw_drm w \<and> prefix (rw_trace w) (rw_trace w') \<and> (\<forall>e. r \<noteq> Raise e) \<and> (dl = None \<longrightarrow> r \<noteq> Cancelled))"

lemma quietD:
  assumes "quiet f" and "f dl t w = (r, t', w')"
  shows "rw_drm w' = rw_drm w" "prefix (rw_trace w) (rw_trace w')" "r \<noteq> Raise e" "dl = None \<Longrightarrow> r \<noteq> Cancelled"
  using assms unfolding quiet_def by blast+

named_theorems quiet_intros \<open>coroutines that only act\<close>

lemma quiet_basic [quiet_intros]:
  "quiet (co_return x)" "quiet (rb_decide p act)" "quiet (rb_put (\<lambda>w. w\<lparr>rw_trace := rw_trace w @ as\<rparr>))"
  by (auto simp: quiet_def co_return_def rb_decide_def rb_put_def Let_def)

lemma quiet_sleep [quiet_intros]: "quiet (sleep d)"
  by (auto simp: quiet_def sleep_def Let_def split: option.splits if_splits)

lemma quiet_bind [quiet_intros]:
  assumes f: "quiet f" and g: "\<And>x. quiet (g x)"
  shows "quiet (co_bind f g)"
  unfolding quiet_def
proof (intro allI impI)
  fix dl t w r t' w'
  assume run: "co_bind f g dl t w = (r, t', w')"
  obtain q t1 w1 where q: "f dl t w = (q, t1, w1)" by (rule prod_cases3)
  show "rw_drm w' = rw_drm w \<and> prefix (rw_trace w) (rw_trace w') \<and> (\<forall>e. r \<noteq> Raise e) \<and> (dl = None \<longrightarrow> r \<noteq> Cancelled)"
  proof (cases q)
    case (Ok x)
    have "g x dl t1 w1 = (r, t', w')" using run by (simp add: co_bind_def q Ok)
    from quietD [OF f q] quietD [OF g this] show ?thesis using prefix_order.trans by auto
  qed (use run quietD [OF f q] in \<open>auto simp: co_bind_def q\<close>)
qed

lemma quiet_catch [quiet_intros]: "quiet f \<Longrightarrow> quiet (co_catch f h)"
  unfolding quiet_def co_catch_def by (fastforce split: prod.splits outcome.splits)

lemma quiet_guarded [quiet_intros]: "quiet f \<Longrightarrow> quiet (rb_guarded f)"
  unfolding rb_guarded_def by (rule quiet_catch)

lemma quiet_each [quiet_intros]: "(\<And>x. quiet (f x)) \<Longrightarrow> quiet (co_each f xs)"
  by (induction xs) (auto intro: quiet_intros)

lemma quiet_execute_step: "quiet (rb_execute_step s)"
  unfolding rb_execute_step_def rb_execute_automated_step_def rb_execute_verification_step_def
    rb_execute_notification_step_def rb_execute_manual_step_def rb_send_notification_def rb_execute_script_def rb_execute_command_def
    rb_verify_system_health_def
  by (cases "rbs_step_type s") (auto intro!: quiet_intros)

section \<open>Rolling back\<close>

text \<open>The roll-back scripts of those among some steps whose identifier was executed.\<close>

definition rollback_scripts :: "string list \<Rightarrow> rb_step list \<Rightarrow> string list" where
  "rollback_scripts executed steps =
     map (\<lambda>s. the (rbs_rollback_script s)) (filter (\<lambda>s. rbs_step_id s \<in> set executed \<and> has_text (rbs_rollback_script s)) steps)"

lemma execute_script_traced:
  assumes "rb_execute_script script dl t w = (r, t', w')"
  shows "rw_drm w' = rw_drm w" "prefix (rw_trace w) (rw_trace w')" "r \<noteq> Raise e" "dl = None \<Longrightarrow> r \<noteq> Cancelled"
    "r = Ok b \<Longrightarrow> rw_trace w' = rw_trace w @ [RbScript script b]"
proof -
  have "quiet (rb_execute_script script)" unfolding rb_execute_script_def by (intro quiet_intros)
  from quietD [OF this assms] show "rw_drm w' = rw_drm w" "prefix (rw_trace w) (rw_trace w')" "r \<noteq> Raise e" "dl = None \<Longrightarrow> r \<noteq> Cancelled"
    by auto
  show "r = Ok b \<Longrightarrow> rw_trace w' = rw_trace w @ [RbScript script b]"
    using assms by (auto simp: rb_execute_script_def rb_guarded_def co_catch_def co_bind_def rb_decide_def Let_def sleep_def co_return_def
        split: prod.splits outcome.splits option.splits if_splits)
qed

lemma rollback_step:
  assumes "rb_rollback_step n s dl t w = (r, t', w')"
  shows "rw_drm w' = rw_drm w \<and> prefix (rw_trace w) (rw_trace w') \<and> (\<forall>e. r \<noteq> Raise e) \<and> (dl = None \<longrightarrow> r \<noteq> Cancelled) \<and>
    (r = Ok () \<longrightarrow> (\<exists>oks. rw_trace w' = rw_trace w @ map2 RbScript (rollback_scripts (rbx_steps_executed (rw_exec n w)) [s]) oks \<and>
       length oks = length (rollback_scripts (rbx_steps_executed (rw_exec n w)) [s])))"
proof (cases "rbs_step_id s \<in> set (rbx_steps_executed (rw_exec n w)) \<and> has_text (rbs_rollback_script s)")
  case True
  obtain q t1 w1 where q: "rb_execute_script (the (rbs_rollback_script s)) dl t w = (q, t1, w1)" by (rule prod_cases3)
  note script = execute_script_traced [OF q]
  have scripts: "rollback_scripts (rbx_steps_executed (rw_exec n w)) [s] = [the (rbs_rollback_script s)]"
    using True by (simp add: rollback_scripts_def)
  have run: "rb_rollback_step n s dl t w = (case q of Ok _ \<Rightarrow> Ok () | Raise _ \<Rightarrow> Ok () | Cancelled \<Rightarrow> Cancelled, t1, w1)"
    using True q by (simp add: rb_rollback_step_def rb_get_def co_bind_def co_catch_def co_return_def split: outcome.split)
  show ?thesis
  proof (cases q)
    case (Ok b)
    with run assms have "r = Ok ()" "w' = w1" by auto
    with script(1,2) script(5) [OF Ok] show ?thesis unfolding scripts by (auto intro: exI [of _ "[b]"])
  next
    case Cancelled
    with run assms have "r = Cancelled" "w' = w1" by auto
    with script(1,2,4) Cancelled show ?thesis by auto
  qed (use script(3) in simp)
next
  case False
  then show ?thesis
    using assms by (auto simp: rb_rollback_step_def rb_get_def co_bind_def co_return_def rollback_scripts_def)
qed

lemma rollback_scripts_Cons: "rollback_scripts ex (s # ss) = rollback_scripts ex [s] @ rollback_scripts ex ss"
  by (simp add: rollback_scripts_def)

lemma rollback_each:
  assumes "co_each (rb_rollback_step n) ss dl t w = (r, t', w')"
  shows "rw_drm w' = rw_drm w \<and> prefix (rw_trace w) (rw_trace w') \<and> (\<forall>e. r \<noteq> Raise e) \<and> (dl = None \<longrightarrow> r \<noteq> Cancelled) \<and>
    (r = Ok () \<longrightarrow> (\<exists>oks. rw_trace w' = rw_trace w @ map2 RbScript (rollback_scripts (rbx_steps_executed (rw_exec n w)) ss) oks \<and>
       length oks = length (rollback_scripts (rbx_steps_executed (rw_exec n w)) ss)))"
  using assms
proof (induction ss arbitrary: t w)
  case Nil
  then show ?case by (auto simp: co_return_def rollback_scripts_def)
next
  case (Cons s ss)
  obtain q t1 w1 where q: "rb_rollback_step n s dl t w = (q, t1, w1)" by (rule prod_cases3)
  note one = rollback_step [OF q]
  show ?case
  proof (cases q)
    case (Ok u)
    have rest: "co_each (rb_rollback_step n) ss dl t1 w1 = (r, t', w')" using Cons.prems q Ok by (simp add: co_bind_def)
    let ?ex = "rbx_steps_executed (rw_exec n w)"
    have ex: "rbx_steps_executed (rw_exec n w1) = ?ex" using one by (simp add: rw_exec_def)
    from one Ok obtain oks where oks: "rw_trace w1 = rw_trace w @ map2 RbScript (rollback_scripts ?ex [s]) oks"
      "length oks = length (rollback_scripts ?ex [s])" by auto
    note IH = Cons.IH [OF rest, unfolded ex]
    have "\<exists>oks. rw_trace w' = rw_trace w @ map2 RbScript (rollback_scripts ?ex (s # ss)) oks \<and>
        length oks = length (rollback_scripts ?ex (s # ss))" if "r = Ok ()"
    proof -
      from IH that obtain oks' where "rw_trace w' = rw_trace w1 @ map2 RbScript (rollback_scripts ?ex ss) oks'"
        "length oks' = length (rollback_scripts ?ex ss)" by auto
      with oks show ?thesis
        by (intro exI [of _ "oks @ oks'"]) (simp add: rollback_scripts_Cons [of ?ex s ss] zip_append)
    qed
    with IH one prefix_order.trans show ?thesis by (auto simp: ex)
  qed (use Cons.prems one q in \<open>auto simp: co_bind_def\<close>)
qed

section \<open>One step, and all of them\<close>

text \<open>The execution and the runbook a task works on.\<close>

definition refers :: "string \<Rightarrow> nat \<Rightarrow> runbook \<Rightarrow> rb_world \<Rightarrow> bool" where
  "refers execution_id n r w \<longleftrightarrow>
     n < length (dr_heap (rw_drm w)) \<and> dget (dr_executions (rw_drm w)) execution_id = Some n \<and>
     dget (dr_runbooks (rw_drm w)) (rbx_runbook_id (rw_exec n w)) = Some r"

lemma refers_same: "rw_drm w' = rw_drm w \<Longrightarrow> refers eid n r w' \<longleftrightarrow> refers eid n r w"
  by (simp add: refers_def rw_exec_def)

lemma set_exec_simps [simp]:
  "refers eid n r w \<Longrightarrow> rw_exec n (rw_set_exec n f w) = f (rw_exec n w)"
  "rw_trace (rw_set_exec n f w) = rw_trace w"
  by (simp_all add: refers_def rw_exec_def rw_set_exec_def)

lemma refers_set_exec [simp]:
  assumes "\<And>x. rbx_runbook_id (f x) = rbx_runbook_id x" and "refers eid n r w"
  shows "refers eid n r (rw_set_exec n f w)"
proof -
  have "rw_exec n (rw_set_exec n f w) = f (rw_exec n w)" using assms(2) by simp
  then show ?thesis using assms by (simp add: refers_def) (simp add: rw_set_exec_def)
qed

lemma lookup_refers: "refers eid n r w \<Longrightarrow> rb_lookup eid dl t w = (Ok (n, r), t, w)"
  by (simp add: rb_lookup_def refers_def co_bind_def rb_get_def co_return_def)

lemma finish_simp: "rb_finish n st dl t w = (Ok (), t, rw_set_exec n (\<lambda>x. x\<lparr>rbx_status := st, rbx_completed_at := Some t\<rparr>) w)"
  by (simp add: rb_finish_def co_bind_def co_now_def rb_put_def)

lemma execute_rollback:
  assumes "refers eid n r w" and "rb_execute_rollback eid dl t w = (q, t', w')"
  shows "rw_drm w' = rw_drm w \<and> prefix (rw_trace w) (rw_trace w') \<and> (\<forall>e. q \<noteq> Raise e) \<and> (dl = None \<longrightarrow> q \<noteq> Cancelled) \<and>
    (q = Ok () \<longrightarrow> (\<exists>oks. rw_trace w' = rw_trace w @ map2 RbScript (rollback_scripts (rbx_steps_executed (rw_exec n w)) (rev (rbk_steps r))) oks \<and>
       length oks = length (rollback_scripts (rbx_steps_executed (rw_exec n w)) (rev (rbk_steps r)))))"
proof -
  obtain q1 t1 w1 where q: "co_each (rb_rollback_step n) (rev (rbk_steps r)) dl t w = (q1, t1, w1)" by (rule prod_cases3)
  note each = rollback_each [OF q]
  then have "(q, t', w') = (q1, t1, w1)"
    using assms q by (cases q1) (auto simp: rb_execute_rollback_def co_catch_def co_bind_def lookup_refers)
  with each show ?thesis by simp
qed

text \<open>The trace ends with the roll-back of what was executed, in the reverse order of the runbook.\<close>

definition rolled_back :: "runbook \<Rightarrow> string list \<Rightarrow> rb_action list \<Rightarrow> rb_action list \<Rightarrow> bool" where
  "rolled_back r executed tr tr' \<longleftrightarrow>
     (\<exists>mid oks. prefix tr mid \<and> tr' = mid @ map2 RbScript (rollback_scripts executed (rev (rbk_steps r))) oks \<and>
        length oks = length (rollback_scripts executed (rev (rbk_steps r))))"

lemma rolled_back_trans: "prefix tr tr1 \<Longrightarrow> rolled_back r ex tr1 tr' \<Longrightarrow> rolled_back r ex tr tr'"
  unfolding rolled_back_def using prefix_order.trans by blast

text \<open>How one pass through the loop ends.\<close>

definition step_result :: "runbook \<Rightarrow> rb_step \<Rightarrow> rat \<Rightarrow> rb_execution \<Rightarrow> rb_execution \<Rightarrow> rb_action list \<Rightarrow> rb_action list \<Rightarrow> bool outcome \<Rightarrow> bool" where
  "step_result r s t' x x' tr tr' q \<longleftrightarrow>
     prefix tr tr' \<and>
     (case q of
        Ok True \<Rightarrow>
          rbx_steps_executed x' = rbx_steps_executed x @
            (if rb_check_step_dependencies s (rbx_steps_executed x) then [rbs_step_id s] else []) \<and>
          rbx_status x' = rbx_status x \<and> rbx_completed_at x' = rbx_completed_at x \<and>
          rbx_rollback_required x' = rbx_rollback_required x
      | Ok False \<Rightarrow>
          rb_check_step_dependencies s (rbx_steps_executed x) \<and> rbx_steps_executed x' = rbx_steps_executed x \<and>
          rbx_status x' = ST_FAILED \<and> rbx_completed_at x' = Some t' \<and>
          (rbk_rollback_available r \<longrightarrow> rbx_rollback_required x' \<and>
             rolled_back r (rbx_steps_executed x) tr tr')
      | Raise _ \<Rightarrow> False
      | Cancelled \<Rightarrow>
          rb_check_step_dependencies s (rbx_steps_executed x) \<and> rbx_steps_executed x' = rbx_steps_executed x \<and>
          rbx_status x' = rbx_status x \<and> rbx_completed_at x' = rbx_completed_at x)"

lemma co_catch_no_raise:
  "f dl t w = (q, t', w') \<Longrightarrow> (\<And>e. q \<noteq> Raise e) \<Longrightarrow> co_catch f h dl t w = (q, t', w')"
  by (cases q) (auto simp: co_catch_def)

lemma one_step:
  assumes n: "refers eid n r w" and run: "rb_one_step eid n r s dl t w = (q, t', w')"
  shows "refers eid n r w' \<and> (dl = None \<longrightarrow> q \<noteq> Cancelled) \<and>
    step_result r s t' (rw_exec n w) (rw_exec n w') (rw_trace w) (rw_trace w') q"
proof (cases "rb_check_step_dependencies s (rbx_steps_executed (rw_exec n w))")
  case False
  with n run show ?thesis
    by (auto simp: rb_one_step_def co_catch_def co_bind_def rb_get_def co_return_def step_result_def)
next
  case True
  define w0 where "w0 = rw_set_exec n (\<lambda>x. x\<lparr>rbx_current_step := Some (rbs_step_id s)\<rparr>) w"
  have n0: "refers eid n r w0" and x0: "rw_exec n w0 = (rw_exec n w)\<lparr>rbx_current_step := Some (rbs_step_id s)\<rparr>"
    and tr0: "rw_trace w0 = rw_trace w" using n by (simp_all add: w0_def)
  obtain p t1 w1 where p: "rb_execute_step s dl t w0 = (p, t1, w1)" by (rule prod_cases3)
  note step = quietD [OF quiet_execute_step p]
  have n1: "refers eid n r w1" using n0 refers_same [OF step(1)] by blast
  have x1: "rw_exec n w1 = rw_exec n w0" using step(1) by (simp add: rw_exec_def)
  note defs = rb_one_step_def co_catch_def co_bind_def rb_get_def rb_put_def co_return_def w0_def [symmetric] p True finish_simp
  consider (ok) "p = Ok True" | (failed) "p = Ok False" | (cancelled) "p = Cancelled"
    using step(3) by (metis (full_types) outcome.exhaust)
  then show ?thesis
  proof cases
    case ok
    with run n1 step(2) show ?thesis by (auto simp: defs step_result_def x1 x0 tr0)
  next
    case cancelled
    with run have "q = Cancelled" "w' = w1" by (simp_all add: defs)
    with cancelled n1 step(2,4) True show ?thesis by (auto simp: step_result_def x1 x0 tr0)
  next
    case failed
    show ?thesis
    proof (cases "rbk_rollback_available r")
      case False
      with failed run n1 step(2) show ?thesis by (auto simp: defs step_result_def x1 x0 tr0)
    next
      case avail: True
      define w2 where "w2 = rw_set_exec n (\<lambda>x. x\<lparr>rbx_rollback_required := True\<rparr>) w1"
      have n2: "refers eid n r w2" and x2: "rw_exec n w2 = (rw_exec n w1)\<lparr>rbx_rollback_required := True\<rparr>"
        and tr2: "rw_trace w2 = rw_trace w1" using n1 by (simp_all add: w2_def)
      obtain u t3 w3 where u: "rb_execute_rollback eid dl t1 w2 = (u, t3, w3)" by (rule prod_cases3)
      note undone = execute_rollback [OF n2 u]
      have n3: "refers eid n r w3" using n2 undone refers_same [of w3 w2] by blast
      have x3: "rw_exec n w3 = rw_exec n w2" using undone by (simp add: rw_exec_def)
      have tr3: "prefix (rw_trace w) (rw_trace w3)" "prefix (rw_trace w) (rw_trace w2)"
        using step(2) undone tr0 tr2 prefix_order.trans by auto
      note defs = defs w2_def [symmetric] u avail
      show ?thesis
      proof (cases u)
        case (Ok z)
        then have ends: "q = Ok False" "t' = t3"
          "w' = rw_set_exec n (\<lambda>x. x\<lparr>rbx_status := ST_FAILED, rbx_completed_at := Some t3\<rparr>) w3"
          using failed run by (auto simp: defs)
        have ex: "rbx_steps_executed (rw_exec n w2) = rbx_steps_executed (rw_exec n w)" by (simp add: x2 x1 x0)
        from undone Ok have "rolled_back r (rbx_steps_executed (rw_exec n w)) (rw_trace w2) (rw_trace w')"
          unfolding rolled_back_def ex by (simp add: ends) (blast intro: prefix_order.refl)
        then have "rolled_back r (rbx_steps_executed (rw_exec n w)) (rw_trace w) (rw_trace w')"
          by (rule rolled_back_trans [OF tr3(2)])
        moreover have "prefix (rw_trace w) (rw_trace w')" using tr3 by (simp add: ends)
        moreover have "refers eid n r w'" using n3 by (simp add: ends)
        ultimately show ?thesis using n3 True by (simp add: ends step_result_def x3 x2 x1 x0)
      next
        case (Raise e)
        with undone show ?thesis by simp
      next
        case Cancelled
        with failed run have "q = Cancelled" "w' = w3" by (simp_all add: defs)
        with Cancelled n3 tr3 undone True show ?thesis by (auto simp: step_result_def x3 x2 x1 x0)
      qed
    qed
  qed
qed

text \<open>The steps that a run without failures executes: those whose dependencies were executed before.\<close>

fun runnable :: "string list \<Rightarrow> rb_step list \<Rightarrow> rb_step list" where
  "runnable executed [] = []"
| "runnable executed (s # ss) =
     (if rb_check_step_dependencies s executed then s # runnable (executed @ [rbs_step_id s]) ss else runnable executed ss)"

text \<open>How a pass over the steps ends that executes the first \<open>k\<close> of the runnable steps \<open>rs\<close>.\<close>

definition loop_ends ::
  "runbook \<Rightarrow> rb_step list \<Rightarrow> nat \<Rightarrow> rb_execution \<Rightarrow> rb_execution \<Rightarrow> rb_action list \<Rightarrow> rb_action list \<Rightarrow> bool outcome \<Rightarrow> bool" where
  "loop_ends r rs k x x' tr tr' q \<longleftrightarrow>
     prefix tr tr' \<and> rbx_steps_executed x' = rbx_steps_executed x @ map rbs_step_id (take k rs) \<and>
     (q = Ok True \<longrightarrow> length rs = k \<and> rbx_status x' = rbx_status x) \<and>
     (q = Ok False \<longrightarrow>
        k < length rs \<and> rbx_status x' = ST_FAILED \<and> rbx_completed_at x' \<noteq> None \<and>
        (rbk_rollback_available r \<longrightarrow> rbx_rollback_required x' \<and>
           rolled_back r (rbx_steps_executed x') tr tr')) \<and>
     (q = Cancelled \<longrightarrow> k < length rs \<and> rbx_status x' = rbx_status x \<and> rbx_completed_at x' = rbx_completed_at x) \<and>
     (\<forall>e. q \<noteq> Raise e)"

definition loop_result ::
  "runbook \<Rightarrow> rb_step list \<Rightarrow> rb_execution \<Rightarrow> rb_execution \<Rightarrow> rb_action list \<Rightarrow> rb_action list \<Rightarrow> bool outcome \<Rightarrow> bool" where
  "loop_result r ss x x' tr tr' q \<longleftrightarrow> (\<exists>k. loop_ends r (runnable (rbx_steps_executed x) ss) k x x' tr tr' q)"

lemma loop_ends_step:
  assumes "rbx_steps_executed x1 = rbx_steps_executed x @ [rbs_step_id s]" "rbx_status x1 = rbx_status x"
    "rbx_completed_at x1 = rbx_completed_at x" "prefix tr tr1" and "loop_ends r rs k x1 x' tr1 tr' q"
  shows "loop_ends r (s # rs) (Suc k) x x' tr tr' q"
  using assms prefix_order.trans [OF assms(4)] rolled_back_trans [OF assms(4)] unfolding loop_ends_def by auto

lemma loop_ends_skip:
  assumes "rbx_steps_executed x1 = rbx_steps_executed x" "rbx_status x1 = rbx_status x"
    "rbx_completed_at x1 = rbx_completed_at x" "prefix tr tr1" and "loop_ends r rs k x1 x' tr1 tr' q"
  shows "loop_ends r rs k x x' tr tr' q"
  using assms prefix_order.trans [OF assms(4)] rolled_back_trans [OF assms(4)] unfolding loop_ends_def by auto

lemma loop_result_step:
  assumes one: "step_result r s t1 x x1 tr tr1 (Ok True)" and rest: "loop_result r ss x1 x' tr1 tr' q"
  shows "loop_result r (s # ss) x x' tr tr' q"
proof -
  from rest obtain k where k: "loop_ends r (runnable (rbx_steps_executed x1) ss) k x1 x' tr1 tr' q"
    by (auto simp: loop_result_def)
  show ?thesis
  proof (cases "rb_check_step_dependencies s (rbx_steps_executed x)")
    case True
    with one have x1: "rbx_steps_executed x1 = rbx_steps_executed x @ [rbs_step_id s]"
      "rbx_status x1 = rbx_status x" "rbx_completed_at x1 = rbx_completed_at x" "prefix tr tr1"
      by (simp_all add: step_result_def)
    from loop_ends_step [OF x1 k] True show ?thesis by (auto simp: loop_result_def x1(1))
  next
    case False
    with one have x1: "rbx_steps_executed x1 = rbx_steps_executed x"
      "rbx_status x1 = rbx_status x" "rbx_completed_at x1 = rbx_completed_at x" "prefix tr tr1"
      by (simp_all add: step_result_def)
    from loop_ends_skip [OF x1 k] False show ?thesis by (auto simp: loop_result_def x1(1))
  qed
qed

lemma loop:
  assumes "refers eid n r w" and "rb_loop eid n r ss dl t w = (q, t', w')"
  shows "refers eid n r w' \<and> (dl = None \<longrightarrow> q \<noteq> Cancelled) \<and>
    loop_result r ss (rw_exec n w) (rw_exec n w') (rw_trace w) (rw_trace w') q"
  using assms
proof (induction ss arbitrary: t w)
  case Nil
  then show ?case by (auto simp: co_return_def loop_result_def loop_ends_def)
next
  case (Cons s ss)
  obtain p t1 w1 where p: "rb_one_step eid n r s dl t w = (p, t1, w1)" by (rule prod_cases3)
  note one = one_step [OF Cons.prems(1) p]
  consider (go) "p = Ok True" | (stop) "p = Ok False" | (cancelled) "p = Cancelled" | (raised) e where "p = Raise e"
    by (metis (full_types) outcome.exhaust)
  then show ?case
  proof cases
    case go
    then have "rb_loop eid n r ss dl t1 w1 = (q, t', w')" using Cons.prems(2) p by (simp add: co_bind_def)
    from Cons.IH [OF _ this] one go show ?thesis using loop_result_step by blast
  next
    case stop
    then have "q = Ok False" "w' = w1" using Cons.prems(2) p by (simp_all add: co_bind_def co_return_def)
    with one stop show ?thesis by (auto simp: step_result_def loop_result_def loop_ends_def intro!: exI [of _ 0])
  next
    case cancelled
    then have "q = Cancelled" "w' = w1" using Cons.prems(2) p by (simp_all add: co_bind_def)
    with one cancelled show ?thesis by (auto simp: step_result_def loop_result_def loop_ends_def intro!: exI [of _ 0])
  qed (use one in \<open>simp add: step_result_def\<close>)
qed

section \<open>Runs\<close>

text \<open>How the run of a task ends that executes the first \<open>k\<close> of the runnable steps.\<close>

definition run_ends ::
  "runbook \<Rightarrow> rb_step list \<Rightarrow> nat \<Rightarrow> rb_execution \<Rightarrow> rb_execution \<Rightarrow> rb_action list \<Rightarrow> rb_action list \<Rightarrow> unit outcome \<Rightarrow> bool" where
  "run_ends r rs k x x' tr tr' q \<longleftrightarrow>
     rbx_steps_executed x' = rbx_steps_executed x @ map rbs_step_id (take k rs) \<and>
     (case q of
        Ok _ \<Rightarrow>
          rbx_completed_at x' \<noteq> None \<and>
          (rbx_status x' = ST_COMPLETED \<and> k = length rs \<or>
           rbx_status x' = ST_FAILED \<and> k < length rs \<and>
           (rbk_rollback_available r \<longrightarrow>
              rbx_rollback_required x' \<and> rolled_back r (rbx_steps_executed x') tr tr'))
      | Raise _ \<Rightarrow> False
      | Cancelled \<Rightarrow>
          k < length rs \<and> rbx_status x' = ST_RUNNING \<and> rbx_completed_at x' = rbx_completed_at x)"

lemma rb_run:
  assumes n: "refers eid n r w" and run: "rb_execute_runbook_steps eid dl t w = (q, t', w')"
  shows "refers eid n r w' \<and> (dl = None \<longrightarrow> q \<noteq> Cancelled) \<and>
    (\<exists>k. run_ends r (runnable (rbx_steps_executed (rw_exec n w)) (rbk_steps r)) k (rw_exec n w) (rw_exec n w')
       (rw_trace w) (rw_trace w') q)"
proof -
  define w1 where "w1 = rw_set_exec n (\<lambda>x. x\<lparr>rbx_status := ST_RUNNING\<rparr>) w"
  have n1: "refers eid n r w1" and x1: "rw_exec n w1 = (rw_exec n w)\<lparr>rbx_status := ST_RUNNING\<rparr>"
    and tr1: "rw_trace w1 = rw_trace w" using n by (simp_all add: w1_def)
  obtain p t2 w2 where p: "rb_loop eid n r (rbk_steps r) dl t w1 = (p, t2, w2)" by (rule prod_cases3)
  from loop [OF n1 p] obtain k where n2: "refers eid n r w2" and c: "dl = None \<longrightarrow> p \<noteq> Cancelled"
    and k: "loop_ends r (runnable (rbx_steps_executed (rw_exec n w)) (rbk_steps r)) k (rw_exec n w1) (rw_exec n w2)
      (rw_trace w) (rw_trace w2) p"
    by (auto simp: loop_result_def x1 tr1)
  note defs = rb_execute_runbook_steps_def co_catch_def co_bind_def rb_put_def lookup_refers [OF n] w1_def [symmetric] p
    finish_simp co_return_def
  consider (all) "p = Ok True" | (stop) "p = Ok False" | (cancelled) "p = Cancelled" | (raised) e where "p = Raise e"
    by (metis (full_types) outcome.exhaust)
  then show ?thesis
  proof cases
    case all
    then have "q = Ok ()" "w' = rw_set_exec n (\<lambda>x. x\<lparr>rbx_status := ST_COMPLETED, rbx_completed_at := Some t2\<rparr>) w2"
      using run by (auto simp: defs)
    with n2 k all show ?thesis by (auto simp: loop_ends_def run_ends_def x1 intro!: exI [of _ k])
  next
    case stop
    then have "q = Ok ()" "w' = w2" using run by (simp_all add: defs)
    with n2 k stop show ?thesis by (auto simp: loop_ends_def run_ends_def x1 intro!: exI [of _ k])
  next
    case cancelled
    then have "q = Cancelled" "w' = w2" using run by (simp_all add: defs)
    with n2 k c cancelled show ?thesis by (auto simp: loop_ends_def run_ends_def x1 intro!: exI [of _ k])
  qed (use k in \<open>simp add: loop_ends_def\<close>)
qed

text \<open>A step is runnable only after its dependencies, and all steps are when they are listed in order.\<close>

definition needs :: "rb_step \<Rightarrow> string set" where
  "needs s = set (elements (rbs_dependencies s))"

lemma check_needs: "rb_check_step_dependencies s ex \<longleftrightarrow> needs s \<subseteq> set ex"
  by (auto simp: rb_check_step_dependencies_def needs_def)

lemma subseq_runnable: "subseq (runnable ex ss) ss"
  by (induction ss arbitrary: ex) auto

lemma runnable_needs:
  assumes "runnable ex ss = xs @ s # ys"
  shows "needs s \<subseteq> set ex \<union> rbs_step_id ` set xs"
  using assms
proof (induction ss arbitrary: ex xs)
  case (Cons a ss)
  show ?case
  proof (cases "rb_check_step_dependencies a ex")
    case True
    with Cons show ?thesis by (cases xs) (auto simp: check_needs dest!: Cons.IH)
  next
    case False
    with Cons show ?thesis by auto
  qed
qed simp

lemma runnable_all:
  assumes "\<And>xs s ys. ss = xs @ s # ys \<Longrightarrow> needs s \<subseteq> set ex \<union> rbs_step_id ` set xs"
  shows "runnable ex ss = ss"
  using assms
proof (induction ss arbitrary: ex)
  case (Cons a ss)
  from Cons.prems [of "[]" a ss] have "rb_check_step_dependencies a ex" by (simp add: check_needs)
  moreover have "runnable (ex @ [rbs_step_id a]) ss = ss"
  proof (rule Cons.IH)
    show "needs s \<subseteq> set (ex @ [rbs_step_id a]) \<union> rbs_step_id ` set xs" if "ss = xs @ s # ys" for xs s ys
      using Cons.prems [of "a # xs" s ys] that by auto
  qed
  ultimately show ?case by simp
qed simp

text \<open>
  C31. Dependencies are respected, by skipping. However a run ends, the executed steps are some of the
  steps of the runbook in its order, each after all its dependencies. An execution is reported as completed
  when every step whose turn came has succeeded; all steps were executed then exactly if the
  runbook lists every step after its dependencies, which its validation does not ask for.
\<close>

theorem rb_completed_in_order:
  assumes "refers eid n r w" and "rbx_steps_executed (rw_exec n w) = []"
    and "rb_execute_runbook_steps eid dl t w = (q, t', w')"
  shows "\<exists>ss. subseq ss (rbk_steps r) \<and> rbx_steps_executed (rw_exec n w') = map rbs_step_id ss \<and>
      (\<forall>xs s ys. ss = xs @ s # ys \<longrightarrow> needs s \<subseteq> rbs_step_id ` set xs) \<and>
      (q = Ok () \<and> rbx_status (rw_exec n w') = ST_COMPLETED \<longrightarrow>
         (ss = rbk_steps r \<longleftrightarrow> (\<forall>xs s ys. rbk_steps r = xs @ s # ys \<longrightarrow> needs s \<subseteq> rbs_step_id ` set xs)))"
proof -
  let ?rs = "runnable [] (rbk_steps r)"
  from rb_run [OF assms(1,3)] obtain k where
    k: "run_ends r ?rs k (rw_exec n w) (rw_exec n w') (rw_trace w) (rw_trace w') q" by (auto simp: assms(2))
  have "subseq (take k ?rs) (rbk_steps r)"
    using subseq_runnable [of "[]" "rbk_steps r"] list_emb_append2 take_is_prefix subseq_order.trans
    by (metis prefix_imp_subseq)
  moreover have "needs s \<subseteq> rbs_step_id ` set xs" if "take k ?rs = xs @ s # ys" for xs s ys
    using runnable_needs [of "[]" "rbk_steps r" xs s "ys @ drop k ?rs"] that
    by (metis append.assoc append_Cons append_take_drop_id empty_set sup_bot_left)
  moreover have "take k ?rs = rbk_steps r \<longleftrightarrow> (\<forall>xs s ys. rbk_steps r = xs @ s # ys \<longrightarrow> needs s \<subseteq> rbs_step_id ` set xs)"
    if "q = Ok ()" "rbx_status (rw_exec n w') = ST_COMPLETED"
  proof -
    have all: "take k ?rs = ?rs" using k that by (auto simp: run_ends_def)
    show ?thesis
    proof
      assume "take k ?rs = rbk_steps r"
      then have "?rs = rbk_steps r" by (simp only: all)
      then show "\<forall>xs s ys. rbk_steps r = xs @ s # ys \<longrightarrow> needs s \<subseteq> rbs_step_id ` set xs"
        using runnable_needs [of "[]" "rbk_steps r"] by (metis empty_set sup_bot_left)
    next
      assume "\<forall>xs s ys. rbk_steps r = xs @ s # ys \<longrightarrow> needs s \<subseteq> rbs_step_id ` set xs"
      then have "?rs = rbk_steps r" by (intro runnable_all) simp
      then show "take k ?rs = rbk_steps r" using all by simp
    qed
  qed
  ultimately show ?thesis using k by (intro exI [of _ "take k ?rs"]) (auto simp: run_ends_def assms(2))
qed

text \<open>
  C32. Failure rolls back. When nothing cancels a run, it ends completed or failed, with a time; when it
  failed and its runbook can be rolled back, the last thing it did was to run the roll-back scripts of the
  executed steps, the last step of the runbook first, whether or not any of the scripts succeeds.
\<close>

theorem rb_failure_rolls_back:
  assumes "refers eid n r w" and "rb_execute_runbook_steps eid None t w = (q, t', w')"
  shows "q = Ok () \<and> rbx_completed_at (rw_exec n w') \<noteq> None \<and>
    (rbx_status (rw_exec n w') = ST_COMPLETED \<or>
     rbx_status (rw_exec n w') = ST_FAILED \<and>
     (rbk_rollback_available r \<longrightarrow>
        rbx_rollback_required (rw_exec n w') \<and>
        rolled_back r (rbx_steps_executed (rw_exec n w')) (rw_trace w) (rw_trace w')))"
proof -
  from rb_run [OF assms] obtain k where "q \<noteq> Cancelled"
    and k: "run_ends r (runnable (rbx_steps_executed (rw_exec n w)) (rbk_steps r)) k (rw_exec n w) (rw_exec n w')
      (rw_trace w) (rw_trace w') q" by blast
  then obtain u where "q = Ok u" by (cases q) (auto simp: run_ends_def)
  with k show ?thesis unfolding run_ends_def by auto
qed

text \<open>A cancelled run, as \<open>cleanup\<close> leaves it, is reported as running for ever.\<close>

theorem rb_cancelled_keeps_running:
  assumes "refers eid n r w" and "rb_execute_runbook_steps eid dl t w = (Cancelled, t', w')"
  shows "rbx_status (rw_exec n w') = ST_RUNNING \<and> rbx_completed_at (rw_exec n w') = rbx_completed_at (rw_exec n w)"
  using rb_run [OF assms] by (auto simp: run_ends_def)

section \<open>Two executions in one second\<close>

text \<open>
  Identifiers have a resolution of a second: a second execution of a runbook in the same second takes the place of the
  first, which stays pending, while both tasks work on the new one; only one of them can be cancelled.
\<close>

lemma rb_same_second:
  assumes "dget (dr_runbooks m) rid = Some r" and "rbk_status r = RB_ACTIVE"
    and "drm_execute_runbook now rid u m = (Some e1, m1)" and "drm_execute_runbook now rid u' m1 = (Some e2, m2)"
  shows "e1 = e2 \<and> dr_tasks m2 = dr_tasks m @ [e1, e1] \<and>
    dget (dr_executions m2) e1 = Some (Suc (length (dr_heap m))) \<and>
    dget (dr_execution_tasks m2) e1 = Some (Suc (length (dr_tasks m))) \<and>
    rbx_status (dr_heap m2 ! length (dr_heap m)) = ST_PENDING"
proof -
  have m1: "e1 = drm_execution_id rid now" "dr_runbooks m1 = dr_runbooks m"
    "dr_heap m1 = dr_heap m @ [new_execution e1 rid u now]" "dr_tasks m1 = dr_tasks m @ [e1]"
    using assms(1-3) by (auto simp: drm_execute_runbook_def Let_def)
  then show ?thesis
    using assms(1,2,4) by (auto simp: drm_execute_runbook_def Let_def dget_dset nth_append new_execution_def)
qed

section \<open>Witnesses\<close>

definition demo_step :: "string \<Rightarrow> string list \<Rightarrow> rb_step" where
  "demo_step i deps =
     \<lparr>rbs_step_id = i, rbs_title = i, rbs_description = '''', rbs_step_type = STEP_AUTOMATED,
      rbs_command = Some ''run'', rbs_script = None, rbs_timeout_seconds = 300, rbs_retry_count = 3,
      rbs_dependencies = Some deps, rbs_verification_script = None, rbs_rollback_script = Some (''undo '' @ i),
      rbs_notifications = None\<rparr>"

definition demo_runbook :: "rb_step list \<Rightarrow> runbook" where
  "demo_runbook steps =
     \<lparr>rbk_runbook_id = ''r'', rbk_title = ''r'', rbk_description = '''', rbk_runbook_type = RB_FAILOVER, rbk_status = RB_ACTIVE,
      rbk_version = ''1'', rbk_created_by = '''', rbk_created_at = 0, rbk_updated_by = '''', rbk_updated_at = 0,
      rbk_steps = steps, rbk_tags = None, rbk_estimated_duration_minutes = 30, rbk_prerequisites = None,
      rbk_rollback_available = True\<rparr>"

definition demo_rb_world :: "rb_step list \<Rightarrow> (nat \<Rightarrow> rat) \<Rightarrow> rb_world" where
  "demo_rb_world steps draws =
     \<lparr>rw_drm = \<lparr>dr_region = ''eu'', dr_runbooks = [(''r'', demo_runbook steps)], dr_executions = [(''r_7'', 0)],
                dr_execution_tasks = [(''r_7'', 0)], dr_heap = [new_execution ''r_7'' ''r'' ''ops'' 7], dr_tasks = [''r_7'']\<rparr>,
      rw_draws = draws, rw_drawn = 0, rw_trace = []\<rparr>"

definition demo_backwards :: "rb_step list" where
  "demo_backwards = [demo_step ''b'' [''a''], demo_step ''a'' []]"

lemma demo_refers: "refers ''r_7'' 0 (demo_runbook steps) (demo_rb_world steps draws)"
  by (simp add: refers_def demo_rb_world_def rw_exec_def new_execution_def)

lemma demo_fresh: "rbx_steps_executed (rw_exec 0 (demo_rb_world steps draws)) = []"
  by (simp add: demo_rb_world_def rw_exec_def new_execution_def)

text \<open>The dependent step is listed first: it is skipped, and the execution reported as completed.\<close>

theorem rb_completed_in_order_witness:
  "case rb_execute_runbook_steps ''r_7'' None 7 (demo_rb_world demo_backwards (\<lambda>_. 1 / 2)) of
     (q, _, w') \<Rightarrow> rbx_status (rw_exec 0 w') = ST_COMPLETED \<and>
       (\<exists>ss. subseq ss demo_backwards \<and> rbx_steps_executed (rw_exec 0 w') = map rbs_step_id ss \<and> ss \<noteq> demo_backwards)"
proof -
  obtain q t' w' where run: "rb_execute_runbook_steps ''r_7'' None 7 (demo_rb_world demo_backwards (\<lambda>_. 1 / 2)) = (q, t', w')"
    by (rule prod_cases3)
  have "case rb_execute_runbook_steps ''r_7'' None 7 (demo_rb_world demo_backwards (\<lambda>_. 1 / 2)) of
      (q, _, w') \<Rightarrow> rbx_status (rw_exec 0 w') = ST_COMPLETED \<and> rbx_steps_executed (rw_exec 0 w') = [''a'']" by code_simp
  then have ends: "rbx_status (rw_exec 0 w') = ST_COMPLETED" "rbx_steps_executed (rw_exec 0 w') = [''a'']"
    by (simp_all add: run)
  from rb_completed_in_order [OF demo_refers demo_fresh run] obtain ss where
    "subseq ss demo_backwards" "rbx_steps_executed (rw_exec 0 w') = map rbs_step_id ss"
    by (auto simp: demo_runbook_def)
  with ends run show ?thesis by (auto simp: demo_backwards_def)
qed

theorem rb_failure_rolls_back_witness:
  "case rb_execute_runbook_steps ''r_7'' None 7
      (demo_rb_world [demo_step ''a'' [], demo_step ''b'' [], demo_step ''c'' []] (\<lambda>i. if i = 2 then 0 else 1 / 2)) of
     (q, _, w') \<Rightarrow> rbx_status (rw_exec 0 w') = ST_FAILED \<and>
       rolled_back (demo_runbook [demo_step ''a'' [], demo_step ''b'' [], demo_step ''c'' []]) [''a'', ''b''] [] (rw_trace w') \<and>
       rw_trace w' = [RbCommand ''run'' True, RbCommand ''run'' True, RbCommand ''run'' False,
         RbScript ''undo b'' True, RbScript ''undo a'' True]"
proof -
  let ?steps = "[demo_step ''a'' [], demo_step ''b'' [], demo_step ''c'' []]"
  let ?run = "rb_execute_runbook_steps ''r_7'' None 7 (demo_rb_world ?steps (\<lambda>i. if i = 2 then 0 else 1 / 2))"
  obtain q t' w' where run: "?run = (q, t', w')" by (rule prod_cases3)
  have "case ?run of (q, _, w') \<Rightarrow>
      rbx_status (rw_exec 0 w') = ST_FAILED \<and> rbx_steps_executed (rw_exec 0 w') = [''a'', ''b''] \<and>
      rw_trace w' = [RbCommand ''run'' True, RbCommand ''run'' True, RbCommand ''run'' False,
        RbScript ''undo b'' True, RbScript ''undo a'' True]" by code_simp
  with rb_failure_rolls_back [OF demo_refers run] show ?thesis
    by (simp add: run demo_runbook_def) (simp add: demo_rb_world_def)
qed

theorem rb_cancelled_keeps_running_witness:
  "case rb_execute_runbook_steps ''r_7'' (Some 8) 7 (demo_rb_world [demo_step ''a'' [], demo_step ''b'' []] (\<lambda>_. 1 / 2)) of
     (q, _, w') \<Rightarrow> q = Cancelled \<and> rbx_status (rw_exec 0 w') = ST_RUNNING \<and> rbx_completed_at (rw_exec 0 w') = None"
proof -
  let ?w = "demo_rb_world [demo_step ''a'' [], demo_step ''b'' []] (\<lambda>_. 1 / 2)"
  obtain q t' w' where run: "rb_execute_runbook_steps ''r_7'' (Some 8) 7 ?w = (q, t', w')" by (rule prod_cases3)
  have "fst (rb_execute_runbook_steps ''r_7'' (Some 8) 7 ?w) = Cancelled" by code_simp
  then have q: "q = Cancelled" by (simp add: run)
  have "rbx_completed_at (rw_exec 0 ?w) = None" by (simp add: demo_rb_world_def rw_exec_def new_execution_def)
  with rb_cancelled_keeps_running [OF demo_refers run [unfolded q]] show ?thesis by (simp add: run q)
qed

end
