(* ===== verification/Baselines.thy ===== *)
theory Baselines
  imports Tables
begin

text \<open>
  \<^verbatim>\<open>libs/performance/baseline_manager.py\<close>: performance baselines over the tables of
  \<^verbatim>\<open>libs/data-plane/migrations/steps/011_performance_gates_tables.py\<close>, with their constraints. Values are
  exact, rows that ORDER BY leaves tied keep their order, each operation reads the clock once (\<open>now\<close>), and window sizes
  and limits are not negative. The conversion of an enumeration to its text and back is that of the rows.
\<close>

section \<open>Data\<close>

datatype baseline_type = BtLatency | BtThroughput | BtErrorRate | BtCost | BtMemoryUsage | BtCpuUsage | BtCustom

fun baseline_type_value :: "baseline_type \<Rightarrow> string" where
  "baseline_type_value BtLatency = ''latency''"
| "baseline_type_value BtThroughput = ''throughput''"
| "baseline_type_value BtErrorRate = ''error_rate''"
| "baseline_type_value BtCost = ''cost''"
| "baseline_type_value BtMemoryUsage = ''memory_usage''"
| "baseline_type_value BtCpuUsage = ''cpu_usage''"
| "baseline_type_value BtCustom = ''custom''"

definition baseline_type_of :: "string \<Rightarrow> exn + baseline_type" where
  "baseline_type_of =
     enum_of baseline_type_value [BtLatency, BtThroughput, BtErrorRate, BtCost, BtMemoryUsage, BtCpuUsage, BtCustom]"

datatype aggregation = AggMean | AggMedian | AggP95 | AggP99 | AggMin | AggMax | AggCount

fun aggregation_value :: "aggregation \<Rightarrow> string" where
  "aggregation_value AggMean = ''mean''"
| "aggregation_value AggMedian = ''median''"
| "aggregation_value AggP95 = ''p95''"
| "aggregation_value AggP99 = ''p99''"
| "aggregation_value AggMin = ''min''"
| "aggregation_value AggMax = ''max''"
| "aggregation_value AggCount = ''count''"

definition aggregation_of :: "string \<Rightarrow> exn + aggregation" where
  "aggregation_of = enum_of aggregation_value [AggMean, AggMedian, AggP95, AggP99, AggMin, AggMax, AggCount]"

record perf_metric =
  pmt_metric_id :: string
  pmt_baseline_id :: string
  pmt_timestamp :: datetime
  pmt_value :: rat
  pmt_unit :: string
  pmt_tags :: "(string, string) dict"
  pmt_metadata :: json_dict

record perf_baseline =
  pbl_baseline_id :: string
  pbl_name :: string
  pbl_description :: string
  pbl_baseline_type :: baseline_type
  pbl_service :: string
  pbl_endpoint :: "string option"
  pbl_tenant_id :: "string option"
  pbl_aggregation_method :: aggregation
  pbl_window_size_hours :: nat
  pbl_sample_size :: nat
  pbl_threshold_percentage :: rat
  pbl_is_active :: bool
  pbl_created_at :: datetime
  pbl_updated_at :: datetime
  pbl_metadata :: json_dict

record baseline_result =
  brs_baseline_id :: string
  brs_calculated_value :: rat
  brs_baseline_value :: rat
  brs_regression_percentage :: rat
  brs_is_regression :: bool
  brs_confidence_level :: rat
  brs_sample_size :: nat
  brs_window_start :: datetime
  brs_window_end :: datetime
  brs_calculated_at :: datetime

record perf_alert =
  pal_alert_id :: string
  pal_baseline_id :: string
  pal_alert_type :: string
  pal_severity :: string
  pal_regression_percentage :: rat
  pal_current_value :: rat
  pal_baseline_value :: rat
  pal_threshold_percentage :: rat
  pal_triggered_at :: datetime
  pal_resolved_at :: "datetime option"
  pal_is_resolved :: bool
  pal_metadata :: json_dict

record baseline_row =
  blw_baseline_id :: string
  blw_name :: string
  blw_description :: string
  blw_baseline_type :: string
  blw_service :: string
  blw_endpoint :: "string option"
  blw_tenant_id :: "string option"
  blw_aggregation_method :: string
  blw_window_size_hours :: nat
  blw_sample_size :: nat
  blw_threshold_percentage :: rat
  blw_is_active :: bool
  blw_created_at :: datetime
  blw_updated_at :: datetime
  blw_metadata :: "json_dict option"

record calculation_row =
  clw_baseline_id :: string
  clw_calculated_value :: rat
  clw_baseline_value :: rat
  clw_calculated_at :: datetime

record perf_db =
  pdb_baselines :: "baseline_row list"
  pdb_metrics :: "perf_metric list"
  pdb_calculations :: "calculation_row list"
  pdb_alerts :: "perf_alert list"

text \<open>\<open>pbm_buffer\<close> is a \<open>defaultdict\<close> of queues of at most 10000 metrics.\<close>

record pbm =
  pbm_db :: perf_db
  pbm_cache :: "(string, perf_baseline) dict"
  pbm_buffer :: "(string, perf_metric list) dict"

definition pbm_init :: "perf_db \<Rightarrow> pbm" where
  "pbm_init db = \<lparr>pbm_db = db, pbm_cache = [], pbm_buffer = []\<rparr>"

type_synonym 'a perf_op = "(pbm, 'a) db_op"

text \<open>
  An INSERT of a row whose identifier is unique; metrics, calculations and alerts refer to a row of \<open>performance_baselines\<close>.
\<close>

definition pb_insert ::
  "(perf_db \<Rightarrow> 'r list) \<Rightarrow> ('r list \<Rightarrow> perf_db \<Rightarrow> perf_db) \<Rightarrow> ('r \<Rightarrow> string option) \<Rightarrow> ('r \<Rightarrow> string option) \<Rightarrow> 'r \<Rightarrow> unit perf_op" where
  "pb_insert table put key ref r m =
     (let db = pbm_db m
      in if key r \<noteq> None \<and> key r \<in> key ` set (table db) then (Inl (integrity_error (the (key r))), m)
         else if ref r \<noteq> None \<and> the (ref r) \<notin> blw_baseline_id ` set (pdb_baselines db)
           then (Inl (integrity_error (the (ref r))), m)
         else (Inr (), m\<lparr>pbm_db := put (table db @ [r]) db\<rparr>))"

section \<open>Baselines\<close>

definition baseline_to_row :: "perf_baseline \<Rightarrow> baseline_row" where
  "baseline_to_row b =
     \<lparr>blw_baseline_id = pbl_baseline_id b, blw_name = pbl_name b, blw_description = pbl_description b,
      blw_baseline_type = baseline_type_value (pbl_baseline_type b), blw_service = pbl_service b,
      blw_endpoint = pbl_endpoint b, blw_tenant_id = pbl_tenant_id b,
      blw_aggregation_method = aggregation_value (pbl_aggregation_method b),
      blw_window_size_hours = pbl_window_size_hours b, blw_sample_size = pbl_sample_size b,
      blw_threshold_percentage = pbl_threshold_percentage b, blw_is_active = pbl_is_active b,
      blw_created_at = pbl_created_at b, blw_updated_at = pbl_updated_at b, blw_metadata = Some (pbl_metadata b)\<rparr>"

definition row_to_baseline :: "baseline_row \<Rightarrow> exn + perf_baseline" where
  "row_to_baseline r =
     ebind (baseline_type_of (blw_baseline_type r)) (\<lambda>bt.
     ebind (aggregation_of (blw_aggregation_method r)) (\<lambda>agg.
       Inr \<lparr>pbl_baseline_id = blw_baseline_id r, pbl_name = blw_name r, pbl_description = blw_description r,
            pbl_baseline_type = bt, pbl_service = blw_service r, pbl_endpoint = blw_endpoint r,
            pbl_tenant_id = blw_tenant_id r, pbl_aggregation_method = agg,
            pbl_window_size_hours = blw_window_size_hours r, pbl_sample_size = blw_sample_size r,
            pbl_threshold_percentage = blw_threshold_percentage r, pbl_is_active = blw_is_active r,
            pbl_created_at = blw_created_at r, pbl_updated_at = blw_updated_at r,
            pbl_metadata = (case blw_metadata r of None \<Rightarrow> [] | Some d \<Rightarrow> d)\<rparr>))"

definition pb_store_baseline :: "perf_baseline \<Rightarrow> unit perf_op" where
  "pb_store_baseline b =
     pb_insert pdb_baselines (\<lambda>rs db. db\<lparr>pdb_baselines := rs\<rparr>) (Some \<circ> blw_baseline_id) (\<lambda>_. None) (baseline_to_row b)"

definition baseline_id :: "string \<Rightarrow> baseline_type \<Rightarrow> datetime \<Rightarrow> string" where
  "baseline_id service bt now =
     ''baseline_'' @ service @ ''_'' @ baseline_type_value bt @ ''_'' @ strftime_sec now"

definition pb_create_baseline ::
  "datetime \<Rightarrow> string \<Rightarrow> string \<Rightarrow> baseline_type \<Rightarrow> string \<Rightarrow> string option \<Rightarrow> string option \<Rightarrow> aggregation \<Rightarrow> nat \<Rightarrow> nat \<Rightarrow>
   rat \<Rightarrow> json_dict option \<Rightarrow> perf_baseline perf_op" where
  "pb_create_baseline now nm descr bt service endpoint tenant agg hours sample threshold metadata =
     (let b = \<lparr>pbl_baseline_id = baseline_id service bt now, pbl_name = nm, pbl_description = descr,
               pbl_baseline_type = bt, pbl_service = service, pbl_endpoint = endpoint, pbl_tenant_id = tenant,
               pbl_aggregation_method = agg, pbl_window_size_hours = hours, pbl_sample_size = sample,
               pbl_threshold_percentage = threshold, pbl_is_active = True, pbl_created_at = now, pbl_updated_at = now,
               pbl_metadata = (case metadata of None \<Rightarrow> [] | Some d \<Rightarrow> d)\<rparr>
      in db_bind (pb_store_baseline b) (\<lambda>_ m. (Inr b, m\<lparr>pbm_cache := dset (pbl_baseline_id b) b (pbm_cache m)\<rparr>)))"

definition pb_get_baseline :: "string \<Rightarrow> perf_baseline option perf_op" where
  "pb_get_baseline bid m =
     (case dget (pbm_cache m) bid of
        Some b \<Rightarrow> (Inr (Some b), m)
      | None \<Rightarrow>
          (case find (\<lambda>r. blw_baseline_id r = bid \<and> blw_is_active r) (pdb_baselines (pbm_db m)) of
             None \<Rightarrow> (Inr None, m)
           | Some r \<Rightarrow>
               (case row_to_baseline r of
                  Inl e \<Rightarrow> (Inl e, m)
                | Inr b \<Rightarrow> (Inr (Some b), m\<lparr>pbm_cache := dset bid b (pbm_cache m)\<rparr>))))"

definition pb_get_baselines ::
  "string option \<Rightarrow> baseline_type option \<Rightarrow> string option \<Rightarrow> bool \<Rightarrow> perf_baseline list perf_op" where
  "pb_get_baselines service bt tenant active m =
     (emap row_to_baseline (newest_first blw_created_at
        (filter (\<lambda>r. blw_is_active r = active \<and> matches service (Some (blw_service r)) \<and>
           (bt = None \<or> map_option baseline_type_value bt = Some (blw_baseline_type r)) \<and>
           matches tenant (blw_tenant_id r)) (pdb_baselines (pbm_db m)))), m)"

section \<open>Aggregation\<close>

definition mean_of :: "rat list \<Rightarrow> rat" where
  "mean_of vs = sum_list vs / of_nat (length vs)"

text \<open>\<open>statistics.median\<close> and \<open>statistics.variance\<close>, on data that is not empty.\<close>

definition median_of :: "rat list \<Rightarrow> rat" where
  "median_of vs =
     (let s = sort vs; n = length vs
      in if odd n then s ! (n div 2) else (s ! (n div 2 - 1) + s ! (n div 2)) / 2)"

definition variance_of :: "rat list \<Rightarrow> rat" where
  "variance_of vs = sum_list (map (\<lambda>x. (x - mean_of vs) ^ 2) vs) / of_nat (length vs - 1)"

definition percentile_of :: "rat list \<Rightarrow> nat \<Rightarrow> rat" where
  "percentile_of vs p =
     (if vs = [] then 0
      else (let s = sort vs; index = nat \<lfloor>of_nat p / 100 * of_nat (length s) :: rat\<rfloor>
            in s ! min index (length s - 1)))"

definition aggregate_values :: "rat list \<Rightarrow> aggregation \<Rightarrow> rat" where
  "aggregate_values vs method =
     (if vs = [] then 0
      else (case method of
              AggMean \<Rightarrow> mean_of vs
            | AggMedian \<Rightarrow> median_of vs
            | AggP95 \<Rightarrow> percentile_of vs 95
            | AggP99 \<Rightarrow> percentile_of vs 99
            | AggMin \<Rightarrow> foldl min (hd vs) (tl vs)
            | AggMax \<Rightarrow> foldl max (hd vs) (tl vs)
            | AggCount \<Rightarrow> of_nat (length vs)))"

definition confidence_level :: "rat list \<Rightarrow> nat \<Rightarrow> rat" where
  "confidence_level vs sample_size =
     (if sample_size < 10 then 1 / 2
      else if sample_size < 100 then 7 / 10
      else if 1 < length vs then
        (let coefficient_of_variation = (if 0 < mean_of vs then variance_of vs / mean_of vs else 1)
         in max (1 / 2) (min 1 (1 - coefficient_of_variation / 2)))
      else 8 / 10)"

section \<open>Calculation\<close>

fun prev_hour :: "datetime \<Rightarrow> datetime" where
  "prev_hour (DT y m d h mi s us) =
     (if 0 < h then DT y m d (h - 1) mi s us else prev_day (DT y m d 23 mi s us))"

definition minus_hours :: "nat \<Rightarrow> datetime \<Rightarrow> datetime" where
  "minus_hours n t = (prev_hour ^^ n) t"

definition pb_get_metrics_for_window :: "string \<Rightarrow> datetime \<Rightarrow> datetime \<Rightarrow> nat \<Rightarrow> perf_db \<Rightarrow> perf_metric list" where
  "pb_get_metrics_for_window bid window_start window_end limit db =
     take limit (newest_first pmt_timestamp
       (filter (\<lambda>x. pmt_baseline_id x = bid \<and> window_start \<le> pmt_timestamp x \<and> pmt_timestamp x \<le> window_end) (pdb_metrics db)))"

definition pb_get_stored_baseline_value :: "string \<Rightarrow> perf_db \<Rightarrow> rat" where
  "pb_get_stored_baseline_value bid db =
     (case newest_first clw_calculated_at (filter (\<lambda>c. clw_baseline_id c = bid) (pdb_calculations db)) of
        [] \<Rightarrow> 0
      | c # _ \<Rightarrow> clw_baseline_value c)"

definition pb_update_baseline_value :: "datetime \<Rightarrow> string \<Rightarrow> rat \<Rightarrow> unit perf_op" where
  "pb_update_baseline_value now bid v =
     pb_insert pdb_calculations (\<lambda>rs db. db\<lparr>pdb_calculations := rs\<rparr>) (\<lambda>_. None) (Some \<circ> clw_baseline_id)
       \<lparr>clw_baseline_id = bid, clw_calculated_value = v, clw_baseline_value = v, clw_calculated_at = now\<rparr>"

definition regression_of :: "rat \<Rightarrow> rat \<Rightarrow> rat" where
  "regression_of current stored = (if 0 < stored then (current - stored) / stored * 100 else 0)"

definition pb_calculate_baseline ::
  "datetime \<Rightarrow> string \<Rightarrow> datetime option \<Rightarrow> datetime option \<Rightarrow> baseline_result perf_op" where
  "pb_calculate_baseline now bid window_start window_end =
     db_bind (pb_get_baseline bid) (\<lambda>found m.
       case found of
         None \<Rightarrow> (Inl (value_error (''Baseline not found: '' @ bid)), m)
       | Some b \<Rightarrow>
           (let e = (case window_end of None \<Rightarrow> now | Some t \<Rightarrow> t);
                s = (case window_start of None \<Rightarrow> minus_hours (pbl_window_size_hours b) e | Some t \<Rightarrow> t);
                metrics = pb_get_metrics_for_window bid s e (pbl_sample_size b) (pbm_db m);
                vs = map pmt_value metrics;
                calculated = aggregate_values vs (pbl_aggregation_method b);
                stored = pb_get_stored_baseline_value bid (pbm_db m);
                regression = regression_of calculated stored;
                result = \<lparr>brs_baseline_id = bid, brs_calculated_value = calculated, brs_baseline_value = stored,
                          brs_regression_percentage = regression,
                          brs_is_regression = (pbl_threshold_percentage b < \<bar>regression\<bar>),
                          brs_confidence_level = confidence_level vs (length metrics), brs_sample_size = length metrics,
                          brs_window_start = s, brs_window_end = e, brs_calculated_at = now\<rparr>
            in if metrics = [] then (Inl (value_error (''No metrics found for baseline '' @ bid @ '' in time window'')), m)
               else db_bind (pb_update_baseline_value now bid calculated) (\<lambda>_. db_return result) m))"

section \<open>Metrics and alerts\<close>

definition perf_alert_id :: "string \<Rightarrow> datetime \<Rightarrow> string" where
  "perf_alert_id bid now = ''alert_'' @ bid @ ''_'' @ strftime_sec now"

definition pb_trigger_regression_alert :: "datetime \<Rightarrow> string \<Rightarrow> rat \<Rightarrow> rat \<Rightarrow> rat \<Rightarrow> rat \<Rightarrow> unit perf_op" where
  "pb_trigger_regression_alert now bid regression current stored threshold =
     pb_insert pdb_alerts (\<lambda>rs db. db\<lparr>pdb_alerts := rs\<rparr>) (Some \<circ> pal_alert_id) (Some \<circ> pal_baseline_id)
       \<lparr>pal_alert_id = perf_alert_id bid now, pal_baseline_id = bid, pal_alert_type = ''performance_regression'',
        pal_severity = (if threshold * 2 < \<bar>regression\<bar> then ''high'' else ''medium''),
        pal_regression_percentage = regression, pal_current_value = current, pal_baseline_value = stored,
        pal_threshold_percentage = threshold, pal_triggered_at = now, pal_resolved_at = None, pal_is_resolved = False,
        pal_metadata = []\<rparr>"

text \<open>\<open>list(q)[-100:]\<close>, the last hundred metrics of the buffer.\<close>

definition recent_metrics :: "string \<Rightarrow> pbm \<Rightarrow> perf_metric list" where
  "recent_metrics bid m = (let q = dget_or [] (pbm_buffer m) bid in drop (length q - 100) q)"

definition pb_check_immediate_regression :: "datetime \<Rightarrow> string \<Rightarrow> unit perf_op" where
  "pb_check_immediate_regression now bid =
     db_bind (pb_get_baseline bid) (\<lambda>found m.
       case found of
         None \<Rightarrow> (Inr (), m)
       | Some b \<Rightarrow>
           (let vs = map pmt_value (recent_metrics bid m);
                current = aggregate_values vs (pbl_aggregation_method b);
                stored = pb_get_stored_baseline_value bid (pbm_db m)
            in if length vs < 10 then (Inr (), m)
               else if 0 < stored \<and> pbl_threshold_percentage b < \<bar>regression_of current stored\<bar>
               then pb_trigger_regression_alert now bid (regression_of current stored) current stored (pbl_threshold_percentage b) m
               else (Inr (), m)))"

definition metric_id :: "string \<Rightarrow> datetime \<Rightarrow> string" where
  "metric_id bid now = ''metric_'' @ bid @ ''_'' @ strftime_usec now"

text \<open>\<open>deque(maxlen=10000).append\<close>, the queue made when there is none.\<close>

definition pb_buffer_metric :: "perf_metric \<Rightarrow> pbm \<Rightarrow> pbm" where
  "pb_buffer_metric x m =
     (let q = dget_or [] (pbm_buffer m) (pmt_baseline_id x) @ [x]
      in m\<lparr>pbm_buffer := dset (pmt_baseline_id x) (drop (length q - 10000) q) (pbm_buffer m)\<rparr>)"

definition pb_store_metric :: "perf_metric \<Rightarrow> unit perf_op" where
  "pb_store_metric =
     pb_insert pdb_metrics (\<lambda>rs db. db\<lparr>pdb_metrics := rs\<rparr>) (Some \<circ> pmt_metric_id) (Some \<circ> pmt_baseline_id)"

definition pb_record_metric ::
  "datetime \<Rightarrow> string \<Rightarrow> rat \<Rightarrow> string \<Rightarrow> (string, string) dict option \<Rightarrow> json_dict option \<Rightarrow> unit perf_op" where
  "pb_record_metric now bid v unit_name tags metadata m =
     (let x = \<lparr>pmt_metric_id = metric_id bid now, pmt_baseline_id = bid, pmt_timestamp = now, pmt_value = v,
               pmt_unit = unit_name, pmt_tags = (case tags of None \<Rightarrow> [] | Some d \<Rightarrow> d),
               pmt_metadata = (case metadata of None \<Rightarrow> [] | Some d \<Rightarrow> d)\<rparr>
      in db_bind (pb_store_metric x) (\<lambda>_. pb_check_immediate_regression now bid) (pb_buffer_metric x m))"

definition pb_get_performance_alerts ::
  "string option \<Rightarrow> string option \<Rightarrow> bool option \<Rightarrow> nat \<Rightarrow> perf_alert list perf_op" where
  "pb_get_performance_alerts bid severity resolved limit m =
     (Inr (take limit (newest_first pal_triggered_at
        (filter (\<lambda>a. matches bid (Some (pal_baseline_id a)) \<and> matches severity (Some (pal_severity a)) \<and>
           (resolved = None \<or> resolved = Some (pal_is_resolved a))) (pdb_alerts (pbm_db m))))), m)"

record perf_statistics =
  pfs_total_baselines :: nat
  pfs_active_baselines :: nat
  pfs_services_monitored :: nat
  pfs_baseline_types :: nat
  pfs_total_alerts :: nat
  pfs_active_alerts :: nat
  pfs_high_severity_alerts :: nat
  pfs_medium_severity_alerts :: nat

definition pb_get_performance_statistics :: "perf_statistics perf_op" where
  "pb_get_performance_statistics m =
     (let bs = pdb_baselines (pbm_db m); als = pdb_alerts (pbm_db m)
      in (Inr \<lparr>pfs_total_baselines = length bs, pfs_active_baselines = length (filter blw_is_active bs),
               pfs_services_monitored = length (remdups (map blw_service bs)),
               pfs_baseline_types = length (remdups (map blw_baseline_type bs)),
               pfs_total_alerts = length als, pfs_active_alerts = length (filter (\<lambda>a. \<not> pal_is_resolved a) als),
               pfs_high_severity_alerts = length (filter (\<lambda>a. pal_severity a = ''high'') als),
               pfs_medium_severity_alerts = length (filter (\<lambda>a. pal_severity a = ''medium'') als)\<rparr>, m))"

section \<open>What the aggregates mean\<close>

lemma sum_list_bounds:
  fixes vs :: "rat list"
  shows "\<forall>v \<in> set vs. lo \<le> v \<and> v \<le> hi \<Longrightarrow> of_nat (length vs) * lo \<le> sum_list vs \<and> sum_list vs \<le> of_nat (length vs) * hi"
  by (induction vs) (auto simp: algebra_simps intro: add_mono)

lemma mean_of_bounds: "vs \<noteq> [] \<Longrightarrow> \<forall>v \<in> set vs. lo \<le> v \<and> v \<le> hi \<Longrightarrow> lo \<le> mean_of vs \<and> mean_of vs \<le> hi"
  using sum_list_bounds [of vs lo hi] by (simp add: mean_of_def pos_le_divide_eq pos_divide_le_eq mult.commute)

lemma sort_nth_mem: "i < length vs \<Longrightarrow> sort vs ! i \<in> set vs" for vs :: "'a :: linorder list"
  by (metis length_sort nth_mem set_sort)

lemma median_of_bounds: "vs \<noteq> [] \<Longrightarrow> \<forall>v \<in> set vs. lo \<le> v \<and> v \<le> hi \<Longrightarrow> lo \<le> median_of vs \<and> median_of vs \<le> hi"
proof -
  assume vs: "vs \<noteq> []" and b: "\<forall>v \<in> set vs. lo \<le> v \<and> v \<le> hi"
  have i: "lo \<le> sort vs ! i \<and> sort vs ! i \<le> hi" if "i < length vs" for i using b sort_nth_mem [OF that] by blast
  have "length vs div 2 < length vs" "length vs div 2 - 1 < length vs" using vs by (simp_all add: less_imp_diff_less)
  from i [OF this(1)] i [OF this(2)] show ?thesis by (auto simp: median_of_def Let_def)
qed

lemma percentile_of_mem: "vs \<noteq> [] \<Longrightarrow> percentile_of vs p \<in> set vs"
proof -
  assume "vs \<noteq> []"
  then have "min k (length vs - 1) < length vs" for k by (cases vs) auto
  then show "percentile_of vs p \<in> set vs" using \<open>vs \<noteq> []\<close> by (auto simp: percentile_of_def Let_def intro: sort_nth_mem)
qed

lemma foldl_min_mem: "foldl min x xs \<in> set (x # xs)" "foldl max x xs \<in> set (x # xs)" for x :: "'a :: linorder"
  by (induction xs arbitrary: x) (auto simp: min_def max_def split: if_splits)

text \<open>
  Aggregates stay within the data: every aggregation but the count lies between any bounds of the
  values.
\<close>

theorem pb_aggregate_bounds:
  assumes "vs \<noteq> []" and "agg \<noteq> AggCount" and b: "\<forall>v \<in> set vs. lo \<le> v \<and> v \<le> hi"
  shows "lo \<le> aggregate_values vs agg \<and> aggregate_values vs agg \<le> hi"
proof -
  obtain x xs where vs: "vs = x # xs" using assms(1) by (cases vs) auto
  show ?thesis
    using assms(2) mean_of_bounds [OF assms(1) b] median_of_bounds [OF assms(1) b] b [rule_format, OF percentile_of_mem [OF assms(1)]]
      b [rule_format, unfolded vs, OF foldl_min_mem(1)] b [rule_format, unfolded vs, OF foldl_min_mem(2)]
    by (cases agg) (simp_all add: aggregate_values_def vs)
qed

lemma sorted_count:
  fixes s :: "'a :: linorder list"
  assumes "sorted s" and i: "i < length s"
  shows "Suc i \<le> length (filter (\<lambda>v. v \<le> s ! i) s)" and "length s - i \<le> length (filter (\<lambda>v. s ! i \<le> v) s)"
proof -
  have "filter (\<lambda>v. v \<le> s ! i) (take (Suc i) s) = take (Suc i) s"
    using sorted_nth_mono [OF assms(1) _ i] i by (auto simp: filter_id_conv in_set_conv_nth less_Suc_eq_le)
  then have "Suc i \<le> length (filter (\<lambda>v. v \<le> s ! i) (take (Suc i) s @ drop (Suc i) s))" using i by (simp only: filter_append length_append) simp
  then show "Suc i \<le> length (filter (\<lambda>v. v \<le> s ! i) s)" by (simp only: append_take_drop_id)
  have "filter (\<lambda>v. s ! i \<le> v) (drop i s) = drop i s"
    using sorted_nth_mono [OF assms(1), of i] i by (auto simp: filter_id_conv in_set_conv_nth)
  then have "length s - i \<le> length (filter (\<lambda>v. s ! i \<le> v) (take i s @ drop i s))" by (simp only: filter_append length_append) simp
  then show "length s - i \<le> length (filter (\<lambda>v. s ! i \<le> v) s)" by (simp only: append_take_drop_id)
qed

lemma length_filter_sort: "length (filter P (sort vs)) = length (filter P vs)" for vs :: "'a :: linorder list"
  by (simp add: filter_sort)

text \<open>
  Percentiles are percentiles: at least \<open>p\<close> per cent of the values are at most the \<open>p\<close>-th percentile, and
  at least the other \<open>100 - p\<close> per cent are at least it; and it is one of the values.
\<close>

theorem pb_percentile_covers:
  assumes "vs \<noteq> []" and p: "p \<le> 100"
  shows "percentile_of vs p \<in> set vs \<and>
    p * length vs \<le> 100 * length (filter (\<lambda>v. v \<le> percentile_of vs p) vs) \<and>
    (100 - p) * length vs \<le> 100 * length (filter (\<lambda>v. percentile_of vs p \<le> v) vs)"
proof -
  let ?n = "length vs"
  define k where "k = p * ?n div 100"
  define i where "i = min k (?n - 1)"
  have "(of_nat p / 100 * of_nat ?n :: rat) = of_int (int (p * ?n)) / of_int 100" by simp
  then have "\<lfloor>of_nat p / 100 * of_nat ?n :: rat\<rfloor> = int (p * ?n) div 100" by (simp only: floor_divide_of_int_eq)
  also have "\<dots> = int k" unfolding k_def by (simp add: zdiv_int)
  finally have "nat \<lfloor>of_nat p / 100 * of_nat ?n :: rat\<rfloor> = k" by simp
  then have perc: "percentile_of vs p = sort vs ! i" using assms(1) by (simp add: percentile_of_def Let_def i_def)
  have i: "i < length (sort vs)" using assms(1) by (cases vs) (auto simp: i_def)
  note counts = sorted_count [OF sorted_sort i, folded perc, unfolded length_filter_sort]
  have n: "0 < ?n" using assms(1) by simp
  have pn: "p * ?n \<le> 100 * ?n" using p by simp
  have kd: "100 * k \<le> p * ?n" "p * ?n < 100 * Suc k" unfolding k_def by (simp_all add: dividend_less_times_div)
  have "p * ?n \<le> 100 * Suc i" using n pn kd(2) unfolding i_def min_def by (cases "k \<le> ?n - 1") auto
  moreover have "(100 - p) * ?n \<le> 100 * (?n - i)"
  proof -
    have "100 * i \<le> p * ?n" using kd(1) unfolding i_def min_def by (cases "k \<le> ?n - 1") auto
    then show ?thesis by (simp add: diff_mult_distrib diff_mult_distrib2)
  qed
  ultimately show ?thesis using counts percentile_of_mem [OF assms(1)] by (auto intro: order.trans)
qed

section \<open>A regression becomes the baseline\<close>

lemma insort_key_last: "\<forall>x \<in> set xs. t x < t c \<Longrightarrow> insort_key t c xs = xs @ [c]" for t :: "'a \<Rightarrow> 'b :: linorder"
  by (induction xs) auto

lemma newest_first_latest: "\<forall>r \<in> set rs. t r < t c \<Longrightarrow> newest_first t (rs @ [c]) = c # newest_first t rs"
  by (simp add: newest_first_def insort_key_last)

lemma pb_get_cached [simp]: "dget (pbm_cache m) bid = Some b \<Longrightarrow> pb_get_baseline bid m = (Inr (Some b), m)"
  by (simp add: pb_get_baseline_def)

text \<open>
  C37. A regression is reported once. Each calculation stores what it calculated as the value that the
  next one compares with: calculating again over the same window finds the same value and no regression,
  however bad the regression was that the first calculation reported.
\<close>

theorem pb_regression_forgotten:
  assumes b: "dget (pbm_cache m) bid = Some b" and threshold: "0 \<le> pbl_threshold_percentage b"
    and older: "\<forall>c \<in> set (pdb_calculations (pbm_db m)). clw_baseline_id c = bid \<longrightarrow> clw_calculated_at c < t1"
    and first: "pb_calculate_baseline t1 bid (Some s) (Some e) m = (Inr r1, m1)"
  shows "\<exists>r2 m2. pb_calculate_baseline t2 bid (Some s) (Some e) m1 = (Inr r2, m2) \<and>
    brs_calculated_value r2 = brs_calculated_value r1 \<and> brs_baseline_value r2 = brs_calculated_value r1 \<and>
    brs_regression_percentage r2 = 0 \<and> \<not> brs_is_regression r2"
proof -
  let ?ms = "pb_get_metrics_for_window bid s e (pbl_sample_size b) (pbm_db m)"
  let ?v = "aggregate_values (map pmt_value ?ms) (pbl_aggregation_method b)"
  define c where "c = \<lparr>clw_baseline_id = bid, clw_calculated_value = ?v, clw_baseline_value = ?v, clw_calculated_at = t1\<rparr>"
  have row: "bid \<in> blw_baseline_id ` set (pdb_baselines (pbm_db m))" and ms: "?ms \<noteq> []" and r1: "brs_calculated_value r1 = ?v"
    and m1: "m1 = m\<lparr>pbm_db := (pbm_db m)\<lparr>pdb_calculations := pdb_calculations (pbm_db m) @ [c]\<rparr>\<rparr>"
    using first b by (auto simp: pb_calculate_baseline_def db_bind_def db_return_def pb_update_baseline_value_def pb_insert_def
        Let_def c_def split: if_splits prod.splits sum.splits)
  have "newest_first clw_calculated_at (filter (\<lambda>c. clw_baseline_id c = bid) (pdb_calculations (pbm_db m)) @ [c]) =
      c # newest_first clw_calculated_at (filter (\<lambda>c. clw_baseline_id c = bid) (pdb_calculations (pbm_db m)))"
    by (rule newest_first_latest) (use older in \<open>simp add: c_def\<close>)
  then have stored: "pb_get_stored_baseline_value bid (pbm_db m1) = ?v"
    by (simp add: pb_get_stored_baseline_value_def m1) (simp add: c_def)
  have window: "pb_get_metrics_for_window bid s e (pbl_sample_size b) (pbm_db m1) = ?ms"
    by (simp add: pb_get_metrics_for_window_def m1)
  show ?thesis
    using b ms row threshold stored window r1
    by (simp add: pb_calculate_baseline_def db_bind_def db_return_def pb_update_baseline_value_def pb_insert_def Let_def
        regression_of_def m1)
qed

section \<open>Alerts\<close>

text \<open>
  The identifiers of alerts have a resolution of a second: while a baseline is off, the second metric recorded in one
  second is stored, and then \<open>record_metric\<close> raises.
\<close>

lemma pb_second_alert_raises:
  assumes "perf_alert_id bid now \<in> pal_alert_id ` set (pdb_alerts (pbm_db m))" and b: "dget (pbm_cache m) bid = Some b"
    and "0 < pb_get_stored_baseline_value bid (pbm_db m)" and "10 \<le> length (recent_metrics bid m)"
    and "pbl_threshold_percentage b < \<bar>regression_of (aggregate_values (map pmt_value (recent_metrics bid m)) (pbl_aggregation_method b))
      (pb_get_stored_baseline_value bid (pbm_db m))\<bar>"
  shows "pb_check_immediate_regression now bid m = (Inl (integrity_error (perf_alert_id bid now)), m)"
proof -
  from assms(1) have "Some (perf_alert_id bid now) \<in> (Some \<circ> pal_alert_id) ` set (pdb_alerts (pbm_db m))" by auto
  with assms(2-) show ?thesis
    by (simp add: pb_check_immediate_regression_def db_bind_def Let_def pb_trigger_regression_alert_def pb_insert_def)
qed

section \<open>Witnesses\<close>

theorem pb_aggregate_bounds_witness: "1 \<le> aggregate_values [3, 1, 2] AggMedian \<and> aggregate_values [3, 1, 2] AggMedian \<le> 3"
  by (rule pb_aggregate_bounds) simp_all

theorem pb_percentile_covers_witness:
  "percentile_of [30, 10, 20, 40] 50 \<in> {30, 10, 20, 40} \<and>
   50 * 4 \<le> 100 * length (filter (\<lambda>v. v \<le> percentile_of [30, 10, 20, 40] 50) [30, 10, 20, 40])"
  using pb_percentile_covers [of "[30, 10, 20, 40]" 50] by simp

definition demo_at :: "nat \<Rightarrow> datetime" where
  "demo_at sec = DT 2024 5 6 12 0 sec 0"

definition demo_baseline :: perf_baseline where
  "demo_baseline =
     \<lparr>pbl_baseline_id = ''b'', pbl_name = ''p95'', pbl_description = '''', pbl_baseline_type = BtLatency, pbl_service = ''api'',
      pbl_endpoint = None, pbl_tenant_id = None, pbl_aggregation_method = AggMax, pbl_window_size_hours = 24,
      pbl_sample_size = 1000, pbl_threshold_percentage = 10, pbl_is_active = True, pbl_created_at = demo_at 0,
      pbl_updated_at = demo_at 0, pbl_metadata = []\<rparr>"

text \<open>A baseline of 100 ms, and a metric of 500 ms.\<close>

definition demo_perf :: pbm where
  "demo_perf =
     \<lparr>pbm_db =
        \<lparr>pdb_baselines = [baseline_to_row demo_baseline],
         pdb_metrics = [\<lparr>pmt_metric_id = ''m'', pmt_baseline_id = ''b'', pmt_timestamp = demo_at 5, pmt_value = 500,
                         pmt_unit = ''ms'', pmt_tags = [], pmt_metadata = []\<rparr>],
         pdb_calculations = [\<lparr>clw_baseline_id = ''b'', clw_calculated_value = 100, clw_baseline_value = 100,
                              clw_calculated_at = demo_at 1\<rparr>],
         pdb_alerts = []\<rparr>,
      pbm_cache = [(''b'', demo_baseline)], pbm_buffer = []\<rparr>"

theorem pb_regression_forgotten_witness:
  "case pb_calculate_baseline (demo_at 10) ''b'' (Some (demo_at 0)) (Some (demo_at 9)) demo_perf of
     (Inr r1, m1) \<Rightarrow> brs_is_regression r1 \<and> brs_regression_percentage r1 = 400 \<and>
       (case pb_calculate_baseline (demo_at 11) ''b'' (Some (demo_at 0)) (Some (demo_at 9)) m1 of
          (Inr r2, m2) \<Rightarrow> \<not> brs_is_regression r2 \<and> brs_calculated_value r2 = brs_calculated_value r1
        | _ \<Rightarrow> False)
   | _ \<Rightarrow> False"
proof -
  have "case pb_calculate_baseline (demo_at 10) ''b'' (Some (demo_at 0)) (Some (demo_at 9)) demo_perf of
      (Inr r1, m1) \<Rightarrow> brs_is_regression r1 \<and> brs_regression_percentage r1 = 400 | _ \<Rightarrow> False" by code_simp
  then obtain r1 m1 where first: "pb_calculate_baseline (demo_at 10) ''b'' (Some (demo_at 0)) (Some (demo_at 9)) demo_perf = (Inr r1, m1)"
    and r1: "brs_is_regression r1" "brs_regression_percentage r1 = 400" by (auto split: prod.splits sum.splits)
  have "dget (pbm_cache demo_perf) ''b'' = Some demo_baseline" "0 \<le> pbl_threshold_percentage demo_baseline"
    "\<forall>c \<in> set (pdb_calculations (pbm_db demo_perf)). clw_baseline_id c = ''b'' \<longrightarrow> clw_calculated_at c < demo_at 10"
    by (simp_all add: demo_perf_def demo_baseline_def demo_at_def less_datetime_def)
  from pb_regression_forgotten [OF this first, of "demo_at 11"] r1 show ?thesis by (auto simp: first)
qed

end
