(* ===== verification/SemanticCache.thy ===== *)
theory SemanticCache
  imports Tables
begin

text \<open>
  \<^verbatim>\<open>apps/data-plane/semantic-cache-service/src\<close>: the embeddings (\<^verbatim>\<open>embedding_service.py\<close>), the cache of
  contents by similarity over Redis (\<^verbatim>\<open>cache_manager.py\<close>), and the cache that the service itself uses, which is
  another one (\<^verbatim>\<open>main.py\<close>).

  Parameters: \<open>draws\<close>, the normally distributed numbers that numpy draws for a text (its seed is the hash of the
  text), the order \<open>scan\<close> in which Redis lists the members of a set, and the length of texts. Numbers are reals.
  Redis holds texts and sets with the time at which they expire; entries and embeddings are stored as values,
  as writing them as JSON and reading them back gives them. An operation reads the clock once.
\<close>

section \<open>Embeddings\<close>

definition dot :: "real list \<Rightarrow> real list \<Rightarrow> real" where
  "dot x y = sum_list (map2 (*) x y)"

definition vec_norm :: "real list \<Rightarrow> real" where
  "vec_norm x = sqrt (dot x x)"

definition sc_mock_embedding :: "(string \<Rightarrow> real list) \<Rightarrow> string \<Rightarrow> real list" where
  "sc_mock_embedding draws txt =
     (let embedding = draws txt; norm = vec_norm embedding
      in if 0 < norm then map (\<lambda>x. x / norm) embedding else embedding)"

definition cosine_similarity :: "real list \<Rightarrow> real list \<Rightarrow> exn + real" where
  "cosine_similarity x y =
     (if length x \<noteq> length y then Inl (value_error ''Embeddings must have the same dimensions'')
      else if vec_norm x = 0 \<or> vec_norm y = 0 then Inr 0
      else Inr (dot x y / (vec_norm x * vec_norm y)))"

text \<open>A sort in reverse keeps the order of equal keys.\<close>

definition find_most_similar :: "real list \<Rightarrow> real list list \<Rightarrow> real \<Rightarrow> exn + (nat \<times> real) list" where
  "find_most_similar q embeddings threshold =
     ebind (emap (\<lambda>(i, e). ebind (cosine_similarity q e) (\<lambda>s. Inr (i, s))) (enumerate 0 embeddings)) (\<lambda>xs.
       Inr (rev (sort_key snd (rev (filter (\<lambda>(_, s). threshold \<le> s) xs)))))"

section \<open>Redis\<close>

type_synonym 'v expiring = "(string, 'v \<times> rat) dict"

definition live :: "'v expiring \<Rightarrow> rat \<Rightarrow> string \<Rightarrow> 'v option" where
  "live d now k = (case dget d k of None \<Rightarrow> None | Some (v, expires) \<Rightarrow> if now < expires then Some v else None)"

text \<open>SETEX refuses an expiry that is not positive.\<close>

definition setex :: "string \<Rightarrow> int \<Rightarrow> 'v \<Rightarrow> rat \<Rightarrow> 'v expiring \<Rightarrow> 'v expiring" where
  "setex k ttl v now d = (if 0 < ttl then dset k (v, now + of_int ttl) d else d)"

text \<open>SADD and then EXPIRE, which deletes a key whose new expiry is not positive.\<close>

definition sadd_expire :: "string \<Rightarrow> int \<Rightarrow> string \<Rightarrow> rat \<Rightarrow> string list expiring \<Rightarrow> string list expiring" where
  "sadd_expire k ttl x now d =
     (let members = (case live d now k of None \<Rightarrow> [] | Some xs \<Rightarrow> xs)
      in if 0 < ttl then dset k (List.insert x members, now + of_int ttl) d else ddel k d)"

text \<open>SREM keeps the expiry of a set, and removes an empty set.\<close>

definition srem :: "string \<Rightarrow> string \<Rightarrow> rat \<Rightarrow> string list expiring \<Rightarrow> bool \<times> string list expiring" where
  "srem k x now d =
     (case dget d k of
        None \<Rightarrow> (False, d)
      | Some (xs, expires) \<Rightarrow>
          if expires \<le> now \<or> x \<notin> set xs then (False, d)
          else (let ys = removeAll x xs in (True, if ys = [] then ddel k d else dset k (ys, expires) d)))"

text \<open>TTL in seconds is rounded to the nearest second.\<close>

definition redis_ttl :: "'v expiring \<Rightarrow> rat \<Rightarrow> string \<Rightarrow> int" where
  "redis_ttl d now k =
     (case dget d k of
        None \<Rightarrow> - 2
      | Some (_, expires) \<Rightarrow> if now < expires then \<lfloor>expires - now + 1 / 2\<rfloor> else - 2)"

section \<open>The cache\<close>

record sc_settings =
  scs_default_ttl_seconds :: int
  scs_max_ttl_seconds :: int
  scs_similarity_threshold :: real

definition sc_default_settings :: sc_settings where
  "sc_default_settings =
     \<lparr>scs_default_ttl_seconds = 3600, scs_max_ttl_seconds = 86400, scs_similarity_threshold = 85 / 100\<rparr>"

record sc_request =
  scq_tenant_id :: string
  scq_cache_key :: string
  scq_content :: string
  scq_ttl_seconds :: "int option"
  scq_metadata :: json_dict

record sc_entry =
  sce_cache_key :: string
  sce_tenant_id :: string
  sce_content :: string
  sce_embedding :: "real list"
  sce_cached_at :: rat
  sce_expires_at :: rat
  sce_metadata :: json_dict
  sce_hit_count :: int

record sc_redis =
  scr_entries :: "sc_entry expiring"
  scr_embeddings :: "real list expiring"
  scr_tenant_keys :: "string list expiring"

definition sc_cache_key :: "string \<Rightarrow> string \<Rightarrow> string" where
  "sc_cache_key tenant_id key = ''semantic_cache:'' @ tenant_id @ '':'' @ key"

definition sc_embedding_key :: "string \<Rightarrow> string \<Rightarrow> string" where
  "sc_embedding_key tenant_id key = ''semantic_embeddings:'' @ tenant_id @ '':'' @ key"

definition sc_tenant_keys_key :: "string \<Rightarrow> string" where
  "sc_tenant_keys_key tenant_id = ''tenant_keys:'' @ tenant_id"

definition sc_ttl :: "sc_settings \<Rightarrow> sc_request \<Rightarrow> int" where
  "sc_ttl cfg rq =
     (let ttl = (case scq_ttl_seconds rq of
                   None \<Rightarrow> scs_default_ttl_seconds cfg
                 | Some n \<Rightarrow> if n = 0 then scs_default_ttl_seconds cfg else n)
      in min ttl (scs_max_ttl_seconds cfg))"

text \<open>The commands of the transaction run even when one of them fails; then the call returns \<open>False\<close>.\<close>

definition sc_store ::
  "sc_settings \<Rightarrow> (string \<Rightarrow> real list) \<Rightarrow> rat \<Rightarrow> sc_request \<Rightarrow> sc_redis \<Rightarrow> bool \<times> sc_redis" where
  "sc_store cfg draws now rq r =
     (let embedding = sc_mock_embedding draws (scq_content rq);
          ttl = sc_ttl cfg rq;
          tenant = scq_tenant_id rq;
          key = scq_cache_key rq;
          entry = \<lparr>sce_cache_key = key, sce_tenant_id = tenant, sce_content = scq_content rq,
                   sce_embedding = embedding, sce_cached_at = now, sce_expires_at = now + of_int ttl,
                   sce_metadata = scq_metadata rq, sce_hit_count = 0\<rparr>
      in (0 < ttl,
          r\<lparr>scr_entries := setex (sc_cache_key tenant key) ttl entry now (scr_entries r),
            scr_embeddings := setex (sc_embedding_key tenant key) ttl embedding now (scr_embeddings r),
            scr_tenant_keys := sadd_expire (sc_tenant_keys_key tenant) ttl key now (scr_tenant_keys r)\<rparr>))"

text \<open>One round of the search: a key whose embedding has expired or has other dimensions is passed over.\<close>

definition sc_compare ::
  "real list \<Rightarrow> real \<Rightarrow> (string \<Rightarrow> real list option) \<Rightarrow> string \<Rightarrow> string option \<times> real \<Rightarrow> string option \<times> real" where
  "sc_compare q threshold embedding_of key best =
     (case embedding_of key of
        None \<Rightarrow> best
      | Some e \<Rightarrow>
          (case cosine_similarity q e of
             Inl _ \<Rightarrow> best
           | Inr s \<Rightarrow> if snd best < s \<and> threshold \<le> s then (Some key, s) else best))"

record sc_hit =
  sch_content :: string
  sch_similarity_score :: real
  sch_cache_key :: string
  sch_cached_at :: rat
  sch_expires_at :: rat
  sch_metadata :: json_dict

definition sc_threshold :: "sc_settings \<Rightarrow> real option \<Rightarrow> real" where
  "sc_threshold cfg similarity_threshold =
     (case similarity_threshold of
        None \<Rightarrow> scs_similarity_threshold cfg
      | Some x \<Rightarrow> if x = 0 then scs_similarity_threshold cfg else x)"

definition sc_best :: "sc_settings \<Rightarrow> (string \<Rightarrow> real list) \<Rightarrow> (string list \<Rightarrow> string list) \<Rightarrow> rat \<Rightarrow>
    string \<Rightarrow> string \<Rightarrow> real option \<Rightarrow> sc_redis \<Rightarrow> string option \<times> real" where
  "sc_best cfg draws scan now tenant query threshold r =
     (case live (scr_tenant_keys r) now (sc_tenant_keys_key tenant) of
        None \<Rightarrow> (None, 0)
      | Some keys \<Rightarrow>
          fold (sc_compare (sc_mock_embedding draws query) (sc_threshold cfg threshold)
              (\<lambda>k. live (scr_embeddings r) now (sc_embedding_key tenant k)))
            (scan keys) (None, 0))"

definition sc_hit_of :: "sc_entry \<Rightarrow> real \<Rightarrow> sc_hit" where
  "sc_hit_of e similarity =
     \<lparr>sch_content = sce_content e, sch_similarity_score = similarity, sch_cache_key = sce_cache_key e,
      sch_cached_at = sce_cached_at e, sch_expires_at = sce_expires_at e, sch_metadata = sce_metadata e\<rparr>"

text \<open>A best match whose key is the empty text counts as none.\<close>

definition sc_retrieve ::
  "sc_settings \<Rightarrow> (string \<Rightarrow> real list) \<Rightarrow> (string list \<Rightarrow> string list) \<Rightarrow> rat \<Rightarrow> string \<Rightarrow> string \<Rightarrow> real option \<Rightarrow>
   sc_redis \<Rightarrow> sc_hit option \<times> sc_redis" where
  "sc_retrieve cfg draws scan now tenant query threshold r =
     (case sc_best cfg draws scan now tenant query threshold r of
        (None, _) \<Rightarrow> (None, r)
      | (Some key, similarity) \<Rightarrow>
          (let cache_key = sc_cache_key tenant key
           in if key = '''' then (None, r)
              else (case live (scr_entries r) now cache_key of
                      None \<Rightarrow> (None, r)
                    | Some e \<Rightarrow>
                        (let e1 = e\<lparr>sce_hit_count := sce_hit_count e + 1\<rparr>;
                             ttl = redis_ttl (scr_entries r) now cache_key
                         in (Some (sc_hit_of e1 similarity),
                             r\<lparr>scr_entries := setex cache_key ttl e1 now (scr_entries r)\<rparr>)))))"

definition sc_delete :: "rat \<Rightarrow> string \<Rightarrow> string \<Rightarrow> sc_redis \<Rightarrow> bool \<times> sc_redis" where
  "sc_delete now tenant key r =
     (let ck = sc_cache_key tenant key; ek = sc_embedding_key tenant key
      in case srem (sc_tenant_keys_key tenant) key now (scr_tenant_keys r) of (removed, keys) \<Rightarrow>
           (live (scr_entries r) now ck \<noteq> None \<or> live (scr_embeddings r) now ek \<noteq> None \<or> removed,
            r\<lparr>scr_entries := ddel ck (scr_entries r), scr_embeddings := ddel ek (scr_embeddings r),
              scr_tenant_keys := keys\<rparr>))"

record sc_stats =
  sct_tenant_id :: string
  sct_total_entries :: nat
  sct_hit_rate :: rat
  sct_avg_similarity :: rat
  sct_cache_size_mb :: rat
  sct_oldest_entry :: "rat option"
  sct_newest_entry :: "rat option"

definition sc_get_stats ::
  "(sc_entry \<Rightarrow> nat) \<Rightarrow> rat \<Rightarrow> string \<Rightarrow> sc_redis \<Rightarrow> sc_stats" where
  "sc_get_stats text_length now tenant r =
     (case live (scr_tenant_keys r) now (sc_tenant_keys_key tenant) of
        None \<Rightarrow> \<lparr>sct_tenant_id = tenant, sct_total_entries = 0, sct_hit_rate = 0, sct_avg_similarity = 0,
                 sct_cache_size_mb = 0, sct_oldest_entry = None, sct_newest_entry = None\<rparr>
      | Some keys \<Rightarrow>
          (let es = List.map_filter (\<lambda>k. live (scr_entries r) now (sc_cache_key tenant k)) keys;
               times = map sce_cached_at es
           in \<lparr>sct_tenant_id = tenant, sct_total_entries = length keys,
               sct_hit_rate = of_int (sum_list (map sce_hit_count es)) / of_nat (max (length keys) 1),
               sct_avg_similarity = 85 / 100,
               sct_cache_size_mb = of_nat (sum_list (map text_length es)) / (1024 * 1024),
               sct_oldest_entry = (if times = [] then None else Some (foldl min (hd times) (tl times))),
               sct_newest_entry = (if times = [] then None else Some (foldl max (hd times) (tl times)))\<rparr>))"

section \<open>The cache of the service\<close>

text \<open>\<open>main.py\<close> keeps values in a dictionary of its own, and uses nothing of the above.\<close>

record mc_entry =
  mce_value :: string
  mce_expires_at :: rat

type_synonym mc_store = "(string, mc_entry) dict"

definition mc_put_cache :: "rat \<Rightarrow> string \<Rightarrow> string \<Rightarrow> int \<Rightarrow> mc_store \<Rightarrow> mc_store" where
  "mc_put_cache now key v ttl_s d = dset key \<lparr>mce_value = v, mce_expires_at = now + of_int ttl_s\<rparr> d"

definition mc_get_cache :: "rat \<Rightarrow> string \<Rightarrow> mc_store \<Rightarrow> (string \<times> int) option \<times> mc_store" where
  "mc_get_cache now key d =
     (case dget d key of
        None \<Rightarrow> (None, d)
      | Some e \<Rightarrow>
          if mce_expires_at e < now then (None, ddel key d)
          else (Some (mce_value e, \<lfloor>mce_expires_at e - now\<rfloor>), d))"

definition mc_delete_cache :: "string \<Rightarrow> mc_store \<Rightarrow> mc_store" where
  "mc_delete_cache key d = (if dget d key \<noteq> None then ddel key d else d)"

definition mc_get_stats :: "(mc_store \<Rightarrow> nat) \<Rightarrow> mc_store \<Rightarrow> nat \<times> nat" where
  "mc_get_stats text_length d = (length d, text_length d)"

section \<open>Similarity\<close>

lemma dot_Cons [simp]: "dot (a # x) (b # y) = a * b + dot x y"
  by (simp add: dot_def)

lemma dot_Nil [simp]: "dot [] y = 0" "dot x [] = 0"
  by (simp_all add: dot_def)

lemma dot_self_nonneg [simp]: "0 \<le> dot x x"
  by (induction x) simp_all

lemma dot_scale: "dot (map (\<lambda>a. a / c) x) (map (\<lambda>a. a / c) x) = dot x x / c\<^sup>2"
  by (induction x) (simp_all add: add_divide_distrib power2_eq_square)

text \<open>The Cauchy-Schwarz inequality on lists.\<close>

lemma abs_le_sqrt: "d\<^sup>2 \<le> a * b \<Longrightarrow> \<bar>d\<bar> \<le> sqrt a * sqrt b" for a b d :: real
  using real_le_rsqrt [of "\<bar>d\<bar>" "a * b"] by (simp add: real_sqrt_mult)

lemma dot_square_le: "length x = length y \<Longrightarrow> (dot x y)\<^sup>2 \<le> dot x x * dot y y"
proof (induction x y rule: list_induct2)
  case (Cons a x b y)
  let ?A = "dot x x" and ?B = "dot y y" and ?d = "dot x y"
  have "2 * (?d * (a * b)) \<le> ?A * b\<^sup>2 + ?B * a\<^sup>2"
  proof -
    have "?d * (a * b) \<le> \<bar>?d\<bar> * \<bar>a * b\<bar>" using abs_ge_self [of "?d * (a * b)"] by (simp only: abs_mult)
    also have "\<dots> \<le> sqrt ?A * sqrt ?B * \<bar>a * b\<bar>" by (rule mult_right_mono [OF abs_le_sqrt [OF Cons.IH]]) simp
    finally have "2 * (?d * (a * b)) \<le> 2 * (sqrt ?A * sqrt ?B * \<bar>a * b\<bar>)" by simp
    also have "\<dots> = 2 * (sqrt ?A * \<bar>b\<bar>) * (sqrt ?B * \<bar>a\<bar>)" by (simp add: abs_mult)
    also have "\<dots> \<le> (sqrt ?A * \<bar>b\<bar>)\<^sup>2 + (sqrt ?B * \<bar>a\<bar>)\<^sup>2" by (rule sum_squares_bound)
    finally show ?thesis by (simp add: power_mult_distrib)
  qed
  then show ?case using Cons.IH by (simp add: power2_eq_square algebra_simps)
qed simp

lemma vec_norm_nonneg [simp]: "0 \<le> vec_norm x"
  by (simp add: vec_norm_def)

lemma dot_self_norm: "dot x x = vec_norm x * vec_norm x"
  by (simp add: vec_norm_def)

lemma norm_embedding: "vec_norm (sc_mock_embedding draws txt) = (if vec_norm (draws txt) = 0 then 0 else 1)"
proof -
  have "vec_norm (map (\<lambda>a. a / vec_norm (draws txt)) (draws txt)) = 1" if "0 < vec_norm (draws txt)"
    using that by (simp add: vec_norm_def dot_scale)
  moreover have "0 < vec_norm (draws txt) \<longleftrightarrow> vec_norm (draws txt) \<noteq> 0" using vec_norm_nonneg [of "draws txt"] by linarith
  ultimately show ?thesis by (simp add: sc_mock_embedding_def Let_def)
qed

lemma cosine_self: "cosine_similarity x x = Inr (if vec_norm x = 0 then 0 else 1)"
  by (simp add: cosine_similarity_def dot_self_norm)

text \<open>
  Similarities are between -1 and 1, the same in both directions, and 1 for an embedding and itself.
\<close>

theorem sc_similarity_bounds:
  assumes "cosine_similarity x y = Inr s"
  shows "- 1 \<le> s \<and> s \<le> 1 \<and> cosine_similarity y x = Inr s \<and> (x = y \<and> vec_norm x \<noteq> 0 \<longrightarrow> s = 1)"
proof (cases "vec_norm x = 0 \<or> vec_norm y = 0")
  case True
  then show ?thesis using assms by (auto simp: cosine_similarity_def split: if_splits)
next
  case False
  then have pos: "0 < vec_norm x * vec_norm y" by (metis less_eq_real_def mult_eq_0_iff mult_nonneg_nonneg vec_norm_nonneg)
  have len: "length x = length y" and s: "s = dot x y / (vec_norm x * vec_norm y)"
    using assms False by (auto simp: cosine_similarity_def split: if_splits)
  have "\<bar>dot x y\<bar> \<le> vec_norm x * vec_norm y"
    using abs_le_sqrt [OF dot_square_le [OF len]] by (simp add: vec_norm_def)
  then have "\<bar>s\<bar> \<le> 1" using pos by (simp add: s abs_mult)
  then have "- 1 \<le> s" "s \<le> 1" by linarith+
  moreover have "dot y x = dot x y" using len by (induction x y rule: list_induct2) (simp_all add: mult.commute)
  moreover have "x = y \<longrightarrow> s = 1" using False by (auto simp: s dot_self_norm)
  ultimately show ?thesis using False len by (auto simp: cosine_similarity_def s [symmetric] mult.commute)
qed

theorem sc_similarity_bounds_witness:
  "- 1 \<le> (4 / 5 :: real) \<and> cosine_similarity [4, 3] [1, 0] = Inr (4 / 5)"
proof -
  have "cosine_similarity [1, 0] [4, 3] = Inr (4 / 5)"
    by (simp add: cosine_similarity_def vec_norm_def)
  from sc_similarity_bounds [OF this] show ?thesis by blast
qed

section \<open>The search\<close>

text \<open>A loop that keeps the first largest element finds the last one of a stable sort in reverse.\<close>

definition keep_larger :: "('a \<Rightarrow> 'b :: linorder) \<Rightarrow> 'a \<Rightarrow> 'a option \<Rightarrow> 'a option" where
  "keep_larger f x best = (case best of None \<Rightarrow> Some x | Some z \<Rightarrow> if f z < f x then Some x else best)"

lemma last_insort: "sorted (map f ys) \<Longrightarrow>
    last (insort_key f y ys) = (if ys = [] \<or> f (last ys) < f y then y else last ys)"
  by (induction ys) (auto, meson last_in_set leD order_less_le_trans)

lemma sort_key_Nil: "sort_key f xs = [] \<longleftrightarrow> xs = []"
  by (metis length_0_conv length_sort)

lemma keep_larger_ranks:
  "fold (keep_larger f) xs None = (if xs = [] then None else Some (last (sort_key f (rev xs))))"
proof (induction xs rule: rev_induct)
  case (snoc y ys)
  then show ?case by (auto simp: keep_larger_def last_insort sort_key_Nil)
qed simp

text \<open>The loop of \<open>retrieve\<close> is that loop over the pairs of an index and a similarity.\<close>

definition best_of :: "string list \<Rightarrow> (nat \<times> real) option \<Rightarrow> string option \<times> real" where
  "best_of ks b = (case b of None \<Rightarrow> (None, 0) | Some (i, s) \<Rightarrow> (Some (ks ! i), s))"

lemma compare_keeps_larger:
  assumes "0 < threshold" and "\<And>i. i \<in> set js \<Longrightarrow> cosine_similarity q (emb (ks ! i)) = Inr (sim i)"
    and "\<forall>x. b = Some x \<longrightarrow> 0 < snd x"
  shows "fold (sc_compare q threshold (\<lambda>k. Some (emb k))) (map ((!) ks) js) (best_of ks b) =
    best_of ks (fold (keep_larger snd) (filter (\<lambda>(_, s). threshold \<le> s) (map (\<lambda>i. (i, sim i)) js)) b)"
  using assms(2,3)
proof (induction js arbitrary: b)
  case (Cons j js)
  let ?b = "if threshold \<le> sim j then keep_larger snd (j, sim j) b else b"
  have "sc_compare q threshold (\<lambda>k. Some (emb k)) (ks ! j) (best_of ks b) = best_of ks ?b"
    using Cons.prems assms(1) by (auto simp: sc_compare_def best_of_def keep_larger_def split: option.splits)
  moreover have "\<forall>x. ?b = Some x \<longrightarrow> 0 < snd x"
    using Cons.prems(2) assms(1) by (auto simp: keep_larger_def split: option.splits if_splits)
  ultimately show ?case using Cons.IH [of ?b] Cons.prems(1) by simp
qed simp

lemma emap_all_Inr: "(\<And>x. x \<in> set xs \<Longrightarrow> f x = Inr (g x)) \<Longrightarrow> emap f xs = Inr (map g xs)"
  by (induction xs) auto

text \<open>
  The search of the cache ranks like \<open>find_most_similar\<close>: for a positive threshold and embeddings of the
  dimensions of the query, the key it finds is the key of the first result of that function.
\<close>

theorem sc_search_ranks_first:
  assumes "0 < threshold" and dims: "\<forall>k \<in> set ks. length (emb k) = length q"
  shows "fst (fold (sc_compare q threshold (\<lambda>k. Some (emb k))) ks (None, 0)) =
    (case find_most_similar q (map emb ks) threshold of Inr ((i, _) # _) \<Rightarrow> Some (ks ! i) | _ \<Rightarrow> None)"
proof -
  define sim where "sim i = (case cosine_similarity q (emb (ks ! i)) of Inl _ \<Rightarrow> 0 | Inr s \<Rightarrow> s)" for i
  define found where "found = filter (\<lambda>(_, s). threshold \<le> s) (map (\<lambda>i. (i, sim i)) [0..<length ks])"
  have sim: "cosine_similarity q (emb (ks ! i)) = Inr (sim i)" if "i < length ks" for i
    using dims that by (simp add: sim_def cosine_similarity_def split: sum.split)
  have "emap (\<lambda>(i, e). ebind (cosine_similarity q e) (\<lambda>s. Inr (i, s))) (enumerate 0 (map emb ks)) =
      Inr (map (\<lambda>(i, e). (i, sim i)) (enumerate 0 (map emb ks)))"
    by (rule emap_all_Inr) (auto simp: in_set_enumerate_eq sim)
  also have "map (\<lambda>(i, e). (i, sim i)) (enumerate 0 (map emb ks)) = map (\<lambda>i. (i, sim i)) [0..<length ks]"
    by (rule nth_equalityI) (simp_all add: nth_enumerate_eq)
  finally have ranked: "find_most_similar q (map emb ks) threshold = Inr (rev (sort_key snd (rev found)))"
    by (simp add: find_most_similar_def found_def)
  have "fold (sc_compare q threshold (\<lambda>k. Some (emb k))) (map ((!) ks) [0..<length ks]) (best_of ks None) =
      best_of ks (fold (keep_larger snd) found None)"
    unfolding found_def by (rule compare_keeps_larger) (use assms(1) sim in auto)
  then show ?thesis
    by (auto simp: map_nth keep_larger_ranks ranked best_of_def hd_rev [symmetric] sort_key_Nil
        split: list.split prod.split)
qed

theorem sc_search_ranks_first_witness:
  "fst (fold (sc_compare [1, 0] (1 / 2) (\<lambda>k. Some (if k = ''a'' then [3, 4] else [4, 3]))) [''a'', ''b''] (None, 0)) =
     (case find_most_similar [1, 0] [[3, 4], [4, 3]] (1 / 2) of
        Inr ((i, _) # _) \<Rightarrow> Some ([''a'', ''b''] ! i) | _ \<Rightarrow> None)"
  using sc_search_ranks_first [of "1 / 2" "[''a'', ''b'']" "\<lambda>k. if k = ''a'' then [3, 4] else [4, 3]" "[1, 0]"] by simp

section \<open>What a store makes available\<close>

lemma live_dset: "live (dset k (v, e) d) now k' = (if k' = k then if now < e then Some v else None else live d now k')"
  by (simp add: live_def dget_dset)

lemma live_ddel: "live (ddel k d) now k' = (if k' = k then None else live d now k')"
  by (simp add: live_def dget_ddel)

lemma cache_keys_eq [simp]:
  "sc_cache_key t k = sc_cache_key t k' \<longleftrightarrow> k = k'" "sc_embedding_key t k = sc_embedding_key t k' \<longleftrightarrow> k = k'"
  "sc_tenant_keys_key t = sc_tenant_keys_key t' \<longleftrightarrow> t = t'"
  by (simp_all add: sc_cache_key_def sc_embedding_key_def sc_tenant_keys_key_def)

lemma compare_unique:
  assumes "emb key = Some e" and "cosine_similarity q e = Inr 1" and "threshold \<le> 1"
    and others: "\<And>k x s. k \<in> set ks \<Longrightarrow> k \<noteq> key \<Longrightarrow> emb k = Some x \<Longrightarrow> cosine_similarity q x = Inr s \<Longrightarrow> s < 1"
    and "b = (Some key, 1) \<or> snd b < 1 \<and> key \<in> set ks"
  shows "fold (sc_compare q threshold emb) ks b = (Some key, 1)"
  using others assms(5)
proof (induction ks arbitrary: b)
  case (Cons k ks)
  let ?b = "sc_compare q threshold emb k b"
  have "?b = (Some key, 1) \<or> snd ?b < 1 \<and> key \<in> set ks"
  proof (cases "k = key")
    case True
    then show ?thesis using Cons.prems(2) assms(1-3) by (auto simp: sc_compare_def)
  next
    case False
    have "emb k = Some x \<Longrightarrow> cosine_similarity q x = Inr s \<Longrightarrow> s < 1" for x s using Cons.prems(1) [of k] False by simp
    then show ?thesis using Cons.prems(2) False
      by (fastforce simp: sc_compare_def split: option.splits sum.splits if_splits)
  qed
  then have "fold (sc_compare q threshold emb) ks ?b = (Some key, 1)"
    by (rule Cons.IH [rotated]) (use Cons.prems(1) in \<open>meson list.set_intros(2)\<close>)
  then show ?case by simp
qed auto


text \<open>
  C36. The index of a tenant expires with its latest entry. From the moment at which the entry that was stored last
  expires, and until something is stored again, no query of the tenant finds anything, though the entries that were stored to
  live longer are still in Redis.
\<close>

theorem sc_short_entry_hides_all:
  assumes store: "sc_store cfg draws now rq r = (True, r1)" and time: "now + of_int (sc_ttl cfg rq) \<le> t"
  shows "sc_retrieve cfg draws scan t (scq_tenant_id rq) query th r1 = (None, r1) \<and>
    sct_total_entries (sc_get_stats len t (scq_tenant_id rq) r1) = 0 \<and>
    (\<forall>k. k \<noteq> scq_cache_key rq \<longrightarrow>
       live (scr_entries r1) t (sc_cache_key (scq_tenant_id rq) k) = live (scr_entries r) t (sc_cache_key (scq_tenant_id rq) k) \<and>
       live (scr_embeddings r1) t (sc_embedding_key (scq_tenant_id rq) k) =
         live (scr_embeddings r) t (sc_embedding_key (scq_tenant_id rq) k))"
proof -
  have ttl: "0 < sc_ttl cfg rq" using store by (simp add: sc_store_def Let_def)
  have "live (scr_tenant_keys r1) t (sc_tenant_keys_key (scq_tenant_id rq)) = None"
    using store ttl time by (auto simp: sc_store_def Let_def sadd_expire_def live_dset)
  then show ?thesis
    using store ttl by (auto simp: sc_retrieve_def sc_best_def sc_get_stats_def sc_store_def Let_def setex_def live_dset)
qed

definition sc_empty :: sc_redis where
  "sc_empty = \<lparr>scr_entries = [], scr_embeddings = [], scr_tenant_keys = []\<rparr>"

definition sc_ask :: "string \<Rightarrow> string \<Rightarrow> string \<Rightarrow> int option \<Rightarrow> sc_request" where
  "sc_ask tenant key content ttl =
     \<lparr>scq_tenant_id = tenant, scq_cache_key = key, scq_content = content, scq_ttl_seconds = ttl, scq_metadata = []\<rparr>"

lemma sc_ask_simps [simp]:
  "scq_tenant_id (sc_ask t k c n) = t" "scq_cache_key (sc_ask t k c n) = k" "scq_content (sc_ask t k c n) = c"
  "scq_metadata (sc_ask t k c n) = []"
  by (simp_all add: sc_ask_def)

lemma ttl_ask [simp]: "sc_ttl sc_default_settings (sc_ask t k c n) = (case n of None \<Rightarrow> 3600 | Some i \<Rightarrow> if i = 0 then 3600 else min i 86400)"
  by (simp add: sc_ttl_def sc_ask_def sc_default_settings_def split: option.split)

lemma threshold_default [simp]: "sc_threshold sc_default_settings None = 17 / 20"
  by (simp add: sc_threshold_def sc_default_settings_def)

lemma live_empty [simp]: "live (scr_embeddings sc_empty) now k = None"
  by (simp add: sc_empty_def live_def)

definition sc_directions :: "string \<Rightarrow> real list" where
  "sc_directions txt = (if txt = ''hello'' then [3, 4] else [1, 0])"


theorem sc_short_entry_hides_all_witness:
  "fst (sc_retrieve sc_default_settings sc_directions rev 70 ''a'' ''hello'' None
      (snd (sc_store sc_default_settings sc_directions 10 (sc_ask ''a'' ''l'' ''bye'' (Some 60))
        (snd (sc_store sc_default_settings sc_directions 0 (sc_ask ''a'' ''k'' ''hello'' None) sc_empty))))) = None"
proof -
  let ?r = "snd (sc_store sc_default_settings sc_directions 0 (sc_ask ''a'' ''k'' ''hello'' None) sc_empty)"
  have store: "sc_store sc_default_settings sc_directions 10 (sc_ask ''a'' ''l'' ''bye'' (Some 60)) ?r =
      (True, snd (sc_store sc_default_settings sc_directions 10 (sc_ask ''a'' ''l'' ''bye'' (Some 60)) ?r))"
    by (simp add: sc_store_def Let_def)
  from sc_short_entry_hides_all [OF store, of 70] show ?thesis by simp
qed

section \<open>Tenants\<close>

datatype sc_op = ScStore rat sc_request | ScRetrieve rat string string "real option" | ScDelete rat string string

fun sc_op_tenant :: "sc_op \<Rightarrow> string" where
  "sc_op_tenant (ScStore now rq) = scq_tenant_id rq"
| "sc_op_tenant (ScRetrieve now tenant query th) = tenant"
| "sc_op_tenant (ScDelete now tenant key) = tenant"

fun sc_do :: "sc_settings \<Rightarrow> (string \<Rightarrow> real list) \<Rightarrow> (string list \<Rightarrow> string list) \<Rightarrow> sc_op \<Rightarrow> sc_redis \<Rightarrow> sc_redis" where
  "sc_do cfg draws scan (ScStore now rq) r = snd (sc_store cfg draws now rq r)"
| "sc_do cfg draws scan (ScRetrieve now tenant query th) r = snd (sc_retrieve cfg draws scan now tenant query th r)"
| "sc_do cfg draws scan (ScDelete now tenant key) r = snd (sc_delete now tenant key r)"

text \<open>Two states in which a tenant sees the same.\<close>

definition sc_same_view :: "string \<Rightarrow> sc_redis \<Rightarrow> sc_redis \<Rightarrow> bool" where
  "sc_same_view b r r' \<longleftrightarrow>
     (\<forall>k. dget (scr_entries r) (sc_cache_key b k) = dget (scr_entries r') (sc_cache_key b k) \<and>
          dget (scr_embeddings r) (sc_embedding_key b k) = dget (scr_embeddings r') (sc_embedding_key b k)) \<and>
     dget (scr_tenant_keys r) (sc_tenant_keys_key b) = dget (scr_tenant_keys r') (sc_tenant_keys_key b)"

lemma sc_same_view_trans: "sc_same_view b r r' \<Longrightarrow> sc_same_view b r' r'' \<Longrightarrow> sc_same_view b r r''"
  by (simp add: sc_same_view_def)

lemma sc_same_view_retrieve: "sc_same_view b r r' \<Longrightarrow>
    fst (sc_retrieve cfg draws scan now b query th r) = fst (sc_retrieve cfg draws scan now b query th r')"
  by (auto simp: sc_same_view_def sc_retrieve_def sc_best_def live_def Let_def split: option.splits prod.splits)

text \<open>Keys of tenants without a colon are apart.\<close>

lemma colon_free_split:
  "a @ CHR '':'' # k = b @ CHR '':'' # k' \<Longrightarrow> CHR '':'' \<notin> set a \<Longrightarrow> CHR '':'' \<notin> set b \<Longrightarrow> a = b \<and> k = k'"
proof (induction a arbitrary: b)
  case Nil
  then show ?case by (cases b) auto
next
  case (Cons x a)
  then show ?case by (cases b) auto
qed

lemma keys_apart:
  assumes "a \<noteq> b" "CHR '':'' \<notin> set a" "CHR '':'' \<notin> set b"
  shows "sc_cache_key a k \<noteq> sc_cache_key b k'" "sc_embedding_key a k \<noteq> sc_embedding_key b k'"
    "sc_tenant_keys_key a \<noteq> sc_tenant_keys_key b"
  using assms colon_free_split [of a k b k'] by (auto simp: sc_cache_key_def sc_embedding_key_def)

lemma do_keeps_view:
  assumes "sc_op_tenant op \<noteq> b" "CHR '':'' \<notin> set (sc_op_tenant op)" "CHR '':'' \<notin> set b"
  shows "sc_same_view b r (sc_do cfg draws scan op r)"
  using assms
proof (cases op)
  case (ScStore now rq)
  with assms keys_apart [of b "scq_tenant_id rq"] show ?thesis
    by (auto simp: sc_same_view_def sc_store_def Let_def setex_def sadd_expire_def dget_dset dget_ddel)
next
  case (ScRetrieve now tenant query th)
  with assms keys_apart [of b tenant] show ?thesis
    by (auto simp: sc_same_view_def sc_retrieve_def Let_def setex_def dget_dset split: prod.split option.split)
next
  case (ScDelete now tenant key)
  with assms keys_apart [of b tenant] show ?thesis
    by (auto simp: sc_same_view_def sc_delete_def Let_def srem_def dget_dset dget_ddel split: prod.split option.split)
qed

text \<open>
  C22. Tenants do not see each other, if their names contain no colon: whatever such tenants store,
  retrieve and delete, another one gets the answers that it got before.
\<close>

theorem sc_tenants_isolated:
  assumes "\<forall>op \<in> set ops. sc_op_tenant op \<noteq> b \<and> CHR '':'' \<notin> set (sc_op_tenant op)" and "CHR '':'' \<notin> set b"
  shows "fst (sc_retrieve cfg draws scan now b query th (fold (sc_do cfg draws scan) ops r)) =
    fst (sc_retrieve cfg draws scan now b query th r)"
proof -
  have "sc_same_view b r (fold (sc_do cfg draws scan) ops r)"
    using assms(1)
  proof (induction ops arbitrary: r)
    case (Cons op ops)
    then have "sc_same_view b r (sc_do cfg draws scan op r)" using assms(2) by (intro do_keeps_view) simp_all
    with Cons show ?case by (simp add: sc_same_view_trans)
  qed (simp add: sc_same_view_def)
  then show ?thesis by (simp add: sc_same_view_retrieve)
qed

theorem sc_tenants_isolated_witness:
  "fst (sc_retrieve sc_default_settings sc_directions rev 60 ''a'' ''hello'' None
     (fold (sc_do sc_default_settings sc_directions rev) [ScStore 0 (sc_ask ''b'' ''k'' ''hello'' None), ScDelete 1 ''c'' ''k''] sc_empty)) =
   fst (sc_retrieve sc_default_settings sc_directions rev 60 ''a'' ''hello'' None sc_empty)"
  by (rule sc_tenants_isolated) simp_all

text \<open>
  With a colon in a name they do: a key \<open>b:c\<close> of tenant \<open>a\<close> is the key \<open>c\<close> of tenant \<open>a:b\<close>, whose content the other
  then reads.
\<close>

lemma sc_colon_leak:
  "sch_content (the (fst (sc_retrieve sc_default_settings sc_directions rev 2 ''a'' ''secret'' None
     (fold (sc_do sc_default_settings sc_directions rev)
        [ScStore 0 (sc_ask ''a'' ''b:c'' ''hello'' None), ScStore 1 (sc_ask ''a:b'' ''c'' ''secret'' None)] sc_empty)))) = ''secret''"
  by (simp add: sc_store_def sc_retrieve_def sc_best_def Let_def setex_def sadd_expire_def live_def sc_empty_def
      sc_cache_key_def sc_embedding_key_def sc_tenant_keys_key_def sc_compare_def cosine_self norm_embedding sc_hit_of_def)
    (simp add: sc_directions_def vec_norm_def)

text \<open>A negative lifetime makes the store fail and removes the index of the tenant.\<close>

lemma sc_negative_ttl_drops_index:
  assumes "sc_ttl cfg rq < 0"
  shows "fst (sc_store cfg draws now rq r) = False \<and>
    fst (sc_retrieve cfg draws scan t (scq_tenant_id rq) query th (snd (sc_store cfg draws now rq r))) = None"
  using assms by (simp add: sc_store_def sc_retrieve_def sc_best_def Let_def sadd_expire_def live_ddel)

section \<open>The dictionary of the service\<close>

datatype mc_op = McPut rat string string int | McGet rat string | McDelete rat string

fun mc_time :: "mc_op \<Rightarrow> rat" where
  "mc_time (McPut t k v ttl) = t"
| "mc_time (McGet t k) = t"
| "mc_time (McDelete t k) = t"

fun mc_do :: "mc_op \<Rightarrow> mc_store \<Rightarrow> mc_store" where
  "mc_do (McPut t k v ttl) d = mc_put_cache t k v ttl d"
| "mc_do (McGet t k) d = snd (mc_get_cache t k d)"
| "mc_do (McDelete t k) d = mc_delete_cache k d"

text \<open>The value put last under a key and not deleted since, with the end of its life.\<close>

fun mc_latest :: "string \<Rightarrow> mc_op \<Rightarrow> (string \<times> rat) option \<Rightarrow> (string \<times> rat) option" where
  "mc_latest key (McPut t k v ttl) x = (if k = key then Some (v, t + of_int ttl) else x)"
| "mc_latest key (McGet t k) x = x"
| "mc_latest key (McDelete t k) x = (if k = key then None else x)"

definition mc_agrees :: "rat \<Rightarrow> string \<Rightarrow> mc_store \<Rightarrow> (string \<times> rat) option \<Rightarrow> bool" where
  "mc_agrees t key d x \<longleftrightarrow>
     map_option (\<lambda>e. (mce_value e, mce_expires_at e)) (dget d key) = x \<or>
     dget d key = None \<and> (\<exists>v e. x = Some (v, e) \<and> e < t)"

lemma mc_agrees_later: "mc_agrees t key d x \<Longrightarrow> t \<le> t' \<Longrightarrow> mc_agrees t' key d x"
  by (auto simp: mc_agrees_def)

lemma mc_agrees_do: "mc_agrees (mc_time op) key d x \<Longrightarrow> mc_agrees (mc_time op) key (mc_do op d) (mc_latest key op x)"
  by (cases op) (auto simp: mc_agrees_def mc_put_cache_def mc_get_cache_def mc_delete_cache_def dget_dset dget_ddel
      split: option.splits)

text \<open>
  The dictionary of the service is a map of values with a life time: at times that do not run backwards, a read
  returns the value put last under the key and not deleted since, until its time is over.
\<close>

theorem mc_get_is_latest:
  assumes "sorted (map mc_time ops @ [now])"
  shows "fst (mc_get_cache now key (fold mc_do ops [])) =
    (case fold (mc_latest key) ops None of
       None \<Rightarrow> None | Some (v, e) \<Rightarrow> if e < now then None else Some (v, \<lfloor>e - now\<rfloor>))"
proof -
  have "mc_agrees now key (fold mc_do ops d) (fold (mc_latest key) ops x)"
    if "sorted (map mc_time ops @ [now])" "mc_agrees t key d x" "\<forall>u \<in> set (map mc_time ops @ [now]). t \<le> u" for t d x
    using that
  proof (induction ops arbitrary: t d x)
    case (Cons op ops)
    have "mc_agrees (mc_time op) key (mc_do op d) (mc_latest key op x)"
      using Cons.prems by (intro mc_agrees_do mc_agrees_later [OF Cons.prems(2)]) simp
    then show ?case using Cons.IH [of "mc_time op" "mc_do op d"] Cons.prems(1) by simp
  qed (simp add: mc_agrees_later)
  from this [OF assms, of "Min (set (map mc_time ops @ [now]))" "[]" None]
  have "mc_agrees now key (fold mc_do ops []) (fold (mc_latest key) ops None)" by (simp add: mc_agrees_def)
  then show ?thesis
    by (cases "fold (mc_latest key) ops None") (auto simp: mc_agrees_def mc_get_cache_def split: option.splits)
qed

theorem mc_get_is_latest_witness:
  "fst (mc_get_cache 50 ''k'' (fold mc_do [McPut 0 ''k'' ''v'' 10, McGet 20 ''k'', McPut 30 ''k'' ''w'' 60] [])) =
    (case fold (mc_latest ''k'') [McPut 0 ''k'' ''v'' 10, McGet 20 ''k'', McPut 30 ''k'' ''w'' 60] None of
       None \<Rightarrow> None | Some (v, e) \<Rightarrow> if e < 50 then None else Some (v, \<lfloor>e - 50\<rfloor>))"
  by (rule mc_get_is_latest) simp

end
