(* ===== verification/ModelGateway.thy ===== *)
theory ModelGateway
  imports Interfaces Json
begin

text \<open>
  \<^verbatim>\<open>apps/data-plane/model-gateway/src\<close>: the circuit breakers, the rate limiter, the providers and the end points of the
  gateway to language models.

  Parameters: the HTTP client of a provider (\<open>http\<close>, which yields the JSON body of a good answer or
  raises), the coercions of pydantic to integers and texts, the texts of JSON values, and fresh identifiers. A state of
  the gateway is its limiter, its breakers and the metering events that were published.
\<close>

record mg_settings =
  mgs_openai_api_key :: "string option"
  mgs_anthropic_api_key :: "string option"
  mgs_failure_threshold :: int
  mgs_recovery_timeout :: int
  mgs_requests_per_minute :: int
  mgs_tokens_per_minute :: int
  mgs_request_timeout :: int
  mgs_openai_models :: "string list"
  mgs_anthropic_models :: "string list"
  mgs_azure_models :: "string list"

definition mg_default_settings :: mg_settings where
  "mg_default_settings =
     \<lparr>mgs_openai_api_key = None, mgs_anthropic_api_key = None, mgs_failure_threshold = 5, mgs_recovery_timeout = 60,
      mgs_requests_per_minute = 1000, mgs_tokens_per_minute = 100000, mgs_request_timeout = 30,
      mgs_openai_models = [''gpt-4'', ''gpt-3.5-turbo'', ''gpt-4-turbo''],
      mgs_anthropic_models = [''claude-3-sonnet'', ''claude-3-haiku''],
      mgs_azure_models = [''gpt-4'', ''gpt-35-turbo'']\<rparr>"

section \<open>Circuit breakers\<close>

datatype mg_state = MgClosed | MgOpen | MgHalfOpen

fun mg_state_value :: "mg_state \<Rightarrow> string" where
  "mg_state_value MgClosed = ''closed''"
| "mg_state_value MgOpen = ''open''"
| "mg_state_value MgHalfOpen = ''half_open''"

record mg_breaker =
  mgb_failure_threshold :: int
  mgb_recovery_timeout :: int
  mgb_failure_count :: int
  mgb_last_failure_time :: "rat option"
  mgb_state :: mg_state

definition mg_breaker_init :: "int \<Rightarrow> int \<Rightarrow> mg_breaker" where
  "mg_breaker_init failure_threshold recovery_timeout =
     \<lparr>mgb_failure_threshold = failure_threshold, mgb_recovery_timeout = recovery_timeout, mgb_failure_count = 0,
      mgb_last_failure_time = None, mgb_state = MgClosed\<rparr>"

definition mg_should_attempt_reset :: "rat \<Rightarrow> mg_breaker \<Rightarrow> bool" where
  "mg_should_attempt_reset now b \<longleftrightarrow>
     mgb_state b = MgOpen \<and>
     (case mgb_last_failure_time b of None \<Rightarrow> False | Some l \<Rightarrow> of_int (mgb_recovery_timeout b) \<le> now - l)"

definition mg_enter :: "rat \<Rightarrow> mg_breaker \<Rightarrow> exn option \<times> mg_breaker" where
  "mg_enter now b =
     (if mgb_state b = MgOpen then
        (if mg_should_attempt_reset now b then (None, b\<lparr>mgb_state := MgHalfOpen\<rparr>)
         else (Some (exception ''Circuit breaker is OPEN for make_request''), b))
      else (None, b))"

definition mg_record_failure :: "rat \<Rightarrow> mg_breaker \<Rightarrow> mg_breaker" where
  "mg_record_failure now b =
     (let b1 = b\<lparr>mgb_failure_count := mgb_failure_count b + 1, mgb_last_failure_time := Some now\<rparr>
      in if mgb_failure_threshold b1 \<le> mgb_failure_count b1 then b1\<lparr>mgb_state := MgOpen\<rparr> else b1)"

definition mg_leave :: "rat \<Rightarrow> 'a outcome \<Rightarrow> mg_breaker \<Rightarrow> mg_breaker" where
  "mg_leave now r b =
     (case r of
        Ok _ \<Rightarrow>
          (let b1 = b\<lparr>mgb_failure_count := 0\<rparr>
           in if mgb_state b1 = MgHalfOpen then b1\<lparr>mgb_state := MgClosed\<rparr> else b1)
      | Raise _ \<Rightarrow> mg_record_failure now b
      | Cancelled \<Rightarrow> b)"

definition mg_breaker_call :: "('w, 'a) coro \<Rightarrow> (mg_breaker \<times> 'w, 'a) coro" where
  "mg_breaker_call = guarded (instant mg_enter) (plain mg_leave)"

record mg_breaker_report =
  mgr_state :: string
  mgr_failure_count :: int
  mgr_last_failure_time :: "rat option"
  mgr_next_retry_time :: "rat option"

text \<open>The time 0 counts as no failure.\<close>

definition mg_get_state :: "mg_breaker \<Rightarrow> mg_breaker_report" where
  "mg_get_state b =
     \<lparr>mgr_state = mg_state_value (mgb_state b), mgr_failure_count = mgb_failure_count b,
      mgr_last_failure_time = mgb_last_failure_time b,
      mgr_next_retry_time =
        (case mgb_last_failure_time b of
           None \<Rightarrow> None | Some l \<Rightarrow> if l = 0 then None else Some (l + of_int (mgb_recovery_timeout b)))\<rparr>"

definition mg_get_breaker :: "string \<Rightarrow> mg_breaker \<Rightarrow> (string, mg_breaker) dict \<Rightarrow> (string, mg_breaker) dict" where
  "mg_get_breaker name fresh d = (if dget d name = None then dset name fresh d else d)"

definition mg_get_all_states :: "(string, mg_breaker) dict \<Rightarrow> (string, mg_breaker_report) dict" where
  "mg_get_all_states d = map (\<lambda>(name, b). (name, mg_get_state b)) d"

section \<open>The rate limiter\<close>

record mg_window =
  mgw_max_requests :: int
  mgw_window_size :: rat
  mgw_requests :: "rat list"

definition mg_window_init :: "int \<Rightarrow> rat \<Rightarrow> mg_window" where
  "mg_window_init max_requests window_size =
     \<lparr>mgw_max_requests = max_requests, mgw_window_size = window_size, mgw_requests = []\<rparr>"

definition mg_is_allowed :: "rat \<Rightarrow> mg_window \<Rightarrow> bool \<times> mg_window" where
  "mg_is_allowed now l =
     (let requests = dropWhile (\<lambda>x. x \<le> now - mgw_window_size l) (mgw_requests l)
      in if int (length requests) < mgw_max_requests l then (True, l\<lparr>mgw_requests := requests @ [now]\<rparr>)
         else (False, l\<lparr>mgw_requests := requests\<rparr>))"

record mg_bucket =
  mgk_max_tokens :: rat
  mgk_refill_rate :: rat
  mgk_tokens :: rat
  mgk_last_refill :: rat

definition mg_bucket_init :: "rat \<Rightarrow> rat \<Rightarrow> rat \<Rightarrow> mg_bucket" where
  "mg_bucket_init now max_tokens refill_rate =
     \<lparr>mgk_max_tokens = max_tokens, mgk_refill_rate = refill_rate, mgk_tokens = max_tokens, mgk_last_refill = now\<rparr>"

definition mg_consume :: "rat \<Rightarrow> rat \<Rightarrow> mg_bucket \<Rightarrow> bool \<times> mg_bucket" where
  "mg_consume tokens now l =
     (let time_passed = now - mgk_last_refill l;
          available = min (mgk_max_tokens l) (mgk_tokens l + time_passed * mgk_refill_rate l);
          l1 = l\<lparr>mgk_tokens := available, mgk_last_refill := now\<rparr>
      in if tokens \<le> available then (True, l1\<lparr>mgk_tokens := available - tokens\<rparr>) else (False, l1))"

record mg_limiter =
  mgl_request_limiters :: "(string, mg_window) dict"
  mgl_token_limiters :: "(string, mg_bucket) dict"
  mgl_global :: mg_window

definition mg_limiter_init :: "mg_settings \<Rightarrow> mg_limiter" where
  "mg_limiter_init cfg =
     \<lparr>mgl_request_limiters = [], mgl_token_limiters = [],
      mgl_global = mg_window_init (mgs_requests_per_minute cfg * 10) 60\<rparr>"

text \<open>The \<open>defaultdict\<close>s make the limiters of a tenant when they are first looked up.\<close>

definition mg_tenant_window :: "mg_settings \<Rightarrow> mg_limiter \<Rightarrow> string \<Rightarrow> mg_window" where
  "mg_tenant_window cfg l tenant =
     dget_or (mg_window_init (mgs_requests_per_minute cfg) 60) (mgl_request_limiters l) tenant"

definition mg_tenant_bucket :: "mg_settings \<Rightarrow> rat \<Rightarrow> mg_limiter \<Rightarrow> string \<Rightarrow> mg_bucket" where
  "mg_tenant_bucket cfg now l tenant =
     dget_or (mg_bucket_init now (of_int (mgs_tokens_per_minute cfg)) (of_int (mgs_tokens_per_minute cfg) / 60))
       (mgl_token_limiters l) tenant"

definition mg_check_rate_limit :: "mg_settings \<Rightarrow> rat \<Rightarrow> string \<Rightarrow> rat \<Rightarrow> mg_limiter \<Rightarrow> bool \<times> mg_limiter" where
  "mg_check_rate_limit cfg now tenant estimated_tokens l =
     (case mg_is_allowed now (mgl_global l) of
        (False, g) \<Rightarrow> (False, l\<lparr>mgl_global := g\<rparr>)
      | (True, g) \<Rightarrow>
          (case mg_is_allowed now (mg_tenant_window cfg l tenant) of
             (False, w) \<Rightarrow>
               (False, l\<lparr>mgl_global := g, mgl_request_limiters := dset tenant w (mgl_request_limiters l)\<rparr>)
           | (True, w) \<Rightarrow>
               (case mg_consume estimated_tokens now (mg_tenant_bucket cfg now l tenant) of
                  (ok, k) \<Rightarrow>
                    (ok, l\<lparr>mgl_global := g, mgl_request_limiters := dset tenant w (mgl_request_limiters l),
                           mgl_token_limiters := dset tenant k (mgl_token_limiters l)\<rparr>))))"

record mg_tenant_status =
  mgt_tenant_id :: string
  mgt_requests_remaining :: int
  mgt_tokens_remaining :: int
  mgt_window_reset_in :: rat
  mgt_token_refill_rate :: rat

text \<open>A lookup of the status makes limiters, too; the tokens of a bucket are never negative.\<close>

definition mg_get_tenant_status :: "mg_settings \<Rightarrow> rat \<Rightarrow> string \<Rightarrow> mg_limiter \<Rightarrow> mg_tenant_status \<times> mg_limiter" where
  "mg_get_tenant_status cfg now tenant l =
     (let w = mg_tenant_window cfg l tenant; k = mg_tenant_bucket cfg now l tenant
      in (\<lparr>mgt_tenant_id = tenant, mgt_requests_remaining = mgs_requests_per_minute cfg - int (length (mgw_requests w)),
           mgt_tokens_remaining = \<lfloor>mgk_tokens k\<rfloor>,
           mgt_window_reset_in = 60 - (now - (case mgw_requests w of [] \<Rightarrow> now | x # _ \<Rightarrow> x)),
           mgt_token_refill_rate = mgk_refill_rate k\<rparr>,
          l\<lparr>mgl_request_limiters := dset tenant w (mgl_request_limiters l),
            mgl_token_limiters := dset tenant k (mgl_token_limiters l)\<rparr>))"

section \<open>Providers\<close>

datatype mg_provider = OPENAI | ANTHROPIC | AZURE_OPENAI

fun mg_provider_value :: "mg_provider \<Rightarrow> string" where
  "mg_provider_value OPENAI = ''openai''"
| "mg_provider_value ANTHROPIC = ''anthropic''"
| "mg_provider_value AZURE_OPENAI = ''azure_openai''"

record mg_message =
  mgm_role :: string
  mgm_content :: string

record mg_request =
  mgq_tenant_id :: string
  mgq_model :: string
  mgq_messages :: "mg_message list"
  mgq_provider :: "mg_provider option"
  mgq_max_tokens :: "int option"
  mgq_temperature :: "rat option"
  mgq_stream :: bool

record mg_usage =
  mgu_prompt_tokens :: int
  mgu_completion_tokens :: int
  mgu_total_tokens :: int
  mgu_cost_usd :: "rat option"

record mg_response =
  mgs_id :: string
  mgs_model :: string
  mgs_provider :: mg_provider
  mgs_content :: string
  mgs_usage :: mg_usage
  mgs_finish_reason :: string
  mgs_created_at :: string

text \<open>Settings, and what pydantic, \<open>str\<close> and \<open>uuid4\<close> compute.\<close>

record mg_env =
  mge_settings :: mg_settings
  mge_to_int :: "json \<Rightarrow> exn + int"
  mge_to_str :: "json \<Rightarrow> exn + string"
  mge_show :: "json \<Rightarrow> string"
  mge_str_exn :: "exn \<Rightarrow> string"
  mge_uuid :: string

type_synonym 'w mg_http = "string \<Rightarrow> (string \<times> string) list \<Rightarrow> json \<Rightarrow> ('w, json) coro"

fun mg_number :: "json \<Rightarrow> exn + rat" where
  "mg_number (JInt i) = Inr (of_int i)"
| "mg_number (JFloat q) = Inr q"
| "mg_number (JBool b) = Inr (if b then 1 else 0)"
| "mg_number _ = Inl (type_error ''unsupported operand types'')"

type_synonym mg_pricing = "(string, rat \<times> rat) dict"

definition openai_pricing :: mg_pricing where
  "openai_pricing =
     [(''gpt-4'', (3 / 100, 6 / 100)), (''gpt-3.5-turbo'', (1 / 1000, 2 / 1000)), (''gpt-4-turbo'', (1 / 100, 3 / 100))]"

definition anthropic_pricing :: mg_pricing where
  "anthropic_pricing =
     [(''claude-3-sonnet'', (3 / 1000, 15 / 1000)), (''claude-3-haiku'', (25 / 100000, 125 / 100000))]"

definition mg_estimate_cost :: "mg_pricing \<Rightarrow> json \<Rightarrow> json \<Rightarrow> string \<Rightarrow> exn + rat" where
  "mg_estimate_cost pricing prompt_tokens completion_tokens model =
     (case dget pricing model of
        None \<Rightarrow> Inr 0
      | Some (prompt, completion) \<Rightarrow>
          ebind (mg_number prompt_tokens) (\<lambda>p. ebind (mg_number completion_tokens) (\<lambda>c.
            Inr (p / 1000 * prompt + c / 1000 * completion))))"

text \<open>\<open>x + y\<close>.\<close>

definition mg_is_float :: "json \<Rightarrow> bool" where
  "mg_is_float x \<longleftrightarrow> (case x of JFloat _ \<Rightarrow> True | _ \<Rightarrow> False)"

fun mg_add :: "json \<Rightarrow> json \<Rightarrow> exn + json" where
  "mg_add (JStr x) (JStr y) = Inr (JStr (x @ y))"
| "mg_add (JList x) (JList y) = Inr (JList (x @ y))"
| "mg_add (JInt i) (JInt j) = Inr (JInt (i + j))"
| "mg_add x y = ebind (mg_number x) (\<lambda>p. ebind (mg_number y) (\<lambda>q.
     Inr (if mg_is_float x \<or> mg_is_float y then JFloat (p + q) else JInt \<lfloor>p + q\<rfloor>)))"

definition mg_usage_of :: "mg_env \<Rightarrow> json \<Rightarrow> json \<Rightarrow> json \<Rightarrow> rat \<Rightarrow> exn + mg_usage" where
  "mg_usage_of env prompt completion all_tokens cost =
     ebind (mge_to_int env prompt) (\<lambda>p. ebind (mge_to_int env completion) (\<lambda>c. ebind (mge_to_int env all_tokens) (\<lambda>n.
       Inr \<lparr>mgu_prompt_tokens = p, mgu_completion_tokens = c, mgu_total_tokens = n, mgu_cost_usd = Some cost\<rparr>)))"

text \<open>\<open>x[0]\<close>.\<close>

fun mg_first :: "json \<Rightarrow> exn + json" where
  "mg_first (JList (x # _)) = Inr x"
| "mg_first (JList []) = Inl (Exn [''IndexError'', ''LookupError'', ''Exception''] ''list index out of range'')"
| "mg_first (JStr (c # _)) = Inr (JStr [c])"
| "mg_first (JStr []) = Inl (Exn [''IndexError'', ''LookupError'', ''Exception''] ''string index out of range'')"
| "mg_first (JDict _) = Inl (key_error ''0'')"
| "mg_first _ = Inl (type_error ''object is not subscriptable'')"

definition mg_response_of ::
  "mg_env \<Rightarrow> json \<Rightarrow> json \<Rightarrow> mg_provider \<Rightarrow> json \<Rightarrow> mg_usage \<Rightarrow> json \<Rightarrow> string \<Rightarrow> exn + mg_response" where
  "mg_response_of env i model provider content usage finish created =
     ebind (mge_to_str env i) (\<lambda>i. ebind (mge_to_str env model) (\<lambda>model.
     ebind (mge_to_str env content) (\<lambda>content. ebind (mge_to_str env finish) (\<lambda>finish.
       Inr \<lparr>mgs_id = i, mgs_model = model, mgs_provider = provider, mgs_content = content, mgs_usage = usage,
            mgs_finish_reason = finish, mgs_created_at = created\<rparr>))))"

definition mg_opt_int :: "int option \<Rightarrow> json" where
  "mg_opt_int x = (case x of None \<Rightarrow> JNull | Some i \<Rightarrow> JInt i)"

definition mg_opt_float :: "rat option \<Rightarrow> json" where
  "mg_opt_float x = (case x of None \<Rightarrow> JNull | Some q \<Rightarrow> JFloat q)"

definition mg_message_json :: "mg_message \<Rightarrow> json" where
  "mg_message_json m = JDict [(''role'', JStr (mgm_role m)), (''content'', JStr (mgm_content m))]"

definition openai_payload :: "mg_request \<Rightarrow> json" where
  "openai_payload rq =
     JDict [(''model'', JStr (mgq_model rq)), (''messages'', JList (map mg_message_json (mgq_messages rq))),
            (''max_tokens'', mg_opt_int (mgq_max_tokens rq)), (''temperature'', mg_opt_float (mgq_temperature rq)),
            (''stream'', JBool (mgq_stream rq))]"

definition openai_response :: "mg_env \<Rightarrow> mg_request \<Rightarrow> json \<Rightarrow> exn + mg_response" where
  "openai_response env rq data =
     ebind (py_item data ''usage'') (\<lambda>u.
     ebind (py_item u ''prompt_tokens'') (\<lambda>p. ebind (py_item u ''completion_tokens'') (\<lambda>c.
     ebind (py_item u ''total_tokens'') (\<lambda>n.
     ebind (mg_estimate_cost openai_pricing p c (mgq_model rq)) (\<lambda>cost.
     ebind (mg_usage_of env p c n cost) (\<lambda>usage.
     ebind (py_item data ''id'') (\<lambda>i. ebind (py_item data ''model'') (\<lambda>model.
     ebind (py_item data ''choices'') (\<lambda>choices. ebind (mg_first choices) (\<lambda>choice.
     ebind (py_item choice ''message'') (\<lambda>msg. ebind (py_item msg ''content'') (\<lambda>content.
     ebind (py_item choice ''finish_reason'') (\<lambda>finish. ebind (py_item data ''created'') (\<lambda>created.
       mg_response_of env i model OPENAI content usage finish (mge_show env created)))))))))))))))"

definition openai_complete :: "mg_env \<Rightarrow> 'w mg_http \<Rightarrow> mg_request \<Rightarrow> ('w, mg_response) coro" where
  "openai_complete env http rq =
     (case mgs_openai_api_key (mge_settings env) of
        Some (c # key) \<Rightarrow>
          co_bind (http ''https://api.openai.com/v1/chat/completions''
              [(''Authorization'', ''Bearer '' @ c # key), (''Content-Type'', ''application/json'')] (openai_payload rq))
            (\<lambda>data. co_lift (openai_response env rq data))
      | _ \<Rightarrow> co_raise (value_error ''OpenAI API key not configured''))"

text \<open>The system message is the last one; a payload without tokens asks for 1000.\<close>

definition anthropic_payload :: "mg_request \<Rightarrow> json" where
  "anthropic_payload rq =
     (let system = fold (\<lambda>m s. if mgm_role m = ''system'' then mgm_content m else s) (mgq_messages rq) '''';
          messages = map mg_message_json (filter (\<lambda>m. mgm_role m \<noteq> ''system'') (mgq_messages rq));
          max_tokens = (case mgq_max_tokens rq of None \<Rightarrow> 1000 | Some n \<Rightarrow> if n = 0 then 1000 else n)
      in JDict ([(''model'', JStr (mgq_model rq)), (''max_tokens'', JInt max_tokens), (''messages'', JList messages),
                 (''temperature'', mg_opt_float (mgq_temperature rq))] @
                (if system = '''' then [] else [(''system'', JStr system)])))"

definition anthropic_response :: "mg_env \<Rightarrow> mg_request \<Rightarrow> rat \<Rightarrow> json \<Rightarrow> exn + mg_response" where
  "anthropic_response env rq now data =
     ebind (py_get data ''usage'' (JDict [])) (\<lambda>u.
     ebind (py_get u ''input_tokens'' (JInt 0)) (\<lambda>p. ebind (py_get u ''output_tokens'' (JInt 0)) (\<lambda>c.
     ebind (mg_add p c) (\<lambda>n.
     ebind (mg_estimate_cost anthropic_pricing p c (mgq_model rq)) (\<lambda>cost.
     ebind (mg_usage_of env p c n cost) (\<lambda>usage.
     ebind (py_get data ''id'' (JStr (mge_uuid env))) (\<lambda>i.
     ebind (py_get data ''model'' (JStr (mgq_model rq))) (\<lambda>model.
     ebind (py_item data ''content'') (\<lambda>contents. ebind (mg_first contents) (\<lambda>x.
     ebind (py_item x ''text'') (\<lambda>content.
     ebind (py_get data ''stop_reason'' (JStr ''stop'')) (\<lambda>finish.
       mg_response_of env i model ANTHROPIC content usage finish (int_str \<lfloor>now\<rfloor>)))))))))))))"

definition anthropic_complete :: "mg_env \<Rightarrow> 'w mg_http \<Rightarrow> mg_request \<Rightarrow> ('w, mg_response) coro" where
  "anthropic_complete env http rq =
     (case mgs_anthropic_api_key (mge_settings env) of
        Some (c # key) \<Rightarrow>
          co_bind (http ''https://api.anthropic.com/v1/messages''
              [(''x-api-key'', c # key), (''Content-Type'', ''application/json''), (''anthropic-version'', ''2023-06-01'')]
              (anthropic_payload rq))
            (\<lambda>data. co_bind co_now (\<lambda>now. co_lift (anthropic_response env rq now data)))
      | _ \<Rightarrow> co_raise (value_error ''Anthropic API key not configured''))"

definition mg_get_provider :: "mg_env \<Rightarrow> 'w mg_http \<Rightarrow> mg_provider \<Rightarrow> exn + (mg_request \<Rightarrow> ('w, mg_response) coro)" where
  "mg_get_provider env http p =
     (case p of
        OPENAI \<Rightarrow> Inr (openai_complete env http)
      | ANTHROPIC \<Rightarrow> Inr (anthropic_complete env http)
      | AZURE_OPENAI \<Rightarrow> Inl (value_error ''Unsupported provider: Provider.AZURE_OPENAI''))"

definition mg_get_default_provider :: "mg_settings \<Rightarrow> string \<Rightarrow> mg_provider" where
  "mg_get_default_provider cfg model =
     (if model \<in> set (mgs_openai_models cfg) then OPENAI
      else if model \<in> set (mgs_anthropic_models cfg) then ANTHROPIC else OPENAI)"

section \<open>End points\<close>

record mg_event =
  mgv_tenant_id :: string
  mgv_model :: string
  mgv_provider :: mg_provider
  mgv_prompt_tokens :: int
  mgv_completion_tokens :: int
  mgv_total_tokens :: int
  mgv_cost_usd :: rat
  mgv_request_id :: string
  mgv_timestamp :: string

record mg_gateway =
  mgg_limiter :: mg_limiter
  mgg_breakers :: "(string, mg_breaker) dict"
  mgg_metering :: "mg_event list"

definition mg_gateway_init :: "mg_settings \<Rightarrow> mg_gateway" where
  "mg_gateway_init cfg = \<lparr>mgg_limiter = mg_limiter_init cfg, mgg_breakers = [], mgg_metering = []\<rparr>"

definition mg_http_exception :: "int \<Rightarrow> string \<Rightarrow> exn" where
  "mg_http_exception status detail = Exn [''HTTPException'', ''Exception''] (int_str status @ '': '' @ detail)"

definition mg_check_tenant_policy :: "string \<Rightarrow> string \<Rightarrow> bool" where
  "mg_check_tenant_policy tenant model = True"

definition mg_chosen :: "mg_settings \<Rightarrow> mg_request \<Rightarrow> mg_provider" where
  "mg_chosen cfg rq =
     (case mgq_provider rq of None \<Rightarrow> mg_get_default_provider cfg (mgq_model rq) | Some p \<Rightarrow> p)"

definition mg_breaker_name :: "mg_provider \<Rightarrow> string \<Rightarrow> string" where
  "mg_breaker_name p model = mg_provider_value p @ ''_'' @ model"

definition mg_metering_event :: "string \<Rightarrow> mg_response \<Rightarrow> rat \<Rightarrow> mg_event" where
  "mg_metering_event tenant response now =
     (let usage = mgs_usage response
      in \<lparr>mgv_tenant_id = tenant, mgv_model = mgs_model response, mgv_provider = mgs_provider response,
          mgv_prompt_tokens = mgu_prompt_tokens usage, mgv_completion_tokens = mgu_completion_tokens usage,
          mgv_total_tokens = mgu_total_tokens usage,
          mgv_cost_usd = (case mgu_cost_usd usage of None \<Rightarrow> 0 | Some c \<Rightarrow> c),
          mgv_request_id = mgs_id response, mgv_timestamp = int_str \<lfloor>now\<rfloor>\<rparr>)"

text \<open>The steps before the provider is called: the limiter, the policy, and the breaker of the provider and model.\<close>

definition mg_admit ::
  "mg_env \<Rightarrow> rat \<Rightarrow> mg_request \<Rightarrow> mg_gateway \<Rightarrow> (exn + string) \<times> mg_gateway" where
  "mg_admit env now rq g =
     (let cfg = mge_settings env;
          name = mg_breaker_name (mg_chosen cfg rq) (mgq_model rq);
          fresh = mg_breaker_init (mgs_failure_threshold cfg) (mgs_recovery_timeout cfg)
      in case mg_check_rate_limit cfg now (mgq_tenant_id rq) 1000 (mgg_limiter g) of
           (False, l) \<Rightarrow> (Inl (mg_http_exception 429 ''Rate limit exceeded''), g\<lparr>mgg_limiter := l\<rparr>)
         | (True, l) \<Rightarrow>
             (if \<not> mg_check_tenant_policy (mgq_tenant_id rq) (mgq_model rq)
              then (Inl (mg_http_exception 403 ''Model not allowed for tenant''), g\<lparr>mgg_limiter := l\<rparr>)
              else (Inr name, g\<lparr>mgg_limiter := l, mgg_breakers := mg_get_breaker name fresh (mgg_breakers g)\<rparr>)))"

definition mg_chat_completion ::
  "mg_env \<Rightarrow> 'w mg_http \<Rightarrow> mg_request \<Rightarrow> (mg_gateway \<times> 'w, mg_response) coro" where
  "mg_chat_completion env http rq dl t = (\<lambda>(g, w).
     (case mg_admit env t rq g of
        (Inl e, g1) \<Rightarrow> (Raise e, t, (g1, w))
      | (Inr name, g1) \<Rightarrow>
          (case mg_get_provider env http (mg_chosen (mge_settings env) rq) of
             Inl e \<Rightarrow> (Raise e, t, (g1, w))
           | Inr ask \<Rightarrow>
               (case mg_breaker_call (ask rq) dl t (the (dget (mgg_breakers g1) name), w) of
                  (q, t2, (b2, w2)) \<Rightarrow>
                    (let g2 = g1\<lparr>mgg_breakers := dset name b2 (mgg_breakers g1)\<rparr>
                     in case q of
                          Ok response \<Rightarrow>
                            (Ok response, t2,
                              (g2\<lparr>mgg_metering := mgg_metering g2 @ [mg_metering_event (mgq_tenant_id rq) response t2]\<rparr>, w2))
                        | Raise e \<Rightarrow> (Raise (mg_http_exception 500 (''Provider error: '' @ mge_str_exn env e)), t2, (g2, w2))
                        | Cancelled \<Rightarrow> (Cancelled, t2, (g2, w2)))))))"

definition mg_detailed_health :: "mg_gateway \<Rightarrow> rat \<Rightarrow> (mg_provider \<times> string \<times> string) list \<times> (string, mg_breaker_report) dict" where
  "mg_detailed_health g now =
     (map (\<lambda>p. (p, ''healthy'', int_str \<lfloor>now\<rfloor>)) [OPENAI, ANTHROPIC, AZURE_OPENAI], mg_get_all_states (mgg_breakers g))"

definition mg_list_models :: "mg_settings \<Rightarrow> (string \<times> string) list" where
  "mg_list_models cfg =
     map (\<lambda>m. (m, ''openai'')) (mgs_openai_models cfg) @ map (\<lambda>m. (m, ''anthropic'')) (mgs_anthropic_models cfg) @
     map (\<lambda>m. (m, ''azure_openai'')) (mgs_azure_models cfg)"

definition mg_provider_status :: "mg_gateway \<Rightarrow> string \<Rightarrow> (string, mg_breaker_report) dict \<times> bool" where
  "mg_provider_status g provider =
     (let provider_breakers = filter (\<lambda>(name, _). starts_with provider name) (mg_get_all_states (mgg_breakers g))
      in (provider_breakers, \<exists>(_, b) \<in> set provider_breakers. mgr_state b \<noteq> ''open''))"

section \<open>Contracts\<close>

definition mgb_budget :: "mg_breaker \<Rightarrow> int" where
  "mgb_budget b = mgb_failure_threshold b - mgb_failure_count b"

definition mgb_tripped :: "rat \<Rightarrow> mg_breaker \<Rightarrow> bool" where
  "mgb_tripped now b \<longleftrightarrow>
     mgb_state b = MgOpen \<and>
     (case mgb_last_failure_time b of None \<Rightarrow> True | Some l \<Rightarrow> now < l + of_int (mgb_recovery_timeout b))"

interpretation mgbb: breaker mg_enter mg_leave "\<lambda>b. mgb_state b = MgClosed" mgb_budget mgb_tripped
  "\<lambda>b. of_int (mgb_recovery_timeout b)"
  by unfold_locales
    (auto simp: mg_enter_def mg_leave_def mg_record_failure_def mg_should_attempt_reset_def mgb_budget_def mgb_tripped_def
      Let_def split: if_splits option.splits)

interpretation mgbg: guard "instant mg_enter" "plain mg_leave"
  by (rule guard_instant_plain)

lemma mg_consume_spec:
  assumes "mg_consume n t k = (ok, k')"
  shows "mgk_last_refill k' = t" "mgk_refill_rate k' = mgk_refill_rate k" "mgk_max_tokens k' = mgk_max_tokens k"
    "ok \<Longrightarrow> n \<le> mgk_tokens k' + n \<and> 0 \<le> mgk_tokens k'"
    "mgk_tokens k' = min (mgk_max_tokens k) (mgk_tokens k + (t - mgk_last_refill k) * mgk_refill_rate k) - (if ok then n else 0)"
  using assms by (auto simp: mg_consume_def Let_def split: if_splits)

definition mgk_inv :: "mg_bucket \<Rightarrow> bool" where
  "mgk_inv k \<longleftrightarrow> 0 \<le> mgk_tokens k \<and> mgk_tokens k \<le> mgk_max_tokens k \<and> 0 \<le> mgk_refill_rate k"

interpretation mgt: token_limiter "mg_consume n" mgk_tokens mgk_last_refill mgk_refill_rate mgk_max_tokens "\<lambda>_. n"
  "\<lambda>k. mgk_inv k \<and> 0 \<le> n" for n
proof (unfold_locales, goal_cases)
  case (1 k t ok k')
  have "0 \<le> (t - mgk_last_refill k) * mgk_refill_rate k" using 1 by (simp add: mgk_inv_def)
  with 1 mg_consume_spec [OF 1(3)] show ?case by (auto simp: mgk_inv_def split: if_splits)
next
  case (2 t k ok k')
  then show ?case by (rule mg_consume_spec(1))
next
  case (3 t k ok k')
  from mg_consume_spec [OF 3] show ?case by simp
next
  case (4 k t ok k')
  from mg_consume_spec [OF 4(3)] show ?case by (simp add: mult.commute min_def split: if_splits)
qed (auto simp: mgk_inv_def)

section \<open>Rate limits\<close>

fun mg_checks :: "mg_settings \<Rightarrow> (rat \<times> string) list \<Rightarrow> mg_limiter \<Rightarrow> bool list \<times> mg_limiter" where
  "mg_checks cfg [] l = ([], l)"
| "mg_checks cfg ((t, tenant) # xs) l =
     (case mg_check_rate_limit cfg t tenant 1000 l of
        (ok, l1) \<Rightarrow> (case mg_checks cfg xs l1 of (oks, l2) \<Rightarrow> (ok # oks, l2)))"

lemma check_global: "mgl_global (snd (mg_check_rate_limit cfg t tenant n l)) = snd (mg_is_allowed t (mgl_global l))"
  by (simp add: mg_check_rate_limit_def split: prod.split bool.split)

lemma checks_global:
  "mgl_global (snd (mg_checks cfg xs l)) = fold (\<lambda>(t, _) g. snd (mg_is_allowed t g)) xs (mgl_global l)"
proof (induction xs arbitrary: l)
  case (Cons x xs)
  obtain t tenant where x: "x = (t, tenant)" by (cases x)
  obtain ok l1 where c: "mg_check_rate_limit cfg t tenant 1000 l = (ok, l1)" by (cases "mg_check_rate_limit cfg t tenant 1000 l")
  have "snd (mg_checks cfg (x # xs) l) = snd (mg_checks cfg xs l1)" by (simp add: x c split: prod.split)
  with Cons.IH [of l1] check_global [of cfg t tenant 1000 l] show ?case by (simp add: x c)
qed simp

text \<open>Requests within the window of \<open>now\<close> stay in the window and fill it up.\<close>

lemma dropWhile_none: "\<forall>x \<in> set xs. \<not> P x \<Longrightarrow> dropWhile P xs = xs"
  by (cases xs) simp_all

lemma window_fills:
  assumes "\<forall>x \<in> set (mgw_requests g). now - mgw_window_size g < x"
    and "\<forall>(t, _) \<in> set xs. now - mgw_window_size g < t \<and> t \<le> now"
    and "min (mgw_max_requests g) (int k) \<le> int (length (mgw_requests g))"
  defines "g' \<equiv> fold (\<lambda>(t, _) g. snd (mg_is_allowed t g)) xs g"
  shows "(\<forall>x \<in> set (mgw_requests g'). now - mgw_window_size g < x) \<and> mgw_window_size g' = mgw_window_size g \<and>
    mgw_max_requests g' = mgw_max_requests g \<and>
    min (mgw_max_requests g) (int (k + length xs)) \<le> int (length (mgw_requests g'))"
  using assms(1-3) unfolding g'_def
proof (induction xs arbitrary: g k)
  case (Cons x xs)
  obtain t u where x: "x = (t, u)" by (cases x)
  have t: "now - mgw_window_size g < t" "t \<le> now" using Cons.prems(2) by (auto simp: x)
  have "dropWhile (\<lambda>x. x \<le> t - mgw_window_size g) (mgw_requests g) = mgw_requests g"
    using Cons.prems(1) t(2) by (intro dropWhile_none) force
  then have step: "snd (mg_is_allowed t g) = g\<lparr>mgw_requests := mgw_requests g @
      (if int (length (mgw_requests g)) < mgw_max_requests g then [t] else [])\<rparr>"
    by (simp add: mg_is_allowed_def Let_def)
  define g1 where "g1 = snd (mg_is_allowed t g)"
  have g1: "mgw_window_size g1 = mgw_window_size g" "mgw_max_requests g1 = mgw_max_requests g" by (simp_all add: g1_def step)
  have "\<forall>y \<in> set (mgw_requests g1). now - mgw_window_size g < y"
    using Cons.prems(1) t(1) by (auto simp: g1_def step)
  moreover have "min (mgw_max_requests g) (int (Suc k)) \<le> int (length (mgw_requests g1))"
    using Cons.prems(3) by (simp add: g1_def step min_def split: if_splits)
  moreover have "\<forall>(t, _) \<in> set xs. now - mgw_window_size g < t \<and> t \<le> now" using Cons.prems(2) by simp
  ultimately show ?case using Cons.IH [of g1 "Suc k"] by (simp add: x g1 g1_def [symmetric])
qed simp

lemma window_full:
  assumes "\<forall>x \<in> set (mgw_requests g). now - mgw_window_size g < x" and "mgw_max_requests g \<le> int (length (mgw_requests g))"
  shows "\<not> fst (mg_is_allowed now g)"
proof -
  have "dropWhile (\<lambda>x. x \<le> now - mgw_window_size g) (mgw_requests g) = mgw_requests g"
    using assms(1) by (intro dropWhile_none) force
  then show ?thesis using assms(2) by (simp add: mg_is_allowed_def Let_def)
qed

text \<open>
  C25. One tenant locks out all others. The request of a tenant takes its place in the window of all tenants whether
  the limits of the tenant let it through or not: when the requests of a minute, be they all of one tenant and nearly all refused,
  are as many as the global limit, every request of every tenant is refused until the minute is over.
\<close>

theorem mg_tenant_locks_out:
  assumes quiet: "\<forall>x \<in> set (mgw_requests (mgl_global l)). \<forall>(t, _) \<in> set asked. x \<le> t - mgw_window_size (mgl_global l)"
    and minute: "\<forall>(t, _) \<in> set asked. now - mgw_window_size (mgl_global l) < t \<and> t \<le> now"
    and many: "asked \<noteq> []" "mgw_max_requests (mgl_global l) \<le> int (length asked)"
  shows "fst (mg_check_rate_limit cfg now tenant n (snd (mg_checks cfg asked l))) = False"
proof -
  let ?g = "mgl_global l"
  obtain t u rest where asked: "asked = (t, u) # rest" using many(1) by (metis list.exhaust surj_pair)
  have "dropWhile (\<lambda>x. x \<le> t - mgw_window_size ?g) (mgw_requests ?g) = []" using quiet by (simp add: asked)
  then have first: "snd (mg_is_allowed t ?g) = snd (mg_is_allowed t (?g\<lparr>mgw_requests := []\<rparr>))"
    unfolding mg_is_allowed_def Let_def by (simp only: mg_window.simps dropWhile.simps) simp
  have "fold (\<lambda>(t, _) g. snd (mg_is_allowed t g)) asked ?g = fold (\<lambda>(t, _) g. snd (mg_is_allowed t g)) asked (?g\<lparr>mgw_requests := []\<rparr>)"
    by (simp add: asked first)
  with window_fills [of "?g\<lparr>mgw_requests := []\<rparr>" now asked 0] minute many(2)
  have "\<not> fst (mg_is_allowed now (mgl_global (snd (mg_checks cfg asked l))))"
    by (intro window_full) (auto simp: checks_global)
  then show ?thesis by (auto simp: mg_check_rate_limit_def split: prod.split bool.split)
qed

theorem mg_tenant_locks_out_witness:
  "fst (mg_check_rate_limit (mg_default_settings\<lparr>mgs_requests_per_minute := 1\<rparr>) 59 ''b'' 1000
     (snd (mg_checks (mg_default_settings\<lparr>mgs_requests_per_minute := 1\<rparr>) (replicate 10 (1, ''a''))
        (mg_limiter_init (mg_default_settings\<lparr>mgs_requests_per_minute := 1\<rparr>))))) = False"
  by (rule mg_tenant_locks_out) (simp_all add: mg_limiter_init_def mg_window_init_def)

text \<open>The requests of a tenant that were let through.\<close>

fun mg_let_through :: "mg_settings \<Rightarrow> string \<Rightarrow> (rat \<times> string) list \<Rightarrow> mg_limiter \<Rightarrow> nat" where
  "mg_let_through cfg b [] l = 0"
| "mg_let_through cfg b ((t, tenant) # xs) l =
     (case mg_check_rate_limit cfg t tenant 1000 l of
        (ok, l1) \<Rightarrow> (if ok \<and> tenant = b then 1 else 0) + mg_let_through cfg b xs l1)"

definition mg_spent :: "rat \<Rightarrow> rat \<Rightarrow> rat \<Rightarrow> nat \<Rightarrow> mg_bucket option \<Rightarrow> bool" where
  "mg_spent m t0 t n k \<longleftrightarrow>
     (case k of
        None \<Rightarrow> n = 0
      | Some k \<Rightarrow> mgk_inv k \<and> mgk_max_tokens k = m \<and> mgk_refill_rate k = m / 60 \<and> t0 \<le> mgk_last_refill k \<and>
          mgk_last_refill k \<le> t \<and> mgk_tokens k + 1000 * of_nat n \<le> m + m / 60 * (mgk_last_refill k - t0))"

lemma spent_step:
  assumes s: "mg_spent (of_int (mgs_tokens_per_minute cfg)) t0 t n (dget (mgl_token_limiters l) b)"
    and t: "t0 \<le> t" "t \<le> t1" and m: "0 \<le> mgs_tokens_per_minute cfg"
    and c: "mg_check_rate_limit cfg t1 tenant 1000 l = (ok, l1)"
  shows "mg_spent (of_int (mgs_tokens_per_minute cfg)) t0 t1 (n + (if ok \<and> tenant = b then 1 else 0)) (dget (mgl_token_limiters l1) b)"
proof -
  let ?m = "of_int (mgs_tokens_per_minute cfg) :: rat"
  have later: "mg_spent ?m t0 t1 n (dget (mgl_token_limiters l) b)"
    using s t by (auto simp: mg_spent_def split: option.splits)
  consider (kept) "mgl_token_limiters l1 = mgl_token_limiters l" "\<not> ok" |
    (used) k where "mg_consume 1000 t1 (mg_tenant_bucket cfg t1 l tenant) = (ok, k)"
      "mgl_token_limiters l1 = dset tenant k (mgl_token_limiters l)"
    using c by (auto simp: mg_check_rate_limit_def split: prod.splits bool.splits)
  then show ?thesis
  proof cases
    case kept
    then show ?thesis using later by simp
  next
    case (used k)
    show ?thesis
    proof (cases "tenant = b")
      case True
      let ?k = "mg_tenant_bucket cfg t1 l b"
      have k: "mgk_inv ?k \<and> mgk_max_tokens ?k = ?m \<and> mgk_refill_rate ?k = ?m / 60 \<and> t0 \<le> mgk_last_refill ?k \<and>
          mgk_last_refill ?k \<le> t1 \<and> mgk_tokens ?k + 1000 * of_nat n \<le> ?m + ?m / 60 * (mgk_last_refill ?k - t0)"
        using later t m
        by (auto simp: mg_spent_def mg_tenant_bucket_def dget_or_def mgk_inv_def mg_bucket_init_def split: option.splits)
      have inv: "mgk_inv ?k \<and> 0 \<le> (1000 :: rat)" using k by simp
      note use = used(1) [unfolded True]
      have "mgk_tokens k + (if ok then 1000 else 0) \<le> mgk_tokens ?k + ?m / 60 * (t1 - mgk_last_refill ?k)"
        using mgt.allow_level [OF inv _ use] k by simp
      moreover have "?m / 60 * (t1 - mgk_last_refill ?k) + ?m / 60 * (mgk_last_refill ?k - t0) = ?m / 60 * (t1 - t0)"
        by (simp only: distrib_left [symmetric]) simp
      moreover have "mgk_tokens ?k + 1000 * of_nat n \<le> ?m + ?m / 60 * (mgk_last_refill ?k - t0)" using k by simp
      ultimately have "mgk_tokens k + 1000 * of_nat (n + (if ok then 1 else 0)) \<le> ?m + ?m / 60 * (t1 - t0)"
        by (simp split: if_splits)
      then show ?thesis
        using mgt.allow_inv [OF inv _ use] mg_consume_spec [OF use] k t
        by (simp add: True mg_spent_def used(2) dget_dset)
    qed (use later used in \<open>simp add: dget_dset\<close>)
  qed
qed

text \<open>
  What a tenant gets. Each request is charged a thousand tokens, whatever it asks for: however the requests of all tenants
  come, the ones of a tenant that are let through are at most the tokens of a minute and their refill since, divided by a
  thousand; with the default settings a hundred at once and a hundred in each minute, a tenth of the configured
  rate of requests.
\<close>

theorem mg_tenant_share_bounded:
  assumes m: "0 \<le> mgs_tokens_per_minute cfg" and fresh: "dget (mgl_token_limiters l) b = None"
    and "sorted (t0 # map fst asked)"
  shows "1000 * of_nat (mg_let_through cfg b asked l) \<le>
    of_int (mgs_tokens_per_minute cfg) + of_int (mgs_tokens_per_minute cfg) / 60 * (last (t0 # map fst asked) - t0)"
proof -
  let ?m = "of_int (mgs_tokens_per_minute cfg) :: rat"
  have "1000 * of_nat (n + mg_let_through cfg b asked l) \<le> ?m + ?m / 60 * (last (t # map fst asked) - t0)"
    if "mg_spent ?m t0 t n (dget (mgl_token_limiters l) b)" "t0 \<le> t" "sorted (t # map fst asked)" for t n
    using that
  proof (induction asked arbitrary: t n l)
    case Nil
    have "0 \<le> ?m / 60 * (t - t0)" using Nil.prems(2) m by simp
    moreover have "?m / 60 * (s - t0) \<le> ?m / 60 * (t - t0)" if "s \<le> t" for s
      using that m by (intro mult_left_mono) simp_all
    ultimately show ?case
      using Nil m by (fastforce simp: mg_spent_def mgk_inv_def split: option.splits)
  next
    case (Cons x asked)
    obtain t1 tenant where x: "x = (t1, tenant)" by (cases x)
    obtain ok l1 where c: "mg_check_rate_limit cfg t1 tenant 1000 l = (ok, l1)"
      by (cases "mg_check_rate_limit cfg t1 tenant 1000 l")
    have "t \<le> t1" using Cons.prems(3) by (simp add: x)
    from spent_step [OF Cons.prems(1,2) this m c]
    show ?case using Cons.IH [where l = l1 and t = t1 and n = "n + (if ok \<and> tenant = b then 1 else 0)"] Cons.prems(2,3) \<open>t \<le> t1\<close>
      by (simp add: x c add.assoc)
  qed
  from this [of t0 0] show ?thesis using assms by (simp add: mg_spent_def)
qed

theorem mg_tenant_share_bounded_witness:
  "1000 * of_nat (mg_let_through mg_default_settings ''a'' (replicate 150 (1, ''a'')) (mg_limiter_init mg_default_settings)) \<le>
     (100000 + 100000 / 60 * (last (0 # map fst (replicate 150 (1, ''a''))) - 0) :: rat)"
proof -
  have "mgs_tokens_per_minute mg_default_settings = 100000" by (simp add: mg_default_settings_def)
  with mg_tenant_share_bounded [of mg_default_settings "mg_limiter_init mg_default_settings" "''a''" 0 "replicate 150 (1, ''a'')"]
  show ?thesis by (simp add: mg_limiter_init_def)
qed

section \<open>Completions\<close>

lemma breaker_call:
  "mg_breaker_call f dl t (b, w) =
     (case mg_enter t b of
        (None, b1) \<Rightarrow> (case f dl t w of (r, t2, w2) \<Rightarrow> (r, t2, (mg_leave t2 r b1, w2)))
      | (Some e, b1) \<Rightarrow> (Raise e, t, (b1, w)))"
  by (simp add: mg_breaker_call_def guarded_instant)

lemma admit_metering: "mg_admit env t rq g = (a, g1) \<Longrightarrow> mgg_metering g1 = mgg_metering g"
  by (auto simp: mg_admit_def Let_def split: prod.splits bool.splits if_splits)

text \<open>
  Metering is exact: a completion that is returned is metered once, with its tenant and its tokens, at the time of the
  answer; a request that fails or is cancelled is not metered. Every failure is an HTTP error with status 429, 403 or 500,
  unless the request names the provider that is not supported.
\<close>

theorem mg_metered_once:
  assumes "mg_chat_completion env http rq dl t (g, w) = (q, t', (g', w'))"
  shows "mgg_metering g' = mgg_metering g @
      (case q of Ok response \<Rightarrow> [mg_metering_event (mgq_tenant_id rq) response t'] | _ \<Rightarrow> []) \<and>
    (\<forall>e. q = Raise e \<and> mg_chosen (mge_settings env) rq \<noteq> AZURE_OPENAI \<longrightarrow>
       (\<exists>status detail. status \<in> {429, 403, 500} \<and> e = mg_http_exception status detail))"
proof -
  obtain a g1 where a: "mg_admit env t rq g = (a, g1)" by (cases "mg_admit env t rq g")
  note g1 = admit_metering [OF a]
  show ?thesis
  proof (cases a)
    case (Inl e)
    have "\<exists>status detail. status \<in> {429, 403, 500} \<and> e = mg_http_exception status detail"
      using a Inl by (auto simp: mg_admit_def Let_def split: prod.splits bool.splits if_splits)
    then show ?thesis using assms a g1 Inl by (auto simp: mg_chat_completion_def)
  next
    case (Inr name)
    show ?thesis
    proof (cases "mg_get_provider env http (mg_chosen (mge_settings env) rq)")
      case (Inl e)
      then have "mg_chosen (mge_settings env) rq = AZURE_OPENAI" by (simp add: mg_get_provider_def split: mg_provider.splits)
      then show ?thesis using assms a g1 Inl \<open>a = Inr name\<close> by (auto simp: mg_chat_completion_def)
    next
      case (Inr ask)
      obtain r t2 b2 w2 where c: "mg_breaker_call (ask rq) dl t (the (dget (mgg_breakers g1) name), w) = (r, t2, (b2, w2))"
        by (metis surj_pair)
      show ?thesis using assms a g1 Inr \<open>a = Inr name\<close> c
        by (cases r) (auto simp: mg_chat_completion_def Let_def)
    qed
  qed
qed

text \<open>What admission does to the breakers: it makes the one of the request when there is none.\<close>

lemma admit_breakers:
  assumes "mg_admit env t rq g = (a, g1)"
  shows "(\<exists>e. a = Inl e \<and> mgg_breakers g1 = mgg_breakers g) \<or>
    (let name = mg_breaker_name (mg_chosen (mge_settings env) rq) (mgq_model rq)
     in a = Inr name \<and> mgg_breakers g1 = mg_get_breaker name
          (mg_breaker_init (mgs_failure_threshold (mge_settings env)) (mgs_recovery_timeout (mge_settings env))) (mgg_breakers g))"
  using assms by (auto simp: mg_admit_def Let_def split: prod.splits bool.splits if_splits)

fun mg_serve :: "mg_env \<Rightarrow> 'w mg_http \<Rightarrow> (rat \<times> mg_request) list \<Rightarrow> mg_gateway \<times> 'w \<Rightarrow> mg_gateway \<times> 'w" where
  "mg_serve env http [] s = s"
| "mg_serve env http ((t, rq) # xs) s =
     (case mg_chat_completion env http rq None t s of (_, _, s1) \<Rightarrow> mg_serve env http xs s1)"

text \<open>A client of providers that are down, which counts its calls.\<close>

definition mg_dead :: "nat mg_http \<Rightarrow> bool" where
  "mg_dead http \<longleftrightarrow> (\<forall>u h p dl t w. \<exists>e. http u h p dl t w = (Raise e, t, Suc w))"

lemma dead_bind:
  assumes "mg_dead http"
  obtains e where "co_bind (http u h x) f dl t w = (Raise e, t, Suc w)"
proof -
  obtain e where "http u h x dl t w = (Raise e, t, Suc w)" using assms unfolding mg_dead_def by blast
  then show thesis using that by (simp add: co_bind_def)
qed

lemma dead_provider:
  assumes d: "mg_dead http" and p: "mg_get_provider env http p = Inr ask"
  shows "\<exists>e w1. ask rq dl t w = (Raise e, t, w1) \<and> w1 \<le> Suc w"
proof (cases p)
  case OPENAI
  then have ask: "ask = openai_complete env http" using p by (simp add: mg_get_provider_def)
  show ?thesis
  proof (cases "\<exists>c key. mgs_openai_api_key (mge_settings env) = Some (c # key)")
    case True
    then obtain c key where "mgs_openai_api_key (mge_settings env) = Some (c # key)" by blast
    then show ?thesis by (auto simp: ask openai_complete_def intro: dead_bind [OF d])
  next
    case False
    then show ?thesis by (auto simp: ask openai_complete_def co_raise_def split: option.split list.split)
  qed
next
  case ANTHROPIC
  then have ask: "ask = anthropic_complete env http" using p by (simp add: mg_get_provider_def)
  show ?thesis
  proof (cases "\<exists>c key. mgs_anthropic_api_key (mge_settings env) = Some (c # key)")
    case True
    then obtain c key where "mgs_anthropic_api_key (mge_settings env) = Some (c # key)" by blast
    then show ?thesis by (auto simp: ask anthropic_complete_def intro: dead_bind [OF d])
  next
    case False
    then show ?thesis by (auto simp: ask anthropic_complete_def co_raise_def split: option.split list.split)
  qed
next
  case AZURE_OPENAI
  then show ?thesis using p by (simp add: mg_get_provider_def)
qed

text \<open>What \<open>n\<close> calls since \<open>t0\<close> of providers that are down have made of a breaker.\<close>

definition mg_spoiled :: "int \<Rightarrow> int \<Rightarrow> rat \<Rightarrow> rat \<Rightarrow> nat \<Rightarrow> mg_breaker option \<Rightarrow> bool" where
  "mg_spoiled threshold recovery t0 t n b \<longleftrightarrow>
     (case b of
        None \<Rightarrow> n = 0
      | Some b \<Rightarrow> mgb_failure_threshold b = threshold \<and> mgb_recovery_timeout b = recovery \<and>
          (mgb_state b = MgClosed \<and> int n \<le> mgb_failure_count b \<and> mgb_failure_count b < threshold \<or>
           mgb_state b = MgOpen \<and> threshold \<le> mgb_failure_count b \<and>
           (\<exists>l. mgb_last_failure_time b = Some l \<and> t0 \<le> l \<and> l \<le> t \<and>
              of_nat n \<le> of_int threshold + (l - t0) / of_int recovery)))"

lemma spoiled_call:
  fixes f :: "(nat, mg_response) coro"
  assumes s: "mg_spoiled threshold recovery t0 t n (Some b)" and pos: "0 < recovery" and t: "t0 \<le> t" "t \<le> t1"
    and f: "f None t1 w = (Raise e, t1, w1)" "w1 \<le> Suc w"
    and c: "mg_breaker_call f None t1 (b, w) = (r, t2, (b2, w2))"
    and n2: "n2 = (if fst (mg_enter t1 b) = None then Suc n else n)"
  shows "(\<exists>e. r = Raise e) \<and> w2 \<le> w + (n2 - n) \<and> n \<le> n2 \<and> mg_spoiled threshold recovery t0 t1 n2 (Some b2)"
proof -
  have one: "\<lbrakk>of_nat n \<le> of_int threshold + (l - t0) / of_int recovery; of_int recovery \<le> t1 - l\<rbrakk> \<Longrightarrow>
      of_nat (Suc n) \<le> of_int threshold + (t1 - t0) / of_int recovery" for l :: rat
  proof -
    assume n: "of_nat n \<le> of_int threshold + (l - t0) / of_int recovery" and l: "of_int recovery \<le> t1 - l"
    have "1 \<le> (t1 - l) / of_int recovery" using l pos by simp
    moreover have "(l - t0) / of_int recovery + (t1 - l) / of_int recovery = (t1 - t0) / of_int recovery"
      by (simp only: add_divide_distrib [symmetric]) simp
    ultimately show ?thesis using n by simp
  qed
  from s consider (closed) "mgb_state b = MgClosed" "int n \<le> mgb_failure_count b" "mgb_failure_count b < threshold"
    | (opened) l where "mgb_state b = MgOpen" "threshold \<le> mgb_failure_count b" "mgb_last_failure_time b = Some l"
      "t0 \<le> l" "l \<le> t" "of_nat n \<le> of_int threshold + (l - t0) / of_int recovery"
    by (auto simp: mg_spoiled_def)
  then show ?thesis
  proof cases
    case closed
    have "of_nat (Suc n) \<le> (of_int threshold :: rat)"
      using closed by (metis of_int_le_iff of_int_of_nat_eq of_nat_Suc order.strict_trans1 zle_add1_eq_le add.commute zless_imp_add1_zle)
    moreover have "0 \<le> (t1 - t0) / of_int recovery" using t pos by simp
    ultimately have "of_nat (Suc n) \<le> of_int threshold + (t1 - t0) / of_int recovery" by linarith
    then show ?thesis
      using closed c f t s n2
      by (auto simp: breaker_call mg_enter_def mg_leave_def mg_record_failure_def mg_spoiled_def Let_def split: if_splits)
  next
    case (opened l)
    show ?thesis
    proof (cases "of_int recovery \<le> t1 - l")
      case True
      with one [OF opened(6)] show ?thesis
        using opened c f t s n2
        by (auto simp: breaker_call mg_enter_def mg_should_attempt_reset_def mg_leave_def mg_record_failure_def mg_spoiled_def Let_def)
    next
      case False
      then show ?thesis
        using opened c f t s n2
        by (auto simp: breaker_call mg_enter_def mg_should_attempt_reset_def mg_spoiled_def)
    qed
  qed
qed

lemma serve_spoiled:
  assumes dead: "mg_dead http" and cfg: "1 \<le> mgs_failure_threshold (mge_settings env)" "0 < mgs_recovery_timeout (mge_settings env)"
    and t: "t0 \<le> t" "t \<le> t1" and name: "mg_breaker_name (mg_chosen (mge_settings env) rq) (mgq_model rq) = name"
    and s: "mg_spoiled (mgs_failure_threshold (mge_settings env)) (mgs_recovery_timeout (mge_settings env)) t0 t n (dget (mgg_breakers g) name)"
    and chat: "mg_chat_completion env http rq None t1 (g, w) = (r, t2, (g2, w2))"
  shows "\<exists>n2. n \<le> n2 \<and> w2 \<le> w + (n2 - n) \<and>
    mg_spoiled (mgs_failure_threshold (mge_settings env)) (mgs_recovery_timeout (mge_settings env)) t0 t1 n2 (dget (mgg_breakers g2) name)"
proof -
  let ?spoiled = "mg_spoiled (mgs_failure_threshold (mge_settings env)) (mgs_recovery_timeout (mge_settings env)) t0"
  let ?fresh = "mg_breaker_init (mgs_failure_threshold (mge_settings env)) (mgs_recovery_timeout (mge_settings env))"
  have later: "?spoiled t1 n (dget (mgg_breakers g) name)" using s t by (auto simp: mg_spoiled_def split: option.splits)
  obtain a g1 where a: "mg_admit env t1 rq g = (a, g1)" by (cases "mg_admit env t1 rq g")
  from admit_breakers [OF a] consider (refused) e where "a = Inl e" "mgg_breakers g1 = mgg_breakers g"
    | (admitted) "a = Inr name" "mgg_breakers g1 = mg_get_breaker name ?fresh (mgg_breakers g)"
    by (auto simp: Let_def name)
  then show ?thesis
  proof cases
    case refused
    then show ?thesis using chat a later by (auto simp: mg_chat_completion_def)
  next
    case admitted
    then obtain b where b: "dget (mgg_breakers g1) name = Some b" "?spoiled t1 n (Some b)"
      using later cfg by (cases "dget (mgg_breakers g) name")
        (auto simp: mg_get_breaker_def dget_dset mg_spoiled_def mg_breaker_init_def)
    show ?thesis
    proof (cases "mg_get_provider env http (mg_chosen (mge_settings env) rq)")
      case (Inl e)
      then show ?thesis using chat a admitted b by (auto simp: mg_chat_completion_def)
    next
      case (Inr ask)
      obtain e w1 where f: "ask rq None t1 w = (Raise e, t1, w1)" "w1 \<le> Suc w" using dead_provider [OF dead Inr] by blast
      obtain q t3 b2 w3 where c: "mg_breaker_call (ask rq) None t1 (b, w) = (q, t3, (b2, w3))" by (metis surj_pair)
      define n2 where "n2 = (if fst (mg_enter t1 b) = None then Suc n else n)"
      have "t0 \<le> t1" using t by simp
      from spoiled_call [OF b(2) cfg(2) this order_refl f c n2_def]
      show ?thesis using chat a admitted(1) b(1) Inr c
        by (intro exI [of _ n2]) (auto simp: mg_chat_completion_def Let_def dget_dset)
    qed
  qed
qed

lemma spoiled_bound:
  assumes s: "mg_spoiled threshold recovery t0 t n b" and "t0 \<le> t" "1 \<le> threshold" "0 < recovery"
  shows "of_nat n \<le> of_int threshold + (t - t0) / of_int recovery"
proof -
  have pos: "0 \<le> (t - t0) / of_int recovery" using assms by simp
  have mono: "(l - t0) / of_int recovery \<le> (t - t0) / of_int recovery" if "l \<le> t" for l
    using that assms(4) by (intro divide_right_mono) simp_all
  have nat: "of_nat n \<le> (of_int threshold :: rat)" if "int n \<le> threshold"
    using that by (metis of_int_le_iff of_int_of_nat_eq)
  show ?thesis
    using s pos nat mono assms(3) by (fastforce simp: mg_spoiled_def split: option.splits)
qed


definition mg_down :: "nat mg_http" where
  "mg_down u h p dl t w = (Raise (exception ''ConnectError''), t, Suc w)"

definition mg_demo_env :: mg_env where
  "mg_demo_env =
     \<lparr>mge_settings = mg_default_settings\<lparr>mgs_openai_api_key := Some ''key''\<rparr>,
      mge_to_int = (\<lambda>j. case j of JInt i \<Rightarrow> Inr i | _ \<Rightarrow> Inl (value_error ''int'')),
      mge_to_str = (\<lambda>j. case j of JStr s \<Rightarrow> Inr s | _ \<Rightarrow> Inl (value_error ''str'')),
      mge_show = (\<lambda>_. ''x''), mge_str_exn = message, mge_uuid = ''uuid''\<rparr>"

definition mg_ask :: "string \<Rightarrow> mg_request" where
  "mg_ask tenant =
     \<lparr>mgq_tenant_id = tenant, mgq_model = ''gpt-4'', mgq_messages = [], mgq_provider = None, mgq_max_tokens = None,
      mgq_temperature = None, mgq_stream = False\<rparr>"

lemma mg_demo_simps [simp]:
  "mgs_failure_threshold (mge_settings mg_demo_env) = 5" "mgs_recovery_timeout (mge_settings mg_demo_env) = 60"
  "mg_chosen (mge_settings mg_demo_env) (mg_ask tenant) = OPENAI" "mgq_model (mg_ask tenant) = ''gpt-4''"
  by (simp_all add: mg_demo_env_def mg_default_settings_def mg_chosen_def mg_ask_def mg_get_default_provider_def)


theorem mg_metered_once_witness:
  "mgg_metering (fst (snd (snd (mg_chat_completion mg_demo_env mg_down (mg_ask ''a'') None 1
     (mg_gateway_init (mge_settings mg_demo_env), 0))))) = []"
proof -
  obtain q t g w where chat: "mg_chat_completion mg_demo_env mg_down (mg_ask ''a'') None 1
      (mg_gateway_init (mge_settings mg_demo_env), 0) = (q, t, (g, w))" by (metis surj_pair)
  have "\<forall>x. q \<noteq> Ok x"
    using chat by (auto simp: mg_chat_completion_def mg_admit_def mg_get_provider_def openai_complete_def mg_demo_env_def
        mg_default_settings_def mg_down_def breaker_call mg_enter_def mg_leave_def co_bind_def Let_def mg_get_breaker_def
        mg_gateway_init_def mg_breaker_init_def mg_check_tenant_policy_def mg_chosen_def mg_ask_def mg_get_default_provider_def
        split: prod.splits bool.splits if_splits)
  moreover have "mgg_metering (mg_gateway_init (mge_settings mg_demo_env)) = []" by (simp add: mg_gateway_init_def)
  ultimately show ?thesis using mg_metered_once [OF chat] by (cases q) (simp_all add: chat)
qed

section \<open>Open and half open\<close>

text \<open>As many failures as the threshold in a row open a closed breaker, and no call passes until the recovery time is over.\<close>

lemma mg_failures_shield:
  assumes "mgb_state b = MgClosed" and "xs \<noteq> []" and "int (length xs) = max 1 (mgb_budget b)"
    and "\<And>t. t \<in> set ts \<Longrightarrow> t \<le> T" and "T < fst (last xs) + of_int (mgb_recovery_timeout b)"
  shows "None \<notin> set (fst (attempts mg_enter ts (fail_all mg_leave xs b)))"
  using assms by (rule mgbb.failures_shield)

text \<open>A half-open breaker lets any number of calls pass: the state says nothing of a probe that is under way.\<close>

lemma mg_half_open_admits_all:
  "mgb_state b = MgHalfOpen \<Longrightarrow> attempts mg_enter ts b = (map (\<lambda>_. None) ts, b)"
  by (induction ts) (simp_all add: mg_enter_def)

end
