(* ===== verification/LinkTasks.thy ===== *)
theory LinkTasks
  imports Prelude
begin

text \<open>
  What the managers of replicated databases and of mirrored streams share: for each name a task that checks the health
  of a link and one that synchronises it, both endless loops, and the dictionaries in which the manager finds them; and the
  contract of such a manager. A round of a loop is one step; a cancelled task makes no further round.
\<close>

section \<open>Tasks\<close>

datatype link_kind = HealthTask | SyncTask

record link_task =
  lkt_name :: string
  lkt_kind :: link_kind
  lkt_alive :: bool

record link_tasks =
  lk_tasks :: "link_task list"
  lk_health :: "(string, nat) dict"
  lk_sync :: "(string, nat) dict"

definition lk_none :: link_tasks where
  "lk_none = \<lparr>lk_tasks = [], lk_health = [], lk_sync = []\<rparr>"

definition lk_spawn :: "string \<Rightarrow> link_kind \<Rightarrow> link_tasks \<Rightarrow> link_tasks" where
  "lk_spawn name kind T = T\<lparr>lk_tasks := lk_tasks T @ [\<lparr>lkt_name = name, lkt_kind = kind, lkt_alive = True\<rparr>]\<rparr>"

text \<open>The entry of an earlier task of the name is overwritten; the task goes on.\<close>

definition lk_start_health :: "string \<Rightarrow> link_tasks \<Rightarrow> link_tasks" where
  "lk_start_health name T = (lk_spawn name HealthTask T)\<lparr>lk_health := dset name (length (lk_tasks T)) (lk_health T)\<rparr>"

definition lk_start_sync :: "string \<Rightarrow> link_tasks \<Rightarrow> link_tasks" where
  "lk_start_sync name T = (lk_spawn name SyncTask T)\<lparr>lk_sync := dset name (length (lk_tasks T)) (lk_sync T)\<rparr>"

definition lk_cancel :: "nat option \<Rightarrow> link_task list \<Rightarrow> link_task list" where
  "lk_cancel x ts = (case x of None \<Rightarrow> ts | Some i \<Rightarrow> ts[i := (ts ! i)\<lparr>lkt_alive := False\<rparr>])"

definition lk_stop :: "string \<Rightarrow> link_tasks \<Rightarrow> link_tasks" where
  "lk_stop name T =
     \<lparr>lk_tasks = lk_cancel (dget (lk_sync T) name) (lk_cancel (dget (lk_health T) name) (lk_tasks T)),
      lk_health = ddel name (lk_health T), lk_sync = ddel name (lk_sync T)\<rparr>"

definition lk_cancel_all :: "link_tasks \<Rightarrow> link_tasks" where
  "lk_cancel_all T =
     T\<lparr>lk_tasks := fold (\<lambda>(_, i). lk_cancel (Some i)) (lk_sync T) (fold (\<lambda>(_, i). lk_cancel (Some i)) (lk_health T) (lk_tasks T))\<rparr>"

definition lk_runs :: "link_tasks \<Rightarrow> nat \<Rightarrow> bool" where
  "lk_runs T i \<longleftrightarrow> i < length (lk_tasks T) \<and> lkt_alive (lk_tasks T ! i)"

definition lk_for :: "link_tasks \<Rightarrow> nat \<Rightarrow> string \<Rightarrow> bool" where
  "lk_for T i name \<longleftrightarrow> lk_runs T i \<and> lkt_name (lk_tasks T ! i) = name"

text \<open>Every running task of a name is one that the manager finds.\<close>

definition lk_owned :: "link_tasks \<Rightarrow> string \<Rightarrow> bool" where
  "lk_owned T name \<longleftrightarrow>
     (\<forall>i. lk_for T i name \<longrightarrow> dget (lk_health T) name = Some i \<or> dget (lk_sync T) name = Some i)"

lemma cancel_length [simp]: "length (lk_cancel x ts) = length ts"
  by (simp add: lk_cancel_def split: option.split)

lemma cancel_nth: "lk_cancel x ts ! i = (if x = Some i \<and> i < length ts then (ts ! i)\<lparr>lkt_alive := False\<rparr> else ts ! i)"
proof (cases x)
  case (Some j)
  then show ?thesis by (cases "j = i"; cases "i < length ts") (simp_all add: lk_cancel_def list_update_beyond)
qed (simp add: lk_cancel_def)

lemma stop_for:
  "lk_for (lk_stop name T) i nm \<longleftrightarrow> lk_for T i nm \<and> dget (lk_health T) name \<noteq> Some i \<and> dget (lk_sync T) name \<noteq> Some i"
  by (auto simp: lk_for_def lk_runs_def lk_stop_def cancel_nth split: if_splits)

lemma stop_owned: "lk_owned T name \<Longrightarrow> \<not> lk_for (lk_stop name T) i name"
  by (auto simp: lk_owned_def stop_for)

lemma stop_kind: "i < length (lk_tasks T) \<Longrightarrow> lkt_kind (lk_tasks (lk_stop name T) ! i) = lkt_kind (lk_tasks T ! i)"
  by (simp add: lk_stop_def cancel_nth)

lemma spawn_for:
  "lk_for (lk_spawn name kind T) i nm \<longleftrightarrow> lk_for T i nm \<or> i = length (lk_tasks T) \<and> nm = name"
  by (auto simp: lk_for_def lk_runs_def lk_spawn_def nth_append)

lemma start_for:
  "lk_for (lk_start_health name T) i nm \<longleftrightarrow> lk_for T i nm \<or> i = length (lk_tasks T) \<and> nm = name"
  "lk_for (lk_start_sync name T) i nm \<longleftrightarrow> lk_for T i nm \<or> i = length (lk_tasks T) \<and> nm = name"
  using spawn_for [of name HealthTask T i nm] spawn_for [of name SyncTask T i nm]
  by (simp_all add: lk_start_health_def lk_start_sync_def lk_for_def lk_runs_def)

section \<open>The contract of a manager\<close>

locale link_manager =
  fixes tasks :: "'s \<Rightarrow> link_tasks"
    and status :: "'s \<Rightarrow> string \<Rightarrow> 'st option"
    and known :: "'s \<Rightarrow> string \<Rightarrow> bool"
    and active paused :: 'st
    and pause :: "string \<Rightarrow> 's \<Rightarrow> bool \<times> 's"
    and tick :: "'x \<Rightarrow> nat \<Rightarrow> 's \<Rightarrow> 's"
  assumes pause_stops: "pause name s = (True, s') \<Longrightarrow> tasks s' = lk_stop name (tasks s)"
    and pause_status: "pause name s = (True, s') \<Longrightarrow> known s name \<Longrightarrow> known s' name \<and> status s' name = Some paused"
    and tick_tasks: "tasks (tick x i s) = tasks s"
    and tick_other: "\<not> lk_for (tasks s) i name \<Longrightarrow> status (tick x i s) name = status s name"
    and tick_sync: "lk_for (tasks s) i name \<Longrightarrow> lkt_kind (lk_tasks (tasks s) ! i) = SyncTask \<Longrightarrow>
      known s name \<Longrightarrow> status (tick x i s) name = Some active"
begin

lemma ticks_tasks: "tasks (fold (\<lambda>(x, i). tick x i) ts s) = tasks s"
  by (induction ts arbitrary: s) (auto simp: tick_tasks)

lemma ticks_other: "\<forall>i. \<not> lk_for (tasks s) i name \<Longrightarrow> status (fold (\<lambda>(x, i). tick x i) ts s) name = status s name"
  by (induction ts arbitrary: s) (auto simp: tick_tasks tick_other)

text \<open>What is paused stays so, if the manager finds all tasks of the name.\<close>

lemma paused_stays:
  assumes "lk_owned (tasks s) name" and "pause name s = (True, s')" and "known s name"
  shows "status (fold (\<lambda>(x, i). tick x i) ts s') name = Some paused"
  using assms pause_stops [OF assms(2)] pause_status [OF assms(2,3)] stop_owned
  by (subst ticks_other) simp_all

text \<open>A synchronising task that the manager has lost sight of survives the pause, and makes the link active again.\<close>

lemma lost_task_revives:
  assumes i: "lk_for (tasks s) i name" "lkt_kind (lk_tasks (tasks s) ! i) = SyncTask"
    and lost: "dget (lk_sync (tasks s)) name \<noteq> Some i" "dget (lk_health (tasks s)) name \<noteq> Some i"
    and pause: "pause name s = (True, s')" and "known s name"
  shows "status s' name = Some paused \<and> status (tick x i s') name = Some active"
proof -
  have status: "known s' name \<and> status s' name = Some paused" by (rule pause_status [OF pause assms(6)])
  have "lk_for (tasks s') i name" using i lost by (simp add: pause_stops [OF pause] stop_for)
  moreover have "lkt_kind (lk_tasks (tasks s') ! i) = SyncTask"
    using i by (simp add: pause_stops [OF pause] stop_kind lk_for_def lk_runs_def)
  ultimately show ?thesis using status tick_sync [of s' i name x] by simp
qed

end

end
