(* ===== verification/Replication.thy ===== *)
theory Replication
  imports LinkTasks Json
begin

text \<open>
  \<^verbatim>\<open>libs/infrastructure/postgres_replication.py\<close>: \<open>PostgreSQLReplicationManager\<close>. Statements are constants; what
  the databases answer to connections, statements and the query for the lag is a parameter. Operations and rounds of the
  tasks are atomic. Reports and the loops of the tasks change nothing else.
\<close>

datatype repl_status = RsActive | RsPaused | RsFailed | RsSyncing | RsInitializing

fun repl_status_value :: "repl_status \<Rightarrow> string" where
  "repl_status_value RsActive = ''active''"
| "repl_status_value RsPaused = ''paused''"
| "repl_status_value RsFailed = ''failed''"
| "repl_status_value RsSyncing = ''syncing''"
| "repl_status_value RsInitializing = ''initializing''"

datatype repl_type = RtLogical | RtPhysical | RtStreaming

fun repl_type_value :: "repl_type \<Rightarrow> string" where
  "repl_type_value RtLogical = ''logical''"
| "repl_type_value RtPhysical = ''physical''"
| "repl_type_value RtStreaming = ''streaming''"

record repl_config =
  rpc_database_name :: string
  rpc_source_region :: string
  rpc_target_region :: string
  rpc_replication_type :: repl_type
  rpc_slot_name :: string
  rpc_publication_name :: string
  rpc_tables :: "string list"
  rpc_sync_interval_seconds :: int
  rpc_health_check_interval_seconds :: int
  rpc_max_lag_bytes :: int
  rpc_max_lag_time_seconds :: int
  rpc_replication_user :: string
  rpc_replication_password :: string

record repl_stats =
  rps_database_name :: string
  rps_region :: string
  rps_lag_bytes :: int
  rps_lag_time_seconds :: rat
  rps_last_received_time :: rat
  rps_last_applied_time :: rat
  rps_status :: repl_status
  rps_error_count :: int
  rps_last_error :: "string option"
  rps_tables_replicated :: "string list"

text \<open>The statements, and the end of a link at which they are executed.\<close>

datatype repl_statement =
    CreatePublication string "string list"
  | CreateSubscription string string string string string string
  | CreatePhysicalSlot string
  | CreateLogicalSlot string
  | SetSlotInactive string
  | SetSlotActive string

datatype repl_end = SourceEnd | TargetEnd

type_synonym repl_execute = "string \<Rightarrow> repl_end \<Rightarrow> repl_statement \<Rightarrow> exn option"

record repl =
  rpm_region :: string
  rpm_connections :: "string list"
  rpm_configs :: "(string, repl_config) dict"
  rpm_stats :: "(string, repl_stats) dict"
  rpm_tasks :: link_tasks

definition repl_init :: "string \<Rightarrow> repl" where
  "repl_init region =
     \<lparr>rpm_region = region, rpm_connections = [], rpm_configs = [], rpm_stats = [], rpm_tasks = lk_none\<rparr>"

section \<open>Connections and set-up\<close>

text \<open>Both connections of a region are made before it is known; the first failure ends the loop and is raised.\<close>

fun repl_initialize_region_connections ::
  "(string \<Rightarrow> repl_end \<Rightarrow> exn option) \<Rightarrow> string list \<Rightarrow> repl \<Rightarrow> exn option \<times> repl" where
  "repl_initialize_region_connections connect [] m = (None, m)"
| "repl_initialize_region_connections connect (r # rs) m =
     (if r = rpm_region m then repl_initialize_region_connections connect rs m
      else (case (connect r SourceEnd, connect r TargetEnd) of
              (None, None) \<Rightarrow>
                repl_initialize_region_connections connect rs (m\<lparr>rpm_connections := List.insert r (rpm_connections m)\<rparr>)
            | (Some e, _) \<Rightarrow> (Some e, m)
            | (None, Some e) \<Rightarrow> (Some e, m)))"

definition repl_logical_statements :: "repl_config \<Rightarrow> (repl_end \<times> repl_statement) list" where
  "repl_logical_statements c =
     [(SourceEnd, CreatePublication (rpc_publication_name c) (rpc_tables c)),
      (TargetEnd, CreateSubscription (rpc_slot_name c) (rpc_source_region c) (rpc_database_name c)
         (rpc_replication_user c) (rpc_replication_password c) (rpc_publication_name c))]"

definition repl_statements :: "repl_config \<Rightarrow> (repl_end \<times> repl_statement) list" where
  "repl_statements c =
     (case rpc_replication_type c of
        RtLogical \<Rightarrow> repl_logical_statements c
      | RtPhysical \<Rightarrow> [(SourceEnd, CreatePhysicalSlot (rpc_slot_name c))]
      | RtStreaming \<Rightarrow> [(SourceEnd, CreateLogicalSlot (rpc_slot_name c))])"

fun repl_execute_all :: "repl_execute \<Rightarrow> string \<Rightarrow> (repl_end \<times> repl_statement) list \<Rightarrow> exn option" where
  "repl_execute_all execute region [] = None"
| "repl_execute_all execute region ((side, s) # xs) =
     (case execute region side s of Some e \<Rightarrow> Some e | None \<Rightarrow> repl_execute_all execute region xs)"

text \<open>A region without connections is logged, and the set-up goes on.\<close>

definition repl_setup_links :: "repl_execute \<Rightarrow> repl_config \<Rightarrow> repl \<Rightarrow> exn option" where
  "repl_setup_links execute c m =
     (if rpc_target_region c \<notin> set (rpm_connections m) then None
      else repl_execute_all execute (rpc_target_region c) (repl_statements c))"

definition repl_fresh_stats :: "rat \<Rightarrow> repl_config \<Rightarrow> repl \<Rightarrow> repl_stats" where
  "repl_fresh_stats now c m =
     \<lparr>rps_database_name = rpc_database_name c, rps_region = rpm_region m, rps_lag_bytes = 0, rps_lag_time_seconds = 0,
      rps_last_received_time = now, rps_last_applied_time = now, rps_status = RsActive, rps_error_count = 0,
      rps_last_error = None, rps_tables_replicated = rpc_tables c\<rparr>"

definition repl_start_tasks :: "repl_config \<Rightarrow> string \<Rightarrow> link_tasks \<Rightarrow> link_tasks" where
  "repl_start_tasks c name T =
     (let T1 = lk_start_health name T in if 0 < rpc_sync_interval_seconds c then lk_start_sync name T1 else T1)"

definition repl_setup_replication :: "repl_execute \<Rightarrow> rat \<Rightarrow> repl_config \<Rightarrow> repl \<Rightarrow> bool \<times> repl" where
  "repl_setup_replication execute now c m =
     (let name = rpc_database_name c; m1 = m\<lparr>rpm_configs := dset name c (rpm_configs m)\<rparr>
      in case repl_setup_links execute c m1 of
           Some _ \<Rightarrow> (False, m1)
         | None \<Rightarrow>
             (True, m1\<lparr>rpm_stats := dset name (repl_fresh_stats now c m1) (rpm_stats m1),
                       rpm_tasks := repl_start_tasks c name (rpm_tasks m1)\<rparr>))"

section \<open>The rounds of the tasks\<close>

record repl_lag =
  rpl_lag_bytes :: "int option"
  rpl_lag_time_seconds :: "rat option"

definition repl_excessive :: "repl_config \<Rightarrow> repl_stats \<Rightarrow> bool" where
  "repl_excessive c st \<longleftrightarrow>
     rpc_max_lag_bytes c < rps_lag_bytes st \<or> of_int (rpc_max_lag_time_seconds c) < rps_lag_time_seconds st"

text \<open>\<open>show\<close> gives the text of the two lags; without a row nothing changes.\<close>

definition repl_checked ::
  "(int \<Rightarrow> rat \<Rightarrow> string) \<Rightarrow> rat \<Rightarrow> exn + repl_lag option \<Rightarrow> repl_config \<Rightarrow> repl_stats \<Rightarrow> repl_stats" where
  "repl_checked show_lag now answer c st =
     (case answer of
        Inl e \<Rightarrow>
          st\<lparr>rps_error_count := rps_error_count st + 1, rps_last_error := Some (message e), rps_status := RsFailed\<rparr>
      | Inr None \<Rightarrow> st
      | Inr (Some row) \<Rightarrow>
          (let st1 = st\<lparr>rps_lag_bytes := (case rpl_lag_bytes row of None \<Rightarrow> 0 | Some b \<Rightarrow> b),
                        rps_lag_time_seconds := (case rpl_lag_time_seconds row of None \<Rightarrow> 0 | Some x \<Rightarrow> x),
                        rps_last_received_time := now\<rparr>
           in if repl_excessive c st1
              then st1\<lparr>rps_error_count := rps_error_count st1 + 1,
                       rps_last_error := Some (show_lag (rps_lag_bytes st1) (rps_lag_time_seconds st1)),
                       rps_status := RsFailed\<rparr>
              else st1\<lparr>rps_status := RsActive\<rparr>))"

definition repl_perform_health_check ::
  "(int \<Rightarrow> rat \<Rightarrow> string) \<Rightarrow> rat \<Rightarrow> exn + repl_lag option \<Rightarrow> string \<Rightarrow> repl \<Rightarrow> repl" where
  "repl_perform_health_check show_lag now answer name m =
     (case (dget (rpm_configs m) name, dget (rpm_stats m) name) of
        (Some c, Some st) \<Rightarrow>
          if rpc_target_region c \<notin> set (rpm_connections m) then m
          else m\<lparr>rpm_stats := dset name (repl_checked show_lag now answer c st) (rpm_stats m)\<rparr>
      | _ \<Rightarrow> m)"

text \<open>
  A placeholder in the code: the statistics are marked as syncing and then as active. Without statistics the
  \<open>except\<close> clause raises in its turn, and the task goes on.
\<close>

definition repl_perform_sync :: "string \<Rightarrow> repl \<Rightarrow> repl" where
  "repl_perform_sync name m =
     (case (dget (rpm_configs m) name, dget (rpm_stats m) name) of
        (Some _, Some st) \<Rightarrow> m\<lparr>rpm_stats := dset name (st\<lparr>rps_status := RsActive\<rparr>) (rpm_stats m)\<rparr>
      | (None, Some st) \<Rightarrow>
          m\<lparr>rpm_stats := dset name (st\<lparr>rps_status := RsFailed, rps_error_count := rps_error_count st + 1,
                                      rps_last_error := Some (message (key_error name))\<rparr>) (rpm_stats m)\<rparr>
      | (_, None) \<Rightarrow> m)"

section \<open>Pausing and resuming\<close>

definition repl_slot_statement :: "repl_execute \<Rightarrow> (string \<Rightarrow> repl_statement) \<Rightarrow> repl_config \<Rightarrow> repl \<Rightarrow> exn option" where
  "repl_slot_statement execute stmt c m =
     (if rpc_target_region c \<in> set (rpm_connections m)
      then execute (rpc_target_region c) SourceEnd (stmt (rpc_slot_name c)) else None)"

definition repl_set_status :: "string \<Rightarrow> repl_status \<Rightarrow> (string, repl_stats) dict \<Rightarrow> (string, repl_stats) dict" where
  "repl_set_status name status d =
     (case dget d name of None \<Rightarrow> d | Some st \<Rightarrow> dset name (st\<lparr>rps_status := status\<rparr>) d)"

definition repl_pause_replication :: "repl_execute \<Rightarrow> string \<Rightarrow> repl \<Rightarrow> bool \<times> repl" where
  "repl_pause_replication execute name m =
     (case dget (rpm_configs m) name of
        None \<Rightarrow> (False, m)
      | Some c \<Rightarrow>
          (case repl_slot_statement execute SetSlotInactive c m of
             Some _ \<Rightarrow> (False, m)
           | None \<Rightarrow>
               (True, m\<lparr>rpm_tasks := lk_stop name (rpm_tasks m),
                        rpm_stats := repl_set_status name RsPaused (rpm_stats m)\<rparr>)))"

definition repl_resume_replication :: "repl_execute \<Rightarrow> string \<Rightarrow> repl \<Rightarrow> bool \<times> repl" where
  "repl_resume_replication execute name m =
     (case dget (rpm_configs m) name of
        None \<Rightarrow> (False, m)
      | Some c \<Rightarrow>
          (case repl_slot_statement execute SetSlotActive c m of
             Some _ \<Rightarrow> (False, m)
           | None \<Rightarrow>
               (True, m\<lparr>rpm_tasks := repl_start_tasks c name (rpm_tasks m),
                        rpm_stats := repl_set_status name RsActive (rpm_stats m)\<rparr>)))"

section \<open>Reports\<close>

definition repl_get_replication_status :: "string \<Rightarrow> repl \<Rightarrow> (repl_config \<times> repl_stats) option" where
  "repl_get_replication_status name m =
     (case (dget (rpm_configs m) name, dget (rpm_stats m) name) of
        (Some c, Some st) \<Rightarrow> Some (c, st)
      | _ \<Rightarrow> None)"

record repl_report =
  rpr_region :: string
  rpr_total_databases :: nat
  rpr_active_databases :: nat
  rpr_paused_databases :: nat
  rpr_failed_databases :: nat
  rpr_databases :: "(string, repl_config \<times> repl_stats) dict"

definition repl_get_all_replication_status :: "repl \<Rightarrow> repl_report" where
  "repl_get_all_replication_status m =
     (let data = List.map_filter (\<lambda>(name, _). map_option (Pair name) (repl_get_replication_status name m)) (rpm_configs m);
          having = (\<lambda>s. length (filter (\<lambda>(_, _, st). rps_status st = s) data))
      in \<lparr>rpr_region = rpm_region m, rpr_total_databases = length data, rpr_active_databases = having RsActive,
          rpr_paused_databases = having RsPaused, rpr_failed_databases = having RsFailed, rpr_databases = data\<rparr>)"

definition repl_cleanup :: "repl \<Rightarrow> repl" where
  "repl_cleanup m = m\<lparr>rpm_tasks := lk_cancel_all (rpm_tasks m)\<rparr>"

section \<open>The manager as a link manager\<close>

text \<open>One round of a task: the time and what the database answers to the query for the lag.\<close>

definition repl_tick :: "(int \<Rightarrow> rat \<Rightarrow> string) \<Rightarrow> rat \<times> (exn + repl_lag option) \<Rightarrow> nat \<Rightarrow> repl \<Rightarrow> repl" where
  "repl_tick show_lag x i m =
     (if lk_runs (rpm_tasks m) i
      then (let task = lk_tasks (rpm_tasks m) ! i
            in case lkt_kind task of
                 HealthTask \<Rightarrow> repl_perform_health_check show_lag (fst x) (snd x) (lkt_name task) m
               | SyncTask \<Rightarrow> repl_perform_sync (lkt_name task) m)
      else m)"

definition repl_status_of :: "repl \<Rightarrow> string \<Rightarrow> repl_status option" where
  "repl_status_of m name = map_option rps_status (dget (rpm_stats m) name)"

definition repl_known :: "repl \<Rightarrow> string \<Rightarrow> bool" where
  "repl_known m name \<longleftrightarrow> dget (rpm_configs m) name \<noteq> None \<and> dget (rpm_stats m) name \<noteq> None"

lemma repl_tick_simps:
  "rpm_tasks (repl_tick show_lag x i m) = rpm_tasks m"
  "rpm_configs (repl_tick show_lag x i m) = rpm_configs m"
  "\<not> lk_for (rpm_tasks m) i name \<Longrightarrow> dget (rpm_stats (repl_tick show_lag x i m)) name = dget (rpm_stats m) name"
  by (auto simp: repl_tick_def repl_perform_health_check_def repl_perform_sync_def lk_for_def Let_def dget_dset
      split: link_kind.splits option.splits)

interpretation repl: link_manager rpm_tasks repl_status_of repl_known RsActive RsPaused "repl_pause_replication execute"
  "repl_tick show_lag" for execute show_lag
proof (unfold_locales, goal_cases)
  case (1 name m m')
  then show ?case by (auto simp: repl_pause_replication_def split: option.splits)
next
  case (2 name m m')
  then show ?case
    by (auto simp: repl_pause_replication_def repl_status_of_def repl_known_def repl_set_status_def dget_dset split: option.splits)
next
  case (3 x i m)
  then show ?case by (rule repl_tick_simps)
next
  case (4 m i name x)
  then show ?case by (simp add: repl_status_of_def repl_tick_simps)
next
  case (5 m i name x)
  then show ?case
    by (auto simp: repl_tick_def repl_perform_sync_def lk_for_def Let_def repl_status_of_def repl_known_def dget_dset)
qed

section \<open>Properties\<close>

text \<open>
  A paused replication stays paused, whatever rounds of whatever tasks follow, as long as the manager
  finds every running task of the database.
\<close>

theorem repl_paused_stays:
  assumes "lk_owned (rpm_tasks m) name" and "repl_pause_replication execute name m = (True, m')" and "repl_known m name"
  shows "repl_status_of (fold (\<lambda>(x, i). repl_tick show_lag x i) rounds m') name = Some RsPaused"
  using assms by (rule repl.paused_stays)

lemma repl_start_owned:
  assumes "0 < rpc_sync_interval_seconds c"
  shows "lk_for (repl_start_tasks c name T) (Suc (length (lk_tasks T))) name"
    "lkt_kind (lk_tasks (repl_start_tasks c name T) ! Suc (length (lk_tasks T))) = SyncTask"
    "dget (lk_sync (repl_start_tasks c name T)) name = Some (Suc (length (lk_tasks T)))"
    "dget (lk_health (repl_start_tasks c name T)) name = Some (length (lk_tasks T))"
    "length (lk_tasks (repl_start_tasks c name T)) = Suc (Suc (length (lk_tasks T)))"
    "i < length (lk_tasks T) \<Longrightarrow> lk_tasks (repl_start_tasks c name T) ! i = lk_tasks T ! i"
  using assms by (simp_all add: repl_start_tasks_def lk_start_health_def lk_start_sync_def lk_spawn_def lk_for_def lk_runs_def
      dget_dset nth_append)

text \<open>
  C35. Resuming what runs loses a task: when a replication that was just set up is resumed, the manager forgets the tasks
  of the set-up. A pause then reports success and the status paused, and the next round of the forgotten task makes the
  replication active again.
\<close>

theorem repl_resume_unpauses:
  assumes made: "repl_setup_replication execute now c m = (True, m1)" and sync: "0 < rpc_sync_interval_seconds c"
    and resume: "repl_resume_replication execute (rpc_database_name c) m1 = (True, m2)"
    and pause: "repl_pause_replication execute (rpc_database_name c) m2 = (True, m3)"
  shows "repl_status_of m3 (rpc_database_name c) = Some RsPaused \<and>
    repl_status_of (repl_tick show_lag x (Suc (length (lk_tasks (rpm_tasks m)))) m3) (rpc_database_name c) = Some RsActive"
proof (rule repl.lost_task_revives [OF _ _ _ _ pause])
  let ?name = "rpc_database_name c" and ?i = "Suc (length (lk_tasks (rpm_tasks m)))"
  have m1: "rpm_tasks m1 = repl_start_tasks c ?name (rpm_tasks m)" "dget (rpm_configs m1) ?name = Some c"
      "dget (rpm_stats m1) ?name \<noteq> None"
    using made by (auto simp: repl_setup_replication_def Let_def dget_dset split: option.splits)
  have m2: "rpm_tasks m2 = repl_start_tasks c ?name (rpm_tasks m1)" "repl_known m2 ?name"
    using resume m1 by (auto simp: repl_resume_replication_def repl_known_def repl_set_status_def dget_dset split: option.splits)
  note first = repl_start_owned [OF sync, where name = ?name and T = "rpm_tasks m", folded m1(1)]
  note second = repl_start_owned [OF sync, where name = ?name and T = "rpm_tasks m1", folded m2(1)]
  show "lk_for (rpm_tasks m2) ?i ?name" using first second(5,6) by (simp add: lk_for_def lk_runs_def)
  show "lkt_kind (lk_tasks (rpm_tasks m2) ! ?i) = SyncTask" using first second(6) by simp
  show "dget (lk_sync (rpm_tasks m2)) ?name \<noteq> Some ?i" "dget (lk_health (rpm_tasks m2)) ?name \<noteq> Some ?i"
    using first(5) second(3,4) by simp_all
  show "repl_known m2 ?name" by (rule m2(2))
qed

text \<open>
  A link that was never made is reported as active: when the target region has no connections, the set-up
  executes no statement and succeeds, and no round of any task ever reports anything but an active replication without errors.
\<close>

theorem repl_unconnected_stays_active:
  assumes "rpc_target_region c \<notin> set (rpm_connections m)" and made: "repl_setup_replication execute now c m = (ok, m1)"
  shows "ok \<and> (\<exists>st. repl_get_replication_status (rpc_database_name c) (fold (\<lambda>(x, i). repl_tick show_lag x i) rounds m1) =
      Some (c, st) \<and> rps_status st = RsActive \<and> rps_error_count st = 0)"
proof -
  let ?name = "rpc_database_name c"
  let ?I = "\<lambda>m. rpc_target_region c \<notin> set (rpm_connections m) \<and> dget (rpm_configs m) ?name = Some c \<and>
    (\<exists>st. dget (rpm_stats m) ?name = Some st \<and> rps_status st = RsActive \<and> rps_error_count st = 0)"
  have start: "ok" "?I m1"
    using assms by (auto simp: repl_setup_replication_def repl_setup_links_def repl_fresh_stats_def Let_def dget_dset)
  have step: "?I (repl_tick show_lag x i m)" if "?I m" for x i m
    using that by (auto simp: repl_tick_def repl_perform_health_check_def repl_perform_sync_def Let_def dget_dset
        split: link_kind.splits option.splits)
  have "?I (fold (\<lambda>(x, i). repl_tick show_lag x i) rounds m)" if "?I m" for m
    using that
  proof (induction rounds arbitrary: m)
    case (Cons r rounds)
    obtain x i where r: "r = (x, i)" by (cases r)
    from Cons.IH [OF step [OF Cons.prems, of x i]] show ?case by (simp add: r)
  qed simp
  from this [OF start(2)] start(1) show ?thesis by (auto simp: repl_get_replication_status_def)
qed

text \<open>A round of the synchronisation hides a failure that a health check has found.\<close>

lemma repl_sync_hides_failure:
  "repl_known m name \<Longrightarrow> repl_status_of (repl_perform_sync name m) name = Some RsActive"
  by (auto simp: repl_known_def repl_perform_sync_def repl_status_of_def dget_dset)

text \<open>When the statement that deactivates a slot fails, the pause does nothing and the tasks go on.\<close>

lemma repl_failed_pause:
  assumes "dget (rpm_configs m) name = Some c" and "rpc_target_region c \<in> set (rpm_connections m)"
    and "execute (rpc_target_region c) SourceEnd (SetSlotInactive (rpc_slot_name c)) = Some e"
  shows "repl_pause_replication execute name m = (False, m)"
  using assms by (simp add: repl_pause_replication_def repl_slot_statement_def)

section \<open>Examples\<close>

definition repl_demo_config :: repl_config where
  "repl_demo_config =
     \<lparr>rpc_database_name = ''orders'', rpc_source_region = ''eu'', rpc_target_region = ''us'',
      rpc_replication_type = RtStreaming, rpc_slot_name = ''s'', rpc_publication_name = ''p'', rpc_tables = [''t''],
      rpc_sync_interval_seconds = 60, rpc_health_check_interval_seconds = 30, rpc_max_lag_bytes = 1024,
      rpc_max_lag_time_seconds = 30, rpc_replication_user = ''u'', rpc_replication_password = ''''\<rparr>"

lemma repl_demo_simps [simp]:
  "rpc_database_name repl_demo_config = ''orders''" "rpc_target_region repl_demo_config = ''us''"
  "rpc_sync_interval_seconds repl_demo_config = 60"
  by (simp_all add: repl_demo_config_def)

definition repl_demo :: repl where
  "repl_demo = snd (repl_setup_replication (\<lambda>_ _ _. None) 0 repl_demo_config (repl_init ''eu''))"

lemma repl_demo_setup: "repl_setup_replication (\<lambda>_ _ _. None) 0 repl_demo_config (repl_init ''eu'') = (True, repl_demo)"
  by (simp add: repl_demo_def repl_setup_replication_def repl_setup_links_def repl_init_def Let_def)

lemma repl_demo_state:
  "dget (rpm_configs repl_demo) ''orders'' = Some repl_demo_config" "dget (rpm_stats repl_demo) ''orders'' \<noteq> None"
  "rpm_connections repl_demo = []" "rpm_tasks repl_demo = repl_start_tasks repl_demo_config ''orders'' lk_none"
  by (simp_all add: repl_demo_def repl_setup_replication_def repl_setup_links_def repl_init_def Let_def)

theorem repl_paused_stays_witness:
  "repl_status_of (fold (\<lambda>(x, i). repl_tick (\<lambda>_ _. '''') x i) [((9, Inr None), 1), ((9, Inr None), 0)]
     (snd (repl_pause_replication (\<lambda>_ _ _. None) ''orders'' repl_demo))) ''orders'' = Some RsPaused"
proof (rule repl_paused_stays)
  show "lk_owned (rpm_tasks repl_demo) ''orders''"
    by (auto simp: repl_demo_state lk_owned_def repl_start_tasks_def start_for Let_def lk_none_def lk_for_def lk_runs_def
        lk_start_health_def lk_start_sync_def lk_spawn_def less_Suc_eq)
  show "repl_pause_replication (\<lambda>_ _ _. None) ''orders'' repl_demo =
      (True, snd (repl_pause_replication (\<lambda>_ _ _. None) ''orders'' repl_demo))"
    by (simp add: repl_pause_replication_def repl_demo_state repl_slot_statement_def)
  show "repl_known repl_demo ''orders''" using repl_demo_state by (simp add: repl_known_def)
qed

theorem repl_resume_unpauses_witness:
  "repl_status_of (repl_tick (\<lambda>_ _. '''') (9, Inr None) 1 (snd (repl_pause_replication (\<lambda>_ _ _. None) ''orders''
     (snd (repl_resume_replication (\<lambda>_ _ _. None) ''orders'' repl_demo))))) ''orders'' = Some RsActive"
proof -
  let ?e = "\<lambda>_ _ _. None :: exn option"
  have resume: "repl_resume_replication ?e (rpc_database_name repl_demo_config) repl_demo =
      (True, snd (repl_resume_replication ?e ''orders'' repl_demo))"
    by (simp add: repl_resume_replication_def repl_demo_state repl_slot_statement_def)
  have pause: "repl_pause_replication ?e (rpc_database_name repl_demo_config) (snd (repl_resume_replication ?e ''orders'' repl_demo)) =
      (True, snd (repl_pause_replication ?e ''orders'' (snd (repl_resume_replication ?e ''orders'' repl_demo))))"
    by (simp add: repl_pause_replication_def repl_resume_replication_def repl_demo_state repl_slot_statement_def)
  have "0 < rpc_sync_interval_seconds repl_demo_config" by simp
  from repl_resume_unpauses [OF repl_demo_setup this resume pause] show ?thesis
    by (simp add: repl_init_def lk_none_def)
qed

theorem repl_unconnected_stays_active_witness:
  "\<exists>st. repl_get_replication_status ''orders''
     (fold (\<lambda>(x, i). repl_tick (\<lambda>_ _. '''') x i) [((9, Inl (exception ''down'')), 0)] repl_demo) = Some (repl_demo_config, st) \<and>
     rps_status st = RsActive"
proof -
  have "rpc_target_region repl_demo_config \<notin> set (rpm_connections (repl_init ''eu''))" by (simp add: repl_init_def)
  from repl_unconnected_stays_active [OF this repl_demo_setup, of "\<lambda>_ _. ''''" "[((9, Inl (exception ''down'')), 0)]"]
  show ?thesis by auto
qed

end
