(* ===== verification/Mirroring.thy ===== *)
theory Mirroring
  imports LinkTasks Json
begin

text \<open>
  \<^verbatim>\<open>libs/infrastructure/nats_mirroring.py\<close>: \<open>NATSMirroringManager\<close>. What NATS answers to connections, to adding and
  updating a stream and to the query for its state is a parameter. Operations and rounds of the tasks are
  atomic.
\<close>

datatype mir_status = MsActive | MsPaused | MsFailed | MsSyncing

fun mir_status_value :: "mir_status \<Rightarrow> string" where
  "mir_status_value MsActive = ''active''"
| "mir_status_value MsPaused = ''paused''"
| "mir_status_value MsFailed = ''failed''"
| "mir_status_value MsSyncing = ''syncing''"

datatype mir_direction = Bidirectional | Unidirectional

fun mir_direction_value :: "mir_direction \<Rightarrow> string" where
  "mir_direction_value Bidirectional = ''bidirectional''"
| "mir_direction_value Unidirectional = ''unidirectional''"

record mir_config =
  mrc_stream_name :: string
  mrc_source_region :: string
  mrc_target_region :: string
  mrc_direction :: mir_direction
  mrc_replication_factor :: int
  mrc_max_age_seconds :: int
  mrc_max_bytes :: int
  mrc_max_msgs :: int
  mrc_mirror_subject :: string
  mrc_filter_subjects :: "string list option"
  mrc_sync_interval_seconds :: int
  mrc_health_check_interval_seconds :: int

record mir_stats =
  mrs_stream_name :: string
  mrs_region :: string
  mrs_messages_replicated :: int
  mrs_bytes_replicated :: int
  mrs_replication_lag_ms :: rat
  mrs_last_message_time :: rat
  mrs_status :: mir_status
  mrs_error_count :: int
  mrs_last_error :: "string option"

record mir_stream_config =
  msc_name :: string
  msc_subjects :: "string list"
  msc_max_age :: int
  msc_max_bytes :: int
  msc_max_msgs :: int
  msc_replicas :: int
  msc_mirror_name :: string
  msc_mirror_api :: string

text \<open>JetStream: adding and updating a stream in a region, and its messages and bytes.\<close>

record jetstream_env =
  jse_add_stream :: "string \<Rightarrow> mir_stream_config \<Rightarrow> exn option"
  jse_update_stream :: "string \<Rightarrow> mir_stream_config \<Rightarrow> exn option"
  jse_stream_info :: "string \<Rightarrow> string \<Rightarrow> exn + int \<times> int"

record mir =
  mrm_region :: string
  mrm_contexts :: "string list"
  mrm_configs :: "(string, mir_config) dict"
  mrm_stats :: "(string, mir_stats) dict"
  mrm_tasks :: link_tasks

definition mir_init :: "string \<Rightarrow> mir" where
  "mir_init region =
     \<lparr>mrm_region = region, mrm_contexts = [], mrm_configs = [], mrm_stats = [], mrm_tasks = lk_none\<rparr>"

section \<open>Connections and set-up\<close>

fun mir_initialize_region_connections :: "(string \<Rightarrow> exn option) \<Rightarrow> string list \<Rightarrow> mir \<Rightarrow> exn option \<times> mir" where
  "mir_initialize_region_connections connect [] m = (None, m)"
| "mir_initialize_region_connections connect (r # rs) m =
     (if r = mrm_region m then mir_initialize_region_connections connect rs m
      else (case connect r of
              None \<Rightarrow> mir_initialize_region_connections connect rs (m\<lparr>mrm_contexts := List.insert r (mrm_contexts m)\<rparr>)
            | Some e \<Rightarrow> (Some e, m)))"

definition mir_stream_config_of :: "mir_config \<Rightarrow> string \<Rightarrow> mir_stream_config" where
  "mir_stream_config_of c source_region =
     \<lparr>msc_name = mrc_stream_name c, msc_subjects = [mrc_mirror_subject c], msc_max_age = mrc_max_age_seconds c,
      msc_max_bytes = mrc_max_bytes c, msc_max_msgs = mrc_max_msgs c, msc_replicas = mrc_replication_factor c,
      msc_mirror_name = mrc_stream_name c @ ''-'' @ source_region,
      msc_mirror_api = ''http://'' @ source_region @ ''-nats:8222''\<rparr>"

definition mir_setup_stream_mirror :: "jetstream_env \<Rightarrow> mir_config \<Rightarrow> string \<Rightarrow> string \<Rightarrow> mir \<Rightarrow> exn option" where
  "mir_setup_stream_mirror js c source_region target_region m =
     (let config = mir_stream_config_of c source_region
      in if target_region \<notin> set (mrm_contexts m) then None
         else (case jse_add_stream js target_region config of
                 None \<Rightarrow> None
               | Some e \<Rightarrow>
                   if str_contains ''already exists'' (message e) then jse_update_stream js target_region config else Some e))"

definition mir_setup_bidirectional :: "jetstream_env \<Rightarrow> mir_config \<Rightarrow> mir \<Rightarrow> exn option" where
  "mir_setup_bidirectional js c m =
     (case mir_setup_stream_mirror js c (mrc_source_region c) (mrc_target_region c) m of
        Some e \<Rightarrow> Some e
      | None \<Rightarrow> mir_setup_stream_mirror js c (mrc_target_region c) (mrc_source_region c) m)"

definition mir_setup_unidirectional :: "jetstream_env \<Rightarrow> mir_config \<Rightarrow> mir \<Rightarrow> exn option" where
  "mir_setup_unidirectional js c m = mir_setup_stream_mirror js c (mrc_source_region c) (mrc_target_region c) m"

definition mir_fresh_stats :: "rat \<Rightarrow> mir_config \<Rightarrow> mir \<Rightarrow> mir_stats" where
  "mir_fresh_stats now c m =
     \<lparr>mrs_stream_name = mrc_stream_name c, mrs_region = mrm_region m, mrs_messages_replicated = 0,
      mrs_bytes_replicated = 0, mrs_replication_lag_ms = 0, mrs_last_message_time = now, mrs_status = MsActive,
      mrs_error_count = 0, mrs_last_error = None\<rparr>"

definition mir_start_tasks :: "mir_config \<Rightarrow> string \<Rightarrow> link_tasks \<Rightarrow> link_tasks" where
  "mir_start_tasks c name T =
     (let T1 = lk_start_health name T in if 0 < mrc_sync_interval_seconds c then lk_start_sync name T1 else T1)"

definition mir_setup_mirroring :: "jetstream_env \<Rightarrow> rat \<Rightarrow> mir_config \<Rightarrow> mir \<Rightarrow> bool \<times> mir" where
  "mir_setup_mirroring js now c m =
     (let name = mrc_stream_name c; m1 = m\<lparr>mrm_configs := dset name c (mrm_configs m)\<rparr>
      in case (if mrc_direction c = Bidirectional then mir_setup_bidirectional js c m1 else mir_setup_unidirectional js c m1) of
           Some _ \<Rightarrow> (False, m1)
         | None \<Rightarrow>
             (True, m1\<lparr>mrm_stats := dset name (mir_fresh_stats now c m1) (mrm_stats m1),
                       mrm_tasks := mir_start_tasks c name (mrm_tasks m1)\<rparr>))"

section \<open>The rounds of the tasks\<close>

definition mir_target_regions :: "mir_config \<Rightarrow> string list" where
  "mir_target_regions c =
     mrc_target_region c # (if mrc_direction c = Bidirectional then [mrc_source_region c] else [])"

text \<open>The number of messages is compared after it was stored.\<close>

definition mir_check_region :: "rat \<Rightarrow> exn + int \<times> int \<Rightarrow> mir_stats \<Rightarrow> mir_stats" where
  "mir_check_region now answer st =
     (case answer of
        Inl e \<Rightarrow>
          st\<lparr>mrs_error_count := mrs_error_count st + 1, mrs_last_error := Some (message e), mrs_status := MsFailed\<rparr>
      | Inr (messages, bytes) \<Rightarrow>
          (let st1 = st\<lparr>mrs_messages_replicated := messages, mrs_bytes_replicated := bytes, mrs_last_message_time := now\<rparr>
           in if messages = 0 \<and> 0 < mrs_messages_replicated st1
              then st1\<lparr>mrs_error_count := mrs_error_count st1 + 1, mrs_last_error := Some ''No messages replicated'',
                       mrs_status := MsFailed\<rparr>
              else st1\<lparr>mrs_status := MsActive\<rparr>))"

definition mir_check_regions :: "jetstream_env \<Rightarrow> rat \<Rightarrow> string \<Rightarrow> mir_config \<Rightarrow> mir \<Rightarrow> mir_stats \<Rightarrow> mir_stats" where
  "mir_check_regions js now name c m =
     fold (\<lambda>region st. if region \<notin> set (mrm_contexts m) then st
                       else mir_check_region now (jse_stream_info js region name) st) (mir_target_regions c)"

definition mir_perform_health_check :: "jetstream_env \<Rightarrow> rat \<Rightarrow> string \<Rightarrow> mir \<Rightarrow> mir" where
  "mir_perform_health_check js now name m =
     (case (dget (mrm_configs m) name, dget (mrm_stats m) name) of
        (Some c, Some st) \<Rightarrow> m\<lparr>mrm_stats := dset name (mir_check_regions js now name c m st) (mrm_stats m)\<rparr>
      | _ \<Rightarrow> m)"

definition mir_perform_sync :: "string \<Rightarrow> mir \<Rightarrow> mir" where
  "mir_perform_sync name m =
     (case (dget (mrm_configs m) name, dget (mrm_stats m) name) of
        (Some _, Some st) \<Rightarrow> m\<lparr>mrm_stats := dset name (st\<lparr>mrs_status := MsActive\<rparr>) (mrm_stats m)\<rparr>
      | (None, Some st) \<Rightarrow>
          m\<lparr>mrm_stats := dset name (st\<lparr>mrs_status := MsFailed, mrs_error_count := mrs_error_count st + 1,
                                      mrs_last_error := Some (message (key_error name))\<rparr>) (mrm_stats m)\<rparr>
      | (_, None) \<Rightarrow> m)"

section \<open>Pausing and resuming\<close>

definition mir_set_status :: "string \<Rightarrow> mir_status \<Rightarrow> (string, mir_stats) dict \<Rightarrow> (string, mir_stats) dict" where
  "mir_set_status name status d =
     (case dget d name of None \<Rightarrow> d | Some st \<Rightarrow> dset name (st\<lparr>mrs_status := status\<rparr>) d)"

definition mir_pause_mirroring :: "string \<Rightarrow> mir \<Rightarrow> bool \<times> mir" where
  "mir_pause_mirroring name m =
     (if dget (mrm_configs m) name = None then (False, m)
      else (True, m\<lparr>mrm_tasks := lk_stop name (mrm_tasks m), mrm_stats := mir_set_status name MsPaused (mrm_stats m)\<rparr>))"

definition mir_resume_mirroring :: "string \<Rightarrow> mir \<Rightarrow> bool \<times> mir" where
  "mir_resume_mirroring name m =
     (case dget (mrm_configs m) name of
        None \<Rightarrow> (False, m)
      | Some c \<Rightarrow>
          (True, m\<lparr>mrm_tasks := mir_start_tasks c name (mrm_tasks m),
                   mrm_stats := mir_set_status name MsActive (mrm_stats m)\<rparr>))"

section \<open>Reports\<close>

definition mir_get_mirroring_status :: "string \<Rightarrow> mir \<Rightarrow> (mir_config \<times> mir_stats) option" where
  "mir_get_mirroring_status name m =
     (case (dget (mrm_configs m) name, dget (mrm_stats m) name) of
        (Some c, Some st) \<Rightarrow> Some (c, st)
      | _ \<Rightarrow> None)"

record mir_report =
  mrr_region :: string
  mrr_total_streams :: nat
  mrr_active_streams :: nat
  mrr_paused_streams :: nat
  mrr_failed_streams :: nat
  mrr_streams :: "(string, mir_config \<times> mir_stats) dict"

definition mir_get_all_mirroring_status :: "mir \<Rightarrow> mir_report" where
  "mir_get_all_mirroring_status m =
     (let data = List.map_filter (\<lambda>(name, _). map_option (Pair name) (mir_get_mirroring_status name m)) (mrm_configs m);
          having = (\<lambda>s. length (filter (\<lambda>(_, _, st). mrs_status st = s) data))
      in \<lparr>mrr_region = mrm_region m, mrr_total_streams = length data, mrr_active_streams = having MsActive,
          mrr_paused_streams = having MsPaused, mrr_failed_streams = having MsFailed, mrr_streams = data\<rparr>)"

definition mir_cleanup :: "mir \<Rightarrow> mir" where
  "mir_cleanup m = m\<lparr>mrm_tasks := lk_cancel_all (mrm_tasks m)\<rparr>"

section \<open>The manager as a link manager\<close>

text \<open>One round of a task: the time and what NATS answers.\<close>

definition mir_tick :: "rat \<times> jetstream_env \<Rightarrow> nat \<Rightarrow> mir \<Rightarrow> mir" where
  "mir_tick x i m =
     (if lk_runs (mrm_tasks m) i
      then (let task = lk_tasks (mrm_tasks m) ! i
            in case lkt_kind task of
                 HealthTask \<Rightarrow> mir_perform_health_check (snd x) (fst x) (lkt_name task) m
               | SyncTask \<Rightarrow> mir_perform_sync (lkt_name task) m)
      else m)"

definition mir_status_of :: "mir \<Rightarrow> string \<Rightarrow> mir_status option" where
  "mir_status_of m name = map_option mrs_status (dget (mrm_stats m) name)"

definition mir_known :: "mir \<Rightarrow> string \<Rightarrow> bool" where
  "mir_known m name \<longleftrightarrow> dget (mrm_configs m) name \<noteq> None \<and> dget (mrm_stats m) name \<noteq> None"

lemma mir_tick_simps:
  "mrm_tasks (mir_tick x i m) = mrm_tasks m"
  "\<not> lk_for (mrm_tasks m) i name \<Longrightarrow> dget (mrm_stats (mir_tick x i m)) name = dget (mrm_stats m) name"
  by (auto simp: mir_tick_def mir_perform_health_check_def mir_perform_sync_def lk_for_def Let_def dget_dset
      split: link_kind.splits option.splits)

interpretation mir: link_manager mrm_tasks mir_status_of mir_known MsActive MsPaused mir_pause_mirroring mir_tick
proof (unfold_locales, goal_cases)
  case (1 name m m')
  then show ?case by (auto simp: mir_pause_mirroring_def split: if_splits)
next
  case (2 name m m')
  then show ?case
    by (auto simp: mir_pause_mirroring_def mir_status_of_def mir_known_def mir_set_status_def dget_dset split: if_splits option.splits)
next
  case (3 x i m)
  then show ?case by (rule mir_tick_simps)
next
  case (4 m i name x)
  then show ?case by (simp add: mir_status_of_def mir_tick_simps)
next
  case (5 m i name x)
  then show ?case
    by (auto simp: mir_tick_def mir_perform_sync_def lk_for_def Let_def mir_status_of_def mir_known_def dget_dset)
qed

section \<open>Properties\<close>

text \<open>
  A paused mirror stays paused, whatever rounds of whatever tasks follow, as long as the manager
  finds every running task of the stream.
\<close>

theorem mir_paused_stays:
  assumes "lk_owned (mrm_tasks m) name" and "mir_pause_mirroring name m = (True, m')" and "mir_known m name"
  shows "mir_status_of (fold (\<lambda>(x, i). mir_tick x i) rounds m') name = Some MsPaused"
  using assms by (rule mir.paused_stays)

lemma fold_connected:
  "fold (\<lambda>r st. if r \<notin> A then st else f r st) xs st = fold f (filter (\<lambda>r. r \<in> A) xs) st"
  by (induction xs arbitrary: st) simp_all

text \<open>The comparison of a health check compares a number with itself: only an answer that raises is a failure.\<close>

lemma mir_check_region_status:
  "mrs_status (mir_check_region now answer st) = (case answer of Inl _ \<Rightarrow> MsFailed | Inr _ \<Rightarrow> MsActive)"
  by (auto simp: mir_check_region_def Let_def split: sum.split)

text \<open>
  What a health check reports. The answer for the last region that is connected decides: a check reports a
  failure exactly if the query for that region raises, whatever the other region answers and however few messages were
  replicated.
\<close>

theorem mir_health_last_region_decides:
  assumes c: "dget (mrm_configs m) name = Some c" and st: "dget (mrm_stats m) name \<noteq> None"
    and connected: "filter (\<lambda>r. r \<in> set (mrm_contexts m)) (mir_target_regions c) = rs @ [r]"
  shows "mir_status_of (mir_perform_health_check js now name m) name =
    Some (case jse_stream_info js r name of Inl _ \<Rightarrow> MsFailed | Inr _ \<Rightarrow> MsActive)"
proof -
  let ?check = "\<lambda>region st. mir_check_region now (jse_stream_info js region name) st"
  have "mir_check_regions js now name c m st = fold ?check (filter (\<lambda>r. r \<in> set (mrm_contexts m)) (mir_target_regions c)) st" for st
    unfolding mir_check_regions_def by (rule fold_connected)
  then have "mrs_status (mir_check_regions js now name c m st) = (case jse_stream_info js r name of Inl _ \<Rightarrow> MsFailed | Inr _ \<Rightarrow> MsActive)" for st
    by (simp add: connected mir_check_region_status)
  then show ?thesis using c st by (auto simp: mir_perform_health_check_def mir_status_of_def dget_dset)
qed

section \<open>Examples\<close>

definition mir_demo_config :: mir_config where
  "mir_demo_config =
     \<lparr>mrc_stream_name = ''orders'', mrc_source_region = ''eu'', mrc_target_region = ''us'', mrc_direction = Bidirectional,
      mrc_replication_factor = 3, mrc_max_age_seconds = 86400, mrc_max_bytes = 1024, mrc_max_msgs = 100,
      mrc_mirror_subject = ''mirror.*'', mrc_filter_subjects = None, mrc_sync_interval_seconds = 60,
      mrc_health_check_interval_seconds = 30\<rparr>"

lemma mir_demo_simps [simp]:
  "mrc_stream_name mir_demo_config = ''orders''" "mir_target_regions mir_demo_config = [''us'', ''eu'']"
  "mrc_direction mir_demo_config = Bidirectional" "mrc_source_region mir_demo_config = ''eu''"
  "mrc_target_region mir_demo_config = ''us''"
  by (simp_all add: mir_demo_config_def mir_target_regions_def)

text \<open>JetStream when the region \<open>us\<close> is down.\<close>

definition jetstream_demo :: jetstream_env where
  "jetstream_demo =
     \<lparr>jse_add_stream = (\<lambda>_ _. None), jse_update_stream = (\<lambda>_ _. None),
      jse_stream_info = (\<lambda>r _. if r = ''us'' then Inl (exception ''down'') else Inr (0, 0))\<rparr>"

definition mir_demo :: mir where
  "mir_demo =
     snd (mir_setup_mirroring jetstream_demo 0 mir_demo_config ((mir_init ''ap'')\<lparr>mrm_contexts := [''us'', ''eu'']\<rparr>))"

lemma mir_demo_state:
  "dget (mrm_configs mir_demo) ''orders'' = Some mir_demo_config" "dget (mrm_stats mir_demo) ''orders'' \<noteq> None"
  "mrm_contexts mir_demo = [''us'', ''eu'']" "mrm_tasks mir_demo = mir_start_tasks mir_demo_config ''orders'' lk_none"
  by (simp_all add: mir_demo_def mir_setup_mirroring_def mir_setup_bidirectional_def mir_setup_stream_mirror_def
      jetstream_demo_def mir_init_def Let_def)

theorem mir_paused_stays_witness:
  "mir_status_of (fold (\<lambda>(x, i). mir_tick x i) [((9, jetstream_demo), 1), ((9, jetstream_demo), 0)]
     (snd (mir_pause_mirroring ''orders'' mir_demo))) ''orders'' = Some MsPaused"
proof (rule mir_paused_stays)
  show "lk_owned (mrm_tasks mir_demo) ''orders''"
    by (auto simp: mir_demo_state lk_owned_def mir_start_tasks_def start_for Let_def lk_none_def lk_for_def lk_runs_def
        lk_start_health_def lk_start_sync_def lk_spawn_def less_Suc_eq)
  show "mir_pause_mirroring ''orders'' mir_demo = (True, snd (mir_pause_mirroring ''orders'' mir_demo))"
    by (simp add: mir_pause_mirroring_def mir_demo_state)
  show "mir_known mir_demo ''orders''" using mir_demo_state by (simp add: mir_known_def)
qed

theorem mir_health_last_region_decides_witness:
  "mir_status_of (mir_perform_health_check jetstream_demo 9 ''orders'' mir_demo) ''orders'' = Some MsActive"
proof -
  have "filter (\<lambda>r. r \<in> set (mrm_contexts mir_demo)) (mir_target_regions mir_demo_config) = [''us''] @ [''eu'']"
    by (simp add: mir_demo_state)
  from mir_health_last_region_decides [OF mir_demo_state(1,2) this, of jetstream_demo 9] show ?thesis
    by (simp add: jetstream_demo_def)
qed

end
