(* ===== verification/Regex.thy ===== *)
theory Regex
  imports Json
begin

text \<open>
  What the code uses of Python's module \<open>re\<close>: a backtracking matcher whose results are in the order in which
  Python tries them, with \<open>search\<close>, \<open>match\<close> and \<open>finditer\<close>. Groups are not remembered, since only whole matches are used.
  A repeated expression must match some text in each round, and no pattern of the code matches the empty text. Characters
  are the first 256 code points.
\<close>

section \<open>Positions and classes of characters\<close>

text \<open>A position in a text: the character before it and what follows.\<close>

type_synonym rx_pos = "char option \<times> string"

datatype rx =
    RxSet "char \<Rightarrow> bool"
  | RxSeq rx rx
  | RxAlt rx rx
  | RxRep nat "nat option" rx
  | RxLazy rx
  | RxBoundary
  | RxStart
  | RxEnd
  | RxEmpty

definition rx_range :: "int \<Rightarrow> int \<Rightarrow> char \<Rightarrow> bool" where
  "rx_range a b c \<longleftrightarrow> a \<le> of_char c \<and> of_char c \<le> b"

definition rx_digit :: "char \<Rightarrow> bool" where
  "rx_digit = rx_range 48 57"

definition rx_upper :: "char \<Rightarrow> bool" where
  "rx_upper = rx_range 65 90"

definition rx_lower :: "char \<Rightarrow> bool" where
  "rx_lower = rx_range 97 122"

text \<open>\<open>\\w\<close>: letters, numbers and the underscore.\<close>

definition rx_word :: "char \<Rightarrow> bool" where
  "rx_word c \<longleftrightarrow> rx_digit c \<or> rx_upper c \<or> rx_lower c \<or> c = CHR ''_'' \<or>
     rx_range 170 255 c \<and> (of_char c :: int) \<notin> {171, 172, 173, 174, 175, 176, 177, 180, 182, 183, 184, 187, 191, 215, 247}"

definition rx_hex :: "char \<Rightarrow> bool" where
  "rx_hex c \<longleftrightarrow> rx_digit c \<or> rx_range 65 70 c \<or> rx_range 97 102 c"

definition one_of :: "string \<Rightarrow> char \<Rightarrow> bool" where
  "one_of cs c \<longleftrightarrow> c \<in> set cs"

text \<open>With \<open>re.IGNORECASE\<close> a character stands for both its cases.\<close>

definition lower_char :: "char \<Rightarrow> char" where
  "lower_char c = (if rx_upper c then char_of ((of_char c :: nat) + 32) else c)"

definition upper_char :: "char \<Rightarrow> char" where
  "upper_char c = (if rx_lower c then char_of ((of_char c :: nat) - 32) else c)"

definition rx_nocase :: "(char \<Rightarrow> bool) \<Rightarrow> char \<Rightarrow> bool" where
  "rx_nocase P c \<longleftrightarrow> P c \<or> P (lower_char c) \<or> P (upper_char c)"

fun rx_lit :: "string \<Rightarrow> rx" where
  "rx_lit [] = RxEmpty"
| "rx_lit (c # cs) = RxSeq (RxSet (\<lambda>x. x = c)) (rx_lit cs)"

fun rx_lit_nocase :: "string \<Rightarrow> rx" where
  "rx_lit_nocase [] = RxEmpty"
| "rx_lit_nocase (c # cs) = RxSeq (RxSet (rx_nocase (\<lambda>x. x = c))) (rx_lit_nocase cs)"

fun rx_seqs :: "rx list \<Rightarrow> rx" where
  "rx_seqs [] = RxEmpty"
| "rx_seqs [r] = r"
| "rx_seqs (r # rs) = RxSeq r (rx_seqs rs)"

fun rx_alts :: "rx list \<Rightarrow> rx" where
  "rx_alts [] = RxSet (\<lambda>_. False)"
| "rx_alts [r] = r"
| "rx_alts (r # rs) = RxAlt r (rx_alts rs)"

definition rx_opt :: "rx \<Rightarrow> rx" where
  "rx_opt r = RxRep 0 (Some 1) r"

definition rx_star :: "rx \<Rightarrow> rx" where
  "rx_star r = RxRep 0 None r"

definition rx_plus :: "rx \<Rightarrow> rx" where
  "rx_plus r = RxRep 1 None r"

definition rx_times :: "nat \<Rightarrow> rx \<Rightarrow> rx" where
  "rx_times n r = RxRep n (Some n) r"

section \<open>The matcher\<close>

definition word_before :: "rx_pos \<Rightarrow> bool" where
  "word_before p \<longleftrightarrow> (case fst p of None \<Rightarrow> False | Some c \<Rightarrow> rx_word c)"

definition word_after :: "rx_pos \<Rightarrow> bool" where
  "word_after p \<longleftrightarrow> (case snd p of [] \<Rightarrow> False | c # _ \<Rightarrow> rx_word c)"

text \<open>Rounds of a repetition, the longest first, between \<open>lo\<close> and \<open>hi\<close> of them.\<close>

function rx_rounds :: "(rx_pos \<Rightarrow> rx_pos list) \<Rightarrow> nat \<Rightarrow> nat option \<Rightarrow> rx_pos \<Rightarrow> rx_pos list" where
  "rx_rounds f lo hi p =
     (if hi = Some 0 then [p]
      else concat (map (\<lambda>q. if length (snd q) < length (snd p)
                             then rx_rounds f (lo - 1) (map_option (\<lambda>n. n - 1) hi) q else []) (f p)) @
           (if lo = 0 then [p] else []))"
  by pat_completeness auto
termination by (relation "measure (\<lambda>(_, _, _, p). length (snd p))") simp_all

function rx_lazy_rounds :: "(rx_pos \<Rightarrow> rx_pos list) \<Rightarrow> rx_pos \<Rightarrow> rx_pos list" where
  "rx_lazy_rounds f p =
     p # concat (map (\<lambda>q. if length (snd q) < length (snd p) then rx_lazy_rounds f q else []) (f p))"
  by pat_completeness auto
termination by (relation "measure (\<lambda>(_, p). length (snd p))") simp_all

declare rx_rounds.simps [simp del] rx_lazy_rounds.simps [simp del]

definition rx_char :: "(char \<Rightarrow> bool) \<Rightarrow> rx_pos \<Rightarrow> rx_pos list" where
  "rx_char P p = (case snd p of [] \<Rightarrow> [] | c # cs \<Rightarrow> if P c then [(Some c, cs)] else [])"

text \<open>The positions at which a match that starts at a position may end, in the order in which they are tried.\<close>

primrec rx_ends :: "rx \<Rightarrow> rx_pos \<Rightarrow> rx_pos list" where
  "rx_ends (RxSet P) = rx_char P"
| "rx_ends (RxSeq r s) = (\<lambda>p. concat (map (rx_ends s) (rx_ends r p)))"
| "rx_ends (RxAlt r s) = (\<lambda>p. rx_ends r p @ rx_ends s p)"
| "rx_ends (RxRep lo hi r) = rx_rounds (rx_ends r) lo hi"
| "rx_ends (RxLazy r) = rx_lazy_rounds (rx_ends r)"
| "rx_ends RxBoundary = (\<lambda>p. if word_before p \<noteq> word_after p then [p] else [])"
| "rx_ends RxStart = (\<lambda>p. if fst p = None then [p] else [])"
| "rx_ends RxEnd = (\<lambda>p. if snd p = [] \<or> snd p = [CHR 0x0A] then [p] else [])"
| "rx_ends RxEmpty = (\<lambda>p. [p])"

text \<open>\<open>re.match\<close> and \<open>re.search\<close> as tests.\<close>

definition rx_match :: "rx \<Rightarrow> string \<Rightarrow> bool" where
  "rx_match r s \<longleftrightarrow> rx_ends r (None, s) \<noteq> []"

fun rx_search_from :: "rx \<Rightarrow> char option \<Rightarrow> string \<Rightarrow> bool" where
  "rx_search_from r prev s \<longleftrightarrow>
     rx_ends r (prev, s) \<noteq> [] \<or> (case s of [] \<Rightarrow> False | c # cs \<Rightarrow> rx_search_from r (Some c) cs)"

declare rx_search_from.simps [simp del]

definition rx_search :: "rx \<Rightarrow> string \<Rightarrow> bool" where
  "rx_search r s \<longleftrightarrow> rx_search_from r None s"

text \<open>\<open>finditer\<close>: start and end of each match; the search goes on where a match has ended.\<close>

function rx_finditer_from :: "rx \<Rightarrow> nat \<Rightarrow> rx_pos \<Rightarrow> (nat \<times> nat) list" where
  "rx_finditer_from r n p =
     (case rx_ends r p of
        q # _ \<Rightarrow>
          if length (snd q) < length (snd p)
          then (let m = n + (length (snd p) - length (snd q)) in (n, m) # rx_finditer_from r m q)
          else []
      | [] \<Rightarrow> (case snd p of [] \<Rightarrow> [] | c # cs \<Rightarrow> rx_finditer_from r (Suc n) (Some c, cs)))"
  by pat_completeness auto
termination by (relation "measure (\<lambda>(_, _, p). length (snd p))") auto

declare rx_finditer_from.simps [simp del]

definition rx_finditer :: "rx \<Rightarrow> string \<Rightarrow> (nat \<times> nat) list" where
  "rx_finditer r s = rx_finditer_from r 0 (None, s)"

section \<open>What the matcher does\<close>

text \<open>A match moves forward over a piece of the text.\<close>

definition rx_over :: "rx_pos \<Rightarrow> string \<Rightarrow> rx_pos \<Rightarrow> bool" where
  "rx_over p w q \<longleftrightarrow> snd p = w @ snd q \<and> fst q = (if w = [] then fst p else Some (last w))"

lemma rx_over_Nil: "rx_over p [] p"
  by (simp add: rx_over_def)

lemma rx_over_append: "rx_over p v q \<Longrightarrow> rx_over q w r \<Longrightarrow> rx_over p (v @ w) r"
  by (auto simp: rx_over_def)

lemma rx_rounds_over:
  assumes f: "\<And>p q. q \<in> set (f p) \<Longrightarrow> \<exists>w. rx_over p w q"
  shows "q \<in> set (rx_rounds f lo hi p) \<Longrightarrow> \<exists>w. rx_over p w q"
proof (induction p arbitrary: lo hi q rule: measure_induct_rule [of "\<lambda>p. length (snd p)"])
  case (less p)
  show ?case
  proof (cases "q = p")
    case False
    with less.prems obtain r lo' hi' where r: "r \<in> set (f p)" "length (snd r) < length (snd p)" "q \<in> set (rx_rounds f lo' hi' r)"
      unfolding rx_rounds.simps [of f lo hi p] by (auto split: if_splits)
    from less.IH [OF r(2,3)] f [OF r(1)] show ?thesis using rx_over_append by blast
  qed (use rx_over_Nil in blast)
qed

lemma rx_lazy_rounds_over:
  assumes f: "\<And>p q. q \<in> set (f p) \<Longrightarrow> \<exists>w. rx_over p w q"
  shows "q \<in> set (rx_lazy_rounds f p) \<Longrightarrow> \<exists>w. rx_over p w q"
proof (induction p arbitrary: q rule: measure_induct_rule [of "\<lambda>p. length (snd p)"])
  case (less p)
  show ?case
  proof (cases "q = p")
    case False
    with less.prems obtain r where r: "r \<in> set (f p)" "length (snd r) < length (snd p)" "q \<in> set (rx_lazy_rounds f r)"
      unfolding rx_lazy_rounds.simps [of f p] by (auto split: if_splits)
    from less.IH [OF r(2,3)] f [OF r(1)] show ?thesis using rx_over_append by blast
  qed (use rx_over_Nil in blast)
qed

lemma rx_ends_over: "q \<in> set (rx_ends r p) \<Longrightarrow> \<exists>w. rx_over p w q"
proof (induction r arbitrary: p q)
  case (RxSet P)
  then show ?case
  proof (cases "snd p")
    case (Cons c cs)
    then have "rx_over p [c] q" using RxSet by (simp add: rx_char_def rx_over_def split: if_splits)
    then show ?thesis by blast
  qed (simp add: rx_char_def)
next
  case (RxSeq r s)
  then obtain m where "m \<in> set (rx_ends r p)" "q \<in> set (rx_ends s m)" by auto
  with RxSeq.IH show ?case using rx_over_append by blast
next
  case (RxRep lo hi r)
  then show ?case using rx_rounds_over [of "rx_ends r"] by simp
next
  case (RxLazy r)
  then show ?case using rx_lazy_rounds_over [of "rx_ends r"] by simp
qed (use rx_over_Nil in \<open>auto split: if_splits\<close>)

lemma rx_ends_length: "q \<in> set (rx_ends r p) \<Longrightarrow> length (snd q) \<le> length (snd p)"
  using rx_ends_over [of q r p] by (auto simp: rx_over_def)

text \<open>The place in a text after its first \<open>n\<close> characters.\<close>

definition rx_at :: "string \<Rightarrow> nat \<Rightarrow> rx_pos" where
  "rx_at s n = (if n = 0 then None else Some (s ! (n - 1)), drop n s)"

lemma rx_at_0: "rx_at s 0 = (None, s)"
  by (simp add: rx_at_def)

lemma rx_at_Suc: "n < length s \<Longrightarrow> rx_at s (Suc n) = (Some (s ! n), drop (Suc n) s)"
  by (simp add: rx_at_def)

lemma rx_over_at:
  assumes "rx_over (rx_at s n) w q" and "n \<le> length s"
  shows "q = rx_at s (n + length w)" and "n + length w \<le> length s" and "take (length w) (drop n s) = w"
proof -
  have d: "drop n s = w @ snd q" using assms by (simp add: rx_over_def rx_at_def)
  then have len: "length s - n = length w + length (snd q)" by (metis length_append length_drop)
  then show "n + length w \<le> length s" using assms(2) by simp
  show "take (length w) (drop n s) = w" by (simp add: d)
  have snd: "snd q = drop (n + length w) s" by (metis d append_eq_conv_conj drop_drop add.commute)
  have last: "w \<noteq> [] \<Longrightarrow> last w = s ! (n + length w - 1)"
  proof -
    assume "w \<noteq> []"
    then have "last w = drop n s ! (length w - 1)" by (simp add: d last_conv_nth nth_append)
    also have "\<dots> = s ! (n + (length w - 1))" using assms(2) by simp
    finally show ?thesis using \<open>w \<noteq> []\<close> by (simp add: Suc_leI)
  qed
  have "fst q = fst (rx_at s (n + length w))"
  proof (cases "w = []")
    case False
    have "fst q = Some (last w)" using assms(1) False by (simp add: rx_over_def)
    then show ?thesis using last [OF False] False by (simp add: rx_at_def)
  qed (use assms(1) in \<open>simp add: rx_over_def\<close>)
  moreover have "snd q = snd (rx_at s (n + length w))" by (simp add: snd rx_at_def)
  ultimately show "q = rx_at s (n + length w)" by (rule prod_eqI)
qed

text \<open>A search succeeds exactly if there is a match somewhere.\<close>

lemma rx_search_from_at:
  "n \<le> length s \<Longrightarrow> rx_search_from r (fst (rx_at s n)) (drop n s) \<longleftrightarrow> (\<exists>m. n \<le> m \<and> m \<le> length s \<and> rx_ends r (rx_at s m) \<noteq> [])"
proof (induction "length s - n" arbitrary: n)
  case 0
  then have "n = length s" by simp
  then have "rx_search_from r (fst (rx_at s n)) (drop n s) \<longleftrightarrow> rx_ends r (rx_at s n) \<noteq> []"
    by (subst rx_search_from.simps) (simp add: rx_at_def)
  then show ?case using \<open>n = length s\<close> le_antisym by blast
next
  case (Suc k)
  then have n: "n < length s" by simp
  have "drop n s = s ! n # drop (Suc n) s" using n by (simp add: Cons_nth_drop_Suc)
  then have "rx_search_from r (fst (rx_at s n)) (drop n s) \<longleftrightarrow>
      rx_ends r (rx_at s n) \<noteq> [] \<or> rx_search_from r (fst (rx_at s (Suc n))) (drop (Suc n) s)"
    by (subst rx_search_from.simps) (simp add: rx_at_def)
  moreover have "k = length s - Suc n" "Suc n \<le> length s" using Suc.hyps(2) n by simp_all
  note Suc.hyps(1) [OF this]
  moreover have "n \<le> m \<longleftrightarrow> m = n \<or> Suc n \<le> m" for m by auto
  ultimately show ?case using n by auto
qed

lemma rx_search_iff: "rx_search r s \<longleftrightarrow> (\<exists>n \<le> length s. rx_ends r (rx_at s n) \<noteq> [])"
  using rx_search_from_at [of 0 s r] by (simp add: rx_search_def rx_at_0)

text \<open>The matches that \<open>finditer\<close> gives are matches, in order and apart from each other.\<close>

fun rx_spans :: "nat \<Rightarrow> nat \<Rightarrow> (nat \<times> nat) list \<Rightarrow> bool" where
  "rx_spans lo hi [] \<longleftrightarrow> True"
| "rx_spans lo hi ((a, b) # xs) \<longleftrightarrow> lo \<le> a \<and> a < b \<and> b \<le> hi \<and> rx_spans b hi xs"

lemma rx_spans_mono: "rx_spans m hi xs \<Longrightarrow> lo \<le> m \<Longrightarrow> rx_spans lo hi xs"
  by (cases xs) auto

lemma rx_spans_mem: "rx_spans lo hi xs \<Longrightarrow> (a, b) \<in> set xs \<Longrightarrow> lo \<le> a \<and> a < b \<and> b \<le> hi"
  by (induction lo hi xs rule: rx_spans.induct) (auto dest: rx_spans_mono)

lemma rx_finditer_from_spans:
  "n \<le> length s \<Longrightarrow> rx_spans n (length s) (rx_finditer_from r n (rx_at s n)) \<and>
     (\<forall>(a, b) \<in> set (rx_finditer_from r n (rx_at s n)). rx_at s b \<in> set (rx_ends r (rx_at s a)))"
proof (induction "length s - n" arbitrary: n rule: less_induct)
  case less
  show ?case
  proof (cases "rx_ends r (rx_at s n)")
    case Nil
    show ?thesis
    proof (cases "n = length s")
      case True
      then show ?thesis using Nil by (subst (1 2) rx_finditer_from.simps) (simp add: rx_at_def)
    next
      case False
      then have n: "n < length s" using less.prems by simp
      have "rx_finditer_from r n (rx_at s n) = rx_finditer_from r (Suc n) (rx_at s (Suc n))"
        using Nil n by (subst rx_finditer_from.simps) (simp add: rx_at_def Cons_nth_drop_Suc [symmetric])
      moreover have "length s - Suc n < length s - n" "Suc n \<le> length s" using n by simp_all
      note less.hyps [OF this]
      ultimately show ?thesis by (auto intro: rx_spans_mono)
    qed
  next
    case (Cons q qs)
    then have "q \<in> set (rx_ends r (rx_at s n))" by simp
    from rx_ends_over [OF this] obtain w where w: "rx_over (rx_at s n) w q" by blast
    note at = rx_over_at [OF w less.prems]
    show ?thesis
    proof (cases "w = []")
      case True
      then have "q = rx_at s n" using at(1) by simp
      then show ?thesis using Cons by (subst (1 2) rx_finditer_from.simps) simp
    next
      case False
      have len: "length (snd (rx_at s n)) - length (snd q) = length w" "length (snd q) < length (snd (rx_at s n))"
        using w False by (simp_all add: rx_over_def)
      have eq: "rx_finditer_from r n (rx_at s n) = (n, n + length w) # rx_finditer_from r (n + length w) (rx_at s (n + length w))"
        using Cons len at(1) by (subst rx_finditer_from.simps) (simp add: Let_def)
      have "length s - (n + length w) < length s - n" using at(2) False by (cases w) simp_all
      from less.hyps [OF this at(2)] show ?thesis
        using at(1,2) False Cons by (auto simp: eq)
    qed
  qed
qed

lemma rx_finditer_spans: "rx_spans 0 (length s) (rx_finditer r s)"
  and rx_finditer_match: "(a, b) \<in> set (rx_finditer r s) \<Longrightarrow> rx_at s b \<in> set (rx_ends r (rx_at s a))"
  using rx_finditer_from_spans [of 0 s r] by (auto simp: rx_finditer_def rx_at_0)

text \<open>It gives some match if there is any, for expressions that do not match the empty text.\<close>

definition rx_proper :: "rx \<Rightarrow> bool" where
  "rx_proper r \<longleftrightarrow> (\<forall>p. p \<notin> set (rx_ends r p))"

lemma rx_finditer_none:
  assumes "rx_proper r"
  shows "n \<le> length s \<Longrightarrow> rx_finditer_from r n (rx_at s n) = [] \<longleftrightarrow> (\<forall>m. n \<le> m \<and> m \<le> length s \<longrightarrow> rx_ends r (rx_at s m) = [])"
proof (induction "length s - n" arbitrary: n rule: less_induct)
  case less
  show ?case
  proof (cases "rx_ends r (rx_at s n)")
    case Nil
    show ?thesis
    proof (cases "n = length s")
      case True
      then show ?thesis using Nil by (subst rx_finditer_from.simps) (auto simp: rx_at_def)
    next
      case False
      then have n: "n < length s" using less.prems by simp
      have "rx_finditer_from r n (rx_at s n) = rx_finditer_from r (Suc n) (rx_at s (Suc n))"
        using Nil n by (subst rx_finditer_from.simps) (simp add: rx_at_def Cons_nth_drop_Suc [symmetric])
      moreover have "length s - Suc n < length s - n" "Suc n \<le> length s" using n by simp_all
      note less.hyps [OF this]
      ultimately show ?thesis using Nil by (auto simp: Suc_le_eq) (metis le_neq_implies_less)
    qed
  next
    case (Cons q qs)
    then have q: "q \<in> set (rx_ends r (rx_at s n))" by simp
    from rx_ends_over [OF this] obtain w where w: "rx_over (rx_at s n) w q" by blast
    have "w \<noteq> []" using rx_over_at(1) [OF w less.prems] q assms unfolding rx_proper_def by (metis add.right_neutral list.size(3))
    then have "length (snd q) < length (snd (rx_at s n))" using w by (simp add: rx_over_def)
    then show ?thesis using Cons less.prems by (subst rx_finditer_from.simps) (auto simp: Let_def)
  qed
qed

lemma rx_finditer_search: "rx_proper r \<Longrightarrow> rx_finditer r s \<noteq> [] \<longleftrightarrow> rx_search r s"
  using rx_finditer_none [of r 0 s] by (auto simp: rx_finditer_def rx_at_0 rx_search_iff)

text \<open>A lower bound on the length of a match that can be read off an expression.\<close>

primrec rx_min :: "rx \<Rightarrow> nat" where
  "rx_min (RxSet P) = 1"
| "rx_min (RxSeq r s) = rx_min r + rx_min s"
| "rx_min (RxAlt r s) = min (rx_min r) (rx_min s)"
| "rx_min (RxRep lo hi r) = (if hi = Some 0 then 0 else lo * rx_min r)"
| "rx_min (RxLazy r) = 0"
| "rx_min RxBoundary = 0"
| "rx_min RxStart = 0"
| "rx_min RxEnd = 0"
| "rx_min RxEmpty = 0"

text \<open>The numbers of rounds that are asked for are possible.\<close>

primrec rx_wf :: "rx \<Rightarrow> bool" where
  "rx_wf (RxSet P) \<longleftrightarrow> True"
| "rx_wf (RxSeq r s) \<longleftrightarrow> rx_wf r \<and> rx_wf s"
| "rx_wf (RxAlt r s) \<longleftrightarrow> rx_wf r \<and> rx_wf s"
| "rx_wf (RxRep lo hi r) \<longleftrightarrow> rx_wf r \<and> (case hi of None \<Rightarrow> True | Some n \<Rightarrow> lo \<le> n)"
| "rx_wf (RxLazy r) \<longleftrightarrow> rx_wf r"
| "rx_wf RxBoundary \<longleftrightarrow> True"
| "rx_wf RxStart \<longleftrightarrow> True"
| "rx_wf RxEnd \<longleftrightarrow> True"
| "rx_wf RxEmpty \<longleftrightarrow> True"

lemma rx_rounds_length:
  assumes f: "\<And>p q. q \<in> set (f p) \<Longrightarrow> length (snd q) + k \<le> length (snd p)"
  shows "q \<in> set (rx_rounds f lo hi p) \<Longrightarrow> (case hi of None \<Rightarrow> True | Some n \<Rightarrow> lo \<le> n) \<Longrightarrow>
    length (snd q) + lo * k \<le> length (snd p)"
proof (induction p arbitrary: lo hi q rule: measure_induct_rule [of "\<lambda>p. length (snd p)"])
  case (less p)
  show ?case
  proof (cases "hi = Some 0 \<or> lo = 0 \<and> q = p")
    case False
    with less.prems(1) obtain r where r: "r \<in> set (f p)" "length (snd r) < length (snd p)"
        "q \<in> set (rx_rounds f (lo - 1) (map_option (\<lambda>n. n - 1) hi) r)"
      unfolding rx_rounds.simps [of f lo hi p] by (auto split: if_splits)
    have "case map_option (\<lambda>n. n - 1) hi of None \<Rightarrow> True | Some n \<Rightarrow> lo - 1 \<le> n"
      using less.prems(2) by (cases hi) auto
    from less.IH [OF r(2,3) this] f [OF r(1)] show ?thesis by (cases lo) simp_all
  qed (use less.prems in \<open>auto simp: rx_rounds.simps [of f lo hi p]\<close>)
qed

lemma rx_min_length: "rx_wf r \<Longrightarrow> q \<in> set (rx_ends r p) \<Longrightarrow> length (snd q) + rx_min r \<le> length (snd p)"
proof (induction r arbitrary: p q)
  case (RxSet P)
  then show ?case by (cases "snd p") (auto simp: rx_char_def split: if_splits)
next
  case (RxSeq r s)
  then obtain m where "m \<in> set (rx_ends r p)" "q \<in> set (rx_ends s m)" by auto
  with RxSeq.IH [of m p] RxSeq.IH(2) [of q m] RxSeq.prems show ?case by fastforce
next
  case (RxAlt r s)
  then have "length (snd q) + rx_min r \<le> length (snd p) \<or> length (snd q) + rx_min s \<le> length (snd p)" by fastforce
  then show ?case by (auto simp: min_def)
next
  case (RxRep lo hi r)
  have "length (snd q) + lo * rx_min r \<le> length (snd p)"
    using RxRep rx_rounds_length [of "rx_ends r" "rx_min r" q lo hi p] by simp
  then show ?case by simp
next
  case (RxLazy r)
  then show ?case using rx_ends_length [of q "RxLazy r" p] by simp
qed (auto split: if_splits)

lemma rx_properI: "rx_wf r \<Longrightarrow> 0 < rx_min r \<Longrightarrow> rx_proper r"
  unfolding rx_proper_def using rx_min_length by fastforce

end
