(* ===== verification/PiiDetector.thy ===== *)
theory PiiDetector
  imports Regex
begin

text \<open>
  \<^verbatim>\<open>libs/utils/security/pii_detector.py\<close>: \<open>PIIDetector\<close>. The patterns are expressions of theory \<open>Regex\<close>; the hash is
  a parameter. Nothing in \<open>detect_pii\<close> raises, so the handlers of exceptions have no counterpart. The types found by a
  summary are a set: the order of the list that Python makes of it is not specified.
\<close>

section \<open>Types, levels and masks\<close>

datatype pii_type =
    PiiEmail | PiiPhone | PiiCreditCard | PiiSsn | PiiPassport | PiiDriverLicense | PiiBankAccount
  | PiiIpAddress | PiiMacAddress | PiiPersonalName | PiiAddress | PiiDateOfBirth | PiiNationalId

fun pii_type_value :: "pii_type \<Rightarrow> string" where
  "pii_type_value PiiEmail = ''email''"
| "pii_type_value PiiPhone = ''phone''"
| "pii_type_value PiiCreditCard = ''credit_card''"
| "pii_type_value PiiSsn = ''ssn''"
| "pii_type_value PiiPassport = ''passport''"
| "pii_type_value PiiDriverLicense = ''driver_license''"
| "pii_type_value PiiBankAccount = ''bank_account''"
| "pii_type_value PiiIpAddress = ''ip_address''"
| "pii_type_value PiiMacAddress = ''mac_address''"
| "pii_type_value PiiPersonalName = ''personal_name''"
| "pii_type_value PiiAddress = ''address''"
| "pii_type_value PiiDateOfBirth = ''date_of_birth''"
| "pii_type_value PiiNationalId = ''national_id''"

datatype pii_level = PiiLow | PiiMedium | PiiHigh | PiiCritical

fun pii_level_value :: "pii_level \<Rightarrow> string" where
  "pii_level_value PiiLow = ''low''"
| "pii_level_value PiiMedium = ''medium''"
| "pii_level_value PiiHigh = ''high''"
| "pii_level_value PiiCritical = ''critical''"

fun pii_sensitivity :: "pii_type \<Rightarrow> pii_level" where
  "pii_sensitivity PiiEmail = PiiMedium"
| "pii_sensitivity PiiPhone = PiiMedium"
| "pii_sensitivity PiiCreditCard = PiiCritical"
| "pii_sensitivity PiiSsn = PiiCritical"
| "pii_sensitivity PiiPassport = PiiCritical"
| "pii_sensitivity PiiDriverLicense = PiiHigh"
| "pii_sensitivity PiiBankAccount = PiiCritical"
| "pii_sensitivity PiiIpAddress = PiiLow"
| "pii_sensitivity PiiMacAddress = PiiLow"
| "pii_sensitivity PiiPersonalName = PiiMedium"
| "pii_sensitivity PiiAddress = PiiHigh"
| "pii_sensitivity PiiDateOfBirth = PiiHigh"
| "pii_sensitivity PiiNationalId = PiiCritical"

fun pii_mask :: "pii_type \<Rightarrow> string" where
  "pii_mask PiiEmail = ''***@***.***''"
| "pii_mask PiiPhone = ''***-***-****''"
| "pii_mask PiiCreditCard = ''****-****-****-****''"
| "pii_mask PiiSsn = ''***-**-****''"
| "pii_mask PiiPassport = ''********''"
| "pii_mask PiiDriverLicense = ''********''"
| "pii_mask PiiBankAccount = ''****-****-****-****''"
| "pii_mask PiiIpAddress = ''***.***.***.***''"
| "pii_mask PiiMacAddress = ''**:**:**:**:**:**''"
| "pii_mask PiiPersonalName = ''****''"
| "pii_mask PiiAddress = ''*** ********''"
| "pii_mask PiiDateOfBirth = ''**/**/****''"
| "pii_mask PiiNationalId = ''********''"

section \<open>Patterns\<close>

abbreviation rx_d :: rx where "rx_d \<equiv> RxSet rx_digit"

abbreviation rx_c :: "string \<Rightarrow> rx" where "rx_c cs \<equiv> RxSet (one_of cs)"

definition rx_sep :: rx where
  "rx_sep = rx_opt (RxSet (\<lambda>c. one_of ''-.'' c \<or> is_space c))"

definition pii_email_rx :: rx where
  "pii_email_rx = rx_seqs
     [RxBoundary,
      rx_plus (RxSet (rx_nocase (\<lambda>c. rx_upper c \<or> rx_lower c \<or> rx_digit c \<or> one_of ''._%+-'' c))),
      rx_c ''@'',
      rx_plus (RxSet (rx_nocase (\<lambda>c. rx_upper c \<or> rx_lower c \<or> rx_digit c \<or> one_of ''.-'' c))),
      rx_c ''.'',
      RxRep 2 None (RxSet (rx_nocase (\<lambda>c. rx_upper c \<or> c = CHR ''|'' \<or> rx_lower c))),
      RxBoundary]"

definition pii_phone_rx :: rx where
  "pii_phone_rx = rx_seqs
     [rx_opt (rx_seqs [rx_opt (rx_c ''+''), rx_c ''1'', rx_sep]), rx_opt (rx_c ''(''), rx_times 3 rx_d, rx_opt (rx_c '')''),
      rx_sep, rx_times 3 rx_d, rx_sep, rx_times 4 rx_d]"

definition pii_phone_int_rx :: rx where
  "pii_phone_int_rx = rx_seqs [rx_opt (rx_c ''+''), RxSet (rx_range 49 57), RxRep 1 (Some 14) rx_d]"

definition pii_card_rx :: rx where
  "pii_card_rx = rx_seqs
     [RxBoundary,
      rx_alts
        [rx_seqs [rx_c ''4'', rx_times 12 rx_d, rx_opt (rx_times 3 rx_d)],
         rx_seqs [rx_c ''5'', RxSet (rx_range 49 53), rx_times 14 rx_d],
         rx_seqs [rx_c ''3'', rx_c ''47'', rx_times 13 rx_d],
         rx_seqs [rx_c ''3'', rx_times 13 rx_d],
         rx_seqs [rx_c ''6'', RxAlt (rx_lit ''011'') (rx_seqs [rx_c ''5'', rx_times 2 rx_d]), rx_times 12 rx_d]],
      RxBoundary]"

definition pii_card_groups_rx :: rx where
  "pii_card_groups_rx =
     (let sep = rx_opt (RxSet (\<lambda>c. c = CHR ''-'' \<or> is_space c)); four = rx_times 4 rx_d
      in rx_seqs [RxBoundary, four, sep, four, sep, four, sep, four, RxBoundary])"

definition pii_digits_rx :: "nat \<Rightarrow> nat \<Rightarrow> rx" where
  "pii_digits_rx lo hi = rx_seqs [RxBoundary, RxRep lo (Some hi) rx_d, RxBoundary]"

definition pii_ssn_rx :: rx where
  "pii_ssn_rx = rx_seqs
     [RxBoundary, rx_times 3 rx_d, rx_opt (rx_c ''-''), rx_times 2 rx_d, rx_opt (rx_c ''-''), rx_times 4 rx_d, RxBoundary]"

definition pii_passport_rx :: rx where
  "pii_passport_rx = rx_seqs [RxBoundary, RxRep 1 (Some 2) (RxSet rx_upper), RxRep 6 (Some 9) rx_d, RxBoundary]"

definition pii_license_rx :: rx where
  "pii_license_rx = rx_seqs [RxBoundary, RxSet rx_upper, RxRep 7 (Some 8) rx_d, RxBoundary]"

definition pii_ipv4_rx :: rx where
  "pii_ipv4_rx =
     (let part = RxRep 1 (Some 3) rx_d
      in rx_seqs [RxBoundary, rx_times 3 (rx_seqs [part, rx_c ''.'']), part, RxBoundary])"

definition pii_ipv6_rx :: rx where
  "pii_ipv6_rx =
     (let part = RxRep 1 (Some 4) (RxSet rx_hex)
      in rx_seqs [RxBoundary, rx_times 7 (rx_seqs [part, rx_c '':'']), part, RxBoundary])"

definition pii_mac_rx :: rx where
  "pii_mac_rx =
     (let part = rx_times 2 (RxSet rx_hex)
      in rx_seqs [RxBoundary, rx_times 5 (rx_seqs [part, rx_c '':-'']), part, RxBoundary])"

definition pii_month_rx :: rx where
  "pii_month_rx = RxAlt (rx_seqs [rx_c ''0'', RxSet (rx_range 49 57)]) (rx_seqs [rx_c ''1'', RxSet (rx_range 48 50)])"

definition pii_day_rx :: rx where
  "pii_day_rx = rx_alts [rx_seqs [rx_c ''0'', RxSet (rx_range 49 57)], rx_seqs [rx_c ''12'', rx_d], rx_seqs [rx_c ''3'', rx_c ''01'']]"

definition pii_year_rx :: rx where
  "pii_year_rx = rx_seqs [RxAlt (rx_lit ''19'') (rx_lit ''20''), rx_times 2 rx_d]"

definition pii_birth_rx :: rx where
  "pii_birth_rx = rx_seqs [RxBoundary, pii_month_rx, rx_c ''-/'', pii_day_rx, rx_c ''-/'', pii_year_rx, RxBoundary]"

definition pii_birth_iso_rx :: rx where
  "pii_birth_iso_rx = rx_seqs [RxBoundary, pii_year_rx, rx_c ''-/'', pii_month_rx, rx_c ''-/'', pii_day_rx, RxBoundary]"

definition pii_national_rx :: rx where
  "pii_national_rx = rx_seqs
     [RxBoundary, rx_times 2 (RxSet rx_upper), RxRep 6 (Some 12) rx_d, rx_opt (RxSet (\<lambda>c. rx_upper c \<or> rx_digit c)), RxBoundary]"

definition pii_patterns :: "(pii_type \<times> rx list) list" where
  "pii_patterns =
     [(PiiEmail, [pii_email_rx]),
      (PiiPhone, [pii_phone_rx, pii_phone_int_rx]),
      (PiiCreditCard, [pii_card_rx, pii_card_groups_rx]),
      (PiiSsn, [pii_ssn_rx, pii_digits_rx 9 9]),
      (PiiPassport, [pii_passport_rx, pii_digits_rx 9 9]),
      (PiiDriverLicense, [pii_license_rx, pii_digits_rx 8 9]),
      (PiiBankAccount, [pii_digits_rx 8 17]),
      (PiiIpAddress, [pii_ipv4_rx, pii_ipv6_rx]),
      (PiiMacAddress, [pii_mac_rx]),
      (PiiDateOfBirth, [pii_birth_rx, pii_birth_iso_rx]),
      (PiiNationalId, [pii_national_rx])]"

section \<open>Confidence\<close>

definition only_digits :: "string \<Rightarrow> string" where
  "only_digits s = filter rx_digit s"

text \<open>The sum of Luhn's algorithm over the reversed digits; every second digit is doubled.\<close>

definition digit_of :: "char \<Rightarrow> int" where
  "digit_of c = of_char c - 48"

fun luhn_sum :: "bool \<Rightarrow> int list \<Rightarrow> int" where
  "luhn_sum is_odd [] = 0"
| "luhn_sum is_odd (d # ds) =
     (if is_odd then (if 9 < d * 2 then d * 2 - 9 else d * 2) else d) + luhn_sum (\<not> is_odd) ds"

definition validate_credit_card :: "string \<Rightarrow> bool" where
  "validate_credit_card card_number =
     (let digits = only_digits card_number
      in 13 \<le> length digits \<and> length digits \<le> 19 \<and> luhn_sum False (map digit_of (rev digits)) mod 10 = 0)"

definition is_invalid_ssn :: "string \<Rightarrow> bool" where
  "is_invalid_ssn ssn \<longleftrightarrow>
     ssn \<in> set [''000000000'', ''111111111'', ''222222222'', ''333333333'', ''444444444'', ''555555555'', ''666666666'',
                ''777777777'', ''888888888'', ''999999999'', ''123456789'', ''000000001'', ''123456789''] \<or>
     starts_with ''000'' ssn \<or> starts_with ''666'' ssn"

text \<open>The part of \<open>value.split('@')\<close> after the first \<open>@\<close>.\<close>

definition after_at :: "string \<Rightarrow> string" where
  "after_at s = takeWhile (\<lambda>c. c \<noteq> CHR ''@'') (tl (dropWhile (\<lambda>c. c \<noteq> CHR ''@'') s))"

definition pii_confidence :: "pii_type \<Rightarrow> string \<Rightarrow> rat" where
  "pii_confidence t v =
     (case t of
        PiiEmail \<Rightarrow> if CHR ''@'' \<in> set v \<and> CHR ''.'' \<in> set (after_at v) then 95/100 else 7/10
      | PiiPhone \<Rightarrow> if length (only_digits v) = 10 \<or> length (only_digits v) = 11 then 9/10 else 6/10
      | PiiCreditCard \<Rightarrow> if validate_credit_card v then 95/100 else 7/10
      | PiiSsn \<Rightarrow>
          if length (only_digits v) = 9 then (if \<not> is_invalid_ssn (only_digits v) then 9/10 else 3/10) else 5/10
      | _ \<Rightarrow> 8/10)"

section \<open>Detection\<close>

record pii_detection =
  pid_type :: pii_type
  pid_value :: string
  pid_confidence :: rat
  pid_level :: pii_level
  pid_start :: nat
  pid_end :: nat
  pid_context :: string
  pid_mask :: string
  pid_detected_at :: rat

definition slice :: "nat \<Rightarrow> nat \<Rightarrow> 'a list \<Rightarrow> 'a list" where
  "slice a b xs = take (b - a) (drop a xs)"

definition pii_create :: "rat \<Rightarrow> string \<Rightarrow> pii_type \<Rightarrow> nat \<times> nat \<Rightarrow> pii_detection" where
  "pii_create now text t = (\<lambda>(a, b).
     \<lparr>pid_type = t, pid_value = slice a b text, pid_confidence = min (pii_confidence t (slice a b text)) 1,
      pid_level = pii_sensitivity t, pid_start = a, pid_end = b,
      pid_context = slice (a - 20) (min (length text) (b + 20)) text, pid_mask = pii_mask t, pid_detected_at = now\<rparr>)"

text \<open>No types, or an empty list of them, mean all types.\<close>

definition pii_wanted :: "pii_type list option \<Rightarrow> pii_type \<Rightarrow> bool" where
  "pii_wanted allowed t \<longleftrightarrow> (case allowed of None \<Rightarrow> True | Some ts \<Rightarrow> ts = [] \<or> t \<in> set ts)"

definition pii_found :: "rat \<Rightarrow> string \<Rightarrow> pii_type list option \<Rightarrow> pii_detection list" where
  "pii_found now text allowed =
     concat (map (\<lambda>(t, rs). concat (map (\<lambda>r. map (pii_create now text t) (rx_finditer r text)) rs))
       (filter (\<lambda>(t, _). pii_wanted allowed t) pii_patterns))"

definition pii_redact_one :: "pii_detection \<Rightarrow> string \<Rightarrow> string" where
  "pii_redact_one d s = take (pid_start d) s @ pid_mask d @ drop (pid_end d) s"

text \<open>The sort is stable; it puts late detections first.\<close>

definition pii_sorted :: "pii_detection list \<Rightarrow> pii_detection list" where
  "pii_sorted = sort_key (\<lambda>d. - int (pid_start d))"

fun level_weight :: "pii_level \<Rightarrow> rat" where
  "level_weight PiiLow = 1"
| "level_weight PiiMedium = 2"
| "level_weight PiiHigh = 3"
| "level_weight PiiCritical = 4"

definition pii_score :: "pii_detection list \<Rightarrow> rat" where
  "pii_score ds =
     (if ds = [] then 0
      else let total = sum_list (map (\<lambda>d. level_weight (pid_level d)) ds);
               weighted = sum_list (map (\<lambda>d. pid_confidence d * level_weight (pid_level d)) ds)
           in if total = 0 then 0 else min (weighted / total) 1)"

record pii_result =
  pir_text :: string
  pir_detections :: "pii_detection list"
  pir_has_pii :: bool
  pir_score :: rat
  pir_redacted :: string
  pir_count :: nat

definition detect_pii :: "rat \<Rightarrow> string \<Rightarrow> pii_type list option \<Rightarrow> pii_result" where
  "detect_pii now text allowed =
     (let ds = pii_sorted (pii_found now text allowed)
      in \<lparr>pir_text = text, pir_detections = ds, pir_has_pii = ds \<noteq> [], pir_score = pii_score ds,
          pir_redacted = fold pii_redact_one ds text, pir_count = length ds\<rparr>)"

section \<open>Summaries, hashes and permissions\<close>

record pii_summary =
  pis_total :: nat
  pis_types :: "string set"
  pis_levels :: "(string, nat) dict"
  pis_min :: rat
  pis_max :: rat
  pis_avg :: rat

definition get_pii_summary :: "pii_detection list \<Rightarrow> pii_summary" where
  "get_pii_summary ds =
     (let cs = map pid_confidence ds
      in \<lparr>pis_total = length ds, pis_types = set (map (\<lambda>d. pii_type_value (pid_type d)) ds),
          pis_levels = (if ds = [] then []
            else map (\<lambda>l. (pii_level_value l, length (filter (\<lambda>d. pid_level d = l) ds))) [PiiLow, PiiMedium, PiiHigh, PiiCritical]),
          pis_min = (if ds = [] then 0 else Min (set cs)), pis_max = (if ds = [] then 0 else Max (set cs)),
          pis_avg = (if ds = [] then 0 else sum_list cs / of_nat (length ds))\<rparr>)"

definition create_pii_hash :: "texts \<Rightarrow> string \<Rightarrow> string \<Rightarrow> string" where
  "create_pii_hash tx v salt = tx_sha256 tx (v @ salt)"

text \<open>The tenant is not looked at.\<close>

definition is_pii_allowed :: "pii_type \<Rightarrow> string \<Rightarrow> (pii_type, string list) dict \<Rightarrow> bool" where
  "is_pii_allowed t tenant_id allowlist \<longleftrightarrow>
     dget allowlist t \<noteq> None \<or> t \<notin> {PiiCreditCard, PiiSsn, PiiBankAccount, PiiNationalId}"

section \<open>Detections are matches\<close>

lemma set_pii_sorted [simp]: "set (pii_sorted ds) = set ds"
  by (simp add: pii_sorted_def)

lemma pii_sorted_Nil [simp]: "pii_sorted ds = [] \<longleftrightarrow> ds = []"
  by (metis set_pii_sorted set_empty)

lemma detect_pii_simps [simp]:
  "pir_detections (detect_pii now text allowed) = pii_sorted (pii_found now text allowed)"
  "pir_has_pii (detect_pii now text allowed) \<longleftrightarrow> pii_found now text allowed \<noteq> []"
  "pir_redacted (detect_pii now text allowed) = fold pii_redact_one (pii_sorted (pii_found now text allowed)) text"
  "pir_score (detect_pii now text allowed) = pii_score (pii_sorted (pii_found now text allowed))"
  by (simp_all add: detect_pii_def Let_def)

lemma pii_found_mem:
  "d \<in> set (pii_found now text allowed) \<longleftrightarrow>
     (\<exists>t rs r a b. (t, rs) \<in> set pii_patterns \<and> pii_wanted allowed t \<and> r \<in> set rs \<and> (a, b) \<in> set (rx_finditer r text) \<and>
        d = pii_create now text t (a, b))"
  by (auto simp: pii_found_def) blast

lemma pii_found_span:
  assumes "d \<in> set (pii_found now text allowed)"
  shows "pid_start d < pid_end d" "pid_end d \<le> length text" "pid_value d = slice (pid_start d) (pid_end d) text"
proof -
  from assms obtain t r a b where d: "(a, b) \<in> set (rx_finditer r text)" "d = pii_create now text t (a, b)"
    by (auto simp: pii_found_mem)
  from rx_spans_mem [OF rx_finditer_spans d(1)] d(2)
  show "pid_start d < pid_end d" "pid_end d \<le> length text" "pid_value d = slice (pid_start d) (pid_end d) text"
    by (simp_all add: pii_create_def)
qed

lemmas pii_rx_defs =
  pii_email_rx_def pii_phone_rx_def pii_phone_int_rx_def pii_card_rx_def pii_card_groups_rx_def pii_digits_rx_def pii_ssn_rx_def
  pii_passport_rx_def pii_license_rx_def pii_ipv4_rx_def pii_ipv6_rx_def pii_mac_rx_def pii_month_rx_def pii_day_rx_def
  pii_year_rx_def pii_birth_rx_def pii_birth_iso_rx_def pii_national_rx_def rx_sep_def rx_opt_def rx_plus_def rx_times_def

lemma pii_patterns_proper: "(t, rs) \<in> set pii_patterns \<Longrightarrow> r \<in> set rs \<Longrightarrow> rx_proper r"
  by (rule rx_properI) (auto simp: pii_patterns_def pii_rx_defs Let_def)

text \<open>
  What the detector finds: there is a detection exactly if one of the patterns of a wanted type matches somewhere in
  the text; and each detection is the piece of the text at its positions.
\<close>

theorem pii_detects_iff:
  "(pir_has_pii (detect_pii now text allowed) \<longleftrightarrow>
     (\<exists>(t, rs) \<in> set pii_patterns. pii_wanted allowed t \<and> (\<exists>r \<in> set rs. rx_search r text))) \<and>
   (\<forall>d \<in> set (pir_detections (detect_pii now text allowed)).
     pid_start d < pid_end d \<and> pid_end d \<le> length text \<and> pid_value d = slice (pid_start d) (pid_end d) text)"
proof (intro conjI)
  have "pii_found now text allowed \<noteq> [] \<longleftrightarrow> (\<exists>d. d \<in> set (pii_found now text allowed))" by (cases "pii_found now text allowed") auto
  also have "\<dots> \<longleftrightarrow> (\<exists>t rs r. (t, rs) \<in> set pii_patterns \<and> pii_wanted allowed t \<and> r \<in> set rs \<and> rx_finditer r text \<noteq> [])"
    unfolding pii_found_mem by (metis list.set_intros(1) neq_Nil_conv empty_iff list.set(1) surj_pair)
  also have "\<dots> \<longleftrightarrow> (\<exists>t rs r. (t, rs) \<in> set pii_patterns \<and> pii_wanted allowed t \<and> r \<in> set rs \<and> rx_search r text)"
    using rx_finditer_search [OF pii_patterns_proper] by metis
  finally show "pir_has_pii (detect_pii now text allowed) \<longleftrightarrow>
      (\<exists>(t, rs) \<in> set pii_patterns. pii_wanted allowed t \<and> (\<exists>r \<in> set rs. rx_search r text))" by auto
qed (simp add: pii_found_span)

section \<open>Redaction\<close>

text \<open>The text with each of some pieces, from left to right, replaced by its mask.\<close>

fun pii_masked :: "nat \<Rightarrow> string \<Rightarrow> pii_detection list \<Rightarrow> string" where
  "pii_masked n text [] = drop n text"
| "pii_masked n text (d # ds) = slice n (pid_start d) text @ pid_mask d @ pii_masked (pid_end d) text ds"

lemma pii_masked_append:
  "n \<le> length u \<Longrightarrow> \<forall>d \<in> set ds. pid_start d \<le> pid_end d \<and> pid_end d \<le> length u \<Longrightarrow>
     pii_masked n (u @ v) ds = pii_masked n u ds @ v"
  by (induction ds arbitrary: n) (auto simp: slice_def)

lemma pii_masked_snoc:
  assumes "n \<le> pid_start d" "pid_start d \<le> length text" "\<forall>e \<in> set ds. pid_start e \<le> pid_end e \<and> pid_end e \<le> pid_start d"
  shows "pii_masked n text (ds @ [d]) = pii_masked n (take (pid_start d) text) ds @ pid_mask d @ drop (pid_end d) text"
  using assms(1,3)
proof (induction ds arbitrary: n)
  case Nil
  then show ?case by (simp add: slice_def drop_take)
next
  case (Cons e ds)
  then show ?case by (auto simp: slice_def drop_take min_def)
qed

lemma pii_redact_apart:
  "sorted_wrt (\<lambda>d e. pid_end e \<le> pid_start d) ds \<Longrightarrow>
   \<forall>d \<in> set ds. pid_start d \<le> pid_end d \<and> pid_end d \<le> length s \<Longrightarrow>
   fold pii_redact_one ds s = pii_masked 0 s (rev ds)"
proof (induction ds arbitrary: s)
  case (Cons d ds)
  let ?u = "take (pid_start d) s"
  have len: "length ?u = pid_start d" using Cons.prems(2) by (auto simp: min_def)
  have inner: "\<forall>e \<in> set ds. pid_start e \<le> pid_end e \<and> pid_end e \<le> pid_start d" using Cons.prems by auto
  have "fold pii_redact_one (d # ds) s = pii_masked 0 (?u @ pid_mask d @ drop (pid_end d) s) (rev ds)"
    using Cons.prems(1) inner len by (subst fold_Cons) (simp add: pii_redact_one_def Cons.IH trans_le_add1)
  also have "\<dots> = pii_masked 0 ?u (rev ds) @ pid_mask d @ drop (pid_end d) s"
    using inner len by (simp add: pii_masked_append)
  also have "\<dots> = pii_masked 0 s (rev (d # ds))"
    using Cons.prems(2) inner by (simp add: pii_masked_snoc)
  finally show ?case .
qed simp

text \<open>
  C19. Redaction of detections that do not overlap: the redacted text is the text with each detected piece replaced by
  the mask of its type, and everything between the pieces as it was.
\<close>

theorem pii_redaction_exact:
  assumes "sorted_wrt (\<lambda>d e. pid_end e \<le> pid_start d) (pir_detections (detect_pii now text allowed))"
  shows "pir_redacted (detect_pii now text allowed) = pii_masked 0 text (rev (pir_detections (detect_pii now text allowed)))"
  using assms pii_redact_apart [OF assms] pii_found_span(1,2) by (simp add: less_imp_le)

text \<open>
  C20. Redaction of a detection inside another one leaks: when the mask of the inner one is longer than what it replaces,
  as many characters as it is longer remain of the end of the outer value.
\<close>

theorem pii_nested_leaks:
  assumes ds: "pir_detections (detect_pii now text allowed) = [inside, outside]"
    and grown: "length (pid_mask inside) = pid_end inside - pid_start inside + k"
    and room: "pid_end inside + k \<le> pid_end outside" and nested: "pid_start outside \<le> pid_start inside"
  shows "pir_redacted (detect_pii now text allowed) =
    take (pid_start outside) text @ pid_mask outside @
      drop (length (pid_value outside) - k) (pid_value outside) @ drop (pid_end outside) text"
proof -
  have mem: "inside \<in> set (pii_found now text allowed)" "outside \<in> set (pii_found now text allowed)"
    using ds set_pii_sorted [of "pii_found now text allowed"] by auto
  note i = pii_found_span [OF mem(1)] and o' = pii_found_span [OF mem(2)]
  let ?t1 = "take (pid_start inside) text @ pid_mask inside @ drop (pid_end inside) text"
  have "drop (pid_end outside) ?t1 = drop (pid_end outside - k) text"
    using i(1,2) grown room by (simp add: min_def drop_eq_Nil)
  moreover have "drop (pid_end outside - k) text =
      drop (length (pid_value outside) - k) (pid_value outside) @ drop (pid_end outside) text"
  proof -
    have len: "length (pid_value outside) = pid_end outside - pid_start outside" using o' by (simp add: slice_def)
    have "pid_start outside + (pid_end outside - pid_start outside - k) = pid_end outside - k"
      using i(1) room nested by simp
    then have "drop (length (pid_value outside) - k) (pid_value outside) = take k (drop (pid_end outside - k) text)"
      using len o'(3) room i(1) nested by (simp add: slice_def drop_take)
    moreover have "drop k (drop (pid_end outside - k) text) = drop (pid_end outside) text" using room by simp
    ultimately show ?thesis by (metis append_take_drop_id)
  qed
  moreover have "take (pid_start outside) ?t1 = take (pid_start outside) text" using nested i o' by (simp add: min_def)
  ultimately show ?thesis using ds by (simp add: pii_redact_one_def)
qed

section \<open>Luhn's check and the score\<close>

lemma luhn_sum_update:
  assumes "i < length ds"
  shows "luhn_sum b (ds[i := c]) - luhn_sum b ds = luhn_sum (b = even i) [c] - luhn_sum (b = even i) [ds ! i]"
  using assms
proof (induction ds arbitrary: b i)
  case (Cons d ds)
  then show ?case by (cases i) auto
qed simp

lemma digit_of_bounds: "rx_digit c \<Longrightarrow> 0 \<le> digit_of c \<and> digit_of c \<le> 9"
  by (auto simp: rx_digit_def rx_range_def digit_of_def)

lemma digit_of_inj: "rx_digit c \<Longrightarrow> rx_digit d \<Longrightarrow> digit_of c = digit_of d \<Longrightarrow> c = d"
  by (auto simp: rx_digit_def rx_range_def digit_of_def)

lemma luhn_digit_inj:
  assumes "(luhn_sum b [x] - luhn_sum b [y]) mod 10 = 0" and "0 \<le> x" "x \<le> 9" "0 \<le> y" "y \<le> 9"
  shows "x = y"
  using assms by (auto split: if_splits) presburger+

text \<open>
  C18. The check of credit card numbers notices every single wrong digit: of two numbers that differ in one digit at
  most one is valid.
\<close>

theorem luhn_single_digit:
  assumes digits: "\<forall>x \<in> set xs. rx_digit x" and c: "rx_digit c" and i: "i < length xs"
    and "validate_credit_card xs" and "validate_credit_card (xs[i := c])"
  shows "c = xs ! i"
proof -
  have "\<forall>x \<in> set (xs[i := c]). rx_digit x" using digits c by (metis insertE set_update_subset_insert subsetD)
  then have id: "only_digits xs = xs" "only_digits (xs[i := c]) = xs[i := c]"
    using digits by (simp_all add: only_digits_def filter_id_conv)
  let ?ds = "map digit_of (rev xs)" and ?j = "length xs - Suc i"
  have "luhn_sum False ?ds mod 10 = 0" "luhn_sum False (?ds[?j := digit_of c]) mod 10 = 0"
    using assms(4,5) i by (simp_all add: validate_credit_card_def id Let_def rev_update map_update)
  then have "(luhn_sum False (?ds[?j := digit_of c]) - luhn_sum False ?ds) mod 10 = 0" by presburger
  moreover have "?ds ! ?j = digit_of (xs ! i)" "?j < length ?ds" using i by (simp_all add: rev_nth)
  ultimately have eq: "(luhn_sum (False = even ?j) [digit_of c] - luhn_sum (False = even ?j) [digit_of (xs ! i)]) mod 10 = 0"
    using luhn_sum_update [of ?j ?ds False "digit_of c"] by simp
  have xi: "rx_digit (xs ! i)" using digits i by simp
  have "digit_of c = digit_of (xs ! i)"
    using digit_of_bounds [OF c] digit_of_bounds [OF xi] by (intro luhn_digit_inj [OF eq]) (erule conjE, assumption)+
  then show ?thesis by (rule digit_of_inj [OF c xi])
qed

text \<open>
  The score of a text with detections is an average of confidences: it lies between 0.3 and 0.95.
\<close>

theorem pii_score_bounds:
  assumes "pir_has_pii (detect_pii now text allowed)"
  shows "3/10 \<le> pir_score (detect_pii now text allowed) \<and> pir_score (detect_pii now text allowed) \<le> 95/100"
proof -
  let ?ds = "pii_sorted (pii_found now text allowed)"
  have conf: "3/10 \<le> pid_confidence d \<and> pid_confidence d \<le> 95/100" if d: "d \<in> set ?ds" for d
  proof -
    from d obtain t a b where "d = pii_create now text t (a, b)" by (auto simp: pii_found_mem)
    then show ?thesis by (auto simp: pii_create_def pii_confidence_def split: pii_type.split)
  qed
  have sums: "ds \<noteq> [] \<longrightarrow> 0 < sum_list (map (\<lambda>d. level_weight (pid_level d)) ds)"
    "\<forall>d \<in> set ds. 3/10 \<le> pid_confidence d \<and> pid_confidence d \<le> 95/100 \<Longrightarrow>
     3/10 * sum_list (map (\<lambda>d. level_weight (pid_level d)) ds) \<le> sum_list (map (\<lambda>d. pid_confidence d * level_weight (pid_level d)) ds) \<and>
     sum_list (map (\<lambda>d. pid_confidence d * level_weight (pid_level d)) ds) \<le> 95/100 * sum_list (map (\<lambda>d. level_weight (pid_level d)) ds)" for ds
  proof -
    have w: "1 \<le> level_weight l" for l by (cases l) simp_all
    show "ds \<noteq> [] \<longrightarrow> 0 < sum_list (map (\<lambda>d. level_weight (pid_level d)) ds)"
    proof (induction ds)
      case (Cons d ds)
      then show ?case using w [of "pid_level d"] by (cases ds) auto
    qed simp
    assume "\<forall>d \<in> set ds. 3/10 \<le> pid_confidence d \<and> pid_confidence d \<le> 95/100"
    then show "3/10 * sum_list (map (\<lambda>d. level_weight (pid_level d)) ds) \<le> sum_list (map (\<lambda>d. pid_confidence d * level_weight (pid_level d)) ds) \<and>
     sum_list (map (\<lambda>d. pid_confidence d * level_weight (pid_level d)) ds) \<le> 95/100 * sum_list (map (\<lambda>d. level_weight (pid_level d)) ds)"
    proof (induction ds)
      case (Cons d ds)
      have "3/10 * level_weight (pid_level d) \<le> pid_confidence d * level_weight (pid_level d)"
        "pid_confidence d * level_weight (pid_level d) \<le> 95/100 * level_weight (pid_level d)"
        using Cons.prems w [of "pid_level d"] by (simp_all add: mult_right_mono)
      then show ?case using Cons by (simp add: distrib_left)
    qed simp
  qed
  have ne: "?ds \<noteq> []" using assms by simp
  let ?total = "sum_list (map (\<lambda>d. level_weight (pid_level d)) ?ds)"
  have "0 < ?total" using sums(1) ne by blast
  moreover have "\<forall>d \<in> set ?ds. 3/10 \<le> pid_confidence d \<and> pid_confidence d \<le> 95/100" using conf by blast
  note sums(2) [OF this]
  ultimately show ?thesis using ne
    by (simp add: pii_score_def Let_def min_def le_divide_eq divide_le_eq mult.commute del: pii_sorted_Nil)
qed

section \<open>Examples\<close>

lemma pii_demo_nested:
  "pii_sorted (pii_found 0 ''a1234567@b.co'' None) =
     [pii_create 0 ''a1234567@b.co'' PiiPhone (1, 8), pii_create 0 ''a1234567@b.co'' PiiEmail (0, 13)]"
  by code_simp

lemma pii_demo_apart:
  "pii_sorted (pii_found 0 ''a@b.co c@d.co'' (Some [PiiEmail])) =
     [pii_create 0 ''a@b.co c@d.co'' PiiEmail (7, 13), pii_create 0 ''a@b.co c@d.co'' PiiEmail (0, 6)]"
  by code_simp

theorem pii_nested_leaks_witness:
  "pir_redacted (detect_pii 0 ''a1234567@b.co'' None) = ''***@***.***@b.co''"
proof -
  have "pir_detections (detect_pii 0 ''a1234567@b.co'' None) =
     [pii_create 0 ''a1234567@b.co'' PiiPhone (1, 8), pii_create 0 ''a1234567@b.co'' PiiEmail (0, 13)]"
    using pii_demo_nested by simp
  from pii_nested_leaks [OF this, of 5] show ?thesis by (simp add: pii_create_def slice_def)
qed

theorem pii_redaction_exact_witness:
  "pir_redacted (detect_pii 0 ''a@b.co c@d.co'' (Some [PiiEmail])) = ''***@***.*** ***@***.***''"
proof -
  have "sorted_wrt (\<lambda>d e. pid_end e \<le> pid_start d) (pir_detections (detect_pii 0 ''a@b.co c@d.co'' (Some [PiiEmail])))"
    by (simp add: pii_demo_apart) (simp add: pii_create_def)
  from pii_redaction_exact [OF this] show ?thesis
    by (simp add: pii_demo_apart) (simp add: pii_create_def slice_def)
qed

theorem luhn_single_digit_witness:
  "validate_credit_card ''4111111111111111'' \<and> \<not> validate_credit_card (''4111111111111111''[3 := CHR ''2''])"
proof -
  have valid: "validate_credit_card ''4111111111111111''" by code_simp
  have "\<forall>x \<in> set ''4111111111111111''. rx_digit x" "rx_digit (CHR ''2'')" "(3::nat) < length ''4111111111111111''"
    by (simp_all add: rx_digit_def rx_range_def)
  from luhn_single_digit [OF this valid] valid show ?thesis by auto
qed

theorem pii_score_bounds_witness: "3/10 \<le> pir_score (detect_pii 0 ''a@b.co c@d.co'' (Some [PiiEmail]))"
proof -
  have "pii_found 0 ''a@b.co c@d.co'' (Some [PiiEmail]) \<noteq> []" using pii_demo_apart by (metis pii_sorted_Nil list.distinct(1))
  then have "pir_has_pii (detect_pii 0 ''a@b.co c@d.co'' (Some [PiiEmail]))" by simp
  from pii_score_bounds [OF this] show ?thesis by (rule conjunct1)
qed

end
