(* ===== verification/FieldEncryption.thy ===== *)
theory FieldEncryption
  imports Tables
begin

text \<open>
  \<^verbatim>\<open>libs/utils/security/field_encryption.py\<close>: \<open>FieldEncryptionManager\<close>. Fernet, base64, the key management service and
  the text functions of Python are parameters; a random draw is a function of the number of draws so far. Operations are
  atomic.
\<close>

section \<open>Data\<close>

datatype enc_algorithm = Aes256Gcm | Aes256Cbc | FernetAlg

fun enc_algorithm_value :: "enc_algorithm \<Rightarrow> string" where
  "enc_algorithm_value Aes256Gcm = ''aes_256_gcm''"
| "enc_algorithm_value Aes256Cbc = ''aes_256_cbc''"
| "enc_algorithm_value FernetAlg = ''fernet''"

datatype rotation_status = KeyActive | KeyRotating | KeyDeprecated | KeyArchived

fun rotation_status_value :: "rotation_status \<Rightarrow> string" where
  "rotation_status_value KeyActive = ''active''"
| "rotation_status_value KeyRotating = ''rotating''"
| "rotation_status_value KeyDeprecated = ''deprecated''"
| "rotation_status_value KeyArchived = ''archived''"

record enc_key =
  ek_key_id :: string
  ek_algorithm :: enc_algorithm
  ek_key_version :: int
  ek_created_at :: rat
  ek_status :: rotation_status
  ek_tenant_id :: string
  ek_field_name :: "string option"

record enc_field =
  ef_data :: string
  ef_key_id :: string
  ef_algorithm :: enc_algorithm
  ef_key_version :: int
  ef_created_at :: rat
  ef_field_name :: string
  ef_tenant_id :: string
  ef_original_type :: string

text \<open>The key management service: it makes and decrypts key material.\<close>

record key_service =
  ks_generate :: "nat \<Rightarrow> string \<Rightarrow> exn + string"
  ks_decrypt :: "nat \<Rightarrow> string \<Rightarrow> exn + string"

record fernet_env =
  fn_new_key :: "nat \<Rightarrow> string"
  fn_make :: "string \<Rightarrow> exn option"
  fn_encrypt :: "string \<Rightarrow> nat \<Rightarrow> string \<Rightarrow> string"
  fn_decrypt :: "string \<Rightarrow> string \<Rightarrow> exn + string"
  fn_b64 :: "string \<Rightarrow> string"
  fn_unb64 :: "string \<Rightarrow> exn + string"
  fn_kms :: "key_service option"
  fn_str :: "json \<Rightarrow> string"
  fn_dumps :: "json \<Rightarrow> exn + string"
  fn_loads :: "string \<Rightarrow> exn + json"
  fn_int :: "string \<Rightarrow> exn + int"
  fn_float :: "string \<Rightarrow> exn + rat"

record fem =
  fem_keys :: "(string, enc_key) dict"
  fem_ciphers :: "(string, string) dict"
  fem_draws :: nat

definition fem_init :: "nat \<Rightarrow> fem" where
  "fem_init draws = \<lparr>fem_keys = [], fem_ciphers = [], fem_draws = draws\<rparr>"

section \<open>Keys\<close>

definition fe_key_id :: "string \<Rightarrow> string \<Rightarrow> string" where
  "fe_key_id tenant_id field_name = tenant_id @ '':'' @ field_name"

definition fe_raise :: "exn \<Rightarrow> (fem, 'a) db_op" where
  "fe_raise e s = (Inl e, s)"

definition fe_draw :: "(nat \<Rightarrow> exn + 'a) \<Rightarrow> (fem, 'a) db_op" where
  "fe_draw f s = (f (fem_draws s), s\<lparr>fem_draws := Suc (fem_draws s)\<rparr>)"

definition fe_key_material :: "fernet_env \<Rightarrow> string \<Rightarrow> (fem, string) db_op" where
  "fe_key_material env key_id =
     (case fn_kms env of
        Some kms \<Rightarrow> fe_draw (\<lambda>n. ks_generate kms n (''alias/'' @ key_id))
      | None \<Rightarrow> fe_draw (\<lambda>n. Inr (fn_new_key env n)))"

definition fe_put_cipher :: "fernet_env \<Rightarrow> string \<Rightarrow> string \<Rightarrow> (fem, unit) db_op" where
  "fe_put_cipher env key_id material s =
     (case fn_make env material of
        Some e \<Rightarrow> (Inl e, s)
      | None \<Rightarrow> (Inr (), s\<lparr>fem_ciphers := dset key_id material (fem_ciphers s)\<rparr>))"

definition fe_create_key :: "fernet_env \<Rightarrow> rat \<Rightarrow> string \<Rightarrow> string \<Rightarrow> (fem, enc_key) db_op" where
  "fe_create_key env now tenant_id field_name =
     (let key_id = fe_key_id tenant_id field_name
      in db_bind (fe_key_material env key_id) (\<lambda>material.
         db_bind (fe_put_cipher env key_id material) (\<lambda>_.
         db_return \<lparr>ek_key_id = key_id, ek_algorithm = FernetAlg, ek_key_version = 1, ek_created_at = now,
                    ek_status = KeyActive, ek_tenant_id = tenant_id, ek_field_name = Some field_name\<rparr>)))"

definition fe_put_key :: "string \<Rightarrow> enc_key \<Rightarrow> (fem, unit) db_op" where
  "fe_put_key key_id key s = (Inr (), s\<lparr>fem_keys := dset key_id key (fem_keys s)\<rparr>)"

definition fe_get_or_create_key :: "fernet_env \<Rightarrow> rat \<Rightarrow> string \<Rightarrow> string \<Rightarrow> (fem, string) db_op" where
  "fe_get_or_create_key env now tenant_id field_name s =
     (let key_id = fe_key_id tenant_id field_name;
          create = db_bind (fe_create_key env now tenant_id field_name) (\<lambda>key.
                   db_bind (fe_put_key key_id key) (\<lambda>_. db_return key_id))
      in case dget (fem_keys s) key_id of
           Some key \<Rightarrow> if ek_status key = KeyActive then (Inr key_id, s) else create s
         | None \<Rightarrow> create s)"

text \<open>The storage of key material is a placeholder: without a key service a new random key is made.\<close>

definition fe_load_key_material :: "fernet_env \<Rightarrow> string \<Rightarrow> (fem, string) db_op" where
  "fe_load_key_material env key_id =
     (case fn_kms env of
        Some kms \<Rightarrow> fe_draw (\<lambda>n. ks_decrypt kms n '''')
      | None \<Rightarrow> fe_draw (\<lambda>n. Inr (fn_new_key env n)))"

definition fe_get_cipher :: "fernet_env \<Rightarrow> string \<Rightarrow> (fem, string) db_op" where
  "fe_get_cipher env key_id s =
     (case dget (fem_ciphers s) key_id of
        Some material \<Rightarrow> (Inr material, s)
      | None \<Rightarrow>
          db_bind (fe_load_key_material env key_id) (\<lambda>material.
          db_bind (fe_put_cipher env key_id material) (\<lambda>_. db_return material)) s)"

section \<open>Encryption and decryption\<close>

fun json_type_name :: "json \<Rightarrow> string" where
  "json_type_name JNull = ''NoneType''"
| "json_type_name (JBool _) = ''bool''"
| "json_type_name (JInt _) = ''int''"
| "json_type_name (JFloat _) = ''float''"
| "json_type_name (JStr _) = ''str''"
| "json_type_name (JList _) = ''list''"
| "json_type_name (JDict _) = ''dict''"

fun fe_serialize :: "fernet_env \<Rightarrow> json \<Rightarrow> exn + string" where
  "fe_serialize env (JList xs) = fn_dumps env (JList xs)"
| "fe_serialize env (JDict d) = fn_dumps env (JDict d)"
| "fe_serialize env (JStr s) = Inr s"
| "fe_serialize env v = Inr (fn_str env v)"

definition fe_lift :: "exn + 'a \<Rightarrow> (fem, 'a) db_op" where
  "fe_lift x s = (x, s)"

definition fe_cached_key :: "string \<Rightarrow> (fem, enc_key) db_op" where
  "fe_cached_key key_id s =
     (case dget (fem_keys s) key_id of None \<Rightarrow> (Inl (key_error key_id), s) | Some key \<Rightarrow> (Inr key, s))"

definition fe_encrypt_field ::
  "fernet_env \<Rightarrow> rat \<Rightarrow> json \<Rightarrow> string \<Rightarrow> string \<Rightarrow> string option \<Rightarrow> (fem, enc_field) db_op" where
  "fe_encrypt_field env now v tenant_id field_name given =
     db_bind (if given = None \<or> given = Some '''' then fe_get_or_create_key env now tenant_id field_name
              else db_return (the given)) (\<lambda>key_id.
     db_bind (fe_get_cipher env key_id) (\<lambda>cipher.
     db_bind (fe_lift (fe_serialize env v)) (\<lambda>serialized.
     db_bind (fe_draw (\<lambda>n. Inr (fn_b64 env (fn_encrypt env cipher n serialized)))) (\<lambda>data.
     db_bind (fe_cached_key key_id) (\<lambda>key.
     db_return \<lparr>ef_data = data, ef_key_id = key_id, ef_algorithm = FernetAlg, ef_key_version = ek_key_version key,
                ef_created_at = now, ef_field_name = field_name, ef_tenant_id = tenant_id,
                ef_original_type = json_type_name v\<rparr>)))))"

text \<open>A text that is not JSON is given back as it is.\<close>

definition fe_deserialize :: "fernet_env \<Rightarrow> string \<Rightarrow> string \<Rightarrow> exn + json" where
  "fe_deserialize env original_type v =
     (if original_type \<in> {''dict'', ''list''} then Inr (case fn_loads env v of Inl _ \<Rightarrow> JStr v | Inr j \<Rightarrow> j)
      else if original_type = ''int'' then map_sum id JInt (fn_int env v)
      else if original_type = ''float'' then map_sum id JFloat (fn_float env v)
      else if original_type = ''bool'' then Inr (JBool (ascii_lower v = ''true''))
      else Inr (JStr v))"

definition fe_decrypt_field :: "fernet_env \<Rightarrow> enc_field \<Rightarrow> (fem, json) db_op" where
  "fe_decrypt_field env ef =
     db_bind (fe_get_cipher env (ef_key_id ef)) (\<lambda>cipher.
     db_bind (fe_lift (fn_unb64 env (ef_data ef))) (\<lambda>encrypted.
     db_bind (fe_lift (fn_decrypt env cipher encrypted)) (\<lambda>v.
     fe_lift (fe_deserialize env (ef_original_type ef) v))))"

section \<open>Rotation and reports\<close>

definition fe_mark_rotating :: "string \<Rightarrow> (fem, unit) db_op" where
  "fe_mark_rotating key_id s =
     (Inr (), case dget (fem_keys s) key_id of
        None \<Rightarrow> s
      | Some key \<Rightarrow> s\<lparr>fem_keys := dset key_id (key\<lparr>ek_status := KeyRotating\<rparr>) (fem_keys s)\<rparr>)"

definition fe_rotate_key :: "fernet_env \<Rightarrow> rat \<Rightarrow> string \<Rightarrow> string \<Rightarrow> (fem, string) db_op" where
  "fe_rotate_key env now tenant_id field_name =
     db_bind (fe_mark_rotating (fe_key_id tenant_id field_name)) (\<lambda>_.
     db_bind (fe_create_key env now tenant_id field_name) (\<lambda>key.
     db_bind (fe_put_key (ek_key_id key) key) (\<lambda>_. db_return (ek_key_id key))))"

definition fe_reencrypt :: "fernet_env \<Rightarrow> rat \<Rightarrow> enc_field \<Rightarrow> string \<Rightarrow> (fem, enc_field) db_op" where
  "fe_reencrypt env now ef new_key_id =
     db_bind (fe_decrypt_field env ef) (\<lambda>v.
     fe_encrypt_field env now v (ef_tenant_id ef) (ef_field_name ef) (Some new_key_id))"

text \<open>Whole days since a key was made.\<close>

definition fe_days :: "rat \<Rightarrow> enc_key \<Rightarrow> int" where
  "fe_days now key = \<lfloor>(now - ek_created_at key) / 86400\<rfloor>"

definition fe_needs_rotation :: "rat \<Rightarrow> enc_key \<Rightarrow> bool" where
  "fe_needs_rotation now key \<longleftrightarrow> 90 \<le> fe_days now key"

definition fe_rotation_status :: "rat \<Rightarrow> string \<Rightarrow> string \<Rightarrow> fem \<Rightarrow> (enc_key \<times> bool) option" where
  "fe_rotation_status now tenant_id field_name s =
     map_option (\<lambda>key. (key, fe_needs_rotation now key)) (dget (fem_keys s) (fe_key_id tenant_id field_name))"

record enc_summary =
  esm_tenant :: string
  esm_total_fields :: nat
  esm_by_status :: "(string, nat) dict"
  esm_needing_rotation :: "(string \<times> string option \<times> rat \<times> int) list"
  esm_algorithms :: "string set"

definition fe_summary :: "rat \<Rightarrow> string \<Rightarrow> fem \<Rightarrow> enc_summary" where
  "fe_summary now tenant_id s =
     (let ks = filter (\<lambda>key. ek_tenant_id key = tenant_id) (map snd (fem_keys s))
      in \<lparr>esm_tenant = tenant_id, esm_total_fields = length ks,
          esm_by_status = map (\<lambda>st. (rotation_status_value st, length (filter (\<lambda>key. ek_status key = st) ks)))
            [KeyActive, KeyRotating, KeyDeprecated, KeyArchived],
          esm_needing_rotation = map (\<lambda>key. (ek_key_id key, ek_field_name key, ek_created_at key, fe_days now key))
            (filter (fe_needs_rotation now) ks),
          esm_algorithms = set (map (\<lambda>key. enc_algorithm_value (ek_algorithm key)) ks)\<rparr>)"

definition fe_cleanup :: "string \<Rightarrow> fem \<Rightarrow> nat \<times> fem" where
  "fe_cleanup tenant_id s =
     (let old = map fst (filter (\<lambda>(_, key). ek_tenant_id key = tenant_id \<and> ek_status key = KeyDeprecated) (fem_keys s))
      in (length old, s\<lparr>fem_keys := fold ddel old (fem_keys s), fem_ciphers := fold ddel old (fem_ciphers s)\<rparr>))"

section \<open>Documented behaviour of the libraries\<close>

text \<open>What was encrypted under a key is decrypted under it; under another key decryption raises. Base64 can be decoded.\<close>

definition fernet_laws :: "fernet_env \<Rightarrow> bool" where
  "fernet_laws env \<longleftrightarrow>
     (\<forall>k n m. fn_decrypt env k (fn_encrypt env k n m) = Inr m) \<and>
     (\<forall>k k' n m. k' \<noteq> k \<longrightarrow> isl (fn_decrypt env k' (fn_encrypt env k n m))) \<and>
     (\<forall>x. fn_unb64 env (fn_b64 env x) = Inr x)"

text \<open>Numbers, truth values and JSON can be read back from their texts.\<close>

definition text_laws :: "fernet_env \<Rightarrow> bool" where
  "text_laws env \<longleftrightarrow>
     (\<forall>i. fn_int env (fn_str env (JInt i)) = Inr i) \<and> (\<forall>q. fn_float env (fn_str env (JFloat q)) = Inr q) \<and>
     (\<forall>b. fn_str env (JBool b) = (if b then ''True'' else ''False'')) \<and>
     (\<forall>v t. fn_dumps env v = Inr t \<longrightarrow> fn_loads env t = Inr v)"

section \<open>What operations do to keys\<close>

lemma db_bind_Inr: "db_bind f g s = (Inr v, s2) \<longleftrightarrow> (\<exists>x s1. f s = (Inr x, s1) \<and> g x s1 = (Inr v, s2))"
  by (auto simp: db_bind_def split: prod.splits sum.splits)

lemmas fe_defs = fe_draw_def fe_key_material_def fe_put_cipher_def fe_create_key_def fe_put_key_def
  fe_get_or_create_key_def fe_load_key_material_def fe_get_cipher_def fe_lift_def fe_cached_key_def db_return_def

lemma fe_get_cipher_stored:
  "fe_get_cipher env k s = (Inr m, s1) \<Longrightarrow> dget (fem_ciphers s1) k = Some m"
  by (auto simp: fe_get_cipher_def fe_put_cipher_def fe_load_key_material_def fe_draw_def db_return_def db_bind_Inr dget_dset
      split: option.splits)

lemma fe_encrypt_facts:
  assumes "fe_encrypt_field env now v t f given s = (Inr ef, s1)"
  obtains m n ser where "dget (fem_ciphers s1) (ef_key_id ef) = Some m" "fe_serialize env v = Inr ser"
    "ef_data ef = fn_b64 env (fn_encrypt env m n ser)" "ef_original_type ef = json_type_name v"
    "ef_tenant_id ef = t" "ef_field_name ef = f" "given = None \<longrightarrow> ef_key_id ef = fe_key_id t f"
proof -
  from assms [unfolded fe_encrypt_field_def db_bind_Inr] obtain k sa m sb ser sc data sd key se where
    k: "(if given = None \<or> given = Some '''' then fe_get_or_create_key env now t f else db_return (the given)) s = (Inr k, sa)" and
    m: "fe_get_cipher env k sa = (Inr m, sb)" and ser: "fe_lift (fe_serialize env v) sb = (Inr ser, sc)" and
    data: "fe_draw (\<lambda>n. Inr (fn_b64 env (fn_encrypt env m n ser))) sc = (Inr data, sd)" and
    key: "fe_cached_key k sd = (Inr key, se)" and
    ef: "db_return \<lparr>ef_data = data, ef_key_id = k, ef_algorithm = FernetAlg, ef_key_version = ek_key_version key,
       ef_created_at = now, ef_field_name = f, ef_tenant_id = t, ef_original_type = json_type_name v\<rparr> se = (Inr ef, s1)"
    by blast
  have sc: "sc = sb" "fe_serialize env v = Inr ser" using ser by (simp_all add: fe_lift_def)
  have sd: "data = fn_b64 env (fn_encrypt env m (fem_draws sc) ser)" "fem_ciphers sd = fem_ciphers sc"
    using data by (auto simp: fe_draw_def)
  have se: "se = sd" using key by (simp add: fe_cached_key_def split: option.splits)
  have "given = None \<longrightarrow> k = fe_key_id t f"
    using k by (auto simp: fe_get_or_create_key_def db_bind_Inr db_return_def Let_def split: option.splits if_splits)
  with fe_get_cipher_stored [OF m] sc sd se ef show ?thesis
    by (intro that [of m ser "fem_draws sc"]) (auto simp: db_return_def)
qed

lemma fe_decrypt_cached:
  assumes "dget (fem_ciphers s) (ef_key_id ef) = Some m"
  shows "fst (fe_decrypt_field env ef s) =
    ebind (fn_unb64 env (ef_data ef)) (\<lambda>x. ebind (fn_decrypt env m x) (fe_deserialize env (ef_original_type ef)))"
  using assms by (simp add: fe_decrypt_field_def db_bind_def fe_get_cipher_def fe_lift_def ebind_def split: sum.split)

text \<open>
  C27. A value that was encrypted is decrypted to itself as long as the cipher of its key is still there; only \<open>None\<close> comes
  back as a text.
\<close>

theorem fe_roundtrip:
  assumes fernet: "fernet_laws env" and texts: "text_laws env"
    and enc: "fe_encrypt_field env now v t f given s = (Inr ef, s1)"
    and kept: "dget (fem_ciphers s2) (ef_key_id ef) = dget (fem_ciphers s1) (ef_key_id ef)"
  shows "fst (fe_decrypt_field env ef s2) = Inr (if v = JNull then JStr (fn_str env JNull) else v)"
proof -
  obtain m n ser where m: "dget (fem_ciphers s1) (ef_key_id ef) = Some m" and ser: "fe_serialize env v = Inr ser"
    and data: "ef_data ef = fn_b64 env (fn_encrypt env m n ser)" "ef_original_type ef = json_type_name v"
    by (rule fe_encrypt_facts [OF enc])
  have "fst (fe_decrypt_field env ef s2) = fe_deserialize env (json_type_name v) ser"
    using fernet by (simp add: fe_decrypt_cached kept m data fernet_laws_def)
  moreover have "fe_deserialize env (json_type_name v) ser = Inr (if v = JNull then JStr (fn_str env JNull) else v)"
  proof -
    have laws: "fn_int env (fn_str env (JInt i)) = Inr i" "fn_float env (fn_str env (JFloat q)) = Inr q"
      "fn_str env (JBool b) = (if b then ''True'' else ''False'')" for i q b
      using texts by (simp_all add: text_laws_def)
    have loads: "fn_loads env ser = Inr v" if "fn_dumps env v = Inr ser" using that texts by (simp add: text_laws_def)
    show ?thesis
    proof (cases v)
      case (JBool b)
      have "ascii_lower ''True'' = ''true''" "ascii_lower ''False'' \<noteq> ''true''" by code_simp+
      then show ?thesis using JBool ser laws by (cases b) (auto simp: fe_deserialize_def)
    next
      case (JInt i)
      then show ?thesis using ser laws(1) [of i] by (auto simp: fe_deserialize_def)
    next
      case (JFloat q)
      then show ?thesis using ser laws(2) [of q] by (auto simp: fe_deserialize_def)
    qed (use ser loads in \<open>auto simp: fe_deserialize_def\<close>)
  qed
  ultimately show ?thesis by simp
qed

text \<open>Without a key service all key material comes from the random generator.\<close>

definition fe_drawn :: "fernet_env \<Rightarrow> fem \<Rightarrow> bool" where
  "fe_drawn env s \<longleftrightarrow> (\<forall>k m. dget (fem_ciphers s) k = Some m \<longrightarrow> (\<exists>i < fem_draws s. m = fn_new_key env i))"

lemma fe_create_key_facts:
  assumes "fn_kms env = None" and "fe_create_key env now t f s = (Inr key, s1)"
  shows "dget (fem_ciphers s1) (fe_key_id t f) = Some (fn_new_key env (fem_draws s))"
    "fem_draws s1 = Suc (fem_draws s)" "ek_key_id key = fe_key_id t f"
  using assms by (auto simp: fe_defs db_bind_Inr Let_def dget_dset split: option.splits)

lemma fe_rotate_facts:
  assumes "fn_kms env = None" and "fe_rotate_key env now t f s = (Inr k, s1)"
  shows "dget (fem_ciphers s1) (fe_key_id t f) = Some (fn_new_key env (fem_draws s))" "k = fe_key_id t f"
proof -
  from assms(2) [unfolded fe_rotate_key_def db_bind_Inr] obtain u sa key sb v sc where
    x: "fe_mark_rotating (fe_key_id t f) s = (Inr u, sa)" "fe_create_key env now t f sa = (Inr key, sb)"
      "fe_put_key (ek_key_id key) key sb = (Inr v, sc)" "db_return (ek_key_id key) sc = (Inr k, s1)"
    by blast
  have a: "fem_draws sa = fem_draws s" "fe_create_key env now t f sa = (Inr key, sb)"
      "s1 = sb\<lparr>fem_keys := dset (ek_key_id key) key (fem_keys sb)\<rparr>" "k = ek_key_id key"
    using x by (auto simp: fe_mark_rotating_def fe_put_key_def db_return_def split: option.splits)
  from fe_create_key_facts [OF assms(1) a(2)] a show "dget (fem_ciphers s1) (fe_key_id t f) = Some (fn_new_key env (fem_draws s))"
    "k = fe_key_id t f" by simp_all
qed

lemma fe_drawn_draw [simp]: "fe_drawn env s \<Longrightarrow> fe_drawn env (s\<lparr>fem_draws := Suc (fem_draws s)\<rparr>)"
  by (auto simp: fe_drawn_def less_Suc_eq)

lemma fe_drawn_put [simp]: "fe_drawn env s \<Longrightarrow> fe_drawn env (s\<lparr>fem_keys := d\<rparr>)"
  by (simp add: fe_drawn_def)

lemma fe_drawn_cipher:
  "fe_drawn env s \<Longrightarrow> fe_drawn env (s\<lparr>fem_draws := Suc (fem_draws s), fem_ciphers := dset k (fn_new_key env (fem_draws s)) (fem_ciphers s)\<rparr>)"
  by (auto simp: fe_drawn_def dget_dset less_Suc_eq)

lemma fe_create_key_drawn:
  assumes "fn_kms env = None" and "fe_drawn env s"
  shows "fe_drawn env (snd (fe_create_key env now t f s))"
  using assms fe_drawn_cipher [OF assms(2)] by (simp add: fe_defs db_bind_def Let_def split: option.split)

lemma fe_get_cipher_drawn:
  assumes "fn_kms env = None" and "fe_drawn env s"
  shows "fe_drawn env (snd (fe_get_cipher env k s))"
  using assms fe_drawn_cipher [OF assms(2)] by (simp add: fe_defs db_bind_def Let_def split: option.split)

lemma snd_db_bind: "P (snd (f s)) \<Longrightarrow> (\<And>x s1. P s1 \<Longrightarrow> P (snd (g x s1))) \<Longrightarrow> P (snd (db_bind f g s))"
  by (cases "f s") (auto simp: db_bind_def split: sum.split)

lemmas drawn_bind = snd_db_bind [where P = "fe_drawn env" for env]


lemma fe_encrypt_drawn:
  assumes kms: "fn_kms env = None" and s: "fe_drawn env s"
  shows "fe_drawn env (snd (fe_encrypt_field env now v t f given s))"
proof -
  have "fe_drawn env (snd ((if given = None \<or> given = Some '''' then fe_get_or_create_key env now t f else db_return (the given)) s))"
    using s fe_create_key_drawn [OF kms s, of now t f]
    by (auto simp: fe_get_or_create_key_def fe_put_key_def db_return_def db_bind_def Let_def split: option.split prod.split sum.split)
  then show ?thesis unfolding fe_encrypt_field_def
    by (intro drawn_bind)
      (auto simp: fe_get_cipher_drawn [OF kms] fe_lift_def fe_draw_def fe_cached_key_def db_return_def split: option.split)
qed


section \<open>The life of a key\<close>

datatype fe_op =
    FeEncrypt json string string "string option"
  | FeDecrypt enc_field
  | FeRotate string string
  | FeReencrypt enc_field string
  | FeCleanup string

fun fe_do :: "fernet_env \<Rightarrow> rat \<Rightarrow> fe_op \<Rightarrow> fem \<Rightarrow> fem" where
  "fe_do env now (FeEncrypt v t f k) s = snd (fe_encrypt_field env now v t f k s)"
| "fe_do env now (FeDecrypt ef) s = snd (fe_decrypt_field env ef s)"
| "fe_do env now (FeRotate t f) s = snd (fe_rotate_key env now t f s)"
| "fe_do env now (FeReencrypt ef k) s = snd (fe_reencrypt env now ef k s)"
| "fe_do env now (FeCleanup t) s = snd (fe_cleanup t s)"

definition fe_current :: "fem \<Rightarrow> bool" where
  "fe_current s \<longleftrightarrow> dall (\<lambda>key. ek_status key \<in> {KeyActive, KeyRotating} \<and> ek_key_version key = 1) (fem_keys s)"

lemmas current_bind = snd_db_bind [where P = fe_current]

lemma fe_current_simps [simp]:
  "fe_current (s\<lparr>fem_draws := n\<rparr>) = fe_current s" "fe_current (s\<lparr>fem_ciphers := d\<rparr>) = fe_current s"
  by (simp_all add: fe_current_def)

lemma fe_current_dset:
  "fe_current s \<Longrightarrow> ek_status key \<in> {KeyActive, KeyRotating} \<Longrightarrow> ek_key_version key = 1 \<Longrightarrow>
     fe_current (s\<lparr>fem_keys := dset k key (fem_keys s)\<rparr>)"
  by (auto simp: fe_current_def dall_def dest: mem_dset)

lemma fe_create_key_current:
  assumes "fe_current s"
  shows "fe_current (snd (fe_create_key env now t f s))"
    "fe_create_key env now t f s = (Inr key, s1) \<Longrightarrow> ek_status key = KeyActive \<and> ek_key_version key = 1"
proof -
  show "fe_current (snd (fe_create_key env now t f s))"
    unfolding fe_create_key_def Let_def using assms
    by (intro current_bind) (auto simp: fe_key_material_def fe_draw_def fe_put_cipher_def db_return_def split: option.split)
  show "fe_create_key env now t f s = (Inr key, s1) \<Longrightarrow> ek_status key = KeyActive \<and> ek_key_version key = 1"
    by (auto simp: fe_create_key_def db_bind_Inr db_return_def Let_def)
qed

lemma fe_create_put_current:
  assumes "fe_current s"
  shows "fe_current (snd (db_bind (fe_create_key env now t f) (\<lambda>key. db_bind (fe_put_key (h key) key) (\<lambda>_. db_return (r key))) s))"
  using fe_create_key_current [OF assms, of env now t f]
  by (auto simp: db_bind_def fe_put_key_def db_return_def intro!: fe_current_dset split: prod.split sum.split)

lemma fe_get_cipher_current: "fe_current s \<Longrightarrow> fe_current (snd (fe_get_cipher env k s))"
  by (auto simp: fe_defs db_bind_def split: option.split sum.split)

lemma fe_encrypt_current: "fe_current s \<Longrightarrow> fe_current (snd (fe_encrypt_field env now v t f k s))"
  unfolding fe_encrypt_field_def
  by (intro current_bind)
    (auto simp: fe_get_or_create_key_def Let_def fe_create_put_current fe_get_cipher_current fe_lift_def fe_draw_def
      fe_cached_key_def db_return_def split: option.split)

lemma fe_decrypt_current: "fe_current s \<Longrightarrow> fe_current (snd (fe_decrypt_field env ef s))"
  unfolding fe_decrypt_field_def by (intro current_bind) (auto simp: fe_get_cipher_current fe_lift_def)

lemma fe_rotate_current:
  assumes "fe_current s"
  shows "fe_current (snd (fe_rotate_key env now t f s))"
proof -
  have "fe_current (snd (fe_mark_rotating k s))" for k
    using assms dall_dget [OF assms [unfolded fe_current_def]]
    by (auto simp: fe_mark_rotating_def intro!: fe_current_dset split: option.split)
  then show ?thesis unfolding fe_rotate_key_def
    by (rule current_bind) (rule fe_create_put_current)
qed

text \<open>
  No key is ever deprecated or gets a version other than 1: whatever the manager is asked to do, a clean-up of
  deprecated keys finds none and changes nothing.
\<close>

theorem fe_nothing_deprecated:
  "fe_cleanup tenant (fold (\<lambda>(now, op). fe_do env now op) ops (fem_init draws)) =
     (0, fold (\<lambda>(now, op). fe_do env now op) ops (fem_init draws)) \<and>
   dall (\<lambda>key. ek_key_version key = 1) (fem_keys (fold (\<lambda>(now, op). fe_do env now op) ops (fem_init draws)))"
proof -
  have none: "fe_cleanup tenant s = (0, s)" if "fe_current s" for s tenant
  proof -
    have "filter (\<lambda>(_, key). ek_tenant_id key = tenant \<and> ek_status key = KeyDeprecated) (fem_keys s) = []"
      using that by (auto simp: fe_current_def dall_def filter_empty_conv)
    then show ?thesis by (simp only: fe_cleanup_def Let_def) simp
  qed
  have "fe_current (fe_do env now op s)" if "fe_current s" for now op s
    using that none [OF that]
    by (cases op) (auto simp: fe_encrypt_current fe_decrypt_current fe_rotate_current fe_reencrypt_def
        intro!: current_bind)
  then have "fe_current (fold (\<lambda>(now, op). fe_do env now op) ops s)" if "fe_current s" for s
    using that by (induction ops arbitrary: s) auto
  moreover have "fe_current (fem_init draws)" by (simp add: fe_current_def fem_init_def)
  ultimately have "fe_current (fold (\<lambda>(now, op). fe_do env now op) ops (fem_init draws))" by blast
  then show ?thesis using none by (auto simp: fe_current_def dall_def)
qed

section \<open>Examples\<close>

text \<open>A cipher that puts the key, with each character marked, before the text; and readable numbers.\<close>

fun demo_split :: "string \<Rightarrow> string \<times> string" where
  "demo_split (a # c # s) = (if a = CHR ''1'' then apfst (Cons c) (demo_split s) else ([], c # s))"
| "demo_split s = ([], tl s)"

definition demo_join :: "string \<Rightarrow> string \<Rightarrow> string" where
  "demo_join k m = concat (map (\<lambda>c. [CHR ''1'', c]) k) @ CHR ''0'' # m"

lemma demo_split_join: "demo_split (demo_join k m) = (k, m)"
proof (induction k)
  case Nil
  then show ?case by (cases m) (simp_all add: demo_join_def)
qed (simp add: demo_join_def)

definition demo_int :: "int \<Rightarrow> string" where
  "demo_int i = (if i < 0 then CHR ''-'' # replicate (nat (- i)) (CHR ''x'') else replicate (nat i) (CHR ''x''))"

definition demo_int_of :: "string \<Rightarrow> int" where
  "demo_int_of s = (case s of [] \<Rightarrow> 0 | c # cs \<Rightarrow> if c = CHR ''-'' then - int (length cs) else int (length s))"

lemma demo_int_inverse: "demo_int_of (demo_int i) = i"
proof (cases "i < 0")
  case False
  then show ?thesis by (cases "nat i") (auto simp: demo_int_def demo_int_of_def)
qed (simp add: demo_int_def demo_int_of_def)

definition demo_rat :: "rat \<Rightarrow> string" where
  "demo_rat q = (case quotient_of q of (a, b) \<Rightarrow> demo_join (demo_int a) (demo_int b))"

definition demo_rat_of :: "string \<Rightarrow> rat" where
  "demo_rat_of s = (case demo_split s of (a, b) \<Rightarrow> of_int (demo_int_of a) / of_int (demo_int_of b))"

lemma demo_rat_inverse: "demo_rat_of (demo_rat q) = q"
  using quotient_of_div [of q]
  by (cases "quotient_of q") (simp add: demo_rat_def demo_rat_of_def demo_split_join demo_int_inverse)

fun demo_str :: "json \<Rightarrow> string" where
  "demo_str (JInt i) = demo_int i"
| "demo_str (JFloat q) = demo_rat q"
| "demo_str (JBool b) = (if b then ''True'' else ''False'')"
| "demo_str _ = ''None''"

definition fernet_demo :: fernet_env where
  "fernet_demo =
     \<lparr>fn_new_key = nat_str, fn_make = (\<lambda>_. None), fn_encrypt = (\<lambda>k _. demo_join k),
      fn_decrypt = (\<lambda>k c. if fst (demo_split c) = k then Inr (snd (demo_split c)) else Inl (exception ''InvalidToken'')),
      fn_b64 = id, fn_unb64 = Inr, fn_kms = None, fn_str = demo_str,
      fn_dumps = (\<lambda>v. if v = JList [] then Inr ''[]'' else Inl (type_error '''')),
      fn_loads = (\<lambda>s. if s = ''[]'' then Inr (JList []) else Inl (value_error '''')),
      fn_int = (\<lambda>s. Inr (demo_int_of s)), fn_float = (\<lambda>s. Inr (demo_rat_of s))\<rparr>"

lemma fernet_demo_laws: "fernet_laws fernet_demo" "text_laws fernet_demo" "fn_kms fernet_demo = None" "inj (fn_new_key fernet_demo)"
  by (auto simp: fernet_demo_def fernet_laws_def text_laws_def demo_split_join demo_int_inverse demo_rat_inverse inj_nat_str
      split: if_splits)

definition fe_demo_field :: enc_field where
  "fe_demo_field = \<lparr>ef_data = demo_join ''0'' ''secret'', ef_key_id = ''t:f'', ef_algorithm = FernetAlg, ef_key_version = 1,
     ef_created_at = 5, ef_field_name = ''f'', ef_tenant_id = ''t'', ef_original_type = ''str''\<rparr>"

definition fe_demo :: fem where
  "fe_demo = snd (fe_encrypt_field fernet_demo 5 (JStr ''secret'') ''t'' ''f'' None (fem_init 0))"

lemma fe_demo_encrypted:
  "fe_encrypt_field fernet_demo 5 (JStr ''secret'') ''t'' ''f'' None (fem_init 0) = (Inr fe_demo_field, fe_demo)"
  "dget (fem_ciphers fe_demo) ''t:f'' = Some ''0''"
proof -
  have "nat_str 0 = ''0''" by code_simp
  then show "fe_encrypt_field fernet_demo 5 (JStr ''secret'') ''t'' ''f'' None (fem_init 0) = (Inr fe_demo_field, fe_demo)"
    "dget (fem_ciphers fe_demo) ''t:f'' = Some ''0''"
    by (simp_all add: fe_demo_def fe_demo_field_def fe_encrypt_field_def fe_defs fem_init_def fe_key_id_def fernet_demo_def
      db_bind_def Let_def)
qed

theorem fe_roundtrip_witness: "fst (fe_decrypt_field fernet_demo fe_demo_field fe_demo) = Inr (JStr ''secret'')"
  using fe_roundtrip [OF fernet_demo_laws(1,2) fe_demo_encrypted(1) refl] by simp


end
