(* ===== verification/PrivacyMiddleware.thy ===== *)
theory PrivacyMiddleware
  imports PiiDetector FieldEncryption
begin

text \<open>
  \<^verbatim>\<open>libs/middleware/privacy_middleware.py\<close>: \<open>PrivacyMiddleware\<close> and \<open>PrivacyValidator\<close> over the detector of theory
  \<open>PiiDetector\<close> and the encryption of theory \<open>FieldEncryption\<close>. The application behind the middleware, the text functions
  and the value of \<open>DocumentSensitivity.PUBLIC\<close>, whose module is not in the repository, are parameters. The names of headers are in lower case.
  Content that is protected is not cyclic, so that nothing in its recursion raises.
\<close>

record http_response =
  hr_status :: int
  hr_headers :: "(string, string) dict"
  hr_body :: "string option"

record pm_stats =
  pms_total_requests :: nat
  pms_pii_detected :: nat
  pms_pii_redacted :: nat
  pms_encryption_applied :: nat

record pm =
  pm_fem :: fem
  pm_stats :: pm_stats

text \<open>\<open>pe_render\<close> is the body that \<open>JSONResponse\<close> makes of its content.\<close>

record pm_env =
  pe_fernet :: fernet_env
  pe_isoformat :: "rat \<Rightarrow> string"
  pe_public :: string
  pe_render :: "json \<Rightarrow> string"

definition pm_init :: "fem \<Rightarrow> pm" where
  "pm_init F = \<lparr>pm_fem = F, pm_stats = \<lparr>pms_total_requests = 0, pms_pii_detected = 0, pms_pii_redacted = 0, pms_encryption_applied = 0\<rparr>\<rparr>"

section \<open>Strings\<close>

definition no_tenant :: "string option \<Rightarrow> bool" where
  "no_tenant t \<longleftrightarrow> t = None \<or> t = Some ''''"

definition pm_allowed_types :: "string option \<Rightarrow> pii_type list" where
  "pm_allowed_types tenant =
     (if no_tenant tenant then [PiiEmail, PiiPhone] else [PiiEmail, PiiPhone, PiiIpAddress, PiiMacAddress])"

definition pm_apply_redaction :: "string \<Rightarrow> pii_detection list \<Rightarrow> string" where
  "pm_apply_redaction content ds = fold pii_redact_one (pii_sorted ds) content"

text \<open>The detections that are kept for redaction are those of the allowed types.\<close>

definition pm_protect_string :: "rat \<Rightarrow> string option \<Rightarrow> string \<Rightarrow> string" where
  "pm_protect_string now tenant content =
     (let r = detect_pii now content None
      in if pir_has_pii r
         then (let ds = filter (\<lambda>d. pid_type d \<in> set (pm_allowed_types tenant)) (pir_detections r)
               in if ds \<noteq> [] then pm_apply_redaction content ds else content)
         else content)"

section \<open>Fields\<close>

definition pm_sensitive_fields :: "string list" where
  "pm_sensitive_fields =
     [''password'', ''secret'', ''token'', ''key'', ''credential'', ''ssn'', ''social_security'', ''credit_card'',
      ''bank_account'', ''private_key'', ''api_key'', ''access_token'']"

definition pm_should_encrypt :: "string \<Rightarrow> bool" where
  "pm_should_encrypt name \<longleftrightarrow> list_ex (\<lambda>f. str_contains f (ascii_lower name)) pm_sensitive_fields"

definition pm_masked_value :: json where
  "pm_masked_value = JDict [(''encrypted'', JBool True), (''value'', JStr ''***'')]"

definition pm_encrypt_value :: "pm_env \<Rightarrow> rat \<Rightarrow> json \<Rightarrow> string option \<Rightarrow> string \<Rightarrow> fem \<Rightarrow> json \<times> fem" where
  "pm_encrypt_value env now v tenant name F =
     (if no_tenant tenant then (pm_masked_value, F)
      else case fe_encrypt_field (pe_fernet env) now v (the tenant) name None F of
             (Inl _, F1) \<Rightarrow> (pm_masked_value, F1)
           | (Inr ef, F1) \<Rightarrow>
               (JDict [(''encrypted'', JBool True), (''key_id'', JStr (ef_key_id ef)),
                       (''algorithm'', JStr (enc_algorithm_value (ef_algorithm ef))),
                       (''created_at'', JStr (pe_isoformat env (ef_created_at ef))), (''value'', JStr (ef_data ef))], F1))"

definition pm_metadata :: "pm_env \<Rightarrow> bool \<Rightarrow> json" where
  "pm_metadata env encrypted =
     JDict [(''pii_detected'', JBool False), (''pii_redacted'', JBool False), (''encryption_applied'', JBool encrypted),
            (''sensitivity_level'', JStr (pe_public env))]"

text \<open>Content, the entries of a dictionary, and the items of a list, in the order of the code.\<close>

fun pm_protect :: "pm_env \<Rightarrow> rat \<Rightarrow> string option \<Rightarrow> json \<Rightarrow> fem \<Rightarrow> json \<times> fem"
  and pm_protect_entries :: "pm_env \<Rightarrow> rat \<Rightarrow> string option \<Rightarrow> (string \<times> json) list \<Rightarrow> bool \<Rightarrow> (string, json) dict \<Rightarrow> fem \<Rightarrow>
    bool \<times> (string, json) dict \<times> fem"
  and pm_protect_items :: "pm_env \<Rightarrow> rat \<Rightarrow> string option \<Rightarrow> json list \<Rightarrow> fem \<Rightarrow> json list \<times> fem" where
  "pm_protect env now tenant (JDict d) F =
     (case pm_protect_entries env now tenant d False [] F of
        (encrypted, d1, F1) \<Rightarrow> (JDict (dset ''_privacy_metadata'' (pm_metadata env encrypted) d1), F1))"
| "pm_protect env now tenant (JList xs) F = (case pm_protect_items env now tenant xs F of (ys, F1) \<Rightarrow> (JList ys, F1))"
| "pm_protect env now tenant (JStr s) F = (JStr (pm_protect_string now tenant s), F)"
| "pm_protect env now tenant v F = (v, F)"
| "pm_protect_entries env now tenant [] encrypted d F = (encrypted, d, F)"
| "pm_protect_entries env now tenant ((k, v) # xs) encrypted d F =
     (if starts_with ''_privacy_'' k then pm_protect_entries env now tenant xs encrypted d F
      else if pm_should_encrypt k
      then (case pm_encrypt_value env now v tenant k F of
              (v1, F1) \<Rightarrow> pm_protect_entries env now tenant xs True (dset k v1 d) F1)
      else (case pm_protect env now tenant v F of
              (v1, F1) \<Rightarrow> pm_protect_entries env now tenant xs encrypted (dset k v1 d) F1))"
| "pm_protect_items env now tenant [] F = ([], F)"
| "pm_protect_items env now tenant (x # xs) F =
     (case pm_protect env now tenant x F of
        (y, F1) \<Rightarrow> (case pm_protect_items env now tenant xs F1 of (ys, F2) \<Rightarrow> (y # ys, F2)))"

section \<open>Responses\<close>

definition pm_is_json :: "http_response \<Rightarrow> bool" where
  "pm_is_json r \<longleftrightarrow> str_contains ''application/json'' (ascii_lower (dget_or '''' (hr_headers r) ''content-type''))"

text \<open>What is made of the protected content: only a dictionary has a method \<open>get\<close>.\<close>

definition pm_new_response :: "pm_env \<Rightarrow> json \<Rightarrow> http_response \<Rightarrow> exn + http_response" where
  "pm_new_response env v r =
     ebind (fn_dumps (pe_fernet env) v) (\<lambda>body.
     ebind (fn_loads (pe_fernet env) body) (\<lambda>content.
     ebind (py_get v ''_privacy_metadata'' (JDict [])) (\<lambda>meta.
     ebind (py_get meta ''pii_redacted'' (JBool False)) (\<lambda>redacted.
       Inr (r\<lparr>hr_body := Some (pe_render env content),
             hr_headers := dset ''x-pii-redacted'' (fn_str (pe_fernet env) redacted)
               (dset ''x-privacy-protected'' ''true'' (hr_headers r))\<rparr>)))))"

definition pm_apply :: "pm_env \<Rightarrow> rat \<Rightarrow> string option \<Rightarrow> http_response \<Rightarrow> fem \<Rightarrow> http_response \<times> fem" where
  "pm_apply env now tenant r F =
     (if \<not> pm_is_json r then (r, F)
      else case hr_body r of
             None \<Rightarrow> (r, F)
           | Some body \<Rightarrow>
               if body = '''' then (r, F)
               else (case fn_loads (pe_fernet env) body of
                       Inl _ \<Rightarrow> (r, F)
                     | Inr content \<Rightarrow>
                         (case pm_protect env now tenant content F of
                            (v, F1) \<Rightarrow> (case pm_new_response env v r of Inl _ \<Rightarrow> (r, F1) | Inr r1 \<Rightarrow> (r1, F1)))))"

definition pm_update_stats :: "http_response \<Rightarrow> pm_stats \<Rightarrow> pm_stats" where
  "pm_update_stats r st =
     st\<lparr>pms_total_requests := pms_total_requests st + 1,
        pms_pii_redacted := pms_pii_redacted st +
          (if ascii_lower (dget_or ''false'' (hr_headers r) ''x-pii-redacted'') = ''true'' then 1 else 0),
        pms_encryption_applied := pms_encryption_applied st +
          (if ascii_lower (dget_or ''false'' (hr_headers r) ''x-privacy-protected'') = ''true'' then 1 else 0)\<rparr>"

definition pm_header :: "string \<Rightarrow> (string, string) dict \<Rightarrow> string option" where
  "pm_header name hs = (case dget hs name of None \<Rightarrow> None | Some v \<Rightarrow> if v = '''' then None else Some v)"

text \<open>The application is a function of its world; when it raises, it is called a second time.\<close>

definition pm_call ::
  "pm_env \<Rightarrow> ('w \<Rightarrow> (exn + http_response) \<times> 'w) \<Rightarrow> rat \<Rightarrow> (string, string) dict \<Rightarrow> 'w \<Rightarrow> pm \<Rightarrow> (exn + http_response) \<times> 'w \<times> pm" where
  "pm_call env call_next now request_headers w m =
     (case call_next w of
        (Inl _, w1) \<Rightarrow> (case call_next w1 of (x, w2) \<Rightarrow> (x, w2, m))
      | (Inr r, w1) \<Rightarrow>
          (case pm_apply env now (pm_header ''x-tenant-id'' request_headers) r (pm_fem m) of
             (r1, F1) \<Rightarrow> (Inr r1, w1, m\<lparr>pm_fem := F1, pm_stats := pm_update_stats r1 (pm_stats m)\<rparr>)))"

definition pm_rate :: "nat \<Rightarrow> nat \<Rightarrow> rat" where
  "pm_rate n requests = (if 0 < requests then of_nat n / of_nat requests * 100 else 0)"

record pm_report =
  pmr_total_requests :: nat
  pmr_pii_redacted :: nat
  pmr_encryption_applied :: nat
  pmr_pii_redaction_rate :: rat
  pmr_encryption_rate :: rat

definition pm_get_stats :: "pm \<Rightarrow> pm_report" where
  "pm_get_stats m =
     (let st = pm_stats m; requests = pms_total_requests st
      in \<lparr>pmr_total_requests = requests, pmr_pii_redacted = pms_pii_redacted st,
          pmr_encryption_applied = pms_encryption_applied st, pmr_pii_redaction_rate = pm_rate (pms_pii_redacted st) requests,
          pmr_encryption_rate = pm_rate (pms_encryption_applied st) requests\<rparr>)"

section \<open>The validator of requests\<close>

record pv_report =
  pvr_compliant :: bool
  pvr_violations :: "(string \<times> string \<times> rat) list"
  pvr_pii_detected :: bool
  pvr_score :: rat

definition pv_allowed_types :: "pii_type list" where
  "pv_allowed_types = [PiiEmail, PiiPhone]"

definition pv_violations :: "pii_detection list \<Rightarrow> (string \<times> string \<times> rat) list" where
  "pv_violations ds =
     map (\<lambda>d. (pii_type_value (pid_type d), pii_level_value (pid_level d), pid_confidence d))
       (filter (\<lambda>d. pid_type d \<notin> set pv_allowed_types) ds)"

text \<open>An empty body and a body that is not JSON comply; a failure of \<open>dumps\<close> is a violation of its own.\<close>

definition pv_validate_request :: "fernet_env \<Rightarrow> rat \<Rightarrow> string \<Rightarrow> exn + pv_report option" where
  "pv_validate_request tx now body =
     (if body = '''' then Inr None
      else case fn_loads tx body of
             Inl _ \<Rightarrow> Inr None
           | Inr content \<Rightarrow>
               ebind (fn_dumps tx content) (\<lambda>s.
                 (let r = detect_pii now s None;
                      vs = (if pir_has_pii r then pv_violations (pir_detections r) else [])
                  in Inr (Some \<lparr>pvr_compliant = vs = [], pvr_violations = vs, pvr_pii_detected = pir_has_pii r,
                                pvr_score = pir_score r\<rparr>))))"

section \<open>Properties\<close>


text \<open>An entry whose value is encrypted: its value is masked or what the cipher made of it.\<close>

definition pm_hidden :: "json \<Rightarrow> bool" where
  "pm_hidden v \<longleftrightarrow> v = pm_masked_value \<or>
     (\<exists>key_id alg created c. v = JDict [(''encrypted'', JBool True), (''key_id'', JStr key_id), (''algorithm'', JStr alg),
        (''created_at'', JStr created), (''value'', JStr c)])"

text \<open>At every depth, what has a sensitive name is hidden.\<close>

fun pm_safe :: "json \<Rightarrow> bool" where
  "pm_safe (JDict d) \<longleftrightarrow>
     list_all (\<lambda>(k, v). k = ''_privacy_metadata'' \<or> (if pm_should_encrypt k then pm_hidden v else pm_safe v)) d"
| "pm_safe (JList xs) \<longleftrightarrow> list_all pm_safe xs"
| "pm_safe v \<longleftrightarrow> True"

lemma pm_encrypt_hidden: "pm_hidden (fst (pm_encrypt_value env now v tenant k F))"
  by (auto simp: pm_encrypt_value_def pm_hidden_def split: prod.split sum.split)

lemma list_all_dset: "list_all P d \<Longrightarrow> P (k, v) \<Longrightarrow> list_all P (dset k v d)"
  by (auto simp: list_all_iff dest!: mem_dset)

lemma pm_protect_safe:
  "pm_safe (fst (pm_protect env now tenant v F))"
  "pm_safe (JDict d) \<Longrightarrow> pm_safe (JDict (fst (snd (pm_protect_entries env now tenant xs e d F))))"
  "list_all pm_safe (fst (pm_protect_items env now tenant ys F))"
proof (induction env now tenant v F and env now tenant xs e d F and env now tenant ys F
    rule: pm_protect_pm_protect_entries_pm_protect_items.induct, goal_cases)
  case (1 env now tenant d F)
  then show ?case by (auto split: prod.split split del: if_split intro!: list_all_dset)
next
  case (9 env now tenant k v xs encrypted d F)
  show ?case
  proof (cases "starts_with ''_privacy_'' k")
    case True
    then show ?thesis using 9 by simp
  next
    case False
    show ?thesis
    proof (cases "pm_should_encrypt k")
      case True
      obtain v1 F1 where v1: "pm_encrypt_value env now v tenant k F = (v1, F1)" by (cases "pm_encrypt_value env now v tenant k F")
      have "pm_safe (JDict (dset k v1 d))"
        using 9(5) pm_encrypt_hidden [of env now v tenant k F] True v1 by (auto intro: list_all_dset split del: if_split)
      with 9 False True v1 show ?thesis by simp
    next
      case plain: False
      obtain v1 F1 where v1: "pm_protect env now tenant v F = (v1, F1)" by (cases "pm_protect env now tenant v F")
      have "pm_safe v1" using 9 False plain v1 by (metis fst_conv)
      then have "pm_safe (JDict (dset k v1 d))" using 9(5) plain by (auto intro: list_all_dset split del: if_split)
      with 9 False plain v1 show ?thesis by simp
    qed
  qed
qed (auto split: prod.split)


text \<open>
  C38. Responses that are not objects are not protected: when the body of a JSON response is a list, a string or a number,
  the response goes out as the application made it, whatever it contains.
\<close>

theorem pm_lists_unprotected:
  assumes "fn_loads (pe_fernet env) body = Inr content" and "hr_body r = Some body" and "\<nexists>d. content = JDict d"
  shows "fst (pm_apply env now tenant r F) = r"
proof -
  have "\<nexists>d. fst (pm_protect env now tenant content F) = JDict d"
    using assms(3) by (cases content) (auto split: prod.split)
  then have "\<exists>e. pm_new_response env (fst (pm_protect env now tenant content F)) r = Inl e"
    by (cases "fst (pm_protect env now tenant content F)") (auto simp: pm_new_response_def ebind_def split: sum.split)
  then show ?thesis using assms(1,2) by (auto simp: pm_apply_def split: prod.split)
qed

text \<open>
  A request that fails is made twice: when the application raises, the middleware calls it again, and what the second
  call changes and yields is the result.
\<close>

theorem pm_failed_request_runs_twice:
  assumes "call_next w = (Inl e, w1)"
  shows "pm_call env call_next now headers w m = (fst (call_next w1), snd (call_next w1), m)"
  using assms by (simp add: pm_call_def split: prod.split)

text \<open>
  No redaction is ever counted: a response that the middleware protected says that nothing was redacted, and it is
  counted as encrypted, whatever was redacted or encrypted in it.
\<close>

theorem pm_redaction_never_counted:
  assumes "fn_str (pe_fernet env) (JBool False) = ''False''" and "pm_new_response env (fst (pm_protect env now tenant content F)) r = Inr r1"
  shows "pms_pii_redacted (pm_update_stats r1 st) = pms_pii_redacted st \<and>
    pms_encryption_applied (pm_update_stats r1 st) = pms_encryption_applied st + 1"
proof -
  have lower: "ascii_lower ''False'' \<noteq> ''true''" "ascii_lower ''true'' = ''true''" by code_simp+
  from assms(2) obtain d where content: "content = JDict d"
    by (cases content) (auto simp: pm_new_response_def ebind_Inr split: prod.splits)
  obtain e d1 F1 where "pm_protect_entries env now tenant d False [] F = (e, d1, F1)" by (rule prod_cases3)
  then have "fst (pm_protect env now tenant content F) = JDict (dset ''_privacy_metadata'' (pm_metadata env e) d1)"
    by (simp add: content)
  with assms have "dget (hr_headers r1) ''x-pii-redacted'' = Some ''False''" "dget (hr_headers r1) ''x-privacy-protected'' = Some ''true''"
    by (auto simp: pm_new_response_def ebind_Inr pm_metadata_def dget_or_def dget_dset)
  then show ?thesis using lower by (simp add: pm_update_stats_def dget_or_def)
qed

section \<open>Examples\<close>

lemma pm_demo_detections:
  "map pid_type (pir_detections (detect_pii 0 ''AB000000'' None)) = [PiiPassport, PiiNationalId]"
  by code_simp


definition pm_demo_env :: pm_env where
  "pm_demo_env = \<lparr>pe_fernet = fernet_demo\<lparr>fn_dumps := (\<lambda>_. Inr ''{}''), fn_loads := (\<lambda>s. Inr (if s = ''{}'' then JDict [] else JList []))\<rparr>,
     pe_isoformat = (\<lambda>_. []), pe_public = ''public'', pe_render = (\<lambda>_. ''{}'')\<rparr>"

definition pm_demo_response :: http_response where
  "pm_demo_response = \<lparr>hr_status = 200, hr_headers = [(''content-type'', ''application/json'')], hr_body = Some ''[]''\<rparr>"

theorem pm_lists_unprotected_witness:
  "fst (pm_apply pm_demo_env 0 (Some ''acme'') pm_demo_response (fem_init 0)) = pm_demo_response"
proof (rule pm_lists_unprotected)
  show "fn_loads (pe_fernet pm_demo_env) ''[]'' = Inr (JList [])" by (simp add: pm_demo_env_def)
  show "hr_body pm_demo_response = Some ''[]''" by (simp add: pm_demo_response_def)
qed simp

theorem pm_failed_request_runs_twice_witness:
  "pm_call pm_demo_env (\<lambda>n. (if n = 0 then Inl (exception ''boom'') else Inr pm_demo_response, n + 1)) 0 [] (0::nat)
     (pm_init (fem_init 0)) = (Inr pm_demo_response, 2, pm_init (fem_init 0))"
  by (subst pm_failed_request_runs_twice [of _ _ "exception ''boom''" 1]) simp_all

theorem pm_redaction_never_counted_witness:
  "pms_encryption_applied (pm_update_stats
     (projr (pm_new_response pm_demo_env (fst (pm_protect pm_demo_env 0 None (JDict []) (fem_init 0))) pm_demo_response))
     (pm_stats (pm_init (fem_init 0)))) = 1"
proof -
  have str: "fn_str (pe_fernet pm_demo_env) (JBool False) = ''False''" by (simp add: pm_demo_env_def fernet_demo_def)
  have "isl (pm_new_response pm_demo_env (fst (pm_protect pm_demo_env 0 None (JDict []) (fem_init 0))) pm_demo_response) = False"
    by (simp add: pm_new_response_def pm_metadata_def dget_or_def pm_demo_env_def)
  then have "pm_new_response pm_demo_env (fst (pm_protect pm_demo_env 0 None (JDict []) (fem_init 0))) pm_demo_response =
      Inr (projr (pm_new_response pm_demo_env (fst (pm_protect pm_demo_env 0 None (JDict []) (fem_init 0))) pm_demo_response))"
    by (simp add: isl_def sum.collapse(2))
  from pm_redaction_never_counted [OF str this, of "pm_stats (pm_init (fem_init 0))"] show ?thesis by (simp add: pm_init_def)
qed

end
