(* ===== verification/InputValidation.thy ===== *)
theory InputValidation
  imports Regex
begin

text \<open>
  \<^verbatim>\<open>libs/security/validation.py\<close>: \<open>InputValidator\<close>. The sanitiser of the package \<open>bleach\<close> is a parameter. The search for
  cycles works on objects in a store; what it lets through is a tree, and the validation of nested data works on
  these. Of \<open>str.lower\<close> only the ASCII letters matter to the patterns.
\<close>

section \<open>Patterns\<close>

abbreviation rx_spaces :: rx where "rx_spaces \<equiv> rx_star (RxSet is_space)"

abbreviation rx_blank :: rx where "rx_blank \<equiv> rx_plus (RxSet is_space)"

definition sql_keywords :: "string list" where
  "sql_keywords = [''select'', ''insert'', ''update'', ''delete'', ''drop'', ''create'', ''alter'', ''exec'', ''union'', ''script'']"

definition rx_words :: "string list \<Rightarrow> rx" where
  "rx_words ws = rx_alts (map rx_lit_nocase ws)"

definition sql_keyword_rx :: rx where
  "sql_keyword_rx = RxSeq RxBoundary (RxSeq (rx_words sql_keywords) RxBoundary)"

definition sql_number_rx :: rx where
  "sql_number_rx =
     (let digits = rx_plus (RxSet rx_digit)
      in rx_seqs [RxBoundary, rx_words [''or'', ''and''], rx_blank, digits, rx_spaces, rx_lit ''='', rx_spaces, digits])"

definition sql_name_rx :: rx where
  "sql_name_rx =
     (let name = rx_plus (RxSet rx_word)
      in rx_seqs [RxBoundary, rx_words [''or'', ''and''], rx_blank, name, rx_spaces, rx_lit ''='', rx_spaces, name])"

definition sql_phrase_rx :: "string \<Rightarrow> string \<Rightarrow> rx" where
  "sql_phrase_rx a b = rx_seqs [RxBoundary, rx_lit_nocase a, rx_blank, rx_lit_nocase b, RxBoundary]"

definition iv_sql_patterns :: "rx list" where
  "iv_sql_patterns =
     [sql_keyword_rx, sql_number_rx, sql_name_rx, sql_phrase_rx ''union'' ''select'', sql_phrase_rx ''drop'' ''table'',
      sql_phrase_rx ''delete'' ''from'', sql_phrase_rx ''insert'' ''into'', sql_phrase_rx ''update'' ''set'']"

text \<open>A dot matches anything but a line feed.\<close>

definition xss_script_rx :: rx where
  "xss_script_rx = rx_seqs
     [rx_lit_nocase ''<script'', rx_star (RxSet (\<lambda>c. c \<noteq> CHR ''>'')), rx_lit ''>'', RxLazy (RxSet (\<lambda>c. c \<noteq> CHR 0x0A)),
      rx_lit_nocase ''</script>'']"

definition xss_handler_rx :: "string \<Rightarrow> rx" where
  "xss_handler_rx name = rx_seqs [rx_lit_nocase name, rx_spaces, rx_lit ''='']"

definition iv_xss_patterns :: "rx list" where
  "iv_xss_patterns =
     [xss_script_rx, rx_lit_nocase ''javascript:'', rx_lit_nocase ''vbscript:'', xss_handler_rx ''onload'',
      xss_handler_rx ''onerror'', xss_handler_rx ''onclick'', xss_handler_rx ''onmouseover'']"

definition iv_email_rx :: rx where
  "iv_email_rx =
     (let alnum = (\<lambda>c. rx_lower c \<or> rx_upper c \<or> rx_digit c)
      in rx_seqs [RxStart, rx_plus (RxSet (\<lambda>c. alnum c \<or> one_of ''._%+-'' c)), rx_lit ''@'',
           rx_plus (RxSet (\<lambda>c. alnum c \<or> one_of ''.-'' c)), rx_lit ''.'', RxRep 2 None (RxSet (\<lambda>c. rx_lower c \<or> rx_upper c)), RxEnd])"

definition iv_uuid_rx :: rx where
  "iv_uuid_rx =
     (let hex = (\<lambda>n. rx_times n (RxSet (rx_nocase (\<lambda>c. rx_digit c \<or> rx_range 97 102 c)))); dash = rx_lit ''-''
      in rx_seqs [RxStart, hex 8, dash, hex 4, dash, hex 4, dash, hex 4, dash, hex 12, RxEnd])"

section \<open>Strings\<close>

definition iv_detect_sql :: "string \<Rightarrow> bool" where
  "iv_detect_sql v \<longleftrightarrow> list_ex (\<lambda>r. rx_search r (ascii_lower v)) iv_sql_patterns"

definition iv_detect_xss :: "string \<Rightarrow> bool" where
  "iv_detect_xss v \<longleftrightarrow> list_ex (\<lambda>r. rx_search r v) iv_xss_patterns"

text \<open>A maximum of 0 counts as none.\<close>

definition iv_max_length :: "nat option \<Rightarrow> nat" where
  "iv_max_length m = (case m of None \<Rightarrow> 10000 | Some n \<Rightarrow> if n = 0 then 10000 else n)"

fun iv_validate_string :: "(string \<Rightarrow> string) \<Rightarrow> nat option \<Rightarrow> json \<Rightarrow> exn + string" where
  "iv_validate_string clean m (JStr v) =
     (if iv_max_length m < length v then Inl (value_error (''String too long. Max length: '' @ nat_str (iv_max_length m)))
      else if iv_detect_sql v then Inl (value_error ''Potential SQL injection detected'')
      else if iv_detect_xss v then Inl (value_error ''Potential XSS attack detected'')
      else Inr (clean v))"
| "iv_validate_string clean m _ = Inl (value_error ''Input must be a string'')"

definition str_strip :: "string \<Rightarrow> string" where
  "str_strip s = rev (dropWhile is_space (rev (dropWhile is_space s)))"

definition iv_validate_email :: "string \<Rightarrow> exn + string" where
  "iv_validate_email email =
     (if rx_match iv_email_rx email then Inr (str_strip (ascii_lower email)) else Inl (value_error ''Invalid email format''))"

fun iv_validate_tenant_id :: "json \<Rightarrow> exn + string" where
  "iv_validate_tenant_id (JStr s) =
     (if rx_match iv_uuid_rx s then Inr (ascii_lower s) else Inl (value_error ''Invalid tenant ID format''))"
| "iv_validate_tenant_id _ = Inl (value_error ''Tenant ID must be a string'')"

fun iv_validate_api_key :: "json \<Rightarrow> exn + string" where
  "iv_validate_api_key (JStr s) =
     (if \<not> starts_with ''aiaas_'' s then Inl (value_error ''Invalid API key format'')
      else if length s < 32 then Inl (value_error ''API key too short'')
      else Inr s)"
| "iv_validate_api_key _ = Inl (value_error ''API key must be a string'')"

section \<open>Cycles\<close>

text \<open>Objects in a store; only dictionaries and lists refer to others.\<close>

datatype py_object = PoDict "(string \<times> nat) list" | PoList "nat list" | PoOther

type_synonym py_store = "(nat, py_object) dict"

definition po_children :: "py_store \<Rightarrow> nat \<Rightarrow> nat list" where
  "po_children H r =
     (case dget H r of Some (PoDict d) \<Rightarrow> map snd d | Some (PoList xs) \<Rightarrow> xs | _ \<Rightarrow> [])"

definition po_unseen :: "py_store \<Rightarrow> nat set \<Rightarrow> nat set" where
  "po_unseen H seen = set (map fst H) - seen"

text \<open>\<open>seen\<close> are the containers on the way to the object.\<close>

function iv_has_cycle :: "py_store \<Rightarrow> nat set \<Rightarrow> nat \<Rightarrow> bool" where
  "iv_has_cycle H seen r \<longleftrightarrow>
     (if r \<in> seen then True else list_ex (\<lambda>x. iv_has_cycle H (insert r seen) x) (po_children H r))"
  by pat_completeness auto

termination
proof (relation "measure (\<lambda>(H, seen, r). card (po_unseen H seen))", goal_cases)
  case (2 H seen r x)
  then have "r \<in> set (map fst H)" by (cases "dget H r") (auto simp: po_children_def dom_map_of_conv_image_fst [symmetric])
  then have "r \<in> po_unseen H seen" using 2 by (simp add: po_unseen_def)
  moreover have "po_unseen H (insert r seen) = po_unseen H seen - {r}" by (auto simp: po_unseen_def)
  moreover have "finite (po_unseen H seen)" by (simp add: po_unseen_def)
  ultimately show ?case by (simp add: card_Diff1_less del: card_Diff_insert)
qed simp

declare iv_has_cycle.simps [simp del]

section \<open>Nested data\<close>

fun iv_validate_json :: "(string \<Rightarrow> string) \<Rightarrow> json \<Rightarrow> exn + json"
  and iv_validate_entries :: "(string \<Rightarrow> string) \<Rightarrow> (string \<times> json) list \<Rightarrow> exn + (string \<times> json) list"
  and iv_validate_list :: "(string \<Rightarrow> string) \<Rightarrow> json list \<Rightarrow> exn + json list" where
  "iv_validate_json clean (JStr s) = ebind (iv_validate_string clean None (JStr s)) (\<lambda>v. Inr (JStr v))"
| "iv_validate_json clean (JDict d) = ebind (iv_validate_entries clean d) (\<lambda>xs. Inr (JDict xs))"
| "iv_validate_json clean (JList xs) =
     (if 1000 < length xs then Inl (value_error ''List too long. Max length: 1000'')
      else ebind (iv_validate_list clean xs) (\<lambda>ys. Inr (JList ys)))"
| "iv_validate_json clean v = Inr v"
| "iv_validate_entries clean [] = Inr []"
| "iv_validate_entries clean ((k, v) # xs) =
     ebind (iv_validate_json clean v) (\<lambda>v1. ebind (iv_validate_entries clean xs) (\<lambda>ys. Inr ((k, v1) # ys)))"
| "iv_validate_list clean [] = Inr []"
| "iv_validate_list clean (x # xs) =
     ebind (iv_validate_json clean x) (\<lambda>y. ebind (iv_validate_list clean xs) (\<lambda>ys. Inr (y # ys)))"

text \<open>\<open>validate_json\<close> takes a dictionary; \<open>validate_user_input\<close> lets everything but strings and dictionaries through.\<close>

fun iv_validate_dict :: "(string \<Rightarrow> string) \<Rightarrow> json \<Rightarrow> exn + json" where
  "iv_validate_dict clean (JDict d) = iv_validate_json clean (JDict d)"
| "iv_validate_dict clean _ = Inl (value_error ''Data must be a dictionary'')"

fun iv_validate_user_input :: "(string \<Rightarrow> string) \<Rightarrow> json \<Rightarrow> exn + json" where
  "iv_validate_user_input clean (JStr s) = iv_validate_json clean (JStr s)"
| "iv_validate_user_input clean (JDict d) = iv_validate_dict clean (JDict d)"
| "iv_validate_user_input clean v = Inr v"

section \<open>The search for cycles\<close>

definition po_child :: "py_store \<Rightarrow> (nat \<times> nat) set" where
  "po_child H = {(x, r). x \<in> set (po_children H r)}"

lemma has_cycle_sound:
  "iv_has_cycle H seen r \<Longrightarrow> (\<forall>s \<in> seen. (r, s) \<in> (po_child H)\<^sup>+) \<Longrightarrow> \<exists>x. (x, r) \<in> (po_child H)\<^sup>* \<and> (x, x) \<in> (po_child H)\<^sup>+"
proof (induction H seen r rule: iv_has_cycle.induct)
  case (1 H seen r)
  show ?case
  proof (cases "r \<in> seen")
    case True
    then have "(r, r) \<in> (po_child H)\<^sup>+" using "1.prems" by blast
    then show ?thesis by blast
  next
    case False
    then obtain y where y: "y \<in> set (po_children H r)" "iv_has_cycle H (insert r seen) y"
      using "1.prems"(1) unfolding iv_has_cycle.simps [of H seen r] by (auto simp: list_ex_iff)
    have step: "(y, r) \<in> po_child H" using y(1) by (simp add: po_child_def)
    have "\<forall>s \<in> insert r seen. (y, s) \<in> (po_child H)\<^sup>+" using step "1.prems"(2) by (auto intro: trancl_trans)
    from "1.IH" [OF False y(1,2) this] obtain x where "(x, y) \<in> (po_child H)\<^sup>*" "(x, x) \<in> (po_child H)\<^sup>+" by blast
    then show ?thesis using step by (meson rtrancl.rtrancl_into_rtrancl)
  qed
qed

lemma no_cycle_acc: "\<not> iv_has_cycle H seen r \<Longrightarrow> r \<in> Wellfounded.acc (po_child H)"
proof (induction H seen r rule: iv_has_cycle.induct)
  case (1 H seen r)
  have children: "r \<notin> seen" "\<forall>y \<in> set (po_children H r). \<not> iv_has_cycle H (insert r seen) y"
    using "1.prems" unfolding iv_has_cycle.simps [of H seen r] by (auto simp: list_ex_iff split: if_splits)
  show ?case
  proof (rule accI)
    fix y
    assume "(y, r) \<in> po_child H"
    then have "y \<in> set (po_children H r)" by (simp add: po_child_def)
    with "1.IH" children show "y \<in> Wellfounded.acc (po_child H)" by blast
  qed
qed

lemma acc_no_cycle: "r \<in> Wellfounded.acc R \<Longrightarrow> (r, r) \<notin> R\<^sup>+"
proof (induction rule: acc.induct)
  case (accI r)
  show ?case
  proof
    assume "(r, r) \<in> R\<^sup>+"
    then obtain y where y: "(r, y) \<in> R\<^sup>*" "(y, r) \<in> R" by (meson tranclD2)
    then have "(y, y) \<in> R\<^sup>+" by (meson rtrancl_into_trancl2)
    then show False using accI y(2) by blast
  qed
qed

text \<open>
  C29. The search for circular references ends and decides: it finds one exactly if an object that contains itself, over
  any number of containers, can be reached from the given object. What is shared but not circular passes.
\<close>

theorem iv_circular_iff:
  "iv_has_cycle H {} r \<longleftrightarrow> (\<exists>x. (x, r) \<in> (po_child H)\<^sup>* \<and> (x, x) \<in> (po_child H)\<^sup>+)"
proof
  assume "\<exists>x. (x, r) \<in> (po_child H)\<^sup>* \<and> (x, x) \<in> (po_child H)\<^sup>+"
  then obtain x where x: "(x, r) \<in> (po_child H)\<^sup>*" "(x, x) \<in> (po_child H)\<^sup>+" by blast
  show "iv_has_cycle H {} r"
  proof (rule ccontr)
    assume "\<not> iv_has_cycle H {} r"
    then have "x \<in> Wellfounded.acc (po_child H)" by (rule acc_downwards [OF no_cycle_acc x(1)])
    then show False using acc_no_cycle [of x "po_child H"] x(2) by simp
  qed
qed (use has_cycle_sound [of H "{}" r] in simp)

section \<open>What validation accepts\<close>

text \<open>Every text at any depth is the sanitised form of a text that passed the checks, and no list is too long.\<close>

definition iv_passed :: "(string \<Rightarrow> string) \<Rightarrow> string \<Rightarrow> bool" where
  "iv_passed clean v \<longleftrightarrow>
     (\<exists>s. v = clean s \<and> length s \<le> 10000 \<and> \<not> iv_detect_sql s \<and> \<not> iv_detect_xss s)"

fun iv_clean :: "(string \<Rightarrow> string) \<Rightarrow> json \<Rightarrow> bool" where
  "iv_clean clean (JStr v) \<longleftrightarrow> iv_passed clean v"
| "iv_clean clean (JDict d) \<longleftrightarrow> list_all (\<lambda>(k, v). iv_clean clean v) d"
| "iv_clean clean (JList xs) \<longleftrightarrow> length xs \<le> 1000 \<and> list_all (iv_clean clean) xs"
| "iv_clean clean v \<longleftrightarrow> True"

lemma iv_validate_clean:
  "iv_validate_json clean v = Inr v1 \<Longrightarrow> iv_clean clean v1"
  "iv_validate_entries clean d = Inr d1 \<Longrightarrow> iv_clean clean (JDict d1) \<and> map fst d1 = map fst d"
  "iv_validate_list clean xs = Inr ys \<Longrightarrow> list_all (iv_clean clean) ys \<and> length ys = length xs"
proof (induction clean v and clean d and clean xs arbitrary: v1 and d1 and ys
    rule: iv_validate_json_iv_validate_entries_iv_validate_list.induct)
  case (1 clean s)
  then show ?case by (auto simp: ebind_Inr iv_passed_def iv_max_length_def not_less split: if_splits)
qed (auto simp: ebind_Inr split: if_splits)

text \<open>
  C28. What validated data contains: it has the keys of the given data, and every text in it, at any depth, is what the
  sanitiser made of a text of at most 10000 characters without the patterns of SQL and XSS; no list has more than 1000 items.
\<close>

theorem iv_validated_clean:
  assumes "iv_validate_dict clean v = Inr v1"
  shows "iv_clean clean v1 \<and> (\<exists>d d1. v = JDict d \<and> v1 = JDict d1 \<and> map fst d1 = map fst d)"
  using assms by (cases v) (auto simp: ebind_Inr dest: iv_validate_clean(2))

text \<open>Names of entries are not looked at.\<close>

lemma iv_keys_unchecked: "iv_validate_dict clean (JDict [(k, JInt n)]) = Inr (JDict [(k, JInt n)])"
  by simp

section \<open>What validation refuses\<close>

lemma rx_char_Cons [simp]: "rx_char P (p, c # cs) = (if P c then [(Some c, cs)] else [])"
  by (simp add: rx_char_def)

lemma rx_lit_nocase_ends:
  "rx_ends (rx_lit_nocase w) (p, w @ post) = [(if w = [] then p else Some (last w), post)]"
  by (induction w arbitrary: p) (auto simp: rx_nocase_def)

lemma rx_alts_mem: "r \<in> set rs \<Longrightarrow> set (rx_ends r p) \<subseteq> set (rx_ends (rx_alts rs) p)"
  by (induction rs rule: rx_alts.induct) auto

lemma rx_at_append: "rx_at (pre @ post) (length pre) = (if pre = [] then None else Some (last pre), post)"
  by (auto simp: rx_at_def nth_append last_conv_nth)

lemma rx_seq_mem: "q \<in> set (rx_ends r p) \<Longrightarrow> q1 \<in> set (rx_ends s q) \<Longrightarrow> q1 \<in> set (rx_ends (RxSeq r s) p)"
  by auto

text \<open>A word of a pattern that stands apart is found.\<close>

lemma rx_keyword_found:
  assumes w: "w \<in> set ws" "w \<noteq> []" "rx_word (hd w)" "rx_word (last w)"
    and apart: "pre = [] \<or> \<not> rx_word (last pre)" "post = [] \<or> \<not> rx_word (hd post)"
  shows "rx_search (RxSeq RxBoundary (RxSeq (rx_words ws) RxBoundary)) (pre @ w @ post)"
proof -
  let ?p = "(if pre = [] then None else Some (last pre), w @ post)" and ?q = "(Some (last w), post)"
  have m1: "?q \<in> set (rx_ends (rx_words ws) ?p)"
    using rx_alts_mem [of "rx_lit_nocase w" "map rx_lit_nocase ws" ?p] w(1,2)
    by (simp add: rx_words_def rx_lit_nocase_ends)
  have m2: "rx_ends RxBoundary ?p = [?p]"
    using w(2,3) apart(1) by (cases w) (auto simp: word_before_def word_after_def)
  have m3: "rx_ends RxBoundary ?q = [?q]"
    using w(4) apart(2) by (cases post) (auto simp: word_before_def word_after_def)
  have "?q \<in> set (rx_ends (RxSeq RxBoundary (RxSeq (rx_words ws) RxBoundary)) ?p)"
    by (rule rx_seq_mem [OF _ rx_seq_mem [OF m1]]) (simp_all only: m2 m3 list.set insert_iff simp_thms)
  then have "rx_ends (RxSeq RxBoundary (RxSeq (rx_words ws) RxBoundary)) (rx_at (pre @ w @ post) (length pre)) \<noteq> []"
    unfolding rx_at_append by (metis empty_iff list.set(1))
  then show ?thesis unfolding rx_search_iff by (intro exI [of _ "length pre"]) simp
qed

lemma ascii_lower_append: "ascii_lower (a @ b) = ascii_lower a @ ascii_lower b"
  by (simp add: ascii_lower_def)

definition ascii_lower_char :: "char \<Rightarrow> char" where
  "ascii_lower_char c =
     (if 65 \<le> (of_char c :: nat) \<and> (of_char c :: nat) \<le> 90 then char_of ((of_char c :: nat) + 32) else c)"

lemma ascii_lower_map: "ascii_lower s = map ascii_lower_char s"
  by (simp add: ascii_lower_def ascii_lower_char_def fun_eq_iff)

lemma rx_word_lower [simp]: "rx_word (ascii_lower_char c) = rx_word c"
proof -
  have int: "(of_char c :: int) = int (of_char c)" for c :: char by (rule of_nat_of_char [symmetric])
  show ?thesis
  proof (cases "65 \<le> (of_char c :: nat) \<and> (of_char c :: nat) \<le> 90")
    case True
    then have "(of_char (ascii_lower_char c) :: nat) = of_char c + 32" by (simp add: ascii_lower_char_def)
    then have "(of_char (ascii_lower_char c) :: int) = of_char c + 32" using int by (metis of_nat_add of_nat_numeral)
    moreover have "65 \<le> (of_char c :: int) \<and> (of_char c :: int) \<le> 90" using True int [of c] by linarith
    ultimately show ?thesis by (simp add: rx_word_def rx_lower_def rx_upper_def rx_range_def)
  next
    case False
    then have "ascii_lower_char c = c" by (simp only: ascii_lower_char_def if_False)
    then show ?thesis by simp
  qed
qed

text \<open>
  Ordinary text is refused: a text in which one of ten English words such as select, update, create or drop
  stands on its own, in any case of letters, is taken for SQL.
\<close>

theorem iv_words_refused:
  assumes "ascii_lower w \<in> set sql_keywords" and "length (pre @ w @ post) \<le> 10000"
    and "pre = [] \<or> \<not> rx_word (last pre)" and "post = [] \<or> \<not> rx_word (hd post)"
  shows "iv_validate_string clean None (JStr (pre @ w @ post)) = Inl (value_error ''Potential SQL injection detected'')"
proof -
  let ?l = ascii_lower
  have ends: "\<forall>k \<in> set sql_keywords. k \<noteq> [] \<and> rx_word (hd k) \<and> rx_word (last k)"
    by (simp add: sql_keywords_def rx_word_def rx_lower_def rx_range_def)
  have "rx_search sql_keyword_rx (?l pre @ ?l w @ ?l post)"
    unfolding sql_keyword_rx_def using assms(1,3,4) ends
    by (intro rx_keyword_found) (auto simp: ascii_lower_map last_map hd_map)
  then have "iv_detect_sql (pre @ w @ post)"
    by (simp add: iv_detect_sql_def iv_sql_patterns_def ascii_lower_append)
  then show ?thesis using assms(2) by (simp add: iv_max_length_def)
qed

text \<open>The pattern of tenant identifiers ends with a dollar, which also matches before a last line feed.\<close>

lemma iv_tenant_line_feed:
  "iv_validate_tenant_id (JStr (''01234567-89ab-cdef-0123-456789ABCDEF'' @ [CHR 0x0A])) =
     Inr (''01234567-89ab-cdef-0123-456789abcdef'' @ [CHR 0x0A])"
  by code_simp

lemma iv_max_length_zero: "iv_max_length (Some 0) = 10000"
  by (simp add: iv_max_length_def)

section \<open>Examples\<close>

theorem iv_validated_clean_witness:
  "iv_clean id (JDict [(''name'', JStr ''Ada''), (''tags'', JList [JStr ''x''])])"
proof -
  have "iv_validate_dict id (JDict [(''name'', JStr ''Ada''), (''tags'', JList [JStr ''x''])]) =
      Inr (JDict [(''name'', JStr ''Ada''), (''tags'', JList [JStr ''x''])])"
    by code_simp
  from iv_validated_clean [OF this] show ?thesis by (rule conjunct1)
qed

theorem iv_words_refused_witness:
  "iv_validate_string id None (JStr ''Please Select a date'') = Inl (value_error ''Potential SQL injection detected'')"
proof -
  have "ascii_lower ''Select'' \<in> set sql_keywords" by code_simp
  moreover have "\<not> rx_word (last ''Please '')" "\<not> rx_word (hd '' a date'')" by code_simp+
  ultimately show ?thesis using iv_words_refused [of "''Select''" "''Please ''" "'' a date''" id] by simp
qed

end
