(* ===== verification/ThreatDetection.thy ===== *)
theory ThreatDetection
  imports InputValidation
begin

text \<open>
  \<^verbatim>\<open>libs/security/threat_detection.py\<close>: \<open>ThreatDetector\<close>, with the pattern expressions of theory \<open>InputValidation\<close>.
  The failed attempts of an address are kept in a queue of at most ten.
\<close>

definition td_sql_patterns :: "rx list" where
  "td_sql_patterns =
     [sql_keyword_rx, sql_number_rx, sql_phrase_rx ''union'' ''select'', sql_phrase_rx ''drop'' ''table'',
      sql_phrase_rx ''delete'' ''from'']"

definition td_xss_patterns :: "rx list" where
  "td_xss_patterns =
     [xss_script_rx, rx_lit_nocase ''javascript:'', rx_lit_nocase ''vbscript:'', xss_handler_rx ''onload'',
      xss_handler_rx ''onerror'', xss_handler_rx ''onclick'']"

record threats =
  td_failed :: "(string, rat list) dict"
  td_suspicious :: "(string, int) dict"

definition threats_init :: threats where
  "threats_init = \<lparr>td_failed = [], td_suspicious = []\<rparr>"

definition td_detect_sql :: "string \<Rightarrow> bool" where
  "td_detect_sql v \<longleftrightarrow> list_ex (\<lambda>r. rx_search r (ascii_lower v)) td_sql_patterns"

definition td_detect_xss :: "string \<Rightarrow> bool" where
  "td_detect_xss v \<longleftrightarrow> list_ex (\<lambda>r. rx_search r v) td_xss_patterns"

definition td_deque_append :: "nat \<Rightarrow> 'a \<Rightarrow> 'a list \<Rightarrow> 'a list" where
  "td_deque_append n x xs = drop (length xs + 1 - n) (xs @ [x])"

definition td_recent :: "rat \<Rightarrow> rat list \<Rightarrow> rat list" where
  "td_recent now xs = filter (\<lambda>a. now - a < 300) xs"

definition td_brute_force :: "rat \<Rightarrow> string \<Rightarrow> bool \<Rightarrow> threats \<Rightarrow> bool \<times> threats" where
  "td_brute_force now ip success t =
     (if success then (False, t\<lparr>td_failed := dset ip [] (td_failed t)\<rparr>)
      else (let h = td_deque_append 10 now (dget_or [] (td_failed t) ip); t1 = t\<lparr>td_failed := dset ip h (td_failed t)\<rparr>
            in if 5 \<le> length (td_recent now h)
               then (True, t1\<lparr>td_suspicious := dset ip (dget_or 0 (td_suspicious t1) ip + 1) (td_suspicious t1)\<rparr>)
               else (False, t1)))"

definition td_is_admin :: "json \<Rightarrow> exn + bool" where
  "td_is_admin action =
     ebind (py_get action ''permission'' (JStr '''')) (\<lambda>p.
       case p of JStr s \<Rightarrow> Inr (starts_with ''admin:'' s) | _ \<Rightarrow> Inl (attribute_error ''object has no attribute startswith''))"

definition td_privilege_escalation :: "json list \<Rightarrow> exn + bool" where
  "td_privilege_escalation actions =
     ebind (emap td_is_admin actions) (\<lambda>bs. Inr (3 < length (filter id bs)))"

record threat_report =
  thr_threats :: "string list"
  thr_risk_level :: string
  thr_timestamp :: rat

fun td_threats_of :: "json \<Rightarrow> string list" where
  "td_threats_of (JStr v) =
     (if td_detect_sql v then [''sql_injection''] else []) @ (if td_detect_xss v then [''xss_attack''] else [])"
| "td_threats_of _ = []"

definition td_analyze_request :: "rat \<Rightarrow> (string, json) dict \<Rightarrow> threat_report" where
  "td_analyze_request now data =
     (let ts = concat (map (\<lambda>(_, v). td_threats_of v) data)
      in \<lparr>thr_threats = ts, thr_risk_level = (if ts \<noteq> [] then ''high'' else ''low''), thr_timestamp = now\<rparr>)"

section \<open>Brute force\<close>

text \<open>Attempts as they come: the time, the address and whether it succeeded.\<close>

type_synonym td_attempt = "rat \<times> string \<times> bool"

definition td_run :: "td_attempt list \<Rightarrow> threats" where
  "td_run = foldl (\<lambda>t (now, ip, success). snd (td_brute_force now ip success t)) threats_init"

text \<open>All failures of an address since its last success.\<close>

definition td_failures :: "string \<Rightarrow> td_attempt list \<Rightarrow> rat list" where
  "td_failures ip = foldl (\<lambda>h (now, ip1, success). if ip1 \<noteq> ip then h else if success then [] else h @ [now]) []"

lemma td_run_snoc: "td_run (as @ [a]) = snd (td_brute_force (fst a) (fst (snd a)) (snd (snd a)) (td_run as))"
  by (simp add: td_run_def split: prod.split)

lemma td_failures_snoc:
  "td_failures ip (as @ [a]) =
     (if fst (snd a) \<noteq> ip then td_failures ip as else if snd (snd a) then [] else td_failures ip as @ [fst a])"
  by (simp add: td_failures_def split: prod.split)

lemma td_brute_force_failed:
  "td_failed (snd (td_brute_force now ip success t)) =
     dset ip (if success then [] else td_deque_append 10 now (dget_or [] (td_failed t) ip)) (td_failed t)"
  by (simp add: td_brute_force_def Let_def)

lemma td_run_failed: "dget_or [] (td_failed (td_run as)) ip = drop (length (td_failures ip as) - 10) (td_failures ip as)"
proof (induction as rule: rev_induct)
  case Nil
  then show ?case by (simp add: td_run_def td_failures_def threats_init_def dget_or_def)
next
  case (snoc a as)
  let ?h = "td_failures ip as"
  have "td_deque_append 10 x (drop (length ?h - 10) ?h) = drop (length (?h @ [x]) - 10) (?h @ [x])" for x
  proof (cases "length ?h \<le> 9")
    case False
    then have "Suc (length ?h - 10) = length ?h - 9" by linarith
    then show ?thesis using False by (simp add: td_deque_append_def)
  qed (simp add: td_deque_append_def)
  with snoc show ?case
    by (auto simp: td_run_snoc td_failures_snoc td_brute_force_failed dget_or_def dget_dset)
qed

lemma td_failures_subset: "set (td_failures ip as) \<subseteq> fst ` set as"
  by (induction as rule: rev_induct) (auto simp: td_failures_snoc, simp add: td_failures_def)

lemma td_failures_sorted: "sorted (map fst as) \<Longrightarrow> sorted (td_failures ip as)"
proof (induction as rule: rev_induct)
  case (snoc a as)
  then show ?case using td_failures_subset [of ip as] by (auto simp: td_failures_snoc sorted_append)
qed (simp add: td_failures_def)

lemma recent_sorted:
  assumes "sorted xs"
  obtains j where "j \<le> length xs" "\<And>k. td_recent (now :: rat) (drop k xs) = drop (max j k) xs"
proof -
  let ?P = "\<lambda>a. now - a < 300"
  let ?j = "length (takeWhile (\<lambda>a. \<not> ?P a) xs)"
  have "td_recent now (drop k xs) = drop (max ?j k) xs" for k
    using assms
  proof (induction xs arbitrary: k)
    case (Cons x xs)
    show ?case
    proof (cases "?P x")
      case True
      have "filter ?P (drop k (x # xs)) = drop k (x # xs)"
        using Cons.prems True by (intro filter_True) (fastforce dest!: in_set_dropD)
      then show ?thesis using True by (simp add: td_recent_def)
    next
      case False
      then show ?thesis using Cons.IH [of "k - 1"] Cons.IH [of 0] Cons.prems
        by (cases k) (auto simp: td_recent_def)
    qed
  qed (simp add: td_recent_def)
  then show ?thesis by (intro that [of ?j]) (simp_all add: length_takeWhile_le)
qed

text \<open>
  C23. When brute force is reported: as long as time does not run backwards, a failed attempt is reported exactly if it is at
  least the fifth failure of its address within five minutes and since its last success. The bound of ten on the attempts that are
  kept and what other addresses do make no difference.
\<close>

theorem td_brute_force_iff:
  assumes "sorted (map fst as @ [now])"
  shows "fst (td_brute_force now ip success (td_run as)) \<longleftrightarrow>
    \<not> success \<and> 5 \<le> length (td_recent now (td_failures ip as @ [now]))"
proof (cases success)
  case False
  let ?h = "td_failures ip (as @ [(now, ip, False)])"
  have h: "?h = td_failures ip as @ [now]" by (simp add: td_failures_snoc)
  have "sorted ?h" using assms by (intro td_failures_sorted) simp
  then obtain j where j: "j \<le> length ?h" "\<And>k. td_recent now (drop k ?h) = drop (max j k) ?h" by (rule recent_sorted [where now = now]) blast
  have "td_deque_append 10 now (dget_or [] (td_failed (td_run as)) ip) = drop (length ?h - 10) ?h"
    using td_run_failed [of "as @ [(now, ip, False)]" ip] False
    by (simp add: td_run_snoc td_brute_force_failed dget_or_def dget_dset)
  then have kept: "td_recent now (td_deque_append 10 now (dget_or [] (td_failed (td_run as)) ip)) = drop (max j (length ?h - 10)) ?h"
    by (simp only: j(2))
  have "fst (td_brute_force now ip success (td_run as)) \<longleftrightarrow> 5 \<le> length (drop (max j (length ?h - 10)) ?h)"
    unfolding kept [symmetric] using False by (simp add: td_brute_force_def Let_def)
  also have "\<dots> \<longleftrightarrow> 5 \<le> length (drop j ?h)" using j(1) by (auto simp: max_def)
  also have "drop j ?h = td_recent now (td_failures ip as @ [now])" using j(2) [of 0] by (simp add: h)
  finally show ?thesis using False by simp
qed (simp add: td_brute_force_def)

theorem td_brute_force_iff_witness:
  "fst (td_brute_force 4 ''ip'' False (td_run [(0, ''ip'', False), (1, ''ip'', False), (2, ''ip'', False), (2, ''x'', True), (3, ''ip'', False)]))"
  by (subst td_brute_force_iff) (simp_all add: td_failures_def td_recent_def)

end
