(* ===== verification/CapacityConfig.thy ===== *)
theory CapacityConfig
  imports Tables
begin

text \<open>
  \<^verbatim>\<open>apps/data-plane/orchestrator/configs/capacity_config.py\<close>: the capacity configurations of the environments, their
  degraded and emergency forms, and \<open>CapacityConfigManager\<close>. The objects of a section have whatever attributes they were given, with any
  values: a section is a dictionary. Configurations are objects that their users share: the manager keeps them in a list and
  hands out their places. The text of a file is a parameter; directories are left out.
\<close>

datatype environment = EnvDevelopment | EnvStaging | EnvProduction

fun environment_value :: "environment \<Rightarrow> string" where
  "environment_value EnvDevelopment = ''development''"
| "environment_value EnvStaging = ''staging''"
| "environment_value EnvProduction = ''production''"

datatype degrade_mode = ModeNormal | ModeDegraded | ModeEmergency

fun degrade_mode_value :: "degrade_mode \<Rightarrow> string" where
  "degrade_mode_value ModeNormal = ''normal''"
| "degrade_mode_value ModeDegraded = ''degraded''"
| "degrade_mode_value ModeEmergency = ''emergency''"

section \<open>Sections\<close>

type_synonym attrs = "(string, json) dict"

text \<open>The fields of the data classes with their defaults.\<close>

definition pool_fields :: attrs where
  "pool_fields =
     [(''min_size'', JInt 5), (''max_size'', JInt 20), (''timeout'', JFloat 30),
      (''retry_attempts'', JInt 3), (''retry_delay'', JFloat 1)]"

definition concurrency_fields :: attrs where
  "concurrency_fields =
     [(''max_concurrent_requests'', JInt 100), (''max_concurrent_tasks'', JInt 50),
      (''max_concurrent_connections'', JInt 1000), (''request_timeout'', JFloat 30),
      (''task_timeout'', JFloat 60)]"

definition timeout_fields :: attrs where
  "timeout_fields =
     [(''api_timeout'', JFloat 30), (''database_timeout'', JFloat 10), (''redis_timeout'', JFloat 5),
      (''nats_timeout'', JFloat 5), (''external_api_timeout'', JFloat 15)]"

definition backoff_fields :: attrs where
  "backoff_fields =
     [(''initial_delay'', JFloat 1), (''max_delay'', JFloat 60), (''multiplier'', JFloat 2),
      (''jitter'', JBool True), (''max_attempts'', JInt 3)]"

definition degrade_fields :: attrs where
  "degrade_fields =
     [(''disable_verbose_critique'', JBool False), (''disable_debate'', JBool False),
      (''shrink_context'', JBool False), (''prefer_slm_tiers'', JBool False),
      (''reduce_logging'', JBool False), (''skip_non_essential_features'', JBool False)]"

record capacity =
  cap_environment :: environment
  cap_pool :: attrs
  cap_concurrency :: attrs
  cap_timeouts :: attrs
  cap_backoff :: attrs
  cap_degrade :: attrs
  cap_mode :: degrade_mode
  cap_metrics :: json
  cap_tracing :: json
  cap_profiling :: json

section \<open>The configurations of the environments\<close>

definition development_capacity :: capacity where
  "development_capacity =
     \<lparr>cap_environment = EnvDevelopment,
      cap_pool =
        [(''min_size'', JInt 2), (''max_size'', JInt 10), (''timeout'', JFloat 15),
         (''retry_attempts'', JInt 2), (''retry_delay'', JFloat (1/2))],
      cap_concurrency =
        [(''max_concurrent_requests'', JInt 20), (''max_concurrent_tasks'', JInt 10),
         (''max_concurrent_connections'', JInt 100), (''request_timeout'', JFloat 15),
         (''task_timeout'', JFloat 30)],
      cap_timeouts =
        [(''api_timeout'', JFloat 15), (''database_timeout'', JFloat 5), (''redis_timeout'', JFloat 2),
         (''nats_timeout'', JFloat 2), (''external_api_timeout'', JFloat 10)],
      cap_backoff =
        [(''initial_delay'', JFloat (1/2)), (''max_delay'', JFloat 10), (''multiplier'', JFloat (3/2)),
         (''jitter'', JBool True), (''max_attempts'', JInt 2)],
      cap_degrade = degrade_fields, cap_mode = ModeNormal, cap_metrics = JBool True, cap_tracing = JBool True,
      cap_profiling = JBool True\<rparr>"

definition staging_capacity :: capacity where
  "staging_capacity =
     \<lparr>cap_environment = EnvStaging,
      cap_pool =
        [(''min_size'', JInt 5), (''max_size'', JInt 50), (''timeout'', JFloat 30),
         (''retry_attempts'', JInt 3), (''retry_delay'', JFloat 1)],
      cap_concurrency =
        [(''max_concurrent_requests'', JInt 100), (''max_concurrent_tasks'', JInt 50),
         (''max_concurrent_connections'', JInt 500), (''request_timeout'', JFloat 30),
         (''task_timeout'', JFloat 60)],
      cap_timeouts =
        [(''api_timeout'', JFloat 30), (''database_timeout'', JFloat 10), (''redis_timeout'', JFloat 5),
         (''nats_timeout'', JFloat 5), (''external_api_timeout'', JFloat 15)],
      cap_backoff =
        [(''initial_delay'', JFloat 1), (''max_delay'', JFloat 30), (''multiplier'', JFloat 2),
         (''jitter'', JBool True), (''max_attempts'', JInt 3)],
      cap_degrade = degrade_fields, cap_mode = ModeNormal, cap_metrics = JBool True, cap_tracing = JBool True,
      cap_profiling = JBool False\<rparr>"

definition production_capacity :: capacity where
  "production_capacity =
     \<lparr>cap_environment = EnvProduction,
      cap_pool =
        [(''min_size'', JInt 10), (''max_size'', JInt 100), (''timeout'', JFloat 60),
         (''retry_attempts'', JInt 5), (''retry_delay'', JFloat 2)],
      cap_concurrency =
        [(''max_concurrent_requests'', JInt 500), (''max_concurrent_tasks'', JInt 200),
         (''max_concurrent_connections'', JInt 2000), (''request_timeout'', JFloat 60),
         (''task_timeout'', JFloat 120)],
      cap_timeouts =
        [(''api_timeout'', JFloat 60), (''database_timeout'', JFloat 15), (''redis_timeout'', JFloat 10),
         (''nats_timeout'', JFloat 10), (''external_api_timeout'', JFloat 30)],
      cap_backoff =
        [(''initial_delay'', JFloat 2), (''max_delay'', JFloat 120), (''multiplier'', JFloat 2),
         (''jitter'', JBool True), (''max_attempts'', JInt 5)],
      cap_degrade = degrade_fields, cap_mode = ModeNormal, cap_metrics = JBool True, cap_tracing = JBool True,
      cap_profiling = JBool False\<rparr>"

record capacity_manager =
  cpm_objects :: "capacity list"
  cpm_configs :: "(environment, nat) dict"
  cpm_current :: environment
  cpm_files :: "(string, string) dict"

definition detect_environment :: "string option \<Rightarrow> environment" where
  "detect_environment var =
     (case enum_of environment_value [EnvDevelopment, EnvStaging, EnvProduction]
             (ascii_lower (case var of None \<Rightarrow> ''development'' | Some s \<Rightarrow> s)) of
        Inl _ \<Rightarrow> EnvDevelopment
      | Inr e \<Rightarrow> e)"

definition cpm_init :: "string option \<Rightarrow> (string, string) dict \<Rightarrow> capacity_manager" where
  "cpm_init var files =
     \<lparr>cpm_objects = [development_capacity, staging_capacity, production_capacity],
      cpm_configs = [(EnvDevelopment, 0), (EnvStaging, 1), (EnvProduction, 2)],
      cpm_current = detect_environment var, cpm_files = files\<rparr>"

text \<open>\<open>get_config\<close> gives the place of the object itself, \<open>get_all_configs\<close> a copy of the dictionary of the places.\<close>

definition cpm_get_config :: "environment option \<Rightarrow> capacity_manager \<Rightarrow> exn + nat" where
  "cpm_get_config e m =
     (let env = (case e of None \<Rightarrow> cpm_current m | Some x \<Rightarrow> x)
      in case dget (cpm_configs m) env of None \<Rightarrow> Inl (key_error (environment_value env)) | Some i \<Rightarrow> Inr i)"

definition cpm_get_all_configs :: "capacity_manager \<Rightarrow> (environment, nat) dict" where
  "cpm_get_all_configs m = cpm_configs m"

section \<open>Arithmetic on attributes\<close>

fun py_half :: "json \<Rightarrow> exn + json" where
  "py_half (JInt i) = Inr (JInt (i div 2))"
| "py_half (JBool b) = Inr (JInt (of_bool b div 2))"
| "py_half (JFloat q) = Inr (JFloat (of_int \<lfloor>q / 2\<rfloor>))"
| "py_half _ = Inl (type_error ''unsupported operand type(s) for //'')"

fun py_pred :: "json \<Rightarrow> exn + json" where
  "py_pred (JInt i) = Inr (JInt (i - 1))"
| "py_pred (JBool b) = Inr (JInt (of_bool b - 1))"
| "py_pred (JFloat q) = Inr (JFloat (q - 1))"
| "py_pred _ = Inl (type_error ''unsupported operand type(s) for -'')"

fun py_times :: "nat \<Rightarrow> json \<Rightarrow> exn + json" where
  "py_times n (JInt i) = Inr (JInt (i * int n))"
| "py_times n (JBool b) = Inr (JInt (of_bool b * int n))"
| "py_times n (JFloat q) = Inr (JFloat (q * of_nat n))"
| "py_times n (JStr s) = Inr (JStr (concat (replicate n s)))"
| "py_times n (JList xs) = Inr (JList (concat (replicate n xs)))"
| "py_times n _ = Inl (type_error ''unsupported operand type(s) for *'')"

text \<open>\<open>max(n, v)\<close> is \<open>n\<close> unless \<open>v\<close> is larger.\<close>

definition py_max :: "int \<Rightarrow> json \<Rightarrow> exn + json" where
  "py_max n v =
     (case v of
        JInt i \<Rightarrow> Inr (if n < i then v else JInt n)
      | JBool b \<Rightarrow> Inr (if n < of_bool b then v else JInt n)
      | JFloat q \<Rightarrow> Inr (if of_int n < q then v else JInt n)
      | _ \<Rightarrow> Inl (type_error ''not supported between these instances''))"

definition cap_attr :: "attrs \<Rightarrow> string \<Rightarrow> exn + json" where
  "cap_attr s name = (case dget s name of None \<Rightarrow> Inl (attribute_error name) | Some v \<Rightarrow> Inr v)"

text \<open>A new object of a section, each field computed from the old one, in order.\<close>

definition cap_section :: "(string \<times> (attrs \<Rightarrow> exn + json)) list \<Rightarrow> attrs \<Rightarrow> exn + attrs" where
  "cap_section fs s = emap (\<lambda>(name, f). ebind (f s) (\<lambda>v. Inr (name, v))) fs"

definition cap_halved :: "int \<Rightarrow> string \<Rightarrow> string \<times> (attrs \<Rightarrow> exn + json)" where
  "cap_halved least name = (name, \<lambda>s. ebind (cap_attr s name) (\<lambda>v. ebind (py_half v) (py_max least)))"

definition cap_less_one :: "string \<Rightarrow> string \<times> (attrs \<Rightarrow> exn + json)" where
  "cap_less_one name = (name, \<lambda>s. ebind (cap_attr s name) (\<lambda>v. ebind (py_pred v) (py_max 1)))"

definition cap_scaled :: "nat \<Rightarrow> string \<Rightarrow> string \<times> (attrs \<Rightarrow> exn + json)" where
  "cap_scaled n name = (name, \<lambda>s. ebind (cap_attr s name) (py_times n))"

definition cap_same :: "string \<Rightarrow> string \<times> (attrs \<Rightarrow> exn + json)" where
  "cap_same name = (name, \<lambda>s. cap_attr s name)"

definition cap_const :: "json \<Rightarrow> string \<Rightarrow> string \<times> (attrs \<Rightarrow> exn + json)" where
  "cap_const v name = (name, \<lambda>_. Inr v)"

definition degrade_all :: attrs where
  "degrade_all = map (\<lambda>(name, _). (name, JBool True)) degrade_fields"

section \<open>Degraded and emergency configurations\<close>

definition degraded_config :: "capacity \<Rightarrow> exn + capacity" where
  "degraded_config c =
     ebind (cap_section [cap_halved 1 ''min_size'', cap_halved 5 ''max_size'', cap_scaled 2 ''timeout'',
              cap_less_one ''retry_attempts'', cap_scaled 2 ''retry_delay''] (cap_pool c)) (\<lambda>pool.
     ebind (cap_section [cap_halved 10 ''max_concurrent_requests'', cap_halved 5 ''max_concurrent_tasks'',
              cap_halved 50 ''max_concurrent_connections'', cap_scaled 2 ''request_timeout'', cap_scaled 2 ''task_timeout'']
              (cap_concurrency c)) (\<lambda>concurrency.
     ebind (cap_section (map (\<lambda>(name, _). cap_scaled 2 name) timeout_fields) (cap_timeouts c)) (\<lambda>timeouts.
     ebind (cap_section [cap_scaled 2 ''initial_delay'', cap_scaled 2 ''max_delay'', cap_same ''multiplier'', cap_same ''jitter'',
              cap_less_one ''max_attempts''] (cap_backoff c)) (\<lambda>backoff.
       Inr \<lparr>cap_environment = cap_environment c, cap_pool = pool, cap_concurrency = concurrency, cap_timeouts = timeouts,
            cap_backoff = backoff, cap_degrade = degrade_all, cap_mode = ModeDegraded, cap_metrics = cap_metrics c,
            cap_tracing = cap_tracing c, cap_profiling = JBool False\<rparr>))))"

definition emergency_config :: "capacity \<Rightarrow> exn + capacity" where
  "emergency_config c =
     ebind (cap_section [cap_const (JInt 1) ''min_size'', cap_const (JInt 5) ''max_size'', cap_scaled 4 ''timeout'',
              cap_const (JInt 1) ''retry_attempts'', cap_scaled 4 ''retry_delay''] (cap_pool c)) (\<lambda>pool.
     ebind (cap_section [cap_const (JInt 5) ''max_concurrent_requests'', cap_const (JInt 2) ''max_concurrent_tasks'',
              cap_const (JInt 10) ''max_concurrent_connections'', cap_scaled 4 ''request_timeout'', cap_scaled 4 ''task_timeout'']
              (cap_concurrency c)) (\<lambda>concurrency.
     ebind (cap_section (map (\<lambda>(name, _). cap_scaled 4 name) timeout_fields) (cap_timeouts c)) (\<lambda>timeouts.
     ebind (cap_section [cap_scaled 4 ''initial_delay'', cap_scaled 4 ''max_delay'', cap_same ''multiplier'', cap_same ''jitter'',
              cap_const (JInt 1) ''max_attempts''] (cap_backoff c)) (\<lambda>backoff.
       Inr \<lparr>cap_environment = cap_environment c, cap_pool = pool, cap_concurrency = concurrency, cap_timeouts = timeouts,
            cap_backoff = backoff, cap_degrade = degrade_all, cap_mode = ModeEmergency, cap_metrics = JBool True,
            cap_tracing = JBool False, cap_profiling = JBool False\<rparr>))))"

definition cpm_derived :: "(capacity \<Rightarrow> exn + capacity) \<Rightarrow> environment option \<Rightarrow> capacity_manager \<Rightarrow> exn + capacity" where
  "cpm_derived f e m = ebind (cpm_get_config e m) (\<lambda>i. f (cpm_objects m ! i))"

definition cpm_get_degraded_config :: "environment option \<Rightarrow> capacity_manager \<Rightarrow> exn + capacity" where
  "cpm_get_degraded_config = cpm_derived degraded_config"

definition cpm_get_emergency_config :: "environment option \<Rightarrow> capacity_manager \<Rightarrow> exn + capacity" where
  "cpm_get_emergency_config = cpm_derived emergency_config"

section \<open>Saving and loading\<close>

definition dc_dump :: "attrs \<Rightarrow> attrs \<Rightarrow> exn + json" where
  "dc_dump fs s =
     ebind (emap (\<lambda>(name, _). ebind (cap_attr s name) (\<lambda>v. Inr (name, v))) fs) (\<lambda>d. Inr (JDict d))"

definition capacity_to_dict :: "capacity \<Rightarrow> exn + json" where
  "capacity_to_dict c =
     ebind (dc_dump pool_fields (cap_pool c)) (\<lambda>pool.
     ebind (dc_dump concurrency_fields (cap_concurrency c)) (\<lambda>concurrency.
     ebind (dc_dump timeout_fields (cap_timeouts c)) (\<lambda>timeouts.
     ebind (dc_dump backoff_fields (cap_backoff c)) (\<lambda>backoff.
     ebind (dc_dump degrade_fields (cap_degrade c)) (\<lambda>degrade.
       Inr (JDict [(''environment'', JStr (environment_value (cap_environment c))), (''pool_config'', pool),
                   (''concurrency_config'', concurrency), (''timeout_config'', timeouts), (''backoff_config'', backoff),
                   (''degrade_config'', degrade), (''degrade_mode'', JStr (degrade_mode_value (cap_mode c))),
                   (''enable_metrics'', cap_metrics c), (''enable_tracing'', cap_tracing c),
                   (''enable_profiling'', cap_profiling c)]))))))"

text \<open>\<open>C(**d)\<close> of a data class: only its fields may be named; the others have their defaults.\<close>

definition dc_make :: "attrs \<Rightarrow> json \<Rightarrow> exn + attrs" where
  "dc_make fs v =
     (case v of
        JDict d \<Rightarrow>
          (case find (\<lambda>(k, _). dget fs k = None) d of
             Some (k, _) \<Rightarrow> Inl (type_error (''got an unexpected keyword argument '' @ k))
           | None \<Rightarrow> Inr (map (\<lambda>(name, def). (name, dget_or def d name)) fs))
      | _ \<Rightarrow> Inl (type_error ''argument after ** must be a mapping''))"

fun py_enum :: "('e \<Rightarrow> string) \<Rightarrow> 'e list \<Rightarrow> json \<Rightarrow> exn + 'e" where
  "py_enum val members (JStr s) = enum_of val members s"
| "py_enum val members _ = Inl (value_error ''not a valid member'')"

definition capacity_of_dict :: "json \<Rightarrow> exn + capacity" where
  "capacity_of_dict v =
     ebind (ebind (py_item v ''environment'') (py_enum environment_value [EnvDevelopment, EnvStaging, EnvProduction])) (\<lambda>env.
     ebind (ebind (py_item v ''pool_config'') (dc_make pool_fields)) (\<lambda>pool.
     ebind (ebind (py_item v ''concurrency_config'') (dc_make concurrency_fields)) (\<lambda>concurrency.
     ebind (ebind (py_item v ''timeout_config'') (dc_make timeout_fields)) (\<lambda>timeouts.
     ebind (ebind (py_item v ''backoff_config'') (dc_make backoff_fields)) (\<lambda>backoff.
     ebind (ebind (py_item v ''degrade_config'') (dc_make degrade_fields)) (\<lambda>degrade.
     ebind (ebind (py_item v ''degrade_mode'') (py_enum degrade_mode_value [ModeNormal, ModeDegraded, ModeEmergency])) (\<lambda>mode.
     ebind (py_item v ''enable_metrics'') (\<lambda>metrics.
     ebind (py_item v ''enable_tracing'') (\<lambda>tracing.
     ebind (py_item v ''enable_profiling'') (\<lambda>profiling.
       Inr \<lparr>cap_environment = env, cap_pool = pool, cap_concurrency = concurrency, cap_timeouts = timeouts,
            cap_backoff = backoff, cap_degrade = degrade, cap_mode = mode, cap_metrics = metrics, cap_tracing = tracing,
            cap_profiling = profiling\<rparr>))))))))))"

definition cpm_save_config :: "(json \<Rightarrow> string) \<Rightarrow> capacity \<Rightarrow> string option \<Rightarrow> (capacity_manager, unit) db_op" where
  "cpm_save_config dump c filename m =
     (case capacity_to_dict c of
        Inl e \<Rightarrow> (Inl e, m)
      | Inr v \<Rightarrow>
          (let name = (case filename of None \<Rightarrow> ''capacity_'' @ environment_value (cap_environment c) @ ''.json'' | Some n \<Rightarrow> n)
           in (Inr (), m\<lparr>cpm_files := dset name (dump v) (cpm_files m)\<rparr>)))"

definition cpm_load_config :: "(string \<Rightarrow> exn + json) \<Rightarrow> string \<Rightarrow> capacity_manager \<Rightarrow> exn + capacity" where
  "cpm_load_config load filename m =
     (case dget (cpm_files m) filename of
        None \<Rightarrow> Inl (Exn [''FileNotFoundError'', ''OSError'', ''Exception''] filename)
      | Some s \<Rightarrow> ebind (load s) capacity_of_dict)"

section \<open>Updates\<close>

text \<open>The keyword arguments; attributes that the class does not declare are set, and never read.\<close>

datatype capacity_update =
    UpdatePool attrs
  | UpdateConcurrency attrs
  | UpdateTimeouts attrs
  | UpdateBackoff attrs
  | UpdateDegrade attrs
  | UpdateEnvironment environment
  | UpdateMode degrade_mode
  | UpdateFlag string json

definition set_attrs :: "attrs \<Rightarrow> attrs \<Rightarrow> attrs" where
  "set_attrs new s = fold (\<lambda>(k, v). dset k v) new s"

fun capacity_update_one :: "capacity_update \<Rightarrow> capacity \<Rightarrow> capacity" where
  "capacity_update_one (UpdatePool d) c = c\<lparr>cap_pool := set_attrs d (cap_pool c)\<rparr>"
| "capacity_update_one (UpdateConcurrency d) c = c\<lparr>cap_concurrency := set_attrs d (cap_concurrency c)\<rparr>"
| "capacity_update_one (UpdateTimeouts d) c = c\<lparr>cap_timeouts := set_attrs d (cap_timeouts c)\<rparr>"
| "capacity_update_one (UpdateBackoff d) c = c\<lparr>cap_backoff := set_attrs d (cap_backoff c)\<rparr>"
| "capacity_update_one (UpdateDegrade d) c = c\<lparr>cap_degrade := set_attrs d (cap_degrade c)\<rparr>"
| "capacity_update_one (UpdateEnvironment e) c = c\<lparr>cap_environment := e\<rparr>"
| "capacity_update_one (UpdateMode x) c = c\<lparr>cap_mode := x\<rparr>"
| "capacity_update_one (UpdateFlag k v) c =
     (if k = ''enable_metrics'' then c\<lparr>cap_metrics := v\<rparr>
      else if k = ''enable_tracing'' then c\<lparr>cap_tracing := v\<rparr>
      else if k = ''enable_profiling'' then c\<lparr>cap_profiling := v\<rparr>
      else c)"

definition cpm_update_config :: "environment \<Rightarrow> capacity_update list \<Rightarrow> (capacity_manager, unit) db_op" where
  "cpm_update_config e us m =
     (case dget (cpm_configs m) e of
        None \<Rightarrow> (Inl (value_error (''Unknown environment: '' @ environment_value e)), m)
      | Some i \<Rightarrow> (Inr (), m\<lparr>cpm_objects := (cpm_objects m)[i := fold capacity_update_one us (cpm_objects m ! i)]\<rparr>))"

section \<open>Properties\<close>

definition cap_declared :: "attrs \<Rightarrow> attrs \<Rightarrow> attrs" where
  "cap_declared fs s = map (\<lambda>(name, _). (name, the (dget s name))) fs"

definition cap_has :: "attrs \<Rightarrow> attrs \<Rightarrow> bool" where
  "cap_has fs s \<longleftrightarrow> (\<forall>(name, _) \<in> set fs. dget s name \<noteq> None)"

text \<open>A configuration with the attributes that its classes declare, and nothing else.\<close>

definition capacity_declared :: "capacity \<Rightarrow> capacity" where
  "capacity_declared c =
     c\<lparr>cap_pool := cap_declared pool_fields (cap_pool c), cap_concurrency := cap_declared concurrency_fields (cap_concurrency c),
       cap_timeouts := cap_declared timeout_fields (cap_timeouts c), cap_backoff := cap_declared backoff_fields (cap_backoff c),
       cap_degrade := cap_declared degrade_fields (cap_degrade c)\<rparr>"

definition capacity_complete :: "capacity \<Rightarrow> bool" where
  "capacity_complete c \<longleftrightarrow>
     cap_has pool_fields (cap_pool c) \<and> cap_has concurrency_fields (cap_concurrency c) \<and>
     cap_has timeout_fields (cap_timeouts c) \<and> cap_has backoff_fields (cap_backoff c) \<and> cap_has degrade_fields (cap_degrade c)"

lemma dget_declared: "dget (cap_declared fs s) name = (if name \<in> fst ` set fs then Some (the (dget s name)) else None)"
  by (induction fs) (auto simp: cap_declared_def)

lemma dc_roundtrip:
  assumes "cap_has fs s"
  shows "dc_dump fs s = Inr (JDict (cap_declared fs s)) \<and> dc_make fs (JDict (cap_declared fs s)) = Inr (cap_declared fs s)"
proof
  have "emap (\<lambda>(name, _). ebind (cap_attr s name) (\<lambda>v. Inr (name, v))) fs = Inr (cap_declared fs s)"
    using assms by (induction fs) (auto simp: cap_has_def cap_attr_def cap_declared_def)
  then show "dc_dump fs s = Inr (JDict (cap_declared fs s))" by (simp add: dc_dump_def)
  have "dget fs (fst x) \<noteq> None" if "x \<in> set (cap_declared fs s)" for x
  proof -
    have "fst x \<in> fst ` set fs" using that by (force simp: cap_declared_def)
    then show ?thesis by (simp add: map_of_eq_None_iff)
  qed
  then have "find (\<lambda>(k, _). dget fs k = None) (cap_declared fs s) = None"
    by (auto simp: find_None_iff split_beta)
  moreover have "map (\<lambda>(name, def). (name, dget_or def (cap_declared fs s) name)) fs = cap_declared fs s"
    by (rule trans [OF _ cap_declared_def [symmetric]]) (force simp: dget_or_def dget_declared)
  ultimately show "dc_make fs (JDict (cap_declared fs s)) = Inr (cap_declared fs s)" by (simp add: dc_make_def)
qed

text \<open>
  What is saved is loaded: a configuration that is saved to a file and loaded from it has all its values back. Attributes
  that an update has added beyond those of the classes are lost.
\<close>

theorem capacity_saved_is_loaded:
  assumes "\<And>v. capacity_to_dict c = Inr v \<Longrightarrow> load (dump v) = Inr v" and "capacity_complete c"
  shows "\<exists>m1. cpm_save_config dump c (Some name) m = (Inr (), m1) \<and> cpm_load_config load name m1 = Inr (capacity_declared c)"
proof -
  note rt = assms(2) [unfolded capacity_complete_def, THEN conjunct1, THEN dc_roundtrip]
    dc_roundtrip [of concurrency_fields] dc_roundtrip [of timeout_fields] dc_roundtrip [of backoff_fields] dc_roundtrip [of degrade_fields]
  have env: "enum_of environment_value [EnvDevelopment, EnvStaging, EnvProduction] (environment_value e) = Inr e" for e
    by (cases e) (simp_all add: enum_of_def)
  have mode: "enum_of degrade_mode_value [ModeNormal, ModeDegraded, ModeEmergency] (degrade_mode_value x) = Inr x" for x
    by (cases x) (simp_all add: enum_of_def)
  obtain v where "capacity_to_dict c = Inr v" "capacity_of_dict v = Inr (capacity_declared c)"
    using rt assms(2)
    by (simp add: capacity_to_dict_def capacity_of_dict_def capacity_complete_def capacity_declared_def env mode)
  then show ?thesis using assms(1) by (simp add: cpm_save_config_def cpm_load_config_def Let_def dget_dset)
qed

text \<open>The limits of a configuration that degrading lowers, with the least values it leaves them.\<close>

definition cap_int :: "attrs \<Rightarrow> string \<Rightarrow> int option" where
  "cap_int s name = (case dget s name of Some (JInt i) \<Rightarrow> Some i | _ \<Rightarrow> None)"

definition cap_limits :: "capacity \<Rightarrow> int option list" where
  "cap_limits c =
     [cap_int (cap_pool c) ''min_size'', cap_int (cap_pool c) ''max_size'', cap_int (cap_pool c) ''retry_attempts'',
      cap_int (cap_concurrency c) ''max_concurrent_requests'', cap_int (cap_concurrency c) ''max_concurrent_tasks'',
      cap_int (cap_concurrency c) ''max_concurrent_connections'', cap_int (cap_backoff c) ''max_attempts'']"

definition cap_floors :: "int list" where
  "cap_floors = [1, 5, 1, 10, 5, 50, 1]"

lemma cap_int_Some: "cap_int s name = Some i \<longleftrightarrow> dget s name = Some (JInt i)"
  by (auto simp: cap_int_def split: option.splits json.splits)

lemma cap_attr_Inr: "cap_attr s name = Inr v \<longleftrightarrow> dget s name = Some v"
  by (auto simp: cap_attr_def split: option.split)

lemma py_max_JInt [simp]: "py_max n (JInt i) = Inr (JInt (max n i))"
  by (simp add: py_max_def max_def)

lemmas cap_section_defs = cap_section_def cap_halved_def cap_less_one_def cap_scaled_def cap_same_def cap_const_def cap_attr_def

lemma degraded_pool:
  assumes "cap_section [cap_halved 1 ''min_size'', cap_halved 5 ''max_size'', cap_scaled 2 ''timeout'',
      cap_less_one ''retry_attempts'', cap_scaled 2 ''retry_delay''] s = Inr p"
    and "dget s ''min_size'' = Some (JInt a)" "dget s ''max_size'' = Some (JInt b)" "dget s ''retry_attempts'' = Some (JInt r)"
  shows "dget p ''min_size'' = Some (JInt (max 1 (a div 2)))" "dget p ''max_size'' = Some (JInt (max 5 (b div 2)))"
    "dget p ''retry_attempts'' = Some (JInt (max 1 (r - 1)))"
  using assms by (auto simp: cap_section_defs ebind_Inr)

lemma degraded_concurrency:
  assumes "cap_section [cap_halved 10 ''max_concurrent_requests'', cap_halved 5 ''max_concurrent_tasks'',
      cap_halved 50 ''max_concurrent_connections'', cap_scaled 2 ''request_timeout'', cap_scaled 2 ''task_timeout''] s = Inr p"
    and "dget s ''max_concurrent_requests'' = Some (JInt q)" "dget s ''max_concurrent_tasks'' = Some (JInt t)"
      "dget s ''max_concurrent_connections'' = Some (JInt n)"
  shows "dget p ''max_concurrent_requests'' = Some (JInt (max 10 (q div 2)))"
    "dget p ''max_concurrent_tasks'' = Some (JInt (max 5 (t div 2)))"
    "dget p ''max_concurrent_connections'' = Some (JInt (max 50 (n div 2)))"
  using assms by (auto simp: cap_section_defs ebind_Inr)

lemma degraded_backoff:
  assumes "cap_section [cap_scaled 2 ''initial_delay'', cap_scaled 2 ''max_delay'', cap_same ''multiplier'', cap_same ''jitter'',
      cap_less_one ''max_attempts''] s = Inr p" and "dget s ''max_attempts'' = Some (JInt x)"
  shows "dget p ''max_attempts'' = Some (JInt (max 1 (x - 1)))"
  using assms by (auto simp: cap_section_defs ebind_Inr)

lemma degraded_limits:
  assumes "degraded_config c = Inr d" and limits: "cap_limits c = map Some [a, b, r, q, t, n, x]"
  shows "cap_limits d = map Some [max 1 (a div 2), max 5 (b div 2), max 1 (r - 1), max 10 (q div 2), max 5 (t div 2),
    max 50 (n div 2), max 1 (x - 1)]"
proof -
  from assms(1) [unfolded degraded_config_def ebind_Inr] obtain p k u w where
    "cap_section [cap_halved 1 ''min_size'', cap_halved 5 ''max_size'', cap_scaled 2 ''timeout'',
      cap_less_one ''retry_attempts'', cap_scaled 2 ''retry_delay''] (cap_pool c) = Inr p" (is ?p)
    "cap_section [cap_halved 10 ''max_concurrent_requests'', cap_halved 5 ''max_concurrent_tasks'',
      cap_halved 50 ''max_concurrent_connections'', cap_scaled 2 ''request_timeout'', cap_scaled 2 ''task_timeout'']
      (cap_concurrency c) = Inr k" (is ?k)
    "cap_section [cap_scaled 2 ''initial_delay'', cap_scaled 2 ''max_delay'', cap_same ''multiplier'', cap_same ''jitter'',
      cap_less_one ''max_attempts''] (cap_backoff c) = Inr w" (is ?w)
    and d: "d = \<lparr>cap_environment = cap_environment c, cap_pool = p, cap_concurrency = k, cap_timeouts = u, cap_backoff = w,
       cap_degrade = degrade_all, cap_mode = ModeDegraded, cap_metrics = cap_metrics c, cap_tracing = cap_tracing c,
       cap_profiling = JBool False\<rparr>"
    by blast
  note facts = limits [unfolded cap_limits_def list.map list.inject cap_int_Some]
  have "dget p ''min_size'' = Some (JInt (max 1 (a div 2)))" "dget p ''max_size'' = Some (JInt (max 5 (b div 2)))"
    "dget p ''retry_attempts'' = Some (JInt (max 1 (r - 1)))"
    using degraded_pool [OF \<open>?p\<close>] facts by simp_all
  moreover have "dget k ''max_concurrent_requests'' = Some (JInt (max 10 (q div 2)))"
    "dget k ''max_concurrent_tasks'' = Some (JInt (max 5 (t div 2)))"
    "dget k ''max_concurrent_connections'' = Some (JInt (max 50 (n div 2)))"
    using degraded_concurrency [OF \<open>?k\<close>] facts by simp_all
  moreover have "dget w ''max_attempts'' = Some (JInt (max 1 (x - 1)))" using degraded_backoff [OF \<open>?w\<close>] facts by simp
  ultimately show ?thesis by (simp add: d cap_limits_def cap_int_def)
qed

lemma emergency_limits:
  assumes "emergency_config c = Inr d"
  shows "cap_limits d = map Some [1, 5, 1, 5, 2, 10, 1]"
proof -
  from assms [unfolded emergency_config_def ebind_Inr] obtain p k u w where
    "cap_section [cap_const (JInt 1) ''min_size'', cap_const (JInt 5) ''max_size'', cap_scaled 4 ''timeout'',
      cap_const (JInt 1) ''retry_attempts'', cap_scaled 4 ''retry_delay''] (cap_pool c) = Inr p" (is ?p)
    "cap_section [cap_const (JInt 5) ''max_concurrent_requests'', cap_const (JInt 2) ''max_concurrent_tasks'',
      cap_const (JInt 10) ''max_concurrent_connections'', cap_scaled 4 ''request_timeout'', cap_scaled 4 ''task_timeout'']
      (cap_concurrency c) = Inr k" (is ?k)
    "cap_section [cap_scaled 4 ''initial_delay'', cap_scaled 4 ''max_delay'', cap_same ''multiplier'', cap_same ''jitter'',
      cap_const (JInt 1) ''max_attempts''] (cap_backoff c) = Inr w" (is ?w)
    and d: "d = \<lparr>cap_environment = cap_environment c, cap_pool = p, cap_concurrency = k, cap_timeouts = u, cap_backoff = w,
       cap_degrade = degrade_all, cap_mode = ModeEmergency, cap_metrics = JBool True, cap_tracing = JBool False,
       cap_profiling = JBool False\<rparr>"
    by blast
  have "dget p ''min_size'' = Some (JInt 1) \<and> dget p ''max_size'' = Some (JInt 5) \<and> dget p ''retry_attempts'' = Some (JInt 1)"
    using \<open>?p\<close> by (auto simp: cap_section_defs ebind_Inr)
  moreover have "dget k ''max_concurrent_requests'' = Some (JInt 5) \<and> dget k ''max_concurrent_tasks'' = Some (JInt 2) \<and>
    dget k ''max_concurrent_connections'' = Some (JInt 10)"
    using \<open>?k\<close> by (auto simp: cap_section_defs ebind_Inr)
  moreover have "dget w ''max_attempts'' = Some (JInt 1)" using \<open>?w\<close> by (auto simp: cap_section_defs ebind_Inr)
  ultimately show ?thesis by (simp add: d cap_limits_def cap_int_def)
qed

text \<open>
  Degrading lowers limits: of a configuration whose limits are whole numbers of at least the floors, no limit of the
  degraded form is larger, and no limit of the emergency form is larger than that of the degraded one.
\<close>

theorem capacity_modes_ordered:
  assumes limits: "cap_limits c = map Some ls" and floors: "list_all2 (\<le>) cap_floors ls"
    and d: "degraded_config c = Inr d" and e: "emergency_config c = Inr e"
  shows "\<exists>ds es. cap_limits d = map Some ds \<and> cap_limits e = map Some es \<and> list_all2 (\<le>) ds ls \<and> list_all2 (\<le>) es ds"
proof -
  have "length ls = 7" using floors by (auto simp: cap_floors_def dest: list_all2_lengthD)
  then obtain a b r q t n x where ls: "ls = [a, b, r, q, t, n, x]"
    by (auto simp: numeral_eq_Suc length_Suc_conv)
  have fl: "1 \<le> a" "5 \<le> b" "1 \<le> r" "10 \<le> q" "5 \<le> t" "50 \<le> n" "1 \<le> x"
    using floors by (simp_all add: ls cap_floors_def)
  let ?ds = "[max 1 (a div 2), max 5 (b div 2), max 1 (r - 1), max 10 (q div 2), max 5 (t div 2), max 50 (n div 2), max 1 (x - 1)]"
  have "k div 2 \<le> k" if "1 \<le> k" for k :: int using that by linarith
  then have "list_all2 (\<le>) ?ds ls" "list_all2 (\<le>) [1, 5, 1, 5, 2, 10, 1] ?ds" using fl by (simp_all add: ls le_max_iff_disj)
  moreover have "cap_limits d = map Some ?ds" using degraded_limits [OF d] limits by (simp add: ls)
  ultimately show ?thesis using emergency_limits [OF e] by blast
qed

text \<open>Below the floors degrading raises a limit.\<close>

lemma degraded_raises_small:
  assumes "degraded_config c = Inr d" and "cap_limits c = map Some [a, b, r, q, t, n, x]" and "q < 10"
  shows "cap_limits d ! 3 = Some 10"
  using degraded_limits [OF assms(1,2)] assms(3) by (simp add: max_def)

text \<open>What was handed out changes with an update: it is the same object.\<close>

lemma capacity_update_shared:
  assumes "cpm_get_config (Some e) m = Inr i" and "i < length (cpm_objects m)"
  shows "cpm_get_config (Some e) (snd (cpm_update_config e us m)) = Inr i \<and>
    cpm_objects (snd (cpm_update_config e us m)) ! i = fold capacity_update_one us (cpm_objects m ! i)"
  using assms by (auto simp: cpm_get_config_def cpm_update_config_def Let_def split: option.splits)

section \<open>Examples\<close>

lemmas capacity_field_defs = pool_fields_def concurrency_fields_def timeout_fields_def backoff_fields_def degrade_fields_def

lemma staging_complete: "capacity_complete staging_capacity"
  by (simp add: capacity_complete_def cap_has_def staging_capacity_def capacity_field_defs)

lemma staging_declared: "capacity_declared staging_capacity = staging_capacity"
  by (simp add: capacity_declared_def cap_declared_def staging_capacity_def capacity_field_defs)

theorem capacity_saved_is_loaded_witness:
  "\<exists>m1. cpm_save_config (\<lambda>_. ''x'') staging_capacity (Some ''f'') (cpm_init None []) = (Inr (), m1) \<and>
     cpm_load_config (\<lambda>_. capacity_to_dict staging_capacity) ''f'' m1 = Inr staging_capacity"
  using capacity_saved_is_loaded [of staging_capacity "\<lambda>_. capacity_to_dict staging_capacity" "\<lambda>_. ''x''" "''f''" "cpm_init None []"]
  by (simp add: staging_complete staging_declared)

theorem capacity_modes_ordered_witness:
  "\<exists>d ds. degraded_config production_capacity = Inr d \<and> cap_limits d = map Some ds \<and> list_all2 (\<le>) ds [10, 100, 5, 500, 200, 2000, 5]"
proof -
  have limits: "cap_limits production_capacity = map Some [10, 100, 5, 500, 200, 2000, 5]"
    by (simp add: cap_limits_def cap_int_def production_capacity_def)
  have floors: "list_all2 (\<le>) cap_floors [10, 100, 5, 500, 200, 2000, 5]" by (simp add: cap_floors_def)
  have "\<not> isl (degraded_config production_capacity)" "\<not> isl (emergency_config production_capacity)"
    by (simp_all add: degraded_config_def emergency_config_def cap_section_defs production_capacity_def capacity_field_defs)
  then obtain d e where "degraded_config production_capacity = Inr d" "emergency_config production_capacity = Inr e"
    by (metis isl_def sum.exhaust_sel sum.collapse(2))
  from capacity_modes_ordered [OF limits floors this] this show ?thesis by blast
qed

end
