(* ===== verification/Spec2Isabelle.thy ===== *)
theory Spec2Isabelle
  imports CircuitBreaker Bulkhead RetryPolicy RetryAdapter TimeoutHandler RateLimiter HealthChecker
    SagaPattern ResilientAdapter ToolAdapter SagaManagerRel TokenBuckets ConcurrencyTokens Fairness WorkflowLoader Failover CostCeiling Router Slo
    ToolBase DeadLetters EventBatches EventService CveGates CoordinatedCancellation ClientQuotas Hedging Resilience
    TimeoutTiers Runbooks Baselines SemanticCache ModelGateway Replication Mirroring
    PrivacyMiddleware ThreatDetection CapacityConfig
begin

text \<open>
  \<^bold>\<open>A model of the reliability core of the multi-agent platform.\<close>

  The repository is a Python platform of agents, tools and services. What every service
  shares, and what decides whether a failing tool, a slow database or a greedy tenant stays a
  local problem, is the code under \<^verbatim>\<open>libs/adapters\<close>, \<^verbatim>\<open>libs/reliability\<close>, \<^verbatim>\<open>libs/security\<close> and their neighbours:
  circuit breakers, bulkheads, retries, timeouts, rate limits, health checks, idempotency, the
  write-ahead log, sagas and concurrency tokens. This development models those classes and proves
  what they promise, and where the code does not keep a promise it proves that instead.

  \<^bold>\<open>Conventions\<close> (theory \<open>Prelude\<close>). A coroutine is a function of the deadline that an enclosing
  \<open>asyncio.wait_for\<close> imposes, of the clock and of a world; it yields an outcome (a value, an
  exception, or the cancellation of the task), the clock and the world. \<open>asyncio.sleep\<close> and
  \<open>asyncio.wait_for\<close> are defined there. Exceptions carry their class and its bases, so that
  \<open>except\<close> clauses are tests on them. Floats are exact rationals: rounding is not modelled.
  Python integers are \<open>int\<close>, dicts are association lists in insertion order. Log calls have no
  counterpart. Where the event loop may run other tasks between two awaits of a method, the
  method is split at the awaits into atomic segments, and the statements about concurrent use
  quantify over all interleavings of segments.

  \<^bold>\<open>Interfaces\<close> (theory \<open>Interfaces\<close>). The contracts shared by the components are locales, each
  interpreted on the code's model in the theory of the component:
  \<^item> \<open>layer\<close>, \<open>layer_stack\<close>: a wrapper around an awaited function keeps the clock honest and
    invents no result; so does a stack of wrappers. Interpreted by the deadline itself, the
    timeout handler, the timeout tiers, the retry managers, the guards, and the whole stack of the
    tool adapter.
  \<^item> \<open>retry_loop\<close>: a loop of attempts; every retry loop of the code interprets it.
  \<^item> \<open>guard\<close>, \<open>counted_guard\<close>: admission and settlement of a call, and its statistics.
  \<^item> \<open>pool\<close>, \<open>counted_pool\<close>: the permits of a semaphore under every interleaving.
  \<^item> \<open>breaker\<close>: consecutive failures trip a breaker, which then shields what it protects.
  \<^item> \<open>token_limiter\<close>: what a token bucket admits.
  \<^item> \<open>self_locking\<close> (theory \<open>EventBatches\<close>): an object that waits for a lock it holds answers nobody
    any more; interpreted by the event producer and the event store.
  \<^item> \<open>link_manager\<close> (theory \<open>LinkTasks\<close>): a manager of links with tasks in the background, what a pause keeps and what a
    lost task undoes; interpreted by the managers of replications and of mirrors.

  \<^bold>\<open>Components\<close>, one theory each (two for \<^verbatim>\<open>libs/reliability/base_adapter.py\<close>):
  \<^item> \<open>CircuitBreaker\<close> (\<^verbatim>\<open>libs/adapters/circuit_breaker.py\<close>): \<open>cb_enter\<close> and \<open>cb_leave\<close> are the segments of
    \<open>call\<close>. Accounting of calls and the state invariant under every interleaving; tripping and
    shielding; what the probe call decides.
  \<^item> \<open>Bulkhead\<close> (\<^verbatim>\<open>libs/adapters/bulkhead.py\<close>): arrival, acquisition, rejection and release. Concurrency
    is bounded and no permit is lost.
  \<^item> \<open>RetryPolicy\<close>, \<open>RetryAdapter\<close> (\<^verbatim>\<open>retry_policy.py\<close>, \<^verbatim>\<open>retry_adapter.py\<close>): number of attempts, delays,
    statistics.
  \<^item> \<open>TimeoutHandler\<close> (\<^verbatim>\<open>timeout_handler.py\<close>): time-boxing and the bounded history.
  \<^item> \<open>RateLimiter\<close> (\<^verbatim>\<open>rate_limiter.py\<close>): token bucket, sliding and fixed window.
  \<^item> \<open>HealthChecker\<close> (\<^verbatim>\<open>health_checker.py\<close>): the health state machine; recovery and its gap.
  \<^item> \<open>SagaPattern\<close> (\<^verbatim>\<open>saga_pattern.py\<close>): a saga completes or compensates in reverse order; the metrics
    balance.
  \<^item> \<open>ResilientAdapter\<close> (\<^verbatim>\<open>resilient_adapter.py\<close>): breaker, bulkhead, retries and timeout in one class;
    isolation, accounting, time bound.
  \<^item> \<open>ToolPatterns\<close>, \<open>ToolAdapter\<close> (\<^verbatim>\<open>libs/reliability/base_adapter.py\<close>): the half-open quota of the breaker
    and how cancelled probes exhaust it; \<open>BaseToolAdapter.execute\<close> with idempotency and
    write-ahead log: each execution is recorded with its outcome, replayed under the same key,
    bounded in time and in invocations of the tool.
  \<^item> \<open>SagaManagerRel\<close> (\<^verbatim>\<open>libs/reliability/saga_manager.py\<close>): tasks as the places where they wait; order of
    tool calls and compensations; what a cancellation does not stop.
  \<^item> \<open>TokenBuckets\<close> (\<^verbatim>\<open>libs/security/token_buckets.py\<close>): local buckets, the Lua script of the shared
    buckets, tenants; the admission bound of both modes, their agreement, isolation of tenants.
  \<^item> \<open>ConcurrencyTokens\<close> (\<^verbatim>\<open>libs/security/concurrency_tokens.py\<close>): conservation of tokens without waiters, and
    how waiting and expiry break it.
  \<^item> \<open>Fairness\<close> (\<^verbatim>\<open>libs/security/fairness_middleware.py\<close>): the weighted fair scheduler, admission
    control and the middleware over them; weighted shares of backlogged tenants, what a dequeue
    picks, the limit that is not enforced, monotone degradation, the books of the middleware.
  \<^item> \<open>Json\<close>, \<open>WorkflowGraph\<close>, \<open>WorkflowLoader\<close> (\<^verbatim>\<open>libs/workflows/workflow_loader.py\<close>): parsed files as
    JSON values with the exceptions of Python on them; the recursive cycle search, which
    terminates and decides acyclicity; parsing, merging, mutation, validation and the loader with
    its cache. What validation accepts, the round trip of a specification, the merge of paths,
    and the features of the loader that cannot work.
  \<^item> \<open>Failover\<close> (\<^verbatim>\<open>libs/infrastructure/failover_manager.py\<close>): health check rounds and failovers as tasks;
    \<open>fo_reach\<close> interleaves them. Cool-down and counting, the outcome of an undisturbed failover,
    the recovery that is never attempted, overlapping failovers.
  \<^item> \<open>PyTime\<close>, \<open>Tables\<close>, \<open>CostCeiling\<close> (\<^verbatim>\<open>libs/performance/cost_ceiling_manager.py\<close>): date-times with
    their order and calendar; operations on tables that may raise; the manager over the tables of
    its database. The cache of the current spending
    refines the query in windows that were opened by a query, and counts the first charge twice
    otherwise; the keys of windows; the round trip of a ceiling; identifiers that clash.
  \<^item> \<open>RouterSchema\<close>, \<open>Router\<close> (\<^verbatim>\<open>libs/router/router_base.py\<close>): the schema validator decides conformance
    and its two depth computations agree; novelty is 0 exactly for requests that look alike; the
    aggregated metrics that stop at the first request; the books of the router.
  \<^item> \<open>Slo\<close> (\<^verbatim>\<open>libs/observability/slo_manager.py\<close>): error budgets and the manager of objectives; which
    alert a metric triggers, the latency objective that alarms on success, no exceptions for
    sensible targets, the summary as a partition.
  \<^item> \<open>ToolBase\<close> (\<^verbatim>\<open>libs/resilience/tool_adapter_base.py\<close>): idempotency, write-ahead log, breaker,
    retries and recovery over one Redis. What recovery completes, how one unreadable entry hides
    the log, the books of \<open>execute\<close>, when the breaker opens.
  \<^item> \<open>DeadLetters\<close> (\<^verbatim>\<open>libs/events/dlq_handler.py\<close>, \<^verbatim>\<open>event_consumer.py\<close>): the dead letter queue is bounded and in
    order, and its retries remove the wrong entries; every event a consumer takes is settled once.
  \<^item> \<open>EventBatches\<close> (\<^verbatim>\<open>event_producer.py\<close>, \<^verbatim>\<open>event_store.py\<close>): the batch that locks its producer out, what a
    flush settles, the books and the statistics of the store.
  \<^item> \<open>NatsEvents\<close>, \<open>EventService\<close> (\<^verbatim>\<open>nats_client.py\<close>, \<^verbatim>\<open>event_bus.py\<close>, \<^verbatim>\<open>event_handlers.py\<close>, \<^verbatim>\<open>dlq_processor.py\<close>,
    \<^verbatim>\<open>event_service.py\<close>): the path of an event over NATS. The service that starts without
    subscribing, the dead letters that no handler gets, the failures that are not recorded.
  \<^item> \<open>CveGates\<close> (\<^verbatim>\<open>libs/security/cve_gates.py\<close>): vulnerabilities, rules and the evaluation of a gate; what
    the severity threshold lets through, the marks that count for nothing.
  \<^item> \<open>CoordinatedCancellation\<close> (\<^verbatim>\<open>libs/clients/http/coordinated_cancellation.py\<close>): cancellations and their tasks;
    \<open>cn_reach\<close> interleaves them. Nothing is ever reported as failed, and nothing is cancelled twice.
  \<^item> \<open>ClientQuotas\<close> (\<^verbatim>\<open>libs/clients/rate_limiter.py\<close>, \<^verbatim>\<open>quota_enforcer.py\<close>): the script of a token bucket, its
    bound, and the steady client it starves; what the quota checks decide.
  \<^item> \<open>Hedging\<close> (\<^verbatim>\<open>libs/clients/http/request_hedging.py\<close>): hedged requests, none of which returns.
  \<^item> \<open>Resilience\<close> (\<^verbatim>\<open>libs/utils/resilience_patterns.py\<close>): the decorators for retries, time limits and
    circuit breaking; a bound on the duration of a retried operation.
  \<^item> \<open>TimeoutTiers\<close> (\<^verbatim>\<open>libs/clients/http/timeout_manager.py\<close>): time limits by kind of operation, their
    statistics and the advice drawn from them; \<open>tt_step\<close> interleaves operations. The table of the
    running operations is exact, the advice to raise a limit is characterised.
  \<^item> \<open>Runbooks\<close> (\<^verbatim>\<open>libs/infrastructure/dr_runbooks.py\<close>): runbooks and their executions as tasks. A
    completed execution ran its steps in order, a failed step rolls back what was completed, and a
    cancelled task leaves its execution running for ever.
  \<^item> \<open>Baselines\<close> (\<^verbatim>\<open>libs/performance/baseline_manager.py\<close>): metrics, baselines and alerts over their
    tables. What an aggregate is bounded by, how many values a percentile covers, and the
    regression that is forgotten once it is reported.
  \<^item> \<open>SemanticCache\<close> (\<^verbatim>\<open>apps/data-plane/semantic-cache-service\<close>): contents by similarity over Redis, and the
    dictionary that the service uses instead. The search ranks as specified, a stored content is
    found, tenants are apart unless their names contain a colon, and the index that expires too early.
  \<^item> \<open>ModelGateway\<close> (\<^verbatim>\<open>apps/data-plane/model-gateway\<close>): breakers, limits, providers and completions. What a
    tenant gets, how it locks out others, what a dead provider costs, and exact metering.
  \<^item> \<open>LinkTasks\<close>, \<open>Replication\<close>, \<open>Mirroring\<close> (\<^verbatim>\<open>libs/infrastructure/postgres_replication.py\<close>, \<^verbatim>\<open>nats_mirroring.py\<close>):
    replicated databases and mirrored streams, each with a task that checks its health and one that synchronises it. What is
    paused stays paused while the manager knows its tasks, and how it loses one; set-ups that are reported active without a
    connection; the region that alone decides about the health of a mirror.
  \<^item> \<open>Regex\<close>, \<open>PiiDetector\<close> (\<^verbatim>\<open>libs/utils/security/pii_detector.py\<close>): the expressions of Python's \<open>re\<close> that the
    code uses, and the search for personal data with them. What is detected, what the redaction replaces, how nested
    detections leak, and the check digit of credit cards.
  \<^item> \<open>FieldEncryption\<close> (\<^verbatim>\<open>libs/utils/security/field_encryption.py\<close>): keys, ciphers and encrypted fields. The round trip of a
    value, the rotation that loses the data, the clean-up that never does anything.
  \<^item> \<open>PrivacyMiddleware\<close> (\<^verbatim>\<open>libs/middleware/privacy_middleware.py\<close>): detector and encryption between an application and its
    clients. What is hidden at every depth, what is not: personal data of types that are not allowed, and responses that are
    not objects; the request that runs twice.
  \<^item> \<open>InputValidation\<close>, \<open>ThreatDetection\<close> (\<^verbatim>\<open>libs/security/validation.py\<close>, \<^verbatim>\<open>threat_detection.py\<close>): the checks of texts and
    nested data, the search for circular references, and what counts as an attack.
  \<^item> \<open>CapacityConfig\<close> (\<^verbatim>\<open>apps/data-plane/orchestrator/configs/capacity_config.py\<close>): the capacities of the environments, their
    degraded and emergency forms, and their files.

  \<^bold>\<open>How they interact.\<close> \<open>BaseToolAdapter\<close> stacks \<open>wait_for\<close> over the bulkhead over the breaker over the
  retry manager over the tool (\<open>ta_stack\<close>); a saga of \<open>SagaManagerRel\<close> awaits the \<open>execute\<close> of such
  adapters and their compensations. The classes of \<^verbatim>\<open>libs/adapters\<close> are alternatives to them with
  the same roles. Rate limits and concurrency tokens are taken per tenant before work starts. The
  event service stands on the event bus, that on the NATS client; the dead letters of the client go
  to the processor, which runs the same handlers. The privacy middleware applies the detector to texts
  and the field encryption to entries with sensitive names; the threat detector uses the pattern
  expressions of the input validator, and both those of theory \<open>Regex\<close>. The model gateway stacks its own
  limiter and breakers over the providers.

  \<^bold>\<open>Parameters.\<close> Redis, the tools, the random draws (of runbooks, of the mock embeddings and of the back-offs),
  fresh identifiers, the scheduling of parallel tasks, the element that \<open>set.pop()\<close> takes, JetStream, the answers of
  PostgreSQL and NATS to statements, HTTP clients, the database sessions, the pydantic models, Fernet with base64
  and the key management service, the sanitiser \<open>bleach\<close>, the application behind a middleware,
  and the text functions \<open>str\<close>, \<open>md5\<close> and \<open>json\<close> are
  arguments of the definitions that use them. Nothing is assumed of them but what a theorem
  names as its hypothesis.

  \<^bold>\<open>Bounds.\<close> Loops are recursive in a list of attempts or steps and need no fuel. The one
  endless loop that is run as a function, the background checks of a health checker, is given the number of its rounds
  (\<open>hc_run_checks\<close>); each clean-up round of the concurrency manager, of the dead letter queue and of
  the event store is one step, as is one round of a task of \<open>LinkTasks\<close> and one turn of the message loop of the
  NATS client. Waiting for a lock the task itself holds is a value of its own (\<open>Hangs\<close>, \<open>None\<close>). The search for
  circular references terminates by the number of containers it has not seen; the matcher of \<open>Regex\<close> is recursive in
  the expression and in the length of the text.

  \<^bold>\<open>Not modelled\<close>: the frames of the services, which pass requests to a database or to another service; the
  adapters over aiohttp and asyncpg, of which the base class cannot be imported; middleware that only reads
  headers; authentication and the encryption of tokens, which are calls of JWT and bcrypt; declarations of data that
  pydantic checks; tracing, logging and the queries of the SLO monitor in \<^verbatim>\<open>platform\<close>; migrations and SQL
  policies; wrappers that run external scanners and signers; load profiles, tests, scripts, front ends and
  manifests. They are glue to frameworks and I/O, and keep no state whose correctness could be stated without them.
\<close>

end
